(* ===== verification/Bat_Prelude.thy ===== *)
theory Bat_Prelude
  imports Main "HOL-Library.Word"
begin

text \<open>
  The prelude of the development: the machine integers and addresses of the
  code, the part of the kernel that the code calls and that is not in the
  repository (gathered in one record, so that it is a parameter of every
  definition that uses it), the collections of rewrite rules, and the generic
  lemmas that several components share.

  The platform is the 64-bit one: \<open>unsigned long\<close> has 64 bits, hence a sequence
  window of 64 bits is one machine word.
\<close>

unbundle bit_operations_syntax

section \<open>Integers and addresses\<close>

type_synonym u8 = "8 word"
type_synonym u16 = "16 word"
type_synonym u32 = "32 word"
type_synonym u64 = "64 word"

text \<open>A signed 32-bit value is a 32-bit word that is read with \<open>sint\<close>.\<close>

type_synonym s32 = "32 word"

text \<open>An Ethernet address has 48 bits; \<open>batadv_compare_eth\<close> is equality on it.\<close>

type_synonym mac = "48 word"

text \<open>A VLAN identifier, with the tag marker in bit 15.\<close>

type_synonym vid = "16 word"

definition batadv_compare_eth :: "mac \<Rightarrow> mac \<Rightarrow> bool" where
  "batadv_compare_eth data1 data2 \<longleftrightarrow> data1 = data2"

lemma batadv_compare_eth_eq [simp]: "batadv_compare_eth a b \<longleftrightarrow> a = b"
  by (simp add: batadv_compare_eth_def)

definition is_broadcast_ether_addr :: "mac \<Rightarrow> bool" where
  "is_broadcast_ether_addr a \<longleftrightarrow> a = 0xFFFFFFFFFFFF"

text \<open>The multicast bit is the lowest bit of the first byte on the wire.\<close>

definition is_multicast_ether_addr :: "mac \<Rightarrow> bool" where
  "is_multicast_ether_addr a \<longleftrightarrow> bit a 40"

lemma broadcast_is_multicast:
  "is_broadcast_ether_addr a \<Longrightarrow> is_multicast_ether_addr a"
  by (simp add: is_broadcast_ether_addr_def is_multicast_ether_addr_def)

section \<open>The kernel around the code\<close>

text \<open>
  Time and hash functions come from the kernel. \<open>k_jiffies\<close> is the clock at the
  moment an operation runs, \<open>k_m2j\<close> is \<open>msecs_to_jiffies\<close>, the others are the
  functions of the same name. \<open>k_arp_create\<close> is the frame that \<open>arp_create\<close> makes for a reply: its
  arguments are the target and the sender on the network layer, then the destination of the frame, the
  sender and the target on the hardware layer.
\<close>

record kenv =
  k_jiffies :: u64
  k_m2j :: "u32 \<Rightarrow> u64"
  k_jhash :: "u8 list \<Rightarrow> u32 \<Rightarrow> u32"
  k_crc16 :: "u8 list \<Rightarrow> u16"
  k_crc32c :: "u32 \<Rightarrow> u8 list \<Rightarrow> u32"
  k_arp_create :: "u32 \<Rightarrow> u32 \<Rightarrow> mac \<Rightarrow> mac \<Rightarrow> mac \<Rightarrow> u8 list"

text \<open>
  \<open>time_is_before_jiffies t\<close> of the kernel is \<open>(long)(t - jiffies) < 0\<close>.
\<close>

definition batadv_has_timed_out :: "kenv \<Rightarrow> u64 \<Rightarrow> u32 \<Rightarrow> bool" where
  "batadv_has_timed_out k timestamp timeout \<longleftrightarrow>
     sint (timestamp + k_m2j k timeout - k_jiffies k) < 0"

lemma not_timed_out_now:
  "0 \<le> sint (k_m2j k timeout) \<Longrightarrow> \<not> batadv_has_timed_out k (k_jiffies k) timeout"
  by (simp add: batadv_has_timed_out_def)

section \<open>Collections of rewrite rules\<close>

text \<open>
  \<open>window_simps\<close> holds the laws of the sequence window, \<open>bucket_simps\<close> the laws of
  hash tables, \<open>frag_simps\<close> the laws of fragment chains, \<open>store_simps\<close> the
  look-up after update laws of the stores that hold the objects of the code.
\<close>

named_theorems window_simps "laws of the sliding sequence window"
named_theorems bucket_simps "laws of the hash tables"
named_theorems frag_simps "laws of the fragment chains"
named_theorems store_simps "look-up after update in object stores"

section \<open>Bytes of an address\<close>

fun mac_bytes :: "mac \<Rightarrow> u8 list" where
  "mac_bytes a = map (\<lambda>i. ucast (drop_bit (8 * (5 - i)) a)) [0..<6]"

fun vid_bytes :: "vid \<Rightarrow> u8 list" where
  "vid_bytes v = [ucast v, ucast (drop_bit 8 v)]"

declare mac_bytes.simps [simp del] vid_bytes.simps [simp del]

section \<open>Network byte order\<close>

text \<open>The bytes of a number, the most significant first, and the number they spell.\<close>

fun be_bytes :: "nat \<Rightarrow> 'a :: len word \<Rightarrow> u8 list" where
  "be_bytes 0 w = []"
| "be_bytes (Suc n) w = ucast (drop_bit (8 * n) w) # be_bytes n w"

definition be_word :: "u8 list \<Rightarrow> 'a :: len word" where
  "be_word bs = foldl (\<lambda>a b. push_bit 8 a OR ucast b) 0 bs"

lemma length_be_bytes [simp]: "length (be_bytes n w) = n"
  by (induction n) auto

lemma foldl_be_bytes:
  "foldl (\<lambda>a b. push_bit 8 a OR ucast b) a (be_bytes n w) = push_bit (8 * n) a OR take_bit (8 * n) w"
proof (induction n arbitrary: a)
  case 0
  then show ?case by simp
next
  case (Suc n)
  have "push_bit (8 * n) (push_bit 8 a OR ucast (ucast (drop_bit (8 * n) w) :: u8)) OR take_bit (8 * n) w
      = push_bit (8 * Suc n) a OR take_bit (8 * Suc n) w"
    by (rule bit_word_eqI) (auto simp: bit_simps add.commute [of "8 * n" 8])
  then show ?case
    using Suc by simp
qed

lemma be_word_bytes: "LENGTH('a) = 8 * n \<Longrightarrow> be_word (be_bytes n (w :: 'a :: len word)) = w"
  by (simp add: be_word_def foldl_be_bytes take_bit_word_eq_self)

lemma bit_foldl_be:
  "length (bs :: u8 list) = n \<Longrightarrow> i < LENGTH('a) \<Longrightarrow>
   bit (foldl (\<lambda>a b. push_bit 8 a OR ucast b) (a :: 'a :: len word) bs) i
   = (if i < 8 * n then bit (bs ! (n - 1 - i div 8)) (i mod 8) else bit a (i - 8 * n))"
proof (induction bs arbitrary: a n)
  case Nil
  then show ?case by simp
next
  case (Cons b bs)
  let ?m = "length bs"
  have n: "n = Suc ?m" using Cons.prems by simp
  show ?case
  proof (cases "i < 8 * ?m")
    case True
    then have "i div 8 < ?m" by auto
    then have "(b # bs) ! (n - 1 - i div 8) = bs ! (?m - 1 - i div 8)"
      unfolding n by (simp add: nth_Cons')
    then show ?thesis
      using Cons.IH [of ?m "push_bit 8 a OR ucast b"] Cons.prems True n by simp
  next
    case False
    show ?thesis
    proof (cases "i < 8 * n")
      case True
      then have d: "i div 8 = ?m" "i mod 8 = i - 8 * ?m"
        using False n by (auto simp: div_nat_eqI mod_nat_eqI)
      then show ?thesis
        using Cons.IH [of ?m "push_bit 8 a OR ucast b"] Cons.prems False True n
        by (auto simp: bit_simps)
    next
      case F2: False
      then have "8 \<le> i - 8 * ?m"
        using n by simp
      then have "\<not> bit b (i - 8 * ?m)"
        using bit_imp_le_length [of b "i - 8 * ?m"] by auto
      then show ?thesis
        using Cons.IH [of ?m "push_bit 8 a OR ucast b"] Cons.prems False F2 n
        by (auto simp: bit_simps add.commute [of "8 * length bs" 8])
    qed
  qed
qed

lemma be_bytes_nth: "j < n \<Longrightarrow> be_bytes n w ! j = ucast (drop_bit (8 * (n - 1 - j)) w)"
  by (induction n arbitrary: j) (auto simp: nth_Cons')

lemma be_bytes_word:
  assumes "length bs = n" "LENGTH('a) = 8 * n"
  shows "be_bytes n (be_word bs :: 'a :: len word) = bs"
proof (rule nth_equalityI)
  show "length (be_bytes n (be_word bs :: 'a word)) = length bs"
    using assms(1) by simp
  fix j assume "j < length (be_bytes n (be_word bs :: 'a word))"
  then have j: "j < n" by simp
  show "be_bytes n (be_word bs :: 'a word) ! j = bs ! j"
  proof (rule bit_word_eqI)
    fix i assume "i < LENGTH(8)"
    then have i: "i < 8" by simp
    let ?k = "8 * (n - 1 - j) + i"
    have k: "?k < LENGTH('a)" "?k div 8 = n - 1 - j" "?k mod 8 = i"
      using i j assms(2) by auto
    have "bit (be_word bs :: 'a word) ?k = bit (bs ! (n - 1 - ?k div 8)) (?k mod 8)"
      unfolding be_word_def using bit_foldl_be [OF assms(1) k(1), of 0] k(1) assms(2) by simp
    then have "bit (be_word bs :: 'a word) ?k = bit (bs ! j) i"
      using k j by simp
    then show "bit (be_bytes n (be_word bs :: 'a word) ! j) i = bit (bs ! j) i"
      using i j by (simp add: be_bytes_nth bit_simps)
  qed
qed
section \<open>Generic lemmas\<close>

text \<open>An invariant of the step is an invariant of the loop.\<close>

lemma fold_invariant_acc:
  "(\<And>x acc. P acc \<Longrightarrow> P (f x acc)) \<Longrightarrow> P acc \<Longrightarrow> P (fold f xs acc)"
  by (induction xs arbitrary: acc) auto

lemma sint_32_bounds: "- (2 ^ 31) \<le> sint (w :: 32 word) \<and> sint w < 2 ^ 31"
  using sint_range_size[of w] by (simp add: word_size)

lemma sint_64_bounds: "- (2 ^ 63) \<le> sint (w :: 64 word) \<and> sint w < 2 ^ 63"
  using sint_range_size[of w] by (simp add: word_size)

text \<open>
  Signed readings: a sum that fits is the sum, a sum that overflows is off by
  the modulus, and on the non-negative half the signed and the unsigned reading
  agree.
\<close>

lemma sint_add_fits:
  fixes x y :: "'a :: len word"
  assumes "- (2 ^ (LENGTH('a) - 1)) \<le> sint x + sint y"
    and "sint x + sint y < 2 ^ (LENGTH('a) - 1)"
  shows "sint (x + y) = sint x + sint y"
  using assms by (simp add: sint_word_ariths signed_take_bit_int_eq_self)

lemma sint_add_overflow32:
  fixes x y :: s32
  assumes "2 ^ 31 \<le> sint x + sint y"
  shows "sint (x + y) = sint x + sint y - 2 ^ 32"
proof -
  let ?z = "sint x + sint y"
  have b: "?z < 2 ^ 32"
    using sint_32_bounds[of x] sint_32_bounds[of y] by simp
  have "sint (x + y) = signed_take_bit 31 ?z"
    by (simp add: sint_word_ariths)
  also have "\<dots> = signed_take_bit 31 (?z - 2 ^ 32)"
    by (simp add: signed_take_bit_eq_iff_take_bit_eq take_bit_eq_mod)
  also have "\<dots> = ?z - 2 ^ 32"
    using assms b by (intro signed_take_bit_int_eq_self) auto
  finally show ?thesis .
qed

lemma sint_minus_small32:
  fixes d :: s32
  assumes "- (2 ^ 31) < sint d"
  shows "sint (- d) = - sint d"
  using assms sint_32_bounds[of d]
  by (simp add: sint_word_ariths signed_take_bit_int_eq_self)

lemma unat_of_nonneg_sint:
  fixes w :: "'a :: len word"
  assumes "0 \<le> sint w"
  shows "unat w = nat (sint w)"
proof -
  have "sint w = signed_take_bit (LENGTH('a) - Suc 0) (uint w)"
    by (simp add: sint_uint)
  moreover have "\<not> bit (uint w) (LENGTH('a) - Suc 0)"
    using assms calculation by (metis signed_take_bit_nonnegative_iff)
  ultimately have "sint w = take_bit (LENGTH('a) - Suc 0) (uint w)"
    by (simp add: signed_take_bit_eq_if_positive)
  also have "\<dots> = uint w"
  proof -
    have "take_bit LENGTH('a) (uint w) = uint w"
      by transfer simp
    moreover have "take_bit (Suc (LENGTH('a) - Suc 0)) (uint w) = take_bit (LENGTH('a) - Suc 0) (uint w)"
      using \<open>\<not> bit (uint w) (LENGTH('a) - Suc 0)\<close>
        take_bit_Suc_from_most [of "LENGTH('a) - Suc 0" "uint w"] by simp
    ultimately show ?thesis
      by simp
  qed
  finally show ?thesis
    by simp
qed

lemma unat_eq_unat_iff: "unat (a :: 'a :: len word) = unat b \<longleftrightarrow> a = b"
  by (metis word_eq_iff_unsigned)

text \<open>A conversion reads the number; a narrowing one cuts it.\<close>

lemma ucast_eq_of_nat: "(ucast (x :: 'a :: len word) :: 'b :: len word) = of_nat (unat x)"
  by simp

lemma unat_ucast_mod:
  "unat (ucast (x :: 'a :: len word) :: 'b :: len word) = unat x mod 2 ^ LENGTH('b)"
  by (simp add: unsigned_ucast_eq take_bit_eq_mod)

lemma unat_u8_le: "unat (v :: u8) \<le> 255"
proof -
  have "unat v < 2 ^ 8"
    using unsigned_less [where 'b = 8 and w = v and 'a = nat] by simp
  then show ?thesis by simp
qed

lemma sint_eq_0_iff32 [simp]: "sint (w :: s32) = 0 \<longleftrightarrow> w = 0"
  by (metis sint_0 signed_word_eqI)

end
