(* ===== verification/Fragmentation.thy ===== *)
theory Fragmentation
  imports Bat_Prelude "HOL-Library.Multiset"
begin

text \<open>
  Fragmentation and reassembly, \<open>fragmentation.c\<close>. The sender eats a packet from its
  tail, the receiver keeps per originator eight chains of fragments ordered from the
  highest number to the lowest, and merges a chain when the sizes add up.

  A received fragment is its header and its payload; \<open>skb->len\<close> is 20 bytes of header
  and the payload; \<open>fs_source\<close> and \<open>fs_dest\<close> are in its Ethernet header. \<open>fs_tailroom\<close> is the room behind the data, which decides whether
  \<open>skb_put\<close> stays inside the buffer. Allocations that may fail are flags. What the
  code frees is part of the result, so that the ownership of a buffer can be stated.
\<close>

abbreviation BATADV_FRAG_BUFFER_COUNT :: "'a :: numeral" where
  "BATADV_FRAG_BUFFER_COUNT \<equiv> 8"
abbreviation BATADV_FRAG_MAX_FRAGMENTS :: "'a :: numeral" where
  "BATADV_FRAG_MAX_FRAGMENTS \<equiv> 16"
abbreviation BATADV_FRAG_MAX_FRAG_SIZE :: "'a :: numeral" where
  "BATADV_FRAG_MAX_FRAG_SIZE \<equiv> 1400"
abbreviation BATADV_FRAG_TIMEOUT :: "'a :: numeral" where
  "BATADV_FRAG_TIMEOUT \<equiv> 10000"

text \<open>\<open>sizeof(struct batadv_frag_packet)\<close>\<close>

abbreviation FRAG_HLEN :: "'a :: numeral" where
  "FRAG_HLEN \<equiv> 20"

record batadv_frag_packet =
  fp_packet_type :: u8
  fp_version :: u8
  fp_ttl :: u8
  fp_no :: "4 word"
  fp_dest :: mac
  fp_orig :: mac
  fp_seqno :: u16
  fp_total_size :: u16

record frag_skb =
  fs_hdr :: batadv_frag_packet
  fs_payload :: "u8 list"
  fs_tailroom :: nat
  fs_source :: mac
  fs_dest :: mac

definition skb_len :: "frag_skb \<Rightarrow> nat" where
  "skb_len skb = FRAG_HLEN + length (fs_payload skb)"

text \<open>A list entry: the number and the buffer. A table entry: one chain.\<close>

type_synonym batadv_frag_list_entry = "u8 \<times> frag_skb"

record batadv_frag_table_entry =
  fc_head :: "batadv_frag_list_entry list"
  fc_timestamp :: u64
  fc_seqno :: u16
  fc_size :: u16
  fc_total_size :: u16

section \<open>Receiving\<close>

text \<open>Clearing a chain frees its buffers: the emptied chain and what was freed.\<close>

definition batadv_frag_clear_chain ::
  "batadv_frag_list_entry list \<Rightarrow> batadv_frag_list_entry list \<times> frag_skb list" where
  "batadv_frag_clear_chain head = ([], map snd head)"

text \<open>
  \<open>batadv_frag_purge_orig\<close> over the eight chains; \<open>check_cb = None\<close> is the NULL callback.
\<close>

fun batadv_frag_purge_orig ::
  "batadv_frag_table_entry list \<Rightarrow> (batadv_frag_table_entry \<Rightarrow> bool) option
   \<Rightarrow> batadv_frag_table_entry list \<times> frag_skb list" where
  "batadv_frag_purge_orig [] check_cb = ([], [])"
| "batadv_frag_purge_orig (chain # rest) check_cb =
     (let (rest', freed') = batadv_frag_purge_orig rest check_cb in
      if (case check_cb of None \<Rightarrow> True | Some f \<Rightarrow> f chain) then
        (let (head', freed) = batadv_frag_clear_chain (fc_head chain)
         in (chain\<lparr>fc_head := head', fc_size := 0\<rparr> # rest', freed @ freed'))
      else (chain # rest', freed'))"

definition batadv_frag_check_entry :: "kenv \<Rightarrow> batadv_frag_table_entry \<Rightarrow> bool" where
  "batadv_frag_check_entry k frags_entry \<longleftrightarrow>
     fc_head frags_entry \<noteq> [] \<and> batadv_has_timed_out k (fc_timestamp frags_entry) BATADV_FRAG_TIMEOUT"

definition batadv_frag_size_limit :: int where
  "batadv_frag_size_limit =
     (let limit = BATADV_FRAG_MAX_FRAG_SIZE;
          limit = limit - FRAG_HLEN
      in limit * BATADV_FRAG_MAX_FRAGMENTS)"

definition batadv_frag_init_chain ::
  "batadv_frag_table_entry \<Rightarrow> u16 \<Rightarrow> bool \<times> batadv_frag_table_entry \<times> frag_skb list" where
  "batadv_frag_init_chain chain seqno =
     (if fc_seqno chain = seqno then (False, chain, [])
      else
        (let (head', freed) = (if fc_head chain \<noteq> [] then batadv_frag_clear_chain (fc_head chain)
                               else (fc_head chain, []))
         in (True, chain\<lparr>fc_head := head', fc_size := 0, fc_seqno := seqno\<rparr>, freed)))"

text \<open>
  The search for the position: \<open>None\<close> for a duplicate, otherwise the chain with the new
  entry. The code inserts nothing when there is no entry at all
  (\<open>frag_entry_last\<close> stays NULL), which the caller of this function checks.
\<close>

fun frag_insert_sorted ::
  "batadv_frag_list_entry \<Rightarrow> batadv_frag_list_entry list \<Rightarrow> batadv_frag_list_entry list option" where
  "frag_insert_sorted new [] = Some [new]"
| "frag_insert_sorted new (cur # rest) =
     (if fst cur = fst new then None
      else if fst cur < fst new then Some (new # cur # rest)
      else map_option (Cons cur) (frag_insert_sorted new rest))"

text \<open>
  The part of \<open>batadv_frag_insert_packet\<close> after the label \<open>out\<close>: drop a chain that is too
  large or inconsistent, hand a complete one over. The result is the chain, the chain
  handed over and the buffers freed.
\<close>

definition frag_insert_out ::
  "batadv_frag_table_entry \<Rightarrow> u16 \<Rightarrow> batadv_frag_table_entry \<times> batadv_frag_list_entry list \<times> frag_skb list" where
  "frag_insert_out chain total_size =
     (if uint (fc_size chain) > batadv_frag_size_limit \<or>
         fc_total_size chain \<noteq> total_size \<or>
         uint (fc_total_size chain) > batadv_frag_size_limit then
        (let (head', freed) = batadv_frag_clear_chain (fc_head chain)
         in (chain\<lparr>fc_head := head', fc_size := 0\<rparr>, [], freed))
      else if total_size = fc_size chain then
        (chain\<lparr>fc_head := [], fc_size := 0\<rparr>, fc_head chain, [])
      else (chain, [], []))"

record frag_insert_result =
  fi_ret :: bool
  fi_chain_out :: "batadv_frag_list_entry list"
  fi_freed :: "frag_skb list"

text \<open>\<open>batadv_frag_insert_packet\<close> on the bucket that the sequence number selects.\<close>

definition frag_insert_chain ::
  "kenv \<Rightarrow> batadv_frag_table_entry \<Rightarrow> frag_skb \<Rightarrow> frag_insert_result \<times> batadv_frag_table_entry" where
  "frag_insert_chain k chain skb =
     (let packet = fs_hdr skb;
          new = (ucast (fp_no packet), skb);
          added = (of_nat (skb_len skb - FRAG_HLEN) :: u16);
          (fresh, chain, freed0) = batadv_frag_init_chain chain (fp_seqno packet)
      in if fresh then
           (let chain = chain\<lparr>fc_head := [new], fc_size := added,
                              fc_timestamp := k_jiffies k, fc_total_size := fp_total_size packet\<rparr>;
                (chain, chain_out, freed) = frag_insert_out chain (fp_total_size packet)
            in (\<lparr>fi_ret = True, fi_chain_out = chain_out, fi_freed = freed0 @ freed\<rparr>, chain))
         else if fc_head chain = [] then
           (let (chain, chain_out, freed) = frag_insert_out chain (fp_total_size packet)
            in (\<lparr>fi_ret = False, fi_chain_out = chain_out, fi_freed = freed0 @ freed\<rparr>, chain))
         else
           (case frag_insert_sorted new (fc_head chain) of
              None \<Rightarrow> (\<lparr>fi_ret = False, fi_chain_out = [], fi_freed = freed0\<rparr>, chain)
            | Some head' \<Rightarrow>
                (let chain = chain\<lparr>fc_head := head', fc_size := fc_size chain + added,
                                   fc_timestamp := k_jiffies k\<rparr>;
                     (chain, chain_out, freed) = frag_insert_out chain (fp_total_size packet)
                 in (\<lparr>fi_ret = True, fi_chain_out = chain_out, fi_freed = freed0 @ freed\<rparr>, chain))))"

definition batadv_frag_insert_packet ::
  "kenv \<Rightarrow> bool \<Rightarrow> bool \<Rightarrow> batadv_frag_table_entry list \<Rightarrow> frag_skb
   \<Rightarrow> frag_insert_result \<times> batadv_frag_table_entry list" where
  "batadv_frag_insert_packet k linearize_ok alloc_ok fragments skb =
     (if \<not> linearize_ok \<or> \<not> alloc_ok then
        (\<lparr>fi_ret = False, fi_chain_out = [], fi_freed = []\<rparr>, fragments)
      else
        (let bucket = unat (fp_seqno (fs_hdr skb)) mod BATADV_FRAG_BUFFER_COUNT;
             (r, chain) = frag_insert_chain k (fragments ! bucket) skb
         in (r, fragments[bucket := chain])))"

text \<open>
  Merging. \<open>slack\<close> is what \<open>pskb_expand_head\<close> gives beyond the room it is asked for
  (the kernel rounds buffers up). \<open>Merge_Panic\<close> is \<open>skb_over_panic\<close>: the copy would
  run past the end of the buffer.
\<close>

datatype merge_result = Merge_Null | Merge_Panic | Merged "u8 list"

fun frag_copy_payloads :: "batadv_frag_list_entry list \<Rightarrow> int \<Rightarrow> u8 list \<Rightarrow> merge_result" where
  "frag_copy_payloads [] tailroom data = Merged data"
| "frag_copy_payloads (entry # rest) tailroom data =
     (let sz = length (fs_payload (snd entry))
      in if int sz > tailroom then Merge_Panic
         else frag_copy_payloads rest (tailroom - int sz) (data @ fs_payload (snd entry)))"

definition batadv_frag_merge_packets ::
  "bool \<Rightarrow> nat \<Rightarrow> batadv_frag_list_entry list \<Rightarrow> merge_result \<times> frag_skb list" where
  "batadv_frag_merge_packets expand_ok slack chain =
     (case chain of
        [] \<Rightarrow> (Merge_Null, [])
      | entry # rest \<Rightarrow>
          (let skb_out = snd entry;
               sz = uint (fp_total_size (fs_hdr skb_out))
           in if \<not> expand_ok then (Merge_Null, skb_out # map snd rest)
              else (frag_copy_payloads rest
                      (int (fs_tailroom skb_out) + (sz - int (skb_len skb_out)) + int slack)
                      (fs_payload skb_out),
                    map snd rest)))"

text \<open>
  \<open>batadv_frag_skb_buffer\<close>: the return value, what \<open>*skb\<close> becomes on success, the
  buffers freed and the chains.
\<close>

record frag_buffer_result =
  fb_ret :: bool
  fb_skb :: "merge_result option"
  fb_freed :: "frag_skb list"

definition batadv_frag_skb_buffer ::
  "kenv \<Rightarrow> bool \<Rightarrow> bool \<Rightarrow> bool \<Rightarrow> nat \<Rightarrow> batadv_frag_table_entry list \<Rightarrow> frag_skb
   \<Rightarrow> frag_buffer_result \<times> batadv_frag_table_entry list" where
  "batadv_frag_skb_buffer k linearize_ok alloc_ok expand_ok slack fragments skb =
     (let (r, fragments') = batadv_frag_insert_packet k linearize_ok alloc_ok fragments skb in
      if \<not> fi_ret r then (\<lparr>fb_ret = False, fb_skb = None, fb_freed = fi_freed r\<rparr>, fragments')
      else if fi_chain_out r = [] then
        (\<lparr>fb_ret = True, fb_skb = None, fb_freed = fi_freed r\<rparr>, fragments')
      else
        (case batadv_frag_merge_packets expand_ok slack (fi_chain_out r) of
           (Merge_Null, freed) \<Rightarrow>
             (\<lparr>fb_ret = False, fb_skb = None, fb_freed = fi_freed r @ freed\<rparr>, fragments')
         | (m, freed) \<Rightarrow>
             (\<lparr>fb_ret = True, fb_skb = Some m, fb_freed = fi_freed r @ freed\<rparr>, fragments')))"

text \<open>
  Forwarding a fragment without merging it. \<open>route\<close> gives, for the destination, the next
  hop and the MTU of its interface, or \<open>None\<close> if the destination or a router towards it
  is not known. The result is the return value and what is sent to whom.
\<close>

definition batadv_frag_skb_fwd ::
  "(mac \<Rightarrow> (mac \<times> u32) option) \<Rightarrow> frag_skb \<Rightarrow> bool \<times> (mac \<times> frag_skb) option" where
  "batadv_frag_skb_fwd route skb =
     (let packet = fs_hdr skb in
      case route (fp_dest packet) of
        None \<Rightarrow> (False, None)
      | Some (neigh, mtu) \<Rightarrow>
          if unat (fp_total_size packet) > unat mtu then
            (True, Some (neigh, skb\<lparr>fs_hdr := packet\<lparr>fp_ttl := fp_ttl packet - 1\<rparr>\<rparr>))
          else (False, None))"

section \<open>Sending\<close>

text \<open>
  \<open>batadv_frag_create\<close> moves the last \<open>mtu - 20\<close> bytes of the packet into a new buffer:
  the rest of the packet and the fragment.
\<close>

definition batadv_frag_create ::
  "u8 list \<Rightarrow> batadv_frag_packet \<Rightarrow> u32 \<Rightarrow> u8 list \<times> frag_skb" where
  "batadv_frag_create skb frag_head mtu =
     (let fragment_size = mtu - FRAG_HLEN;
          at = length skb - unat fragment_size
      in (take at skb, \<lparr>fs_hdr = frag_head, fs_payload = drop at skb, fs_tailroom = 0, fs_source = 0, fs_dest = 0\<rparr>))"

text \<open>
  The loop of \<open>batadv_frag_send_packet\<close>. \<open>alloc n\<close> says whether the buffer of the fragment
  with number \<open>n\<close> could be allocated. The fuel bounds the iterations; the result is
  \<open>None\<close> only if it runs out, otherwise whether the loop was left normally, the rest of
  the packet, the header and the fragments sent.
\<close>

fun frag_send_loop ::
  "nat \<Rightarrow> (nat \<Rightarrow> bool) \<Rightarrow> u32 \<Rightarrow> u32 \<Rightarrow> u8 list \<Rightarrow> batadv_frag_packet \<Rightarrow> frag_skb list
   \<Rightarrow> (bool \<times> u8 list \<times> batadv_frag_packet \<times> frag_skb list) option" where
  "frag_send_loop 0 alloc mtu max_fragment_size skb hdr sent = None"
| "frag_send_loop (Suc fuel) alloc mtu max_fragment_size skb hdr sent =
     (if length skb > unat max_fragment_size then
        (if \<not> alloc (unat (fp_no hdr)) then Some (False, skb, hdr, sent)
         else
           (let (skb, fragment) = batadv_frag_create skb hdr mtu;
                sent = sent @ [fragment];
                hdr = hdr\<lparr>fp_no := fp_no hdr + 1\<rparr>
            in if fp_no hdr = BATADV_FRAG_MAX_FRAGMENTS - 1 then Some (False, skb, hdr, sent)
               else frag_send_loop fuel alloc mtu max_fragment_size skb hdr sent))
      else Some (True, skb, hdr, sent))"

definition frag_header :: "u16 \<Rightarrow> nat \<Rightarrow> mac \<Rightarrow> mac \<Rightarrow> batadv_frag_packet" where
  "frag_header seqno len orig dest =
     \<lparr>fp_packet_type = 0x41, fp_version = 15, fp_ttl = 50, fp_no = 0,
      fp_dest = dest, fp_orig = orig, fp_seqno = seqno, fp_total_size = of_nat len\<rparr>"

text \<open>
  \<open>batadv_frag_send_packet\<close>: \<open>primary_if\<close> is the address of the selected primary
  interface, \<open>seqno\<close> the counter \<open>frag_seqno\<close> before the call; the flag \<open>push_ok\<close> stands
  for the two operations that make room for the last header. The result is the return
  value, the counter and the fragments sent.
\<close>

definition batadv_frag_send_packet ::
  "(nat \<Rightarrow> bool) \<Rightarrow> bool \<Rightarrow> mac option \<Rightarrow> u32 \<Rightarrow> u32 \<Rightarrow> mac \<Rightarrow> u8 list
   \<Rightarrow> (bool \<times> u32 \<times> frag_skb list) option" where
  "batadv_frag_send_packet alloc push_ok primary_if seqno neigh_mtu dest skb =
     (let mtu = min neigh_mtu BATADV_FRAG_MAX_FRAG_SIZE;
          max_fragment_size = mtu - FRAG_HLEN;
          max_packet_size = max_fragment_size * BATADV_FRAG_MAX_FRAGMENTS
      in if length skb > unat max_packet_size then Some (False, seqno, [])
         else case primary_if of
           None \<Rightarrow> Some (False, seqno, [])
         | Some addr \<Rightarrow>
             (let seqno = seqno + 1;
                  hdr = frag_header (ucast seqno) (length skb) addr dest
              in case frag_send_loop 16 alloc mtu max_fragment_size skb hdr [] of
                   None \<Rightarrow> None
                 | Some (ok, rest, hdr, sent) \<Rightarrow>
                     if \<not> ok \<or> \<not> push_ok then Some (False, seqno, sent)
                     else Some (True, seqno,
                       sent @ [\<lparr>fs_hdr = hdr, fs_payload = rest, fs_tailroom = 0, fs_source = 0, fs_dest = 0\<rparr>])))"

section \<open>The sender\<close>

lemma frag_create_parts:
  assumes "batadv_frag_create skb hdr mtu = (rest, f)"
  shows "rest @ fs_payload f = skb" and "fs_hdr f = hdr"
    and "length rest = length skb - unat (mtu - FRAG_HLEN)"
  using assms by (auto simp: batadv_frag_create_def Let_def)

lemma no_succ:
  assumes "unat (n :: 4 word) < 15"
  shows "unat (n + 1) = Suc (unat n)" and "n + 1 = 15 \<longleftrightarrow> unat n = 14"
proof -
  show s: "unat (n + 1) = Suc (unat n)"
    using assms by (simp add: unat_word_ariths)
  have "n + 1 = 15 \<longleftrightarrow> unat (n + 1) = unat (15 :: 4 word)"
    by (simp only: unat_eq_unat_iff)
  then show "n + 1 = 15 \<longleftrightarrow> unat n = 14"
    using s by simp
qed

text \<open>
  What a send loop that ends normally has done: it sent pieces whose payloads, last piece
  first, follow the rest of the packet, numbered without gap.
\<close>

lemma frag_send_loop_ok:
  assumes "frag_send_loop fuel alloc mtu (mtu - FRAG_HLEN) skb hdr sent = Some (True, rest, hdr', sent')"
    and "unat (fp_no hdr) < 15"
  shows "\<exists>fr. sent' = sent @ fr \<and> rest @ concat (map fs_payload (rev fr)) = skb
    \<and> unat (fp_no hdr') < 15
    \<and> map (\<lambda>f. unat (fp_no (fs_hdr f))) fr = [unat (fp_no hdr)..<unat (fp_no hdr')]
    \<and> unat (fp_no hdr) \<le> unat (fp_no hdr')
    \<and> hdr' = hdr\<lparr>fp_no := fp_no hdr'\<rparr>
    \<and> (\<forall>f \<in> set fr. fs_hdr f = hdr\<lparr>fp_no := fp_no (fs_hdr f)\<rparr>)
    \<and> (0 < unat (mtu - FRAG_HLEN) \<longrightarrow> (\<forall>f \<in> set fr. fs_payload f \<noteq> []))
    \<and> (skb \<noteq> [] \<longrightarrow> rest \<noteq> [])
    \<and> length rest \<le> unat (mtu - FRAG_HLEN)"
  using assms
proof (induction fuel alloc mtu "mtu - FRAG_HLEN" skb hdr sent rule: frag_send_loop.induct)
  case (1 alloc mtu skb hdr sent)
  then show ?case by simp
next
  case (2 fuel alloc mtu skb hdr sent)
  let ?m = "unat (mtu - FRAG_HLEN)"
  show ?case
  proof (cases "length skb > ?m")
    case False
    with 2 show ?thesis by auto
  next
    case True
    obtain skb1 f where c: "batadv_frag_create skb hdr mtu = (skb1, f)"
      by (cases "batadv_frag_create skb hdr mtu")
    let ?hdr = "hdr\<lparr>fp_no := fp_no hdr + 1\<rparr>"
    have alloc: "alloc (unat (fp_no hdr))" and ne: "fp_no hdr + 1 \<noteq> 15"
      and rec: "frag_send_loop fuel alloc mtu (mtu - FRAG_HLEN) skb1 ?hdr (sent @ [f])
        = Some (True, rest, hdr', sent')"
      using 2(2) True c by (auto simp: Let_def split: if_splits)
    have un: "unat (fp_no ?hdr) = Suc (unat (fp_no hdr))" "unat (fp_no ?hdr) < 15"
      using no_succ [OF 2(3)] ne 2(3) by auto
    obtain fr where fr: "sent' = (sent @ [f]) @ fr" "rest @ concat (map fs_payload (rev fr)) = skb1"
      "unat (fp_no hdr') < 15"
      "map (\<lambda>f. unat (fp_no (fs_hdr f))) fr = [unat (fp_no ?hdr)..<unat (fp_no hdr')]"
      "unat (fp_no ?hdr) \<le> unat (fp_no hdr')"
      "hdr' = ?hdr\<lparr>fp_no := fp_no hdr'\<rparr>"
      "\<forall>f \<in> set fr. fs_hdr f = ?hdr\<lparr>fp_no := fp_no (fs_hdr f)\<rparr>"
      "0 < ?m \<longrightarrow> (\<forall>f \<in> set fr. fs_payload f \<noteq> [])" "skb1 \<noteq> [] \<longrightarrow> rest \<noteq> []" "length rest \<le> ?m"
      using 2(1) [OF True _ c [symmetric] refl refl] alloc ne rec un(2) by auto
    note parts = frag_create_parts [OF c]
    have len: "length skb1 = length skb - ?m" "length (fs_payload f) = ?m"
      using parts True by (auto dest: arg_cong [where f = length])
    show ?thesis
    proof (intro exI [of _ "f # fr"] conjI)
      show "map (\<lambda>f. unat (fp_no (fs_hdr f))) (f # fr) = [unat (fp_no hdr)..<unat (fp_no hdr')]"
        using fr(4,5) un(1) parts(2) by (simp add: upt_conv_Cons)
      show "rest @ concat (map fs_payload (rev (f # fr))) = skb"
        using fr(2) parts(1) by (simp add: append.assoc [symmetric])
      show "0 < ?m \<longrightarrow> (\<forall>g \<in> set (f # fr). fs_payload g \<noteq> [])"
        using fr(8) len by auto
      show "skb \<noteq> [] \<longrightarrow> rest \<noteq> []"
        using fr(9) len True by auto
      show "\<forall>g \<in> set (f # fr). fs_hdr g = hdr\<lparr>fp_no := fp_no (fs_hdr g)\<rparr>"
        using fr(7) parts(2) by auto
      show "hdr' = hdr\<lparr>fp_no := fp_no hdr'\<rparr>"
        using fr(6) by (cases hdr') auto
    qed (use fr un in auto)
  qed
qed


text \<open>
  The loop always ends within sixteen rounds; without allocation failures it ends
  normally exactly when the packet fits into fifteen pieces.
\<close>

lemma frag_send_loop_total:
  assumes "unat (fp_no hdr) < 15" and "15 < unat (fp_no hdr) + fuel"
  shows "frag_send_loop fuel alloc mtu m skb hdr sent \<noteq> None"
  using assms
proof (induction fuel alloc mtu m skb hdr sent rule: frag_send_loop.induct)
  case (1 alloc mtu m skb hdr sent)
  then show ?case by simp
next
  case (2 fuel alloc mtu m skb hdr sent)
  obtain skb1 f where c: "batadv_frag_create skb hdr mtu = (skb1, f)"
    by (cases "batadv_frag_create skb hdr mtu")
  show ?case
    using 2(1) [OF _ _ c [symmetric] refl refl] 2(2,3) c no_succ [OF 2(2)] by (auto simp: Let_def)
qed

lemma frag_send_loop_fits:
  assumes "frag_send_loop fuel (\<lambda>_. True) mtu (mtu - FRAG_HLEN) skb hdr sent = Some (ok, r)"
    and "unat (fp_no hdr) < 15"
  shows "ok \<longleftrightarrow> length skb \<le> (15 - unat (fp_no hdr)) * unat (mtu - FRAG_HLEN)"
  using assms
proof (induction fuel "\<lambda>_ :: nat. True" mtu "mtu - FRAG_HLEN" skb hdr sent rule: frag_send_loop.induct)
  case (1 mtu skb hdr sent)
  then show ?case by simp
next
  case (2 fuel mtu skb hdr sent)
  let ?m = "unat (mtu - FRAG_HLEN)"
  let ?n = "unat (fp_no hdr)"
  have d: "(15 - ?n) * ?m = ?m + (15 - Suc ?n) * ?m"
    using 2(3) by (simp add: Suc_diff_Suc [symmetric] algebra_simps)
  show ?case
  proof (cases "length skb > ?m")
    case False
    then show ?thesis using 2(2) d by auto
  next
    case True
    obtain skb1 f where c: "batadv_frag_create skb hdr mtu = (skb1, f)"
      by (cases "batadv_frag_create skb hdr mtu")
    have len: "length skb1 = length skb - ?m"
      using frag_create_parts(3) [OF c] by simp
    show ?thesis
    proof (cases "?n = 14")
      case n14: True
      then have "fp_no hdr + 1 = 15"
        using no_succ(2) [OF 2(3)] by simp
      then have "\<not> ok"
        using 2(2) True c by (simp add: Let_def)
      then show ?thesis
        using d n14 True by simp
    next
      case False
      then have un: "unat (fp_no (hdr\<lparr>fp_no := fp_no hdr + 1\<rparr>)) = Suc ?n" "fp_no hdr + 1 \<noteq> 15" "Suc ?n < 15"
        using no_succ [OF 2(3)] 2(3) by auto
      have "ok \<longleftrightarrow> length skb1 \<le> (15 - Suc ?n) * ?m"
        using 2(1) [OF True _ c [symmetric] refl refl] 2(2) True c un by (auto simp: Let_def)
      then show ?thesis
        using d len True by auto
    qed
  qed
qed

text \<open>Without allocation failures the loop gives up only after it sent every number up to fourteen.\<close>

lemma frag_send_loop_gives_up:
  assumes "frag_send_loop fuel (\<lambda>_. True) mtu (mtu - FRAG_HLEN) skb hdr sent = Some (False, rest, hdr', sent')"
    and "unat (fp_no hdr) < 15"
  shows "\<exists>fr. sent' = sent @ fr \<and> rest @ concat (map fs_payload (rev fr)) = skb
    \<and> map (\<lambda>f. unat (fp_no (fs_hdr f))) fr = [unat (fp_no hdr)..<15]
    \<and> (\<forall>f \<in> set fr. length (fs_payload f) = unat (mtu - FRAG_HLEN))"
  using assms
proof (induction fuel "\<lambda>_ :: nat. True" mtu "mtu - FRAG_HLEN" skb hdr sent rule: frag_send_loop.induct)
  case (1 mtu skb hdr sent)
  then show ?case by simp
next
  case (2 fuel mtu skb hdr sent)
  let ?m = "unat (mtu - FRAG_HLEN)"
  let ?n = "unat (fp_no hdr)"
  have True: "length skb > ?m"
    using 2(2) by (auto split: if_splits)
  obtain skb1 f where c: "batadv_frag_create skb hdr mtu = (skb1, f)"
    by (cases "batadv_frag_create skb hdr mtu")
  note parts = frag_create_parts [OF c]
  have len: "length (fs_payload f) = ?m"
    using parts True by (auto dest: arg_cong [where f = length])
  show ?case
  proof (cases "?n = 14")
    case n14: True
    then have "fp_no hdr + 1 = 15"
      using no_succ(2) [OF 2(3)] by simp
    then have "rest = skb1" "sent' = sent @ [f]"
      using 2(2) True c by (simp_all add: Let_def)
    then show ?thesis
      using parts len n14 by (intro exI [of _ "[f]"]) (simp add: upt_conv_Cons)
  next
    case False
    then have un: "unat (fp_no (hdr\<lparr>fp_no := fp_no hdr + 1\<rparr>)) = Suc ?n" "fp_no hdr + 1 \<noteq> 15" "Suc ?n < 15"
      using no_succ [OF 2(3)] 2(3) by auto
    have "\<exists>fr. sent' = (sent @ [f]) @ fr \<and> rest @ concat (map fs_payload (rev fr)) = skb1
        \<and> map (\<lambda>f. unat (fp_no (fs_hdr f))) fr = [Suc ?n..<15] \<and> (\<forall>f \<in> set fr. length (fs_payload f) = ?m)"
      using 2(1) [OF True _ c [symmetric] refl refl] 2(2) True c un by (auto simp: Let_def)
    then obtain fr where fr: "sent' = (sent @ [f]) @ fr" "rest @ concat (map fs_payload (rev fr)) = skb1"
        "map (\<lambda>f. unat (fp_no (fs_hdr f))) fr = [Suc ?n..<15]" "\<forall>f \<in> set fr. length (fs_payload f) = ?m"
      by blast
    show ?thesis
    proof (intro exI [of _ "f # fr"] conjI)
      show "map (\<lambda>f. unat (fp_no (fs_hdr f))) (f # fr) = [?n..<15]"
        using fr(3) un(3) parts(2) by (simp add: upt_conv_Cons)
      show "rest @ concat (map fs_payload (rev (f # fr))) = skb"
        using fr(2) parts(1) by (simp add: append.assoc [symmetric])
    qed (use fr len in auto)
  qed
qed

section \<open>The chain of a receiver\<close>

text \<open>
  A chain is in order: the numbers fall strictly, every entry carries the number of its
  header, all belong to the sequence number of the chain, and the size is the sum of the
  payloads.
\<close>

definition payload_sum :: "batadv_frag_list_entry list \<Rightarrow> nat" where
  "payload_sum es = sum_list (map (\<lambda>e. length (fs_payload (snd e))) es)"

definition frag_chain_ok :: "batadv_frag_table_entry \<Rightarrow> bool" where
  "frag_chain_ok c \<longleftrightarrow>
     sorted_wrt (\<lambda>a b. fst a > fst b) (fc_head c) \<and>
     (\<forall>e \<in> set (fc_head c). fst e = ucast (fp_no (fs_hdr (snd e)))
        \<and> fp_seqno (fs_hdr (snd e)) = fc_seqno c) \<and>
     fc_size c = of_nat (payload_sum (fc_head c))"

lemma payload_sum_simps [simp]:
  "payload_sum [] = 0"
  "payload_sum (e # es) = length (fs_payload (snd e)) + payload_sum es"
  by (simp_all add: payload_sum_def)

lemma payload_sum_mset: "mset xs = mset ys \<Longrightarrow> payload_sum xs = payload_sum ys"
proof -
  have eq: "payload_sum zs = sum_mset (image_mset (\<lambda>e. length (fs_payload (snd e))) (mset zs))" for zs
    by (induction zs) simp_all
  assume "mset xs = mset ys"
  then show ?thesis by (simp add: eq)
qed

lemma frag_insert_sorted_mset:
  "frag_insert_sorted e es = Some es' \<Longrightarrow> mset es' = add_mset e (mset es)"
  by (induction es arbitrary: es') (auto split: if_splits)

lemma frag_insert_sorted_desc:
  assumes "frag_insert_sorted e es = Some es'" and "sorted_wrt (\<lambda>a b. fst a > fst b) es"
  shows "sorted_wrt (\<lambda>a b. fst a > fst b) es'"
  using assms
proof (induction es arbitrary: es')
  case Nil
  then show ?case by auto
next
  case (Cons c cs)
  consider "fst c < fst e" | es1 where "fst e < fst c" "frag_insert_sorted e cs = Some es1" "es' = c # es1"
    using Cons.prems(1) by (auto split: if_splits)
  then show ?case
  proof cases
    case 1
    then have "es' = e # c # cs"
      using Cons.prems(1) 1 by (auto split: if_splits)
    moreover have "fst x < fst e" if "x \<in> set cs" for x
      using that 1 Cons.prems(2) less_trans [of "fst x" "fst c" "fst e"] by simp
    ultimately show ?thesis
      using 1 Cons.prems(2) by simp
  next
    case 2
    have "set es1 = insert e (set cs)"
      using frag_insert_sorted_mset [OF 2(2)] by (metis set_mset_add_mset_insert set_mset_mset)
    then show ?thesis
      using 2 Cons by auto
  qed
qed

lemma frag_insert_sorted_None:
  "sorted_wrt (\<lambda>a b. fst a > fst b) es \<Longrightarrow>
   frag_insert_sorted e es = None \<longleftrightarrow> fst e \<in> fst ` set es"
  by (induction es) (auto split: if_splits)

text \<open>Ordered lists with the same entries are equal.\<close>

lemma desc_unique:
  fixes xs ys :: "('k :: linorder \<times> 'b) list"
  assumes "mset xs = mset ys" and "sorted_wrt (\<lambda>a b. fst a > fst b) xs"
    and "sorted_wrt (\<lambda>a b. fst a > fst b) ys"
  shows "xs = ys"
  using assms
proof (induction xs arbitrary: ys)
  case Nil
  then show ?case by simp
next
  case (Cons x xs)
  then obtain y ys' where ys: "ys = y # ys'"
    by (cases ys) auto
  have sets: "set (x # xs) = set (y # ys')"
    using Cons.prems(1) ys by (metis set_mset_mset)
  have "x = y"
  proof (rule ccontr)
    assume "x \<noteq> y"
    then have "x \<in> set ys'" "y \<in> set xs"
      using sets by auto
    then have "fst y > fst x" "fst x > fst y"
      using Cons.prems(2,3) ys by auto
    then show False by simp
  qed
  then show ?case
    using Cons ys by auto
qed

lemma size_limit: "batadv_frag_size_limit = 22080"
  by (simp add: batadv_frag_size_limit_def Let_def)

lemma frag_insert_out_ok:
  assumes "frag_chain_ok c" and "frag_insert_out c tot = (c', out, freed)"
  shows "frag_chain_ok c'" and "mset (map snd (fc_head c)) = mset (map snd (fc_head c')) + mset (map snd out) + mset freed"
    and "fc_seqno c' = fc_seqno c"
    and "out \<noteq> [] \<Longrightarrow> out = fc_head c \<and> fc_size c = tot \<and> fc_total_size c = tot"
  using assms
  by (auto simp: frag_insert_out_def frag_chain_ok_def batadv_frag_clear_chain_def Let_def split: if_splits)

lemma frag_init_chain_ok:
  assumes "frag_chain_ok c" and "batadv_frag_init_chain c s = (fresh, c', freed)"
  shows "frag_chain_ok c'" and "mset (map snd (fc_head c)) = mset (map snd (fc_head c')) + mset freed"
    and "fc_seqno c' = s" and "fresh \<Longrightarrow> fc_head c' = []" and "fresh \<longleftrightarrow> fc_seqno c \<noteq> s"
    and "\<not> fresh \<Longrightarrow> c' = c \<and> freed = []"
  using assms
  by (auto simp: batadv_frag_init_chain_def frag_chain_ok_def batadv_frag_clear_chain_def Let_def split: if_splits)


text \<open>
  One packet on one chain: the order is kept, and every buffer is accounted for. An
  accepted fragment is in the chain, handed over or freed; a rejected one stays with the
  caller.
\<close>

lemma frag_insert_chain_step:
  assumes ok: "frag_chain_ok c" and ins: "frag_insert_chain k c skb = (r, c')"
  shows "frag_chain_ok c'" (is ?ok)
    and "mset (map snd (fc_head c)) + (if fi_ret r then {#skb#} else {#})
      = mset (map snd (fc_head c')) + mset (map snd (fi_chain_out r)) + mset (fi_freed r)" (is ?bal)
    and "fc_seqno c' = fp_seqno (fs_hdr skb)" (is ?seq)
proof -
  let ?p = "fs_hdr skb"
  let ?new = "(ucast (fp_no ?p) :: u8, skb)"
  obtain fresh c1 freed0 where i: "batadv_frag_init_chain c (fp_seqno ?p) = (fresh, c1, freed0)"
    by (cases "batadv_frag_init_chain c (fp_seqno ?p)")
  note init = frag_init_chain_ok [OF ok i]
  show ?ok ?bal ?seq
  proof (atomize (full), cases fresh)
    case True
    let ?c2 = "c1\<lparr>fc_head := [?new], fc_size := (of_nat (skb_len skb - FRAG_HLEN) :: u16),
                 fc_timestamp := k_jiffies k, fc_total_size := fp_total_size ?p\<rparr>"
    obtain c3 out freed where o: "frag_insert_out ?c2 (fp_total_size ?p) = (c3, out, freed)"
      by (cases "frag_insert_out ?c2 (fp_total_size ?p)")
    have "frag_chain_ok ?c2"
      using init by (simp add: frag_chain_ok_def skb_len_def)
    note out = frag_insert_out_ok [OF this o]
    have "r = \<lparr>fi_ret = True, fi_chain_out = out, fi_freed = freed0 @ freed\<rparr>" "c' = c3"
      using ins i True o by (simp_all add: frag_insert_chain_def)
    then show "?ok \<and> ?bal \<and> ?seq"
      using out init True by (simp add: ac_simps)
  next
    case old: False
    then have c1: "c1 = c" "freed0 = []" "fc_seqno c = fp_seqno ?p"
      using init by simp_all
    show "?ok \<and> ?bal \<and> ?seq"
    proof (cases "fc_head c = []")
      case True
      obtain c3 out freed where o: "frag_insert_out c (fp_total_size ?p) = (c3, out, freed)"
        by (cases "frag_insert_out c (fp_total_size ?p)")
      note out = frag_insert_out_ok [OF ok o]
      have "r = \<lparr>fi_ret = False, fi_chain_out = out, fi_freed = freed\<rparr>" "c' = c3"
        using ins i old o c1 True by (simp_all add: frag_insert_chain_def)
      then show ?thesis
        using out c1 by simp
    next
      case ne: False
      show ?thesis
      proof (cases "frag_insert_sorted ?new (fc_head c)")
        case None
        then have "r = \<lparr>fi_ret = False, fi_chain_out = [], fi_freed = []\<rparr>" "c' = c"
          using ins i old c1 ne by (simp_all add: frag_insert_chain_def)
        then show ?thesis using ok c1 by simp
      next
        case (Some head')
        let ?c2 = "c\<lparr>fc_head := head', fc_size := fc_size c + (of_nat (skb_len skb - FRAG_HLEN) :: u16),
                 fc_timestamp := k_jiffies k\<rparr>"
        obtain c3 out freed where o: "frag_insert_out ?c2 (fp_total_size ?p) = (c3, out, freed)"
          by (cases "frag_insert_out ?c2 (fp_total_size ?p)")
        have m: "mset head' = add_mset ?new (mset (fc_head c))"
          by (rule frag_insert_sorted_mset [OF Some])
        have "payload_sum head' = payload_sum (?new # fc_head c)"
          using m by (intro payload_sum_mset) simp
        moreover have "set head' = insert ?new (set (fc_head c))"
          using m by (metis set_mset_add_mset_insert set_mset_mset)
        moreover have "sorted_wrt (\<lambda>a b. fst a > fst b) head'"
          using frag_insert_sorted_desc [OF Some] ok by (simp add: frag_chain_ok_def)
        ultimately have "frag_chain_ok ?c2"
          using ok c1 by (auto simp: frag_chain_ok_def skb_len_def)
        note out = frag_insert_out_ok [OF this o]
        have r: "r = \<lparr>fi_ret = True, fi_chain_out = out, fi_freed = freed\<rparr>" "c' = c3"
          using ins i old c1 ne Some o by (simp_all add: frag_insert_chain_def)
        have "mset (map snd head') = add_mset skb (mset (map snd (fc_head c)))"
          using arg_cong [OF m, of "image_mset snd"] by simp
        then show ?thesis
          using out r c1 by simp
      qed
    qed
  qed
qed

text \<open>The eight chains of an originator: the sequence number picks the chain.\<close>

definition frags_ok :: "batadv_frag_table_entry list \<Rightarrow> bool" where
  "frags_ok fragments \<longleftrightarrow>
     length fragments = BATADV_FRAG_BUFFER_COUNT \<and>
     (\<forall>i < BATADV_FRAG_BUFFER_COUNT. frag_chain_ok (fragments ! i) \<and>
        (fc_head (fragments ! i) \<noteq> [] \<longrightarrow>
           unat (fc_seqno (fragments ! i)) mod BATADV_FRAG_BUFFER_COUNT = i))"

definition frags_skbs :: "batadv_frag_table_entry list \<Rightarrow> frag_skb multiset" where
  "frags_skbs fragments = (\<Sum>c \<in># mset fragments. mset (map snd (fc_head c)))"

lemma frags_skbs_update:
  assumes "i < length cs"
  shows "frags_skbs (cs[i := c]) + mset (map snd (fc_head (cs ! i)))
    = frags_skbs cs + mset (map snd (fc_head c))"
proof -
  have "mset (cs[i := c]) + {#cs ! i#} = mset cs + {#c#}"
    using assms by (simp add: mset_update)
  then have "(\<Sum>c \<in># mset (cs[i := c]) + {#cs ! i#}. mset (map snd (fc_head c)))
      = (\<Sum>c \<in># mset cs + {#c#}. mset (map snd (fc_head c)))"
    by (rule arg_cong)
  then show ?thesis
    by (simp add: frags_skbs_def ac_simps)
qed

lemma batadv_frag_insert_packet_step:
  assumes ok: "frags_ok cs" and ins: "batadv_frag_insert_packet k lin alloc cs skb = (r, cs')"
  shows "frags_ok cs'" (is ?ok)
    and "frags_skbs cs + (if fi_ret r then {#skb#} else {#})
      = frags_skbs cs' + mset (map snd (fi_chain_out r)) + mset (fi_freed r)" (is ?bal)
proof -
  let ?b = "unat (fp_seqno (fs_hdr skb)) mod 8"
  have b: "?b < 8" "length cs = 8" using ok by (simp_all add: frags_ok_def)
  show ?ok ?bal
  proof (atomize (full), cases "\<not> lin \<or> \<not> alloc")
    case True
    then show "?ok \<and> ?bal" using ok ins by (auto simp: batadv_frag_insert_packet_def)
  next
    case False
    obtain c' where c: "frag_insert_chain k (cs ! ?b) skb = (r, c')" "cs' = cs[?b := c']"
      using ins False by (auto simp: batadv_frag_insert_packet_def Let_def split: prod.splits)
    have "frag_chain_ok (cs ! ?b)" using ok b by (simp add: frags_ok_def)
    note st = frag_insert_chain_step [OF this c(1)]
    have ?ok
      unfolding frags_ok_def
    proof (intro conjI allI impI)
      fix i :: nat
      assume "i < 8"
      then show "frag_chain_ok (cs' ! i)"
        using ok st b c(2) by (cases "i = ?b") (auto simp: frags_ok_def)
      assume "fc_head (cs' ! i) \<noteq> []"
      with \<open>i < 8\<close> show "unat (fc_seqno (cs' ! i)) mod 8 = i"
        using ok st b c(2) by (cases "i = ?b") (auto simp: frags_ok_def)
    qed (use b c in simp)
    moreover have ?bal
    proof -
      have "frags_skbs cs' + mset (map snd (fc_head (cs ! ?b)))
          = frags_skbs cs + mset (map snd (fc_head c'))"
        using frags_skbs_update [of ?b cs c'] b c(2) by simp
      moreover note st(2)
      ultimately show ?thesis
        by (smt (verit, ccfv_threshold) add.assoc add.commute add_left_cancel)
    qed
    ultimately show "?ok \<and> ?bal" ..
  qed
qed


section \<open>From the sender to the receiver\<close>

text \<open>
  What the mesh keeps of a fragment on its way: its number, its sequence number, the
  size of the whole packet and the payload (the time to live falls, the room behind the
  data is the receiver's).
\<close>

definition frag_content :: "frag_skb \<Rightarrow> 4 word \<times> u16 \<times> u16 \<times> u8 list" where
  "frag_content f =
     (fp_no (fs_hdr f), fp_seqno (fs_hdr f), fp_total_size (fs_hdr f), fs_payload f)"

lemma frag_content_eq [simp]:
  "frag_content f = (n, s, t, p) \<longleftrightarrow>
     fp_no (fs_hdr f) = n \<and> fp_seqno (fs_hdr f) = s \<and> fp_total_size (fs_hdr f) = t \<and> fs_payload f = p"
  by (auto simp: frag_content_def)

lemma frag_send_packet_pieces:
  assumes send: "batadv_frag_send_packet alloc push_ok (Some addr) sq mtu dest skb = Some (True, sq', sent)"
    and mtu: "20 < mtu" and ne: "skb \<noteq> []"
  shows "sent \<noteq> []" and "concat (map fs_payload (rev sent)) = skb"
    and "map (\<lambda>f. unat (fp_no (fs_hdr f))) sent = [0..<length sent]"
    and "\<forall>f \<in> set sent. fp_seqno (fs_hdr f) = ucast sq' \<and> fp_total_size (fs_hdr f) = of_nat (length skb)
      \<and> fs_payload f \<noteq> []"
    and "length skb \<le> 22080" and "sq' = sq + 1"
proof -
  let ?mtu = "min mtu 1400"
  let ?hdr = "frag_header (ucast (sq + 1)) (length skb) addr dest"
  have m: "unat (?mtu - FRAG_HLEN) = unat ?mtu - 20" "20 < unat ?mtu" "unat ?mtu \<le> 1400"
    using mtu by (auto simp: min_def word_less_nat_alt word_le_nat_alt unat_sub_if_size not_le)
  have "unat ((?mtu - FRAG_HLEN) * 16) = (unat ?mtu - 20) * 16"
    using unat_mult_lem [THEN iffD1, of "?mtu - FRAG_HLEN" 16] m by simp
  then have len: "length skb \<le> (unat ?mtu - 20) * 16"
    using send by (auto simp: batadv_frag_send_packet_def Let_def split: if_splits)
  then show "length skb \<le> 22080"
    using m by linarith
  obtain rest hdr' fr where l: "frag_send_loop 16 alloc ?mtu (?mtu - FRAG_HLEN) skb ?hdr [] = Some (True, rest, hdr', fr)"
    and sent: "sent = fr @ [\<lparr>fs_hdr = hdr', fs_payload = rest, fs_tailroom = 0, fs_source = 0, fs_dest = 0\<rparr>]" and sq': "sq' = sq + 1"
    using send by (auto simp: batadv_frag_send_packet_def Let_def split: if_splits option.splits)
  have no0: "unat (fp_no ?hdr) = 0" by (simp add: frag_header_def)
  obtain fr' where p: "fr = [] @ fr'" "rest @ concat (map fs_payload (rev fr')) = skb"
    "map (\<lambda>f. unat (fp_no (fs_hdr f))) fr' = [unat (fp_no ?hdr)..<unat (fp_no hdr')]"
    "hdr' = ?hdr\<lparr>fp_no := fp_no hdr'\<rparr>" "\<forall>f \<in> set fr'. fs_hdr f = ?hdr\<lparr>fp_no := fp_no (fs_hdr f)\<rparr>"
    "0 < unat (?mtu - FRAG_HLEN) \<longrightarrow> (\<forall>f \<in> set fr'. fs_payload f \<noteq> [])" "skb \<noteq> [] \<longrightarrow> rest \<noteq> []"
    using frag_send_loop_ok [OF l] no0 by auto
  have lf: "length fr' = unat (fp_no hdr')"
    using arg_cong [OF p(3), of length] no0 by simp
  show "sent \<noteq> []" by (simp add: sent)
  show "concat (map fs_payload (rev sent)) = skb" using p by (simp add: sent)
  show "map (\<lambda>f. unat (fp_no (fs_hdr f))) sent = [0..<length sent]" using p no0 lf by (simp add: sent)
  have hs: "fp_seqno ?hdr = ucast (sq + 1)" "fp_total_size ?hdr = of_nat (length skb)"
    by (simp_all add: frag_header_def)
  have upd: "fp_seqno h = ucast (sq + 1) \<and> fp_total_size h = of_nat (length skb)"
    if "h = ?hdr\<lparr>fp_no := fp_no h\<rparr>" for h
    by (subst that, subst (2) that) (simp add: hs)
  have "fs_payload f \<noteq> []" if "f \<in> set sent" for f
    using that p(1,6,7) m ne by (auto simp: sent)
  moreover have "fs_hdr f = ?hdr\<lparr>fp_no := fp_no (fs_hdr f)\<rparr>" if "f \<in> set sent" for f
    using that p(1,4,5) by (auto simp: sent)
  ultimately show "\<forall>f \<in> set sent. fp_seqno (fs_hdr f) = ucast sq' \<and> fp_total_size (fs_hdr f) = of_nat (length skb)
      \<and> fs_payload f \<noteq> []"
    using upd by (simp add: sq')
  show "sq' = sq + 1" by (rule sq')
qed

text \<open>Feeding buffers one after the other, with no allocation failure.\<close>

fun frag_feed ::
  "kenv \<Rightarrow> nat \<Rightarrow> batadv_frag_table_entry list \<Rightarrow> frag_skb list
   \<Rightarrow> (bool \<times> merge_result option) list \<times> batadv_frag_table_entry list" where
  "frag_feed k slack cs [] = ([], cs)"
| "frag_feed k slack cs (skb # skbs) =
     (let (r, cs') = batadv_frag_skb_buffer k True True True slack cs skb;
          (rs, cs'') = frag_feed k slack cs' skbs
      in ((fb_ret r, fb_skb r) # rs, cs''))"

text \<open>A chain that has collected the fragments \<open>ps\<close> of a packet.\<close>

definition collecting :: "u16 \<Rightarrow> u16 \<Rightarrow> frag_skb list \<Rightarrow> batadv_frag_table_entry \<Rightarrow> bool" where
  "collecting s tot ps c \<longleftrightarrow>
     frag_chain_ok c \<and>
     (if ps = [] then fc_seqno c \<noteq> s
      else fc_seqno c = s \<and> fc_total_size c = tot \<and> mset (map snd (fc_head c)) = mset ps)"

lemma collecting_entries:
  assumes "frag_chain_ok c" and "mset (map snd (fc_head c)) = mset ps"
  shows "mset (fc_head c) = mset (map (\<lambda>f. (ucast (fp_no (fs_hdr f)), f)) ps)"
proof -
  let ?g = "\<lambda>f. (ucast (fp_no (fs_hdr f)) :: u8, f)"
  have e: "map (?g \<circ> snd) (fc_head c) = fc_head c"
    using assms(1) by (intro map_idI) (auto simp: frag_chain_ok_def)
  have "mset (map ?g ps) = image_mset ?g (mset (map snd (fc_head c)))"
    using assms(2) by simp
  also have "\<dots> = mset (map (?g \<circ> snd) (fc_head c))"
    by (simp add: multiset.map_comp)
  finally show ?thesis
    by (simp only: e)
qed

lemma collecting_size:
  assumes "frag_chain_ok c" and "mset (map snd (fc_head c)) = mset ps"
  shows "fc_size c = of_nat (sum_list (map (\<lambda>f. length (fs_payload f)) ps))"
proof -
  have "payload_sum (fc_head c) = payload_sum (map (\<lambda>f. (ucast (fp_no (fs_hdr f)), f)) ps)"
    by (rule payload_sum_mset [OF collecting_entries [OF assms]])
  then show ?thesis
    using assms(1) by (simp add: frag_chain_ok_def payload_sum_def o_def)
qed


lemma unat_no_u8: "unat (ucast (n :: 4 word) :: u8) = unat n"
proof -
  have "unat n < 2 ^ LENGTH(4)"
    by (rule unsigned_less)
  then show ?thesis
    by (simp add: unsigned_ucast_eq take_bit_nat_eq_self)
qed

lemma collecting_step:
  assumes col: "collecting s tot ps c"
    and ins: "frag_insert_chain k c skb = (r, c')"
    and hdr: "fp_seqno (fs_hdr skb) = s" "fp_total_size (fs_hdr skb) = tot"
    and fresh: "fp_no (fs_hdr skb) \<notin> (\<lambda>f. fp_no (fs_hdr f)) ` set ps"
    and sum: "sum_list (map (\<lambda>f. length (fs_payload f)) (skb # ps)) \<le> unat tot"
    and tot: "unat tot \<le> 22080"
  shows "fi_ret r"
    and "sum_list (map (\<lambda>f. length (fs_payload f)) (skb # ps)) < unat tot \<Longrightarrow>
      fi_chain_out r = [] \<and> collecting s tot (skb # ps) c'"
    and "sum_list (map (\<lambda>f. length (fs_payload f)) (skb # ps)) = unat tot \<Longrightarrow>
      mset (fi_chain_out r) = mset (map (\<lambda>f. (ucast (fp_no (fs_hdr f)), f)) (skb # ps))
      \<and> sorted_wrt (\<lambda>a b. fst a > fst b) (fi_chain_out r)"
proof -
  let ?e = "(ucast (fp_no (fs_hdr skb)) :: u8, skb)"
  let ?sum = "sum_list (map (\<lambda>f. length (fs_payload f)) (skb # ps))"
  have ok: "frag_chain_ok c" using col by (simp add: collecting_def)
  obtain c2 out freed freed0 where
    full: "mset (map snd (fc_head c2)) = mset (skb # ps)" "fc_total_size c2 = tot"
      "frag_chain_ok c2" "fc_seqno c2 = s" "fc_head c2 \<noteq> []"
    and out: "frag_insert_out c2 tot = (c', out, freed)"
    and r: "r = \<lparr>fi_ret = True, fi_chain_out = out, fi_freed = freed0 @ freed\<rparr>"
  proof (cases "ps = []")
    case True
    obtain fr c1 freed0 where "batadv_frag_init_chain c s = (fr, c1, freed0)"
      by (cases "batadv_frag_init_chain c s")
    moreover from this have fr using True col frag_init_chain_ok(5) [OF ok] by (auto simp: collecting_def)
    ultimately have i: "batadv_frag_init_chain c s = (True, c1, freed0)" by simp
    let ?c2 = "c1\<lparr>fc_head := [?e], fc_size := (of_nat (skb_len skb - FRAG_HLEN) :: u16),
                 fc_timestamp := k_jiffies k, fc_total_size := tot\<rparr>"
    obtain out freed where o: "frag_insert_out ?c2 tot = (c', out, freed)"
      and r: "r = \<lparr>fi_ret = True, fi_chain_out = out, fi_freed = freed0 @ freed\<rparr>"
      using ins i hdr by (auto simp: frag_insert_chain_def split: prod.splits)
    show ?thesis
      using True hdr frag_init_chain_ok(3) [OF ok i]
      by (intro that [OF _ _ _ _ _ o r]) (simp_all add: frag_chain_ok_def skb_len_def)
  next
    case False
    have c: "fc_seqno c = s" "fc_total_size c = tot" "mset (map snd (fc_head c)) = mset ps"
      using False col by (simp_all add: collecting_def)
    have ne: "fc_head c \<noteq> []" using c(3) False by auto
    have ents: "set (fc_head c) = (\<lambda>f. (ucast (fp_no (fs_hdr f)), f)) ` set ps"
      using arg_cong [OF collecting_entries [OF ok c(3)], of set_mset] by simp
    have "fst ?e \<notin> fst ` set (fc_head c)"
    proof
      assume "fst ?e \<in> fst ` set (fc_head c)"
      then obtain f where "f \<in> set ps" "(ucast (fp_no (fs_hdr skb)) :: u8) = ucast (fp_no (fs_hdr f))"
        using ents by auto
      moreover from this have "fp_no (fs_hdr skb) = fp_no (fs_hdr f)"
        by (metis unat_no_u8 unat_eq_unat_iff)
      ultimately show False using fresh by auto
    qed
    then obtain head' where h: "frag_insert_sorted ?e (fc_head c) = Some head'"
      using ok frag_insert_sorted_None [of "fc_head c" ?e] by (auto simp: frag_chain_ok_def)
    let ?c2 = "c\<lparr>fc_head := head', fc_size := fc_size c + (of_nat (skb_len skb - FRAG_HLEN) :: u16),
                 fc_timestamp := k_jiffies k\<rparr>"
    have i: "batadv_frag_init_chain c s = (False, c, [])"
      using c by (simp add: batadv_frag_init_chain_def)
    obtain out freed where o: "frag_insert_out ?c2 tot = (c', out, freed)"
      and r: "r = \<lparr>fi_ret = True, fi_chain_out = out, fi_freed = [] @ freed\<rparr>"
      using ins i hdr h ne by (auto simp: frag_insert_chain_def split: prod.splits)
    have m: "mset head' = add_mset ?e (mset (fc_head c))"
      by (rule frag_insert_sorted_mset [OF h])
    have "mset (map snd head') = mset (skb # ps)"
      using arg_cong [OF m, of "image_mset snd"] c(3) by simp
    moreover have "frag_chain_ok ?c2"
    proof -
      have "payload_sum head' = payload_sum (?e # fc_head c)"
        using m by (intro payload_sum_mset) simp
      moreover have "set head' = insert ?e (set (fc_head c))"
        using m by (metis set_mset_add_mset_insert set_mset_mset)
      moreover have "sorted_wrt (\<lambda>a b. fst a > fst b) head'"
        using frag_insert_sorted_desc [OF h] ok by (simp add: frag_chain_ok_def)
      ultimately show ?thesis
        using ok c hdr by (auto simp: frag_chain_ok_def skb_len_def)
    qed
    moreover have "head' \<noteq> []" using m by auto
    ultimately show ?thesis
      using c by (intro that [OF _ _ _ _ _ o r]) simp_all
  qed
  have size: "fc_size c2 = of_nat ?sum"
    by (rule collecting_size [OF full(3,1)])
  have us: "unat (fc_size c2) = ?sum"
    unfolding size by (subst unat_of_nat) (use sum tot in simp)
  have "unat (fc_size c2) \<le> 22080"
    using le_trans [OF sum tot] by (simp only: us)
  moreover have "unat (fc_total_size c2) \<le> 22080"
    using tot by (simp only: full(2))
  ultimately have "uint (fc_size c2) \<le> 22080" "uint (fc_total_size c2) \<le> 22080"
    by (simp_all only: unat_eq_nat_uint nat_le_iff of_nat_numeral)
  then have nlim: "\<not> (uint (fc_size c2) > batadv_frag_size_limit \<or> fc_total_size c2 \<noteq> tot
      \<or> uint (fc_total_size c2) > batadv_frag_size_limit)"
    using full(2) by (simp add: size_limit)
  show "fi_ret r" by (simp add: r)
  show "fi_chain_out r = [] \<and> collecting s tot (skb # ps) c'" if "?sum < unat tot"
  proof -
    have "tot \<noteq> fc_size c2" using that us by auto
    then have "out = []" "c' = c2"
      using out nlim by (auto simp: frag_insert_out_def)
    then show ?thesis using full r by (simp add: collecting_def)
  qed
  show "mset (fi_chain_out r) = mset (map (\<lambda>f. (ucast (fp_no (fs_hdr f)), f)) (skb # ps))
      \<and> sorted_wrt (\<lambda>a b. fst a > fst b) (fi_chain_out r)" if "?sum = unat tot"
  proof -
    have "tot = fc_size c2" using that us by (metis unat_eq_unat_iff)
    then have "out = fc_head c2"
      using out nlim by (auto simp: frag_insert_out_def)
    then show ?thesis
      using r collecting_entries [OF full(3,1)] full(3) by (simp add: frag_chain_ok_def)
  qed
qed


text \<open>With 20 bytes of room to spare, merging is concatenation from the highest number down.\<close>

lemma frag_copy_payloads_fits:
  "int (payload_sum es) \<le> room \<Longrightarrow>
   frag_copy_payloads es room data = Merged (data @ concat (map (\<lambda>e. fs_payload (snd e)) es))"
  by (induction es arbitrary: room data) (auto simp: Let_def)

lemma merge_fits:
  assumes "es \<noteq> []" and "\<forall>e \<in> set es. 20 \<le> fs_tailroom (snd e) + slack"
    and "\<forall>e \<in> set es. unat (fp_total_size (fs_hdr (snd e))) = payload_sum es"
  shows "batadv_frag_merge_packets True slack es =
    (Merged (concat (map (\<lambda>e. fs_payload (snd e)) es)), map snd (tl es))"
proof -
  obtain e r where es: "es = e # r" using assms(1) by (cases es) auto
  have "unat (fp_total_size (fs_hdr (snd e))) = length (fs_payload (snd e)) + payload_sum r"
    and "20 \<le> fs_tailroom (snd e) + slack"
    using assms(2,3) by (auto simp: es)
  then have "int (payload_sum r) \<le> int (fs_tailroom (snd e))
      + (int (unat (fp_total_size (fs_hdr (snd e)))) - int (skb_len (snd e))) + int slack"
    by (simp add: skb_len_def)
  then have "int (payload_sum r) \<le> int (fs_tailroom (snd e))
      + (uint (fp_total_size (fs_hdr (snd e))) - int (skb_len (snd e))) + int slack"
    by (simp only: uint_nat)
  then show ?thesis
    by (simp add: batadv_frag_merge_packets_def es frag_copy_payloads_fits)
qed

lemma ordered_payloads:
  assumes m: "mset es = mset (map (\<lambda>f. (ucast (fp_no (fs_hdr f)) :: u8, f)) fs)"
    and so: "sorted_wrt (\<lambda>a b. fst a > fst b) es"
    and c: "mset (map frag_content fs) = mset (map frag_content sent)"
    and n: "map (\<lambda>f. unat (fp_no (fs_hdr f))) sent = [0..<length sent]"
  shows "concat (map (\<lambda>e. fs_payload (snd e)) es) = concat (map fs_payload (rev sent))"
proof -
  let ?p = "\<lambda>e. (fst e, fs_payload (snd e))"
  let ?q = "\<lambda>f. (ucast (fp_no (fs_hdr f)) :: u8, fs_payload f)"
  let ?h = "\<lambda>(n, s, t, p). (ucast (n :: 4 word) :: u8, p)"
  have q: "?q = ?h \<circ> frag_content" by (auto simp: frag_content_def)
  have "mset (map ?p es) = image_mset ?p (mset es)" by simp
  also have "\<dots> = mset (map ?q fs)" unfolding m by (simp add: multiset.map_comp o_def)
  also have "\<dots> = image_mset ?h (mset (map frag_content fs))" by (simp add: q multiset.map_comp)
  also have "\<dots> = mset (map ?q sent)" unfolding c by (simp add: q multiset.map_comp)
  also have "\<dots> = mset (map ?q (rev sent))" by (simp add: mset_rev [of sent, symmetric] del: mset_rev)
  finally have "mset (map ?p es) = mset (map ?q (rev sent))" .
  moreover have "sorted_wrt (\<lambda>a b. fst a > fst b) (map ?p es)"
    using so by (simp add: sorted_wrt_map)
  moreover have "sorted_wrt (\<lambda>a b. fst a > fst b) (map ?q (rev sent))"
  proof -
    have "sorted_wrt (\<lambda>f g. unat (fp_no (fs_hdr f)) < unat (fp_no (fs_hdr g))) sent"
      using arg_cong [OF n, of "sorted_wrt (<)"] by (simp add: sorted_wrt_map)
    then show ?thesis
      by (simp add: sorted_wrt_map sorted_wrt_rev word_less_nat_alt unat_no_u8)
  qed
  ultimately have "map ?p es = map ?q (rev sent)"
    by (rule desc_unique)
  then have "map snd (map ?p es) = map snd (map ?q (rev sent))" by simp
  then show ?thesis by (simp add: o_def)
qed


text \<open>One buffer through \<open>batadv_frag_skb_buffer\<close> when nothing fails.\<close>

lemma frag_skb_buffer_chain:
  assumes "frag_insert_chain k (cs ! (unat (fp_seqno (fs_hdr skb)) mod BATADV_FRAG_BUFFER_COUNT)) skb = (r, c')"
    and "fi_ret r"
  shows "batadv_frag_skb_buffer k True True True slack cs skb =
    (if fi_chain_out r = [] then (\<lparr>fb_ret = True, fb_skb = None, fb_freed = fi_freed r\<rparr>,
        cs[unat (fp_seqno (fs_hdr skb)) mod BATADV_FRAG_BUFFER_COUNT := c'])
     else (case batadv_frag_merge_packets True slack (fi_chain_out r) of
        (m, freed) \<Rightarrow> (\<lparr>fb_ret = (m \<noteq> Merge_Null), fb_skb = (if m = Merge_Null then None else Some m),
             fb_freed = fi_freed r @ freed\<rparr>,
          cs[unat (fp_seqno (fs_hdr skb)) mod BATADV_FRAG_BUFFER_COUNT := c'])))"
  using assms
  by (auto simp: batadv_frag_skb_buffer_def batadv_frag_insert_packet_def Let_def
      split: prod.splits merge_result.splits)

lemma frag_feed_collect:
  assumes "rest \<noteq> []" and "length cs = BATADV_FRAG_BUFFER_COUNT"
    and "collecting s tot ps (cs ! (unat s mod BATADV_FRAG_BUFFER_COUNT))"
    and "\<forall>f \<in> set (rest @ ps). fp_seqno (fs_hdr f) = s \<and> fp_total_size (fs_hdr f) = tot
      \<and> fs_payload f \<noteq> [] \<and> 20 \<le> fs_tailroom f + slack"
    and "distinct (map (\<lambda>f. fp_no (fs_hdr f)) (rest @ ps))"
    and "sum_list (map (\<lambda>f. length (fs_payload f)) (rest @ ps)) = unat tot" and "unat tot \<le> 22080"
  shows "\<exists>es. mset es = mset (map (\<lambda>f. (ucast (fp_no (fs_hdr f)) :: u8, f)) (rest @ ps))
    \<and> sorted_wrt (\<lambda>a b. fst a > fst b) es
    \<and> fst (frag_feed k slack cs rest) = replicate (length rest - 1) (True, None)
        @ [(True, Some (Merged (concat (map (\<lambda>e. fs_payload (snd e)) es))))]"
  using assms
proof (induction rest arbitrary: cs ps)
  case Nil
  then show ?case by simp
next
  case (Cons f rest)
  let ?b = "unat s mod BATADV_FRAG_BUFFER_COUNT"
  let ?len = "\<lambda>f. length (fs_payload f)"
  obtain r c' where ins: "frag_insert_chain k (cs ! ?b) f = (r, c')"
    by (cases "frag_insert_chain k (cs ! ?b) f")
  have hdr: "fp_seqno (fs_hdr f) = s" "fp_total_size (fs_hdr f) = tot"
    and fresh: "fp_no (fs_hdr f) \<notin> (\<lambda>f. fp_no (fs_hdr f)) ` set ps"
    and sum: "sum_list (map ?len (f # ps)) \<le> unat tot"
    using Cons.prems by auto
  note step = collecting_step [OF Cons.prems(3) ins hdr fresh sum Cons.prems(7)]
  show ?case
  proof (cases "rest = []")
    case True
    then have eq: "sum_list (map ?len (f # ps)) = unat tot" using Cons.prems(6) by simp
    let ?es = "fi_chain_out r"
    have es: "mset ?es = mset (map (\<lambda>f. (ucast (fp_no (fs_hdr f)) :: u8, f)) (f # ps))"
      "sorted_wrt (\<lambda>a b. fst a > fst b) ?es"
      using step(3) [OF eq] by simp_all
    have set: "snd ` set ?es = set (f # ps)"
      using arg_cong [OF es(1), of set_mset] by (simp add: image_image)
    have ps: "payload_sum ?es = unat tot"
      using payload_sum_mset [OF es(1)] eq by (simp add: payload_sum_def o_def)
    have ne: "?es \<noteq> []" using es(1) by auto
    have rng: "snd e \<in> set (f # ps)" if "e \<in> set ?es" for e using set that by blast
    have "batadv_frag_merge_packets True slack ?es =
        (Merged (concat (map (\<lambda>e. fs_payload (snd e)) ?es)), map snd (tl ?es))"
      using Cons.prems(4) rng by (intro merge_fits [OF ne]) (fastforce simp: ps)+
    then have "fst (frag_feed k slack cs (f # rest)) =
        [(True, Some (Merged (concat (map (\<lambda>e. fs_payload (snd e)) ?es))))]"
      using frag_skb_buffer_chain [of k cs f r c' slack] ins step(1) ne hdr True by simp
    then show ?thesis using es True by auto
  next
    case False
    then obtain g rest' where rest: "rest = g # rest'" by (cases rest) auto
    have "0 < ?len g" using Cons.prems(4) rest by simp
    then have lt: "sum_list (map ?len (f # ps)) < unat tot"
      using Cons.prems(6) rest by (simp del: length_greater_0_conv)
    note st = step(2) [OF lt]
    let ?cs = "cs[?b := c']"
    have b: "?b < length cs" using Cons.prems(2) by simp
    have "\<exists>es. mset es = mset (map (\<lambda>f. (ucast (fp_no (fs_hdr f)) :: u8, f)) (rest @ f # ps))
      \<and> sorted_wrt (\<lambda>a b. fst a > fst b) es
      \<and> fst (frag_feed k slack ?cs rest) = replicate (length rest - 1) (True, None)
        @ [(True, Some (Merged (concat (map (\<lambda>e. fs_payload (snd e)) es))))]"
      using Cons.prems False st b by (intro Cons.IH) auto
    then obtain es where es: "mset es = mset (map (\<lambda>f. (ucast (fp_no (fs_hdr f)) :: u8, f)) (rest @ f # ps))"
      "sorted_wrt (\<lambda>a b. fst a > fst b) es"
      "fst (frag_feed k slack ?cs rest) = replicate (length rest - 1) (True, None)
        @ [(True, Some (Merged (concat (map (\<lambda>e. fs_payload (snd e)) es))))]"
      by blast
    have "fst (frag_feed k slack cs (f # rest)) = (True, None) # fst (frag_feed k slack ?cs rest)"
      using frag_skb_buffer_chain [of k cs f r c' slack] ins step(1) st hdr
      by (simp add: case_prod_beta)
    then show ?thesis
      using es rest by (intro exI [of _ es]) (auto simp: ac_simps)
  qed
qed


section \<open>Purging\<close>

lemma frag_purge_map:
  "batadv_frag_purge_orig cs cb =
     (map (\<lambda>c. if case cb of None \<Rightarrow> True | Some f \<Rightarrow> f c then c\<lparr>fc_head := [], fc_size := 0\<rparr> else c) cs,
      concat (map (\<lambda>c. if case cb of None \<Rightarrow> True | Some f \<Rightarrow> f c then map snd (fc_head c) else []) cs))"
  by (induction cs cb rule: batadv_frag_purge_orig.induct)
    (simp_all add: Let_def batadv_frag_clear_chain_def case_prod_beta)

lemma frag_purge_balance:
  "frags_skbs cs = frags_skbs (fst (batadv_frag_purge_orig cs cb)) + mset (snd (batadv_frag_purge_orig cs cb))"
  unfolding frag_purge_map by (induction cs) (simp_all add: frags_skbs_def ac_simps)

lemma frag_purge_ok: "frags_ok cs \<Longrightarrow> frags_ok (fst (batadv_frag_purge_orig cs cb))"
  unfolding frag_purge_map frags_ok_def by (simp add: frag_chain_ok_def)

section \<open>Properties\<close>

definition frag_example_chains :: "batadv_frag_table_entry list" where
  "frag_example_chains = replicate 8
     \<lparr>fc_head = [], fc_timestamp = 0, fc_seqno = 0, fc_size = 0, fc_total_size = 0\<rparr>"

definition frag_example_env :: kenv where
  "frag_example_env =
     \<lparr>k_jiffies = 7, k_m2j = ucast, k_jhash = (\<lambda>_ _. 0), k_crc16 = (\<lambda>_. 0), k_crc32c = (\<lambda>_ _. 0),
      k_arp_create = (\<lambda>_ _ _ _ _. [])\<rparr>"

lemma frag_example_chains_ok: "frags_ok frag_example_chains"
  by (simp add: frags_ok_def frag_example_chains_def frag_chain_ok_def)

text \<open>C2: Reassembly. Whenever the sender accepts a packet that is not empty, with an MTU above the 20 bytes of
  the header, the receiver that gets its fragments, in any order, reports success for each of them, hands nothing over before the last one
  and with the last one hands over exactly the packet that was sent. What is needed of the
  network is that it delivers every fragment once with its contents; of the receiver, that
  the chain does not hold this sequence number already and that its buffers have 20 bytes
  of room, which the code does not ask for.\<close>

theorem frag_reassembly:
  assumes "batadv_frag_send_packet alloc push_ok (Some addr) sq mtu dest skb = Some (True, sq', sent)"
    and "20 < mtu" and "skb \<noteq> []"
    and "mset (map frag_content arrived) = mset (map frag_content sent)"
    and "\<forall>f \<in> set arrived. 20 \<le> fs_tailroom f + slack"
    and "frags_ok cs" and "fc_seqno (cs ! (unat (ucast sq' :: u16) mod BATADV_FRAG_BUFFER_COUNT)) \<noteq> ucast sq'"
  shows "fst (frag_feed k slack cs arrived) =
    replicate (length sent - 1) (True, None) @ [(True, Some (Merged skb))]"
proof -
  let ?s = "ucast sq' :: u16" and ?t = "of_nat (length skb) :: u16"
  note sent = frag_send_packet_pieces [OF assms(1-3)]
  have len: "length arrived = length sent"
    using arg_cong [OF assms(4), of size] by simp
  have tot: "unat ?t = length skb"
    using sent(5) by (simp add: unat_of_nat)
  have sumlen: "sum_list (map (\<lambda>f. length (fs_payload f)) fs) = sum_mset (image_mset (\<lambda>(n, s, t, p). length p) (mset (map frag_content fs)))" for fs
    by (induction fs) (simp_all add: frag_content_def)
  have "sum_list (map (\<lambda>f. length (fs_payload f)) sent) = length (concat (map fs_payload (rev sent)))"
    by (simp add: length_concat rev_map [symmetric] sum_list_rev o_def)
  moreover have "sum_list (map (\<lambda>f. length (fs_payload f)) arrived) = sum_list (map (\<lambda>f. length (fs_payload f)) sent)"
    unfolding sumlen assms(4) ..
  ultimately have sum: "sum_list (map (\<lambda>f. length (fs_payload f)) arrived) = unat ?t"
    unfolding tot sent(2) by simp
  have nos: "mset (map (\<lambda>f. fp_no (fs_hdr f)) fs) = image_mset fst (mset (map frag_content fs))" for fs
    by (induction fs) (simp_all add: frag_content_def)
  have "distinct (map (unat :: 4 word \<Rightarrow> nat) (map (\<lambda>f. fp_no (fs_hdr f)) sent))"
    using arg_cong [OF sent(3), of distinct] by (simp add: o_def)
  then have "distinct (map (\<lambda>f. fp_no (fs_hdr f)) sent)"
    by (simp only: distinct_map)
  then have dist: "distinct (map (\<lambda>f. fp_no (fs_hdr f)) arrived)"
    using mset_eq_imp_distinct_iff [of "map (\<lambda>f. fp_no (fs_hdr f)) arrived" "map (\<lambda>f. fp_no (fs_hdr f)) sent"]
    unfolding nos assms(4) by simp
  have img: "frag_content ` set arrived = frag_content ` set sent"
    using arg_cong [OF assms(4), of set_mset] by simp
  have hdrs: "\<forall>f \<in> set arrived. fp_seqno (fs_hdr f) = ?s \<and> fp_total_size (fs_hdr f) = ?t
      \<and> fs_payload f \<noteq> [] \<and> 20 \<le> fs_tailroom f + slack"
  proof
    fix f
    assume f: "f \<in> set arrived"
    then obtain g where g: "g \<in> set sent" "frag_content f = frag_content g"
      using img by (metis imageE imageI)
    then show "fp_seqno (fs_hdr f) = ?s \<and> fp_total_size (fs_hdr f) = ?t
      \<and> fs_payload f \<noteq> [] \<and> 20 \<le> fs_tailroom f + slack"
      using bspec [OF sent(4) g(1)] bspec [OF assms(5) f] by (simp add: frag_content_def)
  qed
  have col: "collecting ?s ?t [] (cs ! (unat ?s mod BATADV_FRAG_BUFFER_COUNT))"
    using assms(6,7) by (simp add: collecting_def frags_ok_def)
  have "arrived \<noteq> []"
    using sent(1) len by auto
  then obtain es where es: "mset es = mset (map (\<lambda>f. (ucast (fp_no (fs_hdr f)) :: u8, f)) arrived)"
    "sorted_wrt (\<lambda>a b. fst a > fst b) es"
    "fst (frag_feed k slack cs arrived) = replicate (length arrived - 1) (True, None)
        @ [(True, Some (Merged (concat (map (\<lambda>e. fs_payload (snd e)) es))))]"
    using frag_feed_collect [OF _ _ col, of arrived slack k] assms(6) hdrs dist sum sent(5) tot
    unfolding append_Nil2 by (auto simp only: frags_ok_def)
  show ?thesis
    using es(3) ordered_payloads [OF es(1,2) assms(4) sent(3)] sent(2) len by simp
qed

theorem frag_reassembly_witness:
  "let sent = snd (snd (the (batadv_frag_send_packet (\<lambda>_. True) True (Some 1) 5 24 2 [1, 2, 3, 4, 5, 6, 7, 8, 9])));
       arrived = map (\<lambda>f. f\<lparr>fs_tailroom := 20\<rparr>) (rev sent)
   in fst (frag_feed frag_example_env 0 frag_example_chains arrived) =
     [(True, None), (True, None), (True, Some (Merged [1, 2, 3, 4, 5, 6, 7, 8, 9]))]"
proof -
  let ?skb = "[1, 2, 3, 4, 5, 6, 7, 8, 9] :: u8 list"
  let ?f = "\<lambda>n p. \<lparr>fs_hdr = (frag_header 6 9 1 2)\<lparr>fp_no := n\<rparr>, fs_payload = p, fs_tailroom = 0, fs_source = 0, fs_dest = 0\<rparr>"
  let ?sent = "[?f 0 [6, 7, 8, 9], ?f 1 [2, 3, 4, 5], ?f 2 [1]]"
  let ?arrived = "map (\<lambda>f. f\<lparr>fs_tailroom := 20\<rparr>) (rev ?sent)"
  have send: "batadv_frag_send_packet (\<lambda>_. True) True (Some 1) 5 24 2 ?skb = Some (True, 6, ?sent)"
    by code_simp
  have "fst (frag_feed frag_example_env 0 frag_example_chains ?arrived) =
      replicate (length ?sent - 1) (True, None) @ [(True, Some (Merged ?skb))]"
    by (rule frag_reassembly [OF send])
      (simp_all add: frag_example_chains_ok frag_content_def add_mset_commute, simp add: frag_example_chains_def)
  then show ?thesis
    unfolding send Let_def by (simp add: numeral_2_eq_2)
qed

lemma frag_send_loop_some:
  obtains ok rest hdr sent where
    "frag_send_loop 16 alloc mtu m skb (frag_header s len a dest) [] = Some (ok, rest, hdr, sent)"
  using frag_send_loop_total [of "frag_header s len a dest" 16 alloc mtu m skb "[]"]
  by (auto simp: frag_header_def)

text \<open>C24: The sender returns true exactly when the packet fits into fifteen fragments, provided that no
  allocation fails and the MTU leaves room for the header. The size check before the loop admits packets of
  sixteen: one that needs the sixteenth fragment is given up after fifteen of them, numbered from zero and each
  filled with the last part of what is left of the packet, are on the air. A longer one is refused with
  nothing sent.\<close>

theorem frag_send_fits:
  assumes "20 \<le> mtu"
  shows "\<exists>ok sq' sent. batadv_frag_send_packet (\<lambda>_. True) True (Some addr) sq mtu dest skb = Some (ok, sq', sent) \<and>
    (ok \<longleftrightarrow> length skb \<le> 15 * (unat (min mtu BATADV_FRAG_MAX_FRAG_SIZE) - FRAG_HLEN)) \<and>
    (16 * (unat (min mtu BATADV_FRAG_MAX_FRAG_SIZE) - FRAG_HLEN) < length skb \<longrightarrow> sent = []) \<and>
    (\<not> ok \<and> length skb \<le> 16 * (unat (min mtu BATADV_FRAG_MAX_FRAG_SIZE) - FRAG_HLEN) \<longrightarrow>
      map (\<lambda>f. unat (fp_no (fs_hdr f))) sent = [0..<15] \<and>
      (\<forall>f \<in> set sent. length (fs_payload f) = unat (min mtu BATADV_FRAG_MAX_FRAG_SIZE) - FRAG_HLEN) \<and>
      (\<exists>rest. rest @ concat (map fs_payload (rev sent)) = skb))"
proof -
  let ?mtu = "min mtu 1400"
  let ?hdr = "frag_header (ucast (sq + 1)) (length skb) addr dest"
  have m: "unat (?mtu - FRAG_HLEN) = unat ?mtu - 20" "20 \<le> unat ?mtu" "unat ?mtu \<le> 1400"
    using assms by (auto simp: min_def word_le_nat_alt unat_sub_if_size)
  have max: "unat ((?mtu - FRAG_HLEN) * 16) = (unat ?mtu - 20) * 16"
    using unat_mult_lem [THEN iffD1, of "?mtu - FRAG_HLEN" 16] m by simp
  have no: "unat (fp_no ?hdr) = 0"
    by (simp add: frag_header_def)
  obtain ok rest hdr sent where
    l: "frag_send_loop 16 (\<lambda>_. True) ?mtu (?mtu - FRAG_HLEN) skb ?hdr [] = Some (ok, rest, hdr, sent)"
    by (rule frag_send_loop_some)
  have fits: "ok \<longleftrightarrow> length skb \<le> 15 * (unat ?mtu - 20)"
    using frag_send_loop_fits [OF l] no m by simp
  have up: "map (\<lambda>f. unat (fp_no (fs_hdr f))) sent = [0..<15] \<and> (\<forall>f \<in> set sent. length (fs_payload f) = unat ?mtu - 20) \<and>
      rest @ concat (map fs_payload (rev sent)) = skb" if "\<not> ok"
    using frag_send_loop_gives_up [of 16 ?mtu skb ?hdr "[]" rest hdr sent] l that no m(1) by auto
  show ?thesis
  proof (cases "16 * (unat ?mtu - 20) < length skb")
    case True
    then have s: "batadv_frag_send_packet (\<lambda>_. True) True (Some addr) sq mtu dest skb = Some (False, sq, [])"
      using max by (simp add: batadv_frag_send_packet_def Let_def mult.commute)
    have "\<not> length skb \<le> 15 * (unat ?mtu - 20)" using True by simp
    then show ?thesis
      unfolding s using True by auto
  next
    case False
    then have s: "batadv_frag_send_packet (\<lambda>_. True) True (Some addr) sq mtu dest skb =
        Some (ok, sq + 1, if ok then sent @ [\<lparr>fs_hdr = hdr, fs_payload = rest, fs_tailroom = 0, fs_source = 0, fs_dest = 0\<rparr>]
          else sent)"
      using max l by (simp add: batadv_frag_send_packet_def Let_def mult.commute)
    show ?thesis
      unfolding s by (intro exI conjI, rule refl) (use fits up False in auto)
  qed
qed

theorem frag_send_fits_witness:
  "\<exists>sq' sent. batadv_frag_send_packet (\<lambda>_. True) True (Some 1) 5 24 2 (replicate 61 0) = Some (False, sq', sent) \<and>
     length sent = 15"
proof -
  obtain ok sq' sent where s: "batadv_frag_send_packet (\<lambda>_. True) True (Some 1) 5 24 2 (replicate 61 0) = Some (ok, sq', sent)"
      "\<not> ok" "map (\<lambda>f. unat (fp_no (fs_hdr f))) sent = [0..<15]"
    using frag_send_fits [of 24 1 5 2 "replicate 61 0"] by auto
  then have "length sent = 15"
    by (metis length_map length_upt diff_zero)
  then show ?thesis using s by auto
qed

text \<open>Every call of the sender returns, whatever the allocations do: sixteen rounds are enough
  for the four-bit fragment number.\<close>

theorem frag_send_returns:
  "batadv_frag_send_packet alloc push_ok primary_if sq mtu dest skb \<noteq> None"
proof (cases primary_if)
  case None
  then show ?thesis by (simp add: batadv_frag_send_packet_def Let_def del: not_None_eq)
next
  case (Some a)
  obtain ok rest hdr sent where
    "frag_send_loop 16 alloc (min mtu 1400) (min mtu 1400 - FRAG_HLEN) skb
       (frag_header (ucast (sq + 1)) (length skb) a dest) [] = Some (ok, rest, hdr, sent)"
    by (rule frag_send_loop_some)
  then show ?thesis
    using Some by (simp add: batadv_frag_send_packet_def Let_def del: not_None_eq)
qed

text \<open>The chains of an originator stay in order under every received fragment and every
  failure, and no buffer is lost or freed twice: what the chains held and the accepted
  fragment is what they hold afterwards, what is handed over and what is freed.\<close>

theorem frag_insert_accounts:
  assumes "frags_ok cs" and "batadv_frag_insert_packet k linearize_ok alloc_ok cs skb = (r, cs')"
  shows "frags_ok cs' \<and> frags_skbs cs + (if fi_ret r then {#skb#} else {#})
    = frags_skbs cs' + mset (map snd (fi_chain_out r)) + mset (fi_freed r)"
  using batadv_frag_insert_packet_step [OF assms] by blast

theorem frag_insert_accounts_witness:
  "frags_ok (snd (batadv_frag_insert_packet frag_example_env True True frag_example_chains
     \<lparr>fs_hdr = frag_header 9 30 1 2, fs_payload = [1, 2], fs_tailroom = 0, fs_source = 0, fs_dest = 0\<rparr>))"
  using frag_insert_accounts [OF frag_example_chains_ok prod.collapse [symmetric]] by blast

lemma frag_insert_chain_out:
  assumes "frag_insert_chain k c skb = (r, c')" and "fi_chain_out r \<noteq> []"
  shows "fi_ret r \<and> skb \<in> snd ` set (fi_chain_out r)"
proof -
  have "skb \<in> snd ` set es'" if "frag_insert_sorted (n, skb) es = Some es'" for n es es'
    using arg_cong [OF frag_insert_sorted_mset [OF that], of set_mset] by force
  then show ?thesis
    using assms
    by (auto simp: frag_insert_chain_def frag_insert_out_def batadv_frag_clear_chain_def Let_def
        split: if_splits option.splits prod.splits)
qed

text \<open>C25: When the merge of a complete chain fails for want of memory, the buffer that the
  caller passed is among the freed ones and the call returns false with \<open>*skb\<close> unchanged,
  so that the caller, which drops the buffer then, frees it a second time.\<close>

theorem frag_merge_failure_frees:
  assumes "batadv_frag_insert_packet k True True cs skb = (r, cs')" and "fi_chain_out r \<noteq> []"
  shows "\<exists>res. batadv_frag_skb_buffer k True True False slack cs skb = (res, cs')
    \<and> \<not> fb_ret res \<and> fb_skb res = None \<and> skb \<in> set (fb_freed res)"
proof -
  obtain c' where "frag_insert_chain k (cs ! (unat (fp_seqno (fs_hdr skb)) mod 8)) skb = (r, c')"
    using assms(1) by (auto simp: batadv_frag_insert_packet_def Let_def split: prod.splits)
  from frag_insert_chain_out [OF this assms(2)] have ret: "fi_ret r" "skb \<in> snd ` set (fi_chain_out r)"
    by simp_all
  obtain e es where es: "fi_chain_out r = e # es"
    using assms(2) by (cases "fi_chain_out r") auto
  show ?thesis
    using ret unfolding batadv_frag_skb_buffer_def assms(1) es
    by (auto simp: es batadv_frag_merge_packets_def Let_def)
qed

theorem frag_merge_failure_frees_witness:
  "let skb = \<lparr>fs_hdr = frag_header 9 2 1 2, fs_payload = [1, 2], fs_tailroom = 0, fs_source = 0, fs_dest = 0\<rparr>
   in skb \<in> set (fb_freed (fst (batadv_frag_skb_buffer frag_example_env True True False 0 frag_example_chains skb)))"
proof -
  let ?skb = "\<lparr>fs_hdr = frag_header 9 2 1 2, fs_payload = [1, 2], fs_tailroom = 0, fs_source = 0, fs_dest = 0\<rparr>"
  have "fi_chain_out (fst (batadv_frag_insert_packet frag_example_env True True frag_example_chains ?skb)) \<noteq> []"
    by (simp add: batadv_frag_insert_packet_def Let_def frag_insert_chain_def frag_insert_out_def
        batadv_frag_init_chain_def frag_example_chains_def frag_header_def skb_len_def size_limit)
  from frag_merge_failure_frees [OF prod.collapse [symmetric] this, of 0]
  show ?thesis by (auto simp: Let_def)
qed

lemma ttl_wrap: "unat (- 1 :: u8) = 255"
  by code_simp

text \<open>A fragment that would not fit the next link after merging is passed on, otherwise it is kept
  for merging; and the content that reassembly needs is never changed by passing it on. The
  time to live is lowered without a look at it: at zero it wraps around to 255 and the
  fragment travels on.\<close>

theorem frag_fwd_keeps_content:
  "(case batadv_frag_skb_fwd route skb of
      (ret, out) \<Rightarrow> ret = (\<exists>n m. route (fp_dest (fs_hdr skb)) = Some (n, m) \<and> unat m < unat (fp_total_size (fs_hdr skb)))
        \<and> (case out of None \<Rightarrow> \<not> ret
            | Some (to, f) \<Rightarrow> ret \<and> frag_content f = frag_content skb
                \<and> unat (fp_ttl (fs_hdr f)) = (if fp_ttl (fs_hdr skb) = 0 then 255 else unat (fp_ttl (fs_hdr skb)) - 1)))"
proof -
  have "unat (t - 1 :: u8) = (if t = 0 then 255 else unat t - 1)" for t :: u8
  proof (cases "t = 0")
    case True
    then show ?thesis by (simp add: ttl_wrap)
  next
    case False
    then show ?thesis by (simp add: unat_minus_one)
  qed
  then show ?thesis
    by (auto simp: batadv_frag_skb_fwd_def Let_def frag_content_def ttl_wrap split: option.splits)
qed

end
