(* ===== verification/Hash_Table.thy ===== *)
theory Hash_Table
  imports Bat_Prelude "HOL-Library.Multiset"
begin

text \<open>
  The hash table of \<open>hash.c\<close> and \<open>hash.h\<close>: an array of buckets, each a list with
  insertion at the head. The table is generic in the comparison and in the bucket
  choice, which every client passes as callbacks. The locale \<open>hash_key\<close> states what a
  client's callbacks have to satisfy (comparison is equality of a key, the choice stays
  inside the table) and derives from it that the table behaves as a finite map from keys
  to elements; every client interprets it on its own callbacks.

  The bucket locks make each operation one atomic step, so they have no counterpart here.
\<close>

record 'a hashtable =
  ht_table :: "'a list list"
  ht_size :: u32

text \<open>\<open>batadv_hash_new\<close>: the three allocations may fail, which is the flag.\<close>

definition batadv_hash_init :: "u32 \<Rightarrow> 'a list list" where
  "batadv_hash_init sz = replicate (unat sz) []"

definition batadv_hash_new :: "bool \<Rightarrow> u32 \<Rightarrow> 'a hashtable option" where
  "batadv_hash_new alloc_ok sz =
     (if \<not> alloc_ok then None
      else Some \<lparr>ht_table = batadv_hash_init sz, ht_size = sz\<rparr>)"

text \<open>
  \<open>batadv_hash_delete\<close> hands every element to the free callback, bucket by bucket, and
  destroys the table: the result is the sequence of elements handed over.
\<close>

definition hash_elems :: "'a hashtable \<Rightarrow> 'a list" where
  "hash_elems h = concat (ht_table h)"

definition batadv_hash_delete :: "'a hashtable \<Rightarrow> 'a list" where
  "batadv_hash_delete h = concat (ht_table h)"

text \<open>
  \<open>batadv_hash_add\<close>: -1 without a table, 1 when an equal element is present, 0 when the
  new one was put at the head of its bucket.
\<close>

definition batadv_hash_add ::
  "'a hashtable option \<Rightarrow> ('a \<Rightarrow> 'k \<Rightarrow> bool) \<Rightarrow> ('k \<Rightarrow> u32 \<Rightarrow> u32) \<Rightarrow> 'k \<Rightarrow> 'a
   \<Rightarrow> int \<times> 'a hashtable option" where
  "batadv_hash_add hash compare choosef data data_node =
     (case hash of
        None \<Rightarrow> (- 1, None)
      | Some h \<Rightarrow>
          (let index = unat (choosef data (ht_size h));
               head = ht_table h ! index
           in if list_ex (\<lambda>node. compare node data) head then (1, Some h)
              else (0, Some (h\<lparr>ht_table := (ht_table h)[index := data_node # head]\<rparr>))))"

text \<open>Unlink the first matching node of a bucket.\<close>

fun hlist_del_first :: "('a \<Rightarrow> bool) \<Rightarrow> 'a list \<Rightarrow> 'a option \<times> 'a list" where
  "hlist_del_first p [] = (None, [])"
| "hlist_del_first p (x # xs) =
     (if p x then (Some x, xs)
      else (let (r, ys) = hlist_del_first p xs in (r, x # ys)))"

definition batadv_hash_remove ::
  "'a hashtable \<Rightarrow> ('a \<Rightarrow> 'k \<Rightarrow> bool) \<Rightarrow> ('k \<Rightarrow> u32 \<Rightarrow> u32) \<Rightarrow> 'k
   \<Rightarrow> 'a option \<times> 'a hashtable" where
  "batadv_hash_remove h compare choosef data =
     (let index = unat (choosef data (ht_size h));
          (r, head') = hlist_del_first (\<lambda>node. compare node data) (ht_table h ! index)
      in (r, h\<lparr>ht_table := (ht_table h)[index := head']\<rparr>))"

text \<open>
  The look-up loop that each client writes over the chosen bucket
  (\<open>batadv_orig_hash_find\<close>, \<open>batadv_claim_hash_find\<close>, ...).
\<close>

definition hash_lookup ::
  "'a hashtable \<Rightarrow> ('a \<Rightarrow> 'k \<Rightarrow> bool) \<Rightarrow> ('k \<Rightarrow> u32 \<Rightarrow> u32) \<Rightarrow> 'k \<Rightarrow> 'a option" where
  "hash_lookup h compare choosef data =
     find (\<lambda>node. compare node data) (ht_table h ! unat (choosef data (ht_size h)))"

text \<open>In-place update of every element, and the deletion loops over the whole table.\<close>

definition hash_map :: "('a \<Rightarrow> 'a) \<Rightarrow> 'a hashtable \<Rightarrow> 'a hashtable" where
  "hash_map f h = h\<lparr>ht_table := map (map f) (ht_table h)\<rparr>"

definition hash_filter :: "('a \<Rightarrow> bool) \<Rightarrow> 'a hashtable \<Rightarrow> 'a hashtable" where
  "hash_filter p h = h\<lparr>ht_table := map (filter p) (ht_table h)\<rparr>"

section \<open>Well-formed tables\<close>

text \<open>Every element is in the bucket of its key and no two elements have one key.\<close>

definition hash_wf :: "('a \<Rightarrow> 'k) \<Rightarrow> ('k \<Rightarrow> u32 \<Rightarrow> u32) \<Rightarrow> 'a hashtable \<Rightarrow> bool" where
  "hash_wf key choosef h \<longleftrightarrow>
     0 < ht_size h \<and> length (ht_table h) = unat (ht_size h) \<and>
     (\<forall>i < length (ht_table h). \<forall>x \<in> set (ht_table h ! i). unat (choosef (key x) (ht_size h)) = i) \<and>
     (\<forall>i < length (ht_table h). distinct (map key (ht_table h ! i)))"

lemma hlist_del_first_find: "fst (hlist_del_first p xs) = find p xs"
  by (induction xs) (auto split: prod.splits)

lemma hlist_del_first_subset: "set (snd (hlist_del_first p xs)) \<subseteq> set xs"
  by (induction xs) (auto split: prod.splits)

lemma hlist_del_first_distinct_filter:
  "distinct (map key xs) \<Longrightarrow> (\<And>x. p x \<longleftrightarrow> key x = k) \<Longrightarrow>
   snd (hlist_del_first p xs) = filter (\<lambda>x. key x \<noteq> k) xs"
proof (induction xs)
  case Nil
  then show ?case by simp
next
  case (Cons x xs)
  show ?case
  proof (cases "key x = k")
    case True
    then have "\<forall>y \<in> set xs. key y \<noteq> k"
      using Cons.prems(1) by (metis distinct.simps(2) image_eqI list.set_map list.simps(9))
    then have "filter (\<lambda>x. key x \<noteq> k) xs = xs"
      by (simp add: filter_id_conv)
    then show ?thesis
      using True Cons.prems(2) by simp
  next
    case False
    then show ?thesis
      using Cons by (auto split: prod.splits)
  qed
qed

lemma set_hash_elems: "set (hash_elems h) = (\<Union>b \<in> set (ht_table h). set b)"
  by (simp add: hash_elems_def)

text \<open>Replacing one bucket by itself with a new head adds one element.\<close>

lemma mset_concat_update:
  "i < length xss \<Longrightarrow> mset (concat (xss[i := x # xss ! i])) = add_mset x (mset (concat xss))"
proof (induction xss arbitrary: i)
  case Nil
  then show ?case by simp
next
  case (Cons xs xss)
  then show ?case by (cases i) auto
qed

lemma hash_elems_map [bucket_simps]: "hash_elems (hash_map f h) = map f (hash_elems h)"
  by (simp add: hash_elems_def hash_map_def map_concat)

lemma hash_elems_filter [bucket_simps]: "hash_elems (hash_filter p h) = filter p (hash_elems h)"
  by (simp add: hash_elems_def hash_filter_def filter_concat)

lemma hash_wf_filter: "hash_wf key choosef h \<Longrightarrow> hash_wf key choosef (hash_filter p h)"
  by (auto simp: hash_wf_def hash_filter_def distinct_map_filter)

lemma hash_wf_map:
  assumes wf: "hash_wf key choosef h"
    and k: "\<And>x. x \<in> set (hash_elems h) \<Longrightarrow> key (f x) = key x"
  shows "hash_wf key choosef (hash_map f h)"
proof -
  have kf: "key (f x) = key x" if "i < length (ht_table h)" "x \<in> set (ht_table h ! i)" for i x
    using that by (intro k) (auto simp: set_hash_elems)
  then have "map key (map f (ht_table h ! i)) = map key (ht_table h ! i)" if "i < length (ht_table h)" for i
    using that by auto
  moreover have "unat (choosef (key y) (ht_size h)) = i"
    if "i < length (ht_table h)" "y \<in> set (map f (ht_table h ! i))" for i y
    using that kf wf by (auto simp: hash_wf_def)
  ultimately show ?thesis
    using wf by (simp add: hash_wf_def hash_map_def del: map_map)
qed

text \<open>No two elements of a well-formed table have the same key.\<close>

lemma distinct_concat_keys:
  "\<forall>i < length xss. distinct (map key (xss ! i)) \<Longrightarrow>
   \<forall>i < length xss. \<forall>x \<in> set (xss ! i). bucket (key x) = i + d \<Longrightarrow>
   distinct (map key (concat xss))"
proof (induction xss arbitrary: d)
  case Nil
  then show ?case by simp
next
  case (Cons xs xss)
  have d1: "distinct (map key xs)"
    using Cons.prems(1) [rule_format, of 0] by simp
  have b: "bucket (key x) = i + Suc d" if "i < length xss" "x \<in> set (xss ! i)" for i x
    using Cons.prems(2) [rule_format, of "Suc i" x] that by simp
  have "distinct (map key (xss ! i))" if "i < length xss" for i
    using Cons.prems(1) [rule_format, of "Suc i"] that by simp
  then have d2: "distinct (map key (concat xss))"
    using b by (intro Cons.IH [of "Suc d"]) auto
  have b0: "bucket (key x) = d" if "x \<in> set xs" for x
    using Cons.prems(2) [rule_format, of 0 x] that by simp
  have b1: "d < bucket (key x)" if m: "x \<in> set (concat xss)" for x
  proof -
    obtain ys where ys: "ys \<in> set xss" "x \<in> set ys"
      using m by auto
    then obtain i where "i < length xss" "ys = xss ! i"
      by (auto simp: in_set_conv_nth)
    with ys(2) b [of i x] show ?thesis by simp
  qed
  have "key ` set xs \<inter> key ` set (concat xss) = {}"
  proof (rule ccontr)
    assume "key ` set xs \<inter> key ` set (concat xss) \<noteq> {}"
    then obtain x y where "x \<in> set xs" "y \<in> set (concat xss)" "key x = key y"
      by (auto simp del: set_concat)
    with b0 [of x] b1 [of y] show False by simp
  qed
  with d1 d2 show ?case
    by (simp del: set_concat)
qed

lemma distinct_hash_keys: "hash_wf key choosef h \<Longrightarrow> distinct (map key (hash_elems h))"
  unfolding hash_elems_def hash_wf_def
  by (rule distinct_concat_keys [where d = 0 and bucket = "\<lambda>k. unat (choosef k (ht_size h))"]) auto

section \<open>The interface of a client\<close>

locale hash_key =
  fixes key :: "'a \<Rightarrow> 'k"
    and compare :: "'a \<Rightarrow> 'k \<Rightarrow> bool"
    and choosef :: "'k \<Rightarrow> u32 \<Rightarrow> u32"
  assumes compare_key: "compare n k \<longleftrightarrow> key n = k"
    and choose_less: "0 < sz \<Longrightarrow> choosef k sz < sz"
begin

lemma index_less:
  "hash_wf key choosef h \<Longrightarrow> unat (choosef k (ht_size h)) < length (ht_table h)"
  using choose_less [of "ht_size h" k] by (auto simp: hash_wf_def word_less_nat_alt)

lemma lookup_iff:
  assumes "hash_wf key choosef h"
  shows "hash_lookup h compare choosef k = Some n \<longleftrightarrow> n \<in> set (hash_elems h) \<and> key n = k"
proof -
  let ?i = "unat (choosef k (ht_size h))"
  let ?b = "ht_table h ! ?i"
  have i: "?i < length (ht_table h)" by (rule index_less [OF assms])
  have d: "distinct (map key ?b)" using assms i by (simp add: hash_wf_def)
  have inb: "x \<in> set ?b" if "x \<in> set (hash_elems h)" "key x = k" for x
    using that assms by (auto simp: hash_wf_def set_hash_elems in_set_conv_nth [of _ "ht_table h"])
  show ?thesis
  proof
    assume "hash_lookup h compare choosef k = Some n"
    then have "n \<in> set ?b" "key n = k"
      by (auto simp: hash_lookup_def find_Some_iff compare_key)
    then show "n \<in> set (hash_elems h) \<and> key n = k"
      using i by (auto simp: set_hash_elems)
  next
    assume a: "n \<in> set (hash_elems h) \<and> key n = k"
    then have nb: "n \<in> set ?b" using inb by blast
    then obtain m where m: "find (\<lambda>x. compare x k) ?b = Some m"
      using a by (cases "find (\<lambda>x. compare x k) ?b") (auto simp: find_None_iff compare_key)
    then have "m \<in> set ?b" "key m = k"
      by (auto simp: find_Some_iff compare_key)
    then have "m = n"
      using a nb d by (auto simp: distinct_map dest: inj_onD)
    then show "hash_lookup h compare choosef k = Some n"
      using m by (simp add: hash_lookup_def)
  qed
qed

lemma lookup_None_iff:
  "hash_wf key choosef h \<Longrightarrow>
   hash_lookup h compare choosef k = None \<longleftrightarrow> (\<forall>n \<in> set (hash_elems h). key n \<noteq> k)"
  by (metis lookup_iff not_Some_eq)

lemma lookup_unique:
  "hash_wf key choosef h \<Longrightarrow> n \<in> set (hash_elems h) \<Longrightarrow>
   hash_lookup h compare choosef (key n) = Some n"
  by (simp add: lookup_iff)

lemma elems_key_inj:
  "hash_wf key choosef h \<Longrightarrow> n \<in> set (hash_elems h) \<Longrightarrow> m \<in> set (hash_elems h) \<Longrightarrow>
   key n = key m \<Longrightarrow> n = m"
  by (metis lookup_unique option.inject)

lemma wf_new: "0 < sz \<Longrightarrow> batadv_hash_new True sz = Some h \<Longrightarrow> hash_wf key choosef h"
  by (auto simp: batadv_hash_new_def batadv_hash_init_def hash_wf_def)

text \<open>The three outcomes of an insertion.\<close>

lemma add_cases:
  assumes wf: "hash_wf key choosef h" and k: "key n = k"
  shows "batadv_hash_add (Some h) compare choosef k n =
     (if hash_lookup h compare choosef k = None
      then (0, Some (h\<lparr>ht_table := (ht_table h)[unat (choosef k (ht_size h)) :=
             n # ht_table h ! unat (choosef k (ht_size h))]\<rparr>))
      else (1, Some h))"
  by (auto simp: batadv_hash_add_def hash_lookup_def Let_def find_None_iff list_ex_iff)

lemma wf_elems_insert:
  assumes wf: "hash_wf key choosef h" and fresh: "hash_lookup h compare choosef (key n) = None"
    and h': "h' = h\<lparr>ht_table := (ht_table h)[unat (choosef (key n) (ht_size h)) :=
             n # ht_table h ! unat (choosef (key n) (ht_size h))]\<rparr>"
  shows "hash_wf key choosef h'" and "mset (hash_elems h') = add_mset n (mset (hash_elems h))"
proof -
  let ?i = "unat (choosef (key n) (ht_size h))"
  let ?b = "ht_table h ! ?i"
  have i: "?i < length (ht_table h)" by (rule index_less [OF wf])
  have "key n \<notin> key ` set ?b"
    using fresh by (auto simp: hash_lookup_def find_None_iff compare_key)
  then show "hash_wf key choosef h'"
    using wf i by (auto simp: hash_wf_def h' nth_list_update)
  show "mset (hash_elems h') = add_mset n (mset (hash_elems h))"
    using mset_concat_update [OF i, of n] by (simp add: h' hash_elems_def)
qed

lemma add_fresh:
  assumes "hash_wf key choosef h" and "hash_lookup h compare choosef (key n) = None"
  obtains h' where "batadv_hash_add (Some h) compare choosef (key n) n = (0, Some h')"
    and "hash_wf key choosef h'" and "mset (hash_elems h') = add_mset n (mset (hash_elems h))"
    and "ht_size h' = ht_size h"
  using assms wf_elems_insert [OF assms refl] add_cases [OF assms(1) refl, of n] by simp

lemma add_present:
  assumes "hash_wf key choosef h" and "hash_lookup h compare choosef (key n) = Some m"
  shows "batadv_hash_add (Some h) compare choosef (key n) n = (1, Some h)"
  using assms add_cases [OF assms(1) refl, of n] by simp

lemma remove_filter:
  assumes wf: "hash_wf key choosef h"
  shows "batadv_hash_remove h compare choosef k =
    (hash_lookup h compare choosef k, hash_filter (\<lambda>x. key x \<noteq> k) h)"
proof -
  let ?i = "unat (choosef k (ht_size h))"
  let ?b = "ht_table h ! ?i"
  have i: "?i < length (ht_table h)" by (rule index_less [OF wf])
  have "snd (hlist_del_first (\<lambda>n. compare n k) ?b) = filter (\<lambda>x. key x \<noteq> k) ?b"
    using wf i by (intro hlist_del_first_distinct_filter) (auto simp: hash_wf_def compare_key)
  moreover have "(ht_table h)[?i := filter (\<lambda>x. key x \<noteq> k) ?b] = map (filter (\<lambda>x. key x \<noteq> k)) (ht_table h)"
  proof (rule nth_equalityI)
    fix j assume "j < length ((ht_table h)[?i := filter (\<lambda>x. key x \<noteq> k) ?b])"
    then have j: "j < length (ht_table h)" by simp
    have "filter (\<lambda>x. key x \<noteq> k) (ht_table h ! j) = ht_table h ! j" if "j \<noteq> ?i"
      using wf j that by (auto simp: hash_wf_def filter_id_conv)
    then show "(ht_table h)[?i := filter (\<lambda>x. key x \<noteq> k) ?b] ! j
        = map (filter (\<lambda>x. key x \<noteq> k)) (ht_table h) ! j"
      using j by (cases "j = ?i") simp_all
  qed simp
  ultimately show ?thesis
    by (simp add: batadv_hash_remove_def hash_lookup_def hash_filter_def Let_def case_prod_beta
        hlist_del_first_find)
qed

lemma lookup_filter:
  assumes "hash_wf key choosef h"
  shows "hash_lookup (hash_filter p h) compare choosef k =
    (case hash_lookup h compare choosef k of None \<Rightarrow> None | Some n \<Rightarrow> if p n then Some n else None)"
proof (cases "hash_lookup h compare choosef k")
  case None
  then have "hash_lookup (hash_filter p h) compare choosef k = None"
    using assms by (simp add: lookup_None_iff hash_wf_filter hash_elems_filter)
  then show ?thesis
    using None by simp
next
  case (Some n)
  then have n: "n \<in> set (hash_elems h)" "key n = k"
    using assms by (simp_all add: lookup_iff)
  show ?thesis
  proof (cases "p n")
    case True
    then have "hash_lookup (hash_filter p h) compare choosef k = Some n"
      using n assms by (simp add: lookup_iff hash_wf_filter hash_elems_filter)
    then show ?thesis
      using Some True by simp
  next
    case False
    then have "\<forall>m \<in> set (filter p (hash_elems h)). key m \<noteq> k"
      using n elems_key_inj [OF assms] by auto
    then have "hash_lookup (hash_filter p h) compare choosef k = None"
      using assms by (simp add: lookup_None_iff hash_wf_filter hash_elems_filter)
    then show ?thesis
      using Some False by simp
  qed
qed

lemma lookup_map:
  assumes wf: "hash_wf key choosef h"
    and k: "\<And>x. x \<in> set (hash_elems h) \<Longrightarrow> key (f x) = key x"
  shows "hash_lookup (hash_map f h) compare choosef k =
    map_option f (hash_lookup h compare choosef k)"
proof (cases "hash_lookup h compare choosef k")
  case None
  then have "\<forall>n \<in> set (hash_elems h). key n \<noteq> k"
    by (simp add: lookup_None_iff [OF wf])
  then have "\<forall>n \<in> set (hash_elems (hash_map f h)). key n \<noteq> k"
    using k by (simp add: hash_elems_map)
  then have "hash_lookup (hash_map f h) compare choosef k = None"
    by (subst lookup_None_iff [OF hash_wf_map [OF wf k]])
  then show ?thesis
    using None by simp
next
  case (Some n)
  then have "n \<in> set (hash_elems h)" "key n = k"
    using wf by (simp_all add: lookup_iff)
  then have "f n \<in> set (hash_elems (hash_map f h)) \<and> key (f n) = k"
    using k by (simp add: hash_elems_map)
  then have "hash_lookup (hash_map f h) compare choosef k = Some (f n)"
    by (subst lookup_iff [OF hash_wf_map [OF wf k]])
  then show ?thesis
    using Some by simp
qed

text \<open>The refinement: insertion and removal are updates of the map \<open>hash_lookup h\<close>.\<close>

lemma lookup_add:
  assumes wf: "hash_wf key choosef h"
    and add: "batadv_hash_add (Some h) compare choosef (key n) n = (ret, Some h')"
  shows "hash_lookup h' compare choosef =
      (case hash_lookup h compare choosef (key n) of
         None \<Rightarrow> (hash_lookup h compare choosef)(key n \<mapsto> n)
       | Some m \<Rightarrow> hash_lookup h compare choosef)"
    and "hash_wf key choosef h'"
    and "ret = 0 \<longleftrightarrow> hash_lookup h compare choosef (key n) = None"
proof -
  have a: "hash_lookup h' compare choosef =
      (case hash_lookup h compare choosef (key n) of
         None \<Rightarrow> (hash_lookup h compare choosef)(key n \<mapsto> n)
       | Some m \<Rightarrow> hash_lookup h compare choosef)
    \<and> hash_wf key choosef h' \<and> (ret = 0 \<longleftrightarrow> hash_lookup h compare choosef (key n) = None)"
  proof (cases "hash_lookup h compare choosef (key n)")
    case None
    obtain h2 where h2: "batadv_hash_add (Some h) compare choosef (key n) n = (0, Some h2)"
      "hash_wf key choosef h2" "mset (hash_elems h2) = add_mset n (mset (hash_elems h))"
      by (rule add_fresh [OF wf None])
    then have s2: "set (hash_elems h2) = insert n (set (hash_elems h))"
      by (metis set_mset_add_mset_insert set_mset_mset)
    have eq: "h' = h2" "ret = 0" using add h2(1) by simp_all
    have "hash_lookup h2 compare choosef k = ((hash_lookup h compare choosef)(key n \<mapsto> n)) k" for k
    proof (cases "k = key n")
      case True
      then show ?thesis using h2 s2 by (simp add: lookup_iff)
    next
      case False
      have "hash_lookup h2 compare choosef k = Some m \<longleftrightarrow> hash_lookup h compare choosef k = Some m" for m
        using False h2 s2 wf by (auto simp: lookup_iff)
      then show ?thesis using False by (metis fun_upd_other option.exhaust)
    qed
    then show ?thesis using None h2 eq by auto
  next
    case (Some m)
    then show ?thesis using add add_present [OF wf Some] wf by simp
  qed
  then show "hash_lookup h' compare choosef =
      (case hash_lookup h compare choosef (key n) of
         None \<Rightarrow> (hash_lookup h compare choosef)(key n \<mapsto> n)
       | Some m \<Rightarrow> hash_lookup h compare choosef)"
    and "hash_wf key choosef h'"
    and "ret = 0 \<longleftrightarrow> hash_lookup h compare choosef (key n) = None"
    by blast+
qed

lemma lookup_remove:
  assumes wf: "hash_wf key choosef h"
    and rem: "batadv_hash_remove h compare choosef k = (r, h')"
  shows "r = hash_lookup h compare choosef k"
    and "hash_lookup h' compare choosef = (hash_lookup h compare choosef)(k := None)"
    and "hash_wf key choosef h'"
proof -
  have r: "r = hash_lookup h compare choosef k" and h': "h' = hash_filter (\<lambda>x. key x \<noteq> k) h"
    using rem remove_filter [OF wf, of k] by simp_all
  show "r = hash_lookup h compare choosef k" by (rule r)
  have "hash_lookup h' compare choosef j = ((hash_lookup h compare choosef)(k := None)) j" for j
  proof (cases "hash_lookup h compare choosef j")
    case None
    then show ?thesis by (simp add: h' lookup_filter [OF wf])
  next
    case (Some n)
    then have "key n = j" using lookup_iff [OF wf, of j n] by blast
    then show ?thesis using Some by (simp add: h' lookup_filter [OF wf])
  qed
  then show "hash_lookup h' compare choosef = (hash_lookup h compare choosef)(k := None)"
    by blast
  show "hash_wf key choosef h'" by (simp add: h' hash_wf_filter wf)
qed

end

end
