(* ===== verification/Bla.thy ===== *)
theory Bla
  imports Hash_Table
begin

text \<open>
  Bridge loop avoidance, \<open>bridge_loop_avoidance.c\<close>. Backbone gateways that share a LAN
  claim the clients behind them and tell each other with ARP-like claim frames; a checksum
  over the claims of a gateway tells the others whether they are in sync, and while they
  are not, no broadcast passes.

  A backbone gateway is an object that claims point to, so it carries an identity
  (\<open>gw_id\<close>, the address of the structure); a claim points to it by that identity. The two
  hash tables hold the objects. Frames that are handed to the bridge are appended to
  \<open>bla_sent\<close>, removals in the translation table to \<open>bla_tt_del\<close>. The outside of the
  component is the record \<open>bla_env\<close>: the clock and the hash functions, the primary
  interface, the configuration switch, which addresses are originators of this mesh, and
  whether the three kinds of allocation succeed. Reference counts and locks have no
  counterpart, an object lives as long as it is in its table.
\<close>

unbundle bit_operations_syntax

section \<open>Data\<close>

abbreviation BATADV_VLAN_HAS_TAG :: u16 where "BATADV_VLAN_HAS_TAG \<equiv> 0x8000"
abbreviation VLAN_VID_MASK :: u16 where "VLAN_VID_MASK \<equiv> 0x0FFF"
abbreviation BATADV_NO_FLAGS :: u16 where "BATADV_NO_FLAGS \<equiv> 0"
abbreviation ETH_P_8021Q :: u16 where "ETH_P_8021Q \<equiv> 0x8100"
abbreviation ETH_P_ARP :: u16 where "ETH_P_ARP \<equiv> 0x0806"
abbreviation ETH_P_IP :: u16 where "ETH_P_IP \<equiv> 0x0800"
abbreviation ARPHRD_ETHER :: u16 where "ARPHRD_ETHER \<equiv> 1"
abbreviation BATADV_CLAIM_TYPE_CLAIM :: u8 where "BATADV_CLAIM_TYPE_CLAIM \<equiv> 0"
abbreviation BATADV_CLAIM_TYPE_UNCLAIM :: u8 where "BATADV_CLAIM_TYPE_UNCLAIM \<equiv> 1"
abbreviation BATADV_CLAIM_TYPE_ANNOUNCE :: u8 where "BATADV_CLAIM_TYPE_ANNOUNCE \<equiv> 2"
abbreviation BATADV_CLAIM_TYPE_REQUEST :: u8 where "BATADV_CLAIM_TYPE_REQUEST \<equiv> 3"
abbreviation BATADV_BLA_CRC_INIT :: u16 where "BATADV_BLA_CRC_INIT \<equiv> 0"
abbreviation BATADV_BLA_BACKBONE_TIMEOUT :: u32 where "BATADV_BLA_BACKBONE_TIMEOUT \<equiv> 60000"
abbreviation BATADV_BLA_CLAIM_TIMEOUT :: u32 where "BATADV_BLA_CLAIM_TIMEOUT \<equiv> 100000"
abbreviation BATADV_BLA_WAIT_PERIODS :: s32 where "BATADV_BLA_WAIT_PERIODS \<equiv> 3"
abbreviation BATADV_DUPLIST_SIZE :: nat where "BATADV_DUPLIST_SIZE \<equiv> 16"
abbreviation BATADV_DUPLIST_TIMEOUT :: u32 where "BATADV_DUPLIST_TIMEOUT \<equiv> 500"

record bla_backbone_gw =
  gw_id :: nat
  gw_orig :: mac
  gw_vid :: vid
  gw_lasttime :: u64
  gw_wait_periods :: s32
  gw_request_sent :: s32
  gw_crc :: u16

record bla_claim =
  cl_addr :: mac
  cl_vid :: vid
  cl_gw :: nat
  cl_lasttime :: u64

record bcast_duplist_entry =
  dl_orig :: mac
  dl_crc :: u32
  dl_entrytime :: u64

text \<open>
  A frame on the LAN, as far as the code looks into it: the Ethernet addresses, the VLAN
  field of the first tag, the protocol field, the protocol fields inside the VLAN headers
  that the frame is long enough to hold, and the ARP part if it is long enough for one.
\<close>

record arp_part =
  ar_hrd :: u16
  ar_pro :: u16
  ar_hln :: u8
  ar_pln :: u8
  ar_hw_src :: mac
  ar_hw_dst :: mac

record lan_frame =
  lf_dest :: mac
  lf_source :: mac
  lf_tci :: u16
  lf_proto :: u16
  lf_encap :: "u16 list"
  lf_arp :: "arp_part option"

record batadv_priv_bla =
  bla_num_requests :: s32
  bla_claim_hash :: "bla_claim hashtable option"
  bla_backbone_hash :: "bla_backbone_gw hashtable option"
  bla_bcast_duplist :: "bcast_duplist_entry list"
  bla_bcast_duplist_curr :: nat
  bla_dest_magic :: "24 word"
  bla_dest_group :: u16
  bla_next_id :: nat
  bla_sent :: "lan_frame list"
  bla_tt_del :: "(mac \<times> vid) list"

record bla_env =
  be_k :: kenv
  be_primary :: "mac option"
  be_bla_on :: bool
  be_orig :: "mac \<Rightarrow> bool"
  be_gw_ok :: bool
  be_claim_ok :: bool
  be_arp_ok :: bool

text \<open>
  \<open>struct batadv_bla_claim_dst\<close> laid over the hardware destination of an ARP frame:
  three bytes of magic, the type, the group in network order.
\<close>

definition claim_dst :: "24 word \<Rightarrow> u8 \<Rightarrow> u16 \<Rightarrow> mac" where
  "claim_dst magic ctype grp =
     push_bit 24 (ucast magic) OR push_bit 16 (ucast ctype) OR ucast grp"

definition dst_magic :: "mac \<Rightarrow> 24 word" where
  "dst_magic m = ucast (drop_bit 24 m)"

definition dst_type :: "mac \<Rightarrow> u8" where
  "dst_type m = ucast (drop_bit 16 m)"

definition dst_group :: "mac \<Rightarrow> u16" where
  "dst_group m = ucast m"

text \<open>The hardware source of an announcement: four fixed bytes and the checksum.\<close>

abbreviation batadv_announce_mac :: "32 word" where
  "batadv_announce_mac \<equiv> 0x43054305"

definition announce_mac :: "u16 \<Rightarrow> mac" where
  "announce_mac crc = push_bit 16 (ucast batadv_announce_mac) OR ucast crc"

definition batadv_get_vid :: "lan_frame \<Rightarrow> vid" where
  "batadv_get_vid skb =
     (if lf_proto skb \<noteq> ETH_P_8021Q then BATADV_NO_FLAGS
      else if lf_encap skb = [] then BATADV_NO_FLAGS
      else (lf_tci skb AND VLAN_VID_MASK) OR BATADV_VLAN_HAS_TAG)"

section \<open>The tables\<close>

definition batadv_choose_claim :: "kenv \<Rightarrow> mac \<times> vid \<Rightarrow> u32 \<Rightarrow> u32" where
  "batadv_choose_claim k data sz =
     (let hash = k_jhash k (mac_bytes (fst data)) 0;
          hash = k_jhash k (vid_bytes (snd data)) hash
      in hash mod sz)"

definition batadv_choose_backbone_gw :: "kenv \<Rightarrow> mac \<times> vid \<Rightarrow> u32 \<Rightarrow> u32" where
  "batadv_choose_backbone_gw k data sz =
     (let hash = k_jhash k (mac_bytes (fst data)) 0;
          hash = k_jhash k (vid_bytes (snd data)) hash
      in hash mod sz)"

definition batadv_compare_backbone_gw :: "bla_backbone_gw \<Rightarrow> mac \<times> vid \<Rightarrow> bool" where
  "batadv_compare_backbone_gw gw1 gw2 =
     (if \<not> batadv_compare_eth (gw_orig gw1) (fst gw2) then False
      else if gw_vid gw1 \<noteq> snd gw2 then False
      else True)"

definition batadv_compare_claim :: "bla_claim \<Rightarrow> mac \<times> vid \<Rightarrow> bool" where
  "batadv_compare_claim cl1 cl2 =
     (if \<not> batadv_compare_eth (cl_addr cl1) (fst cl2) then False
      else if cl_vid cl1 \<noteq> snd cl2 then False
      else True)"

abbreviation claim_key :: "bla_claim \<Rightarrow> mac \<times> vid" where
  "claim_key c \<equiv> (cl_addr c, cl_vid c)"

abbreviation gw_key :: "bla_backbone_gw \<Rightarrow> mac \<times> vid" where
  "gw_key g \<equiv> (gw_orig g, gw_vid g)"

text \<open>The contents of the tables, and access to a gateway through a pointer.\<close>

definition bla_claims :: "batadv_priv_bla \<Rightarrow> bla_claim list" where
  "bla_claims s = (case bla_claim_hash s of None \<Rightarrow> [] | Some h \<Rightarrow> hash_elems h)"

definition bla_gws :: "batadv_priv_bla \<Rightarrow> bla_backbone_gw list" where
  "bla_gws s = (case bla_backbone_hash s of None \<Rightarrow> [] | Some h \<Rightarrow> hash_elems h)"

definition gw_get :: "batadv_priv_bla \<Rightarrow> nat \<Rightarrow> bla_backbone_gw option" where
  "gw_get s i = find (\<lambda>g. gw_id g = i) (bla_gws s)"

definition gw_modify ::
  "nat \<Rightarrow> (bla_backbone_gw \<Rightarrow> bla_backbone_gw) \<Rightarrow> batadv_priv_bla \<Rightarrow> batadv_priv_bla" where
  "gw_modify i f s =
     s\<lparr>bla_backbone_hash := map_option (hash_map (\<lambda>g. if gw_id g = i then f g else g)) (bla_backbone_hash s)\<rparr>"

definition claim_modify ::
  "mac \<times> vid \<Rightarrow> (bla_claim \<Rightarrow> bla_claim) \<Rightarrow> batadv_priv_bla \<Rightarrow> batadv_priv_bla" where
  "claim_modify key f s =
     s\<lparr>bla_claim_hash := map_option (hash_map (\<lambda>c. if claim_key c = key then f c else c)) (bla_claim_hash s)\<rparr>"

definition batadv_claim_hash_find :: "kenv \<Rightarrow> batadv_priv_bla \<Rightarrow> mac \<times> vid \<Rightarrow> bla_claim option" where
  "batadv_claim_hash_find k s data =
     (case bla_claim_hash s of
        None \<Rightarrow> None
      | Some hash \<Rightarrow> hash_lookup hash batadv_compare_claim (batadv_choose_claim k) data)"

definition batadv_backbone_hash_find ::
  "kenv \<Rightarrow> batadv_priv_bla \<Rightarrow> mac \<Rightarrow> vid \<Rightarrow> bla_backbone_gw option" where
  "batadv_backbone_hash_find k s addr vid =
     (case bla_backbone_hash s of
        None \<Rightarrow> None
      | Some hash \<Rightarrow> hash_lookup hash batadv_compare_backbone_gw (batadv_choose_backbone_gw k) (addr, vid))"

text \<open>Without a claim table the function returns before it resets the checksum.\<close>

definition batadv_bla_del_backbone_claims :: "nat \<Rightarrow> batadv_priv_bla \<Rightarrow> batadv_priv_bla" where
  "batadv_bla_del_backbone_claims i s =
     (case bla_claim_hash s of
        None \<Rightarrow> s
      | Some hash \<Rightarrow>
          gw_modify i (gw_crc_update (\<lambda>_. BATADV_BLA_CRC_INIT))
            (s\<lparr>bla_claim_hash := Some (hash_filter (\<lambda>c. cl_gw c \<noteq> i) hash)\<rparr>))"

section \<open>Sending\<close>

text \<open>
  The frame: an ARP reply from the primary interface to everyone, with the claim
  destination as hardware destination, changed by the claim type and tagged for the VLAN.
\<close>

definition bla_claim_frame :: "mac \<Rightarrow> mac \<Rightarrow> mac \<Rightarrow> vid \<Rightarrow> u8 \<Rightarrow> lan_frame" where
  "bla_claim_frame primary local_claim_dest mac vid claimtype =
     (let arp = \<lparr>ar_hrd = ARPHRD_ETHER, ar_pro = ETH_P_IP, ar_hln = 6, ar_pln = 4,
                 ar_hw_src = primary, ar_hw_dst = local_claim_dest\<rparr>;
          skb = \<lparr>lf_dest = 0xFFFFFFFFFFFF, lf_source = primary, lf_tci = 0,
                 lf_proto = ETH_P_ARP, lf_encap = [], lf_arp = Some arp\<rparr>;
          skb =
            (if claimtype = BATADV_CLAIM_TYPE_CLAIM then skb\<lparr>lf_source := mac\<rparr>
             else if claimtype = BATADV_CLAIM_TYPE_UNCLAIM then
               skb\<lparr>lf_arp := Some (arp\<lparr>ar_hw_src := mac\<rparr>)\<rparr>
             else if claimtype = BATADV_CLAIM_TYPE_ANNOUNCE then
               skb\<lparr>lf_arp := Some (arp\<lparr>ar_hw_src := mac\<rparr>)\<rparr>
             else if claimtype = BATADV_CLAIM_TYPE_REQUEST then
               skb\<lparr>lf_arp := Some (arp\<lparr>ar_hw_src := mac\<rparr>), lf_dest := mac\<rparr>
             else skb)
      in if vid AND BATADV_VLAN_HAS_TAG \<noteq> 0 then
           skb\<lparr>lf_proto := ETH_P_8021Q, lf_encap := [lf_proto skb], lf_tci := vid AND VLAN_VID_MASK\<rparr>
         else skb)"

definition batadv_bla_send_claim ::
  "bla_env \<Rightarrow> mac \<Rightarrow> vid \<Rightarrow> u8 \<Rightarrow> batadv_priv_bla \<Rightarrow> batadv_priv_bla" where
  "batadv_bla_send_claim e mac vid claimtype s =
     (case be_primary e of
        None \<Rightarrow> s
      | Some primary \<Rightarrow>
          (let local_claim_dest = claim_dst (bla_dest_magic s) claimtype (bla_dest_group s)
           in if \<not> be_arp_ok e then s
              else s\<lparr>bla_sent := bla_sent s @ [bla_claim_frame primary local_claim_dest mac vid claimtype]\<rparr>))"

definition batadv_bla_send_announce ::
  "bla_env \<Rightarrow> bla_backbone_gw \<Rightarrow> batadv_priv_bla \<Rightarrow> batadv_priv_bla" where
  "batadv_bla_send_announce e backbone_gw s =
     batadv_bla_send_claim e (announce_mac (gw_crc backbone_gw)) (gw_vid backbone_gw)
       BATADV_CLAIM_TYPE_ANNOUNCE s"

text \<open>
  The part of \<open>batadv_bla_get_backbone_gw\<close> for a new own gateway: announce it, and hold
  back broadcasts for some periods. Then the function: the result is the pointer to the
  gateway, or \<open>None\<close> for NULL, and the state.
\<close>

definition bla_start_own_backbone ::
  "bla_env \<Rightarrow> bla_backbone_gw \<Rightarrow> batadv_priv_bla \<Rightarrow> batadv_priv_bla" where
  "bla_start_own_backbone e entry s =
     (let s = batadv_bla_send_announce e entry s;
          s = gw_modify (gw_id entry) (\<lambda>g. g\<lparr>gw_request_sent := gw_request_sent g + 1,
                gw_wait_periods := BATADV_BLA_WAIT_PERIODS\<rparr>) s
      in s\<lparr>bla_num_requests := bla_num_requests s + 1\<rparr>)"

definition batadv_bla_get_backbone_gw ::
  "bla_env \<Rightarrow> mac \<Rightarrow> vid \<Rightarrow> bool \<Rightarrow> batadv_priv_bla \<Rightarrow> nat option \<times> batadv_priv_bla" where
  "batadv_bla_get_backbone_gw e orig vid own_backbone s =
     (case batadv_backbone_hash_find (be_k e) s orig vid of
        Some entry \<Rightarrow> (Some (gw_id entry), s)
      | None \<Rightarrow>
          if \<not> be_gw_ok e then (None, s)
          else
            (let entry = \<lparr>gw_id = bla_next_id s, gw_orig = orig, gw_vid = vid,
                          gw_lasttime = k_jiffies (be_k e), gw_wait_periods = 0,
                          gw_request_sent = 0, gw_crc = BATADV_BLA_CRC_INIT\<rparr>;
                 s = s\<lparr>bla_next_id := bla_next_id s + 1\<rparr>;
                 (hash_added, hash) = batadv_hash_add (bla_backbone_hash s) batadv_compare_backbone_gw
                    (batadv_choose_backbone_gw (be_k e)) (orig, vid) entry
             in if hash_added \<noteq> 0 then (None, s)
                else
                  (let s = s\<lparr>bla_backbone_hash := hash\<rparr>;
                       s = (if be_orig e orig then s\<lparr>bla_tt_del := bla_tt_del s @ [(orig, vid)]\<rparr> else s);
                       s = (if own_backbone then bla_start_own_backbone e entry s else s)
                   in (Some (gw_id entry), s))))"

definition batadv_bla_update_own_backbone_gw ::
  "bla_env \<Rightarrow> mac \<Rightarrow> vid \<Rightarrow> batadv_priv_bla \<Rightarrow> batadv_priv_bla" where
  "batadv_bla_update_own_backbone_gw e primary_if vid s =
     (let (backbone_gw, s) = batadv_bla_get_backbone_gw e primary_if vid True s
      in case backbone_gw of
           None \<Rightarrow> s
         | Some i \<Rightarrow> gw_modify i (gw_lasttime_update (\<lambda>_. k_jiffies (be_k e))) s)"

definition batadv_bla_answer_request ::
  "bla_env \<Rightarrow> mac \<Rightarrow> vid \<Rightarrow> batadv_priv_bla \<Rightarrow> batadv_priv_bla" where
  "batadv_bla_answer_request e primary_if vid s =
     (case batadv_backbone_hash_find (be_k e) s primary_if vid of
        None \<Rightarrow> s
      | Some backbone_gw \<Rightarrow>
          (let s = fold (\<lambda>claim s.
                     if cl_gw claim \<noteq> gw_id backbone_gw then s
                     else batadv_bla_send_claim e (cl_addr claim) (cl_vid claim) BATADV_CLAIM_TYPE_CLAIM s)
                   (bla_claims s) s
           in batadv_bla_send_announce e backbone_gw s))"

definition batadv_bla_send_request :: "bla_env \<Rightarrow> nat \<Rightarrow> batadv_priv_bla \<Rightarrow> batadv_priv_bla" where
  "batadv_bla_send_request e i s =
     (let s = batadv_bla_del_backbone_claims i s
      in case gw_get s i of
           None \<Rightarrow> s
         | Some backbone_gw \<Rightarrow>
             (let s = batadv_bla_send_claim e (gw_orig backbone_gw) (gw_vid backbone_gw) BATADV_CLAIM_TYPE_REQUEST s
              in if gw_request_sent backbone_gw = 0 then
                   gw_modify i (gw_request_sent_update (\<lambda>_. 1))
                     (s\<lparr>bla_num_requests := bla_num_requests s + 1\<rparr>)
                 else s))"

section \<open>Claims\<close>

definition claim_crc :: "kenv \<Rightarrow> mac \<Rightarrow> u16" where
  "claim_crc k addr = k_crc16 k (mac_bytes addr)"

definition batadv_bla_add_claim ::
  "bla_env \<Rightarrow> mac \<Rightarrow> vid \<Rightarrow> nat \<Rightarrow> batadv_priv_bla \<Rightarrow> batadv_priv_bla" where
  "batadv_bla_add_claim e mac vid backbone_gw s =
     (let k = be_k e;
          set_new = (\<lambda>s. gw_modify backbone_gw (\<lambda>g. g\<lparr>gw_crc := gw_crc g XOR claim_crc k mac,
                           gw_lasttime := k_jiffies k\<rparr>)
                        (claim_modify (mac, vid) (cl_gw_update (\<lambda>_. backbone_gw)) s))
      in case batadv_claim_hash_find k s (mac, vid) of
           None \<Rightarrow>
             if \<not> be_claim_ok e then s
             else
               (let claim = \<lparr>cl_addr = mac, cl_vid = vid, cl_gw = backbone_gw, cl_lasttime = k_jiffies k\<rparr>;
                    (hash_added, hash) = batadv_hash_add (bla_claim_hash s) batadv_compare_claim
                       (batadv_choose_claim k) (mac, vid) claim
                in if hash_added \<noteq> 0 then s
                   else set_new (s\<lparr>bla_claim_hash := hash\<rparr>))
         | Some claim \<Rightarrow>
             (let s = claim_modify (mac, vid) (cl_lasttime_update (\<lambda>_. k_jiffies k)) s
              in if cl_gw claim = backbone_gw then s
                 else set_new (gw_modify (cl_gw claim) (\<lambda>g. g\<lparr>gw_crc := gw_crc g XOR claim_crc k (cl_addr claim)\<rparr>) s)))"

definition batadv_bla_del_claim :: "bla_env \<Rightarrow> mac \<Rightarrow> vid \<Rightarrow> batadv_priv_bla \<Rightarrow> batadv_priv_bla" where
  "batadv_bla_del_claim e mac vid s =
     (case batadv_claim_hash_find (be_k e) s (mac, vid) of
        None \<Rightarrow> s
      | Some claim \<Rightarrow>
          (let s = s\<lparr>bla_claim_hash := map_option (\<lambda>h. snd (batadv_hash_remove h batadv_compare_claim
                     (batadv_choose_claim (be_k e)) (claim_key claim))) (bla_claim_hash s)\<rparr>
           in gw_modify (cl_gw claim)
                (\<lambda>g. g\<lparr>gw_crc := gw_crc g XOR claim_crc (be_k e) (cl_addr claim)\<rparr>) s))"


section \<open>Claim frames\<close>

definition batadv_handle_announce ::
  "bla_env \<Rightarrow> mac \<Rightarrow> mac \<Rightarrow> vid \<Rightarrow> batadv_priv_bla \<Rightarrow> nat \<times> batadv_priv_bla" where
  "batadv_handle_announce e an_addr backbone_addr vid s =
     (if (ucast (drop_bit 16 an_addr) :: 32 word) \<noteq> batadv_announce_mac then (0, s)
      else
        (case batadv_bla_get_backbone_gw e backbone_addr vid False s of
           (None, s) \<Rightarrow> (1, s)
         | (Some i, s) \<Rightarrow>
             (let s = gw_modify i (gw_lasttime_update (\<lambda>_. k_jiffies (be_k e))) s;
                  crc = (ucast an_addr :: u16)
              in case gw_get s i of
                   None \<Rightarrow> (1, s)
                 | Some backbone_gw \<Rightarrow>
                     if gw_crc backbone_gw \<noteq> crc then (1, batadv_bla_send_request e i s)
                     else if gw_request_sent backbone_gw \<noteq> 0 then
                       (1, gw_modify i (gw_request_sent_update (\<lambda>_. 0))
                             (s\<lparr>bla_num_requests := bla_num_requests s - 1\<rparr>))
                     else (1, s))))"

definition batadv_handle_request ::
  "bla_env \<Rightarrow> mac \<Rightarrow> mac \<Rightarrow> mac \<Rightarrow> vid \<Rightarrow> batadv_priv_bla \<Rightarrow> nat \<times> batadv_priv_bla" where
  "batadv_handle_request e primary_if backbone_addr h_dest vid s =
     (if \<not> batadv_compare_eth backbone_addr h_dest then (0, s)
      else if \<not> batadv_compare_eth h_dest primary_if then (1, s)
      else (1, batadv_bla_answer_request e primary_if vid s))"

definition batadv_handle_unclaim ::
  "bla_env \<Rightarrow> mac option \<Rightarrow> mac \<Rightarrow> mac \<Rightarrow> vid \<Rightarrow> batadv_priv_bla \<Rightarrow> nat \<times> batadv_priv_bla" where
  "batadv_handle_unclaim e primary_if backbone_addr claim_addr vid s =
     (let s = (case primary_if of
                 Some p \<Rightarrow> if batadv_compare_eth backbone_addr p
                           then batadv_bla_send_claim e claim_addr vid BATADV_CLAIM_TYPE_UNCLAIM s else s
               | None \<Rightarrow> s)
      in case batadv_backbone_hash_find (be_k e) s backbone_addr vid of
           None \<Rightarrow> (1, s)
         | Some backbone_gw \<Rightarrow> (1, batadv_bla_del_claim e claim_addr vid s))"

definition batadv_handle_claim ::
  "bla_env \<Rightarrow> mac \<Rightarrow> mac \<Rightarrow> mac \<Rightarrow> vid \<Rightarrow> batadv_priv_bla \<Rightarrow> nat \<times> batadv_priv_bla" where
  "batadv_handle_claim e primary_if backbone_addr claim_addr vid s =
     (case batadv_bla_get_backbone_gw e backbone_addr vid False s of
        (None, s) \<Rightarrow> (1, s)
      | (Some backbone_gw, s) \<Rightarrow>
          (let s = batadv_bla_add_claim e claim_addr vid backbone_gw s
           in (1, if batadv_compare_eth backbone_addr primary_if
                  then batadv_bla_send_claim e claim_addr vid BATADV_CLAIM_TYPE_CLAIM s else s)))"

definition batadv_check_claim_group ::
  "bla_env \<Rightarrow> mac \<Rightarrow> mac \<Rightarrow> mac \<Rightarrow> mac \<Rightarrow> batadv_priv_bla \<Rightarrow> nat \<times> batadv_priv_bla" where
  "batadv_check_claim_group e primary_if hw_src hw_dst h_source s =
     (let ctype = dst_type hw_dst;
          backbone = (if ctype = BATADV_CLAIM_TYPE_CLAIM then Some hw_src
             else if ctype = BATADV_CLAIM_TYPE_REQUEST \<or> ctype = BATADV_CLAIM_TYPE_ANNOUNCE
                     \<or> ctype = BATADV_CLAIM_TYPE_UNCLAIM then Some h_source
             else None)
      in case backbone of
           None \<Rightarrow> (0, s)
         | Some backbone_addr \<Rightarrow>
             if batadv_compare_eth backbone_addr primary_if then (0, s)
             else if dst_group hw_dst = bla_dest_group s then (2, s)
             else if \<not> be_orig e backbone_addr then (1, s)
             else (2, if dst_group hw_dst > bla_dest_group s
                      then s\<lparr>bla_dest_group := dst_group hw_dst\<rparr> else s))"

text \<open>
  The walk over stacked VLAN headers: the first protocol that is not a VLAN tag and the
  number of tags, or \<open>None\<close> when the frame ends inside a header.
\<close>

fun vlan_walk :: "u16 list \<Rightarrow> nat \<Rightarrow> (u16 \<times> nat) option" where
  "vlan_walk [] depth = None"
| "vlan_walk (proto # protos) depth =
     (if proto = ETH_P_8021Q then vlan_walk protos (depth + 1) else Some (proto, depth + 1))"

text \<open>
  A frame of the own group, at the end of \<open>batadv_bla_process_claim\<close>: become a backbone
  gateway on the VLAN if not done yet, then act on the type. What the handlers return makes
  no difference.
\<close>

definition bla_dispatch_claim ::
  "bla_env \<Rightarrow> mac \<Rightarrow> mac \<Rightarrow> u8 \<Rightarrow> lan_frame \<Rightarrow> vid \<Rightarrow> batadv_priv_bla \<Rightarrow> batadv_priv_bla" where
  "bla_dispatch_claim e primary_if hw_src ctype skb vid s =
     (let s = batadv_bla_update_own_backbone_gw e primary_if vid s
      in if ctype = BATADV_CLAIM_TYPE_CLAIM then
           snd (batadv_handle_claim e primary_if hw_src (lf_source skb) vid s)
         else if ctype = BATADV_CLAIM_TYPE_UNCLAIM then
           snd (batadv_handle_unclaim e (Some primary_if) (lf_source skb) hw_src vid s)
         else if ctype = BATADV_CLAIM_TYPE_ANNOUNCE then
           snd (batadv_handle_announce e hw_src (lf_source skb) vid s)
         else if ctype = BATADV_CLAIM_TYPE_REQUEST then
           snd (batadv_handle_request e primary_if hw_src (lf_dest skb) vid s)
         else s)"

definition batadv_bla_process_claim ::
  "bla_env \<Rightarrow> mac \<Rightarrow> lan_frame \<Rightarrow> batadv_priv_bla \<Rightarrow> nat \<times> batadv_priv_bla" where
  "batadv_bla_process_claim e primary_if skb s =
     (let vid = batadv_get_vid skb
      in case (if vid AND BATADV_VLAN_HAS_TAG \<noteq> 0 then vlan_walk (lf_encap skb) 0
               else Some (lf_proto skb, 0)) of
           None \<Rightarrow> (0, s)
         | Some (proto, vlan_depth) \<Rightarrow>
             if proto \<noteq> ETH_P_ARP then (0, s)
             else
               (case lf_arp skb of
                  None \<Rightarrow> (0, s)
                | Some arphdr \<Rightarrow>
                    if ar_hrd arphdr \<noteq> ARPHRD_ETHER then (0, s)
                    else if ar_pro arphdr \<noteq> ETH_P_IP then (0, s)
                    else if ar_hln arphdr \<noteq> 6 then (0, s)
                    else if ar_pln arphdr \<noteq> 4 then (0, s)
                    else if dst_magic (ar_hw_dst arphdr) \<noteq> bla_dest_magic s then (0, s)
                    else if vlan_depth > 1 then (1, s)
                    else
                      (let hw_src = ar_hw_src arphdr; hw_dst = ar_hw_dst arphdr;
                           (ret, s) = batadv_check_claim_group e primary_if hw_src hw_dst (lf_source skb) s
                       in if ret < 2 then (ret, s)
                          else (1, bla_dispatch_claim e primary_if hw_src (dst_type hw_dst) skb vid s))))"

section \<open>Ageing\<close>

text \<open>What happens to one gateway at the label \<open>purge_now\<close>, and the loop over the table.\<close>

definition bla_purge_gw :: "bla_backbone_gw \<Rightarrow> batadv_priv_bla \<Rightarrow> batadv_priv_bla" where
  "bla_purge_gw backbone_gw s =
     (let s = (if gw_request_sent backbone_gw \<noteq> 0
               then s\<lparr>bla_num_requests := bla_num_requests s - 1\<rparr> else s);
          s = batadv_bla_del_backbone_claims (gw_id backbone_gw) s
      in s\<lparr>bla_backbone_hash :=
           map_option (hash_filter (\<lambda>g. gw_id g \<noteq> gw_id backbone_gw)) (bla_backbone_hash s)\<rparr>)"

definition batadv_bla_purge_backbone_gw :: "bla_env \<Rightarrow> bool \<Rightarrow> batadv_priv_bla \<Rightarrow> batadv_priv_bla" where
  "batadv_bla_purge_backbone_gw e now s =
     fold (\<lambda>backbone_gw s.
        if \<not> now \<and> \<not> batadv_has_timed_out (be_k e) (gw_lasttime backbone_gw) BATADV_BLA_BACKBONE_TIMEOUT then s
        else bla_purge_gw backbone_gw s)
       (bla_gws s) s"

text \<open>The address of the gateway that a claim points to.\<close>

definition claim_orig :: "batadv_priv_bla \<Rightarrow> bla_claim \<Rightarrow> mac" where
  "claim_orig s claim = (case gw_get s (cl_gw claim) of Some g \<Rightarrow> gw_orig g | None \<Rightarrow> 0)"

definition batadv_bla_purge_claims ::
  "bla_env \<Rightarrow> mac option \<Rightarrow> bool \<Rightarrow> batadv_priv_bla \<Rightarrow> batadv_priv_bla" where
  "batadv_bla_purge_claims e primary_if now s =
     fold (\<lambda>claim s.
        if \<not> now \<and> (\<not> batadv_compare_eth (claim_orig s claim) (case primary_if of Some p \<Rightarrow> p | None \<Rightarrow> 0)
                     \<or> \<not> batadv_has_timed_out (be_k e) (cl_lasttime claim) BATADV_BLA_CLAIM_TIMEOUT) then s
        else snd (batadv_handle_unclaim e primary_if (claim_orig s claim) (cl_addr claim) (cl_vid claim) s))
       (bla_claims s) s"

definition batadv_bla_update_orig_address ::
  "bla_env \<Rightarrow> mac \<Rightarrow> mac option \<Rightarrow> batadv_priv_bla \<Rightarrow> batadv_priv_bla" where
  "batadv_bla_update_orig_address e primary_if oldif s =
     (let s = s\<lparr>bla_dest_group := claim_crc (be_k e) primary_if\<rparr>;
          oldif = (if \<not> be_bla_on e then None else oldif)
      in case oldif of
           None \<Rightarrow> batadv_bla_purge_backbone_gw e True (batadv_bla_purge_claims e None True s)
         | Some old \<Rightarrow>
             fold (\<lambda>backbone_gw s.
                if \<not> batadv_compare_eth (gw_orig backbone_gw) old then s
                else batadv_bla_send_announce e (backbone_gw\<lparr>gw_orig := primary_if\<rparr>)
                       (gw_modify (gw_id backbone_gw) (gw_orig_update (\<lambda>_. primary_if)) s))
               (bla_gws s) s)"

definition batadv_bla_status_update :: "bla_env \<Rightarrow> batadv_priv_bla \<Rightarrow> batadv_priv_bla" where
  "batadv_bla_status_update e s =
     (case be_primary e of
        None \<Rightarrow> s
      | Some primary_if \<Rightarrow> batadv_bla_update_orig_address e primary_if (Some primary_if) s)"

definition bla_periodic_gw :: "bla_env \<Rightarrow> mac \<Rightarrow> bla_backbone_gw \<Rightarrow> batadv_priv_bla \<Rightarrow> batadv_priv_bla" where
  "bla_periodic_gw e primary_if backbone_gw s =
     (if \<not> batadv_compare_eth (gw_orig backbone_gw) primary_if then s
      else
        (let i = gw_id backbone_gw;
             s = gw_modify i (gw_lasttime_update (\<lambda>_. k_jiffies (be_k e))) s;
             s = batadv_bla_send_announce e backbone_gw s
         in if gw_request_sent backbone_gw = 0 then s
            else
              (let wait = gw_wait_periods backbone_gw - 1;
                   s = gw_modify i (gw_wait_periods_update (\<lambda>_. wait)) s
               in if wait \<noteq> 0 then s
                  else gw_modify i (gw_request_sent_update (\<lambda>_. 0))
                         (s\<lparr>bla_num_requests := bla_num_requests s - 1\<rparr>))))"

definition batadv_bla_periodic_work :: "bla_env \<Rightarrow> batadv_priv_bla \<Rightarrow> batadv_priv_bla" where
  "batadv_bla_periodic_work e s =
     (case be_primary e of
        None \<Rightarrow> s
      | Some primary_if \<Rightarrow>
          (let s = batadv_bla_purge_claims e (Some primary_if) False s;
               s = batadv_bla_purge_backbone_gw e False s
           in if \<not> be_bla_on e then s
              else fold (bla_periodic_gw e primary_if) (bla_gws s) s))"

section \<open>Start and end\<close>

text \<open>
  \<open>bla_init\<close> on the state that the zeroed private data gives; the flags are the two
  allocations. The result is 0 or \<open>-ENOMEM\<close>.
\<close>

definition batadv_bla_init ::
  "bla_env \<Rightarrow> bool \<Rightarrow> bool \<Rightarrow> batadv_priv_bla \<Rightarrow> int \<times> batadv_priv_bla" where
  "batadv_bla_init e claim_hash_ok backbone_hash_ok s =
     (let entrytime = k_jiffies (be_k e) - k_m2j (be_k e) BATADV_DUPLIST_TIMEOUT;
          s = s\<lparr>bla_dest_magic := 0xff4305,
                bla_dest_group := (case be_primary e of Some p \<Rightarrow> claim_crc (be_k e) p | None \<Rightarrow> 0),
                bla_bcast_duplist := map (dl_entrytime_update (\<lambda>_. entrytime)) (bla_bcast_duplist s),
                bla_bcast_duplist_curr := 0\<rparr>
      in if bla_claim_hash s \<noteq> None then (0, s)
         else
           (let s = s\<lparr>bla_claim_hash := batadv_hash_new claim_hash_ok 128,
                      bla_backbone_hash := batadv_hash_new backbone_hash_ok 32\<rparr>
            in if bla_claim_hash s = None \<or> bla_backbone_hash s = None then (- 12, s) else (0, s)))"

definition batadv_bla_free :: "bla_env \<Rightarrow> batadv_priv_bla \<Rightarrow> batadv_priv_bla" where
  "batadv_bla_free e s =
     (let s = (if bla_claim_hash s \<noteq> None then
                 (batadv_bla_purge_claims e (be_primary e) True s)\<lparr>bla_claim_hash := None\<rparr> else s)
      in if bla_backbone_hash s \<noteq> None then
           (batadv_bla_purge_backbone_gw e True s)\<lparr>bla_backbone_hash := None\<rparr> else s)"

section \<open>Deciding about frames\<close>

text \<open>The search over the entries from the newest to the oldest.\<close>

fun duplist_search :: "kenv \<Rightarrow> u32 \<Rightarrow> mac \<Rightarrow> bcast_duplist_entry list \<Rightarrow> bool" where
  "duplist_search k crc orig [] = False"
| "duplist_search k crc orig (entry # rest) =
     (if batadv_has_timed_out k (dl_entrytime entry) BATADV_DUPLIST_TIMEOUT then False
      else if dl_crc entry \<noteq> crc then duplist_search k crc orig rest
      else if batadv_compare_eth (dl_orig entry) orig then duplist_search k crc orig rest
      else True)"

definition batadv_bla_check_bcast_duplist ::
  "kenv \<Rightarrow> u32 \<Rightarrow> mac \<Rightarrow> batadv_priv_bla \<Rightarrow> nat \<times> batadv_priv_bla" where
  "batadv_bla_check_bcast_duplist k crc orig s =
     (if duplist_search k crc orig
           (map (\<lambda>i. bla_bcast_duplist s ! ((bla_bcast_duplist_curr s + i) mod BATADV_DUPLIST_SIZE))
              [0..<BATADV_DUPLIST_SIZE]) then (1, s)
      else
        (let c = (bla_bcast_duplist_curr s + BATADV_DUPLIST_SIZE - 1) mod BATADV_DUPLIST_SIZE
         in (0, s\<lparr>bla_bcast_duplist := (bla_bcast_duplist s)[c :=
                    \<lparr>dl_orig = orig, dl_crc = crc, dl_entrytime = k_jiffies k\<rparr>],
                  bla_bcast_duplist_curr := c\<rparr>)))"

definition batadv_bla_is_backbone_gw_orig :: "bla_env \<Rightarrow> batadv_priv_bla \<Rightarrow> mac \<Rightarrow> vid \<Rightarrow> bool" where
  "batadv_bla_is_backbone_gw_orig e s orig vid =
     (if \<not> be_bla_on e then False
      else case bla_backbone_hash s of
        None \<Rightarrow> False
      | Some hash \<Rightarrow>
          list_ex (list_ex (\<lambda>g. batadv_compare_eth (gw_orig g) orig \<and> gw_vid g = vid)) (ht_table hash))"

text \<open>\<open>pull_ok\<close>: the frame behind the given header is long enough.\<close>

definition batadv_bla_is_backbone_gw ::
  "bla_env \<Rightarrow> batadv_priv_bla \<Rightarrow> bool \<Rightarrow> lan_frame \<Rightarrow> mac \<Rightarrow> bool" where
  "batadv_bla_is_backbone_gw e s pull_ok skb orig =
     (if \<not> be_bla_on e then False
      else if \<not> pull_ok then False
      else batadv_backbone_hash_find (be_k e) s orig (batadv_get_vid skb) \<noteq> None)"

text \<open>Packets from the mesh, and packets into the mesh: the return value and the state.\<close>

definition batadv_bla_rx ::
  "bla_env \<Rightarrow> mac \<Rightarrow> mac \<Rightarrow> vid \<Rightarrow> bool \<Rightarrow> batadv_priv_bla \<Rightarrow> nat \<times> batadv_priv_bla" where
  "batadv_bla_rx e h_dest h_source vid is_bcast s =
     (case be_primary e of
        None \<Rightarrow> (1, s)
      | Some primary_if \<Rightarrow>
          (let allow = (\<lambda>s. (0, batadv_bla_update_own_backbone_gw e primary_if vid s))
           in if \<not> be_bla_on e then allow s
              else if bla_num_requests s \<noteq> 0 \<and> is_multicast_ether_addr h_dest \<and> is_bcast then (1, s)
              else
                (case batadv_claim_hash_find (be_k e) s (h_source, vid) of
                   None \<Rightarrow> allow (snd (batadv_handle_claim e primary_if primary_if h_source vid s))
                 | Some claim \<Rightarrow>
                     if batadv_compare_eth (claim_orig s claim) primary_if then
                       allow (claim_modify (h_source, vid) (cl_lasttime_update (\<lambda>_. k_jiffies (be_k e))) s)
                     else if is_multicast_ether_addr h_dest \<and> is_bcast then (1, s)
                     else allow (snd (batadv_handle_claim e primary_if primary_if h_source vid s)))))"

definition batadv_bla_tx ::
  "bla_env \<Rightarrow> lan_frame \<Rightarrow> vid \<Rightarrow> batadv_priv_bla \<Rightarrow> nat \<times> batadv_priv_bla" where
  "batadv_bla_tx e skb vid s =
     (case be_primary e of
        None \<Rightarrow> (0, s)
      | Some primary_if \<Rightarrow>
          (let allow = (\<lambda>s. (0, batadv_bla_update_own_backbone_gw e primary_if vid s))
           in if \<not> be_bla_on e then allow s
              else
                (let (claim_frame, s) = batadv_bla_process_claim e primary_if skb s
                 in if claim_frame \<noteq> 0 then (1, s)
                    else if bla_num_requests s \<noteq> 0 \<and> is_multicast_ether_addr (lf_dest skb) then (1, s)
                    else
                      (case batadv_claim_hash_find (be_k e) s (lf_source skb, vid) of
                         None \<Rightarrow> allow s
                       | Some claim \<Rightarrow>
                           if batadv_compare_eth (claim_orig s claim) primary_if then
                             allow (snd (batadv_handle_unclaim e (Some primary_if) primary_if (lf_source skb) vid s))
                           else if is_multicast_ether_addr (lf_dest skb) then (1, s)
                           else allow s))))"


section \<open>The tables as maps\<close>

text \<open>Both tables satisfy the interface of the hash table.\<close>

interpretation clt: hash_key claim_key batadv_compare_claim "batadv_choose_claim k" for k
  by unfold_locales
    (auto simp: batadv_compare_claim_def batadv_choose_claim_def Let_def word_mod_less_divisor split: if_splits)

interpretation bgt: hash_key gw_key batadv_compare_backbone_gw "batadv_choose_backbone_gw k" for k
  by unfold_locales
    (auto simp: batadv_compare_backbone_gw_def batadv_choose_backbone_gw_def Let_def word_mod_less_divisor
      split: if_splits)

lemma bla_lists_modify [bucket_simps]:
  "bla_gws (gw_modify i f s) = map (\<lambda>g. if gw_id g = i then f g else g) (bla_gws s)"
  "bla_claims (gw_modify i f s) = bla_claims s"
  "bla_claims (claim_modify key fc s) = map (\<lambda>c. if claim_key c = key then fc c else c) (bla_claims s)"
  "bla_gws (claim_modify key fc s) = bla_gws s"
  by (simp_all add: bla_gws_def bla_claims_def gw_modify_def claim_modify_def hash_elems_map split: option.split)

lemma bla_modify_fields [simp]:
  "bla_num_requests (gw_modify i f s) = bla_num_requests s"
  "bla_claim_hash (gw_modify i f s) = bla_claim_hash s"
  "bla_next_id (gw_modify i f s) = bla_next_id s"
  "bla_sent (gw_modify i f s) = bla_sent s"
  "bla_dest_group (gw_modify i f s) = bla_dest_group s"
  "bla_dest_magic (gw_modify i f s) = bla_dest_magic s"
  "bla_num_requests (claim_modify key fc s) = bla_num_requests s"
  "bla_backbone_hash (claim_modify key fc s) = bla_backbone_hash s"
  "bla_next_id (claim_modify key fc s) = bla_next_id s"
  "bla_sent (claim_modify key fc s) = bla_sent s"
  "bla_dest_group (claim_modify key fc s) = bla_dest_group s"
  "bla_dest_magic (claim_modify key fc s) = bla_dest_magic s"
  by (simp_all add: gw_modify_def claim_modify_def)

end
