(* ===== verification/Bla_Invariant.thy ===== *)
theory Bla_Invariant
  imports Bla
begin

text \<open>
  The invariant of bridge loop avoidance and its properties: the checksum of every gateway
  is the exclusive or over its claims, the counter of open requests counts the gateways
  that are out of sync, every claim points to a gateway of its VLAN that is in the table.
  First the effect of the elementary table changes on the invariant, then one preservation
  lemma per operation, then the reachable states, then what the operations do.
\<close>

unbundle bit_operations_syntax

section \<open>The invariant\<close>

text \<open>The checksum of a gateway is the exclusive or over the clients that point to it.\<close>

definition claims_crc :: "kenv \<Rightarrow> nat \<Rightarrow> bla_claim list \<Rightarrow> u16" where
  "claims_crc k i cs =
     fold (\<lambda>c x. x XOR claim_crc k (cl_addr c)) (filter (\<lambda>c. cl_gw c = i) cs) BATADV_BLA_CRC_INIT"

lemma fold_xor_init:
  "fold (\<lambda>c x. x XOR h c) cs (a :: 'w :: len word) = a XOR fold (\<lambda>c x. x XOR h c) cs 0"
proof (induction cs arbitrary: a)
  case Nil
  then show ?case by simp
next
  case (Cons c cs)
  show ?case
    using Cons.IH [of "a XOR h c"] Cons.IH [of "h c"] by (simp add: ac_simps)
qed

lemma claims_crc_simps [simp]:
  "claims_crc k i [] = 0"
  "claims_crc k i (c # cs) = (if cl_gw c = i then claim_crc k (cl_addr c) XOR claims_crc k i cs else claims_crc k i cs)"
  by (simp_all add: claims_crc_def) (metis fold_xor_init)

lemma claims_crc_mset: "mset cs = mset ds \<Longrightarrow> claims_crc k i cs = claims_crc k i ds"
  unfolding claims_crc_def
  by (rule fun_cong [OF fold_multiset_equiv]) (auto simp: fun_eq_iff ac_simps mset_filter)

lemma claims_crc_none: "\<forall>c \<in> set cs. cl_gw c \<noteq> i \<Longrightarrow> claims_crc k i cs = 0"
  by (simp add: claims_crc_def filter_False)

lemma claims_crc_filter_other:
  "i \<noteq> j \<Longrightarrow> claims_crc k i (filter (\<lambda>c. cl_gw c \<noteq> j) cs) = claims_crc k i cs"
  unfolding claims_crc_def filter_filter by (metis (mono_tags, lifting) filter_cong)

definition requests_pending :: "bla_backbone_gw list \<Rightarrow> nat" where
  "requests_pending gs = length (filter (\<lambda>g. gw_request_sent g \<noteq> 0) gs)"

definition bla_core :: "kenv \<Rightarrow> bla_claim list \<Rightarrow> bla_backbone_gw list \<Rightarrow> s32 \<Rightarrow> nat \<Rightarrow> bool" where
  "bla_core k cs gs num next_id \<longleftrightarrow>
     distinct (map gw_id gs) \<and> (\<forall>g \<in> set gs. gw_id g < next_id) \<and>
     num = of_nat (requests_pending gs) \<and>
     (\<forall>g \<in> set gs. gw_crc g = claims_crc k (gw_id g) cs) \<and>
     (\<forall>c \<in> set cs. \<exists>g \<in> set gs. gw_id g = cl_gw c \<and> gw_vid g = cl_vid c)"

definition bla_tables_ok :: "kenv \<Rightarrow> batadv_priv_bla \<Rightarrow> bool" where
  "bla_tables_ok k s \<longleftrightarrow>
     (case bla_claim_hash s of None \<Rightarrow> True
      | Some h \<Rightarrow> hash_wf claim_key (batadv_choose_claim k) h) \<and>
     (case bla_backbone_hash s of None \<Rightarrow> True
      | Some h \<Rightarrow> 0 < ht_size h \<and> length (ht_table h) = unat (ht_size h))"

definition bla_inv :: "kenv \<Rightarrow> batadv_priv_bla \<Rightarrow> bool" where
  "bla_inv k s \<longleftrightarrow>
     bla_tables_ok k s \<and> bla_core k (bla_claims s) (bla_gws s) (bla_num_requests s) (bla_next_id s)"

text \<open>The core of the invariant does not see the order of the tables.\<close>

lemma bla_core_perm:
  assumes "bla_core k cs gs num n" and "mset cs = mset cs'" and "mset gs = mset gs'"
  shows "bla_core k cs' gs' num n"
proof -
  have "distinct (map gw_id gs')"
    using assms mset_eq_imp_distinct_iff [of "map gw_id gs" "map gw_id gs'"] by (simp add: bla_core_def)
  moreover have "requests_pending gs' = requests_pending gs"
    using assms(3) unfolding requests_pending_def by (metis mset_filter size_mset)
  moreover have "set gs' = set gs" "set cs' = set cs"
    using assms(2,3) by (metis set_mset_mset)+
  ultimately show ?thesis
    using assms(1) claims_crc_mset [OF assms(2)] by (simp add: bla_core_def)
qed


text \<open>The elementary changes of the two tables and what they do to the core.\<close>

abbreviation on_gw ::
  "nat \<Rightarrow> (bla_backbone_gw \<Rightarrow> bla_backbone_gw) \<Rightarrow> bla_backbone_gw list \<Rightarrow> bla_backbone_gw list" where
  "on_gw i f gs \<equiv> map (\<lambda>g. if gw_id g = i then f g else g) gs"

lemma on_gw_ids [simp]:
  "(\<And>g. gw_id (f g) = gw_id g) \<Longrightarrow> map gw_id (on_gw i f gs) = map gw_id gs"
  by simp

lemma on_gw_owner:
  assumes "\<And>g. gw_id (f g) = gw_id g" and "\<And>g. gw_vid (f g) = gw_vid g"
    and "\<exists>g \<in> set gs. gw_id g = j \<and> gw_vid g = v"
  shows "\<exists>g \<in> set (on_gw i f gs). gw_id g = j \<and> gw_vid g = v"
proof -
  obtain g where "g \<in> set gs" "gw_id g = j" "gw_vid g = v"
    using assms(3) by blast
  then have "(if gw_id g = i then f g else g) \<in> set (on_gw i f gs)"
    "gw_id (if gw_id g = i then f g else g) = j" "gw_vid (if gw_id g = i then f g else g) = v"
    using assms(1,2) by auto
  then show ?thesis by blast
qed

lemma pending_on_gw:
  assumes "\<And>g. gw_request_sent (f g) = gw_request_sent g"
  shows "requests_pending (on_gw i f gs) = requests_pending gs"
  unfolding requests_pending_def using assms by (induction gs) auto

lemma core_change:
  assumes core: "bla_core k cs gs num n"
    and f: "\<And>g. gw_id (f g) = gw_id g" "\<And>g. gw_vid (f g) = gw_vid g"
    and req: "requests_pending (on_gw i f gs) = requests_pending gs'"
    and num: "num' = of_nat (requests_pending gs')"
    and crc: "\<And>g. g \<in> set gs \<Longrightarrow> gw_crc (if gw_id g = i then f g else g) = claims_crc k (gw_id g) cs'"
    and own: "\<And>c. c \<in> set cs' \<Longrightarrow> \<exists>g \<in> set gs. gw_id g = cl_gw c \<and> gw_vid g = cl_vid c"
  shows "bla_core k cs' (on_gw i f gs) num' n"
  unfolding bla_core_def
proof (intro conjI ballI)
  show "distinct (map gw_id (on_gw i f gs))"
    using core unfolding on_gw_ids [OF f(1)] by (simp only: bla_core_def)
  show "num' = of_nat (requests_pending (on_gw i f gs))"
    using req num by simp
  fix g
  assume "g \<in> set (on_gw i f gs)"
  then obtain h where h: "h \<in> set gs" "g = (if gw_id h = i then f h else h)"
    by auto
  then have "gw_id g = gw_id h"
    using f(1) by simp
  then show "gw_id g < n" "gw_crc g = claims_crc k (gw_id g) cs'"
    using core crc [OF h(1)] h by (simp_all add: bla_core_def)
next
  fix c
  assume "c \<in> set cs'"
  then show "\<exists>g \<in> set (on_gw i f gs). gw_id g = cl_gw c \<and> gw_vid g = cl_vid c"
    by (intro on_gw_owner [OF f] own)
qed

lemma core_gw_touch:
  assumes core: "bla_core k cs gs num n"
    and f: "\<And>g. gw_id (f g) = gw_id g" "\<And>g. gw_vid (f g) = gw_vid g"
      "\<And>g. gw_crc (f g) = gw_crc g" "\<And>g. gw_request_sent (f g) = gw_request_sent g"
  shows "bla_core k cs (on_gw i f gs) num n"
  by (rule core_change [OF core f(1,2), where gs' = gs])
    (use core f in \<open>auto simp: bla_core_def pending_on_gw\<close>)

lemma distinct_map_Cons: "distinct (map key (x # xs)) \<Longrightarrow> \<forall>y \<in> set xs. key y \<noteq> key x"
  by simp (metis imageI)

lemma pending_set:
  assumes "distinct (map gw_id gs)" and "g \<in> set gs" and "\<And>g. gw_id (f g) = gw_id g"
  shows "requests_pending (on_gw (gw_id g) f gs) + (if gw_request_sent g \<noteq> 0 then 1 else 0)
    = requests_pending gs + (if gw_request_sent (f g) \<noteq> 0 then 1 else 0)"
  using assms(1,2)
proof (induction gs)
  case Nil
  then show ?case by simp
next
  case (Cons h gs)
  show ?case
  proof (cases "h = g")
    case True
    then have "\<forall>x \<in> set gs. gw_id x \<noteq> gw_id g"
      using distinct_map_Cons [OF Cons.prems(1)] by simp
    then have "on_gw (gw_id g) f gs = gs"
      by (simp add: map_idI)
    then show ?thesis
      using True by (simp add: requests_pending_def)
  next
    case False
    then have "gw_id h \<noteq> gw_id g" "g \<in> set gs"
      using Cons.prems by auto
    then show ?thesis
      using Cons by (simp add: requests_pending_def)
  qed
qed

lemma core_request:
  assumes core: "bla_core k cs gs num n" and g: "g \<in> set gs" "gw_id g = i"
    and f: "\<And>g. gw_id (f g) = gw_id g" "\<And>g. gw_vid (f g) = gw_vid g" "\<And>g. gw_crc (f g) = gw_crc g"
    and num: "num' = num + (if gw_request_sent (f g) \<noteq> 0 then 1 else 0) - (if gw_request_sent g \<noteq> 0 then 1 else 0)"
  shows "bla_core k cs (on_gw i f gs) num' n"
proof (rule core_change [OF core f(1,2) refl])
  have "requests_pending (on_gw i f gs) + (if gw_request_sent g \<noteq> 0 then 1 else 0)
    = requests_pending gs + (if gw_request_sent (f g) \<noteq> 0 then 1 else 0)"
    unfolding g(2) [symmetric] using core by (intro pending_set [OF _ g(1) f(1)]) (simp add: bla_core_def)
  from arg_cong [OF this, of "of_nat :: nat \<Rightarrow> s32"]
  show "num' = of_nat (requests_pending (on_gw i f gs))"
    using core num by (auto simp: bla_core_def diff_eq_eq ac_simps split: if_splits)
qed (use core f in \<open>auto simp: bla_core_def\<close>)

lemma core_gw_add:
  assumes core: "bla_core k cs gs num n"
    and g: "gw_id g = n" "gw_crc g = 0" "gw_request_sent g = 0"
  shows "bla_core k cs (g # gs) num (Suc n)"
proof -
  have "cl_gw c \<noteq> n" if c: "c \<in> set cs" for c
  proof -
    obtain h where "h \<in> set gs" "gw_id h = cl_gw c"
      using core c unfolding bla_core_def by blast
    then show ?thesis using core by (auto simp: bla_core_def)
  qed
  then have "claims_crc k n cs = 0"
    by (simp add: claims_crc_none)
  then show ?thesis
    using core g by (auto simp: bla_core_def requests_pending_def)
qed

lemma core_gw_del:
  assumes core: "bla_core k cs gs num n" and g: "g \<in> set gs" "\<forall>c \<in> set cs. cl_gw c \<noteq> gw_id g"
    and num: "num' = (if gw_request_sent g \<noteq> 0 then num - 1 else num)"
  shows "bla_core k cs (filter (\<lambda>h. gw_id h \<noteq> gw_id g) gs) num' n"
proof -
  let ?gs = "filter (\<lambda>h. gw_id h \<noteq> gw_id g) gs"
  have "distinct (map gw_id gs)" using core by (simp add: bla_core_def)
  then have "requests_pending gs = requests_pending ?gs + (if gw_request_sent g \<noteq> 0 then 1 else 0)"
    using g(1)
  proof (induction gs)
    case Nil
    then show ?case by simp
  next
    case (Cons h gs)
    show ?case
    proof (cases "h = g")
      case True
      then have "\<forall>x \<in> set gs. gw_id x \<noteq> gw_id g"
        using distinct_map_Cons [OF Cons.prems(1)] by simp
      then have "filter (\<lambda>h. gw_id h \<noteq> gw_id g) gs = gs"
        by (simp add: filter_id_conv)
      then show ?thesis
        using True by (simp add: requests_pending_def)
    next
      case False
      then have "gw_id h \<noteq> gw_id g" "g \<in> set gs"
        using Cons.prems by auto
      then show ?thesis
        using Cons by (simp add: requests_pending_def)
    qed
  qed
  then have "num' = of_nat (requests_pending ?gs)"
    using core num by (auto simp: bla_core_def)
  moreover have "\<exists>h \<in> set ?gs. gw_id h = cl_gw c \<and> gw_vid h = cl_vid c" if c: "c \<in> set cs" for c
  proof -
    obtain h where "h \<in> set gs" "gw_id h = cl_gw c" "gw_vid h = cl_vid c"
      using core c unfolding bla_core_def by blast
    moreover from this have "h \<in> set ?gs" using bspec [OF g(2) c] by simp
    ultimately show ?thesis by blast
  qed
  ultimately show ?thesis
    using core by (auto simp: bla_core_def distinct_map inj_on_def)
qed

lemma core_claims_clear:
  assumes "bla_core k cs gs num n"
  shows "bla_core k (filter (\<lambda>c. cl_gw c \<noteq> i) cs) (on_gw i (gw_crc_update (\<lambda>_. 0)) gs) num n"
  by (rule core_change [OF assms, where gs' = gs])
    (use assms in \<open>auto simp: bla_core_def pending_on_gw claims_crc_filter_other claims_crc_none\<close>)

text \<open>One claim enters, leaves or moves: \<open>rest\<close> are the claims that stay as they are.\<close>

lemma core_claim_enters:
  assumes core: "bla_core k rest gs num n"
    and c: "mset cs = add_mset c (mset rest)" "\<exists>g \<in> set gs. gw_id g = cl_gw c \<and> gw_vid g = cl_vid c"
    and f: "\<And>g. gw_id (f g) = gw_id g" "\<And>g. gw_vid (f g) = gw_vid g"
      "\<And>g. gw_crc (f g) = gw_crc g XOR claim_crc k (cl_addr c)" "\<And>g. gw_request_sent (f g) = gw_request_sent g"
  shows "bla_core k cs (on_gw (cl_gw c) f gs) num n"
proof -
  have m: "mset (c # rest) = mset cs"
    using c(1) by simp
  have "bla_core k (c # rest) (on_gw (cl_gw c) f gs) num n"
    by (rule core_change [OF core f(1,2), where gs' = gs])
      (use core c f in \<open>auto simp: bla_core_def pending_on_gw ac_simps\<close>)
  then show ?thesis
    by (rule bla_core_perm [OF _ m refl])
qed

lemma core_claim_leaves:
  assumes core: "bla_core k cs gs num n"
    and c: "mset cs = add_mset c (mset rest)"
    and f: "\<And>g. gw_id (f g) = gw_id g" "\<And>g. gw_vid (f g) = gw_vid g"
      "\<And>g. gw_crc (f g) = gw_crc g XOR claim_crc k (cl_addr c)" "\<And>g. gw_request_sent (f g) = gw_request_sent g"
  shows "bla_core k rest (on_gw (cl_gw c) f gs) num n"
proof -
  have m: "mset cs = mset (c # rest)"
    using c(1) by simp
  have core': "bla_core k (c # rest) gs num n"
    by (rule bla_core_perm [OF core m refl])
  have "claims_crc k (cl_gw c) (c # rest) XOR claim_crc k (cl_addr c) = claims_crc k (cl_gw c) rest"
    by (simp add: ac_simps)
  then show ?thesis
    by (intro core_change [OF core' f(1,2), where gs' = gs])
      (use core' f in \<open>auto simp: bla_core_def pending_on_gw ac_simps\<close>)
qed

text \<open>The element with a given key, taken out of a list with distinct keys.\<close>

lemma distinct_keys_split:
  assumes "distinct (map key cs)" and "c \<in> set cs"
  shows "mset cs = add_mset c (mset (filter (\<lambda>x. key x \<noteq> key c) cs))"
    and "mset (map (\<lambda>x. if key x = key c then h x else x) cs)
      = add_mset (h c) (mset (filter (\<lambda>x. key x \<noteq> key c) cs))"
proof -
  have "mset cs = add_mset c (mset (filter (\<lambda>x. key x \<noteq> key c) cs)) \<and>
      mset (map (\<lambda>x. if key x = key c then h x else x) cs)
      = add_mset (h c) (mset (filter (\<lambda>x. key x \<noteq> key c) cs))"
    using assms
  proof (induction cs)
    case Nil
    then show ?case by simp
  next
    case (Cons d cs)
    show ?case
    proof (cases "d = c")
      case True
      then have "\<forall>x \<in> set cs. key x \<noteq> key c"
        using distinct_map_Cons [OF Cons.prems(1)] by simp
      then have "filter (\<lambda>x. key x \<noteq> key c) cs = cs" "map (\<lambda>x. if key x = key c then h x else x) cs = cs"
        by (simp_all add: filter_id_conv map_idI)
      then show ?thesis
        using True by simp
    next
      case False
      then have "key d \<noteq> key c" "c \<in> set cs"
        using Cons.prems by auto
      then show ?thesis
        using Cons by simp
    qed
  qed
  then show "mset cs = add_mset c (mset (filter (\<lambda>x. key x \<noteq> key c) cs))"
    and "mset (map (\<lambda>x. if key x = key c then h x else x) cs)
      = add_mset (h c) (mset (filter (\<lambda>x. key x \<noteq> key c) cs))"
    by auto
qed


section \<open>Every operation keeps the invariant\<close>

text \<open>The look-ups of the code return elements of the tables.\<close>

lemma backbone_find_in:
  assumes "bla_tables_ok k s" and "batadv_backbone_hash_find k s orig vid = Some g"
  shows "g \<in> set (bla_gws s) \<and> gw_orig g = orig \<and> gw_vid g = vid"
proof -
  obtain h where h: "bla_backbone_hash s = Some h"
    "hash_lookup h batadv_compare_backbone_gw (batadv_choose_backbone_gw k) (orig, vid) = Some g"
    using assms(2) by (auto simp: batadv_backbone_hash_find_def split: option.splits)
  let ?i = "unat (batadv_choose_backbone_gw k (orig, vid) (ht_size h))"
  have "?i < length (ht_table h)"
    using assms(1) h(1) bgt.choose_less [of "ht_size h" k "(orig, vid)"]
    by (auto simp: bla_tables_ok_def word_less_nat_alt)
  moreover have "g \<in> set (ht_table h ! ?i)" "batadv_compare_backbone_gw g (orig, vid)"
    using h(2) by (auto simp: hash_lookup_def find_Some_iff)
  ultimately show ?thesis
    using h(1) bgt.compare_key [of g "(orig, vid)"] by (auto simp: bla_gws_def set_hash_elems)
qed

lemma claim_find_iff:
  assumes "bla_tables_ok k s"
  shows "batadv_claim_hash_find k s key = Some c \<longleftrightarrow> c \<in> set (bla_claims s) \<and> claim_key c = key"
  using assms clt.lookup_iff [of k _ key c]
  by (auto simp: batadv_claim_hash_find_def bla_tables_ok_def bla_claims_def split: option.splits)

lemma claim_find_None:
  assumes "bla_tables_ok k s"
  shows "batadv_claim_hash_find k s key = None \<longleftrightarrow> (\<forall>c \<in> set (bla_claims s). claim_key c \<noteq> key)"
  using claim_find_iff [OF assms, of key] by (metis not_Some_eq)

lemma claims_distinct: "bla_tables_ok k s \<Longrightarrow> distinct (map claim_key (bla_claims s))"
  by (auto simp: bla_tables_ok_def bla_claims_def split: option.splits dest: distinct_hash_keys)

lemma gw_get_in: "gw_get s i = Some g \<Longrightarrow> g \<in> set (bla_gws s) \<and> gw_id g = i"
  by (auto simp: gw_get_def find_Some_iff)

lemma gw_get_id:
  assumes "distinct (map gw_id (bla_gws s))" and "g \<in> set (bla_gws s)" and "gw_id g = i"
  shows "gw_get s i = Some g"
proof -
  obtain h where "gw_get s i = Some h"
    using assms(2,3) by (cases "gw_get s i") (auto simp: gw_get_def find_None_iff)
  moreover from gw_get_in [OF this] have "h = g"
    using assms by (auto simp: distinct_map dest: inj_onD)
  ultimately show ?thesis by simp
qed

lemma tables_gw_modify: "bla_tables_ok k s \<Longrightarrow> bla_tables_ok k (gw_modify i f s)"
  by (auto simp: bla_tables_ok_def gw_modify_def hash_map_def split: option.splits)

lemma tables_claim_modify:
  assumes "bla_tables_ok k s" and "\<And>c. claim_key (f c) = claim_key c"
  shows "bla_tables_ok k (claim_modify key f s)"
  using assms
  by (auto simp: bla_tables_ok_def claim_modify_def split: option.splits intro!: hash_wf_map)

text \<open>Changes that neither table sees.\<close>

definition same_tables :: "batadv_priv_bla \<Rightarrow> batadv_priv_bla \<Rightarrow> bool" where
  "same_tables s t \<longleftrightarrow> bla_claim_hash t = bla_claim_hash s \<and> bla_backbone_hash t = bla_backbone_hash s
     \<and> bla_num_requests t = bla_num_requests s \<and> bla_next_id t = bla_next_id s"

lemma same_tables_lists:
  "same_tables s t \<Longrightarrow> bla_claims t = bla_claims s \<and> bla_gws t = bla_gws s"
  by (simp add: same_tables_def bla_claims_def bla_gws_def)

lemma same_tables_inv: "same_tables s t \<Longrightarrow> bla_inv k t = bla_inv k s"
  by (simp add: same_tables_lists bla_inv_def bla_tables_ok_def) (simp add: same_tables_def)

lemma same_tables_send: "same_tables s (batadv_bla_send_claim e mac vid ctype s)"
  by (simp add: batadv_bla_send_claim_def same_tables_def Let_def split: option.split)

lemma send_claim_inv [simp]: "bla_inv k (batadv_bla_send_claim e mac vid ctype s) = bla_inv k s"
  by (rule same_tables_inv [OF same_tables_send])

lemma send_announce_inv [simp]: "bla_inv k (batadv_bla_send_announce e g s) = bla_inv k s"
  by (simp add: batadv_bla_send_announce_def)

lemma send_lists [simp]:
  "bla_claims (batadv_bla_send_claim e mac vid ctype s) = bla_claims s"
  "bla_gws (batadv_bla_send_claim e mac vid ctype s) = bla_gws s"
  "bla_claim_hash (batadv_bla_send_claim e mac vid ctype s) = bla_claim_hash s"
  "bla_backbone_hash (batadv_bla_send_claim e mac vid ctype s) = bla_backbone_hash s"
  "bla_num_requests (batadv_bla_send_claim e mac vid ctype s) = bla_num_requests s"
  "bla_next_id (batadv_bla_send_claim e mac vid ctype s) = bla_next_id s"
  by (simp_all add: batadv_bla_send_claim_def bla_claims_def bla_gws_def Let_def split: option.split)

lemma announce_lists [simp]:
  "bla_claims (batadv_bla_send_announce e g s) = bla_claims s"
  "bla_gws (batadv_bla_send_announce e g s) = bla_gws s"
  "bla_backbone_hash (batadv_bla_send_announce e g s) = bla_backbone_hash s"
  "bla_num_requests (batadv_bla_send_announce e g s) = bla_num_requests s"
  "bla_next_id (batadv_bla_send_announce e g s) = bla_next_id s"
  by (simp_all add: batadv_bla_send_announce_def)

lemma gw_touch_inv:
  assumes "bla_inv k s" and "\<And>g. gw_id (f g) = gw_id g" "\<And>g. gw_vid (f g) = gw_vid g"
    "\<And>g. gw_crc (f g) = gw_crc g" "\<And>g. gw_request_sent (f g) = gw_request_sent g"
  shows "bla_inv k (gw_modify i f s)"
  using assms by (simp add: bla_inv_def tables_gw_modify bucket_simps core_gw_touch)

lemma claim_touch_inv:
  assumes "bla_inv k s" and "\<And>c. claim_key (f c) = claim_key c" and "\<And>c. cl_gw (f c) = cl_gw c"
  shows "bla_inv k (claim_modify key f s)"
proof -
  let ?h = "\<lambda>c. if claim_key c = key then f c else c"
  have keep: "cl_gw (?h c) = cl_gw c" "cl_addr (?h c) = cl_addr c" "cl_vid (?h c) = cl_vid c" for c
    using assms(2,3) [of c] by auto
  have "claims_crc k i (map ?h cs) = claims_crc k i cs" for i cs
    by (induction cs) (simp_all add: keep del: map_map)
  moreover have "\<exists>g \<in> set (bla_gws s). gw_id g = cl_gw c \<and> gw_vid g = cl_vid c"
    if c: "c \<in> set (map ?h (bla_claims s))" for c
  proof -
    obtain d where d: "d \<in> set (bla_claims s)" "c = ?h d"
      using c by (auto simp del: map_map)
    then obtain g where "g \<in> set (bla_gws s)" "gw_id g = cl_gw d" "gw_vid g = cl_vid d"
      using assms(1) unfolding bla_inv_def bla_core_def by blast
    then show ?thesis unfolding d(2) keep by blast
  qed
  ultimately have "bla_core k (map ?h (bla_claims s)) (bla_gws s) (bla_num_requests s) (bla_next_id s)"
    using assms(1) unfolding bla_inv_def bla_core_def by simp
  then show ?thesis
    using assms(1) by (simp add: bla_inv_def tables_claim_modify [OF _ assms(2)] bucket_simps)
qed

lemma bla_other_fields [simp]:
  "bla_claims (s\<lparr>bla_num_requests := n\<rparr>) = bla_claims s" "bla_gws (s\<lparr>bla_num_requests := n\<rparr>) = bla_gws s"
  "bla_claims (s\<lparr>bla_next_id := i\<rparr>) = bla_claims s" "bla_gws (s\<lparr>bla_next_id := i\<rparr>) = bla_gws s"
  "bla_claims (s\<lparr>bla_tt_del := l\<rparr>) = bla_claims s" "bla_gws (s\<lparr>bla_tt_del := l\<rparr>) = bla_gws s"
  "bla_claims (s\<lparr>bla_dest_group := gr\<rparr>) = bla_claims s" "bla_gws (s\<lparr>bla_dest_group := gr\<rparr>) = bla_gws s"
  "bla_claims (s\<lparr>bla_backbone_hash := bh\<rparr>) = bla_claims s" "bla_gws (s\<lparr>bla_claim_hash := ch\<rparr>) = bla_gws s"
  "bla_tables_ok k (s\<lparr>bla_num_requests := n\<rparr>) = bla_tables_ok k s"
  "bla_tables_ok k (s\<lparr>bla_next_id := i\<rparr>) = bla_tables_ok k s"
  "bla_tables_ok k (s\<lparr>bla_tt_del := l\<rparr>) = bla_tables_ok k s"
  "bla_tables_ok k (s\<lparr>bla_dest_group := gr\<rparr>) = bla_tables_ok k s"
  "gw_get (s\<lparr>bla_num_requests := n\<rparr>) j = gw_get s j" "gw_get (s\<lparr>bla_claim_hash := ch\<rparr>) j = gw_get s j"
  "gw_get (s\<lparr>bla_tt_del := l\<rparr>) j = gw_get s j"
  by (simp_all add: bla_claims_def bla_gws_def gw_get_def bla_tables_ok_def)

lemma gw_request_inv:
  assumes "bla_inv k s" and "gw_get s i = Some g"
    and "\<And>g. gw_id (f g) = gw_id g" "\<And>g. gw_vid (f g) = gw_vid g" "\<And>g. gw_crc (f g) = gw_crc g"
    and "n = bla_num_requests s + (if gw_request_sent (f g) \<noteq> 0 then 1 else 0) - (if gw_request_sent g \<noteq> 0 then 1 else 0)"
  shows "bla_inv k (gw_modify i f (s\<lparr>bla_num_requests := n\<rparr>))"
proof -
  have "bla_core k (bla_claims s) (on_gw i f (bla_gws s)) n (bla_next_id s)"
    using assms gw_get_in [OF assms(2)]
    by (intro core_request [where num = "bla_num_requests s" and g = g]) (auto simp: bla_inv_def)
  then show ?thesis
    using assms(1) by (simp add: bla_inv_def tables_gw_modify bucket_simps)
qed


lemma gw_get_modify [simp]:
  assumes "\<And>g. gw_id (f g) = gw_id g"
  shows "gw_get (gw_modify i f s) j = map_option (\<lambda>g. if gw_id g = i then f g else g) (gw_get s j)"
proof -
  have "find (\<lambda>g. gw_id g = j) (on_gw i f gs) = map_option (\<lambda>g. if gw_id g = i then f g else g) (find (\<lambda>g. gw_id g = j) gs)" for gs
    using assms by (induction gs) auto
  then show ?thesis
    by (simp add: gw_get_def bucket_simps)
qed

lemma gw_get_other [simp]:
  "gw_get (batadv_bla_send_claim e mac vid ctype s) j = gw_get s j"
  "gw_get (batadv_bla_send_announce e g s) j = gw_get s j"
  "gw_get (claim_modify key fc s) j = gw_get s j"
  by (simp_all add: gw_get_def bucket_simps)

text \<open>A gateway that the table holds, found by its pointer.\<close>

lemma inv_gw_get:
  "bla_inv k s \<Longrightarrow> g \<in> set (bla_gws s) \<Longrightarrow> gw_get s (gw_id g) = Some g"
  by (auto simp: bla_inv_def bla_core_def intro: gw_get_id)

lemma backbone_add:
  assumes "bla_tables_ok k s"
    and "batadv_hash_add (bla_backbone_hash s) batadv_compare_backbone_gw (batadv_choose_backbone_gw k) (orig, vid) entry = (0, hash)"
  shows "bla_tables_ok k (s\<lparr>bla_backbone_hash := hash\<rparr>)"
    and "mset (bla_gws (s\<lparr>bla_backbone_hash := hash\<rparr>)) = add_mset entry (mset (bla_gws s))"
proof -
  obtain h where h: "bla_backbone_hash s = Some h"
    using assms(2) by (cases "bla_backbone_hash s") (auto simp: batadv_hash_add_def)
  let ?i = "unat (batadv_choose_backbone_gw k (orig, vid) (ht_size h))"
  have i: "?i < length (ht_table h)"
    using assms(1) h bgt.choose_less [of "ht_size h" k "(orig, vid)"]
    by (auto simp: bla_tables_ok_def word_less_nat_alt)
  have hash: "hash = Some (h\<lparr>ht_table := (ht_table h)[?i := entry # ht_table h ! ?i]\<rparr>)"
    using assms(2) h by (auto simp: batadv_hash_add_def Let_def split: if_splits)
  show "bla_tables_ok k (s\<lparr>bla_backbone_hash := hash\<rparr>)"
    using assms(1) h hash by (simp add: bla_tables_ok_def)
  show "mset (bla_gws (s\<lparr>bla_backbone_hash := hash\<rparr>)) = add_mset entry (mset (bla_gws s))"
    using mset_concat_update [OF i, of entry] h hash by (simp add: bla_gws_def hash_elems_def)
qed

lemma start_own_inv:
  assumes "bla_inv k s" and "gw_get s (gw_id g) = Some g" and "gw_request_sent g = 0"
  shows "bla_inv k (bla_start_own_backbone e g s)"
    and "\<exists>h. gw_get (bla_start_own_backbone e g s) (gw_id g) = Some h \<and> gw_vid h = gw_vid g \<and> gw_orig h = gw_orig g"
    and "bla_claims (bla_start_own_backbone e g s) = bla_claims s"
proof -
  let ?f = "\<lambda>g. g\<lparr>gw_request_sent := gw_request_sent g + 1, gw_wait_periods := BATADV_BLA_WAIT_PERIODS\<rparr>"
  define v where "v = batadv_bla_send_announce e g s"
  have v: "bla_inv k v" "gw_get v (gw_id g) = Some g" "bla_claims v = bla_claims s"
    using assms by (simp_all add: v_def)
  have "bla_inv k (gw_modify (gw_id g) ?f (v\<lparr>bla_num_requests := bla_num_requests v + 1\<rparr>))"
    by (rule gw_request_inv [OF v(1,2)]) (simp_all add: assms)
  moreover have eq: "bla_start_own_backbone e g s = gw_modify (gw_id g) ?f (v\<lparr>bla_num_requests := bla_num_requests v + 1\<rparr>)"
    by (simp add: bla_start_own_backbone_def v_def Let_def) (simp add: gw_modify_def)
  ultimately show "bla_inv k (bla_start_own_backbone e g s)" by simp
  show "\<exists>h. gw_get (bla_start_own_backbone e g s) (gw_id g) = Some h \<and> gw_vid h = gw_vid g \<and> gw_orig h = gw_orig g"
    using v(2) by (simp add: eq)
  show "bla_claims (bla_start_own_backbone e g s) = bla_claims s"
    using v(3) by (simp add: eq bucket_simps)
qed

lemma get_backbone_inv:
  assumes inv: "bla_inv (be_k e) s"
    and get: "batadv_bla_get_backbone_gw e orig vid own s = (r, s')"
  shows "bla_inv (be_k e) s'"
    and "r = Some i \<Longrightarrow> \<exists>g. gw_get s' i = Some g \<and> gw_vid g = vid \<and> gw_orig g = orig"
    and "bla_claims s' = bla_claims s"
proof -
  let ?k = "be_k e"
  have tabs: "bla_tables_ok ?k s" using inv by (simp add: bla_inv_def)
  have "bla_inv ?k s' \<and> (r = Some i \<longrightarrow> (\<exists>g. gw_get s' i = Some g \<and> gw_vid g = vid \<and> gw_orig g = orig))
      \<and> bla_claims s' = bla_claims s"
  proof (cases "batadv_backbone_hash_find ?k s orig vid")
    case (Some g)
    then show ?thesis
      using get inv backbone_find_in [OF tabs Some] inv_gw_get [OF inv]
      by (auto simp: batadv_bla_get_backbone_gw_def)
  next
    case None
    show ?thesis
    proof (cases "be_gw_ok e")
      case False
      then show ?thesis using get inv None by (simp add: batadv_bla_get_backbone_gw_def)
    next
      case True
      let ?entry = "\<lparr>gw_id = bla_next_id s, gw_orig = orig, gw_vid = vid, gw_lasttime = k_jiffies ?k,
        gw_wait_periods = 0, gw_request_sent = 0, gw_crc = 0\<rparr>"
      obtain added hash where add: "batadv_hash_add (bla_backbone_hash s) batadv_compare_backbone_gw
          (batadv_choose_backbone_gw ?k) (orig, vid) ?entry = (added, hash)"
        by (cases "batadv_hash_add (bla_backbone_hash s) batadv_compare_backbone_gw
          (batadv_choose_backbone_gw ?k) (orig, vid) ?entry")
      show ?thesis
      proof (cases "added = 0")
        case False
        then have s': "r = None" "s' = s\<lparr>bla_next_id := bla_next_id s + 1\<rparr>"
          using get None True add by (simp_all add: batadv_bla_get_backbone_gw_def Let_def)
        have "bla_core ?k (bla_claims s) (bla_gws s) (bla_num_requests s) (bla_next_id s + 1)"
          using inv by (auto simp: bla_inv_def bla_core_def)
        then show ?thesis using s' tabs by (simp add: bla_inv_def)
      next
        case added: True
        let ?t = "s\<lparr>bla_next_id := bla_next_id s + 1, bla_backbone_hash := hash\<rparr>"
        let ?u = "if be_orig e orig then ?t\<lparr>bla_tt_del := bla_tt_del ?t @ [(orig, vid)]\<rparr> else ?t"
        note ba = backbone_add [of ?k "s\<lparr>bla_next_id := bla_next_id s + 1\<rparr>" orig vid ?entry hash]
        have tt: "bla_tables_ok ?k ?t" "mset (bla_gws ?t) = add_mset ?entry (mset (bla_gws s))"
          using ba tabs add added by simp_all
        have "bla_core ?k (bla_claims s) (?entry # bla_gws s) (bla_num_requests s) (Suc (bla_next_id s))"
          using inv by (intro core_gw_add) (simp_all add: bla_inv_def)
        then have "bla_core ?k (bla_claims s) (bla_gws ?t) (bla_num_requests s) (Suc (bla_next_id s))"
          by (rule bla_core_perm [OF _ refl]) (simp only: mset.simps tt(2))
        then have invu: "bla_inv ?k ?u"
          using tt(1) by (simp add: bla_inv_def)
        have "?entry \<in> set (bla_gws ?t)"
          using arg_cong [OF tt(2), of set_mset] by simp
        then have "?entry \<in> set (bla_gws ?u)"
          by simp
        from inv_gw_get [OF invu this] have getu: "gw_get ?u (bla_next_id s) = Some ?entry"
          by simp
        define u where "u = ?u"
        have u: "bla_inv ?k u" "gw_get u (gw_id ?entry) = Some ?entry" "bla_claims u = bla_claims s"
          using invu getu by (simp_all add: u_def)
        note st = start_own_inv [OF u(1,2), of e]
        have "r = Some (bla_next_id s)" "s' = (if own then bla_start_own_backbone e ?entry u else u)"
          unfolding u_def using get None True add added
          by (cases own; cases "be_orig e orig"; simp add: batadv_bla_get_backbone_gw_def Let_def)+
        then show ?thesis
          using u st by (cases own) auto
      qed
    qed
  qed
  then show "bla_inv (be_k e) s'"
    and "r = Some i \<Longrightarrow> \<exists>g. gw_get s' i = Some g \<and> gw_vid g = vid \<and> gw_orig g = orig"
    and "bla_claims s' = bla_claims s" by blast+
qed


lemma update_own_inv:
  "bla_inv (be_k e) s \<Longrightarrow> bla_inv (be_k e) (batadv_bla_update_own_backbone_gw e p vid s)"
  by (auto simp: batadv_bla_update_own_backbone_gw_def split: prod.split option.split
      intro!: gw_touch_inv dest: get_backbone_inv(1))

lemma answer_request_inv [simp]:
  "bla_inv k (batadv_bla_answer_request e p vid s) = bla_inv k s"
proof -
  have "bla_inv k (fold (\<lambda>claim s. if cl_gw claim \<noteq> i then s
      else batadv_bla_send_claim e (cl_addr claim) (cl_vid claim) 0 s) cs t) = bla_inv k t" for i cs t
    by (induction cs arbitrary: t) simp_all
  then show ?thesis
    by (cases "batadv_backbone_hash_find (be_k e) s p vid")
      (simp_all only: batadv_bla_answer_request_def Let_def option.case send_announce_inv)
qed

lemma claims_clear_tables:
  "bla_tables_ok k s \<Longrightarrow> bla_claim_hash s = Some h \<Longrightarrow>
   bla_tables_ok k (s\<lparr>bla_claim_hash := Some (hash_filter p h)\<rparr>)
   \<and> bla_claims (s\<lparr>bla_claim_hash := Some (hash_filter p h)\<rparr>) = filter p (bla_claims s)"
  by (simp add: bla_tables_ok_def bla_claims_def hash_wf_filter bucket_simps)

lemma del_backbone_claims_inv:
  assumes "bla_inv k s"
  shows "bla_inv k (batadv_bla_del_backbone_claims i s)"
    and "bla_claims (batadv_bla_del_backbone_claims i s) = filter (\<lambda>c. cl_gw c \<noteq> i) (bla_claims s)"
proof -
  have "bla_inv k (batadv_bla_del_backbone_claims i s) \<and>
    bla_claims (batadv_bla_del_backbone_claims i s) = filter (\<lambda>c. cl_gw c \<noteq> i) (bla_claims s)"
  proof (cases "bla_claim_hash s")
    case None
    then show ?thesis
      using assms by (simp add: batadv_bla_del_backbone_claims_def bla_claims_def)
  next
    case (Some h)
    let ?t = "s\<lparr>bla_claim_hash := Some (hash_filter (\<lambda>c. cl_gw c \<noteq> i) h)\<rparr>"
    have "bla_tables_ok k s" using assms by (simp add: bla_inv_def)
    note t = claims_clear_tables [OF this Some, of "\<lambda>c. cl_gw c \<noteq> i"]
    have "bla_core k (bla_claims ?t) (on_gw i (gw_crc_update (\<lambda>_. 0)) (bla_gws s)) (bla_num_requests s) (bla_next_id s)"
      using t assms by (simp add: bla_inv_def core_claims_clear)
    then show ?thesis
      using t Some by (simp add: batadv_bla_del_backbone_claims_def bla_inv_def tables_gw_modify bucket_simps)
  qed
  then show "bla_inv k (batadv_bla_del_backbone_claims i s)"
    and "bla_claims (batadv_bla_del_backbone_claims i s) = filter (\<lambda>c. cl_gw c \<noteq> i) (bla_claims s)"
    by simp_all
qed

lemma send_request_inv:
  assumes "bla_inv (be_k e) s"
  shows "bla_inv (be_k e) (batadv_bla_send_request e i s)"
proof -
  let ?t = "batadv_bla_del_backbone_claims i s"
  have t: "bla_inv (be_k e) ?t" by (rule del_backbone_claims_inv [OF assms])
  show ?thesis
  proof (cases "gw_get ?t i")
    case None
    then show ?thesis using t by (simp add: batadv_bla_send_request_def Let_def)
  next
    case (Some g)
    define u where "u = batadv_bla_send_claim e (gw_orig g) (gw_vid g) BATADV_CLAIM_TYPE_REQUEST ?t"
    have u: "bla_inv (be_k e) u" "gw_get u i = Some g"
      using t Some by (simp_all add: u_def)
    have "bla_inv (be_k e) (gw_modify i (gw_request_sent_update (\<lambda>_. 1))
        (u\<lparr>bla_num_requests := bla_num_requests u + 1\<rparr>))" if "gw_request_sent g = 0"
      by (rule gw_request_inv [OF u]) (simp_all add: that)
    then show ?thesis
      using u Some by (simp add: batadv_bla_send_request_def Let_def u_def)
  qed
qed

lemma add_claim_inv:
  assumes inv: "bla_inv (be_k e) s" and g: "gw_get s i = Some g" "gw_vid g = vid"
  shows "bla_inv (be_k e) (batadv_bla_add_claim e mac vid i s)"
proof -
  let ?k = "be_k e"
  let ?f = "\<lambda>g. g\<lparr>gw_crc := gw_crc g XOR claim_crc ?k mac, gw_lasttime := k_jiffies ?k\<rparr>"
  let ?own = "\<lambda>s. gw_modify i ?f (claim_modify (mac, vid) (cl_gw_update (\<lambda>_. i)) s)"
  have tabs: "bla_tables_ok ?k s" using inv by (simp add: bla_inv_def)
  have gin: "g \<in> set (bla_gws s)" "gw_id g = i" using gw_get_in [OF g(1)] by simp_all
  show ?thesis
  proof (cases "batadv_claim_hash_find ?k s (mac, vid)")
    case None
    let ?c = "\<lparr>cl_addr = mac, cl_vid = vid, cl_gw = i, cl_lasttime = k_jiffies ?k\<rparr>"
    obtain added hash where add: "batadv_hash_add (bla_claim_hash s) batadv_compare_claim
        (batadv_choose_claim ?k) (mac, vid) ?c = (added, hash)"
      by (cases "batadv_hash_add (bla_claim_hash s) batadv_compare_claim (batadv_choose_claim ?k) (mac, vid) ?c")
    show ?thesis
    proof (cases "be_claim_ok e \<and> added = 0")
      case False
      then show ?thesis using inv None add by (auto simp: batadv_bla_add_claim_def Let_def)
    next
      case True
      obtain h where h: "bla_claim_hash s = Some h"
        using add True by (cases "bla_claim_hash s") (auto simp: batadv_hash_add_def)
      have wf: "hash_wf claim_key (batadv_choose_claim ?k) h"
        using tabs h by (simp add: bla_tables_ok_def)
      have fresh: "hash_lookup h batadv_compare_claim (batadv_choose_claim ?k) (claim_key ?c) = None"
        using None h by (simp add: batadv_claim_hash_find_def)
      obtain h' where "batadv_hash_add (Some h) batadv_compare_claim (batadv_choose_claim ?k) (claim_key ?c) ?c = (0, Some h')"
        "hash_wf claim_key (batadv_choose_claim ?k) h'" "mset (hash_elems h') = add_mset ?c (mset (hash_elems h))"
        by (rule clt.add_fresh [OF wf fresh])
      then have h': "hash = Some h'" "hash_wf claim_key (batadv_choose_claim ?k) h'"
        "mset (hash_elems h') = add_mset ?c (mset (hash_elems h))"
        using add h by simp_all
      let ?t = "s\<lparr>bla_claim_hash := hash\<rparr>"
      have m: "mset (bla_claims ?t) = add_mset ?c (mset (bla_claims s))"
        using h h' by (simp add: bla_claims_def)
      have tt: "bla_tables_ok ?k ?t" using tabs h' by (simp add: bla_tables_ok_def)
      have "map (\<lambda>c. if claim_key c = (mac, vid) then c\<lparr>cl_gw := i\<rparr> else c) (bla_claims ?t) = bla_claims ?t"
      proof (rule map_idI)
        fix c
        assume "c \<in> set (bla_claims ?t)"
        then have "c = ?c \<or> c \<in> set (bla_claims s)"
          using arg_cong [OF m, of set_mset] by auto
        moreover have "claim_key x \<noteq> (mac, vid)" if "x \<in> set (bla_claims s)" for x
          using None claim_find_None [OF tabs, of "(mac, vid)"] that by blast
        ultimately show "(if claim_key c = (mac, vid) then c\<lparr>cl_gw := i\<rparr> else c) = c"
          by (cases "c = ?c") auto
      qed
      moreover have "bla_core ?k (bla_claims ?t) (on_gw (cl_gw ?c) ?f (bla_gws s)) (bla_num_requests s) (bla_next_id s)"
        using inv g gin by (intro core_claim_enters [where rest = "bla_claims s"] m) (auto simp: bla_inv_def)
      ultimately have "bla_inv ?k (?own ?t)"
        using tt by (simp add: bla_inv_def tables_gw_modify tables_claim_modify bucket_simps)
      then show ?thesis using None True add by (simp add: batadv_bla_add_claim_def Let_def)
    qed
  next
    case (Some c)
    let ?t = "claim_modify (mac, vid) (cl_lasttime_update (\<lambda>_. k_jiffies ?k)) s"
    have t: "bla_inv ?k ?t" by (rule claim_touch_inv [OF inv]) simp_all
    show ?thesis
    proof (cases "cl_gw c = i")
      case True
      then show ?thesis using t Some by (simp add: batadv_bla_add_claim_def Let_def)
    next
      case False
      let ?c = "c\<lparr>cl_lasttime := k_jiffies ?k\<rparr>"
      let ?h = "\<lambda>g. g\<lparr>gw_crc := gw_crc g XOR claim_crc ?k (cl_addr c)\<rparr>"
      let ?rest = "filter (\<lambda>x. claim_key x \<noteq> (mac, vid)) (bla_claims ?t)"
      have c: "c \<in> set (bla_claims s)" "claim_key c = (mac, vid)"
        using Some claim_find_iff [OF tabs] by simp_all
      then have "?c \<in> set (bla_claims ?t)"
        by (auto simp: bucket_simps image_iff intro!: bexI [of _ c])
      moreover have "distinct (map claim_key (bla_claims ?t))"
        using t by (auto simp: bla_inv_def intro: claims_distinct)
      ultimately have split: "mset (bla_claims ?t) = add_mset ?c (mset ?rest)"
        "mset (map (\<lambda>x. if claim_key x = (mac, vid) then x\<lparr>cl_gw := i\<rparr> else x) (bla_claims ?t))
          = add_mset (?c\<lparr>cl_gw := i\<rparr>) (mset ?rest)"
        using distinct_keys_split(1) [of claim_key "bla_claims ?t" ?c]
          distinct_keys_split(2) [of claim_key "bla_claims ?t" ?c "cl_gw_update (\<lambda>_. i)"] c(2) by simp_all
      have "bla_core ?k ?rest (on_gw (cl_gw ?c) ?h (bla_gws s)) (bla_num_requests s) (bla_next_id s)"
        using t by (intro core_claim_leaves [OF _ split(1)]) (simp_all add: bla_inv_def bucket_simps)
      moreover have "\<exists>g \<in> set (on_gw (cl_gw ?c) ?h (bla_gws s)). gw_id g = i \<and> gw_vid g = vid"
        using g gin by (intro on_gw_owner) auto
      ultimately have "bla_core ?k (map (\<lambda>x. if claim_key x = (mac, vid) then x\<lparr>cl_gw := i\<rparr> else x) (bla_claims ?t))
         (on_gw (cl_gw (?c\<lparr>cl_gw := i\<rparr>)) ?f (on_gw (cl_gw ?c) ?h (bla_gws s))) (bla_num_requests s) (bla_next_id s)"
        using c(2) by (intro core_claim_enters [OF _ split(2)]) auto
      then have "bla_inv ?k (?own (gw_modify (cl_gw c) ?h ?t))"
        using t by (simp add: bla_inv_def tables_gw_modify tables_claim_modify bucket_simps del: map_map)
      then show ?thesis
        using Some False c(2) by (simp add: batadv_bla_add_claim_def Let_def)
    qed
  qed
qed


lemma del_claim_inv:
  assumes inv: "bla_inv (be_k e) s"
  shows "bla_inv (be_k e) (batadv_bla_del_claim e mac vid s)"
proof (cases "batadv_claim_hash_find (be_k e) s (mac, vid)")
  case None
  then show ?thesis using inv by (simp add: batadv_bla_del_claim_def)
next
  case (Some c)
  let ?k = "be_k e"
  let ?f = "\<lambda>g. g\<lparr>gw_crc := gw_crc g XOR claim_crc ?k (cl_addr c)\<rparr>"
  have tabs: "bla_tables_ok ?k s" using inv by (simp add: bla_inv_def)
  have c: "c \<in> set (bla_claims s)" "claim_key c = (mac, vid)"
    using Some claim_find_iff [OF tabs] by simp_all
  obtain h where h: "bla_claim_hash s = Some h"
    using Some by (auto simp: batadv_claim_hash_find_def split: option.splits)
  have wf: "hash_wf claim_key (batadv_choose_claim ?k) h"
    using tabs h by (simp add: bla_tables_ok_def)
  let ?t = "s\<lparr>bla_claim_hash := Some (hash_filter (\<lambda>x. claim_key x \<noteq> claim_key c) h)\<rparr>"
  note t = claims_clear_tables [OF tabs h, of "\<lambda>x. claim_key x \<noteq> claim_key c"]
  have "mset (bla_claims s) = add_mset c (mset (bla_claims ?t))"
    using distinct_keys_split(1) [OF claims_distinct [OF tabs] c(1)] t by simp
  then have "bla_core ?k (bla_claims ?t) (on_gw (cl_gw c) ?f (bla_gws s)) (bla_num_requests s) (bla_next_id s)"
    using inv by (intro core_claim_leaves [where cs = "bla_claims s"]) (simp_all add: bla_inv_def)
  then have "bla_inv ?k (gw_modify (cl_gw c) ?f ?t)"
    using t by (simp add: bla_inv_def tables_gw_modify bucket_simps)
  then show ?thesis
    using Some h clt.remove_filter [OF wf] by (simp add: batadv_bla_del_claim_def Let_def)
qed

lemma handle_unclaim_inv:
  "bla_inv (be_k e) s \<Longrightarrow> bla_inv (be_k e) (snd (batadv_handle_unclaim e p b c v s))"
  by (auto simp: batadv_handle_unclaim_def Let_def del_claim_inv split: option.split)

lemma handle_claim_inv:
  assumes "bla_inv (be_k e) s"
  shows "bla_inv (be_k e) (snd (batadv_handle_claim e p b c v s))"
proof -
  obtain r t where g: "batadv_bla_get_backbone_gw e b v False s = (r, t)"
    by (cases "batadv_bla_get_backbone_gw e b v False s")
  show ?thesis
  proof (cases r)
    case None
    then show ?thesis using g get_backbone_inv(1) [OF assms g] by (simp add: batadv_handle_claim_def)
  next
    case (Some i)
    obtain h where "gw_get t i = Some h" "gw_vid h = v"
      using get_backbone_inv(2) [OF assms g Some] by blast
    then have "bla_inv (be_k e) (batadv_bla_add_claim e c v i t)"
      by (rule add_claim_inv [OF get_backbone_inv(1) [OF assms g]])
    then show ?thesis using g Some by (simp add: batadv_handle_claim_def Let_def)
  qed
qed

lemma handle_announce_inv:
  assumes "bla_inv (be_k e) s"
  shows "bla_inv (be_k e) (snd (batadv_handle_announce e a b v s))"
proof -
  obtain r t where g: "batadv_bla_get_backbone_gw e b v False s = (r, t)"
    by (cases "batadv_bla_get_backbone_gw e b v False s")
  note t = get_backbone_inv [OF assms g]
  show ?thesis
  proof (cases r)
    case None
    then show ?thesis using g t assms by (simp add: batadv_handle_announce_def)
  next
    case (Some i)
    let ?u = "gw_modify i (gw_lasttime_update (\<lambda>_. k_jiffies (be_k e))) t"
    obtain h where h: "gw_get t i = Some h"
      using t(2) [OF Some] by blast
    let ?h = "h\<lparr>gw_lasttime := k_jiffies (be_k e)\<rparr>"
    have u: "bla_inv (be_k e) ?u" "gw_get ?u i = Some ?h"
      using t(1) h gw_get_in [OF h] by (simp_all add: gw_touch_inv)
    have "bla_inv (be_k e) (gw_modify i (gw_request_sent_update (\<lambda>_. 0)) (?u\<lparr>bla_num_requests := bla_num_requests ?u - 1\<rparr>))"
      if "gw_request_sent h \<noteq> 0"
      by (rule gw_request_inv [OF u]) (simp_all add: that)
    then show ?thesis
      using g Some u send_request_inv [OF u(1), of i] assms
      by (simp add: batadv_handle_announce_def Let_def del: gw_get_modify)
  qed
qed

lemma handle_request_inv:
  "bla_inv (be_k e) s \<Longrightarrow> bla_inv (be_k e) (snd (batadv_handle_request e p b d v s))"
  by (simp add: batadv_handle_request_def)

lemma check_group_inv [simp]:
  "bla_inv k (snd (batadv_check_claim_group e p hs hdst src s)) = bla_inv k s"
  by (auto simp: batadv_check_claim_group_def Let_def bla_inv_def split: option.split)

lemma dispatch_claim_inv:
  "bla_inv (be_k e) s \<Longrightarrow> bla_inv (be_k e) (bla_dispatch_claim e p hs ct skb vid s)"
  by (simp add: bla_dispatch_claim_def Let_def update_own_inv handle_claim_inv handle_unclaim_inv
      handle_announce_inv handle_request_inv)

lemma process_claim_inv:
  assumes "bla_inv (be_k e) s"
  shows "bla_inv (be_k e) (snd (batadv_bla_process_claim e p skb s))"
proof -
  have "bla_inv (be_k e) t" if "batadv_check_claim_group e p hs hdst src s = (r, t)" for hs hdst src r t
    using check_group_inv [of "be_k e" e p hs hdst src s] assms that by simp
  then show ?thesis
    using assms unfolding batadv_bla_process_claim_def Let_def
    by (simp add: dispatch_claim_inv split: option.split prod.split)
qed

text \<open>Purging one gateway leaves the others as they are.\<close>

lemma purge_gw_state:
  "bla_purge_gw g s =
     (let t = batadv_bla_del_backbone_claims (gw_id g) s in
      t\<lparr>bla_num_requests := (if gw_request_sent g \<noteq> 0 then bla_num_requests t - 1 else bla_num_requests t),
        bla_backbone_hash := map_option (hash_filter (\<lambda>x. gw_id x \<noteq> gw_id g)) (bla_backbone_hash t)\<rparr>)"
  by (cases s) (auto simp: bla_purge_gw_def batadv_bla_del_backbone_claims_def gw_modify_def Let_def split: option.split)

lemma del_backbone_claims_gw_get:
  "gw_get (batadv_bla_del_backbone_claims i s) j =
     (if bla_claim_hash s = None then gw_get s j
      else map_option (\<lambda>g. if gw_id g = i then g\<lparr>gw_crc := 0\<rparr> else g) (gw_get s j))"
  by (simp add: batadv_bla_del_backbone_claims_def split: option.split)

lemma purge_gw_gws:
  "bla_gws (bla_purge_gw g s) = filter (\<lambda>x. gw_id x \<noteq> gw_id g) (bla_gws (batadv_bla_del_backbone_claims (gw_id g) s))"
  by (simp add: purge_gw_state Let_def bla_gws_def hash_elems_filter split: option.split)

lemma purge_gw_get:
  assumes "j \<noteq> gw_id g"
  shows "gw_get (bla_purge_gw g s) j = gw_get s j"
proof -
  have "find (\<lambda>x. gw_id x = j) (filter (\<lambda>x. gw_id x \<noteq> gw_id g) gs) = find (\<lambda>x. gw_id x = j) gs" for gs
    using assms by (induction gs) auto
  then have "gw_get (bla_purge_gw g s) j = gw_get (batadv_bla_del_backbone_claims (gw_id g) s) j"
    by (simp add: gw_get_def purge_gw_gws)
  also have "\<dots> = gw_get s j"
  proof (cases "gw_get s j")
    case (Some h)
    then show ?thesis
      using assms gw_get_in [OF Some] by (simp add: del_backbone_claims_gw_get)
  qed (simp add: del_backbone_claims_gw_get)
  finally show ?thesis .
qed

lemma purge_gw_inv:
  assumes inv: "bla_inv k s" and g: "gw_get s (gw_id g) = Some g"
  shows "bla_inv k (bla_purge_gw g s)"
proof -
  let ?t = "batadv_bla_del_backbone_claims (gw_id g) s"
  let ?u = "bla_purge_gw g s"
  note t = del_backbone_claims_inv [OF inv, of "gw_id g"]
  obtain h where h: "gw_get ?t (gw_id g) = Some h" "gw_request_sent h = gw_request_sent g"
    using g by (cases "bla_claim_hash s = None") (auto simp: del_backbone_claims_gw_get)
  have "bla_core k (bla_claims ?t) (filter (\<lambda>x. gw_id x \<noteq> gw_id h) (bla_gws ?t))
      (if gw_request_sent g \<noteq> 0 then bla_num_requests ?t - 1 else bla_num_requests ?t) (bla_next_id ?t)"
    by (rule core_gw_del [where num = "bla_num_requests ?t"])
      (use t gw_get_in [OF h(1)] h(2) in \<open>auto simp: bla_inv_def\<close>)
  then have "bla_core k (bla_claims ?t) (bla_gws ?u)
      (if gw_request_sent g \<noteq> 0 then bla_num_requests ?t - 1 else bla_num_requests ?t) (bla_next_id ?t)"
    using gw_get_in [OF h(1)] by (simp add: purge_gw_gws)
  moreover have "bla_tables_ok k ?u"
    using t(1) by (auto simp: purge_gw_state Let_def bla_inv_def bla_tables_ok_def hash_filter_def split: option.splits)
  ultimately show ?thesis
    by (simp add: bla_inv_def purge_gw_state Let_def)
qed

lemma purge_backbone_fold:
  assumes "bla_inv k s" and "\<forall>g \<in> set gs. gw_get s (gw_id g) = Some g" and "distinct (map gw_id gs)"
  shows "bla_inv k (fold (\<lambda>g s. if p g then s else bla_purge_gw g s) gs s)"
  using assms
proof (induction gs arbitrary: s)
  case Nil
  then show ?case by simp
next
  case (Cons g gs)
  have "gw_get (bla_purge_gw g s) (gw_id h) = Some h" if "h \<in> set gs" for h
    using Cons.prems(2) that distinct_map_Cons [OF Cons.prems(3)] by (simp add: purge_gw_get)
  then show ?case
    using Cons by (simp add: purge_gw_inv)
qed

lemma inv_all_gw_get: "bla_inv k s \<Longrightarrow> \<forall>g \<in> set (bla_gws s). gw_get s (gw_id g) = Some g"
  by (simp add: inv_gw_get)

lemma inv_ids: "bla_inv k s \<Longrightarrow> distinct (map gw_id (bla_gws s))"
  by (simp add: bla_inv_def bla_core_def)

lemma purge_backbone_inv: "bla_inv k s \<Longrightarrow> bla_inv k (batadv_bla_purge_backbone_gw e now s)"
  unfolding batadv_bla_purge_backbone_gw_def
  by (rule purge_backbone_fold [OF _ inv_all_gw_get inv_ids])

lemma purge_claims_inv:
  "bla_inv (be_k e) s \<Longrightarrow> bla_inv (be_k e) (batadv_bla_purge_claims e p now s)"
proof -
  have all: "bla_inv (be_k e) s \<Longrightarrow> bla_inv (be_k e) (fold (\<lambda>c s. if q c s then s
      else snd (batadv_handle_unclaim e p (claim_orig s c) (cl_addr c) (cl_vid c) s)) cs s)" for q cs
    by (induction cs arbitrary: s) (simp_all add: handle_unclaim_inv)
  show "bla_inv (be_k e) s \<Longrightarrow> bla_inv (be_k e) (batadv_bla_purge_claims e p now s)"
    unfolding batadv_bla_purge_claims_def by (rule all)
qed

lemma update_orig_inv:
  assumes "bla_inv (be_k e) s"
  shows "bla_inv (be_k e) (batadv_bla_update_orig_address e p old s)"
proof -
  let ?s = "s\<lparr>bla_dest_group := claim_crc (be_k e) p\<rparr>"
  have inv: "bla_inv (be_k e) ?s" using assms by (simp add: bla_inv_def)
  have "bla_inv (be_k e) t \<Longrightarrow> bla_inv (be_k e) (fold (\<lambda>g s. if q g then s
      else batadv_bla_send_announce e (g\<lparr>gw_orig := p\<rparr>)
        (gw_modify (gw_id g) (gw_orig_update (\<lambda>_. p)) s)) gs t)" for q gs t
    by (induction gs arbitrary: t) (simp_all add: gw_touch_inv)
  from this [OF inv] purge_backbone_inv [OF purge_claims_inv [OF inv]]
  show ?thesis
    unfolding batadv_bla_update_orig_address_def Let_def by (simp split: option.split)
qed

lemma status_update_inv:
  "bla_inv (be_k e) s \<Longrightarrow> bla_inv (be_k e) (batadv_bla_status_update e s)"
  by (simp add: batadv_bla_status_update_def update_orig_inv split: option.split)

lemma periodic_gw_inv:
  assumes inv: "bla_inv (be_k e) s" and g: "gw_get s (gw_id g) = Some g"
  shows "bla_inv (be_k e) (bla_periodic_gw e p g s)"
    and "j \<noteq> gw_id g \<Longrightarrow> gw_get (bla_periodic_gw e p g s) j = gw_get s j"
proof -
  let ?i = "gw_id g"
  define t where "t = batadv_bla_send_announce e g (gw_modify ?i (gw_lasttime_update (\<lambda>_. k_jiffies (be_k e))) s)"
  define u where "u = gw_modify ?i (gw_wait_periods_update (\<lambda>_. gw_wait_periods g - 1)) t"
  obtain h where h: "gw_get u ?i = Some h" "gw_request_sent h = gw_request_sent g"
    using g by (simp add: u_def t_def)
  have t: "bla_inv (be_k e) t" using inv by (simp add: t_def gw_touch_inv)
  then have u: "bla_inv (be_k e) u" by (simp add: u_def gw_touch_inv)
  let ?v = "gw_modify ?i (gw_request_sent_update (\<lambda>_. 0)) (u\<lparr>bla_num_requests := bla_num_requests u - 1\<rparr>)"
  have v: "bla_inv (be_k e) ?v" if "gw_request_sent g \<noteq> 0"
    by (rule gw_request_inv [OF u h(1)]) (simp_all add: h(2) that)
  have eq: "bla_periodic_gw e p g s = (if gw_orig g \<noteq> p then s else if gw_request_sent g = 0 then t
      else if gw_wait_periods g - 1 \<noteq> 0 then u else ?v)"
    by (simp add: bla_periodic_gw_def Let_def t_def u_def)
  show "bla_inv (be_k e) (bla_periodic_gw e p g s)"
    unfolding eq using inv t u v by simp
  have "map_option (\<lambda>x. if gw_id x = ?i then f x else x) (gw_get s j) = gw_get s j" if "j \<noteq> ?i" for f
    using that by (cases "gw_get s j") (auto dest: gw_get_in)
  then show "j \<noteq> gw_id g \<Longrightarrow> gw_get (bla_periodic_gw e p g s) j = gw_get s j"
    unfolding eq by (simp add: t_def u_def)
qed

lemma periodic_fold:
  assumes "bla_inv (be_k e) s" and "\<forall>g \<in> set gs. gw_get s (gw_id g) = Some g" and "distinct (map gw_id gs)"
  shows "bla_inv (be_k e) (fold (bla_periodic_gw e p) gs s)"
  using assms
proof (induction gs arbitrary: s)
  case Nil
  then show ?case by simp
next
  case (Cons g gs)
  have g: "gw_get s (gw_id g) = Some g" using Cons.prems(2) by simp
  have "gw_get (bla_periodic_gw e p g s) (gw_id h) = Some h" if "h \<in> set gs" for h
    using Cons.prems that distinct_map_Cons [OF Cons.prems(3)] by (simp add: periodic_gw_inv(2) [OF _ g])
  then show ?case
    using Cons by (simp add: periodic_gw_inv(1) [OF _ g])
qed

lemma periodic_work_inv:
  assumes "bla_inv (be_k e) s"
  shows "bla_inv (be_k e) (batadv_bla_periodic_work e s)"
proof -
  have "bla_inv (be_k e) t \<Longrightarrow> bla_inv (be_k e) (fold (bla_periodic_gw e p) (bla_gws t) t)" for t p
    by (rule periodic_fold [OF _ inv_all_gw_get inv_ids])
  then show ?thesis
    using assms unfolding batadv_bla_periodic_work_def Let_def
    by (auto intro!: purge_backbone_inv purge_claims_inv split: option.split)
qed

lemma check_bcast_inv: "bla_inv k s \<Longrightarrow> bla_inv k (snd (batadv_bla_check_bcast_duplist k' crc orig s))"
  by (simp add: batadv_bla_check_bcast_duplist_def Let_def bla_inv_def bla_tables_ok_def bla_claims_def bla_gws_def)

lemma rx_inv:
  "bla_inv (be_k e) s \<Longrightarrow> bla_inv (be_k e) (snd (batadv_bla_rx e d src vid bc s))"
  by (auto simp: batadv_bla_rx_def Let_def update_own_inv handle_claim_inv claim_touch_inv
      split: option.split prod.split)

lemma tx_inv:
  assumes "bla_inv (be_k e) s"
  shows "bla_inv (be_k e) (snd (batadv_bla_tx e skb vid s))"
proof -
  have "bla_inv (be_k e) t" if "batadv_bla_process_claim e p skb s = (r, t)" for p r t
    using process_claim_inv [OF assms, of p skb] that by simp
  then show ?thesis
    using assms unfolding batadv_bla_tx_def Let_def
    by (auto simp: update_own_inv handle_unclaim_inv split: option.split prod.split)
qed


section \<open>Reachable states\<close>

text \<open>
  The zeroed private data, and the steps of a running interface in any order. The clock and
  the rest of the environment may differ from step to step, the hash functions stay.
\<close>

definition bla_zero :: batadv_priv_bla where
  "bla_zero =
     \<lparr>bla_num_requests = 0, bla_claim_hash = None, bla_backbone_hash = None,
      bla_bcast_duplist = replicate BATADV_DUPLIST_SIZE \<lparr>dl_orig = 0, dl_crc = 0, dl_entrytime = 0\<rparr>,
      bla_bcast_duplist_curr = 0, bla_dest_magic = 0, bla_dest_group = 0, bla_next_id = 0,
      bla_sent = [], bla_tt_del = []\<rparr>"

definition same_hashes :: "kenv \<Rightarrow> kenv \<Rightarrow> bool" where
  "same_hashes k k' \<longleftrightarrow> k_jhash k' = k_jhash k \<and> k_crc16 k' = k_crc16 k"

inductive bla_step :: "kenv \<Rightarrow> batadv_priv_bla \<Rightarrow> batadv_priv_bla \<Rightarrow> bool" for k where
  step_rx: "same_hashes k (be_k e) \<Longrightarrow> bla_step k s (snd (batadv_bla_rx e d src vid bc s))"
| step_tx: "same_hashes k (be_k e) \<Longrightarrow> bla_step k s (snd (batadv_bla_tx e skb vid s))"
| step_timer: "same_hashes k (be_k e) \<Longrightarrow> bla_step k s (batadv_bla_periodic_work e s)"
| step_orig: "same_hashes k (be_k e) \<Longrightarrow> bla_step k s (batadv_bla_update_orig_address e p old s)"
| step_status: "same_hashes k (be_k e) \<Longrightarrow> bla_step k s (batadv_bla_status_update e s)"
| step_dup: "bla_step k s (snd (batadv_bla_check_bcast_duplist k' crc orig s))"

inductive bla_reach :: "kenv \<Rightarrow> batadv_priv_bla \<Rightarrow> bool" for k where
  reach_init: "same_hashes k (be_k e) \<Longrightarrow> batadv_bla_init e True True bla_zero = (0, s) \<Longrightarrow> bla_reach k s"
| reach_step: "bla_reach k s \<Longrightarrow> bla_step k s t \<Longrightarrow> bla_reach k t"

lemma bla_inv_cong:
  assumes "same_hashes k k'"
  shows "bla_inv k' s = bla_inv k s"
proof -
  have "batadv_choose_claim k' = batadv_choose_claim k"
    using assms by (auto simp: same_hashes_def batadv_choose_claim_def fun_eq_iff Let_def)
  moreover have "claims_crc k' = claims_crc k"
    using assms by (simp add: same_hashes_def claims_crc_def claim_crc_def fun_eq_iff)
  ultimately show ?thesis
    by (simp add: bla_inv_def bla_tables_ok_def bla_core_def split: option.split)
qed

lemma init_inv:
  assumes "batadv_bla_init e True True bla_zero = (0, s)"
  shows "bla_inv k s"
proof -
  have empty: "hash_elems (the (batadv_hash_new True sz)) = []" for sz
    by (simp add: batadv_hash_new_def hash_elems_def batadv_hash_init_def)
  show ?thesis
    using assms clt.wf_new [of 128 _ k]
    by (auto simp: batadv_bla_init_def bla_zero_def Let_def bla_inv_def bla_tables_ok_def bla_core_def
        bla_claims_def bla_gws_def batadv_hash_new_def hash_elems_def batadv_hash_init_def requests_pending_def)
qed

lemma bla_step_inv: "bla_step k s t \<Longrightarrow> bla_inv k s \<Longrightarrow> bla_inv k t"
proof (induction rule: bla_step.induct)
  case (step_rx e s d src vid bc)
  then show ?case using rx_inv bla_inv_cong by blast
next
  case (step_tx e s skb vid)
  then show ?case using tx_inv bla_inv_cong by blast
next
  case (step_timer e s)
  then show ?case using periodic_work_inv bla_inv_cong by blast
next
  case (step_orig e s p old)
  then show ?case using update_orig_inv bla_inv_cong by blast
next
  case (step_status e s)
  then show ?case using status_update_inv bla_inv_cong by blast
next
  case (step_dup s k' crc orig)
  then show ?case by (rule check_bcast_inv)
qed

lemma bla_reach_inv: "bla_reach k s \<Longrightarrow> bla_inv k s"
  by (induction rule: bla_reach.induct) (simp_all add: init_inv bla_step_inv)


section \<open>The claim table as a map\<close>

text \<open>The abstract state: which gateway a client of a VLAN is claimed by.\<close>

definition claim_owner :: "kenv \<Rightarrow> batadv_priv_bla \<Rightarrow> mac \<times> vid \<Rightarrow> nat option" where
  "claim_owner k s key = map_option cl_gw (batadv_claim_hash_find k s key)"

lemma claim_owner_iff:
  assumes "bla_tables_ok k s"
  shows "claim_owner k s key = Some i \<longleftrightarrow> (\<exists>c \<in> set (bla_claims s). claim_key c = key \<and> cl_gw c = i)"
  using claim_find_iff [OF assms, of key] by (auto simp: claim_owner_def)

lemma claim_owner_same:
  "bla_claim_hash t = bla_claim_hash s \<Longrightarrow> claim_owner k t = claim_owner k s"
  by (simp add: claim_owner_def batadv_claim_hash_find_def fun_eq_iff)

lemma claim_owner_gw_modify [simp]: "claim_owner k (gw_modify i f s) = claim_owner k s"
  by (rule claim_owner_same) simp

lemma claim_find_modify:
  assumes "bla_tables_ok k s" and "\<And>c. claim_key (f c) = claim_key c"
  shows "batadv_claim_hash_find k (claim_modify key f s) key' =
    map_option (\<lambda>c. if claim_key c = key then f c else c) (batadv_claim_hash_find k s key')"
proof (cases "bla_claim_hash s")
  case None
  then show ?thesis
    by (simp add: batadv_claim_hash_find_def claim_modify_def)
next
  case (Some h)
  then have wf: "hash_wf claim_key (batadv_choose_claim k) h"
    using assms(1) by (simp add: bla_tables_ok_def)
  have key: "claim_key (if claim_key x = key then f x else x) = claim_key x" for x
    using assms(2) by simp
  have "hash_lookup (hash_map (\<lambda>c. if claim_key c = key then f c else c) h) batadv_compare_claim (batadv_choose_claim k) key'
      = map_option (\<lambda>c. if claim_key c = key then f c else c) (hash_lookup h batadv_compare_claim (batadv_choose_claim k) key')"
    by (rule clt.lookup_map [OF wf key])
  then show ?thesis
    using Some by (simp add: batadv_claim_hash_find_def claim_modify_def)
qed

lemma claim_owner_modify:
  assumes "bla_tables_ok k s" and "\<And>c. claim_key (f c) = claim_key c"
  shows "claim_owner k (claim_modify key f s) key' =
    map_option (\<lambda>c. cl_gw (if claim_key c = key then f c else c)) (batadv_claim_hash_find k s key')"
  by (simp add: claim_owner_def claim_find_modify [OF assms] option.map_comp comp_def)

lemma claim_find_key:
  "bla_tables_ok k s \<Longrightarrow> batadv_claim_hash_find k s key = Some c \<Longrightarrow> claim_key c = key"
  using claim_find_iff by blast

text \<open>Setting the owner of a claim that is in the table.\<close>

lemma claim_owner_set:
  assumes "bla_tables_ok k s" and "batadv_claim_hash_find k s key = Some c"
  shows "claim_owner k (claim_modify key (cl_gw_update (\<lambda>_. i)) s) = (claim_owner k s)(key \<mapsto> i)"
proof
  fix x
  show "claim_owner k (claim_modify key (cl_gw_update (\<lambda>_. i)) s) x = ((claim_owner k s)(key \<mapsto> i)) x"
    using assms(2) claim_find_key [OF assms(1), of x]
    by (subst claim_owner_modify [OF assms(1)])
      (simp, cases "batadv_claim_hash_find k s x", auto simp: claim_owner_def)
qed

lemma add_claim_owner:
  assumes tabs: "bla_tables_ok (be_k e) s" and "be_claim_ok e" and "bla_claim_hash s \<noteq> None"
  shows "claim_owner (be_k e) (batadv_bla_add_claim e mac vid i s) = (claim_owner (be_k e) s)((mac, vid) \<mapsto> i)"
proof -
  let ?k = "be_k e"
  obtain h where h: "bla_claim_hash s = Some h" using assms(3) by blast
  have wf: "hash_wf claim_key (batadv_choose_claim ?k) h"
    using tabs h by (simp add: bla_tables_ok_def)
  show ?thesis
  proof (cases "batadv_claim_hash_find ?k s (mac, vid)")
    case None
    let ?c = "\<lparr>cl_addr = mac, cl_vid = vid, cl_gw = i, cl_lasttime = k_jiffies ?k\<rparr>"
    have fresh: "hash_lookup h batadv_compare_claim (batadv_choose_claim ?k) (claim_key ?c) = None"
      using None h by (simp add: batadv_claim_hash_find_def)
    obtain h' where h': "batadv_hash_add (Some h) batadv_compare_claim (batadv_choose_claim ?k) (claim_key ?c) ?c = (0, Some h')"
      "hash_wf claim_key (batadv_choose_claim ?k) h'"
      by (rule clt.add_fresh [OF wf fresh])
    have look: "hash_lookup h' batadv_compare_claim (batadv_choose_claim ?k) =
        (hash_lookup h batadv_compare_claim (batadv_choose_claim ?k))(claim_key ?c \<mapsto> ?c)"
      using clt.lookup_add(1) [OF wf h'(1)] fresh by simp
    let ?t = "s\<lparr>bla_claim_hash := Some h'\<rparr>"
    have t: "bla_tables_ok ?k ?t" using tabs h' by (simp add: bla_tables_ok_def)
    have find: "batadv_claim_hash_find ?k ?t = (batadv_claim_hash_find ?k s)((mac, vid) \<mapsto> ?c)"
      using look h by (simp add: batadv_claim_hash_find_def fun_eq_iff)
    then have "claim_owner ?k ?t = (claim_owner ?k s)((mac, vid) \<mapsto> i)"
      by (auto simp: claim_owner_def fun_eq_iff)
    moreover have "batadv_claim_hash_find ?k ?t (mac, vid) = Some ?c"
      using find by simp
    ultimately have "claim_owner ?k (claim_modify (mac, vid) (cl_gw_update (\<lambda>_. i)) ?t) = (claim_owner ?k s)((mac, vid) \<mapsto> i)"
      using claim_owner_set [OF t] by simp
    then show ?thesis
      using None assms(2) h h' by (simp add: batadv_bla_add_claim_def Let_def)
  next
    case (Some c)
    let ?t = "claim_modify (mac, vid) (cl_lasttime_update (\<lambda>_. k_jiffies ?k)) s"
    have t: "bla_tables_ok ?k ?t" by (rule tables_claim_modify [OF tabs]) simp
    have own: "claim_owner ?k ?t = claim_owner ?k s"
    proof -
      have "(\<lambda>c. cl_gw (if claim_key c = (mac, vid) then c\<lparr>cl_lasttime := k_jiffies ?k\<rparr> else c)) = cl_gw"
        by auto
      then show ?thesis
        by (simp only: fun_eq_iff claim_owner_modify [OF tabs, where f = "cl_lasttime_update (\<lambda>_. k_jiffies ?k)", simplified])
          (simp add: claim_owner_def)
    qed
    show ?thesis
    proof (cases "cl_gw c = i")
      case True
      then show ?thesis
        using Some own by (auto simp: batadv_bla_add_claim_def Let_def claim_owner_def)
    next
      case False
      let ?u = "gw_modify (cl_gw c) (\<lambda>g. g\<lparr>gw_crc := gw_crc g XOR claim_crc ?k (cl_addr c)\<rparr>) ?t"
      have u: "bla_tables_ok ?k ?u" by (rule tables_gw_modify [OF t])
      obtain d where "batadv_claim_hash_find ?k ?u (mac, vid) = Some d"
        using Some claim_find_modify [OF tabs, of "cl_lasttime_update (\<lambda>_. k_jiffies ?k)" "(mac, vid)" "(mac, vid)"]
        by (auto simp: batadv_claim_hash_find_def)
      from claim_owner_set [OF u this, of i] own
      show ?thesis
        using Some False by (simp add: batadv_bla_add_claim_def Let_def)
    qed
  qed
qed

lemma del_claim_owner:
  assumes tabs: "bla_tables_ok (be_k e) s"
  shows "claim_owner (be_k e) (batadv_bla_del_claim e mac vid s) = (claim_owner (be_k e) s)((mac, vid) := None)"
proof (cases "batadv_claim_hash_find (be_k e) s (mac, vid)")
  case None
  then show ?thesis by (auto simp: batadv_bla_del_claim_def claim_owner_def fun_eq_iff)
next
  case (Some c)
  let ?k = "be_k e"
  obtain h where h: "bla_claim_hash s = Some h"
    using Some by (auto simp: batadv_claim_hash_find_def split: option.splits)
  have wf: "hash_wf claim_key (batadv_choose_claim ?k) h"
    using tabs h by (simp add: bla_tables_ok_def)
  have c: "claim_key c = (mac, vid)" by (rule claim_find_key [OF tabs Some])
  obtain r h' where rem: "batadv_hash_remove h batadv_compare_claim (batadv_choose_claim ?k) (mac, vid) = (r, h')"
    by (cases "batadv_hash_remove h batadv_compare_claim (batadv_choose_claim ?k) (mac, vid)")
  have "claim_owner ?k (s\<lparr>bla_claim_hash := Some h'\<rparr>) = (claim_owner ?k s)((mac, vid) := None)"
    using clt.lookup_remove(2) [OF wf rem] h by (simp add: claim_owner_def batadv_claim_hash_find_def fun_eq_iff)
  then show ?thesis
    using Some h rem c by (simp add: batadv_bla_del_claim_def Let_def)
qed


section \<open>What the operations leave alone\<close>

lemma get_backbone_keeps:
  assumes inv: "bla_inv (be_k e) s" and get: "batadv_bla_get_backbone_gw e orig vid own s = (r, s')"
    and g: "gw_get s j = Some g"
  shows "gw_get s' j = Some g"
proof (cases "s' = s")
  case True
  then show ?thesis using g by simp
next
  case new: False
  let ?k = "be_k e"
  let ?entry = "\<lparr>gw_id = bla_next_id s, gw_orig = orig, gw_vid = vid, gw_lasttime = k_jiffies ?k,
    gw_wait_periods = 0, gw_request_sent = 0, gw_crc = 0\<rparr>"
  have jlt: "j < bla_next_id s" and gin: "g \<in> set (bla_gws s)" "gw_id g = j"
    using inv gw_get_in [OF g] by (auto simp: bla_inv_def bla_core_def)
  obtain added hash where add: "batadv_hash_add (bla_backbone_hash s) batadv_compare_backbone_gw
      (batadv_choose_backbone_gw ?k) (orig, vid) ?entry = (added, hash)"
    by (cases "batadv_hash_add (bla_backbone_hash s) batadv_compare_backbone_gw
      (batadv_choose_backbone_gw ?k) (orig, vid) ?entry")
  have none: "batadv_backbone_hash_find ?k s orig vid = None" and ok: "be_gw_ok e"
    using get new by (auto simp: batadv_bla_get_backbone_gw_def split: option.splits if_splits)
  show ?thesis
  proof (cases "added = 0")
    case False
    then have "s' = s\<lparr>bla_next_id := bla_next_id s + 1\<rparr>"
      using get none ok add by (simp add: batadv_bla_get_backbone_gw_def Let_def)
    then show ?thesis using g by (simp add: gw_get_def bla_gws_def)
  next
    case True
    let ?t = "s\<lparr>bla_next_id := bla_next_id s + 1, bla_backbone_hash := hash\<rparr>"
    have "mset (bla_gws ?t) = add_mset ?entry (mset (bla_gws s))"
      using backbone_add(2) [of ?k "s\<lparr>bla_next_id := bla_next_id s + 1\<rparr>" orig vid ?entry hash] inv add True
      by (simp add: bla_inv_def)
    then have gws: "set (bla_gws ?t) = insert ?entry (set (bla_gws s))"
      by (metis set_mset_add_mset_insert set_mset_mset)
    define u where "u = (if be_orig e orig then ?t\<lparr>bla_tt_del := bla_tt_del ?t @ [(orig, vid)]\<rparr> else ?t)"
    have s': "s' = (if own then bla_start_own_backbone e ?entry u else u)"
      unfolding u_def using get none ok add True
      by (cases own; cases "be_orig e orig"; simp add: batadv_bla_get_backbone_gw_def Let_def)
    have gwsu: "bla_gws u = bla_gws ?t"
      by (simp add: u_def)
    have ids: "distinct (map gw_id (bla_gws s'))"
      using inv_ids [OF get_backbone_inv(1) [OF inv get]] .
    have "g \<in> set (bla_gws s')"
    proof (cases own)
      case True
      then have "bla_gws s' = map (\<lambda>g. if gw_id g = bla_next_id s then g\<lparr>gw_request_sent := gw_request_sent g + 1,
            gw_wait_periods := BATADV_BLA_WAIT_PERIODS\<rparr> else g) (bla_gws u)"
        by (simp add: s' bla_start_own_backbone_def Let_def bucket_simps)
      moreover have "g \<in> set (bla_gws u)" "gw_id g \<noteq> bla_next_id s"
        using gws gwsu gin jlt by auto
      ultimately show ?thesis
        by (auto simp: image_iff intro!: bexI [of _ g])
    next
      case False
      then show ?thesis using s' gws gwsu gin by simp
    qed
    then show ?thesis
      using gw_get_id [OF ids] gin by simp
  qed
qed

lemma update_own_keeps:
  assumes inv: "bla_inv (be_k e) s" and g: "gw_get s j = Some g"
  shows "\<exists>h. gw_get (batadv_bla_update_own_backbone_gw e p vid s) j = Some h \<and> gw_orig h = gw_orig g \<and> gw_vid h = gw_vid g
    \<and> gw_crc h = gw_crc g \<and> gw_request_sent h = gw_request_sent g"
proof -
  obtain r t where r: "batadv_bla_get_backbone_gw e p vid True s = (r, t)"
    by (cases "batadv_bla_get_backbone_gw e p vid True s")
  from get_backbone_keeps [OF inv r g] r show ?thesis
    by (cases r) (auto simp: batadv_bla_update_own_backbone_gw_def)
qed

lemma get_backbone_claim_hash [simp]:
  "bla_claim_hash (snd (batadv_bla_get_backbone_gw e orig vid own s)) = bla_claim_hash s"
  by (simp add: batadv_bla_get_backbone_gw_def bla_start_own_backbone_def batadv_bla_send_announce_def Let_def
      split: option.split prod.split)

lemma update_own_claim_hash [simp]:
  "bla_claim_hash (batadv_bla_update_own_backbone_gw e p vid s) = bla_claim_hash s"
proof -
  have "bla_claim_hash t = bla_claim_hash s" if "batadv_bla_get_backbone_gw e p vid True s = (r, t)" for r t
    using get_backbone_claim_hash [of e p vid True s] that by simp
  then show ?thesis
    by (auto simp: batadv_bla_update_own_backbone_gw_def split: prod.split option.split)
qed

lemma update_own_owner [simp]:
  "claim_owner k (batadv_bla_update_own_backbone_gw e p vid s) = claim_owner k s"
  by (rule claim_owner_same) simp

text \<open>A gateway that can be found gets created where it cannot.\<close>

lemma get_backbone_some:
  assumes "be_gw_ok e" and "bla_backbone_hash s \<noteq> None"
  shows "fst (batadv_bla_get_backbone_gw e orig vid own s) \<noteq> None"
  using assms
  by (auto simp: batadv_bla_get_backbone_gw_def batadv_backbone_hash_find_def batadv_hash_add_def hash_lookup_def
      find_None_iff list_ex_iff Let_def split: option.splits prod.splits if_splits)

lemma add_claim_gw:
  assumes "gw_get s j = Some g"
  shows "\<exists>h. gw_get (batadv_bla_add_claim e mac vid i s) j = Some h \<and> gw_orig h = gw_orig g \<and> gw_vid h = gw_vid g
    \<and> gw_request_sent h = gw_request_sent g"
  using assms by (simp add: batadv_bla_add_claim_def Let_def split: option.split prod.split)

lemma handle_claim_owner:
  assumes inv: "bla_inv (be_k e) s" and ok: "be_gw_ok e" "be_claim_ok e"
    and tabs: "bla_claim_hash s \<noteq> None" "bla_backbone_hash s \<noteq> None"
  shows "\<exists>g. gw_get (snd (batadv_handle_claim e p b c v s)) (gw_id g) = Some g \<and> gw_orig g = b \<and> gw_vid g = v
    \<and> claim_owner (be_k e) (snd (batadv_handle_claim e p b c v s)) = (claim_owner (be_k e) s)((c, v) \<mapsto> gw_id g)"
proof -
  obtain r t where r: "batadv_bla_get_backbone_gw e b v False s = (r, t)"
    by (cases "batadv_bla_get_backbone_gw e b v False s")
  obtain i where i: "r = Some i"
    using get_backbone_some [OF ok(1) tabs(2), of b v False] r by auto
  have t: "bla_inv (be_k e) t" by (rule get_backbone_inv(1) [OF inv r])
  obtain g where g: "gw_get t i = Some g" "gw_vid g = v" "gw_orig g = b"
    using get_backbone_inv(2) [OF inv r i] by blast
  have ch: "bla_claim_hash t = bla_claim_hash s"
    using get_backbone_claim_hash [of e b v False s] r by simp
  let ?u = "batadv_bla_add_claim e c v i t"
  have "claim_owner (be_k e) ?u = (claim_owner (be_k e) t)((c, v) \<mapsto> i)"
    using t tabs(1) ch ok(2) by (intro add_claim_owner) (simp_all add: bla_inv_def)
  then have own: "claim_owner (be_k e) ?u = (claim_owner (be_k e) s)((c, v) \<mapsto> i)"
    by (simp add: claim_owner_same [OF ch])
  have "\<exists>h. gw_get ?u i = Some h \<and> gw_orig h = gw_orig g \<and> gw_vid h = gw_vid g"
    using add_claim_gw [OF g(1), of e c v i] by blast
  then obtain h where h: "gw_get ?u i = Some h" "gw_orig h = b" "gw_vid h = v"
    using g by blast
  have "claim_owner (be_k e) (batadv_bla_send_claim e c v 0 ?u) = claim_owner (be_k e) ?u"
    by (rule claim_owner_same) simp
  then show ?thesis
    using h own i r gw_get_in [OF h(1)]
    by (intro exI [of _ h]) (simp add: batadv_handle_claim_def Let_def)
qed

end
