(* ===== verification/Bla_Properties.thy ===== *)
theory Bla_Properties
  imports Bla_Invariant
begin

text \<open>
  What bridge loop avoidance achieves: the decisions about frames from the mesh, the
  ownership of clients, the resynchronisation of two gateways through the frames they
  exchange, and the duplicate list.
\<close>

unbundle bit_operations_syntax

section \<open>Frames\<close>

lemma dst_claim_dst [simp]:
  "dst_magic (claim_dst m t g) = m" "dst_type (claim_dst m t g) = t" "dst_group (claim_dst m t g) = g"
  by (rule bit_word_eqI; auto simp: claim_dst_def dst_magic_def dst_type_def dst_group_def bit_simps dest: bit_imp_le_length)+

lemma two_parts:
  "(ucast (drop_bit 16 (push_bit 16 (ucast (h :: 32 word)) OR ucast (c :: u16) :: mac)) :: 32 word) = h"
  "(ucast (push_bit 16 (ucast (h :: 32 word)) OR ucast (c :: u16) :: mac) :: u16) = c"
  by (rule bit_word_eqI; auto simp: bit_simps dest: bit_imp_le_length)+

lemma announce_mac_parts [simp]:
  "(ucast (drop_bit 16 (announce_mac crc)) :: 32 word) = batadv_announce_mac"
  "(ucast (announce_mac crc) :: u16) = crc"
  unfolding announce_mac_def by (rule two_parts)+

text \<open>The VLAN identifiers that \<open>batadv_get_vid\<close> can return.\<close>

definition vid_ok :: "vid \<Rightarrow> bool" where
  "vid_ok vid \<longleftrightarrow> vid = 0 \<or> (vid AND VLAN_VID_MASK) OR BATADV_VLAN_HAS_TAG = vid"

lemma vid_ok_tag: "vid_ok vid \<Longrightarrow> vid AND BATADV_VLAN_HAS_TAG = 0 \<longleftrightarrow> vid = 0"
proof
  assume v: "vid_ok vid" and zero: "vid AND BATADV_VLAN_HAS_TAG = 0"
  have "((w AND VLAN_VID_MASK) OR BATADV_VLAN_HAS_TAG) AND BATADV_VLAN_HAS_TAG = BATADV_VLAN_HAS_TAG" for w :: u16
    by (rule bit_word_eqI) (auto simp: bit_simps)
  note tag = this [of vid]
  have "(vid AND VLAN_VID_MASK) OR BATADV_VLAN_HAS_TAG \<noteq> vid"
  proof
    assume "(vid AND VLAN_VID_MASK) OR BATADV_VLAN_HAS_TAG = vid"
    from tag [unfolded this] zero show False
      by simp
  qed
  then show "vid = 0"
    using v by (simp add: vid_ok_def)
qed simp

lemma batadv_get_vid_frame [simp]: "vid_ok vid \<Longrightarrow> batadv_get_vid (bla_claim_frame p d mac vid t) = vid"
  using vid_ok_tag [of vid] by (auto simp: batadv_get_vid_def bla_claim_frame_def Let_def vid_ok_def)

lemma process_frame:
  assumes "vid_ok vid" and "p \<noteq> q" and "bla_dest_magic r = m" and "bla_dest_group r = g"
  shows "t = BATADV_CLAIM_TYPE_CLAIM \<Longrightarrow> snd (batadv_bla_process_claim e p (bla_claim_frame q (claim_dst m t g) mac vid t) r)
      = snd (batadv_handle_claim e p q mac vid (batadv_bla_update_own_backbone_gw e p vid r))"
    and "t = BATADV_CLAIM_TYPE_ANNOUNCE \<Longrightarrow> snd (batadv_bla_process_claim e p (bla_claim_frame q (claim_dst m t g) mac vid t) r)
      = snd (batadv_handle_announce e mac q vid (batadv_bla_update_own_backbone_gw e p vid r))"
  using assms vid_ok_tag [OF assms(1)]
  by (auto simp: batadv_bla_process_claim_def bla_dispatch_claim_def batadv_check_claim_group_def bla_claim_frame_def
      batadv_get_vid_def vid_ok_def Let_def split: prod.split)


section \<open>Keeping a gateway findable\<close>

text \<open>The find of a gateway: its identity survives everything that keeps its key.\<close>

definition gw_found :: "kenv \<Rightarrow> batadv_priv_bla \<Rightarrow> mac \<Rightarrow> vid \<Rightarrow> nat option" where
  "gw_found k s orig vid = map_option gw_id (batadv_backbone_hash_find k s orig vid)"

lemma gw_found_same:
  "bla_backbone_hash t = bla_backbone_hash s \<Longrightarrow> gw_found k t = gw_found k s"
  by (simp add: gw_found_def batadv_backbone_hash_find_def fun_eq_iff)

definition backbone_ok :: "batadv_priv_bla \<Rightarrow> bool" where
  "backbone_ok s \<longleftrightarrow>
     (case bla_backbone_hash s of None \<Rightarrow> True | Some h \<Rightarrow> 0 < ht_size h \<and> length (ht_table h) = unat (ht_size h))"

lemma backbone_ok_simps [simp]:
  "backbone_ok (gw_modify i f s) = backbone_ok s"
  "backbone_ok (claim_modify key fc s) = backbone_ok s"
  "backbone_ok (s\<lparr>bla_claim_hash := ch\<rparr>) = backbone_ok s"
  by (auto simp: backbone_ok_def gw_modify_def claim_modify_def hash_map_def split: option.split)

lemma inv_backbone_ok: "bla_inv k s \<Longrightarrow> backbone_ok s"
  by (simp add: bla_inv_def bla_tables_ok_def backbone_ok_def)

lemma gw_found_modify:
  assumes tabs: "backbone_ok s" and f: "\<And>g. gw_id (f g) = gw_id g" "\<And>g. gw_key (f g) = gw_key g"
  shows "gw_found k (gw_modify i f s) orig vid = gw_found k s orig vid"
proof (cases "bla_backbone_hash s")
  case None
  then show ?thesis by (simp add: gw_found_def batadv_backbone_hash_find_def gw_modify_def)
next
  case (Some h)
  let ?f = "\<lambda>g. if gw_id g = i then f g else g"
  let ?P = "\<lambda>g. batadv_compare_backbone_gw g (orig, vid)"
  have idx: "unat (batadv_choose_backbone_gw k (orig, vid) (ht_size h)) < length (ht_table h)"
    using tabs Some bgt.choose_less [of "ht_size h" k "(orig, vid)"]
    by (auto simp: backbone_ok_def word_less_nat_alt)
  have "?P (?f g) = ?P g" for g
    using f(2) [of g] by (simp add: bgt.compare_key)
  then have "map_option gw_id (find ?P (map ?f gs)) = map_option gw_id (find ?P gs)" for gs
    using f(1) by (induction gs) auto
  then show ?thesis
    using Some idx by (simp add: gw_found_def batadv_backbone_hash_find_def gw_modify_def hash_map_def hash_lookup_def)
qed

lemma gw_found_send [simp]: "gw_found k (batadv_bla_send_claim e mac vid ct s) = gw_found k s"
  by (rule gw_found_same) simp

lemma gw_found_announce [simp]: "gw_found k (batadv_bla_send_announce e g s) = gw_found k s"
  by (rule gw_found_same) simp

lemma gw_found_claim_modify [simp]: "gw_found k (claim_modify key f s) = gw_found k s"
  by (rule gw_found_same) simp

lemma gw_found_claim_hash [simp]: "gw_found k (s\<lparr>bla_claim_hash := h\<rparr>) = gw_found k s"
  by (rule gw_found_same) simp

lemma gw_found_add_claim:
  "backbone_ok s \<Longrightarrow> gw_found k (batadv_bla_add_claim e mac vid i s) orig v = gw_found k s orig v"
  by (simp add: batadv_bla_add_claim_def Let_def gw_found_modify split: option.split prod.split)

lemma gw_found_get_backbone:
  assumes ok: "backbone_ok s" and g: "gw_found (be_k e) s orig v = Some i"
    and get: "batadv_bla_get_backbone_gw e p vid own s = (r, s')"
  shows "gw_found (be_k e) s' orig v = Some i"
proof (cases "s' = s")
  case True
  then show ?thesis using g by simp
next
  case new: False
  let ?k = "be_k e"
  let ?entry = "\<lparr>gw_id = bla_next_id s, gw_orig = p, gw_vid = vid, gw_lasttime = k_jiffies ?k,
    gw_wait_periods = 0, gw_request_sent = 0, gw_crc = 0\<rparr>"
  have none: "batadv_backbone_hash_find ?k s p vid = None" and gok: "be_gw_ok e"
    using get new by (auto simp: batadv_bla_get_backbone_gw_def split: option.splits if_splits)
  then have neq: "(p, vid) \<noteq> (orig, v)"
    using g by (auto simp: gw_found_def)
  obtain h where h: "bla_backbone_hash s = Some h"
    using g by (auto simp: gw_found_def batadv_backbone_hash_find_def split: option.splits)
  let ?i = "unat (batadv_choose_backbone_gw ?k (p, vid) (ht_size h))"
  let ?j = "unat (batadv_choose_backbone_gw ?k (orig, v) (ht_size h))"
  obtain added hash where add: "batadv_hash_add (Some h) batadv_compare_backbone_gw
      (batadv_choose_backbone_gw ?k) (p, vid) ?entry = (added, hash)"
    by (cases "batadv_hash_add (Some h) batadv_compare_backbone_gw (batadv_choose_backbone_gw ?k) (p, vid) ?entry")
  show ?thesis
  proof (cases "added = 0")
    case False
    then have "s' = s\<lparr>bla_next_id := bla_next_id s + 1\<rparr>"
      using get none gok add h by (simp add: batadv_bla_get_backbone_gw_def Let_def)
    then show ?thesis using g gw_found_same [of s' s ?k] by simp
  next
    case True
    let ?t = "s\<lparr>bla_next_id := bla_next_id s + 1, bla_backbone_hash := hash\<rparr>"
    define u where "u = (if be_orig e p then ?t\<lparr>bla_tt_del := bla_tt_del ?t @ [(p, vid)]\<rparr> else ?t)"
    have s': "s' = (if own then bla_start_own_backbone e ?entry u else u)"
      unfolding u_def using get none gok add h True
      by (cases own; cases "be_orig e p"; simp add: batadv_bla_get_backbone_gw_def Let_def)
    have hash: "hash = Some (h\<lparr>ht_table := (ht_table h)[?i := ?entry # ht_table h ! ?i]\<rparr>)"
      using add True by (auto simp: batadv_hash_add_def Let_def split: if_splits)
    have ij: "?i < length (ht_table h)" "?j < length (ht_table h)"
      using ok h bgt.choose_less [of "ht_size h" ?k] by (auto simp: backbone_ok_def word_less_nat_alt)
    have ne: "\<not> batadv_compare_backbone_gw ?entry (orig, v)"
      using neq by (simp add: batadv_compare_backbone_gw_def)
    have fu: "gw_found ?k u orig v = Some i"
      using g h hash ij ne
      by (cases "?i = ?j") (simp_all add: u_def gw_found_def batadv_backbone_hash_find_def hash_lookup_def)
    have uok: "backbone_ok u"
      using ok h hash by (simp add: u_def backbone_ok_def)
    have "gw_found ?k (bla_start_own_backbone e ?entry u) orig v = gw_found ?k u orig v"
    proof -
      have num: "gw_found ?k (x\<lparr>bla_num_requests := n\<rparr>) = gw_found ?k x" for x n
        by (rule gw_found_same) simp
      have "backbone_ok (batadv_bla_send_announce e ?entry u)"
        using uok by (simp add: backbone_ok_def)
      then show ?thesis
        by (simp add: bla_start_own_backbone_def Let_def num gw_found_modify)
    qed
    then show ?thesis using fu s' by simp
  qed
qed

lemma gw_found_update_own:
  assumes "bla_inv (be_k e) s" and "gw_found (be_k e) s orig v = Some i"
  shows "gw_found (be_k e) (batadv_bla_update_own_backbone_gw e p vid s) orig v = Some i"
proof -
  obtain r t where r: "batadv_bla_get_backbone_gw e p vid True s = (r, t)"
    by (cases "batadv_bla_get_backbone_gw e p vid True s")
  have "gw_found (be_k e) t orig v = Some i"
    by (rule gw_found_get_backbone [OF inv_backbone_ok [OF assms(1)] assms(2) r])
  moreover have "backbone_ok t"
    by (rule inv_backbone_ok [OF get_backbone_inv(1) [OF assms(1) r]])
  ultimately show ?thesis
    using r by (cases r) (simp_all add: batadv_bla_update_own_backbone_gw_def gw_found_modify)
qed

lemma gw_found_some: "gw_found k s orig v = Some i \<Longrightarrow> bla_backbone_hash s \<noteq> None"
  by (auto simp: gw_found_def batadv_backbone_hash_find_def split: option.splits)

lemma get_backbone_found:
  "gw_found (be_k e) s orig v = Some i \<Longrightarrow> batadv_bla_get_backbone_gw e orig v own s = (Some i, s)"
  by (auto simp: gw_found_def batadv_bla_get_backbone_gw_def)

lemma gw_found_get:
  assumes "bla_inv k s" and "gw_found k s orig v = Some i"
  obtains g where "gw_get s i = Some g" and "gw_orig g = orig" and "gw_vid g = v" and "gw_id g = i"
proof -
  obtain g where g: "batadv_backbone_hash_find k s orig v = Some g" "gw_id g = i"
    using assms(2) by (auto simp: gw_found_def)
  have "bla_tables_ok k s" using assms(1) by (simp add: bla_inv_def)
  from backbone_find_in [OF this g(1)] show ?thesis
    using that inv_gw_get [OF assms(1), of g] g(2) by auto
qed

text \<open>The claim destination of the receiver stays the same.\<close>

lemma dest_get_backbone [simp]:
  "bla_dest_magic (snd (batadv_bla_get_backbone_gw e orig vid own s)) = bla_dest_magic s"
  "bla_dest_group (snd (batadv_bla_get_backbone_gw e orig vid own s)) = bla_dest_group s"
  by (simp_all add: batadv_bla_get_backbone_gw_def bla_start_own_backbone_def batadv_bla_send_announce_def
      batadv_bla_send_claim_def Let_def split: option.split prod.split)

lemma dest_update_own [simp]:
  "bla_dest_magic (batadv_bla_update_own_backbone_gw e p vid s) = bla_dest_magic s"
  "bla_dest_group (batadv_bla_update_own_backbone_gw e p vid s) = bla_dest_group s"
  using dest_get_backbone [of e p vid True s]
  by (auto simp: batadv_bla_update_own_backbone_gw_def split: prod.split option.split simp del: dest_get_backbone)

lemma dest_add_claim [simp]:
  "bla_dest_magic (batadv_bla_add_claim e mac vid i s) = bla_dest_magic s"
  "bla_dest_group (batadv_bla_add_claim e mac vid i s) = bla_dest_group s"
  by (simp_all add: batadv_bla_add_claim_def Let_def split: option.split prod.split)


section \<open>Resynchronisation\<close>

text \<open>
  A receiver that knows the gateway \<open>q\<close> on the VLAN as \<open>i\<close> and shares the claim group
  \<open>(m, g)\<close>.
\<close>

definition sync_ready :: "bla_env \<Rightarrow> mac \<Rightarrow> vid \<Rightarrow> nat \<Rightarrow> 24 word \<Rightarrow> u16 \<Rightarrow> batadv_priv_bla \<Rightarrow> bool" where
  "sync_ready e q vid i m g r \<longleftrightarrow>
     bla_inv (be_k e) r \<and> bla_claim_hash r \<noteq> None \<and> gw_found (be_k e) r q vid = Some i \<and>
     bla_dest_magic r = m \<and> bla_dest_group r = g"

lemma sync_update_own:
  assumes "sync_ready e q vid i m g r"
  shows "sync_ready e q vid i m g (batadv_bla_update_own_backbone_gw e p vid r)"
  using assms by (simp add: sync_ready_def update_own_inv gw_found_update_own)

lemma sync_claim:
  assumes r: "sync_ready e q vid i m g r" and ok: "be_claim_ok e" and pq: "p \<noteq> q" and vid: "vid_ok vid"
  shows "sync_ready e q vid i m g (snd (batadv_bla_process_claim e p (bla_claim_frame q (claim_dst m BATADV_CLAIM_TYPE_CLAIM g) a vid BATADV_CLAIM_TYPE_CLAIM) r))"
    and "claim_owner (be_k e) (snd (batadv_bla_process_claim e p (bla_claim_frame q (claim_dst m BATADV_CLAIM_TYPE_CLAIM g) a vid BATADV_CLAIM_TYPE_CLAIM) r))
      = (claim_owner (be_k e) r)((a, vid) \<mapsto> i)"
proof -
  let ?t = "batadv_bla_update_own_backbone_gw e p vid r"
  let ?u = "batadv_bla_add_claim e a vid i ?t"
  have t: "sync_ready e q vid i m g ?t" by (rule sync_update_own [OF r])
  have m: "bla_dest_magic r = m" "bla_dest_group r = g" using r by (simp_all add: sync_ready_def)
  have "batadv_bla_get_backbone_gw e q vid False ?t = (Some i, ?t)"
    using t by (intro get_backbone_found) (simp add: sync_ready_def)
  then have eq: "snd (batadv_bla_process_claim e p (bla_claim_frame q (claim_dst m BATADV_CLAIM_TYPE_CLAIM g) a vid BATADV_CLAIM_TYPE_CLAIM) r) = ?u"
    using process_frame(1) [OF vid pq m refl] pq by (simp add: batadv_handle_claim_def Let_def)
  have invt: "bla_inv (be_k e) ?t" and chash: "bla_claim_hash ?t \<noteq> None" and fnd: "gw_found (be_k e) ?t q vid = Some i"
    using t by (simp_all add: sync_ready_def)
  have own: "claim_owner (be_k e) ?u = (claim_owner (be_k e) ?t)((a, vid) \<mapsto> i)"
    using invt ok chash by (intro add_claim_owner) (simp_all add: bla_inv_def)
  show "claim_owner (be_k e) (snd (batadv_bla_process_claim e p (bla_claim_frame q (claim_dst m BATADV_CLAIM_TYPE_CLAIM g) a vid BATADV_CLAIM_TYPE_CLAIM) r))
      = (claim_owner (be_k e) r)((a, vid) \<mapsto> i)"
    unfolding eq own by simp
  obtain gw where gw: "gw_get ?t i = Some gw" "gw_vid gw = vid"
    by (rule gw_found_get [OF invt fnd])
  have "bla_inv (be_k e) ?u" by (rule add_claim_inv [OF invt gw])
  moreover have "bla_claim_hash ?u \<noteq> None"
  proof
    assume "bla_claim_hash ?u = None"
    then have "claim_owner (be_k e) ?u (a, vid) = None"
      by (simp add: claim_owner_def batadv_claim_hash_find_def)
    then show False using own by simp
  qed
  ultimately show "sync_ready e q vid i m g (snd (batadv_bla_process_claim e p (bla_claim_frame q (claim_dst m BATADV_CLAIM_TYPE_CLAIM g) a vid BATADV_CLAIM_TYPE_CLAIM) r))"
    unfolding eq using t fnd by (simp add: sync_ready_def gw_found_add_claim [OF inv_backbone_ok [OF invt]])
qed

lemma sync_claims:
  assumes "sync_ready e q vid i m g r" and "be_claim_ok e" and "p \<noteq> q" and "vid_ok vid"
  shows "sync_ready e q vid i m g (fold (\<lambda>f r. snd (batadv_bla_process_claim e p f r))
        (map (\<lambda>a. bla_claim_frame q (claim_dst m BATADV_CLAIM_TYPE_CLAIM g) a vid BATADV_CLAIM_TYPE_CLAIM) as) r)
    \<and> claim_owner (be_k e) (fold (\<lambda>f r. snd (batadv_bla_process_claim e p f r))
        (map (\<lambda>a. bla_claim_frame q (claim_dst m BATADV_CLAIM_TYPE_CLAIM g) a vid BATADV_CLAIM_TYPE_CLAIM) as) r)
      = (\<lambda>key. if snd key = vid \<and> fst key \<in> set as then Some i else claim_owner (be_k e) r key)"
  using assms(1)
proof (induction as arbitrary: r)
  case Nil
  then show ?case by simp
next
  case (Cons a as)
  note st = sync_claim [OF Cons.prems assms(2-4), of a]
  show ?case
    using Cons.IH [OF st(1)] st(2) by (auto simp: fun_eq_iff)
qed

text \<open>The checksum is determined by the set of claimed clients.\<close>

lemma claims_crc_set:
  assumes tabs: "bla_tables_ok k r" "bla_tables_ok k s"
    and vids: "\<forall>c \<in> set (bla_claims r). cl_gw c = i \<longrightarrow> cl_vid c = vid"
      "\<forall>c \<in> set (bla_claims s). cl_gw c = j \<longrightarrow> cl_vid c = vid"
    and own: "\<And>a. claim_owner k r (a, vid) = Some i \<longleftrightarrow> claim_owner k s (a, vid) = Some j"
  shows "claims_crc k i (bla_claims r) = claims_crc k j (bla_claims s)"
proof -
  let ?as = "\<lambda>s i. map cl_addr (filter (\<lambda>c. cl_gw c = i) (bla_claims s))"
  have crc: "claims_crc k i (bla_claims s) = fold (\<lambda>a x. x XOR claim_crc k a) (?as s i) 0" for s i
    by (simp add: claims_crc_def fold_map o_def)
  have dist: "distinct (?as s i)" if "bla_tables_ok k s" "\<forall>c \<in> set (bla_claims s). cl_gw c = i \<longrightarrow> cl_vid c = vid" for s i
    using claims_distinct [OF that(1)] that(2) by (auto simp: distinct_map inj_on_def)
  have set: "a \<in> set (?as s i) \<longleftrightarrow> claim_owner k s (a, vid) = Some i"
    if "bla_tables_ok k s" "\<forall>c \<in> set (bla_claims s). cl_gw c = i \<longrightarrow> cl_vid c = vid" for s i a
    unfolding claim_owner_iff [OF that(1)] using that(2) by auto
  have "mset (?as r i) = mset (?as s j)"
    using dist [OF tabs(1) vids(1)] dist [OF tabs(2) vids(2)] set [OF tabs(1) vids(1)] set [OF tabs(2) vids(2)] own
    by (subst set_eq_iff_mset_eq_distinct [symmetric]) blast+
  then have "fold (\<lambda>a x. x XOR claim_crc k a) (?as r i) = fold (\<lambda>a x. x XOR claim_crc k a) (?as s j)"
    by (intro fold_multiset_equiv) (auto simp: fun_eq_iff ac_simps)
  then show ?thesis
    by (simp add: crc)
qed

lemma owned_vid:
  assumes "bla_inv k s" and "gw_get s i = Some g"
  shows "\<forall>c \<in> set (bla_claims s). cl_gw c = i \<longrightarrow> cl_vid c = gw_vid g"
proof (intro ballI impI)
  fix c
  assume c: "c \<in> set (bla_claims s)" "cl_gw c = i"
  then obtain h where "h \<in> set (bla_gws s)" "gw_id h = i" "gw_vid h = cl_vid c"
    using assms(1) unfolding bla_inv_def bla_core_def by blast
  moreover from this inv_gw_get [OF assms(1)] have "gw_get s i = Some h" by blast
  ultimately show "cl_vid c = gw_vid g" using assms(2) by simp
qed

lemma owned_crc:
  "bla_inv k s \<Longrightarrow> gw_get s i = Some g \<Longrightarrow> gw_crc g = claims_crc k i (bla_claims s)"
  using gw_get_in [of s i g] by (auto simp: bla_inv_def bla_core_def)

text \<open>The frames of an answer to a request.\<close>

lemma answer_frames:
  assumes "be_primary e = Some q" and "be_arp_ok e" and g: "batadv_backbone_hash_find (be_k e) s q vid = Some gw"
    and vids: "\<forall>c \<in> set (bla_claims s). cl_gw c = gw_id gw \<longrightarrow> cl_vid c = vid" and "gw_vid gw = vid"
  shows "bla_sent (batadv_bla_answer_request e q vid s) = bla_sent s @
    map (\<lambda>a. bla_claim_frame q (claim_dst (bla_dest_magic s) BATADV_CLAIM_TYPE_CLAIM (bla_dest_group s)) a vid BATADV_CLAIM_TYPE_CLAIM)
      (map cl_addr (filter (\<lambda>c. cl_gw c = gw_id gw) (bla_claims s))) @
    [bla_claim_frame q (claim_dst (bla_dest_magic s) BATADV_CLAIM_TYPE_ANNOUNCE (bla_dest_group s)) (announce_mac (gw_crc gw)) vid BATADV_CLAIM_TYPE_ANNOUNCE]"
proof -
  let ?F = "\<lambda>a. bla_claim_frame q (claim_dst (bla_dest_magic s) BATADV_CLAIM_TYPE_CLAIM (bla_dest_group s)) a vid BATADV_CLAIM_TYPE_CLAIM"
  have "\<lbrakk>\<forall>c \<in> set cs. cl_gw c = gw_id gw \<longrightarrow> cl_vid c = vid; bla_dest_magic t = bla_dest_magic s; bla_dest_group t = bla_dest_group s\<rbrakk>
    \<Longrightarrow> (let u = fold (\<lambda>claim s. if cl_gw claim \<noteq> gw_id gw then s
         else batadv_bla_send_claim e (cl_addr claim) (cl_vid claim) BATADV_CLAIM_TYPE_CLAIM s) cs t
       in bla_sent u = bla_sent t @ map ?F (map cl_addr (filter (\<lambda>c. cl_gw c = gw_id gw) cs))
        \<and> bla_dest_magic u = bla_dest_magic s \<and> bla_dest_group u = bla_dest_group s)" for cs t
    using assms(1,2)
    by (induction cs arbitrary: t) (auto simp: Let_def batadv_bla_send_claim_def)
  from this [OF vids refl refl] show ?thesis
    using assms by (simp add: batadv_bla_answer_request_def batadv_bla_send_announce_def Let_def)
      (simp add: batadv_bla_send_claim_def)
qed

lemma sync_announce:
  assumes r: "sync_ready e q vid i m g r" and pq: "p \<noteq> q" and vid: "vid_ok vid"
    and crc: "crc = claims_crc (be_k e) i (bla_claims r)"
  shows "\<exists>h. gw_get (snd (batadv_bla_process_claim e p (bla_claim_frame q (claim_dst m BATADV_CLAIM_TYPE_ANNOUNCE g) (announce_mac crc) vid BATADV_CLAIM_TYPE_ANNOUNCE) r)) i = Some h
      \<and> gw_request_sent h = 0 \<and> gw_crc h = crc \<and> gw_orig h = q \<and> gw_vid h = vid"
    and "claim_owner (be_k e) (snd (batadv_bla_process_claim e p (bla_claim_frame q (claim_dst m BATADV_CLAIM_TYPE_ANNOUNCE g) (announce_mac crc) vid BATADV_CLAIM_TYPE_ANNOUNCE) r))
      = claim_owner (be_k e) r"
proof -
  let ?t = "batadv_bla_update_own_backbone_gw e p vid r"
  let ?u = "gw_modify i (gw_lasttime_update (\<lambda>_. k_jiffies (be_k e))) ?t"
  let ?res = "snd (batadv_bla_process_claim e p (bla_claim_frame q (claim_dst m BATADV_CLAIM_TYPE_ANNOUNCE g) (announce_mac crc) vid BATADV_CLAIM_TYPE_ANNOUNCE) r)"
  have t: "sync_ready e q vid i m g ?t" by (rule sync_update_own [OF r])
  have m: "bla_dest_magic r = m" "bla_dest_group r = g" using r by (simp_all add: sync_ready_def)
  have invt: "bla_inv (be_k e) ?t" and fnd: "gw_found (be_k e) ?t q vid = Some i"
    using t by (simp_all add: sync_ready_def)
  have invr: "bla_inv (be_k e) r" and fndr: "gw_found (be_k e) r q vid = Some i"
    using r by (simp_all add: sync_ready_def)
  obtain h0 where h0: "gw_get r i = Some h0" "gw_orig h0 = q" "gw_vid h0 = vid" "gw_id h0 = i"
    by (rule gw_found_get [OF invr fndr])
  obtain h where h: "gw_get ?t i = Some h" "gw_crc h = gw_crc h0" "gw_orig h = q" "gw_vid h = vid"
    using update_own_keeps [OF invr h0(1), of p vid] h0 by auto
  have hcrc: "gw_crc h = crc" using h(2) owned_crc [OF invr h0(1)] crc by simp
  have hid: "gw_id h = i" using gw_get_in [OF h(1)] by simp
  have getu: "gw_get ?u i = Some (h\<lparr>gw_lasttime := k_jiffies (be_k e)\<rparr>)"
    using h hid by simp
  have "batadv_bla_get_backbone_gw e q vid False ?t = (Some i, ?t)"
    by (rule get_backbone_found [OF fnd])
  then have eq: "?res = (if gw_request_sent h \<noteq> 0
      then gw_modify i (gw_request_sent_update (\<lambda>_. 0)) (?u\<lparr>bla_num_requests := bla_num_requests ?u - 1\<rparr>) else ?u)"
    using process_frame(2) [OF vid pq m refl] getu hcrc
    by (simp add: batadv_handle_announce_def Let_def del: gw_get_modify)
  show "\<exists>h. gw_get ?res i = Some h \<and> gw_request_sent h = 0 \<and> gw_crc h = crc \<and> gw_orig h = q \<and> gw_vid h = vid"
    unfolding eq using h hid hcrc by simp
  have num: "claim_owner (be_k e) (x\<lparr>bla_num_requests := n\<rparr>) = claim_owner (be_k e) x" for x n
    by (rule claim_owner_same) simp
  show "claim_owner (be_k e) ?res = claim_owner (be_k e) r"
    unfolding eq by (simp add: num)
qed


section \<open>Properties\<close>

text \<open>An environment with additive hash functions, for the concrete instances.\<close>

definition byte_sum :: "u8 list \<Rightarrow> 'w :: len word" where
  "byte_sum bs = foldr (\<lambda>b x. ucast b + x) bs 0"

definition bla_example_env :: "mac \<Rightarrow> bla_env" where
  "bla_example_env primary =
     \<lparr>be_k = \<lparr>k_jiffies = 1000, k_m2j = ucast, k_jhash = (\<lambda>bs h. h + byte_sum bs), k_crc16 = byte_sum,
       k_crc32c = (\<lambda>c bs. c + byte_sum bs), k_arp_create = (\<lambda>_ _ _ _ _. [])\<rparr>,
      be_primary = Some primary, be_bla_on = True, be_orig = (\<lambda>_. True),
      be_gw_ok = True, be_claim_ok = True, be_arp_ok = True\<rparr>"

abbreviation bla_example_k :: kenv where
  "bla_example_k \<equiv> be_k (bla_example_env 0)"

lemma example_same_hashes [simp]: "same_hashes bla_example_k (be_k (bla_example_env p))"
  by (simp add: same_hashes_def bla_example_env_def)

definition bla_example_start :: "mac \<Rightarrow> batadv_priv_bla" where
  "bla_example_start p = snd (batadv_bla_init (bla_example_env p) True True bla_zero)"

lemma example_start_reach: "bla_reach bla_example_k (bla_example_start p)"
proof (rule reach_init)
  show "same_hashes bla_example_k (be_k (bla_example_env p))" by simp
  show "batadv_bla_init (bla_example_env p) True True bla_zero = (0, bla_example_start p)"
    by (simp add: bla_example_start_def batadv_bla_init_def bla_zero_def batadv_hash_new_def Let_def)
qed

text \<open>The state after a frame from client 9 has come in from the mesh.\<close>

definition bla_example_claimed :: "mac \<Rightarrow> batadv_priv_bla" where
  "bla_example_claimed p = snd (batadv_bla_rx (bla_example_env p) 7 9 0 False (bla_example_start p))"

lemma example_claimed_reach: "bla_reach bla_example_k (bla_example_claimed p)"
  unfolding bla_example_claimed_def by (rule reach_step [OF example_start_reach step_rx]) simp

text \<open>C8: In every state that frames, timers, address changes and switching the feature can lead to,
  the checksum of each gateway is the exclusive or of the checksums of the clients that
  point to it, the number of open requests is the number of gateways that are out of sync,
  every claim points to a gateway of its VLAN that is in the table, and no client of a VLAN
  is claimed twice.\<close>

theorem bla_reachable_invariant:
  assumes "bla_reach k s"
  shows "(\<forall>g \<in> set (bla_gws s). gw_crc g = claims_crc k (gw_id g) (bla_claims s))
    \<and> bla_num_requests s = of_nat (requests_pending (bla_gws s))
    \<and> (\<forall>c \<in> set (bla_claims s). \<exists>g \<in> set (bla_gws s). gw_id g = cl_gw c \<and> gw_vid g = cl_vid c)
    \<and> distinct (map claim_key (bla_claims s))"
  using bla_reach_inv [OF assms] claims_distinct by (auto simp: bla_inv_def bla_core_def)

theorem bla_reachable_invariant_witness:
  "bla_num_requests (bla_example_claimed 5) = of_nat (requests_pending (bla_gws (bla_example_claimed 5)))"
  using bla_reachable_invariant [OF example_claimed_reach [of 5]] by blast

text \<open>The claim table is a map from clients of a VLAN to gateways: an accepted claim sets the entry
  of the client and nothing else, an unclaim removes it and nothing else, whatever bucket
  the client falls into.\<close>

theorem claim_table_is_map:
  assumes "bla_reach k s" and "same_hashes k (be_k e)" and "be_claim_ok e" and "bla_claim_hash s \<noteq> None"
  shows "claim_owner (be_k e) (batadv_bla_add_claim e mac vid i s) = (claim_owner (be_k e) s)((mac, vid) \<mapsto> i)
    \<and> claim_owner (be_k e) (batadv_bla_del_claim e mac vid s) = (claim_owner (be_k e) s)((mac, vid) := None)"
proof -
  have "bla_inv (be_k e) s"
    using bla_reach_inv [OF assms(1)] bla_inv_cong [OF assms(2)] by simp
  then have "bla_tables_ok (be_k e) s" by (simp add: bla_inv_def)
  then show ?thesis
    using add_claim_owner del_claim_owner assms(3,4) by blast
qed

lemma example_start_tables:
  "bla_claim_hash (bla_example_start p) \<noteq> None" "bla_backbone_hash (bla_example_start p) \<noteq> None"
  by (simp_all add: bla_example_start_def batadv_bla_init_def batadv_hash_new_def bla_zero_def Let_def)

theorem claim_table_is_map_witness:
  "claim_owner (be_k (bla_example_env 5)) (batadv_bla_add_claim (bla_example_env 5) 9 0 3 (bla_example_start 5)) (9, 0) = Some 3"
  using claim_table_is_map [OF example_start_reach example_same_hashes _ example_start_tables(1), of 5 9 0 3 5]
  by (simp add: bla_example_env_def)

text \<open>C22: With bridge loop avoidance switched on and a primary interface, a broadcast from the mesh is kept from the LAN exactly when some gateway is out of sync or the
  sender is claimed by another gateway; a packet that is not a broadcast always passes.\<close>

theorem bla_rx_decision:
  assumes "bla_reach k s" and "same_hashes k (be_k e)" and "be_bla_on e" and "be_primary e = Some p"
    and "length (bla_gws s) < 2 ^ 32"
  shows "fst (batadv_bla_rx e d src vid bc s) =
    (if is_multicast_ether_addr d \<and> bc \<and>
        ((\<exists>g \<in> set (bla_gws s). gw_request_sent g \<noteq> 0) \<or>
         (\<exists>c \<in> set (bla_claims s). claim_key c = (src, vid) \<and> claim_orig s c \<noteq> p)) then 1 else 0)"
proof -
  have inv: "bla_inv (be_k e) s"
    using bla_reach_inv [OF assms(1)] bla_inv_cong [OF assms(2)] by simp
  then have tabs: "bla_tables_ok (be_k e) s" by (simp add: bla_inv_def)
  have "requests_pending (bla_gws s) < 2 ^ 32"
    unfolding requests_pending_def using assms(5) length_filter_le le_less_trans by blast
  then have "unat (bla_num_requests s) = requests_pending (bla_gws s)"
    using inv by (simp add: bla_inv_def bla_core_def unat_of_nat)
  then have "bla_num_requests s \<noteq> 0 \<longleftrightarrow> requests_pending (bla_gws s) \<noteq> 0"
    by (metis unat_eq_zero)
  then have num: "bla_num_requests s \<noteq> 0 \<longleftrightarrow> (\<exists>g \<in> set (bla_gws s). gw_request_sent g \<noteq> 0)"
    by (auto simp: requests_pending_def filter_empty_conv)
  show ?thesis
  proof (cases "batadv_claim_hash_find (be_k e) s (src, vid)")
    case None
    then have "\<not> (\<exists>c \<in> set (bla_claims s). claim_key c = (src, vid) \<and> claim_orig s c \<noteq> p)"
      using claim_find_None [OF tabs] by blast
    then show ?thesis
      using num None assms(3,4) by (auto simp: batadv_bla_rx_def Let_def)
  next
    case (Some c)
    then have "(\<exists>c \<in> set (bla_claims s). claim_key c = (src, vid) \<and> claim_orig s c \<noteq> p) \<longleftrightarrow> claim_orig s c \<noteq> p"
      using claim_find_iff [OF tabs, of "(src, vid)"] by (metis option.inject)
    then show ?thesis
      using num Some assms(3,4) by (auto simp: batadv_bla_rx_def Let_def)
  qed
qed

theorem bla_rx_decision_witness:
  "fst (batadv_bla_rx (bla_example_env 5) 0xFFFFFFFFFFFF 9 0 False (bla_example_start 5)) = 0"
proof -
  have "length (bla_gws (bla_example_start 5)) < 2 ^ 32"
    by (simp add: bla_example_start_def batadv_bla_init_def batadv_hash_new_def bla_zero_def Let_def bla_gws_def
        hash_elems_def batadv_hash_init_def)
  from bla_rx_decision [OF example_start_reach example_same_hashes _ _ this, of 5 5] show ?thesis
    by (simp add: bla_example_env_def)
qed

text \<open>When a frame from the mesh passes to the LAN, its sender is claimed by this gateway
  afterwards, under the address of the primary interface.\<close>

theorem bla_rx_claims_sender:
  assumes "bla_reach k s" and "same_hashes k (be_k e)" and "be_bla_on e" and "be_primary e = Some p"
    and "be_gw_ok e" and "be_claim_ok e" and "bla_claim_hash s \<noteq> None" and "bla_backbone_hash s \<noteq> None"
    and "batadv_bla_rx e d src vid bc s = (0, s')"
  shows "\<exists>g. claim_owner (be_k e) s' (src, vid) = Some (gw_id g) \<and> gw_get s' (gw_id g) = Some g \<and> gw_orig g = p"
proof -
  have inv: "bla_inv (be_k e) s"
    using bla_reach_inv [OF assms(1)] bla_inv_cong [OF assms(2)] by simp
  then have tabs: "bla_tables_ok (be_k e) s" by (simp add: bla_inv_def)
  let ?claimed = "snd (batadv_handle_claim e p p src vid s)"
  let ?seen = "claim_modify (src, vid) (cl_lasttime_update (\<lambda>_. k_jiffies (be_k e))) s"
  have "\<exists>t g. s' = batadv_bla_update_own_backbone_gw e p vid t \<and> bla_inv (be_k e) t \<and>
      claim_owner (be_k e) t (src, vid) = Some (gw_id g) \<and> gw_get t (gw_id g) = Some g \<and> gw_orig g = p"
  proof (cases "\<exists>c. batadv_claim_hash_find (be_k e) s (src, vid) = Some c \<and> claim_orig s c = p")
    case True
    then obtain c where c: "batadv_claim_hash_find (be_k e) s (src, vid) = Some c" "claim_orig s c = p"
      by blast
    then have "s' = batadv_bla_update_own_backbone_gw e p vid ?seen"
      using assms(3,4,9) by (simp add: batadv_bla_rx_def Let_def split: if_splits)
    moreover have "bla_inv (be_k e) ?seen" by (rule claim_touch_inv [OF inv]) simp_all
    moreover have "claim_owner (be_k e) ?seen (src, vid) = Some (cl_gw c)"
      using c by (subst claim_owner_modify [OF tabs]) auto
    moreover have "\<exists>g. gw_get s (cl_gw c) = Some g"
    proof -
      have "c \<in> set (bla_claims s)" using c claim_find_iff [OF tabs] by blast
      then obtain g where "g \<in> set (bla_gws s)" "gw_id g = cl_gw c"
        using inv unfolding bla_inv_def bla_core_def by blast
      then show ?thesis using inv_gw_get [OF inv, of g] by auto
    qed
    then obtain g where "gw_get s (cl_gw c) = Some g" by blast
    moreover from this have "gw_id g = cl_gw c" "gw_orig g = p"
      using c(2) gw_get_in by (auto simp: claim_orig_def)
    ultimately show ?thesis by (intro exI [of _ ?seen] exI [of _ g]) simp
  next
    case False
    then have "s' = batadv_bla_update_own_backbone_gw e p vid ?claimed"
      using assms(3,4,9) by (auto simp: batadv_bla_rx_def Let_def split: option.splits if_splits)
    moreover obtain g where "gw_get ?claimed (gw_id g) = Some g" "gw_orig g = p"
      "claim_owner (be_k e) ?claimed = (claim_owner (be_k e) s)((src, vid) \<mapsto> gw_id g)"
      using handle_claim_owner [OF inv assms(5-8), of p p src vid] by blast
    ultimately show ?thesis
      using handle_claim_inv [OF inv] by (intro exI [of _ ?claimed] exI [of _ g]) simp
  qed
  then obtain t g where t: "s' = batadv_bla_update_own_backbone_gw e p vid t" "bla_inv (be_k e) t"
      "claim_owner (be_k e) t (src, vid) = Some (gw_id g)" "gw_get t (gw_id g) = Some g" "gw_orig g = p"
    by blast
  from update_own_keeps [OF t(2,4), of p vid]
  obtain h where h: "gw_get s' (gw_id g) = Some h" "gw_orig h = p"
    using t(1,5) by auto
  moreover have "gw_id h = gw_id g" using gw_get_in [OF h(1)] by simp
  ultimately show ?thesis
    using t(1,3) by (intro exI [of _ h]) simp
qed

theorem bla_rx_claims_sender_witness:
  "\<exists>g :: bla_backbone_gw. claim_owner (be_k (bla_example_env 5)) (bla_example_claimed 5) (9, 0) = Some (gw_id g)
    \<and> gw_orig g = 5"
proof -
  have gws: "length (bla_gws (bla_example_start 5)) = 0"
    by (simp add: bla_example_start_def batadv_bla_init_def batadv_hash_new_def bla_zero_def Let_def bla_gws_def
        hash_elems_def batadv_hash_init_def)
  have "\<not> is_multicast_ether_addr (7 :: mac)"
    by (simp add: is_multicast_ether_addr_def)
  then have "fst (batadv_bla_rx (bla_example_env 5) 7 9 0 False (bla_example_start 5)) = 0"
    by (simp add: batadv_bla_rx_def bla_example_env_def Let_def split: option.split)
  then have "batadv_bla_rx (bla_example_env 5) 7 9 0 False (bla_example_start 5) = (0, bla_example_claimed 5)"
    unfolding bla_example_claimed_def by (metis prod.collapse)
  from bla_rx_claims_sender [OF example_start_reach example_same_hashes _ _ _ _ example_start_tables this, of 5]
  show ?thesis by (simp add: bla_example_env_def) blast
qed


text \<open>C7: Resynchronisation. A receiver that holds no claims of a gateway (it dropped them when it asked)
  and processes the frames with which the gateway answers the request, in their order, ends
  up with exactly the claims of that gateway, with its checksum, and with the request
  cleared, so that broadcasts may pass again.\<close>

theorem bla_resync:
  assumes "bla_reach k s" and "same_hashes k (be_k es)" and "be_primary es = Some q" and "be_arp_ok es"
    and "batadv_backbone_hash_find (be_k es) s q vid = Some gw"
    and "bla_reach k r" and "same_hashes k (be_k er)" and "p \<noteq> q" and "be_claim_ok er" and "bla_claim_hash r \<noteq> None"
    and "batadv_backbone_hash_find (be_k er) r q vid = Some rgw"
    and "\<forall>c \<in> set (bla_claims r). cl_gw c \<noteq> gw_id rgw"
    and "bla_dest_magic r = bla_dest_magic s" and "bla_dest_group r = bla_dest_group s" and "vid_ok vid"
  shows "let frames = drop (length (bla_sent s)) (bla_sent (batadv_bla_answer_request es q vid s));
             r' = fold (\<lambda>f r. snd (batadv_bla_process_claim er p f r)) frames r
         in (\<exists>g. gw_get r' (gw_id rgw) = Some g \<and> gw_orig g = q \<and> gw_request_sent g = 0 \<and> gw_crc g = gw_crc gw)
          \<and> (\<forall>a. claim_owner k r' (a, vid) = Some (gw_id rgw) \<longleftrightarrow> claim_owner k s (a, vid) = Some (gw_id gw))"
proof -
  let ?m = "bla_dest_magic s" and ?gr = "bla_dest_group s" and ?i = "gw_id rgw"
  let ?as = "map cl_addr (filter (\<lambda>c. cl_gw c = gw_id gw) (bla_claims s))"
  have owner: "claim_owner k' = claim_owner k" if "same_hashes k k'" for k'
  proof -
    have ch: "batadv_choose_claim k' = batadv_choose_claim k"
      using that by (auto simp: same_hashes_def batadv_choose_claim_def fun_eq_iff Let_def)
    have "batadv_claim_hash_find k' = batadv_claim_hash_find k"
      by (intro ext) (simp only: batadv_claim_hash_find_def ch)
    then show ?thesis
      by (intro ext) (simp only: claim_owner_def)
  qed
  have crck: "claims_crc k' = claims_crc k" if "same_hashes k k'" for k'
    using that by (simp add: same_hashes_def claims_crc_def claim_crc_def fun_eq_iff)
  have invs: "bla_inv (be_k es) s" and invr: "bla_inv (be_k er) r"
    using bla_reach_inv assms(1,2,6,7) bla_inv_cong by blast+
  have invks: "bla_inv k s" using bla_reach_inv [OF assms(1)] .
  have tabs: "bla_tables_ok k s" using invks by (simp add: bla_inv_def)
  have gw: "gw \<in> set (bla_gws s)" "gw_orig gw = q" "gw_vid gw = vid"
    using backbone_find_in [OF _ assms(5)] invs by (simp_all add: bla_inv_def)
  have getgw: "gw_get s (gw_id gw) = Some gw" by (rule inv_gw_get [OF invs gw(1)])
  have vids: "\<forall>c \<in> set (bla_claims s). cl_gw c = gw_id gw \<longrightarrow> cl_vid c = vid"
    using owned_vid [OF invs getgw] gw(3) by simp
  have ready: "sync_ready er q vid ?i ?m ?gr r"
    using invr assms(10,11,13,14) by (simp add: sync_ready_def gw_found_def)
  define r1 where "r1 = fold (\<lambda>f r. snd (batadv_bla_process_claim er p f r))
    (map (\<lambda>a. bla_claim_frame q (claim_dst ?m BATADV_CLAIM_TYPE_CLAIM ?gr) a vid BATADV_CLAIM_TYPE_CLAIM) ?as) r"
  note r1 = sync_claims [OF ready assms(9,8,15), of ?as, folded r1_def]
  have ready1: "sync_ready er q vid ?i ?m ?gr r1" using r1 by simp
  have inv1: "bla_inv (be_k er) r1" using ready1 by (simp add: sync_ready_def)
  have inv1k: "bla_inv k r1" using inv1 bla_inv_cong [OF assms(7)] by simp
  have none: "claim_owner (be_k er) r key \<noteq> Some ?i" for key
    using invr assms(12) claim_owner_iff [of "be_k er" r key ?i] by (auto simp: bla_inv_def)
  have own1: "claim_owner k r1 (a, vid) = Some ?i \<longleftrightarrow> claim_owner k s (a, vid) = Some (gw_id gw)" for a
  proof -
    have "claim_owner (be_k er) r1 (a, vid) = Some ?i \<longleftrightarrow> a \<in> set ?as"
      using r1 none by simp
    moreover have "a \<in> set ?as \<longleftrightarrow> claim_owner k s (a, vid) = Some (gw_id gw)"
      unfolding claim_owner_iff [OF tabs] using vids by auto
    ultimately show ?thesis by (simp add: owner [OF assms(7)])
  qed
  obtain g1 where g1: "gw_get r1 ?i = Some g1" "gw_vid g1 = vid"
    using gw_found_get [OF inv1] ready1 by (metis sync_ready_def)
  have "bla_tables_ok k r1" "\<forall>c \<in> set (bla_claims r1). cl_gw c = ?i \<longrightarrow> cl_vid c = vid"
    using inv1k owned_vid [OF inv1 g1(1)] g1(2) by (simp_all add: bla_inv_def)
  then have "claims_crc k ?i (bla_claims r1) = claims_crc k (gw_id gw) (bla_claims s)"
    by (rule claims_crc_set [OF _ tabs _ vids own1])
  then have crc: "gw_crc gw = claims_crc (be_k er) ?i (bla_claims r1)"
    using owned_crc [OF invks getgw] by (simp add: crck [OF assms(7)])
  define r2 where "r2 = snd (batadv_bla_process_claim er p (bla_claim_frame q (claim_dst ?m BATADV_CLAIM_TYPE_ANNOUNCE ?gr)
    (announce_mac (gw_crc gw)) vid BATADV_CLAIM_TYPE_ANNOUNCE) r1)"
  note r2 = sync_announce [OF ready1 assms(8,15) crc, folded r2_def]
  have "fold (\<lambda>f r. snd (batadv_bla_process_claim er p f r))
      (drop (length (bla_sent s)) (bla_sent (batadv_bla_answer_request es q vid s))) r = r2"
    unfolding answer_frames [OF assms(3,4,5) vids gw(3)] by (simp add: r1_def r2_def)
  then show ?thesis
    using r2 own1 by (auto simp: Let_def owner [OF assms(7)])
qed

definition bla_example_asking :: batadv_priv_bla where
  "bla_example_asking = snd (batadv_bla_tx (bla_example_env 4)
     (bla_claim_frame 5 (claim_dst 0xff4305 BATADV_CLAIM_TYPE_ANNOUNCE 5) (announce_mac 9) 0 BATADV_CLAIM_TYPE_ANNOUNCE)
     0 (bla_example_start 4))"

lemma example_asking_reach: "bla_reach bla_example_k bla_example_asking"
  unfolding bla_example_asking_def by (rule reach_step [OF example_start_reach step_tx]) simp

theorem bla_resync_witness:
  "\<exists>g :: bla_backbone_gw. gw_get (fold (\<lambda>f r. snd (batadv_bla_process_claim (bla_example_env 4) 4 f r))
        (drop (length (bla_sent (bla_example_claimed 5)))
          (bla_sent (batadv_bla_answer_request (bla_example_env 5) 5 0 (bla_example_claimed 5)))) bla_example_asking)
      (gw_id (the (batadv_backbone_hash_find (be_k (bla_example_env 4)) bla_example_asking 5 0))) = Some g
    \<and> gw_request_sent g = 0"
proof -
  have s: "batadv_backbone_hash_find (be_k (bla_example_env 5)) (bla_example_claimed 5) 5 0
      = Some (the (batadv_backbone_hash_find (be_k (bla_example_env 5)) (bla_example_claimed 5) 5 0))"
    by code_simp
  have r: "batadv_backbone_hash_find (be_k (bla_example_env 4)) bla_example_asking 5 0
      = Some (the (batadv_backbone_hash_find (be_k (bla_example_env 4)) bla_example_asking 5 0))"
    by code_simp
  have none: "\<forall>c \<in> set (bla_claims bla_example_asking).
      cl_gw c \<noteq> gw_id (the (batadv_backbone_hash_find (be_k (bla_example_env 4)) bla_example_asking 5 0))"
    by code_simp
  have hash: "bla_claim_hash bla_example_asking \<noteq> None"
    by code_simp
  have magic: "bla_dest_magic bla_example_asking = bla_dest_magic (bla_example_claimed 5)"
    by code_simp
  have grp: "bla_dest_group bla_example_asking = bla_dest_group (bla_example_claimed 5)"
    by code_simp
  show ?thesis
    using bla_resync [OF example_claimed_reach example_same_hashes _ _ s example_asking_reach example_same_hashes
        _ _ hash r none magic grp, of 4]
    by (simp add: Let_def vid_ok_def) (auto simp: bla_example_env_def)
qed

definition duplist_view :: "batadv_priv_bla \<Rightarrow> bcast_duplist_entry list" where
  "duplist_view s =
     map (\<lambda>i. bla_bcast_duplist s ! ((bla_bcast_duplist_curr s + i) mod BATADV_DUPLIST_SIZE)) [0..<BATADV_DUPLIST_SIZE]"

lemma duplist_search_takeWhile:
  "duplist_search k crc orig es \<longleftrightarrow>
     (\<exists>e \<in> set (takeWhile (\<lambda>e. \<not> batadv_has_timed_out k (dl_entrytime e) BATADV_DUPLIST_TIMEOUT) es).
        dl_crc e = crc \<and> dl_orig e \<noteq> orig)"
  by (induction es) auto

lemma duplist_push:
  assumes "length (bla_bcast_duplist s) = BATADV_DUPLIST_SIZE" and "c < BATADV_DUPLIST_SIZE"
    and "c = (bla_bcast_duplist_curr s + 15) mod BATADV_DUPLIST_SIZE"
  shows "duplist_view (s\<lparr>bla_bcast_duplist := (bla_bcast_duplist s)[c := x], bla_bcast_duplist_curr := c\<rparr>)
    = x # butlast (duplist_view s)"
proof (rule nth_equalityI)
  fix i
  assume "i < length (duplist_view (s\<lparr>bla_bcast_duplist := (bla_bcast_duplist s)[c := x], bla_bcast_duplist_curr := c\<rparr>))"
  then have i: "i < 16" by (simp add: duplist_view_def)
  show "duplist_view (s\<lparr>bla_bcast_duplist := (bla_bcast_duplist s)[c := x], bla_bcast_duplist_curr := c\<rparr>) ! i
    = (x # butlast (duplist_view s)) ! i"
  proof (cases i)
    case 0
    then show ?thesis using assms by (simp add: duplist_view_def)
  next
    case (Suc j)
    have shift: "(c + Suc j) mod 16 = (bla_bcast_duplist_curr s + j) mod 16"
    proof -
      have "(c + Suc j) mod 16 = (bla_bcast_duplist_curr s + 15 + Suc j) mod 16"
        unfolding assms(3) by (simp only: mod_add_left_eq)
      also have "bla_bcast_duplist_curr s + 15 + Suc j = (bla_bcast_duplist_curr s + j) + 16"
        by simp
      finally show ?thesis
        by (simp only: mod_add_self2)
    qed
    have "(c + Suc j) mod 16 \<noteq> c"
    proof -
      have "j < 15" using i Suc by simp
      then show ?thesis using assms(2) by (auto simp: mod_if)
    qed
    then show ?thesis
      using i Suc assms by (simp add: duplist_view_def nth_butlast shift [symmetric] del: upt_Suc)
  qed
qed (simp add: duplist_view_def)

text \<open>C23: The duplicate list is a list of the last sixteen first occurrences, newest first: a broadcast
  is refused exactly when one of the entries that are not older than half a second, up to
  the first that is, has its checksum and comes from another originator; an accepted
  broadcast pushes the oldest entry out.\<close>

theorem bla_duplist_refines:
  assumes "length (bla_bcast_duplist s) = BATADV_DUPLIST_SIZE"
  shows "batadv_bla_check_bcast_duplist k crc orig s =
    (let view = duplist_view s;
         fresh = takeWhile (\<lambda>e. \<not> batadv_has_timed_out k (dl_entrytime e) BATADV_DUPLIST_TIMEOUT) view
     in if \<exists>e \<in> set fresh. dl_crc e = crc \<and> dl_orig e \<noteq> orig then (1, s)
        else (0, snd (batadv_bla_check_bcast_duplist k crc orig s)))
    \<and> duplist_view (snd (batadv_bla_check_bcast_duplist k crc orig s)) =
      (if fst (batadv_bla_check_bcast_duplist k crc orig s) = 1 then duplist_view s
       else \<lparr>dl_orig = orig, dl_crc = crc, dl_entrytime = k_jiffies k\<rparr> # butlast (duplist_view s))"
proof -
  have eq: "batadv_bla_check_bcast_duplist k crc orig s =
    (if duplist_search k crc orig (duplist_view s) then (1, s)
     else (0, s\<lparr>bla_bcast_duplist := (bla_bcast_duplist s)[(bla_bcast_duplist_curr s + 15) mod 16 :=
                    \<lparr>dl_orig = orig, dl_crc = crc, dl_entrytime = k_jiffies k\<rparr>],
                  bla_bcast_duplist_curr := (bla_bcast_duplist_curr s + 15) mod 16\<rparr>))"
    by (simp add: batadv_bla_check_bcast_duplist_def duplist_view_def Let_def add.commute del: upt_Suc)
  show ?thesis
    using duplist_push [OF assms _ refl] unfolding eq duplist_search_takeWhile Let_def
    by (simp del: upt_Suc)
qed

theorem bla_duplist_refines_witness:
  "fst (batadv_bla_check_bcast_duplist bla_example_k 77 2
     (snd (batadv_bla_check_bcast_duplist bla_example_k 77 1 (bla_example_start 5)))) = 1"
proof -
  let ?t = "snd (batadv_bla_check_bcast_duplist bla_example_k 77 1 (bla_example_start 5))"
  have "length (bla_bcast_duplist (bla_example_start 5)) = 16"
    by (simp add: bla_example_start_def batadv_bla_init_def bla_zero_def batadv_hash_new_def Let_def)
  have len: "length (bla_bcast_duplist ?t) = 16"
    by code_simp
  have "\<exists>e \<in> set (takeWhile (\<lambda>e. \<not> batadv_has_timed_out bla_example_k (dl_entrytime e) BATADV_DUPLIST_TIMEOUT) (duplist_view ?t)).
      dl_crc e = 77 \<and> dl_orig e \<noteq> 2"
    by code_simp
  then show ?thesis
    using bla_duplist_refines [OF len, of bla_example_k 77 2] by (simp add: Let_def)
qed

text \<open>Changing the address of the primary interface re-labels the own gateways in place, in the
  buckets of the old address. A look-up under the new address then misses them, and the
  next frame creates a second gateway with the same address and VLAN.\<close>

theorem bla_address_change_duplicates:
  "\<exists>k s e. bla_reach k s \<and> same_hashes k (be_k e)
    \<and> distinct (map gw_key (bla_gws s))
    \<and> \<not> distinct (map gw_key (bla_gws (snd (batadv_bla_rx e 7 8 0 False (batadv_bla_update_orig_address e 6 (Some 5) s)))))"
proof (intro exI conjI)
  show "bla_reach bla_example_k (bla_example_claimed 5)" by (rule example_claimed_reach)
  show "same_hashes bla_example_k (be_k (bla_example_env 6))" by simp
  show "distinct (map gw_key (bla_gws (bla_example_claimed 5)))"
    by code_simp
  show "\<not> distinct (map gw_key (bla_gws (snd (batadv_bla_rx (bla_example_env 6) 7 8 0 False
      (batadv_bla_update_orig_address (bla_example_env 6) 6 (Some 5) (bla_example_claimed 5))))))"
    by code_simp
qed

end
