(* ===== verification/Bitarray.thy ===== *)
theory Bitarray
  imports Bat_Prelude
begin

text \<open>
  Sequence numbers (the comparison macros of \<open>main.h\<close>) and the sliding window of
  \<open>bitarray.c\<close>. A window is a 64-bit bitmap relative to the newest sequence number:
  bit \<open>i\<close> says that the number \<open>last - i\<close> was received. The abstract state of a
  window is the set of the numbers it holds, \<open>received\<close>; every update of the bitmap
  is an insertion into that set followed by a cut to the window of the new newest
  number. The locale \<open>seqno_window\<close> is the interface that the OGM and the broadcast
  code rely on.
\<close>

unbundle bit_operations_syntax

section \<open>Comparing sequence numbers\<close>

abbreviation batadv_smallest_signed_int :: "'a :: len word" where
  "batadv_smallest_signed_int \<equiv> 2 ^ (LENGTH('a) - 1)"

definition batadv_seq_before :: "'a :: len word \<Rightarrow> 'a word \<Rightarrow> bool" where
  "batadv_seq_before x y \<longleftrightarrow> x - y > batadv_smallest_signed_int"

definition batadv_seq_after :: "'a :: len word \<Rightarrow> 'a word \<Rightarrow> bool" where
  "batadv_seq_after x y \<longleftrightarrow> batadv_seq_before y x"

section \<open>The window of \<open>bitarray.c\<close>\<close>

abbreviation BATADV_TQ_LOCAL_WINDOW_SIZE :: "'a :: numeral" where
  "BATADV_TQ_LOCAL_WINDOW_SIZE \<equiv> 64"

abbreviation BATADV_EXPECTED_SEQNO_RANGE :: "'a :: numeral" where
  "BATADV_EXPECTED_SEQNO_RANGE \<equiv> 65536"

type_synonym seq_bits = u64

definition batadv_bitmap_shift_left :: "seq_bits \<Rightarrow> s32 \<Rightarrow> seq_bits" where
  "batadv_bitmap_shift_left seq_bits n =
     (if sint n \<le> 0 \<or> sint n \<ge> BATADV_TQ_LOCAL_WINDOW_SIZE then seq_bits
      else push_bit (unat n) seq_bits)"

definition batadv_test_bit :: "seq_bits \<Rightarrow> u32 \<Rightarrow> u32 \<Rightarrow> bool" where
  "batadv_test_bit seq_bits last_seqno curr_seqno =
     (let diff = last_seqno - curr_seqno
      in if sint diff < 0 \<or> sint diff \<ge> BATADV_TQ_LOCAL_WINDOW_SIZE then False
         else bit seq_bits (unat diff))"

definition batadv_set_bit :: "seq_bits \<Rightarrow> s32 \<Rightarrow> seq_bits" where
  "batadv_set_bit seq_bits n =
     (if sint n < 0 \<or> sint n \<ge> BATADV_TQ_LOCAL_WINDOW_SIZE then seq_bits
      else Bit_Operations.set_bit (unat n) seq_bits)"

text \<open>
  The result pairs the new bitmap with the return value: whether the window moved.
\<close>

definition batadv_bit_get_packet :: "seq_bits \<Rightarrow> s32 \<Rightarrow> bool \<Rightarrow> seq_bits \<times> bool" where
  "batadv_bit_get_packet seq_bits seq_num_diff set_mark =
     (let d = sint seq_num_diff in
      if d \<le> 0 \<and> d > - BATADV_TQ_LOCAL_WINDOW_SIZE then
        (if set_mark then batadv_set_bit seq_bits (- seq_num_diff) else seq_bits, False)
      else if d > 0 \<and> d < BATADV_TQ_LOCAL_WINDOW_SIZE then
        (let shifted = batadv_bitmap_shift_left seq_bits seq_num_diff
         in (if set_mark then batadv_set_bit shifted 0 else shifted, True))
      else if d \<ge> BATADV_TQ_LOCAL_WINDOW_SIZE \<and> d < BATADV_EXPECTED_SEQNO_RANGE then
        (if set_mark then batadv_set_bit 0 0 else 0, True)
      else
        (if set_mark then batadv_set_bit 0 0 else 0, True))"

text \<open>\<open>bitmap_weight\<close> over the window, as the callers use it.\<close>

definition bitmap_weight :: "seq_bits \<Rightarrow> nat" where
  "bitmap_weight w = length (filter (bit w) [0..<BATADV_TQ_LOCAL_WINDOW_SIZE])"

section \<open>The abstract window\<close>

definition in_window :: "u32 \<Rightarrow> u32 \<Rightarrow> bool" where
  "in_window last_seqno s \<longleftrightarrow>
     0 \<le> sint (last_seqno - s) \<and> sint (last_seqno - s) < BATADV_TQ_LOCAL_WINDOW_SIZE"

definition received :: "seq_bits \<Rightarrow> u32 \<Rightarrow> u32 set" where
  "received bits last_seqno = {s. batadv_test_bit bits last_seqno s}"

text \<open>The callers move the newest number exactly when the window moved.\<close>

definition window_receive :: "seq_bits \<times> u32 \<Rightarrow> u32 \<Rightarrow> bool \<Rightarrow> seq_bits \<times> u32" where
  "window_receive w seqno mark =
     (let (bits', moved) = batadv_bit_get_packet (fst w) (seqno - snd w) mark
      in (bits', if moved then seqno else snd w))"

lemma test_bit_iff:
  "batadv_test_bit bits l s \<longleftrightarrow> in_window l s \<and> bit bits (unat (l - s))"
  by (auto simp: batadv_test_bit_def in_window_def Let_def)

lemma in_window_self [simp]: "in_window l l"
  by (simp add: in_window_def)

lemma received_subset_window: "s \<in> received bits l \<Longrightarrow> in_window l s"
  by (simp add: received_def test_bit_iff)

text \<open>Both readings of a distance inside the window agree.\<close>

lemma in_window_unat: "in_window l s \<Longrightarrow> unat (l - s) = nat (sint (l - s))"
  by (simp add: in_window_def unat_of_nonneg_sint)

lemma in_window_lt: "in_window l s \<Longrightarrow> unat (l - s) < 64"
  unfolding in_window_unat by (auto simp: in_window_def)

lemma received_zero [window_simps]: "received 0 l = {}"
  by (auto simp: received_def test_bit_iff)

lemma batadv_set_bit_self:
  assumes "in_window l seq"
  shows "received (batadv_set_bit bits (l - seq)) l = insert seq (received bits l)"
proof -
  have [simp]: "batadv_set_bit bits (l - seq) = Bit_Operations.set_bit (unat (l - seq)) bits"
    using assms by (auto simp: batadv_set_bit_def in_window_def)
  have "batadv_test_bit (batadv_set_bit bits (l - seq)) l s
      \<longleftrightarrow> s = seq \<or> batadv_test_bit bits l s" for s
  proof -
    have "unat (l - s) = unat (l - seq) \<longleftrightarrow> s = seq"
      by (simp add: unat_eq_unat_iff)
    moreover have "bit (Bit_Operations.set_bit (unat (l - seq)) bits) (unat (l - s))
      \<longleftrightarrow> unat (l - s) = unat (l - seq) \<and> unat (l - seq) < 64 \<or> bit bits (unat (l - s))"
      by (auto simp: bit_set_bit_iff)
    ultimately show ?thesis
      using assms in_window_lt[OF assms] by (auto simp: test_bit_iff)
  qed
  then show ?thesis
    by (auto simp: received_def)
qed

lemma received_shift:
  assumes "0 < sint d" and "sint d < 64"
  shows "received (push_bit (unat d) bits) (l + d) = {s \<in> received bits l. in_window (l + d) s}"
proof -
  have "batadv_test_bit (push_bit (unat d) bits) (l + d) s
      \<longleftrightarrow> batadv_test_bit bits l s \<and> in_window (l + d) s" for s
  proof (cases "in_window (l + d) s")
    case False
    then show ?thesis by (simp add: test_bit_iff)
  next
    case True
    let ?j = "l + d - s"
    have j: "0 \<le> sint ?j" "sint ?j < 64"
      using True by (auto simp: in_window_def)
    have "sint (?j + - d) = sint ?j - sint d"
      using j assms by (subst sint_add_fits) (auto simp: sint_minus_small32)
    then have k: "sint (l - s) = sint ?j - sint d"
      by (simp add: algebra_simps)
    have nd: "unat d = nat (sint d)" and nj: "unat ?j = nat (sint ?j)"
      using assms j by (simp_all add: unat_of_nonneg_sint)
    have lt: "unat ?j < LENGTH(64)"
      using nj j by simp
    have "bit (push_bit (unat d) bits) (unat ?j) \<longleftrightarrow> unat d \<le> unat ?j \<and> bit bits (unat ?j - unat d)"
      using lt by (simp add: bit_push_bit_iff)
    moreover have "in_window l s \<longleftrightarrow> unat d \<le> unat ?j"
      using k nd nj j assms by (auto simp: in_window_def)
    moreover have "unat (l - s) = unat ?j - unat d" if "unat d \<le> unat ?j"
      using that k nd nj j assms by (subst unat_of_nonneg_sint) auto
    ultimately show ?thesis
      using True by (auto simp: test_bit_iff)
  qed
  then show ?thesis
    by (auto simp: received_def)
qed

text \<open>A jump of a whole window or more leaves nothing of the old window in the new one.\<close>

lemma window_jump_disjoint:
  assumes "sint d \<le> - 64 \<or> 64 \<le> sint d" and "in_window l s"
  shows "\<not> in_window (l + d) s"
proof -
  have k: "0 \<le> sint (l - s)" "sint (l - s) < 64"
    using assms(2) by (auto simp: in_window_def)
  have eq: "l + d - s = (l - s) + d"
    by simp
  show ?thesis
  proof (cases "sint (l - s) + sint d < 2 ^ 31")
    case True
    then have "sint ((l - s) + d) = sint (l - s) + sint d"
      using k sint_32_bounds[of d] by (intro sint_add_fits) auto
    then show ?thesis
      unfolding in_window_def eq using assms(1) k by auto
  next
    case False
    then have "sint ((l - s) + d) = sint (l - s) + sint d - 2 ^ 32"
      by (intro sint_add_overflow32) auto
    then show ?thesis
      unfolding in_window_def eq using k sint_32_bounds[of d] by auto
  qed
qed

text \<open>
  The refinement of the bitmap operation: for every distance, positive or negative,
  small or not, the window afterwards holds what it held, cut to the new window, and
  the new number if it was to be marked.
\<close>

lemma received_window_receive:
  "(let (bits', last') = window_receive (bits, l) seq mark in
      received bits' last' =
        {s \<in> received bits l. in_window last' s} \<union> (if mark then {seq} else {})
      \<and> in_window last' seq)"
proof -
  define d where "d = seq - l"
  have seq: "seq = l + d" and neg: "- d = l - seq"
    by (simp_all add: d_def)
  consider (old) "sint d \<le> 0" "- 64 < sint d" | (new) "0 < sint d" "sint d < 64"
    | (far) "sint d \<le> - 64 \<or> 64 \<le> sint d"
    by linarith
  then show ?thesis
  proof cases
    case old
    have m: "sint (- d) = - sint d"
      using old by (intro sint_minus_small32) auto
    then have w: "in_window l seq"
      using old by (simp add: in_window_def neg [symmetric])
    have "window_receive (bits, l) seq mark = (if mark then batadv_set_bit bits (l - seq) else bits, l)"
      using old by (simp add: window_receive_def batadv_bit_get_packet_def d_def)
    then show ?thesis
      using w batadv_set_bit_self[OF w] by (auto dest: received_subset_window)
  next
    case new
    then have "window_receive (bits, l) seq mark =
      (let b = push_bit (unat d) bits in if mark then batadv_set_bit b (seq - seq) else b, seq)"
      by (simp add: window_receive_def batadv_bit_get_packet_def d_def [symmetric] Let_def
          batadv_bitmap_shift_left_def)
    then show ?thesis
      using received_shift[OF new, of bits l] batadv_set_bit_self[of seq seq "push_bit (unat d) bits"]
      by (auto simp: Let_def seq [symmetric])
  next
    case far
    then have "window_receive (bits, l) seq mark = (if mark then batadv_set_bit 0 (seq - seq) else 0, seq)"
      by (auto simp: window_receive_def batadv_bit_get_packet_def d_def [symmetric] Let_def)
    then show ?thesis
      using window_jump_disjoint[OF far, of l] batadv_set_bit_self[of seq seq 0] received_zero[of seq]
      by (auto simp: seq [symmetric] dest: received_subset_window)
  qed
qed

text \<open>The weight of the bitmap is the number of sequence numbers the window holds.\<close>

lemma received_image: "received bits l = (\<lambda>i. l - of_nat i) ` {i. i < 64 \<and> bit bits i}"
proof (rule set_eqI)
  fix s
  have off: "l - of_nat (unat (l - s)) = s"
    by simp
  have fwd: "unat (l - (l - of_nat i)) = i \<and> in_window l (l - of_nat i)" if "i < 64" for i
  proof -
    have "sint (of_nat i :: s32) = int i"
      using that by (simp add: signed_of_nat signed_take_bit_int_eq_self)
    then show ?thesis
      using that by (simp add: in_window_def unat_of_nat)
  qed
  show "s \<in> received bits l \<longleftrightarrow> s \<in> (\<lambda>i. l - of_nat i) ` {i. i < 64 \<and> bit bits i}"
  proof
    assume "s \<in> received bits l"
    then have "unat (l - s) < 64" "bit bits (unat (l - s))"
      by (auto simp: received_def test_bit_iff in_window_lt)
    then show "s \<in> (\<lambda>i. l - of_nat i) ` {i. i < 64 \<and> bit bits i}"
      using off by (metis (mono_tags, lifting) imageI mem_Collect_eq)
  next
    assume "s \<in> (\<lambda>i. l - of_nat i) ` {i. i < 64 \<and> bit bits i}"
    then show "s \<in> received bits l"
      using fwd by (auto simp: received_def test_bit_iff)
  qed
qed

lemma bitmap_weight_card: "bitmap_weight bits = card (received bits l)"
proof -
  have "inj_on (\<lambda>i. l - of_nat i :: u32) {i. i < 64 \<and> bit bits i}"
    by (rule inj_onI) (auto simp: unat_of_nat dest!: arg_cong [where f = unat])
  then have "card (received bits l) = card {i. i < 64 \<and> bit bits i}"
    by (simp add: received_image card_image)
  also have "{i. i < 64 \<and> bit bits i} = set (filter (bit bits) [0..<64])"
    by auto
  also have "card \<dots> = bitmap_weight bits"
    unfolding bitmap_weight_def by (rule distinct_card) simp
  finally show ?thesis by simp
qed

lemma bitmap_weight_le: "bitmap_weight bits \<le> 64"
  unfolding bitmap_weight_def by (rule order_trans [OF length_filter_le]) simp

section \<open>The window as an interface\<close>

text \<open>
  What the OGM code and the broadcast code rely on: a window that answers membership,
  and a reception that inserts a number and cuts to the window of the newest one.
\<close>

locale seqno_window =
  fixes holds :: "'w \<Rightarrow> u32 \<Rightarrow> bool"
    and recv :: "'w \<Rightarrow> u32 \<Rightarrow> bool \<Rightarrow> 'w"
    and newest :: "'w \<Rightarrow> u32"
  assumes holds_recv:
    "holds (recv w s m) t \<longleftrightarrow> holds w t \<and> in_window (newest (recv w s m)) t \<or> m \<and> t = s"
    and newest_recv: "newest (recv w s m) = newest w \<or> newest (recv w s m) = s"
    and recv_in_window: "in_window (newest (recv w s m)) s"
begin

lemma holds_marked: "holds (recv w s True) s"
  by (simp add: holds_recv)

lemma unmarked_adds_nothing: "holds (recv w s False) t \<Longrightarrow> holds w t"
  by (simp add: holds_recv)

lemma holds_kept:
  "holds w t \<Longrightarrow> in_window (newest (recv w s m)) t \<Longrightarrow> holds (recv w s m) t"
  by (simp add: holds_recv)

lemma run_sound:
  "holds (fold (\<lambda>s w. recv w s True) ss w) t \<Longrightarrow> holds w t \<or> t \<in> set ss"
proof (induction ss arbitrary: w)
  case Nil
  then show ?case by simp
next
  case (Cons s ss)
  then have "holds (recv w s True) t \<or> t \<in> set ss" by simp
  then show ?case by (auto simp: holds_recv)
qed

lemma run_newest: "newest (fold (\<lambda>s w. recv w s True) ss w) \<in> insert (newest w) (set ss)"
proof (induction ss arbitrary: w)
  case Nil
  then show ?case by simp
next
  case (Cons s ss)
  from Cons [of "recv w s True"] newest_recv [of w s True] show ?case by auto
qed

text \<open>A number stays a duplicate for as long as no later number pushes it out.\<close>

lemma run_keeps:
  "holds w t \<Longrightarrow>
   \<forall>i < length ss. in_window (newest (fold (\<lambda>s w. recv w s True) (take (Suc i) ss) w)) t \<Longrightarrow>
   holds (fold (\<lambda>s w. recv w s True) ss w) t"
proof (induction ss arbitrary: w)
  case Nil
  then show ?case by simp
next
  case (Cons s ss)
  have "in_window (newest (recv w s True)) t"
    using Cons.prems(2) by (auto dest: spec [where x = 0])
  then have "holds (recv w s True) t"
    using Cons.prems(1) by (rule holds_kept [rotated])
  moreover have "\<forall>i < length ss. in_window
      (newest (fold (\<lambda>s w. recv w s True) (take (Suc i) ss) (recv w s True))) t"
    using Cons.prems(2) by (auto dest: spec [where x = "Suc _"])
  ultimately show ?case
    using Cons.IH by simp
qed

end

interpretation bitwin: seqno_window
  "\<lambda>w. batadv_test_bit (fst w) (snd w)" window_receive snd
proof
  fix w :: "seq_bits \<times> u32" and s t m
  obtain b l where w: "w = (b, l)" by (cases w)
  obtain b' l' where w': "window_receive (b, l) s m = (b', l')"
    by (cases "window_receive (b, l) s m")
  have "received b' l' = {s \<in> received b l. in_window l' s} \<union> (if m then {s} else {}) \<and> in_window l' s"
    using received_window_receive[of b l s m] by (simp add: w')
  then have "t \<in> received b' l' \<longleftrightarrow> t \<in> received b l \<and> in_window l' t \<or> m \<and> t = s" and "in_window l' s"
    by auto
  then show "batadv_test_bit (fst (window_receive w s m)) (snd (window_receive w s m)) t \<longleftrightarrow>
      batadv_test_bit (fst w) (snd w) t \<and> in_window (snd (window_receive w s m)) t \<or> m \<and> t = s"
    and "in_window (snd (window_receive w s m)) s"
    by (auto simp: w w' received_def)
  show "snd (window_receive w s m) = snd w \<or> snd (window_receive w s m) = s"
    by (simp add: window_receive_def split: prod.split)
qed

section \<open>Sequence number comparison\<close>

lemma unat_two_power:
  "k < LENGTH('a) \<Longrightarrow> unat (2 ^ k :: 'a :: len word) = 2 ^ k"
  using unat_of_nat [of "2 ^ k", where ?'a = 'a] by simp

lemma seq_before_offset:
  fixes x y :: "'a :: len word"
  shows "batadv_seq_before x y \<longleftrightarrow> 0 < unat (y - x) \<and> unat (y - x) < 2 ^ (LENGTH('a) - 1)"
proof -
  let ?h = "2 ^ (LENGTH('a) - 1) :: nat"
  have two: "2 ^ LENGTH('a) = 2 * ?h"
    by (metis Suc_diff_1 len_gt_0 power_Suc)
  have h: "unat (2 ^ (LENGTH('a) - 1) :: 'a word) = ?h"
    by (rule unat_two_power) simp
  have b: "unat x < 2 * ?h" "unat y < 2 * ?h"
    using unsigned_less [of x, where ?'a = nat] unsigned_less [of y, where ?'a = nat] two by auto
  have "batadv_seq_before x y \<longleftrightarrow> ?h < unat (x - y)"
    by (simp only: batadv_seq_before_def word_less_nat_alt h)
  then show ?thesis
    using b unfolding unat_sub_if_size word_size two by auto
qed

lemma seq_before_asym:
  "batadv_seq_before x y \<Longrightarrow> \<not> batadv_seq_before y (x :: 'a :: len word)"
  using unat_two_power [of "LENGTH('a) - 1", where ?'a = 'a]
  by (auto simp: seq_before_offset [of x y] batadv_seq_before_def [of y x] word_less_nat_alt)


section \<open>Properties\<close>

text \<open>C21: The bitmap implements a set of received sequence numbers: for every distance between the
  new number and the newest one, forwards or backwards, inside the window, far ahead or a
  restart of the peer, the window afterwards holds what it held and what still lies within
  64 numbers of the newest number, together with the new number if it is to be marked, and
  the weight that the bitmap reports is the number of the numbers it holds.\<close>

theorem window_implements_set:
  "let (bits', last') = window_receive (bits, l) seq mark in
     received bits' last' = {s \<in> received bits l. in_window last' s} \<union> (if mark then {seq} else {})
     \<and> in_window last' seq \<and> bitmap_weight bits' = card (received bits' last') \<and> bitmap_weight bits' \<le> 64"
proof -
  obtain b' l' where w: "window_receive (bits, l) seq mark = (b', l')"
    by (cases "window_receive (bits, l) seq mark")
  show ?thesis
    using received_window_receive [of bits l seq mark] bitmap_weight_card [of b' l'] bitmap_weight_le [of b']
    unfolding w by simp
qed

text \<open>Comparison modulo the word size: \<open>x\<close> is before \<open>y\<close> exactly when \<open>y\<close> is reached from \<open>x\<close>
  by fewer than half the numbers of the type, so of two numbers at most one is before the
  other; two numbers exactly half the range apart are not comparable.\<close>

theorem seq_before_serial:
  fixes x y :: "'a :: len word"
  shows "(batadv_seq_before x y \<longleftrightarrow> (\<exists>k. 0 < k \<and> k < 2 ^ (LENGTH('a) - 1) \<and> y = x + of_nat k))
    \<and> \<not> (batadv_seq_before x y \<and> batadv_seq_after x y)"
proof -
  have lt: "(2 :: nat) ^ (LENGTH('a) - 1) < 2 ^ LENGTH('a)"
    by simp
  have "0 < unat (y - x) \<and> unat (y - x) < 2 ^ (LENGTH('a) - 1) \<longleftrightarrow>
      (\<exists>k. 0 < k \<and> k < 2 ^ (LENGTH('a) - 1) \<and> y = x + of_nat k)"
  proof
    assume "0 < unat (y - x) \<and> unat (y - x) < 2 ^ (LENGTH('a) - 1)"
    then show "\<exists>k. 0 < k \<and> k < 2 ^ (LENGTH('a) - 1) \<and> y = x + of_nat k"
      by (intro exI [of _ "unat (y - x)"]) simp
  next
    assume "\<exists>k. 0 < k \<and> k < 2 ^ (LENGTH('a) - 1) \<and> y = x + of_nat k"
    then obtain k where k: "0 < k" "k < 2 ^ (LENGTH('a) - 1)" "y = x + of_nat k"
      by blast
    have "k < 2 ^ LENGTH('a)"
      using k(2) lt by (rule less_trans)
    then have "unat (y - x) = k"
      using k(3) by (simp add: unat_of_nat)
    then show "0 < unat (y - x) \<and> unat (y - x) < 2 ^ (LENGTH('a) - 1)"
      using k by simp
  qed
  moreover have "\<not> (batadv_seq_before x y \<and> batadv_seq_after x y)"
    using seq_before_asym [of x y] by (auto simp: batadv_seq_after_def)
  ultimately show ?thesis
    using seq_before_offset [of x y] by blast
qed

end
