(* ===== verification/Mesh_State.thy ===== *)
theory Mesh_State
  imports Fragmentation Bitarray Bla
begin

text \<open>
  The state that originators, routing and B.A.T.M.A.N. IV share, after \<open>types.h\<close>.

  Objects that the code shares by pointer live in stores: a pointer to an originator, a
  neighbour or a hard interface is the index of its slot, \<open>None\<close> the NULL pointer
  (\<open>BATADV_IF_DEFAULT\<close> for an outgoing interface). The hash table of originators holds
  the pair of the address, which is the first member of \<open>struct batadv_orig_node\<close> and
  never changes, and the index.

  An unlinked object stays in its store, as a pointer to it may still be held: reference
  counts only decide when memory is reclaimed and are left out. \<open>hi_alive\<close> is the one
  test of a counter that decides something, \<open>kref_get_unless_zero\<close> on an interface.
  \<open>bp_stray\<close> is what a read outside an array of counters yields. Every allocation takes its outcome from \<open>bp_allocs\<close> (an exhausted list means success),
  every random number from \<open>bp_rands\<close>. Calls into components that are not part of this
  model are recorded in \<open>bp_calls\<close>, in their order.
\<close>

section \<open>Constants\<close>

abbreviation BATADV_TQ_MAX_VALUE :: "'a :: numeral" where "BATADV_TQ_MAX_VALUE \<equiv> 255"
abbreviation BATADV_JITTER :: "'a :: numeral" where "BATADV_JITTER \<equiv> 20"
abbreviation BATADV_TTL :: "'a :: numeral" where "BATADV_TTL \<equiv> 50"
abbreviation BATADV_PURGE_TIMEOUT :: "'a :: numeral" where "BATADV_PURGE_TIMEOUT \<equiv> 200000"
abbreviation BATADV_TQ_GLOBAL_WINDOW_SIZE :: "'a :: numeral" where
  "BATADV_TQ_GLOBAL_WINDOW_SIZE \<equiv> 5"
abbreviation BATADV_MAX_AGGREGATION_BYTES :: "'a :: numeral" where
  "BATADV_MAX_AGGREGATION_BYTES \<equiv> 512"
abbreviation BATADV_MAX_AGGREGATION_MS :: "'a :: numeral" where
  "BATADV_MAX_AGGREGATION_MS \<equiv> 100"
abbreviation BATADV_RESET_PROTECTION_MS :: "'a :: numeral" where
  "BATADV_RESET_PROTECTION_MS \<equiv> 30000"
abbreviation BATADV_TQ_SIMILARITY_THRESHOLD :: "'a :: numeral" where
  "BATADV_TQ_SIMILARITY_THRESHOLD \<equiv> 50"
abbreviation BATADV_BATMAN_QUEUE_LEN :: "'a :: numeral" where
  "BATADV_BATMAN_QUEUE_LEN \<equiv> 256"

section \<open>Interfaces\<close>

datatype batadv_hard_if_state =
    BATADV_IF_NOT_IN_USE
  | BATADV_IF_TO_BE_REMOVED
  | BATADV_IF_INACTIVE
  | BATADV_IF_ACTIVE
  | BATADV_IF_TO_BE_ACTIVATED
  | BATADV_IF_I_WANT_YOU

record batadv_hardif_neigh_node =
  hn_addr :: mac
  hn_last_seen :: u64
  hn_refcount :: nat
  hn_throughput :: u64
  hn_elp_interval :: u32
  hn_elp_latest_seqno :: u32
  hn_last_unicast_tx :: u64

record batadv_hard_iface =
  hi_if_num :: int
  hi_if_status :: batadv_hard_if_state
  hi_dev_addr :: mac
  hi_num_bcasts :: u8
  hi_wifi :: bool
  hi_soft_iface :: "nat option"
  hi_alive :: bool
  hi_ogm_buff :: "u8 list"
  hi_ogm_seqno :: u32
  hi_neigh_list :: "batadv_hardif_neigh_node list"
  hi_up :: bool
  hi_mtu :: nat
  hi_elp_interval :: u32
  hi_elp_seqno :: u32
  hi_elp_skb :: "u8 list option"
  hi_throughput_override :: u32
  hi_v_flags :: u8

section \<open>Neighbours and originators\<close>

record batadv_neigh_ifinfo =
  ni_if_outgoing :: "nat option"
  ni_tq_recv :: "u8 list"
  ni_tq_index :: u8
  ni_tq_avg :: u8
  ni_real_bits :: seq_bits
  ni_real_packet_count :: u8
  ni_last_ttl :: u8
  ni_throughput :: u32
  ni_last_seqno :: u32

record batadv_neigh_node =
  nn_orig_node :: nat
  nn_addr :: mac
  nn_ifinfo_list :: "batadv_neigh_ifinfo list"
  nn_if_incoming :: nat
  nn_last_seen :: u64

record batadv_orig_ifinfo =
  oi_if_outgoing :: "nat option"
  oi_router :: "nat option"
  oi_last_real_seqno :: u32
  oi_last_ttl :: u8
  oi_last_seqno_forwarded :: u32
  oi_batman_seqno_reset :: u64

record batadv_orig_node_vlan =
  ov_vid :: vid
  ov_crc :: u32
  ov_num_entries :: int

text \<open>
  \<open>on_last_bonding_candidate\<close> names the \<open>orig_ifinfo\<close> by its outgoing interface: a list
  has at most one for each, and the pointer is cleared when the entry is unlinked.
  \<open>on_bcast_own_freed\<close> says that \<open>bcast_own\<close> points to memory that was freed.
\<close>

record batadv_nc_node =
  nc_addr :: mac
  nc_orig_node :: nat
  nc_last_seen :: u64

record batadv_orig_node =
  on_orig :: mac
  on_ifinfo_list :: "batadv_orig_ifinfo list"
  on_last_bonding_candidate :: "nat option option"
  on_last_seen :: u64
  on_bcast_seqno_reset :: u64
  on_capabilities :: u64
  on_bcast_bits :: seq_bits
  on_last_bcast_seqno :: u32
  on_last_ttvn :: u8
  on_neigh_list :: "nat list"
  on_vlan_list :: "batadv_orig_node_vlan list"
  on_fragments :: "batadv_frag_table_entry list"
  on_bcast_own :: "seq_bits list"
  on_bcast_own_sum :: "u8 list"
  on_bcast_own_freed :: bool
  on_capa_initialized :: u64
  on_tt_buff :: "u8 list option"
  on_tt_buff_len :: u16
  on_dat_addr :: u16
  on_mcast_flags :: u8
  on_in_coding_list :: "batadv_nc_node list"
  on_out_coding_list :: "batadv_nc_node list"

section \<open>The mesh\<close>

text \<open>
  A packet in the forwarding queue: \<open>fw_skb\<close> is the data of its buffer, \<open>fw_room\<close> the
  room behind it.
\<close>

record batadv_forw_packet =
  fw_send_time :: u64
  fw_own :: bool
  fw_skb :: "u8 list"
  fw_room :: nat
  fw_packet_len :: u16
  fw_direct_link_flags :: u32
  fw_num_packets :: u8
  fw_if_incoming :: nat
  fw_if_outgoing :: nat

text \<open>A broadcast waiting for its next repetition; its outgoing interface is always NULL.\<close>

record batadv_forw_bcast =
  bf_skb :: "u8 list"
  bf_if_incoming :: nat
  bf_num_packets :: u8

text \<open>
  TVLV containers wait for the next OGM; \<open>tc_value\<close> is the content behind the header. A
  handler is registered for a type and version; which of its two callbacks are set is all
  that the table knows of them, what they do is an argument where they are called.
\<close>

record batadv_tvlv_hdr =
  th_type :: u8
  th_version :: u8
  th_len :: u16

record batadv_tvlv_container =
  tc_hdr :: batadv_tvlv_hdr
  tc_value :: "u8 list"

record batadv_tvlv_handler =
  hd_type :: u8
  hd_version :: u8
  hd_flags :: u8
  hd_ogm_handler :: bool
  hd_unicast_handler :: bool

section \<open>The translation table\<close>

text \<open>
  Clients behind this node and behind other nodes. The entries are the elements of two hash
  tables; \<open>oe_orig_node\<close> points to an originator that announces the client. The buffers of
  change sets are kept as the bytes that are sent.
\<close>

record batadv_tt_common_entry =
  tt_addr :: mac
  tt_vid :: vid
  tt_flags :: u16
  tt_added_at :: u64

record batadv_tt_local_entry =
  tl_common :: batadv_tt_common_entry
  tl_last_seen :: u64

record batadv_tt_orig_list_entry =
  oe_orig_node :: nat
  oe_ttvn :: u8

record batadv_tt_global_entry =
  tg_common :: batadv_tt_common_entry
  tg_orig_list :: "batadv_tt_orig_list_entry list"
  tg_orig_list_count :: int
  tg_roam_at :: u64

record batadv_tvlv_tt_change =
  ch_flags :: u8
  ch_reserved :: "24 word"
  ch_addr :: mac
  ch_vid :: vid

record batadv_tt_req_node =
  rq_addr :: mac
  rq_issued_at :: u64

record batadv_tt_roam_node =
  rm_addr :: mac
  rm_counter :: int
  rm_first_time :: u64

record batadv_priv_tt =
  tt_vn :: s32
  tt_ogm_append_cnt :: int
  tt_local_changes :: int
  tt_changes_list :: "batadv_tvlv_tt_change list"
  tt_local_hash :: "batadv_tt_local_entry hashtable option"
  tt_global_hash :: "batadv_tt_global_entry hashtable option"
  tt_req_list :: "batadv_tt_req_node list"
  tt_roam_list :: "batadv_tt_roam_node list"
  tt_last_changeset :: "u8 list option"
  tt_last_changeset_len :: u16

text \<open>
  A VLAN on the soft interface. Its reference count decides when it leaves the list:
  every local client of the VLAN holds a reference.
\<close>

record batadv_softif_vlan =
  sv_vid :: vid
  sv_kobj :: bool
  sv_ap_isolation :: bool
  sv_crc :: u32
  sv_num_entries :: int
  sv_refcount :: nat

section \<open>Network coding, the ARP cache, gateways and multicast\<close>

text \<open>
  A frame: the addresses of its Ethernet header, the data that is worked on, its priority, its
  mark for the firewall, and whether it was decoded. The data starts behind the Ethernet header of a
  frame from the mesh; it starts with the header of a frame from the local network. A packet of network coding keeps one, with the neighbour that it was
  to be sent to.
\<close>

record sk_buff =
  sk_source :: mac
  sk_dest :: mac
  sk_data :: "u8 list"
  sk_priority :: u32
  sk_mark :: u32
  sk_decoded :: bool

record batadv_nc_packet =
  np_packet_id :: u32
  np_timestamp :: u64
  np_neigh_node :: "nat option"
  np_skb :: sk_buff

record batadv_nc_path =
  np_prev_hop :: mac
  np_next_hop :: mac
  np_last_valid :: u64
  np_packet_list :: "batadv_nc_packet list"

record batadv_priv_nc =
  nc_min_tq :: u8
  nc_max_fwd_delay :: u32
  nc_max_buffer_time :: u32
  nc_timestamp_fwd_flush :: u64
  nc_timestamp_sniffed_purge :: u64
  nc_coding_hash :: "batadv_nc_path hashtable option"
  nc_decoding_hash :: "batadv_nc_path hashtable option"

record batadv_dat_entry =
  de_ip :: u32
  de_mac_addr :: mac
  de_vid :: vid
  de_last_update :: u64

record batadv_priv_dat =
  dat_addr :: u16
  dat_hash :: "batadv_dat_entry hashtable option"

record batadv_gw_node =
  gn_orig_node :: nat
  gn_bandwidth_down :: u32
  gn_bandwidth_up :: u32

text \<open>A pointer to a gateway is the index of its slot, as one that left the list may still be selected.\<close>

record batadv_priv_gw =
  gw_nodes :: "nat \<Rightarrow> batadv_gw_node"
  gw_next :: nat
  gw_list :: "nat list"
  gw_curr :: "nat option"
  gw_bandwidth_down :: u32
  gw_bandwidth_up :: u32
  gw_reselect :: bool

record batadv_priv_mcast =
  mc_mla_list :: "mac list"
  mc_want_all_unsnoopables_list :: "nat list"
  mc_want_all_ipv4_list :: "nat list"
  mc_want_all_ipv6_list :: "nat list"
  mc_flags :: u8
  mc_enabled :: bool
  mc_num_disabled :: int
  mc_num_want_all_unsnoopables :: int
  mc_num_want_all_ipv4 :: int
  mc_num_want_all_ipv6 :: int

record batadv_priv_bat_v =
  bv_ogm_buff :: "u8 list"
  bv_ogm_seqno :: u32

section \<open>The mesh interface\<close>

datatype batadv_mesh_state =
    BATADV_MESH_INACTIVE
  | BATADV_MESH_ACTIVE
  | BATADV_MESH_DEACTIVATING

datatype batadv_uev_action =
    BATADV_UEV_ADD
  | BATADV_UEV_DEL
  | BATADV_UEV_CHANGE

text \<open>What the model asks of components outside it.\<close>

datatype mesh_call =
    Tt_Global_Del_Orig nat
  | Tt_Local_Commit_Changes
  | Tvlv_Ogm_Receive "u8 list" nat
  | Tvlv_Ogm_Handler u8 u8 nat u8 "u8 list"
  | Gw_Node_Delete nat
  | Gw_Election
  | Send_Broadcast_Skb "u8 list" nat
  | Send_Skb_To_Orig "u8 list" nat "nat option"
  | Dev_Queue_Xmit nat mac "u8 list"
  | Netif_Rx "u8 list" u32
  | Throw_Uevent batadv_uev_action "mac option"
  | Socket_Receive_Packet "u8 list"

record batadv_priv =
  bp_origs :: "nat \<Rightarrow> batadv_orig_node"
  bp_next_orig :: nat
  bp_neighs :: "nat \<Rightarrow> batadv_neigh_node"
  bp_next_neigh :: nat
  bp_hardifs :: "nat \<Rightarrow> batadv_hard_iface"
  bp_hardif_list :: "nat list"
  bp_soft_iface :: nat
  bp_primary_if :: "nat option"
  bp_num_ifaces :: nat
  bp_orig_hash :: "(mac \<times> nat) hashtable option"
  bp_hop_penalty :: s32
  bp_orig_interval :: u32
  bp_aggregated_ogms :: bool
  bp_bonding :: bool
  bp_mesh_state :: batadv_mesh_state
  bp_forw_bcast_list :: "batadv_forw_bcast list"
  bp_bcast_queue_left :: nat
  bp_forw_bat_list :: "batadv_forw_packet list"
  bp_batman_queue_left :: nat
  bp_tvlv_containers :: "batadv_tvlv_container list"
  bp_tvlv_handlers :: "batadv_tvlv_handler list"
  bp_tt :: batadv_priv_tt
  bp_softif_vlan_list :: "batadv_softif_vlan list"
  bp_soft_addr :: mac
  bp_mtu :: nat
  bp_packet_size_max :: int
  bp_isolation_mark :: u32
  bp_isolation_mark_mask :: u32
  bp_wifi_dev :: "nat \<Rightarrow> bool"
  bp_bla :: batadv_priv_bla
  bp_bridge_loop_avoidance :: bool
  bp_skb_slack :: nat
  bp_algo_iv :: bool
  bp_fragmentation :: bool
  bp_frag_seqno :: u32
  bp_bcast_seqno :: u32
  bp_network_coding :: bool
  bp_nc :: batadv_priv_nc
  bp_distributed_arp_table :: bool
  bp_dat :: batadv_priv_dat
  bp_gw_mode :: u8
  bp_gw_sel_class :: u32
  bp_gw :: batadv_priv_gw
  bp_multicast_mode :: bool
  bp_mcast :: batadv_priv_mcast
  bp_bat_v :: batadv_priv_bat_v
  bp_stray :: u8
  bp_allocs :: "bool list"
  bp_rands :: "u32 list"
  bp_xmits :: "int list"
  bp_calls :: "mesh_call list"
  bp_panic :: bool

section \<open>Access\<close>

abbreviation orig_of :: "batadv_priv \<Rightarrow> nat \<Rightarrow> batadv_orig_node" where
  "orig_of s i \<equiv> bp_origs s i"
abbreviation neigh_of :: "batadv_priv \<Rightarrow> nat \<Rightarrow> batadv_neigh_node" where
  "neigh_of s i \<equiv> bp_neighs s i"
abbreviation hardif_of :: "batadv_priv \<Rightarrow> nat \<Rightarrow> batadv_hard_iface" where
  "hardif_of s i \<equiv> bp_hardifs s i"

definition orig_mod :: "nat \<Rightarrow> (batadv_orig_node \<Rightarrow> batadv_orig_node) \<Rightarrow> batadv_priv \<Rightarrow> batadv_priv" where
  "orig_mod i f s = s\<lparr>bp_origs := (bp_origs s)(i := f (bp_origs s i))\<rparr>"

definition neigh_mod :: "nat \<Rightarrow> (batadv_neigh_node \<Rightarrow> batadv_neigh_node) \<Rightarrow> batadv_priv \<Rightarrow> batadv_priv" where
  "neigh_mod i f s = s\<lparr>bp_neighs := (bp_neighs s)(i := f (bp_neighs s i))\<rparr>"

definition hardif_mod :: "nat \<Rightarrow> (batadv_hard_iface \<Rightarrow> batadv_hard_iface) \<Rightarrow> batadv_priv \<Rightarrow> batadv_priv" where
  "hardif_mod i f s = s\<lparr>bp_hardifs := (bp_hardifs s)(i := f (bp_hardifs s i))\<rparr>"

definition call :: "mesh_call \<Rightarrow> batadv_priv \<Rightarrow> batadv_priv" where
  "call c s = s\<lparr>bp_calls := bp_calls s @ [c]\<rparr>"

definition kzalloc :: "batadv_priv \<Rightarrow> bool \<times> batadv_priv" where
  "kzalloc s = (case bp_allocs s of [] \<Rightarrow> (True, s) | ok # rest \<Rightarrow> (ok, s\<lparr>bp_allocs := rest\<rparr>))"

lemma kzalloc_eq:
  "kzalloc s = ((case bp_allocs s of [] \<Rightarrow> True | ok # _ \<Rightarrow> ok), s\<lparr>bp_allocs := tl (bp_allocs s)\<rparr>)"
  by (simp add: kzalloc_def split: list.split)

definition prandom_u32 :: "batadv_priv \<Rightarrow> u32 \<times> batadv_priv" where
  "prandom_u32 s = (case bp_rands s of [] \<Rightarrow> (0, s) | r # rest \<Rightarrow> (r, s\<lparr>bp_rands := rest\<rparr>))"

text \<open>The environment at another moment: the hash function stays, the clock does not.\<close>

definition same_hash :: "kenv \<Rightarrow> kenv \<Rightarrow> bool" where
  "same_hash k k' \<longleftrightarrow> k_jhash k' = k_jhash k"

text \<open>Update the entries of a list that satisfy a test, the first one only.\<close>

fun update_first :: "('a \<Rightarrow> bool) \<Rightarrow> ('a \<Rightarrow> 'a) \<Rightarrow> 'a list \<Rightarrow> 'a list" where
  "update_first p f [] = []"
| "update_first p f (x # xs) = (if p x then f x # xs else x # update_first p f xs)"

text \<open>Does the code see the interface as part of this mesh and up?\<close>

definition mesh_iface :: "batadv_priv \<Rightarrow> nat \<Rightarrow> bool" where
  "mesh_iface s i \<longleftrightarrow>
     hi_if_status (hardif_of s i) = BATADV_IF_ACTIVE \<and>
     hi_soft_iface (hardif_of s i) = Some (bp_soft_iface s)"

definition iface_going_down :: "batadv_priv \<Rightarrow> nat \<Rightarrow> bool" where
  "iface_going_down s i \<longleftrightarrow>
     hi_if_status (hardif_of s i) = BATADV_IF_INACTIVE \<or>
     hi_if_status (hardif_of s i) = BATADV_IF_NOT_IN_USE \<or>
     hi_if_status (hardif_of s i) = BATADV_IF_TO_BE_REMOVED"

lemma orig_mod_simps [store_simps]:
  "orig_of (orig_mod i f s) j = (if j = i then f (orig_of s i) else orig_of s j)"
  "neigh_of (orig_mod i f s) = neigh_of s"
  "hardif_of (orig_mod i f s) = hardif_of s"
  by (auto simp: orig_mod_def)

lemma neigh_mod_simps [store_simps]:
  "neigh_of (neigh_mod i f s) j = (if j = i then f (neigh_of s i) else neigh_of s j)"
  "orig_of (neigh_mod i f s) = orig_of s"
  "hardif_of (neigh_mod i f s) = hardif_of s"
  by (auto simp: neigh_mod_def)

lemma hardif_mod_simps [store_simps]:
  "hardif_of (hardif_mod i f s) j = (if j = i then f (hardif_of s i) else hardif_of s j)"
  "orig_of (hardif_mod i f s) = orig_of s"
  "neigh_of (hardif_mod i f s) = neigh_of s"
  by (auto simp: hardif_mod_def)

lemma find_update_first:
  "(\<And>x. p (f x) = p x) \<Longrightarrow>
   find p (update_first p f xs) = map_option f (find p xs)"
  by (induction xs) auto

lemma find_update_first_other:
  "(\<And>x. p x \<Longrightarrow> \<not> q x) \<Longrightarrow> (\<And>x. p x \<Longrightarrow> \<not> q (f x)) \<Longrightarrow>
   find q (update_first p f xs) = find q xs"
  by (induction xs) auto

lemma set_update_first: "y \<in> set (update_first p f xs) \<Longrightarrow> y \<in> set xs \<or> (\<exists>x \<in> set xs. p x \<and> y = f x)"
  by (induction xs) (auto split: if_splits)

lemma map_update_first: "(\<And>x. g (f x) = g x) \<Longrightarrow> map g (update_first p f xs) = map g xs"
  by (induction xs) auto

end
