(* ===== verification/Originator.thy ===== *)
theory Originator
  imports Mesh_State
begin

text \<open>
  Finding and creating originators, neighbours and their per-interface information:
  the first half of \<open>originator.c\<close>, and \<open>originator.h\<close>. The functions that search and
  possibly create return whether there is an object afterwards. The hash table of
  originators is an instance of the interface \<open>hash_key\<close>.
\<close>

section \<open>The originator table\<close>

definition batadv_choose_orig :: "kenv \<Rightarrow> mac \<Rightarrow> u32 \<Rightarrow> u32" where
  "batadv_choose_orig k data sz = k_jhash k (mac_bytes data) 0 mod sz"

definition batadv_compare_orig :: "mac \<times> nat \<Rightarrow> mac \<Rightarrow> bool" where
  "batadv_compare_orig node data2 = batadv_compare_eth (fst node) data2"

definition batadv_orig_hash_find :: "kenv \<Rightarrow> batadv_priv \<Rightarrow> mac \<Rightarrow> nat option" where
  "batadv_orig_hash_find k s data =
     (case bp_orig_hash s of
        None \<Rightarrow> None
      | Some h \<Rightarrow> map_option snd (hash_lookup h batadv_compare_orig (batadv_choose_orig k) data))"

definition batadv_originator_init :: "batadv_priv \<Rightarrow> int \<times> batadv_priv" where
  "batadv_originator_init s =
     (if bp_orig_hash s \<noteq> None then (0, s)
      else
        (let (ok, s) = kzalloc s;
             s = s\<lparr>bp_orig_hash := batadv_hash_new ok 1024\<rparr>
         in if bp_orig_hash s = None then (- 12, s) else (0, s)))"

definition batadv_originator_free :: "batadv_priv \<Rightarrow> batadv_priv" where
  "batadv_originator_free s = s\<lparr>bp_orig_hash := None\<rparr>"

section \<open>Per-interface information\<close>

definition batadv_orig_ifinfo_get ::
  "batadv_priv \<Rightarrow> nat \<Rightarrow> nat option \<Rightarrow> batadv_orig_ifinfo option" where
  "batadv_orig_ifinfo_get s orig_node if_outgoing =
     find (\<lambda>tmp. oi_if_outgoing tmp = if_outgoing) (on_ifinfo_list (orig_of s orig_node))"

definition batadv_orig_router_get :: "batadv_priv \<Rightarrow> nat \<Rightarrow> nat option \<Rightarrow> nat option" where
  "batadv_orig_router_get s orig_node if_outgoing =
     (case find (\<lambda>i. oi_if_outgoing i = if_outgoing) (on_ifinfo_list (orig_of s orig_node)) of
        None \<Rightarrow> None
      | Some orig_ifinfo \<Rightarrow> oi_router orig_ifinfo)"

text \<open>\<open>kref_get_unless_zero\<close> on the outgoing interface; there is none to take for the default.\<close>

definition outif_get :: "batadv_priv \<Rightarrow> nat option \<Rightarrow> bool" where
  "outif_get s if_outgoing =
     (case if_outgoing of None \<Rightarrow> True | Some i \<Rightarrow> hi_alive (hardif_of s i))"

definition batadv_orig_ifinfo_new ::
  "kenv \<Rightarrow> nat \<Rightarrow> nat option \<Rightarrow> batadv_priv \<Rightarrow> bool \<times> batadv_priv" where
  "batadv_orig_ifinfo_new k orig_node if_outgoing s =
     (if batadv_orig_ifinfo_get s orig_node if_outgoing \<noteq> None then (True, s)
      else
        (let (ok, s) = kzalloc s in
         if \<not> ok then (False, s)
         else if \<not> outif_get s if_outgoing then (False, s)
         else
           (let reset_time = k_jiffies k - 1 - k_m2j k BATADV_RESET_PROTECTION_MS;
                orig_ifinfo =
                  \<lparr>oi_if_outgoing = if_outgoing, oi_router = None, oi_last_real_seqno = 0,
                   oi_last_ttl = 0, oi_last_seqno_forwarded = 0,
                   oi_batman_seqno_reset = reset_time\<rparr>
            in (True, orig_mod orig_node
                  (\<lambda>n. n\<lparr>on_ifinfo_list := orig_ifinfo # on_ifinfo_list n\<rparr>) s))))"

text \<open>Writing through an \<open>orig_ifinfo\<close> pointer.\<close>

definition orig_ifinfo_mod ::
  "nat \<Rightarrow> nat option \<Rightarrow> (batadv_orig_ifinfo \<Rightarrow> batadv_orig_ifinfo) \<Rightarrow> batadv_priv \<Rightarrow> batadv_priv" where
  "orig_ifinfo_mod orig_node if_outgoing f =
     orig_mod orig_node (\<lambda>n. n\<lparr>on_ifinfo_list :=
       update_first (\<lambda>i. oi_if_outgoing i = if_outgoing) f (on_ifinfo_list n)\<rparr>)"

definition batadv_neigh_ifinfo_get ::
  "batadv_priv \<Rightarrow> nat \<Rightarrow> nat option \<Rightarrow> batadv_neigh_ifinfo option" where
  "batadv_neigh_ifinfo_get s neigh if_outgoing =
     find (\<lambda>tmp. ni_if_outgoing tmp = if_outgoing) (nn_ifinfo_list (neigh_of s neigh))"

definition neigh_ifinfo_init :: "nat option \<Rightarrow> batadv_neigh_ifinfo" where
  "neigh_ifinfo_init if_outgoing =
     \<lparr>ni_if_outgoing = if_outgoing, ni_tq_recv = replicate BATADV_TQ_GLOBAL_WINDOW_SIZE 0,
      ni_tq_index = 0, ni_tq_avg = 0, ni_real_bits = 0, ni_real_packet_count = 0, ni_last_ttl = 0,
      ni_throughput = 0, ni_last_seqno = 0\<rparr>"

definition batadv_neigh_ifinfo_new ::
  "nat \<Rightarrow> nat option \<Rightarrow> batadv_priv \<Rightarrow> bool \<times> batadv_priv" where
  "batadv_neigh_ifinfo_new neigh if_outgoing s =
     (if batadv_neigh_ifinfo_get s neigh if_outgoing \<noteq> None then (True, s)
      else
        (let (ok, s) = kzalloc s in
         if \<not> ok then (False, s)
         else if \<not> outif_get s if_outgoing then (False, s)
         else (True, neigh_mod neigh
                 (\<lambda>n. n\<lparr>nn_ifinfo_list := neigh_ifinfo_init if_outgoing # nn_ifinfo_list n\<rparr>) s)))"

definition neigh_ifinfo_mod ::
  "nat \<Rightarrow> nat option \<Rightarrow> (batadv_neigh_ifinfo \<Rightarrow> batadv_neigh_ifinfo) \<Rightarrow> batadv_priv \<Rightarrow> batadv_priv" where
  "neigh_ifinfo_mod neigh if_outgoing f =
     neigh_mod neigh (\<lambda>n. n\<lparr>nn_ifinfo_list :=
       update_first (\<lambda>i. ni_if_outgoing i = if_outgoing) f (nn_ifinfo_list n)\<rparr>)"

section \<open>Neighbours\<close>

definition batadv_hardif_neigh_get ::
  "batadv_priv \<Rightarrow> nat \<Rightarrow> mac \<Rightarrow> batadv_hardif_neigh_node option" where
  "batadv_hardif_neigh_get s hard_iface neigh_addr =
     find (\<lambda>tmp. batadv_compare_eth (hn_addr tmp) neigh_addr) (hi_neigh_list (hardif_of s hard_iface))"

definition hardif_neigh_mod ::
  "nat \<Rightarrow> mac \<Rightarrow> (batadv_hardif_neigh_node \<Rightarrow> batadv_hardif_neigh_node) \<Rightarrow> batadv_priv \<Rightarrow> batadv_priv" where
  "hardif_neigh_mod hard_iface neigh_addr f =
     hardif_mod hard_iface (\<lambda>i. i\<lparr>hi_neigh_list :=
       update_first (\<lambda>n. hn_addr n = neigh_addr) f (hi_neigh_list i)\<rparr>)"

text \<open>Dropping a reference unlinks the entry when it was the last one.\<close>

definition batadv_hardif_neigh_put :: "nat \<Rightarrow> mac \<Rightarrow> batadv_priv \<Rightarrow> batadv_priv" where
  "batadv_hardif_neigh_put hard_iface neigh_addr s =
     (let s = hardif_neigh_mod hard_iface neigh_addr (\<lambda>n. n\<lparr>hn_refcount := hn_refcount n - 1\<rparr>) s
      in hardif_mod hard_iface (\<lambda>i. i\<lparr>hi_neigh_list :=
           filter (\<lambda>n. \<not> (hn_addr n = neigh_addr \<and> hn_refcount n = 0)) (hi_neigh_list i)\<rparr>) s)"

definition batadv_hardif_neigh_create ::
  "kenv \<Rightarrow> nat \<Rightarrow> mac \<Rightarrow> batadv_priv \<Rightarrow> bool \<times> batadv_priv" where
  "batadv_hardif_neigh_create k hard_iface neigh_addr s =
     (if batadv_hardif_neigh_get s hard_iface neigh_addr \<noteq> None then
        (True, hardif_neigh_mod hard_iface neigh_addr (\<lambda>n. n\<lparr>hn_refcount := hn_refcount n + 1\<rparr>) s)
      else if \<not> hi_alive (hardif_of s hard_iface) then (False, s)
      else
        (let (ok, s) = kzalloc s in
         if \<not> ok then (False, s)
         else (True, hardif_mod hard_iface (\<lambda>i. i\<lparr>hi_neigh_list :=
                 \<lparr>hn_addr = neigh_addr, hn_last_seen = k_jiffies k, hn_refcount = 1, hn_throughput = 0,
                  hn_elp_interval = 0, hn_elp_latest_seqno = 0, hn_last_unicast_tx = 0\<rparr>
                   # hi_neigh_list i\<rparr>) s)))"

definition batadv_hardif_neigh_get_or_create ::
  "kenv \<Rightarrow> nat \<Rightarrow> mac \<Rightarrow> batadv_priv \<Rightarrow> bool \<times> batadv_priv" where
  "batadv_hardif_neigh_get_or_create k hard_iface neigh_addr s =
     (if batadv_hardif_neigh_get s hard_iface neigh_addr \<noteq> None then
        (True, hardif_neigh_mod hard_iface neigh_addr (\<lambda>n. n\<lparr>hn_refcount := hn_refcount n + 1\<rparr>) s)
      else batadv_hardif_neigh_create k hard_iface neigh_addr s)"

definition batadv_neigh_node_get ::
  "batadv_priv \<Rightarrow> nat \<Rightarrow> nat \<Rightarrow> mac \<Rightarrow> nat option" where
  "batadv_neigh_node_get s orig_node hard_iface addr =
     find (\<lambda>tmp. batadv_compare_eth (nn_addr (neigh_of s tmp)) addr \<and>
                 nn_if_incoming (neigh_of s tmp) = hard_iface)
       (on_neigh_list (orig_of s orig_node))"

definition batadv_neigh_node_new ::
  "kenv \<Rightarrow> nat \<Rightarrow> nat \<Rightarrow> mac \<Rightarrow> batadv_priv \<Rightarrow> nat option \<times> batadv_priv" where
  "batadv_neigh_node_new k orig_node hard_iface neigh_addr s =
     (case batadv_neigh_node_get s orig_node hard_iface neigh_addr of
        Some neigh_node \<Rightarrow> (Some neigh_node, s)
      | None \<Rightarrow>
          (let (found, s) = batadv_hardif_neigh_get_or_create k hard_iface neigh_addr s in
           if \<not> found then (None, s)
           else
             (let (ok, s) = kzalloc s in
              if \<not> ok then (None, batadv_hardif_neigh_put hard_iface neigh_addr s)
              else if \<not> hi_alive (hardif_of s hard_iface) then
                (None, batadv_hardif_neigh_put hard_iface neigh_addr s)
              else
                (let n = bp_next_neigh s;
                     neigh_node = \<lparr>nn_orig_node = orig_node, nn_addr = neigh_addr,
                                   nn_ifinfo_list = [], nn_if_incoming = hard_iface,
                                   nn_last_seen = 0\<rparr>;
                     s = s\<lparr>bp_neighs := (bp_neighs s)(n := neigh_node), bp_next_neigh := n + 1\<rparr>;
                     s = orig_mod orig_node (\<lambda>o'. o'\<lparr>on_neigh_list := n # on_neigh_list o'\<rparr>) s;
                     s = hardif_neigh_mod hard_iface neigh_addr
                           (\<lambda>h. h\<lparr>hn_refcount := hn_refcount h + 1\<rparr>) s
                 in (Some n, batadv_hardif_neigh_put hard_iface neigh_addr s)))))"

section \<open>Originators\<close>

definition batadv_orig_node_vlan_get ::
  "batadv_orig_node \<Rightarrow> vid \<Rightarrow> batadv_orig_node_vlan option" where
  "batadv_orig_node_vlan_get orig_node vid = find (\<lambda>tmp. ov_vid tmp = vid) (on_vlan_list orig_node)"

definition batadv_orig_node_vlan_new ::
  "nat \<Rightarrow> vid \<Rightarrow> batadv_priv \<Rightarrow> bool \<times> batadv_priv" where
  "batadv_orig_node_vlan_new orig_node vid s =
     (if batadv_orig_node_vlan_get (orig_of s orig_node) vid \<noteq> None then (True, s)
      else
        (let (ok, s) = kzalloc s in
         if \<not> ok then (False, s)
         else (True, orig_mod orig_node (\<lambda>n. n\<lparr>on_vlan_list :=
                 \<lparr>ov_vid = vid, ov_crc = 0, ov_num_entries = 0\<rparr> # on_vlan_list n\<rparr>) s)))"

definition frag_chain_init :: batadv_frag_table_entry where
  "frag_chain_init = \<lparr>fc_head = [], fc_timestamp = 0, fc_seqno = 0, fc_size = 0, fc_total_size = 0\<rparr>"

text \<open>The new originator is not yet in the table. A failure gives its slot back.\<close>

definition batadv_orig_node_new :: "kenv \<Rightarrow> mac \<Rightarrow> batadv_priv \<Rightarrow> nat option \<times> batadv_priv" where
  "batadv_orig_node_new k addr s =
     (let (ok, s) = kzalloc s in
      if \<not> ok then (None, s)
      else
        (let n = bp_next_orig s;
             reset_time = k_jiffies k - 1 - k_m2j k BATADV_RESET_PROTECTION_MS;
             orig_node =
               \<lparr>on_orig = addr, on_ifinfo_list = [], on_last_bonding_candidate = None,
                on_last_seen = k_jiffies k, on_bcast_seqno_reset = reset_time, on_capabilities = 0,
                on_bcast_bits = 0, on_last_bcast_seqno = 0, on_last_ttvn = 0,
                on_neigh_list = [], on_vlan_list = [],
                on_fragments = replicate BATADV_FRAG_BUFFER_COUNT frag_chain_init,
                on_bcast_own = [], on_bcast_own_sum = [], on_bcast_own_freed = False,
                on_capa_initialized = 0, on_tt_buff = None, on_tt_buff_len = 0,
                on_dat_addr = ucast (batadv_choose_orig k addr 0xFFFF), on_mcast_flags = 0,
                on_in_coding_list = [], on_out_coding_list = []\<rparr>;
             s' = s\<lparr>bp_origs := (bp_origs s)(n := orig_node), bp_next_orig := n + 1\<rparr>;
             (ok, s') = batadv_orig_node_vlan_new n 0 s'
         in if ok then (Some n, s') else (None, s'\<lparr>bp_next_orig := n\<rparr>)))"

section \<open>The table is a finite map\<close>

interpretation orig_ht: hash_key fst batadv_compare_orig "batadv_choose_orig k" for k
proof
  show "batadv_compare_orig n a \<longleftrightarrow> fst n = a" for n a
    by (simp add: batadv_compare_orig_def)
  show "0 < sz \<Longrightarrow> batadv_choose_orig k a sz < sz" for a sz
    by (simp add: batadv_choose_orig_def word_mod_less_divisor)
qed

text \<open>The originators in the table, in the order of the loops over it.\<close>

definition bp_table :: "batadv_priv \<Rightarrow> (mac \<times> nat) list" where
  "bp_table s = (case bp_orig_hash s of None \<Rightarrow> [] | Some h \<Rightarrow> hash_elems h)"

end
