(* ===== verification/Iv_Metric.thy ===== *)
theory Iv_Metric
  imports Mesh_State "HOL-Library.Signed_Division" "HOL-Library.Multiset"
begin

text \<open>
  The arithmetic of the B.A.T.M.A.N. IV metric in \<open>bat_iv_ogm.c\<close>: the ring buffer of the
  last transmission qualities, the hop penalty, and the combination of the quality in
  an OGM with the quality of the link it came over. Every value has the width and the
  signedness it has in the code.
\<close>

section \<open>Definitions\<close>

definition batadv_ring_buffer_set :: "u8 list \<Rightarrow> u8 \<Rightarrow> u8 \<Rightarrow> u8 list \<times> u8" where
  "batadv_ring_buffer_set lq_recv lq_index value =
     (lq_recv[unat lq_index := value],
      of_nat ((unat lq_index + 1) mod BATADV_TQ_GLOBAL_WINDOW_SIZE))"

definition ring_count :: "u8 list \<Rightarrow> u16 \<times> u16" where
  "ring_count lq_recv =
     fold (\<lambda>v (count, sum). if v \<noteq> 0 then (count + 1, sum + ucast v) else (count, sum))
       (take BATADV_TQ_GLOBAL_WINDOW_SIZE lq_recv) (0, 0)"

definition batadv_ring_buffer_avg :: "u8 list \<Rightarrow> u8" where
  "batadv_ring_buffer_avg lq_recv =
     (let (count, sum) = ring_count lq_recv
      in if count = 0 then 0 else ucast (sum div count))"

text \<open>C divides towards zero.\<close>

definition batadv_hop_penalty :: "u8 \<Rightarrow> s32 \<Rightarrow> u8" where
  "batadv_hop_penalty tq hop_penalty =
     (let new_tq = uint tq * (BATADV_TQ_MAX_VALUE - sint hop_penalty);
          new_tq = new_tq sdiv BATADV_TQ_MAX_VALUE
      in word_of_int new_tq)"

text \<open>
  The steps of \<open>batadv_iv_ogm_calc_tq\<close>: the share of our own OGMs that came back among
  those of the neighbour, the penalty for asymmetric links, the product.
\<close>

definition iv_tq_own :: "u8 \<Rightarrow> u8 \<Rightarrow> u8" where
  "iv_tq_own orig_eq_count neigh_rq_count =
     (let total_count = (if orig_eq_count > neigh_rq_count then neigh_rq_count else orig_eq_count)
      in if total_count < 1 \<or> neigh_rq_count < 1 then 0
         else of_nat ((BATADV_TQ_MAX_VALUE * unat total_count) div unat neigh_rq_count))"

definition iv_asym_penalty :: "u8 \<Rightarrow> u32" where
  "iv_asym_penalty neigh_rq_count =
     (let neigh_rq_inv = BATADV_TQ_LOCAL_WINDOW_SIZE - neigh_rq_count;
          neigh_rq_inv_cube = (ucast neigh_rq_inv * ucast neigh_rq_inv * ucast neigh_rq_inv :: u32);
          neigh_rq_max_cube = BATADV_TQ_LOCAL_WINDOW_SIZE * BATADV_TQ_LOCAL_WINDOW_SIZE *
                              BATADV_TQ_LOCAL_WINDOW_SIZE;
          inv_asym_penalty = BATADV_TQ_MAX_VALUE * neigh_rq_inv_cube;
          inv_asym_penalty = inv_asym_penalty div neigh_rq_max_cube
      in BATADV_TQ_MAX_VALUE - inv_asym_penalty)"

definition iv_combined_tq :: "u8 \<Rightarrow> u8 \<Rightarrow> u32 \<Rightarrow> u32 \<Rightarrow> u8" where
  "iv_combined_tq tq tq_own tq_asym_penalty tq_iface_penalty =
     (let combined_tq = ucast tq * ucast tq_own * tq_asym_penalty * tq_iface_penalty;
          combined_tq = combined_tq div (BATADV_TQ_MAX_VALUE * BATADV_TQ_MAX_VALUE * BATADV_TQ_MAX_VALUE)
      in ucast combined_tq)"

section \<open>The ring buffer\<close>

definition ring_write :: "u8 \<Rightarrow> u8 list \<times> u8 \<Rightarrow> u8 list \<times> u8" where
  "ring_write v b = batadv_ring_buffer_set (fst b) (snd b) v"

text \<open>The average of the non-zero values of a list, in natural numbers.\<close>

definition nonzero_avg :: "u8 list \<Rightarrow> nat" where
  "nonzero_avg vs =
     (let nz = filter (\<lambda>v. v \<noteq> 0) vs
      in if nz = [] then 0 else sum_list (map unat nz) div length nz)"

lemma le_div_bound: "0 < n \<Longrightarrow> s \<le> b * n \<Longrightarrow> s div n \<le> (b :: nat)"
  by (metis div_le_mono div_mult_self_is_m)

lemma nonzero_avg_mset:
  assumes "mset vs = mset ws"
  shows "nonzero_avg vs = nonzero_avg ws"
proof -
  let ?f = "filter (\<lambda>v. v \<noteq> 0)"
  have f: "mset (?f vs) = mset (?f ws)"
    using assms by simp
  have "sum_list (map unat (?f vs)) = sum_list (map unat (?f ws))"
    by (simp only: sum_mset_sum_list [symmetric] mset_map f)
  moreover have l: "length (?f vs) = length (?f ws)"
    using f by (rule mset_eq_length)
  ultimately show ?thesis
    by (simp only: nonzero_avg_def Let_def length_0_conv [symmetric])
qed

lemma sum_list_u8_le: "sum_list (map unat (vs :: u8 list)) \<le> 255 * length vs"
  by (induction vs) (use unat_u8_le in \<open>auto intro: add_mono\<close>)

lemma ring_count_fold:
  assumes "n + length vs \<le> 5" "m + sum_list (map unat (filter (\<lambda>v. v \<noteq> 0) vs)) < 65536"
  shows "fold (\<lambda>v (count, sum). if v \<noteq> 0 then (count + 1, sum + ucast v) else (count, sum)) vs
           (of_nat n :: u16, of_nat m :: u16)
         = (of_nat (n + length (filter (\<lambda>v. v \<noteq> 0) vs)),
            of_nat (m + sum_list (map unat (filter (\<lambda>v :: u8. v \<noteq> 0) vs))))"
  using assms
proof (induction vs arbitrary: n m)
  case Nil
  then show ?case by simp
next
  case (Cons v vs)
  show ?case
  proof (cases "v = 0")
    case True
    then show ?thesis
      using Cons.IH [of n m] Cons.prems by simp
  next
    case False
    have u: "(of_nat m :: u16) + ucast v = of_nat (m + unat v)"
      by (simp only: ucast_eq_of_nat of_nat_add)
    have "(of_nat n :: u16) + 1 = of_nat (Suc n)"
      by simp
    with u show ?thesis
      using False Cons.IH [of "Suc n" "m + unat v"] Cons.prems
      by (simp add: add.commute add.left_commute)
  qed
qed

lemma ring_avg_nonzero:
  assumes "length lq = 5"
  shows "unat (batadv_ring_buffer_avg lq) = nonzero_avg lq"
proof -
  let ?nz = "filter (\<lambda>v. v \<noteq> 0) lq"
  let ?s = "sum_list (map unat ?nz)"
  have l: "length ?nz \<le> 5"
    using assms length_filter_le [of "\<lambda>v. v \<noteq> 0" lq] by simp
  have s: "?s \<le> 255 * length ?nz"
    by (rule sum_list_u8_le)
  have rc: "ring_count lq = (of_nat (length ?nz), of_nat ?s)"
    using ring_count_fold [of 0 lq 0] assms l s by (simp add: ring_count_def)
  show ?thesis
  proof (cases "?nz = []")
    case True
    then have "ring_count lq = (0, 0)"
      using rc by simp
    moreover have "nonzero_avg lq = 0"
      using True by (simp only: nonzero_avg_def Let_def if_True simp_thms)
    ultimately show ?thesis
      by (simp add: batadv_ring_buffer_avg_def)
  next
    case False
    have d: "?s div length ?nz \<le> 255"
      using s False by (intro le_div_bound) simp_all
    have ul: "unat (of_nat (length ?nz) :: u16) = length ?nz"
      using l by (simp add: unat_of_nat)
    have us: "unat (of_nat ?s :: u16) = ?s"
      using l s by (simp add: unat_of_nat)
    have "(of_nat (length ?nz) :: u16) \<noteq> 0"
      using ul False by (metis length_0_conv unat_0)
    then have "batadv_ring_buffer_avg lq = ucast ((of_nat ?s :: u16) div of_nat (length ?nz))"
      by (simp only: batadv_ring_buffer_avg_def rc Let_def prod.case if_False)
    moreover have "unat ((of_nat ?s :: u16) div of_nat (length ?nz)) = ?s div length ?nz"
      by (simp only: unat_div ul us)
    ultimately have "unat (batadv_ring_buffer_avg lq) = ?s div length ?nz"
      using d by (simp add: unat_ucast_mod)
    then show ?thesis
      using False by (simp only: nonzero_avg_def Let_def if_False)
  qed
qed

text \<open>The buffer holds the last five values, the newest just before the index.\<close>

definition ring_holds :: "u8 list \<times> u8 \<Rightarrow> u8 list \<Rightarrow> bool" where
  "ring_holds b hist \<longleftrightarrow>
     length (fst b) = 5 \<and> unat (snd b) < 5 \<and> length hist = 5 \<and>
     (\<forall>j < 5. fst b ! ((unat (snd b) + 4 - j) mod 5) = hist ! j)"

lemma ring_holds_write:
  assumes "ring_holds (buf, ix) hist"
  shows "ring_holds (ring_write v (buf, ix)) (v # butlast hist)"
proof -
  have l: "length buf = 5" "unat ix < 5" "length hist = 5"
    and h: "\<And>j. j < 5 \<Longrightarrow> buf ! ((unat ix + 4 - j) mod 5) = hist ! j"
    using assms by (auto simp: ring_holds_def)
  let ?i = "(unat ix + 1) mod 5"
  have ui: "unat (of_nat ?i :: u8) = ?i"
    by (simp add: unat_of_nat)
  have "buf[unat ix := v] ! ((?i + 4 - j) mod 5) = (v # butlast hist) ! j" if j: "j < 5" for j
  proof (cases j)
    case 0
    have "(?i + 4) mod 5 = unat ix"
      using l(2) by (simp add: mod_simps)
    then show ?thesis
      using 0 l by simp
  next
    case (Suc j')
    have "unat ix \<in> {0, 1, 2, 3, 4}" "j' \<in> {0, 1, 2, 3}"
      using l(2) j Suc by auto
    then have "(?i + 4 - j) mod 5 = (unat ix + 4 - j') mod 5 \<and> (?i + 4 - j) mod 5 \<noteq> unat ix"
      using Suc by auto
    then show ?thesis
      using h [of j'] Suc j l by (simp add: nth_butlast)
  qed
  then show ?thesis
    using l ui by (simp add: ring_holds_def ring_write_def batadv_ring_buffer_set_def)
qed

lemma ring_holds_init: "ring_holds (replicate 5 0, 0) (replicate 5 0)"
  by (simp add: ring_holds_def)

lemma take_Cons_butlast:
  "n \<le> length xs \<Longrightarrow> take n (v # butlast xs) = take n (v # xs)"
  by (cases n) (simp_all add: take_butlast)

lemma ring_holds_run:
  assumes "ring_holds b hist"
  shows "ring_holds (fold ring_write vs b) (take 5 (rev vs @ hist))"
  using assms
proof (induction vs arbitrary: b hist)
  case Nil
  then show ?case by (simp add: ring_holds_def)
next
  case (Cons v vs)
  have lh: "length hist = 5"
    using Cons.prems by (simp add: ring_holds_def)
  have "ring_holds (ring_write v b) (v # butlast hist)"
    using ring_holds_write [of "fst b" "snd b"] Cons.prems by simp
  from Cons.IH [OF this]
  have "ring_holds (fold ring_write (v # vs) b) (take 5 (rev vs @ v # butlast hist))"
    by simp
  moreover have "take 5 (rev vs @ v # butlast hist) = take 5 (rev (v # vs) @ hist)"
    using lh take_Cons_butlast [of "5 - length vs" hist v] by simp
  ultimately show ?case
    by simp
qed

lemma ring_holds_mset:
  assumes "ring_holds b hist"
  shows "mset (fst b) = mset hist"
proof -
  have l: "length (fst b) = 5" "unat (snd b) < 5" "length hist = 5"
    and h: "\<And>j. j < 5 \<Longrightarrow> fst b ! ((unat (snd b) + 4 - j) mod 5) = hist ! j"
    using assms by (auto simp: ring_holds_def)
  obtain a0 a1 a2 a3 a4 where a: "fst b = [a0, a1, a2, a3, a4]"
    using l(1) by (auto simp: length_Suc_conv numeral_eq_Suc)
  obtain h0 h1 h2 h3 h4 where hh: "hist = [h0, h1, h2, h3, h4]"
    using l(3) by (auto simp: length_Suc_conv numeral_eq_Suc)
  have "unat (snd b) = 0 \<or> unat (snd b) = 1 \<or> unat (snd b) = 2 \<or> unat (snd b) = 3 \<or> unat (snd b) = 4"
    using l(2) by auto
  then show ?thesis
    using h [of 0] h [of 1] h [of 2] h [of 3] h [of 4] unfolding a hh
    by (elim disjE) (auto simp: add_mset_commute)
qed

lemma nonzero_avg_zeros: "nonzero_avg (vs @ replicate n 0) = nonzero_avg vs"
  by (simp add: nonzero_avg_def)

lemma nonzero_avg_le:
  assumes "\<forall>v \<in> set vs. v \<noteq> 0 \<longrightarrow> unat v \<le> b"
  shows "nonzero_avg vs \<le> b"
proof (cases "filter (\<lambda>v. v \<noteq> 0) vs = []")
  case True
  then show ?thesis
    by (simp only: nonzero_avg_def Let_def if_True refl zero_le)
next
  case False
  have "sum_list (map unat (filter (\<lambda>v. v \<noteq> 0) vs)) \<le> b * length (filter (\<lambda>v. v \<noteq> 0) vs)"
    using assms by (induction vs) auto
  with False show ?thesis
    by (simp only: nonzero_avg_def Let_def if_False) (rule le_div_bound, simp_all)
qed

section \<open>The penalties\<close>

lemma sdiv_nonneg: "0 \<le> (a :: int) \<Longrightarrow> 0 < b \<Longrightarrow> a sdiv b = a div b"
  by (cases "a = 0") (simp_all add: signed_divide_int_def)

lemma hop_penalty_value:
  assumes "0 \<le> sint hp" "sint hp \<le> 255"
  shows "unat (batadv_hop_penalty tq hp) = unat tq * (255 - nat (sint hp)) div 255"
proof -
  obtain h where h: "sint hp = int h" "h \<le> 255"
    using assms by (intro that [of "nat (sint hp)"]) simp_all
  have "int (unat tq * (255 - h)) = int (unat tq) * (255 - int h)"
    using h(2) by (simp only: of_nat_mult of_nat_diff of_nat_numeral)
  then have "uint tq * (255 - sint hp) = int (unat tq * (255 - h))"
    by (simp only: h(1) uint_nat)
  then have v: "(uint tq * (255 - sint hp)) sdiv 255 = int (unat tq * (255 - h) div 255)"
    by (simp only: sdiv_nonneg of_nat_0_le_iff zero_less_numeral zdiv_int of_nat_numeral)
  have b: "unat tq * (255 - h) div 255 \<le> 255"
  proof -
    have "unat tq * (255 - h) \<le> 255 * 255"
      using unat_u8_le [of tq] by (intro mult_le_mono) auto
    then show ?thesis by (intro le_div_bound) simp_all
  qed
  have "batadv_hop_penalty tq hp = of_nat (unat tq * (255 - h) div 255)"
    by (simp only: batadv_hop_penalty_def Let_def v of_int_of_nat_eq)
  then show ?thesis
    using b h(1) by (simp add: unat_of_nat)
qed

lemma hop_penalty_le:
  assumes "0 \<le> sint hp" "sint hp \<le> 255"
  shows "batadv_hop_penalty tq hp \<le> tq"
proof -
  have "unat tq * (255 - nat (sint hp)) div 255 \<le> unat tq * 255 div 255"
    by (intro div_le_mono mult_le_mono) auto
  then show ?thesis
    using hop_penalty_value [OF assms, of tq] by (simp add: word_le_nat_alt)
qed

lemma tq_own_le: "unat (iv_tq_own e r) \<le> 255"
  by (rule unat_u8_le)

lemma tq_own_value:
  assumes "e > 0" "r > 0"
  shows "unat (iv_tq_own e r) = 255 * min (unat e) (unat r) div unat r"
proof -
  let ?t = "if e > r then r else e"
  have t: "unat ?t = min (unat e) (unat r)"
    by (auto simp: word_less_nat_alt min_def)
  have tr: "unat ?t \<le> unat r" "unat r > 0"
    using assms by (auto simp: word_less_nat_alt word_le_nat_alt)
  have n1: "\<not> ?t < 1" "\<not> r < 1"
    using assms by (auto simp: word_less_nat_alt)
  have "255 * unat ?t div unat r \<le> 255 * unat r div unat r"
    using tr by (intro div_le_mono) auto
  then have b: "255 * unat ?t div unat r \<le> 255"
    using tr by simp
  have "iv_tq_own e r = of_nat (255 * unat ?t div unat r)"
    using n1 by (simp only: iv_tq_own_def Let_def if_False simp_thms)
  then have "unat (iv_tq_own e r) = 255 * unat ?t div unat r"
    using b by (simp only: unat_of_nat) simp
  then show ?thesis
    using t by simp
qed

lemma asym_penalty_value:
  assumes "unat r \<le> 64"
  shows "unat (iv_asym_penalty r) = 255 - 255 * (64 - unat r) ^ 3 div 64 ^ 3"
proof -
  let ?v = "64 - unat r"
  have inv: "unat (64 - r) = ?v"
    using assms by (simp add: unat_sub word_le_nat_alt)
  have c: "?v * ?v * ?v \<le> 64 * 64 * 64"
    by (intro mult_le_mono) auto
  have cube: "(ucast (64 - r) * ucast (64 - r) * ucast (64 - r) :: u32) = of_nat (?v * ?v * ?v)"
    using inv by (simp only: ucast_eq_of_nat of_nat_mult)
  have p: "(255 * of_nat (?v * ?v * ?v) :: u32) = of_nat (255 * (?v * ?v * ?v))"
    by simp
  have "unat ((255 * of_nat (?v * ?v * ?v) :: u32) div (64 * 64 * 64)) = 255 * (?v * ?v * ?v) div 262144"
    using c unfolding p by (simp only: unat_div unat_of_nat) simp
  moreover have "255 * (?v * ?v * ?v) div 262144 \<le> 255"
    using c by (intro le_div_bound) simp_all
  ultimately have "unat (iv_asym_penalty r) = 255 - 255 * (?v * ?v * ?v) div 262144"
    unfolding iv_asym_penalty_def Let_def cube
    by (simp add: unat_sub word_le_nat_alt)
  then show ?thesis
    by (simp add: power3_eq_cube)
qed

text \<open>
  The product of the four factors fits into 32 bits, so the quotient is the exact one.
\<close>

lemma combined_tq_value:
  assumes "unat pa \<le> 255" "unat pf \<le> 255"
  shows "unat (iv_combined_tq tq own pa pf)
       = unat tq * unat own * unat pa * unat pf div 255 ^ 3"
    and "iv_combined_tq tq own pa pf \<le> tq"
proof -
  let ?p = "unat tq * unat own * unat pa * unat pf"
  have p: "?p \<le> unat tq * (255 * 255 * 255)"
    using assms unat_u8_le [of own] unfolding mult.assoc by (intro mult_le_mono le_refl) auto
  have pw: "(ucast tq * ucast own * pa * pf :: u32) = of_nat ?p"
    by (simp only: ucast_eq_of_nat of_nat_mult) simp
  have d: "?p div 16581375 \<le> unat tq"
    using p by (intro le_div_bound) simp_all
  have "unat tq * (255 * 255 * 255) \<le> 255 * (255 * 255 * 255)"
    using unat_u8_le [of tq] by (rule mult_le_mono1)
  with p have "?p \<le> 255 * (255 * 255 * 255)"
    by (rule le_trans)
  also have "\<dots> < 2 ^ LENGTH(32)"
    by simp
  finally have "unat (of_nat ?p :: u32) = ?p"
    by (simp only: unat_of_nat mod_less)
  then have "unat ((of_nat ?p :: u32) div 16581375) = ?p div 16581375"
    by (simp add: unat_div)
  then have "unat (iv_combined_tq tq own pa pf) = ?p div 16581375"
    using d unat_u8_le [of tq] unfolding iv_combined_tq_def Let_def pw by (simp add: unat_ucast_mod)
  then show "unat (iv_combined_tq tq own pa pf) = ?p div 255 ^ 3"
    and "iv_combined_tq tq own pa pf \<le> tq"
    using d by (simp_all add: word_le_nat_alt)
qed

end
