(* ===== verification/Iv_Aggregation.thy ===== *)
theory Iv_Aggregation
  imports Originator Iv_Metric
begin

text \<open>
  The queue of outgoing OGMs in \<open>bat_iv_ogm.c\<close>: several OGMs travel in one frame. Buffers
  are byte lists in the layout of \<open>struct batadv_ogm_packet\<close>, multi-byte fields in network
  order. The code reads the length field of the header at the current offset before it
  checks that the header is inside the buffer; \<open>oob\<close> is the memory behind the data that
  such a read sees.
\<close>

section \<open>OGMs and their bytes\<close>

abbreviation BATADV_OGM_HLEN :: "'a :: numeral" where "BATADV_OGM_HLEN \<equiv> 24"
abbreviation BATADV_IV_OGM :: u8 where "BATADV_IV_OGM \<equiv> 0"
abbreviation BATADV_COMPAT_VERSION :: u8 where "BATADV_COMPAT_VERSION \<equiv> 15"

text \<open>\<open>enum batadv_iv_flags\<close>\<close>

abbreviation BATADV_NOT_BEST_NEXT_HOP :: u8 where "BATADV_NOT_BEST_NEXT_HOP \<equiv> 1"
abbreviation BATADV_DIRECTLINK :: u8 where "BATADV_DIRECTLINK \<equiv> 4"

record batadv_ogm_packet =
  og_packet_type :: u8
  og_version :: u8
  og_ttl :: u8
  og_flags :: u8
  og_seqno :: u32
  og_orig :: mac
  og_prev_sender :: mac
  og_reserved :: u8
  og_tq :: u8
  og_tvlv_len :: u16

definition ogm_bytes :: "batadv_ogm_packet \<Rightarrow> u8 list" where
  "ogm_bytes p =
     [og_packet_type p, og_version p, og_ttl p, og_flags p] @ be_bytes 4 (og_seqno p) @
     be_bytes 6 (og_orig p) @ be_bytes 6 (og_prev_sender p) @
     [og_reserved p, og_tq p] @ be_bytes 2 (og_tvlv_len p)"

text \<open>The header that a pointer into a buffer sees.\<close>

definition ogm_at :: "u8 list \<Rightarrow> nat \<Rightarrow> batadv_ogm_packet" where
  "ogm_at buf off =
     (let b = drop off buf in
      \<lparr>og_packet_type = b ! 0, og_version = b ! 1, og_ttl = b ! 2, og_flags = b ! 3,
       og_seqno = be_word (take 4 (drop 4 b)), og_orig = be_word (take 6 (drop 8 b)),
       og_prev_sender = be_word (take 6 (drop 14 b)), og_reserved = b ! 20, og_tq = b ! 21,
       og_tvlv_len = be_word (take 2 (drop 22 b))\<rparr>)"

definition byte_at :: "(nat \<Rightarrow> u8) \<Rightarrow> u8 list \<Rightarrow> nat \<Rightarrow> u8" where
  "byte_at oob buf i = (if i < length buf then buf ! i else oob i)"

definition tvlv_len_at :: "(nat \<Rightarrow> u8) \<Rightarrow> u8 list \<Rightarrow> nat \<Rightarrow> u16" where
  "tvlv_len_at oob buf off = be_word [byte_at oob buf (off + 22), byte_at oob buf (off + 23)]"

definition batadv_iv_ogm_aggr_packet :: "nat \<Rightarrow> nat \<Rightarrow> u16 \<Rightarrow> bool" where
  "batadv_iv_ogm_aggr_packet buff_pos packet_len tvlv_len =
     (let next_buff_pos = buff_pos + BATADV_OGM_HLEN + unat tvlv_len
      in next_buff_pos \<le> packet_len \<and> next_buff_pos \<le> BATADV_MAX_AGGREGATION_BYTES)"

section \<open>Sending\<close>

text \<open>
  The loop of \<open>batadv_iv_ogm_send_to_if\<close> sets or clears the direct link flag of every
  OGM in the buffer of the queued packet.
\<close>

function iv_adjust_flags ::
  "(nat \<Rightarrow> u8) \<Rightarrow> batadv_forw_packet \<Rightarrow> nat \<Rightarrow> nat \<Rightarrow> nat \<Rightarrow> u8 list \<Rightarrow> u8 list" where
  "iv_adjust_flags oob forw_packet hard_iface packet_num buff_pos buf =
     (if batadv_iv_ogm_aggr_packet buff_pos (unat (fw_packet_len forw_packet))
           (tvlv_len_at oob buf buff_pos) then
        (let tvlv_len = tvlv_len_at oob buf buff_pos;
             flags = buf ! (buff_pos + 3);
             flags = (if bit (fw_direct_link_flags forw_packet) packet_num \<and>
                         fw_if_incoming forw_packet = hard_iface
                      then flags OR BATADV_DIRECTLINK
                      else flags AND NOT BATADV_DIRECTLINK);
             buf = buf[buff_pos + 3 := flags]
         in iv_adjust_flags oob forw_packet hard_iface (packet_num + 1)
              (buff_pos + BATADV_OGM_HLEN + unat tvlv_len) buf)
      else buf)"
  by pat_completeness auto

termination
  by (relation "measure (\<lambda>(oob, fw, i, n, pos, buf). 513 - pos)")
    (auto simp: batadv_iv_ogm_aggr_packet_def Let_def)

declare iv_adjust_flags.simps [simp del]

text \<open>
  The buffer that is sent and the state: \<open>skb_clone\<close> may fail. The queued packet itself
  is released by the caller afterwards.
\<close>

definition batadv_iv_ogm_send_to_if ::
  "(nat \<Rightarrow> u8) \<Rightarrow> batadv_forw_packet \<Rightarrow> nat \<Rightarrow> batadv_priv \<Rightarrow> batadv_priv" where
  "batadv_iv_ogm_send_to_if oob forw_packet hard_iface s =
     (if hi_if_status (hardif_of s hard_iface) \<noteq> BATADV_IF_ACTIVE then s
      else
        (let buf = iv_adjust_flags oob forw_packet hard_iface 0 0 (fw_skb forw_packet);
             (ok, s) = kzalloc s
         in if ok then call (Send_Broadcast_Skb buf hard_iface) s else s))"

definition batadv_iv_ogm_emit ::
  "(nat \<Rightarrow> u8) \<Rightarrow> batadv_forw_packet \<Rightarrow> batadv_priv \<Rightarrow> batadv_priv" where
  "batadv_iv_ogm_emit oob forw_packet s =
     (if hi_soft_iface (hardif_of s (fw_if_outgoing forw_packet))
           \<noteq> hi_soft_iface (hardif_of s (fw_if_incoming forw_packet)) then s
      else if hi_if_status (hardif_of s (fw_if_incoming forw_packet)) \<noteq> BATADV_IF_ACTIVE then s
      else if bp_primary_if s = None then s
      else batadv_iv_ogm_send_to_if oob forw_packet (fw_if_outgoing forw_packet) s)"

section \<open>Queueing\<close>

definition time_before :: "u64 \<Rightarrow> u64 \<Rightarrow> bool" where
  "time_before a b \<longleftrightarrow> sint (a - b) < 0"

definition time_after_eq :: "u64 \<Rightarrow> u64 \<Rightarrow> bool" where
  "time_after_eq a b \<longleftrightarrow> sint (a - b) \<ge> 0"

definition batadv_iv_ogm_can_aggregate ::
  "kenv \<Rightarrow> batadv_priv \<Rightarrow> batadv_ogm_packet \<Rightarrow> nat \<Rightarrow> u64 \<Rightarrow> bool \<Rightarrow> nat \<Rightarrow> nat
   \<Rightarrow> batadv_forw_packet \<Rightarrow> bool" where
  "batadv_iv_ogm_can_aggregate k s new_bat_ogm_packet packet_len send_time directlink
       if_incoming if_outgoing forw_packet =
     (let aggregated_bytes = unat (fw_packet_len forw_packet) + packet_len;
          first = ogm_at (fw_skb forw_packet) 0;
          aggregation_end_time = send_time + k_m2j k BATADV_MAX_AGGREGATION_MS
      in if \<not> time_before send_time (fw_send_time forw_packet) \<or>
            \<not> time_after_eq aggregation_end_time (fw_send_time forw_packet) then False
         else if aggregated_bytes > BATADV_MAX_AGGREGATION_BYTES then False
         else if fw_if_outgoing forw_packet \<noteq> if_outgoing then False
         else
           (case bp_primary_if s of
              None \<Rightarrow> False
            | Some primary_if \<Rightarrow>
                if \<not> directlink \<and> og_flags first AND BATADV_DIRECTLINK = 0 \<and> og_ttl first \<noteq> 1 \<and>
                   (\<not> fw_own forw_packet \<or> fw_if_incoming forw_packet = primary_if) then True
                else if directlink \<and> og_ttl new_bat_ogm_packet = 1 \<and>
                        fw_if_incoming forw_packet = if_incoming \<and>
                        (og_flags first AND BATADV_DIRECTLINK \<noteq> 0 \<or>
                         fw_own forw_packet \<and> fw_if_incoming forw_packet \<noteq> primary_if) then True
                else False))"

definition batadv_iv_ogm_aggregate_new ::
  "u8 list \<Rightarrow> nat \<Rightarrow> u64 \<Rightarrow> bool \<Rightarrow> nat \<Rightarrow> nat \<Rightarrow> bool \<Rightarrow> batadv_priv \<Rightarrow> batadv_priv" where
  "batadv_iv_ogm_aggregate_new packet_buff packet_len send_time direct_link if_incoming if_outgoing
       own_packet s =
     (if \<not> hi_alive (hardif_of s if_incoming) then s
      else if \<not> hi_alive (hardif_of s if_outgoing) then s
      else if \<not> own_packet \<and> bp_batman_queue_left s = 0 then s
      else
        (let s = (if \<not> own_packet then s\<lparr>bp_batman_queue_left := bp_batman_queue_left s - 1\<rparr> else s);
             give_back = (\<lambda>s. if \<not> own_packet
               then s\<lparr>bp_batman_queue_left := bp_batman_queue_left s + 1\<rparr> else s);
             (ok, s) = kzalloc s
         in if \<not> ok then give_back s
            else
              (let skb_size = (if bp_aggregated_ogms s \<and> packet_len < BATADV_MAX_AGGREGATION_BYTES
                               then BATADV_MAX_AGGREGATION_BYTES else packet_len);
                   (ok, s) = kzalloc s
               in if \<not> ok then give_back s
                  else
                    (let forw_packet_aggr =
                           \<lparr>fw_send_time = send_time, fw_own = own_packet,
                            fw_skb = take packet_len packet_buff,
                            fw_room = skb_size - packet_len + bp_skb_slack s,
                            fw_packet_len = of_nat packet_len,
                            fw_direct_link_flags = (if direct_link then 1 else 0),
                            fw_num_packets = 0, fw_if_incoming = if_incoming,
                            fw_if_outgoing = if_outgoing\<rparr>
                     in s\<lparr>bp_forw_bat_list := forw_packet_aggr # bp_forw_bat_list s\<rparr>))))"

text \<open>\<open>skb_put\<close> past the end of the buffer is the panic: the second component.\<close>

definition batadv_iv_ogm_aggregate ::
  "batadv_forw_packet \<Rightarrow> u8 list \<Rightarrow> nat \<Rightarrow> bool \<Rightarrow> batadv_forw_packet \<times> bool" where
  "batadv_iv_ogm_aggregate forw_packet_aggr packet_buff packet_len direct_link =
     (if packet_len > fw_room forw_packet_aggr then (forw_packet_aggr, True)
      else
        (let fw = forw_packet_aggr\<lparr>
               fw_skb := fw_skb forw_packet_aggr @ take packet_len packet_buff,
               fw_room := fw_room forw_packet_aggr - packet_len,
               fw_packet_len := fw_packet_len forw_packet_aggr + of_nat packet_len,
               fw_num_packets := fw_num_packets forw_packet_aggr + 1\<rparr>
         in (if direct_link
             then fw\<lparr>fw_direct_link_flags :=
                    fw_direct_link_flags fw OR push_bit (unat (fw_num_packets fw)) 1\<rparr>
             else fw, False)))"

text \<open>Aggregate into the first packet of the queue that admits it, if there is one.\<close>

fun iv_try_aggregate ::
  "(batadv_forw_packet \<Rightarrow> bool) \<Rightarrow> (batadv_forw_packet \<Rightarrow> batadv_forw_packet \<times> bool)
   \<Rightarrow> batadv_forw_packet list \<Rightarrow> (batadv_forw_packet list \<times> bool) option" where
  "iv_try_aggregate can aggr [] = None"
| "iv_try_aggregate can aggr (pos # rest) =
     (if can pos then (let (fw, panic) = aggr pos in Some (fw # rest, panic))
      else map_option (\<lambda>(rest', panic). (pos # rest', panic)) (iv_try_aggregate can aggr rest))"

definition batadv_iv_ogm_queue_add ::
  "kenv \<Rightarrow> u8 list \<Rightarrow> nat \<Rightarrow> nat \<Rightarrow> nat \<Rightarrow> bool \<Rightarrow> u64 \<Rightarrow> batadv_priv \<Rightarrow> batadv_priv" where
  "batadv_iv_ogm_queue_add k packet_buff packet_len if_incoming if_outgoing own_packet send_time s =
     (let ogm = ogm_at packet_buff 0;
          direct_link = (og_flags ogm AND BATADV_DIRECTLINK \<noteq> 0);
          max_aggregation_jiffies = k_m2j k BATADV_MAX_AGGREGATION_MS;
          found =
            (if bp_aggregated_ogms s \<and> \<not> own_packet then
               iv_try_aggregate
                 (batadv_iv_ogm_can_aggregate k s ogm packet_len send_time direct_link
                    if_incoming if_outgoing)
                 (\<lambda>pos. batadv_iv_ogm_aggregate pos packet_buff packet_len direct_link)
                 (bp_forw_bat_list s)
             else None)
      in case found of
           None \<Rightarrow>
             (let send_time = (if \<not> own_packet \<and> bp_aggregated_ogms s
                               then send_time + max_aggregation_jiffies else send_time)
              in batadv_iv_ogm_aggregate_new packet_buff packet_len send_time direct_link
                   if_incoming if_outgoing own_packet s)
         | Some (forw_bat_list, panic) \<Rightarrow>
             s\<lparr>bp_forw_bat_list := forw_bat_list, bp_panic := bp_panic s \<or> panic\<rparr>)"

section \<open>Forwarding\<close>

text \<open>
  \<open>batadv_iv_ogm_forward\<close> changes the header in place and queues it with the TVLV data
  behind it. \<open>iv_forward_header\<close> is the changed header, \<open>None\<close> if the OGM is dropped.
\<close>

definition iv_forward_header ::
  "s32 \<Rightarrow> mac \<Rightarrow> bool \<Rightarrow> bool \<Rightarrow> batadv_ogm_packet \<Rightarrow> batadv_ogm_packet option" where
  "iv_forward_header hop_penalty h_source is_single_hop_neigh is_from_best_next_hop ogm =
     (if og_ttl ogm \<le> 1 then None
      else if \<not> is_from_best_next_hop \<and> \<not> is_single_hop_neigh then None
      else
        (let ogm = (if \<not> is_from_best_next_hop
                    then ogm\<lparr>og_flags := og_flags ogm OR BATADV_NOT_BEST_NEXT_HOP\<rparr> else ogm);
             ogm = ogm\<lparr>og_ttl := og_ttl ogm - 1, og_prev_sender := h_source,
                       og_tq := batadv_hop_penalty (og_tq ogm) hop_penalty\<rparr>
         in Some (if is_single_hop_neigh
                  then ogm\<lparr>og_flags := og_flags ogm OR BATADV_DIRECTLINK\<rparr>
                  else ogm\<lparr>og_flags := og_flags ogm AND NOT BATADV_DIRECTLINK\<rparr>)))"

definition batadv_iv_ogm_fwd_send_time :: "kenv \<Rightarrow> batadv_priv \<Rightarrow> u64 \<times> batadv_priv" where
  "batadv_iv_ogm_fwd_send_time k s =
     (let (r, s) = prandom_u32 s in (k_jiffies k + k_m2j k (r mod (BATADV_JITTER div 2)), s))"

definition batadv_iv_ogm_emit_send_time :: "kenv \<Rightarrow> batadv_priv \<Rightarrow> u64 \<times> batadv_priv" where
  "batadv_iv_ogm_emit_send_time k s =
     (let msecs = bp_orig_interval s - BATADV_JITTER;
          (r, s) = prandom_u32 s;
          msecs = msecs + r mod (2 * BATADV_JITTER)
      in (k_jiffies k + k_m2j k msecs, s))"

definition batadv_iv_ogm_forward ::
  "kenv \<Rightarrow> mac \<Rightarrow> batadv_ogm_packet \<Rightarrow> u8 list \<Rightarrow> bool \<Rightarrow> bool \<Rightarrow> nat \<Rightarrow> nat
   \<Rightarrow> batadv_priv \<Rightarrow> batadv_priv" where
  "batadv_iv_ogm_forward k h_source ogm tvlv is_single_hop_neigh is_from_best_next_hop
       if_incoming if_outgoing s =
     (case iv_forward_header (bp_hop_penalty s) h_source is_single_hop_neigh is_from_best_next_hop ogm of
        None \<Rightarrow> s
      | Some ogm' \<Rightarrow>
          (let (send_time, s) = batadv_iv_ogm_fwd_send_time k s
           in batadv_iv_ogm_queue_add k (ogm_bytes ogm' @ tvlv)
                (BATADV_OGM_HLEN + unat (og_tvlv_len ogm)) if_incoming if_outgoing False send_time s))"

section \<open>Unpacking a received frame\<close>

text \<open>
  The loop of \<open>batadv_iv_ogm_receive\<close>: \<open>process\<close> is called with the offset of every OGM.
  The buffer is not changed, each call works on a private copy.
\<close>

function iv_unpack ::
  "(nat \<Rightarrow> 's \<Rightarrow> 's) \<Rightarrow> (nat \<Rightarrow> u8) \<Rightarrow> u8 list \<Rightarrow> nat \<Rightarrow> 's \<Rightarrow> 's" where
  "iv_unpack process oob buf ogm_offset s =
     (if batadv_iv_ogm_aggr_packet ogm_offset (length buf) (tvlv_len_at oob buf ogm_offset) then
        iv_unpack process oob buf
          (ogm_offset + BATADV_OGM_HLEN + unat (tvlv_len_at oob buf ogm_offset))
          (process ogm_offset s)
      else s)"
  by pat_completeness auto

termination
  by (relation "measure (\<lambda>(process, oob, buf, off, s). 513 - off)")
    (auto simp: batadv_iv_ogm_aggr_packet_def Let_def)

declare iv_unpack.simps [simp del]

text \<open>The OGMs that the loop visits: header and TVLV data.\<close>

definition iv_wire_at :: "u8 list \<Rightarrow> nat \<Rightarrow> batadv_ogm_packet \<times> u8 list" where
  "iv_wire_at buf off =
     (let p = ogm_at buf off in (p, take (unat (og_tvlv_len p)) (drop (off + BATADV_OGM_HLEN) buf)))"

definition iv_parse :: "(nat \<Rightarrow> u8) \<Rightarrow> u8 list \<Rightarrow> (batadv_ogm_packet \<times> u8 list) list" where
  "iv_parse oob buf = iv_unpack (\<lambda>off ws. ws @ [iv_wire_at buf off]) oob buf 0 []"

section \<open>The bytes of an OGM\<close>

lemma length_ogm_bytes [simp]: "length (ogm_bytes p) = 24"
  by (simp add: ogm_bytes_def)

lemma ogm_at_bytes:
  assumes "length pre = off"
  shows "ogm_at (pre @ ogm_bytes p @ rest) off = p"
  using assms
  by (cases p) (simp add: ogm_at_def ogm_bytes_def Let_def be_word_bytes nth_append)

text \<open>Every 24 bytes are those of some header, so changing a header in place is this.\<close>

lemma ogm_bytes_at:
  assumes "length b = 24"
  shows "ogm_bytes (ogm_at b 0) = b"
proof -
  have "ogm_bytes (ogm_at b 0)
      = [b ! 0, b ! 1, b ! 2, b ! 3] @ take 4 (drop 4 b) @ take 6 (drop 8 b) @ take 6 (drop 14 b)
        @ [b ! 20, b ! 21] @ take 2 (drop 22 b)"
    using assms by (simp add: ogm_bytes_def ogm_at_def Let_def be_bytes_word)
  also have "[b ! 0, b ! 1, b ! 2, b ! 3] = take 4 b"
    using assms by (simp add: take_Suc_conv_app_nth numeral_eq_Suc)
  also have "[b ! 20, b ! 21] = take 2 (drop 20 b)"
    using assms by (simp add: take_Suc_conv_app_nth numeral_2_eq_2)
  also have "take 4 b @ take 4 (drop 4 b) @ take 6 (drop 8 b) @ take 6 (drop 14 b) @ take 2 (drop 20 b)
      @ take 2 (drop 22 b) = take 24 b"
    using take_add [of 4 4 b] take_add [of 8 6 b] take_add [of 14 6 b] take_add [of 20 2 b]
      take_add [of 22 2 b] by simp
  also have "\<dots> = b"
    using assms by simp
  finally show ?thesis .
qed

lemma tvlv_len_at_bytes:
  assumes "length pre = off"
  shows "tvlv_len_at oob (pre @ ogm_bytes p @ rest) off = og_tvlv_len p"
proof -
  have "[byte_at oob (pre @ ogm_bytes p @ rest) (off + 22), byte_at oob (pre @ ogm_bytes p @ rest) (off + 23)]
      = be_bytes 2 (og_tvlv_len p)"
    using assms by (simp add: byte_at_def ogm_bytes_def nth_append numeral_2_eq_2)
  then show ?thesis
    by (simp add: tvlv_len_at_def be_word_bytes)
qed

text \<open>An OGM on the wire, and the condition that its length field is right.\<close>

type_synonym ogm_msg = "batadv_ogm_packet \<times> u8 list"

definition wire :: "ogm_msg \<Rightarrow> u8 list" where
  "wire w = ogm_bytes (fst w) @ snd w"

definition wire_ok :: "ogm_msg \<Rightarrow> bool" where
  "wire_ok w \<longleftrightarrow> length (snd w) = unat (og_tvlv_len (fst w))"

lemma length_wire: "wire_ok w \<Longrightarrow> length (wire w) = 24 + unat (og_tvlv_len (fst w))"
  by (simp add: wire_def wire_ok_def)

lemma wire_reads:
  assumes "length pre = off" "wire_ok w"
  shows "tvlv_len_at oob (pre @ wire w @ rest) off = og_tvlv_len (fst w)"
    and "iv_wire_at (pre @ wire w @ rest) off = w"
  using assms
  by (simp_all add: wire_def wire_ok_def tvlv_len_at_bytes iv_wire_at_def ogm_at_bytes Let_def prod_eq_iff)

lemma aggr_packet_wire:
  assumes "length pre = off" "wire_ok w" "off + length (wire w) \<le> 512" "off + length (wire w) \<le> len"
  shows "batadv_iv_ogm_aggr_packet off len (og_tvlv_len (fst w))"
  using assms length_wire [of w] by (simp add: batadv_iv_ogm_aggr_packet_def Let_def)

lemma aggr_packet_stop:
  "len < off + 24 \<Longrightarrow> \<not> batadv_iv_ogm_aggr_packet off len t"
  by (simp add: batadv_iv_ogm_aggr_packet_def Let_def)

lemma unpack_wires:
  assumes "length pre = off" "\<forall>w \<in> set ws. wire_ok w" "length pad < 24"
    and "off + length (concat (map wire ws)) \<le> 512"
    and "buf = pre @ concat (map wire ws) @ pad"
  shows "iv_unpack (\<lambda>off xs. xs @ [iv_wire_at buf off]) oob buf off acc = acc @ ws"
  using assms
proof (induction ws arbitrary: pre off acc)
  case Nil
  then have "\<not> batadv_iv_ogm_aggr_packet off (length buf) (tvlv_len_at oob buf off)"
    by (intro aggr_packet_stop) simp
  then show ?case
    by (simp add: iv_unpack.simps)
next
  case (Cons w ws)
  have ok: "wire_ok w" using Cons.prems by simp
  let ?rest = "concat (map wire ws) @ pad"
  have buf: "buf = pre @ wire w @ ?rest" using Cons.prems(5) by simp
  have t: "tvlv_len_at oob buf off = og_tvlv_len (fst w)"
    and w: "iv_wire_at buf off = w"
    unfolding buf using wire_reads [OF Cons.prems(1) ok] by simp_all
  have a: "batadv_iv_ogm_aggr_packet off (length buf) (og_tvlv_len (fst w))"
    using Cons.prems by (intro aggr_packet_wire [OF Cons.prems(1) ok]) (simp_all add: buf)
  have "iv_unpack (\<lambda>off xs. xs @ [iv_wire_at buf off]) oob buf (off + 24 + unat (og_tvlv_len (fst w))) (acc @ [w])
      = (acc @ [w]) @ ws"
    using Cons.prems length_wire [OF ok]
    by (intro Cons.IH [of "pre @ wire w"]) simp_all
  then show ?case
    using a t w by (subst iv_unpack.simps) simp
qed

section \<open>The flags of what is sent\<close>

definition sent_flags :: "batadv_forw_packet \<Rightarrow> nat \<Rightarrow> nat \<Rightarrow> u8 \<Rightarrow> u8" where
  "sent_flags fw hard_iface n flags =
     (if bit (fw_direct_link_flags fw) n \<and> fw_if_incoming fw = hard_iface
      then flags OR BATADV_DIRECTLINK else flags AND NOT BATADV_DIRECTLINK)"

fun sent_msgs :: "batadv_forw_packet \<Rightarrow> nat \<Rightarrow> nat \<Rightarrow> ogm_msg list \<Rightarrow> ogm_msg list" where
  "sent_msgs fw hard_iface n [] = []"
| "sent_msgs fw hard_iface n (w # ws) =
     (fst w\<lparr>og_flags := sent_flags fw hard_iface n (og_flags (fst w))\<rparr>, snd w)
       # sent_msgs fw hard_iface (n + 1) ws"

lemma wire_flags:
  assumes "length pre = off"
  shows "(pre @ wire w @ rest) ! (off + 3) = og_flags (fst w)"
    and "(pre @ wire w @ rest)[off + 3 := f] = pre @ wire (fst w\<lparr>og_flags := f\<rparr>, snd w) @ rest"
  using assms by (simp_all add: wire_def ogm_bytes_def nth_append list_update_append numeral_3_eq_3)

lemma adjust_wires:
  assumes "length pre = off" "\<forall>w \<in> set ws. wire_ok w"
    and "off + length (concat (map wire ws)) \<le> 512"
    and "unat (fw_packet_len fw) = off + length (concat (map wire ws))"
  shows "iv_adjust_flags oob fw i n off (pre @ concat (map wire ws))
       = pre @ concat (map wire (sent_msgs fw i n ws))"
  using assms
proof (induction ws arbitrary: pre off n)
  case Nil
  then have "\<not> batadv_iv_ogm_aggr_packet off (unat (fw_packet_len fw)) (tvlv_len_at oob pre off)"
    by (intro aggr_packet_stop) simp
  then show ?case
    by (simp add: iv_adjust_flags.simps)
next
  case (Cons w ws)
  have ok: "wire_ok w" using Cons.prems by simp
  let ?w = "(fst w\<lparr>og_flags := sent_flags fw i n (og_flags (fst w))\<rparr>, snd w)"
  have ok': "wire_ok ?w" using ok by (simp add: wire_ok_def)
  have lw: "length (wire ?w) = length (wire w)"
    using length_wire [OF ok] length_wire [OF ok'] by simp
  let ?buf = "pre @ wire w @ concat (map wire ws)"
  have t: "tvlv_len_at oob ?buf off = og_tvlv_len (fst w)"
    using wire_reads [OF Cons.prems(1) ok] by simp
  have a: "batadv_iv_ogm_aggr_packet off (unat (fw_packet_len fw)) (og_tvlv_len (fst w))"
    using Cons.prems by (intro aggr_packet_wire [OF Cons.prems(1) ok]) simp_all
  have "iv_adjust_flags oob fw i n off ?buf
      = iv_adjust_flags oob fw i (n + 1) (off + 24 + unat (og_tvlv_len (fst w)))
          (?buf[off + 3 := sent_flags fw i n (?buf ! (off + 3))])"
    using a t by (subst iv_adjust_flags.simps) (simp add: sent_flags_def Let_def)
  also have "\<dots> = iv_adjust_flags oob fw i (n + 1) (off + 24 + unat (og_tvlv_len (fst w)))
          ((pre @ wire ?w) @ concat (map wire ws))"
    using wire_flags [OF Cons.prems(1), of w "concat (map wire ws)"] by simp
  also have "\<dots> = (pre @ wire ?w) @ concat (map wire (sent_msgs fw i (n + 1) ws))"
    using Cons.prems length_wire [OF ok] lw by (intro Cons.IH) simp_all
  finally show ?case
    by simp
qed

lemma sent_msgs_ok: "\<forall>w \<in> set ws. wire_ok w \<Longrightarrow> \<forall>w \<in> set (sent_msgs fw i n ws). wire_ok w"
  by (induction ws arbitrary: n) (auto simp: wire_ok_def)

lemma sent_msgs_length:
  "\<forall>w \<in> set ws. wire_ok w \<Longrightarrow>
   length (concat (map wire (sent_msgs fw i n ws))) = length (concat (map wire ws))"
proof (induction ws arbitrary: n)
  case Nil
  then show ?case by simp
next
  case (Cons w ws)
  let ?w = "(fst w\<lparr>og_flags := sent_flags fw i n (og_flags (fst w))\<rparr>, snd w)"
  have "wire_ok ?w" using Cons.prems by (simp add: wire_ok_def)
  then have "length (wire ?w) = length (wire w)"
    using length_wire [of w] length_wire [of ?w] Cons.prems by simp
  then show ?case
    using Cons by simp
qed

section \<open>Well-formed packets in the queue\<close>

definition is_direct :: "ogm_msg \<Rightarrow> bool" where
  "is_direct w \<longleftrightarrow> og_flags (fst w) AND BATADV_DIRECTLINK \<noteq> 0"

text \<open>
  The packet holds exactly the OGMs \<open>ws\<close>, its counters describe them, and there is room
  for what an aggregation may still add.
\<close>

definition fw_holds :: "batadv_forw_packet \<Rightarrow> ogm_msg list \<Rightarrow> bool" where
  "fw_holds fw ws \<longleftrightarrow>
     ws \<noteq> [] \<and> (\<forall>w \<in> set ws. wire_ok w) \<and> fw_skb fw = concat (map wire ws) \<and>
     unat (fw_packet_len fw) = length (fw_skb fw) \<and>
     (length ws > 1 \<longrightarrow> length (fw_skb fw) \<le> 512) \<and>
     unat (fw_num_packets fw) = length ws - 1 \<and>
     (\<forall>n. bit (fw_direct_link_flags fw) n \<longleftrightarrow> n < length ws \<and> is_direct (ws ! n))"

definition fw_room_ok :: "batadv_forw_packet \<Rightarrow> bool" where
  "fw_room_ok fw \<longleftrightarrow> 512 \<le> length (fw_skb fw) + fw_room fw"

lemma wires_length_ge: "\<forall>w \<in> set ws. wire_ok w \<Longrightarrow> 24 * length ws \<le> length (concat (map wire ws))"
  by (induction ws) (auto simp: length_wire)

lemma aggregate_holds:
  assumes h: "fw_holds fw ws" and ok: "wire_ok w"
    and sz: "unat (fw_packet_len fw) + length (wire w) \<le> 512"
    and room: "length (wire w) \<le> fw_room fw"
  shows "fw_holds (fst (batadv_iv_ogm_aggregate fw (wire w) (length (wire w)) (is_direct w))) (ws @ [w])"
    and "snd (batadv_iv_ogm_aggregate fw (wire w) (length (wire w)) (is_direct w)) = False"
proof -
  let ?fw = "fst (batadv_iv_ogm_aggregate fw (wire w) (length (wire w)) (is_direct w))"
  have r: "\<not> length (wire w) > fw_room fw" using room by simp
  have ws: "ws \<noteq> []" "\<forall>w \<in> set ws. wire_ok w" "fw_skb fw = concat (map wire ws)"
    "unat (fw_packet_len fw) = length (fw_skb fw)" "unat (fw_num_packets fw) = length ws - 1"
    and b: "\<And>n. bit (fw_direct_link_flags fw) n \<longleftrightarrow> n < length ws \<and> is_direct (ws ! n)"
    using h by (auto simp: fw_holds_def)
  have "24 * length ws \<le> 512"
    using wires_length_ge [OF ws(2)] ws(3,4) sz by simp
  then have lw: "length ws \<le> 21" by simp
  have l: "length (wire w) \<le> 512" using sz by simp
  have f1: "unat (fw_packet_len fw + of_nat (length (wire w))) = length (fw_skb fw) + length (wire w)"
    using sz ws(4) l by (simp add: unat_word_ariths unat_of_nat)
  have f2: "unat (fw_num_packets fw + 1) = length ws"
    using ws(1,5) lw by (cases ws) (simp_all add: unat_word_ariths)
  have f3: "bit (push_bit (length ws) 1 :: u32) n \<longleftrightarrow> n = length ws" for n
    using lw by (auto simp: bit_simps)
  have fl: "fw_direct_link_flags ?fw
      = (if is_direct w then fw_direct_link_flags fw OR push_bit (length ws) 1 else fw_direct_link_flags fw)"
    using r f2 by (simp add: batadv_iv_ogm_aggregate_def Let_def)
  have "bit (fw_direct_link_flags ?fw) n \<longleftrightarrow> n < length (ws @ [w]) \<and> is_direct ((ws @ [w]) ! n)" for n
    unfolding fl using b f3 by (cases "is_direct w") (auto simp: bit_or_iff nth_append less_Suc_eq)
  moreover have "fw_skb ?fw = concat (map wire (ws @ [w]))"
    "fw_packet_len ?fw = fw_packet_len fw + of_nat (length (wire w))"
    "fw_num_packets ?fw = fw_num_packets fw + 1"
    using r ws(3) by (simp_all add: batadv_iv_ogm_aggregate_def Let_def)
  ultimately show "fw_holds ?fw (ws @ [w])"
    using ws ok f1 f2 sz by (simp add: fw_holds_def)
  show "snd (batadv_iv_ogm_aggregate fw (wire w) (length (wire w)) (is_direct w)) = False"
    using r by (simp add: batadv_iv_ogm_aggregate_def Let_def)
qed

text \<open>What an OGM of a queued packet looks like when the packet leaves on an interface.\<close>

definition msg_sent_on :: "batadv_forw_packet \<Rightarrow> nat \<Rightarrow> ogm_msg \<Rightarrow> ogm_msg" where
  "msg_sent_on fw hard_iface w =
     (fst w\<lparr>og_flags :=
        (if is_direct w \<and> fw_if_incoming fw = hard_iface
         then og_flags (fst w) OR BATADV_DIRECTLINK
         else og_flags (fst w) AND NOT BATADV_DIRECTLINK)\<rparr>, snd w)"

lemma sent_msgs_map:
  assumes "\<And>j. j < length ws \<Longrightarrow> bit (fw_direct_link_flags fw) (n + j) \<longleftrightarrow> is_direct (ws ! j)"
  shows "sent_msgs fw i n ws = map (msg_sent_on fw i) ws"
  using assms
proof (induction ws arbitrary: n)
  case Nil
  then show ?case by simp
next
  case (Cons w ws)
  have "bit (fw_direct_link_flags fw) (Suc n + j) \<longleftrightarrow> is_direct (ws ! j)" if "j < length ws" for j
    using Cons.prems [of "Suc j"] that by simp
  moreover have "bit (fw_direct_link_flags fw) n \<longleftrightarrow> is_direct w"
    using Cons.prems [of 0] by simp
  ultimately show ?case
    using Cons.IH [of "Suc n"] by (simp add: msg_sent_on_def sent_flags_def)
qed

lemma transport:
  assumes h: "fw_holds fw ws" and l: "length (fw_skb fw) \<le> 512" and pad: "length pad < 24"
  shows "iv_parse oob' (iv_adjust_flags oob fw i 0 0 (fw_skb fw) @ pad) = map (msg_sent_on fw i) ws"
proof -
  have ws: "\<forall>w \<in> set ws. wire_ok w" "fw_skb fw = concat (map wire ws)"
    "unat (fw_packet_len fw) = length (fw_skb fw)"
    and b: "\<And>n. bit (fw_direct_link_flags fw) n \<longleftrightarrow> n < length ws \<and> is_direct (ws ! n)"
    using h by (auto simp: fw_holds_def)
  have "iv_adjust_flags oob fw i 0 0 ([] @ concat (map wire ws)) = [] @ concat (map wire (sent_msgs fw i 0 ws))"
    using ws l by (intro adjust_wires) simp_all
  then have s: "iv_adjust_flags oob fw i 0 0 (fw_skb fw) = concat (map wire (sent_msgs fw i 0 ws))"
    using ws(2) by simp
  have "iv_parse oob' (concat (map wire (sent_msgs fw i 0 ws)) @ pad) = [] @ sent_msgs fw i 0 ws"
    unfolding iv_parse_def
    using sent_msgs_ok [OF ws(1)] sent_msgs_length [OF ws(1), of fw i 0] ws(2) l pad
    by (intro unpack_wires [where pre = "[]"]) simp_all
  moreover have "sent_msgs fw i 0 ws = map (msg_sent_on fw i) ws"
    using b by (intro sent_msgs_map) simp
  ultimately show ?thesis
    using s by simp
qed

section \<open>Adding to the queue\<close>

lemma try_aggregate_Some:
  "iv_try_aggregate can aggr l = Some (l', panic) \<Longrightarrow>
   \<exists>j < length l. can (l ! j) \<and> l' = l[j := fst (aggr (l ! j))] \<and> panic = snd (aggr (l ! j))"
proof (induction l arbitrary: l')
  case Nil
  then show ?case by simp
next
  case (Cons fw l)
  show ?case
  proof (cases "can fw")
    case True
    then show ?thesis
      using Cons.prems by (intro exI [of _ 0]) (auto simp: prod_eq_iff split: prod.splits)
  next
    case False
    then obtain l1 where l1: "iv_try_aggregate can aggr l = Some (l1, panic)" "l' = fw # l1"
      using Cons.prems by auto
    from Cons.IH [OF l1(1)] obtain j where "j < length l" "can (l ! j)"
      "l1 = l[j := fst (aggr (l ! j))]" "panic = snd (aggr (l ! j))"
      by blast
    then show ?thesis
      using l1(2) by (intro exI [of _ "Suc j"]) simp
  qed
qed

lemma ogm_at_wire [simp]: "ogm_at (wire w) 0 = fst w"
  using ogm_at_bytes [of "[]" 0 "fst w" "snd w"] by (simp add: wire_def)

lemma can_aggregate_facts:
  assumes "batadv_iv_ogm_can_aggregate k s p len t d i oi fw"
  shows "unat (fw_packet_len fw) + len \<le> 512" and "fw_if_outgoing fw = oi"
  using assms by (auto simp: batadv_iv_ogm_can_aggregate_def Let_def split: if_splits option.splits)

lemma aggregate_new_list:
  "bp_forw_bat_list (batadv_iv_ogm_aggregate_new buf len t d i oi own s) = bp_forw_bat_list s \<or>
   (\<exists>fw. bp_forw_bat_list (batadv_iv_ogm_aggregate_new buf len t d i oi own s) = fw # bp_forw_bat_list s \<and>
      fw_skb fw = take len buf \<and> fw_packet_len fw = of_nat len \<and> fw_num_packets fw = 0 \<and>
      fw_direct_link_flags fw = (if d then 1 else 0) \<and> fw_if_incoming fw = i \<and> fw_if_outgoing fw = oi \<and>
      fw_own fw = own \<and> (bp_aggregated_ogms s \<longrightarrow> 512 \<le> len + fw_room fw))"
  by (auto simp: batadv_iv_ogm_aggregate_new_def Let_def kzalloc_def split: if_splits list.splits)

lemma aggregate_new_panic [simp]:
  "bp_panic (batadv_iv_ogm_aggregate_new buf len t d i oi own s) = bp_panic s"
  by (auto simp: batadv_iv_ogm_aggregate_new_def Let_def kzalloc_def split: if_splits list.splits)

lemma new_holds:
  assumes "wire_ok w" "length (wire w) < 65536"
    and "fw_skb fw = wire w" "fw_packet_len fw = of_nat (length (wire w))" "fw_num_packets fw = 0"
    and "fw_direct_link_flags fw = (if is_direct w then 1 else 0)"
  shows "fw_holds fw [w]"
  using assms by (auto simp: fw_holds_def unat_of_nat bit_1_iff)

lemma queue_add_cases:
  fixes s :: batadv_priv
  assumes s': "s' = batadv_iv_ogm_queue_add k (wire w) (length (wire w)) i oi own t s"
  obtains (new_packet) t' where
      "s' = batadv_iv_ogm_aggregate_new (wire w) (length (wire w)) t' (is_direct w) i oi own s"
  | (aggregated) j fw panic where "j < length (bp_forw_bat_list s)" "bp_aggregated_ogms s" "\<not> own"
      "batadv_iv_ogm_can_aggregate k s (fst w) (length (wire w)) t (is_direct w) i oi (bp_forw_bat_list s ! j)"
      "batadv_iv_ogm_aggregate (bp_forw_bat_list s ! j) (wire w) (length (wire w)) (is_direct w) = (fw, panic)"
      "s' = s\<lparr>bp_forw_bat_list := (bp_forw_bat_list s)[j := fw], bp_panic := bp_panic s \<or> panic\<rparr>"
proof -
  let ?l = "bp_forw_bat_list s"
  let ?can = "batadv_iv_ogm_can_aggregate k s (fst w) (length (wire w)) t (is_direct w) i oi"
  let ?aggr = "\<lambda>pos. batadv_iv_ogm_aggregate pos (wire w) (length (wire w)) (is_direct w)"
  let ?found = "if bp_aggregated_ogms s \<and> \<not> own then iv_try_aggregate ?can ?aggr ?l else None"
  let ?t = "if \<not> own \<and> bp_aggregated_ogms s then t + k_m2j k BATADV_MAX_AGGREGATION_MS else t"
  have cs: "s' = (case ?found of
        None \<Rightarrow> batadv_iv_ogm_aggregate_new (wire w) (length (wire w)) ?t (is_direct w) i oi own s
      | Some (l', panic) \<Rightarrow> s\<lparr>bp_forw_bat_list := l', bp_panic := bp_panic s \<or> panic\<rparr>)"
    by (simp only: s' batadv_iv_ogm_queue_add_def Let_def is_direct_def ogm_at_wire)
  show thesis
  proof (cases ?found)
    case None
    then have "s' = batadv_iv_ogm_aggregate_new (wire w) (length (wire w)) ?t (is_direct w) i oi own s"
      by (simp only: cs option.case)
    then show thesis by (rule new_packet)
  next
    case (Some r)
    obtain l' panic where r: "r = (l', panic)" by (cases r)
    have own: "bp_aggregated_ogms s" "\<not> own" and f: "iv_try_aggregate ?can ?aggr ?l = Some (l', panic)"
      using Some r by (simp_all split: if_splits)
    have e: "s' = s\<lparr>bp_forw_bat_list := l', bp_panic := bp_panic s \<or> panic\<rparr>"
      using Some r by (simp only: cs option.case prod.case)
    obtain j where j: "j < length ?l" "?can (?l ! j)" "l' = ?l[j := fst (?aggr (?l ! j))]"
      "panic = snd (?aggr (?l ! j))"
      using try_aggregate_Some [OF f] by blast
    show thesis
      by (rule aggregated [OF j(1) own j(2), of "fst (?aggr (?l ! j))" panic])
        (simp_all add: e j(3,4))
  qed
qed

text \<open>What an addition does to the contents of the queue.\<close>

definition queue_grows ::
  "batadv_priv \<Rightarrow> ogm_msg list list \<Rightarrow> ogm_msg \<Rightarrow> nat \<Rightarrow> bool \<Rightarrow> ogm_msg list list \<Rightarrow> bool" where
  "queue_grows s wss w oi own wss' \<longleftrightarrow>
     wss' = wss \<or> wss' = [w] # wss \<or>
     (\<exists>j < length wss. wss' = wss[j := wss ! j @ [w]] \<and>
        fw_if_outgoing (bp_forw_bat_list s ! j) = oi \<and> \<not> own)"

definition queue_holds :: "batadv_priv \<Rightarrow> ogm_msg list list \<Rightarrow> bool" where
  "queue_holds s wss \<longleftrightarrow>
     list_all2 fw_holds (bp_forw_bat_list s) wss \<and>
     (bp_aggregated_ogms s \<longrightarrow> (\<forall>fw \<in> set (bp_forw_bat_list s). fw_room_ok fw))"

lemma aggregate_new_aggregated [simp]:
  "bp_aggregated_ogms (batadv_iv_ogm_aggregate_new buf len t d i oi own s) = bp_aggregated_ogms s"
  by (auto simp: batadv_iv_ogm_aggregate_new_def Let_def kzalloc_def split: if_splits list.splits)

lemma queue_add_new:
  assumes q: "queue_holds s wss" and ok: "wire_ok w" "length (wire w) < 65536"
    and e: "s' = batadv_iv_ogm_aggregate_new (wire w) (length (wire w)) t (is_direct w) i oi own s"
  shows "queue_holds s' wss \<or> queue_holds s' ([w] # wss)"
proof -
  consider "bp_forw_bat_list s' = bp_forw_bat_list s"
    | fw where "bp_forw_bat_list s' = fw # bp_forw_bat_list s" "fw_skb fw = wire w"
      "fw_packet_len fw = of_nat (length (wire w))" "fw_num_packets fw = 0"
      "fw_direct_link_flags fw = (if is_direct w then 1 else 0)"
      "bp_aggregated_ogms s \<longrightarrow> 512 \<le> length (wire w) + fw_room fw"
    using aggregate_new_list [of "wire w" "length (wire w)" t "is_direct w" i oi own s]
    unfolding e take_all [OF order_refl] by blast
  then show ?thesis
  proof cases
    case 1
    then show ?thesis
      using q unfolding queue_holds_def by (simp add: e)
  next
    case 2
    have "fw_holds fw [w]"
      using 2 ok by (intro new_holds)
    moreover have "bp_aggregated_ogms s \<longrightarrow> fw_room_ok fw"
      using 2 by (simp add: fw_room_ok_def)
    ultimately have "queue_holds s' ([w] # wss)"
      using q 2(1) unfolding queue_holds_def by (simp add: e)
    then show ?thesis ..
  qed
qed

lemma queue_add_aggregated:
  assumes q: "queue_holds s wss" and ok: "wire_ok w"
    and j: "j < length (bp_forw_bat_list s)" and agg: "bp_aggregated_ogms s"
    and can: "batadv_iv_ogm_can_aggregate k s (fst w) (length (wire w)) t (is_direct w) i oi (bp_forw_bat_list s ! j)"
    and a: "batadv_iv_ogm_aggregate (bp_forw_bat_list s ! j) (wire w) (length (wire w)) (is_direct w) = (fw, panic)"
  shows "\<not> panic" and "fw_if_outgoing (bp_forw_bat_list s ! j) = oi" and "j < length wss"
    and "queue_holds (s\<lparr>bp_forw_bat_list := (bp_forw_bat_list s)[j := fw], bp_panic := p\<rparr>) (wss[j := wss ! j @ [w]])"
proof -
  let ?f = "bp_forw_bat_list s ! j"
  have q2: "list_all2 fw_holds (bp_forw_bat_list s) wss"
    and room: "\<forall>fw \<in> set (bp_forw_bat_list s). fw_room_ok fw"
    using q agg by (simp_all add: queue_holds_def)
  have hj: "fw_holds ?f (wss ! j)"
    using q2 j by (simp add: list_all2_conv_all_nth)
  show lj: "j < length wss"
    using q2 j by (simp add: list_all2_lengthD)
  have sz: "unat (fw_packet_len ?f) + length (wire w) \<le> 512"
    using can_aggregate_facts(1) [OF can] .
  have rf: "fw_room_ok ?f"
    using room j by simp
  have rm: "length (wire w) \<le> fw_room ?f"
    using sz hj rf by (simp add: fw_room_ok_def fw_holds_def)
  note ag = aggregate_holds [OF hj ok sz rm]
  show "\<not> panic"
    using ag(2) a by simp
  show "fw_if_outgoing ?f = oi"
    using can_aggregate_facts(2) [OF can] .
  have "fw_skb fw = fw_skb ?f @ wire w \<and> fw_room fw = fw_room ?f - length (wire w)"
    using a rm by (auto simp: batadv_iv_ogm_aggregate_def Let_def)
  then have "fw_room_ok fw"
    using rf rm by (simp add: fw_room_ok_def)
  then have "\<forall>x \<in> set ((bp_forw_bat_list s)[j := fw]). fw_room_ok x"
    using room set_update_subset_insert [of "bp_forw_bat_list s" j fw] by blast
  moreover have "list_all2 fw_holds ((bp_forw_bat_list s)[j := fw]) (wss[j := wss ! j @ [w]])"
    using q2 ag(1) a by (intro list_all2_update_cong) simp_all
  ultimately show "queue_holds (s\<lparr>bp_forw_bat_list := (bp_forw_bat_list s)[j := fw], bp_panic := p\<rparr>)
      (wss[j := wss ! j @ [w]])"
    by (simp add: queue_holds_def)
qed

lemma queue_add_list:
  assumes q: "queue_holds s wss" and ok: "wire_ok w" "length (wire w) < 65536"
    and s': "s' = batadv_iv_ogm_queue_add k (wire w) (length (wire w)) i oi own t s"
  shows "bp_panic s' = bp_panic s \<and> (\<exists>wss'. queue_holds s' wss' \<and> queue_grows s wss w oi own wss')"
  using s'
proof (cases rule: queue_add_cases)
  case (new_packet t')
  then show ?thesis
    using queue_add_new [OF q ok new_packet] by (auto simp: queue_grows_def)
next
  case (aggregated j fw panic)
  note a = queue_add_aggregated [OF q ok(1) aggregated(1,2,4,5)]
  have "queue_grows s wss w oi own (wss[j := wss ! j @ [w]])"
    using a(2,3) aggregated(3) unfolding queue_grows_def by blast
  then show ?thesis
    using a(1) a(4) [of "bp_panic s \<or> panic"] aggregated(6) by auto
qed

text \<open>Only packets of others count against the length of the queue.\<close>

definition foreign :: "batadv_priv \<Rightarrow> nat" where
  "foreign s = length (filter (\<lambda>fw. \<not> fw_own fw) (bp_forw_bat_list s))"

lemma aggregate_new_counts:
  "bp_batman_queue_left (batadv_iv_ogm_aggregate_new buf len t d i oi own s)
     + foreign (batadv_iv_ogm_aggregate_new buf len t d i oi own s) = bp_batman_queue_left s + foreign s"
  by (auto simp: batadv_iv_ogm_aggregate_new_def Let_def kzalloc_def foreign_def split: if_splits list.splits)

lemma length_filter_update:
  "j < length l \<Longrightarrow> P x = P (l ! j) \<Longrightarrow> length (filter P (l[j := x])) = length (filter P l)"
proof (induction l arbitrary: j)
  case Nil
  then show ?case by simp
next
  case (Cons y l)
  then show ?case by (cases j) auto
qed

lemma queue_add_counts:
  assumes "s' = batadv_iv_ogm_queue_add k (wire w) (length (wire w)) i oi own t s"
  shows "bp_batman_queue_left s' + foreign s' = bp_batman_queue_left s + foreign s"
  using assms
proof (cases rule: queue_add_cases)
  case (new_packet t')
  then show ?thesis by (simp add: aggregate_new_counts)
next
  case (aggregated j fw panic)
  have "fw_own fw = fw_own (bp_forw_bat_list s ! j)"
    using aggregated(5) by (auto simp: batadv_iv_ogm_aggregate_def Let_def split: if_splits)
  then show ?thesis
    using aggregated(1,6) length_filter_update [of j "bp_forw_bat_list s" "\<lambda>fw. \<not> fw_own fw" fw]
    by (simp add: foreign_def)
qed

end
