(* ===== verification/Nc_Node.thy ===== *)
theory Nc_Node
  imports Iv_Aggregation
begin

text \<open>
  Who hears whom, for network coding (\<open>network-coding.c\<close>): every originator keeps the
  neighbours it hears well (\<open>on_in_coding_list\<close>) and those that hear it well
  (\<open>on_out_coding_list\<close>). Received OGMs keep the lists up to date, a timer drops what is old.
  A pointer to an entry is its place in a list: the address is unique there.
\<close>

abbreviation BATADV_NC_NODE_TIMEOUT :: u32 where "BATADV_NC_NODE_TIMEOUT \<equiv> 10000"

definition batadv_can_nc_with_orig :: "nat \<Rightarrow> batadv_ogm_packet \<Rightarrow> batadv_priv \<Rightarrow> bool" where
  "batadv_can_nc_with_orig orig_node ogm_packet s =
     (case batadv_orig_ifinfo_get s orig_node None of
        None \<Rightarrow> False
      | Some orig_ifinfo \<Rightarrow>
          oi_last_real_seqno orig_ifinfo = og_seqno ogm_packet \<and>
          uint (oi_last_ttl orig_ifinfo) = uint (og_ttl ogm_packet) + 1 \<and>
          batadv_compare_eth (og_orig ogm_packet) (og_prev_sender ogm_packet) \<and>
          nc_min_tq (bp_nc s) \<le> og_tq ogm_packet)"

definition coding_list :: "bool \<Rightarrow> batadv_orig_node \<Rightarrow> batadv_nc_node list" where
  "coding_list in_coding n = (if in_coding then on_in_coding_list n else on_out_coding_list n)"

definition coding_list_mod ::
  "bool \<Rightarrow> (batadv_nc_node list \<Rightarrow> batadv_nc_node list) \<Rightarrow> batadv_orig_node \<Rightarrow> batadv_orig_node" where
  "coding_list_mod in_coding f n =
     (if in_coding then n\<lparr>on_in_coding_list := f (on_in_coding_list n)\<rparr>
      else n\<lparr>on_out_coding_list := f (on_out_coding_list n)\<rparr>)"

definition batadv_nc_find_nc_node :: "nat \<Rightarrow> nat \<Rightarrow> bool \<Rightarrow> batadv_priv \<Rightarrow> batadv_nc_node option" where
  "batadv_nc_find_nc_node orig_node orig_neigh_node in_coding s =
     find (\<lambda>nc_node. batadv_compare_eth (nc_addr nc_node) (on_orig (orig_of s orig_node)))
       (coding_list in_coding (orig_of s orig_neigh_node))"

text \<open>The result: is there an entry afterwards?\<close>

definition batadv_nc_get_nc_node :: "nat \<Rightarrow> nat \<Rightarrow> bool \<Rightarrow> batadv_priv \<Rightarrow> bool \<times> batadv_priv" where
  "batadv_nc_get_nc_node orig_node orig_neigh_node in_coding s =
     (if batadv_nc_find_nc_node orig_node orig_neigh_node in_coding s \<noteq> None then (True, s)
      else
        (let (ok, s) = kzalloc s in
         if \<not> ok then (False, s)
         else
           (let nc_node = \<lparr>nc_addr = on_orig (orig_of s orig_node), nc_orig_node = orig_neigh_node, nc_last_seen = 0\<rparr>
            in (True, orig_mod orig_neigh_node (coding_list_mod in_coding (\<lambda>l. l @ [nc_node])) s))))"

definition nc_node_seen :: "kenv \<Rightarrow> nat \<Rightarrow> nat \<Rightarrow> bool \<Rightarrow> batadv_priv \<Rightarrow> batadv_priv" where
  "nc_node_seen k orig_node orig_neigh_node in_coding s =
     orig_mod orig_neigh_node (coding_list_mod in_coding
       (update_first (\<lambda>nc_node. batadv_compare_eth (nc_addr nc_node) (on_orig (orig_of s orig_node)))
          (\<lambda>nc_node. nc_node\<lparr>nc_last_seen := k_jiffies k\<rparr>))) s"

definition batadv_nc_update_nc_node ::
  "kenv \<Rightarrow> nat \<Rightarrow> nat \<Rightarrow> batadv_ogm_packet \<Rightarrow> bool \<Rightarrow> batadv_priv \<Rightarrow> batadv_priv" where
  "batadv_nc_update_nc_node k orig_node orig_neigh_node ogm_packet is_single_hop_neigh s =
     (if \<not> bp_network_coding s then s
      else if \<not> bit (on_capabilities (orig_of s orig_node)) 1 then s
      else if \<not> batadv_can_nc_with_orig orig_node ogm_packet s \<and> \<not> is_single_hop_neigh then s
      else
        (let (found, s) = batadv_nc_get_nc_node orig_node orig_neigh_node True s in
         if \<not> found then s
         else
           (let s = nc_node_seen k orig_node orig_neigh_node True s;
                (found, s) = batadv_nc_get_nc_node orig_neigh_node orig_node False s
            in if \<not> found then s else nc_node_seen k orig_neigh_node orig_node False s)))"

definition batadv_nc_to_purge_nc_node :: "kenv \<Rightarrow> batadv_priv \<Rightarrow> batadv_nc_node \<Rightarrow> bool" where
  "batadv_nc_to_purge_nc_node k s nc_node \<longleftrightarrow>
     bp_mesh_state s \<noteq> BATADV_MESH_ACTIVE \<or> batadv_has_timed_out k (nc_last_seen nc_node) BATADV_NC_NODE_TIMEOUT"

text \<open>A missing test, the NULL callback, removes everything.\<close>

definition batadv_nc_purge_orig_nc_nodes ::
  "(batadv_nc_node \<Rightarrow> bool) option \<Rightarrow> batadv_nc_node list \<Rightarrow> batadv_nc_node list" where
  "batadv_nc_purge_orig_nc_nodes to_purge list =
     filter (\<lambda>nc_node. case to_purge of None \<Rightarrow> False | Some p \<Rightarrow> \<not> p nc_node) list"

definition batadv_nc_purge_orig :: "nat \<Rightarrow> (batadv_nc_node \<Rightarrow> bool) option \<Rightarrow> batadv_priv \<Rightarrow> batadv_priv" where
  "batadv_nc_purge_orig orig_node to_purge =
     orig_mod orig_node (\<lambda>n. n\<lparr>on_in_coding_list := batadv_nc_purge_orig_nc_nodes to_purge (on_in_coding_list n),
                              on_out_coding_list := batadv_nc_purge_orig_nc_nodes to_purge (on_out_coding_list n)\<rparr>)"

definition batadv_nc_purge_orig_hash :: "kenv \<Rightarrow> batadv_priv \<Rightarrow> batadv_priv" where
  "batadv_nc_purge_orig_hash k s =
     fold (\<lambda>(_, n) t. batadv_nc_purge_orig n (Some (batadv_nc_to_purge_nc_node k s)) t) (bp_table s) s"

end
