(* ===== verification/Router.thy ===== *)
theory Router
  imports Originator
begin

text \<open>
  Choosing routers: the route update and the sequence-number protection of \<open>routing.c\<close>,
  and the purging half of \<open>originator.c\<close>, which re-elects routers. The metric is that of
  the routing algorithm, a callback of \<open>struct batadv_algo_ops\<close>; the locale
  \<open>neigh_ranking\<close> is what the election needs of it.
\<close>

section \<open>Setting a route\<close>

text \<open>\<open>_batadv_update_route\<close>\<close>

definition do_update_route :: "nat \<Rightarrow> nat option \<Rightarrow> nat option \<Rightarrow> batadv_priv \<Rightarrow> batadv_priv" where
  "do_update_route orig_node recv_if neigh_node s =
     (case batadv_orig_ifinfo_get s orig_node recv_if of
        None \<Rightarrow> s
      | Some orig_ifinfo \<Rightarrow>
          (let curr_router = oi_router orig_ifinfo;
               s = (if curr_router \<noteq> None \<and> neigh_node = None
                    then call (Tt_Global_Del_Orig orig_node) s else s)
           in orig_ifinfo_mod orig_node recv_if (\<lambda>i. i\<lparr>oi_router := neigh_node\<rparr>) s))"

definition batadv_update_route :: "nat \<Rightarrow> nat option \<Rightarrow> nat option \<Rightarrow> batadv_priv \<Rightarrow> batadv_priv" where
  "batadv_update_route orig_node recv_if neigh_node s =
     (if batadv_orig_router_get s orig_node recv_if \<noteq> neigh_node
      then do_update_route orig_node recv_if neigh_node s else s)"

text \<open>
  The result: is the packet to be ignored, the time of the last reset, did the
  protection start now.
\<close>

definition batadv_window_protected ::
  "kenv \<Rightarrow> s32 \<Rightarrow> int \<Rightarrow> u64 \<Rightarrow> bool \<times> u64 \<times> bool" where
  "batadv_window_protected k seq_num_diff seq_old_max_diff last_reset =
     (if sint seq_num_diff \<le> - seq_old_max_diff \<or> sint seq_num_diff \<ge> BATADV_EXPECTED_SEQNO_RANGE then
        (if \<not> batadv_has_timed_out k last_reset BATADV_RESET_PROTECTION_MS then (True, last_reset, False)
         else (False, k_jiffies k, True))
      else (False, last_reset, False))"

section \<open>Purging\<close>

definition batadv_purge_neigh_ifinfo :: "nat \<Rightarrow> batadv_priv \<Rightarrow> batadv_priv" where
  "batadv_purge_neigh_ifinfo neigh s =
     neigh_mod neigh (\<lambda>n. n\<lparr>nn_ifinfo_list := filter (\<lambda>i.
       (case ni_if_outgoing i of None \<Rightarrow> True | Some j \<Rightarrow> \<not> iface_going_down s j)) (nn_ifinfo_list n)\<rparr>) s"

definition batadv_purge_orig_ifinfo :: "nat \<Rightarrow> batadv_priv \<Rightarrow> bool \<times> batadv_priv" where
  "batadv_purge_orig_ifinfo orig_node s =
     (let keep = (\<lambda>i. case oi_if_outgoing i of None \<Rightarrow> True | Some j \<Rightarrow> \<not> iface_going_down s j);
          purged = filter (\<lambda>i. \<not> keep i) (on_ifinfo_list (orig_of s orig_node))
      in (purged \<noteq> [],
          orig_mod orig_node (\<lambda>n. n\<lparr>
            on_ifinfo_list := filter keep (on_ifinfo_list n),
            on_last_bonding_candidate :=
              (case on_last_bonding_candidate n of
                 None \<Rightarrow> None
               | Some c \<Rightarrow> if list_ex (\<lambda>i. oi_if_outgoing i = c) purged then None else Some c)\<rparr>) s))"

definition neigh_obsolete :: "kenv \<Rightarrow> batadv_priv \<Rightarrow> nat \<Rightarrow> bool" where
  "neigh_obsolete k s n \<longleftrightarrow>
     batadv_has_timed_out k (nn_last_seen (neigh_of s n)) BATADV_PURGE_TIMEOUT \<or>
     iface_going_down s (nn_if_incoming (neigh_of s n))"

definition batadv_purge_orig_neighbors :: "kenv \<Rightarrow> nat \<Rightarrow> batadv_priv \<Rightarrow> bool \<times> batadv_priv" where
  "batadv_purge_orig_neighbors k orig_node s =
     fold (\<lambda>n (neigh_purged, s).
         if neigh_obsolete k s n then
           (True, orig_mod orig_node (\<lambda>o'. o'\<lparr>on_neigh_list := remove1 n (on_neigh_list o')\<rparr>) s)
         else (neigh_purged, batadv_purge_neigh_ifinfo n s))
       (on_neigh_list (orig_of s orig_node)) (False, s)"

type_synonym neigh_cmp = "batadv_priv \<Rightarrow> nat \<Rightarrow> nat option \<Rightarrow> nat \<Rightarrow> nat option \<Rightarrow> int"

definition batadv_find_best_neighbor ::
  "neigh_cmp \<Rightarrow> batadv_priv \<Rightarrow> nat \<Rightarrow> nat option \<Rightarrow> nat option" where
  "batadv_find_best_neighbor bat_neigh_cmp s orig_node if_outgoing =
     fold (\<lambda>neigh best.
         case best of
           None \<Rightarrow> Some neigh
         | Some b \<Rightarrow> if bat_neigh_cmp s neigh if_outgoing b if_outgoing \<le> 0 then Some b else Some neigh)
       (on_neigh_list (orig_of s orig_node)) None"

definition reelect ::
  "neigh_cmp \<Rightarrow> nat \<Rightarrow> nat option \<Rightarrow> batadv_priv \<Rightarrow> batadv_priv" where
  "reelect bat_neigh_cmp orig_node if_outgoing s =
     batadv_update_route orig_node if_outgoing
       (batadv_find_best_neighbor bat_neigh_cmp s orig_node if_outgoing) s"

definition batadv_purge_orig_node ::
  "kenv \<Rightarrow> neigh_cmp \<Rightarrow> nat \<Rightarrow> batadv_priv \<Rightarrow> bool \<times> batadv_priv" where
  "batadv_purge_orig_node k bat_neigh_cmp orig_node s =
     (if batadv_has_timed_out k (on_last_seen (orig_of s orig_node)) (2 * BATADV_PURGE_TIMEOUT) then (True, s)
      else
        (let (changed_ifinfo, s) = batadv_purge_orig_ifinfo orig_node s;
             (changed_neigh, s) = batadv_purge_orig_neighbors k orig_node s
         in if \<not> changed_ifinfo \<and> \<not> changed_neigh then (False, s)
            else
              (let s = reelect bat_neigh_cmp orig_node None s
               in (False, fold (\<lambda>i s. if mesh_iface s i then reelect bat_neigh_cmp orig_node (Some i) s else s)
                            (bp_hardif_list s) s))))"

definition orig_purge_step ::
  "kenv \<Rightarrow> neigh_cmp \<Rightarrow> mac \<times> nat \<Rightarrow> batadv_priv \<Rightarrow> batadv_priv" where
  "orig_purge_step k bat_neigh_cmp node s =
     (let (gone, s) = batadv_purge_orig_node k bat_neigh_cmp (snd node) s in
      if gone then
        (let s = call (Gw_Node_Delete (snd node)) s;
             s = s\<lparr>bp_orig_hash := map_option (hash_filter (\<lambda>n. n \<noteq> node)) (bp_orig_hash s)\<rparr>
         in call (Tt_Global_Del_Orig (snd node)) s)
      else orig_mod (snd node) (\<lambda>n. n\<lparr>on_fragments :=
             fst (batadv_frag_purge_orig (on_fragments n) (Some (batadv_frag_check_entry k)))\<rparr>) s)"

text \<open>\<open>_batadv_purge_orig\<close>\<close>

definition batadv_purge_orig :: "kenv \<Rightarrow> neigh_cmp \<Rightarrow> batadv_priv \<Rightarrow> batadv_priv" where
  "batadv_purge_orig k bat_neigh_cmp s =
     (if bp_orig_hash s = None then s
      else call Gw_Election (fold (orig_purge_step k bat_neigh_cmp) (bp_table s) s))"

section \<open>Interfaces that come and go\<close>

fun orig_hash_walk ::
  "(nat \<Rightarrow> batadv_priv \<Rightarrow> bool \<times> batadv_priv) \<Rightarrow> (mac \<times> nat) list \<Rightarrow> batadv_priv \<Rightarrow> bool \<times> batadv_priv" where
  "orig_hash_walk f [] s = (True, s)"
| "orig_hash_walk f (node # rest) s =
     (let (ok, s) = f (snd node) s in if ok then orig_hash_walk f rest s else (False, s))"

definition batadv_orig_hash_add_if ::
  "(nat \<Rightarrow> int \<Rightarrow> batadv_priv \<Rightarrow> bool \<times> batadv_priv) \<Rightarrow> int \<Rightarrow> batadv_priv \<Rightarrow> int \<times> batadv_priv" where
  "batadv_orig_hash_add_if bat_orig_add_if max_if_num s =
     (let (ok, s) = orig_hash_walk (\<lambda>o'. bat_orig_add_if o' max_if_num) (bp_table s) s
      in (if ok then 0 else - 12, s))"

definition batadv_orig_hash_del_if ::
  "(nat \<Rightarrow> int \<Rightarrow> int \<Rightarrow> batadv_priv \<Rightarrow> bool \<times> batadv_priv) \<Rightarrow> nat \<Rightarrow> int \<Rightarrow> batadv_priv \<Rightarrow> int \<times> batadv_priv" where
  "batadv_orig_hash_del_if bat_orig_del_if hard_iface max_if_num s =
     (let num = hi_if_num (hardif_of s hard_iface);
          (ok, s) = orig_hash_walk (\<lambda>o'. bat_orig_del_if o' max_if_num num) (bp_table s) s
      in if \<not> ok then (- 12, s)
         else
           (let s = fold (\<lambda>tmp s.
                   if hi_if_status (hardif_of s tmp) \<noteq> BATADV_IF_NOT_IN_USE \<and> tmp \<noteq> hard_iface \<and>
                      hi_soft_iface (hardif_of s hard_iface) = hi_soft_iface (hardif_of s tmp) \<and>
                      hi_if_num (hardif_of s tmp) > hi_if_num (hardif_of s hard_iface)
                   then hardif_mod tmp (\<lambda>i. i\<lparr>hi_if_num := hi_if_num i - 1\<rparr>) s else s)
                 (bp_hardif_list s) s
            in (0, hardif_mod hard_iface (\<lambda>i. i\<lparr>hi_if_num := - 1\<rparr>) s)))"

section \<open>The election\<close>

text \<open>
  A metric ranks the neighbours that have one; the comparison callback compares it.
\<close>

locale neigh_ranking =
  fixes bat_neigh_cmp :: neigh_cmp
    and metric :: "batadv_priv \<Rightarrow> nat \<Rightarrow> nat option \<Rightarrow> int option"
  assumes cmp_metric:
    "metric s n i = Some a \<Longrightarrow> metric s m j = Some b \<Longrightarrow> bat_neigh_cmp s n i m j \<le> 0 \<longleftrightarrow> a \<le> b"
begin

lemma best_fold:
  assumes "\<forall>n \<in> insert b (set ns). metric s n i \<noteq> None"
  shows "\<exists>r. fold (\<lambda>neigh best. case best of None \<Rightarrow> Some neigh
               | Some b \<Rightarrow> if bat_neigh_cmp s neigh i b i \<le> 0 then Some b else Some neigh) ns (Some b) = Some r
           \<and> r \<in> insert b (set ns)
           \<and> (\<forall>n \<in> insert b (set ns). the (metric s n i) \<le> the (metric s r i))"
  using assms
proof (induction ns arbitrary: b)
  case Nil
  then show ?case by simp
next
  case (Cons n ns)
  obtain mb mn where m: "metric s b i = Some mb" "metric s n i = Some mn"
    using Cons.prems by auto
  let ?b = "if bat_neigh_cmp s n i b i \<le> 0 then b else n"
  have mono: "the (metric s x i) \<le> the (metric s ?b i)" if "x = b \<or> x = n" for x
    using that m cmp_metric [OF m(2) m(1)] by auto
  have "\<forall>x \<in> insert ?b (set ns). metric s x i \<noteq> None"
    using Cons.prems by auto
  from Cons.IH [OF this] obtain r where r:
    "fold (\<lambda>neigh best. case best of None \<Rightarrow> Some neigh
       | Some b \<Rightarrow> if bat_neigh_cmp s neigh i b i \<le> 0 then Some b else Some neigh) ns (Some ?b) = Some r"
    "r \<in> insert ?b (set ns)" "\<forall>x \<in> insert ?b (set ns). the (metric s x i) \<le> the (metric s r i)"
    by blast
  then have "\<forall>x \<in> insert b (set (n # ns)). the (metric s x i) \<le> the (metric s r i)"
    using mono by (metis (no_types, lifting) insert_iff list.simps(15) order_trans)
  moreover have "r \<in> insert b (set (n # ns))"
    using r(2) by (auto split: if_splits)
  ultimately show ?case
    using r(1) by (intro exI [of _ r]) (auto simp: if_distrib [of Some] split: if_splits)
qed

text \<open>The elected neighbour is in the list and no other one ranks above it.\<close>

lemma best_neighbor:
  assumes "\<forall>n \<in> set (on_neigh_list (orig_of s o')). metric s n i \<noteq> None"
    and "on_neigh_list (orig_of s o') \<noteq> []"
  shows "\<exists>r. batadv_find_best_neighbor bat_neigh_cmp s o' i = Some r
           \<and> r \<in> set (on_neigh_list (orig_of s o'))
           \<and> (\<forall>n \<in> set (on_neigh_list (orig_of s o')). the (metric s n i) \<le> the (metric s r i))"
proof -
  obtain b ns where l: "on_neigh_list (orig_of s o') = b # ns"
    using assms(2) by (cases "on_neigh_list (orig_of s o')") auto
  then show ?thesis
    using best_fold [of b ns s i] assms(1) by (simp add: batadv_find_best_neighbor_def)
qed

end

end
