(* ===== verification/Tvlv.thy ===== *)
theory Tvlv
  imports Originator
begin

text \<open>
  TVLV containers, the part of \<open>main.c\<close> that lets other components attach data to OGMs:
  the registered containers are copied behind the header of every OGM of the primary
  interface, and the data of a received OGM or unicast packet is parsed and handed to the
  registered handlers. The handlers themselves are arguments, from type, version and
  content to a change of the state. Buffers are byte lists; a write past the end of one is
  \<open>bp_panic\<close>.
\<close>

abbreviation BATADV_TVLV_HANDLER_OGM_CIFNOTFND :: u8 where "BATADV_TVLV_HANDLER_OGM_CIFNOTFND \<equiv> 2"
abbreviation BATADV_TVLV_HANDLER_OGM_CALLED :: u8 where "BATADV_TVLV_HANDLER_OGM_CALLED \<equiv> 4"
abbreviation BATADV_UNICAST_TVLV :: u8 where "BATADV_UNICAST_TVLV \<equiv> 0x44"
abbreviation TVLV_HLEN :: "'a :: numeral" where "TVLV_HLEN \<equiv> 4"

section \<open>Containers\<close>

definition batadv_tvlv_container_get ::
  "batadv_priv \<Rightarrow> u8 \<Rightarrow> u8 \<Rightarrow> batadv_tvlv_container option" where
  "batadv_tvlv_container_get s t v =
     find (\<lambda>tmp. th_type (tc_hdr tmp) = t \<and> th_version (tc_hdr tmp) = v) (bp_tvlv_containers s)"

definition batadv_tvlv_container_list_size :: "batadv_priv \<Rightarrow> u16" where
  "batadv_tvlv_container_list_size s =
     fold (\<lambda>tvlv tvlv_len. tvlv_len + TVLV_HLEN + th_len (tc_hdr tvlv)) (bp_tvlv_containers s) 0"

definition batadv_tvlv_container_remove ::
  "batadv_tvlv_container option \<Rightarrow> batadv_priv \<Rightarrow> batadv_priv" where
  "batadv_tvlv_container_remove tvlv s =
     (case tvlv of
        None \<Rightarrow> s
      | Some c \<Rightarrow> s\<lparr>bp_tvlv_containers := remove1 c (bp_tvlv_containers s)\<rparr>)"

definition batadv_tvlv_container_unregister :: "u8 \<Rightarrow> u8 \<Rightarrow> batadv_priv \<Rightarrow> batadv_priv" where
  "batadv_tvlv_container_unregister t v s =
     batadv_tvlv_container_remove (batadv_tvlv_container_get s t v) s"

text \<open>The content is NULL or points to at least as many bytes as its length says.\<close>

definition batadv_tvlv_container_register ::
  "u8 \<Rightarrow> u8 \<Rightarrow> u8 list option \<Rightarrow> u16 \<Rightarrow> batadv_priv \<Rightarrow> batadv_priv" where
  "batadv_tvlv_container_register t v tvlv_value tvlv_value_len s =
     (let len = (if tvlv_value = None then 0 else tvlv_value_len);
          (ok, s) = kzalloc s
      in if \<not> ok then s
         else
           (let tvlv_new = \<lparr>tc_hdr = \<lparr>th_type = t, th_version = v, th_len = len\<rparr>,
                            tc_value = (case tvlv_value of None \<Rightarrow> [] | Some b \<Rightarrow> take (unat len) b)\<rparr>;
                s = batadv_tvlv_container_remove (batadv_tvlv_container_get s t v) s
            in s\<lparr>bp_tvlv_containers := tvlv_new # bp_tvlv_containers s\<rparr>))"

section \<open>Appending to an OGM\<close>

definition tvlv_hdr_bytes :: "batadv_tvlv_hdr \<Rightarrow> u8 list" where
  "tvlv_hdr_bytes h = [th_type h, th_version h] @ be_bytes 2 (th_len h)"

definition tvlv_bytes :: "batadv_tvlv_container \<Rightarrow> u8 list" where
  "tvlv_bytes c = tvlv_hdr_bytes (tc_hdr c) @ take (unat (th_len (tc_hdr c))) (tc_value c)"

text \<open>Writing into a buffer; the second component says that the write left it.\<close>

definition mem_put :: "nat \<Rightarrow> u8 list \<Rightarrow> u8 list \<Rightarrow> u8 list \<times> bool" where
  "mem_put pos bs buf =
     (take (length buf) (take pos buf @ bs @ drop (pos + length bs) buf), pos + length bs > length buf)"

text \<open>The bytes of new memory are those of \<open>bp_stray\<close>: \<open>kmalloc\<close> does not clear it.\<close>

definition batadv_tvlv_realloc_packet_buff ::
  "u8 list \<Rightarrow> nat \<Rightarrow> nat \<Rightarrow> batadv_priv \<Rightarrow> bool \<times> u8 list \<times> batadv_priv" where
  "batadv_tvlv_realloc_packet_buff packet_buff min_packet_len additional_packet_len s =
     (let (ok, s) = kzalloc s in
      if \<not> ok then (False, packet_buff, s)
      else (True, take min_packet_len packet_buff @ replicate additional_packet_len (bp_stray s), s))"

fun tvlv_write :: "batadv_tvlv_container list \<Rightarrow> nat \<Rightarrow> u8 list \<Rightarrow> bool \<Rightarrow> u8 list \<times> bool" where
  "tvlv_write [] pos buf over = (buf, over)"
| "tvlv_write (tvlv # rest) pos buf over =
     (let (buf', over') = mem_put pos (tvlv_bytes tvlv) buf
      in tvlv_write rest (pos + TVLV_HLEN + unat (th_len (tc_hdr tvlv))) buf' (over \<or> over'))"

definition batadv_tvlv_container_ogm_append ::
  "u8 list \<Rightarrow> nat \<Rightarrow> batadv_priv \<Rightarrow> u16 \<times> u8 list \<times> batadv_priv" where
  "batadv_tvlv_container_ogm_append packet_buff packet_min_len s =
     (let tvlv_value_len = batadv_tvlv_container_list_size s;
          (ret, buff, s) = batadv_tvlv_realloc_packet_buff packet_buff packet_min_len (unat tvlv_value_len) s
      in if \<not> ret then (tvlv_value_len, buff, s)
         else if tvlv_value_len = 0 then (tvlv_value_len, buff, s)
         else
           (let (buff, over) = tvlv_write (bp_tvlv_containers s) packet_min_len buff False
            in (tvlv_value_len, buff, s\<lparr>bp_panic := bp_panic s \<or> over\<rparr>)))"

section \<open>Handlers\<close>

type_synonym ogm_handler = "u8 \<Rightarrow> u8 \<Rightarrow> nat \<Rightarrow> u8 \<Rightarrow> u8 list \<Rightarrow> batadv_priv \<Rightarrow> batadv_priv"
type_synonym unicast_handler = "u8 \<Rightarrow> u8 \<Rightarrow> mac \<Rightarrow> mac \<Rightarrow> u8 list \<Rightarrow> batadv_priv \<Rightarrow> int \<times> batadv_priv"

definition tvlv_handler_is :: "u8 \<Rightarrow> u8 \<Rightarrow> batadv_tvlv_handler \<Rightarrow> bool" where
  "tvlv_handler_is t v h \<longleftrightarrow> hd_type h = t \<and> hd_version h = v"

definition batadv_tvlv_handler_get ::
  "batadv_priv \<Rightarrow> u8 \<Rightarrow> u8 \<Rightarrow> batadv_tvlv_handler option" where
  "batadv_tvlv_handler_get s t v = find (tvlv_handler_is t v) (bp_tvlv_handlers s)"

definition batadv_tvlv_handler_register ::
  "bool \<Rightarrow> bool \<Rightarrow> u8 \<Rightarrow> u8 \<Rightarrow> u8 \<Rightarrow> batadv_priv \<Rightarrow> batadv_priv" where
  "batadv_tvlv_handler_register optr uptr t v flags s =
     (if batadv_tvlv_handler_get s t v \<noteq> None then s
      else
        (let (ok, s) = kzalloc s in
         if \<not> ok then s
         else s\<lparr>bp_tvlv_handlers := \<lparr>hd_type = t, hd_version = v, hd_flags = flags,
                  hd_ogm_handler = optr, hd_unicast_handler = uptr\<rparr> # bp_tvlv_handlers s\<rparr>))"

definition batadv_tvlv_handler_unregister :: "u8 \<Rightarrow> u8 \<Rightarrow> batadv_priv \<Rightarrow> batadv_priv" where
  "batadv_tvlv_handler_unregister t v s =
     (case batadv_tvlv_handler_get s t v of
        None \<Rightarrow> s
      | Some h \<Rightarrow> s\<lparr>bp_tvlv_handlers := remove1 h (bp_tvlv_handlers s)\<rparr>)"

text \<open>Writing through the pointer to the handler of a type and version.\<close>

definition tvlv_handler_mod ::
  "u8 \<Rightarrow> u8 \<Rightarrow> (batadv_tvlv_handler \<Rightarrow> batadv_tvlv_handler) \<Rightarrow> batadv_priv \<Rightarrow> batadv_priv" where
  "tvlv_handler_mod t v f s =
     s\<lparr>bp_tvlv_handlers := update_first (tvlv_handler_is t v) f (bp_tvlv_handlers s)\<rparr>"

section \<open>Parsing\<close>

definition batadv_tvlv_call_handler ::
  "ogm_handler \<Rightarrow> unicast_handler \<Rightarrow> batadv_tvlv_handler option \<Rightarrow> bool \<Rightarrow> nat option
   \<Rightarrow> mac option \<Rightarrow> mac option \<Rightarrow> u8 list \<Rightarrow> batadv_priv \<Rightarrow> int \<times> batadv_priv" where
  "batadv_tvlv_call_handler ocb ucb tvlv_handler ogm_source orig_node src dst tvlv_value s =
     (case tvlv_handler of
        None \<Rightarrow> (0, s)
      | Some h \<Rightarrow>
          if ogm_source then
            (if \<not> hd_ogm_handler h then (0, s)
             else
               (case orig_node of
                  None \<Rightarrow> (0, s)
                | Some o' \<Rightarrow>
                    (let s = ocb (hd_type h) (hd_version h) o' 0 tvlv_value s
                     in (0, tvlv_handler_mod (hd_type h) (hd_version h)
                              (\<lambda>h. h\<lparr>hd_flags := hd_flags h OR BATADV_TVLV_HANDLER_OGM_CALLED\<rparr>) s))))
          else
            (case (src, dst) of
               (Some src, Some dst) \<Rightarrow>
                 if \<not> hd_unicast_handler h then (0, s)
                 else ucb (hd_type h) (hd_version h) src dst tvlv_value s
             | _ \<Rightarrow> (0, s)))"

function tvlv_process_loop ::
  "ogm_handler \<Rightarrow> unicast_handler \<Rightarrow> bool \<Rightarrow> nat option \<Rightarrow> mac option \<Rightarrow> mac option
   \<Rightarrow> u8 list \<Rightarrow> int \<Rightarrow> batadv_priv \<Rightarrow> int \<times> batadv_priv" where
  "tvlv_process_loop ocb ucb ogm_source orig_node src dst tvlv_value ret s =
     (if length tvlv_value \<ge> TVLV_HLEN then
        (let tvlv_value_cont_len = unat (be_word (take 2 (drop 2 tvlv_value)) :: u16);
             rest = drop TVLV_HLEN tvlv_value
         in if tvlv_value_cont_len > length rest then (ret, s)
            else
              (let tvlv_handler = batadv_tvlv_handler_get s (tvlv_value ! 0) (tvlv_value ! 1);
                   (r, s) = batadv_tvlv_call_handler ocb ucb tvlv_handler ogm_source orig_node src dst
                              (take tvlv_value_cont_len rest) s
               in tvlv_process_loop ocb ucb ogm_source orig_node src dst
                    (drop tvlv_value_cont_len rest) (ret OR r) s))
      else (ret, s))"
  by pat_completeness auto

termination
  by (relation "measure (\<lambda>(ocb, ucb, b, o', src, dst, value, ret, s). length value)") auto

declare tvlv_process_loop.simps [simp del]

text \<open>
  Every call for an OGM names an originator. The second loop: a handler that asked for it and got no container is told so. The
  handlers do not change the list they are in, so the loop visits those that were
  registered when it started.
\<close>

definition tvlv_not_found ::
  "ogm_handler \<Rightarrow> nat \<Rightarrow> batadv_tvlv_handler \<Rightarrow> batadv_priv \<Rightarrow> batadv_priv" where
  "tvlv_not_found ocb orig_node h s =
     (let s = (if hd_flags h AND BATADV_TVLV_HANDLER_OGM_CIFNOTFND \<noteq> 0 \<and>
                  hd_flags h AND BATADV_TVLV_HANDLER_OGM_CALLED = 0
               then ocb (hd_type h) (hd_version h) orig_node BATADV_TVLV_HANDLER_OGM_CIFNOTFND [] s else s)
      in tvlv_handler_mod (hd_type h) (hd_version h)
           (\<lambda>h. h\<lparr>hd_flags := hd_flags h AND NOT BATADV_TVLV_HANDLER_OGM_CALLED\<rparr>) s)"

definition batadv_tvlv_containers_process ::
  "ogm_handler \<Rightarrow> unicast_handler \<Rightarrow> bool \<Rightarrow> nat option \<Rightarrow> mac option \<Rightarrow> mac option
   \<Rightarrow> u8 list \<Rightarrow> batadv_priv \<Rightarrow> int \<times> batadv_priv" where
  "batadv_tvlv_containers_process ocb ucb ogm_source orig_node src dst tvlv_value s =
     (let (ret, s) = tvlv_process_loop ocb ucb ogm_source orig_node src dst tvlv_value 0 s
      in if \<not> ogm_source then (ret, s)
         else
           (0, case orig_node of
                 None \<Rightarrow> s
               | Some o' \<Rightarrow> fold (tvlv_not_found ocb o') (bp_tvlv_handlers s) s))"

definition batadv_tvlv_ogm_receive ::
  "ogm_handler \<Rightarrow> u8 list \<Rightarrow> nat \<Rightarrow> batadv_priv \<Rightarrow> batadv_priv" where
  "batadv_tvlv_ogm_receive ocb tvlv_value orig_node s =
     (if tvlv_value = [] then s
      else snd (batadv_tvlv_containers_process ocb (\<lambda>_ _ _ _ _ s. (0, s)) True (Some orig_node)
                  None None tvlv_value s))"

section \<open>Unicast packets\<close>

record batadv_unicast_tvlv_packet =
  ut_packet_type :: u8
  ut_version :: u8
  ut_ttl :: u8
  ut_reserved :: u8
  ut_dst :: mac
  ut_src :: mac
  ut_tvlv_len :: u16
  ut_align :: u16

definition unicast_tvlv_bytes :: "batadv_unicast_tvlv_packet \<Rightarrow> u8 list" where
  "unicast_tvlv_bytes p =
     [ut_packet_type p, ut_version p, ut_ttl p, ut_reserved p] @ be_bytes 6 (ut_dst p) @
     be_bytes 6 (ut_src p) @ be_bytes 2 (ut_tvlv_len p) @ be_bytes 2 (ut_align p)"

definition batadv_tvlv_unicast_send ::
  "kenv \<Rightarrow> mac \<Rightarrow> mac \<Rightarrow> u8 \<Rightarrow> u8 \<Rightarrow> u8 list \<Rightarrow> u16 \<Rightarrow> batadv_priv \<Rightarrow> batadv_priv" where
  "batadv_tvlv_unicast_send k src dst t v tvlv_value tvlv_value_len s =
     (case batadv_orig_hash_find k s dst of
        None \<Rightarrow> s
      | Some orig_node \<Rightarrow>
          (let tvlv_len = TVLV_HLEN + unat tvlv_value_len;
               (ok, s) = kzalloc s
           in if \<not> ok then s
              else
                (let unicast_tvlv_packet =
                       \<lparr>ut_packet_type = BATADV_UNICAST_TVLV, ut_version = 15, ut_ttl = BATADV_TTL,
                        ut_reserved = 0, ut_dst = dst, ut_src = src, ut_tvlv_len = of_nat tvlv_len,
                        ut_align = 0\<rparr>;
                     tvlv_hdr = \<lparr>th_type = t, th_version = v, th_len = tvlv_value_len\<rparr>
                 in call (Send_Skb_To_Orig
                      (unicast_tvlv_bytes unicast_tvlv_packet @ tvlv_hdr_bytes tvlv_hdr @
                       take (unat tvlv_value_len) tvlv_value) orig_node None) s)))"

section \<open>The handlers of this mesh\<close>

text \<open>
  Two handlers record in the originator whether its OGMs announce a capability: those of
  the distributed ARP table and of network coding. A call of any other handler is recorded.
\<close>

abbreviation BATADV_TVLV_DAT :: u8 where "BATADV_TVLV_DAT \<equiv> 2"
abbreviation BATADV_TVLV_NC :: u8 where "BATADV_TVLV_NC \<equiv> 3"
abbreviation (input) BATADV_ORIG_CAPA_HAS_DAT :: nat where "BATADV_ORIG_CAPA_HAS_DAT \<equiv> 0"
abbreviation (input) BATADV_ORIG_CAPA_HAS_NC :: nat where "BATADV_ORIG_CAPA_HAS_NC \<equiv> 1"

definition batadv_dat_tvlv_ogm_handler_v1 :: "nat \<Rightarrow> u8 \<Rightarrow> batadv_priv \<Rightarrow> batadv_priv" where
  "batadv_dat_tvlv_ogm_handler_v1 orig flags =
     orig_mod orig (\<lambda>n. n\<lparr>on_capabilities :=
       (if flags AND BATADV_TVLV_HANDLER_OGM_CIFNOTFND \<noteq> 0
        then unset_bit BATADV_ORIG_CAPA_HAS_DAT (on_capabilities n)
        else set_bit BATADV_ORIG_CAPA_HAS_DAT (on_capabilities n))\<rparr>)"

definition batadv_nc_tvlv_ogm_handler_v1 :: "nat \<Rightarrow> u8 \<Rightarrow> batadv_priv \<Rightarrow> batadv_priv" where
  "batadv_nc_tvlv_ogm_handler_v1 orig flags =
     orig_mod orig (\<lambda>n. n\<lparr>on_capabilities :=
       (if flags AND BATADV_TVLV_HANDLER_OGM_CIFNOTFND \<noteq> 0
        then unset_bit BATADV_ORIG_CAPA_HAS_NC (on_capabilities n)
        else set_bit BATADV_ORIG_CAPA_HAS_NC (on_capabilities n))\<rparr>)"

definition mesh_ogm_handler :: ogm_handler where
  "mesh_ogm_handler t v orig flags tvlv_value s =
     (if t = BATADV_TVLV_DAT \<and> v = 1 then batadv_dat_tvlv_ogm_handler_v1 orig flags s
      else if t = BATADV_TVLV_NC \<and> v = 1 then batadv_nc_tvlv_ogm_handler_v1 orig flags s
      else call (Tvlv_Ogm_Handler t v orig flags tvlv_value) s)"

section \<open>The registered containers are a map\<close>

definition tvlv_key :: "batadv_tvlv_container \<Rightarrow> u8 \<times> u8" where
  "tvlv_key c = (th_type (tc_hdr c), th_version (tc_hdr c))"

definition tvlv_ok :: "batadv_tvlv_container \<Rightarrow> bool" where
  "tvlv_ok c \<longleftrightarrow> length (tc_value c) = unat (th_len (tc_hdr c))"

text \<open>At most one container for each type and version, and every length is right.\<close>

definition tvlv_table :: "batadv_priv \<Rightarrow> bool" where
  "tvlv_table s \<longleftrightarrow>
     distinct (map tvlv_key (bp_tvlv_containers s)) \<and> (\<forall>c \<in> set (bp_tvlv_containers s). tvlv_ok c)"

definition tvlv_map :: "batadv_priv \<Rightarrow> u8 \<times> u8 \<rightharpoonup> u8 list" where
  "tvlv_map s = map_of (map (\<lambda>c. (tvlv_key c, tc_value c)) (bp_tvlv_containers s))"

lemma container_get_iff:
  assumes "tvlv_table s"
  shows "batadv_tvlv_container_get s t v = Some c \<longleftrightarrow> c \<in> set (bp_tvlv_containers s) \<and> tvlv_key c = (t, v)"
proof -
  have "distinct (map tvlv_key cs) \<Longrightarrow>
      find (\<lambda>tmp. th_type (tc_hdr tmp) = t \<and> th_version (tc_hdr tmp) = v) cs = Some c
      \<longleftrightarrow> c \<in> set cs \<and> tvlv_key c = (t, v)" for cs
    by (induction cs) (auto simp: tvlv_key_def image_iff)
  then show ?thesis
    using assms by (simp add: tvlv_table_def batadv_tvlv_container_get_def)
qed

lemma container_get_None:
  assumes "batadv_tvlv_container_get s t v = None" "c \<in> set (bp_tvlv_containers s)"
  shows "tvlv_key c \<noteq> (t, v)"
  using assms by (auto simp: batadv_tvlv_container_get_def find_None_iff tvlv_key_def)

lemma map_of_remove1:
  "distinct (map f xs) \<Longrightarrow> x \<in> set xs \<Longrightarrow>
   map_of (map (\<lambda>c. (f c, g c)) (remove1 x xs)) = (map_of (map (\<lambda>c. (f c, g c)) xs))(f x := None)"
proof (induction xs)
  case Nil
  then show ?case by simp
next
  case (Cons y xs)
  show ?case
  proof (cases "x = y")
    case True
    then have "map_of (map (\<lambda>c. (f c, g c)) xs) (f x) = None"
      using Cons.prems by (auto simp: map_of_eq_None_iff)
    then show ?thesis using True by (auto simp: fun_eq_iff)
  next
    case False
    then have "f x \<in> f ` set xs" using Cons.prems(2) by simp
    then have "f x \<noteq> f y" using Cons.prems(1) by auto
    then show ?thesis using Cons False by (auto simp: fun_eq_iff)
  qed
qed

lemma distinct_map_remove1: "distinct (map f xs) \<Longrightarrow> distinct (map f (remove1 x xs))"
  by (auto simp: distinct_map intro: inj_on_subset set_remove1_subset)

lemma unregister_map:
  assumes "tvlv_table s"
  shows "tvlv_table (batadv_tvlv_container_unregister t v s)"
    and "tvlv_map (batadv_tvlv_container_unregister t v s) = (tvlv_map s)((t, v) := None)"
proof -
  let ?g = "batadv_tvlv_container_get s t v"
  have "tvlv_table (batadv_tvlv_container_unregister t v s) \<and>
      tvlv_map (batadv_tvlv_container_unregister t v s) = (tvlv_map s)((t, v) := None)"
  proof (cases ?g)
    case None
    have "(t, v) \<notin> tvlv_key ` set (bp_tvlv_containers s)"
      using container_get_None [OF None] by fastforce
    then have "tvlv_map s (t, v) = None"
      by (simp add: tvlv_map_def map_of_eq_None_iff image_image)
    then show ?thesis
      using None assms
      by (auto simp: batadv_tvlv_container_unregister_def batadv_tvlv_container_remove_def)
  next
    case (Some c)
    then have c: "c \<in> set (bp_tvlv_containers s)" "tvlv_key c = (t, v)"
      using container_get_iff [OF assms] by auto
    then show ?thesis
      using Some assms map_of_remove1 [of tvlv_key "bp_tvlv_containers s" c tc_value]
      by (auto simp: batadv_tvlv_container_unregister_def batadv_tvlv_container_remove_def tvlv_table_def
          tvlv_map_def distinct_map_remove1 dest: notin_set_remove1)
  qed
  then show "tvlv_table (batadv_tvlv_container_unregister t v s)"
    "tvlv_map (batadv_tvlv_container_unregister t v s) = (tvlv_map s)((t, v) := None)"
    by auto
qed


lemma register_map:
  assumes "tvlv_table s" "fst (kzalloc s)" "\<And>b. val = Some b \<Longrightarrow> length b = unat len"
  shows "tvlv_table (batadv_tvlv_container_register t v val len s)"
    and "tvlv_map (batadv_tvlv_container_register t v val len s)
      = (tvlv_map s)((t, v) \<mapsto> (case val of None \<Rightarrow> [] | Some b \<Rightarrow> b))"
proof -
  let ?u = "batadv_tvlv_container_unregister t v (snd (kzalloc s))"
  let ?c = "\<lparr>tc_hdr = \<lparr>th_type = t, th_version = v, th_len = if val = None then 0 else len\<rparr>,
             tc_value = (case val of None \<Rightarrow> [] | Some b \<Rightarrow> b)\<rparr>"
  have t: "tvlv_table (snd (kzalloc s))" "tvlv_map (snd (kzalloc s)) = tvlv_map s"
    using assms(1) by (simp_all add: kzalloc_def tvlv_table_def tvlv_map_def split: list.split)
  note u = unregister_map [OF t(1), of t v]
  have r: "batadv_tvlv_container_register t v val len s
      = ?u\<lparr>bp_tvlv_containers := ?c # bp_tvlv_containers ?u\<rparr>"
    using assms(2,3)
    by (auto simp: batadv_tvlv_container_register_def batadv_tvlv_container_unregister_def Let_def split_def
        split: option.split)
  have k: "tvlv_key ?c = (t, v)" "tvlv_ok ?c"
    using assms(3) by (auto simp: tvlv_key_def tvlv_ok_def split: option.split)
  have "tvlv_map ?u (t, v) = None"
    using u(2) by simp
  then have "tvlv_key ?c \<notin> tvlv_key ` set (bp_tvlv_containers ?u)"
    unfolding k(1) by (simp add: tvlv_map_def map_of_eq_None_iff image_image)
  then show "tvlv_table (batadv_tvlv_container_register t v val len s)"
    using u(1) k(2) unfolding r by (simp add: tvlv_table_def)
  have "tvlv_map (batadv_tvlv_container_register t v val len s) = (tvlv_map ?u)((t, v) \<mapsto> tc_value ?c)"
    unfolding r using k(1) by (simp add: tvlv_map_def)
  then show "tvlv_map (batadv_tvlv_container_register t v val len s)
      = (tvlv_map s)((t, v) \<mapsto> (case val of None \<Rightarrow> [] | Some b \<Rightarrow> b))"
    using u(2) t(2) by simp
qed

lemma tvlv_containers_table:
  assumes "tvlv_table s" "\<And>b. val = Some b \<Longrightarrow> length b = unat len"
  shows "tvlv_table (batadv_tvlv_container_register t v val len s)"
proof (cases "fst (kzalloc s)")
  case True
  then show ?thesis
    using register_map [OF assms(1) True assms(2)] by simp
next
  case False
  then have "batadv_tvlv_container_register t v val len s = snd (kzalloc s)"
    by (simp add: batadv_tvlv_container_register_def Let_def split_def)
  then show ?thesis
    using assms(1) by (simp add: kzalloc_def tvlv_table_def split: list.split)
qed

section \<open>What is appended\<close>

definition tvlv_payload :: "batadv_tvlv_container list \<Rightarrow> u8 list" where
  "tvlv_payload cs = concat (map tvlv_bytes cs)"

lemma length_tvlv_bytes: "tvlv_ok c \<Longrightarrow> length (tvlv_bytes c) = 4 + unat (th_len (tc_hdr c))"
  by (simp add: tvlv_bytes_def tvlv_hdr_bytes_def tvlv_ok_def)

lemma list_size_value:
  assumes "\<forall>c \<in> set (bp_tvlv_containers s). tvlv_ok c"
  shows "batadv_tvlv_container_list_size s = of_nat (length (tvlv_payload (bp_tvlv_containers s)))"
proof -
  have "\<forall>c \<in> set cs. tvlv_ok c \<Longrightarrow>
      fold (\<lambda>tvlv n. n + 4 + th_len (tc_hdr tvlv)) cs n = n + of_nat (length (tvlv_payload cs))" for cs n
  proof (induction cs arbitrary: n)
    case Nil
    then show ?case by (simp add: tvlv_payload_def)
  next
    case (Cons c cs)
    then show ?case by (simp add: tvlv_payload_def length_tvlv_bytes ac_simps)
  qed
  from this [OF assms, of 0] show ?thesis
    by (simp add: batadv_tvlv_container_list_size_def)
qed

lemma mem_put_inside:
  "length rest = length bs \<Longrightarrow> mem_put (length pre) bs (pre @ rest @ tail) = (pre @ bs @ tail, False)"
  by (simp add: mem_put_def)

lemma write_payload:
  assumes "\<forall>c \<in> set cs. tvlv_ok c" "length rest = length (tvlv_payload cs)"
  shows "tvlv_write cs (length pre) (pre @ rest) over = (pre @ tvlv_payload cs, over)"
  using assms
proof (induction cs arbitrary: pre rest over)
  case Nil
  then show ?case by (simp add: tvlv_payload_def)
next
  case (Cons c cs)
  let ?n = "length (tvlv_bytes c)"
  have n: "?n = 4 + unat (th_len (tc_hdr c))"
    using Cons.prems(1) by (simp add: length_tvlv_bytes)
  have l: "length rest = ?n + length (tvlv_payload cs)"
    using Cons.prems(2) by (simp add: tvlv_payload_def)
  have "mem_put (length pre) (tvlv_bytes c) (pre @ take ?n rest @ drop ?n rest)
      = (pre @ tvlv_bytes c @ drop ?n rest, False)"
    using l by (intro mem_put_inside) simp
  then have p: "mem_put (length pre) (tvlv_bytes c) (pre @ rest) = ((pre @ tvlv_bytes c) @ drop ?n rest, False)"
    by simp
  have "tvlv_write cs (length (pre @ tvlv_bytes c)) ((pre @ tvlv_bytes c) @ drop ?n rest) over
      = ((pre @ tvlv_bytes c) @ tvlv_payload cs, over)"
    using Cons.prems(1) l by (intro Cons.IH) simp_all
  then show ?case
    using p n by (simp add: tvlv_payload_def ac_simps)
qed

text \<open>
  With memory, and containers that fit the 16-bit length: the header stays, and behind it
  are the containers.
\<close>

lemma append_payload:
  assumes ok: "\<forall>c \<in> set (bp_tvlv_containers s). tvlv_ok c" and mem: "fst (kzalloc s)"
    and l: "length (tvlv_payload (bp_tvlv_containers s)) < 65536" and b: "m \<le> length buff"
  shows "batadv_tvlv_container_ogm_append buff m s =
    (of_nat (length (tvlv_payload (bp_tvlv_containers s))),
     take m buff @ tvlv_payload (bp_tvlv_containers s), snd (kzalloc s))"
proof -
  let ?p = "tvlv_payload (bp_tvlv_containers s)"
  note size = list_size_value [OF ok]
  have u: "unat (of_nat (length ?p) :: u16) = length ?p"
    using l by (simp add: unat_of_nat)
  have c: "bp_tvlv_containers (snd (kzalloc s)) = bp_tvlv_containers s"
    by (simp add: kzalloc_def split: list.split)
  show ?thesis
  proof (cases "?p = []")
    case True
    then show ?thesis
      using mem size by (simp add: batadv_tvlv_container_ogm_append_def batadv_tvlv_realloc_packet_buff_def
          split_def Let_def)
  next
    case False
    then have nz: "(of_nat (length ?p) :: u16) \<noteq> 0"
      using u by (metis length_0_conv unat_0)
    have "tvlv_write (bp_tvlv_containers s) m (take m buff @ replicate (length ?p) x) False
        = (take m buff @ ?p, False)" for x
      using write_payload [OF ok, of "replicate (length ?p) x" "take m buff" False] b by simp
    then show ?thesis
      using mem size nz u c
      by (simp add: batadv_tvlv_container_ogm_append_def batadv_tvlv_realloc_packet_buff_def split_def Let_def)
  qed
qed


section \<open>What is parsed\<close>

text \<open>The containers that a receiver finds in any bytes.\<close>

function tvlv_parse :: "u8 list \<Rightarrow> batadv_tvlv_container list" where
  "tvlv_parse b =
     (if length b \<ge> 4 then
        (let h = \<lparr>th_type = b ! 0, th_version = b ! 1, th_len = be_word (take 2 (drop 2 b))\<rparr>;
             n = unat (th_len h)
         in if n > length b - 4 then []
            else \<lparr>tc_hdr = h, tc_value = take n (drop 4 b)\<rparr> # tvlv_parse (drop (4 + n) b))
      else [])"
  by pat_completeness auto

termination
  by (relation "measure length") auto

declare tvlv_parse.simps [simp del]

lemma tvlv_parse_ok: "c \<in> set (tvlv_parse b) \<Longrightarrow> tvlv_ok c"
proof (induction b rule: tvlv_parse.induct)
  case (1 b)
  then show ?case
    by (subst (asm) tvlv_parse.simps) (auto simp: Let_def tvlv_ok_def split: if_splits)
qed

lemma parse_bytes:
  assumes "tvlv_ok c"
  shows "tvlv_parse (tvlv_bytes c @ rest) = c # tvlv_parse rest"
proof -
  let ?n = "unat (th_len (tc_hdr c))"
  obtain b where b: "b = tvlv_bytes c @ rest" by blast
  have e: "b = [th_type (tc_hdr c), th_version (tc_hdr c)] @ be_bytes 2 (th_len (tc_hdr c)) @ tc_value c @ rest"
    using assms b by (simp add: tvlv_bytes_def tvlv_hdr_bytes_def tvlv_ok_def)
  have h: "b ! 0 = th_type (tc_hdr c)" "b ! Suc 0 = th_version (tc_hdr c)"
    "(be_word (take 2 (drop 2 b)) :: u16) = th_len (tc_hdr c)"
    unfolding e by (simp_all add: be_word_bytes)
  have d4: "drop 4 b = tc_value c @ rest"
    unfolding e by simp
  have "drop (4 + ?n) b = drop ?n (drop 4 b)"
    by (simp only: drop_drop add.commute)
  then have d: "drop (4 + ?n) b = rest" "take ?n (drop 4 b) = tc_value c"
    unfolding d4 using assms by (simp_all add: tvlv_ok_def)
  have l: "4 + ?n \<le> length b"
    unfolding e using assms by (simp add: tvlv_ok_def)
  then have "4 \<le> length b" "\<not> ?n > length b - 4" by simp_all
  then have "tvlv_parse b = c # tvlv_parse rest"
    using h d by (subst tvlv_parse.simps) (simp add: Let_def)
  then show ?thesis using b by simp
qed

lemma parse_payload:
  assumes "\<forall>c \<in> set cs. tvlv_ok c" "length pad < 4"
  shows "tvlv_parse (tvlv_payload cs @ pad) = cs"
  using assms
proof (induction cs)
  case Nil
  then show ?case by (subst tvlv_parse.simps) (simp add: tvlv_payload_def)
next
  case (Cons c cs)
  then show ?case
    using parse_bytes [of c "tvlv_payload cs @ pad"] by (simp add: tvlv_payload_def)
qed

text \<open>Handing one container over, and the loop as a fold.\<close>

definition tvlv_deliver :: "ogm_handler \<Rightarrow> nat \<Rightarrow> batadv_tvlv_container \<Rightarrow> batadv_priv \<Rightarrow> batadv_priv" where
  "tvlv_deliver ocb o' c s =
     (case batadv_tvlv_handler_get s (th_type (tc_hdr c)) (th_version (tc_hdr c)) of
        None \<Rightarrow> s
      | Some h \<Rightarrow>
          if hd_ogm_handler h then
            tvlv_handler_mod (hd_type h) (hd_version h)
              (\<lambda>h. h\<lparr>hd_flags := hd_flags h OR BATADV_TVLV_HANDLER_OGM_CALLED\<rparr>)
              (ocb (hd_type h) (hd_version h) o' 0 (tc_value c) s)
          else s)"

lemma process_loop_fold:
  "tvlv_process_loop ocb ucb True (Some o') src dst b ret s = (ret, fold (tvlv_deliver ocb o') (tvlv_parse b) s)"
proof (induction b arbitrary: s rule: tvlv_parse.induct)
  case (1 b)
  let ?n = "unat (be_word (take 2 (drop 2 b)) :: u16)"
  let ?c = "\<lparr>tc_hdr = \<lparr>th_type = b ! 0, th_version = b ! 1, th_len = be_word (take 2 (drop 2 b))\<rparr>,
             tc_value = take ?n (drop 4 b)\<rparr>"
  show ?case
  proof (cases "length b \<ge> 4 \<and> ?n \<le> length b - 4")
    case True
    have p: "tvlv_parse b = ?c # tvlv_parse (drop (4 + ?n) b)"
      using True by (subst tvlv_parse.simps) (simp add: Let_def)
    have c: "batadv_tvlv_call_handler ocb ucb (batadv_tvlv_handler_get s (b ! 0) (b ! 1)) True (Some o') src dst
        (take ?n (drop 4 b)) s = (0, tvlv_deliver ocb o' ?c s)"
      by (simp add: batadv_tvlv_call_handler_def tvlv_deliver_def Let_def split: option.split)
    have i: "tvlv_process_loop ocb ucb True (Some o') src dst (drop (4 + ?n) b) ret s'
        = (ret, fold (tvlv_deliver ocb o') (tvlv_parse (drop (4 + ?n) b)) s')" for s'
      using 1 True by (simp add: Let_def)
    have "tvlv_process_loop ocb ucb True (Some o') src dst b ret s
        = tvlv_process_loop ocb ucb True (Some o') src dst (drop (4 + ?n) b) ret (tvlv_deliver ocb o' ?c s)"
      using True c by (subst tvlv_process_loop.simps) (simp add: Let_def add.commute)
    then show ?thesis
      using i p by simp
  next
    case False
    then have "tvlv_parse b = []"
      by (subst tvlv_parse.simps) (auto simp: Let_def)
    moreover have "tvlv_process_loop ocb ucb True (Some o') src dst b ret s = (ret, s)"
      using False by (subst tvlv_process_loop.simps) (auto simp: Let_def)
    ultimately show ?thesis by simp
  qed
qed


section \<open>Which handlers are called\<close>

definition hd_key :: "batadv_tvlv_handler \<Rightarrow> u8 \<times> u8" where
  "hd_key h = (hd_type h, hd_version h)"

text \<open>One handler for each type and version, and between OGMs no mark is left.\<close>

definition handler_table :: "batadv_priv \<Rightarrow> bool" where
  "handler_table s \<longleftrightarrow>
     distinct (map hd_key (bp_tvlv_handlers s)) \<and>
     (\<forall>h \<in> set (bp_tvlv_handlers s). \<not> bit (hd_flags h) 2)"

definition hd_mark :: "(u8 \<times> u8) set \<Rightarrow> batadv_tvlv_handler \<Rightarrow> batadv_tvlv_handler" where
  "hd_mark K h =
     (if hd_ogm_handler h \<and> hd_key h \<in> K
      then h\<lparr>hd_flags := hd_flags h OR BATADV_TVLV_HANDLER_OGM_CALLED\<rparr> else h)"

definition hd_clear :: "batadv_tvlv_handler \<Rightarrow> batadv_tvlv_handler" where
  "hd_clear h = h\<lparr>hd_flags := hd_flags h AND NOT BATADV_TVLV_HANDLER_OGM_CALLED\<rparr>"

lemma hd_mark_simps [simp]:
  "hd_key (hd_mark K h) = hd_key h" "hd_ogm_handler (hd_mark K h) = hd_ogm_handler h"
  "hd_type (hd_mark K h) = hd_type h" "hd_version (hd_mark K h) = hd_version h"
  "hd_key (hd_clear h) = hd_key h" "hd_mark {} h = h"
  by (simp_all add: hd_mark_def hd_clear_def hd_key_def)

lemma bit_four: "bit (4 :: u8) n \<longleftrightarrow> n = 2"
proof -
  have "(4 :: u8) = push_bit 2 1" by simp
  then show ?thesis
    by (simp only: bit_push_bit_iff bit_1_iff) auto
qed

lemma hd_called: "hd_flags h AND BATADV_TVLV_HANDLER_OGM_CALLED = 0 \<longleftrightarrow> \<not> bit (hd_flags h) 2"
proof -
  have "bit (hd_flags h AND 4) n \<longleftrightarrow> n = 2 \<and> bit (hd_flags h) 2" for n
    by (auto simp only: bit_and_iff bit_four)
  moreover have "y = 0 \<longleftrightarrow> (\<forall>n. \<not> bit y n)" for y :: u8
    by (auto intro: bit_eqI)
  ultimately show ?thesis by simp
qed

lemma bit_called [simp]:
  "bit (x OR 4 :: u8) 2" "bit (x AND NOT 4 :: u8) n \<longleftrightarrow> bit x n \<and> n \<noteq> 2"
  by (simp_all only: bit_or_iff bit_and_iff bit_not_iff bit_four) (auto dest: bit_imp_possible_bit)

lemma hd_clear_mark: "\<not> bit (hd_flags h) 2 \<Longrightarrow> hd_clear (hd_mark K h) = h"
proof -
  assume "\<not> bit (hd_flags h) 2"
  then have "(hd_flags h OR 4) AND NOT 4 = hd_flags h" "hd_flags h AND NOT 4 = hd_flags h"
    by (auto intro!: bit_word_eqI simp only: bit_called bit_or_iff bit_four)
  then show ?thesis
    by (cases h) (simp add: hd_clear_def hd_mark_def)
qed

lemma hd_marked: "\<not> bit (hd_flags h) 2 \<Longrightarrow> bit (hd_flags (hd_mark K h)) 2 \<longleftrightarrow> hd_ogm_handler h \<and> hd_key h \<in> K"
  by (simp add: hd_mark_def)

lemma handler_is_key: "tvlv_handler_is t v h \<longleftrightarrow> hd_key h = (t, v)"
  by (simp add: tvlv_handler_is_def hd_key_def)

lemma update_first_key:
  "distinct (map hd_key hs) \<Longrightarrow>
   update_first (tvlv_handler_is t v) f hs = map (\<lambda>h. if hd_key h = (t, v) then f h else h) hs"
proof (induction hs)
  case Nil
  then show ?case by simp
next
  case (Cons h hs)
  have "map (\<lambda>h. if hd_key h = (t, v) then f h else h) hs = hs" if "hd_key h = (t, v)"
    using Cons.prems that by (intro map_idI) (auto simp: rev_image_eqI)
  then show ?case
    using Cons by (auto simp: handler_is_key)
qed

text \<open>What the parser relies on: a callback leaves the list of handlers alone.\<close>

locale tvlv_callbacks =
  fixes ocb :: ogm_handler
  assumes handlers_kept: "bp_tvlv_handlers (ocb t v o' f b s) = bp_tvlv_handlers s"
begin

lemma deliver_handlers:
  assumes "bp_tvlv_handlers s = map (hd_mark K) hs" "distinct (map hd_key hs)"
  shows "bp_tvlv_handlers (tvlv_deliver ocb o' c s) = map (hd_mark (insert (tvlv_key c) K)) hs"
proof (cases "batadv_tvlv_handler_get s (th_type (tc_hdr c)) (th_version (tc_hdr c))")
  case None
  then have "\<forall>h \<in> set hs. hd_key h \<noteq> tvlv_key c"
    using assms(1) by (auto simp: batadv_tvlv_handler_get_def find_None_iff handler_is_key tvlv_key_def)
  then show ?thesis
    using None assms(1) by (auto simp: tvlv_deliver_def hd_mark_def)
next
  case (Some h)
  have d: "distinct (map hd_key (map (hd_mark K) hs))"
    using assms(2) by (simp add: comp_def)
  from Some obtain i where i: "i < length hs" "h = hd_mark K (hs ! i)" "hd_key h = tvlv_key c"
    using assms(1)
    by (auto simp: batadv_tvlv_handler_get_def find_Some_iff handler_is_key tvlv_key_def)
  have u: "\<And>g. g \<in> set hs \<Longrightarrow> hd_key g = tvlv_key c \<Longrightarrow> g = hs ! i"
    using i assms(2) inj_onD [of hd_key "set hs"] by (simp add: distinct_map)
  have k: "(hd_type h, hd_version h) = tvlv_key c"
    using i(3) by (simp add: hd_key_def)
  show ?thesis
  proof (cases "hd_ogm_handler h")
    case True
    have "hd_mark (insert (tvlv_key c) K) g
        = (if hd_key g = tvlv_key c then (hd_mark K g)\<lparr>hd_flags := hd_flags (hd_mark K g) OR 4\<rparr> else hd_mark K g)"
      if "g \<in> set hs" for g
      using u [OF that] i True by (auto simp: hd_mark_def or.assoc)
    then show ?thesis
      using Some True k assms(1) update_first_key [OF d, of "hd_type h" "hd_version h"]
      by (simp add: tvlv_deliver_def tvlv_handler_mod_def handlers_kept)
  next
    case False
    then have "hd_mark (insert (tvlv_key c) K) g = hd_mark K g" if "g \<in> set hs" for g
      using u [OF that] i by (auto simp: hd_mark_def)
    then show ?thesis
      using Some False assms(1) by (simp add: tvlv_deliver_def)
  qed
qed

lemma deliver_all_handlers:
  assumes "bp_tvlv_handlers s = map (hd_mark K) hs" "distinct (map hd_key hs)"
  shows "bp_tvlv_handlers (fold (tvlv_deliver ocb o') cs s) = map (hd_mark (tvlv_key ` set cs \<union> K)) hs"
  using assms(1)
proof (induction cs arbitrary: s K)
  case Nil
  then show ?case by simp
next
  case (Cons c cs)
  from Cons.IH [OF deliver_handlers [OF Cons.prems assms(2)]] show ?case
    by (simp add: insert_commute Un_insert_right)
qed

lemma not_found_handlers:
  assumes "bp_tvlv_handlers s = pre @ h # post" "hd_key h \<notin> hd_key ` set pre"
  shows "bp_tvlv_handlers (tvlv_not_found ocb o' h s) = pre @ hd_clear h # post"
proof -
  have "update_first (tvlv_handler_is (hd_type h) (hd_version h)) f (pre @ h # post) = pre @ f h # post" for f
    using assms(2) by (induction pre) (auto simp: handler_is_key hd_key_def)
  then show ?thesis
    using assms(1) by (simp add: tvlv_not_found_def tvlv_handler_mod_def handlers_kept hd_clear_def)
qed

lemma not_found_all_handlers:
  assumes "bp_tvlv_handlers s = map hd_clear pre @ post" "distinct (map hd_key (pre @ post))"
  shows "bp_tvlv_handlers (fold (tvlv_not_found ocb o') post s) = map hd_clear (pre @ post)"
  using assms
proof (induction post arbitrary: s pre)
  case Nil
  then show ?case by simp
next
  case (Cons h post)
  have "bp_tvlv_handlers (tvlv_not_found ocb o' h s) = map hd_clear (pre @ [h]) @ post"
    using not_found_handlers [OF Cons.prems(1)] Cons.prems(2) by (simp add: image_image)
  from Cons.IH [OF this] Cons.prems(2) show ?case
    by simp
qed

text \<open>An OGM leaves the table of handlers as it was.\<close>

lemma receive_handlers:
  assumes "handler_table s"
  shows "bp_tvlv_handlers (batadv_tvlv_ogm_receive ocb b o' s) = bp_tvlv_handlers s"
proof -
  let ?hs = "bp_tvlv_handlers s" and ?K = "tvlv_key ` set (tvlv_parse b)"
  let ?s1 = "fold (tvlv_deliver ocb o') (tvlv_parse b) s"
  have d: "distinct (map hd_key ?hs)" and f: "\<forall>h \<in> set ?hs. \<not> bit (hd_flags h) 2"
    using assms by (auto simp: handler_table_def)
  have h1: "bp_tvlv_handlers ?s1 = map (hd_mark ?K) ?hs"
    using deliver_all_handlers [of s "{}" ?hs] d by (simp add: map_idI)
  have "bp_tvlv_handlers (fold (tvlv_not_found ocb o') (map (hd_mark ?K) ?hs) ?s1)
      = map hd_clear ([] @ map (hd_mark ?K) ?hs)"
    using h1 d by (intro not_found_all_handlers) (simp_all add: comp_def)
  also have "\<dots> = ?hs"
    using f by (simp add: hd_clear_mark map_idI comp_def)
  finally show ?thesis
    using h1 by (simp add: batadv_tvlv_ogm_receive_def batadv_tvlv_containers_process_def process_loop_fold)
qed

end

interpretation mesh_tvlv: tvlv_callbacks mesh_ogm_handler
  by unfold_locales
    (simp add: mesh_ogm_handler_def batadv_dat_tvlv_ogm_handler_v1_def batadv_nc_tvlv_ogm_handler_v1_def
      orig_mod_def call_def)


text \<open>
  A handler that only keeps one bit of the originator: set by a container, cleared by its
  absence.
\<close>

definition capa :: "batadv_priv \<Rightarrow> nat \<Rightarrow> nat \<Rightarrow> bool" where
  "capa s o' n \<longleftrightarrow> bit (on_capabilities (orig_of s o')) n"

locale tvlv_capability = tvlv_callbacks +
  fixes key :: "u8 \<times> u8" and n :: nat
  assumes own_capa: "capa (ocb (fst key) (snd key) o' f b s) p n
      \<longleftrightarrow> (if p = o' then f AND BATADV_TVLV_HANDLER_OGM_CIFNOTFND = 0 else capa s p n)"
    and other_capa: "(t, v) \<noteq> key \<Longrightarrow> capa (ocb t v o' f b s) p n \<longleftrightarrow> capa s p n"
begin

lemma capa_handler_mod [simp]: "capa (tvlv_handler_mod t v g s) p m = capa s p m"
  by (simp add: capa_def tvlv_handler_mod_def)

lemma ocb_capa:
  "capa (ocb (hd_type h) (hd_version h) o' f b s) p n
   \<longleftrightarrow> (if hd_key h = key \<and> p = o' then f AND BATADV_TVLV_HANDLER_OGM_CIFNOTFND = 0 else capa s p n)"
  using own_capa [of o' f b s p] other_capa [of "hd_type h" "hd_version h" o' f b s p]
  by (cases "hd_key h = key") (auto simp: hd_key_def)

lemma deliver_capa:
  assumes "\<exists>h \<in> set (bp_tvlv_handlers s). hd_key h = key"
    "\<forall>h \<in> set (bp_tvlv_handlers s). hd_key h = key \<longrightarrow> hd_ogm_handler h"
  shows "capa (tvlv_deliver ocb o' c s) p n \<longleftrightarrow> (p = o' \<and> tvlv_key c = key) \<or> capa s p n"
proof (cases "batadv_tvlv_handler_get s (th_type (tc_hdr c)) (th_version (tc_hdr c))")
  case None
  then have "tvlv_key c \<noteq> key"
    using assms(1) by (auto simp: batadv_tvlv_handler_get_def find_None_iff handler_is_key tvlv_key_def)
  then show ?thesis
    using None by (simp add: tvlv_deliver_def)
next
  case (Some h)
  then have h: "hd_key h = tvlv_key c" "h \<in> set (bp_tvlv_handlers s)"
    by (auto simp: batadv_tvlv_handler_get_def find_Some_iff handler_is_key tvlv_key_def)
  then show ?thesis
    using Some assms(2) by (auto simp: tvlv_deliver_def ocb_capa)
qed

lemma deliver_all_capa:
  assumes "bp_tvlv_handlers s = map (hd_mark K) hs" "distinct (map hd_key hs)"
    "\<exists>h \<in> set hs. hd_key h = key" "\<forall>h \<in> set hs. hd_key h = key \<longrightarrow> hd_ogm_handler h"
  shows "capa (fold (tvlv_deliver ocb o') cs s) p n \<longleftrightarrow> (p = o' \<and> key \<in> tvlv_key ` set cs) \<or> capa s p n"
  using assms(1)
proof (induction cs arbitrary: s K)
  case Nil
  then show ?case by simp
next
  case (Cons c cs)
  have "capa (tvlv_deliver ocb o' c s) p n \<longleftrightarrow> (p = o' \<and> tvlv_key c = key) \<or> capa s p n"
    using Cons.prems assms(3,4) by (intro deliver_capa) auto
  then show ?case
    using Cons.IH [OF deliver_handlers [OF Cons.prems assms(2)], of o' c] by auto
qed

lemma not_found_capa:
  "capa (fold (tvlv_not_found ocb o') hs s) p n \<longleftrightarrow>
   capa s p n \<and> \<not> (p = o' \<and> (\<exists>h \<in> set hs. hd_key h = key \<and> bit (hd_flags h) 1 \<and> \<not> bit (hd_flags h) 2))"
proof (induction hs arbitrary: s)
  case Nil
  then show ?case by simp
next
  case (Cons h hs)
  have b: "hd_flags h AND BATADV_TVLV_HANDLER_OGM_CIFNOTFND \<noteq> 0 \<longleftrightarrow> bit (hd_flags h) 1"
    using and_exp_eq_0_iff_not_bit [of "hd_flags h" 1] by simp
  have "capa (tvlv_not_found ocb o' h s) p n
      \<longleftrightarrow> capa s p n \<and> \<not> (p = o' \<and> hd_key h = key \<and> bit (hd_flags h) 1 \<and> \<not> bit (hd_flags h) 2)"
    by (auto simp: tvlv_not_found_def ocb_capa b hd_called)
  then show ?case
    using Cons by auto
qed

lemma receive_capa:
  assumes t: "handler_table s" and b: "b \<noteq> []"
    and h: "h \<in> set (bp_tvlv_handlers s)" "hd_key h = key" "hd_ogm_handler h" "bit (hd_flags h) 1"
  shows "capa (batadv_tvlv_ogm_receive ocb b o' s) p n
    \<longleftrightarrow> (if p = o' then key \<in> tvlv_key ` set (tvlv_parse b) else capa s p n)"
proof -
  let ?hs = "bp_tvlv_handlers s" and ?K = "tvlv_key ` set (tvlv_parse b)"
  let ?s1 = "fold (tvlv_deliver ocb o') (tvlv_parse b) s"
  have d: "distinct (map hd_key ?hs)" and f: "\<forall>g \<in> set ?hs. \<not> bit (hd_flags g) 2"
    using t by (auto simp: handler_table_def)
  have u: "\<And>g. g \<in> set ?hs \<Longrightarrow> hd_key g = key \<Longrightarrow> g = h"
    using d h(1,2) inj_onD [of hd_key "set ?hs"] by (simp add: distinct_map)
  have s0: "?hs = map (hd_mark {}) ?hs"
    by (simp add: map_idI)
  have h1: "bp_tvlv_handlers ?s1 = map (hd_mark ?K) ?hs"
    using deliver_all_handlers [OF s0 d] by simp
  have c1: "capa ?s1 p n \<longleftrightarrow> (p = o' \<and> key \<in> ?K) \<or> capa s p n"
  proof (rule deliver_all_capa [OF s0 d])
    show "\<exists>g \<in> set ?hs. hd_key g = key"
      using h(1,2) by blast
    show "\<forall>g \<in> set ?hs. hd_key g = key \<longrightarrow> hd_ogm_handler g"
      using u h(3) by blast
  qed
  have "(\<exists>g \<in> set (map (hd_mark ?K) ?hs). hd_key g = key \<and> bit (hd_flags g) 1 \<and> \<not> bit (hd_flags g) 2)
      \<longleftrightarrow> key \<notin> ?K"
  proof -
    have m: "bit (hd_flags (hd_mark ?K h)) 1" "bit (hd_flags (hd_mark ?K h)) 2 \<longleftrightarrow> key \<in> ?K"
      using h f hd_marked [of h ?K] by (auto simp: hd_mark_def bit_or_iff)
    have "(\<exists>g \<in> set ?hs. hd_key g = key \<and> bit (hd_flags (hd_mark ?K g)) 1 \<and> \<not> bit (hd_flags (hd_mark ?K g)) 2)
        \<longleftrightarrow> key \<notin> ?K"
      using u h(1,2) m by blast
    then show ?thesis by simp
  qed
  then have "capa (fold (tvlv_not_found ocb o') (map (hd_mark ?K) ?hs) ?s1) p n
      \<longleftrightarrow> (if p = o' then key \<in> ?K else capa s p n)"
    using c1 by (auto simp: not_found_capa)
  then show ?thesis
    using b h1 by (simp add: batadv_tvlv_ogm_receive_def batadv_tvlv_containers_process_def process_loop_fold)
qed

end

lemmas capability_handlers =
  mesh_ogm_handler_def batadv_dat_tvlv_ogm_handler_v1_def batadv_nc_tvlv_ogm_handler_v1_def

interpretation dat_capa: tvlv_capability mesh_ogm_handler "(BATADV_TVLV_DAT, 1)" BATADV_ORIG_CAPA_HAS_DAT
  by unfold_locales
    (auto simp: capability_handlers capa_def call_def orig_mod_def bit_set_bit_iff bit_unset_bit_iff)

interpretation nc_capa: tvlv_capability mesh_ogm_handler "(BATADV_TVLV_NC, 1)" BATADV_ORIG_CAPA_HAS_NC
  by unfold_locales
    (auto simp: capability_handlers capa_def call_def orig_mod_def bit_set_bit_iff bit_unset_bit_iff)


section \<open>Properties\<close>

text \<open>A state with nothing in it, for concrete inputs.\<close>

definition tvlv_example :: "batadv_tvlv_container list \<Rightarrow> batadv_tvlv_handler list \<Rightarrow> batadv_priv" where
  "tvlv_example cs hs =
     \<lparr>bp_origs = (\<lambda>_. \<lparr>on_orig = 0, on_ifinfo_list = [], on_last_bonding_candidate = None, on_last_seen = 0,
        on_bcast_seqno_reset = 0, on_capabilities = 2, on_bcast_bits = 0, on_last_bcast_seqno = 0, on_last_ttvn = 0,
        on_neigh_list = [], on_vlan_list = [], on_fragments = [], on_bcast_own = [], on_bcast_own_sum = [],
        on_bcast_own_freed = False, on_capa_initialized = 0, on_tt_buff = None, on_tt_buff_len = 0,
        on_dat_addr = 0, on_mcast_flags = 0, on_in_coding_list = [], on_out_coding_list = []\<rparr>),
      bp_next_orig = 1,
      bp_neighs = (\<lambda>_. \<lparr>nn_orig_node = 0, nn_addr = 0, nn_ifinfo_list = [], nn_if_incoming = 0, nn_last_seen = 0\<rparr>),
      bp_next_neigh = 0,
      bp_hardifs = (\<lambda>_. \<lparr>hi_if_num = 0, hi_if_status = BATADV_IF_ACTIVE, hi_dev_addr = 0, hi_num_bcasts = 1,
        hi_wifi = False, hi_soft_iface = Some 0, hi_alive = True, hi_ogm_buff = [], hi_ogm_seqno = 0,
        hi_neigh_list = [], hi_up = True, hi_mtu = 1532, hi_elp_interval = 500, hi_elp_seqno = 0,
        hi_elp_skb = None, hi_throughput_override = 0, hi_v_flags = 0\<rparr>),
      bp_hardif_list = [], bp_soft_iface = 0, bp_primary_if = None, bp_num_ifaces = 0, bp_orig_hash = None,
      bp_hop_penalty = 30, bp_orig_interval = 1000, bp_aggregated_ogms = True, bp_bonding = False,
      bp_mesh_state = BATADV_MESH_ACTIVE, bp_forw_bcast_list = [], bp_bcast_queue_left = 256,
      bp_forw_bat_list = [], bp_batman_queue_left = 256, bp_tvlv_containers = cs, bp_tvlv_handlers = hs,
      bp_tt = \<lparr>tt_vn = 0, tt_ogm_append_cnt = 0, tt_local_changes = 0, tt_changes_list = [], tt_local_hash = None,
        tt_global_hash = None, tt_req_list = [], tt_roam_list = [], tt_last_changeset = None,
        tt_last_changeset_len = 0\<rparr>,
      bp_softif_vlan_list = [], bp_soft_addr = 0x42, bp_mtu = 1500, bp_packet_size_max = 1500,
      bp_isolation_mark = 0, bp_isolation_mark_mask = 0, bp_wifi_dev = (\<lambda>_. False),
      bp_bla = \<lparr>bla_num_requests = 0, bla_claim_hash = None, bla_backbone_hash = None, bla_bcast_duplist = [],
        bla_bcast_duplist_curr = 0, bla_dest_magic = 0, bla_dest_group = 0, bla_next_id = 0, bla_sent = [],
        bla_tt_del = []\<rparr>,
      bp_bridge_loop_avoidance = False, bp_skb_slack = 0, bp_algo_iv = True,
      bp_fragmentation = True, bp_frag_seqno = 0, bp_bcast_seqno = 1, bp_network_coding = False,
      bp_nc = \<lparr>nc_min_tq = 200, nc_max_fwd_delay = 10, nc_max_buffer_time = 200, nc_timestamp_fwd_flush = 0,
        nc_timestamp_sniffed_purge = 0, nc_coding_hash = None, nc_decoding_hash = None\<rparr>,
      bp_distributed_arp_table = True, bp_dat = \<lparr>dat_addr = 0, dat_hash = None\<rparr>, bp_gw_mode = 0, bp_gw_sel_class = 20,
      bp_gw = \<lparr>gw_nodes = (\<lambda>_. \<lparr>gn_orig_node = 0, gn_bandwidth_down = 0, gn_bandwidth_up = 0\<rparr>), gw_next = 0, gw_list = [], gw_curr = None, gw_bandwidth_down = 100, gw_bandwidth_up = 20, gw_reselect = False\<rparr>,
      bp_multicast_mode = True,
      bp_mcast = \<lparr>mc_mla_list = [], mc_want_all_unsnoopables_list = [], mc_want_all_ipv4_list = [],
        mc_want_all_ipv6_list = [], mc_flags = 0, mc_enabled = False, mc_num_disabled = 0,
        mc_num_want_all_unsnoopables = 0, mc_num_want_all_ipv4 = 0, mc_num_want_all_ipv6 = 0\<rparr>,
      bp_bat_v = \<lparr>bv_ogm_buff = [], bv_ogm_seqno = 0\<rparr>, bp_stray = 0, bp_allocs = [], bp_rands = [], bp_xmits = [], bp_calls = [],
      bp_panic = False\<rparr>"

definition dat_container :: batadv_tvlv_container where
  "dat_container = \<lparr>tc_hdr = \<lparr>th_type = BATADV_TVLV_DAT, th_version = 1, th_len = 0\<rparr>, tc_value = []\<rparr>"

definition capa_handler :: "u8 \<Rightarrow> batadv_tvlv_handler" where
  "capa_handler t = \<lparr>hd_type = t, hd_version = 1, hd_flags = BATADV_TVLV_HANDLER_OGM_CIFNOTFND,
     hd_ogm_handler = True, hd_unicast_handler = False\<rparr>"

text \<open>The registered TVLV containers are a map from type and version to content: registering puts the
  content in place of an older one, or leaves the map alone when there is no memory, unregistering takes it
  out, and both keep the invariant that no key occurs twice and every header has the length of its
  content.\<close>

theorem tvlv_containers_map:
  assumes "tvlv_table s" "\<And>b. val = Some b \<Longrightarrow> length b = unat len"
  shows "tvlv_table (batadv_tvlv_container_register t v val len s)
    \<and> tvlv_table (batadv_tvlv_container_unregister t v s)
    \<and> tvlv_map (batadv_tvlv_container_register t v val len s)
      = (if fst (kzalloc s) then (tvlv_map s)((t, v) \<mapsto> (case val of None \<Rightarrow> [] | Some b \<Rightarrow> b)) else tvlv_map s)
    \<and> tvlv_map (batadv_tvlv_container_unregister t v s) = (tvlv_map s)((t, v) := None)"
proof (cases "fst (kzalloc s)")
  case True
  then show ?thesis
    using register_map [OF assms(1) True assms(2)] unregister_map [OF assms(1)] by simp
next
  case False
  then have "batadv_tvlv_container_register t v val len s = snd (kzalloc s)"
    by (simp add: batadv_tvlv_container_register_def Let_def split_def)
  moreover have "tvlv_table (snd (kzalloc s))" "tvlv_map (snd (kzalloc s)) = tvlv_map s"
    using assms(1) by (simp_all add: kzalloc_def tvlv_table_def tvlv_map_def split: list.split)
  ultimately show ?thesis
    using False unregister_map [OF assms(1)] by simp
qed

theorem tvlv_containers_map_witness:
  "tvlv_map (batadv_tvlv_container_register 6 1 (Some [7, 8]) 2 (tvlv_example [dat_container] [])) (6, 1) = Some [7, 8]"
proof -
  have t: "tvlv_table (tvlv_example [dat_container] [])"
    by (simp add: tvlv_table_def tvlv_example_def tvlv_ok_def dat_container_def)
  have a: "fst (kzalloc (tvlv_example [dat_container] []))"
    by (simp add: kzalloc_def tvlv_example_def)
  show ?thesis
    using tvlv_containers_map [OF t, of "Some [7, 8]" 2 6 1] a by simp
qed

text \<open>C34: What is attached to an OGM is what a receiver finds: when there is memory and the containers fit
  the 16-bit length, the buffer keeps its header, the reported length is that of the rest, and parsing the
  rest hands over exactly the registered containers, in order, to the handlers that are registered for
  them.\<close>

theorem tvlv_roundtrip:
  assumes "tvlv_table s" "fst (kzalloc s)" "length (tvlv_payload (bp_tvlv_containers s)) < 65536"
    "m \<le> length buff" "batadv_tvlv_container_ogm_append buff m s = (len, buff', s')"
  shows "take m buff' = take m buff \<and> length buff' = m + unat len \<and> bp_panic s' = bp_panic s
    \<and> tvlv_process_loop ocb ucb True (Some o') src dst (drop m buff') 0 r
      = (0, fold (tvlv_deliver ocb o') (bp_tvlv_containers s) r)"
proof -
  let ?p = "tvlv_payload (bp_tvlv_containers s)"
  have ok: "\<forall>c \<in> set (bp_tvlv_containers s). tvlv_ok c"
    using assms(1) by (simp add: tvlv_table_def)
  have e: "len = of_nat (length ?p)" "buff' = take m buff @ ?p" "s' = snd (kzalloc s)"
    using append_payload [OF ok assms(2-4)] assms(5) by simp_all
  have "tvlv_parse ?p = bp_tvlv_containers s"
    using parse_payload [OF ok, of "[]"] by simp
  moreover have "unat len = length ?p"
    using assms(3) e(1) by (simp add: unat_of_nat)
  moreover have "bp_panic s' = bp_panic s"
    using e(3) by (simp add: kzalloc_def split: list.split)
  ultimately show ?thesis
    using e(2) assms(4) by (simp add: process_loop_fold)
qed

theorem tvlv_roundtrip_witness:
  "tvlv_process_loop mesh_ogm_handler (\<lambda>_ _ _ _ _ s. (0, s)) True (Some 0) None None
     (drop 2 (fst (snd (batadv_tvlv_container_ogm_append [1, 2, 3] 2 (tvlv_example [dat_container] []))))) 0
     (tvlv_example [] [capa_handler BATADV_TVLV_DAT])
   = (0, tvlv_deliver mesh_ogm_handler 0 dat_container (tvlv_example [] [capa_handler BATADV_TVLV_DAT]))"
proof -
  let ?s = "tvlv_example [dat_container] []"
  have h: "tvlv_table ?s" "fst (kzalloc ?s)" "length (tvlv_payload (bp_tvlv_containers ?s)) < 65536"
    by (simp_all add: tvlv_table_def tvlv_example_def tvlv_ok_def dat_container_def kzalloc_def tvlv_payload_def
        tvlv_bytes_def tvlv_hdr_bytes_def)
  obtain len buff' s' where e: "batadv_tvlv_container_ogm_append [1, 2, 3] 2 ?s = (len, buff', s')"
    by (cases "batadv_tvlv_container_ogm_append [1, 2, 3] 2 ?s") auto
  show ?thesis
    using tvlv_roundtrip [OF h _ e, of mesh_ogm_handler "\<lambda>_ _ _ _ _ s. (0, s)" 0 None None
        "tvlv_example [] [capa_handler BATADV_TVLV_DAT]"] e
    by (simp add: tvlv_example_def)
qed

text \<open>Whatever bytes an OGM carries, it leaves the table of handlers as it was, and afterwards its
  originator counts as able to take part in the distributed ARP table exactly if a container of that type and
  version 1 was among them, likewise for network coding; other originators keep their capabilities.\<close>

theorem tvlv_capabilities:
  assumes "handler_table s" "b \<noteq> []"
    and "\<And>t. t \<in> {BATADV_TVLV_DAT, BATADV_TVLV_NC} \<Longrightarrow>
      \<exists>h \<in> set (bp_tvlv_handlers s). hd_key h = (t, 1) \<and> hd_ogm_handler h \<and> bit (hd_flags h) 1"
    and "s' = batadv_tvlv_ogm_receive mesh_ogm_handler b o' s"
  shows "bp_tvlv_handlers s' = bp_tvlv_handlers s
    \<and> capa s' p BATADV_ORIG_CAPA_HAS_DAT
        = (if p = o' then (BATADV_TVLV_DAT, 1) \<in> tvlv_key ` set (tvlv_parse b) else capa s p BATADV_ORIG_CAPA_HAS_DAT)
    \<and> capa s' p BATADV_ORIG_CAPA_HAS_NC
        = (if p = o' then (BATADV_TVLV_NC, 1) \<in> tvlv_key ` set (tvlv_parse b) else capa s p BATADV_ORIG_CAPA_HAS_NC)"
proof -
  obtain h where h: "h \<in> set (bp_tvlv_handlers s)" "hd_key h = (BATADV_TVLV_DAT, 1)" "hd_ogm_handler h" "bit (hd_flags h) 1"
    using assms(3) [of BATADV_TVLV_DAT] by auto
  obtain g where g: "g \<in> set (bp_tvlv_handlers s)" "hd_key g = (BATADV_TVLV_NC, 1)" "hd_ogm_handler g" "bit (hd_flags g) 1"
    using assms(3) [of BATADV_TVLV_NC] by auto
  show ?thesis
    using dat_capa.receive_capa [OF assms(1,2) h] nc_capa.receive_capa [OF assms(1,2) g]
      mesh_tvlv.receive_handlers [OF assms(1)] assms(4) by simp
qed

lemma example_handlers:
  "handler_table (tvlv_example cs [capa_handler BATADV_TVLV_DAT, capa_handler BATADV_TVLV_NC])"
  "t \<in> {BATADV_TVLV_DAT, BATADV_TVLV_NC} \<Longrightarrow>
   \<exists>h \<in> set (bp_tvlv_handlers (tvlv_example cs [capa_handler BATADV_TVLV_DAT, capa_handler BATADV_TVLV_NC])).
     hd_key h = (t, 1) \<and> hd_ogm_handler h \<and> bit (hd_flags h) 1"
proof -
  have b: "bit (2 :: u8) n \<longleftrightarrow> n = 1" for n
    using bit_push_bit_iff [of 1 "1 :: u8" n] by (auto simp: bit_1_iff)
  show "handler_table (tvlv_example cs [capa_handler BATADV_TVLV_DAT, capa_handler BATADV_TVLV_NC])"
    by (simp add: handler_table_def tvlv_example_def capa_handler_def hd_key_def b)
  show "\<exists>h \<in> set (bp_tvlv_handlers (tvlv_example cs [capa_handler BATADV_TVLV_DAT, capa_handler BATADV_TVLV_NC])).
     hd_key h = (t, 1) \<and> hd_ogm_handler h \<and> bit (hd_flags h) 1"
    if "t \<in> {BATADV_TVLV_DAT, BATADV_TVLV_NC}"
    using that by (auto simp: tvlv_example_def capa_handler_def hd_key_def b)
qed

theorem tvlv_capabilities_witness:
  "capa (batadv_tvlv_ogm_receive mesh_ogm_handler [2, 1, 0, 0] 0
      (tvlv_example [] [capa_handler BATADV_TVLV_DAT, capa_handler BATADV_TVLV_NC])) 0 BATADV_ORIG_CAPA_HAS_DAT
   \<and> \<not> capa (batadv_tvlv_ogm_receive mesh_ogm_handler [2, 1, 0, 0] 0
      (tvlv_example [] [capa_handler BATADV_TVLV_DAT, capa_handler BATADV_TVLV_NC])) 0 BATADV_ORIG_CAPA_HAS_NC"
proof -
  have "[2, 1, 0, 0] = tvlv_bytes dat_container"
    by (simp add: tvlv_bytes_def tvlv_hdr_bytes_def dat_container_def numeral_2_eq_2)
  then have "tvlv_parse [2, 1, 0, 0] = [dat_container]"
    using parse_payload [of "[dat_container]" "[]"] by (simp add: tvlv_payload_def tvlv_ok_def dat_container_def)
  then show ?thesis
    using tvlv_capabilities [OF example_handlers(1) _ example_handlers(2) refl, of "[2, 1, 0, 0]" 0 "[]" 0]
    by (simp add: dat_container_def tvlv_key_def)
qed

text \<open>From end to end: when a node attaches its containers to an OGM and another node processes what is
  attached, the second regards the first as taking part in the distributed ARP table, or in network coding,
  exactly if the first has registered the container that announces it.\<close>

theorem announced_capabilities:
  assumes "tvlv_table s" "fst (kzalloc s)" "0 < length (tvlv_payload (bp_tvlv_containers s))"
    "length (tvlv_payload (bp_tvlv_containers s)) < 65536" "m \<le> length buff"
    and "batadv_tvlv_container_ogm_append buff m s = (len, buff', s')"
    and "handler_table r"
    and "\<And>t. t \<in> {BATADV_TVLV_DAT, BATADV_TVLV_NC} \<Longrightarrow>
      \<exists>h \<in> set (bp_tvlv_handlers r). hd_key h = (t, 1) \<and> hd_ogm_handler h \<and> bit (hd_flags h) 1"
  shows "capa (batadv_tvlv_ogm_receive mesh_ogm_handler (drop m buff') o' r) o' BATADV_ORIG_CAPA_HAS_DAT
      = (tvlv_map s (BATADV_TVLV_DAT, 1) \<noteq> None)
    \<and> capa (batadv_tvlv_ogm_receive mesh_ogm_handler (drop m buff') o' r) o' BATADV_ORIG_CAPA_HAS_NC
      = (tvlv_map s (BATADV_TVLV_NC, 1) \<noteq> None)"
proof -
  let ?p = "tvlv_payload (bp_tvlv_containers s)"
  have ok: "\<forall>c \<in> set (bp_tvlv_containers s). tvlv_ok c"
    using assms(1) by (simp add: tvlv_table_def)
  have p: "drop m buff' = ?p"
    using append_payload [OF ok assms(2,4,5)] assms(5,6) by simp
  have "?p \<noteq> []" using assms(3) by auto
  have "tvlv_parse ?p = bp_tvlv_containers s"
    using parse_payload [OF ok, of "[]"] by simp
  moreover have "tvlv_map s k = None \<longleftrightarrow> k \<notin> tvlv_key ` set (bp_tvlv_containers s)" for k
    by (simp add: tvlv_map_def map_of_eq_None_iff image_image)
  moreover obtain h where h: "h \<in> set (bp_tvlv_handlers r)" "hd_key h = (BATADV_TVLV_DAT, 1)"
      "hd_ogm_handler h" "bit (hd_flags h) 1"
    using assms(8) [of BATADV_TVLV_DAT] by auto
  moreover obtain g where g: "g \<in> set (bp_tvlv_handlers r)" "hd_key g = (BATADV_TVLV_NC, 1)"
      "hd_ogm_handler g" "bit (hd_flags g) 1"
    using assms(8) [of BATADV_TVLV_NC] by auto
  ultimately show ?thesis
    using dat_capa.receive_capa [OF assms(7) \<open>?p \<noteq> []\<close> h] nc_capa.receive_capa [OF assms(7) \<open>?p \<noteq> []\<close> g] p
    by auto
qed

theorem announced_capabilities_witness:
  "\<exists>buff'. capa (batadv_tvlv_ogm_receive mesh_ogm_handler (drop 1 buff') 0
      (tvlv_example [] [capa_handler BATADV_TVLV_DAT, capa_handler BATADV_TVLV_NC])) 0 BATADV_ORIG_CAPA_HAS_DAT"
proof -
  let ?s = "tvlv_example [dat_container] []"
  have h: "tvlv_table ?s" "fst (kzalloc ?s)" "0 < length (tvlv_payload (bp_tvlv_containers ?s))"
    "length (tvlv_payload (bp_tvlv_containers ?s)) < 65536" "tvlv_map ?s (BATADV_TVLV_DAT, 1) \<noteq> None"
    by (simp_all add: tvlv_table_def tvlv_example_def tvlv_ok_def dat_container_def kzalloc_def tvlv_payload_def
        tvlv_bytes_def tvlv_hdr_bytes_def tvlv_map_def tvlv_key_def)
  obtain len buff' s' where e: "batadv_tvlv_container_ogm_append [1] 1 ?s = (len, buff', s')"
    by (cases "batadv_tvlv_container_ogm_append [1] 1 ?s") auto
  show ?thesis
    using announced_capabilities [OF h(1-4) _ e example_handlers(1) [of "[]"] example_handlers(2), of 0] h(5) by auto
qed

end
