(* ===== verification/Iv_Ogm.thy ===== *)
theory Iv_Ogm
  imports Nc_Node Router Tvlv
begin

text \<open>
  Originator messages of B.A.T.M.A.N. IV, the rest of \<open>bat_iv_ogm.c\<close>: from the frame that
  arrives on an interface through the update of originators, links and routers to the
  copies that are queued for every outgoing interface, and the scheduling of our own
  messages.
\<close>

datatype batadv_dup_status =
    BATADV_NO_DUP
  | BATADV_ORIG_DUP
  | BATADV_NEIGH_DUP
  | BATADV_PROTECTED

section \<open>Originators of the algorithm\<close>

text \<open>
  A slot of the arrays that are indexed by the number of an interface. The number is -1
  once the interface has been removed.
\<close>

definition own_sum_at :: "batadv_priv \<Rightarrow> nat \<Rightarrow> int \<Rightarrow> u8" where
  "own_sum_at s orig_node if_num =
     (let a = on_bcast_own_sum (orig_of s orig_node)
      in if 0 \<le> if_num \<and> nat if_num < length a then a ! nat if_num else bp_stray s)"

text \<open>The two arrays of a new originator.\<close>

definition orig_init_own :: "nat \<Rightarrow> batadv_priv \<Rightarrow> bool \<times> batadv_priv" where
  "orig_init_own n s =
     (let (ok, s) = kzalloc s in
      if \<not> ok then (False, s)
      else
        (let s = orig_mod n (\<lambda>o'. o'\<lparr>on_bcast_own := replicate (bp_num_ifaces s) 0\<rparr>) s;
             (ok, s) = kzalloc s
         in if \<not> ok then (False, s)
            else (True, orig_mod n (\<lambda>o'. o'\<lparr>on_bcast_own_sum := replicate (bp_num_ifaces s) 0\<rparr>) s)))"

definition batadv_iv_ogm_orig_get :: "kenv \<Rightarrow> mac \<Rightarrow> batadv_priv \<Rightarrow> nat option \<times> batadv_priv" where
  "batadv_iv_ogm_orig_get k addr s =
     (case batadv_orig_hash_find k s addr of
        Some orig_node \<Rightarrow> (Some orig_node, s)
      | None \<Rightarrow>
          (case batadv_orig_node_new k addr s of
             (None, s) \<Rightarrow> (None, s)
           | (Some n, s) \<Rightarrow>
               (let (ok, s) = orig_init_own n s in
                if \<not> ok then (None, s)
                else
                  (let (hash_added, hash) = batadv_hash_add (bp_orig_hash s) batadv_compare_orig
                         (batadv_choose_orig k) addr (addr, n)
                   in if hash_added \<noteq> 0 then (None, s)
                      else (Some n, s\<lparr>bp_orig_hash := hash\<rparr>)))))"

definition batadv_iv_ogm_neigh_new ::
  "kenv \<Rightarrow> nat \<Rightarrow> mac \<Rightarrow> nat \<Rightarrow> nat \<Rightarrow> batadv_priv \<Rightarrow> nat option \<times> batadv_priv" where
  "batadv_iv_ogm_neigh_new k hard_iface neigh_addr orig_node orig_neigh s =
     (case batadv_neigh_node_new k orig_node hard_iface neigh_addr s of
        (None, s) \<Rightarrow> (None, s)
      | (Some n, s) \<Rightarrow> (Some n, neigh_mod n (\<lambda>x. x\<lparr>nn_orig_node := orig_neigh\<rparr>) s))"

text \<open>
  Growing and shrinking the arrays. The new memory comes from \<open>kmalloc_array\<close>, which does
  not clear it: \<open>garbage\<close> is what it holds. When the second allocation fails, the first
  array has been freed and the pointer to it stays.
\<close>

definition batadv_iv_ogm_orig_add_if ::
  "(nat \<Rightarrow> seq_bits \<times> u8) \<Rightarrow> nat \<Rightarrow> int \<Rightarrow> batadv_priv \<Rightarrow> bool \<times> batadv_priv" where
  "batadv_iv_ogm_orig_add_if garbage orig_node max_if_num s =
     (let old = nat (max_if_num - 1);
          (ok, s) = kzalloc s
      in if \<not> ok then (False, s)
         else
           (let s = orig_mod orig_node (\<lambda>o'. o'\<lparr>on_bcast_own :=
                      take old (on_bcast_own o') @ [fst (garbage orig_node)]\<rparr>) s;
                (ok, s) = kzalloc s
            in if \<not> ok then (False, orig_mod orig_node (\<lambda>o'. o'\<lparr>on_bcast_own_freed := True\<rparr>) s)
               else (True, orig_mod orig_node (\<lambda>o'. o'\<lparr>on_bcast_own_sum :=
                      take old (on_bcast_own_sum o') @ [snd (garbage orig_node)]\<rparr>) s)))"

definition without :: "nat \<Rightarrow> nat \<Rightarrow> 'a list \<Rightarrow> 'a list" where
  "without n i xs = take i xs @ take (n - i) (drop (i + 1) xs)"

definition batadv_iv_ogm_orig_del_if ::
  "nat \<Rightarrow> int \<Rightarrow> int \<Rightarrow> batadv_priv \<Rightarrow> bool \<times> batadv_priv" where
  "batadv_iv_ogm_orig_del_if orig_node max_if_num del_if_num s =
     (if max_if_num = 0 then
        (True, orig_mod orig_node (\<lambda>o'. o'\<lparr>on_bcast_own := [], on_bcast_own_sum := []\<rparr>) s)
      else
        (let n = nat max_if_num; i = nat del_if_num;
             (ok, s) = kzalloc s
         in if \<not> ok then (False, s)
            else
              (let s = orig_mod orig_node (\<lambda>o'. o'\<lparr>on_bcast_own := without n i (on_bcast_own o')\<rparr>) s;
                   (ok, s) = kzalloc s
               in if \<not> ok then (False, orig_mod orig_node (\<lambda>o'. o'\<lparr>on_bcast_own_freed := True\<rparr>) s)
                  else (True, orig_mod orig_node
                         (\<lambda>o'. o'\<lparr>on_bcast_own_sum := without n i (on_bcast_own_sum o')\<rparr>) s))))"

section \<open>Our own messages\<close>

text \<open>Changing the header at the start of the message buffer of an interface.\<close>

definition ogm_buff_mod ::
  "nat \<Rightarrow> (batadv_ogm_packet \<Rightarrow> batadv_ogm_packet) \<Rightarrow> batadv_priv \<Rightarrow> batadv_priv" where
  "ogm_buff_mod hard_iface f =
     hardif_mod hard_iface (\<lambda>i. i\<lparr>hi_ogm_buff :=
       ogm_bytes (f (ogm_at (hi_ogm_buff i) 0)) @ drop BATADV_OGM_HLEN (hi_ogm_buff i)\<rparr>)"

text \<open>\<open>mem\<close> is the memory that \<open>kmalloc\<close> hands out.\<close>

definition batadv_iv_ogm_iface_enable :: "u8 list \<Rightarrow> nat \<Rightarrow> batadv_priv \<Rightarrow> int \<times> batadv_priv" where
  "batadv_iv_ogm_iface_enable mem hard_iface s =
     (let (random_seqno, s) = prandom_u32 s;
          s = hardif_mod hard_iface (\<lambda>i. i\<lparr>hi_ogm_seqno := random_seqno\<rparr>) s;
          (ok, s) = kzalloc s
      in if \<not> ok then (- 12, s)
         else
           (let s = hardif_mod hard_iface (\<lambda>i. i\<lparr>hi_ogm_buff := take BATADV_OGM_HLEN mem\<rparr>) s
            in (0, ogm_buff_mod hard_iface
                  (\<lambda>p. p\<lparr>og_packet_type := BATADV_IV_OGM, og_version := BATADV_COMPAT_VERSION,
                         og_ttl := 2, og_flags := 0, og_reserved := 0,
                         og_tq := BATADV_TQ_MAX_VALUE\<rparr>) s)))"

definition batadv_iv_ogm_iface_disable :: "nat \<Rightarrow> batadv_priv \<Rightarrow> batadv_priv" where
  "batadv_iv_ogm_iface_disable hard_iface = hardif_mod hard_iface (\<lambda>i. i\<lparr>hi_ogm_buff := []\<rparr>)"

definition batadv_iv_ogm_iface_update_mac :: "nat \<Rightarrow> batadv_priv \<Rightarrow> batadv_priv" where
  "batadv_iv_ogm_iface_update_mac hard_iface s =
     ogm_buff_mod hard_iface
       (\<lambda>p. p\<lparr>og_orig := hi_dev_addr (hardif_of s hard_iface),
              og_prev_sender := hi_dev_addr (hardif_of s hard_iface)\<rparr>) s"

definition batadv_iv_ogm_primary_iface_set :: "nat \<Rightarrow> batadv_priv \<Rightarrow> batadv_priv" where
  "batadv_iv_ogm_primary_iface_set hard_iface = ogm_buff_mod hard_iface (\<lambda>p. p\<lparr>og_ttl := BATADV_TTL\<rparr>)"

text \<open>
  The window of the own messages that an originator sent back on one interface changes,
  and its weight with it. When a message is scheduled, the window moves by one.
\<close>

definition own_set :: "nat \<Rightarrow> (seq_bits \<Rightarrow> seq_bits) \<Rightarrow> batadv_orig_node \<Rightarrow> batadv_orig_node" where
  "own_set if_num f o' =
     (let word = f (on_bcast_own o' ! if_num)
      in o'\<lparr>on_bcast_own := (on_bcast_own o')[if_num := word],
            on_bcast_own_sum := (on_bcast_own_sum o')[if_num := of_nat (bitmap_weight word)]\<rparr>)"

text \<open>An interface that left the mesh has the number -1; what lies in front of the arrays is not modelled.\<close>

definition own_set_at :: "int \<Rightarrow> (seq_bits \<Rightarrow> seq_bits) \<Rightarrow> batadv_orig_node \<Rightarrow> batadv_orig_node" where
  "own_set_at if_num f o' = (if if_num < 0 then o' else own_set (nat if_num) f o')"

definition slide_own_window :: "int \<Rightarrow> batadv_orig_node \<Rightarrow> batadv_orig_node" where
  "slide_own_window if_num = own_set_at if_num (\<lambda>word. fst (batadv_bit_get_packet word 1 False))"

definition batadv_iv_ogm_slide_own_bcast_window :: "nat \<Rightarrow> batadv_priv \<Rightarrow> batadv_priv" where
  "batadv_iv_ogm_slide_own_bcast_window hard_iface s =
     fold (\<lambda>node. orig_mod (snd node) (slide_own_window (hi_if_num (hardif_of s hard_iface))))
       (bp_table s) s"

text \<open>The first part of scheduling: the buffer of the primary interface gets the containers.\<close>

definition schedule_append :: "nat \<Rightarrow> batadv_priv \<Rightarrow> u16 \<times> batadv_priv" where
  "schedule_append hard_iface s =
     (if bp_primary_if s = Some hard_iface then
        (let s = call Tt_Local_Commit_Changes s;
             (len, buff, s) = batadv_tvlv_container_ogm_append (hi_ogm_buff (hardif_of s hard_iface)) BATADV_OGM_HLEN s
         in (len, hardif_mod hard_iface (\<lambda>h. h\<lparr>hi_ogm_buff := buff\<rparr>) s))
      else (0, s))"

definition batadv_iv_ogm_schedule :: "kenv \<Rightarrow> nat \<Rightarrow> batadv_priv \<Rightarrow> batadv_priv" where
  "batadv_iv_ogm_schedule k hard_iface s =
     (let primary = (bp_primary_if s = Some hard_iface);
          (tvlv_len, s) = schedule_append hard_iface s;
          seqno = hi_ogm_seqno (hardif_of s hard_iface);
          s = ogm_buff_mod hard_iface (\<lambda>p. p\<lparr>og_tvlv_len := tvlv_len, og_seqno := seqno\<rparr>) s;
          s = hardif_mod hard_iface (\<lambda>i. i\<lparr>hi_ogm_seqno := hi_ogm_seqno i + 1\<rparr>) s;
          s = batadv_iv_ogm_slide_own_bcast_window hard_iface s;
          (send_time, s) = batadv_iv_ogm_emit_send_time k s;
          buff = hi_ogm_buff (hardif_of s hard_iface)
      in if \<not> primary then
           batadv_iv_ogm_queue_add k buff (length buff) hard_iface hard_iface True send_time s
         else
           fold (\<lambda>tmp s.
               if hi_soft_iface (hardif_of s tmp) \<noteq> hi_soft_iface (hardif_of s hard_iface) then s
               else batadv_iv_ogm_queue_add k buff (length buff) hard_iface tmp True send_time s)
             (bp_hardif_list s) s)"

section \<open>Link and route quality\<close>

definition ring_push :: "u8 \<Rightarrow> batadv_neigh_ifinfo \<Rightarrow> batadv_neigh_ifinfo" where
  "ring_push v ni =
     (let (tq_recv, tq_index) = batadv_ring_buffer_set (ni_tq_recv ni) (ni_tq_index ni) v
      in ni\<lparr>ni_tq_recv := tq_recv, ni_tq_index := tq_index, ni_tq_avg := batadv_ring_buffer_avg tq_recv\<rparr>)"

text \<open>
  The loop of \<open>batadv_iv_ogm_orig_update\<close> over the neighbours towards the originator:
  the one the OGM came from, and a zero for the others if it was new.
\<close>

definition orig_update_neigh ::
  "mac \<Rightarrow> nat \<Rightarrow> nat option \<Rightarrow> batadv_dup_status \<Rightarrow> nat
   \<Rightarrow> nat option \<times> batadv_priv \<Rightarrow> nat option \<times> batadv_priv" where
  "orig_update_neigh h_source if_incoming if_outgoing dup_status tmp acc =
     (let (neigh_node, s) = acc in
      if nn_addr (neigh_of s tmp) = h_source \<and> nn_if_incoming (neigh_of s tmp) = if_incoming
      then (Some tmp, s)
      else if dup_status \<noteq> BATADV_NO_DUP then (neigh_node, s)
      else if batadv_neigh_ifinfo_get s tmp if_outgoing = None then (neigh_node, s)
      else (neigh_node, neigh_ifinfo_mod tmp if_outgoing (ring_push 0) s))"

definition orig_update_neighs ::
  "nat \<Rightarrow> mac \<Rightarrow> nat \<Rightarrow> nat option \<Rightarrow> batadv_dup_status \<Rightarrow> batadv_priv \<Rightarrow> nat option \<times> batadv_priv" where
  "orig_update_neighs orig_node h_source if_incoming if_outgoing dup_status s =
     fold (orig_update_neigh h_source if_incoming if_outgoing dup_status)
       (on_neigh_list (orig_of s orig_node)) (None, s)"

text \<open>The end of the function: is the neighbour to become the router?\<close>

definition orig_update_route ::
  "nat \<Rightarrow> nat option \<Rightarrow> nat \<Rightarrow> batadv_priv \<Rightarrow> batadv_priv" where
  "orig_update_route orig_node if_outgoing neigh_node s =
     (let neigh_avg = (case batadv_neigh_ifinfo_get s neigh_node if_outgoing of
                         None \<Rightarrow> 0 | Some i \<Rightarrow> ni_tq_avg i)
      in case batadv_orig_router_get s orig_node if_outgoing of
           None \<Rightarrow> batadv_update_route orig_node if_outgoing (Some neigh_node) s
         | Some router \<Rightarrow>
             if router = neigh_node then s
             else
               (case batadv_neigh_ifinfo_get s router if_outgoing of
                  None \<Rightarrow> s
                | Some router_ifinfo \<Rightarrow>
                    if ni_tq_avg router_ifinfo > neigh_avg then s
                    else if neigh_avg = ni_tq_avg router_ifinfo \<and>
                      own_sum_at s (nn_orig_node (neigh_of s router))
                          (hi_if_num (hardif_of s (nn_if_incoming (neigh_of s router))))
                        \<ge> own_sum_at s (nn_orig_node (neigh_of s neigh_node))
                          (hi_if_num (hardif_of s (nn_if_incoming (neigh_of s neigh_node))))
                    then s
                    else batadv_update_route orig_node if_outgoing (Some neigh_node) s))"

definition batadv_iv_ogm_orig_update ::
  "kenv \<Rightarrow> nat \<Rightarrow> mac \<Rightarrow> batadv_ogm_packet \<Rightarrow> nat \<Rightarrow> nat option \<Rightarrow> batadv_dup_status
   \<Rightarrow> batadv_priv \<Rightarrow> batadv_priv" where
  "batadv_iv_ogm_orig_update k orig_node h_source ogm if_incoming if_outgoing dup_status s =
     (let (found, s) = orig_update_neighs orig_node h_source if_incoming if_outgoing dup_status s;
          (neigh, s) =
            (case found of
               Some n \<Rightarrow> (Some n, s)
             | None \<Rightarrow>
                 (case batadv_iv_ogm_orig_get k h_source s of
                    (None, s) \<Rightarrow> (None, s)
                  | (Some orig_tmp, s) \<Rightarrow>
                      batadv_iv_ogm_neigh_new k if_incoming h_source orig_node orig_tmp s))
      in case neigh of
           None \<Rightarrow> s
         | Some neigh_node \<Rightarrow>
             (let (ok, s) = batadv_neigh_ifinfo_new neigh_node if_outgoing s in
              if \<not> ok then s
              else
                (let s = neigh_mod neigh_node (\<lambda>n. n\<lparr>nn_last_seen := k_jiffies k\<rparr>) s;
                     s = neigh_ifinfo_mod neigh_node if_outgoing (ring_push (og_tq ogm)) s;
                     s = (if dup_status = BATADV_NO_DUP then
                            neigh_ifinfo_mod neigh_node if_outgoing (\<lambda>i. i\<lparr>ni_last_ttl := og_ttl ogm\<rparr>)
                              (orig_ifinfo_mod orig_node if_outgoing (\<lambda>i. i\<lparr>oi_last_ttl := og_ttl ogm\<rparr>) s)
                          else s)
                 in orig_update_route orig_node if_outgoing neigh_node s)))"

text \<open>The result: is the link bidirectional, the OGM with its new quality, the state.\<close>

definition batadv_iv_ogm_calc_tq ::
  "kenv \<Rightarrow> nat \<Rightarrow> nat \<Rightarrow> batadv_ogm_packet \<Rightarrow> nat \<Rightarrow> nat option \<Rightarrow> batadv_priv
   \<Rightarrow> bool \<times> batadv_ogm_packet \<times> batadv_priv" where
  "batadv_iv_ogm_calc_tq k orig_node orig_neigh_node ogm if_incoming if_outgoing s =
     (let addr = on_orig (orig_of s orig_neigh_node);
          (neigh, s) =
            (case batadv_neigh_node_get s orig_neigh_node if_incoming addr of
               Some n \<Rightarrow> (Some n, s)
             | None \<Rightarrow> batadv_iv_ogm_neigh_new k if_incoming addr orig_neigh_node orig_neigh_node s)
      in case neigh of
           None \<Rightarrow> (False, ogm, s)
         | Some neigh_node \<Rightarrow>
             (let s = (if orig_node = orig_neigh_node
                       then neigh_mod neigh_node (\<lambda>n. n\<lparr>nn_last_seen := k_jiffies k\<rparr>) s else s);
                  s = orig_mod orig_node (\<lambda>o'. o'\<lparr>on_last_seen := k_jiffies k\<rparr>) s;
                  orig_eq_count = own_sum_at s orig_neigh_node (hi_if_num (hardif_of s if_incoming));
                  (ok, s) = batadv_neigh_ifinfo_new neigh_node if_outgoing s;
                  neigh_rq_count =
                    (if ok then (case batadv_neigh_ifinfo_get s neigh_node if_outgoing of
                                   None \<Rightarrow> 0 | Some i \<Rightarrow> ni_real_packet_count i)
                     else 0);
                  tq_iface_penalty =
                    (case if_outgoing of
                       None \<Rightarrow> BATADV_TQ_MAX_VALUE
                     | Some i \<Rightarrow>
                         if if_incoming = i \<and> hi_wifi (hardif_of s i)
                         then batadv_hop_penalty BATADV_TQ_MAX_VALUE (bp_hop_penalty s)
                         else BATADV_TQ_MAX_VALUE);
                  tq = iv_combined_tq (og_tq ogm) (iv_tq_own orig_eq_count neigh_rq_count)
                         (iv_asym_penalty neigh_rq_count) (ucast tq_iface_penalty)
              in (tq \<ge> 1, ogm\<lparr>og_tq := tq\<rparr>, s)))"

section \<open>Duplicates\<close>

text \<open>
  One neighbour in the loop of \<open>batadv_iv_ogm_update_seqnos\<close>. The accumulator is the
  status found so far, whether a window moved, and the state.
\<close>

definition update_seqnos_neigh ::
  "mac \<Rightarrow> u32 \<Rightarrow> u32 \<Rightarrow> nat \<Rightarrow> nat option \<Rightarrow> nat
   \<Rightarrow> batadv_dup_status \<times> bool \<times> batadv_priv \<Rightarrow> batadv_dup_status \<times> bool \<times> batadv_priv" where
  "update_seqnos_neigh h_source seqno last_real_seqno if_incoming if_outgoing neigh_node acc =
     (let (ret, need_update, s) = acc;
          (ok, s) = batadv_neigh_ifinfo_new neigh_node if_outgoing s
      in case batadv_neigh_ifinfo_get s neigh_node if_outgoing of
           None \<Rightarrow> (ret, need_update, s)
         | Some neigh_ifinfo \<Rightarrow>
             (let is_dup = batadv_test_bit (ni_real_bits neigh_ifinfo) last_real_seqno seqno;
                  from_here = (nn_addr (neigh_of s neigh_node) = h_source \<and>
                               nn_if_incoming (neigh_of s neigh_node) = if_incoming);
                  ret = (if from_here then (if is_dup then BATADV_NEIGH_DUP else ret)
                         else if is_dup \<and> ret \<noteq> BATADV_NEIGH_DUP then BATADV_ORIG_DUP else ret);
                  (bitmap, moved) = batadv_bit_get_packet (ni_real_bits neigh_ifinfo)
                                      (seqno - last_real_seqno) from_here
              in (ret, need_update \<or> moved,
                  neigh_ifinfo_mod neigh_node if_outgoing
                    (\<lambda>i. i\<lparr>ni_real_bits := bitmap, ni_real_packet_count := of_nat (bitmap_weight bitmap)\<rparr>) s)))"

definition batadv_iv_ogm_update_seqnos ::
  "kenv \<Rightarrow> mac \<Rightarrow> batadv_ogm_packet \<Rightarrow> nat \<Rightarrow> nat option \<Rightarrow> batadv_priv
   \<Rightarrow> batadv_dup_status \<times> batadv_priv" where
  "batadv_iv_ogm_update_seqnos k h_source ogm if_incoming if_outgoing s =
     (case batadv_iv_ogm_orig_get k (og_orig ogm) s of
        (None, s) \<Rightarrow> (BATADV_NO_DUP, s)
      | (Some orig_node, s) \<Rightarrow>
          (let (ok, s) = batadv_orig_ifinfo_new k orig_node if_outgoing s in
           case batadv_orig_ifinfo_get s orig_node if_outgoing of
             None \<Rightarrow> (BATADV_NO_DUP, s)
           | Some orig_ifinfo \<Rightarrow>
               (let seqno = og_seqno ogm;
                    last = oi_last_real_seqno orig_ifinfo;
                    neighs = on_neigh_list (orig_of s orig_node);
                    (prot, last_reset, started) =
                      (if neighs \<noteq> []
                       then batadv_window_protected k (seqno - last) BATADV_TQ_LOCAL_WINDOW_SIZE
                              (oi_batman_seqno_reset orig_ifinfo)
                       else (False, oi_batman_seqno_reset orig_ifinfo, False));
                    s = orig_ifinfo_mod orig_node if_outgoing
                          (\<lambda>i. i\<lparr>oi_batman_seqno_reset := last_reset\<rparr>) s
                in if prot then (BATADV_PROTECTED, s)
                   else
                     (let (ret, need_update, s) =
                            fold (update_seqnos_neigh h_source seqno last if_incoming if_outgoing)
                              neighs (BATADV_NO_DUP, False, s)
                      in (ret, if need_update then orig_ifinfo_mod orig_node if_outgoing
                                 (\<lambda>i. i\<lparr>oi_last_real_seqno := seqno\<rparr>) s else s)))))"

section \<open>Processing\<close>

text \<open>
  What happens once the sender of the OGM is known to be usable:
  \<open>batadv_iv_ogm_process_per_outif\<close> from the call of \<open>batadv_nc_update_nc_node\<close> on.
\<close>

definition process_ranked ::
  "kenv \<Rightarrow> mac \<Rightarrow> batadv_ogm_packet \<Rightarrow> u8 list \<Rightarrow> nat \<Rightarrow> nat \<Rightarrow> nat \<Rightarrow> nat option
   \<Rightarrow> batadv_dup_status \<Rightarrow> bool \<Rightarrow> bool \<Rightarrow> batadv_priv \<Rightarrow> batadv_priv" where
  "process_ranked k h_source ogm tvlv orig_node orig_neigh_node if_incoming if_outgoing dup_status
       is_single_hop_neigh is_from_best_next_hop s =
     (let s = batadv_nc_update_nc_node k orig_node orig_neigh_node ogm is_single_hop_neigh s in
      if \<not> is_single_hop_neigh \<and> batadv_orig_router_get s orig_neigh_node if_outgoing = None then s
      else
        (let (is_bidirect, ogm, s) =
               batadv_iv_ogm_calc_tq k orig_node orig_neigh_node ogm if_incoming if_outgoing s;
             (ok, s) = batadv_orig_ifinfo_new k orig_node if_outgoing s
         in case batadv_orig_ifinfo_get s orig_node if_outgoing of
              None \<Rightarrow> s
            | Some orig_ifinfo \<Rightarrow>
                (let sameseq = (oi_last_real_seqno orig_ifinfo = og_seqno ogm);
                     similar_ttl = (uint (oi_last_ttl orig_ifinfo) - 3 \<le> uint (og_ttl ogm));
                     s = (if is_bidirect \<and> (dup_status = BATADV_NO_DUP \<or> sameseq \<and> similar_ttl)
                          then batadv_iv_ogm_orig_update k orig_node h_source ogm if_incoming if_outgoing
                                 dup_status s
                          else s)
                 in case if_outgoing of
                      None \<Rightarrow> s
                    | Some out_iface \<Rightarrow>
                        if is_single_hop_neigh then
                          (if og_ttl ogm \<le> 2 \<and> if_incoming \<noteq> out_iface then s
                           else batadv_iv_ogm_forward k h_source ogm tvlv is_single_hop_neigh
                                  is_from_best_next_hop if_incoming out_iface s)
                        else if \<not> is_bidirect then s
                        else if dup_status = BATADV_NEIGH_DUP then s
                        else batadv_iv_ogm_forward k h_source ogm tvlv is_single_hop_neigh
                               is_from_best_next_hop if_incoming out_iface s)))"

text \<open>Did the OGM come from the current router? Would forwarding it go in a circle?\<close>

definition from_best_next_hop :: "batadv_priv \<Rightarrow> nat \<Rightarrow> nat option \<Rightarrow> mac \<Rightarrow> bool" where
  "from_best_next_hop s orig_node if_outgoing h_source =
     (case batadv_orig_router_get s orig_node if_outgoing of
        None \<Rightarrow> False
      | Some router \<Rightarrow>
          (case batadv_neigh_ifinfo_get s router if_outgoing of
             None \<Rightarrow> False
           | Some router_ifinfo \<Rightarrow>
               ni_tq_avg router_ifinfo \<noteq> 0 \<and> nn_addr (neigh_of s router) = h_source))"

definition may_loop :: "batadv_priv \<Rightarrow> nat \<Rightarrow> nat option \<Rightarrow> batadv_ogm_packet \<Rightarrow> bool" where
  "may_loop s orig_node if_outgoing ogm =
     (case batadv_orig_router_get s orig_node if_outgoing of
        None \<Rightarrow> False
      | Some router \<Rightarrow>
          (case batadv_orig_router_get s (nn_orig_node (neigh_of s router)) if_outgoing of
             None \<Rightarrow> False
           | Some router_router \<Rightarrow>
               nn_addr (neigh_of s router) = og_prev_sender ogm \<and>
               og_orig ogm \<noteq> og_prev_sender ogm \<and>
               nn_addr (neigh_of s router) = nn_addr (neigh_of s router_router)))"

text \<open>From the hand-over of the TVLV data to the look-up of the sender.\<close>

definition process_sender ::
  "kenv \<Rightarrow> mac \<Rightarrow> batadv_ogm_packet \<Rightarrow> u8 list \<Rightarrow> nat \<Rightarrow> nat \<Rightarrow> nat option
   \<Rightarrow> batadv_dup_status \<Rightarrow> bool \<Rightarrow> bool \<Rightarrow> batadv_priv \<Rightarrow> batadv_priv" where
  "process_sender k h_source ogm tvlv orig_node if_incoming if_outgoing dup_status
       is_single_hop_neigh is_from_best_next_hop s =
     (let s = (if if_outgoing = None then call (Tvlv_Ogm_Receive tvlv orig_node) s else s);
          (orig_neigh, s) =
            (if is_single_hop_neigh then (Some orig_node, s)
             else batadv_iv_ogm_orig_get k h_source s)
      in case orig_neigh of
           None \<Rightarrow> s
         | Some orig_neigh_node \<Rightarrow>
             process_ranked k h_source ogm tvlv orig_node orig_neigh_node if_incoming
               if_outgoing dup_status is_single_hop_neigh is_from_best_next_hop s)"

definition batadv_iv_ogm_process_per_outif ::
  "kenv \<Rightarrow> mac \<Rightarrow> u8 list \<Rightarrow> nat \<Rightarrow> nat \<Rightarrow> nat \<Rightarrow> nat option \<Rightarrow> batadv_priv \<Rightarrow> batadv_priv" where
  "batadv_iv_ogm_process_per_outif k h_source buf ogm_offset orig_node if_incoming if_outgoing s =
     (let (ok, s) = kzalloc s in
      if \<not> ok then s
      else
        (let (ogm, tvlv) = iv_wire_at buf ogm_offset;
             (dup_status, s) = batadv_iv_ogm_update_seqnos k h_source ogm if_incoming if_outgoing s;
             is_single_hop_neigh = (h_source = og_orig ogm)
         in if dup_status = BATADV_PROTECTED then s
            else if og_tq ogm = 0 then s
            else
              (let s = (if is_single_hop_neigh
                        then hardif_neigh_mod if_incoming h_source (\<lambda>n. n\<lparr>hn_last_seen := k_jiffies k\<rparr>) s
                        else s);
                   is_from_best_next_hop = from_best_next_hop s orig_node if_outgoing h_source
               in if may_loop s orig_node if_outgoing ogm then s
                  else process_sender k h_source ogm tvlv orig_node if_incoming if_outgoing dup_status
                         is_single_hop_neigh is_from_best_next_hop s)))"

text \<open>
  Our own OGM came back from a neighbour: the neighbour can hear us. The bit is relative
  to the sequence number we sent last.
\<close>

definition own_ogm_heard ::
  "int \<Rightarrow> u32 \<Rightarrow> u32 \<Rightarrow> nat \<Rightarrow> batadv_priv \<Rightarrow> batadv_priv" where
  "own_ogm_heard if_num if_incoming_seqno seqno orig_neigh_node s =
     (let bit_pos = if_incoming_seqno - 2 - seqno
      in orig_mod orig_neigh_node (own_set_at if_num (\<lambda>word. batadv_set_bit word bit_pos)) s)"

text \<open>The interfaces that the loop over all interfaces looks at.\<close>

definition up_ifaces :: "batadv_priv \<Rightarrow> nat \<Rightarrow> nat list" where
  "up_ifaces s if_incoming =
     filter (\<lambda>i. hi_if_status (hardif_of s i) = BATADV_IF_ACTIVE \<and>
                 hi_soft_iface (hardif_of s i) = hi_soft_iface (hardif_of s if_incoming))
       (bp_hardif_list s)"

definition batadv_iv_ogm_process ::
  "kenv \<Rightarrow> mac \<Rightarrow> u8 list \<Rightarrow> nat \<Rightarrow> nat \<Rightarrow> batadv_priv \<Rightarrow> batadv_priv" where
  "batadv_iv_ogm_process k h_source buf ogm_offset if_incoming s =
     (let ogm = ogm_at buf ogm_offset in
      if og_packet_type ogm \<noteq> BATADV_IV_OGM then s
      else
        (let if_incoming_seqno = hi_ogm_seqno (hardif_of s if_incoming);
             has_directlink_flag = (og_flags ogm AND BATADV_DIRECTLINK \<noteq> 0);
             up = up_ifaces s if_incoming;
             is_my_addr = list_ex (\<lambda>i. hi_dev_addr (hardif_of s i) = h_source) up;
             is_my_orig = list_ex (\<lambda>i. hi_dev_addr (hardif_of s i) = og_orig ogm) up;
             is_my_oldorig = list_ex (\<lambda>i. hi_dev_addr (hardif_of s i) = og_prev_sender ogm) up
         in if is_my_addr then s
            else if is_my_orig then
              (case batadv_iv_ogm_orig_get k h_source s of
                 (None, s) \<Rightarrow> s
               | (Some orig_neigh_node, s) \<Rightarrow>
                   if has_directlink_flag \<and> hi_dev_addr (hardif_of s if_incoming) = og_orig ogm
                   then own_ogm_heard (hi_if_num (hardif_of s if_incoming)) if_incoming_seqno
                          (og_seqno ogm) orig_neigh_node s
                   else s)
            else if is_my_oldorig then s
            else if og_flags ogm AND BATADV_NOT_BEST_NEXT_HOP \<noteq> 0 then s
            else
              (case batadv_iv_ogm_orig_get k (og_orig ogm) s of
                 (None, s) \<Rightarrow> s
               | (Some orig_node, s) \<Rightarrow>
                   (let s = batadv_iv_ogm_process_per_outif k h_source buf ogm_offset orig_node
                              if_incoming None s
                    in fold (\<lambda>i s. if mesh_iface s i
                         then batadv_iv_ogm_process_per_outif k h_source buf ogm_offset orig_node
                                if_incoming (Some i) s
                         else s) (bp_hardif_list s) s))))"

text \<open>
  A received frame: addresses and data. \<open>batadv_check_management_packet\<close> of \<open>routing.c\<close>
  decides whether it is a management frame; its two conversions of the buffer may fail.
\<close>

record mgmt_frame =
  mf_dest :: mac
  mf_source :: mac
  mf_data :: "u8 list"

definition batadv_check_management_packet :: "nat \<Rightarrow> mgmt_frame \<Rightarrow> batadv_priv \<Rightarrow> bool \<times> batadv_priv" where
  "batadv_check_management_packet header_len f s =
     (if length (mf_data f) < header_len then (False, s)
      else if \<not> is_broadcast_ether_addr (mf_dest f) then (False, s)
      else if is_broadcast_ether_addr (mf_source f) then (False, s)
      else
        (let (cow_ok, s) = kzalloc s in
         if \<not> cow_ok then (False, s)
         else kzalloc s))"

definition batadv_iv_ogm_receive ::
  "kenv \<Rightarrow> (nat \<Rightarrow> u8) \<Rightarrow> mgmt_frame \<Rightarrow> nat \<Rightarrow> batadv_priv \<Rightarrow> bool \<times> batadv_priv" where
  "batadv_iv_ogm_receive k oob f if_incoming s =
     (let (ret, s) = batadv_check_management_packet BATADV_OGM_HLEN f s in
      if \<not> ret then (False, s)
      else if \<not> bp_algo_iv s then (False, s)
      else (True, iv_unpack (\<lambda>ogm_offset. batadv_iv_ogm_process k (mf_source f) (mf_data f) ogm_offset
                               if_incoming) oob (mf_data f) 0 s))"

section \<open>Comparing neighbours\<close>

definition batadv_iv_ogm_neigh_cmp :: neigh_cmp where
  "batadv_iv_ogm_neigh_cmp s neigh1 if_outgoing1 neigh2 if_outgoing2 =
     (case (batadv_neigh_ifinfo_get s neigh1 if_outgoing1, batadv_neigh_ifinfo_get s neigh2 if_outgoing2) of
        (Some i1, Some i2) \<Rightarrow> uint (ni_tq_avg i1) - uint (ni_tq_avg i2)
      | _ \<Rightarrow> 0)"

definition batadv_iv_ogm_neigh_is_sob ::
  "batadv_priv \<Rightarrow> nat \<Rightarrow> nat option \<Rightarrow> nat \<Rightarrow> nat option \<Rightarrow> bool" where
  "batadv_iv_ogm_neigh_is_sob s neigh1 if_outgoing1 neigh2 if_outgoing2 =
     (case (batadv_neigh_ifinfo_get s neigh1 if_outgoing1, batadv_neigh_ifinfo_get s neigh2 if_outgoing2) of
        (Some i1, Some i2) \<Rightarrow>
          uint (ni_tq_avg i1) - uint (ni_tq_avg i2) > - BATADV_TQ_SIMILARITY_THRESHOLD
      | _ \<Rightarrow> False)"

definition iv_metric :: "batadv_priv \<Rightarrow> nat \<Rightarrow> nat option \<Rightarrow> int option" where
  "iv_metric s n i = map_option (\<lambda>x. uint (ni_tq_avg x)) (batadv_neigh_ifinfo_get s n i)"

interpretation iv_rank: neigh_ranking batadv_iv_ogm_neigh_cmp iv_metric
proof
  fix s n i a m j b
  assume "iv_metric s n i = Some a" "iv_metric s m j = Some b"
  then show "batadv_iv_ogm_neigh_cmp s n i m j \<le> 0 \<longleftrightarrow> a \<le> b"
    by (auto simp: iv_metric_def batadv_iv_ogm_neigh_cmp_def)
qed

end
