(* ===== verification/Send.thy ===== *)
theory Send
  imports Iv_Ogm
begin

text \<open>
  Scheduling, the queues of \<open>send.c\<close> and the work items that empty them. A work item
  belongs to one queued packet: it is named by the position of the packet in its queue.
  A packet that is purged is never one whose work item is running, as the code waits for
  that, so every packet that is found is removed. The time at which a broadcast is due is
  left out: any queued packet may be the next to be sent.
\<close>

section \<open>Own messages\<close>

text \<open>The callback of B.A.T.M.A.N. V is empty.\<close>

definition batadv_schedule_bat_ogm :: "kenv \<Rightarrow> nat \<Rightarrow> batadv_priv \<Rightarrow> batadv_priv" where
  "batadv_schedule_bat_ogm k hard_iface s =
     (if hi_if_status (hardif_of s hard_iface) = BATADV_IF_NOT_IN_USE \<or>
         hi_if_status (hardif_of s hard_iface) = BATADV_IF_TO_BE_REMOVED then s
      else
        (let s = (if hi_if_status (hardif_of s hard_iface) = BATADV_IF_TO_BE_ACTIVATED
                  then hardif_mod hard_iface (\<lambda>i. i\<lparr>hi_if_status := BATADV_IF_ACTIVE\<rparr>) s else s)
         in if bp_algo_iv s then batadv_iv_ogm_schedule k hard_iface s else s))"

definition list_del :: "nat \<Rightarrow> 'a list \<Rightarrow> 'a list" where
  "list_del j xs = take j xs @ drop (Suc j) xs"

definition batadv_send_outstanding_bat_ogm_packet ::
  "kenv \<Rightarrow> (nat \<Rightarrow> u8) \<Rightarrow> nat \<Rightarrow> batadv_priv \<Rightarrow> batadv_priv" where
  "batadv_send_outstanding_bat_ogm_packet k oob j s =
     (let forw_packet = bp_forw_bat_list s ! j;
          s = s\<lparr>bp_forw_bat_list := list_del j (bp_forw_bat_list s)\<rparr>;
          s = (if bp_mesh_state s = BATADV_MESH_DEACTIVATING then s
               else
                 (let s = (if bp_algo_iv s then batadv_iv_ogm_emit oob forw_packet s else s)
                  in if fw_own forw_packet \<and> fw_if_incoming forw_packet = fw_if_outgoing forw_packet
                     then batadv_schedule_bat_ogm k (fw_if_incoming forw_packet) s else s))
      in if \<not> fw_own forw_packet then s\<lparr>bp_batman_queue_left := bp_batman_queue_left s + 1\<rparr> else s)"

section \<open>Broadcasts\<close>

text \<open>The TTL is the third byte of \<open>struct batadv_bcast_packet\<close>.\<close>

definition batadv_add_bcast_packet_to_list :: "u8 list \<Rightarrow> batadv_priv \<Rightarrow> int \<times> batadv_priv" where
  "batadv_add_bcast_packet_to_list skb s =
     (if bp_bcast_queue_left s = 0 then (16, s)
      else
        (let s = s\<lparr>bp_bcast_queue_left := bp_bcast_queue_left s - 1\<rparr>;
             give_back = (\<lambda>s. (16, s\<lparr>bp_bcast_queue_left := bp_bcast_queue_left s + 1\<rparr>))
         in case bp_primary_if s of
              None \<Rightarrow> give_back s
            | Some primary_if \<Rightarrow>
                (let (ok, s) = kzalloc s in
                 if \<not> ok then give_back s
                 else
                   (let (ok, s) = kzalloc s in
                    if \<not> ok then give_back s
                    else
                      (let newskb = skb[2 := skb ! 2 - 1];
                           forw_packet = \<lparr>bf_skb = newskb, bf_if_incoming = primary_if, bf_num_packets = 0\<rparr>
                       in (0, s\<lparr>bp_forw_bcast_list := forw_packet # bp_forw_bcast_list s\<rparr>))))))"

text \<open>One interface of the loop over them: \<open>skb_clone\<close> may fail.\<close>

definition rebroadcast_on :: "nat option \<Rightarrow> batadv_forw_bcast \<Rightarrow> nat \<Rightarrow> batadv_priv \<Rightarrow> batadv_priv" where
  "rebroadcast_on soft_iface forw_packet hard_iface s =
     (if hi_soft_iface (hardif_of s hard_iface) \<noteq> soft_iface then s
      else if bf_num_packets forw_packet \<ge> hi_num_bcasts (hardif_of s hard_iface) then s
      else
        (let (ok, s) = kzalloc s
         in if ok then call (Send_Broadcast_Skb (bf_skb forw_packet) hard_iface) s else s))"

text \<open>
  \<open>dat_drop\<close> is \<open>batadv_dat_drop_broadcast_packet\<close>: does the ARP table already have the
  answer to the request in the packet?
\<close>

definition batadv_send_outstanding_bcast_packet ::
  "(batadv_priv \<Rightarrow> batadv_forw_bcast \<Rightarrow> bool) \<Rightarrow> nat \<Rightarrow> batadv_priv \<Rightarrow> batadv_priv" where
  "batadv_send_outstanding_bcast_packet dat_drop j s =
     (let forw_packet = bp_forw_bcast_list s ! j;
          soft_iface = hi_soft_iface (hardif_of s (bf_if_incoming forw_packet));
          s = s\<lparr>bp_forw_bcast_list := list_del j (bp_forw_bcast_list s)\<rparr>;
          free = (\<lambda>s. s\<lparr>bp_bcast_queue_left := bp_bcast_queue_left s + 1\<rparr>)
      in if bp_mesh_state s = BATADV_MESH_DEACTIVATING then free s
         else if dat_drop s forw_packet then free s
         else
           (let s = fold (rebroadcast_on soft_iface forw_packet) (bp_hardif_list s) s;
                forw_packet = forw_packet\<lparr>bf_num_packets := bf_num_packets forw_packet + 1\<rparr>
            in if bf_num_packets forw_packet < 3
               then s\<lparr>bp_forw_bcast_list := forw_packet # bp_forw_bcast_list s\<rparr>
               else free s))"

section \<open>Purging\<close>

text \<open>The outgoing interface of a broadcast is NULL, so it never is the one that is purged.\<close>

definition batadv_purge_outstanding_packets :: "nat option \<Rightarrow> batadv_priv \<Rightarrow> batadv_priv" where
  "batadv_purge_outstanding_packets hard_iface s =
     s\<lparr>bp_forw_bcast_list := filter (\<lambda>fw.
         (case hard_iface of None \<Rightarrow> False | Some i \<Rightarrow> bf_if_incoming fw \<noteq> i)) (bp_forw_bcast_list s),
       bp_forw_bat_list := filter (\<lambda>fw.
         (case hard_iface of None \<Rightarrow> False
          | Some i \<Rightarrow> fw_if_incoming fw \<noteq> i \<and> fw_if_outgoing fw \<noteq> i)) (bp_forw_bat_list s)\<rparr>"

section \<open>Broadcasts are accounted for\<close>

text \<open>\<open>N\<close> is the size of the queue; a packet is sent at most three times.\<close>

definition bcast_queue :: "nat \<Rightarrow> batadv_priv \<Rightarrow> bool" where
  "bcast_queue N s \<longleftrightarrow>
     bp_bcast_queue_left s + length (bp_forw_bcast_list s) = N \<and>
     (\<forall>fw \<in> set (bp_forw_bcast_list s). bf_num_packets fw < 3)"

lemma length_list_del: "j < length xs \<Longrightarrow> Suc (length (list_del j xs)) = length xs"
  by (simp add: list_del_def)

lemma set_list_del: "x \<in> set (list_del j xs) \<Longrightarrow> x \<in> set xs"
  by (auto simp: list_del_def dest: in_set_takeD in_set_dropD)

lemma bcast_queue_add:
  "bcast_queue N s \<Longrightarrow> bcast_queue N (snd (batadv_add_bcast_packet_to_list skb s))"
  by (auto simp: batadv_add_bcast_packet_to_list_def bcast_queue_def kzalloc_def Let_def
      split: option.split list.split)

lemma rebroadcast_keeps:
  "bp_forw_bcast_list (fold (rebroadcast_on si fw) is s) = bp_forw_bcast_list s \<and>
   bp_bcast_queue_left (fold (rebroadcast_on si fw) is s) = bp_bcast_queue_left s"
  by (rule fold_invariant_acc) (auto simp: rebroadcast_on_def call_def kzalloc_def split: list.split)

lemma bcast_queue_send:
  assumes "bcast_queue N s" "j < length (bp_forw_bcast_list s)"
  shows "bcast_queue N (batadv_send_outstanding_bcast_packet dat_drop j s)"
proof -
  let ?fw = "bp_forw_bcast_list s ! j"
  have "bf_num_packets ?fw < 3"
    using assms by (simp add: bcast_queue_def)
  moreover have "\<forall>fw \<in> set (list_del j (bp_forw_bcast_list s)). bf_num_packets fw < 3"
    using assms(1) by (auto simp: bcast_queue_def dest: set_list_del)
  moreover have "Suc (length (list_del j (bp_forw_bcast_list s))) + bp_bcast_queue_left s = N"
    using assms length_list_del [OF assms(2)] by (simp add: bcast_queue_def)
  ultimately show ?thesis
    using rebroadcast_keeps [of "hi_soft_iface (hardif_of s (bf_if_incoming ?fw))" ?fw "bp_hardif_list s"
        "s\<lparr>bp_forw_bcast_list := list_del j (bp_forw_bcast_list s)\<rparr>"]
    by (simp add: batadv_send_outstanding_bcast_packet_def bcast_queue_def Let_def)
qed

section \<open>Properties of the broadcast queue\<close>

text \<open>What one round transmits when every clone succeeds.\<close>

definition bcast_round :: "batadv_priv \<Rightarrow> nat option \<Rightarrow> u8 list \<Rightarrow> u8 \<Rightarrow> mesh_call list" where
  "bcast_round s soft_iface skb r =
     map (Send_Broadcast_Skb skb)
       (filter (\<lambda>i. hi_soft_iface (hardif_of s i) = soft_iface \<and> r < hi_num_bcasts (hardif_of s i)) (bp_hardif_list s))"

lemma rebroadcast_round:
  assumes "bp_allocs s = []"
  shows "fold (rebroadcast_on si fw) is s = s\<lparr>bp_calls := bp_calls s @
    map (Send_Broadcast_Skb (bf_skb fw))
      (filter (\<lambda>i. hi_soft_iface (hardif_of s i) = si \<and> bf_num_packets fw < hi_num_bcasts (hardif_of s i)) is)\<rparr>"
  using assms
proof (induction "is" arbitrary: s)
  case Nil
  then show ?case by simp
next
  case (Cons i "is")
  show ?case
  proof (cases "hi_soft_iface (hardif_of s i) = si \<and> bf_num_packets fw < hi_num_bcasts (hardif_of s i)")
    case True
    then have "rebroadcast_on si fw i s = s\<lparr>bp_calls := bp_calls s @ [Send_Broadcast_Skb (bf_skb fw) i]\<rparr>"
      using Cons.prems by (auto simp: rebroadcast_on_def kzalloc_def call_def)
    then show ?thesis
      using Cons True by simp
  next
    case False
    then have "rebroadcast_on si fw i s = s"
      by (auto simp: rebroadcast_on_def)
    then show ?thesis
      using Cons False by auto
  qed
qed

lemma send_head:
  assumes "bp_allocs s = []" "bp_mesh_state s \<noteq> BATADV_MESH_DEACTIVATING" "\<And>s fw. \<not> dat_drop s fw"
    and "bp_forw_bcast_list s = fw # rest" "si = hi_soft_iface (hardif_of s (bf_if_incoming fw))"
  shows "batadv_send_outstanding_bcast_packet dat_drop 0 s =
    (let s' = s\<lparr>bp_calls := bp_calls s @ bcast_round s si (bf_skb fw) (bf_num_packets fw)\<rparr>
     in if bf_num_packets fw + 1 < 3
        then s'\<lparr>bp_forw_bcast_list := fw\<lparr>bf_num_packets := bf_num_packets fw + 1\<rparr> # rest\<rparr>
        else s'\<lparr>bp_forw_bcast_list := rest, bp_bcast_queue_left := bp_bcast_queue_left s + 1\<rparr>)"
  using assms
  by (simp add: batadv_send_outstanding_bcast_packet_def list_del_def rebroadcast_round bcast_round_def Let_def)

text \<open>A broadcast that the queue accepts is transmitted in three rounds, in round r on every interface of
  the mesh that wants more than r copies, with its TTL reduced by one, and after that the queue is as it was
  before.\<close>

theorem bcast_repeated:
  assumes "bp_allocs s = []" "bp_mesh_state s \<noteq> BATADV_MESH_DEACTIVATING" "\<And>s fw. \<not> dat_drop s fw"
    and "bp_primary_if s = Some p" "0 < bp_bcast_queue_left s"
    and "snd (batadv_add_bcast_packet_to_list skb s) = s1"
  shows "(batadv_send_outstanding_bcast_packet dat_drop 0 ^^ 3) s1 = s\<lparr>bp_calls := bp_calls s @
    concat (map (bcast_round s (hi_soft_iface (hardif_of s p)) (skb[2 := skb ! 2 - 1])) [0, 1, 2])\<rparr>"
proof -
  let ?k = "skb[2 := skb ! 2 - 1]" and ?si = "hi_soft_iface (hardif_of s p)"
  let ?fw = "\<lambda>n. \<lparr>bf_skb = ?k, bf_if_incoming = p, bf_num_packets = n\<rparr>"
  let ?st = "\<lambda>n c. s\<lparr>bp_bcast_queue_left := bp_bcast_queue_left s - 1,
      bp_forw_bcast_list := ?fw n # bp_forw_bcast_list s, bp_calls := c\<rparr>"
  let ?send = "batadv_send_outstanding_bcast_packet dat_drop 0"
  have r: "bcast_round (?st n c) = bcast_round s" for n c
    by (simp add: bcast_round_def fun_eq_iff)
  have s1: "s1 = ?st 0 (bp_calls s)"
    using assms by (auto simp: batadv_add_bcast_packet_to_list_def kzalloc_def Let_def)
  have g: "?send (?st n c) = ?st (n + 1) (c @ bcast_round s ?si ?k n)" if "n + 1 < 3" for n c
    using send_head [of "?st n c" dat_drop "?fw n" "bp_forw_bcast_list s" ?si] assms(1-3) that r [where n = n and c = c]
    by simp
  have l: "?send (?st 2 c) = s\<lparr>bp_calls := c @ bcast_round s ?si ?k 2\<rparr>" for c
    using send_head [of "?st 2 c" dat_drop "?fw 2" "bp_forw_bcast_list s" ?si] assms(1-3,5) r [where n = 2 and c = c]
    by simp
  have "(?send ^^ 3) s1 = ?send (?send (?send s1))"
    by (simp add: numeral_3_eq_3)
  also have "\<dots> = s\<lparr>bp_calls := bp_calls s @ concat (map (bcast_round s ?si ?k) [0, 1, 2])\<rparr>"
    using g [of 0 "bp_calls s"] g [of 1] l by (simp add: s1)
  finally show ?thesis .
qed

theorem bcast_repeated_witness:
  "bp_calls ((batadv_send_outstanding_bcast_packet (\<lambda>_ _. False) 0 ^^ 3)
     (snd (batadv_add_bcast_packet_to_list [1, 15, 50, 0]
        ((tvlv_example [] [])\<lparr>bp_primary_if := Some 0, bp_hardif_list := [0, 1]\<rparr>))))
   = [Send_Broadcast_Skb [1, 15, 49, 0] 0, Send_Broadcast_Skb [1, 15, 49, 0] 1]"
proof -
  let ?s = "(tvlv_example [] [])\<lparr>bp_primary_if := Some 0, bp_hardif_list := [0, 1]\<rparr>"
  have "bp_allocs ?s = []" "bp_mesh_state ?s \<noteq> BATADV_MESH_DEACTIVATING" "bp_primary_if ?s = Some 0"
    "0 < bp_bcast_queue_left ?s"
    by (simp_all add: tvlv_example_def)
  from bcast_repeated [OF this(1,2) _ this(3,4) refl, of "\<lambda>_ _. False" "[1, 15, 50, 0]"] show ?thesis
    by (simp add: tvlv_example_def bcast_round_def)
qed

text \<open>Purging the broadcasts of an interface does not give their places in the queue back: when the
  broadcasts of the removed interface fill it, the queue is empty afterwards and still refuses every
  broadcast.\<close>

theorem purge_keeps_queue_full:
  assumes "bcast_queue N s" "length (bp_forw_bcast_list s) = N"
    and "\<forall>fw \<in> set (bp_forw_bcast_list s). bf_if_incoming fw = i"
    and "s' = batadv_purge_outstanding_packets (Some i) s"
  shows "bp_forw_bcast_list s' = [] \<and> batadv_add_bcast_packet_to_list skb s' = (16, s')"
  using assms
  by (auto simp: batadv_purge_outstanding_packets_def batadv_add_bcast_packet_to_list_def bcast_queue_def
      filter_empty_conv)

theorem purge_keeps_queue_full_witness:
  "\<exists>s. bp_forw_bcast_list s \<noteq> [] \<and>
     fst (batadv_add_bcast_packet_to_list [1, 15, 50] (batadv_purge_outstanding_packets (Some 0) s)) = 16"
proof -
  let ?s = "(tvlv_example [] [])\<lparr>bp_bcast_queue_left := 0,
    bp_forw_bcast_list := [\<lparr>bf_skb = [], bf_if_incoming = 0, bf_num_packets = 0\<rparr>]\<rparr>"
  have "bcast_queue 1 ?s"
    by (simp add: bcast_queue_def)
  from purge_keeps_queue_full [OF this _ _ refl, of 0 "[1, 15, 50]"]
  have "bp_forw_bcast_list ?s \<noteq> [] \<and>
     fst (batadv_add_bcast_packet_to_list [1, 15, 50] (batadv_purge_outstanding_packets (Some 0) ?s)) = 16"
    by simp
  then show ?thesis by blast
qed

end
