(* ===== verification/Iv_Contract.thy ===== *)
theory Iv_Contract
  imports Send
begin

text \<open>
  What the OGM code may change, as an interface: the locale \<open>iv_preserved\<close> lists the
  elementary updates that the operations of \<open>bat_iv_ogm.c\<close> are made of, each as the law
  that a property of the state survives it. Inside the locale every operation up to the
  reception of a frame, the scheduling of an own message and the purging of originators
  is shown to preserve the property. An invariant of B.A.T.M.A.N. IV is then an
  interpretation: only the elementary updates have to be looked at. The locale is extended
  twice, by what purging does and by what scheduling and sending do.
\<close>

section \<open>The elementary updates\<close>

definition ni_ok :: "batadv_neigh_ifinfo \<Rightarrow> bool" where
  "ni_ok i \<longleftrightarrow>
     length (ni_tq_recv i) = 5 \<and> unat (ni_tq_index i) < 5 \<and>
     ni_tq_avg i = batadv_ring_buffer_avg (ni_tq_recv i) \<and>
     ni_real_packet_count i = of_nat (bitmap_weight (ni_real_bits i))"

lemma ni_ok_init [simp]: "ni_ok (neigh_ifinfo_init i)"
  by (simp add: ni_ok_def neigh_ifinfo_init_def batadv_ring_buffer_avg_def ring_count_def
      bitmap_weight_def eval_nat_numeral)

lemma ni_ok_ring_push: "ni_ok i \<Longrightarrow> ni_ok (ring_push v i)"
  by (auto simp: ni_ok_def ring_push_def batadv_ring_buffer_set_def unat_of_nat)

lemma ni_ok_ttl [simp]: "ni_ok (i\<lparr>ni_last_ttl := t\<rparr>) = ni_ok i"
  by (simp add: ni_ok_def)

lemma ni_ok_window: "ni_ok i \<Longrightarrow>
    ni_ok (i\<lparr>ni_real_bits := b, ni_real_packet_count := of_nat (bitmap_weight b)\<rparr>)"
  by (simp add: ni_ok_def)

text \<open>Updates that leave the counters, the address and the metrics alone.\<close>

definition orig_keeps :: "(batadv_orig_node \<Rightarrow> batadv_orig_node) \<Rightarrow> bool" where
  "orig_keeps f \<longleftrightarrow>
     (\<forall>n. on_orig (f n) = on_orig n \<and> on_bcast_own (f n) = on_bcast_own n \<and>
          on_bcast_own_sum (f n) = on_bcast_own_sum n)"

definition neigh_keeps :: "(batadv_neigh_node \<Rightarrow> batadv_neigh_node) \<Rightarrow> bool" where
  "neigh_keeps f \<longleftrightarrow> (\<forall>n. nn_ifinfo_list (f n) = nn_ifinfo_list n)"

text \<open>An interface only changes its list of neighbours when it receives.\<close>

definition hardif_keeps :: "(batadv_hard_iface \<Rightarrow> batadv_hard_iface) \<Rightarrow> bool" where
  "hardif_keeps f \<longleftrightarrow> (\<forall>h. \<exists>l. f h = h\<lparr>hi_neigh_list := l\<rparr>)"

lemma hardif_keeps_simps [simp]: "hardif_keeps (\<lambda>h. h\<lparr>hi_neigh_list := l h\<rparr>)"
  by (auto simp: hardif_keeps_def)

text \<open>Does the interface belong to this mesh?\<close>

definition member :: "batadv_priv \<Rightarrow> nat \<Rightarrow> bool" where
  "member s i \<longleftrightarrow> hi_soft_iface (hardif_of s i) = Some (bp_soft_iface s)"

lemma orig_keeps_simps [simp]:
  "orig_keeps (on_ifinfo_list_update a)" "orig_keeps (on_neigh_list_update b)"
  "orig_keeps (on_last_seen_update c)" "orig_keeps (on_fragments_update d)"
  "orig_keeps (\<lambda>n. n\<lparr>on_ifinfo_list := e n\<rparr>)" "orig_keeps (\<lambda>n. n\<lparr>on_neigh_list := f n\<rparr>)"
  "orig_keeps (\<lambda>n. n\<lparr>on_ifinfo_list := g n, on_last_bonding_candidate := h n\<rparr>)"
  "orig_keeps (\<lambda>n. n\<lparr>on_fragments := i n\<rparr>)"
  by (simp_all add: orig_keeps_def)

lemma neigh_keeps_simps [simp]:
  "neigh_keeps (nn_last_seen_update a)" "neigh_keeps (nn_orig_node_update b)"
  by (simp_all add: neigh_keeps_def)

lemma prandom_eq:
  "prandom_u32 s = ((case bp_rands s of [] \<Rightarrow> 0 | r # _ \<Rightarrow> r), s\<lparr>bp_rands := tl (bp_rands s)\<rparr>)"
  by (simp add: prandom_u32_def split: list.split)

text \<open>A message on the wire keeps its length when it is forwarded.\<close>

lemma forward_header_tvlv:
  "iv_forward_header hp src sh best p = Some p' \<Longrightarrow> og_tvlv_len p' = og_tvlv_len p"
  by (auto simp: iv_forward_header_def Let_def split: if_splits)

lemma unpack_invariant:
  "(\<And>off s. batadv_iv_ogm_aggr_packet off (length buf) (tvlv_len_at oob buf off) \<Longrightarrow> P s \<Longrightarrow> P (process off s)) \<Longrightarrow>
   P s \<Longrightarrow> P (iv_unpack process oob buf off s)"
proof (induction process oob buf off s rule: iv_unpack.induct)
  case (1 process oob buf off s)
  then show ?case
    by (subst iv_unpack.simps) auto
qed

text \<open>Only OGMs that lie inside the frame are processed.\<close>

lemma be_word_two: "length b = 2 \<Longrightarrow> (be_word b :: u16) = be_word [b ! 0, b ! 1]"
  by (cases b rule: list.exhaust; cases "tl b") (auto simp: numeral_2_eq_2)

lemma aggr_packet_inside:
  assumes "batadv_iv_ogm_aggr_packet off (length buf) (tvlv_len_at oob buf off)"
  shows "wire_ok (iv_wire_at buf off)" and "length (wire (iv_wire_at buf off)) \<le> 512"
proof -
  have l: "off + 24 + unat (tvlv_len_at oob buf off) \<le> length buf"
    "off + 24 + unat (tvlv_len_at oob buf off) \<le> 512"
    using assms by (simp_all add: batadv_iv_ogm_aggr_packet_def Let_def)
  then have "take 2 (drop 22 (drop off buf)) = [buf ! (off + 22), buf ! (off + 23)]"
    by (simp add: take_Suc_conv_app_nth numeral_2_eq_2 add.commute)
  then have t: "og_tvlv_len (ogm_at buf off) = tvlv_len_at oob buf off"
    using l by (simp add: ogm_at_def tvlv_len_at_def byte_at_def Let_def)
  show w: "wire_ok (iv_wire_at buf off)"
    using l t by (simp add: wire_ok_def iv_wire_at_def Let_def)
  show "length (wire (iv_wire_at buf off)) \<le> 512"
    using length_wire [OF w] l t by (simp add: iv_wire_at_def Let_def)
qed

section \<open>The interface\<close>

locale iv_preserved =
  fixes k :: kenv
    and inv :: "batadv_priv \<Rightarrow> bool"
  assumes alloc: "inv s \<Longrightarrow> inv (s\<lparr>bp_allocs := oks\<rparr>)"
    and rands: "inv s \<Longrightarrow> inv (s\<lparr>bp_rands := rnds\<rparr>)"
    and calls: "inv s \<Longrightarrow> inv (call c s)"
    and hardif: "hardif_keeps hf \<Longrightarrow> inv s \<Longrightarrow> inv (hardif_mod i hf s)"
    and orig_kept: "orig_keeps f \<Longrightarrow> inv s \<Longrightarrow> inv (orig_mod o' f s)"
    and own_window: "inv s \<Longrightarrow> inv (orig_mod o' (own_set n g) s)"
    and neigh_kept: "neigh_keeps e \<Longrightarrow> inv s \<Longrightarrow> inv (neigh_mod n e s)"
    and ifinfo: "(\<And>ni. ni_ok ni \<Longrightarrow> ni_ok (d ni)) \<Longrightarrow> inv s \<Longrightarrow> inv (neigh_ifinfo_mod n oi d s)"
    and ifinfo_init: "inv s \<Longrightarrow>
      inv (neigh_mod n (\<lambda>x. x\<lparr>nn_ifinfo_list := neigh_ifinfo_init oi # nn_ifinfo_list x\<rparr>) s)"
    and ifinfo_filter: "inv s \<Longrightarrow>
      inv (neigh_mod n (\<lambda>x. x\<lparr>nn_ifinfo_list := filter P (nn_ifinfo_list x)\<rparr>) s)"
    and fresh_neigh: "nn_ifinfo_list x = [] \<Longrightarrow> inv s \<Longrightarrow>
      inv (s\<lparr>bp_neighs := (bp_neighs s)(n := x), bp_next_neigh := m\<rparr>)"
    and orig_get: "batadv_iv_ogm_orig_get k a s = (q, s') \<Longrightarrow> inv s \<Longrightarrow> inv s'"
    and queue_add: "wire_ok w \<Longrightarrow> length (wire w) < 65536 \<Longrightarrow> inv s \<Longrightarrow>
      inv (batadv_iv_ogm_queue_add k (wire w) (length (wire w)) i oi' False t s)"
begin

lemma kzalloc: "kzalloc s = (ok, s') \<Longrightarrow> inv s \<Longrightarrow> inv s'"
  by (auto simp: kzalloc_eq intro: alloc)

lemma hardif_neigh:
  "inv s \<Longrightarrow> inv (hardif_neigh_mod i a f s)" "inv s \<Longrightarrow> inv (batadv_hardif_neigh_put i a s)"
  by (simp_all add: hardif_neigh_mod_def batadv_hardif_neigh_put_def Let_def hardif)

lemma orig_ifinfo: "inv s \<Longrightarrow> inv (orig_ifinfo_mod o' i f s)"
  unfolding orig_ifinfo_mod_def by (rule orig_kept) simp_all

section \<open>Creation\<close>

lemma orig_ifinfo_new: "batadv_orig_ifinfo_new k o' i s = (ok, s') \<Longrightarrow> inv s \<Longrightarrow> inv s'"
  by (auto simp: batadv_orig_ifinfo_new_def kzalloc_eq Let_def intro!: orig_kept alloc split: if_splits)

lemma neigh_ifinfo_new: "batadv_neigh_ifinfo_new n i s = (ok, s') \<Longrightarrow> inv s \<Longrightarrow> inv s'"
  by (auto simp: batadv_neigh_ifinfo_new_def kzalloc_eq Let_def intro!: ifinfo_init alloc split: if_splits)

lemma hardif_get_or_create:
  "batadv_hardif_neigh_get_or_create k i a s = (ok, s') \<Longrightarrow> inv s \<Longrightarrow> inv s'"
  by (auto simp: batadv_hardif_neigh_get_or_create_def batadv_hardif_neigh_create_def kzalloc_eq Let_def
      intro!: hardif alloc hardif_neigh split: if_splits)

lemma fresh_neigh_alloc:
  "nn_ifinfo_list x = [] \<Longrightarrow> inv s \<Longrightarrow>
   inv (s\<lparr>bp_allocs := l, bp_neighs := (bp_neighs s)(n := x), bp_next_neigh := m\<rparr>)"
  using fresh_neigh [where s = "s\<lparr>bp_allocs := l\<rparr>" and x = x and n = n and m = m] alloc by simp

lemma neigh_node_new:
  assumes "batadv_neigh_node_new k o' i a s = (r, s')" "inv s"
  shows "inv s'"
proof (cases "batadv_neigh_node_get s o' i a")
  case None
  obtain f s1 where s1: "batadv_hardif_neigh_get_or_create k i a s = (f, s1)"
    by fastforce
  then have c1: "inv s1"
    using assms(2) by (rule hardif_get_or_create)
  show ?thesis
    using assms(1) None s1 c1 unfolding batadv_neigh_node_new_def
    by (auto simp: kzalloc_eq Let_def intro!: alloc hardif_neigh orig_kept fresh_neigh_alloc split: if_splits)
qed (use assms in \<open>auto simp: batadv_neigh_node_new_def\<close>)

lemma iv_neigh_new:
  assumes "batadv_iv_ogm_neigh_new k i a o1 o2 s = (r, s')" "inv s"
  shows "inv s'"
proof -
  obtain r1 s1 where s1: "batadv_neigh_node_new k o1 i a s = (r1, s1)"
    by fastforce
  then have "inv s1"
    using assms(2) by (rule neigh_node_new)
  then show ?thesis
    using assms(1) s1 by (auto simp: batadv_iv_ogm_neigh_new_def intro!: neigh_kept split: option.splits)
qed

lemmas created = orig_ifinfo_new neigh_ifinfo_new iv_neigh_new orig_get

section \<open>Forwarding\<close>

lemma forward:
  assumes w: "wire_ok (p, tv)" "length (wire (p, tv)) \<le> 512" and s: "inv s"
  shows "inv (batadv_iv_ogm_forward k src p tv sh best i oi s)"
proof (cases "iv_forward_header (bp_hop_penalty s) src sh best p")
  case None
  then show ?thesis using s by (simp add: batadv_iv_ogm_forward_def)
next
  case (Some p')
  have ok: "wire_ok (p', tv)"
    using w(1) forward_header_tvlv [OF Some] by (simp add: wire_ok_def)
  have l: "length (wire (p', tv)) = 24 + unat (og_tvlv_len p)"
    using length_wire [OF ok] forward_header_tvlv [OF Some] by simp
  have "length (wire (p', tv)) < 65536"
    using l length_wire [OF w(1)] w(2) by simp
  then have "inv (batadv_iv_ogm_queue_add k (wire (p', tv)) (length (wire (p', tv))) i oi False t
      (s\<lparr>bp_rands := r\<rparr>))" for t r
    using ok s by (intro queue_add rands)
  then show ?thesis
    using Some l
    by (simp add: batadv_iv_ogm_forward_def batadv_iv_ogm_fwd_send_time_def prandom_eq Let_def wire_def)
qed

section \<open>Links and routes\<close>

lemma update_route: "inv s \<Longrightarrow> inv (batadv_update_route o' i r s)"
  by (auto simp: batadv_update_route_def do_update_route_def Let_def intro!: orig_ifinfo calls split: option.split)

lemma update_neighs:
  assumes "orig_update_neighs o' src i oi d s = (r, s')" "inv s"
  shows "inv s'"
proof -
  have "inv (snd (orig_update_neigh src i oi d n acc))" if "inv (snd acc)" for n acc
    using that by (auto simp: orig_update_neigh_def split_def Let_def intro!: ifinfo ni_ok_ring_push)
  then have "inv (snd (fold (orig_update_neigh src i oi d) (on_neigh_list (orig_of s o')) (None, s)))"
    using assms(2) by (intro fold_invariant_acc [of "\<lambda>acc. inv (snd acc)"]) simp_all
  then show ?thesis
    using assms(1) by (simp add: orig_update_neighs_def)
qed

lemma orig_update_route: "inv s \<Longrightarrow> inv (orig_update_route o' i n s)"
  by (auto simp: orig_update_route_def Let_def intro!: update_route split: option.split)

lemma orig_update:
  assumes "inv s"
  shows "inv (batadv_iv_ogm_orig_update k o' src p i oi d s)"
proof -
  obtain f s1 where s1: "orig_update_neighs o' src i oi d s = (f, s1)"
    by fastforce
  then have c1: "inv s1"
    using assms by (rule update_neighs)
  show ?thesis
    unfolding batadv_iv_ogm_orig_update_def s1
    using c1 by (auto simp: Let_def split: option.splits prod.splits if_splits dest!: created
        intro!: orig_update_route ifinfo orig_ifinfo neigh_kept ni_ok_ring_push)
qed

lemma calc_tq:
  assumes "batadv_iv_ogm_calc_tq k o1 o2 p i oi s = (b, p', s')" "inv s"
  shows "inv s'" and "og_tvlv_len p' = og_tvlv_len p"
proof -
  have e: "inv (orig_mod o' (\<lambda>o'. o'\<lparr>on_last_seen := t\<rparr>) (if c then neigh_mod n (\<lambda>n. n\<lparr>nn_last_seen := t\<rparr>) s2 else s2))"
    if "inv s2" for o' t c n s2
    using that by (auto intro!: orig_kept neigh_kept)
  show "inv s'"
    using assms unfolding batadv_iv_ogm_calc_tq_def
    by (auto simp: Let_def split: option.splits prod.splits dest!: created intro!: e)
  show "og_tvlv_len p' = og_tvlv_len p"
    using assms(1) unfolding batadv_iv_ogm_calc_tq_def
    by (auto simp: Let_def split: option.splits prod.splits)
qed

section \<open>Duplicates\<close>

lemma update_seqnos_neigh:
  assumes "inv (snd (snd acc))"
  shows "inv (snd (snd (update_seqnos_neigh src q l i oi n acc)))"
proof -
  obtain ok s1 where s1: "batadv_neigh_ifinfo_new n oi (snd (snd acc)) = (ok, s1)"
    by fastforce
  then have "inv s1"
    using assms by (rule neigh_ifinfo_new)
  then show ?thesis
    using s1 by (auto simp: update_seqnos_neigh_def Let_def split_def
        split: option.split intro!: ifinfo ni_ok_window)
qed

lemma update_seqnos:
  assumes "batadv_iv_ogm_update_seqnos k src p i oi s = (r, s')" "inv s"
  shows "inv s'"
proof -
  have g: "inv s3"
    if "fold (update_seqnos_neigh src q l i oi) ns (d, b, s2) = (r, u, s3)" "inv s2"
    for q l ns d b s2 r u s3
    using fold_invariant_acc [of "\<lambda>acc. inv (snd (snd acc))" "update_seqnos_neigh src q l i oi" "(d, b, s2)" ns]
      update_seqnos_neigh that by simp
  show ?thesis
    using assms unfolding batadv_iv_ogm_update_seqnos_def
    by (auto simp: Let_def split: option.splits prod.splits if_splits
        dest!: created g intro!: orig_ifinfo)
qed

section \<open>Whole messages\<close>

lemma nc_update:
  assumes "inv s"
  shows "inv (batadv_nc_update_nc_node k o1 o2 p sh s)"
proof -
  have m: "inv (orig_mod o' (coding_list_mod c f) t)" if "inv t" for o' c f t
    unfolding coding_list_mod_def by (rule orig_kept [OF _ that]) (simp_all add: orig_keeps_def split: if_split)
  have g: "inv t'" if "batadv_nc_get_nc_node a b c t = (r, t')" "inv t" for a b c t r t'
    using that by (auto simp: batadv_nc_get_nc_node_def kzalloc_eq Let_def intro!: m alloc split: if_splits)
  have n: "inv (nc_node_seen k a b c t)" if "inv t" for a b c t
    unfolding nc_node_seen_def by (rule m [OF that])
  show ?thesis
    using assms unfolding batadv_nc_update_nc_node_def Let_def
    by (auto split: prod.split dest!: g intro: n)
qed

lemma ranked:
  assumes "wire_ok (p, tv)" "length (wire (p, tv)) \<le> 512" "inv s"
  shows "inv (process_ranked k src p tv o1 o2 i oi d sh best s)"
proof -
  let ?s = "batadv_nc_update_nc_node k o1 o2 p sh s"
  have c: "inv ?s" using assms(3) by (rule nc_update)
  obtain b p' s1 where s1: "batadv_iv_ogm_calc_tq k o1 o2 p i oi ?s = (b, p', s1)"
    by (cases "batadv_iv_ogm_calc_tq k o1 o2 p i oi ?s") auto
  note c1 = calc_tq [OF s1 c]
  have w: "wire_ok (p', tv)"
    using assms(1) c1(2) by (simp add: wire_ok_def)
  have l: "length (wire (p', tv)) \<le> 512"
    using length_wire [OF w] length_wire [OF assms(1)] assms(2) c1(2) by simp
  obtain ok s2 where s2: "batadv_orig_ifinfo_new k o1 oi s1 = (ok, s2)" by fastforce
  have c2: "inv s2"
    using s2 c1(1) by (rule orig_ifinfo_new)
  note c3 = orig_update [OF c2] and f = forward [OF w l]
  show ?thesis
    unfolding process_ranked_def s1 s2 Let_def prod.case
    using nc_update [OF assms(3)] c2 c3 f by (simp split: option.split)
qed

lemma sender:
  assumes "wire_ok (p, tv)" "length (wire (p, tv)) \<le> 512" "inv s"
  shows "inv (process_sender k src p tv o' i oi d sh best s)"
proof -
  let ?s = "if oi = None then call (Tvlv_Ogm_Receive tv o') s else s"
  have c: "inv ?s"
    using assms(3) by (simp add: calls)
  obtain r s1 where r: "(if sh then (Some o', ?s) else batadv_iv_ogm_orig_get k src ?s) = (r, s1)"
    by fastforce
  then have "inv s1"
    using c orig_get by (cases sh) auto
  then show ?thesis
    unfolding process_sender_def Let_def r using assms(1,2) by (auto split: option.split intro: ranked)
qed

lemma per_outif:
  assumes w: "wire_ok (iv_wire_at buf off)" "length (wire (iv_wire_at buf off)) \<le> 512" and s: "inv s"
  shows "inv (batadv_iv_ogm_process_per_outif k src buf off o' i oi s)"
proof -
  obtain ok s1 where s1: "kzalloc s = (ok, s1)" by fastforce
  obtain p tv where pt: "iv_wire_at buf off = (p, tv)" by fastforce
  obtain d s2 where s2: "batadv_iv_ogm_update_seqnos k src p i oi s1 = (d, s2)" by fastforce
  have c1: "inv s1"
    by (rule kzalloc [OF s1 s])
  have c: "inv s2"
    using s2 c1 by (rule update_seqnos)
  show ?thesis
    unfolding batadv_iv_ogm_process_per_outif_def s1 pt s2 Let_def prod.case
    using c c1 w pt by (simp add: sender hardif_neigh)
qed

lemma own_window_at: "inv s \<Longrightarrow> inv (orig_mod o' (own_set_at n g) s)"
proof (cases "n < 0")
  case True
  then have "own_set_at n g = (\<lambda>o'. o')" by (simp add: own_set_at_def fun_eq_iff)
  moreover assume "inv s"
  moreover have "orig_keeps (\<lambda>o'. o')" by (simp add: orig_keeps_def)
  ultimately show ?thesis using orig_kept by simp
next
  case False
  then have "own_set_at n g = own_set (nat n) g" by (simp add: own_set_at_def fun_eq_iff)
  moreover assume "inv s"
  ultimately show ?thesis using own_window by simp
qed

lemma own_heard: "inv s \<Longrightarrow> inv (own_ogm_heard n a b o' s)"
  unfolding own_ogm_heard_def Let_def by (rule own_window_at)

lemma process:
  assumes w: "wire_ok (iv_wire_at buf off)" "length (wire (iv_wire_at buf off)) \<le> 512" and s: "inv s"
  shows "inv (batadv_iv_ogm_process k src buf off i s)"
proof -
  have f: "inv (fold (\<lambda>j s. if mesh_iface s j
       then batadv_iv_ogm_process_per_outif k src buf off o' i (Some j) s else s) is s2)"
    if "inv s2" for o' "is" s2
    using that by (intro fold_invariant_acc [of inv]) (auto intro: per_outif [OF w])
  show ?thesis
    using s unfolding batadv_iv_ogm_process_def
    by (auto simp: Let_def split: option.splits prod.splits dest!: orig_get
        intro!: f per_outif [OF w] own_heard)
qed

lemma receive:
  assumes "batadv_iv_ogm_receive k oob f i s = (r, s')" "inv s"
  shows "inv s'"
proof -
  obtain b s1 where m: "batadv_check_management_packet BATADV_OGM_HLEN f s = (b, s1)"
    by fastforce
  then have c: "inv s1"
    using assms(2) by (auto simp: batadv_check_management_packet_def kzalloc_eq Let_def intro!: alloc split: if_splits)
  have "inv (iv_unpack (\<lambda>off. batadv_iv_ogm_process k (mf_source f) (mf_data f) off i) oob (mf_data f) 0 s1)"
    using c by (rule unpack_invariant [rotated]) (rule process, auto dest: aggr_packet_inside)
  then show ?thesis
    using assms(1) c unfolding batadv_iv_ogm_receive_def m Let_def prod.case by (auto split: if_splits)
qed

end

section \<open>Purging\<close>

text \<open>Purging also takes originators out of the table.\<close>

locale iv_purge_preserved = iv_preserved +
  assumes unlink: "inv s \<Longrightarrow> inv (s\<lparr>bp_orig_hash := map_option (hash_filter Q) (bp_orig_hash s)\<rparr>)"
begin

lemma purge_orig_ifinfo: "batadv_purge_orig_ifinfo o' s = (b, s') \<Longrightarrow> inv s \<Longrightarrow> inv s'"
  by (auto simp: batadv_purge_orig_ifinfo_def Let_def intro!: orig_kept)

lemma purge_neigh_ifinfo: "inv s \<Longrightarrow> inv (batadv_purge_neigh_ifinfo n s)"
  unfolding batadv_purge_neigh_ifinfo_def by (rule ifinfo_filter)

lemma purge_neighbors:
  assumes "batadv_purge_orig_neighbors k o' s = (b, s')" "inv s"
  shows "inv s'"
proof -
  let ?f = "\<lambda>n (neigh_purged, s).
      if neigh_obsolete k s n then
        (True, orig_mod o' (\<lambda>o'. o'\<lparr>on_neigh_list := remove1 n (on_neigh_list o')\<rparr>) s)
      else (neigh_purged, batadv_purge_neigh_ifinfo n s)"
  have "inv (snd (?f n acc))" if "inv (snd acc)" for n acc
    using that by (cases acc) (auto intro!: orig_kept purge_neigh_ifinfo)
  then have "inv (snd (fold ?f (on_neigh_list (orig_of s o')) (False, s)))"
    using assms(2) by (intro fold_invariant_acc [of "\<lambda>acc. inv (snd acc)"]) simp_all
  then show ?thesis
    using assms(1) by (simp add: batadv_purge_orig_neighbors_def)
qed

lemma purge_orig_node:
  assumes "batadv_purge_orig_node k cmp o' s = (b, s')" "inv s"
  shows "inv s'"
proof -
  have f: "inv (fold (\<lambda>i s. if mesh_iface s i then reelect cmp o' (Some i) s else s) is (reelect cmp o' None s2))"
    if "inv s2" for "is" s2
    using that by (intro fold_invariant_acc [of inv]) (auto simp: reelect_def intro: update_route)
  show ?thesis
    using assms unfolding batadv_purge_orig_node_def
    by (auto simp: Let_def split: if_splits prod.splits
        dest!: purge_orig_ifinfo purge_neighbors intro!: f)
qed

lemma purge_orig:
  assumes "inv s"
  shows "inv (batadv_purge_orig k cmp s)"
proof -
  have "inv (orig_purge_step k cmp node s)" if "inv s" for node s
  proof -
    obtain g s1 where p: "batadv_purge_orig_node k cmp (snd node) s = (g, s1)" by fastforce
    then have c: "inv s1" using that by (rule purge_orig_node)
    have "inv (call c1 (call c2 s1\<lparr>bp_orig_hash := map_option (hash_filter Q) (bp_orig_hash (call c2 s1))\<rparr>))" for c1 c2 Q
      using c by (intro calls unlink)
    then show ?thesis
      using c unfolding orig_purge_step_def p Let_def prod.case by (simp add: orig_kept)
  qed
  then have "inv (fold (orig_purge_step k cmp) (bp_table s) s)"
    using assms by (rule fold_invariant_acc [of inv])
  then show ?thesis
    using assms by (simp add: batadv_purge_orig_def calls)
qed

end

section \<open>Sending\<close>

text \<open>
  Where scheduling starts from: the message buffer of every interface of the mesh holds a
  header, and behind it nothing unless it is the primary interface; the TVLV containers fit
  into a message; own messages in the queue are those of interfaces of the mesh.
\<close>

definition iv_ready :: "batadv_priv \<Rightarrow> bool" where
  "iv_ready s \<longleftrightarrow>
     (\<forall>i. member s i \<longrightarrow> 24 \<le> length (hi_ogm_buff (hardif_of s i)) \<and>
        (bp_primary_if s \<noteq> Some i \<longrightarrow> length (hi_ogm_buff (hardif_of s i)) = 24)) \<and>
     (\<forall>c \<in> set (bp_tvlv_containers s). tvlv_ok c) \<and>
     length (tvlv_payload (bp_tvlv_containers s)) < 65512 \<and>
     (\<forall>fw \<in> set (bp_forw_bat_list s). fw_own fw \<longrightarrow> member s (fw_if_incoming fw))"

lemma emit_effect:
  assumes "False \<notin> set (bp_allocs s)"
  shows "\<exists>l c. batadv_iv_ogm_emit oob fw s = s\<lparr>bp_allocs := l, bp_calls := c\<rparr> \<and> False \<notin> set l"
proof -
  have same: "\<exists>l c. s = s\<lparr>bp_allocs := l, bp_calls := c\<rparr> \<and> False \<notin> set l"
    using assms by (intro exI [of _ "bp_allocs s"] exI [of _ "bp_calls s"]) simp
  have "False \<notin> set (tl (bp_allocs s))"
    using assms by (cases "bp_allocs s") auto
  then have sent: "\<exists>l c. call b (s\<lparr>bp_allocs := tl (bp_allocs s)\<rparr>) = s\<lparr>bp_allocs := l, bp_calls := c\<rparr> \<and> False \<notin> set l" for b
    by (intro exI [of _ "tl (bp_allocs s)"] exI [of _ "bp_calls s @ [b]"]) (simp add: call_def)
  have "\<exists>l c. s\<lparr>bp_allocs := tl (bp_allocs s)\<rparr> = s\<lparr>bp_allocs := l, bp_calls := c\<rparr> \<and> False \<notin> set l"
    using \<open>False \<notin> set (tl (bp_allocs s))\<close>
    by (intro exI [of _ "tl (bp_allocs s)"] exI [of _ "bp_calls s"]) simp
  then show ?thesis
    using same sent unfolding batadv_iv_ogm_emit_def batadv_iv_ogm_send_to_if_def kzalloc_eq Let_def prod.case
    by presburger
qed

text \<open>Scheduling from the primary interface needs memory for the containers.\<close>

definition append_ok :: "nat \<Rightarrow> batadv_priv \<Rightarrow> bool" where
  "append_ok i s \<longleftrightarrow> (bp_primary_if s = Some i \<longrightarrow> fst (kzalloc s))"

definition unqueue :: "nat \<Rightarrow> batadv_priv \<Rightarrow> batadv_priv" where
  "unqueue j s =
     s\<lparr>bp_forw_bat_list := list_del j (bp_forw_bat_list s),
       bp_batman_queue_left := bp_batman_queue_left s + (if fw_own (bp_forw_bat_list s ! j) then 0 else 1)\<rparr>"

lemma hardif_mod_value: "hardif_mod i f s = hardif_mod i (\<lambda>_. f (hardif_of s i)) s"
  by (simp add: hardif_mod_def)

lemma ogm_buff_mod_value:
  "ogm_buff_mod i f s = hardif_mod i (\<lambda>h. h\<lparr>hi_ogm_buff :=
     ogm_bytes (f (ogm_at (hi_ogm_buff (hardif_of s i)) 0)) @ drop 24 (hi_ogm_buff (hardif_of s i))\<rparr>) s"
  unfolding ogm_buff_mod_def by (subst (1 2) hardif_mod_value) simp

lemma hardif_mod_fields [store_simps]:
  "bp_primary_if (hardif_mod i f s) = bp_primary_if s" "bp_soft_iface (hardif_mod i f s) = bp_soft_iface s"
  "bp_hardif_list (hardif_mod i f s) = bp_hardif_list s"
  by (simp_all add: hardif_mod_def)

lemma slide_fields [store_simps]:
  "bp_hardifs (batadv_iv_ogm_slide_own_bcast_window i s) = bp_hardifs s"
  "bp_soft_iface (batadv_iv_ogm_slide_own_bcast_window i s) = bp_soft_iface s"
proof -
  have "bp_hardifs (fold (\<lambda>node. orig_mod (snd node) f) l s) = bp_hardifs s \<and>
      bp_soft_iface (fold (\<lambda>node. orig_mod (snd node) f) l s) = bp_soft_iface s" for f and l :: "(mac \<times> nat) list"
    by (rule fold_invariant_acc) (simp_all add: orig_mod_def)
  then show "bp_hardifs (batadv_iv_ogm_slide_own_bcast_window i s) = bp_hardifs s"
    "bp_soft_iface (batadv_iv_ogm_slide_own_bcast_window i s) = bp_soft_iface s"
    by (simp_all add: batadv_iv_ogm_slide_own_bcast_window_def)
qed

lemma queue_add_fields [store_simps]:
  "bp_hardifs (batadv_iv_ogm_queue_add k b n i oi own t s) = bp_hardifs s"
  "bp_soft_iface (batadv_iv_ogm_queue_add k b n i oi own t s) = bp_soft_iface s"
  unfolding batadv_iv_ogm_queue_add_def Let_def
  by (simp_all add: batadv_iv_ogm_aggregate_new_def kzalloc_eq Let_def split: option.split prod.split)

lemma schedule_append_value:
  assumes "iv_ready s" "member s i" "append_ok i s" "schedule_append i s = (len, s1)"
  shows "s1 = s \<and> len = 0 \<and> length (hi_ogm_buff (hardif_of s i)) = 24 \<and> bp_primary_if s \<noteq> Some i \<or>
    bp_primary_if s = Some i \<and> (let p = tvlv_payload (bp_tvlv_containers s) in
      unat len = length p \<and>
      s1 = hardif_mod i (\<lambda>h. h\<lparr>hi_ogm_buff := take 24 (hi_ogm_buff (hardif_of s i)) @ p\<rparr>)
             (call Tt_Local_Commit_Changes s\<lparr>bp_allocs := tl (bp_allocs s)\<rparr>))"
proof (cases "bp_primary_if s = Some i")
  case False
  then show ?thesis
    using assms by (simp add: schedule_append_def iv_ready_def)
next
  case True
  let ?c = "call Tt_Local_Commit_Changes s" and ?p = "tvlv_payload (bp_tvlv_containers s)"
  have r: "24 \<le> length (hi_ogm_buff (hardif_of s i))" "\<forall>c \<in> set (bp_tvlv_containers s). tvlv_ok c"
    "length ?p < 65512"
    using assms(1,2) by (auto simp: iv_ready_def)
  have c: "bp_tvlv_containers ?c = bp_tvlv_containers s" "fst (kzalloc ?c)" "hardif_of ?c = hardif_of s"
    "bp_allocs ?c = bp_allocs s"
    using assms(3) True by (simp_all add: call_def append_ok_def kzalloc_eq)
  have "batadv_tvlv_container_ogm_append (hi_ogm_buff (hardif_of s i)) 24 ?c
      = (of_nat (length ?p), take 24 (hi_ogm_buff (hardif_of s i)) @ ?p, ?c\<lparr>bp_allocs := tl (bp_allocs s)\<rparr>)"
    using append_payload [of ?c 24 "hi_ogm_buff (hardif_of s i)"] r c by (simp add: kzalloc_eq)
  then show ?thesis
    using assms(4) True r(3) c by (auto simp: schedule_append_def unat_of_nat Let_def)
qed

text \<open>What is queued is a whole OGM.\<close>

lemma schedule_wire:
  assumes "iv_ready s" "member s i" "append_ok i s" "schedule_append i s = (len, s1)"
  shows "\<exists>w. hi_ogm_buff (hardif_of (ogm_buff_mod i (\<lambda>p. p\<lparr>og_tvlv_len := len, og_seqno := q\<rparr>) s1) i) = wire w \<and>
      wire_ok w \<and> length (wire w) < 65536"
    and "24 \<le> length (hi_ogm_buff (hardif_of s1 i))"
    and "bp_primary_if s1 = Some i \<or> length (hi_ogm_buff (hardif_of s1 i)) = 24"
proof -
  let ?b = "hi_ogm_buff (hardif_of s1 i)"
  have b: "24 \<le> length ?b \<and> length ?b = 24 + unat len \<and> (bp_primary_if s1 = Some i \<or> length ?b = 24) \<and>
      length ?b < 65536"
    using schedule_append_value [OF assms] assms(1,2)
    by (auto simp: Let_def store_simps call_def iv_ready_def)
  define w where "w = ((ogm_at ?b 0)\<lparr>og_tvlv_len := len, og_seqno := q\<rparr>, drop 24 ?b)"
  have "wire_ok w"
    using b by (simp add: w_def wire_ok_def)
  moreover have "hi_ogm_buff (hardif_of (ogm_buff_mod i (\<lambda>p. p\<lparr>og_tvlv_len := len, og_seqno := q\<rparr>) s1) i) = wire w"
    by (simp add: ogm_buff_mod_value store_simps w_def wire_def)
  moreover have "length (wire w) < 65536"
    using b by (simp add: w_def wire_def)
  ultimately show "\<exists>w. hi_ogm_buff (hardif_of (ogm_buff_mod i (\<lambda>p. p\<lparr>og_tvlv_len := len, og_seqno := q\<rparr>) s1) i)
      = wire w \<and> wire_ok w \<and> length (wire w) < 65536"
    by blast
  show "24 \<le> length ?b" "bp_primary_if s1 = Some i \<or> length ?b = 24"
    using b by auto
qed

locale iv_send_preserved = iv_purge_preserved +
  assumes buff: "24 \<le> length b \<Longrightarrow> bp_primary_if s = Some i \<or> length b = 24 \<Longrightarrow> inv s \<Longrightarrow>
      inv (hardif_mod i (\<lambda>h. h\<lparr>hi_ogm_buff := b\<rparr>) s)"
    and seqno: "inv s \<Longrightarrow> inv (hardif_mod i (\<lambda>h. h\<lparr>hi_ogm_seqno := hi_ogm_seqno h + 1\<rparr>) s)"
    and activate: "inv s \<Longrightarrow> inv (hardif_mod i (\<lambda>h. h\<lparr>hi_if_status := BATADV_IF_ACTIVE\<rparr>) s)"
    and queue_own: "wire_ok w \<Longrightarrow> length (wire w) < 65536 \<Longrightarrow> member s i \<Longrightarrow> inv s \<Longrightarrow>
      inv (batadv_iv_ogm_queue_add k (wire w) (length (wire w)) i oi' True t s)"
    and unqueued: "j < length (bp_forw_bat_list s) \<Longrightarrow> inv s \<Longrightarrow> inv (unqueue j s)"
begin

lemma slide_window: "inv s \<Longrightarrow> inv (batadv_iv_ogm_slide_own_bcast_window i s)"
  unfolding batadv_iv_ogm_slide_own_bcast_window_def slide_own_window_def
  by (intro fold_invariant_acc [of inv] own_window_at)

lemma emit_send_time: "batadv_iv_ogm_emit_send_time k s = (t, s') \<Longrightarrow> inv s \<Longrightarrow> inv s'"
  by (auto simp: batadv_iv_ogm_emit_send_time_def prandom_eq Let_def intro!: rands)

lemma schedule:
  assumes "iv_ready s" "member s i" "append_ok i s" "inv s"
  shows "inv (batadv_iv_ogm_schedule k i s)"
proof -
  obtain len s1 where s1: "schedule_append i s = (len, s1)" by fastforce
  define s2 where "s2 = ogm_buff_mod i (\<lambda>p. p\<lparr>og_tvlv_len := len, og_seqno := hi_ogm_seqno (hardif_of s1 i)\<rparr>) s1"
  define s3 where "s3 = batadv_iv_ogm_slide_own_bcast_window i
      (hardif_mod i (\<lambda>h. h\<lparr>hi_ogm_seqno := hi_ogm_seqno h + 1\<rparr>) s2)"
  obtain t s4 where s4: "batadv_iv_ogm_emit_send_time k s3 = (t, s4)" by fastforce
  obtain w where w: "hi_ogm_buff (hardif_of s2 i) = wire w" "wire_ok w" "length (wire w) < 65536"
    using schedule_wire(1) [OF assms(1-3) s1] unfolding s2_def by blast
  have "inv s1"
    using schedule_append_value [OF assms(1-3) s1] assms(4) assms(1,2)
    by (auto simp: Let_def call_def iv_ready_def intro!: buff alloc calls [unfolded call_def])
  then have "inv s2"
    unfolding s2_def ogm_buff_mod_value
    using schedule_wire(2,3) [OF assms(1-3) s1] by (intro buff) simp_all
  then have "inv s3"
    unfolding s3_def by (intro slide_window seqno)
  then have i4: "inv s4"
    using s4 by (auto dest: emit_send_time)
  have "member s1 i"
    using schedule_append_value [OF assms(1-3) s1] assms(2)
    by (auto simp: member_def Let_def store_simps call_def)
  then have m4: "member s4 i" and b4: "hi_ogm_buff (hardif_of s4 i) = wire w"
    using s4 w(1) unfolding s3_def s2_def
    by (auto simp: batadv_iv_ogm_emit_send_time_def prandom_eq Let_def member_def store_simps ogm_buff_mod_def)
  have q: "inv (batadv_iv_ogm_queue_add k (wire w) (length (wire w)) i oi True t s5) \<and>
      member (batadv_iv_ogm_queue_add k (wire w) (length (wire w)) i oi True t s5) i"
    if "inv s5 \<and> member s5 i" for oi s5
    using that w by (simp add: queue_own member_def store_simps)
  have f: "inv (fold (\<lambda>tmp s. if hi_soft_iface (hardif_of s tmp) \<noteq> hi_soft_iface (hardif_of s i) then s
      else batadv_iv_ogm_queue_add k (wire w) (length (wire w)) i tmp True t s) is s4)" for "is"
    using q i4 m4 by (intro fold_invariant_acc [of "\<lambda>s. inv s \<and> member s i", THEN conjunct1]) auto
  have e: "batadv_iv_ogm_schedule k i s =
    (if bp_primary_if s \<noteq> Some i then batadv_iv_ogm_queue_add k (wire w) (length (wire w)) i i True t s4
     else fold (\<lambda>tmp s. if hi_soft_iface (hardif_of s tmp) \<noteq> hi_soft_iface (hardif_of s i) then s
       else batadv_iv_ogm_queue_add k (wire w) (length (wire w)) i tmp True t s) (bp_hardif_list s4) s4)"
    unfolding batadv_iv_ogm_schedule_def s1 Let_def prod.case s4 [unfolded s3_def s2_def] b4 by simp
  show ?thesis
    unfolding e using q i4 m4 f by simp
qed

lemma schedule_bat_ogm:
  assumes "iv_ready s" "member s i" "append_ok i s" "inv s"
  shows "inv (batadv_schedule_bat_ogm k i s)"
proof -
  let ?s = "hardif_mod i (\<lambda>h. h\<lparr>hi_if_status := BATADV_IF_ACTIVE\<rparr>) s"
  have r: "iv_ready ?s" "member ?s i" "append_ok i ?s"
    using assms(1-3) by (simp_all add: iv_ready_def member_def append_ok_def store_simps kzalloc_eq hardif_mod_def)
  show ?thesis
    using schedule [OF assms] schedule [OF r activate [OF assms(4)]] assms(4)
      activate [OF assms(4)]
    by (simp add: batadv_schedule_bat_ogm_def Let_def)
qed

lemma emit: "inv s \<Longrightarrow> inv (batadv_iv_ogm_emit oob fw s)"
  by (auto simp: batadv_iv_ogm_emit_def batadv_iv_ogm_send_to_if_def kzalloc_eq Let_def intro!: calls alloc)

lemma outstanding:
  assumes r: "iv_ready s" and j: "j < length (bp_forw_bat_list s)" and i: "inv s"
    and mem: "fw_own (bp_forw_bat_list s ! j) \<Longrightarrow> False \<notin> set (bp_allocs s)"
  shows "inv (batadv_send_outstanding_bat_ogm_packet k oob j s)"
proof -
  let ?fw = "bp_forw_bat_list s ! j" and ?s1 = "unqueue j s"
  have i1: "inv ?s1"
    using j i by (rule unqueued)
  have r1: "iv_ready ?s1"
    using r by (auto simp: iv_ready_def unqueue_def member_def dest: set_list_del)
  define s2 where "s2 = (if bp_algo_iv s then batadv_iv_ogm_emit oob ?fw ?s1 else ?s1)"
  have i2: "inv s2"
    using i1 emit by (simp add: s2_def)
  show ?thesis
  proof (cases "fw_own ?fw")
    case True
    then have a1: "False \<notin> set (bp_allocs ?s1)"
      using mem by (simp add: unqueue_def)
    have m1: "member ?s1 (fw_if_incoming ?fw)"
      using r j True by (simp add: iv_ready_def unqueue_def member_def)
    have "\<exists>l c. s2 = ?s1\<lparr>bp_allocs := l, bp_calls := c\<rparr> \<and> False \<notin> set l"
    proof (cases "bp_algo_iv s")
      case True
      then show ?thesis
        using emit_effect [OF a1, of oob ?fw] by (simp add: s2_def)
    next
      case False
      then show ?thesis
        using a1 by (intro exI [of _ "bp_allocs ?s1"] exI [of _ "bp_calls ?s1"]) (simp add: s2_def)
    qed
    then have r2: "iv_ready s2" "append_ok i s2" and m2: "member s2 (fw_if_incoming ?fw)" for i
      using r1 m1 by (auto simp: iv_ready_def append_ok_def kzalloc_eq member_def split: list.split)
    have u: "s\<lparr>bp_forw_bat_list := list_del j (bp_forw_bat_list s)\<rparr> = ?s1"
      using True by (simp add: unqueue_def)
    have d: "bp_mesh_state ?s1 = bp_mesh_state s" "bp_algo_iv ?s1 = bp_algo_iv s"
      by (simp_all add: unqueue_def)
    show ?thesis
      using True i1 i2 schedule_bat_ogm [OF r2(1) m2 r2(2) i2] u d
      by (auto simp: batadv_send_outstanding_bat_ogm_packet_def Let_def s2_def split: if_splits)
  next
    case False
    have u: "batadv_iv_ogm_emit oob ?fw (s\<lparr>bp_forw_bat_list := list_del j (bp_forw_bat_list s)\<rparr>)
        \<lparr>bp_batman_queue_left := Suc (bp_batman_queue_left
          (batadv_iv_ogm_emit oob ?fw (s\<lparr>bp_forw_bat_list := list_del j (bp_forw_bat_list s)\<rparr>)))\<rparr>
        = batadv_iv_ogm_emit oob ?fw ?s1"
      using False by (auto simp: unqueue_def batadv_iv_ogm_emit_def batadv_iv_ogm_send_to_if_def kzalloc_eq call_def Let_def)
    show ?thesis
      using False i1 i2 u
      by (auto simp: batadv_send_outstanding_bat_ogm_packet_def Let_def s2_def unqueue_def)
  qed
qed

end

end
