(* ===== verification/Iv_Invariant.thy ===== *)
theory Iv_Invariant
  imports Iv_Contract
begin

text \<open>
  The invariants of B.A.T.M.A.N. IV, each an interpretation of \<open>iv_preserved\<close>.
  \<open>iv_counts\<close>: every derived counter agrees with what it counts, the averages with their
  ring buffers and the packet counts with their windows. \<open>orig_table\<close>: the table of
  originators is a finite map whose entries carry the address they are filed under, and
  no entry of a chosen set is lost. \<open>ogm_queue\<close>: every queued packet is a sequence of
  whole OGMs that its counters describe, and the length of the queue is accounted for.
\<close>

section \<open>Counters\<close>

definition own_ok :: "batadv_orig_node \<Rightarrow> bool" where
  "own_ok o' \<longleftrightarrow>
     (\<forall>i < length (on_bcast_own_sum o'). i < length (on_bcast_own o') \<and>
        on_bcast_own_sum o' ! i = of_nat (bitmap_weight (on_bcast_own o' ! i)))"

definition iv_counts :: "batadv_priv \<Rightarrow> bool" where
  "iv_counts s \<longleftrightarrow>
     (\<forall>n. \<forall>i \<in> set (nn_ifinfo_list (neigh_of s n)). ni_ok i) \<and> (\<forall>o'. own_ok (orig_of s o'))"

lemma counts_neigh: "iv_counts s \<Longrightarrow> i \<in> set (nn_ifinfo_list (neigh_of s n)) \<Longrightarrow> ni_ok i"
  by (auto simp: iv_counts_def)

lemma counts_own: "iv_counts s \<Longrightarrow> own_ok (orig_of s o')"
  by (simp add: iv_counts_def)

lemma counts_cong:
  "bp_origs s' = bp_origs s \<Longrightarrow> bp_neighs s' = bp_neighs s \<Longrightarrow> iv_counts s' = iv_counts s"
  by (simp add: iv_counts_def)

lemma counts_fields [simp]:
  "iv_counts (s\<lparr>bp_allocs := a\<rparr>) = iv_counts s" "iv_counts (s\<lparr>bp_rands := r\<rparr>) = iv_counts s"
  "iv_counts (s\<lparr>bp_orig_hash := h\<rparr>) = iv_counts s" "iv_counts (call c s) = iv_counts s"
  "iv_counts (s\<lparr>bp_next_orig := m\<rparr>) = iv_counts s" "iv_counts (hardif_mod i f s) = iv_counts s"
  "iv_counts (unqueue j s) = iv_counts s"
  by (rule counts_cong; simp add: call_def hardif_mod_def unqueue_def)+

lemma counts_orig_mod:
  "iv_counts s \<Longrightarrow> own_ok (f (orig_of s o')) \<Longrightarrow> iv_counts (orig_mod o' f s)"
  by (auto simp: iv_counts_def store_simps)

lemma counts_neigh_mod:
  "iv_counts s \<Longrightarrow> (\<And>i. i \<in> set (nn_ifinfo_list (f (neigh_of s n))) \<Longrightarrow> ni_ok i) \<Longrightarrow> iv_counts (neigh_mod n f s)"
  by (auto simp: iv_counts_def store_simps)

lemma own_ok_set:
  assumes "own_ok o'"
  shows "own_ok (o'\<lparr>on_bcast_own := (on_bcast_own o')[n := w],
                   on_bcast_own_sum := (on_bcast_own_sum o')[n := of_nat (bitmap_weight w)]\<rparr>)"
  unfolding own_ok_def
proof (intro allI impI)
  fix i
  assume i: "i < length (on_bcast_own_sum (o'\<lparr>on_bcast_own := (on_bcast_own o')[n := w],
      on_bcast_own_sum := (on_bcast_own_sum o')[n := of_nat (bitmap_weight w)]\<rparr>))"
  then show "i < length (on_bcast_own (o'\<lparr>on_bcast_own := (on_bcast_own o')[n := w],
        on_bcast_own_sum := (on_bcast_own_sum o')[n := of_nat (bitmap_weight w)]\<rparr>)) \<and>
      on_bcast_own_sum (o'\<lparr>on_bcast_own := (on_bcast_own o')[n := w],
        on_bcast_own_sum := (on_bcast_own_sum o')[n := of_nat (bitmap_weight w)]\<rparr>) ! i
      = of_nat (bitmap_weight (on_bcast_own (o'\<lparr>on_bcast_own := (on_bcast_own o')[n := w],
        on_bcast_own_sum := (on_bcast_own_sum o')[n := of_nat (bitmap_weight w)]\<rparr>) ! i))"
    using assms by (cases "i = n") (simp_all add: own_ok_def)
qed

lemma counts_neigh_ifinfo_mod:
  assumes "\<And>i. ni_ok i \<Longrightarrow> ni_ok (f i)" "iv_counts s"
  shows "iv_counts (neigh_ifinfo_mod n oi f s)"
  unfolding neigh_ifinfo_mod_def
proof (rule counts_neigh_mod [OF assms(2)])
  fix i
  assume "i \<in> set (nn_ifinfo_list (neigh_of s n
      \<lparr>nn_ifinfo_list := update_first (\<lambda>i. ni_if_outgoing i = oi) f (nn_ifinfo_list (neigh_of s n))\<rparr>))"
  then show "ni_ok i"
    using set_update_first [of i _ f] counts_neigh [OF assms(2)] assms(1) by fastforce
qed

lemma counts_fresh_neigh:
  "iv_counts s \<Longrightarrow> nn_ifinfo_list x = [] \<Longrightarrow> bp_origs s' = bp_origs s \<Longrightarrow>
   bp_neighs s' = (bp_neighs s)(n := x) \<Longrightarrow> iv_counts s'"
  by (auto simp: iv_counts_def)

lemma counts_fresh_orig:
  "iv_counts s \<Longrightarrow> own_ok x \<Longrightarrow> bp_neighs s' = bp_neighs s \<Longrightarrow>
   bp_origs s' = (bp_origs s)(n := x) \<Longrightarrow> iv_counts s'"
  by (auto simp: iv_counts_def)

lemma counts_vlan_new:
  "batadv_orig_node_vlan_new o' v s = (ok, s') \<Longrightarrow> iv_counts s \<Longrightarrow> iv_counts s'"
  using counts_own [of s o']
  by (auto simp: batadv_orig_node_vlan_new_def kzalloc_eq Let_def own_ok_def intro!: counts_orig_mod
      split: if_splits)

lemma counts_orig_node_new:
  assumes "batadv_orig_node_new k a s = (r, s')" "iv_counts s"
  shows "iv_counts s'"
proof -
  have c: "iv_counts s3"
    if "batadv_orig_node_vlan_new n 0 s2 = (ok, s3)" "bp_neighs s2 = bp_neighs s"
      "bp_origs s2 = (bp_origs s)(n := x)" "own_ok x" for s2 s3 ok n x
    using that assms(2) by (intro counts_vlan_new [OF that(1)] counts_fresh_orig [of s x s2 n])
  show ?thesis
    using assms unfolding batadv_orig_node_new_def
    by (auto simp: kzalloc_eq Let_def own_ok_def dest!: c split: if_splits prod.splits)
qed

lemma orig_init_own_frame:
  assumes "orig_init_own n s = (ok, s')"
  shows "bp_orig_hash s' = bp_orig_hash s" "bp_next_orig s' = bp_next_orig s" "bp_neighs s' = bp_neighs s"
    "on_orig (orig_of s' m) = on_orig (orig_of s m)"
  using assms by (auto simp: orig_init_own_def kzalloc_eq Let_def orig_mod_def split: if_splits)

lemma init_own_face:
  assumes "orig_init_own n s = (ok, s')"
  shows "m \<noteq> n \<Longrightarrow> orig_of s' m = orig_of s m"
    "ok \<Longrightarrow> length (on_bcast_own (orig_of s' n)) = length (on_bcast_own_sum (orig_of s' n))"
  using assms by (auto simp: orig_init_own_def kzalloc_eq Let_def orig_mod_def split: if_splits)

lemma counts_init_own:
  assumes "orig_init_own n s = (ok, s')" "iv_counts s" "on_bcast_own_sum (orig_of s n) = []"
  shows "iv_counts s'"
proof -
  have c: "iv_counts (orig_mod n (\<lambda>o'. o'\<lparr>on_bcast_own := replicate m 0\<rparr>) (s\<lparr>bp_allocs := l\<rparr>))" for m l
    using assms(2,3) by (intro counts_orig_mod) (simp_all add: own_ok_def)
  have "own_ok ((\<lambda>o'. o'\<lparr>on_bcast_own_sum := replicate m 0\<rparr>)
      (orig_of (orig_mod n (\<lambda>o'. o'\<lparr>on_bcast_own := replicate m 0\<rparr>) (s\<lparr>bp_allocs := l\<rparr>)\<lparr>bp_allocs := l'\<rparr>) n))" for m l l'
    by (simp add: own_ok_def store_simps bitmap_weight_def)
  then have d: "iv_counts (orig_mod n (\<lambda>o'. o'\<lparr>on_bcast_own_sum := replicate m 0\<rparr>)
      (orig_mod n (\<lambda>o'. o'\<lparr>on_bcast_own := replicate m 0\<rparr>) (s\<lparr>bp_allocs := l\<rparr>)\<lparr>bp_allocs := l'\<rparr>))" for m l l'
    using c by (intro counts_orig_mod) simp_all
  have m: "bp_num_ifaces (orig_mod n f t) = bp_num_ifaces t" "bp_allocs (orig_mod n f t) = bp_allocs t" for f t
    by (simp_all add: orig_mod_def)
  show ?thesis
    using assms(1,2) c d by (auto simp: orig_init_own_def kzalloc_eq Let_def m split: if_splits)
qed

lemma counts_orig_get:
  assumes "batadv_iv_ogm_orig_get k a s = (r, s')" "iv_counts s"
  shows "iv_counts s'"
proof (cases "batadv_orig_hash_find k s a")
  case None
  obtain r1 s1 where s1: "batadv_orig_node_new k a s = (r1, s1)"
    by fastforce
  then have c1: "iv_counts s1"
    using assms(2) by (rule counts_orig_node_new)
  show ?thesis
  proof (cases r1)
    case N: None
    then show ?thesis
      using assms(1) None s1 c1 by (simp add: batadv_iv_ogm_orig_get_def)
  next
    case (Some n)
    obtain ok s2 where s2: "orig_init_own n s1 = (ok, s2)" by fastforce
    have "on_bcast_own_sum (orig_of s1 n) = []"
      using s1 Some
      by (auto simp: batadv_orig_node_new_def batadv_orig_node_vlan_new_def kzalloc_eq Let_def store_simps
          orig_mod_def split: if_splits prod.splits)
    then have "iv_counts s2"
      using counts_init_own [OF s2 c1] by simp
    then show ?thesis
      using assms(1) None s1 Some s2
      by (auto simp: batadv_iv_ogm_orig_get_def split: if_splits prod.splits)
  qed
qed (use assms in \<open>auto simp: batadv_iv_ogm_orig_get_def\<close>)

lemma aggregate_new_stores:
  "bp_origs (batadv_iv_ogm_aggregate_new b n t d i oi own s) = bp_origs s"
  "bp_neighs (batadv_iv_ogm_aggregate_new b n t d i oi own s) = bp_neighs s"
  "bp_orig_hash (batadv_iv_ogm_aggregate_new b n t d i oi own s) = bp_orig_hash s"
  "bp_next_orig (batadv_iv_ogm_aggregate_new b n t d i oi own s) = bp_next_orig s"
  by (simp_all add: batadv_iv_ogm_aggregate_new_def kzalloc_eq Let_def)

lemma queue_add_stores [store_simps]:
  "bp_origs (batadv_iv_ogm_queue_add k b n i oi own t s) = bp_origs s"
  "bp_neighs (batadv_iv_ogm_queue_add k b n i oi own t s) = bp_neighs s"
  "bp_orig_hash (batadv_iv_ogm_queue_add k b n i oi own t s) = bp_orig_hash s"
  "bp_next_orig (batadv_iv_ogm_queue_add k b n i oi own t s) = bp_next_orig s"
  unfolding batadv_iv_ogm_queue_add_def Let_def
  by (simp_all add: aggregate_new_stores split: option.split prod.split)

lemma counts_queue_add:
  "iv_counts (batadv_iv_ogm_queue_add k b n i oi own t s) = iv_counts s"
  by (rule counts_cong) (simp_all add: queue_add_stores)

interpretation counts: iv_send_preserved k iv_counts for k
proof (unfold_locales, goal_cases)
  case (5 f s o')
  then show ?case
    using counts_own [of s o'] by (intro counts_orig_mod) (simp_all add: own_ok_def orig_keeps_def)
next
  case (6 s o' n g)
  then show ?case
    by (intro counts_orig_mod) (simp_all add: own_set_def Let_def own_ok_set counts_own)
next
  case (7 e s n)
  then show ?case
    by (intro counts_neigh_mod) (auto simp: neigh_keeps_def dest: counts_neigh)
next
  case (8 d s n oi)
  then show ?case by (rule counts_neigh_ifinfo_mod)
next
  case (9 s n oi)
  then show ?case by (intro counts_neigh_mod) (auto dest: counts_neigh)
next
  case (10 s n P)
  then show ?case by (intro counts_neigh_mod) (auto dest: counts_neigh)
next
  case (11 x s n m)
  show ?case by (rule counts_fresh_neigh [of s x _ m]) (use 11 in simp_all)
next
  case (12 a s q s')
  then show ?case by (rule counts_orig_get)
next
  case (13 w s i oi' t)
  then show ?case
    by (simp add: counts_queue_add)
next
  case (18 w s i oi' t)
  then show ?case
    by (simp add: counts_queue_add)
qed simp_all

section \<open>The table of originators\<close>

definition orig_table :: "kenv \<Rightarrow> (mac \<times> nat) set \<Rightarrow> batadv_priv \<Rightarrow> bool" where
  "orig_table k T s \<longleftrightarrow>
     (\<forall>h. bp_orig_hash s = Some h \<longrightarrow> hash_wf fst (batadv_choose_orig k) h) \<and>
     (\<forall>(a, n) \<in> set (bp_table s). n < bp_next_orig s \<and> on_orig (orig_of s n) = a \<and>
        length (on_bcast_own (orig_of s n)) = length (on_bcast_own_sum (orig_of s n))) \<and>
     T \<subseteq> set (bp_table s)"

definition orig_face :: "batadv_orig_node \<Rightarrow> mac \<times> bool" where
  "orig_face o' = (on_orig o', length (on_bcast_own o') = length (on_bcast_own_sum o'))"

lemma orig_table_face:
  "orig_table k T s \<longleftrightarrow>
     (\<forall>h. bp_orig_hash s = Some h \<longrightarrow> hash_wf fst (batadv_choose_orig k) h) \<and>
     (\<forall>(a, n) \<in> set (bp_table s). n < bp_next_orig s \<and> orig_face (orig_of s n) = (a, True)) \<and>
     T \<subseteq> set (bp_table s)"
  by (simp add: orig_table_def orig_face_def)

lemma orig_find_iff:
  assumes "orig_table k T s"
  shows "batadv_orig_hash_find k s a = Some n \<longleftrightarrow> (a, n) \<in> set (bp_table s)"
proof (cases "bp_orig_hash s")
  case None
  then show ?thesis by (simp add: batadv_orig_hash_find_def bp_table_def)
next
  case (Some h)
  then have "hash_wf fst (batadv_choose_orig k) h"
    using assms by (simp add: orig_table_def)
  then show ?thesis
    using Some orig_ht.lookup_iff [of k h a] by (auto simp: batadv_orig_hash_find_def bp_table_def)
qed

text \<open>An address has at most one originator, an originator one address.\<close>

lemma orig_table_unique:
  assumes "orig_table k T s" "(a, n) \<in> set (bp_table s)" "(b, m) \<in> set (bp_table s)"
  shows "a = b \<longleftrightarrow> n = m"
proof
  assume "a = b"
  then show "n = m"
    using assms(2,3) orig_find_iff [OF assms(1), of a] by (metis option.inject)
next
  assume "n = m"
  moreover have "on_orig (orig_of s n) = a" "on_orig (orig_of s m) = b"
    using assms by (auto simp: orig_table_def)
  ultimately show "a = b" by simp
qed

lemma orig_table_cong:
  "bp_orig_hash s' = bp_orig_hash s \<Longrightarrow> bp_next_orig s \<le> bp_next_orig s' \<Longrightarrow>
   (\<And>n. n < bp_next_orig s \<Longrightarrow> orig_face (orig_of s' n) = orig_face (orig_of s n)) \<Longrightarrow>
   orig_table k T s \<Longrightarrow> orig_table k T s'"
  by (fastforce simp: orig_table_face bp_table_def)

lemma orig_vlan_new_frame:
  assumes "batadv_orig_node_vlan_new n v s = (ok, s')"
  shows "bp_orig_hash s' = bp_orig_hash s" "bp_next_orig s' = bp_next_orig s"
    "orig_face (orig_of s' m) = orig_face (orig_of s m)"
  using assms by (auto simp: batadv_orig_node_vlan_new_def kzalloc_eq Let_def orig_mod_def orig_face_def split: if_splits)

lemma orig_node_new_frame:
  assumes "batadv_orig_node_new k a s = (r, s')"
  shows "bp_orig_hash s' = bp_orig_hash s" "bp_next_orig s \<le> bp_next_orig s'"
    "m < bp_next_orig s \<Longrightarrow> orig_face (orig_of s' m) = orig_face (orig_of s m)"
    "r = Some n \<Longrightarrow> n = bp_next_orig s \<and> bp_next_orig s' = n + 1 \<and> on_orig (orig_of s' n) = a"
proof -
  note v = orig_vlan_new_frame
  have on: "on_orig (orig_of s3 m) = on_orig (orig_of s2 m)" if "batadv_orig_node_vlan_new n v s2 = (ok, s3)" for n v s2 ok s3 m
    using v(3) [OF that, of m] by (simp add: orig_face_def)
  show "bp_orig_hash s' = bp_orig_hash s" "bp_next_orig s \<le> bp_next_orig s'"
    "m < bp_next_orig s \<Longrightarrow> orig_face (orig_of s' m) = orig_face (orig_of s m)"
    "r = Some n \<Longrightarrow> n = bp_next_orig s \<and> bp_next_orig s' = n + 1 \<and> on_orig (orig_of s' n) = a"
    using assms v on
    by (fastforce simp: batadv_orig_node_new_def kzalloc_eq Let_def split: if_splits prod.splits)+
qed

text \<open>
  A look-up that may create: on success the table holds the address, nothing else was
  added, and nothing was lost.
\<close>

lemma orig_get_table:
  assumes g: "batadv_iv_ogm_orig_get k a s = (r, s')" and t: "orig_table k T s"
  shows "orig_table k T s'"
    and "\<And>n. r = Some n \<Longrightarrow> set (bp_table s') = insert (a, n) (set (bp_table s))"
    and "r = None \<Longrightarrow> set (bp_table s') = set (bp_table s)"
proof -
  have "orig_table k T s' \<and> (\<forall>n. r = Some n \<longrightarrow> set (bp_table s') = insert (a, n) (set (bp_table s)))
      \<and> (r = None \<longrightarrow> set (bp_table s') = set (bp_table s))"
  proof (cases "batadv_orig_hash_find k s a")
    case (Some n)
    then have "(a, n) \<in> set (bp_table s)"
      using orig_find_iff [OF t] by blast
    then show ?thesis
      using g Some t by (auto simp: batadv_iv_ogm_orig_get_def)
  next
    case None
    obtain r1 s1 where s1: "batadv_orig_node_new k a s = (r1, s1)" by fastforce
    note fr = orig_node_new_frame [OF s1]
    have t1: "orig_table k T s1" "bp_table s1 = bp_table s"
      using orig_table_cong [OF fr(1,2,3) t] fr(1) by (simp_all add: bp_table_def)
    show ?thesis
    proof (cases r1)
      case N: None
      then show ?thesis
        using g None s1 t1 by (auto simp: batadv_iv_ogm_orig_get_def)
    next
      case S: (Some n)
      note n = fr(4) [OF S]
      obtain ok s2 where s2: "orig_init_own n s1 = (ok, s2)" by fastforce
      note io = orig_init_own_frame [OF s2]
      have old: "orig_face (orig_of s2 m) = orig_face (orig_of s m)" if "m < bp_next_orig s" for m
        using init_own_face(1) [OF s2, of m] fr(3) [OF that] n that by simp
      have t2: "orig_table k T s2" "bp_table s2 = bp_table s"
        using orig_table_cong [of s2 s k T] io fr t old by (simp_all add: bp_table_def)
      obtain ret h' where add: "batadv_hash_add (bp_orig_hash s2) batadv_compare_orig (batadv_choose_orig k) a (a, n)
          = (ret, h')" by fastforce
      show ?thesis
      proof (cases "ok \<and> ret = 0")
        case False
        then have "r = None \<and> s' = s2"
          using g None s1 S s2 add by (auto simp: batadv_iv_ogm_orig_get_def split: if_splits)
        then show ?thesis using t2 by simp
      next
        case True
        then have rs: "r = Some n" "s' = s2\<lparr>bp_orig_hash := h'\<rparr>"
          using g None s1 S s2 add by (auto simp: batadv_iv_ogm_orig_get_def)
        obtain h where h: "bp_orig_hash s2 = Some h"
          using add True by (cases "bp_orig_hash s2") (auto simp: batadv_hash_add_def)
        have wf: "hash_wf fst (batadv_choose_orig k) h"
          using t2(1) h by (simp add: orig_table_def)
        have lk: "hash_lookup h batadv_compare_orig (batadv_choose_orig k) (fst (a, n)) = None"
          using None h fr(1) io(1) by (simp add: batadv_orig_hash_find_def)
        obtain h2 where h2: "h' = Some h2" "hash_wf fst (batadv_choose_orig k) h2"
          "mset (hash_elems h2) = add_mset (a, n) (mset (hash_elems h))"
          using orig_ht.add_fresh [OF wf lk] add h by (metis fst_conv prod.inject)
        have "set (hash_elems h2) = insert (a, n) (set (hash_elems h))"
          using arg_cong [OF h2(3), of set_mset] by simp
        then have e: "set (bp_table s') = insert (a, n) (set (bp_table s))"
          using h2 rs h t2(2) by (simp add: bp_table_def)
        have "orig_table k T s'"
          unfolding orig_table_def e
          using t1 t2 n rs h2 io init_own_face(2) s2 True by (auto simp: orig_table_def)
        then show ?thesis using e rs by simp
      qed
    qed
  qed
  then show "orig_table k T s'" "\<And>n. r = Some n \<Longrightarrow> set (bp_table s') = insert (a, n) (set (bp_table s))"
    "r = None \<Longrightarrow> set (bp_table s') = set (bp_table s)"
    by auto
qed

lemma orig_table_keeps:
  assumes "orig_table k T s"
  shows "orig_keeps f \<Longrightarrow> orig_table k T (orig_mod o' f s)"
    and "orig_table k T (orig_mod o' (own_set n g) s)"
  by (rule orig_table_cong [OF _ _ _ assms]; simp add: orig_mod_def orig_keeps_def orig_face_def own_set_def Let_def)+

interpretation orig_tab: iv_preserved k "orig_table k T" for k T
proof (unfold_locales, goal_cases)
  case (5 f s o')
  show ?case by (rule orig_table_keeps(1)) (use 5 in simp_all)
next
  case (6 s o' n g)
  then show ?case by (rule orig_table_keeps(2))
next
  case (12 a s q s')
  then show ?case by (rule orig_get_table(1))
qed (rule orig_table_cong; simp add: call_def hardif_mod_def neigh_mod_def neigh_ifinfo_mod_def store_simps)+

lemma orig_table_unlink:
  assumes "orig_table k {} s"
  shows "orig_table k {} (s\<lparr>bp_orig_hash := map_option (hash_filter Q) (bp_orig_hash s)\<rparr>)"
  using assms
  by (cases "bp_orig_hash s") (auto simp: orig_table_def bp_table_def hash_wf_filter hash_elems_filter)

interpretation orig_tab_all: iv_send_preserved k "orig_table k {}" for k
proof (unfold_locales, goal_cases)
  case (1 s Q)
  then show ?case by (rule orig_table_unlink)
next
  case (5 w s i oi' t)
  then show ?case by (auto intro: orig_table_cong simp: queue_add_stores)
qed (rule orig_table_cong; simp add: hardif_mod_def unqueue_def)+

section \<open>The queue\<close>

text \<open>
  \<open>N\<close> is the size of the queue: the packets of others that wait, and the places left.
\<close>

definition ogm_queue :: "nat \<Rightarrow> batadv_priv \<Rightarrow> bool" where
  "ogm_queue N s \<longleftrightarrow>
     \<not> bp_panic s \<and> (\<exists>wss. queue_holds s wss) \<and> bp_batman_queue_left s + foreign s = N"

lemma ogm_queue_cong:
  "bp_forw_bat_list s' = bp_forw_bat_list s \<Longrightarrow> bp_panic s' = bp_panic s \<Longrightarrow>
   bp_batman_queue_left s' = bp_batman_queue_left s \<Longrightarrow> bp_aggregated_ogms s' = bp_aggregated_ogms s \<Longrightarrow>
   ogm_queue N s \<Longrightarrow> ogm_queue N s'"
  by (simp add: ogm_queue_def queue_holds_def foreign_def)

lemma ogm_queue_add:
  assumes "wire_ok w" "length (wire w) < 65536" "ogm_queue N s"
  shows "ogm_queue N (batadv_iv_ogm_queue_add k (wire w) (length (wire w)) i oi own t s)"
proof -
  obtain wss where w: "queue_holds s wss"
    using assms(3) by (auto simp: ogm_queue_def)
  show ?thesis
    using queue_add_list [OF w assms(1,2) refl, of k i oi own t] queue_add_counts [OF refl, of k w i oi own t s]
      assms(3)
    by (auto simp: ogm_queue_def)
qed

lemma vlan_new_queue:
  "batadv_orig_node_vlan_new n v s = (ok, s') \<Longrightarrow> ogm_queue N s \<Longrightarrow> ogm_queue N s'"
  by (rule ogm_queue_cong [rotated -1], assumption)
    (auto simp: batadv_orig_node_vlan_new_def kzalloc_eq Let_def orig_mod_def split: if_splits)

lemma init_own_queue:
  "orig_init_own n s = (ok, s') \<Longrightarrow> ogm_queue N s \<Longrightarrow> ogm_queue N s'"
  by (rule ogm_queue_cong [rotated -1], assumption)
    (auto simp: orig_init_own_def kzalloc_eq Let_def orig_mod_def split: if_splits)

lemma node_new_queue:
  assumes "batadv_orig_node_new k a s = (r, s')" "ogm_queue N s"
  shows "ogm_queue N s'"
proof -
  have q: "ogm_queue N s3"
    if v: "batadv_orig_node_vlan_new n 0 (s\<lparr>bp_allocs := l, bp_origs := f, bp_next_orig := m\<rparr>) = (ok, s3)"
    for n l f m ok s3
    by (rule vlan_new_queue [OF v], rule ogm_queue_cong [OF _ _ _ _ assms(2)]) simp_all
  have f: "ogm_queue N (s3\<lparr>bp_next_orig := m\<rparr>) = ogm_queue N s3"
    "ogm_queue N (s3\<lparr>bp_allocs := l\<rparr>) = ogm_queue N s3" for s3 m l
    by (simp_all add: ogm_queue_def queue_holds_def foreign_def)
  show ?thesis
    using assms unfolding batadv_orig_node_new_def
    by (auto simp: kzalloc_eq Let_def f dest!: q split: if_splits prod.splits)
qed

lemma orig_get_queue:
  assumes "batadv_iv_ogm_orig_get k a s = (q, s')" "ogm_queue N s"
  shows "ogm_queue N s'"
proof -
  have f: "ogm_queue N (s3\<lparr>bp_orig_hash := h\<rparr>) = ogm_queue N s3" for s3 h
    by (simp add: ogm_queue_def queue_holds_def foreign_def)
  show ?thesis
    using assms unfolding batadv_iv_ogm_orig_get_def
    by (auto simp: f dest!: node_new_queue init_own_queue split: if_splits prod.splits option.splits)
qed

lemma list_all2_list_del: "list_all2 P xs ys \<Longrightarrow> list_all2 P (list_del j xs) (list_del j ys)"
  by (simp add: list_del_def list_all2_appendI)

lemma filter_list_del:
  assumes "j < length xs"
  shows "length (filter P xs) = length (filter P (list_del j xs)) + (if P (xs ! j) then 1 else 0)"
proof -
  have "xs = take j xs @ xs ! j # drop (Suc j) xs"
    using assms by (rule id_take_nth_drop)
  then have "filter P xs = filter P (take j xs @ xs ! j # drop (Suc j) xs)"
    by (rule arg_cong)
  then show ?thesis
    by (simp add: list_del_def)
qed

lemma ogm_queue_unqueue:
  assumes j: "j < length (bp_forw_bat_list s)" and q: "ogm_queue N s"
  shows "ogm_queue N (unqueue j s)"
proof -
  obtain wss where "queue_holds s wss"
    using q by (auto simp: ogm_queue_def)
  then have "queue_holds (unqueue j s) (list_del j wss)"
    by (auto simp: queue_holds_def unqueue_def list_all2_list_del dest: set_list_del)
  moreover have "bp_batman_queue_left (unqueue j s) + foreign (unqueue j s) = N"
    using q filter_list_del [OF j, of "\<lambda>fw. \<not> fw_own fw"]
    by (auto simp: ogm_queue_def unqueue_def foreign_def split: if_splits)
  ultimately show ?thesis
    using q by (auto simp: ogm_queue_def unqueue_def)
qed

interpretation queue: iv_send_preserved k "ogm_queue N" for k N
proof (unfold_locales, goal_cases)
  case (12 a s q s')
  then show ?case by (rule orig_get_queue)
next
  case (13 w s i oi' t)
  show ?case by (rule ogm_queue_add) (use 13 in simp_all)
next
  case (18 w s i oi' t)
  show ?case by (rule ogm_queue_add) (use 18 in simp_all)
next
  case (19 j s)
  then show ?case by (rule ogm_queue_unqueue)
qed (rule ogm_queue_cong; simp add: call_def hardif_mod_def neigh_mod_def neigh_ifinfo_mod_def orig_mod_def)+

section \<open>Ready to send\<close>

lemma iv_ready_cong:
  "bp_hardifs s' = bp_hardifs s \<Longrightarrow> bp_soft_iface s' = bp_soft_iface s \<Longrightarrow> bp_primary_if s' = bp_primary_if s \<Longrightarrow>
   bp_tvlv_containers s' = bp_tvlv_containers s \<Longrightarrow>
   (\<And>fw. fw \<in> set (bp_forw_bat_list s') \<Longrightarrow> fw_own fw \<Longrightarrow>
     member s (fw_if_incoming fw) \<or> fw \<in> set (bp_forw_bat_list s)) \<Longrightarrow>
   iv_ready s \<Longrightarrow> iv_ready s'"
  unfolding iv_ready_def member_def by metis

lemma iv_ready_hardif:
  "iv_ready s \<Longrightarrow> hi_soft_iface (f (hardif_of s i)) = hi_soft_iface (hardif_of s i) \<Longrightarrow>
   24 \<le> length (hi_ogm_buff (f (hardif_of s i))) \<or>
     hi_ogm_buff (f (hardif_of s i)) = hi_ogm_buff (hardif_of s i) \<Longrightarrow>
   bp_primary_if s = Some i \<or> length (hi_ogm_buff (f (hardif_of s i))) = 24 \<or>
     hi_ogm_buff (f (hardif_of s i)) = hi_ogm_buff (hardif_of s i) \<Longrightarrow>
   iv_ready (hardif_mod i f s)"
  by (auto simp: iv_ready_def member_def hardif_mod_def)

text \<open>What is added to the queue comes from a member if what was there does.\<close>

lemma queue_add_own:
  assumes q: "\<forall>fw \<in> set (bp_forw_bat_list s). fw_own fw \<longrightarrow> member s (fw_if_incoming fw)" and own: "own \<longrightarrow> member s i"
    and fw: "fw \<in> set (bp_forw_bat_list (batadv_iv_ogm_queue_add k (wire w) (length (wire w)) i oi own t s))" "fw_own fw"
  shows "member s (fw_if_incoming fw)"
  using refl [of "batadv_iv_ogm_queue_add k (wire w) (length (wire w)) i oi own t s"]
proof (cases rule: queue_add_cases)
  case (new_packet t')
  then show ?thesis
    using aggregate_new_list [of "wire w" "length (wire w)" t' "is_direct w" i oi own s] fw own q
    by auto
next
  case (aggregated j fw' panic)
  have k: "fw_own fw' = fw_own (bp_forw_bat_list s ! j)" "fw_if_incoming fw' = fw_if_incoming (bp_forw_bat_list s ! j)"
    using aggregated(5) by (auto simp: batadv_iv_ogm_aggregate_def Let_def split: if_splits)
  have "member s (fw_if_incoming fw')" if "fw_own fw'"
    using q aggregated(1) k that nth_mem [OF aggregated(1)] by auto
  then show ?thesis
    using fw q aggregated(6) set_update_subset_insert [of "bp_forw_bat_list s" j fw'] by auto
qed

lemma queue_add_ready:
  "bp_hardifs (batadv_iv_ogm_queue_add k b n i oi own t s) = bp_hardifs s"
  "bp_soft_iface (batadv_iv_ogm_queue_add k b n i oi own t s) = bp_soft_iface s"
  "bp_primary_if (batadv_iv_ogm_queue_add k b n i oi own t s) = bp_primary_if s"
  "bp_tvlv_containers (batadv_iv_ogm_queue_add k b n i oi own t s) = bp_tvlv_containers s"
  unfolding batadv_iv_ogm_queue_add_def Let_def
  by (simp_all add: batadv_iv_ogm_aggregate_new_def kzalloc_eq Let_def split: option.split prod.split)

lemma iv_ready_queue_add:
  assumes "iv_ready s" "own \<longrightarrow> member s i"
  shows "iv_ready (batadv_iv_ogm_queue_add k (wire w) (length (wire w)) i oi own t s)"
  using queue_add_own [OF _ assms(2)] assms(1)
  by (intro iv_ready_cong [OF queue_add_ready _ assms(1)]) (auto simp: iv_ready_def)

lemma orig_get_ready:
  assumes "batadv_iv_ogm_orig_get k a s = (q, s')"
  shows "bp_hardifs s' = bp_hardifs s" "bp_soft_iface s' = bp_soft_iface s" "bp_primary_if s' = bp_primary_if s"
    "bp_tvlv_containers s' = bp_tvlv_containers s" "bp_forw_bat_list s' = bp_forw_bat_list s"
proof -
  have v: "bp_hardifs s3 = bp_hardifs s2 \<and> bp_soft_iface s3 = bp_soft_iface s2 \<and> bp_primary_if s3 = bp_primary_if s2 \<and>
      bp_tvlv_containers s3 = bp_tvlv_containers s2 \<and> bp_forw_bat_list s3 = bp_forw_bat_list s2"
    if "batadv_orig_node_vlan_new n vid s2 = (ok, s3) \<or> orig_init_own n s2 = (ok, s3)" for n vid s2 ok s3
    using that by (auto simp: batadv_orig_node_vlan_new_def orig_init_own_def kzalloc_eq Let_def orig_mod_def
        split: if_splits)
  have n: "bp_hardifs s3 = bp_hardifs s2 \<and> bp_soft_iface s3 = bp_soft_iface s2 \<and> bp_primary_if s3 = bp_primary_if s2 \<and>
      bp_tvlv_containers s3 = bp_tvlv_containers s2 \<and> bp_forw_bat_list s3 = bp_forw_bat_list s2"
    if "batadv_orig_node_new k a s2 = (r, s3)" for s2 r s3
    using that v by (fastforce simp: batadv_orig_node_new_def kzalloc_eq Let_def split: if_splits prod.splits)
  have "bp_hardifs s' = bp_hardifs s \<and> bp_soft_iface s' = bp_soft_iface s \<and> bp_primary_if s' = bp_primary_if s \<and>
      bp_tvlv_containers s' = bp_tvlv_containers s \<and> bp_forw_bat_list s' = bp_forw_bat_list s"
    using assms n v by (fastforce simp: batadv_iv_ogm_orig_get_def split: if_splits prod.splits option.splits)
  then show "bp_hardifs s' = bp_hardifs s" "bp_soft_iface s' = bp_soft_iface s" "bp_primary_if s' = bp_primary_if s"
    "bp_tvlv_containers s' = bp_tvlv_containers s" "bp_forw_bat_list s' = bp_forw_bat_list s"
    by auto
qed

interpretation ready: iv_send_preserved k iv_ready for k
proof (unfold_locales, goal_cases)
  case (4 hf s i)
  have "\<exists>l. hf (hardif_of s i) = (hardif_of s i)\<lparr>hi_neigh_list := l\<rparr>"
    using 4(1) by (simp add: hardif_keeps_def)
  then show ?case
    using 4(2) by (intro iv_ready_hardif) auto
next
  case (12 a s q s')
  then show ?case
    using orig_get_ready [OF 12(1)] by (intro iv_ready_cong [of s' s]) auto
next
  case (13 w s i oi' t)
  then show ?case by (intro iv_ready_queue_add) simp_all
next
  case (15 b s i)
  then show ?case by (intro iv_ready_hardif) auto
next
  case (16 s i)
  then show ?case by (intro iv_ready_hardif) simp_all
next
  case (17 s i)
  then show ?case by (intro iv_ready_hardif) simp_all
next
  case (18 w s i oi' t)
  then show ?case by (intro iv_ready_queue_add) simp_all
next
  case (19 j s)
  then show ?case
    by (intro iv_ready_cong [of "unqueue j s" s]) (auto simp: unqueue_def dest: set_list_del)
qed (rule iv_ready_cong; simp add: call_def neigh_mod_def neigh_ifinfo_mod_def orig_mod_def)+

end
