(* ===== verification/Iv_System.thy ===== *)
theory Iv_System
  imports Iv_Invariant
begin

text \<open>
  B.A.T.M.A.N. IV as a transition system: frames arrive, work items of queued OGMs run,
  originators are purged, interfaces join, start to send and leave, TVLV containers come and go,
  aggregation is switched, and the other components do what does not concern the algorithm, in
  any order. The invariants of \<open>Iv_Invariant\<close> hold in every state that can be reached, and the
  properties of the component are read off them.
\<close>

section \<open>Interfaces\<close>

text \<open>
  The parts of \<open>batadv_hardif_enable_interface\<close> and \<open>batadv_hardif_disable_interface\<close> that change
  the state of the algorithm, in the order of the code; what these handlers do to other components
  are other steps. \<open>mem\<close> and \<open>junk\<close> are the memory that \<open>kmalloc\<close> hands out for the OGM of the interface
  and for its counters; \<open>p\<close> is the primary interface after the departure.
\<close>

definition iv_joins :: "u8 list \<Rightarrow> (nat \<Rightarrow> seq_bits \<times> u8) \<Rightarrow> nat \<Rightarrow> batadv_priv \<Rightarrow> int \<times> batadv_priv" where
  "iv_joins mem junk i s =
     (let s = hardif_mod i (\<lambda>h. h\<lparr>hi_soft_iface := Some (bp_soft_iface s)\<rparr>) s;
          (ret, s) = batadv_iv_ogm_iface_enable mem i s
      in if ret < 0 then (ret, hardif_mod i (\<lambda>h. h\<lparr>hi_soft_iface := None\<rparr>) s)
         else
           (let s = hardif_mod i (\<lambda>h. h\<lparr>hi_if_num := int (bp_num_ifaces s)\<rparr>) s;
                s = s\<lparr>bp_num_ifaces := bp_num_ifaces s + 1\<rparr>;
                s = hardif_mod i (\<lambda>h. h\<lparr>hi_if_status := BATADV_IF_INACTIVE\<rparr>) s
            in batadv_orig_hash_add_if (batadv_iv_ogm_orig_add_if junk) (int (bp_num_ifaces s)) s))"

definition iv_leaves :: "kenv \<Rightarrow> neigh_cmp \<Rightarrow> nat option \<Rightarrow> nat \<Rightarrow> batadv_priv \<Rightarrow> batadv_priv" where
  "iv_leaves k cmp p i s =
     (let s = s\<lparr>bp_num_ifaces := bp_num_ifaces s - 1\<rparr>;
          s = snd (batadv_orig_hash_del_if batadv_iv_ogm_orig_del_if i (int (bp_num_ifaces s)) s);
          s = s\<lparr>bp_primary_if := p\<rparr>;
          s = batadv_iv_ogm_iface_disable i s;
          s = hardif_mod i (\<lambda>h. h\<lparr>hi_if_status := BATADV_IF_NOT_IN_USE\<rparr>) s;
          s = batadv_purge_orig k cmp s;
          s = batadv_purge_outstanding_packets (Some i) s
      in hardif_mod i (\<lambda>h. h\<lparr>hi_soft_iface := None\<rparr>) s)"

text \<open>
  What the other components, the settings and the kernel do leaves alone the table of originators and
  their counters, the links, the queue, the containers, and of the interfaces whether they belong to the
  mesh and how long their own OGM is.
\<close>

definition iv_frame :: "batadv_priv \<Rightarrow> batadv_priv \<Rightarrow> bool" where
  "iv_frame s s' \<longleftrightarrow>
     bp_orig_hash s' = bp_orig_hash s \<and> bp_next_orig s' = bp_next_orig s \<and>
     (\<forall>n. on_orig (orig_of s' n) = on_orig (orig_of s n) \<and> on_bcast_own (orig_of s' n) = on_bcast_own (orig_of s n) \<and>
        on_bcast_own_sum (orig_of s' n) = on_bcast_own_sum (orig_of s n)) \<and>
     (\<forall>n. nn_ifinfo_list (neigh_of s' n) = nn_ifinfo_list (neigh_of s n)) \<and>
     bp_forw_bat_list s' = bp_forw_bat_list s \<and> bp_batman_queue_left s' = bp_batman_queue_left s \<and>
     bp_panic s' = bp_panic s \<and> bp_aggregated_ogms s' = bp_aggregated_ogms s \<and>
     bp_tvlv_containers s' = bp_tvlv_containers s \<and> bp_primary_if s' = bp_primary_if s \<and>
     bp_soft_iface s' = bp_soft_iface s \<and>
     (\<forall>i. hi_soft_iface (hardif_of s' i) = hi_soft_iface (hardif_of s i) \<and>
        length (hi_ogm_buff (hardif_of s' i)) = length (hi_ogm_buff (hardif_of s i)))"

section \<open>Steps\<close>

text \<open>
  \<open>iv_step k d s s'\<close>: the step throws away \<open>d\<close> waiting packets of others, whose places in the queue are not
  given back. As in the code, a primary interface is chosen when there is none, or the former one leaves.
  The steps have four conditions that the code does not ensure; what it does when they fail are
  findings of their own. There is memory for the own OGM with its containers and for the counters when an
  interface joins or leaves; the memory that a joining interface gets for its counters agrees with itself;
  aggregation is switched on only when the waiting packets have room for it; the containers leave room
  for the header in a 16-bit length.
\<close>

inductive iv_step :: "kenv \<Rightarrow> nat \<Rightarrow> batadv_priv \<Rightarrow> batadv_priv \<Rightarrow> bool" for k where
  receive: "same_hash k k' \<Longrightarrow> batadv_iv_ogm_receive k' oob f i s = (r, s') \<Longrightarrow> iv_step k 0 s s'"
| outstanding: "same_hash k k' \<Longrightarrow> j < length (bp_forw_bat_list s) \<Longrightarrow>
    (fw_own (bp_forw_bat_list s ! j) \<longrightarrow> False \<notin> set (bp_allocs s)) \<Longrightarrow>
    iv_step k 0 s (batadv_send_outstanding_bat_ogm_packet k' oob j s)"
| start: "same_hash k k' \<Longrightarrow> member s i \<Longrightarrow> append_ok i s \<Longrightarrow> iv_step k 0 s (batadv_schedule_bat_ogm k' i s)"
| purge: "same_hash k k' \<Longrightarrow> iv_step k 0 s (batadv_purge_orig k' cmp s)"
| tvlv_register: "(\<And>b. val = Some b \<Longrightarrow> length b = unat len) \<Longrightarrow>
    s' = batadv_tvlv_container_register t v val len s \<Longrightarrow>
    length (tvlv_payload (bp_tvlv_containers s')) < 65512 \<Longrightarrow> iv_step k 0 s s'"
| tvlv_unregister: "s' = batadv_tvlv_container_unregister t v s \<Longrightarrow>
    length (tvlv_payload (bp_tvlv_containers s')) < 65512 \<Longrightarrow> iv_step k 0 s s'"
| joins: "\<not> member s i \<Longrightarrow> 24 \<le> length mem \<Longrightarrow> (\<And>n. snd (junk n) = of_nat (bitmap_weight (fst (junk n)))) \<Longrightarrow>
    iv_joins mem junk i s = (0, s') \<Longrightarrow> iv_step k 0 s s'"
| leaves: "same_hash k k' \<Longrightarrow> False \<notin> set (bp_allocs s) \<Longrightarrow> bp_primary_if s = Some i \<or> p = bp_primary_if s \<Longrightarrow>
    s' = iv_leaves k' cmp p i s \<Longrightarrow> iv_step k (foreign s - foreign s') s s'"
| discard: "s' = batadv_purge_outstanding_packets i s \<Longrightarrow> iv_step k (foreign s - foreign s') s s'"
| primary: "(\<And>i. bp_primary_if s = Some i \<Longrightarrow> \<not> member s i) \<Longrightarrow>
    iv_step k 0 s (s\<lparr>bp_primary_if := p\<rparr>)"
| aggregation: "(b \<Longrightarrow> \<forall>fw \<in> set (bp_forw_bat_list s). fw_room_ok fw) \<Longrightarrow>
    iv_step k 0 s (s\<lparr>bp_aggregated_ogms := b\<rparr>)"
| other: "iv_frame s s' \<Longrightarrow> iv_step k 0 s s'"

text \<open>
  Where it starts: the table of originators was just created, nothing is queued, no slot of
  the stores is in use, and the interfaces of the mesh are enabled.
\<close>

definition iv_initial :: "nat \<Rightarrow> batadv_priv \<Rightarrow> bool" where
  "iv_initial N s \<longleftrightarrow>
     bp_orig_hash s = batadv_hash_new True 1024 \<and>
     (\<forall>n. nn_ifinfo_list (neigh_of s n) = []) \<and> (\<forall>n. on_bcast_own_sum (orig_of s n) = []) \<and>
     bp_forw_bat_list s = [] \<and> bp_batman_queue_left s = N \<and> \<not> bp_panic s \<and>
     bp_tvlv_containers s = [] \<and> iv_ready s"

text \<open>Reachable with \<open>d\<close> packets of others thrown away on the way.\<close>

inductive iv_reachable :: "kenv \<Rightarrow> nat \<Rightarrow> nat \<Rightarrow> batadv_priv \<Rightarrow> bool" for k N where
  initial: "iv_initial N s \<Longrightarrow> iv_reachable k N 0 s"
| step: "iv_reachable k N d s \<Longrightarrow> iv_step k e s s' \<Longrightarrow> iv_reachable k N (d + e) s'"

section \<open>The invariant\<close>

definition iv_inv :: "kenv \<Rightarrow> nat \<Rightarrow> batadv_priv \<Rightarrow> bool" where
  "iv_inv k N s \<longleftrightarrow> iv_counts s \<and> orig_table k {} s \<and> ogm_queue N s \<and> iv_ready s \<and> tvlv_table s"

lemma orig_table_same_hash: "same_hash k k' \<Longrightarrow> orig_table k' T s = orig_table k T s"
  by (simp add: orig_table_def same_hash_def batadv_choose_orig_def [abs_def])

text \<open>The containers are changed by their own operations only.\<close>

definition tvlv_is :: "batadv_tvlv_container list \<Rightarrow> batadv_priv \<Rightarrow> bool" where
  "tvlv_is cs s \<longleftrightarrow> bp_tvlv_containers s = cs"

lemma orig_get_tvlv: "batadv_iv_ogm_orig_get k a s = (q, s') \<Longrightarrow> tvlv_is cs s \<Longrightarrow> tvlv_is cs s'"
  using orig_get_ready(4) by (simp add: tvlv_is_def)

lemma queue_add_tvlv: "tvlv_is cs s \<Longrightarrow> tvlv_is cs (batadv_iv_ogm_queue_add k b n i oi own t s)"
  unfolding batadv_iv_ogm_queue_add_def Let_def tvlv_is_def
  by (simp add: batadv_iv_ogm_aggregate_new_def kzalloc_eq Let_def split: option.split prod.split)

interpretation tvlv_kept: iv_send_preserved k "tvlv_is cs" for k cs
proof (unfold_locales, goal_cases)
  case (12 a s q s')
  then show ?case by (rule orig_get_tvlv)
next
  case (13 w s i oi' t)
  then show ?case by (intro queue_add_tvlv)
next
  case (18 w s i oi' t)
  then show ?case by (intro queue_add_tvlv)
qed (simp_all add: tvlv_is_def call_def orig_mod_def neigh_mod_def neigh_ifinfo_mod_def hardif_mod_def unqueue_def)

lemma tvlv_table_is: "tvlv_is (bp_tvlv_containers s) s' \<Longrightarrow> tvlv_table s' = tvlv_table s"
  by (simp add: tvlv_table_def tvlv_is_def)

lemma tvlv_is_refl [simp]: "tvlv_is (bp_tvlv_containers s) s"
  by (simp add: tvlv_is_def)

lemma iv_inv_same_hash: "same_hash k k' \<Longrightarrow> iv_inv k N s \<longleftrightarrow> iv_inv k' N s"
  by (simp add: iv_inv_def orig_table_same_hash)

lemma iv_inv_intro:
  "iv_inv k N s \<Longrightarrow> (iv_counts s \<Longrightarrow> iv_counts s') \<Longrightarrow> (orig_table k {} s \<Longrightarrow> orig_table k {} s') \<Longrightarrow>
   (ogm_queue N s \<Longrightarrow> ogm_queue N s') \<Longrightarrow> (iv_ready s \<Longrightarrow> iv_ready s') \<Longrightarrow>
   tvlv_is (bp_tvlv_containers s) s' \<Longrightarrow> iv_inv k N s'"
  by (simp add: iv_inv_def tvlv_table_is)

lemma inv_receive:
  assumes r: "batadv_iv_ogm_receive k oob f i s = (r, s')" and "iv_inv k N s"
  shows "iv_inv k N s'"
  by (rule iv_inv_intro [OF assms(2) counts.receive [OF r] orig_tab.receive [OF r] queue.receive [OF r]
    ready.receive [OF r] tvlv_kept.receive [OF r tvlv_is_refl]])

lemma inv_outstanding:
  assumes j: "j < length (bp_forw_bat_list s)" and i: "iv_inv k N s"
    and m: "fw_own (bp_forw_bat_list s ! j) \<Longrightarrow> False \<notin> set (bp_allocs s)"
  shows "iv_inv k N (batadv_send_outstanding_bat_ogm_packet k oob j s)"
proof -
  have r: "iv_ready s" using i by (simp add: iv_inv_def)
  show ?thesis
    by (rule iv_inv_intro [OF i counts.outstanding [OF r j _ m] orig_tab_all.outstanding [OF r j _ m]
      queue.outstanding [OF r j _ m] ready.outstanding [OF r j _ m] tvlv_kept.outstanding [OF r j tvlv_is_refl m]])
qed

lemma inv_schedule:
  assumes m: "member s i" "append_ok i s" and i: "iv_inv k N s"
  shows "iv_inv k N (batadv_schedule_bat_ogm k i s)"
proof -
  have r: "iv_ready s" using i by (simp add: iv_inv_def)
  show ?thesis
    by (rule iv_inv_intro [OF i counts.schedule_bat_ogm [OF r m] orig_tab_all.schedule_bat_ogm [OF r m]
      queue.schedule_bat_ogm [OF r m] ready.schedule_bat_ogm [OF r m]
      tvlv_kept.schedule_bat_ogm [OF r m tvlv_is_refl]])
qed

lemma inv_purge: "iv_inv k N s \<Longrightarrow> iv_inv k N (batadv_purge_orig k cmp s)"
  by (rule iv_inv_intro [OF _ counts.purge_orig orig_tab_all.purge_orig queue.purge_orig ready.purge_orig
    tvlv_kept.purge_orig [OF tvlv_is_refl]])

text \<open>Containers change nothing but themselves.\<close>

lemma inv_containers:
  assumes "iv_inv k N s" "tvlv_table (s\<lparr>bp_tvlv_containers := cs\<rparr>)" "length (tvlv_payload cs) < 65512"
  shows "iv_inv k N (s\<lparr>bp_allocs := l, bp_tvlv_containers := cs\<rparr>)"
proof -
  let ?s = "s\<lparr>bp_allocs := l, bp_tvlv_containers := cs\<rparr>"
  have "iv_counts ?s = iv_counts s"
    by (rule counts_cong) simp_all
  moreover have "orig_table k {} ?s = orig_table k {} s"
    by (simp add: orig_table_def bp_table_def)
  moreover have "ogm_queue N ?s = ogm_queue N s"
    by (simp add: ogm_queue_def queue_holds_def foreign_def)
  moreover have "iv_ready s \<Longrightarrow> iv_ready ?s"
    using assms(2,3) by (auto simp: iv_ready_def member_def tvlv_table_def)
  moreover have "tvlv_table ?s"
    using assms(2) by (simp add: tvlv_table_def)
  ultimately show ?thesis
    using assms(1) by (simp add: iv_inv_def)
qed

lemma unregister_containers:
  "\<exists>cs. batadv_tvlv_container_unregister t v s = s\<lparr>bp_tvlv_containers := cs\<rparr>"
proof -
  have "s = s\<lparr>bp_tvlv_containers := bp_tvlv_containers s\<rparr>" by simp
  then have "\<exists>cs. s = s\<lparr>bp_tvlv_containers := cs\<rparr>" by blast
  then show ?thesis
    by (auto simp: batadv_tvlv_container_unregister_def batadv_tvlv_container_remove_def split: option.split)
qed

lemma register_containers:
  "\<exists>l cs. batadv_tvlv_container_register t v val len s = s\<lparr>bp_allocs := l, bp_tvlv_containers := cs\<rparr>"
proof (cases "fst (kzalloc s)")
  case True
  obtain cs where cs: "batadv_tvlv_container_remove (batadv_tvlv_container_get (snd (kzalloc s)) t v) (snd (kzalloc s))
      = snd (kzalloc s)\<lparr>bp_tvlv_containers := cs\<rparr>"
    using unregister_containers [of t v "snd (kzalloc s)"] by (auto simp: batadv_tvlv_container_unregister_def)
  have "\<exists>new. batadv_tvlv_container_register t v val len s
      = snd (kzalloc s)\<lparr>bp_tvlv_containers := new # cs\<rparr>"
    using True unfolding batadv_tvlv_container_register_def Let_def split_def cs by auto
  then show ?thesis
    by (auto simp: kzalloc_eq)
next
  case False
  then show ?thesis
    by (intro exI [of _ "tl (bp_allocs s)"] exI [of _ "bp_tvlv_containers s"])
      (simp add: batadv_tvlv_container_register_def kzalloc_eq)
qed

text \<open>Other components.\<close>

lemma inv_frame:
  assumes f: "iv_frame s s'" and i: "iv_inv k N s"
  shows "iv_inv k N s'"
proof -
  have "iv_counts s'"
    using f i by (simp add: iv_frame_def iv_inv_def iv_counts_def own_ok_def)
  moreover have "orig_table k {} s'"
    by (rule orig_table_cong [of s' s]) (use f i in \<open>simp_all add: iv_frame_def iv_inv_def orig_face_def\<close>)
  moreover have "ogm_queue N s'"
    by (rule ogm_queue_cong [of s' s]) (use f i in \<open>simp_all add: iv_frame_def iv_inv_def\<close>)
  moreover have "member s' = member s"
    using f by (simp add: iv_frame_def member_def fun_eq_iff)
  then have "iv_ready s'"
    using f i by (auto simp: iv_frame_def iv_inv_def iv_ready_def)
  moreover have "tvlv_table s'"
    using f i by (simp add: iv_frame_def iv_inv_def tvlv_table_def)
  ultimately show ?thesis by (simp add: iv_inv_def)
qed

text \<open>Discarded packets keep their places.\<close>

lemma list_all2_filter: "list_all2 P xs ys \<Longrightarrow> \<exists>zs. list_all2 P (filter Q xs) zs"
proof (induction rule: list_all2_induct)
  case (Cons x xs y ys)
  then obtain zs where "list_all2 P (filter Q xs) zs" by blast
  then show ?case using Cons(1) by (cases "Q x") (auto intro: exI [of _ "y # zs"])
qed auto

lemma length_filter_le_mono: "length (filter (\<lambda>x. Q x \<and> P x) xs) \<le> length (filter P xs)"
  by (induction xs) auto

lemma queue_discard:
  assumes "ogm_queue N s" "s' = batadv_purge_outstanding_packets i s"
  shows "foreign s - foreign s' \<le> N" "ogm_queue (N - (foreign s - foreign s')) s'"
proof -
  obtain Q where q: "bp_forw_bat_list s' = filter Q (bp_forw_bat_list s)" "bp_panic s' = bp_panic s"
      "bp_batman_queue_left s' = bp_batman_queue_left s" "bp_aggregated_ogms s' = bp_aggregated_ogms s"
    unfolding assms(2) by (simp add: batadv_purge_outstanding_packets_def)
  obtain wss where "list_all2 fw_holds (bp_forw_bat_list s) wss"
    using assms(1) by (auto simp: ogm_queue_def queue_holds_def)
  then obtain vss where "list_all2 fw_holds (bp_forw_bat_list s') vss"
    unfolding q using list_all2_filter by blast
  then have h: "queue_holds s' vss"
    using assms(1) q by (auto simp: ogm_queue_def queue_holds_def)
  have "foreign s' = length (filter (\<lambda>fw. Q fw \<and> \<not> fw_own fw) (bp_forw_bat_list s))"
    by (simp add: foreign_def q conj_commute)
  also have "\<dots> \<le> foreign s"
    unfolding foreign_def by (rule length_filter_le_mono)
  finally have f: "foreign s' \<le> foreign s" .
  show "foreign s - foreign s' \<le> N"
    using assms(1) by (auto simp: ogm_queue_def)
  show "ogm_queue (N - (foreign s - foreign s')) s'"
    using h f q assms(1) by (auto simp: ogm_queue_def)
qed

lemma inv_discard:
  assumes "iv_inv k N s" "s' = batadv_purge_outstanding_packets i s"
  shows "foreign s - foreign s' \<le> N \<and> iv_inv k (N - (foreign s - foreign s')) s'"
proof -
  have d: "bp_orig_hash s' = bp_orig_hash s" "bp_next_orig s' = bp_next_orig s" "bp_origs s' = bp_origs s"
      "bp_neighs s' = bp_neighs s" "bp_tvlv_containers s' = bp_tvlv_containers s" "bp_hardifs s' = bp_hardifs s"
      "bp_soft_iface s' = bp_soft_iface s" "bp_primary_if s' = bp_primary_if s"
      "set (bp_forw_bat_list s') \<subseteq> set (bp_forw_bat_list s)"
    by (auto simp: assms(2) batadv_purge_outstanding_packets_def)
  have "iv_counts s' = iv_counts s"
    by (rule counts_cong) (simp_all add: d)
  moreover have "orig_table k {} s'"
    by (rule orig_table_cong [of s' s]) (use assms(1) in \<open>simp_all add: d iv_inv_def\<close>)
  moreover have "iv_ready s'"
    by (rule iv_ready_cong [of s' s]) (use assms(1) d in \<open>auto simp: iv_inv_def\<close>)
  moreover have "tvlv_table s'"
    using assms(1) by (simp add: iv_inv_def tvlv_table_def d)
  ultimately show ?thesis
    using queue_discard [OF _ assms(2)] assms(1) by (auto simp: iv_inv_def)
qed

text \<open>Counters of an interface are added and taken away.\<close>

lemma walk_preserved:
  "orig_hash_walk f ns s = (True, s') \<Longrightarrow> P s \<Longrightarrow>
   (\<And>a n t t'. (a, n) \<in> set ns \<Longrightarrow> P t \<Longrightarrow> f n t = (True, t') \<Longrightarrow> P t') \<Longrightarrow> P s'"
proof (induction ns arbitrary: s)
  case (Cons node ns)
  obtain ok t where t: "f (snd node) s = (ok, t)" by fastforce
  then have "ok" "orig_hash_walk f ns t = (True, s')"
    using Cons.prems(1) by (auto split: if_splits)
  moreover have "P t"
    using Cons.prems(3) [of "fst node" "snd node" s t] Cons.prems(2) t \<open>ok\<close> by simp
  ultimately show ?case
    using Cons.IH Cons.prems(3) by (metis list.set_intros(2))
qed simp

text \<open>The counters stay what they count if both arrays change alike.\<close>

definition own_kept :: "kenv \<Rightarrow> batadv_priv \<Rightarrow> batadv_priv \<Rightarrow> bool" where
  "own_kept k s s' \<longleftrightarrow> (\<exists>l f. s' = s\<lparr>bp_allocs := l, bp_origs := f\<rparr>) \<and> iv_counts s' \<and> orig_table k {} s'"

lemma own_kept_mod:
  assumes "own_kept k s t" "(a, n) \<in> set (bp_table s)"
    and f: "\<And>o'. own_ok o' \<Longrightarrow> length (on_bcast_own o') = length (on_bcast_own_sum o') \<Longrightarrow>
        own_ok (f o') \<and> length (on_bcast_own (f o')) = length (on_bcast_own_sum (f o')) \<and> on_orig (f o') = on_orig o'"
  shows "own_kept k s (orig_mod n f (t\<lparr>bp_allocs := l\<rparr>))"
proof -
  let ?u = "orig_mod n f (t\<lparr>bp_allocs := l\<rparr>)"
  have t: "iv_counts t" "orig_table k {} t" "bp_table t = bp_table s"
    using assms(1) by (auto simp: own_kept_def bp_table_def)
  have e: "length (on_bcast_own (orig_of t n)) = length (on_bcast_own_sum (orig_of t n))"
    using t(2,3) assms(2) by (auto simp: orig_table_def)
  note g = f [OF counts_own [OF t(1)] e]
  have "iv_counts ?u"
    using t(1) g by (intro counts_orig_mod) simp_all
  moreover have "orig_table k {} ?u"
    by (rule orig_table_cong [of ?u t]) (use g e t(2) in \<open>auto simp: orig_mod_def orig_face_def\<close>)
  moreover have "\<exists>l f. ?u = s\<lparr>bp_allocs := l, bp_origs := f\<rparr>"
  proof -
    obtain l' g where "t = s\<lparr>bp_allocs := l', bp_origs := g\<rparr>"
      using assms(1) by (auto simp: own_kept_def)
    then have "?u = s\<lparr>bp_allocs := l, bp_origs := g(n := f (g n))\<rparr>"
      by (simp add: orig_mod_def)
    then show ?thesis by blast
  qed
  ultimately show ?thesis by (simp add: own_kept_def)
qed

lemma own_ok_add:
  "own_ok o' \<Longrightarrow> length (on_bcast_own o') = length (on_bcast_own_sum o') \<Longrightarrow> c = of_nat (bitmap_weight g) \<Longrightarrow>
   own_ok (o'\<lparr>on_bcast_own := take n (on_bcast_own o') @ [g], on_bcast_own_sum := take n (on_bcast_own_sum o') @ [c]\<rparr>)"
  by (auto simp: own_ok_def nth_append min_def)

lemma nth_without: "j < length (without n i xs) \<Longrightarrow> without n i xs ! j = xs ! (if j < i then j else Suc j)"
  by (auto simp: without_def nth_append min_def add.commute split: if_splits)

lemma own_ok_del:
  "own_ok o' \<Longrightarrow> length (on_bcast_own o') = length (on_bcast_own_sum o') \<Longrightarrow>
   own_ok (o'\<lparr>on_bcast_own := without n i (on_bcast_own o'), on_bcast_own_sum := without n i (on_bcast_own_sum o')\<rparr>)"
proof -
  assume a: "own_ok o'" "length (on_bcast_own o') = length (on_bcast_own_sum o')"
  have l: "length (without n i (on_bcast_own o')) = length (without n i (on_bcast_own_sum o'))"
    using a(2) by (simp add: without_def)
  have "(if j < i then j else Suc j) < length (on_bcast_own_sum o')" if "j < length (without n i (on_bcast_own_sum o'))" for j
    using that by (auto simp: without_def min_def split: if_splits)
  then show ?thesis
    using a(1) l by (simp add: own_ok_def nth_without)
qed

lemma own_kept_add:
  assumes "own_kept k s t" "(a, n) \<in> set (bp_table s)" "snd (junk n) = of_nat (bitmap_weight (fst (junk n)))"
    and "batadv_iv_ogm_orig_add_if junk n m t = (True, t')"
  shows "own_kept k s t'"
proof -
  let ?f = "\<lambda>o'. o'\<lparr>on_bcast_own := take (nat (m - 1)) (on_bcast_own o') @ [fst (junk n)],
    on_bcast_own_sum := take (nat (m - 1)) (on_bcast_own_sum o') @ [snd (junk n)]\<rparr>"
  have "\<exists>l. t' = orig_mod n ?f (t\<lparr>bp_allocs := l\<rparr>)"
    using assms(4) by (auto simp: batadv_iv_ogm_orig_add_if_def kzalloc_eq Let_def orig_mod_def split: if_splits)
  then show ?thesis
    using own_kept_mod [OF assms(1,2), of ?f] own_ok_add [OF _ _ assms(3)] by auto
qed

lemma own_kept_del:
  assumes "own_kept k s t" "(a, n) \<in> set (bp_table s)" "batadv_iv_ogm_orig_del_if n m i t = (True, t')"
  shows "own_kept k s t'"
proof (cases "m = 0")
  case True
  let ?f = "\<lambda>o'. o'\<lparr>on_bcast_own := [], on_bcast_own_sum := []\<rparr>"
  have "t' = orig_mod n ?f (t\<lparr>bp_allocs := bp_allocs t\<rparr>)"
    using assms(3) True by (simp add: batadv_iv_ogm_orig_del_if_def)
  then show ?thesis
    using own_kept_mod [OF assms(1,2), of ?f "bp_allocs t"] by (simp add: own_ok_def)
next
  case False
  let ?f = "\<lambda>o'. o'\<lparr>on_bcast_own := without (nat m) (nat i) (on_bcast_own o'),
    on_bcast_own_sum := without (nat m) (nat i) (on_bcast_own_sum o')\<rparr>"
  have "\<exists>l. t' = orig_mod n ?f (t\<lparr>bp_allocs := l\<rparr>)"
    using assms(3) False by (auto simp: batadv_iv_ogm_orig_del_if_def kzalloc_eq Let_def orig_mod_def split: if_splits)
  then show ?thesis
    using own_kept_mod [OF assms(1,2), of ?f] own_ok_del by (auto simp: without_def)
qed

lemma walk_memory:
  assumes "orig_hash_walk (\<lambda>o'. batadv_iv_ogm_orig_del_if o' m i) ns s = (ok, t)" "False \<notin> set (bp_allocs s)"
  shows "ok"
  using assms
proof (induction ns arbitrary: s)
  case (Cons node ns)
  obtain b u where u: "batadv_iv_ogm_orig_del_if (snd node) m i s = (b, u)" by fastforce
  have "b \<and> False \<notin> set (bp_allocs u)"
    using u Cons.prems(2)
    by (cases "bp_allocs s"; cases "tl (bp_allocs s)")
      (auto simp: batadv_iv_ogm_orig_del_if_def kzalloc_eq Let_def orig_mod_def split: if_splits)
  then show ?case
    using Cons.IH [of u] Cons.prems(1) u by simp
qed simp

text \<open>The interfaces behind the one that leaves get new numbers.\<close>

lemma renumbered:
  "\<exists>h. hardif_mod i (\<lambda>h. h\<lparr>hi_if_num := - 1\<rparr>) (fold (\<lambda>tmp s.
       if hi_if_status (hardif_of s tmp) \<noteq> BATADV_IF_NOT_IN_USE \<and> tmp \<noteq> i \<and>
          hi_soft_iface (hardif_of s i) = hi_soft_iface (hardif_of s tmp) \<and>
          hi_if_num (hardif_of s tmp) > hi_if_num (hardif_of s i)
       then hardif_mod tmp (\<lambda>i. i\<lparr>hi_if_num := hi_if_num i - 1\<rparr>) s else s) is s) = s\<lparr>bp_hardifs := h\<rparr> \<and>
     (\<forall>q. hi_soft_iface (h q) = hi_soft_iface (hardif_of s q) \<and> hi_ogm_buff (h q) = hi_ogm_buff (hardif_of s q))"
proof (induction "is" arbitrary: s)
  case Nil
  show ?case
    by (intro exI [of _ "(hardif_of s)(i := (hardif_of s i)\<lparr>hi_if_num := - 1\<rparr>)"]) (simp add: hardif_mod_def fun_upd_def)
next
  case (Cons j js)
  let ?t = "if hi_if_status (hardif_of s j) \<noteq> BATADV_IF_NOT_IN_USE \<and> j \<noteq> i \<and>
      hi_soft_iface (hardif_of s i) = hi_soft_iface (hardif_of s j) \<and> hi_if_num (hardif_of s j) > hi_if_num (hardif_of s i)
    then hardif_mod j (\<lambda>i. i\<lparr>hi_if_num := hi_if_num i - 1\<rparr>) s else s"
  obtain t where t: "?t = t" by blast
  have e: "t\<lparr>bp_hardifs := h\<rparr> = s\<lparr>bp_hardifs := h\<rparr>" for h
    unfolding t [symmetric] by (simp add: hardif_mod_def)
  have q: "hi_soft_iface (hardif_of t q) = hi_soft_iface (hardif_of s q) \<and> hi_ogm_buff (hardif_of t q) = hi_ogm_buff (hardif_of s q)" for q
    unfolding t [symmetric] by (simp add: hardif_mod_def)
  show ?case
    using Cons.IH [of t] unfolding fold_simps t by (simp add: e q)
qed

text \<open>Purging originators leaves the queue alone.\<close>

lemma purge_queue:
  "bp_forw_bat_list (snd (batadv_purge_orig_ifinfo o' s)) = bp_forw_bat_list s"
  "bp_forw_bat_list (snd (batadv_purge_orig_neighbors k o' s)) = bp_forw_bat_list s"
  "bp_forw_bat_list (reelect cmp o' i s) = bp_forw_bat_list s"
proof -
  show "bp_forw_bat_list (snd (batadv_purge_orig_ifinfo o' s)) = bp_forw_bat_list s"
    by (simp add: batadv_purge_orig_ifinfo_def Let_def orig_mod_def)
  show "bp_forw_bat_list (reelect cmp o' i s) = bp_forw_bat_list s"
    by (simp add: reelect_def batadv_update_route_def do_update_route_def orig_ifinfo_mod_def orig_mod_def call_def
        Let_def split: option.split)
  show "bp_forw_bat_list (snd (batadv_purge_orig_neighbors k o' s)) = bp_forw_bat_list s"
    unfolding batadv_purge_orig_neighbors_def
    by (rule fold_invariant_acc [of "\<lambda>acc. bp_forw_bat_list (snd acc) = bp_forw_bat_list s"])
      (auto simp: orig_mod_def batadv_purge_neigh_ifinfo_def neigh_mod_def split: prod.splits)
qed

lemma purge_node_queue: "bp_forw_bat_list (snd (batadv_purge_orig_node k cmp o' s)) = bp_forw_bat_list s"
proof -
  have f: "bp_forw_bat_list (fold (\<lambda>i s. if mesh_iface s i then reelect cmp o' (Some i) s else s) is t) = bp_forw_bat_list t"
    for "is" t
    by (rule fold_invariant_acc [of "\<lambda>x. bp_forw_bat_list x = bp_forw_bat_list t"]) (simp_all add: purge_queue)
  show ?thesis
    using purge_queue(1) [of o' s] purge_queue(2) [of k o' "snd (batadv_purge_orig_ifinfo o' s)"]
    by (simp add: batadv_purge_orig_node_def Let_def split_def f purge_queue)
qed

lemma purge_foreign: "foreign (batadv_purge_orig k cmp s) = foreign s"
proof -
  have "bp_forw_bat_list (orig_purge_step k cmp node t) = bp_forw_bat_list t" for node t
    using purge_node_queue [of k cmp "snd node" t]
    by (simp add: orig_purge_step_def Let_def split_def orig_mod_def call_def)
  then have "bp_forw_bat_list (fold (orig_purge_step k cmp) ns t) = bp_forw_bat_list t" for ns t
    by (intro fold_invariant_acc [of "\<lambda>x. bp_forw_bat_list x = bp_forw_bat_list t"]) simp_all
  then show ?thesis
    by (simp add: batadv_purge_orig_def foreign_def call_def)
qed

text \<open>What the walks over the originators keep.\<close>

lemma own_kept_refl: "iv_counts s \<Longrightarrow> orig_table k {} s \<Longrightarrow> own_kept k s s"
  unfolding own_kept_def by (intro conjI exI [of _ "bp_allocs s"] exI [of _ "bp_origs s"]) simp_all

lemma ready_fields:
  "iv_ready (s\<lparr>bp_allocs := l, bp_origs := f\<rparr>) = iv_ready s"
  "ogm_queue N (s\<lparr>bp_allocs := l, bp_origs := f\<rparr>) = ogm_queue N s"
  "tvlv_table (s\<lparr>bp_allocs := l, bp_origs := f\<rparr>) = tvlv_table s"
  by (simp_all add: iv_ready_def member_def ogm_queue_def queue_holds_def foreign_def tvlv_table_def)

text \<open>A state that differs in its interfaces only.\<close>

definition ifaces_only :: "batadv_priv \<Rightarrow> batadv_priv \<Rightarrow> bool" where
  "ifaces_only s s' \<longleftrightarrow> (\<exists>l r h n. s' = s\<lparr>bp_allocs := l, bp_rands := r, bp_hardifs := h, bp_num_ifaces := n\<rparr>)"

lemma ifaces_only_inv:
  assumes "ifaces_only s s'"
  shows "iv_counts s' = iv_counts s" "orig_table k T s' = orig_table k T s" "ogm_queue N s' = ogm_queue N s"
    "tvlv_table s' = tvlv_table s" "bp_table s' = bp_table s" "bp_primary_if s' = bp_primary_if s"
    "bp_soft_iface s' = bp_soft_iface s" "bp_tvlv_containers s' = bp_tvlv_containers s"
    "bp_forw_bat_list s' = bp_forw_bat_list s"
proof -
  obtain l r h n where e: "s' = s\<lparr>bp_allocs := l, bp_rands := r, bp_hardifs := h, bp_num_ifaces := n\<rparr>"
    using assms by (auto simp: ifaces_only_def)
  show "iv_counts s' = iv_counts s" "orig_table k T s' = orig_table k T s" "ogm_queue N s' = ogm_queue N s"
    "tvlv_table s' = tvlv_table s" "bp_table s' = bp_table s" "bp_primary_if s' = bp_primary_if s"
    "bp_soft_iface s' = bp_soft_iface s" "bp_tvlv_containers s' = bp_tvlv_containers s"
    "bp_forw_bat_list s' = bp_forw_bat_list s"
    by (simp_all add: e iv_counts_def orig_table_def bp_table_def ogm_queue_def queue_holds_def foreign_def
      tvlv_table_def)
qed

lemma inv_joins:
  assumes m: "\<not> member s i" "24 \<le> length mem" and junk: "\<And>n. snd (junk n) = of_nat (bitmap_weight (fst (junk n)))"
    and j: "iv_joins mem junk i s = (0, s')" and i: "iv_inv k N s"
  shows "iv_inv k N s'"
proof -
  let ?s0 = "hardif_mod i (\<lambda>h. h\<lparr>hi_soft_iface := Some (bp_soft_iface s)\<rparr>) s"
  obtain ret s1 where s1: "batadv_iv_ogm_iface_enable mem i ?s0 = (ret, s1)" by fastforce
  define s2 where "s2 = hardif_mod i (\<lambda>h. h\<lparr>hi_if_status := BATADV_IF_INACTIVE\<rparr>)
    ((hardif_mod i (\<lambda>h. h\<lparr>hi_if_num := int (bp_num_ifaces s1)\<rparr>) s1)\<lparr>bp_num_ifaces := bp_num_ifaces s1 + 1\<rparr>)"
  have r: "ret = 0 \<or> ret = - 12"
    using s1 by (auto simp: batadv_iv_ogm_iface_enable_def Let_def split: prod.splits if_splits)
  then have ret: "ret = 0"
    using j unfolding iv_joins_def Let_def s1 by auto
  have w: "batadv_orig_hash_add_if (batadv_iv_ogm_orig_add_if junk) (int (bp_num_ifaces s2)) s2 = (0, s')"
    using j unfolding iv_joins_def Let_def s1 ret by (simp add: s2_def hardif_mod_def)
  have only: "ifaces_only s s2"
    unfolding ifaces_only_def
    by (intro exI [of _ "bp_allocs s2"] exI [of _ "bp_rands s2"] exI [of _ "bp_hardifs s2"] exI [of _ "bp_num_ifaces s2"])
      (use s1 in \<open>auto simp: s2_def batadv_iv_ogm_iface_enable_def kzalloc_eq prandom_eq Let_def
        hardif_mod_def ogm_buff_mod_def split: if_splits\<close>)
  note o = ifaces_only_inv [OF only]
  have buf: "length (hi_ogm_buff (hardif_of s2 i)) = 24" "\<And>q. q \<noteq> i \<Longrightarrow> hardif_of s2 q = hardif_of s q"
    using s1 ret m(2) by (auto simp: s2_def batadv_iv_ogm_iface_enable_def kzalloc_eq prandom_eq Let_def store_simps
        ogm_buff_mod_def split: if_splits)
  have mem: "q \<noteq> i \<Longrightarrow> member s2 q = member s q" for q
    using o(7) buf(2) [of q] by (simp add: member_def)
  have "iv_ready s2"
    unfolding iv_ready_def o(6,8,9)
  proof (intro conjI ballI allI impI)
    fix q assume q: "member s2 q"
    show "24 \<le> length (hi_ogm_buff (hardif_of s2 q))"
      using i q buf mem [of q] by (cases "q = i") (auto simp: iv_inv_def iv_ready_def)
    show "length (hi_ogm_buff (hardif_of s2 q)) = 24" if "bp_primary_if s \<noteq> Some q"
      using i q buf mem [of q] that by (cases "q = i") (auto simp: iv_inv_def iv_ready_def)
  next
    fix fw assume fw: "fw \<in> set (bp_forw_bat_list s)" "fw_own fw"
    then have "member s (fw_if_incoming fw)"
      using i by (auto simp: iv_inv_def iv_ready_def)
    then show "member s2 (fw_if_incoming fw)"
      using mem m(1) by (cases "fw_if_incoming fw = i") auto
  qed (use i in \<open>auto simp: iv_inv_def iv_ready_def\<close>)
  then have i2: "iv_inv k N s2"
    using i o by (simp add: iv_inv_def)
  have walk: "orig_hash_walk (\<lambda>o'. batadv_iv_ogm_orig_add_if junk o' (int (bp_num_ifaces s2))) (bp_table s2) s2 = (True, s')"
    using w by (auto simp: batadv_orig_hash_add_if_def Let_def split: prod.splits if_splits)
  have "own_kept k s2 s'"
    by (rule walk_preserved [OF walk]) (use i2 in \<open>auto simp: iv_inv_def intro: own_kept_refl own_kept_add [OF _ _ junk]\<close>)
  then show ?thesis
    using i2 by (auto simp: own_kept_def iv_inv_def ready_fields)
qed

section \<open>Leaving\<close>

text \<open>While interface \<open>i\<close> leaves, its own OGM is gone already and its packets still wait.\<close>

definition iv_ready_but :: "nat \<Rightarrow> batadv_priv \<Rightarrow> bool" where
  "iv_ready_but i s \<longleftrightarrow>
     (\<forall>q. member s q \<and> q \<noteq> i \<longrightarrow> 24 \<le> length (hi_ogm_buff (hardif_of s q)) \<and>
        (bp_primary_if s \<noteq> Some q \<longrightarrow> length (hi_ogm_buff (hardif_of s q)) = 24)) \<and>
     (\<forall>c \<in> set (bp_tvlv_containers s). tvlv_ok c) \<and>
     length (tvlv_payload (bp_tvlv_containers s)) < 65512 \<and>
     (\<forall>fw \<in> set (bp_forw_bat_list s). fw_own fw \<longrightarrow> member s (fw_if_incoming fw))"

lemma ready_but_cong:
  "(\<And>q. hi_soft_iface (hardif_of s' q) = hi_soft_iface (hardif_of s q)) \<Longrightarrow>
   (\<And>q. hi_ogm_buff (hardif_of s' q) = hi_ogm_buff (hardif_of s q)) \<Longrightarrow>
   bp_soft_iface s' = bp_soft_iface s \<Longrightarrow> bp_primary_if s' = bp_primary_if s \<Longrightarrow>
   bp_tvlv_containers s' = bp_tvlv_containers s \<Longrightarrow>
   (\<And>fw. fw \<in> set (bp_forw_bat_list s') \<Longrightarrow> fw_own fw \<Longrightarrow> member s (fw_if_incoming fw) \<or> fw \<in> set (bp_forw_bat_list s)) \<Longrightarrow>
   iv_ready_but i s \<Longrightarrow> iv_ready_but i s'"
  unfolding iv_ready_but_def member_def by metis

interpretation ready_but: iv_purge_preserved k "iv_ready_but i" for k i
proof (unfold_locales, goal_cases)
  case (4 hf s j)
  have "\<exists>l. hf (hardif_of s j) = (hardif_of s j)\<lparr>hi_neigh_list := l\<rparr>"
    using 4(1) by (simp add: hardif_keeps_def)
  then show ?case
    using 4(2) by (intro ready_but_cong [of "hardif_mod j hf s" s]) (auto simp: hardif_mod_def)
next
  case (12 a s q s')
  then show ?case
    using orig_get_ready [OF 12(1)] by (intro ready_but_cong [of s' s]) auto
next
  case (13 w s j oi' t)
  then show ?case
    using queue_add_own [of s False]
    by (intro ready_but_cong [OF _ _ queue_add_ready(2-4) _ 13(3)]) (auto simp: queue_add_ready(1) iv_ready_but_def)
qed (rule ready_but_cong; simp add: call_def neigh_mod_def neigh_ifinfo_mod_def orig_mod_def)+

lemma inv_leaves:
  assumes a: "False \<notin> set (bp_allocs s)" and p: "bp_primary_if s = Some i \<or> p = bp_primary_if s"
    and s': "s' = iv_leaves k cmp p i s" and i: "iv_inv k N s"
  shows "foreign s - foreign s' \<le> N \<and> iv_inv k (N - (foreign s - foreign s')) s'"
proof -
  let ?s0 = "s\<lparr>bp_num_ifaces := bp_num_ifaces s - 1\<rparr>"
  let ?m = "int (bp_num_ifaces ?s0)" and ?n = "hi_if_num (hardif_of s i)"
  have i0: "iv_counts ?s0" "orig_table k {} ?s0" "bp_table ?s0 = bp_table s"
    using i by (simp_all add: iv_inv_def iv_counts_def orig_table_def bp_table_def)
  obtain ok t where t: "orig_hash_walk (\<lambda>o'. batadv_iv_ogm_orig_del_if o' ?m ?n) (bp_table ?s0) ?s0 = (ok, t)"
    by fastforce
  have ok: "ok"
    using walk_memory [OF t] a by simp
  have walk: "orig_hash_walk (\<lambda>o'. batadv_iv_ogm_orig_del_if o' ?m ?n) (bp_table ?s0) ?s0 = (True, t)"
    using t ok by simp
  have "own_kept k ?s0 t"
    by (rule walk_preserved [OF walk]) (use i0 in \<open>auto intro: own_kept_refl own_kept_del\<close>)
  then obtain l f where t': "t = ?s0\<lparr>bp_allocs := l, bp_origs := f\<rparr>" and own: "iv_counts t" "orig_table k {} t"
    by (auto simp: own_kept_def)
  define u where "u = snd (batadv_orig_hash_del_if batadv_iv_ogm_orig_del_if i ?m ?s0)"
  obtain h where u: "u = t\<lparr>bp_hardifs := h\<rparr>" "\<And>q. hi_soft_iface (h q) = hi_soft_iface (hardif_of s q) \<and>
      hi_ogm_buff (h q) = hi_ogm_buff (hardif_of s q)"
    using renumbered [of i "bp_hardif_list t" t] t ok t' by (auto simp: u_def batadv_orig_hash_del_if_def Let_def)
  define v where "v = hardif_mod i (\<lambda>h. h\<lparr>hi_if_status := BATADV_IF_NOT_IN_USE\<rparr>)
    (batadv_iv_ogm_iface_disable i (u\<lparr>bp_primary_if := p\<rparr>))"
  define w where "w = batadv_purge_orig k cmp v"
  have v: "iv_counts v" "orig_table k {} v" "ogm_queue N v" "tvlv_is (bp_tvlv_containers s) v" "iv_ready_but i v"
    "foreign v = foreign s"
  proof -
    show "iv_counts v" "orig_table k {} v"
      using own by (simp_all add: v_def u batadv_iv_ogm_iface_disable_def iv_counts_def orig_table_def bp_table_def
          hardif_mod_def)
    show "ogm_queue N v" "tvlv_is (bp_tvlv_containers s) v" "foreign v = foreign s"
      using i by (simp_all add: v_def u t' batadv_iv_ogm_iface_disable_def iv_inv_def ogm_queue_def queue_holds_def
          foreign_def tvlv_is_def hardif_mod_def)
    have m: "member v q = member s q" for q
      using u(2) [of q] by (cases "q = i") (simp_all add: v_def u(1) t' batadv_iv_ogm_iface_disable_def member_def hardif_mod_def)
    have b: "hi_ogm_buff (hardif_of v q) = hi_ogm_buff (hardif_of s q)" if "q \<noteq> i" for q
      using u(2) [of q] that by (simp add: v_def u(1) t' batadv_iv_ogm_iface_disable_def hardif_mod_def)
    have f: "bp_primary_if v = p" "bp_tvlv_containers v = bp_tvlv_containers s" "bp_forw_bat_list v = bp_forw_bat_list s"
      by (simp_all add: v_def u t' batadv_iv_ogm_iface_disable_def hardif_mod_def)
    show "iv_ready_but i v"
      using i p b by (auto simp: iv_ready_but_def m f iv_inv_def iv_ready_def)
  qed
  have w: "iv_counts w" "orig_table k {} w" "ogm_queue N w" "tvlv_is (bp_tvlv_containers s) w" "iv_ready_but i w"
    unfolding w_def
    by (rule counts.purge_orig orig_tab_all.purge_orig queue.purge_orig tvlv_kept.purge_orig ready_but.purge_orig, rule v)+
  let ?x = "batadv_purge_outstanding_packets (Some i) w"
  have s'x: "s' = hardif_mod i (\<lambda>h. h\<lparr>hi_soft_iface := None\<rparr>) ?x"
    unfolding s' iv_leaves_def Let_def w_def v_def u_def by simp
  have fw: "foreign w = foreign s"
    using v(6) purge_foreign [of k cmp v] by (simp add: w_def)
  have fs': "foreign s' = foreign ?x"
    by (simp add: s'x foreign_def hardif_mod_def)
  note q = queue_discard [OF w(3) refl, of "Some i"]
  have "iv_counts s' = iv_counts w"
    by (rule counts_cong) (simp_all add: s'x batadv_purge_outstanding_packets_def hardif_mod_def)
  moreover have "orig_table k {} s'"
    by (rule orig_table_cong [OF _ _ _ w(2)]) (simp_all add: s'x batadv_purge_outstanding_packets_def hardif_mod_def)
  moreover have "ogm_queue (N - (foreign s - foreign s')) s'"
    unfolding fs' fw [symmetric]
    by (rule ogm_queue_cong [OF _ _ _ _ q(2)]) (simp_all add: s'x hardif_mod_def)
  moreover have "iv_ready s'"
    using w(5) by (auto simp: iv_ready_def iv_ready_but_def s'x batadv_purge_outstanding_packets_def hardif_mod_def member_def)
  moreover have "tvlv_table s'"
    using w(4) i by (simp add: tvlv_is_def tvlv_table_def iv_inv_def s'x batadv_purge_outstanding_packets_def hardif_mod_def)
  ultimately show ?thesis
    using w(1) q(1) unfolding fs' fw [symmetric] by (simp add: iv_inv_def)
qed

section \<open>Every step\<close>

lemma inv_primary:
  assumes "\<And>i. bp_primary_if s = Some i \<Longrightarrow> \<not> member s i" "iv_inv k N s"
  shows "iv_inv k N (s\<lparr>bp_primary_if := p\<rparr>)"
proof -
  let ?s = "s\<lparr>bp_primary_if := p\<rparr>"
  have "iv_counts ?s = iv_counts s"
    by (rule counts_cong) simp_all
  moreover have "orig_table k {} ?s = orig_table k {} s" "ogm_queue N ?s = ogm_queue N s" "tvlv_table ?s = tvlv_table s"
    by (simp_all add: orig_table_def bp_table_def ogm_queue_def queue_holds_def foreign_def tvlv_table_def)
  moreover have "iv_ready ?s"
    using assms by (fastforce simp: iv_inv_def iv_ready_def member_def)
  ultimately show ?thesis using assms(2) by (simp add: iv_inv_def)
qed

lemma inv_aggregation:
  assumes "b \<Longrightarrow> \<forall>fw \<in> set (bp_forw_bat_list s). fw_room_ok fw" "iv_inv k N s"
  shows "iv_inv k N (s\<lparr>bp_aggregated_ogms := b\<rparr>)"
proof -
  let ?s = "s\<lparr>bp_aggregated_ogms := b\<rparr>"
  have "iv_counts ?s = iv_counts s"
    by (rule counts_cong) simp_all
  moreover have "orig_table k {} ?s = orig_table k {} s" "iv_ready ?s = iv_ready s" "tvlv_table ?s = tvlv_table s"
    by (simp_all add: orig_table_def bp_table_def iv_ready_def member_def tvlv_table_def)
  moreover have "ogm_queue N ?s"
    using assms by (auto simp: iv_inv_def ogm_queue_def queue_holds_def foreign_def)
  ultimately show ?thesis using assms(2) by (simp add: iv_inv_def)
qed

lemma iv_step_inv:
  assumes "iv_step k d s s'" "iv_inv k N s"
  shows "d \<le> N \<and> iv_inv k (N - d) s'"
  using assms(1)
proof (cases rule: iv_step.cases)
  case (receive k' oob f i r)
  then show ?thesis
    using inv_receive iv_inv_same_hash assms(2) by (metis diff_zero zero_le)
next
  case (outstanding k' j oob)
  then show ?thesis
    using inv_outstanding iv_inv_same_hash assms(2) by (metis diff_zero zero_le)
next
  case (start k' i)
  then show ?thesis
    using inv_schedule iv_inv_same_hash assms(2) by (metis diff_zero zero_le)
next
  case (purge k' cmp)
  then show ?thesis
    using inv_purge iv_inv_same_hash assms(2) by (metis diff_zero zero_le)
next
  case (tvlv_register val len t v)
  have "tvlv_table s" using assms(2) by (simp add: iv_inv_def)
  then have t: "tvlv_table s'"
    unfolding tvlv_register(3) by (rule tvlv_containers_table) (use tvlv_register(2) in simp)
  obtain l cs where s': "s' = s\<lparr>bp_allocs := l, bp_tvlv_containers := cs\<rparr>"
    using register_containers tvlv_register(3) by blast
  show ?thesis
    using inv_containers [OF assms(2), of cs l] t tvlv_register(1,4) unfolding s'
    by (simp add: tvlv_table_def)
next
  case (tvlv_unregister t v)
  have "tvlv_table s" using assms(2) by (simp add: iv_inv_def)
  then have t: "tvlv_table s'"
    unfolding tvlv_unregister(2) by (rule unregister_map)
  obtain cs where s': "s' = s\<lparr>bp_tvlv_containers := cs\<rparr>"
    using unregister_containers tvlv_unregister(2) by blast
  show ?thesis
    using inv_containers [OF assms(2), of cs "bp_allocs s"] t tvlv_unregister(1,3) unfolding s' by simp
next
  case (joins i mem junk)
  then show ?thesis
    using inv_joins [OF joins(2-5) assms(2)] by simp
next
  case (leaves k' i p cmp)
  then show ?thesis
    using inv_leaves [OF leaves(3-5)] iv_inv_same_hash [OF leaves(2)] assms(2) by simp
next
  case (discard i)
  then show ?thesis
    using inv_discard [OF assms(2) discard(2)] by simp
next
  case (primary p)
  show ?thesis
    unfolding primary(1,2) using inv_primary [OF primary(3) assms(2)] by simp
next
  case (aggregation b)
  show ?thesis
    unfolding aggregation(1,2) using inv_aggregation [OF aggregation(3) assms(2)] by simp
next
  case other
  then show ?thesis
    using inv_frame [OF other(2) assms(2)] by simp
qed

lemma iv_initial_inv:
  assumes "iv_initial N s"
  shows "iv_inv k N s"
proof -
  obtain h where h: "bp_orig_hash s = Some h" "hash_elems h = []"
    using assms by (auto simp: iv_initial_def batadv_hash_new_def hash_elems_def batadv_hash_init_def)
  then have "hash_wf fst (batadv_choose_orig k) h"
    using assms by (intro orig_ht.wf_new [of 1024]) (simp_all add: iv_initial_def)
  then have "orig_table k {} s"
    using h by (simp add: orig_table_def bp_table_def)
  moreover have "ogm_queue N s"
    using assms by (simp add: iv_initial_def ogm_queue_def queue_holds_def foreign_def)
  ultimately show ?thesis
    using assms by (simp add: iv_inv_def iv_initial_def iv_counts_def own_ok_def tvlv_table_def)
qed

lemma iv_reachable_inv:
  assumes "iv_reachable k N d s"
  shows "d \<le> N \<and> iv_inv k (N - d) s"
  using assms
proof induction
  case (initial s)
  then show ?case by (simp add: iv_initial_inv)
next
  case (step d s e s')
  then show ?case
    using iv_step_inv [OF step(2)] by fastforce
qed

end
