(* ===== verification/Iv_Properties.thy ===== *)
theory Iv_Properties
  imports Iv_System
begin

text \<open>
  Properties of B.A.T.M.A.N. IV: the metric of a link and along a path, and what holds in
  every reachable state of the transition system of \<open>Iv_System\<close>.
\<close>

section \<open>The metric\<close>

lemma ring_push_run:
  "(ni_tq_recv (fold ring_push vs i), ni_tq_index (fold ring_push vs i))
   = fold ring_write vs (ni_tq_recv i, ni_tq_index i)"
  by (induction vs arbitrary: i) (auto simp: ring_push_def ring_write_def split_def Let_def)

lemma ring_push_avg:
  "ni_tq_avg i = batadv_ring_buffer_avg (ni_tq_recv i) \<Longrightarrow>
   ni_tq_avg (fold ring_push vs i) = batadv_ring_buffer_avg (ni_tq_recv (fold ring_push vs i))"
  by (induction vs arbitrary: i) (auto simp: ring_push_def split_def Let_def)

text \<open>The quality of a link is a moving average: after any sequence of measured values it is the mean,
  rounded down, of those among the last five that are not zero, and zero if there is none.\<close>

theorem link_average:
  "unat (ni_tq_avg (fold ring_push vs (neigh_ifinfo_init oi))) = nonzero_avg (take 5 (rev vs))"
proof -
  let ?i = "neigh_ifinfo_init oi" and ?j = "fold ring_push vs (neigh_ifinfo_init oi)"
  have h: "ring_holds (ni_tq_recv ?j, ni_tq_index ?j) (take 5 (rev vs @ replicate 5 0))"
    using ring_holds_run [OF ring_holds_init, of vs] ring_push_run [of vs ?i]
    by (simp add: neigh_ifinfo_init_def)
  have "ni_tq_avg ?i = batadv_ring_buffer_avg (ni_tq_recv ?i)"
    using ni_ok_init [of oi] by (simp only: ni_ok_def)
  then have "unat (ni_tq_avg ?j) = nonzero_avg (ni_tq_recv ?j)"
    using h ring_push_avg [of ?i vs] ring_avg_nonzero [of "ni_tq_recv ?j"] by (simp add: ring_holds_def)
  also have "\<dots> = nonzero_avg (take 5 (rev vs @ replicate 5 0))"
    using ring_holds_mset [OF h] by (intro nonzero_avg_mset) simp
  also have "\<dots> = nonzero_avg (take 5 (rev vs))"
    by (simp only: take_append take_replicate nonzero_avg_zeros)
  finally show ?thesis .
qed

text \<open>C26: The quality of a received OGM is computed exactly, although the product needs all 32 bits: with e of
  our own OGMs heard back and r OGMs heard of the neighbour, it is the announced quality times the share of
  ours, times a cubic penalty for lost OGMs, times the penalty of the interface, each out of 255, rounded
  down; it is never above the announced one.\<close>

theorem link_quality_exact:
  assumes "unat r \<le> 64" "0 < e" "0 < r" "unat pf \<le> 255"
  shows "unat (iv_combined_tq tq (iv_tq_own e r) (iv_asym_penalty r) pf)
      = unat tq * (255 * min (unat e) (unat r) div unat r) * (255 - 255 * (64 - unat r) ^ 3 div 64 ^ 3) * unat pf
        div 255 ^ 3
    \<and> iv_combined_tq tq (iv_tq_own e r) (iv_asym_penalty r) pf \<le> tq"
proof -
  have "unat (iv_asym_penalty r) \<le> 255"
    using asym_penalty_value [OF assms(1)] by simp
  then show ?thesis
    using combined_tq_value [OF _ assms(4), of "iv_asym_penalty r" tq "iv_tq_own e r"]
      asym_penalty_value [OF assms(1)] tq_own_value [OF assms(2,3)] by simp
qed

theorem link_quality_exact_witness:
  "unat (iv_combined_tq 255 (iv_tq_own 64 64) (iv_asym_penalty 64) 255) = 255"
  using link_quality_exact [of 64 64 255 255] by simp

text \<open>An OGM on its way: at every hop the node's penalty, the sender and two flags.\<close>

fun forward_path :: "(s32 \<times> mac \<times> bool \<times> bool) list \<Rightarrow> batadv_ogm_packet \<Rightarrow> batadv_ogm_packet option" where
  "forward_path [] p = Some p"
| "forward_path ((hp, src, single, best) # hops) p =
     (case iv_forward_header hp src single best p of
        None \<Rightarrow> None
      | Some p' \<Rightarrow> forward_path hops p')"

lemma forward_header_value:
  assumes "iv_forward_header hp src sh best p = Some p'"
  shows "unat (og_ttl p') + 1 = unat (og_ttl p)" "1 \<le> unat (og_ttl p')"
    "og_tq p' = batadv_hop_penalty (og_tq p) hp" "og_orig p' = og_orig p" "og_seqno p' = og_seqno p"
    "og_tvlv_len p' = og_tvlv_len p" "og_prev_sender p' = src"
proof -
  have t: "\<not> og_ttl p \<le> 1"
    using assms by (simp add: iv_forward_header_def split: if_splits)
  then have "1 < unat (og_ttl p)"
    by (simp add: word_le_nat_alt)
  moreover have "og_ttl p' = og_ttl p - 1"
    using assms by (auto simp: iv_forward_header_def Let_def split: if_splits)
  ultimately show "unat (og_ttl p') + 1 = unat (og_ttl p)" "1 \<le> unat (og_ttl p')"
    by (simp_all add: unat_sub word_le_nat_alt)
  show "og_tq p' = batadv_hop_penalty (og_tq p) hp" "og_orig p' = og_orig p" "og_seqno p' = og_seqno p"
    "og_tvlv_len p' = og_tvlv_len p" "og_prev_sender p' = src"
    using assms by (auto simp: iv_forward_header_def Let_def split: if_splits)
qed

text \<open>C27: Flooding ends and qualities decay: an OGM is forwarded fewer times than its TTL, whatever nodes it
  meets; on the way its originator, number and length stay, and its quality drops at every hop by at least
  the penalty of that node.\<close>

theorem flooding_bounded:
  assumes "forward_path hops p = Some p'" "hops \<noteq> []"
    and "\<forall>(hp, src, single, best) \<in> set hops. int h \<le> sint hp \<and> sint hp \<le> 255"
  shows "unat (og_ttl p') + length hops = unat (og_ttl p) \<and> 1 \<le> unat (og_ttl p')
    \<and> og_orig p' = og_orig p \<and> og_seqno p' = og_seqno p \<and> og_tvlv_len p' = og_tvlv_len p
    \<and> unat (og_tq p') * 255 ^ length hops \<le> unat (og_tq p) * (255 - h) ^ length hops"
  using assms
proof (induction hops arbitrary: p)
  case Nil
  then show ?case by simp
next
  case (Cons hop hops)
  obtain hp src sh best where hop: "hop = (hp, src, sh, best)" by (cases hop) auto
  obtain q where q: "iv_forward_header hp src sh best p = Some q" "forward_path hops q = Some p'"
    using Cons.prems(1) hop by (auto split: option.splits)
  note f = forward_header_value [OF q(1)]
  have hp: "int h \<le> sint hp" "sint hp \<le> 255"
    using Cons.prems(3) hop by auto
  then have "0 \<le> sint hp" by simp
  have "unat (og_tq q) * 255 \<le> unat (og_tq p) * (255 - nat (sint hp))"
    using hop_penalty_value [OF \<open>0 \<le> sint hp\<close> hp(2), of "og_tq p"] f(3) by simp
  also have "\<dots> \<le> unat (og_tq p) * (255 - h)"
    using hp(1) by (intro mult_le_mono2 diff_le_mono2) simp
  finally have t: "unat (og_tq q) * 255 \<le> unat (og_tq p) * (255 - h)" .
  show ?case
  proof (cases "hops = []")
    case True
    then show ?thesis
      using q f t by simp
  next
    case False
    have i: "unat (og_ttl p') + length hops = unat (og_ttl q)" "1 \<le> unat (og_ttl p')" "og_orig p' = og_orig q"
      "og_seqno p' = og_seqno q" "og_tvlv_len p' = og_tvlv_len q"
      "unat (og_tq p') * 255 ^ length hops \<le> unat (og_tq q) * (255 - h) ^ length hops"
      using Cons.IH [OF q(2) False] Cons.prems(3) by auto
    have "unat (og_tq p') * 255 ^ length (hop # hops) = 255 * (unat (og_tq p') * 255 ^ length hops)"
      by simp
    also have "\<dots> \<le> 255 * (unat (og_tq q) * (255 - h) ^ length hops)"
      using i(6) by (rule mult_le_mono2)
    also have "\<dots> = (unat (og_tq q) * 255) * (255 - h) ^ length hops"
      by simp
    also have "\<dots> \<le> (unat (og_tq p) * (255 - h)) * (255 - h) ^ length hops"
      using t by (rule mult_le_mono1)
    also have "\<dots> = unat (og_tq p) * (255 - h) ^ length (hop # hops)"
      by simp
    finally show ?thesis
      using i f by simp
  qed
qed

definition ogm_example :: "u8 \<Rightarrow> batadv_ogm_packet" where
  "ogm_example ttl = \<lparr>og_packet_type = 0, og_version = 15, og_ttl = ttl, og_flags = 0, og_seqno = 7, og_orig = 1,
     og_prev_sender = 1, og_reserved = 0, og_tq = 255, og_tvlv_len = 0\<rparr>"

theorem flooding_bounded_witness:
  "\<exists>p'. forward_path [(30, 1, True, True), (30, 2, False, True)] (ogm_example 50) = Some p' \<and>
     unat (og_ttl p') = 48 \<and> unat (og_tq p') \<le> 198"
proof -
  let ?hops = "[(30, 1, True, True), (30, 2, False, True)] :: (s32 \<times> mac \<times> bool \<times> bool) list"
  have "forward_path ?hops (ogm_example 50) \<noteq> None"
    by (simp add: ogm_example_def iv_forward_header_def Let_def word_le_nat_alt)
  then obtain p' where p: "forward_path ?hops (ogm_example 50) = Some p'" by blast
  show ?thesis
    using flooding_bounded [OF p, of 30] p by (simp add: ogm_example_def)
qed

section \<open>Reachable states\<close>

text \<open>A node with one interface that is up, and nothing done yet.\<close>

definition iv_example :: batadv_priv where
  "iv_example = (tvlv_example [] [])\<lparr>bp_orig_hash := batadv_hash_new True 1024,
     bp_hardifs := (\<lambda>_. \<lparr>hi_if_num = 0, hi_if_status = BATADV_IF_ACTIVE, hi_dev_addr = 0x42, hi_num_bcasts = 1,
        hi_wifi = False, hi_soft_iface = Some 0, hi_alive = True, hi_ogm_buff = replicate 24 0, hi_ogm_seqno = 0,
        hi_neigh_list = [], hi_up = True, hi_mtu = 1532, hi_elp_interval = 500, hi_elp_seqno = 0,
        hi_elp_skb = None, hi_throughput_override = 0, hi_v_flags = 0\<rparr>), bp_hardif_list := [0]\<rparr>"

definition kenv_example :: kenv where
  "kenv_example = \<lparr>k_jiffies = 1000, k_m2j = (\<lambda>m. ucast m), k_jhash = (\<lambda>b i. 0), k_crc16 = (\<lambda>b. 0),
     k_crc32c = (\<lambda>c b. c + foldl (\<lambda>a x. a * 7 + ucast x) 3 b),
     k_arp_create = (\<lambda>_ _ _ _ _. [])\<rparr>"

lemma iv_example_initial: "iv_initial 256 iv_example"
  by (simp add: iv_initial_def iv_example_def tvlv_example_def iv_ready_def member_def tvlv_payload_def)

definition iv_example_sent :: batadv_priv where
  "iv_example_sent = batadv_schedule_bat_ogm kenv_example 0 iv_example"

lemma iv_example_sent_reachable: "iv_reachable kenv_example 256 0 iv_example_sent"
proof -
  have "member iv_example 0" "append_ok 0 iv_example"
    by (simp_all add: iv_example_def tvlv_example_def member_def append_ok_def)
  then have "iv_step kenv_example 0 iv_example iv_example_sent"
    unfolding iv_example_sent_def by (intro iv_step.start) (simp_all add: same_hash_def)
  then show ?thesis
    using iv_reachable.step [OF iv_reachable.initial [OF iv_example_initial]] by fastforce
qed

lemma iv_example_table: "bp_table iv_example = []"
proof -
  have "hash_elems (the (batadv_hash_new True 1024) :: (mac \<times> nat) hashtable) = []"
    by (simp add: batadv_hash_new_def hash_elems_def batadv_hash_init_def)
  then show ?thesis
    by (simp add: bp_table_def iv_example_def batadv_hash_new_def)
qed

lemma iv_example_sent_state:
  "\<exists>fw. bp_forw_bat_list iv_example_sent = [fw] \<and> length (fw_skb fw) = 24"
  "bp_orig_hash iv_example_sent = batadv_hash_new True 1024" "bp_allocs iv_example_sent = []"
  using iv_example_table
  by (simp_all add: iv_example_sent_def iv_example_def tvlv_example_def batadv_schedule_bat_ogm_def
      batadv_iv_ogm_schedule_def schedule_append_def batadv_iv_ogm_slide_own_bcast_window_def
      batadv_iv_ogm_emit_send_time_def prandom_u32_def batadv_iv_ogm_queue_add_def ogm_buff_mod_def
      hardif_mod_def batadv_iv_ogm_aggregate_new_def kzalloc_def Let_def bp_table_def)

text \<open>C28: In every state that a node running B.A.T.M.A.N. IV reaches by receiving, sending and purging, with
  interfaces that join and leave, aggregation switched and the other components at work, the derived counters
  agree with what they count: a link has five measured values, its quality is the mean of the ones that are
  not zero, its packet count is the number of OGMs in its sequence window, and for every originator the number
  of own OGMs it sent back on an interface is the number of marks in the window of that interface. The steps
  ask for what the code does not ensure: memory for an own OGM with its containers and for the counters when
  an interface joins or leaves, new counters that agree with themselves although nothing initialises them,
  containers that fit, and room in the waiting packets when aggregation is switched on.\<close>

theorem iv_counters_agree:
  assumes "iv_reachable k N d s"
  shows "(\<forall>n. \<forall>i \<in> set (nn_ifinfo_list (neigh_of s n)).
       length (ni_tq_recv i) = 5 \<and> unat (ni_tq_avg i) = nonzero_avg (ni_tq_recv i) \<and>
       unat (ni_real_packet_count i) = bitmap_weight (ni_real_bits i))
    \<and> (\<forall>o' j. j < length (on_bcast_own_sum (orig_of s o')) \<longrightarrow>
       unat (on_bcast_own_sum (orig_of s o') ! j) = bitmap_weight (on_bcast_own (orig_of s o') ! j))"
proof -
  have c: "iv_counts s"
    using iv_reachable_inv [OF assms] by (simp add: iv_inv_def)
  have w: "unat (of_nat (bitmap_weight b) :: u8) = bitmap_weight b" for b
    using bitmap_weight_le [of b] by (simp add: unat_of_nat)
  show ?thesis
    using c w by (auto simp: iv_counts_def ni_ok_def own_ok_def ring_avg_nonzero)
qed

theorem iv_counters_agree_witness:
  "list_all (\<lambda>i. unat (ni_tq_avg i) = nonzero_avg (ni_tq_recv i)) (nn_ifinfo_list (neigh_of iv_example_sent 0))"
  using iv_counters_agree [OF iv_example_sent_reachable] by (auto simp: list_all_iff)

lemma counts_packet_count:
  assumes "iv_counts s" "batadv_neigh_ifinfo_get s n i = Some x"
  shows "unat (ni_real_packet_count x) \<le> 64"
proof -
  have "x \<in> set (nn_ifinfo_list (neigh_of s n))"
    using assms(2) by (auto simp: batadv_neigh_ifinfo_get_def find_Some_iff)
  then have "ni_real_packet_count x = of_nat (bitmap_weight (ni_real_bits x))"
    using assms(1) by (auto simp: iv_counts_def ni_ok_def)
  then show ?thesis
    using bitmap_weight_le [of "ni_real_bits x"] by (simp add: unat_of_nat)
qed

lemma calc_tq_cases:
  assumes "batadv_iv_ogm_calc_tq k orig neigh p i oi s = (b, p', s')"
  obtains (no_link) "p' = p" "\<not> b"
  | (link) own n ok pf where
      "p' = p\<lparr>og_tq := iv_combined_tq (og_tq p) own
         (iv_asym_penalty (if ok then (case batadv_neigh_ifinfo_get s' n oi of None \<Rightarrow> 0
            | Some x \<Rightarrow> ni_real_packet_count x) else 0)) (ucast (pf :: u8))\<rparr>"
      "b = (1 \<le> og_tq p')"
proof -
  let ?a = "on_orig (orig_of s neigh)"
  let ?r = "\<lambda>n ok s'. if ok then (case batadv_neigh_ifinfo_get s' n oi of None \<Rightarrow> 0
    | Some x \<Rightarrow> ni_real_packet_count x) else (0 :: u8)"
  obtain m s1 where m: "(case batadv_neigh_node_get s neigh i ?a of Some n \<Rightarrow> (Some n, s)
      | None \<Rightarrow> batadv_iv_ogm_neigh_new k i ?a neigh neigh s) = (m, s1)" by fastforce
  show thesis
  proof (cases m)
    case None
    then show thesis
      using assms m no_link unfolding batadv_iv_ogm_calc_tq_def Let_def by simp
  next
    case (Some n)
    obtain ok s2 where s2: "batadv_neigh_ifinfo_new n oi (orig_mod orig (\<lambda>o'. o'\<lparr>on_last_seen := k_jiffies k\<rparr>)
        (if orig = neigh then neigh_mod n (\<lambda>n. n\<lparr>nn_last_seen := k_jiffies k\<rparr>) s1 else s1)) = (ok, s2)" by fastforce
    have "\<exists>own pf. (1 \<le> iv_combined_tq (og_tq p) own (iv_asym_penalty (?r n ok s2)) (ucast (pf :: u8)),
        p\<lparr>og_tq := iv_combined_tq (og_tq p) own (iv_asym_penalty (?r n ok s2)) (ucast pf)\<rparr>, s2) = (b, p', s')"
      by (rule exI, rule exI)
        (rule assms [unfolded batadv_iv_ogm_calc_tq_def Let_def m Some option.case prod.case s2])
    then show thesis
      using link by auto
  qed
qed

text \<open>In every reachable state, whatever neighbours, interfaces and allocation failures it meets, the
  evaluation of an OGM never raises the quality it announces, and a link counts as bidirectional only if the
  quality stays above zero.\<close>

theorem calc_tq_bounded:
  assumes "iv_reachable k N d s" "batadv_iv_ogm_calc_tq k' orig neigh p i oi s = (b, p', s')"
  shows "og_tq p' \<le> og_tq p \<and> (b \<longrightarrow> 0 < og_tq p') \<and> iv_counts s'
    \<and> og_seqno p' = og_seqno p \<and> og_ttl p' = og_ttl p \<and> og_orig p' = og_orig p"
proof -
  have "iv_counts s"
    using iv_reachable_inv [OF assms(1)] by (simp add: iv_inv_def)
  then have c: "iv_counts s'"
    using counts.calc_tq(1) [OF assms(2)] by blast
  have q: "iv_combined_tq tq own (iv_asym_penalty r) (ucast (pf :: u8)) \<le> tq" if "unat r \<le> 64" for tq own r pf
    using combined_tq_value(2) [of "iv_asym_penalty r" "ucast pf"] asym_penalty_value [OF that] unat_u8_le [of pf]
    by (simp add: unat_ucast_mod)
  have r: "unat (if ok then (case batadv_neigh_ifinfo_get s' n oi of None \<Rightarrow> 0
      | Some x \<Rightarrow> ni_real_packet_count x) else 0) \<le> 64" for n ok
    using counts_packet_count [OF c] by (auto split: option.split)
  from assms(2) show ?thesis
  proof (cases rule: calc_tq_cases)
    case no_link
    then show ?thesis using c by simp
  next
    case (link own n ok pf)
    then show ?thesis
      using c q [OF r, of "og_tq p" own ok n pf] by (auto simp: word_gt_0)
  qed
qed

theorem calc_tq_bounded_witness:
  "og_tq (fst (snd (batadv_iv_ogm_calc_tq kenv_example 0 0 (ogm_example 50) 0 None iv_example_sent))) \<le> 255"
proof -
  obtain b p' s' where e: "batadv_iv_ogm_calc_tq kenv_example 0 0 (ogm_example 50) 0 None iv_example_sent = (b, p', s')"
    by (cases "batadv_iv_ogm_calc_tq kenv_example 0 0 (ogm_example 50) 0 None iv_example_sent") auto
  show ?thesis
    using calc_tq_bounded [OF iv_example_sent_reachable e] e by (simp add: ogm_example_def)
qed

text \<open>In every reachable state the table of originators is a finite map: the look-up finds exactly the
  entries, an address has at most one originator and an originator has the address it is filed under; a
  look-up that may create adds the address and nothing else, or leaves the table alone when memory runs
  out.\<close>

theorem originators_are_map:
  assumes "iv_reachable k N d s" "batadv_iv_ogm_orig_get k a s = (r, s')"
  shows "(\<forall>b n. batadv_orig_hash_find k s b = Some n \<longleftrightarrow> (b, n) \<in> set (bp_table s))
    \<and> (\<forall>(b, n) \<in> set (bp_table s). \<forall>(c, m) \<in> set (bp_table s). (b = c \<longleftrightarrow> n = m) \<and> on_orig (orig_of s n) = b)
    \<and> set (bp_table s') = (case r of None \<Rightarrow> set (bp_table s) | Some n \<Rightarrow> insert (a, n) (set (bp_table s)))
    \<and> (r \<noteq> None \<longrightarrow> batadv_orig_hash_find k s' a = r)"
proof -
  have t: "orig_table k {} s"
    using iv_reachable_inv [OF assms(1)] by (simp add: iv_inv_def)
  note g = orig_get_table [OF assms(2) t]
  have "set (bp_table s') = (case r of None \<Rightarrow> set (bp_table s) | Some n \<Rightarrow> insert (a, n) (set (bp_table s)))"
    using g(2,3) by (cases r) auto
  moreover have "r \<noteq> None \<longrightarrow> batadv_orig_hash_find k s' a = r"
    using g(2) orig_find_iff [OF g(1)] by auto
  moreover have "\<forall>(b, n) \<in> set (bp_table s). \<forall>(c, m) \<in> set (bp_table s). (b = c \<longleftrightarrow> n = m) \<and> on_orig (orig_of s n) = b"
    using orig_table_unique [OF t] t by (fastforce simp: orig_table_def)
  ultimately show ?thesis
    using orig_find_iff [OF t] by simp
qed

theorem originators_are_map_witness:
  "\<exists>n. (5, n) \<in> set (bp_table (snd (batadv_iv_ogm_orig_get kenv_example 5 iv_example_sent)))"
proof -
  obtain r s' where e: "batadv_iv_ogm_orig_get kenv_example 5 iv_example_sent = (r, s')" by fastforce
  have "r \<noteq> None"
    using e iv_example_sent_state(2,3)
    by (auto simp: batadv_iv_ogm_orig_get_def batadv_orig_hash_find_def hash_lookup_def batadv_hash_new_def
        batadv_hash_init_def batadv_choose_orig_def kenv_example_def batadv_orig_node_new_def kzalloc_def
        batadv_orig_node_vlan_new_def batadv_orig_node_vlan_get_def orig_init_own_def batadv_hash_add_def
        orig_mod_def Let_def)
  then show ?thesis
    using originators_are_map [OF iv_example_sent_reachable e] e by auto
qed

section \<open>The queue of OGMs\<close>

text \<open>C29: In every state that a node running B.A.T.M.A.N. IV reaches under the conditions of the step
  relation (memory for an own OGM with its containers and for the counters when an interface joins or leaves,
  containers that fit, aggregation switched on only when the waiting packets have room for it) the queue is
  accounted for: the free places, the waiting packets of others and the packets of others that were thrown
  away with their interface, whose places are never given back, add up to its size; no write of the algorithm
  left a buffer; and every waiting packet is a sequence of whole OGMs, at least one and if more than one not
  longer than a frame, that its counters describe.\<close>

theorem ogm_queue_accounts:
  assumes "iv_reachable k N d s"
  shows "bp_batman_queue_left s + length (filter (\<lambda>fw. \<not> fw_own fw) (bp_forw_bat_list s)) + d = N \<and> \<not> bp_panic s
    \<and> (\<forall>fw \<in> set (bp_forw_bat_list s). \<exists>ws. ws \<noteq> [] \<and> fw_skb fw = concat (map wire ws) \<and>
        unat (fw_packet_len fw) = length (fw_skb fw) \<and> unat (fw_num_packets fw) = length ws - 1 \<and>
        (1 < length ws \<longrightarrow> length (fw_skb fw) \<le> 512) \<and> (\<forall>w \<in> set ws. wire_ok w))"
proof -
  have q: "ogm_queue (N - d) s" "d \<le> N"
    using iv_reachable_inv [OF assms] by (simp_all add: iv_inv_def)
  then obtain wss where w: "list_all2 fw_holds (bp_forw_bat_list s) wss"
    by (auto simp: ogm_queue_def queue_holds_def)
  have "\<exists>ws. fw_holds fw ws" if "fw \<in> set (bp_forw_bat_list s)" for fw
    using w that by (auto simp: list_all2_conv_all_nth in_set_conv_nth)
  then show ?thesis
    using q by (fastforce simp: ogm_queue_def foreign_def fw_holds_def)
qed

theorem ogm_queue_accounts_witness:
  "\<exists>fw ws. fw \<in> set (bp_forw_bat_list iv_example_sent) \<and> ws \<noteq> [] \<and> fw_skb fw = concat (map wire ws)"
proof -
  obtain fw where "fw \<in> set (bp_forw_bat_list iv_example_sent)"
    using iv_example_sent_state(1) by auto
  then show ?thesis
    using ogm_queue_accounts [OF iv_example_sent_reachable] by blast
qed

text \<open>C30: OGMs survive aggregation and transport: when a waiting packet that fits into a frame is sent on an
  interface, a receiver unpacks exactly the OGMs that were put into it, in order, unchanged except for the
  direct link flag, which stays only on the OGMs that came in on that interface; padding of less than a
  header and the memory behind the frame make no difference.\<close>

theorem ogm_transport:
  assumes "iv_reachable k N d s" "fw \<in> set (bp_forw_bat_list s)" "length (fw_skb fw) \<le> 512" "length pad < 24"
  shows "\<exists>ws. ws \<noteq> [] \<and> fw_skb fw = concat (map wire ws) \<and>
    iv_parse oob' (iv_adjust_flags oob fw i 0 0 (fw_skb fw) @ pad) = map (msg_sent_on fw i) ws"
proof -
  have "ogm_queue (N - d) s"
    using iv_reachable_inv [OF assms(1)] by (simp add: iv_inv_def)
  then obtain ws where w: "fw_holds fw ws"
    using assms(2) by (auto simp: ogm_queue_def queue_holds_def list_all2_conv_all_nth in_set_conv_nth)
  then show ?thesis
    using transport [OF w assms(3,4)] by (intro exI [of _ ws]) (simp add: fw_holds_def)
qed

theorem ogm_transport_witness:
  "\<exists>fw \<in> set (bp_forw_bat_list iv_example_sent).
     iv_parse (\<lambda>_. 0) (iv_adjust_flags (\<lambda>_. 0) fw 0 0 0 (fw_skb fw) @ [0, 0]) \<noteq> []"
proof -
  obtain fw where fw: "fw \<in> set (bp_forw_bat_list iv_example_sent)" "length (fw_skb fw) = 24"
    using iv_example_sent_state(1) by auto
  have "iv_parse (\<lambda>_. 0) (iv_adjust_flags (\<lambda>_. 0) fw 0 0 0 (fw_skb fw) @ [0, 0]) \<noteq> []"
    using ogm_transport [OF iv_example_sent_reachable fw(1), of "[0, 0]" "\<lambda>_. 0" "\<lambda>_. 0" 0] fw(2) by auto
  then show ?thesis using fw(1) by blast
qed

lemma aggr_packet_oob:
  "batadv_iv_ogm_aggr_packet off (length buf) (tvlv_len_at oob buf off)
   \<Longrightarrow> tvlv_len_at oob buf off = tvlv_len_at oob' buf off"
  by (simp add: batadv_iv_ogm_aggr_packet_def tvlv_len_at_def byte_at_def Let_def)

lemma unpack_oob: "iv_unpack process oob buf off s = iv_unpack process oob' buf off s"
proof (induction process oob buf off s rule: iv_unpack.induct)
  case (1 process oob buf off s)
  show ?case
  proof (cases "batadv_iv_ogm_aggr_packet off (length buf) (tvlv_len_at oob buf off)")
    case True
    then show ?thesis
      using 1 aggr_packet_oob [OF True, of oob'] by (subst (1 2) iv_unpack.simps) simp
  next
    case False
    then have "\<not> batadv_iv_ogm_aggr_packet off (length buf) (tvlv_len_at oob' buf off)"
      using aggr_packet_oob [of off buf oob' oob] by auto
    then show ?thesis
      using False by (subst (1 2) iv_unpack.simps) simp
  qed
qed

lemma adjust_oob:
  assumes "unat (fw_packet_len fw) = length buf"
  shows "iv_adjust_flags oob fw i n pos buf = iv_adjust_flags oob' fw i n pos buf"
  using assms
proof (induction oob fw i n pos buf rule: iv_adjust_flags.induct)
  case (1 oob fw i n pos buf)
  show ?case
  proof (cases "batadv_iv_ogm_aggr_packet pos (length buf) (tvlv_len_at oob buf pos)")
    case True
    then show ?thesis
      using 1 aggr_packet_oob [OF True, of oob'] by (subst (1 2) iv_adjust_flags.simps) (simp add: Let_def)
  next
    case False
    then have "\<not> batadv_iv_ogm_aggr_packet pos (length buf) (tvlv_len_at oob' buf pos)"
      using aggr_packet_oob [of pos buf oob' oob] by auto
    then show ?thesis
      using False 1(2) by (subst (1 2) iv_adjust_flags.simps) simp
  qed
qed

text \<open>The length field of an OGM is read before the code checks that the OGM lies inside the frame. What is
  in the memory behind the frame makes no difference: receiving does the same for any two contents.\<close>

theorem receive_ignores_stray_memory:
  "batadv_iv_ogm_receive k oob f i s = batadv_iv_ogm_receive k oob' f i s"
  unfolding batadv_iv_ogm_receive_def by (subst unpack_oob [of _ oob _ _ _ oob']) (rule refl)

section \<open>Sending goes on\<close>

text \<open>An own message that is put into the queue is a packet of its own.\<close>

definition own_packet :: "nat \<Rightarrow> nat \<Rightarrow> ogm_msg \<Rightarrow> batadv_forw_packet \<Rightarrow> bool" where
  "own_packet i oi w fw \<longleftrightarrow> fw_own fw \<and> fw_if_incoming fw = i \<and> fw_if_outgoing fw = oi \<and> fw_skb fw = wire w"

definition all_alive :: "batadv_priv \<Rightarrow> batadv_priv \<Rightarrow> bool" where
  "all_alive s s' \<longleftrightarrow>
     (\<forall>x. hi_alive (hardif_of s' x) = hi_alive (hardif_of s x) \<and>
          hi_soft_iface (hardif_of s' x) = hi_soft_iface (hardif_of s x)) \<and>
     bp_hardif_list s' = bp_hardif_list s \<and> set (bp_allocs s') \<subseteq> set (bp_allocs s) \<and>
     set (bp_forw_bat_list s) \<subseteq> set (bp_forw_bat_list s')"

lemma all_alive_refl: "all_alive s s"
  by (simp add: all_alive_def)

lemma all_alive_trans: "all_alive s s' \<Longrightarrow> all_alive s' s'' \<Longrightarrow> all_alive s s''"
  unfolding all_alive_def by auto

lemma tl_subset: "set (tl xs) \<subseteq> set xs"
  by (cases xs) auto

lemma own_queue_add:
  fixes k w i oi t s
  defines "s' \<equiv> batadv_iv_ogm_queue_add k (wire w) (length (wire w)) i oi True t s"
  shows "all_alive s s'"
    and "hi_alive (hardif_of s i) \<Longrightarrow> hi_alive (hardif_of s oi) \<Longrightarrow> False \<notin> set (bp_allocs s) \<Longrightarrow>
      \<exists>fw \<in> set (bp_forw_bat_list s'). own_packet i oi w fw"
    and "fw \<in> set (bp_forw_bat_list s') \<Longrightarrow> fw \<in> set (bp_forw_bat_list s) \<or> fw_skb fw = wire w"
proof -
  have e: "s' = batadv_iv_ogm_aggregate_new (wire w) (length (wire w)) t (is_direct w) i oi True s"
    by (simp add: s'_def batadv_iv_ogm_queue_add_def is_direct_def)
  show "all_alive s s'"
    unfolding e batadv_iv_ogm_aggregate_new_def kzalloc_eq Let_def prod.case
    using tl_subset [of "bp_allocs s"] tl_subset [of "tl (bp_allocs s)"] by (auto simp: all_alive_def)
  show "\<exists>fw \<in> set (bp_forw_bat_list s'). own_packet i oi w fw"
    if "hi_alive (hardif_of s i)" "hi_alive (hardif_of s oi)" "False \<notin> set (bp_allocs s)"
    using that unfolding e batadv_iv_ogm_aggregate_new_def kzalloc_eq Let_def prod.case
    by (auto simp: own_packet_def split: list.split)
  show "fw \<in> set (bp_forw_bat_list s) \<or> fw_skb fw = wire w" if "fw \<in> set (bp_forw_bat_list s')"
    using that unfolding e batadv_iv_ogm_aggregate_new_def kzalloc_eq Let_def prod.case
    by (auto split: if_splits)
qed

lemma own_queue_add_all:
  fixes w i t k
  defines "f \<equiv> \<lambda>tmp s. if hi_soft_iface (hardif_of s tmp) \<noteq> hi_soft_iface (hardif_of s i) then s
      else batadv_iv_ogm_queue_add k (wire w) (length (wire w)) i tmp True t s"
  shows "all_alive s (fold f is s)"
    and "i \<in> set is \<Longrightarrow> hi_alive (hardif_of s i) \<Longrightarrow> False \<notin> set (bp_allocs s) \<Longrightarrow>
      \<exists>fw \<in> set (bp_forw_bat_list (fold f is s)). own_packet i i w fw"
proof -
  have a: "all_alive s (f j s)" for j s
    by (auto simp: f_def own_queue_add(1) all_alive_refl)
  show A: "all_alive s (fold f is s)" for "is"
    using a by (intro fold_invariant_acc [of "all_alive s"]) (auto intro: all_alive_trans all_alive_refl)
  show "\<exists>fw \<in> set (bp_forw_bat_list (fold f is s)). own_packet i i w fw"
    if i: "i \<in> set is" "hi_alive (hardif_of s i)" "False \<notin> set (bp_allocs s)"
  proof -
    obtain xs ys where l: "is = xs @ i # ys"
      using i(1) split_list by fast
    let ?s1 = "fold f xs s" and ?s2 = "f i (fold f xs s)"
    have "hi_alive (hardif_of ?s1 i)" "False \<notin> set (bp_allocs ?s1)"
      using A [of xs] i(2,3) by (auto simp: all_alive_def)
    then have "\<exists>fw \<in> set (bp_forw_bat_list ?s2). own_packet i i w fw"
      using own_queue_add(2) [of ?s1 i i k w t] by (simp add: f_def)
    moreover have "all_alive ?s2 (fold f ys ?s2)"
      using a by (intro fold_invariant_acc [of "all_alive ?s2"]) (auto intro: all_alive_trans all_alive_refl)
    ultimately show ?thesis
      unfolding l by (auto simp: all_alive_def)
  qed
qed

text \<open>The state in which the message of an interface is queued.\<close>

lemma schedule_unfold:
  assumes r: "iv_ready s" "member s i" "append_ok i s"
  shows "\<exists>w t s4. all_alive s s4 \<and> og_seqno (fst w) = hi_ogm_seqno (hardif_of s i) \<and>
    batadv_iv_ogm_schedule k i s =
      (if bp_primary_if s \<noteq> Some i then batadv_iv_ogm_queue_add k (wire w) (length (wire w)) i i True t s4
       else fold (\<lambda>tmp s. if hi_soft_iface (hardif_of s tmp) \<noteq> hi_soft_iface (hardif_of s i) then s
         else batadv_iv_ogm_queue_add k (wire w) (length (wire w)) i tmp True t s) (bp_hardif_list s4) s4)"
proof -
  obtain len s1 where s1: "schedule_append i s = (len, s1)" by fastforce
  define q where "q = hi_ogm_seqno (hardif_of s1 i)"
  define s2 where "s2 = ogm_buff_mod i (\<lambda>p. p\<lparr>og_tvlv_len := len, og_seqno := q\<rparr>) s1"
  define s3 where "s3 = batadv_iv_ogm_slide_own_bcast_window i
      (hardif_mod i (\<lambda>h. h\<lparr>hi_ogm_seqno := hi_ogm_seqno h + 1\<rparr>) s2)"
  obtain t s4 where s4: "batadv_iv_ogm_emit_send_time k s3 = (t, s4)" by fastforce
  have v: "all_alive s s1 \<and> q = hi_ogm_seqno (hardif_of s i)"
    using schedule_append_value [OF r s1] tl_subset [of "bp_allocs s"]
    by (auto simp: Let_def all_alive_def store_simps call_def hardif_mod_def q_def split: if_splits)
  have b: "hi_ogm_buff (hardif_of s4 i) = hi_ogm_buff (hardif_of s2 i)"
    using s4 unfolding s3_def
    by (auto simp: batadv_iv_ogm_emit_send_time_def prandom_eq Let_def store_simps)
  define w where "w = ((ogm_at (hi_ogm_buff (hardif_of s1 i)) 0)\<lparr>og_tvlv_len := len, og_seqno := q\<rparr>,
      drop 24 (hi_ogm_buff (hardif_of s1 i)))"
  have w: "hi_ogm_buff (hardif_of s4 i) = wire w"
    unfolding b s2_def by (simp add: ogm_buff_mod_value store_simps w_def wire_def)
  have sl: "bp_forw_bat_list (batadv_iv_ogm_slide_own_bcast_window i s') = bp_forw_bat_list s'
      \<and> bp_allocs (batadv_iv_ogm_slide_own_bcast_window i s') = bp_allocs s'
      \<and> bp_hardif_list (batadv_iv_ogm_slide_own_bcast_window i s') = bp_hardif_list s'" for s'
    unfolding batadv_iv_ogm_slide_own_bcast_window_def
    by (rule fold_invariant_acc) (simp_all add: orig_mod_def)
  have "all_alive s1 s4"
    using s4 sl unfolding s3_def s2_def
    by (auto simp: all_alive_def batadv_iv_ogm_emit_send_time_def prandom_eq Let_def store_simps ogm_buff_mod_def
        hardif_mod_def split: if_splits)
  then have "all_alive s s4"
    using v all_alive_trans by blast
  moreover have "og_seqno (fst w) = hi_ogm_seqno (hardif_of s i)"
    using v by (simp add: w_def)
  moreover have "batadv_iv_ogm_schedule k i s =
    (if bp_primary_if s \<noteq> Some i then batadv_iv_ogm_queue_add k (wire w) (length (wire w)) i i True t s4
     else fold (\<lambda>tmp s. if hi_soft_iface (hardif_of s tmp) \<noteq> hi_soft_iface (hardif_of s i) then s
       else batadv_iv_ogm_queue_add k (wire w) (length (wire w)) i tmp True t s) (bp_hardif_list s4) s4)"
    unfolding batadv_iv_ogm_schedule_def s1 Let_def prod.case s4 [unfolded s3_def s2_def q_def] w by simp
  ultimately show ?thesis by blast
qed

lemma schedule_queues:
  assumes "iv_ready s" "member s i" "append_ok i s" "False \<notin> set (bp_allocs s)"
    and "hi_alive (hardif_of s i)" "i \<in> set (bp_hardif_list s)"
  shows "\<exists>fw \<in> set (bp_forw_bat_list (batadv_iv_ogm_schedule k i s)). \<exists>w.
    own_packet i i w fw \<and> og_seqno (fst w) = hi_ogm_seqno (hardif_of s i)"
proof -
  obtain w t s4 where s4: "all_alive s s4" "og_seqno (fst w) = hi_ogm_seqno (hardif_of s i)"
    "batadv_iv_ogm_schedule k i s =
      (if bp_primary_if s \<noteq> Some i then batadv_iv_ogm_queue_add k (wire w) (length (wire w)) i i True t s4
       else fold (\<lambda>tmp s. if hi_soft_iface (hardif_of s tmp) \<noteq> hi_soft_iface (hardif_of s i) then s
         else batadv_iv_ogm_queue_add k (wire w) (length (wire w)) i tmp True t s) (bp_hardif_list s4) s4)"
    using schedule_unfold [OF assms(1-3), of k] by blast
  have a: "hi_alive (hardif_of s4 i)" "False \<notin> set (bp_allocs s4)" "i \<in> set (bp_hardif_list s4)"
    using s4(1) assms(4-6) by (auto simp: all_alive_def)
  have "\<exists>fw \<in> set (bp_forw_bat_list (batadv_iv_ogm_schedule k i s)). own_packet i i w fw"
    unfolding s4(3)
    using own_queue_add(2) [OF a(1,1,2), of k w t] own_queue_add_all(2) [OF a(3,1,2), of k w t] by simp
  then show ?thesis
    using s4(2) by blast
qed

text \<open>Sending never stops by itself: in every reachable state, when the own message of an interface is due
  and sent, and the interface is in use and memory lasts, the next message of that interface is in the queue
  afterwards, under the next sequence number of the interface.\<close>

theorem own_ogm_rescheduled:
  assumes "iv_reachable k N d s" "j < length (bp_forw_bat_list s)" "fw = bp_forw_bat_list s ! j"
    and "fw_own fw" "fw_if_incoming fw = i" "fw_if_outgoing fw = i" "False \<notin> set (bp_allocs s)"
    and "bp_mesh_state s \<noteq> BATADV_MESH_DEACTIVATING" "bp_algo_iv s"
    and "hi_if_status (hardif_of s i) \<noteq> BATADV_IF_NOT_IN_USE"
    and "hi_if_status (hardif_of s i) \<noteq> BATADV_IF_TO_BE_REMOVED"
    and "hi_alive (hardif_of s i)" "i \<in> set (bp_hardif_list s)"
  shows "\<exists>fw' \<in> set (bp_forw_bat_list (batadv_send_outstanding_bat_ogm_packet k' oob j s)). \<exists>w.
    fw_own fw' \<and> fw_if_incoming fw' = i \<and> fw_if_outgoing fw' = i \<and> fw_skb fw' = wire w \<and>
    og_seqno (fst w) = hi_ogm_seqno (hardif_of s i)"
proof -
  let ?s1 = "s\<lparr>bp_forw_bat_list := list_del j (bp_forw_bat_list s)\<rparr>"
  have r: "iv_ready s"
    using iv_reachable_inv [OF assms(1)] by (simp add: iv_inv_def)
  then have m: "member s i"
    using assms(2-5) by (auto simp: iv_ready_def)
  obtain l c where e: "batadv_iv_ogm_emit oob fw ?s1 = ?s1\<lparr>bp_allocs := l, bp_calls := c\<rparr>" "False \<notin> set l"
    using emit_effect [of ?s1 oob fw] assms(7) by auto
  define s2 where "s2 = ?s1\<lparr>bp_allocs := l, bp_calls := c\<rparr>"
  define s3 where "s3 = (if hi_if_status (hardif_of s i) = BATADV_IF_TO_BE_ACTIVATED
      then hardif_mod i (\<lambda>h. h\<lparr>hi_if_status := BATADV_IF_ACTIVE\<rparr>) s2 else s2)"
  have "iv_ready s2" "member s2 i"
    using r m by (auto simp: s2_def iv_ready_def member_def dest: set_list_del)
  then have r3: "iv_ready s3" "member s3 i"
    by (auto simp: s3_def iv_ready_hardif member_def store_simps)
  have f3: "False \<notin> set (bp_allocs s3)" "append_ok i s3" "hi_alive (hardif_of s3 i)" "i \<in> set (bp_hardif_list s3)"
    "hi_ogm_seqno (hardif_of s3 i) = hi_ogm_seqno (hardif_of s i)"
    using e(2) assms(12,13)
    by (auto simp: s3_def s2_def append_ok_def kzalloc_eq hardif_mod_def split: list.split)
  have "batadv_send_outstanding_bat_ogm_packet k' oob j s = batadv_iv_ogm_schedule k' i s3"
    using assms e(1) hardif_mod_def [of i _ s2, THEN arg_cong [of _ _ bp_algo_iv]]
    by (simp add: batadv_send_outstanding_bat_ogm_packet_def batadv_schedule_bat_ogm_def Let_def s3_def s2_def)
  then show ?thesis
    using schedule_queues [OF r3 f3(2,1,3,4), of k'] f3(5) by (auto simp: own_packet_def)
qed

theorem own_ogm_rescheduled_witness:
  "\<exists>fw. fw \<in> set (bp_forw_bat_list (batadv_send_outstanding_bat_ogm_packet kenv_example (\<lambda>_. 0) 0 iv_example_sent))
     \<and> fw_own fw"
proof -
  have l: "0 < length (bp_forw_bat_list iv_example_sent)" "fw_own (bp_forw_bat_list iv_example_sent ! 0)"
    "fw_if_incoming (bp_forw_bat_list iv_example_sent ! 0) = 0" "fw_if_outgoing (bp_forw_bat_list iv_example_sent ! 0) = 0"
    "False \<notin> set (bp_allocs iv_example_sent)" "bp_mesh_state iv_example_sent \<noteq> BATADV_MESH_DEACTIVATING"
    "bp_algo_iv iv_example_sent" "hi_if_status (hardif_of iv_example_sent 0) \<noteq> BATADV_IF_NOT_IN_USE"
    "hi_if_status (hardif_of iv_example_sent 0) \<noteq> BATADV_IF_TO_BE_REMOVED"
    "hi_alive (hardif_of iv_example_sent 0)" "0 \<in> set (bp_hardif_list iv_example_sent)"
    using iv_example_table
    by (simp_all add: iv_example_sent_def iv_example_def tvlv_example_def batadv_schedule_bat_ogm_def
        batadv_iv_ogm_schedule_def schedule_append_def batadv_iv_ogm_slide_own_bcast_window_def
        batadv_iv_ogm_emit_send_time_def prandom_u32_def batadv_iv_ogm_queue_add_def ogm_buff_mod_def
        hardif_mod_def batadv_iv_ogm_aggregate_new_def kzalloc_def Let_def bp_table_def)
  show ?thesis
    using own_ogm_rescheduled [OF iv_example_sent_reachable l(1) refl l(2-11), of kenv_example "\<lambda>_. 0"] by blast
qed

section \<open>Two errors\<close>

lemma own_queue_all_skb:
  assumes "fw \<in> set (bp_forw_bat_list (fold (\<lambda>tmp s. if hi_soft_iface (hardif_of s tmp) \<noteq> hi_soft_iface (hardif_of s i) then s
      else batadv_iv_ogm_queue_add k (wire w) (length (wire w)) i tmp True t s) is s))"
  shows "fw \<in> set (bp_forw_bat_list s) \<or> fw_skb fw = wire w"
proof -
  let ?f = "\<lambda>tmp s. if hi_soft_iface (hardif_of s tmp) \<noteq> hi_soft_iface (hardif_of s i) then s
      else batadv_iv_ogm_queue_add k (wire w) (length (wire w)) i tmp True t s"
  have "\<forall>fw \<in> set (bp_forw_bat_list (fold ?f is s)). fw \<in> set (bp_forw_bat_list s) \<or> fw_skb fw = wire w"
    by (rule fold_invariant_acc) (auto dest: own_queue_add(3))
  then show ?thesis
    using assms by blast
qed

text \<open>When there is no memory for the TVLV containers, the message of the primary interface goes out without
  them but with a header that announces their length: every packet that is queued is 24 bytes long, claims
  more, and is not processed by any receiver.\<close>

theorem append_failure_loses_ogm:
  assumes "bp_primary_if s = Some i" "\<not> fst (kzalloc s)" "length (hi_ogm_buff (hardif_of s i)) = 24"
    and "\<forall>c \<in> set (bp_tvlv_containers s). tvlv_ok c"
    and "0 < length (tvlv_payload (bp_tvlv_containers s))" "length (tvlv_payload (bp_tvlv_containers s)) < 65512"
    and "fw \<in> set (bp_forw_bat_list (batadv_iv_ogm_schedule k i s))" "fw \<notin> set (bp_forw_bat_list s)"
  shows "length (fw_skb fw) = 24 \<and> unat (og_tvlv_len (ogm_at (fw_skb fw) 0)) = length (tvlv_payload (bp_tvlv_containers s))
    \<and> iv_parse oob (fw_skb fw) = []"
proof -
  let ?L = "length (tvlv_payload (bp_tvlv_containers s))" and ?b = "hi_ogm_buff (hardif_of s i)"
  let ?c = "call Tt_Local_Commit_Changes s"
  have c: "bp_tvlv_containers ?c = bp_tvlv_containers s" "\<not> fst (kzalloc ?c)" "hardif_of ?c = hardif_of s"
    "bp_forw_bat_list ?c = bp_forw_bat_list s"
    using assms(2) by (simp_all add: call_def kzalloc_eq)
  obtain s1 where s1: "schedule_append i s = (of_nat ?L, s1)" "hi_ogm_buff (hardif_of s1 i) = ?b"
    "bp_forw_bat_list s1 = bp_forw_bat_list s"
    using assms(1) c list_size_value [of ?c] assms(4)
    by (simp add: schedule_append_def batadv_tvlv_container_ogm_append_def batadv_tvlv_realloc_packet_buff_def
        Let_def split_def store_simps kzalloc_eq hardif_mod_def)
  define q where "q = hi_ogm_seqno (hardif_of s1 i)"
  define s2 where "s2 = ogm_buff_mod i (\<lambda>p. p\<lparr>og_tvlv_len := of_nat ?L, og_seqno := q\<rparr>) s1"
  define s3 where "s3 = batadv_iv_ogm_slide_own_bcast_window i
      (hardif_mod i (\<lambda>h. h\<lparr>hi_ogm_seqno := hi_ogm_seqno h + 1\<rparr>) s2)"
  obtain t s4 where s4: "batadv_iv_ogm_emit_send_time k s3 = (t, s4)" by fastforce
  define w where "w = ((ogm_at ?b 0)\<lparr>og_tvlv_len := of_nat ?L, og_seqno := q\<rparr>, [] :: u8 list)"
  have w: "hi_ogm_buff (hardif_of s4 i) = wire w"
    using s4 assms(3) s1(2) unfolding s3_def s2_def
    by (auto simp: batadv_iv_ogm_emit_send_time_def prandom_eq Let_def store_simps ogm_buff_mod_value w_def wire_def)
  have "bp_forw_bat_list (batadv_iv_ogm_slide_own_bcast_window i s') = bp_forw_bat_list s'" for s'
    unfolding batadv_iv_ogm_slide_own_bcast_window_def
    by (rule fold_invariant_acc) (simp_all add: orig_mod_def)
  then have l: "bp_forw_bat_list s4 = bp_forw_bat_list s"
    using s4 s1(3) unfolding s3_def s2_def
    by (auto simp: batadv_iv_ogm_emit_send_time_def prandom_eq Let_def ogm_buff_mod_def hardif_mod_def)
  have "batadv_iv_ogm_schedule k i s =
    fold (\<lambda>tmp s. if hi_soft_iface (hardif_of s tmp) \<noteq> hi_soft_iface (hardif_of s i) then s
       else batadv_iv_ogm_queue_add k (wire w) (length (wire w)) i tmp True t s) (bp_hardif_list s4) s4"
    using assms(1) unfolding batadv_iv_ogm_schedule_def s1(1) Let_def prod.case s4 [unfolded s3_def s2_def q_def] w
    by simp
  then have skb: "fw_skb fw = wire w"
    using own_queue_all_skb [of fw i k w t "bp_hardif_list s4" s4] assms(7,8) l by auto
  have u: "unat (of_nat ?L :: u16) = ?L"
    using assms(6) by (simp add: unat_of_nat)
  have lw: "length (wire w) = 24"
    by (simp add: wire_def w_def)
  have o: "ogm_at (wire w) 0 = fst w" by simp
  have "\<not> batadv_iv_ogm_aggr_packet 0 24 (tvlv_len_at oob (wire w) 0)"
  proof -
    have "tvlv_len_at oob (wire w) 0 = of_nat ?L"
      using tvlv_len_at_bytes [of "[]" 0 oob "fst w" "snd w"] by (simp add: wire_def w_def)
    then show ?thesis
      using assms(5) u by (simp add: batadv_iv_ogm_aggr_packet_def)
  qed
  then have "iv_parse oob (wire w) = []"
    unfolding iv_parse_def using lw by (subst iv_unpack.simps) simp
  then show ?thesis
    using skb lw o u by (simp add: w_def)
qed

theorem append_failure_loses_ogm_witness:
  "\<exists>s. \<exists>fw \<in> set (bp_forw_bat_list (batadv_iv_ogm_schedule kenv_example 0 s)). iv_parse (\<lambda>_. 0) (fw_skb fw) = []"
proof -
  let ?s = "iv_example\<lparr>bp_primary_if := Some 0, bp_tvlv_containers := [dat_container], bp_allocs := [False]\<rparr>"
  have h: "bp_primary_if ?s = Some 0" "\<not> fst (kzalloc ?s)" "length (hi_ogm_buff (hardif_of ?s 0)) = 24"
    "\<forall>c \<in> set (bp_tvlv_containers ?s). tvlv_ok c" "0 < length (tvlv_payload (bp_tvlv_containers ?s))"
    "length (tvlv_payload (bp_tvlv_containers ?s)) < 65512"
    by (simp_all add: iv_example_def tvlv_example_def kzalloc_def tvlv_ok_def dat_container_def tvlv_payload_def
        tvlv_bytes_def tvlv_hdr_bytes_def)
  have t: "bp_table (s\<lparr>bp_orig_hash := batadv_hash_new True 1024\<rparr>) = []" for s
    by (simp add: bp_table_def batadv_hash_new_def hash_elems_def batadv_hash_init_def)
  have "bp_forw_bat_list ?s = []"
    by (simp add: iv_example_def tvlv_example_def)
  moreover have "bp_forw_bat_list (batadv_iv_ogm_schedule kenv_example 0 ?s) \<noteq> []"
    by (simp add: iv_example_def tvlv_example_def batadv_hash_new_def hash_elems_def batadv_hash_init_def
        batadv_iv_ogm_schedule_def schedule_append_def batadv_iv_ogm_slide_own_bcast_window_def
        batadv_tvlv_container_ogm_append_def batadv_tvlv_realloc_packet_buff_def call_def
        batadv_iv_ogm_emit_send_time_def prandom_u32_def batadv_iv_ogm_queue_add_def ogm_buff_mod_def
        hardif_mod_def batadv_iv_ogm_aggregate_new_def kzalloc_def Let_def bp_table_def)
  ultimately obtain fw where "fw \<in> set (bp_forw_bat_list (batadv_iv_ogm_schedule kenv_example 0 ?s))"
    "fw \<notin> set (bp_forw_bat_list ?s)"
    by (metis list.set_intros(1) neq_Nil_conv empty_iff list.set(1))
  from append_failure_loses_ogm [OF h this] show ?thesis
    using \<open>fw \<in> set (bp_forw_bat_list (batadv_iv_ogm_schedule kenv_example 0 ?s))\<close> by blast
qed

text \<open>Aggregation trusts the room of a buffer without looking: a packet that was queued while aggregation was
  off has no room for more, and once aggregation is switched on, the next OGM that may join it is written
  past the end of its buffer.\<close>

theorem aggregation_switch_overflows:
  assumes "\<not> bp_aggregated_ogms s" "bp_forw_bat_list s = []" "0 < bp_batman_queue_left s"
    and "hi_alive (hardif_of s i)" "hi_alive (hardif_of s oi)" "False \<notin> set (bp_allocs s)" "bp_primary_if s = Some p"
    and "length (wire w) + length (wire v) \<le> 512" "bp_skb_slack s < length (wire v)"
    and "\<not> is_direct w" "\<not> is_direct v" "og_ttl (fst w) \<noteq> 1"
    and "time_before t2 t1" "time_after_eq (t2 + k_m2j k BATADV_MAX_AGGREGATION_MS) t1"
    and "s1 = batadv_iv_ogm_queue_add k (wire w) (length (wire w)) i oi False t1 s"
  shows "bp_panic (batadv_iv_ogm_queue_add k (wire v) (length (wire v)) i oi False t2 (s1\<lparr>bp_aggregated_ogms := True\<rparr>))"
proof -
  have d: "og_flags (fst w) AND BATADV_DIRECTLINK = 0" "og_flags (fst v) AND BATADV_DIRECTLINK = 0"
    using assms(10,11) by (simp_all add: is_direct_def)
  let ?fw = "\<lparr>fw_send_time = t1, fw_own = False, fw_skb = wire w, fw_room = bp_skb_slack s,
    fw_packet_len = of_nat (length (wire w)), fw_direct_link_flags = 0, fw_num_packets = 0, fw_if_incoming = i,
    fw_if_outgoing = oi\<rparr>"
  have e: "s1 = batadv_iv_ogm_aggregate_new (wire w) (length (wire w)) t1 False i oi False s"
    using assms(1,15) d by (simp add: batadv_iv_ogm_queue_add_def)
  have m: "case bp_allocs s of [] \<Rightarrow> True | ok # _ \<Rightarrow> ok" "case tl (bp_allocs s) of [] \<Rightarrow> True | ok # _ \<Rightarrow> ok"
    using assms(6) tl_subset [of "bp_allocs s"] by (auto split: list.split)
  have f1: "bp_forw_bat_list s1 = [?fw]" "bp_primary_if s1 = Some p"
    unfolding e batadv_iv_ogm_aggregate_new_def kzalloc_eq Let_def prod.case using assms(1-5,7) m by simp_all
  obtain fw where "fw = ?fw" by blast
  then have fw: "bp_forw_bat_list s1 = [fw]" "fw_skb fw = wire w" "fw_room fw = bp_skb_slack s"
    "fw_packet_len fw = of_nat (length (wire w))" "fw_if_outgoing fw = oi" "fw_send_time fw = t1" "\<not> fw_own fw"
    "bp_primary_if s1 = Some p"
    using f1 by simp_all
  have "batadv_iv_ogm_can_aggregate k (s1\<lparr>bp_aggregated_ogms := True\<rparr>) (fst v) (length (wire v)) t2 False i oi fw"
    using fw assms(8,12-14) d
    by (simp add: batadv_iv_ogm_can_aggregate_def Let_def unat_of_nat)
  then show ?thesis
    using fw assms(9) d
    by (simp add: batadv_iv_ogm_queue_add_def batadv_iv_ogm_aggregate_def Let_def)
qed

theorem aggregation_switch_overflows_witness:
  "\<exists>s1. bp_panic (batadv_iv_ogm_queue_add kenv_example (wire (ogm_example 50, [])) 24 0 0 False 1000 s1) \<and> \<not> bp_panic s1"
proof -
  let ?s = "iv_example\<lparr>bp_aggregated_ogms := False, bp_primary_if := Some 0\<rparr>" and ?w = "(ogm_example 50, [] :: u8 list)"
  let ?s1 = "batadv_iv_ogm_queue_add kenv_example (wire ?w) (length (wire ?w)) 0 0 False 1010 ?s"
  have h: "\<not> bp_aggregated_ogms ?s" "bp_forw_bat_list ?s = []" "0 < bp_batman_queue_left ?s"
    "hi_alive (hardif_of ?s 0)" "False \<notin> set (bp_allocs ?s)" "bp_primary_if ?s = Some 0"
    "length (wire ?w) + length (wire ?w) \<le> 512" "bp_skb_slack ?s < length (wire ?w)" "\<not> is_direct ?w"
    "og_ttl (fst ?w) \<noteq> 1" "time_before 1000 1010" "time_after_eq (1000 + k_m2j kenv_example BATADV_MAX_AGGREGATION_MS) 1010"
    by (simp_all add: iv_example_def tvlv_example_def wire_def is_direct_def ogm_example_def time_before_def
        time_after_eq_def kenv_example_def)
  have l: "length (wire ?w) = 24"
    by (simp add: wire_def)
  have "bp_panic ?s1 = bp_panic ?s"
    using h(1) unfolding batadv_iv_ogm_queue_add_def Let_def by simp
  then have n: "\<not> bp_panic (?s1\<lparr>bp_aggregated_ogms := True\<rparr>)"
    by (simp add: iv_example_def tvlv_example_def)
  have p: "bp_panic (batadv_iv_ogm_queue_add kenv_example (wire ?w) 24 0 0 False 1000 (?s1\<lparr>bp_aggregated_ogms := True\<rparr>))"
    using aggregation_switch_overflows [OF h(1-4) h(4-9) h(9-12) refl] unfolding l .
  show ?thesis
    using n p by blast
qed

end
