(* ===== verification/Iv_Routes.thy ===== *)
theory Iv_Routes
  imports Iv_Properties
begin

text \<open>
  Routes and duplicates of B.A.T.M.A.N. IV: a router is only ever replaced by a better
  neighbour, an election chooses a best one, the window of our own OGMs records which came
  back, and an OGM that arrives again is recognised.
\<close>

section \<open>Routers\<close>

lemma router_get_ifinfo:
  "batadv_orig_router_get s o' i = (case batadv_orig_ifinfo_get s o' i of None \<Rightarrow> None | Some x \<Rightarrow> oi_router x)"
  by (simp add: batadv_orig_router_get_def batadv_orig_ifinfo_get_def)

lemma ifinfo_get_mod:
  assumes "\<And>x. oi_if_outgoing (f x) = oi_if_outgoing x"
  shows "batadv_orig_ifinfo_get (orig_ifinfo_mod o' i f s) o' i = map_option f (batadv_orig_ifinfo_get s o' i)"
  unfolding batadv_orig_ifinfo_get_def orig_ifinfo_mod_def orig_mod_simps if_True batadv_orig_node.simps
  by (simp add: find_update_first assms)

lemma update_route_router:
  "batadv_orig_router_get (batadv_update_route o' i n s) o' i =
     (if batadv_orig_ifinfo_get s o' i = None then None else n)"
  by (auto simp: batadv_update_route_def do_update_route_def router_get_ifinfo Let_def ifinfo_get_mod call_def
      batadv_orig_ifinfo_get_def [of "s\<lparr>bp_calls := c\<rparr>" for c] batadv_orig_ifinfo_get_def [symmetric]
      split: option.split)

text \<open>The quality of a neighbour, zero when it was not measured, and the own OGMs it sent back.\<close>

definition link_tq :: "batadv_priv \<Rightarrow> nat \<Rightarrow> nat option \<Rightarrow> u8" where
  "link_tq s n i = (case batadv_neigh_ifinfo_get s n i of None \<Rightarrow> 0 | Some x \<Rightarrow> ni_tq_avg x)"

definition link_back :: "batadv_priv \<Rightarrow> nat \<Rightarrow> u8" where
  "link_back s n = own_sum_at s (nn_orig_node (neigh_of s n)) (hi_if_num (hardif_of s (nn_if_incoming (neigh_of s n))))"

text \<open>What choosing a router leaves alone.\<close>

lemma update_route_links:
  "link_tq (orig_update_route o' i n s) m j = link_tq s m j" "link_back (orig_update_route o' i n s) m = link_back s m"
  "neigh_of (orig_update_route o' i n s) m = neigh_of s m"
  "on_neigh_list (orig_of (orig_update_route o' i n s) q) = on_neigh_list (orig_of s q)"
proof -
  have u: "neigh_of (batadv_update_route o' i (Some n) s) = neigh_of s"
      "hardif_of (batadv_update_route o' i (Some n) s) = hardif_of s"
      "bp_stray (batadv_update_route o' i (Some n) s) = bp_stray s"
      "on_bcast_own_sum (orig_of (batadv_update_route o' i (Some n) s) q) = on_bcast_own_sum (orig_of s q)"
      "on_neigh_list (orig_of (batadv_update_route o' i (Some n) s) q) = on_neigh_list (orig_of s q)" for q
    by (auto simp: batadv_update_route_def do_update_route_def orig_ifinfo_mod_def orig_mod_def call_def Let_def
        split: option.split)
  have l: "link_tq (batadv_update_route o' i (Some n) s) m j = link_tq s m j"
      "link_back (batadv_update_route o' i (Some n) s) m = link_back s m"
    by (simp_all add: link_tq_def link_back_def own_sum_at_def batadv_neigh_ifinfo_get_def Let_def u)
  show "link_tq (orig_update_route o' i n s) m j = link_tq s m j" "link_back (orig_update_route o' i n s) m = link_back s m"
    "neigh_of (orig_update_route o' i n s) m = neigh_of s m"
    "on_neigh_list (orig_of (orig_update_route o' i n s) q) = on_neigh_list (orig_of s q)"
    using l u by (simp_all add: orig_update_route_def Let_def split: option.split)
qed

lemma update_route_choice:
  assumes "r' = batadv_orig_router_get (orig_update_route o' i n s) o' i"
  shows "r' = batadv_orig_router_get s o' i \<or> r' = Some n \<and>
    (case batadv_orig_router_get s o' i of None \<Rightarrow> True
     | Some r \<Rightarrow> link_tq s r i \<le> link_tq s n i \<and> (link_tq s r i = link_tq s n i \<longrightarrow> link_back s r < link_back s n))"
proof (cases "batadv_orig_router_get s o' i")
  case None
  then show ?thesis
    using assms by (auto simp: orig_update_route_def update_route_router Let_def split: if_splits)
next
  case (Some r)
  then have "batadv_orig_ifinfo_get s o' i \<noteq> None"
    by (auto simp: router_get_ifinfo split: option.splits)
  then show ?thesis
    using assms Some
    by (auto simp: orig_update_route_def update_route_router link_tq_def link_back_def Let_def word_gt_0
        split: option.splits if_splits)
qed

text \<open>Everything before: originators in use keep their routers, neighbours their addresses.\<close>

lemma vlan_new_slot: "batadv_orig_node_vlan_new n v s = (ok, s') \<Longrightarrow> m \<noteq> n \<Longrightarrow> orig_of s' m = orig_of s m"
  by (auto simp: batadv_orig_node_vlan_new_def kzalloc_eq Let_def orig_mod_def split: if_splits)

lemma node_new_slot:
  assumes "batadv_orig_node_new k a s = (r, s')"
  shows "m < bp_next_orig s \<Longrightarrow> orig_of s' m = orig_of s m" "r = Some n \<Longrightarrow> n = bp_next_orig s"
proof -
  show "m < bp_next_orig s \<Longrightarrow> orig_of s' m = orig_of s m"
    using assms vlan_new_slot [where m = m]
    by (fastforce simp: batadv_orig_node_new_def kzalloc_eq Let_def split: if_splits prod.splits)
  show "r = Some n \<Longrightarrow> n = bp_next_orig s"
    using orig_node_new_frame(4) [OF assms] by blast
qed

lemma orig_get_slot:
  assumes "batadv_iv_ogm_orig_get k a s = (r, s')" "m < bp_next_orig s"
  shows "orig_of s' m = orig_of s m"
proof (cases "batadv_orig_hash_find k s a")
  case None
  obtain r1 s1 where s1: "batadv_orig_node_new k a s = (r1, s1)" by fastforce
  have o1: "orig_of s1 m = orig_of s m" by (rule node_new_slot(1) [OF s1 assms(2)])
  show ?thesis
  proof (cases r1)
    case (Some n)
    have "m \<noteq> n" using node_new_slot(2) [OF s1 Some] assms(2) by simp
    obtain ok s2 where s2: "orig_init_own n s1 = (ok, s2)" by fastforce
    have "orig_of s2 m = orig_of s m" using init_own_face(1) [OF s2 \<open>m \<noteq> n\<close>] o1 by simp
    then show ?thesis
      using assms(1) None s1 Some s2 o1 by (auto simp: batadv_iv_ogm_orig_get_def split: if_splits prod.splits)
  qed (use assms(1) None s1 o1 in \<open>simp add: batadv_iv_ogm_orig_get_def\<close>)
qed (use assms(1) in \<open>simp add: batadv_iv_ogm_orig_get_def\<close>)

definition from_sender :: "batadv_priv \<Rightarrow> nat \<Rightarrow> mac \<Rightarrow> nat \<Rightarrow> nat \<Rightarrow> bool" where
  "from_sender s o' src i n \<longleftrightarrow>
     nn_addr (neigh_of s n) = src \<and> nn_if_incoming (neigh_of s n) = i \<and> n \<in> set (on_neigh_list (orig_of s o'))"

lemma update_neighs_found:
  assumes "orig_update_neighs o' src i oi dup s = (found, s')"
  shows "bp_origs s' = bp_origs s" "bp_next_orig s' = bp_next_orig s" "found = Some n \<Longrightarrow> from_sender s' o' src i n"
proof -
  let ?f = "orig_update_neigh src i oi dup"
  let ?P = "\<lambda>acc. bp_origs (snd acc) = bp_origs s \<and> bp_next_orig (snd acc) = bp_next_orig s \<and>
    (\<forall>m. nn_addr (neigh_of (snd acc) m) = nn_addr (neigh_of s m) \<and> nn_if_incoming (neigh_of (snd acc) m) = nn_if_incoming (neigh_of s m)) \<and>
    (\<forall>n. fst acc = Some n \<longrightarrow> from_sender (snd acc) o' src i n)"
  have step: "?P (?f m acc)" if "?P acc" "m \<in> set (on_neigh_list (orig_of s o'))" for m acc
    using that by (cases acc) (auto simp: orig_update_neigh_def from_sender_def neigh_ifinfo_mod_def neigh_mod_def)
  have "?P (fold ?f ns acc)" if "?P acc" "set ns \<subseteq> set (on_neigh_list (orig_of s o'))" for ns acc
    using that
  proof (induction ns arbitrary: acc)
    case (Cons m ns)
    have "?P (?f m acc)" by (rule step) (use Cons.prems in auto)
    then show ?case using Cons.IH Cons.prems(2) by simp
  qed simp
  from this [of "(None, s)" "on_neigh_list (orig_of s o')"]
  show "bp_origs s' = bp_origs s" "bp_next_orig s' = bp_next_orig s" "found = Some n \<Longrightarrow> from_sender s' o' src i n"
    using assms by (auto simp: orig_update_neighs_def)
qed

lemma neigh_new_sender:
  assumes "batadv_iv_ogm_neigh_new k i src o' o2 s = (r, s')"
  shows "on_ifinfo_list (orig_of s' o') = on_ifinfo_list (orig_of s o')" "r = Some n \<Longrightarrow> from_sender s' o' src i n"
proof -
  have h: "bp_origs t = bp_origs s \<and> bp_neighs t = bp_neighs s" if "batadv_hardif_neigh_get_or_create k i src s = (ok, t)" for ok t
    using that by (auto simp: batadv_hardif_neigh_get_or_create_def batadv_hardif_neigh_create_def hardif_neigh_mod_def
        hardif_mod_def kzalloc_eq Let_def split: if_splits)
  have p: "bp_origs (batadv_hardif_neigh_put i src t) = bp_origs t" "bp_neighs (batadv_hardif_neigh_put i src t) = bp_neighs t"
    "bp_origs (hardif_neigh_mod i src f t) = bp_origs t" "bp_neighs (hardif_neigh_mod i src f t) = bp_neighs t" for f t
    by (simp_all add: batadv_hardif_neigh_put_def hardif_neigh_mod_def hardif_mod_def Let_def)
  obtain r1 s1 where s1: "batadv_neigh_node_new k o' i src s = (r1, s1)" by fastforce
  have "on_ifinfo_list (orig_of s1 o') = on_ifinfo_list (orig_of s o') \<and> (\<forall>n. r1 = Some n \<longrightarrow> from_sender s1 o' src i n)"
  proof (cases "batadv_neigh_node_get s o' i src")
    case None
    obtain ok t where t: "batadv_hardif_neigh_get_or_create k i src s = (ok, t)" by fastforce
    show ?thesis
      using s1 None t h [OF t]
      by (auto simp: batadv_neigh_node_new_def kzalloc_eq Let_def p from_sender_def orig_mod_def split: if_splits)
  next
    case (Some m)
    then have "from_sender s o' src i m"
      by (auto simp: from_sender_def batadv_neigh_node_get_def find_Some_iff batadv_compare_eth_def)
    then show ?thesis
      using s1 Some by (auto simp: batadv_neigh_node_new_def)
  qed
  then show "on_ifinfo_list (orig_of s' o') = on_ifinfo_list (orig_of s o')" "r = Some n \<Longrightarrow> from_sender s' o' src i n"
    using assms s1 by (auto simp: batadv_iv_ogm_neigh_new_def neigh_mod_def from_sender_def split: option.splits)
qed

text \<open>C31: An OGM changes the router of an originator in use only to a neighbour of the originator that has the
  address of the OGM's sender and belongs to the interface the OGM came in on, and it replaces a router only
  if that neighbour, with the OGM counted in, has a quality that is at least as high as the router's, and with
  equal qualities only if more of our own OGMs came back from it; it never takes a router away.\<close>

theorem router_replaced_by_better:
  assumes "o' < bp_next_orig s" "s' = batadv_iv_ogm_orig_update k o' src ogm i oi dup s"
    and "r' = batadv_orig_router_get s' o' oi"
  shows "r' = batadv_orig_router_get s o' oi \<or> (\<exists>n. r' = Some n \<and>
      nn_addr (neigh_of s' n) = src \<and> nn_if_incoming (neigh_of s' n) = i \<and> n \<in> set (on_neigh_list (orig_of s' o')) \<and>
      (case batadv_orig_router_get s o' oi of None \<Rightarrow> True
       | Some r \<Rightarrow> link_tq s' r oi \<le> link_tq s' n oi \<and> (link_tq s' r oi = link_tq s' n oi \<longrightarrow> link_back s' r < link_back s' n)))"
proof -
  have same: "batadv_orig_router_get t o' oi = batadv_orig_router_get s o' oi"
    if "on_ifinfo_list (orig_of t o') = on_ifinfo_list (orig_of s o')" for t
    using that by (simp add: batadv_orig_router_get_def)
  obtain found s1 where s1: "orig_update_neighs o' src i oi dup s = (found, s1)" by fastforce
  note u = update_neighs_found [OF s1]
  obtain neigh s2 where s2: "(case found of Some n \<Rightarrow> (Some n, s1)
      | None \<Rightarrow> (case batadv_iv_ogm_orig_get k src s1 of (None, s) \<Rightarrow> (None, s)
                | (Some orig_tmp, s) \<Rightarrow> batadv_iv_ogm_neigh_new k i src o' orig_tmp s)) = (neigh, s2)" by fastforce
  have i2: "on_ifinfo_list (orig_of s2 o') = on_ifinfo_list (orig_of s o')" and
    n2: "neigh = Some n \<Longrightarrow> from_sender s2 o' src i n" for n
  proof -
    have "on_ifinfo_list (orig_of s2 o') = on_ifinfo_list (orig_of s o') \<and> (\<forall>n. neigh = Some n \<longrightarrow> from_sender s2 o' src i n)"
    proof (cases found)
      case None
      obtain q t where t: "batadv_iv_ogm_orig_get k src s1 = (q, t)" by fastforce
      have "orig_of t o' = orig_of s o'"
        using orig_get_slot [OF t, of o'] u(1,2) assms(1) by simp
      then show ?thesis
        using s2 None t neigh_new_sender [of k i src o' _ t neigh s2] by (cases q) auto
    qed (use s2 u in auto)
    then show "on_ifinfo_list (orig_of s2 o') = on_ifinfo_list (orig_of s o')" "neigh = Some n \<Longrightarrow> from_sender s2 o' src i n"
      by auto
  qed
  show ?thesis
  proof (cases neigh)
    case None
    then have "s' = s2" using assms(2) s1 s2 by (simp add: batadv_iv_ogm_orig_update_def Let_def)
    then show ?thesis using same [OF i2] assms(3) by simp
  next
    case (Some n)
    obtain ok s3 where s3: "batadv_neigh_ifinfo_new n oi s2 = (ok, s3)" by fastforce
    have f3: "bp_origs s3 = bp_origs s2" "nn_addr (neigh_of s3 n) = nn_addr (neigh_of s2 n)"
        "nn_if_incoming (neigh_of s3 n) = nn_if_incoming (neigh_of s2 n)"
      using s3 by (auto simp: batadv_neigh_ifinfo_new_def kzalloc_eq Let_def neigh_mod_def split: if_splits)
    define s4 where "s4 = neigh_ifinfo_mod n oi (ring_push (og_tq ogm)) (neigh_mod n (\<lambda>n. n\<lparr>nn_last_seen := k_jiffies k\<rparr>) s3)"
    define s5 where "s5 = (if dup = BATADV_NO_DUP then
        neigh_ifinfo_mod n oi (\<lambda>i. i\<lparr>ni_last_ttl := og_ttl ogm\<rparr>) (orig_ifinfo_mod o' oi (\<lambda>i. i\<lparr>oi_last_ttl := og_ttl ogm\<rparr>) s4)
      else s4)"
    have s': "s' = (if \<not> ok then s3 else orig_update_route o' oi n s5)"
      using assms(2) s1 s2 Some s3 by (simp add: batadv_iv_ogm_orig_update_def Let_def s4_def s5_def)
    have r3: "batadv_orig_router_get s3 o' oi = batadv_orig_router_get s o' oi"
      by (rule same) (simp add: f3(1) i2)
    show ?thesis
    proof (cases ok)
      case False
      then show ?thesis using s' r3 assms(3) by simp
    next
      case True
      have r4: "batadv_orig_router_get s4 o' oi = batadv_orig_router_get s o' oi"
        using r3 by (simp add: s4_def neigh_ifinfo_mod_def neigh_mod_def batadv_orig_router_get_def)
      have "batadv_orig_ifinfo_get (neigh_ifinfo_mod n oi g t) o' oi = batadv_orig_ifinfo_get t o' oi" for g t
        by (simp add: neigh_ifinfo_mod_def neigh_mod_def batadv_orig_ifinfo_get_def)
      then have r5: "batadv_orig_router_get s5 o' oi = batadv_orig_router_get s o' oi"
        using r4 by (auto simp: s5_def router_get_ifinfo ifinfo_get_mod split: option.splits)
      have "from_sender s5 o' src i n"
        using n2 [OF Some] f3 by (auto simp: s5_def s4_def from_sender_def neigh_ifinfo_mod_def neigh_mod_def
            orig_ifinfo_mod_def orig_mod_def)
      then have f: "nn_addr (neigh_of s5 n) = src" "nn_if_incoming (neigh_of s5 n) = i" "n \<in> set (on_neigh_list (orig_of s5 o'))"
        by (simp_all add: from_sender_def)
      have e: "s' = orig_update_route o' oi n s5"
        using s' True by simp
      note c = update_route_choice [OF assms(3) [unfolded e], unfolded r5]
      show ?thesis
      proof (cases "r' = batadv_orig_router_get s o' oi")
        case False
        then have n: "r' = Some n" and
          b: "case batadv_orig_router_get s o' oi of None \<Rightarrow> True | Some r \<Rightarrow> link_tq s5 r oi \<le> link_tq s5 n oi \<and>
            (link_tq s5 r oi = link_tq s5 n oi \<longrightarrow> link_back s5 r < link_back s5 n)"
          using c by simp_all
        show ?thesis
          unfolding e update_route_links by (intro disjI2 exI [of _ n] conjI n f b)
      qed simp
    qed
  qed
qed

section \<open>Elections\<close>

text \<open>C32: When routes are elected anew, after neighbours were purged, the router becomes a neighbour of the
  originator whose quality no other one exceeds, provided that all of them were measured for the interface;
  without neighbours there is no router.\<close>

theorem reelect_best:
  assumes "\<forall>n \<in> set (on_neigh_list (orig_of s o')). batadv_neigh_ifinfo_get s n i \<noteq> None"
    and "batadv_orig_ifinfo_get s o' i \<noteq> None"
    and "r' = batadv_orig_router_get (reelect batadv_iv_ogm_neigh_cmp o' i s) o' i"
  shows "(case r' of
      None \<Rightarrow> on_neigh_list (orig_of s o') = []
    | Some r \<Rightarrow> r \<in> set (on_neigh_list (orig_of s o')) \<and>
        (\<forall>n \<in> set (on_neigh_list (orig_of s o')). link_tq s n i \<le> link_tq s r i))"
proof (cases "on_neigh_list (orig_of s o') = []")
  case True
  then show ?thesis
    using assms(2,3) by (simp add: reelect_def update_route_router batadv_find_best_neighbor_def)
next
  case False
  have m: "\<forall>n \<in> set (on_neigh_list (orig_of s o')). iv_metric s n i = Some (uint (link_tq s n i))"
    using assms(1) by (auto simp: iv_metric_def link_tq_def)
  then have "\<forall>n \<in> set (on_neigh_list (orig_of s o')). iv_metric s n i \<noteq> None"
    by simp
  from iv_rank.best_neighbor [OF this False] obtain r where
    "batadv_find_best_neighbor batadv_iv_ogm_neigh_cmp s o' i = Some r" "r \<in> set (on_neigh_list (orig_of s o'))"
    "\<forall>n \<in> set (on_neigh_list (orig_of s o')). the (iv_metric s n i) \<le> the (iv_metric s r i)"
    by blast
  then show ?thesis
    using assms(2,3) m by (auto simp: reelect_def update_route_router word_le_def)
qed

text \<open>A state with one originator and the given neighbours, each with its quality on the interfaces it was measured for.\<close>

definition routes_example :: "(nat option \<times> u8) list list \<Rightarrow> batadv_priv" where
  "routes_example ns = (tvlv_example [] [])\<lparr>
     bp_origs := (\<lambda>o'. (orig_of (tvlv_example [] []) o')\<lparr>
       on_ifinfo_list := [\<lparr>oi_if_outgoing = None, oi_router = Some 0, oi_last_real_seqno = 0, oi_last_ttl = 0,
          oi_last_seqno_forwarded = 0, oi_batman_seqno_reset = 0\<rparr>],
       on_neigh_list := [0..<length ns]\<rparr>),
     bp_neighs := (\<lambda>n. \<lparr>nn_orig_node = 0, nn_addr = of_nat n,
       nn_ifinfo_list = (if n < length ns then map (\<lambda>(i, tq). (neigh_ifinfo_init i)\<lparr>ni_tq_avg := tq\<rparr>) (ns ! n) else []),
       nn_if_incoming = 0, nn_last_seen = 0\<rparr>)\<rparr>"

text \<open>A better neighbour takes over.\<close>

theorem router_replaced_by_better_witness:
  "let s = (routes_example [[(None, 100)], [(None, 200)]])\<lparr>bp_next_orig := 1\<rparr>;
       s' = batadv_iv_ogm_orig_update kenv_example 0 1 (ogm_example 50) 0 None BATADV_NO_DUP s
   in batadv_orig_router_get s 0 None = Some 0 \<and> batadv_orig_router_get s' 0 None = Some 1 \<and>
      nn_addr (neigh_of s' 1) = 1 \<and> link_tq s' 0 None \<le> link_tq s' 1 None"
proof -
  define s where "s = (routes_example [[(None, 100)], [(None, 200)]])\<lparr>bp_next_orig := 1\<rparr>"
  define s' where "s' = batadv_iv_ogm_orig_update kenv_example 0 1 (ogm_example 50) 0 None BATADV_NO_DUP s"
  have r: "batadv_orig_router_get s 0 None = Some 0" "batadv_orig_router_get s' 0 None = Some 1" "0 < bp_next_orig s"
    unfolding s'_def s_def by code_simp+
  have "nn_addr (neigh_of s' 1) = 1 \<and> link_tq s' 0 None \<le> link_tq s' 1 None"
    using router_replaced_by_better [OF r(3) s'_def refl] by (simp only: r) auto
  then show ?thesis
    using r unfolding s_def s'_def Let_def by blast
qed

theorem reelect_best_witness:
  "batadv_orig_router_get (reelect batadv_iv_ogm_neigh_cmp 0 None
     (routes_example [[(None, 100)], [(None, 200)], [(None, 150)]])) 0 None = Some 1"
proof -
  let ?s = "routes_example [[(None, 100)], [(None, 200)], [(None, 150)]]"
  let ?r = "batadv_orig_router_get (reelect batadv_iv_ogm_neigh_cmp 0 None ?s) 0 None"
  have l: "on_neigh_list (orig_of ?s 0) = [0, 1, 2]"
    by (simp add: routes_example_def upt_rec)
  have g: "batadv_neigh_ifinfo_get ?s n None = Some ((neigh_ifinfo_init None)\<lparr>ni_tq_avg := [100, 200, 150] ! n\<rparr>)"
    if "n < 3" for n
    using that by (auto simp: routes_example_def batadv_neigh_ifinfo_get_def neigh_ifinfo_init_def less_Suc_eq numeral_3_eq_3)
  have "\<forall>n \<in> set (on_neigh_list (orig_of ?s 0)). batadv_neigh_ifinfo_get ?s n None \<noteq> None"
    by (simp add: l g)
  moreover have "batadv_orig_ifinfo_get ?s 0 None \<noteq> None"
    by (simp add: routes_example_def batadv_orig_ifinfo_get_def)
  ultimately have "case ?r of None \<Rightarrow> on_neigh_list (orig_of ?s 0) = []
    | Some r \<Rightarrow> r \<in> set (on_neigh_list (orig_of ?s 0)) \<and>
        (\<forall>n \<in> set (on_neigh_list (orig_of ?s 0)). link_tq ?s n None \<le> link_tq ?s r None)"
    by (rule reelect_best [OF _ _ refl])
  then show ?thesis
    by (auto simp: l g link_tq_def split: option.splits)
qed

text \<open>A neighbour that was not measured for an interface is compared as equal to every other: when it is the
  first in the list, and so the newest, the others cannot beat it, and the election makes it the router
  whatever their quality.\<close>

theorem unmeasured_neighbour_wins:
  assumes "on_neigh_list (orig_of s o') = n # ns" "batadv_neigh_ifinfo_get s n i = None"
    and "batadv_orig_ifinfo_get s o' i \<noteq> None"
  shows "batadv_orig_router_get (reelect batadv_iv_ogm_neigh_cmp o' i s) o' i = Some n"
proof -
  have c: "batadv_iv_ogm_neigh_cmp s m i n i = 0" for m
    by (simp add: batadv_iv_ogm_neigh_cmp_def assms(2) split: option.split)
  have "fold (\<lambda>neigh best. case best of None \<Rightarrow> Some neigh
      | Some b \<Rightarrow> if batadv_iv_ogm_neigh_cmp s neigh i b i \<le> 0 then Some b else Some neigh) ns (Some n) = Some n"
    by (induction ns) (simp_all add: c)
  then show ?thesis
    using assms by (simp add: reelect_def update_route_router batadv_find_best_neighbor_def)
qed

theorem unmeasured_neighbour_wins_witness:
  "batadv_orig_router_get (reelect batadv_iv_ogm_neigh_cmp 0 None (routes_example [[], [(None, 255)]])) 0 None = Some 0"
proof (rule unmeasured_neighbour_wins)
  show "on_neigh_list (orig_of (routes_example [[], [(None, 255)]]) 0) = 0 # [1]"
    by (simp add: routes_example_def upt_rec)
qed (simp_all add: routes_example_def batadv_neigh_ifinfo_get_def batadv_orig_ifinfo_get_def)

section \<open>Duplicates\<close>

text \<open>Whether the window moves depends on the distance only.\<close>

definition window_moves :: "s32 \<Rightarrow> bool" where
  "window_moves d \<longleftrightarrow> \<not> (sint d \<le> 0 \<and> sint d > - 64)"

lemma bit_get_moved: "snd (batadv_bit_get_packet w d m) = window_moves d"
  by (auto simp: batadv_bit_get_packet_def window_moves_def Let_def)

lemma test_bit_after_receive:
  "batadv_test_bit (fst (batadv_bit_get_packet w (q - l) True)) (if window_moves (q - l) then q else l) q"
proof -
  have "window_receive (w, l) q True = (fst (batadv_bit_get_packet w (q - l) True), if window_moves (q - l) then q else l)"
    by (simp add: window_receive_def split_def bit_get_moved)
  then show ?thesis
    using received_window_receive [of w l q True] by (auto simp: received_def Let_def)
qed

text \<open>One neighbour of the loop leaves the others alone, and a found duplicate stays one.\<close>

abbreviation seqnos_step where
  "seqnos_step src q l i oi \<equiv> update_seqnos_neigh src q l i oi"

lemma ifinfo_new_frame:
  assumes "batadv_neigh_ifinfo_new n oi s = (ok, s')"
  shows "bp_origs s' = bp_origs s" "bp_orig_hash s' = bp_orig_hash s" "m \<noteq> n \<Longrightarrow> neigh_of s' m = neigh_of s m"
    "nn_addr (neigh_of s' m) = nn_addr (neigh_of s m)" "nn_if_incoming (neigh_of s' m) = nn_if_incoming (neigh_of s m)"
  using assms
  by (auto simp: batadv_neigh_ifinfo_new_def kzalloc_eq Let_def neigh_mod_def split: if_splits)

lemma seqnos_step_frame:
  assumes "update_seqnos_neigh src q l i oi n (r, u, s) = (r', u', s')"
  shows "bp_origs s' = bp_origs s" "bp_orig_hash s' = bp_orig_hash s" "m \<noteq> n \<Longrightarrow> neigh_of s' m = neigh_of s m"
    "nn_addr (neigh_of s' m) = nn_addr (neigh_of s m)" "nn_if_incoming (neigh_of s' m) = nn_if_incoming (neigh_of s m)"
    "r = BATADV_NEIGH_DUP \<Longrightarrow> r' = BATADV_NEIGH_DUP" "u \<Longrightarrow> u'" "u' \<Longrightarrow> u \<or> window_moves (q - l)"
proof -
  obtain ok t where t: "batadv_neigh_ifinfo_new n oi s = (ok, t)" by fastforce
  note f = ifinfo_new_frame [OF t]
  have b: "snd (batadv_bit_get_packet w (q - l) m) = window_moves (q - l)" for w m
    by (rule bit_get_moved)
  show "bp_origs s' = bp_origs s" "bp_orig_hash s' = bp_orig_hash s" "m \<noteq> n \<Longrightarrow> neigh_of s' m = neigh_of s m"
    "nn_addr (neigh_of s' m) = nn_addr (neigh_of s m)" "nn_if_incoming (neigh_of s' m) = nn_if_incoming (neigh_of s m)"
    "r = BATADV_NEIGH_DUP \<Longrightarrow> r' = BATADV_NEIGH_DUP" "u \<Longrightarrow> u'" "u' \<Longrightarrow> u \<or> window_moves (q - l)"
    using assms f
    by (auto simp: update_seqnos_neigh_def t Let_def split_def b neigh_ifinfo_mod_def neigh_mod_def
        split: option.splits if_splits)
qed

lemma seqnos_fold_frame:
  assumes "fold (update_seqnos_neigh src q l i oi) ns (r, u, s) = (r', u', s')"
  shows "bp_origs s' = bp_origs s" "bp_orig_hash s' = bp_orig_hash s" "m \<notin> set ns \<Longrightarrow> neigh_of s' m = neigh_of s m"
    "nn_addr (neigh_of s' m) = nn_addr (neigh_of s m)" "nn_if_incoming (neigh_of s' m) = nn_if_incoming (neigh_of s m)"
    "r = BATADV_NEIGH_DUP \<Longrightarrow> r' = BATADV_NEIGH_DUP" "u \<Longrightarrow> u'" "u' \<Longrightarrow> u \<or> window_moves (q - l)"
proof -
  have "bp_origs s' = bp_origs s \<and> bp_orig_hash s' = bp_orig_hash s \<and> (m \<notin> set ns \<longrightarrow> neigh_of s' m = neigh_of s m) \<and>
    nn_addr (neigh_of s' m) = nn_addr (neigh_of s m) \<and> nn_if_incoming (neigh_of s' m) = nn_if_incoming (neigh_of s m) \<and>
    (r = BATADV_NEIGH_DUP \<longrightarrow> r' = BATADV_NEIGH_DUP) \<and> (u \<longrightarrow> u') \<and> (u' \<longrightarrow> u \<or> window_moves (q - l))"
    using assms
  proof (induction ns arbitrary: r u s)
    case Nil
    then show ?case by simp
  next
    case (Cons n ns)
    obtain r1 u1 s1 where a: "update_seqnos_neigh src q l i oi n (r, u, s) = (r1, u1, s1)" by (metis prod_cases3)
    have "fold (update_seqnos_neigh src q l i oi) ns (r1, u1, s1) = (r', u', s')"
      using Cons.prems a by simp
    from Cons.IH [OF this] seqnos_step_frame [OF a] show ?case by auto
  qed
  then show "bp_origs s' = bp_origs s" "bp_orig_hash s' = bp_orig_hash s" "m \<notin> set ns \<Longrightarrow> neigh_of s' m = neigh_of s m"
    "nn_addr (neigh_of s' m) = nn_addr (neigh_of s m)" "nn_if_incoming (neigh_of s' m) = nn_if_incoming (neigh_of s m)"
    "r = BATADV_NEIGH_DUP \<Longrightarrow> r' = BATADV_NEIGH_DUP" "u \<Longrightarrow> u'" "u' \<Longrightarrow> u \<or> window_moves (q - l)"
    by blast+
qed

text \<open>The neighbour the OGM came from: its window takes the number in.\<close>

lemma neigh_ifinfo_get_mod:
  assumes "\<And>x. ni_if_outgoing (f x) = ni_if_outgoing x"
  shows "batadv_neigh_ifinfo_get (neigh_ifinfo_mod n i f s) n i = map_option f (batadv_neigh_ifinfo_get s n i)"
  unfolding batadv_neigh_ifinfo_get_def neigh_ifinfo_mod_def neigh_mod_simps if_True batadv_neigh_node.simps
  by (simp add: find_update_first assms)

lemma seqnos_step_own:
  assumes "batadv_neigh_ifinfo_get s n oi = Some x" "nn_addr (neigh_of s n) = src" "nn_if_incoming (neigh_of s n) = i"
    and "update_seqnos_neigh src q l i oi n (r, u, s) = (r', u', s')"
  shows "batadv_test_bit (ni_real_bits x) l q \<Longrightarrow> r' = BATADV_NEIGH_DUP" "u' \<longleftrightarrow> u \<or> window_moves (q - l)"
    "\<exists>x'. batadv_neigh_ifinfo_get s' n oi = Some x' \<and> ni_real_bits x' = fst (batadv_bit_get_packet (ni_real_bits x) (q - l) True)"
proof -
  have t: "batadv_neigh_ifinfo_new n oi s = (True, s)"
    using assms(1) by (simp add: batadv_neigh_ifinfo_new_def)
  obtain w m where w: "batadv_bit_get_packet (ni_real_bits x) (q - l) True = (w, m)" by fastforce
  then have m: "m = window_moves (q - l)" by (metis bit_get_moved snd_conv)
  have e: "r' = (if batadv_test_bit (ni_real_bits x) l q then BATADV_NEIGH_DUP else r)" "u' = (u \<or> m)"
    "s' = neigh_ifinfo_mod n oi (\<lambda>i. i\<lparr>ni_real_bits := w, ni_real_packet_count := of_nat (bitmap_weight w)\<rparr>) s"
    using assms(4) by (simp_all add: update_seqnos_neigh_def t assms(1-3) w)
  show "batadv_test_bit (ni_real_bits x) l q \<Longrightarrow> r' = BATADV_NEIGH_DUP" "u' \<longleftrightarrow> u \<or> window_moves (q - l)"
    "\<exists>x'. batadv_neigh_ifinfo_get s' n oi = Some x' \<and> ni_real_bits x' = fst (batadv_bit_get_packet (ni_real_bits x) (q - l) True)"
    by (simp_all add: e m w neigh_ifinfo_get_mod assms(1))
qed

text \<open>The loop over all neighbours, one of which the OGM came from.\<close>

lemma seqnos_fold_own:
  assumes "distinct ns" "n \<in> set ns" "batadv_neigh_ifinfo_get s n oi = Some x"
    and "nn_addr (neigh_of s n) = src" "nn_if_incoming (neigh_of s n) = i"
    and f: "fold (update_seqnos_neigh src q l i oi) ns (r, u, s) = (r', u', s')"
  shows "batadv_test_bit (ni_real_bits x) l q \<Longrightarrow> r' = BATADV_NEIGH_DUP" "u' \<longleftrightarrow> u \<or> window_moves (q - l)"
    "\<exists>x'. batadv_neigh_ifinfo_get s' n oi = Some x' \<and> ni_real_bits x' = fst (batadv_bit_get_packet (ni_real_bits x) (q - l) True)"
proof -
  obtain as bs where ns: "ns = as @ n # bs" "n \<notin> set as" "n \<notin> set bs"
    using split_list [OF assms(2)] assms(1) by auto
  obtain r1 u1 s1 where a: "fold (update_seqnos_neigh src q l i oi) as (r, u, s) = (r1, u1, s1)" by (metis prod_cases3)
  obtain r2 u2 s2 where b: "update_seqnos_neigh src q l i oi n (r1, u1, s1) = (r2, u2, s2)" by (metis prod_cases3)
  have c: "fold (update_seqnos_neigh src q l i oi) bs (r2, u2, s2) = (r', u', s')"
    using f a b by (simp add: ns(1))
  note fa = seqnos_fold_frame [OF a] and fc = seqnos_fold_frame [OF c]
  have g: "batadv_neigh_ifinfo_get s1 n oi = Some x"
    using fa(3) [OF ns(2)] assms(3) by (simp add: batadv_neigh_ifinfo_get_def)
  note ob = seqnos_step_own [OF g _ _ b, unfolded fa(4) fa(5), OF assms(4,5)]
  show "batadv_test_bit (ni_real_bits x) l q \<Longrightarrow> r' = BATADV_NEIGH_DUP"
    using ob(1) fc(6) by simp
  show "u' \<longleftrightarrow> u \<or> window_moves (q - l)"
    using fa(7,8) ob(2) fc(7,8) by blast
  show "\<exists>x'. batadv_neigh_ifinfo_get s' n oi = Some x' \<and> ni_real_bits x' = fst (batadv_bit_get_packet (ni_real_bits x) (q - l) True)"
    using ob(3) fc(3) [OF ns(3)] by (simp add: batadv_neigh_ifinfo_get_def)
qed

text \<open>C33: An OGM that arrives twice from a known neighbour is recognised. The originator is in the table, it
  has been seen on the outgoing interface, its neighbours are distinct, and the neighbour is one of them and
  was measured for the outgoing interface. Then, unless the number was refused as out of range the first time,
  a second look at the windows right after the first reports a duplicate of that neighbour, whichever
  duplicates the other neighbours report. The first OGM of a new neighbour is not covered: the windows are
  looked at before the neighbour is created.\<close>

theorem duplicate_recognised:
  assumes "batadv_orig_hash_find k s (og_orig ogm) = Some o'" "distinct (on_neigh_list (orig_of s o'))"
    and "batadv_neigh_node_get s o' i src = Some n"
    and "batadv_neigh_ifinfo_get s n oi \<noteq> None" "batadv_orig_ifinfo_get s o' oi \<noteq> None"
    and first: "batadv_iv_ogm_update_seqnos k src ogm i oi s = (r, s')" "r \<noteq> BATADV_PROTECTED"
  shows "fst (batadv_iv_ogm_update_seqnos k src ogm i oi s') = BATADV_NEIGH_DUP"
proof -
  let ?q = "og_seqno ogm" and ?ns = "on_neigh_list (orig_of s o')"
  obtain x where x: "batadv_neigh_ifinfo_get s n oi = Some x" using assms(4) by blast
  obtain y where y: "batadv_orig_ifinfo_get s o' oi = Some y" using assms(5) by blast
  let ?l = "oi_last_real_seqno y"
  let ?set = "\<lambda>v. orig_ifinfo_mod o' oi (\<lambda>i. i\<lparr>oi_batman_seqno_reset := v\<rparr>)"
  have n: "n \<in> set ?ns" "nn_addr (neigh_of s n) = src" "nn_if_incoming (neigh_of s n) = i"
    using assms(3) by (auto simp: batadv_neigh_node_get_def find_Some_iff batadv_compare_eth_def)
  then have ne: "?ns \<noteq> []" by auto
  have eq: "batadv_iv_ogm_update_seqnos k src ogm i oi t =
      (let (prot, reset, started) = batadv_window_protected k (?q - oi_last_real_seqno z) 64 (oi_batman_seqno_reset z);
           t = ?set reset t
       in if prot then (BATADV_PROTECTED, t)
          else (let (r, u, t) = fold (update_seqnos_neigh src ?q (oi_last_real_seqno z) i oi) ?ns (BATADV_NO_DUP, False, t)
                in (r, if u then orig_ifinfo_mod o' oi (\<lambda>i. i\<lparr>oi_last_real_seqno := ?q\<rparr>) t else t)))"
    if "batadv_orig_hash_find k t (og_orig ogm) = Some o'" "batadv_orig_ifinfo_get t o' oi = Some z"
      "on_neigh_list (orig_of t o') = ?ns" for t z
    using that ne by (simp add: batadv_iv_ogm_update_seqnos_def batadv_iv_ogm_orig_get_def batadv_orig_ifinfo_new_def Let_def)
  obtain prot reset started where w: "batadv_window_protected k (?q - ?l) 64 (oi_batman_seqno_reset y) = (prot, reset, started)"
    by (metis prod_cases3)
  note e1 = eq [OF assms(1) y refl, unfolded first w Let_def prod.case]
  have "\<not> prot"
    using e1 first(2) by (auto split: if_splits)
  obtain r1 u1 s1 where f: "fold (update_seqnos_neigh src ?q ?l i oi) ?ns (BATADV_NO_DUP, False, ?set reset s) = (r1, u1, s1)"
    by (metis prod_cases3)
  have s': "s' = (if u1 then orig_ifinfo_mod o' oi (\<lambda>i. i\<lparr>oi_last_real_seqno := ?q\<rparr>) s1 else s1)"
    using e1 \<open>\<not> prot\<close> f by simp
  have nb: "neigh_of (?set v t) = neigh_of t" for v t
    by (simp add: orig_ifinfo_mod_def orig_mod_simps)
  have x1: "batadv_neigh_ifinfo_get (?set reset s) n oi = Some x"
    using x by (simp add: batadv_neigh_ifinfo_get_def nb)
  note own1 = seqnos_fold_own [OF assms(2) n(1) x1 _ _ f, unfolded nb, OF n(2,3)]
  note fr = seqnos_fold_frame [OF f]
  let ?l' = "if window_moves (?q - ?l) then ?q else ?l"
  have z1: "batadv_orig_ifinfo_get s1 o' oi = Some (y\<lparr>oi_batman_seqno_reset := reset\<rparr>)"
  proof -
    have "batadv_orig_ifinfo_get s1 o' oi = batadv_orig_ifinfo_get (?set reset s) o' oi"
      using fr(1) by (simp add: batadv_orig_ifinfo_get_def)
    then show ?thesis by (simp add: ifinfo_get_mod y)
  qed
  then obtain z where z: "batadv_orig_ifinfo_get s' o' oi = Some z" "oi_last_real_seqno z = ?l'"
    using own1(2) by (cases u1) (auto simp: s' ifinfo_get_mod)
  have nl: "on_neigh_list (orig_of s' o') = ?ns"
    using fr(1) by (auto simp: s' orig_ifinfo_mod_def orig_mod_def)
  have h: "batadv_orig_hash_find k s' (og_orig ogm) = Some o'"
    using fr(2) assms(1) by (auto simp: s' orig_ifinfo_mod_def orig_mod_def batadv_orig_hash_find_def)
  have nn: "neigh_of s' = neigh_of s1"
    by (simp add: s' orig_ifinfo_mod_def orig_mod_simps)
  obtain x' where x': "batadv_neigh_ifinfo_get s1 n oi = Some x'"
      "ni_real_bits x' = fst (batadv_bit_get_packet (ni_real_bits x) (?q - ?l) True)"
    using own1(3) by blast
  have t: "batadv_test_bit (ni_real_bits x') ?l' ?q"
    unfolding x'(2) by (rule test_bit_after_receive)
  have p: "fst (batadv_window_protected k (?q - ?l') 64 v) = False" for v
    by (auto simp: batadv_window_protected_def window_moves_def)
  obtain reset' started' where w': "batadv_window_protected k (?q - ?l') 64 (oi_batman_seqno_reset z) = (False, reset', started')"
    using p [of "oi_batman_seqno_reset z"]
    by (cases "batadv_window_protected k (?q - ?l') 64 (oi_batman_seqno_reset z)") auto
  obtain r2 u2 s2 where f2: "fold (update_seqnos_neigh src ?q ?l' i oi) ?ns (BATADV_NO_DUP, False, ?set reset' s') = (r2, u2, s2)"
    by (metis prod_cases3)
  have x2: "batadv_neigh_ifinfo_get (?set reset' s') n oi = Some x'"
    using x'(1) by (simp add: batadv_neigh_ifinfo_get_def nb nn)
  have n2: "nn_addr (neigh_of (?set reset' s') n) = src" "nn_if_incoming (neigh_of (?set reset' s') n) = i"
    using fr(4,5) [of n] n(2,3) by (simp_all add: nb nn)
  show ?thesis
    unfolding eq [OF h z(1) nl] z(2) w' Let_def prod.case if_False f2 fst_conv
    by (rule seqnos_fold_own(1) [OF assms(2) n(1) x2 n2 f2 t])
qed

theorem duplicate_recognised_witness:
  "\<exists>s r s'. batadv_iv_ogm_update_seqnos kenv_example 0 (ogm_example 50) 0 None s = (r, s') \<and>
     r = BATADV_NO_DUP \<and> fst (batadv_iv_ogm_update_seqnos kenv_example 0 (ogm_example 50) 0 None s') = BATADV_NEIGH_DUP"
proof -
  let ?s = "(routes_example [[(None, 200)]])\<lparr>bp_orig_hash := Some \<lparr>ht_table = [[(1, 0)]], ht_size = 1\<rparr>\<rparr>"
  obtain r s' where f: "batadv_iv_ogm_update_seqnos kenv_example 0 (ogm_example 50) 0 None ?s = (r, s')" by fastforce
  have h: "batadv_orig_hash_find kenv_example ?s (og_orig (ogm_example 50)) = Some 0"
    by (simp add: batadv_orig_hash_find_def hash_lookup_def batadv_compare_orig_def batadv_compare_eth_def
        batadv_choose_orig_def kenv_example_def ogm_example_def)
  have n: "batadv_neigh_node_get ?s 0 0 0 = Some 0" "distinct (on_neigh_list (orig_of ?s 0))"
    "batadv_neigh_ifinfo_get ?s 0 None \<noteq> None" "batadv_orig_ifinfo_get ?s 0 None \<noteq> None"
    by (simp_all add: routes_example_def batadv_neigh_node_get_def batadv_compare_eth_def
        batadv_neigh_ifinfo_get_def neigh_ifinfo_init_def batadv_orig_ifinfo_get_def)
  have "fst (batadv_iv_ogm_update_seqnos kenv_example 0 (ogm_example 50) 0 None ?s) = BATADV_NO_DUP"
    by code_simp
  then have "r = BATADV_NO_DUP"
    by (simp add: f)
  then show ?thesis
    using duplicate_recognised [OF h n(2,1,3,4) f] f by auto
qed

end
