(* ===== verification/Tt_Local.thy ===== *)
theory Tt_Local
  imports Tvlv
begin

text \<open>
  The translation table, first half of \<open>translation-table.c\<close>: the clients behind this node.
  A pointer to an entry is its key, address and VLAN, as every entry that is written to is
  in its table. A change to a client is an event in \<open>tt_changes_list\<close>, to be sent with
  the next OGM; an entry is \<open>NEW\<close> until then, a removed one \<open>PENDING\<close>.

  The VLANs of the soft interface (\<open>soft-interface.c\<close>) are counted references: a local
  client holds one on its VLAN, and the VLAN leaves the list with the last one.
\<close>

section \<open>Flags\<close>

abbreviation (input) BATADV_TT_CLIENT_DEL :: u16 where "BATADV_TT_CLIENT_DEL \<equiv> 0x1"
abbreviation (input) BATADV_TT_CLIENT_ROAM :: u16 where "BATADV_TT_CLIENT_ROAM \<equiv> 0x2"
abbreviation (input) BATADV_TT_CLIENT_WIFI :: u16 where "BATADV_TT_CLIENT_WIFI \<equiv> 0x10"
abbreviation (input) BATADV_TT_CLIENT_ISOLA :: u16 where "BATADV_TT_CLIENT_ISOLA \<equiv> 0x20"
abbreviation (input) BATADV_TT_CLIENT_NOPURGE :: u16 where "BATADV_TT_CLIENT_NOPURGE \<equiv> 0x100"
abbreviation (input) BATADV_TT_CLIENT_NEW :: u16 where "BATADV_TT_CLIENT_NEW \<equiv> 0x200"
abbreviation (input) BATADV_TT_CLIENT_PENDING :: u16 where "BATADV_TT_CLIENT_PENDING \<equiv> 0x400"
abbreviation (input) BATADV_TT_CLIENT_TEMP :: u16 where "BATADV_TT_CLIENT_TEMP \<equiv> 0x800"
abbreviation (input) BATADV_TT_REMOTE_MASK :: u16 where "BATADV_TT_REMOTE_MASK \<equiv> 0x00FF"
abbreviation (input) BATADV_TT_SYNC_MASK :: u16 where "BATADV_TT_SYNC_MASK \<equiv> 0x00F0"
abbreviation (input) BATADV_TVLV_TT :: u8 where "BATADV_TVLV_TT \<equiv> 4"
abbreviation (input) BATADV_TVLV_ROAM :: u8 where "BATADV_TVLV_ROAM \<equiv> 5"

definition has_flag :: "u16 \<Rightarrow> u16 \<Rightarrow> bool" where
  "has_flag flags m \<longleftrightarrow> flags AND m \<noteq> 0"

definition tt_flag_set :: "u16 \<Rightarrow> batadv_tt_common_entry \<Rightarrow> batadv_tt_common_entry" where
  "tt_flag_set m c = c\<lparr>tt_flags := tt_flags c OR m\<rparr>"

definition tt_flag_clear :: "u16 \<Rightarrow> batadv_tt_common_entry \<Rightarrow> batadv_tt_common_entry" where
  "tt_flag_clear m c = c\<lparr>tt_flags := tt_flags c AND NOT m\<rparr>"

section \<open>The two tables\<close>

type_synonym tt_key = "mac \<times> vid"

definition tt_key :: "batadv_tt_common_entry \<Rightarrow> tt_key" where
  "tt_key c = (tt_addr c, tt_vid c)"

definition batadv_compare_tt :: "batadv_tt_common_entry \<Rightarrow> tt_key \<Rightarrow> bool" where
  "batadv_compare_tt tt1 tt2 \<longleftrightarrow> tt_vid tt1 = snd tt2 \<and> batadv_compare_eth (tt_addr tt1) (fst tt2)"

definition batadv_choose_tt :: "kenv \<Rightarrow> tt_key \<Rightarrow> u32 \<Rightarrow> u32" where
  "batadv_choose_tt k tt sz =
     (let hash = k_jhash k (mac_bytes (fst tt)) 0;
          hash = k_jhash k (vid_bytes (snd tt)) hash
      in hash mod sz)"

definition batadv_tt_hash_find ::
  "kenv \<Rightarrow> ('a \<Rightarrow> batadv_tt_common_entry) \<Rightarrow> 'a hashtable option \<Rightarrow> mac \<Rightarrow> vid \<Rightarrow> 'a option" where
  "batadv_tt_hash_find k common hash addr vid =
     (case hash of
        None \<Rightarrow> None
      | Some h \<Rightarrow> hash_lookup h (\<lambda>e. batadv_compare_tt (common e)) (batadv_choose_tt k) (addr, vid))"

definition batadv_tt_local_hash_find ::
  "kenv \<Rightarrow> batadv_priv \<Rightarrow> mac \<Rightarrow> vid \<Rightarrow> batadv_tt_local_entry option" where
  "batadv_tt_local_hash_find k s = batadv_tt_hash_find k tl_common (tt_local_hash (bp_tt s))"

definition batadv_tt_global_hash_find ::
  "kenv \<Rightarrow> batadv_priv \<Rightarrow> mac \<Rightarrow> vid \<Rightarrow> batadv_tt_global_entry option" where
  "batadv_tt_global_hash_find k s = batadv_tt_hash_find k tg_common (tt_global_hash (bp_tt s))"

interpretation tt_local_ht: hash_key "\<lambda>e. tt_key (tl_common e)" "\<lambda>e. batadv_compare_tt (tl_common e)"
    "batadv_choose_tt k" for k
  by unfold_locales
    (auto simp: batadv_compare_tt_def tt_key_def batadv_choose_tt_def Let_def word_mod_less_divisor prod_eq_iff)

interpretation tt_global_ht: hash_key "\<lambda>e. tt_key (tg_common e)" "\<lambda>e. batadv_compare_tt (tg_common e)"
    "batadv_choose_tt k" for k
  by unfold_locales
    (auto simp: batadv_compare_tt_def tt_key_def batadv_choose_tt_def Let_def word_mod_less_divisor prod_eq_iff)

definition tt_mod :: "(batadv_priv_tt \<Rightarrow> batadv_priv_tt) \<Rightarrow> batadv_priv \<Rightarrow> batadv_priv" where
  "tt_mod f s = s\<lparr>bp_tt := f (bp_tt s)\<rparr>"

text \<open>Writing through a pointer to an entry, and the entries in the order of the loops.\<close>

definition tt_local_mod ::
  "tt_key \<Rightarrow> (batadv_tt_local_entry \<Rightarrow> batadv_tt_local_entry) \<Rightarrow> batadv_priv \<Rightarrow> batadv_priv" where
  "tt_local_mod key f =
     tt_mod (tt_local_hash_update (map_option (hash_map (\<lambda>e. if tt_key (tl_common e) = key then f e else e))))"

definition tt_global_mod ::
  "tt_key \<Rightarrow> (batadv_tt_global_entry \<Rightarrow> batadv_tt_global_entry) \<Rightarrow> batadv_priv \<Rightarrow> batadv_priv" where
  "tt_global_mod key f =
     tt_mod (tt_global_hash_update (map_option (hash_map (\<lambda>e. if tt_key (tg_common e) = key then f e else e))))"

definition tt_locals :: "batadv_priv \<Rightarrow> batadv_tt_local_entry list" where
  "tt_locals s = (case tt_local_hash (bp_tt s) of None \<Rightarrow> [] | Some h \<Rightarrow> hash_elems h)"

definition tt_globals :: "batadv_priv \<Rightarrow> batadv_tt_global_entry list" where
  "tt_globals s = (case tt_global_hash (bp_tt s) of None \<Rightarrow> [] | Some h \<Rightarrow> hash_elems h)"

definition batadv_tt_global_hash_count :: "kenv \<Rightarrow> mac \<Rightarrow> vid \<Rightarrow> batadv_priv \<Rightarrow> int" where
  "batadv_tt_global_hash_count k addr vid s =
     (case batadv_tt_global_hash_find k s addr vid of None \<Rightarrow> 0 | Some e \<Rightarrow> tg_orig_list_count e)"

section \<open>VLANs of the soft interface\<close>

definition softif_vlan_mod ::
  "vid \<Rightarrow> (batadv_softif_vlan \<Rightarrow> batadv_softif_vlan) \<Rightarrow> batadv_priv \<Rightarrow> batadv_priv" where
  "softif_vlan_mod vid f s =
     s\<lparr>bp_softif_vlan_list := update_first (\<lambda>v. sv_vid v = vid) f (bp_softif_vlan_list s)\<rparr>"

definition batadv_softif_vlan_get :: "vid \<Rightarrow> batadv_priv \<Rightarrow> batadv_softif_vlan option \<times> batadv_priv" where
  "batadv_softif_vlan_get vid s =
     (case find (\<lambda>v. sv_vid v = vid) (bp_softif_vlan_list s) of
        None \<Rightarrow> (None, s)
      | Some vlan \<Rightarrow> (Some vlan, softif_vlan_mod vid (\<lambda>v. v\<lparr>sv_refcount := sv_refcount v + 1\<rparr>) s))"

text \<open>The last reference takes the VLAN out of the list.\<close>

definition batadv_softif_vlan_put :: "vid \<Rightarrow> batadv_priv \<Rightarrow> batadv_priv" where
  "batadv_softif_vlan_put vid s =
     (let s = softif_vlan_mod vid (\<lambda>v. v\<lparr>sv_refcount := sv_refcount v - 1\<rparr>) s
      in s\<lparr>bp_softif_vlan_list := filter (\<lambda>v. \<not> (sv_vid v = vid \<and> sv_refcount v = 0)) (bp_softif_vlan_list s)\<rparr>)"

definition batadv_vlan_ap_isola_get :: "vid \<Rightarrow> batadv_priv \<Rightarrow> bool" where
  "batadv_vlan_ap_isola_get vid s =
     (case find (\<lambda>v. sv_vid v = vid) (bp_softif_vlan_list s) of
        None \<Rightarrow> False
      | Some vlan \<Rightarrow> sv_ap_isolation vlan)"

definition batadv_tt_local_size_mod :: "vid \<Rightarrow> int \<Rightarrow> batadv_priv \<Rightarrow> batadv_priv" where
  "batadv_tt_local_size_mod vid v s =
     (case batadv_softif_vlan_get vid s of
        (None, s) \<Rightarrow> s
      | (Some _, s) \<Rightarrow>
          batadv_softif_vlan_put vid (softif_vlan_mod vid (\<lambda>x. x\<lparr>sv_num_entries := sv_num_entries x + v\<rparr>) s))"

definition batadv_tt_local_size_inc :: "vid \<Rightarrow> batadv_priv \<Rightarrow> batadv_priv" where
  "batadv_tt_local_size_inc vid = batadv_tt_local_size_mod vid 1"

definition batadv_tt_local_size_dec :: "vid \<Rightarrow> batadv_priv \<Rightarrow> batadv_priv" where
  "batadv_tt_local_size_dec vid = batadv_tt_local_size_mod vid (- 1)"

section \<open>Events\<close>

text \<open>
  The loop over the events of this interval, and whether it cancelled an earlier one. It
  compares the address only.
\<close>

fun tt_event_merge ::
  "mac \<Rightarrow> u8 \<Rightarrow> batadv_tvlv_tt_change list \<Rightarrow> bool \<times> batadv_tvlv_tt_change list" where
  "tt_event_merge addr flags [] = (False, [])"
| "tt_event_merge addr flags (entry # rest) =
     (if \<not> batadv_compare_eth (ch_addr entry) addr then
        (let (removed, rest) = tt_event_merge addr flags rest in (removed, entry # rest))
      else
        (let del_op_requested = (flags AND 1 \<noteq> 0);
             del_op_entry = (ch_flags entry AND 1 \<noteq> 0)
         in if \<not> del_op_requested \<and> del_op_entry then (True, rest)
            else if del_op_requested \<and> \<not> del_op_entry then (True, rest)
            else
              (let entry = (if \<not> del_op_requested \<and> \<not> del_op_entry then entry\<lparr>ch_flags := flags\<rparr> else entry);
                   (removed, rest) = tt_event_merge addr flags rest
               in (removed, entry # rest))))"

definition batadv_tt_local_event :: "kenv \<Rightarrow> tt_key \<Rightarrow> u16 \<Rightarrow> batadv_priv \<Rightarrow> batadv_priv" where
  "batadv_tt_local_event k key event_flags s =
     (case batadv_tt_local_hash_find k s (fst key) (snd key) of
        None \<Rightarrow> s
      | Some tt_local_entry \<Rightarrow>
          (let common = tl_common tt_local_entry;
               flags = (ucast (tt_flags common OR event_flags) :: u8);
               (ok, s) = kzalloc s
           in if \<not> ok then s
              else
                (let change = \<lparr>ch_flags = flags, ch_reserved = 0, ch_addr = tt_addr common, ch_vid = tt_vid common\<rparr>;
                     (event_removed, changes) = tt_event_merge (tt_addr common) flags (tt_changes_list (bp_tt s))
                 in if event_removed
                    then tt_mod (\<lambda>t. t\<lparr>tt_changes_list := changes, tt_local_changes := tt_local_changes t - 1\<rparr>) s
                    else tt_mod (\<lambda>t. t\<lparr>tt_changes_list := changes @ [change],
                                       tt_local_changes := tt_local_changes t + 1\<rparr>) s)))"

definition batadv_tt_len :: "int \<Rightarrow> int" where
  "batadv_tt_len changes_num = changes_num * 12"

definition batadv_tt_entries :: "u16 \<Rightarrow> u16" where
  "batadv_tt_entries tt_len = tt_len div 12"

text \<open>The counters of the VLANs, added up in 16 bits.\<close>

definition tt_num_entries :: "int list \<Rightarrow> u16" where
  "tt_num_entries ns = fold (\<lambda>n num_entries. num_entries + of_int n) ns 0"

definition batadv_tt_local_table_transmit_size :: "batadv_priv \<Rightarrow> int" where
  "batadv_tt_local_table_transmit_size s =
     (let num_vlan = (of_nat (length (bp_softif_vlan_list s)) :: u16);
          tt_local_entries = tt_num_entries (map sv_num_entries (bp_softif_vlan_list s));
          hdr_size = 20 + 4 + 4 + uint num_vlan * 8
      in hdr_size + batadv_tt_len (uint tt_local_entries))"

section \<open>Roaming advertisements\<close>

text \<open>
  A client that roams more than \<open>BATADV_ROAMING_MAX_COUNT\<close> times in
  \<open>BATADV_ROAMING_MAX_TIME\<close> is no longer advertised.
\<close>

definition batadv_tt_check_roam_count :: "kenv \<Rightarrow> mac \<Rightarrow> batadv_priv \<Rightarrow> bool \<times> batadv_priv" where
  "batadv_tt_check_roam_count k client s =
     (let current = (\<lambda>n. batadv_compare_eth (rm_addr n) client \<and> \<not> batadv_has_timed_out k (rm_first_time n) 20000)
      in case find current (tt_roam_list (bp_tt s)) of
           Some n \<Rightarrow>
             if rm_counter n = 0 then (False, s)
             else (True, tt_mod (\<lambda>t. t\<lparr>tt_roam_list :=
                     update_first current (\<lambda>n. n\<lparr>rm_counter := rm_counter n - 1\<rparr>) (tt_roam_list t)\<rparr>) s)
         | None \<Rightarrow>
             (let (ok, s) = kzalloc s
              in if \<not> ok then (False, s)
                 else (True, tt_mod (\<lambda>t. t\<lparr>tt_roam_list :=
                         \<lparr>rm_addr = client, rm_counter = 5 - 1, rm_first_time = k_jiffies k\<rparr> # tt_roam_list t\<rparr>) s)))"

definition batadv_send_roam_adv :: "kenv \<Rightarrow> mac \<Rightarrow> vid \<Rightarrow> nat \<Rightarrow> batadv_priv \<Rightarrow> batadv_priv" where
  "batadv_send_roam_adv k client vid orig_node s =
     (case bp_primary_if s of
        None \<Rightarrow> s
      | Some primary_if \<Rightarrow>
          (let (ok, s) = batadv_tt_check_roam_count k client s
           in if \<not> ok then s
              else batadv_tvlv_unicast_send k (hi_dev_addr (hardif_of s primary_if)) (on_orig (orig_of s orig_node))
                     BATADV_TVLV_ROAM 1 (be_bytes 6 client @ be_bytes 2 vid) 8 s))"

section \<open>Adding a local client\<close>

definition batadv_tt_local_init :: "batadv_priv \<Rightarrow> int \<times> batadv_priv" where
  "batadv_tt_local_init s =
     (if tt_local_hash (bp_tt s) \<noteq> None then (0, s)
      else
        (let (ok, s) = kzalloc s;
             s = tt_mod (\<lambda>t. t\<lparr>tt_local_hash := batadv_hash_new ok 1024\<rparr>) s
         in if tt_local_hash (bp_tt s) = None then (- 12, s) else (0, s)))"

text \<open>
  The table gives its reference to the entry back. The originators that the entry lists
  are released with its last reference, which the caller holds.
\<close>

definition batadv_tt_global_free :: "kenv \<Rightarrow> tt_key \<Rightarrow> batadv_priv \<Rightarrow> batadv_priv" where
  "batadv_tt_global_free k key =
     tt_mod (tt_global_hash_update (map_option (\<lambda>h. snd (batadv_hash_remove h
       (\<lambda>e. batadv_compare_tt (tg_common e)) (batadv_choose_tt k) key))))"

definition in_dev_wifi :: "nat \<Rightarrow> batadv_priv \<Rightarrow> bool" where
  "in_dev_wifi ifindex s \<longleftrightarrow> ifindex \<noteq> 0 \<and> bp_wifi_dev s ifindex"

text \<open>A client that is not in the table. The result: was it added?\<close>

definition tt_local_create :: "kenv \<Rightarrow> tt_key \<Rightarrow> nat \<Rightarrow> batadv_priv \<Rightarrow> bool \<times> batadv_priv" where
  "tt_local_create k key ifindex s =
     (if batadv_tt_local_table_transmit_size s + batadv_tt_len 1 > bp_packet_size_max s then (False, s)
      else
        (let (ok, s) = kzalloc s in
         if \<not> ok then (False, s)
         else
           (case batadv_softif_vlan_get (snd key) s of
              (None, s) \<Rightarrow> (False, s)
            | (Some _, s) \<Rightarrow>
                (let flags = BATADV_TT_CLIENT_NEW OR (if in_dev_wifi ifindex s then BATADV_TT_CLIENT_WIFI else 0)
                       OR (if batadv_compare_eth (fst key) (bp_soft_addr s) \<or> is_multicast_ether_addr (fst key)
                           then BATADV_TT_CLIENT_NOPURGE else 0);
                     tt_local = \<lparr>tl_common = \<lparr>tt_addr = fst key, tt_vid = snd key, tt_flags = flags,
                                               tt_added_at = k_jiffies k\<rparr>,
                                 tl_last_seen = k_jiffies k\<rparr>;
                     (hash_added, hash) = batadv_hash_add (tt_local_hash (bp_tt s))
                       (\<lambda>e. batadv_compare_tt (tl_common e)) (batadv_choose_tt k) key tt_local
                 in if hash_added \<noteq> 0 then (False, batadv_softif_vlan_put (snd key) s)
                    else (True, tt_mod (tt_local_hash_update (\<lambda>_. hash)) s)))))"

text \<open>The client is known at other nodes, and not yet as roaming: tell them.\<close>

definition tt_check_roaming ::
  "kenv \<Rightarrow> tt_key \<Rightarrow> batadv_tt_global_entry option \<Rightarrow> bool \<Rightarrow> batadv_priv \<Rightarrow> batadv_priv" where
  "tt_check_roaming k key tt_global roamed_back s =
     (case tt_global of
        None \<Rightarrow> s
      | Some g \<Rightarrow>
          if has_flag (tt_flags (tg_common g)) BATADV_TT_CLIENT_ROAM then s
          else
            (let s = fold (\<lambda>orig_entry. batadv_send_roam_adv k (fst key) (snd key) (oe_orig_node orig_entry))
                       (tg_orig_list g) s
             in if roamed_back then batadv_tt_global_free k key s
                else tt_global_mod key (\<lambda>e. e\<lparr>tg_common := tt_flag_set BATADV_TT_CLIENT_ROAM (tg_common e),
                                              tg_roam_at := k_jiffies k\<rparr>) s))"

text \<open>The attributes of the client, announced again when they changed.\<close>

definition tt_local_attributes :: "kenv \<Rightarrow> tt_key \<Rightarrow> nat \<Rightarrow> u32 \<Rightarrow> batadv_priv \<Rightarrow> batadv_priv" where
  "tt_local_attributes k key ifindex mark s =
     (case batadv_tt_local_hash_find k s (fst key) (snd key) of
        None \<Rightarrow> s
      | Some tt_local \<Rightarrow>
          (let flags = tt_flags (tl_common tt_local);
               remote_flags = flags AND BATADV_TT_REMOTE_MASK;
               flags = (if in_dev_wifi ifindex s then flags OR BATADV_TT_CLIENT_WIFI
                        else flags AND NOT BATADV_TT_CLIENT_WIFI);
               match_mark = mark AND bp_isolation_mark_mask s;
               flags = (if bp_isolation_mark_mask s \<noteq> 0 \<and> match_mark = bp_isolation_mark s
                        then flags OR BATADV_TT_CLIENT_ISOLA else flags AND NOT BATADV_TT_CLIENT_ISOLA);
               s = tt_local_mod key (\<lambda>e. e\<lparr>tl_common := (tl_common e)\<lparr>tt_flags := flags\<rparr>\<rparr>) s
           in if remote_flags XOR (flags AND BATADV_TT_REMOTE_MASK) \<noteq> 0 then batadv_tt_local_event k key 0 s else s))"

definition batadv_tt_local_add :: "kenv \<Rightarrow> mac \<Rightarrow> vid \<Rightarrow> nat \<Rightarrow> u32 \<Rightarrow> batadv_priv \<Rightarrow> bool \<times> batadv_priv" where
  "batadv_tt_local_add k addr vid ifindex mark s =
     (let key = (addr, vid);
          tt_global = (if is_multicast_ether_addr addr then None else batadv_tt_global_hash_find k s addr vid);
          finish = (\<lambda>roamed_back s.
            (True, tt_local_attributes k key ifindex mark (tt_check_roaming k key tt_global roamed_back s)))
      in case batadv_tt_local_hash_find k s addr vid of
           Some tt_local \<Rightarrow>
             (let s = tt_local_mod key (\<lambda>e. e\<lparr>tl_last_seen := k_jiffies k\<rparr>) s
              in if has_flag (tt_flags (tl_common tt_local)) BATADV_TT_CLIENT_PENDING then
                   finish False (batadv_tt_local_event k key 0
                     (tt_local_mod key (\<lambda>e. e\<lparr>tl_common := tt_flag_clear BATADV_TT_CLIENT_PENDING (tl_common e)\<rparr>) s))
                 else if has_flag (tt_flags (tl_common tt_local)) BATADV_TT_CLIENT_ROAM then
                   finish True
                     (tt_local_mod key (\<lambda>e. e\<lparr>tl_common := tt_flag_clear BATADV_TT_CLIENT_ROAM (tl_common e)\<rparr>) s)
                 else finish False s)
         | None \<Rightarrow>
             (let (ok, s) = tt_local_create k key ifindex s
              in if \<not> ok then (False, s) else finish False (batadv_tt_local_event k key 0 s)))"

section \<open>Removing local clients\<close>

definition batadv_tt_local_set_pending :: "kenv \<Rightarrow> tt_key \<Rightarrow> u16 \<Rightarrow> batadv_priv \<Rightarrow> batadv_priv" where
  "batadv_tt_local_set_pending k key flags s =
     tt_local_mod key (\<lambda>e. e\<lparr>tl_common := tt_flag_set BATADV_TT_CLIENT_PENDING (tl_common e)\<rparr>)
       (batadv_tt_local_event k key flags s)"

text \<open>The result is the flags that the entry had.\<close>

definition batadv_tt_local_remove ::
  "kenv \<Rightarrow> mac \<Rightarrow> vid \<Rightarrow> bool \<Rightarrow> batadv_priv \<Rightarrow> u16 \<times> batadv_priv" where
  "batadv_tt_local_remove k addr vid roaming s =
     (let key = (addr, vid) in
      case batadv_tt_local_hash_find k s addr vid of
        None \<Rightarrow> (0, s)
      | Some tt_local_entry \<Rightarrow>
          (let curr_flags = tt_flags (tl_common tt_local_entry);
               flags = BATADV_TT_CLIENT_DEL OR (if roaming then BATADV_TT_CLIENT_ROAM else 0);
               s = (if roaming
                    then tt_local_mod key (\<lambda>e. e\<lparr>tl_common := tt_flag_set BATADV_TT_CLIENT_ROAM (tl_common e)\<rparr>) s
                    else s)
           in if \<not> has_flag curr_flags BATADV_TT_CLIENT_NEW
              then (curr_flags, batadv_tt_local_set_pending k key flags s)
              else
                (let s = batadv_tt_local_event k key BATADV_TT_CLIENT_DEL s;
                     s = tt_mod (tt_local_hash_update (map_option (\<lambda>h. snd (batadv_hash_remove h
                           (\<lambda>e. batadv_compare_tt (tl_common e)) (batadv_choose_tt k) key)))) s
                 in (curr_flags,
                     case batadv_softif_vlan_get vid s of
                       (None, s) \<Rightarrow> s
                     | (Some _, s) \<Rightarrow> batadv_softif_vlan_put vid (batadv_softif_vlan_put vid s)))))"

definition tt_local_purge_entry :: "kenv \<Rightarrow> u32 \<Rightarrow> batadv_tt_local_entry \<Rightarrow> batadv_priv \<Rightarrow> batadv_priv" where
  "tt_local_purge_entry k timeout e s =
     (if has_flag (tt_flags (tl_common e)) BATADV_TT_CLIENT_NOPURGE then s
      else if has_flag (tt_flags (tl_common e)) BATADV_TT_CLIENT_PENDING then s
      else if \<not> batadv_has_timed_out k (tl_last_seen e) timeout then s
      else batadv_tt_local_set_pending k (tt_key (tl_common e)) BATADV_TT_CLIENT_DEL s)"

definition batadv_tt_local_purge :: "kenv \<Rightarrow> u32 \<Rightarrow> batadv_priv \<Rightarrow> batadv_priv" where
  "batadv_tt_local_purge k timeout s = fold (tt_local_purge_entry k timeout) (tt_locals s) s"

text \<open>Give back the reference that a local client holds on its VLAN.\<close>

definition tt_vlan_release :: "vid \<Rightarrow> batadv_priv \<Rightarrow> batadv_priv" where
  "tt_vlan_release vid s =
     (case batadv_softif_vlan_get vid s of
        (None, s) \<Rightarrow> s
      | (Some _, s) \<Rightarrow> batadv_softif_vlan_put vid (batadv_softif_vlan_put vid s))"

definition batadv_tt_local_table_free :: "batadv_priv \<Rightarrow> batadv_priv" where
  "batadv_tt_local_table_free s =
     (if tt_local_hash (bp_tt s) = None then s
      else tt_mod (tt_local_hash_update (\<lambda>_. None))
             (fold (\<lambda>e. tt_vlan_release (tt_vid (tl_common e))) (tt_locals s) s))"

definition batadv_tt_changes_list_free :: "batadv_priv \<Rightarrow> batadv_priv" where
  "batadv_tt_changes_list_free = tt_mod (\<lambda>t. t\<lparr>tt_changes_list := [], tt_local_changes := 0\<rparr>)"

text \<open>All entries at once; \<open>cnt\<close> says whether the counters of their VLANs change with them.\<close>

definition tt_local_set_flags_entry ::
  "u16 \<Rightarrow> bool \<Rightarrow> bool \<Rightarrow> batadv_tt_local_entry \<Rightarrow> batadv_priv \<Rightarrow> batadv_priv" where
  "tt_local_set_flags_entry flags enable cnt e s =
     (let c = tl_common e in
      if (if enable then tt_flags c AND flags = flags else \<not> has_flag (tt_flags c) flags) then s
      else
        (let s = tt_local_mod (tt_key c)
                   (\<lambda>e. e\<lparr>tl_common := (if enable then tt_flag_set else tt_flag_clear) flags (tl_common e)\<rparr>) s
         in if cnt then batadv_tt_local_size_inc (tt_vid c) s else s))"

definition batadv_tt_local_set_flags :: "u16 \<Rightarrow> bool \<Rightarrow> bool \<Rightarrow> batadv_priv \<Rightarrow> batadv_priv" where
  "batadv_tt_local_set_flags flags enable cnt s =
     fold (tt_local_set_flags_entry flags enable cnt) (tt_locals s) s"

definition tt_purge_pending_entry :: "batadv_tt_local_entry \<Rightarrow> batadv_priv \<Rightarrow> batadv_priv" where
  "tt_purge_pending_entry e s =
     (if \<not> has_flag (tt_flags (tl_common e)) BATADV_TT_CLIENT_PENDING then s
      else
        (let s = batadv_tt_local_size_dec (tt_vid (tl_common e)) s;
             s = tt_mod (tt_local_hash_update (map_option
                   (hash_filter (\<lambda>x. tt_key (tl_common x) \<noteq> tt_key (tl_common e))))) s
         in tt_vlan_release (tt_vid (tl_common e)) s))"

definition batadv_tt_local_purge_pending_clients :: "batadv_priv \<Rightarrow> batadv_priv" where
  "batadv_tt_local_purge_pending_clients s = fold tt_purge_pending_entry (tt_locals s) s"

definition batadv_is_my_client :: "kenv \<Rightarrow> mac \<Rightarrow> vid \<Rightarrow> batadv_priv \<Rightarrow> bool" where
  "batadv_is_my_client k addr vid s =
     (case batadv_tt_local_hash_find k s addr vid of
        None \<Rightarrow> False
      | Some e \<Rightarrow> \<not> has_flag (tt_flags (tl_common e)) BATADV_TT_CLIENT_PENDING \<and>
                  \<not> has_flag (tt_flags (tl_common e)) BATADV_TT_CLIENT_ROAM)"

definition batadv_tt_local_client_is_roaming :: "kenv \<Rightarrow> mac \<Rightarrow> vid \<Rightarrow> batadv_priv \<Rightarrow> bool" where
  "batadv_tt_local_client_is_roaming k addr vid s =
     (case batadv_tt_local_hash_find k s addr vid of
        None \<Rightarrow> False
      | Some e \<Rightarrow> has_flag (tt_flags (tl_common e)) BATADV_TT_CLIENT_ROAM)"

section \<open>The checksum of a VLAN\<close>

definition tt_crc_of :: "kenv \<Rightarrow> batadv_tt_common_entry \<Rightarrow> u32" where
  "tt_crc_of k c =
     (let crc_tmp = k_crc32c k 0 (be_bytes 2 (tt_vid c));
          flags = (ucast (tt_flags c AND BATADV_TT_SYNC_MASK) :: u8);
          crc_tmp = k_crc32c k crc_tmp [flags]
      in k_crc32c k crc_tmp (mac_bytes (tt_addr c)))"

definition batadv_tt_local_crc :: "kenv \<Rightarrow> vid \<Rightarrow> batadv_priv \<Rightarrow> u32" where
  "batadv_tt_local_crc k vid s =
     fold (\<lambda>e crc.
         if tt_vid (tl_common e) \<noteq> vid then crc
         else if has_flag (tt_flags (tl_common e)) BATADV_TT_CLIENT_NEW then crc
         else crc XOR tt_crc_of k (tl_common e))
       (tt_locals s) 0"

definition batadv_tt_local_update_crc :: "kenv \<Rightarrow> batadv_priv \<Rightarrow> batadv_priv" where
  "batadv_tt_local_update_crc k s =
     s\<lparr>bp_softif_vlan_list := map (\<lambda>v. v\<lparr>sv_crc := batadv_tt_local_crc k (sv_vid v) s\<rparr>) (bp_softif_vlan_list s)\<rparr>"

section \<open>VLANs that come and go\<close>

text \<open>\<open>sysfs\<close> is what \<open>batadv_sysfs_add_vlan\<close> answers.\<close>

definition batadv_softif_create_vlan :: "kenv \<Rightarrow> int \<Rightarrow> vid \<Rightarrow> batadv_priv \<Rightarrow> int \<times> batadv_priv" where
  "batadv_softif_create_vlan k sysfs vid s =
     (case batadv_softif_vlan_get vid s of
        (Some _, s) \<Rightarrow> (- 17, batadv_softif_vlan_put vid s)
      | (None, s) \<Rightarrow>
          (let (ok, s) = kzalloc s in
           if \<not> ok then (- 12, s)
           else if sysfs \<noteq> 0 then (sysfs, s)
           else
             (let vlan = \<lparr>sv_vid = vid, sv_kobj = True, sv_ap_isolation = False, sv_crc = 0, sv_num_entries = 0,
                          sv_refcount = 1\<rparr>;
                  s = s\<lparr>bp_softif_vlan_list := vlan # bp_softif_vlan_list s\<rparr>
              in (0, snd (batadv_tt_local_add k (bp_soft_addr s) vid 0 0 s)))))"

definition batadv_softif_destroy_vlan :: "kenv \<Rightarrow> vid \<Rightarrow> batadv_priv \<Rightarrow> batadv_priv" where
  "batadv_softif_destroy_vlan k vid s =
     (let s = snd (batadv_tt_local_remove k (bp_soft_addr s) vid False s)
      in batadv_softif_vlan_put vid (softif_vlan_mod vid (\<lambda>v. v\<lparr>sv_kobj := False\<rparr>) s))"

definition batadv_interface_add_vid :: "kenv \<Rightarrow> int \<Rightarrow> bool \<Rightarrow> vid \<Rightarrow> batadv_priv \<Rightarrow> int \<times> batadv_priv" where
  "batadv_interface_add_vid k sysfs proto_8021q vid s =
     (if \<not> proto_8021q then (- 22, s)
      else
        (let vid = vid OR 0x8000 in
         case batadv_softif_vlan_get vid s of
           (None, s) \<Rightarrow> batadv_softif_create_vlan k sysfs vid s
         | (Some vlan, s) \<Rightarrow>
             if \<not> sv_kobj vlan \<and> sysfs \<noteq> 0 then (sysfs, batadv_softif_vlan_put vid s)
             else
               (let s = softif_vlan_mod vid (\<lambda>v. v\<lparr>sv_kobj := True\<rparr>) s
                in (0, snd (batadv_tt_local_add k (bp_soft_addr s) vid 0 0 s)))))"

definition batadv_interface_kill_vid :: "kenv \<Rightarrow> bool \<Rightarrow> vid \<Rightarrow> batadv_priv \<Rightarrow> int \<times> batadv_priv" where
  "batadv_interface_kill_vid k proto_8021q vid s =
     (if \<not> proto_8021q then (- 22, s)
      else
        (let vid = vid OR 0x8000 in
         case batadv_softif_vlan_get vid s of
           (None, s) \<Rightarrow> (- 2, s)
         | (Some vlan, s) \<Rightarrow> (0, batadv_softif_vlan_put vid (batadv_softif_destroy_vlan k vid s))))"

text \<open>The untagged VLAN goes with the mesh interface.\<close>

definition batadv_softif_destroy_finish :: "kenv \<Rightarrow> batadv_priv \<Rightarrow> batadv_priv" where
  "batadv_softif_destroy_finish k s =
     (case batadv_softif_vlan_get BATADV_NO_FLAGS s of
        (None, s) \<Rightarrow> s
      | (Some _, s) \<Rightarrow> batadv_softif_vlan_put BATADV_NO_FLAGS (batadv_softif_destroy_vlan k BATADV_NO_FLAGS s))"

end
