(* ===== verification/Tt_Global.thy ===== *)
theory Tt_Global
  imports Tt_Local Router
begin

text \<open>
  The translation table, second part: the clients behind other nodes. A global entry lists
  the originators that announce its client; every originator counts, for each VLAN, the
  entries that list it.
\<close>

abbreviation (input) BATADV_ORIG_CAPA_HAS_TT :: nat where "BATADV_ORIG_CAPA_HAS_TT \<equiv> 2"

section \<open>Counting\<close>

definition batadv_tt_global_size_mod :: "nat \<Rightarrow> vid \<Rightarrow> int \<Rightarrow> batadv_priv \<Rightarrow> batadv_priv" where
  "batadv_tt_global_size_mod orig_node vid v s =
     (let (ok, s) = batadv_orig_node_vlan_new orig_node vid s
      in if \<not> ok then s
         else orig_mod orig_node (\<lambda>n.
           (case batadv_orig_node_vlan_get n vid of
              None \<Rightarrow> n
            | Some vlan \<Rightarrow>
                if ov_num_entries vlan + v = 0
                then n\<lparr>on_vlan_list := snd (hlist_del_first (\<lambda>x. ov_vid x = vid) (on_vlan_list n))\<rparr>
                else n\<lparr>on_vlan_list := update_first (\<lambda>x. ov_vid x = vid)
                        (\<lambda>x. x\<lparr>ov_num_entries := ov_num_entries x + v\<rparr>) (on_vlan_list n)\<rparr>)) s)"

definition batadv_tt_global_size_inc :: "nat \<Rightarrow> vid \<Rightarrow> batadv_priv \<Rightarrow> batadv_priv" where
  "batadv_tt_global_size_inc orig_node vid = batadv_tt_global_size_mod orig_node vid 1"

definition batadv_tt_global_size_dec :: "nat \<Rightarrow> vid \<Rightarrow> batadv_priv \<Rightarrow> batadv_priv" where
  "batadv_tt_global_size_dec orig_node vid = batadv_tt_global_size_mod orig_node vid (- 1)"

section \<open>The originators of an entry\<close>

definition batadv_tt_global_init :: "batadv_priv \<Rightarrow> int \<times> batadv_priv" where
  "batadv_tt_global_init s =
     (if tt_global_hash (bp_tt s) \<noteq> None then (0, s)
      else
        (let (ok, s) = kzalloc s;
             s = tt_mod (\<lambda>t. t\<lparr>tt_global_hash := batadv_hash_new ok 1024\<rparr>) s
         in if tt_global_hash (bp_tt s) = None then (- 12, s) else (0, s)))"

definition batadv_tt_global_orig_entry_find ::
  "batadv_tt_global_entry \<Rightarrow> nat \<Rightarrow> batadv_tt_orig_list_entry option" where
  "batadv_tt_global_orig_entry_find entry orig_node = find (\<lambda>e. oe_orig_node e = orig_node) (tg_orig_list entry)"

definition batadv_tt_global_entry_has_orig :: "batadv_tt_global_entry \<Rightarrow> nat \<Rightarrow> bool" where
  "batadv_tt_global_entry_has_orig entry orig_node \<longleftrightarrow> batadv_tt_global_orig_entry_find entry orig_node \<noteq> None"

definition batadv_tt_global_orig_entry_add :: "kenv \<Rightarrow> tt_key \<Rightarrow> nat \<Rightarrow> u8 \<Rightarrow> batadv_priv \<Rightarrow> batadv_priv" where
  "batadv_tt_global_orig_entry_add k key orig_node ttvn s =
     (case batadv_tt_global_hash_find k s (fst key) (snd key) of
        None \<Rightarrow> s
      | Some tt_global \<Rightarrow>
          if batadv_tt_global_entry_has_orig tt_global orig_node
          then tt_global_mod key (\<lambda>e. e\<lparr>tg_orig_list :=
                 update_first (\<lambda>x. oe_orig_node x = orig_node) (\<lambda>x. x\<lparr>oe_ttvn := ttvn\<rparr>) (tg_orig_list e)\<rparr>) s
          else
            (let (ok, s) = kzalloc s in
             if \<not> ok then s
             else
               (let s = batadv_tt_global_size_inc orig_node (snd key) s
                in tt_global_mod key (\<lambda>e. e\<lparr>tg_orig_list := \<lparr>oe_orig_node = orig_node, oe_ttvn = ttvn\<rparr> # tg_orig_list e,
                                            tg_orig_list_count := tg_orig_list_count e + 1\<rparr>) s)))"

text \<open>\<open>_batadv_tt_global_del_orig_entry\<close>\<close>

definition do_tt_global_del_orig_entry :: "tt_key \<Rightarrow> batadv_tt_orig_list_entry \<Rightarrow> batadv_priv \<Rightarrow> batadv_priv" where
  "do_tt_global_del_orig_entry key orig_entry s =
     tt_global_mod key (\<lambda>e. e\<lparr>tg_orig_list := remove1 orig_entry (tg_orig_list e),
                              tg_orig_list_count := tg_orig_list_count e - 1\<rparr>)
       (batadv_tt_global_size_dec (oe_orig_node orig_entry) (snd key) s)"

definition batadv_tt_global_del_orig_list :: "kenv \<Rightarrow> tt_key \<Rightarrow> batadv_priv \<Rightarrow> batadv_priv" where
  "batadv_tt_global_del_orig_list k key s =
     (case batadv_tt_global_hash_find k s (fst key) (snd key) of
        None \<Rightarrow> s
      | Some g \<Rightarrow> fold (do_tt_global_del_orig_entry key) (tg_orig_list g) s)"

definition batadv_tt_global_del_orig_node :: "kenv \<Rightarrow> tt_key \<Rightarrow> nat \<Rightarrow> batadv_priv \<Rightarrow> batadv_priv" where
  "batadv_tt_global_del_orig_node k key orig_node s =
     (case batadv_tt_global_hash_find k s (fst key) (snd key) of
        None \<Rightarrow> s
      | Some g \<Rightarrow>
          fold (do_tt_global_del_orig_entry key) (filter (\<lambda>e. oe_orig_node e = orig_node) (tg_orig_list g)) s)"

section \<open>Adding a global client\<close>

text \<open>A client that is not in the table. The result: was it added?\<close>

definition tt_global_create :: "kenv \<Rightarrow> tt_key \<Rightarrow> u16 \<Rightarrow> batadv_priv \<Rightarrow> bool \<times> batadv_priv" where
  "tt_global_create k key flags s =
     (let tt_global_entry =
            \<lparr>tg_common = \<lparr>tt_addr = fst key, tt_vid = snd key, tt_flags = flags, tt_added_at = k_jiffies k\<rparr>,
             tg_orig_list = [], tg_orig_list_count = 0,
             tg_roam_at = (if has_flag flags BATADV_TT_CLIENT_ROAM then k_jiffies k else 0)\<rparr>;
          (hash_added, hash) = batadv_hash_add (tt_global_hash (bp_tt s))
            (\<lambda>e. batadv_compare_tt (tg_common e)) (batadv_choose_tt k) key tt_global_entry
      in if hash_added \<noteq> 0 then (False, s) else (True, tt_mod (tt_global_hash_update (\<lambda>_. hash)) s))"

text \<open>
  What follows the label \<open>out_remove\<close>: the client is not ours any more. The flags of the
  global entry are written only while it is in the table.
\<close>

definition tt_global_out_remove :: "kenv \<Rightarrow> tt_key \<Rightarrow> u16 \<Rightarrow> batadv_priv \<Rightarrow> batadv_priv" where
  "tt_global_out_remove k key flags s =
     (if is_multicast_ether_addr (fst key) then s
      else
        (let (local_flags, s) = batadv_tt_local_remove k (fst key) (snd key) (has_flag flags BATADV_TT_CLIENT_ROAM) s;
             s = tt_global_mod key (\<lambda>e. e\<lparr>tg_common :=
                   tt_flag_set (local_flags AND BATADV_TT_CLIENT_WIFI) (tg_common e)\<rparr>) s
         in if has_flag flags BATADV_TT_CLIENT_ROAM then s
            else tt_global_mod key (\<lambda>e. e\<lparr>tg_common := tt_flag_clear BATADV_TT_CLIENT_ROAM (tg_common e)\<rparr>) s))"

definition tt_global_update :: "kenv \<Rightarrow> tt_key \<Rightarrow> batadv_tt_global_entry \<Rightarrow> u16 \<Rightarrow> batadv_priv \<Rightarrow> batadv_priv" where
  "tt_global_update k key g flags s =
     (let s = (if has_flag (tt_flags (tg_common g)) BATADV_TT_CLIENT_TEMP
               then tt_global_mod key (\<lambda>e. e\<lparr>tg_common := tt_flag_clear BATADV_TT_CLIENT_TEMP (tg_common e)\<rparr>)
                      (batadv_tt_global_del_orig_list k key s)
               else s);
          s = tt_global_mod key (\<lambda>e. e\<lparr>tg_common := tt_flag_set flags (tg_common e)\<rparr>) s
      in if has_flag (tt_flags (tg_common g) OR flags) BATADV_TT_CLIENT_ROAM
         then tt_global_mod key (\<lambda>e. e\<lparr>tg_common := tt_flag_clear BATADV_TT_CLIENT_ROAM (tg_common e), tg_roam_at := 0\<rparr>)
                (batadv_tt_global_del_orig_list k key s)
         else s)"

text \<open>The surroundings that bridge loop avoidance sees.\<close>

definition bla_env_of :: "kenv \<Rightarrow> batadv_priv \<Rightarrow> bla_env" where
  "bla_env_of k s = \<lparr>be_k = k, be_primary = map_option (\<lambda>i. hi_dev_addr (hardif_of s i)) (bp_primary_if s),
     be_bla_on = bp_bridge_loop_avoidance s, be_orig = (\<lambda>a. batadv_orig_hash_find k s a \<noteq> None),
     be_gw_ok = True, be_claim_ok = True, be_arp_ok = True\<rparr>"

definition tt_is_backbone :: "kenv \<Rightarrow> batadv_priv \<Rightarrow> nat \<Rightarrow> vid \<Rightarrow> bool" where
  "tt_is_backbone k s orig_node vid =
     batadv_bla_is_backbone_gw_orig (bla_env_of k s) (bp_bla s) (on_orig (orig_of s orig_node)) vid"

definition batadv_tt_global_add ::
  "kenv \<Rightarrow> nat \<Rightarrow> mac \<Rightarrow> vid \<Rightarrow> u16 \<Rightarrow> u8 \<Rightarrow> batadv_priv \<Rightarrow> bool \<times> batadv_priv" where
  "batadv_tt_global_add k orig_node addr vid flags ttvn s =
     (let key = (addr, vid);
          local_entry = batadv_tt_local_hash_find k s addr vid;
          add_orig_entry = (\<lambda>s. (True, tt_global_out_remove k key flags
                                         (batadv_tt_global_orig_entry_add k key orig_node ttvn s)))
      in if tt_is_backbone k s orig_node vid then (True, s)
         else if has_flag flags BATADV_TT_CLIENT_TEMP \<and>
                 (case local_entry of None \<Rightarrow> False
                  | Some l \<Rightarrow> \<not> has_flag (tt_flags (tl_common l)) BATADV_TT_CLIENT_NEW) then (False, s)
         else
           (case batadv_tt_global_hash_find k s addr vid of
              None \<Rightarrow>
                (let (ok, s) = kzalloc s in
                 if \<not> ok then (False, s)
                 else
                   (let (added, s) = tt_global_create k key flags s
                    in if \<not> added then (False, tt_global_out_remove k key flags s) else add_orig_entry s))
            | Some g \<Rightarrow>
                if has_flag flags BATADV_TT_CLIENT_TEMP then
                  (if \<not> has_flag (tt_flags (tg_common g)) BATADV_TT_CLIENT_TEMP then (False, s)
                   else if batadv_tt_global_entry_has_orig g orig_node
                   then (False, tt_global_out_remove k key flags s)
                   else add_orig_entry (batadv_tt_global_del_orig_list k key s))
                else add_orig_entry (tt_global_update k key g flags s)))"

section \<open>Removing global clients\<close>

text \<open>The last originator that announces a roaming client stays until it times out.\<close>

definition batadv_tt_global_del_roaming :: "kenv \<Rightarrow> tt_key \<Rightarrow> nat \<Rightarrow> batadv_priv \<Rightarrow> batadv_priv" where
  "batadv_tt_global_del_roaming k key orig_node s =
     (case batadv_tt_global_hash_find k s (fst key) (snd key) of
        None \<Rightarrow> s
      | Some g \<Rightarrow>
          if list_all (\<lambda>e. oe_orig_node e = orig_node) (tg_orig_list g)
          then tt_global_mod key (\<lambda>e. e\<lparr>tg_common := tt_flag_set BATADV_TT_CLIENT_ROAM (tg_common e),
                                        tg_roam_at := k_jiffies k\<rparr>) s
          else batadv_tt_global_del_orig_node k key orig_node s)"

definition tt_global_empty :: "kenv \<Rightarrow> tt_key \<Rightarrow> batadv_priv \<Rightarrow> bool" where
  "tt_global_empty k key s =
     (case batadv_tt_global_hash_find k s (fst key) (snd key) of None \<Rightarrow> False | Some g \<Rightarrow> tg_orig_list g = [])"

definition batadv_tt_global_del :: "kenv \<Rightarrow> nat \<Rightarrow> mac \<Rightarrow> vid \<Rightarrow> bool \<Rightarrow> batadv_priv \<Rightarrow> batadv_priv" where
  "batadv_tt_global_del k orig_node addr vid roaming s =
     (let key = (addr, vid) in
      if batadv_tt_global_hash_find k s addr vid = None then s
      else if \<not> roaming then
        (let s = batadv_tt_global_del_orig_node k key orig_node s
         in if tt_global_empty k key s then batadv_tt_global_free k key s else s)
      else if batadv_tt_local_hash_find k s addr vid \<noteq> None then
        batadv_tt_global_free k key (batadv_tt_global_del_orig_list k key s)
      else batadv_tt_global_del_roaming k key orig_node s)"

text \<open>One entry in the loop of \<open>batadv_tt_global_del_orig\<close>. \<open>None\<close> matches every VLAN.\<close>

definition tt_global_del_orig_step ::
  "kenv \<Rightarrow> nat \<Rightarrow> vid option \<Rightarrow> batadv_tt_global_entry \<Rightarrow> batadv_priv \<Rightarrow> batadv_priv" where
  "tt_global_del_orig_step k orig_node match_vid e s =
     (let key = tt_key (tg_common e) in
      if (case match_vid of None \<Rightarrow> False | Some v \<Rightarrow> tt_vid (tg_common e) \<noteq> v) then s
      else
        (let s = batadv_tt_global_del_orig_node k key orig_node s
         in if tt_global_empty k key s
            then tt_mod (tt_global_hash_update (map_option (hash_filter (\<lambda>x. tt_key (tg_common x) \<noteq> key)))) s
            else s))"

definition batadv_tt_global_del_orig :: "kenv \<Rightarrow> nat \<Rightarrow> vid option \<Rightarrow> batadv_priv \<Rightarrow> batadv_priv" where
  "batadv_tt_global_del_orig k orig_node match_vid s =
     (if tt_global_hash (bp_tt s) = None then s
      else orig_mod orig_node (\<lambda>n. n\<lparr>on_capa_initialized := unset_bit BATADV_ORIG_CAPA_HAS_TT (on_capa_initialized n)\<rparr>)
             (fold (tt_global_del_orig_step k orig_node match_vid) (tt_globals s) s))"

definition batadv_tt_global_to_purge :: "kenv \<Rightarrow> batadv_tt_global_entry \<Rightarrow> bool" where
  "batadv_tt_global_to_purge k e \<longleftrightarrow>
     has_flag (tt_flags (tg_common e)) BATADV_TT_CLIENT_ROAM \<and> batadv_has_timed_out k (tg_roam_at e) 600000 \<or>
     has_flag (tt_flags (tg_common e)) BATADV_TT_CLIENT_TEMP \<and> batadv_has_timed_out k (tt_added_at (tg_common e)) 600000"

text \<open>An entry whose last reference goes releases the originators it lists.\<close>

definition tt_global_release :: "batadv_tt_global_entry \<Rightarrow> batadv_priv \<Rightarrow> batadv_priv" where
  "tt_global_release e =
     fold (\<lambda>orig_entry. batadv_tt_global_size_dec (oe_orig_node orig_entry) (tt_vid (tg_common e))) (tg_orig_list e)"

definition tt_global_purge_step :: "kenv \<Rightarrow> batadv_tt_global_entry \<Rightarrow> batadv_priv \<Rightarrow> batadv_priv" where
  "tt_global_purge_step k e s =
     (if \<not> batadv_tt_global_to_purge k e then s
      else tt_global_release e
        (tt_mod (tt_global_hash_update (map_option
          (hash_filter (\<lambda>x. tt_key (tg_common x) \<noteq> tt_key (tg_common e))))) s))"

definition batadv_tt_global_purge :: "kenv \<Rightarrow> batadv_priv \<Rightarrow> batadv_priv" where
  "batadv_tt_global_purge k s = fold (tt_global_purge_step k) (tt_globals s) s"

definition batadv_tt_global_table_free :: "batadv_priv \<Rightarrow> batadv_priv" where
  "batadv_tt_global_table_free s =
     (if tt_global_hash (bp_tt s) = None then s
      else tt_mod (tt_global_hash_update (\<lambda>_. None)) (fold tt_global_release (tt_globals s) s))"

section \<open>Searching\<close>

definition batadv_transtable_best_orig ::
  "neigh_cmp \<Rightarrow> batadv_priv \<Rightarrow> batadv_tt_global_entry \<Rightarrow> batadv_tt_orig_list_entry option" where
  "batadv_transtable_best_orig bat_neigh_cmp s tt_global_entry =
     map_option fst (fold (\<lambda>orig_entry best.
         (case batadv_orig_router_get s (oe_orig_node orig_entry) None of
            None \<Rightarrow> best
          | Some router \<Rightarrow>
              (case best of
                 None \<Rightarrow> Some (orig_entry, router)
               | Some (best_entry, best_router) \<Rightarrow>
                   if bat_neigh_cmp s router None best_router None \<le> 0 then best else Some (orig_entry, router))))
       (tg_orig_list tt_global_entry) None)"

text \<open>\<open>_batadv_is_ap_isolated\<close>\<close>

definition do_is_ap_isolated :: "batadv_tt_local_entry \<Rightarrow> batadv_tt_global_entry \<Rightarrow> bool" where
  "do_is_ap_isolated l g \<longleftrightarrow>
     has_flag (tt_flags (tl_common l)) BATADV_TT_CLIENT_WIFI \<and> has_flag (tt_flags (tg_common g)) BATADV_TT_CLIENT_WIFI \<or>
     has_flag (tt_flags (tl_common l)) BATADV_TT_CLIENT_ISOLA \<and> has_flag (tt_flags (tg_common g)) BATADV_TT_CLIENT_ISOLA"

definition batadv_transtable_search ::
  "kenv \<Rightarrow> neigh_cmp \<Rightarrow> mac option \<Rightarrow> mac \<Rightarrow> vid \<Rightarrow> batadv_priv \<Rightarrow> nat option" where
  "batadv_transtable_search k bat_neigh_cmp src addr vid s =
     (let isolated_src = (case src of None \<Rightarrow> None | Some a \<Rightarrow> if batadv_vlan_ap_isola_get vid s then Some a else None);
          tt_local_entry = (case isolated_src of None \<Rightarrow> None | Some a \<Rightarrow> batadv_tt_local_hash_find k s a vid)
      in if isolated_src \<noteq> None \<and>
            (case tt_local_entry of None \<Rightarrow> True
             | Some l \<Rightarrow> has_flag (tt_flags (tl_common l)) BATADV_TT_CLIENT_PENDING) then None
         else
           (case batadv_tt_global_hash_find k s addr vid of
              None \<Rightarrow> None
            | Some g \<Rightarrow>
                if (case tt_local_entry of None \<Rightarrow> False | Some l \<Rightarrow> do_is_ap_isolated l g) then None
                else map_option oe_orig_node (batadv_transtable_best_orig bat_neigh_cmp s g)))"

definition batadv_is_ap_isolated :: "kenv \<Rightarrow> mac \<Rightarrow> mac \<Rightarrow> vid \<Rightarrow> batadv_priv \<Rightarrow> bool" where
  "batadv_is_ap_isolated k src dst vid s =
     (if \<not> batadv_vlan_ap_isola_get vid s then False
      else
        (case (batadv_tt_local_hash_find k s dst vid, batadv_tt_global_hash_find k s src vid) of
           (Some l, Some g) \<Rightarrow> do_is_ap_isolated l g
         | _ \<Rightarrow> False))"

definition batadv_tt_global_client_is_roaming :: "kenv \<Rightarrow> mac \<Rightarrow> vid \<Rightarrow> batadv_priv \<Rightarrow> bool" where
  "batadv_tt_global_client_is_roaming k addr vid s =
     (case batadv_tt_global_hash_find k s addr vid of
        None \<Rightarrow> False
      | Some e \<Rightarrow> has_flag (tt_flags (tg_common e)) BATADV_TT_CLIENT_ROAM)"

definition batadv_tt_global_is_isolated :: "kenv \<Rightarrow> mac \<Rightarrow> vid \<Rightarrow> batadv_priv \<Rightarrow> bool" where
  "batadv_tt_global_is_isolated k addr vid s =
     (case batadv_tt_global_hash_find k s addr vid of
        None \<Rightarrow> False
      | Some e \<Rightarrow> has_flag (tt_flags (tg_common e)) BATADV_TT_CLIENT_ISOLA)"

definition batadv_tt_add_temporary_global_entry :: "kenv \<Rightarrow> nat \<Rightarrow> mac \<Rightarrow> vid \<Rightarrow> batadv_priv \<Rightarrow> bool \<times> batadv_priv" where
  "batadv_tt_add_temporary_global_entry k orig_node addr vid s =
     batadv_tt_global_add k orig_node addr vid BATADV_TT_CLIENT_TEMP (on_last_ttvn (orig_of s orig_node)) s"

section \<open>Checksums\<close>

definition tt_counts_for_crc :: "nat \<Rightarrow> batadv_tt_global_entry \<Rightarrow> bool" where
  "tt_counts_for_crc orig_node e \<longleftrightarrow>
     \<not> has_flag (tt_flags (tg_common e)) BATADV_TT_CLIENT_ROAM \<and>
     \<not> has_flag (tt_flags (tg_common e)) BATADV_TT_CLIENT_TEMP \<and>
     batadv_tt_global_entry_has_orig e orig_node"

definition batadv_tt_global_crc :: "kenv \<Rightarrow> nat \<Rightarrow> vid \<Rightarrow> batadv_priv \<Rightarrow> u32" where
  "batadv_tt_global_crc k orig_node vid s =
     fold (\<lambda>e crc.
         if tt_vid (tg_common e) \<noteq> vid then crc
         else if \<not> tt_counts_for_crc orig_node e then crc
         else crc XOR tt_crc_of k (tg_common e))
       (tt_globals s) 0"

definition batadv_tt_global_update_crc :: "kenv \<Rightarrow> nat \<Rightarrow> batadv_priv \<Rightarrow> batadv_priv" where
  "batadv_tt_global_update_crc k orig_node s =
     orig_mod orig_node (\<lambda>n. n\<lparr>on_vlan_list := map (\<lambda>v.
         if tt_is_backbone k s orig_node (ov_vid v) then v
         else v\<lparr>ov_crc := batadv_tt_global_crc k orig_node (ov_vid v) s\<rparr>) (on_vlan_list n)\<rparr>) s"

end
