(* ===== verification/Tt_Sync.thy ===== *)
theory Tt_Sync
  imports Tt_Global
begin

text \<open>
  The translation table, third part: how nodes learn the clients of each other. The local
  changes of an interval are committed when an OGM is sent: the version number goes up and
  the TVLV container of the table carries the checksums of all VLANs and the changes. A
  receiver that missed changes or whose checksums differ requests them, or the full table,
  from the originator or from a node on the way that has them.
\<close>

section \<open>On the wire\<close>

record batadv_tvlv_tt_data =
  td_flags :: u8
  td_ttvn :: u8
  td_num_vlan :: u16

record batadv_tvlv_tt_vlan_data =
  tv_crc :: u32
  tv_vid :: vid
  tv_reserved :: u16

definition tt_change_bytes :: "batadv_tvlv_tt_change \<Rightarrow> u8 list" where
  "tt_change_bytes c = [ch_flags c] @ be_bytes 3 (ch_reserved c) @ be_bytes 6 (ch_addr c) @ be_bytes 2 (ch_vid c)"

definition tt_vlan_bytes :: "batadv_tvlv_tt_vlan_data \<Rightarrow> u8 list" where
  "tt_vlan_bytes v = be_bytes 4 (tv_crc v) @ be_bytes 2 (tv_vid v) @ be_bytes 2 (tv_reserved v)"

definition tt_data_bytes :: "batadv_tvlv_tt_data \<Rightarrow> u8 list" where
  "tt_data_bytes d = [td_flags d, td_ttvn d] @ be_bytes 2 (td_num_vlan d)"

definition tt_change_at :: "u8 list \<Rightarrow> nat \<Rightarrow> batadv_tvlv_tt_change" where
  "tt_change_at bs i =
     (let b = take 12 (drop (12 * i) bs)
      in \<lparr>ch_flags = b ! 0, ch_reserved = be_word (take 3 (drop 1 b)), ch_addr = be_word (take 6 (drop 4 b)),
          ch_vid = be_word (drop 10 b)\<rparr>)"

definition tt_vlan_at :: "u8 list \<Rightarrow> nat \<Rightarrow> batadv_tvlv_tt_vlan_data" where
  "tt_vlan_at bs i =
     (let b = take 8 (drop (8 * i) bs)
      in \<lparr>tv_crc = be_word (take 4 b), tv_vid = be_word (take 2 (drop 4 b)), tv_reserved = be_word (drop 6 b)\<rparr>)"

definition tt_data_at :: "u8 list \<Rightarrow> batadv_tvlv_tt_data" where
  "tt_data_at bs = \<lparr>td_flags = bs ! 0, td_ttvn = bs ! 1, td_num_vlan = be_word (take 2 (drop 2 bs))\<rparr>"

section \<open>Building messages\<close>

text \<open>
  The header and the VLANs of a message about the clients of a node, and the bytes behind
  them: what \<open>kmalloc\<close> left there. A negative \<open>tt_len\<close> asks for room for the full table.
  The result: the length of the message, the length of the room, header and VLANs if the
  memory was there, the state.
\<close>

definition tt_prepare ::
  "u8 \<Rightarrow> (vid \<times> u32) list \<Rightarrow> u16 \<Rightarrow> int \<Rightarrow> batadv_priv
   \<Rightarrow> u16 \<times> int \<times> (batadv_tvlv_tt_data \<times> batadv_tvlv_tt_vlan_data list) option \<times> batadv_priv" where
  "tt_prepare ttvn vlans num_entries tt_len s =
     (let num_vlan = (of_nat (length vlans) :: u16);
          change_offset = 4 + num_vlan * 8;
          tt_len = (if tt_len < 0 then batadv_tt_len (uint num_entries) else tt_len);
          tvlv_len = of_int tt_len + change_offset;
          (ok, s) = kzalloc s
      in if \<not> ok then (tvlv_len, tt_len, None, s)
         else (tvlv_len, tt_len,
               Some (\<lparr>td_flags = 0, td_ttvn = ttvn, td_num_vlan = num_vlan\<rparr>,
                     map (\<lambda>(vid, crc). \<lparr>tv_crc = crc, tv_vid = vid,
                            tv_reserved = be_word [bp_stray s, bp_stray s]\<rparr>) vlans), s))"

definition batadv_tt_prepare_tvlv_global_data ::
  "nat \<Rightarrow> int \<Rightarrow> batadv_priv
   \<Rightarrow> u16 \<times> int \<times> (batadv_tvlv_tt_data \<times> batadv_tvlv_tt_vlan_data list) option \<times> batadv_priv" where
  "batadv_tt_prepare_tvlv_global_data orig_node tt_len s =
     (let n = orig_of s orig_node;
          (tvlv_len, tt_len, r, s) = tt_prepare (on_last_ttvn n) (map (\<lambda>v. (ov_vid v, ov_crc v)) (on_vlan_list n))
             (tt_num_entries (map ov_num_entries (on_vlan_list n))) tt_len s
      in (tvlv_len, (if r = None then 0 else tt_len), r, s))"

definition batadv_tt_prepare_tvlv_local_data ::
  "int \<Rightarrow> batadv_priv
   \<Rightarrow> u16 \<times> int \<times> (batadv_tvlv_tt_data \<times> batadv_tvlv_tt_vlan_data list) option \<times> batadv_priv" where
  "batadv_tt_prepare_tvlv_local_data tt_len s =
     (let (tvlv_len, tt_len, r, s) = tt_prepare (ucast (tt_vn (bp_tt s)))
             (map (\<lambda>v. (sv_vid v, sv_crc v)) (bp_softif_vlan_list s))
             (tt_num_entries (map sv_num_entries (bp_softif_vlan_list s))) tt_len s
      in ((if r = None then 0 else tvlv_len), tt_len, r, s))"

text \<open>
  The whole message: what the changes do not fill keeps its bytes. The lengths are 16-bit
  sums, so the memory may be too small for what is written to it.
\<close>

definition tt_message ::
  "u16 \<Rightarrow> batadv_tvlv_tt_data \<Rightarrow> batadv_tvlv_tt_vlan_data list \<Rightarrow> u8 list \<Rightarrow> batadv_priv \<Rightarrow> u8 list \<times> batadv_priv" where
  "tt_message tvlv_len d vlans body s =
     (let bs = tt_data_bytes d @ concat (map tt_vlan_bytes vlans) @ body
      in (take (unat tvlv_len) (bs @ replicate (unat tvlv_len - length bs) (bp_stray s)),
          if length bs > unat tvlv_len then s\<lparr>bp_panic := True\<rparr> else s))"

section \<open>The container of the OGM\<close>

text \<open>
  The events go into the message, and their bytes are kept to answer requests for them.
\<close>

definition tt_take_changes :: "int \<Rightarrow> int \<Rightarrow> batadv_priv \<Rightarrow> u8 list \<times> batadv_priv" where
  "tt_take_changes tt_diff_entries_num tt_diff_len s =
     (let entries = take (nat tt_diff_entries_num) (tt_changes_list (bp_tt s));
          tt_change = concat (map tt_change_bytes entries);
          s = tt_mod (\<lambda>t. t\<lparr>tt_local_changes := 0, tt_changes_list := [],
                            tt_last_changeset_len := 0, tt_last_changeset := None\<rparr>) s
      in (tt_change,
          if entries = [] then s
          else
            (let (ok, s) = kzalloc s in
             if \<not> ok then s
             else tt_mod (\<lambda>t. t\<lparr>tt_last_changeset :=
                    Some (tt_change @ replicate (nat tt_diff_len - length tt_change) 0),
                    tt_last_changeset_len := of_int tt_diff_len\<rparr>) s)))"

definition batadv_tt_tvlv_container_update :: "batadv_priv \<Rightarrow> batadv_priv" where
  "batadv_tt_tvlv_container_update s =
     (let tt_diff_entries_num = tt_local_changes (bp_tt s);
          tt_diff_len = batadv_tt_len tt_diff_entries_num;
          tt_diff_len = (if tt_diff_len > int (bp_mtu s) then 0 else tt_diff_len);
          (tvlv_len, tt_diff_len, r, s) = batadv_tt_prepare_tvlv_local_data tt_diff_len s
      in if tvlv_len = 0 then s
         else
           (case r of
              None \<Rightarrow> s
            | Some (tt_data, vlans) \<Rightarrow>
                (let (tt_change, s) = (if tt_diff_len = 0 then ([], s)
                                       else tt_take_changes tt_diff_entries_num tt_diff_len s);
                     (bytes, s) = tt_message tvlv_len (tt_data\<lparr>td_flags := 1\<rparr>) vlans tt_change s
                 in batadv_tvlv_container_register BATADV_TVLV_TT 1 (Some bytes) tvlv_len s)))"

text \<open>\<open>mla_update\<close> is \<open>batadv_mcast_mla_update\<close> of \<open>multicast.c\<close>.\<close>

definition batadv_tt_local_commit_changes_nolock ::
  "kenv \<Rightarrow> (batadv_priv \<Rightarrow> batadv_priv) \<Rightarrow> batadv_priv \<Rightarrow> batadv_priv" where
  "batadv_tt_local_commit_changes_nolock k mla_update s =
     (let s = mla_update s in
      if tt_local_changes (bp_tt s) < 1 then
        (if tt_ogm_append_cnt (bp_tt s) \<noteq> 0
         then tt_mod (\<lambda>t. t\<lparr>tt_ogm_append_cnt := tt_ogm_append_cnt t - 1\<rparr>) s
         else batadv_tt_tvlv_container_update s)
      else
        (let s = batadv_tt_local_set_flags BATADV_TT_CLIENT_NEW False True s;
             s = batadv_tt_local_purge_pending_clients s;
             s = batadv_tt_local_update_crc k s;
             s = tt_mod (\<lambda>t. t\<lparr>tt_vn := tt_vn t + 1, tt_ogm_append_cnt := 3\<rparr>) s
         in batadv_tt_tvlv_container_update s))"

definition batadv_tt_local_commit_changes ::
  "kenv \<Rightarrow> (batadv_priv \<Rightarrow> batadv_priv) \<Rightarrow> batadv_priv \<Rightarrow> batadv_priv" where
  "batadv_tt_local_commit_changes k mla_update s = batadv_tt_local_commit_changes_nolock k mla_update s"

text \<open>
  The loop that shrinks the table until it fits: each round halves the age at which an
  entry has to go. It has no bound of its own, so it runs on fuel; \<open>None\<close> is a loop that
  is still running.
\<close>

fun tt_resize_loop :: "nat \<Rightarrow> kenv \<Rightarrow> int \<Rightarrow> int \<Rightarrow> bool \<Rightarrow> batadv_priv \<Rightarrow> (bool \<times> batadv_priv) option" where
  "tt_resize_loop 0 k packet_size_max timeout reduced s = None"
| "tt_resize_loop (Suc fuel) k packet_size_max timeout reduced s =
     (if packet_size_max \<ge> batadv_tt_local_table_transmit_size s then Some (reduced, s)
      else tt_resize_loop fuel k packet_size_max (timeout div 2) True
             (batadv_tt_local_purge_pending_clients (batadv_tt_local_purge k (of_int timeout) s)))"

definition batadv_tt_local_resize_to_mtu ::
  "nat \<Rightarrow> kenv \<Rightarrow> (batadv_priv \<Rightarrow> batadv_priv) \<Rightarrow> batadv_priv \<Rightarrow> batadv_priv option" where
  "batadv_tt_local_resize_to_mtu fuel k mla_update s =
     (case tt_resize_loop fuel k (bp_packet_size_max s) (600000 div 2) False s of
        None \<Rightarrow> None
      | Some (reduced, s) \<Rightarrow> Some (if reduced then batadv_tt_local_commit_changes_nolock k mla_update s else s))"

section \<open>Requests\<close>

text \<open>The result: was there no request to that originator under way?\<close>

definition batadv_tt_req_node_new :: "kenv \<Rightarrow> nat \<Rightarrow> batadv_priv \<Rightarrow> bool \<times> batadv_priv" where
  "batadv_tt_req_node_new k orig_node s =
     (if list_ex (\<lambda>n. batadv_compare_eth (rq_addr n) (on_orig (orig_of s orig_node)) \<and>
                      \<not> batadv_has_timed_out k (rq_issued_at n) 3000) (tt_req_list (bp_tt s)) then (False, s)
      else
        (let (ok, s) = kzalloc s in
         if \<not> ok then (False, s)
         else (True, tt_mod (\<lambda>t. t\<lparr>tt_req_list :=
                 \<lparr>rq_addr = on_orig (orig_of s orig_node), rq_issued_at = k_jiffies k\<rparr> # tt_req_list t\<rparr>) s)))"

definition batadv_tt_req_purge :: "kenv \<Rightarrow> batadv_priv \<Rightarrow> batadv_priv" where
  "batadv_tt_req_purge k =
     tt_mod (\<lambda>t. t\<lparr>tt_req_list := filter (\<lambda>n. \<not> batadv_has_timed_out k (rq_issued_at n) 3000) (tt_req_list t)\<rparr>)"

definition batadv_tt_req_list_free :: "batadv_priv \<Rightarrow> batadv_priv" where
  "batadv_tt_req_list_free = tt_mod (\<lambda>t. t\<lparr>tt_req_list := []\<rparr>)"

definition batadv_send_tt_request ::
  "kenv \<Rightarrow> nat \<Rightarrow> u8 \<Rightarrow> batadv_tvlv_tt_vlan_data list \<Rightarrow> bool \<Rightarrow> batadv_priv \<Rightarrow> bool \<times> batadv_priv" where
  "batadv_send_tt_request k dst_orig_node ttvn tt_vlan full_table s =
     (case bp_primary_if s of
        None \<Rightarrow> (False, s)
      | Some primary_if \<Rightarrow>
          (let (req, s) = batadv_tt_req_node_new k dst_orig_node s in
           if \<not> req then (False, s)
           else
             (let (ok, s) = kzalloc s in
              if \<not> ok then (False, s)
              else
                (let d = \<lparr>td_flags = (if full_table then 2 OR 16 else 2), td_ttvn = ttvn,
                          td_num_vlan = of_nat (length tt_vlan)\<rparr>;
                     vlans = map (\<lambda>v. v\<lparr>tv_reserved := 0\<rparr>) tt_vlan;
                     bytes = tt_data_bytes d @ concat (map tt_vlan_bytes vlans);
                     s = batadv_tvlv_unicast_send k (hi_dev_addr (hardif_of s primary_if))
                           (on_orig (orig_of s dst_orig_node)) BATADV_TVLV_TT 1 bytes (of_nat (length bytes)) s
                 in (True, tt_mod (\<lambda>t. t\<lparr>tt_req_list := tl (tt_req_list t)\<rparr>) s)))))"

section \<open>Checksums of an originator\<close>

definition tt_vlans_match :: "kenv \<Rightarrow> nat \<Rightarrow> batadv_tvlv_tt_vlan_data list \<Rightarrow> batadv_priv \<Rightarrow> bool" where
  "tt_vlans_match k orig_node tt_vlan s \<longleftrightarrow>
     list_all (\<lambda>v. tt_is_backbone k s orig_node (tv_vid v) \<or>
         (case batadv_orig_node_vlan_get (orig_of s orig_node) (tv_vid v) of
            None \<Rightarrow> False
          | Some vlan \<Rightarrow> ov_crc vlan = tv_crc v)) tt_vlan"

definition batadv_tt_global_check_crc :: "kenv \<Rightarrow> nat \<Rightarrow> batadv_tvlv_tt_vlan_data list \<Rightarrow> batadv_priv \<Rightarrow> bool" where
  "batadv_tt_global_check_crc k orig_node tt_vlan s \<longleftrightarrow>
     tt_vlans_match k orig_node tt_vlan s \<and>
     length (on_vlan_list (orig_of s orig_node)) \<le> length tt_vlan"

section \<open>Responses\<close>

definition batadv_tt_local_valid :: "batadv_tt_local_entry \<Rightarrow> bool" where
  "batadv_tt_local_valid e \<longleftrightarrow> \<not> has_flag (tt_flags (tl_common e)) BATADV_TT_CLIENT_NEW"

definition batadv_tt_global_valid :: "nat \<Rightarrow> batadv_tt_global_entry \<Rightarrow> bool" where
  "batadv_tt_global_valid orig_node e \<longleftrightarrow>
     (if has_flag (tt_flags (tg_common e)) BATADV_TT_CLIENT_ROAM \<or>
         has_flag (tt_flags (tg_common e)) BATADV_TT_CLIENT_TEMP then False
      else batadv_tt_global_entry_has_orig e orig_node)"

definition tt_change_of :: "batadv_tt_common_entry \<Rightarrow> batadv_tvlv_tt_change" where
  "tt_change_of c = \<lparr>ch_flags = ucast (tt_flags c), ch_reserved = 0, ch_addr = tt_addr c, ch_vid = tt_vid c\<rparr>"

text \<open>The entries of a table that are valid, as far as the room goes.\<close>

definition batadv_tt_tvlv_generate ::
  "('a \<Rightarrow> batadv_tt_common_entry) \<Rightarrow> 'a list \<Rightarrow> u16 \<Rightarrow> ('a \<Rightarrow> bool) \<Rightarrow> batadv_tvlv_tt_change list" where
  "batadv_tt_tvlv_generate common entries tt_len valid_cb =
     map (\<lambda>e. tt_change_of (common e)) (take (unat (batadv_tt_entries tt_len)) (filter valid_cb entries))"

text \<open>
  A buffer of changes is copied; its length is a signed 16-bit number, and a negative one
  is a huge number of bytes.
\<close>

definition tt_copy_buff :: "u8 list option \<Rightarrow> u16 \<Rightarrow> batadv_priv \<Rightarrow> u8 list \<times> batadv_priv" where
  "tt_copy_buff buff buff_len s =
     (if sint buff_len < 0 then ([], s\<lparr>bp_panic := True\<rparr>)
      else ((case buff of None \<Rightarrow> [] | Some b \<Rightarrow> take (unat buff_len) b), s))"

text \<open>
  A node on the way answers for another one. The VLANs are those within the packet; the
  code goes on reading where the request announces more of them.
\<close>

definition batadv_send_other_tt_response ::
  "kenv \<Rightarrow> batadv_tvlv_tt_data \<Rightarrow> batadv_tvlv_tt_vlan_data list \<Rightarrow> mac \<Rightarrow> mac \<Rightarrow> batadv_priv \<Rightarrow> bool \<times> batadv_priv" where
  "batadv_send_other_tt_response k tt_data tt_vlan req_src req_dst s =
     (case (batadv_orig_hash_find k s req_dst, batadv_orig_hash_find k s req_src) of
        (Some req_dst_orig_node, Some res_dst_orig_node) \<Rightarrow>
          (let n = orig_of s req_dst_orig_node;
               orig_ttvn = on_last_ttvn n;
               req_ttvn = td_ttvn tt_data
           in if orig_ttvn \<noteq> req_ttvn \<or> \<not> tt_vlans_match k req_dst_orig_node tt_vlan s then (False, s)
              else if length tt_vlan < unat (td_num_vlan tt_data) then (False, s\<lparr>bp_panic := True\<rparr>)
              else if \<not> batadv_tt_global_check_crc k req_dst_orig_node tt_vlan s then (False, s)
              else
                (let full_table = (td_flags tt_data AND 16 \<noteq> 0 \<or> on_tt_buff n = None);
                     (tvlv_len, tt_len, r, s) = batadv_tt_prepare_tvlv_global_data req_dst_orig_node
                        (if full_table then - 1 else sint (on_tt_buff_len n)) s
                 in case r of
                      None \<Rightarrow> (False, s)
                    | Some (d, vlans) \<Rightarrow>
                        if tt_len = 0 then (False, snd (tt_message tvlv_len d vlans [] s))
                        else
                          (let (body, s) = (if full_table
                                 then (concat (map tt_change_bytes (batadv_tt_tvlv_generate tg_common (tt_globals s)
                                         (of_int tt_len) (batadv_tt_global_valid req_dst_orig_node))), s)
                                 else tt_copy_buff (on_tt_buff n) (on_tt_buff_len n) s);
                               d = d\<lparr>td_flags := (if full_table then 4 OR 16 else 4), td_ttvn := req_ttvn\<rparr>;
                               (bytes, s) = tt_message tvlv_len d vlans body s
                           in if 20 + uint tvlv_len > bp_packet_size_max s then (False, s)
                              else (True, batadv_tvlv_unicast_send k (on_orig n) req_src BATADV_TVLV_TT 1
                                            bytes tvlv_len s))))
      | _ \<Rightarrow> (False, s))"

text \<open>
  We answer for ourselves. When the memory for the message is missing, its length is not
  zeroed, and the entries are written through a pointer that was never set.
\<close>

definition batadv_send_my_tt_response ::
  "kenv \<Rightarrow> batadv_tvlv_tt_data \<Rightarrow> mac \<Rightarrow> batadv_priv \<Rightarrow> bool \<times> batadv_priv" where
  "batadv_send_my_tt_response k tt_data req_src s =
     (True,
      (case (batadv_orig_hash_find k s req_src, bp_primary_if s) of
         (Some orig_node, Some primary_if) \<Rightarrow>
           (let my_ttvn = (ucast (tt_vn (bp_tt s)) :: u8);
                req_ttvn = td_ttvn tt_data;
                full_table = (td_flags tt_data AND 16 \<noteq> 0 \<or> my_ttvn \<noteq> req_ttvn \<or> tt_last_changeset (bp_tt s) = None);
                req_ttvn = (if full_table then my_ttvn else req_ttvn);
                (tvlv_len, tt_len, r, s) = batadv_tt_prepare_tvlv_local_data
                   (if full_table then - 1 else sint (tt_last_changeset_len (bp_tt s))) s
            in case r of
                 None \<Rightarrow> if tt_len = 0 then s else s\<lparr>bp_panic := True\<rparr>
               | Some (d, vlans) \<Rightarrow>
                   if tt_len = 0 then snd (tt_message tvlv_len d vlans [] s)
                   else
                     (let (body, s) = (if full_table
                            then (concat (map tt_change_bytes (batadv_tt_tvlv_generate tl_common (tt_locals s)
                                    (of_int tt_len) batadv_tt_local_valid)), s)
                            else tt_copy_buff (tt_last_changeset (bp_tt s)) (tt_last_changeset_len (bp_tt s)) s);
                          d = d\<lparr>td_flags := (if full_table then 4 OR 16 else 4), td_ttvn := req_ttvn\<rparr>;
                          (bytes, s) = tt_message tvlv_len d vlans body s
                      in batadv_tvlv_unicast_send k (hi_dev_addr (hardif_of s primary_if)) req_src BATADV_TVLV_TT 1
                           bytes tvlv_len s))
       | _ \<Rightarrow> s))"

definition batadv_is_my_mac :: "batadv_priv \<Rightarrow> mac \<Rightarrow> bool" where
  "batadv_is_my_mac s addr =
     list_ex (\<lambda>i. hi_if_status (hardif_of s i) = BATADV_IF_ACTIVE \<and>
                  hi_soft_iface (hardif_of s i) = Some (bp_soft_iface s) \<and>
                  batadv_compare_eth (hi_dev_addr (hardif_of s i)) addr) (bp_hardif_list s)"

definition batadv_send_tt_response ::
  "kenv \<Rightarrow> batadv_tvlv_tt_data \<Rightarrow> batadv_tvlv_tt_vlan_data list \<Rightarrow> mac \<Rightarrow> mac \<Rightarrow> batadv_priv \<Rightarrow> bool \<times> batadv_priv" where
  "batadv_send_tt_response k tt_data tt_vlan req_src req_dst s =
     (if batadv_is_my_mac s req_dst then batadv_send_my_tt_response k tt_data req_src s
      else batadv_send_other_tt_response k tt_data tt_vlan req_src req_dst s)"

section \<open>Changes of another node\<close>

text \<open>\<open>_batadv_tt_update_changes\<close>: the loop stops when a client cannot be stored.\<close>

fun tt_apply_changes ::
  "kenv \<Rightarrow> nat \<Rightarrow> u8 \<Rightarrow> batadv_tvlv_tt_change list \<Rightarrow> batadv_priv \<Rightarrow> bool \<times> batadv_priv" where
  "tt_apply_changes k orig_node ttvn [] s = (True, s)"
| "tt_apply_changes k orig_node ttvn (c # rest) s =
     (if ch_flags c AND 1 \<noteq> 0 then
        tt_apply_changes k orig_node ttvn rest
          (batadv_tt_global_del k orig_node (ch_addr c) (ch_vid c) (ch_flags c AND 2 \<noteq> 0) s)
      else
        (let (ok, s) = batadv_tt_global_add k orig_node (ch_addr c) (ch_vid c) (ucast (ch_flags c)) ttvn s
         in if \<not> ok then (False, s) else tt_apply_changes k orig_node ttvn rest s))"

definition do_tt_update_changes ::
  "kenv \<Rightarrow> nat \<Rightarrow> batadv_tvlv_tt_change list \<Rightarrow> u8 \<Rightarrow> batadv_priv \<Rightarrow> batadv_priv" where
  "do_tt_update_changes k orig_node changes ttvn s =
     (let (ok, s) = tt_apply_changes k orig_node ttvn changes s
      in if \<not> ok then s
         else orig_mod orig_node
                (\<lambda>n. n\<lparr>on_capa_initialized := set_bit BATADV_ORIG_CAPA_HAS_TT (on_capa_initialized n)\<rparr>) s)"

definition batadv_tt_fill_gtable ::
  "kenv \<Rightarrow> batadv_tvlv_tt_change list \<Rightarrow> u8 \<Rightarrow> mac \<Rightarrow> batadv_priv \<Rightarrow> batadv_priv" where
  "batadv_tt_fill_gtable k changes ttvn resp_src s =
     (case batadv_orig_hash_find k s resp_src of
        None \<Rightarrow> s
      | Some orig_node \<Rightarrow>
          orig_mod orig_node (\<lambda>n. n\<lparr>on_tt_buff_len := 0, on_tt_buff := None, on_last_ttvn := ttvn\<rparr>)
            (do_tt_update_changes k orig_node changes ttvn (batadv_tt_global_del_orig k orig_node None s)))"

definition batadv_tt_save_orig_buffer :: "nat \<Rightarrow> u8 list \<Rightarrow> u16 \<Rightarrow> batadv_priv \<Rightarrow> batadv_priv" where
  "batadv_tt_save_orig_buffer orig_node tt_buff tt_buff_len s =
     (if tt_buff_len = 0 then s
      else
        (let (ok, s) = kzalloc s
         in orig_mod orig_node (\<lambda>n.
              if ok then n\<lparr>on_tt_buff := Some (take (unat tt_buff_len) tt_buff), on_tt_buff_len := tt_buff_len\<rparr>
              else n\<lparr>on_tt_buff := None, on_tt_buff_len := 0\<rparr>) s))"

text \<open>\<open>tt_buff\<close> are the bytes of the changes.\<close>

definition tt_changes_at :: "u8 list \<Rightarrow> u16 \<Rightarrow> batadv_tvlv_tt_change list" where
  "tt_changes_at tt_buff num = map (tt_change_at tt_buff) [0..<unat num]"

definition batadv_tt_update_changes ::
  "kenv \<Rightarrow> nat \<Rightarrow> u16 \<Rightarrow> u8 \<Rightarrow> u8 list \<Rightarrow> batadv_priv \<Rightarrow> batadv_priv" where
  "batadv_tt_update_changes k orig_node tt_num_changes ttvn tt_buff s =
     (let s = do_tt_update_changes k orig_node (tt_changes_at tt_buff tt_num_changes) ttvn s;
          s = batadv_tt_save_orig_buffer orig_node tt_buff (of_int (batadv_tt_len (uint tt_num_changes))) s
      in orig_mod orig_node (\<lambda>n. n\<lparr>on_last_ttvn := ttvn\<rparr>) s)"

definition batadv_handle_tt_response ::
  "kenv \<Rightarrow> batadv_tvlv_tt_data \<Rightarrow> u8 list \<Rightarrow> mac \<Rightarrow> u16 \<Rightarrow> batadv_priv \<Rightarrow> batadv_priv" where
  "batadv_handle_tt_response k tt_data tt_buff resp_src num_entries s =
     (case batadv_orig_hash_find k s resp_src of
        None \<Rightarrow> s
      | Some orig_node \<Rightarrow>
          (let s = (if td_flags tt_data AND 16 \<noteq> 0
                    then batadv_tt_fill_gtable k (tt_changes_at tt_buff num_entries) (td_ttvn tt_data) resp_src s
                    else batadv_tt_update_changes k orig_node num_entries (td_ttvn tt_data) tt_buff s);
               s = batadv_tt_global_update_crc k orig_node s
           in tt_mod (\<lambda>t. t\<lparr>tt_req_list :=
                filter (\<lambda>n. \<not> batadv_compare_eth (rq_addr n) resp_src) (tt_req_list t)\<rparr>) s))"

section \<open>The handlers\<close>

definition batadv_tt_update_orig ::
  "kenv \<Rightarrow> nat \<Rightarrow> batadv_tvlv_tt_vlan_data list \<Rightarrow> u8 list \<Rightarrow> u16 \<Rightarrow> u8 \<Rightarrow> batadv_priv \<Rightarrow> batadv_priv" where
  "batadv_tt_update_orig k orig_node tt_vlan tt_buff tt_num_changes ttvn s =
     (let orig_ttvn = on_last_ttvn (orig_of s orig_node);
          has_tt_init = bit (on_capa_initialized (orig_of s orig_node)) BATADV_ORIG_CAPA_HAS_TT;
          request_table = (\<lambda>full_table s. snd (batadv_send_tt_request k orig_node ttvn tt_vlan full_table s))
      in if \<not> has_tt_init \<and> ttvn = 1 \<or> uint ttvn - uint orig_ttvn = 1 then
           (if tt_num_changes = 0 then request_table False s
            else
              (let s = batadv_tt_update_changes k orig_node tt_num_changes ttvn tt_buff s;
                   s = batadv_tt_global_update_crc k orig_node s
               in if \<not> batadv_tt_global_check_crc k orig_node tt_vlan s then request_table True s else s))
         else if \<not> has_tt_init \<or> ttvn \<noteq> orig_ttvn \<or> \<not> batadv_tt_global_check_crc k orig_node tt_vlan s
         then request_table True s
         else s)"

definition batadv_tt_tvlv_ogm_handler_v1 :: "kenv \<Rightarrow> nat \<Rightarrow> u8 list \<Rightarrow> batadv_priv \<Rightarrow> batadv_priv" where
  "batadv_tt_tvlv_ogm_handler_v1 k orig tvlv_value s =
     (if length tvlv_value < 4 then s
      else
        (let tt_data = tt_data_at tvlv_value;
             num_vlan = unat (td_num_vlan tt_data);
             rest = drop 4 tvlv_value
         in if length rest < 8 * num_vlan then s
            else
              (let tt_vlan = map (tt_vlan_at rest) [0..<num_vlan];
                   tt_buff = drop (8 * num_vlan) rest;
                   num_entries = batadv_tt_entries (of_nat (length tt_buff))
               in batadv_tt_update_orig k orig tt_vlan tt_buff num_entries (td_ttvn tt_data) s)))"

text \<open>The length of the VLANs is computed in 16 bits. The result is 0 or \<open>NET_RX_DROP\<close>, which is 1.\<close>

definition batadv_tt_tvlv_unicast_handler_v1 ::
  "kenv \<Rightarrow> mac \<Rightarrow> mac \<Rightarrow> u8 list \<Rightarrow> batadv_priv \<Rightarrow> int \<times> batadv_priv" where
  "batadv_tt_tvlv_unicast_handler_v1 k src dst tvlv_value s =
     (if length tvlv_value < 4 then (0, s)
      else
        (let tt_data = tt_data_at tvlv_value;
             rest = drop 4 tvlv_value;
             tt_vlan_len = unat (8 * td_num_vlan tt_data :: u16)
         in if length rest < tt_vlan_len then (0, s)
            else
              (let tt_num_entries = batadv_tt_entries (of_nat (length rest - tt_vlan_len));
                   data_type = td_flags tt_data AND 0x0F
               in if data_type = 2 then
                    (let (ret, s) = batadv_send_tt_response k tt_data
                           (map (tt_vlan_at rest) [0..<min (unat (td_num_vlan tt_data)) (length rest div 8)]) src dst s
                     in (if ret then 0 else 1, s))
                  else if data_type = 4 then
                    (if batadv_is_my_mac s dst
                     then (0, batadv_handle_tt_response k tt_data (drop (unat (8 * td_num_vlan tt_data)) rest) src
                                tt_num_entries s)
                     else (1, s))
                  else (0, s))))"

definition batadv_roam_tvlv_unicast_handler_v1 ::
  "kenv \<Rightarrow> mac \<Rightarrow> mac \<Rightarrow> u8 list \<Rightarrow> batadv_priv \<Rightarrow> int \<times> batadv_priv" where
  "batadv_roam_tvlv_unicast_handler_v1 k src dst tvlv_value s =
     (if \<not> batadv_is_my_mac s dst then (1, s)
      else if length tvlv_value < 8 then (0, s)
      else
        (case batadv_orig_hash_find k s src of
           None \<Rightarrow> (0, s)
         | Some orig_node \<Rightarrow>
             (0, snd (batadv_tt_global_add k orig_node (be_word (take 6 tvlv_value))
                        (be_word (take 2 (drop 6 tvlv_value))) BATADV_TT_CLIENT_ROAM
                        (on_last_ttvn (orig_of s orig_node) + 1) s))))"

section \<open>Life of the component\<close>

definition batadv_tt_roam_purge :: "kenv \<Rightarrow> batadv_priv \<Rightarrow> batadv_priv" where
  "batadv_tt_roam_purge k =
     tt_mod (\<lambda>t. t\<lparr>tt_roam_list := filter (\<lambda>n. \<not> batadv_has_timed_out k (rm_first_time n) 20000) (tt_roam_list t)\<rparr>)"

definition batadv_tt_roam_list_free :: "batadv_priv \<Rightarrow> batadv_priv" where
  "batadv_tt_roam_list_free = tt_mod (\<lambda>t. t\<lparr>tt_roam_list := []\<rparr>)"

definition batadv_tt_purge :: "kenv \<Rightarrow> batadv_priv \<Rightarrow> batadv_priv" where
  "batadv_tt_purge k s =
     batadv_tt_roam_purge k (batadv_tt_req_purge k (batadv_tt_global_purge k (batadv_tt_local_purge k 600000 s)))"

definition batadv_tt_init :: "batadv_priv \<Rightarrow> int \<times> batadv_priv" where
  "batadv_tt_init s =
     (let (ret, s) = batadv_tt_local_init s in
      if ret < 0 then (ret, s)
      else
        (let (ret, s) = batadv_tt_global_init s in
         if ret < 0 then (ret, s)
         else
           (1, batadv_tvlv_handler_register False True BATADV_TVLV_ROAM 1 0
                 (batadv_tvlv_handler_register True True BATADV_TVLV_TT 1 0 s))))"

definition batadv_tt_free :: "batadv_priv \<Rightarrow> batadv_priv" where
  "batadv_tt_free s =
     (let s = batadv_tvlv_container_unregister BATADV_TVLV_TT 1 s;
          s = batadv_tvlv_handler_unregister BATADV_TVLV_TT 1 s;
          s = batadv_tt_local_table_free s;
          s = batadv_tt_global_table_free s;
          s = batadv_tt_req_list_free s;
          s = batadv_tt_changes_list_free s
      in batadv_tt_roam_list_free s)"

text \<open>The handlers of the table among those of the mesh, in the form the parser calls them.\<close>

definition tt_ogm_handler :: "kenv \<Rightarrow> ogm_handler" where
  "tt_ogm_handler k t v orig flags tvlv_value s =
     (if t = BATADV_TVLV_TT \<and> v = 1 then batadv_tt_tvlv_ogm_handler_v1 k orig tvlv_value s
      else mesh_ogm_handler t v orig flags tvlv_value s)"

definition tt_unicast_handler :: "kenv \<Rightarrow> unicast_handler" where
  "tt_unicast_handler k t v src dst tvlv_value s =
     (if t = BATADV_TVLV_TT \<and> v = 1 then batadv_tt_tvlv_unicast_handler_v1 k src dst tvlv_value s
      else if t = BATADV_TVLV_ROAM \<and> v = 1 then batadv_roam_tvlv_unicast_handler_v1 k src dst tvlv_value s
      else (0, s))"

end
