(* ===== verification/Tt_Facts.thy ===== *)
theory Tt_Facts
  imports Tt_Sync
begin

text \<open>
  Facts about the elementary updates of the translation table: flags, the two tables as
  lists with unique keys, the VLANs of the soft interface as a map.
\<close>

named_theorems tt_simps "the elementary updates of the translation table"

section \<open>Flags\<close>

lemma has_flag_or [simp]: "has_flag (x OR y) m \<longleftrightarrow> has_flag x m \<or> has_flag y m"
  by (simp add: has_flag_def bit.conj_disj_distrib2 or_eq_0_iff)

lemma has_flag_0 [simp]: "\<not> has_flag 0 m"
  by (simp add: has_flag_def)

lemma has_flag_clear: "m AND a = 0 \<Longrightarrow> has_flag (x AND NOT a) m \<longleftrightarrow> has_flag x m"
proof -
  assume a: "m AND a = 0"
  have "(x AND NOT a) AND m = x AND m"
  proof (rule bit_word_eqI)
    fix n
    have "\<not> (bit m n \<and> bit a n)"
      using arg_cong [OF a, of "\<lambda>w. bit w n"] by (simp add: bit_and_iff)
    assume "n < LENGTH(16)"
    then show "bit ((x AND NOT a) AND m) n = bit (x AND m) n"
      using \<open>\<not> (bit m n \<and> bit a n)\<close> by (auto simp: bit_simps)
  qed
  then show ?thesis by (simp add: has_flag_def)
qed

lemma has_flag_cleared: "\<not> has_flag (x AND NOT m) m"
proof -
  have "(x AND NOT m) AND m = 0"
    by (rule bit_word_eqI) (auto simp: bit_simps)
  then show ?thesis by (simp add: has_flag_def)
qed

lemma has_flag_set_other [simp]:
  "m AND a = 0 \<Longrightarrow> has_flag (tt_flags (tt_flag_set a c)) m \<longleftrightarrow> has_flag (tt_flags c) m"
  "m AND a = 0 \<Longrightarrow> has_flag (tt_flags (tt_flag_clear a c)) m \<longleftrightarrow> has_flag (tt_flags c) m"
  by (simp_all add: tt_flag_set_def tt_flag_clear_def has_flag_clear)
    (simp add: has_flag_def word_bw_comms)

lemma tt_flag_key [simp]: "tt_key (tt_flag_set m c) = tt_key c" "tt_key (tt_flag_clear m c) = tt_key c"
  by (simp_all add: tt_key_def tt_flag_set_def tt_flag_clear_def)

lemma tt_key_flags [simp]: "tt_key (c\<lparr>tt_flags := x\<rparr>) = tt_key c"
  by (simp add: tt_key_def)

section \<open>The local table\<close>

definition tt_local_wf :: "kenv \<Rightarrow> batadv_priv \<Rightarrow> bool" where
  "tt_local_wf k s \<longleftrightarrow>
     (\<exists>h. tt_local_hash (bp_tt s) = Some h \<and> hash_wf (\<lambda>e. tt_key (tl_common e)) (batadv_choose_tt k) h)"

definition tt_global_wf :: "kenv \<Rightarrow> batadv_priv \<Rightarrow> bool" where
  "tt_global_wf k s \<longleftrightarrow>
     (\<exists>h. tt_global_hash (bp_tt s) = Some h \<and> hash_wf (\<lambda>e. tt_key (tg_common e)) (batadv_choose_tt k) h)"

lemma local_find_iff:
  "tt_local_wf k s \<Longrightarrow> batadv_tt_local_hash_find k s a v = Some e
   \<longleftrightarrow> e \<in> set (tt_locals s) \<and> tt_key (tl_common e) = (a, v)"
  by (auto simp: tt_local_wf_def batadv_tt_local_hash_find_def batadv_tt_hash_find_def tt_locals_def
      tt_local_ht.lookup_iff)

lemma local_find_None:
  "tt_local_wf k s \<Longrightarrow> batadv_tt_local_hash_find k s a v = None
   \<longleftrightarrow> (\<forall>e \<in> set (tt_locals s). tt_key (tl_common e) \<noteq> (a, v))"
  using local_find_iff [of k s a v] by (cases "batadv_tt_local_hash_find k s a v") auto

lemma global_find_iff:
  "tt_global_wf k s \<Longrightarrow> batadv_tt_global_hash_find k s a v = Some e
   \<longleftrightarrow> e \<in> set (tt_globals s) \<and> tt_key (tg_common e) = (a, v)"
  by (auto simp: tt_global_wf_def batadv_tt_global_hash_find_def batadv_tt_hash_find_def tt_globals_def
      tt_global_ht.lookup_iff)

lemma global_find_None:
  "tt_global_wf k s \<Longrightarrow> batadv_tt_global_hash_find k s a v = None
   \<longleftrightarrow> (\<forall>e \<in> set (tt_globals s). tt_key (tg_common e) \<noteq> (a, v))"
  using global_find_iff [of k s a v] by (cases "batadv_tt_global_hash_find k s a v") auto

lemma local_keys_distinct: "tt_local_wf k s \<Longrightarrow> distinct (map (\<lambda>e. tt_key (tl_common e)) (tt_locals s))"
  by (auto simp: tt_local_wf_def tt_locals_def intro: distinct_hash_keys)

lemma global_keys_distinct: "tt_global_wf k s \<Longrightarrow> distinct (map (\<lambda>e. tt_key (tg_common e)) (tt_globals s))"
  by (auto simp: tt_global_wf_def tt_globals_def intro: distinct_hash_keys)

lemma tt_mod_simps [tt_simps]:
  "bp_tt (tt_mod f s) = f (bp_tt s)" "bp_softif_vlan_list (tt_mod f s) = bp_softif_vlan_list s"
  "bp_origs (tt_mod f s) = bp_origs s" "bp_orig_hash (tt_mod f s) = bp_orig_hash s"
  "bp_allocs (tt_mod f s) = bp_allocs s" "bp_calls (tt_mod f s) = bp_calls s" "bp_panic (tt_mod f s) = bp_panic s"
  "bp_primary_if (tt_mod f s) = bp_primary_if s" "bp_hardifs (tt_mod f s) = bp_hardifs s"
  by (simp_all add: tt_mod_def)

lemma local_mod_locals [tt_simps]:
  "tt_locals (tt_local_mod key f s) = map (\<lambda>e. if tt_key (tl_common e) = key then f e else e) (tt_locals s)"
  by (auto simp: tt_locals_def tt_local_mod_def tt_mod_def hash_elems_map split: option.split)

lemma local_mod_globals [tt_simps]:
  "tt_globals (tt_local_mod key f s) = tt_globals s" "tt_locals (tt_global_mod key g s) = tt_locals s"
  "tt_global_hash (bp_tt (tt_local_mod key f s)) = tt_global_hash (bp_tt s)"
  "tt_local_hash (bp_tt (tt_global_mod key g s)) = tt_local_hash (bp_tt s)"
  by (simp_all add: tt_globals_def tt_locals_def tt_local_mod_def tt_global_mod_def tt_mod_def)

lemma global_mod_globals [tt_simps]:
  "tt_globals (tt_global_mod key f s) = map (\<lambda>e. if tt_key (tg_common e) = key then f e else e) (tt_globals s)"
  by (auto simp: tt_globals_def tt_global_mod_def tt_mod_def hash_elems_map split: option.split)

lemma local_mod_frame [tt_simps]:
  "tt_changes_list (bp_tt (tt_local_mod key f s)) = tt_changes_list (bp_tt s)"
  "tt_local_changes (bp_tt (tt_local_mod key f s)) = tt_local_changes (bp_tt s)"
  "bp_softif_vlan_list (tt_local_mod key f s) = bp_softif_vlan_list s"
  "bp_allocs (tt_local_mod key f s) = bp_allocs s"
  by (simp_all add: tt_local_mod_def tt_mod_def)

lemma local_wf_mod:
  "(\<And>e. tt_key (tl_common (f e)) = tt_key (tl_common e)) \<Longrightarrow> tt_local_wf k s \<Longrightarrow> tt_local_wf k (tt_local_mod key f s)"
  by (auto simp: tt_local_wf_def tt_local_mod_def tt_mod_def intro!: hash_wf_map)

lemma global_wf_mod:
  "(\<And>e. tt_key (tg_common (f e)) = tt_key (tg_common e)) \<Longrightarrow> tt_global_wf k s \<Longrightarrow> tt_global_wf k (tt_global_mod key f s)"
  by (auto simp: tt_global_wf_def tt_global_mod_def tt_mod_def intro!: hash_wf_map)

lemma local_wf_same: "tt_local_hash (bp_tt s') = tt_local_hash (bp_tt s) \<Longrightarrow> tt_local_wf k s' = tt_local_wf k s"
  by (simp add: tt_local_wf_def)

lemma locals_same: "tt_local_hash (bp_tt s') = tt_local_hash (bp_tt s) \<Longrightarrow> tt_locals s' = tt_locals s"
  by (simp add: tt_locals_def)

lemma global_wf_same: "tt_global_hash (bp_tt s') = tt_global_hash (bp_tt s) \<Longrightarrow> tt_global_wf k s' = tt_global_wf k s"
  by (simp add: tt_global_wf_def)

lemma globals_same: "tt_global_hash (bp_tt s') = tt_global_hash (bp_tt s) \<Longrightarrow> tt_globals s' = tt_globals s"
  by (simp add: tt_globals_def)

text \<open>Taking an entry out.\<close>

definition tt_local_drop :: "kenv \<Rightarrow> tt_key \<Rightarrow> batadv_priv \<Rightarrow> batadv_priv" where
  "tt_local_drop k key = tt_mod (tt_local_hash_update (map_option (\<lambda>h. snd (batadv_hash_remove h
     (\<lambda>e. batadv_compare_tt (tl_common e)) (batadv_choose_tt k) key))))"

lemma local_drop_locals:
  assumes "tt_local_wf k s"
  shows "tt_locals (tt_local_drop k key s) = filter (\<lambda>e. tt_key (tl_common e) \<noteq> key) (tt_locals s)"
    "tt_local_wf k (tt_local_drop k key s)"
  using assms
  by (auto simp: tt_local_wf_def tt_local_drop_def tt_locals_def tt_mod_def tt_local_ht.remove_filter hash_elems_filter
      intro: hash_wf_filter)

lemma local_filter_locals:
  assumes "tt_local_wf k s"
  shows "tt_locals (tt_mod (tt_local_hash_update (map_option (hash_filter p))) s) = filter p (tt_locals s)"
    "tt_local_wf k (tt_mod (tt_local_hash_update (map_option (hash_filter p))) s)"
  using assms by (auto simp: tt_local_wf_def tt_locals_def tt_mod_def hash_elems_filter intro: hash_wf_filter)

lemma global_free_globals:
  assumes "tt_global_wf k s"
  shows "tt_globals (batadv_tt_global_free k key s) = filter (\<lambda>e. tt_key (tg_common e) \<noteq> key) (tt_globals s)"
    "tt_global_wf k (batadv_tt_global_free k key s)"
  using assms
  by (auto simp: tt_global_wf_def batadv_tt_global_free_def tt_globals_def tt_mod_def tt_global_ht.remove_filter
      hash_elems_filter intro: hash_wf_filter)

lemma global_filter_globals:
  assumes "tt_global_wf k s"
  shows "tt_globals (tt_mod (tt_global_hash_update (map_option (hash_filter p))) s) = filter p (tt_globals s)"
    "tt_global_wf k (tt_mod (tt_global_hash_update (map_option (hash_filter p))) s)"
  using assms by (auto simp: tt_global_wf_def tt_globals_def tt_mod_def hash_elems_filter intro: hash_wf_filter)

text \<open>Putting an entry in.\<close>

lemma local_hash_add:
  assumes "tt_local_wf k s" "tt_key (tl_common e) = key"
    and "batadv_hash_add (tt_local_hash (bp_tt s)) (\<lambda>e. batadv_compare_tt (tl_common e)) (batadv_choose_tt k) key e
      = (r, hash)"
  shows "r = 0 \<longleftrightarrow> (\<forall>x \<in> set (tt_locals s). tt_key (tl_common x) \<noteq> key)"
    "r = 0 \<Longrightarrow> mset (tt_locals (tt_mod (tt_local_hash_update (\<lambda>_. hash)) s)) = add_mset e (mset (tt_locals s))"
    "r = 0 \<Longrightarrow> tt_local_wf k (tt_mod (tt_local_hash_update (\<lambda>_. hash)) s)"
proof -
  obtain h where h: "tt_local_hash (bp_tt s) = Some h" "hash_wf (\<lambda>e. tt_key (tl_common e)) (batadv_choose_tt k) h"
    using assms(1) by (auto simp: tt_local_wf_def)
  have l: "tt_locals s = hash_elems h" by (simp add: tt_locals_def h)
  let ?l = "hash_lookup h (\<lambda>e. batadv_compare_tt (tl_common e)) (batadv_choose_tt k) key"
  have "(r = 0 \<longleftrightarrow> (\<forall>x \<in> set (tt_locals s). tt_key (tl_common x) \<noteq> key)) \<and>
    (r = 0 \<longrightarrow> mset (tt_locals (tt_mod (tt_local_hash_update (\<lambda>_. hash)) s)) = add_mset e (mset (tt_locals s)) \<and>
     tt_local_wf k (tt_mod (tt_local_hash_update (\<lambda>_. hash)) s))"
  proof (cases ?l)
    case None
    obtain h' where h': "batadv_hash_add (Some h) (\<lambda>e. batadv_compare_tt (tl_common e)) (batadv_choose_tt k) key e
        = (0, Some h')" "hash_wf (\<lambda>e. tt_key (tl_common e)) (batadv_choose_tt k) h'"
      "mset (hash_elems h') = add_mset e (mset (hash_elems h))"
      using tt_local_ht.add_fresh [OF h(2), of e] None assms(2) by metis
    have "\<forall>x \<in> set (tt_locals s). tt_key (tl_common x) \<noteq> key"
      using None tt_local_ht.lookup_None_iff [OF h(2)] by (simp add: l)
    then show ?thesis
      using assms(3) h(1) h' by (auto simp: tt_locals_def tt_local_wf_def tt_mod_def)
  next
    case (Some m)
    then have "batadv_hash_add (Some h) (\<lambda>e. batadv_compare_tt (tl_common e)) (batadv_choose_tt k) key e = (1, Some h)"
      using tt_local_ht.add_present [OF h(2), of e m] assms(2) by simp
    moreover have "m \<in> set (tt_locals s)" "tt_key (tl_common m) = key"
      using Some tt_local_ht.lookup_iff [OF h(2)] by (simp_all add: l)
    ultimately show ?thesis
      using assms(3) h(1) by auto
  qed
  then show "r = 0 \<longleftrightarrow> (\<forall>x \<in> set (tt_locals s). tt_key (tl_common x) \<noteq> key)"
    "r = 0 \<Longrightarrow> mset (tt_locals (tt_mod (tt_local_hash_update (\<lambda>_. hash)) s)) = add_mset e (mset (tt_locals s))"
    "r = 0 \<Longrightarrow> tt_local_wf k (tt_mod (tt_local_hash_update (\<lambda>_. hash)) s)"
    by blast+
qed

end
