(* ===== verification/Tt_Invariant.thy ===== *)
theory Tt_Invariant
  imports Tt_Facts "HOL-Library.Multiset"
begin

text \<open>
  What the local table keeps: the number of events is their count, a VLAN counts its
  committed clients, and holds one reference for every client and one for the interface,
  so it leaves the list when the interface and the last client are gone.
\<close>

section \<open>The VLANs as a map\<close>

definition vlan_of :: "batadv_priv \<Rightarrow> vid \<Rightarrow> batadv_softif_vlan option" where
  "vlan_of s vid = find (\<lambda>v. sv_vid v = vid) (bp_softif_vlan_list s)"

definition vids_distinct :: "batadv_priv \<Rightarrow> bool" where
  "vids_distinct s \<longleftrightarrow> distinct (map sv_vid (bp_softif_vlan_list s))"

lemma find_filter_key:
  "distinct (map f xs) \<Longrightarrow> find (\<lambda>x. f x = a) (filter (\<lambda>x. \<not> (f x = b \<and> p x)) xs) =
    (if a = b then (case find (\<lambda>x. f x = a) xs of None \<Rightarrow> None | Some x \<Rightarrow> if p x then None else Some x)
     else find (\<lambda>x. f x = a) xs)"
proof (induction xs)
  case Nil
  then show ?case by simp
next
  case (Cons x xs)
  have n: "find (\<lambda>x. f x = a) xs = None" if "f x = a"
    using that Cons.prems by (auto simp: find_None_iff) (metis image_eqI)
  have "find (\<lambda>x. f x = a) (filter (\<lambda>x. \<not> (f x = b \<and> p x)) xs) = None" if "f x = a"
    using that Cons.prems by (auto simp: find_None_iff) (metis image_eqI)+
  then show ?case
    using Cons n by auto
qed

lemma vlan_mod:
  assumes "\<And>v. sv_vid (f v) = sv_vid v"
  shows "vlan_of (softif_vlan_mod vid f s) w = (if w = vid then map_option f (vlan_of s vid) else vlan_of s w)"
    "vids_distinct (softif_vlan_mod vid f s) = vids_distinct s"
proof -
  show "vlan_of (softif_vlan_mod vid f s) w = (if w = vid then map_option f (vlan_of s vid) else vlan_of s w)"
    by (auto simp: vlan_of_def softif_vlan_mod_def find_update_first assms intro: find_update_first_other)
  show "vids_distinct (softif_vlan_mod vid f s) = vids_distinct s"
    by (simp add: vids_distinct_def softif_vlan_mod_def map_update_first assms)
qed

lemma vlan_put:
  assumes "vids_distinct s"
  shows "vlan_of (batadv_softif_vlan_put vid s) w =
      (if w = vid then (case vlan_of s vid of None \<Rightarrow> None
         | Some v \<Rightarrow> if sv_refcount v - 1 = 0 then None else Some (v\<lparr>sv_refcount := sv_refcount v - 1\<rparr>))
       else vlan_of s w)"
    "vids_distinct (batadv_softif_vlan_put vid s)"
proof -
  let ?f = "\<lambda>v :: batadv_softif_vlan. v\<lparr>sv_refcount := sv_refcount v - 1\<rparr>"
  let ?s = "softif_vlan_mod vid ?f s"
  have d: "vids_distinct ?s"
    using assms by (simp add: vlan_mod)
  have "vlan_of (batadv_softif_vlan_put vid s) w = find (\<lambda>v. sv_vid v = w)
      (filter (\<lambda>v. \<not> (sv_vid v = vid \<and> sv_refcount v = 0)) (bp_softif_vlan_list ?s))"
    by (simp add: vlan_of_def batadv_softif_vlan_put_def Let_def)
  also have "\<dots> = (if w = vid then (case vlan_of ?s w of None \<Rightarrow> None
      | Some x \<Rightarrow> if sv_refcount x = 0 then None else Some x) else vlan_of ?s w)"
    using d unfolding vlan_of_def vids_distinct_def by (subst find_filter_key) simp_all
  finally show "vlan_of (batadv_softif_vlan_put vid s) w =
      (if w = vid then (case vlan_of s vid of None \<Rightarrow> None
         | Some v \<Rightarrow> if sv_refcount v - 1 = 0 then None else Some (v\<lparr>sv_refcount := sv_refcount v - 1\<rparr>))
       else vlan_of s w)"
    by (auto simp: vlan_mod split: option.split)
  show "vids_distinct (batadv_softif_vlan_put vid s)"
    using d by (simp add: vids_distinct_def batadv_softif_vlan_put_def distinct_map_filter Let_def)
qed

lemma vlan_get:
  "fst (batadv_softif_vlan_get vid s) = vlan_of s vid"
  "vlan_of (snd (batadv_softif_vlan_get vid s)) w =
    (if w = vid then map_option (\<lambda>v. v\<lparr>sv_refcount := sv_refcount v + 1\<rparr>) (vlan_of s vid) else vlan_of s w)"
  "vids_distinct (snd (batadv_softif_vlan_get vid s)) = vids_distinct s"
proof -
  show "fst (batadv_softif_vlan_get vid s) = vlan_of s vid"
    by (simp add: batadv_softif_vlan_get_def vlan_of_def split: option.split)
  show "vlan_of (snd (batadv_softif_vlan_get vid s)) w =
    (if w = vid then map_option (\<lambda>v. v\<lparr>sv_refcount := sv_refcount v + 1\<rparr>) (vlan_of s vid) else vlan_of s w)"
    by (simp add: batadv_softif_vlan_get_def vlan_of_def [symmetric] vlan_mod split: option.split)
  show "vids_distinct (snd (batadv_softif_vlan_get vid s)) = vids_distinct s"
    by (simp add: batadv_softif_vlan_get_def vlan_mod split: option.split)
qed

text \<open>Only the VLANs change in these operations.\<close>

lemma vlan_ops_tt [tt_simps]:
  "bp_tt (softif_vlan_mod vid f s) = bp_tt s" "bp_tt (batadv_softif_vlan_put vid s) = bp_tt s"
  "bp_tt (snd (batadv_softif_vlan_get vid s)) = bp_tt s"
  by (simp_all add: softif_vlan_mod_def batadv_softif_vlan_put_def batadv_softif_vlan_get_def split: option.split)

lemma size_mod_vlan:
  assumes "vids_distinct s" "\<And>v. vlan_of s vid = Some v \<Longrightarrow> 0 < sv_refcount v"
  shows "vlan_of (batadv_tt_local_size_mod vid d s) w =
      (if w = vid then map_option (\<lambda>v. v\<lparr>sv_num_entries := sv_num_entries v + d\<rparr>) (vlan_of s vid) else vlan_of s w)"
    "vids_distinct (batadv_tt_local_size_mod vid d s)"
    "bp_tt (batadv_tt_local_size_mod vid d s) = bp_tt s"
proof -
  obtain q t where g: "batadv_softif_vlan_get vid s = (q, t)" by fastforce
  have q: "q = vlan_of s vid" and t: "\<And>w. vlan_of t w =
      (if w = vid then map_option (\<lambda>v. v\<lparr>sv_refcount := sv_refcount v + 1\<rparr>) (vlan_of s vid) else vlan_of s w)"
      "vids_distinct t" "bp_tt t = bp_tt s"
    using vlan_get [of vid s] vlan_ops_tt(3) [of vid s] assms(1) by (simp_all add: g)
  show "vlan_of (batadv_tt_local_size_mod vid d s) w =
      (if w = vid then map_option (\<lambda>v. v\<lparr>sv_num_entries := sv_num_entries v + d\<rparr>) (vlan_of s vid) else vlan_of s w)"
    using assms(2)
    by (auto simp: batadv_tt_local_size_mod_def g q t vlan_put vlan_mod split: option.split)
  show "vids_distinct (batadv_tt_local_size_mod vid d s)"
    by (auto simp: batadv_tt_local_size_mod_def g t vlan_put vlan_mod split: option.split)
  show "bp_tt (batadv_tt_local_size_mod vid d s) = bp_tt s"
    by (auto simp: batadv_tt_local_size_mod_def g t tt_simps split: option.split)
qed

lemma release_vlan:
  assumes "vids_distinct s" "\<And>v. vlan_of s vid = Some v \<Longrightarrow> 0 < sv_refcount v"
  shows "vlan_of (tt_vlan_release vid s) w =
      (if w = vid then (case vlan_of s vid of None \<Rightarrow> None
         | Some v \<Rightarrow> if sv_refcount v = 1 then None else Some (v\<lparr>sv_refcount := sv_refcount v - 1\<rparr>))
       else vlan_of s w)"
    "vids_distinct (tt_vlan_release vid s)" "bp_tt (tt_vlan_release vid s) = bp_tt s"
proof -
  obtain q t where g: "batadv_softif_vlan_get vid s = (q, t)" by fastforce
  have q: "q = vlan_of s vid" and t: "\<And>w. vlan_of t w =
      (if w = vid then map_option (\<lambda>v. v\<lparr>sv_refcount := sv_refcount v + 1\<rparr>) (vlan_of s vid) else vlan_of s w)"
      "vids_distinct t" "bp_tt t = bp_tt s"
    using vlan_get [of vid s] vlan_ops_tt(3) [of vid s] assms(1) by (simp_all add: g)
  show "vlan_of (tt_vlan_release vid s) w =
      (if w = vid then (case vlan_of s vid of None \<Rightarrow> None
         | Some v \<Rightarrow> if sv_refcount v = 1 then None else Some (v\<lparr>sv_refcount := sv_refcount v - 1\<rparr>))
       else vlan_of s w)"
    using assms(2)
    by (cases "vlan_of s vid") (auto simp: tt_vlan_release_def g q t vlan_put)
  show "vids_distinct (tt_vlan_release vid s)"
    by (auto simp: tt_vlan_release_def g t vlan_put split: option.split)
  show "bp_tt (tt_vlan_release vid s) = bp_tt s"
    by (auto simp: tt_vlan_release_def g t tt_simps split: option.split)
qed

section \<open>Counting clients\<close>

definition clients :: "vid \<Rightarrow> batadv_priv \<Rightarrow> nat" where
  "clients w s = size {#e \<in># mset (tt_locals s). tt_vid (tl_common e) = w#}"

definition committed :: "vid \<Rightarrow> batadv_priv \<Rightarrow> nat" where
  "committed w s = size {#e \<in># mset (tt_locals s).
     tt_vid (tl_common e) = w \<and> \<not> has_flag (tt_flags (tl_common e)) BATADV_TT_CLIENT_NEW#}"

lemma map_if_other: "\<forall>x \<in> set xs. key x \<noteq> a \<Longrightarrow> map (\<lambda>x. if key x = a then f x else x) xs = xs"
  by (induction xs) auto

lemma filter_other: "\<forall>x \<in> set xs. key x \<noteq> a \<Longrightarrow> filter (\<lambda>x. key x \<noteq> a) xs = xs"
  by (induction xs) auto

lemma split_key:
  assumes "e \<in> set xs" "distinct (map key xs)"
  shows "mset xs = add_mset e (mset (filter (\<lambda>x. key x \<noteq> key e) xs))"
    "mset (map (\<lambda>x. if key x = key e then f x else x) xs) = add_mset (f e) (mset (filter (\<lambda>x. key x \<noteq> key e) xs))"
proof -
  obtain as bs where x: "xs = as @ e # bs"
    using split_list [OF assms(1)] by blast
  have o: "\<forall>x \<in> set as. key x \<noteq> key e" "\<forall>x \<in> set bs. key x \<noteq> key e"
    using assms(2) unfolding x by (auto simp: image_iff)
  note r = filter_other [OF o(1)] filter_other [OF o(2)] map_if_other [OF o(1)] map_if_other [OF o(2)]
  have "filter (\<lambda>x. key x \<noteq> key e) xs = as @ bs"
    unfolding x filter_append filter.simps r by simp
  moreover have "map (\<lambda>x. if key x = key e then f x else x) xs = as @ f e # bs"
    unfolding x map_append list.map r by simp
  ultimately show "mset xs = add_mset e (mset (filter (\<lambda>x. key x \<noteq> key e) xs))"
    "mset (map (\<lambda>x. if key x = key e then f x else x) xs) = add_mset (f e) (mset (filter (\<lambda>x. key x \<noteq> key e) xs))"
    by (simp_all add: x)
qed

definition vlan_counts :: "(vid \<Rightarrow> nat) \<Rightarrow> batadv_priv \<Rightarrow> bool" where
  "vlan_counts held s \<longleftrightarrow> (\<forall>w. case vlan_of s w of
       None \<Rightarrow> clients w s = 0 \<and> held w = 0
     | Some v \<Rightarrow> sv_num_entries v = int (committed w s) \<and>
                sv_refcount v = clients w s + (if sv_kobj v then 1 else 0) + held w \<and> 0 < sv_refcount v)"

definition tt_local_inv :: "kenv \<Rightarrow> (vid \<Rightarrow> nat) \<Rightarrow> batadv_priv \<Rightarrow> bool" where
  "tt_local_inv k held s \<longleftrightarrow> tt_local_wf k s \<and> vids_distinct s \<and> vlan_counts held s"

lemma local_inv_same:
  assumes "tt_local_hash (bp_tt s') = tt_local_hash (bp_tt s)" "bp_softif_vlan_list s' = bp_softif_vlan_list s"
  shows "tt_local_inv k held s' = tt_local_inv k held s"
proof -
  have l: "tt_locals s' = tt_locals s" by (rule locals_same) (rule assms)
  have v: "vlan_of s' = vlan_of s" by (rule ext) (simp add: vlan_of_def assms(2))
  have c: "clients w s' = clients w s" "committed w s' = committed w s" for w
    by (simp_all only: clients_def committed_def l)
  show ?thesis
    by (simp only: tt_local_inv_def local_wf_same [OF assms(1)] vids_distinct_def vlan_counts_def c v assms)
qed

lemma vlan_counts_at:
  assumes c: "vlan_counts held s" and v: "vlan_of s w = Some v"
  shows "sv_num_entries v = int (committed w s)" "sv_refcount v = clients w s + (if sv_kobj v then 1 else 0) + held w"
    "0 < sv_refcount v"
  using spec [OF c [unfolded vlan_counts_def], of w] unfolding v option.case by blast+

lemma vlan_counts_None:
  "vlan_counts held s \<Longrightarrow> vlan_of s w = None \<Longrightarrow> clients w s = 0"
  "vlan_counts held s \<Longrightarrow> vlan_of s w = None \<Longrightarrow> held w = 0"
  unfolding vlan_counts_def by (drule spec [of _ w], simp)+

section \<open>Events\<close>

lemma event_merge_length:
  "tt_event_merge a f cs = (r, cs') \<Longrightarrow> length cs' = (if r then length cs - 1 else length cs) \<and> (r \<longrightarrow> cs \<noteq> [])"
proof (induction cs arbitrary: r cs')
  case (Cons c cs)
  obtain r1 cs1 where m: "tt_event_merge a f cs = (r1, cs1)" by fastforce
  then have "length cs1 = (if r1 then length cs - 1 else length cs) \<and> (r1 \<longrightarrow> cs \<noteq> [])"
    by (rule Cons.IH)
  then show ?case
    using Cons.prems m by (auto simp: Let_def neq_Nil_conv split: if_splits)
qed simp

definition events_counted :: "batadv_priv \<Rightarrow> bool" where
  "events_counted s \<longleftrightarrow> tt_local_changes (bp_tt s) = int (length (tt_changes_list (bp_tt s)))"

text \<open>An event changes nothing but the list of events.\<close>

lemma local_event:
  "bp_softif_vlan_list (batadv_tt_local_event k key f s) = bp_softif_vlan_list s"
  "tt_local_hash (bp_tt (batadv_tt_local_event k key f s)) = tt_local_hash (bp_tt s)"
  "events_counted s \<Longrightarrow> events_counted (batadv_tt_local_event k key f s)"
proof -
  have "bp_softif_vlan_list (batadv_tt_local_event k key f s) = bp_softif_vlan_list s \<and>
      tt_local_hash (bp_tt (batadv_tt_local_event k key f s)) = tt_local_hash (bp_tt s) \<and>
      (events_counted s \<longrightarrow> events_counted (batadv_tt_local_event k key f s))"
  proof (cases "batadv_tt_local_hash_find k s (fst key) (snd key)")
    case (Some e)
    let ?c = "tl_common e"
    obtain r cs where m: "tt_event_merge (tt_addr ?c) (ucast (tt_flags ?c OR f)) (tt_changes_list (bp_tt s)) = (r, cs)"
      by fastforce
    then show ?thesis
      using event_merge_length [OF m] Some
      by (cases r; cases "tt_changes_list (bp_tt s)")
        (auto simp: batadv_tt_local_event_def kzalloc_eq Let_def tt_mod_def events_counted_def)
  qed (simp add: batadv_tt_local_event_def)
  then show "bp_softif_vlan_list (batadv_tt_local_event k key f s) = bp_softif_vlan_list s"
    "tt_local_hash (bp_tt (batadv_tt_local_event k key f s)) = tt_local_hash (bp_tt s)"
    "events_counted s \<Longrightarrow> events_counted (batadv_tt_local_event k key f s)"
    by blast+
qed

section \<open>Elementary updates of the clients\<close>

definition is_new :: "batadv_tt_local_entry \<Rightarrow> bool" where
  "is_new e \<longleftrightarrow> has_flag (tt_flags (tl_common e)) BATADV_TT_CLIENT_NEW"

abbreviation local_key :: "batadv_tt_local_entry \<Rightarrow> tt_key" where
  "local_key e \<equiv> tt_key (tl_common e)"

text \<open>What an update does to the counts of a VLAN.\<close>

definition vlan_shift :: "vid \<Rightarrow> int \<Rightarrow> int \<Rightarrow> batadv_priv \<Rightarrow> batadv_priv \<Rightarrow> bool" where
  "vlan_shift vid dc dm s s' \<longleftrightarrow> (\<forall>w. int (clients w s') = int (clients w s) + (if w = vid then dc else 0) \<and>
     int (committed w s') = int (committed w s) + (if w = vid then dm else 0))"

lemma committed_alt: "committed w s = size {#e \<in># mset (tt_locals s). tt_vid (tl_common e) = w \<and> \<not> is_new e#}"
  by (simp add: committed_def is_new_def)

lemma key_vid: "tt_key c = (a, v) \<Longrightarrow> tt_vid c = v"
  by (simp add: tt_key_def)

lemma same_key_vid: "tt_key c = tt_key d \<Longrightarrow> tt_vid c = tt_vid d"
  by (simp add: tt_key_def)

text \<open>A write that keeps the key and whether the entry is new.\<close>

lemma size_filter_image:
  "(\<And>e. p (g e) = p e) \<Longrightarrow> size (filter_mset p (image_mset g M)) = size (filter_mset p M)"
  by (induction M) auto

lemma shift_kept:
  assumes "\<And>e. local_key (f e) = local_key e" "\<And>e. is_new (f e) = is_new e"
  shows "vlan_shift vid 0 0 s (tt_local_mod key f s)"
proof -
  let ?g = "\<lambda>e. if local_key e = key then f e else e"
  have g: "tt_vid (tl_common (?g e)) = tt_vid (tl_common e)" "is_new (?g e) = is_new e" for e
    by (simp_all add: assms(2) same_key_vid [OF assms(1) [of e]])
  have m: "mset (tt_locals (tt_local_mod key f s)) = image_mset ?g (mset (tt_locals s))"
    by (simp add: local_mod_locals)
  have "clients w (tt_local_mod key f s) = clients w s" for w
    unfolding clients_def m by (rule size_filter_image) (simp only: g)
  moreover have "committed w (tt_local_mod key f s) = committed w s" for w
    unfolding committed_alt m by (rule size_filter_image) (simp only: g)
  ultimately show ?thesis
    by (simp add: vlan_shift_def)
qed

text \<open>A write to one client that keeps the key, and taking a client out.\<close>

lemma shift_changed:
  assumes "tt_local_wf k s" "e \<in> set (tt_locals s)" "local_key (f e) = local_key e"
  shows "vlan_shift (tt_vid (tl_common e)) 0 ((if is_new (f e) then 0 else 1) - (if is_new e then 0 else 1)) s
    (tt_local_mod (local_key e) f s)"
proof -
  obtain M where m: "mset (tt_locals s) = add_mset e M" "mset (tt_locals (tt_local_mod (local_key e) f s)) = add_mset (f e) M"
    using split_key [OF assms(2) local_keys_distinct [OF assms(1)]] unfolding local_mod_locals by metis
  have v: "tt_vid (tl_common (f e)) = tt_vid (tl_common e)"
    by (rule same_key_vid) (rule assms(3))
  show ?thesis
    unfolding vlan_shift_def clients_def committed_alt m by (simp add: v)
qed

lemma shift_dropped:
  assumes "tt_local_wf k s" "e \<in> set (tt_locals s)"
    and "tt_locals s' = filter (\<lambda>x. local_key x \<noteq> local_key e) (tt_locals s)"
  shows "vlan_shift (tt_vid (tl_common e)) (- 1) (if is_new e then 0 else - 1) s s'"
proof -
  obtain M where m: "mset (tt_locals s) = add_mset e M" "mset (tt_locals s') = M"
    using split_key(1) [OF assms(2) local_keys_distinct [OF assms(1)]] unfolding assms(3) by blast
  show ?thesis
    unfolding vlan_shift_def clients_def committed_alt m by simp
qed

lemma shift_added:
  assumes "mset (tt_locals s') = add_mset e (mset (tt_locals s))"
  shows "vlan_shift (tt_vid (tl_common e)) 1 (if is_new e then 0 else 1) s s'"
  by (auto simp: vlan_shift_def clients_def committed_alt assms)

text \<open>The VLAN of the update has to follow it.\<close>

lemma counts_follow_held:
  assumes "vlan_counts held s" "vlan_shift vid dc dm s s'"
    and "\<And>w. w \<noteq> vid \<Longrightarrow> vlan_of s' w = vlan_of s w"
    and "case vlan_of s' vid of
         None \<Rightarrow> int (clients vid s) + dc = 0 \<and> n = 0
       | Some v \<Rightarrow> sv_num_entries v = int (committed vid s) + dm \<and>
           int (sv_refcount v) = int (clients vid s) + dc + (if sv_kobj v then 1 else 0) + int n \<and> 0 < sv_refcount v"
  shows "vlan_counts (held(vid := n)) s'"
proof -
  have "case vlan_of s' w of None \<Rightarrow> clients w s' = 0 \<and> (held(vid := n)) w = 0
     | Some v \<Rightarrow> sv_num_entries v = int (committed w s') \<and>
                sv_refcount v = clients w s' + (if sv_kobj v then 1 else 0) + (held(vid := n)) w \<and> 0 < sv_refcount v" for w
  proof (cases "w = vid")
    case False
    have "clients w s' = clients w s" "committed w s' = committed w s"
      using spec [OF assms(2) [unfolded vlan_shift_def], of w] False by simp_all
    then show ?thesis
      using spec [OF assms(1) [unfolded vlan_counts_def], of w] assms(3) [OF False] fun_upd_other [OF False, of held n]
      by (simp only:)
  next
    case True
    have c: "int (clients vid s') = int (clients vid s) + dc" "int (committed vid s') = int (committed vid s) + dm"
      using assms(2) by (auto simp: vlan_shift_def)
    show ?thesis
    proof (cases "vlan_of s' vid")
      case None
      then show ?thesis using assms(4) c True by simp
    next
      case (Some v)
      then show ?thesis using assms(4) c True by (cases "sv_kobj v") auto
    qed
  qed
  then show ?thesis unfolding vlan_counts_def by blast
qed

lemmas counts_follow = counts_follow_held [where n = "held vid" and held = held and vid = vid for held vid, unfolded fun_upd_triv]

section \<open>The operations keep the invariant\<close>

text \<open>Operations that neither touch the local table nor the VLANs.\<close>

definition local_frame :: "batadv_priv \<Rightarrow> batadv_priv \<Rightarrow> bool" where
  "local_frame s s' \<longleftrightarrow> tt_local_hash (bp_tt s') = tt_local_hash (bp_tt s) \<and> bp_softif_vlan_list s' = bp_softif_vlan_list s"

lemma local_frame_inv: "local_frame s s' \<Longrightarrow> tt_local_inv k held s' = tt_local_inv k held s"
  unfolding local_frame_def by (elim conjE) (rule local_inv_same)

lemma local_frame_trans: "local_frame s t \<Longrightarrow> local_frame t u \<Longrightarrow> local_frame s u"
  by (simp add: local_frame_def)

lemma local_frame_refl [simp]: "local_frame s s"
  by (simp add: local_frame_def)

lemma local_frame_fold: "(\<And>x s. local_frame s (f x s)) \<Longrightarrow> local_frame s (fold f xs s)"
  by (induction xs arbitrary: s) (auto intro: local_frame_trans)

lemma local_frame_event: "local_frame s (batadv_tt_local_event k key f s)"
  by (simp add: local_frame_def local_event)

lemma local_frame_simple [simp]:
  "local_frame s (tt_global_mod key g s)" "local_frame s (batadv_tt_global_free k key s)"
  "local_frame s (orig_mod i h s)" "local_frame s (call c s)" "local_frame s (s\<lparr>bp_panic := b\<rparr>)"
  "local_frame s (s\<lparr>bp_allocs := oks\<rparr>)"
  by (simp_all add: local_frame_def tt_global_mod_def batadv_tt_global_free_def tt_mod_def orig_mod_def call_def)

lemma local_frame_kzalloc: "kzalloc s = (ok, s') \<Longrightarrow> local_frame s s'"
  by (auto simp: kzalloc_eq)

lemma local_frame_tt_mod: "(\<And>t. tt_local_hash (f t) = tt_local_hash t) \<Longrightarrow> local_frame s (tt_mod f s)"
  by (simp add: local_frame_def tt_mod_def)

lemma local_frame_unicast: "local_frame s (batadv_tvlv_unicast_send k src dst t v b l s)"
  by (auto simp: batadv_tvlv_unicast_send_def kzalloc_eq Let_def local_frame_def call_def split: option.split)

lemma local_frame_roam_adv: "local_frame s (batadv_send_roam_adv k c v orig s)"
proof -
  have c: "local_frame s t" if "batadv_tt_check_roam_count k c s = (ok, t)" for ok t
    using that by (auto simp: batadv_tt_check_roam_count_def kzalloc_eq Let_def local_frame_def tt_mod_def
        split: option.splits if_splits)
  show ?thesis
    by (auto simp: batadv_send_roam_adv_def split: option.split prod.split
        intro: c local_frame_trans [OF c local_frame_unicast])
qed

lemma local_frame_roaming: "local_frame s (tt_check_roaming k key g back s)"
proof (cases g)
  case (Some e)
  let ?t = "fold (\<lambda>orig_entry. batadv_send_roam_adv k (fst key) (snd key) (oe_orig_node orig_entry)) (tg_orig_list e) s"
  have f: "local_frame s ?t"
    by (rule local_frame_fold) (rule local_frame_roam_adv)
  show ?thesis
    unfolding tt_check_roaming_def Some option.case Let_def
    using local_frame_trans [OF f local_frame_simple(1)] local_frame_trans [OF f local_frame_simple(2)]
    by (simp only: local_frame_refl split: if_split) blast
qed (simp add: tt_check_roaming_def)

lemma local_frame_register: "local_frame s (batadv_tvlv_container_register t v b l s)"
  by (auto simp: batadv_tvlv_container_register_def batadv_tvlv_container_remove_def kzalloc_eq Let_def local_frame_def
      split: option.split)

lemma local_frame_prepare: "batadv_tt_prepare_tvlv_local_data n s = (a, b, c, s') \<Longrightarrow> local_frame s s'"
  by (auto simp: batadv_tt_prepare_tvlv_local_data_def tt_prepare_def kzalloc_eq Let_def split: if_splits)

lemma local_frame_message: "tt_message n d v b s = (bytes, s') \<Longrightarrow> local_frame s s'"
  by (auto simp: tt_message_def Let_def split: if_splits)

lemma local_frame_take: "tt_take_changes n l s = (b, s') \<Longrightarrow> local_frame s s'"
  by (auto simp: tt_take_changes_def kzalloc_eq Let_def local_frame_def tt_mod_def split: if_splits)

lemma local_frame_container_update: "local_frame s (batadv_tt_tvlv_container_update s)"
proof -
  obtain n l r t where p: "batadv_tt_prepare_tvlv_local_data (if batadv_tt_len (tt_local_changes (bp_tt s)) > int (bp_mtu s)
       then 0 else batadv_tt_len (tt_local_changes (bp_tt s))) s = (n, l, r, t)"
    by (metis prod_cases4)
  obtain b u where e: "(if l = 0 then ([], t) else tt_take_changes (tt_local_changes (bp_tt s)) l t) = (b, u)"
    by fastforce
  have st: "local_frame s t" by (rule local_frame_prepare) (rule p)
  have "local_frame t u" using e local_frame_take by (auto split: if_splits)
  then have su: "local_frame s u" by (rule local_frame_trans [OF st])
  show ?thesis
  proof (cases r)
    case None
    then show ?thesis
      unfolding batadv_tt_tvlv_container_update_def Let_def p by (simp add: st)
  next
    case (Some dv)
    obtain d v where dv: "dv = (d, v)" by fastforce
    obtain bytes w where m: "tt_message n (d\<lparr>td_flags := 1\<rparr>) v b u = (bytes, w)" by fastforce
    have "local_frame s (batadv_tvlv_container_register BATADV_TVLV_TT 1 (Some bytes) n w)"
      by (rule local_frame_trans [OF su local_frame_trans [OF local_frame_message [OF m] local_frame_register]])
    then show ?thesis
      unfolding batadv_tt_tvlv_container_update_def Let_def p Some dv prod.case option.case e m
      by (simp add: st)
  qed
qed

text \<open>Writes to clients.\<close>

lemma inv_shift_0:
  assumes "tt_local_inv k held s" "tt_local_wf k s'" "bp_softif_vlan_list s' = bp_softif_vlan_list s" "vlan_shift vid 0 0 s s'"
  shows "tt_local_inv k held s'"
proof -
  have v: "vlan_of s' = vlan_of s" by (rule ext) (simp add: vlan_of_def assms(3))
  have c: "clients w s' = clients w s" "committed w s' = committed w s" for w
    using spec [OF assms(4) [unfolded vlan_shift_def], of w] by simp_all
  have "vlan_counts held s' = vlan_counts held s"
    by (simp only: vlan_counts_def v c)
  then show ?thesis
    using assms(1,2,3) by (simp only: tt_local_inv_def vids_distinct_def simp_thms)
qed

lemma inv_kept:
  assumes "tt_local_inv k held s" "\<And>e. local_key (f e) = local_key e" "\<And>e. is_new (f e) = is_new e"
  shows "tt_local_inv k held (tt_local_mod key f s)"
proof (rule inv_shift_0 [OF assms(1)])
  show "tt_local_wf k (tt_local_mod key f s)"
    using assms(1) unfolding tt_local_inv_def by (intro local_wf_mod [OF assms(2)]) (elim conjE)
  show "vlan_shift 0 0 0 s (tt_local_mod key f s)"
    by (rule shift_kept) (rule assms)+
qed (rule local_mod_frame)

lemma inv_changed:
  assumes "tt_local_inv k held s" "e \<in> set (tt_locals s)" "\<And>x. local_key (f x) = local_key x" "is_new (f e) = is_new e"
  shows "tt_local_inv k held (tt_local_mod (local_key e) f s)"
proof (rule inv_shift_0 [OF assms(1)])
  have w: "tt_local_wf k s" using assms(1) unfolding tt_local_inv_def by (elim conjE)
  show "tt_local_wf k (tt_local_mod (local_key e) f s)"
    by (rule local_wf_mod [OF assms(3) w])
  show "vlan_shift (tt_vid (tl_common e)) 0 0 s (tt_local_mod (local_key e) f s)"
    using shift_changed [OF w assms(2), where f = f, OF assms(3)] unfolding assms(4) by simp
qed (rule local_mod_frame)

lemma inv_vlans_same:
  assumes "tt_local_inv k held s" "tt_local_hash (bp_tt s') = tt_local_hash (bp_tt s)"
    "\<And>w. vlan_of s' w = vlan_of s w" "vids_distinct s'"
  shows "tt_local_inv k held s'"
proof -
  have l: "tt_locals s' = tt_locals s" by (rule locals_same) (rule assms(2))
  have c: "clients w s' = clients w s" "committed w s' = committed w s" for w
    by (simp_all only: clients_def committed_def l)
  have "vlan_counts held s' = vlan_counts held s"
    by (simp only: vlan_counts_def c assms(3))
  then show ?thesis
    using assms(1,4) by (simp only: tt_local_inv_def local_wf_same [OF assms(2)] simp_thms)
qed

lemma inv_parts:
  assumes "tt_local_inv k held s"
  shows "tt_local_wf k s" "vids_distinct s" "vlan_counts held s" "\<And>w v. vlan_of s w = Some v \<Longrightarrow> 0 < sv_refcount v"
  using assms vlan_counts_at(3) unfolding tt_local_inv_def by blast+

text \<open>A client goes, and with it its reference on the VLAN.\<close>

lemma inv_drop_release:
  assumes inv: "tt_local_inv k held s" and e: "e \<in> set (tt_locals s)" and "vid = tt_vid (tl_common e)"
    and wf: "tt_local_wf k t" and l: "tt_locals t = filter (\<lambda>x. local_key x \<noteq> local_key e) (tt_locals s)"
    and d: "vids_distinct t" and dm: "dm = (if is_new e then 0 else - 1)"
    and v: "\<And>w. vlan_of t w = (if w = vid then map_option (\<lambda>v. v\<lparr>sv_num_entries := sv_num_entries v + dm\<rparr>) (vlan_of s vid)
                 else vlan_of s w)"
  shows "tt_local_inv k held (tt_vlan_release vid t)"
proof -
  let ?u = "tt_vlan_release vid t"
  have pos: "0 < sv_refcount x" if "vlan_of t vid = Some x" for x
    using that v [of vid] inv_parts(4) [OF inv, of vid] by auto
  have tu: "tt_local_hash (bp_tt ?u) = tt_local_hash (bp_tt t)"
    using release_vlan(3) [OF d pos] by simp
  have "tt_locals ?u = filter (\<lambda>x. local_key x \<noteq> local_key e) (tt_locals s)"
    unfolding locals_same [OF tu] by (rule l)
  then have sh: "vlan_shift vid (- 1) dm s ?u"
    using shift_dropped [OF inv_parts(1) [OF inv] e] by (simp add: assms(3) dm)
  have at: "int (clients vid s) + - 1 \<ge> 0"
    using spec [OF sh [unfolded vlan_shift_def], of vid] by simp
  obtain x where x: "vlan_of s vid = Some x"
    using at vlan_counts_None [OF inv_parts(3) [OF inv], of vid] by fastforce
  note cx = vlan_counts_at [OF inv_parts(3) [OF inv] x]
  have u: "vlan_of ?u w = (if w = vid then (case vlan_of t vid of None \<Rightarrow> None
         | Some v \<Rightarrow> if sv_refcount v = 1 then None else Some (v\<lparr>sv_refcount := sv_refcount v - 1\<rparr>))
       else vlan_of t w)" for w
    by (rule release_vlan(1) [OF d pos])
  have "vlan_counts held ?u"
  proof (rule counts_follow [OF inv_parts(3) [OF inv] sh])
    show "vlan_of ?u w = vlan_of s w" if "w \<noteq> vid" for w
      using that unfolding u v by simp
    show "case vlan_of ?u vid of None \<Rightarrow> int (clients vid s) + - 1 = 0 \<and> held vid = 0
       | Some v \<Rightarrow> sv_num_entries v = int (committed vid s) + dm \<and>
           int (sv_refcount v) = int (clients vid s) + - 1 + (if sv_kobj v then 1 else 0) + int (held vid) \<and> 0 < sv_refcount v"
      using at cx by (auto simp: u v x)
  qed
  then show ?thesis
    using release_vlan(2) [OF d pos] wf by (simp add: tt_local_inv_def local_wf_same [OF tu])
qed

section \<open>Adding\<close>

lemma inv_event: "tt_local_inv k held s \<Longrightarrow> tt_local_inv k held (batadv_tt_local_event k key f s)"
  by (simp add: local_frame_inv [OF local_frame_event])

lemma inv_local_set:
  "tt_local_inv k held s \<Longrightarrow> 0x200 AND m = 0 \<Longrightarrow>
   tt_local_inv k held (tt_local_mod key (\<lambda>e. e\<lparr>tl_common := tt_flag_set m (tl_common e)\<rparr>) s)"
  "tt_local_inv k held s \<Longrightarrow> 0x200 AND m = 0 \<Longrightarrow>
   tt_local_inv k held (tt_local_mod key (\<lambda>e. e\<lparr>tl_common := tt_flag_clear m (tl_common e)\<rparr>) s)"
  "tt_local_inv k held s \<Longrightarrow> tt_local_inv k held (tt_local_mod key (\<lambda>e. e\<lparr>tl_last_seen := t\<rparr>) s)"
  by (erule inv_kept; simp add: is_new_def)+

lemma inv_get:
  assumes "tt_local_inv k held s" "batadv_softif_vlan_get vid s = (Some v, t)"
  shows "vlan_of s vid = Some v" "tt_local_wf k t" "vids_distinct t" "tt_locals t = tt_locals s"
    "tt_local_hash (bp_tt t) = tt_local_hash (bp_tt s)"
    "vlan_of t w = (if w = vid then Some (v\<lparr>sv_refcount := sv_refcount v + 1\<rparr>) else vlan_of s w)"
proof -
  show v: "vlan_of s vid = Some v"
    using vlan_get(1) [of vid s] assms(2) by simp
  have b: "bp_tt t = bp_tt s"
    using vlan_ops_tt(3) [of vid s] assms(2) by simp
  show "tt_local_hash (bp_tt t) = tt_local_hash (bp_tt s)" by (simp add: b)
  show "tt_locals t = tt_locals s" by (rule locals_same) (simp add: b)
  show "tt_local_wf k t"
    using inv_parts(1) [OF assms(1)] by (simp add: tt_local_wf_def b)
  show "vids_distinct t"
    using vlan_get(3) [of vid s] inv_parts(2) [OF assms(1)] assms(2) by simp
  show "vlan_of t w = (if w = vid then Some (v\<lparr>sv_refcount := sv_refcount v + 1\<rparr>) else vlan_of s w)"
    using vlan_get(2) [of vid s w] v assms(2) by simp
qed

text \<open>A temporary reference.\<close>

lemma inv_taken:
  assumes "tt_local_inv k held s" "batadv_softif_vlan_get vid s = (Some v, t)"
  shows "tt_local_inv k (held(vid := Suc (held vid))) t"
proof -
  note g = inv_get [OF assms]
  note c = vlan_counts_at [OF inv_parts(3) [OF assms(1)] g(1)]
  have l: "clients w t = clients w s" "committed w t = committed w s" for w
    by (simp_all only: clients_def committed_def g(4))
  have sh: "vlan_shift vid 0 0 s t" by (simp add: vlan_shift_def l)
  have "vlan_counts (held(vid := Suc (held vid))) t"
  proof (rule counts_follow_held [OF inv_parts(3) [OF assms(1)] sh])
    show "vlan_of t w = vlan_of s w" if "w \<noteq> vid" for w using that by (simp add: g(6))
    show "case vlan_of t vid of None \<Rightarrow> int (clients vid s) + 0 = 0 \<and> Suc (held vid) = 0
       | Some v \<Rightarrow> sv_num_entries v = int (committed vid s) + 0 \<and>
           int (sv_refcount v) = int (clients vid s) + 0 + (if sv_kobj v then 1 else 0) + int (Suc (held vid)) \<and>
           0 < sv_refcount v"
      using c by (simp add: g(6))
  qed
  then show ?thesis using g(2,3) by (simp add: tt_local_inv_def)
qed

lemma inv_get_put:
  assumes "tt_local_inv k held s" "batadv_softif_vlan_get vid s = (Some v, t)"
  shows "tt_local_inv k held (batadv_softif_vlan_put vid t)"
proof (rule inv_vlans_same [OF assms(1)])
  note g = inv_get [OF assms]
  show "tt_local_hash (bp_tt (batadv_softif_vlan_put vid t)) = tt_local_hash (bp_tt s)"
    by (simp add: vlan_ops_tt g(5))
  show "vlan_of (batadv_softif_vlan_put vid t) w = vlan_of s w" for w
    using inv_parts(4) [OF assms(1) g(1)] g(1) by (simp add: vlan_put(1) [OF g(3)] g(6))
  show "vids_distinct (batadv_softif_vlan_put vid t)"
    by (rule vlan_put(2)) (rule g(3))
qed

lemma inv_kzalloc: "tt_local_inv k held s \<Longrightarrow> kzalloc s = (ok, t) \<Longrightarrow> tt_local_inv k held t"
  using local_frame_inv [OF local_frame_kzalloc] by blast

lemma inv_added:
  assumes inv: "tt_local_inv k held s" and g: "batadv_softif_vlan_get vid s = (Some v, t)"
    and e: "local_key e = (a, vid)" "is_new e"
    and add: "batadv_hash_add (tt_local_hash (bp_tt t)) (\<lambda>e. batadv_compare_tt (tl_common e)) (batadv_choose_tt k)
       (a, vid) e = (0, hash)"
  shows "tt_local_inv k held (tt_mod (tt_local_hash_update (\<lambda>_. hash)) t)" (is "tt_local_inv k held ?u")
proof -
  note g' = inv_get [OF inv g]
  have m: "mset (tt_locals ?u) = add_mset e (mset (tt_locals s))" "tt_local_wf k ?u"
    using local_hash_add(2,3) [OF g'(2) e(1) add] by (simp_all add: g'(4))
  have vid: "tt_vid (tl_common e) = vid" by (rule key_vid) (rule e(1))
  have sh: "vlan_shift vid 1 0 s ?u"
    using shift_added [OF m(1)] e(2) by (simp add: vid)
  have u: "vlan_of ?u w = vlan_of t w" for w
    by (simp add: vlan_of_def tt_mod_def)
  have "vlan_counts held ?u"
  proof (rule counts_follow [OF inv_parts(3) [OF inv] sh])
    show "vlan_of ?u w = vlan_of s w" if "w \<noteq> vid" for w
      using that unfolding u g'(6) by simp
    show "case vlan_of ?u vid of None \<Rightarrow> int (clients vid s) + 1 = 0 \<and> held vid = 0
       | Some v \<Rightarrow> sv_num_entries v = int (committed vid s) + 0 \<and>
           int (sv_refcount v) = int (clients vid s) + 1 + (if sv_kobj v then 1 else 0) + int (held vid) \<and> 0 < sv_refcount v"
      using vlan_counts_at [OF inv_parts(3) [OF inv] g'(1)] unfolding u g'(6) by simp
  qed
  then show ?thesis
    using m(2) g'(3) by (simp add: tt_local_inv_def vids_distinct_def tt_mod_simps)
qed

lemma inv_create:
  assumes "tt_local_inv k held s" "tt_local_create k key ifindex s = (ok, s')"
  shows "tt_local_inv k held s'"
proof (cases "batadv_tt_local_table_transmit_size s + batadv_tt_len 1 > bp_packet_size_max s")
  case False
  obtain ok1 s1 where a: "kzalloc s = (ok1, s1)" by fastforce
  have i1: "tt_local_inv k held s1" by (rule inv_kzalloc [OF assms(1) a])
  obtain q t where g: "batadv_softif_vlan_get (snd key) s1 = (q, t)" by fastforce
  show ?thesis
  proof (cases "ok1 \<and> q \<noteq> None")
    case True
    then obtain v where v: "q = Some v" by blast
    let ?flags = "0x200 OR (if in_dev_wifi ifindex t then 0x10 else 0)
       OR (if batadv_compare_eth (fst key) (bp_soft_addr t) \<or> is_multicast_ether_addr (fst key) then 0x100 else 0) :: u16"
    let ?e = "\<lparr>tl_common = \<lparr>tt_addr = fst key, tt_vid = snd key, tt_flags = ?flags, tt_added_at = k_jiffies k\<rparr>,
       tl_last_seen = k_jiffies k\<rparr>"
    obtain r hash where h: "batadv_hash_add (tt_local_hash (bp_tt t)) (\<lambda>e. batadv_compare_tt (tl_common e))
        (batadv_choose_tt k) key ?e = (r, hash)" by fastforce
    have s': "s' = (if r \<noteq> 0 then batadv_softif_vlan_put (snd key) t else tt_mod (tt_local_hash_update (\<lambda>_. hash)) t)"
      using assms(2) False a g True v h unfolding tt_local_create_def Let_def by (auto split: if_splits)
    have n: "is_new ?e"
      by (simp add: is_new_def has_flag_def bit.conj_disj_distrib2 or_eq_0_iff)
    have key: "local_key ?e = (fst key, snd key)" by (simp add: tt_key_def)
    show ?thesis
    proof (cases "r = 0")
      case True
      have "batadv_hash_add (tt_local_hash (bp_tt t)) (\<lambda>e. batadv_compare_tt (tl_common e))
        (batadv_choose_tt k) (fst key, snd key) ?e = (0, hash)"
        using h True by simp
      from inv_added [OF i1 g [unfolded v] key n this] show ?thesis
        by (simp add: s' True)
    next
      case False
      then show ?thesis
        using inv_get_put [OF i1 g [unfolded v]] by (simp add: s')
    qed
  next
    case False
    have "fst (batadv_softif_vlan_get (snd key) s1) = None \<Longrightarrow> t = s1"
      using g by (auto simp: batadv_softif_vlan_get_def split: option.splits)
    then have "s' = s1"
      using assms(2) \<open>\<not> _ < _\<close> a g False by (cases q) (auto simp: tt_local_create_def Let_def split: if_splits)
    then show ?thesis using i1 by simp
  qed
qed (use assms in \<open>simp add: tt_local_create_def\<close>)

lemma inv_attributes:
  assumes "tt_local_inv k held s"
  shows "tt_local_inv k held (tt_local_attributes k key ifindex mark s)"
proof (cases "batadv_tt_local_hash_find k s (fst key) (snd key)")
  case (Some e)
  then have e: "e \<in> set (tt_locals s)" "local_key e = key"
    using local_find_iff [OF inv_parts(1) [OF assms]] by simp_all
  have n: "has_flag (x AND NOT 0x10) 0x200 = has_flag x 0x200" "has_flag (x AND NOT 0x20) 0x200 = has_flag x 0x200"
    "has_flag (x OR 0x10) 0x200 = has_flag x 0x200" "has_flag (x OR 0x20) 0x200 = has_flag x 0x200" for x
    by (rule has_flag_clear, simp)+ (simp_all add: has_flag_def bit.conj_disj_distrib2)
  have i: "tt_local_inv k held (tt_local_mod key (\<lambda>e. e\<lparr>tl_common := (tl_common e)\<lparr>tt_flags := x\<rparr>\<rparr>) s)"
    if "has_flag x 0x200 = is_new e" for x
    using inv_changed [OF assms e(1), of "\<lambda>e. e\<lparr>tl_common := (tl_common e)\<lparr>tt_flags := x\<rparr>\<rparr>"] that e(2)
    by (simp add: is_new_def)
  let ?f = "tt_flags (tl_common e)"
  let ?w = "if in_dev_wifi ifindex s then ?f OR 0x10 else ?f AND NOT 0x10"
  let ?x = "if bp_isolation_mark_mask s \<noteq> 0 \<and> mark AND bp_isolation_mark_mask s = bp_isolation_mark s
    then ?w OR 0x20 else ?w AND NOT 0x20"
  let ?t = "tt_local_mod key (\<lambda>e. e\<lparr>tl_common := (tl_common e)\<lparr>tt_flags := ?x\<rparr>\<rparr>) s"
  have "has_flag ?x 0x200 = is_new e"
    by (simp only: is_new_def n simp_thms split: if_split)
  then have t: "tt_local_inv k held ?t" by (rule i)
  then show ?thesis
    using inv_event [OF t]
    by (simp only: tt_local_attributes_def Some option.case Let_def split: if_split) blast
qed (simp add: assms tt_local_attributes_def)

lemma inv_roaming: "tt_local_inv k held s \<Longrightarrow> tt_local_inv k held (tt_check_roaming k key g back s)"
  by (simp add: local_frame_inv [OF local_frame_roaming])

lemma inv_add:
  assumes "tt_local_inv k held s" "batadv_tt_local_add k addr vid ifindex mark s = (ok, s')"
  shows "tt_local_inv k held s'"
proof (cases "batadv_tt_local_hash_find k s addr vid")
  case None
  obtain ok1 s1 where c: "tt_local_create k (addr, vid) ifindex s = (ok1, s1)" by fastforce
  show ?thesis
    using assms inv_create [OF assms(1) c] None c unfolding batadv_tt_local_add_def Let_def
    by (auto intro!: inv_attributes inv_roaming inv_event split: if_splits)
next
  case (Some e)
  then show ?thesis
    using assms unfolding batadv_tt_local_add_def Let_def
    by (auto intro!: inv_attributes inv_roaming inv_event inv_local_set split: if_splits)
qed

section \<open>Removing\<close>

lemma inv_set_pending:
  assumes "tt_local_inv k held s"
  shows "tt_local_inv k held (batadv_tt_local_set_pending k key flags s)"
  unfolding batadv_tt_local_set_pending_def by (intro inv_local_set inv_event assms) simp

lemma local_remove_alt:
  "batadv_tt_local_remove k addr vid roaming s =
   (case batadv_tt_local_hash_find k s addr vid of
      None \<Rightarrow> (0, s)
    | Some e \<Rightarrow>
        (tt_flags (tl_common e),
         let s1 = (if roaming
                   then tt_local_mod (addr, vid) (\<lambda>e. e\<lparr>tl_common := tt_flag_set 2 (tl_common e)\<rparr>) s else s)
         in if \<not> is_new e then batadv_tt_local_set_pending k (addr, vid) (1 OR (if roaming then 2 else 0)) s1
            else tt_vlan_release vid (tt_local_drop k (addr, vid) (batadv_tt_local_event k (addr, vid) 1 s1))))"
  by (simp add: batadv_tt_local_remove_def is_new_def Let_def tt_vlan_release_def tt_local_drop_def split: option.split)

lemma inv_remove:
  assumes inv: "tt_local_inv k held s" and "batadv_tt_local_remove k addr vid roaming s = (flags, s')"
  shows "tt_local_inv k held s'"
proof (cases "batadv_tt_local_hash_find k s addr vid")
  case (Some e)
  then have e: "e \<in> set (tt_locals s)" "local_key e = (addr, vid)"
    using local_find_iff [OF inv_parts(1) [OF inv]] by simp_all
  let ?set = "\<lambda>e :: batadv_tt_local_entry. e\<lparr>tl_common := tt_flag_set 2 (tl_common e)\<rparr>"
  let ?s1 = "if roaming then tt_local_mod (addr, vid) ?set s else s"
  let ?s2 = "batadv_tt_local_event k (addr, vid) 1 ?s1"
  let ?e = "if roaming then ?set e else e"
  have i1: "tt_local_inv k held ?s1" using inv_local_set(1) [OF inv, of 2] inv by simp
  then have i2: "tt_local_inv k held ?s2" by (rule inv_event)
  have l2: "tt_locals ?s2 = tt_locals ?s1" by (rule locals_same) (rule local_event(2))
  have e2: "?e \<in> set (tt_locals ?s2)"
    unfolding l2 using e by (auto simp: local_mod_locals image_iff intro!: bexI [of _ e])
  have k2: "local_key ?e = (addr, vid)" "is_new ?e = is_new e" "tt_vid (tl_common ?e) = vid"
    using e(2) by (auto simp: is_new_def intro: key_vid)
  let ?s3 = "tt_local_drop k (addr, vid) ?s2"
  note d = local_drop_locals [OF inv_parts(1) [OF i2], of "(addr, vid)"]
  have v3: "bp_softif_vlan_list ?s3 = bp_softif_vlan_list ?s2"
    by (simp add: tt_local_drop_def tt_mod_def)
  have "tt_local_inv k held (tt_vlan_release vid ?s3)" if "is_new e"
  proof (rule inv_drop_release [OF i2 e2])
    show "tt_locals ?s3 = filter (\<lambda>x. local_key x \<noteq> local_key ?e) (tt_locals ?s2)"
      using d(1) unfolding k2(1) .
    show "vids_distinct ?s3" using inv_parts(2) [OF i2] by (simp add: vids_distinct_def v3)
    show "0 = (if is_new ?e then 0 else - 1)" using that k2(2) by simp
    show "vlan_of ?s3 w = (if w = vid then map_option (\<lambda>v. v\<lparr>sv_num_entries := sv_num_entries v + 0\<rparr>) (vlan_of ?s2 vid)
                 else vlan_of ?s2 w)" for w
      by (simp add: vlan_of_def v3 option.map_ident)
  qed (use d(2) k2(3) in simp_all)
  then have "tt_local_inv k held (if \<not> is_new e then batadv_tt_local_set_pending k (addr, vid) (1 OR (if roaming then 2 else 0)) ?s1
      else tt_vlan_release vid ?s3)"
    using inv_set_pending [OF i1] by (cases "is_new e") simp_all
  then show ?thesis
    using assms(2) unfolding local_remove_alt Some option.case Let_def by (simp only: prod.inject)
qed (use assms in \<open>simp add: batadv_tt_local_remove_def\<close>)

lemma inv_fold: "(\<And>x s. P s \<Longrightarrow> P (f x s)) \<Longrightarrow> P s \<Longrightarrow> P (fold f xs s)"
  by (induction xs arbitrary: s) auto

lemma inv_local_purge: "tt_local_inv k held s \<Longrightarrow> tt_local_inv k held (batadv_tt_local_purge k timeout s)"
  unfolding batadv_tt_local_purge_def
  by (rule inv_fold [where P = "tt_local_inv k held"]) (auto simp: tt_local_purge_entry_def intro: inv_set_pending)

section \<open>Committing\<close>

lemma flag_cleared: "\<not> has_flag (tt_flags (tt_flag_clear m c)) m"
  by (simp add: tt_flag_clear_def has_flag_cleared)

lemma inv_size_mod:
  assumes "vids_distinct s" "\<And>v. vlan_of s vid = Some v \<Longrightarrow> 0 < sv_refcount v" "tt_local_wf k s"
  shows "vids_distinct (batadv_tt_local_size_mod vid d s)" "tt_local_wf k (batadv_tt_local_size_mod vid d s)"
    "tt_locals (batadv_tt_local_size_mod vid d s) = tt_locals s"
    "tt_local_hash (bp_tt (batadv_tt_local_size_mod vid d s)) = tt_local_hash (bp_tt s)"
proof -
  note v = size_mod_vlan [where d = d, OF assms(1,2)]
  show "vids_distinct (batadv_tt_local_size_mod vid d s)" by (rule v(2))
  show h: "tt_local_hash (bp_tt (batadv_tt_local_size_mod vid d s)) = tt_local_hash (bp_tt s)"
    by (simp only: v(3))
  show "tt_local_wf k (batadv_tt_local_size_mod vid d s)" using assms(3) by (simp add: local_wf_same [OF h])
  show "tt_locals (batadv_tt_local_size_mod vid d s) = tt_locals s" by (rule locals_same) (rule h)
qed

text \<open>An entry that is new becomes a committed one, and its VLAN counts it.\<close>

lemma inv_commit_entry:
  assumes inv: "tt_local_inv k held s" and e: "e \<in> set (tt_locals s)"
  shows "tt_local_inv k held (tt_local_set_flags_entry 0x200 False True e s)"
    "x \<in> set (tt_locals (tt_local_set_flags_entry 0x200 False True e s)) \<Longrightarrow>
       (is_new x \<longrightarrow> x \<in> set (tt_locals s) \<and> local_key x \<noteq> local_key e)"
    "x \<in> set (tt_locals s) \<Longrightarrow> local_key x \<noteq> local_key e \<Longrightarrow>
       x \<in> set (tt_locals (tt_local_set_flags_entry 0x200 False True e s))"
proof -
  let ?clr = "\<lambda>e :: batadv_tt_local_entry. e\<lparr>tl_common := tt_flag_clear 0x200 (tl_common e)\<rparr>"
  let ?vid = "tt_vid (tl_common e)"
  let ?s1 = "tt_local_mod (local_key e) ?clr s"
  let ?s2 = "batadv_tt_local_size_mod ?vid 1 ?s1"
  have n: "\<not> is_new (?clr x)" "local_key (?clr x) = local_key x" for x
    by (simp_all add: is_new_def flag_cleared)
  have def: "tt_local_set_flags_entry 0x200 False True e s = (if is_new e then ?s2 else s)"
    by (simp add: tt_local_set_flags_entry_def is_new_def Let_def batadv_tt_local_size_inc_def)
  have v1: "vlan_of ?s1 w = vlan_of s w" for w by (simp add: vlan_of_def local_mod_frame)
  have d1: "vids_distinct ?s1" using inv_parts(2) [OF inv] by (simp add: vids_distinct_def local_mod_frame)
  have p1: "0 < sv_refcount v" if "vlan_of ?s1 ?vid = Some v" for v
    using that inv_parts(4) [OF inv] by (simp add: v1)
  have w1: "tt_local_wf k ?s1" by (rule local_wf_mod) (simp_all add: inv_parts(1) [OF inv])
  have s2: "vids_distinct ?s2" "tt_local_wf k ?s2" "tt_locals ?s2 = tt_locals ?s1"
    by (intro inv_size_mod [OF d1 _ w1] p1; assumption)+
  have v2: "vlan_of ?s2 w = (if w = ?vid then map_option (\<lambda>v. v\<lparr>sv_num_entries := sv_num_entries v + 1\<rparr>) (vlan_of s ?vid)
      else vlan_of s w)" for w
    unfolding v1 [symmetric] by (intro size_mod_vlan(1) [OF d1] p1)
  have "tt_local_inv k held ?s2" if new: "is_new e"
  proof -
    have "vlan_shift ?vid 0 1 s ?s1"
      using shift_changed [OF inv_parts(1) [OF inv] e, where f = ?clr, OF n(2)] n(1) new by simp
    then have sh: "vlan_shift ?vid 0 1 s ?s2"
      unfolding vlan_shift_def clients_def committed_def s2(3) .
    have "vlan_counts held ?s2"
    proof (rule counts_follow [OF inv_parts(3) [OF inv] sh])
      show "vlan_of ?s2 w = vlan_of s w" if "w \<noteq> ?vid" for w
        using that unfolding v2 by simp
      show "case vlan_of ?s2 ?vid of None \<Rightarrow> int (clients ?vid s) + 0 = 0 \<and> held ?vid = 0
         | Some v \<Rightarrow> sv_num_entries v = int (committed ?vid s) + 1 \<and>
             int (sv_refcount v) = int (clients ?vid s) + 0 + (if sv_kobj v then 1 else 0) + int (held ?vid) \<and> 0 < sv_refcount v"
        using vlan_counts_at [OF inv_parts(3) [OF inv], of ?vid] vlan_counts_None [OF inv_parts(3) [OF inv], of ?vid]
        unfolding v2 by (cases "vlan_of s ?vid") simp_all
    qed
    then show ?thesis using s2(1,2) by (simp add: tt_local_inv_def)
  qed
  then show "tt_local_inv k held (tt_local_set_flags_entry 0x200 False True e s)"
    using inv unfolding def by (simp only: split: if_split) blast
  show "is_new x \<longrightarrow> x \<in> set (tt_locals s) \<and> local_key x \<noteq> local_key e"
    if "x \<in> set (tt_locals (tt_local_set_flags_entry 0x200 False True e s))"
  proof (cases "is_new e")
    case True
    then have "x \<in> set (tt_locals ?s1)" using that unfolding def s2(3) [symmetric] by simp
    then show ?thesis using n by (auto simp: local_mod_locals split: if_splits)
  next
    case False
    then have "x \<in> set (tt_locals s)" using that unfolding def by simp
    then show ?thesis
      using False e local_keys_distinct [OF inv_parts(1) [OF inv]] by (auto simp: distinct_map dest: inj_onD)
  qed
  show "x \<in> set (tt_locals (tt_local_set_flags_entry 0x200 False True e s))"
    if "x \<in> set (tt_locals s)" "local_key x \<noteq> local_key e"
    using that unfolding def by (auto simp: s2(3) local_mod_locals)
qed

lemma inv_commit_entries:
  assumes "tt_local_inv k held s" "\<forall>e \<in> set es. e \<in> set (tt_locals s)" "distinct (map local_key es)"
  shows "tt_local_inv k held (fold (tt_local_set_flags_entry 0x200 False True) es s)"
    "\<forall>x \<in> set (tt_locals (fold (tt_local_set_flags_entry 0x200 False True) es s)).
       is_new x \<longrightarrow> x \<in> set (tt_locals s) \<and> local_key x \<notin> local_key ` set es"
  using assms
proof (induction es arbitrary: s)
  case (Cons e es)
  case 1
  let ?t = "tt_local_set_flags_entry 0x200 False True e s"
  have e: "tt_local_inv k held s" "e \<in> set (tt_locals s)" using 1 by simp_all
  have "local_key x \<noteq> local_key e" if "x \<in> set es" for x
    using that 1 by (auto simp: image_iff)
  then have o: "\<forall>x \<in> set es. x \<in> set (tt_locals ?t)"
    using 1 by (auto intro!: inv_commit_entry(3) [OF e])
  show ?case using Cons.IH(1) [OF inv_commit_entry(1) [OF e] o] 1 by simp
next
  case (Cons e es)
  case 2
  let ?t = "tt_local_set_flags_entry 0x200 False True e s"
  have e: "tt_local_inv k held s" "e \<in> set (tt_locals s)" using 2 by simp_all
  have "local_key x \<noteq> local_key e" if "x \<in> set es" for x
    using that 2 by (auto simp: image_iff)
  then have o: "\<forall>x \<in> set es. x \<in> set (tt_locals ?t)"
    using 2 by (auto intro!: inv_commit_entry(3) [OF e])
  show ?case using Cons.IH(2) [OF inv_commit_entry(1) [OF e] o] 2 inv_commit_entry(2) [OF e] by fastforce
qed simp_all

text \<open>A client that is pending goes.\<close>

lemma inv_pending_entry:
  assumes inv: "tt_local_inv k held s" and e: "e \<in> set (tt_locals s)" and old: "\<not> is_new e"
  shows "tt_local_inv k held (tt_purge_pending_entry e s)"
    "x \<in> set (tt_locals s) \<Longrightarrow> local_key x \<noteq> local_key e \<Longrightarrow> x \<in> set (tt_locals (tt_purge_pending_entry e s))"
proof -
  let ?vid = "tt_vid (tl_common e)"
  let ?s1 = "batadv_tt_local_size_mod ?vid (- 1) s"
  let ?s2 = "tt_mod (tt_local_hash_update (map_option (hash_filter (\<lambda>x. local_key x \<noteq> local_key e)))) ?s1"
  have p: "0 < sv_refcount v" if "vlan_of s ?vid = Some v" for v
    using that by (rule inv_parts(4) [OF inv])
  have s1: "vids_distinct ?s1" "tt_local_wf k ?s1" "tt_locals ?s1 = tt_locals s"
    by (intro inv_size_mod [OF inv_parts(2) [OF inv] _ inv_parts(1) [OF inv]] p; assumption)+
  note f = local_filter_locals [OF s1(2), of "\<lambda>x. local_key x \<noteq> local_key e", unfolded s1(3)]
  have v2: "vlan_of ?s2 w = (if w = ?vid then map_option (\<lambda>v. v\<lparr>sv_num_entries := sv_num_entries v + - 1\<rparr>) (vlan_of s ?vid)
      else vlan_of s w)" for w
    using size_mod_vlan(1) [OF inv_parts(2) [OF inv] p, where d = "- 1" and w = w]
    by (simp add: vlan_of_def tt_mod_def)
  have d2: "vids_distinct ?s2" using s1(1) by (simp add: vids_distinct_def tt_mod_def)
  have i: "tt_local_inv k held (tt_vlan_release ?vid ?s2)"
    using inv_drop_release [OF inv e refl f(2) f(1) d2 _ v2] old by simp
  have p2: "0 < sv_refcount v" if "vlan_of ?s2 ?vid = Some v" for v
    using that p unfolding v2 by auto
  have "tt_locals (tt_vlan_release ?vid ?s2) = tt_locals ?s2"
    by (rule locals_same) (simp only: release_vlan(3) [OF d2 p2])
  then have l: "tt_locals (tt_vlan_release ?vid ?s2) = filter (\<lambda>x. local_key x \<noteq> local_key e) (tt_locals s)"
    using f(1) by simp
  have def: "tt_purge_pending_entry e s = (if has_flag (tt_flags (tl_common e)) 0x400 then tt_vlan_release ?vid ?s2 else s)"
    by (simp add: tt_purge_pending_entry_def Let_def batadv_tt_local_size_dec_def)
  show "tt_local_inv k held (tt_purge_pending_entry e s)"
    using inv i unfolding def by (simp only: split: if_split) blast
  show "x \<in> set (tt_locals (tt_purge_pending_entry e s))" if "x \<in> set (tt_locals s)" "local_key x \<noteq> local_key e"
    using that l unfolding def by simp
qed

lemma inv_pending_entries:
  "tt_local_inv k held s \<Longrightarrow> \<forall>e \<in> set es. e \<in> set (tt_locals s) \<and> \<not> is_new e \<Longrightarrow> distinct (map local_key es) \<Longrightarrow>
   tt_local_inv k held (fold tt_purge_pending_entry es s)"
proof (induction es arbitrary: s)
  case (Cons e es)
  let ?t = "tt_purge_pending_entry e s"
  have e: "tt_local_inv k held s" "e \<in> set (tt_locals s)" "\<not> is_new e" using Cons.prems by simp_all
  have "local_key x \<noteq> local_key e" if "x \<in> set es" for x
    using that Cons.prems(3) by (auto simp: image_iff)
  then have "\<forall>x \<in> set es. x \<in> set (tt_locals ?t) \<and> \<not> is_new x"
    using Cons.prems(2) by (auto intro!: inv_pending_entry(2) [OF e])
  then show ?case using Cons.IH [OF inv_pending_entry(1) [OF e]] Cons.prems(3) by simp
qed simp

definition no_new :: "batadv_priv \<Rightarrow> bool" where
  "no_new s \<longleftrightarrow> list_all (\<lambda>e. \<not> is_new e) (tt_locals s)"

lemma inv_set_committed:
  assumes "tt_local_inv k held s"
  shows "tt_local_inv k held (batadv_tt_local_set_flags 0x200 False True s)"
    "no_new (batadv_tt_local_set_flags 0x200 False True s)"
proof -
  note c = inv_commit_entries [OF assms, of "tt_locals s"] local_keys_distinct [OF inv_parts(1) [OF assms]]
  show "tt_local_inv k held (batadv_tt_local_set_flags 0x200 False True s)"
    unfolding batadv_tt_local_set_flags_def by (rule c(1)) (simp_all add: c(3))
  show "no_new (batadv_tt_local_set_flags 0x200 False True s)"
    using c(2,3) unfolding batadv_tt_local_set_flags_def no_new_def list_all_iff by auto
qed

lemma inv_purge_pending:
  "tt_local_inv k held s \<Longrightarrow> no_new s \<Longrightarrow> tt_local_inv k held (batadv_tt_local_purge_pending_clients s)"
  unfolding batadv_tt_local_purge_pending_clients_def
  by (rule inv_pending_entries) (auto simp: no_new_def list_all_iff intro: local_keys_distinct inv_parts)

lemma inv_update_crc:
  assumes "tt_local_inv k held s"
  shows "tt_local_inv k held (batadv_tt_local_update_crc k s)"
proof -
  let ?f = "\<lambda>v. v\<lparr>sv_crc := batadv_tt_local_crc k (sv_vid v) s\<rparr>"
  let ?t = "batadv_tt_local_update_crc k s"
  have "find (\<lambda>v. sv_vid v = w) (map ?f l) = map_option ?f (find (\<lambda>v. sv_vid v = w) l)" for w l
    by (induction l) auto
  then have v: "vlan_of ?t w = map_option ?f (vlan_of s w)" for w
    by (simp add: vlan_of_def batadv_tt_local_update_crc_def)
  have h: "tt_local_hash (bp_tt ?t) = tt_local_hash (bp_tt s)"
    by (simp add: batadv_tt_local_update_crc_def)
  have c: "clients w ?t = clients w s" "committed w ?t = committed w s" for w
    by (simp_all only: clients_def committed_def locals_same [OF h])
  have "vlan_counts held ?t"
    unfolding vlan_counts_def c v
  proof
    fix w
    show "case map_option ?f (vlan_of s w) of None \<Rightarrow> clients w s = 0 \<and> held w = 0
      | Some v \<Rightarrow> sv_num_entries v = int (committed w s) \<and>
          sv_refcount v = clients w s + (if sv_kobj v then 1 else 0) + held w \<and> 0 < sv_refcount v"
      using vlan_counts_at [OF inv_parts(3) [OF assms], of w] vlan_counts_None [OF inv_parts(3) [OF assms], of w]
      by (cases "vlan_of s w") simp_all
  qed
  moreover have "vids_distinct ?t"
    using inv_parts(2) [OF assms] by (simp add: vids_distinct_def batadv_tt_local_update_crc_def comp_def)
  ultimately show ?thesis
    using inv_parts(1) [OF assms] by (simp add: tt_local_inv_def local_wf_same [OF h])
qed

lemma inv_commit:
  assumes "tt_local_inv k held s" "\<And>s. tt_local_inv k held s \<Longrightarrow> tt_local_inv k held (mla_update s)"
  shows "tt_local_inv k held (batadv_tt_local_commit_changes k mla_update s)"
proof -
  let ?s = "mla_update s"
  have i: "tt_local_inv k held ?s" using assms by blast
  let ?s1 = "batadv_tt_local_update_crc k (batadv_tt_local_purge_pending_clients (batadv_tt_local_set_flags 0x200 False True ?s))"
  have i1: "tt_local_inv k held ?s1"
    by (intro inv_update_crc inv_purge_pending inv_set_committed [OF i])
  have m: "tt_local_inv k held (tt_mod f t) = tt_local_inv k held t" if "\<And>x. tt_local_hash (f x) = tt_local_hash x" for f t
    by (rule local_frame_inv) (rule local_frame_tt_mod, rule that)
  show ?thesis
    unfolding batadv_tt_local_commit_changes_def batadv_tt_local_commit_changes_nolock_def Let_def
    using i i1 by (simp add: local_frame_inv [OF local_frame_container_update] m)
qed

section \<open>VLANs that come and go\<close>

lemma vlan_put_ref:
  assumes inv: "vlan_counts held s" and d: "vids_distinct s" "vids_distinct t"
    and h: "tt_local_hash (bp_tt t) = tt_local_hash (bp_tt s)" and w: "tt_local_wf k s"
    and v: "\<And>w. vlan_of t w = (if w = vid then Some x else vlan_of s w)"
    and x: "sv_num_entries x = int (committed vid s)" "sv_refcount x = Suc (clients vid s + (if sv_kobj x then 1 else 0) + n)"
  shows "tt_local_inv k (held(vid := n)) (batadv_softif_vlan_put vid t)"
proof -
  let ?u = "batadv_softif_vlan_put vid t"
  have hu: "tt_local_hash (bp_tt ?u) = tt_local_hash (bp_tt s)" by (simp add: vlan_ops_tt h)
  have c: "clients w ?u = clients w s" "committed w ?u = committed w s" for w
    by (simp_all only: clients_def committed_def locals_same [OF hu])
  have sh: "vlan_shift vid 0 0 s ?u" by (simp add: vlan_shift_def c)
  have "vlan_counts (held(vid := n)) ?u"
  proof (rule counts_follow_held [OF inv sh])
    show "vlan_of ?u w = vlan_of s w" if "w \<noteq> vid" for w
      using that by (simp add: vlan_put(1) [OF d(2)] v)
    show "case vlan_of ?u vid of None \<Rightarrow> int (clients vid s) + 0 = 0 \<and> n = 0
       | Some v \<Rightarrow> sv_num_entries v = int (committed vid s) + 0 \<and>
           int (sv_refcount v) = int (clients vid s) + 0 + (if sv_kobj v then 1 else 0) + int n \<and> 0 < sv_refcount v"
      using x by (simp add: vlan_put(1) [OF d(2)] v)
  qed
  then show ?thesis
    using w vlan_put(2) [OF d(2)] by (simp add: tt_local_inv_def local_wf_same [OF hu])
qed

text \<open>The interface lets go of a VLAN that it holds.\<close>

lemma inv_destroy_vlan:
  assumes "tt_local_inv k held s" "\<And>f t v. batadv_tt_local_remove k (bp_soft_addr s) vid False s = (f, t) \<Longrightarrow>
      vlan_of t vid = Some v \<Longrightarrow> sv_kobj v"
    and "\<And>f t. batadv_tt_local_remove k (bp_soft_addr s) vid False s = (f, t) \<Longrightarrow> vlan_of t vid \<noteq> None"
  shows "tt_local_inv k held (batadv_softif_destroy_vlan k vid s)"
proof -
  obtain f t where r: "batadv_tt_local_remove k (bp_soft_addr s) vid False s = (f, t)" by fastforce
  have i: "tt_local_inv k held t" by (rule inv_remove [OF assms(1) r])
  obtain v where v: "vlan_of t vid = Some v" using assms(3) [OF r] by blast
  have kv: "sv_kobj v" by (rule assms(2) [OF r v])
  let ?u = "softif_vlan_mod vid (\<lambda>v. v\<lparr>sv_kobj := False\<rparr>) t"
  note c = vlan_counts_at [OF inv_parts(3) [OF i] v]
  have "tt_local_inv k (held(vid := held vid)) (batadv_softif_vlan_put vid ?u)"
  proof (rule vlan_put_ref [OF inv_parts(3,2) [OF i] _ _ inv_parts(1) [OF i], where x = "v\<lparr>sv_kobj := False\<rparr>"])
    show "vids_distinct ?u" using inv_parts(2) [OF i] by (simp add: vlan_mod)
    show "tt_local_hash (bp_tt ?u) = tt_local_hash (bp_tt t)" by (simp add: vlan_ops_tt)
    show "vlan_of ?u w = (if w = vid then Some (v\<lparr>sv_kobj := False\<rparr>) else vlan_of t w)" for w
      by (simp add: vlan_mod v)
  qed (use c kv in simp_all)
  then show ?thesis
    by (simp add: batadv_softif_destroy_vlan_def Let_def r)
qed

text \<open>Removing a client leaves the interface its VLANs.\<close>

lemma remove_keeps_kobj:
  assumes inv: "tt_local_inv k held s" and r: "batadv_tt_local_remove k addr vid roaming s = (f, t)"
    and v: "vlan_of s w = Some v" "sv_kobj v"
  shows "\<exists>v'. vlan_of t w = Some v' \<and> sv_kobj v'"
proof (cases "batadv_tt_local_hash_find k s addr vid")
  case None
  then show ?thesis using r v by (simp add: batadv_tt_local_remove_def)
next
  case (Some e)
  let ?s1 = "if roaming then tt_local_mod (addr, vid) (\<lambda>e. e\<lparr>tl_common := tt_flag_set 2 (tl_common e)\<rparr>) s else s"
  let ?s2 = "tt_local_drop k (addr, vid) (batadv_tt_local_event k (addr, vid) 1 ?s1)"
  have l1: "bp_softif_vlan_list ?s1 = bp_softif_vlan_list s" by (simp add: local_mod_frame)
  have l2: "bp_softif_vlan_list ?s2 = bp_softif_vlan_list s"
    by (simp add: tt_local_drop_def tt_mod_simps local_event(1) l1)
  have v2: "vlan_of ?s2 x = vlan_of s x" for x by (simp add: vlan_of_def l2)
  show ?thesis
  proof (cases "is_new e")
    case False
    then have "t = batadv_tt_local_set_pending k (addr, vid) (1 OR (if roaming then 2 else 0)) ?s1"
      using r Some unfolding local_remove_alt Let_def by simp
    then show ?thesis
      using v by (simp add: vlan_of_def batadv_tt_local_set_pending_def local_mod_frame local_event(1))
  next
    case True
    then have t: "t = tt_vlan_release vid ?s2"
      using r Some unfolding local_remove_alt Let_def by simp
    have p: "0 < sv_refcount x" if "vlan_of ?s2 vid = Some x" for x
      using that inv_parts(4) [OF inv] unfolding v2 by blast
    have d: "vids_distinct ?s2" using inv_parts(2) [OF inv] by (simp add: vids_distinct_def l2)
    have e: "e \<in> set (tt_locals s)" "local_key e = (addr, vid)"
      using Some local_find_iff [OF inv_parts(1) [OF inv]] by simp_all
    then have "e \<in># {#e \<in># mset (tt_locals s). tt_vid (tl_common e) = vid#}" using key_vid by simp
    then have "clients vid s \<noteq> 0" unfolding clients_def by auto
    moreover have "vlan_of t w = (if w = vid then (case vlan_of ?s2 vid of None \<Rightarrow> None
         | Some v \<Rightarrow> if sv_refcount v = 1 then None else Some (v\<lparr>sv_refcount := sv_refcount v - 1\<rparr>))
       else vlan_of ?s2 w)"
      unfolding t by (rule release_vlan(1) [OF d p])
    ultimately show ?thesis
      using v vlan_counts_at(2) [OF inv_parts(3) [OF inv] v(1)] unfolding v2
      by (cases "w = vid") auto
  qed
qed

lemma inv_interface_gone:
  assumes "tt_local_inv k held s" "vlan_of s vid = Some v" "sv_kobj v"
  shows "tt_local_inv k held (batadv_softif_destroy_vlan k vid s)"
  by (rule inv_destroy_vlan [OF assms(1)]) (use remove_keeps_kobj [OF assms(1) _ assms(2,3)] in fastforce)+

lemma committed_le: "committed w s \<le> clients w s"
  unfolding committed_def clients_def by (rule size_mset_mono) (auto simp: multiset_eq_iff intro!: mset_subset_eqI)

lemma inv_create_vlan:
  assumes "tt_local_inv k held s" "batadv_softif_create_vlan k sysfs vid s = (r, s')"
  shows "tt_local_inv k held s'"
proof -
  obtain q t where g: "batadv_softif_vlan_get vid s = (q, t)" by fastforce
  show ?thesis
  proof (cases q)
    case (Some v)
    then have "s' = batadv_softif_vlan_put vid t" using assms(2) g by (simp add: batadv_softif_create_vlan_def)
    then show ?thesis using inv_get_put [OF assms(1) g [unfolded Some]] by simp
  next
    case None
    have ts: "t = s" "vlan_of s vid = None"
      using g None vlan_get(1) [of vid s] by (auto simp: batadv_softif_vlan_get_def split: option.splits)
    obtain ok u where a: "kzalloc s = (ok, u)" by fastforce
    have iu: "tt_local_inv k held u" by (rule inv_kzalloc [OF assms(1) a])
    have lu: "bp_softif_vlan_list u = bp_softif_vlan_list s" using a by (auto simp: kzalloc_eq)
    have nu: "vlan_of u vid = None" using ts(2) by (simp add: vlan_of_def lu)
    let ?vlan = "\<lparr>sv_vid = vid, sv_kobj = True, sv_ap_isolation = False, sv_crc = 0, sv_num_entries = 0, sv_refcount = 1\<rparr>"
    let ?x = "u\<lparr>bp_softif_vlan_list := ?vlan # bp_softif_vlan_list u\<rparr>"
    have hx: "tt_local_hash (bp_tt ?x) = tt_local_hash (bp_tt u)" by simp
    have "clients w ?x = clients w u" "committed w ?x = committed w u" for w
      by (simp_all only: clients_def committed_def locals_same [OF hx])
    then have sh: "vlan_shift vid 0 0 u ?x"
      by (simp add: vlan_shift_def)
    have vx: "vlan_of ?x w = (if w = vid then Some ?vlan else vlan_of u w)" for w
      by (auto simp: vlan_of_def)
    have "vlan_counts held ?x"
    proof (rule counts_follow [OF inv_parts(3) [OF iu] sh])
      show "vlan_of ?x w = vlan_of u w" if "w \<noteq> vid" for w using that unfolding vx by simp
      show "case vlan_of ?x vid of None \<Rightarrow> int (clients vid u) + 0 = 0 \<and> held vid = 0
         | Some v \<Rightarrow> sv_num_entries v = int (committed vid u) + 0 \<and>
             int (sv_refcount v) = int (clients vid u) + 0 + (if sv_kobj v then 1 else 0) + int (held vid) \<and> 0 < sv_refcount v"
        using vlan_counts_None [OF inv_parts(3) [OF iu] nu] committed_le [of vid u] unfolding vx by simp
    qed
    moreover have "vids_distinct ?x"
      using inv_parts(2) [OF iu] nu by (auto simp: vids_distinct_def vlan_of_def find_None_iff)
    ultimately have ix: "tt_local_inv k held ?x"
      using inv_parts(1) [OF iu] unfolding tt_local_inv_def local_wf_same [OF hx] by blast
    obtain b y where y: "batadv_tt_local_add k (bp_soft_addr ?x) vid 0 0 ?x = (b, y)" by fastforce
    have "tt_local_inv k held y" by (rule inv_add [OF ix y])
    moreover have "s' = u \<or> s' = s \<or> s' = y"
      using assms(2) g None ts a y unfolding batadv_softif_create_vlan_def Let_def by (auto split: if_splits)
    ultimately show ?thesis using iu assms(1) by blast
  qed
qed

lemma inv_put:
  assumes inv: "tt_local_inv k (held(vid := Suc n)) s"
  shows "tt_local_inv k (held(vid := n)) (batadv_softif_vlan_put vid s)"
proof -
  have "vlan_of s vid \<noteq> None"
    using vlan_counts_None(2) [OF inv_parts(3) [OF inv], of vid] by auto
  then obtain v where v: "vlan_of s vid = Some v" by blast
  note c = vlan_counts_at [OF inv_parts(3) [OF inv] v]
  have "tt_local_inv k ((held(vid := Suc n))(vid := n)) (batadv_softif_vlan_put vid s)"
    by (rule vlan_put_ref [OF inv_parts(3,2,2) [OF inv] refl inv_parts(1) [OF inv], where x = v]) (use c v in simp_all)
  then show ?thesis by simp
qed

lemma inv_kill_vid:
  assumes inv: "tt_local_inv k held s"
    and v: "vlan_of s (vid OR 0x8000) = Some v" "sv_kobj v" and r: "batadv_interface_kill_vid k p vid s = (r, s')"
  shows "tt_local_inv k held s'"
proof (cases p)
  case True
  let ?vid = "vid OR 0x8000"
  obtain q t where g: "batadv_softif_vlan_get ?vid s = (q, t)" by fastforce
  have q: "q = Some v" using vlan_get(1) [of ?vid s] v(1) g by simp
  have i: "tt_local_inv k (held(?vid := Suc (held ?vid))) t" by (rule inv_taken [OF inv g [unfolded q]])
  have "vlan_of t ?vid = Some (v\<lparr>sv_refcount := sv_refcount v + 1\<rparr>)"
    using inv_get(6) [OF inv g [unfolded q], of ?vid] by simp
  then have "tt_local_inv k (held(?vid := Suc (held ?vid))) (batadv_softif_destroy_vlan k ?vid t)"
    by (rule inv_interface_gone [OF i]) (simp add: v(2))
  from inv_put [OF this] show ?thesis
    using r True g q by (simp add: batadv_interface_kill_vid_def Let_def)
qed (use assms in \<open>simp add: batadv_interface_kill_vid_def\<close>)

lemma inv_add_vid:
  assumes inv: "tt_local_inv k held s"
    and v: "\<And>v. vlan_of s (vid OR 0x8000) = Some v \<Longrightarrow> \<not> sv_kobj v"
    and r: "batadv_interface_add_vid k sysfs p vid s = (r, s')"
  shows "tt_local_inv k held s'"
proof (cases p)
  case True
  let ?vid = "vid OR 0x8000"
  obtain q t where g: "batadv_softif_vlan_get ?vid s = (q, t)" by fastforce
  show ?thesis
  proof (cases q)
    case None
    then have "t = s" using g by (auto simp: batadv_softif_vlan_get_def split: option.splits)
    then show ?thesis
      using r True g None by (auto simp: batadv_interface_add_vid_def Let_def intro: inv_create_vlan [OF inv])
  next
    case (Some x)
    note g' = inv_get [OF inv g [unfolded Some]]
    have nk: "\<not> sv_kobj x" by (rule v [OF g'(1)])
    let ?u = "softif_vlan_mod ?vid (\<lambda>v. v\<lparr>sv_kobj := True\<rparr>) t"
    have hu: "tt_local_hash (bp_tt ?u) = tt_local_hash (bp_tt s)" by (simp add: vlan_ops_tt g'(5))
    have l: "clients w ?u = clients w s" "committed w ?u = committed w s" for w
      by (simp_all only: clients_def committed_def locals_same [OF hu])
    have sh: "vlan_shift ?vid 0 0 s ?u" by (simp add: vlan_shift_def l)
    have vu: "vlan_of ?u w = (if w = ?vid then Some (x\<lparr>sv_refcount := sv_refcount x + 1, sv_kobj := True\<rparr>) else vlan_of s w)"
      for w by (simp add: vlan_mod g'(6))
    have "vlan_counts held ?u"
    proof (rule counts_follow [OF inv_parts(3) [OF inv] sh])
      show "vlan_of ?u w = vlan_of s w" if "w \<noteq> ?vid" for w using that unfolding vu by simp
      show "case vlan_of ?u ?vid of None \<Rightarrow> int (clients ?vid s) + 0 = 0 \<and> held ?vid = 0
         | Some v \<Rightarrow> sv_num_entries v = int (committed ?vid s) + 0 \<and>
             int (sv_refcount v) = int (clients ?vid s) + 0 + (if sv_kobj v then 1 else 0) + int (held ?vid) \<and>
             0 < sv_refcount v"
        using vlan_counts_at [OF inv_parts(3) [OF inv] g'(1)] nk unfolding vu by simp
    qed
    moreover have "vids_distinct ?u" using g'(3) by (simp add: vlan_mod)
    ultimately have iu: "tt_local_inv k held ?u"
      using inv_parts(1) [OF inv] unfolding tt_local_inv_def local_wf_same [OF hu] by blast
    obtain b y where y: "batadv_tt_local_add k (bp_soft_addr ?u) ?vid 0 0 ?u = (b, y)" by fastforce
    show ?thesis
      using r True g Some nk y inv_add [OF iu y] inv_get_put [OF inv g [unfolded Some]]
      by (auto simp: batadv_interface_add_vid_def Let_def split: if_splits)
  qed
qed (use assms in \<open>simp add: batadv_interface_add_vid_def\<close>)

end
