(* ===== verification/Tt_Contract.thy ===== *)
theory Tt_Contract
  imports Tt_Invariant
begin

text \<open>
  What the messages of other nodes may change in the translation table, as an interface:
  the locale \<open>tt_preserved\<close> lists the elementary updates that the operations on global
  entries are made of, each as the law that a property of the state survives it. Inside the
  locale every operation up to the three TVLV handlers is shown to preserve the property.
\<close>

section \<open>Lookups after a write\<close>

lemma compare_tt_key: "batadv_compare_tt c key \<longleftrightarrow> tt_key c = key"
  by (auto simp: batadv_compare_tt_def tt_key_def batadv_compare_eth_def prod_eq_iff)

lemma find_map_key:
  "(\<And>x. key (f x) = key x) \<Longrightarrow> find (\<lambda>x. key x = a) (map (\<lambda>x. if key x = a then f x else x) xs)
    = map_option f (find (\<lambda>x. key x = a) xs)"
  by (induction xs) auto

lemma global_find_mod:
  assumes "tt_global_wf k s" "\<And>e. tt_key (tg_common (f e)) = tt_key (tg_common e)"
  shows "batadv_tt_global_hash_find k (tt_global_mod key f s) (fst key) (snd key)
    = map_option f (batadv_tt_global_hash_find k s (fst key) (snd key))"
proof -
  have w: "tt_global_wf k (tt_global_mod key f s)" by (rule global_wf_mod [OF assms(2,1)])
  show ?thesis
  proof (cases "batadv_tt_global_hash_find k s (fst key) (snd key)")
    case None
    have "batadv_tt_global_hash_find k (tt_global_mod key f s) (fst key) (snd key) = None"
      using None global_find_None [OF w, of "fst key" "snd key"] global_find_None [OF assms(1), of "fst key" "snd key"]
      by (auto simp: global_mod_globals assms(2))
    then show ?thesis using None by simp
  next
    case (Some e)
    have "batadv_tt_global_hash_find k (tt_global_mod key f s) (fst key) (snd key) = Some (f e)"
      using Some global_find_iff [OF w, of "fst key" "snd key"] global_find_iff [OF assms(1), of "fst key" "snd key"]
      by (auto simp: global_mod_globals assms(2) image_iff intro!: bexI [of _ e])
    then show ?thesis using Some by simp
  qed
qed

lemma global_find_same:
  "tt_global_hash (bp_tt s') = tt_global_hash (bp_tt s) \<Longrightarrow>
   batadv_tt_global_hash_find k s' a v = batadv_tt_global_hash_find k s a v"
  by (simp add: batadv_tt_global_hash_find_def)

lemma size_mod_tt: "bp_tt (batadv_tt_global_size_mod n vid d s) = bp_tt s"
  by (auto simp: batadv_tt_global_size_mod_def batadv_orig_node_vlan_new_def kzalloc_eq orig_mod_def Let_def
      split: option.split)

section \<open>The interface\<close>

locale tt_preserved =
  fixes k :: kenv
    and inv :: "batadv_priv \<Rightarrow> bool"
  assumes wf: "inv s \<Longrightarrow> tt_global_wf k s"
    and alloc: "inv s \<Longrightarrow> inv (s\<lparr>bp_allocs := oks\<rparr>)"
    and panicked: "inv s \<Longrightarrow> inv (s\<lparr>bp_panic := True\<rparr>)"
    and calls: "inv s \<Longrightarrow> inv (call c s)"
    and origs: "inv s \<Longrightarrow> inv (orig_mod i f s)"
    and lists: "(\<And>t. tt_local_hash (g t) = tt_local_hash t) \<Longrightarrow> (\<And>t. tt_global_hash (g t) = tt_global_hash t) \<Longrightarrow>
      inv s \<Longrightarrow> inv (tt_mod g s)"
    and local_remove: "batadv_tt_local_remove k a v roam s = (flags, s') \<Longrightarrow> inv s \<Longrightarrow> inv s'"
    and entry: "(\<And>e. tt_key (tg_common (d e)) = tt_key (tg_common e) \<and> tg_orig_list (d e) = tg_orig_list e \<and>
        tg_orig_list_count (d e) = tg_orig_list_count e) \<Longrightarrow> inv s \<Longrightarrow> inv (tt_global_mod key d s)"
    and orig_seen: "inv s \<Longrightarrow> inv (tt_global_mod key (\<lambda>e. e\<lparr>tg_orig_list :=
        update_first (\<lambda>x. oe_orig_node x = n) (\<lambda>x. x\<lparr>oe_ttvn := tv\<rparr>) (tg_orig_list e)\<rparr>) s)"
    and orig_new: "batadv_tt_global_hash_find k s (fst key) (snd key) = Some g1 \<Longrightarrow>
      \<not> batadv_tt_global_entry_has_orig g1 n \<Longrightarrow> inv s \<Longrightarrow>
      inv (tt_global_mod key (\<lambda>e. e\<lparr>tg_orig_list := \<lparr>oe_orig_node = n, oe_ttvn = tv\<rparr> # tg_orig_list e,
        tg_orig_list_count := tg_orig_list_count e + 1\<rparr>) s)"
    and orig_gone: "batadv_tt_global_hash_find k s (fst key) (snd key) = Some g1 \<Longrightarrow> x \<in> set (tg_orig_list g1) \<Longrightarrow>
      inv s \<Longrightarrow> inv (tt_global_mod key (\<lambda>e. e\<lparr>tg_orig_list := remove1 x (tg_orig_list e),
        tg_orig_list_count := tg_orig_list_count e - 1\<rparr>) s)"
    and entry_new: "tt_global_create k key flags s = (b, s') \<Longrightarrow> inv s \<Longrightarrow> inv s'"
    and entry_gone: "inv s \<Longrightarrow> inv (batadv_tt_global_free k key s)"
    and entry_filter: "inv s \<Longrightarrow> inv (tt_mod (tt_global_hash_update (map_option (hash_filter p))) s)"
begin

lemma kzalloc: "kzalloc s = (ok, s') \<Longrightarrow> inv s \<Longrightarrow> inv s'"
  by (auto simp: kzalloc_eq intro: alloc)

lemma size_mod: "inv s \<Longrightarrow> inv (batadv_tt_global_size_mod n vid d s)"
  unfolding batadv_tt_global_size_mod_def batadv_orig_node_vlan_new_def kzalloc_eq Let_def
  by (auto intro!: origs alloc)

lemma size_inc: "inv s \<Longrightarrow> inv (batadv_tt_global_size_inc n vid s)"
  unfolding batadv_tt_global_size_inc_def by (rule size_mod)

lemma size_dec: "inv s \<Longrightarrow> inv (batadv_tt_global_size_dec n vid s)"
  unfolding batadv_tt_global_size_dec_def by (rule size_mod)

lemma fold_preserved: "(\<And>x s. inv s \<Longrightarrow> inv (f x s)) \<Longrightarrow> inv s \<Longrightarrow> inv (fold f xs s)"
  by (induction xs arbitrary: s) auto

section \<open>Originators of an entry\<close>

lemma orig_entry_add: "inv s \<Longrightarrow> inv (batadv_tt_global_orig_entry_add k key n tv s)"
proof (cases "batadv_tt_global_hash_find k s (fst key) (snd key)")
  case (Some g)
  assume i: "inv s"
  obtain ok t where a: "kzalloc s = (ok, t)" by fastforce
  let ?u = "batadv_tt_global_size_inc n (snd key) t"
  have u: "inv ?u" by (rule size_inc) (rule kzalloc [OF a i])
  have "tt_global_hash (bp_tt ?u) = tt_global_hash (bp_tt s)"
    using a by (auto simp: batadv_tt_global_size_inc_def size_mod_tt kzalloc_eq)
  from global_find_same [OF this] have f: "batadv_tt_global_hash_find k ?u (fst key) (snd key) = Some g"
    using Some by simp
  show ?thesis
    using orig_seen [OF i] orig_new [OF f _ u] kzalloc [OF a i]
    unfolding batadv_tt_global_orig_entry_add_def Some option.case Let_def a prod.case
    by (simp split: if_split)
qed (simp add: batadv_tt_global_orig_entry_add_def)

lemma del_orig_entry:
  assumes "batadv_tt_global_hash_find k s (fst key) (snd key) = Some g" "x \<in> set (tg_orig_list g)" "inv s"
  shows "inv (do_tt_global_del_orig_entry key x s)"
    "\<exists>g'. batadv_tt_global_hash_find k (do_tt_global_del_orig_entry key x s) (fst key) (snd key) = Some g' \<and>
      tg_orig_list g' = remove1 x (tg_orig_list g)"
proof -
  let ?u = "batadv_tt_global_size_dec (oe_orig_node x) (snd key) s"
  have u: "inv ?u" by (rule size_dec) (rule assms)
  have "tt_global_hash (bp_tt ?u) = tt_global_hash (bp_tt s)"
    by (simp add: batadv_tt_global_size_dec_def size_mod_tt)
  from global_find_same [OF this] have f: "batadv_tt_global_hash_find k ?u (fst key) (snd key) = Some g"
    using assms(1) by simp
  show "inv (do_tt_global_del_orig_entry key x s)"
    unfolding do_tt_global_del_orig_entry_def by (rule orig_gone [OF f assms(2) u])
  show "\<exists>g'. batadv_tt_global_hash_find k (do_tt_global_del_orig_entry key x s) (fst key) (snd key) = Some g' \<and>
      tg_orig_list g' = remove1 x (tg_orig_list g)"
    unfolding do_tt_global_del_orig_entry_def by (subst global_find_mod [OF wf [OF u]]) (simp_all add: f)
qed

lemma del_orig_entries:
  "batadv_tt_global_hash_find k s (fst key) (snd key) = Some g \<Longrightarrow> mset xs \<subseteq># mset (tg_orig_list g) \<Longrightarrow> inv s \<Longrightarrow>
   inv (fold (do_tt_global_del_orig_entry key) xs s)"
proof (induction xs arbitrary: s g)
  case (Cons x xs)
  have x: "x \<in> set (tg_orig_list g)"
    using Cons.prems(2) by (metis list.set_intros(1) mset_subset_eqD set_mset_mset)
  obtain g' where g': "batadv_tt_global_hash_find k (do_tt_global_del_orig_entry key x s) (fst key) (snd key) = Some g'"
      "tg_orig_list g' = remove1 x (tg_orig_list g)"
    using del_orig_entry(2) [OF Cons.prems(1) x Cons.prems(3)] by blast
  have "mset xs \<subseteq># mset (tg_orig_list g')"
    using Cons.prems(2) by (simp add: g'(2) insert_subset_eq_iff)
  from Cons.IH [OF g'(1) this del_orig_entry(1) [OF Cons.prems(1) x Cons.prems(3)]] show ?case by simp
qed simp

lemma del_orig_list: "inv s \<Longrightarrow> inv (batadv_tt_global_del_orig_list k key s)"
  unfolding batadv_tt_global_del_orig_list_def by (auto intro: del_orig_entries split: option.split)

lemma del_orig_node: "inv s \<Longrightarrow> inv (batadv_tt_global_del_orig_node k key n s)"
  unfolding batadv_tt_global_del_orig_node_def
  by (auto intro!: del_orig_entries split: option.split simp: multiset_filter_subset)

section \<open>Adding and removing\<close>

lemma set_flags:
  "inv s \<Longrightarrow> inv (tt_global_mod key (\<lambda>e. e\<lparr>tg_common := tt_flag_set m (tg_common e)\<rparr>) s)"
  "inv s \<Longrightarrow> inv (tt_global_mod key (\<lambda>e. e\<lparr>tg_common := tt_flag_clear m (tg_common e)\<rparr>) s)"
  "inv s \<Longrightarrow> inv (tt_global_mod key (\<lambda>e. e\<lparr>tg_common := tt_flag_clear m (tg_common e), tg_roam_at := r\<rparr>) s)"
  "inv s \<Longrightarrow> inv (tt_global_mod key (\<lambda>e. e\<lparr>tg_common := tt_flag_set m (tg_common e), tg_roam_at := r\<rparr>) s)"
  by (rule entry; simp)+

lemma out_remove: "inv s \<Longrightarrow> inv (tt_global_out_remove k key flags s)"
proof -
  assume i: "inv s"
  obtain f t where r: "batadv_tt_local_remove k (fst key) (snd key) (has_flag flags BATADV_TT_CLIENT_ROAM) s = (f, t)"
    by fastforce
  have "inv t" by (rule local_remove [OF r i])
  then show ?thesis
    unfolding tt_global_out_remove_def r Let_def prod.case by (simp add: i set_flags)
qed

lemma update: "inv s \<Longrightarrow> inv (tt_global_update k key g flags s)"
  unfolding tt_global_update_def Let_def by (simp add: set_flags del_orig_list)

lemma global_add:
  assumes "inv s" "batadv_tt_global_add k n addr vid flags tv s = (ok, s')"
  shows "inv s'"
proof -
  obtain ok1 t where a: "kzalloc s = (ok1, t)" by fastforce
  obtain c u where n: "tt_global_create k (addr, vid) flags t = (c, u)" by fastforce
  have t: "inv t" by (rule kzalloc [OF a assms(1)])
  have u: "inv u" by (rule entry_new [OF n t])
  have "inv (snd (batadv_tt_global_add k n addr vid flags tv s))"
    unfolding batadv_tt_global_add_def Let_def a prod.case n
    using assms(1) t u
    by (auto intro!: out_remove orig_entry_add del_orig_list update split: option.split)
  then show ?thesis using assms(2) by simp
qed

lemma global_del: "inv s \<Longrightarrow> inv (batadv_tt_global_del k n addr vid roaming s)"
  unfolding batadv_tt_global_del_def batadv_tt_global_del_roaming_def Let_def
  by (auto intro!: entry_gone del_orig_node del_orig_list set_flags split: option.split)

lemma global_del_orig: "inv s \<Longrightarrow> inv (batadv_tt_global_del_orig k n vid s)"
  unfolding batadv_tt_global_del_orig_def
  by (auto intro!: origs fold_preserved entry_filter del_orig_node simp: tt_global_del_orig_step_def Let_def
      split: option.split)

lemma global_release: "inv s \<Longrightarrow> inv (tt_global_release e s)"
  unfolding tt_global_release_def by (rule fold_preserved) (auto intro: size_dec)

lemma global_purge: "inv s \<Longrightarrow> inv (batadv_tt_global_purge k s)"
  unfolding batadv_tt_global_purge_def
  by (rule fold_preserved) (auto simp: tt_global_purge_step_def intro!: global_release entry_filter)

lemma global_update_crc: "inv s \<Longrightarrow> inv (batadv_tt_global_update_crc k n s)"
  unfolding batadv_tt_global_update_crc_def by (rule origs)

section \<open>Messages\<close>

lemma unicast_send: "inv s \<Longrightarrow> inv (batadv_tvlv_unicast_send k src dst t v b l s)"
  by (auto simp: batadv_tvlv_unicast_send_def kzalloc_eq Let_def intro!: calls alloc split: option.split)

lemma request:
  assumes "batadv_send_tt_request k n tv vl full s = (r, s')" "inv s"
  shows "inv s'"
proof -
  have new: "inv t" if "batadv_tt_req_node_new k n s = (ok, t)" for ok t
    using that assms(2)
    by (auto simp: batadv_tt_req_node_new_def kzalloc_eq Let_def intro!: lists alloc split: if_splits)
  obtain ok t where t: "batadv_tt_req_node_new k n s = (ok, t)" by fastforce
  have it: "inv t" by (rule new [OF t])
  have ia: "inv (t\<lparr>bp_allocs := l\<rparr>)" for l by (rule alloc [OF it])
  show ?thesis
  proof (cases "bp_primary_if s")
    case (Some i)
    then show ?thesis
      using assms t it
      by (auto simp: batadv_send_tt_request_def kzalloc_eq Let_def intro!: lists unicast_send ia split: if_splits)
  qed (use assms in \<open>simp add: batadv_send_tt_request_def\<close>)
qed

lemma message: "tt_message n d v b s = (bytes, s') \<Longrightarrow> inv s \<Longrightarrow> inv s'"
  by (auto simp: tt_message_def Let_def intro: panicked split: if_splits)

lemma prepare: "tt_prepare tv vl ne l s = (a, b, c, s') \<Longrightarrow> inv s \<Longrightarrow> inv s'"
  by (auto simp: tt_prepare_def kzalloc_eq Let_def intro: alloc split: if_splits)

lemma prepare_global: "batadv_tt_prepare_tvlv_global_data n l s = (a, b, c, s') \<Longrightarrow> inv s \<Longrightarrow> inv s'"
  by (auto simp: batadv_tt_prepare_tvlv_global_data_def Let_def intro: prepare split: prod.splits)

lemma prepare_local: "batadv_tt_prepare_tvlv_local_data l s = (a, b, c, s') \<Longrightarrow> inv s \<Longrightarrow> inv s'"
  by (auto simp: batadv_tt_prepare_tvlv_local_data_def Let_def intro: prepare split: prod.splits)

lemma copy_buff: "tt_copy_buff b l s = (body, s') \<Longrightarrow> inv s \<Longrightarrow> inv s'"
  by (auto simp: tt_copy_buff_def intro: panicked split: if_splits)

lemma snd_message: "inv s \<Longrightarrow> inv (snd (tt_message n d v b s))"
  by (metis message surj_pair snd_conv)

lemma body:
  assumes "(if full then (x, s) else tt_copy_buff b l s) = (body, s')" "inv s"
  shows "inv s'"
  using assms copy_buff by (auto split: if_splits)

lemma other_response:
  assumes "batadv_send_other_tt_response k d vl src dst s = (r, s')" and i: "inv s"
  shows "inv s'"
proof (cases "batadv_orig_hash_find k s dst")
  case (Some o1)
  note o1 = Some
  show ?thesis
  proof (cases "batadv_orig_hash_find k s src")
    case (Some o2)
    let ?n = "orig_of s o1"
    let ?full = "td_flags d AND 16 \<noteq> 0 \<or> on_tt_buff ?n = None"
    obtain tvl len q t where p: "batadv_tt_prepare_tvlv_global_data o1
        (if ?full then - 1 else sint (on_tt_buff_len ?n)) s = (tvl, len, q, t)"
      by (metis prod_cases4)
    have it: "inv t" by (rule prepare_global [OF p i])
    obtain bd u where b: "(if ?full then (concat (map tt_change_bytes (batadv_tt_tvlv_generate tg_common (tt_globals t)
        (of_int len) (batadv_tt_global_valid o1))), t) else tt_copy_buff (on_tt_buff ?n) (on_tt_buff_len ?n) t) = (bd, u)"
      by fastforce
    have iu: "inv u" by (rule body [OF b it])
    have "inv (snd (batadv_send_other_tt_response k d vl src dst s))"
    proof (cases q)
      case None
      then show ?thesis
        unfolding batadv_send_other_tt_response_def o1 Some prod.case option.case Let_def p
        by (simp add: i it panicked)
    next
      case q: (Some dv)
      obtain d2 v2 where dv: "dv = (d2, v2)" by fastforce
      obtain bytes w where m: "tt_message tvl (d2\<lparr>td_flags := (if ?full then 4 OR 16 else 4), td_ttvn := td_ttvn d\<rparr>)
          v2 bd u = (bytes, w)" by fastforce
      have iw: "inv w" by (rule message [OF m iu])
      show ?thesis
        unfolding batadv_send_other_tt_response_def o1 Some prod.case option.case Let_def p q dv b m
        by (simp add: i panicked iw unicast_send snd_message it)
    qed
    then show ?thesis using assms(1) by simp
  qed (use assms o1 in \<open>simp add: batadv_send_other_tt_response_def\<close>)
qed (use assms in \<open>simp add: batadv_send_other_tt_response_def\<close>)

lemma my_response:
  assumes "batadv_send_my_tt_response k d src s = (r, s')" and i: "inv s"
  shows "inv s'"
proof (cases "batadv_orig_hash_find k s src")
  case (Some o1)
  note o1 = Some
  show ?thesis
  proof (cases "bp_primary_if s")
    case (Some pif)
    let ?vn = "ucast (tt_vn (bp_tt s)) :: u8"
    let ?full = "td_flags d AND 16 \<noteq> 0 \<or> ?vn \<noteq> td_ttvn d \<or> tt_last_changeset (bp_tt s) = None"
    obtain tvl len q t where p: "batadv_tt_prepare_tvlv_local_data
        (if ?full then - 1 else sint (tt_last_changeset_len (bp_tt s))) s = (tvl, len, q, t)"
      by (metis prod_cases4)
    have it: "inv t" by (rule prepare_local [OF p i])
    obtain bd u where b: "(if ?full then (concat (map tt_change_bytes (batadv_tt_tvlv_generate tl_common (tt_locals t)
        (of_int len) batadv_tt_local_valid)), t)
        else tt_copy_buff (tt_last_changeset (bp_tt t)) (tt_last_changeset_len (bp_tt t)) t) = (bd, u)"
      by fastforce
    have iu: "inv u" by (rule body [OF b it])
    have "inv (snd (batadv_send_my_tt_response k d src s))"
    proof (cases q)
      case None
      then show ?thesis
        unfolding batadv_send_my_tt_response_def o1 Some prod.case option.case Let_def p
        by (simp add: it panicked)
    next
      case q: (Some dv)
      obtain d2 v2 where dv: "dv = (d2, v2)" by fastforce
      obtain bytes w where m: "tt_message tvl (d2\<lparr>td_flags := (if ?full then 4 OR 16 else 4),
          td_ttvn := (if ?full then ?vn else td_ttvn d)\<rparr>) v2 bd u = (bytes, w)" by fastforce
      have iw: "inv w" by (rule message [OF m iu])
      show ?thesis
        unfolding batadv_send_my_tt_response_def o1 Some prod.case option.case Let_def p q dv b m
        by (simp add: iw unicast_send snd_message it)
    qed
    then show ?thesis using assms(1) by simp
  qed (use assms o1 in \<open>simp add: batadv_send_my_tt_response_def\<close>)
qed (use assms in \<open>simp add: batadv_send_my_tt_response_def\<close>)

lemma response: "batadv_send_tt_response k d vl src dst s = (r, s') \<Longrightarrow> inv s \<Longrightarrow> inv s'"
  by (auto simp: batadv_send_tt_response_def intro: my_response other_response split: if_splits)

lemma apply_changes: "tt_apply_changes k n tv cs s = (ok, s') \<Longrightarrow> inv s \<Longrightarrow> inv s'"
proof (induction cs arbitrary: s)
  case (Cons c cs)
  obtain ok1 t where a: "batadv_tt_global_add k n (ch_addr c) (ch_vid c) (ucast (ch_flags c)) tv s = (ok1, t)"
    by fastforce
  have "inv t" by (rule global_add [OF Cons.prems(2) a])
  then show ?case
    using Cons.prems Cons.IH a by (auto intro: global_del split: if_splits)
qed simp

lemma do_update_changes: "inv s \<Longrightarrow> inv (do_tt_update_changes k n cs tv s)"
  unfolding do_tt_update_changes_def Let_def
  by (auto intro: apply_changes intro!: origs split: prod.splits)

lemma fill_gtable: "inv s \<Longrightarrow> inv (batadv_tt_fill_gtable k cs tv src s)"
  unfolding batadv_tt_fill_gtable_def by (auto intro!: origs do_update_changes global_del_orig split: option.split)

lemma update_changes: "inv s \<Longrightarrow> inv (batadv_tt_update_changes k n num tv buff s)"
  unfolding batadv_tt_update_changes_def batadv_tt_save_orig_buffer_def kzalloc_eq Let_def
  by (auto intro!: origs alloc do_update_changes)

lemma handle_response: "inv s \<Longrightarrow> inv (batadv_handle_tt_response k d buff src num s)"
  unfolding batadv_handle_tt_response_def Let_def
  by (auto intro!: lists global_update_crc fill_gtable update_changes split: option.split)

section \<open>The handlers\<close>

lemma snd_request: "inv s \<Longrightarrow> inv (snd (batadv_send_tt_request k n tv vl full s))"
  by (metis request surj_pair snd_conv)

lemma update_orig: "inv s \<Longrightarrow> inv (batadv_tt_update_orig k n vl buff num tv s)"
  unfolding batadv_tt_update_orig_def Let_def
  by (auto intro!: snd_request global_update_crc update_changes)

lemma ogm_handler_v1: "inv s \<Longrightarrow> inv (batadv_tt_tvlv_ogm_handler_v1 k n v s)"
  unfolding batadv_tt_tvlv_ogm_handler_v1_def Let_def by (auto intro: update_orig)

lemma unicast_handler_v1: "batadv_tt_tvlv_unicast_handler_v1 k src dst v s = (r, s') \<Longrightarrow> inv s \<Longrightarrow> inv s'"
  unfolding batadv_tt_tvlv_unicast_handler_v1_def Let_def
  by (auto intro: response handle_response split: if_splits prod.splits)

lemma roam_handler_v1: "batadv_roam_tvlv_unicast_handler_v1 k src dst v s = (r, s') \<Longrightarrow> inv s \<Longrightarrow> inv s'"
  unfolding batadv_roam_tvlv_unicast_handler_v1_def
  by (auto intro: global_add [OF _ surjective_pairing] split: if_splits option.splits)

lemma roam_adv: "inv s \<Longrightarrow> inv (batadv_send_roam_adv k c v n s)"
proof -
  assume i: "inv s"
  obtain ok t where c: "batadv_tt_check_roam_count k c s = (ok, t)" by fastforce
  then have "inv t"
    using i by (auto simp: batadv_tt_check_roam_count_def kzalloc_eq Let_def intro!: lists alloc split: option.splits if_splits)
  then show ?thesis
    unfolding batadv_send_roam_adv_def c prod.case Let_def by (auto intro: i unicast_send split: option.split)
qed

lemma check_roaming: "inv s \<Longrightarrow> inv (tt_check_roaming k key g back s)"
  unfolding tt_check_roaming_def Let_def
  by (auto intro!: entry_gone set_flags fold_preserved roam_adv split: option.split)

lemma req_purge: "inv s \<Longrightarrow> inv (batadv_tt_req_purge k s)" "inv s \<Longrightarrow> inv (batadv_tt_roam_purge k s)"
  unfolding batadv_tt_req_purge_def batadv_tt_roam_purge_def by (intro lists; simp)+

end

section \<open>The global entries\<close>

text \<open>An entry lists an originator once, and counts what it lists.\<close>

definition global_entry_ok :: "batadv_tt_global_entry \<Rightarrow> bool" where
  "global_entry_ok e \<longleftrightarrow>
     tg_orig_list_count e = int (length (tg_orig_list e)) \<and> distinct (map oe_orig_node (tg_orig_list e))"

definition tt_global_ok :: "kenv \<Rightarrow> batadv_priv \<Rightarrow> bool" where
  "tt_global_ok k s \<longleftrightarrow> tt_global_wf k s \<and> list_all global_entry_ok (tt_globals s)"

lemma global_ok_same:
  assumes "tt_global_hash (bp_tt s') = tt_global_hash (bp_tt s)"
  shows "tt_global_ok k s' = tt_global_ok k s"
  by (simp only: tt_global_ok_def global_wf_same [OF assms] globals_same [OF assms])

lemma global_ok_mod:
  assumes "tt_global_ok k s" "\<And>e. tt_key (tg_common (f e)) = tt_key (tg_common e)"
    and "\<And>e. e \<in> set (tt_globals s) \<Longrightarrow> tt_key (tg_common e) = key \<Longrightarrow> global_entry_ok e \<Longrightarrow> global_entry_ok (f e)"
  shows "tt_global_ok k (tt_global_mod key f s)"
proof -
  have g: "tt_global_wf k s" "\<forall>e \<in> set (tt_globals s). global_entry_ok e"
    using assms(1) by (simp_all add: tt_global_ok_def list_all_iff)
  have "global_entry_ok (if tt_key (tg_common e) = key then f e else e)" if "e \<in> set (tt_globals s)" for e
    using assms(3) [OF that] g(2) that by simp
  then show ?thesis
    unfolding tt_global_ok_def list_all_iff global_mod_globals set_map ball_simps
    using global_wf_mod [OF assms(2) g(1)] by blast
qed

lemma global_add_hash:
  assumes "tt_global_wf k s" "tt_key (tg_common e) = key"
    and "batadv_hash_add (tt_global_hash (bp_tt s)) (\<lambda>e. batadv_compare_tt (tg_common e)) (batadv_choose_tt k) key e
      = (0, hash)"
  shows "set (tt_globals (tt_mod (tt_global_hash_update (\<lambda>_. hash)) s)) = insert e (set (tt_globals s))"
    "tt_global_wf k (tt_mod (tt_global_hash_update (\<lambda>_. hash)) s)"
proof -
  obtain h where h: "tt_global_hash (bp_tt s) = Some h" "hash_wf (\<lambda>e. tt_key (tg_common e)) (batadv_choose_tt k) h"
    using assms(1) by (auto simp: tt_global_wf_def)
  have n: "hash_lookup h (\<lambda>e. batadv_compare_tt (tg_common e)) (batadv_choose_tt k) key = None"
  proof (rule ccontr)
    assume "hash_lookup h (\<lambda>e. batadv_compare_tt (tg_common e)) (batadv_choose_tt k) key \<noteq> None"
    then obtain m where "hash_lookup h (\<lambda>e. batadv_compare_tt (tg_common e)) (batadv_choose_tt k) key = Some m" by auto
    then show False
      using tt_global_ht.add_present [OF h(2), of e m] assms(2,3) h(1) by simp
  qed
  obtain h' where h': "batadv_hash_add (Some h) (\<lambda>e. batadv_compare_tt (tg_common e)) (batadv_choose_tt k) key e
      = (0, Some h')" "hash_wf (\<lambda>e. tt_key (tg_common e)) (batadv_choose_tt k) h'"
    "mset (hash_elems h') = add_mset e (mset (hash_elems h))"
    using tt_global_ht.add_fresh [OF h(2), of e] n assms(2) by metis
  have "set (hash_elems h') = insert e (set (hash_elems h))"
    using arg_cong [OF h'(3), of set_mset] by simp
  then show "set (tt_globals (tt_mod (tt_global_hash_update (\<lambda>_. hash)) s)) = insert e (set (tt_globals s))"
    "tt_global_wf k (tt_mod (tt_global_hash_update (\<lambda>_. hash)) s)"
    using assms(3) h h' by (auto simp: tt_globals_def tt_global_wf_def tt_mod_def)
qed

section \<open>Operations on the local table leave the global one alone\<close>

definition same_global :: "batadv_priv \<Rightarrow> batadv_priv \<Rightarrow> bool" where
  "same_global s s' \<longleftrightarrow> tt_global_hash (bp_tt s') = tt_global_hash (bp_tt s)"

lemma same_global_trans: "same_global s t \<Longrightarrow> same_global t u \<Longrightarrow> same_global s u"
  by (simp add: same_global_def)

lemma same_global_fold: "(\<And>x s. same_global s (f x s)) \<Longrightarrow> same_global s (fold f xs s)"
proof (induction xs arbitrary: s)
  case (Cons x xs)
  show ?case using same_global_trans [OF Cons.prems Cons.IH [OF Cons.prems]] by simp
qed (simp add: same_global_def)

lemma same_global_event: "same_global s (batadv_tt_local_event k key f s)"
  by (auto simp: same_global_def batadv_tt_local_event_def kzalloc_eq Let_def tt_mod_def split: option.split prod.split)

lemma same_global_vlan:
  "same_global s (batadv_softif_vlan_put vid s)" "same_global s (snd (batadv_softif_vlan_get vid s))"
  "same_global s (softif_vlan_mod vid f s)"
  by (simp_all add: same_global_def vlan_ops_tt)

lemma same_global_get: "batadv_softif_vlan_get vid s = (q, t) \<Longrightarrow> same_global s t"
  using same_global_vlan(2) [of s vid] by simp

lemma same_global_size: "same_global s (batadv_tt_local_size_mod vid d s)"
proof -
  obtain q t where g: "batadv_softif_vlan_get vid s = (q, t)" by fastforce
  show ?thesis
    unfolding batadv_tt_local_size_mod_def g prod.case
    using same_global_get [OF g] same_global_trans [OF same_global_get [OF g]
      same_global_trans [OF same_global_vlan(3) same_global_vlan(1)]]
    by (simp split: option.split)
qed

lemma same_global_release: "same_global s (tt_vlan_release vid s)"
proof -
  obtain q t where g: "batadv_softif_vlan_get vid s = (q, t)" by fastforce
  show ?thesis
    unfolding tt_vlan_release_def g prod.case
    using same_global_get [OF g] same_global_trans [OF same_global_get [OF g]
      same_global_trans [OF same_global_vlan(1) same_global_vlan(1)]]
    by (simp split: option.split)
qed

lemma same_global_local [simp]: "same_global s (tt_local_mod key f s)" "same_global s (tt_local_drop k key s)"
  by (simp_all add: same_global_def tt_local_mod_def tt_local_drop_def tt_mod_def)

lemma same_global_pending: "same_global s (batadv_tt_local_set_pending k key f s)"
  unfolding batadv_tt_local_set_pending_def by (rule same_global_trans [OF same_global_event same_global_local(1)])

lemma same_global_remove: "batadv_tt_local_remove k a v roam s = (f, s') \<Longrightarrow> same_global s s'"
proof -
  assume r: "batadv_tt_local_remove k a v roam s = (f, s')"
  show ?thesis
  proof (cases "batadv_tt_local_hash_find k s a v")
    case None
    then show ?thesis using r by (simp add: local_remove_alt same_global_def)
  next
    case (Some e)
    let ?s1 = "if roam then tt_local_mod (a, v) (\<lambda>e. e\<lparr>tl_common := tt_flag_set 2 (tl_common e)\<rparr>) s else s"
    have 1: "same_global s ?s1" by (simp add: same_global_def local_mod_globals)
    have 2: "same_global ?s1 (tt_vlan_release v (tt_local_drop k (a, v) (batadv_tt_local_event k (a, v) 1 ?s1)))"
      by (rule same_global_trans [OF same_global_event same_global_trans [OF same_global_local(2) same_global_release]])
    have "same_global ?s1 s'"
      using r 2 same_global_pending unfolding local_remove_alt Some option.case Let_def
      by (cases "is_new e") auto
    then show ?thesis by (rule same_global_trans [OF 1])
  qed
qed

lemma same_global_create: "tt_local_create k key ifindex s = (ok, s') \<Longrightarrow> same_global s s'"
proof -
  assume c: "tt_local_create k key ifindex s = (ok, s')"
  obtain ok1 s1 where a: "kzalloc s = (ok1, s1)" by fastforce
  have 1: "same_global s s1" using a by (auto simp: kzalloc_eq same_global_def)
  obtain q t where g: "batadv_softif_vlan_get (snd key) s1 = (q, t)" by fastforce
  have t: "same_global s t" by (rule same_global_trans [OF 1 same_global_get [OF g]])
  have p: "same_global s (batadv_softif_vlan_put (snd key) t)" by (rule same_global_trans [OF t same_global_vlan(1)])
  have h: "same_global s (tt_mod (tt_local_hash_update f) t)" for f
    using t by (simp add: same_global_def tt_mod_def)
  have s: "same_global s s" by (simp add: same_global_def)
  show ?thesis
    using c 1 t p h s unfolding tt_local_create_def Let_def a prod.case g
    by (auto split: if_splits option.splits prod.splits)
qed

lemma same_global_attributes: "same_global s (tt_local_attributes k key ifindex mark s)"
proof (cases "batadv_tt_local_hash_find k s (fst key) (snd key)")
  case (Some e)
  show ?thesis
    unfolding tt_local_attributes_def Some option.case Let_def
    using same_global_trans [OF same_global_local(1) same_global_event] by simp
qed (simp add: tt_local_attributes_def same_global_def)

lemma same_global_purge: "same_global s (batadv_tt_local_purge k timeout s)"
  unfolding batadv_tt_local_purge_def
  by (rule same_global_fold) (simp add: tt_local_purge_entry_def same_global_pending, simp add: same_global_def)

lemma same_global_set_flags: "same_global s (batadv_tt_local_set_flags flags enable cnt s)"
  unfolding batadv_tt_local_set_flags_def
proof (rule same_global_fold)
  show "same_global s (tt_local_set_flags_entry flags enable cnt e s)" for e s
    unfolding tt_local_set_flags_entry_def Let_def batadv_tt_local_size_inc_def
    using same_global_trans [OF same_global_local(1) same_global_size] by (simp add: same_global_def local_mod_globals)
qed

lemma same_global_purge_pending: "same_global s (batadv_tt_local_purge_pending_clients s)"
  unfolding batadv_tt_local_purge_pending_clients_def
proof (rule same_global_fold)
  fix e :: batadv_tt_local_entry and s
  let ?vid = "tt_vid (tl_common e)"
  let ?t = "tt_mod (tt_local_hash_update (map_option (hash_filter (\<lambda>x. local_key x \<noteq> local_key e))))
    (batadv_tt_local_size_mod ?vid (- 1) s)"
  have "same_global s ?t"
    using same_global_size [of s ?vid "- 1"] by (simp add: same_global_def tt_mod_def)
  from same_global_trans [OF this same_global_release] show "same_global s (tt_purge_pending_entry e s)"
    unfolding tt_purge_pending_entry_def Let_def batadv_tt_local_size_dec_def by (simp add: same_global_def)
qed

lemma same_global_container_update: "same_global s (batadv_tt_tvlv_container_update s)"
proof -
  obtain n l r t where p: "batadv_tt_prepare_tvlv_local_data (if batadv_tt_len (tt_local_changes (bp_tt s)) > int (bp_mtu s)
       then 0 else batadv_tt_len (tt_local_changes (bp_tt s))) s = (n, l, r, t)"
    by (metis prod_cases4)
  have t: "same_global s t"
    using p by (auto simp: batadv_tt_prepare_tvlv_local_data_def tt_prepare_def kzalloc_eq Let_def same_global_def
        split: if_splits)
  obtain b u where e: "(if l = 0 then ([], t) else tt_take_changes (tt_local_changes (bp_tt s)) l t) = (b, u)"
    by fastforce
  have u: "same_global t u"
    using e by (auto simp: tt_take_changes_def kzalloc_eq Let_def same_global_def tt_mod_def split: if_splits)
  have m: "same_global x y" if "tt_message n d v c x = (bytes, y)" for d v c bytes x y
    using that by (auto simp: tt_message_def Let_def same_global_def split: if_splits)
  have c: "same_global x (batadv_tvlv_container_register a v b l x)" for a v b l x
    by (auto simp: batadv_tvlv_container_register_def batadv_tvlv_container_remove_def kzalloc_eq Let_def same_global_def
        split: option.split)
  show ?thesis
  proof (cases r)
    case None
    then show ?thesis
      unfolding batadv_tt_tvlv_container_update_def Let_def p by (simp add: t)
  next
    case (Some dv)
    obtain d v where dv: "dv = (d, v)" by fastforce
    obtain bytes w where w: "tt_message n (d\<lparr>td_flags := 1\<rparr>) v b u = (bytes, w)" by fastforce
    have "same_global s (batadv_tvlv_container_register BATADV_TVLV_TT 1 (Some bytes) n w)"
      by (rule same_global_trans [OF t same_global_trans [OF u same_global_trans [OF m [OF w] c]]])
    then show ?thesis
      unfolding batadv_tt_tvlv_container_update_def Let_def p Some dv prod.case option.case e w
      by (simp add: t)
  qed
qed

lemma same_global_commit:
  assumes "same_global s (mla_update s)"
  shows "same_global s (batadv_tt_local_commit_changes k mla_update s)"
proof -
  let ?s = "mla_update s"
  let ?s1 = "batadv_tt_local_purge_pending_clients (batadv_tt_local_set_flags 0x200 False True ?s)"
  have "same_global ?s ?s1"
    by (rule same_global_trans [OF same_global_set_flags same_global_purge_pending])
  then have 1: "same_global ?s (tt_mod (\<lambda>t. t\<lparr>tt_vn := tt_vn t + 1, tt_ogm_append_cnt := 3\<rparr>)
      (batadv_tt_local_update_crc k ?s1))"
    by (simp add: same_global_def tt_mod_def batadv_tt_local_update_crc_def)
  have 2: "same_global ?s (tt_mod (\<lambda>t. t\<lparr>tt_ogm_append_cnt := tt_ogm_append_cnt t - 1\<rparr>) ?s)"
    by (simp add: same_global_def tt_mod_def)
  show ?thesis
    unfolding batadv_tt_local_commit_changes_def batadv_tt_local_commit_changes_nolock_def Let_def
    using same_global_trans [OF assms 2] same_global_trans [OF assms same_global_container_update]
      same_global_trans [OF assms same_global_trans [OF 1 same_global_container_update]]
    by (simp split: if_split)
qed

end
