(* ===== verification/Tt_System.thy ===== *)
theory Tt_System
  imports Tt_Contract
begin

text \<open>
  The translation table as a transition system: clients appear, move and fall silent, VLANs, the untagged one
  included, come and go, changes are committed, the local table is shrunk to a new MTU, messages of other
  nodes arrive, originators are purged, time passes, in any order. The global table keeps its invariant in every
  state that can be reached; the local one as long as it is not shrunk while a client waits to be announced,
  which is what the code counts wrongly (\<open>Tt_Properties\<close> has the run).
\<close>

section \<open>The contract holds\<close>

lemma global_ok_wf: "tt_global_ok k s \<Longrightarrow> tt_global_wf k s"
  by (simp add: tt_global_ok_def)

lemma global_ok_keep: "tt_global_ok k s \<Longrightarrow> same_global s s' \<Longrightarrow> tt_global_ok k s'"
  by (simp add: same_global_def global_ok_same [of s' s])

lemma distinct_remove1_map: "distinct (map f xs) \<Longrightarrow> distinct (map f (remove1 x xs))"
  by (induction xs) (auto dest!: subsetD [OF set_remove1_subset])

lemma global_ok_orig_new:
  assumes "batadv_tt_global_hash_find k s (fst key) (snd key) = Some g" "\<not> batadv_tt_global_entry_has_orig g n"
    "tt_global_ok k s"
  shows "tt_global_ok k (tt_global_mod key (\<lambda>e. e\<lparr>tg_orig_list := \<lparr>oe_orig_node = n, oe_ttvn = tv\<rparr> # tg_orig_list e,
        tg_orig_list_count := tg_orig_list_count e + 1\<rparr>) s)"
proof (rule global_ok_mod [OF assms(3)])
  fix e assume e: "e \<in> set (tt_globals s)" "tt_key (tg_common e) = key" "global_entry_ok e"
  then have "Some g = Some e"
    using assms(1) global_find_iff [OF global_ok_wf [OF assms(3)], of "fst key" "snd key" e] by simp
  then have "n \<notin> oe_orig_node ` set (tg_orig_list e)"
    using assms(2) by (auto simp: batadv_tt_global_entry_has_orig_def batadv_tt_global_orig_entry_find_def find_None_iff)
  then show "global_entry_ok (e\<lparr>tg_orig_list := \<lparr>oe_orig_node = n, oe_ttvn = tv\<rparr> # tg_orig_list e,
        tg_orig_list_count := tg_orig_list_count e + 1\<rparr>)"
    using e(3) by (simp add: global_entry_ok_def)
qed simp

lemma global_ok_orig_gone:
  assumes "batadv_tt_global_hash_find k s (fst key) (snd key) = Some g" "x \<in> set (tg_orig_list g)" "tt_global_ok k s"
  shows "tt_global_ok k (tt_global_mod key (\<lambda>e. e\<lparr>tg_orig_list := remove1 x (tg_orig_list e),
        tg_orig_list_count := tg_orig_list_count e - 1\<rparr>) s)"
proof (rule global_ok_mod [OF assms(3)])
  fix e assume e: "e \<in> set (tt_globals s)" "tt_key (tg_common e) = key" "global_entry_ok e"
  then have "Some g = Some e"
    using assms(1) global_find_iff [OF global_ok_wf [OF assms(3)], of "fst key" "snd key" e] by simp
  then have "x \<in> set (tg_orig_list e)" using assms(2) by simp
  then show "global_entry_ok (e\<lparr>tg_orig_list := remove1 x (tg_orig_list e),
        tg_orig_list_count := tg_orig_list_count e - 1\<rparr>)"
    using e(3) length_pos_if_in_set [of x "tg_orig_list e"]
    by (auto simp: global_entry_ok_def length_remove1 of_nat_diff Suc_le_eq intro: distinct_remove1_map)
qed simp

lemma global_ok_create:
  assumes "tt_global_create k key flags s = (b, s')" "tt_global_ok k s"
  shows "tt_global_ok k s'"
proof -
  let ?e = "\<lparr>tg_common = \<lparr>tt_addr = fst key, tt_vid = snd key, tt_flags = flags, tt_added_at = k_jiffies k\<rparr>,
     tg_orig_list = [], tg_orig_list_count = 0, tg_roam_at = (if has_flag flags BATADV_TT_CLIENT_ROAM then k_jiffies k else 0)\<rparr>"
  obtain r hash where h: "batadv_hash_add (tt_global_hash (bp_tt s)) (\<lambda>e. batadv_compare_tt (tg_common e))
      (batadv_choose_tt k) key ?e = (r, hash)" by fastforce
  have key: "tt_key (tg_common ?e) = key" by (simp add: tt_key_def)
  show ?thesis
  proof (cases "r = 0")
    case True
    note a = global_add_hash [OF global_ok_wf [OF assms(2)] key h [unfolded True]]
    have "s' = tt_mod (tt_global_hash_update (\<lambda>_. hash)) s"
      using assms(1) h True unfolding tt_global_create_def Let_def by simp
    then show ?thesis
      using a assms(2) by (simp add: tt_global_ok_def list_all_iff) (simp add: global_entry_ok_def)
  next
    case False
    then have "s' = s" using assms(1) h unfolding tt_global_create_def Let_def by simp
    then show ?thesis using assms(2) by simp
  qed
qed

lemma seen_names: "map oe_orig_node (update_first (\<lambda>x. oe_orig_node x = n) (\<lambda>x. x\<lparr>oe_ttvn := tv\<rparr>) xs) = map oe_orig_node xs"
  by (rule map_update_first) simp

interpretation glob: tt_preserved k "tt_global_ok k" for k
proof (unfold_locales, goal_cases)
  case (1 s)
  then show ?case by (rule global_ok_wf)
next
  case (7 a v roam s flags s')
  then show ?case using global_ok_keep same_global_remove by blast
next
  case (8 d s key)
  have "global_entry_ok e \<Longrightarrow> global_entry_ok (d e)" for e
    using 8(1) [of e] by (simp add: global_entry_ok_def)
  then show ?case using 8 by (intro global_ok_mod) simp_all
next
  case (9 s key n tv)
  have "length (update_first p f xs) = length xs" for p and f :: "batadv_tt_orig_list_entry \<Rightarrow> _" and xs
    by (induction xs) auto
  then show ?case using 9 by (intro global_ok_mod) (simp_all add: global_entry_ok_def seen_names)
next
  case (10 s key g1 n tv)
  then show ?case by (intro global_ok_orig_new)
next
  case (11 s key g1 x)
  then show ?case by (intro global_ok_orig_gone)
next
  case (12 key flags s b s')
  then show ?case by (rule global_ok_create)
next
  case (13 s key)
  then show ?case using global_free_globals [of k s key] by (simp add: tt_global_ok_def list_all_iff)
next
  case (14 s p)
  then show ?case using global_filter_globals [of k s p] by (simp add: tt_global_ok_def list_all_iff)
qed (erule global_ok_keep, simp add: same_global_def call_def orig_mod_def tt_mod_def)+

text \<open>Both tables at once.\<close>

definition tt_tables_ok :: "kenv \<Rightarrow> batadv_priv \<Rightarrow> bool" where
  "tt_tables_ok k s \<longleftrightarrow> tt_global_ok k s \<and> tt_local_inv k (\<lambda>_. 0) s"

lemma tables_ok_frame: "tt_tables_ok k s \<Longrightarrow> tt_global_ok k s' \<Longrightarrow> local_frame s s' \<Longrightarrow> tt_tables_ok k s'"
  by (simp add: tt_tables_ok_def local_frame_inv)

lemma local_frame_create: "tt_global_create k key flags s = (b, s') \<Longrightarrow> local_frame s s'"
  by (auto simp: tt_global_create_def Let_def local_frame_def tt_mod_def split: prod.splits if_splits)

interpretation tables: tt_preserved k "tt_tables_ok k" for k
proof (unfold_locales, goal_cases)
  case (1 s)
  then show ?case by (simp add: tt_tables_ok_def global_ok_wf)
next
  case (7 a v roam s flags s')
  then show ?case using glob.local_remove inv_remove unfolding tt_tables_ok_def by blast
next
  case (2 s oks)
  then show ?case by (intro tables_ok_frame [OF 2 glob.alloc]) (simp_all add: tt_tables_ok_def)
next
  case (3 s)
  then show ?case by (intro tables_ok_frame [OF 3 glob.panicked]) (simp_all add: tt_tables_ok_def)
next
  case (4 s c)
  then show ?case by (intro tables_ok_frame [OF 4 glob.calls]) (simp_all add: tt_tables_ok_def)
next
  case (5 s i f)
  then show ?case by (intro tables_ok_frame [OF 5 glob.origs]) (simp_all add: tt_tables_ok_def)
next
  case (6 g s)
  then show ?case
    by (intro tables_ok_frame [OF 6(3)] glob.lists 6 local_frame_tt_mod) (simp add: tt_tables_ok_def)
next
  case (8 d s key)
  then show ?case by (intro tables_ok_frame [OF 8(2) glob.entry]) (simp_all add: tt_tables_ok_def)
next
  case (9 s key n tv)
  then show ?case by (intro tables_ok_frame [OF 9 glob.orig_seen]) (simp_all add: tt_tables_ok_def)
next
  case (10 s key g1 n tv)
  then show ?case by (intro tables_ok_frame [OF 10(3) glob.orig_new [OF 10(1,2)]]) (simp_all add: tt_tables_ok_def)
next
  case (11 s key g1 x)
  then show ?case by (intro tables_ok_frame [OF 11(3) glob.orig_gone [OF 11(1,2)]]) (simp_all add: tt_tables_ok_def)
next
  case (12 key flags s b s')
  then show ?case by (intro tables_ok_frame [OF 12(2) glob.entry_new [OF 12(1)] local_frame_create [OF 12(1)]])
      (simp add: tt_tables_ok_def)
next
  case (13 s key)
  then show ?case by (intro tables_ok_frame [OF 13 glob.entry_gone]) (simp_all add: tt_tables_ok_def)
next
  case (14 s p)
  then show ?case by (intro tables_ok_frame [OF 14 glob.entry_filter]) (simp_all add: tt_tables_ok_def local_frame_tt_mod)
qed

section \<open>Operations on the local table\<close>

lemma tables_local:
  "tt_tables_ok k s \<Longrightarrow> same_global s s' \<Longrightarrow> tt_local_inv k (\<lambda>_. 0) s' \<Longrightarrow> tt_tables_ok k s'"
  unfolding tt_tables_ok_def using global_ok_keep by blast

lemma glob_local:
  "tt_global_ok k s \<Longrightarrow> tt_global_ok k (batadv_tt_local_event k key f s)"
  "tt_global_ok k s \<Longrightarrow> tt_global_ok k (tt_local_attributes k key i m s)"
  "tt_global_ok k s \<Longrightarrow> tt_global_ok k (tt_local_mod key g s)"
  by (erule global_ok_keep, rule same_global_event same_global_attributes same_global_local)+

lemma glob_add:
  assumes "tt_global_ok k s" "batadv_tt_local_add k addr vid ifindex mark s = (ok, s')"
  shows "tt_global_ok k s'"
proof (cases "batadv_tt_local_hash_find k s addr vid")
  case None
  obtain ok1 s1 where c: "tt_local_create k (addr, vid) ifindex s = (ok1, s1)" by fastforce
  have "tt_global_ok k s1" by (rule global_ok_keep [OF assms(1) same_global_create [OF c]])
  then show ?thesis
    using assms(2) None c unfolding batadv_tt_local_add_def Let_def
    by (auto intro!: glob_local glob.check_roaming split: if_splits)
next
  case (Some e)
  then show ?thesis
    using assms unfolding batadv_tt_local_add_def Let_def
    by (auto intro!: glob_local glob.check_roaming split: if_splits)
qed

lemma tables_add:
  "tt_tables_ok k s \<Longrightarrow> batadv_tt_local_add k addr vid ifindex mark s = (ok, s') \<Longrightarrow> tt_tables_ok k s'"
  unfolding tt_tables_ok_def using glob_add inv_add by blast

lemma glob_vlan:
  "tt_global_ok k s \<Longrightarrow> tt_global_ok k (batadv_softif_vlan_put vid s)"
  "tt_global_ok k s \<Longrightarrow> batadv_softif_vlan_get vid s = (q, t) \<Longrightarrow> tt_global_ok k t"
  "tt_global_ok k s \<Longrightarrow> tt_global_ok k (softif_vlan_mod vid f s)"
  using global_ok_keep same_global_vlan same_global_get by blast+

lemma glob_create_vlan:
  assumes "tt_global_ok k s" "batadv_softif_create_vlan k sysfs vid s = (r, s')"
  shows "tt_global_ok k s'"
proof -
  obtain q t where g: "batadv_softif_vlan_get vid s = (q, t)" by fastforce
  have t: "tt_global_ok k t" by (rule glob_vlan(2) [OF assms(1) g])
  obtain ok u where a: "kzalloc t = (ok, u)" by fastforce
  have u: "tt_global_ok k u" by (rule glob.kzalloc [OF a t])
  have v: "tt_global_ok k (u\<lparr>bp_softif_vlan_list := l\<rparr>)" for l
    by (rule global_ok_keep [OF u]) (simp add: same_global_def)
  show ?thesis
    using assms(2) g a t u glob_vlan(1) [OF t] unfolding batadv_softif_create_vlan_def Let_def
    by (auto intro: glob_add [OF v surjective_pairing] split: if_splits option.splits)
qed

lemma glob_add_vid:
  assumes "tt_global_ok k s" "batadv_interface_add_vid k sysfs p vid s = (r, s')"
  shows "tt_global_ok k s'"
proof -
  obtain q t where g: "batadv_softif_vlan_get (vid OR 0x8000) s = (q, t)" by fastforce
  have t: "tt_global_ok k t" by (rule glob_vlan(2) [OF assms(1) g])
  show ?thesis
    using assms g t unfolding batadv_interface_add_vid_def Let_def
    by (auto intro: glob_create_vlan glob_vlan(1) glob_add [OF glob_vlan(3) surjective_pairing]
        split: if_splits option.splits)
qed

lemma tables_add_vid:
  "tt_tables_ok k s \<Longrightarrow> (\<And>v. vlan_of s (vid OR 0x8000) = Some v \<Longrightarrow> \<not> sv_kobj v) \<Longrightarrow>
   batadv_interface_add_vid k sysfs p vid s = (r, s') \<Longrightarrow> tt_tables_ok k s'"
  unfolding tt_tables_ok_def using inv_add_vid glob_add_vid by blast

lemma glob_destroy_vlan: "tt_global_ok k s \<Longrightarrow> tt_global_ok k (batadv_softif_destroy_vlan k w s)"
  unfolding batadv_softif_destroy_vlan_def Let_def
  by (intro glob_vlan(1,3) glob.local_remove [OF surjective_pairing])

lemma glob_kill_vid:
  assumes "tt_global_ok k s" "batadv_interface_kill_vid k p vid s = (r, s')"
  shows "tt_global_ok k s'"
proof -
  obtain q t where g: "batadv_softif_vlan_get (vid OR 0x8000) s = (q, t)" by fastforce
  have t: "tt_global_ok k t" by (rule glob_vlan(2) [OF assms(1) g])
  show ?thesis
    using assms g t glob_vlan(1) [OF glob_destroy_vlan [OF t]] unfolding batadv_interface_kill_vid_def Let_def
    by (auto split: if_splits option.splits)
qed

lemma tables_kill_vid:
  "tt_tables_ok k s \<Longrightarrow> vlan_of s (vid OR 0x8000) = Some v \<Longrightarrow> sv_kobj v \<Longrightarrow>
   batadv_interface_kill_vid k p vid s = (r, s') \<Longrightarrow> tt_tables_ok k s'"
  unfolding tt_tables_ok_def using inv_kill_vid glob_kill_vid by blast

text \<open>What the multicast code does before a commit: addresses appear and go.\<close>

definition mla_updates :: "kenv \<Rightarrow> (bool \<times> mac) list \<Rightarrow> batadv_priv \<Rightarrow> batadv_priv" where
  "mla_updates k = fold (\<lambda>(added, a) s. if added then snd (batadv_tt_local_add k a 0 0 0 s)
                                        else snd (batadv_tt_local_remove k a 0 False s))"

lemma tables_mla: "tt_tables_ok k s \<Longrightarrow> tt_tables_ok k (mla_updates k as s)"
  unfolding mla_updates_def
  by (rule inv_fold [where P = "tt_tables_ok k"])
    (auto intro: tables_add [OF _ surjective_pairing] tables.local_remove [OF surjective_pairing])

lemma tables_commit:
  assumes "tt_tables_ok k s"
  shows "tt_tables_ok k (batadv_tt_local_commit_changes k (mla_updates k as) s)"
proof -
  let ?s = "mla_updates k as s"
  have m: "batadv_tt_local_commit_changes k (mla_updates k as) s = batadv_tt_local_commit_changes k id ?s"
    by (simp add: batadv_tt_local_commit_changes_def batadv_tt_local_commit_changes_nolock_def)
  have i: "tt_tables_ok k ?s" by (rule tables_mla) (rule assms)
  then have "tt_local_inv k (\<lambda>_. 0) (batadv_tt_local_commit_changes k id ?s)"
    by (intro inv_commit) (simp_all add: tt_tables_ok_def)
  moreover have "same_global ?s (batadv_tt_local_commit_changes k id ?s)"
    by (rule same_global_commit) (simp add: same_global_def)
  ultimately show ?thesis unfolding m using tables_local [OF i] by blast
qed

lemma tables_purge: "tt_tables_ok k s \<Longrightarrow> tt_tables_ok k (batadv_tt_purge k s)"
  unfolding batadv_tt_purge_def
  by (intro tables.req_purge tables.global_purge tables_local [OF _ same_global_purge inv_local_purge])
    (simp_all add: tt_tables_ok_def)

section \<open>The untagged VLAN and the isolation of clients\<close>

lemma inv_isolation:
  assumes inv: "tt_local_inv k held s"
  shows "tt_local_inv k held (softif_vlan_mod vid (\<lambda>v. v\<lparr>sv_ap_isolation := on\<rparr>) s)"
proof -
  let ?t = "softif_vlan_mod vid (\<lambda>v. v\<lparr>sv_ap_isolation := on\<rparr>) s"
  have h: "tt_local_hash (bp_tt ?t) = tt_local_hash (bp_tt s)" by (simp add: vlan_ops_tt)
  have l: "clients w ?t = clients w s" "committed w ?t = committed w s" for w
    by (simp_all only: clients_def committed_def locals_same [OF h])
  have "vlan_counts held ?t"
    unfolding vlan_counts_def l
  proof
    fix w
    show "case vlan_of ?t w of None \<Rightarrow> clients w s = 0 \<and> held w = 0
      | Some v \<Rightarrow> sv_num_entries v = int (committed w s) \<and>
          sv_refcount v = clients w s + (if sv_kobj v then 1 else 0) + held w \<and> 0 < sv_refcount v"
      using vlan_counts_at [OF inv_parts(3) [OF inv], of w] vlan_counts_None [OF inv_parts(3) [OF inv], of w]
      by (cases "vlan_of s w"; cases "w = vid") (simp_all add: vlan_mod)
  qed
  moreover have "vids_distinct ?t" using inv_parts(2) [OF inv] by (simp add: vlan_mod)
  ultimately show ?thesis
    using inv_parts(1) [OF inv] by (simp add: tt_local_inv_def local_wf_same [OF h])
qed

lemma tables_create_vlan:
  "tt_tables_ok k s \<Longrightarrow> batadv_softif_create_vlan k sysfs vid s = (r, s') \<Longrightarrow> tt_tables_ok k s'"
  unfolding tt_tables_ok_def using inv_create_vlan glob_create_vlan by blast

lemma glob_destroy_finish: "tt_global_ok k s \<Longrightarrow> tt_global_ok k (batadv_softif_destroy_finish k s)"
  unfolding batadv_softif_destroy_finish_def
  by (auto intro: glob_vlan glob_destroy_vlan split: option.split prod.split)

lemma inv_destroy_finish:
  assumes inv: "tt_local_inv k (\<lambda>_. 0) s" and v: "vlan_of s 0 = Some v" "sv_kobj v"
  shows "tt_local_inv k (\<lambda>_. 0) (batadv_softif_destroy_finish k s)"
proof -
  obtain q t where g: "batadv_softif_vlan_get 0 s = (q, t)" by fastforce
  have q: "q = Some v" using vlan_get(1) [of 0 s] v(1) g by simp
  have i: "tt_local_inv k ((\<lambda>_. 0)(0 := Suc 0)) t" by (rule inv_taken [OF inv g [unfolded q]])
  have "vlan_of t 0 = Some (v\<lparr>sv_refcount := sv_refcount v + 1\<rparr>)"
    using inv_get(6) [OF inv g [unfolded q], of 0] by simp
  then have "tt_local_inv k ((\<lambda>_. 0)(0 := Suc 0)) (batadv_softif_destroy_vlan k 0 t)"
    by (rule inv_interface_gone [OF i]) (simp add: v(2))
  from inv_put [OF this] show ?thesis
    using g q by (simp add: batadv_softif_destroy_finish_def fun_upd_idem)
qed

section \<open>Shrinking the table\<close>

lemma set_pending_new: "no_new s \<Longrightarrow> no_new (batadv_tt_local_set_pending k key f s)"
proof -
  have "tt_locals (batadv_tt_local_event k key f s) = tt_locals s"
    by (rule locals_same) (rule local_event(2))
  moreover have "is_new (e\<lparr>tl_common := tt_flag_set 0x400 (tl_common e)\<rparr>) = is_new e" for e :: batadv_tt_local_entry
    by (simp add: is_new_def tt_flag_set_def has_flag_def bit.conj_disj_distrib2)
  ultimately show "no_new s \<Longrightarrow> no_new (batadv_tt_local_set_pending k key f s)"
    by (auto simp: no_new_def batadv_tt_local_set_pending_def local_mod_locals list_all_iff)
qed

lemma local_purge_new: "no_new s \<Longrightarrow> no_new (batadv_tt_local_purge k timeout s)"
  unfolding batadv_tt_local_purge_def
  by (rule inv_fold [where P = no_new]) (auto simp: tt_local_purge_entry_def intro: set_pending_new)

lemma purge_pending_new: "no_new s \<Longrightarrow> no_new (batadv_tt_local_purge_pending_clients s)"
proof -
  have l: "tt_locals (tt_vlan_release vid t) = tt_locals t" "tt_locals (batadv_tt_local_size_mod vid d t) = tt_locals t" for vid d t
    by (rule locals_same; auto simp: tt_vlan_release_def batadv_tt_local_size_mod_def batadv_softif_vlan_get_def vlan_ops_tt
        split: option.split)+
  have "no_new (tt_purge_pending_entry e t)" if "no_new t" for e t
  proof -
    have "tt_locals (tt_mod (tt_local_hash_update (map_option (hash_filter p))) u) = filter p (tt_locals u)" for p u
      by (auto simp: tt_locals_def tt_mod_def hash_elems_filter split: option.split)
    then show ?thesis
      using that by (simp add: tt_purge_pending_entry_def batadv_tt_local_size_dec_def no_new_def l list_all_iff Let_def)
  qed
  then show "no_new s \<Longrightarrow> no_new (batadv_tt_local_purge_pending_clients s)"
    unfolding batadv_tt_local_purge_pending_clients_def by (intro inv_fold [where P = no_new])
qed

lemma loop_tables:
  "tt_resize_loop fuel k m timeout reduced s = Some (b, s') \<Longrightarrow>
   (tt_global_ok k s \<longrightarrow> tt_global_ok k s') \<and> (tt_local_inv k held s \<and> no_new s \<longrightarrow> tt_local_inv k held s')"
proof (induction fuel arbitrary: timeout reduced s)
  case (Suc fuel)
  let ?t = "batadv_tt_local_purge_pending_clients (batadv_tt_local_purge k (of_int timeout) s)"
  show ?case
  proof (cases "m \<ge> batadv_tt_local_table_transmit_size s")
    case False
    then have "tt_resize_loop fuel k m (timeout div 2) True ?t = Some (b, s')" using Suc.prems by simp
    from Suc.IH [OF this] have ih: "(tt_global_ok k ?t \<longrightarrow> tt_global_ok k s') \<and>
      (tt_local_inv k held ?t \<and> no_new ?t \<longrightarrow> tt_local_inv k held s')" .
    have "tt_global_ok k s \<longrightarrow> tt_global_ok k ?t"
      using global_ok_keep same_global_purge same_global_purge_pending by blast
    then show ?thesis
      using ih inv_purge_pending [OF inv_local_purge local_purge_new] purge_pending_new [OF local_purge_new] by blast
  qed (use Suc.prems in simp)
qed simp

text \<open>
  A client that was never announced is not counted, yet the purge counts it out. The counters stay right when
  the table fits already or no client is new.
\<close>

definition shrinks_counted :: "batadv_priv \<Rightarrow> bool" where
  "shrinks_counted s \<longleftrightarrow> batadv_tt_local_table_transmit_size s \<le> bp_packet_size_max s \<or> no_new s"

lemma commit_after_mla:
  "batadv_tt_local_commit_changes k mla s = batadv_tt_local_commit_changes k id (mla s)"
  "batadv_tt_local_commit_changes_nolock k mla s = batadv_tt_local_commit_changes k mla s"
  by (simp_all add: batadv_tt_local_commit_changes_def batadv_tt_local_commit_changes_nolock_def)

lemma glob_mla: "tt_global_ok k s \<Longrightarrow> tt_global_ok k (mla_updates k as s)"
  unfolding mla_updates_def
  by (rule inv_fold [where P = "tt_global_ok k"])
    (auto intro: glob_add [OF _ surjective_pairing] glob.local_remove [OF surjective_pairing])

lemma glob_commit: "tt_global_ok k s \<Longrightarrow> tt_global_ok k (batadv_tt_local_commit_changes k (mla_updates k as) s)"
  unfolding commit_after_mla(1) [of k "mla_updates k as"]
  by (rule global_ok_keep [OF glob_mla same_global_commit]) (simp_all add: same_global_def)

lemma glob_resize:
  assumes "tt_global_ok k s" "batadv_tt_local_resize_to_mtu fuel k (mla_updates k as) s = Some s'"
  shows "tt_global_ok k s'"
  using assms unfolding batadv_tt_local_resize_to_mtu_def commit_after_mla(2)
  by (auto dest!: loop_tables split: option.splits if_splits intro: glob_commit)

lemma tables_resize:
  assumes "tt_tables_ok k s" "shrinks_counted s" "batadv_tt_local_resize_to_mtu fuel k (mla_updates k as) s = Some s'"
  shows "tt_tables_ok k s'"
proof -
  obtain b t where t: "tt_resize_loop fuel k (bp_packet_size_max s) (600000 div 2) False s = Some (b, t)"
      "s' = (if b then batadv_tt_local_commit_changes k (mla_updates k as) t else t)"
    using assms(3) unfolding batadv_tt_local_resize_to_mtu_def commit_after_mla(2) by (auto split: option.splits)
  have "tt_tables_ok k t"
  proof (cases "batadv_tt_local_table_transmit_size s \<le> bp_packet_size_max s")
    case True
    then have "t = s" using t(1) by (cases fuel) auto
    then show ?thesis using assms(1) by simp
  next
    case False
    then show ?thesis
      using loop_tables [OF t(1), of "\<lambda>_. 0"] assms(1,2) by (simp add: tt_tables_ok_def shrinks_counted_def)
  qed
  then show ?thesis using t(2) tables_commit by simp
qed

section \<open>Steps\<close>

text \<open>
  The networking core adds a VLAN to the interface once, and removes one that it added. The untagged VLAN is created
  when the mesh interface is registered and goes with it. The claims of a backbone gateway are deleted from one
  VLAN of an originator. With \<open>calm\<close>, the table is shrunk only while its counters can follow.
\<close>

inductive tt_step :: "kenv \<Rightarrow> bool \<Rightarrow> batadv_priv \<Rightarrow> batadv_priv \<Rightarrow> bool" for k calm where
  client: "same_hash k k' \<Longrightarrow> batadv_tt_local_add k' addr vid ifindex mark s = (ok, s') \<Longrightarrow> tt_step k calm s s'"
| client_gone: "same_hash k k' \<Longrightarrow> batadv_tt_local_remove k' addr vid roaming s = (flags, s') \<Longrightarrow> tt_step k calm s s'"
| untagged: "same_hash k k' \<Longrightarrow> batadv_softif_create_vlan k' sysfs BATADV_NO_FLAGS s = (r, s') \<Longrightarrow> tt_step k calm s s'"
| untagged_gone: "same_hash k k' \<Longrightarrow> vlan_of s BATADV_NO_FLAGS = Some v \<Longrightarrow> sv_kobj v \<Longrightarrow>
    tt_step k calm s (batadv_softif_destroy_finish k' s)"
| vlan: "same_hash k k' \<Longrightarrow> (\<And>v. vlan_of s (vid OR 0x8000) = Some v \<Longrightarrow> \<not> sv_kobj v) \<Longrightarrow>
    batadv_interface_add_vid k' sysfs p vid s = (r, s') \<Longrightarrow> tt_step k calm s s'"
| vlan_gone: "same_hash k k' \<Longrightarrow> vlan_of s (vid OR 0x8000) = Some v \<Longrightarrow> sv_kobj v \<Longrightarrow>
    batadv_interface_kill_vid k' p vid s = (r, s') \<Longrightarrow> tt_step k calm s s'"
| isolation: "tt_step k calm s (softif_vlan_mod vid (\<lambda>v. v\<lparr>sv_ap_isolation := on\<rparr>) s)"
| commit: "same_hash k k' \<Longrightarrow> tt_step k calm s (batadv_tt_local_commit_changes k' (mla_updates k' as) s)"
| shrink: "same_hash k k' \<Longrightarrow> (calm \<Longrightarrow> shrinks_counted s) \<Longrightarrow>
    batadv_tt_local_resize_to_mtu fuel k' (mla_updates k' as) s = Some s' \<Longrightarrow> tt_step k calm s s'"
| purge: "same_hash k k' \<Longrightarrow> tt_step k calm s (batadv_tt_purge k' s)"
| ogm: "same_hash k k' \<Longrightarrow> tt_step k calm s (batadv_tt_tvlv_ogm_handler_v1 k' n tvlv_value s)"
| message: "same_hash k k' \<Longrightarrow> batadv_tt_tvlv_unicast_handler_v1 k' src dst tvlv_value s = (ret, s') \<Longrightarrow> tt_step k calm s s'"
| roam: "same_hash k k' \<Longrightarrow> batadv_roam_tvlv_unicast_handler_v1 k' src dst tvlv_value s = (ret, s') \<Longrightarrow> tt_step k calm s s'"
| originator_gone: "same_hash k k' \<Longrightarrow> tt_step k calm s (batadv_tt_global_del_orig k' n vid s)"
| speedy_join: "same_hash k k' \<Longrightarrow> batadv_tt_add_temporary_global_entry k' n addr vid s = (ok, s') \<Longrightarrow> tt_step k calm s s'"
| other: "local_frame s s' \<Longrightarrow> same_global s s' \<Longrightarrow> tt_step k calm s s'"

lemma choose_same: "same_hash k k' \<Longrightarrow> batadv_choose_tt k' = batadv_choose_tt k"
  by (simp add: same_hash_def batadv_choose_tt_def fun_eq_iff)

lemma global_same_hash: "same_hash k k' \<Longrightarrow> tt_global_ok k' s = tt_global_ok k s"
  using choose_same by (simp add: tt_global_ok_def tt_global_wf_def)

lemma tables_same_hash: "same_hash k k' \<Longrightarrow> tt_tables_ok k' s = tt_tables_ok k s"
  using choose_same by (simp add: tt_tables_ok_def tt_global_ok_def tt_global_wf_def tt_local_inv_def tt_local_wf_def)

lemma global_at: "same_hash k k' \<Longrightarrow> tt_global_ok k s \<Longrightarrow> (tt_global_ok k' s \<Longrightarrow> tt_global_ok k' s') \<Longrightarrow> tt_global_ok k s'"
  by (simp add: global_same_hash)

lemma tables_at: "same_hash k k' \<Longrightarrow> tt_tables_ok k s \<Longrightarrow> (tt_tables_ok k' s \<Longrightarrow> tt_tables_ok k' s') \<Longrightarrow> tt_tables_ok k s'"
  by (simp add: tables_same_hash)

lemma glob_step: "tt_step k calm s s' \<Longrightarrow> tt_global_ok k s \<Longrightarrow> tt_global_ok k s'"
proof (induction rule: tt_step.induct)
  case (client k' addr vid ifindex mark s ok s')
  show ?case by (rule global_at [OF client(1,3)]) (rule glob_add [OF _ client(2)])
next
  case (client_gone k' addr vid roaming s flags s')
  show ?case by (rule global_at [OF client_gone(1,3)]) (rule glob.local_remove [OF client_gone(2)])
next
  case (untagged k' sysfs s r s')
  show ?case by (rule global_at [OF untagged(1,3)]) (rule glob_create_vlan [OF _ untagged(2)])
next
  case (untagged_gone k' s v)
  show ?case by (rule global_at [OF untagged_gone(1,4)]) (rule glob_destroy_finish)
next
  case (vlan k' s vid sysfs p r s')
  show ?case by (rule global_at [OF vlan(1,4)]) (rule glob_add_vid [OF _ vlan(3)])
next
  case (vlan_gone k' s vid v p r s')
  show ?case by (rule global_at [OF vlan_gone(1,5)]) (rule glob_kill_vid [OF _ vlan_gone(4)])
next
  case (isolation s vid on)
  then show ?case by (rule glob_vlan(3))
next
  case (commit k' s as)
  show ?case by (rule global_at [OF commit]) (rule glob_commit)
next
  case (shrink k' s fuel as s')
  show ?case by (rule global_at [OF shrink(1,4)]) (rule glob_resize [OF _ shrink(3)])
next
  case (purge k' s)
  show ?case
    by (rule global_at [OF purge])
      (unfold batadv_tt_purge_def, intro glob.req_purge glob.global_purge global_ok_keep [OF _ same_global_purge])
next
  case (ogm k' s n tvlv_value)
  show ?case by (rule global_at [OF ogm]) (rule glob.ogm_handler_v1)
next
  case (message k' src dst tvlv_value s ret s')
  show ?case by (rule global_at [OF message(1,3)]) (rule glob.unicast_handler_v1 [OF message(2)])
next
  case (roam k' src dst tvlv_value s ret s')
  show ?case by (rule global_at [OF roam(1,3)]) (rule glob.roam_handler_v1 [OF roam(2)])
next
  case (originator_gone k' s n vid)
  show ?case by (rule global_at [OF originator_gone]) (rule glob.global_del_orig)
next
  case (speedy_join k' n addr vid s ok s')
  show ?case
    by (rule global_at [OF speedy_join(1,3)])
      (rule glob.global_add [OF _ speedy_join(2) [unfolded batadv_tt_add_temporary_global_entry_def]])
next
  case (other s s')
  then show ?case using global_ok_keep by blast
qed

lemma tables_step: "tt_step k True s s' \<Longrightarrow> tt_tables_ok k s \<Longrightarrow> tt_tables_ok k s'"
proof (induction rule: tt_step.induct)
  case (client k' addr vid ifindex mark s ok s')
  show ?case by (rule tables_at [OF client(1,3)]) (rule tables_add [OF _ client(2)])
next
  case (client_gone k' addr vid roaming s flags s')
  show ?case by (rule tables_at [OF client_gone(1,3)]) (rule tables.local_remove [OF client_gone(2)])
next
  case (untagged k' sysfs s r s')
  show ?case by (rule tables_at [OF untagged(1,3)]) (rule tables_create_vlan [OF _ untagged(2)])
next
  case (untagged_gone k' s v)
  show ?case
    by (rule tables_at [OF untagged_gone(1,4)])
      (use glob_destroy_finish inv_destroy_finish [OF _ untagged_gone(2,3)] in \<open>auto simp: tt_tables_ok_def\<close>)
next
  case (vlan k' s vid sysfs p r s')
  show ?case by (rule tables_at [OF vlan(1,4)]) (rule tables_add_vid [OF _ vlan(2,3)])
next
  case (vlan_gone k' s vid v p r s')
  show ?case by (rule tables_at [OF vlan_gone(1,5)]) (rule tables_kill_vid [OF _ vlan_gone(2-4)])
next
  case (isolation s vid on)
  then show ?case using glob_vlan(3) inv_isolation unfolding tt_tables_ok_def by blast
next
  case (commit k' s as)
  show ?case by (rule tables_at [OF commit]) (rule tables_commit)
next
  case (shrink k' s fuel as s')
  show ?case by (rule tables_at [OF shrink(1,4)]) (rule tables_resize [OF _ shrink(2) [OF TrueI] shrink(3)])
next
  case (purge k' s)
  show ?case by (rule tables_at [OF purge]) (rule tables_purge)
next
  case (ogm k' s n tvlv_value)
  show ?case by (rule tables_at [OF ogm]) (rule tables.ogm_handler_v1)
next
  case (message k' src dst tvlv_value s ret s')
  show ?case by (rule tables_at [OF message(1,3)]) (rule tables.unicast_handler_v1 [OF message(2)])
next
  case (roam k' src dst tvlv_value s ret s')
  show ?case by (rule tables_at [OF roam(1,3)]) (rule tables.roam_handler_v1 [OF roam(2)])
next
  case (originator_gone k' s n vid)
  show ?case by (rule tables_at [OF originator_gone]) (rule tables.global_del_orig)
next
  case (speedy_join k' n addr vid s ok s')
  show ?case
    by (rule tables_at [OF speedy_join(1,3)])
      (rule tables.global_add [OF _ speedy_join(2) [unfolded batadv_tt_add_temporary_global_entry_def]])
next
  case (other s s')
  then show ?case using tables_ok_frame global_ok_keep unfolding tt_tables_ok_def by blast
qed

text \<open>The tables were just created, and there is no VLAN yet.\<close>

definition tt_initial :: "batadv_priv \<Rightarrow> bool" where
  "tt_initial s \<longleftrightarrow> (\<exists>t. tt_local_hash (bp_tt t) = None \<and> tt_global_hash (bp_tt t) = None \<and>
     bp_softif_vlan_list t = [] \<and> batadv_tt_init t = (1, s))"

definition tt_reachable :: "kenv \<Rightarrow> bool \<Rightarrow> batadv_priv \<Rightarrow> bool" where
  "tt_reachable k calm s \<longleftrightarrow> (\<exists>s0. tt_initial s0 \<and> (tt_step k calm)\<^sup>*\<^sup>* s0 s)"

lemma handler_register_tt:
  "bp_tt (batadv_tvlv_handler_register a b t v f s) = bp_tt s"
  "bp_softif_vlan_list (batadv_tvlv_handler_register a b t v f s) = bp_softif_vlan_list s"
  by (auto simp: batadv_tvlv_handler_register_def kzalloc_eq Let_def split: option.split)

lemma tables_initial:
  assumes "tt_initial s"
  shows "tt_tables_ok k s"
proof -
  obtain t where t: "tt_local_hash (bp_tt t) = None" "tt_global_hash (bp_tt t) = None" "bp_softif_vlan_list t = []"
      "batadv_tt_init t = (1, s)"
    using assms unfolding tt_initial_def by blast
  have "tt_local_hash (bp_tt s) = batadv_hash_new True 1024 \<and> tt_global_hash (bp_tt s) = batadv_hash_new True 1024 \<and>
      bp_softif_vlan_list s = []"
    using t unfolding batadv_tt_init_def batadv_tt_local_init_def batadv_tt_global_init_def kzalloc_eq Let_def
    by (auto simp: handler_register_tt tt_mod_simps batadv_hash_new_def split: if_splits)
  then obtain hl hg where h: "tt_local_hash (bp_tt s) = Some hl" "tt_global_hash (bp_tt s) = Some hg"
      "batadv_hash_new True 1024 = Some hl" "batadv_hash_new True 1024 = Some hg" "bp_softif_vlan_list s = []"
    by (auto simp: batadv_hash_new_def)
  have w: "hash_wf (\<lambda>e. tt_key (tl_common e)) (batadv_choose_tt k) hl" "hash_wf (\<lambda>e. tt_key (tg_common e)) (batadv_choose_tt k) hg"
    by (rule tt_local_ht.wf_new [OF _ h(3)], simp) (rule tt_global_ht.wf_new [OF _ h(4)], simp)
  have "tt_locals s = []" "tt_globals s = []"
    using h by (auto simp: tt_locals_def tt_globals_def batadv_hash_new_def batadv_hash_init_def hash_elems_def)
  then show ?thesis
    using w h(1,2,5) by (simp add: tt_tables_ok_def tt_global_ok_def tt_global_wf_def tt_local_inv_def tt_local_wf_def
        vids_distinct_def vlan_counts_def vlan_of_def clients_def)
qed

lemma reachable_preserved:
  assumes "tt_reachable k calm s" "\<And>s. tt_initial s \<Longrightarrow> P s" "\<And>s t. tt_step k calm s t \<Longrightarrow> P s \<Longrightarrow> P t"
  shows "P s"
proof -
  obtain s0 where "tt_initial s0" and r: "(tt_step k calm)\<^sup>*\<^sup>* s0 s" using assms(1) unfolding tt_reachable_def by blast
  then have "P s0" by (intro assms(2))
  with r show "P s" by (induction rule: rtranclp_induct) (auto intro: assms(3))
qed

lemma global_reachable: "tt_reachable k calm s \<Longrightarrow> tt_global_ok k s"
  by (erule reachable_preserved) (auto simp: tt_tables_ok_def dest: tables_initial intro: glob_step)

lemma tables_reachable: "tt_reachable k True s \<Longrightarrow> tt_tables_ok k s"
  by (erule reachable_preserved) (auto intro: tables_initial tables_step)

lemma reachable_then: "tt_reachable k calm s \<Longrightarrow> tt_step k calm s t \<Longrightarrow> tt_reachable k calm t"
  unfolding tt_reachable_def by (meson rtranclp.rtrancl_into_rtrancl)

end
