(* ===== verification/Tt_Transfer.thy ===== *)
theory Tt_Transfer
  imports Tt_System
begin

text \<open>
  How a full table gets from one node to another: the message that the owner builds from its
  local table, and what the receiver makes of it. The counters that a receiver keeps of the
  clients of an originator are followed through every addition and removal.
\<close>

section \<open>The counters of an originator\<close>

definition num_at :: "batadv_priv \<Rightarrow> nat \<Rightarrow> vid \<Rightarrow> int" where
  "num_at s n vid = (case batadv_orig_node_vlan_get (orig_of s n) vid of None \<Rightarrow> 0 | Some v \<Rightarrow> ov_num_entries v)"

definition announced :: "nat \<Rightarrow> vid \<Rightarrow> batadv_priv \<Rightarrow> nat" where
  "announced n vid s = size {#e \<in># mset (tt_globals s). batadv_tt_global_entry_has_orig e n \<and> tt_vid (tg_common e) = vid#}"

definition orig_vids :: "batadv_priv \<Rightarrow> nat \<Rightarrow> vid list" where
  "orig_vids s n = map ov_vid (on_vlan_list (orig_of s n))"

text \<open>A VLAN is in the list of the originator while it announces clients of it.\<close>

definition orig_counts :: "nat \<Rightarrow> batadv_priv \<Rightarrow> bool" where
  "orig_counts n s \<longleftrightarrow> distinct (orig_vids s n) \<and>
     (\<forall>vid. num_at s n vid = int (announced n vid s) \<and> (vid \<in> set (orig_vids s n) \<longleftrightarrow> 0 < announced n vid s))"

lemma vlan_get_None: "batadv_orig_node_vlan_get (orig_of s n) vid = None \<longleftrightarrow> vid \<notin> set (orig_vids s n)"
  by (auto simp: batadv_orig_node_vlan_get_def orig_vids_def find_None_iff)

lemma find_delete_key:
  assumes "distinct (map key xs)"
  shows "find (\<lambda>x. key x = b) (snd (hlist_del_first (\<lambda>x. key x = a) xs)) =
    (if b = a then None else find (\<lambda>x. key x = b) xs)"
proof -
  have "find (\<lambda>x. key x = b) (filter (\<lambda>x. key x \<noteq> a) xs) = (if b = a then None else find (\<lambda>x. key x = b) xs)"
    by (induction xs) auto
  then show ?thesis
    using hlist_del_first_distinct_filter [OF assms, of "\<lambda>x. key x = a" a] by simp
qed

lemma size_mod_counts:
  assumes "bp_allocs s = []" "distinct (orig_vids s n)" "d \<noteq> 0"
    and "vid \<in> set (orig_vids s n) \<longleftrightarrow> num_at s n vid \<noteq> 0"
  shows "num_at (batadv_tt_global_size_mod n vid d s) n w = num_at s n w + (if w = vid then d else 0)"
    "distinct (orig_vids (batadv_tt_global_size_mod n vid d s) n)"
    "w \<in> set (orig_vids (batadv_tt_global_size_mod n vid d s) n) \<longleftrightarrow>
       (if w = vid then num_at s n vid + d \<noteq> 0 else w \<in> set (orig_vids s n))"
    "bp_allocs (batadv_tt_global_size_mod n vid d s) = []"
proof -
  let ?l = "on_vlan_list (orig_of s n)"
  let ?t = "batadv_tt_global_size_mod n vid d s"
  let ?inc = "\<lambda>x :: batadv_orig_node_vlan. x\<lparr>ov_num_entries := ov_num_entries x + d\<rparr>"
  define l1 where "l1 = (if vid \<in> set (orig_vids s n) then ?l
    else \<lparr>ov_vid = vid, ov_crc = 0, ov_num_entries = 0\<rparr> # ?l)"
  obtain v where v: "find (\<lambda>x. ov_vid x = vid) l1 = Some v" "ov_num_entries v = num_at s n vid"
  proof (cases "vid \<in> set (orig_vids s n)")
    case True
    then have "batadv_orig_node_vlan_get (orig_of s n) vid \<noteq> None" using vlan_get_None by blast
    then show ?thesis using True that by (auto simp: l1_def num_at_def batadv_orig_node_vlan_get_def)
  next
    case False
    then have "batadv_orig_node_vlan_get (orig_of s n) vid = None" using vlan_get_None by blast
    then show ?thesis using False that by (auto simp: l1_def num_at_def)
  qed
  have d1: "distinct (map ov_vid l1)" and ids1: "set (map ov_vid l1) = insert vid (set (orig_vids s n))"
    using assms(2) by (auto simp: orig_vids_def l1_def)
  have o: "find (\<lambda>x. ov_vid x = w) l1 = find (\<lambda>x. ov_vid x = w) ?l" if "w \<noteq> vid"
    using that by (auto simp: l1_def)
  define l2 where "l2 = (if num_at s n vid + d = 0 then snd (hlist_del_first (\<lambda>x. ov_vid x = vid) l1)
    else update_first (\<lambda>x. ov_vid x = vid) ?inc l1)"
  have "on_vlan_list (orig_of ?t n) = l2 \<and> bp_allocs ?t = []"
  proof (cases "batadv_orig_node_vlan_get (orig_of s n) vid")
    case None
    then have "vid \<notin> set (orig_vids s n)" by (simp only: vlan_get_None simp_thms)
    then show ?thesis
      using None v assms(1) unfolding l2_def
      by (auto simp: l1_def batadv_tt_global_size_mod_def batadv_orig_node_vlan_new_def kzalloc_eq Let_def orig_mod_def
          batadv_orig_node_vlan_get_def)
  next
    case (Some y)
    then have "vid \<in> set (orig_vids s n)" using vlan_get_None [of s n vid] by auto
    then show ?thesis
      using Some v assms(1) unfolding l2_def
      by (auto simp: l1_def batadv_tt_global_size_mod_def batadv_orig_node_vlan_new_def kzalloc_eq Let_def orig_mod_def
          batadv_orig_node_vlan_get_def)
  qed
  then have l2: "on_vlan_list (orig_of ?t n) = l2" and a: "bp_allocs ?t = []" by blast+
  show "bp_allocs ?t = []" by (rule a)
  have "map ov_vid (snd (hlist_del_first (\<lambda>x. ov_vid x = vid) l1)) = filter (\<lambda>x. x \<noteq> vid) (map ov_vid l1)"
    using hlist_del_first_distinct_filter [OF d1, of "\<lambda>x. ov_vid x = vid" vid] by (simp add: filter_map comp_def)
  moreover have "map ov_vid (update_first (\<lambda>x. ov_vid x = vid) ?inc l1) = map ov_vid l1"
    by (rule map_update_first) simp
  ultimately have ids: "orig_vids ?t n = (if num_at s n vid + d = 0 then filter (\<lambda>x. x \<noteq> vid) (map ov_vid l1)
      else map ov_vid l1)"
    by (simp add: orig_vids_def l2 l2_def)
  show "distinct (orig_vids ?t n)" using d1 by (simp add: ids)
  show "w \<in> set (orig_vids ?t n) \<longleftrightarrow> (if w = vid then num_at s n vid + d \<noteq> 0 else w \<in> set (orig_vids s n))"
    using ids1 by (auto simp: ids)
  have g: "batadv_orig_node_vlan_get (orig_of ?t n) w = find (\<lambda>x. ov_vid x = w) l2"
    by (simp add: batadv_orig_node_vlan_get_def l2)
  show "num_at ?t n w = num_at s n w + (if w = vid then d else 0)"
  proof (cases "w = vid")
    case True
    have "find (\<lambda>x. ov_vid x = vid) l2 = (if num_at s n vid + d = 0 then None else Some (?inc v))"
      using v(1) find_delete_key [OF d1, of vid vid] find_update_first [of "\<lambda>x. ov_vid x = vid" ?inc l1]
      by (simp add: l2_def)
    then show ?thesis unfolding num_at_def [of ?t] g using True v(2) by simp
  next
    case False
    have "find (\<lambda>x. ov_vid x = w) l2 = find (\<lambda>x. ov_vid x = w) l1"
      using False find_delete_key [OF d1, of w vid]
        find_update_first_other [of "\<lambda>x. ov_vid x = vid" "\<lambda>x. ov_vid x = w" ?inc l1]
      by (auto simp: l2_def)
    then show ?thesis unfolding num_at_def g using False o by (simp add: batadv_orig_node_vlan_get_def)
  qed
qed

text \<open>With memory, it is a function of the originator.\<close>

definition size_change :: "vid \<Rightarrow> int \<Rightarrow> batadv_orig_node \<Rightarrow> batadv_orig_node" where
  "size_change vid d n =
     (let n = (if batadv_orig_node_vlan_get n vid = None
               then n\<lparr>on_vlan_list := \<lparr>ov_vid = vid, ov_crc = 0, ov_num_entries = 0\<rparr> # on_vlan_list n\<rparr> else n)
      in case batadv_orig_node_vlan_get n vid of
           None \<Rightarrow> n
         | Some vlan \<Rightarrow>
             if ov_num_entries vlan + d = 0
             then n\<lparr>on_vlan_list := snd (hlist_del_first (\<lambda>x. ov_vid x = vid) (on_vlan_list n))\<rparr>
             else n\<lparr>on_vlan_list := update_first (\<lambda>x. ov_vid x = vid)
                     (\<lambda>x. x\<lparr>ov_num_entries := ov_num_entries x + d\<rparr>) (on_vlan_list n)\<rparr>)"

lemma size_mod_orig:
  assumes "bp_allocs s = []"
  shows "batadv_tt_global_size_mod n vid d s = orig_mod n (size_change vid d) s"
proof -
  have "kzalloc s = (True, s)" using assms by (simp add: kzalloc_eq)
  then show ?thesis
    by (simp add: batadv_tt_global_size_mod_def batadv_orig_node_vlan_new_def size_change_def orig_mod_def Let_def
        split: option.split)
qed

text \<open>The counters follow a change of the table by one.\<close>

lemma orig_counts_step:
  assumes c: "orig_counts n s" and a: "bp_allocs s = []" and "d \<noteq> 0"
    and o: "orig_of s' n = orig_of (batadv_tt_global_size_mod n vid d s) n"
    and ann: "\<And>w. int (announced n w s') = int (announced n w s) + (if w = vid then d else 0)"
  shows "orig_counts n s'"
proof -
  have p: "vid \<in> set (orig_vids s n) \<longleftrightarrow> num_at s n vid \<noteq> 0" "distinct (orig_vids s n)"
    using c by (simp_all add: orig_counts_def)
  note m = size_mod_counts [OF a p(2) assms(3) p(1)]
  have e: "num_at s' n w = num_at (batadv_tt_global_size_mod n vid d s) n w"
      "orig_vids s' n = orig_vids (batadv_tt_global_size_mod n vid d s) n" for w
    by (simp_all add: num_at_def orig_vids_def o)
  have "num_at s' n w = int (announced n w s') \<and> (w \<in> set (orig_vids s' n) \<longleftrightarrow> 0 < announced n w s')" for w
    using c ann [of w] m(1) [of w] m(3) [of w] unfolding e by (auto simp: orig_counts_def split: if_splits)
  then show ?thesis
    using m(2) unfolding orig_counts_def e by blast
qed

lemma has_orig_iff: "batadv_tt_global_entry_has_orig e n \<longleftrightarrow> n \<in> oe_orig_node ` set (tg_orig_list e)"
  by (auto simp: batadv_tt_global_entry_has_orig_def batadv_tt_global_orig_entry_find_def find_None_iff)

section \<open>Adding a client of an originator\<close>

text \<open>The entry of a client that only one originator announces.\<close>

definition sole_entry :: "kenv \<Rightarrow> nat \<Rightarrow> u8 \<Rightarrow> tt_key \<Rightarrow> u16 \<Rightarrow> batadv_tt_global_entry" where
  "sole_entry k n ttvn key flags =
     \<lparr>tg_common = \<lparr>tt_addr = fst key, tt_vid = snd key, tt_flags = flags, tt_added_at = k_jiffies k\<rparr>,
      tg_orig_list = [\<lparr>oe_orig_node = n, oe_ttvn = ttvn\<rparr>], tg_orig_list_count = 1, tg_roam_at = 0\<rparr>"

text \<open>A state in which nothing but the global table and originators matters.\<close>

definition receiving :: "kenv \<Rightarrow> batadv_priv \<Rightarrow> bool" where
  "receiving k s \<longleftrightarrow> tt_global_ok k s \<and> tt_local_wf k s \<and> bp_allocs s = [] \<and> \<not> bp_bridge_loop_avoidance s"

lemma receiving_not_backbone: "receiving k s \<Longrightarrow> \<not> tt_is_backbone k s n vid"
  by (simp add: receiving_def tt_is_backbone_def batadv_bla_is_backbone_gw_orig_def bla_env_of_def)

lemma size_mod_frame:
  "bp_bridge_loop_avoidance (batadv_tt_global_size_mod n vid d s) = bp_bridge_loop_avoidance s"
  "bp_orig_hash (batadv_tt_global_size_mod n vid d s) = bp_orig_hash s"
  "i \<noteq> n \<Longrightarrow> orig_of (batadv_tt_global_size_mod n vid d s) i = orig_of s i"
  by (auto simp: batadv_tt_global_size_mod_def batadv_orig_node_vlan_new_def kzalloc_eq orig_mod_def Let_def
      split: option.split)

lemma mset_globals_change:
  assumes "tt_global_wf k s" "e \<in> set (tt_globals s)"
  shows "mset (tt_globals s) = add_mset e (mset (filter (\<lambda>x. tt_key (tg_common x) \<noteq> tt_key (tg_common e)) (tt_globals s)))"
    "mset (tt_globals (tt_global_mod (tt_key (tg_common e)) f s)) =
      add_mset (f e) (mset (filter (\<lambda>x. tt_key (tg_common x) \<noteq> tt_key (tg_common e)) (tt_globals s)))"
  using split_key [OF assms(2) global_keys_distinct [OF assms(1)]] by (simp_all add: global_mod_globals)

lemma globals_mod_at:
  assumes "tt_global_wf k s" "mset (tt_globals s) = add_mset e M" "tt_key (tg_common e) = key"
  shows "mset (tt_globals (tt_global_mod key f s)) = add_mset (f e) M"
proof -
  have "e \<in> set (tt_globals s)" using assms(2) by (metis set_mset_mset union_single_eq_member)
  from mset_globals_change [OF assms(1) this] show ?thesis
    using assms(2) unfolding assms(3) by simp
qed

lemma global_create_fresh:
  assumes "tt_global_wf k s" "batadv_tt_global_hash_find k s (fst key) (snd key) = None"
    and "tt_global_create k key flags s = (ok, t)"
  shows "ok" "bp_origs t = bp_origs s" "bp_allocs t = bp_allocs s" "bp_bridge_loop_avoidance t = bp_bridge_loop_avoidance s"
    "tt_local_hash (bp_tt t) = tt_local_hash (bp_tt s)" "tt_global_wf k t" "bp_orig_hash t = bp_orig_hash s"
    "mset (tt_globals t) = add_mset \<lparr>tg_common = \<lparr>tt_addr = fst key, tt_vid = snd key, tt_flags = flags,
       tt_added_at = k_jiffies k\<rparr>, tg_orig_list = [], tg_orig_list_count = 0,
       tg_roam_at = (if has_flag flags 2 then k_jiffies k else 0)\<rparr> (mset (tt_globals s))"
proof -
  let ?e = "\<lparr>tg_common = \<lparr>tt_addr = fst key, tt_vid = snd key, tt_flags = flags,
       tt_added_at = k_jiffies k\<rparr>, tg_orig_list = [], tg_orig_list_count = 0,
       tg_roam_at = (if has_flag flags 2 then k_jiffies k else 0)\<rparr>"
  obtain h where h: "tt_global_hash (bp_tt s) = Some h" "hash_wf (\<lambda>e. tt_key (tg_common e)) (batadv_choose_tt k) h"
    using assms(1) by (auto simp: tt_global_wf_def)
  have key: "tt_key (tg_common ?e) = key" by (simp add: tt_key_def)
  have l: "hash_lookup h (\<lambda>e. batadv_compare_tt (tg_common e)) (batadv_choose_tt k) key = None"
    using assms(2) h(1) by (simp add: batadv_tt_global_hash_find_def batadv_tt_hash_find_def)
  obtain h' where h': "batadv_hash_add (Some h) (\<lambda>e. batadv_compare_tt (tg_common e)) (batadv_choose_tt k) key ?e
      = (0, Some h')" "hash_wf (\<lambda>e. tt_key (tg_common e)) (batadv_choose_tt k) h'"
    "mset (hash_elems h') = add_mset ?e (mset (hash_elems h))"
    using tt_global_ht.add_fresh [OF h(2), of ?e] l key by metis
  have t: "ok" "t = tt_mod (tt_global_hash_update (\<lambda>_. Some h')) s"
    using assms(3) h'(1) h(1) unfolding tt_global_create_def Let_def by simp_all
  show "ok" by (rule t(1))
  show "bp_origs t = bp_origs s" "bp_allocs t = bp_allocs s" "bp_bridge_loop_avoidance t = bp_bridge_loop_avoidance s"
    "tt_local_hash (bp_tt t) = tt_local_hash (bp_tt s)" "bp_orig_hash t = bp_orig_hash s"
    by (simp_all add: t(2) tt_mod_def)
  show "tt_global_wf k t" using h'(2) by (simp add: t(2) tt_global_wf_def tt_mod_def)
  show "mset (tt_globals t) = add_mset ?e (mset (tt_globals s))"
    using h'(3) h(1) by (simp add: t(2) tt_globals_def tt_mod_def)
qed

text \<open>What a lone announcement does to the table and the counters.\<close>

lemma global_mod_frame:
  "bp_origs (tt_global_mod key f s) = bp_origs s" "bp_allocs (tt_global_mod key f s) = bp_allocs s"
  "bp_bridge_loop_avoidance (tt_global_mod key f s) = bp_bridge_loop_avoidance s"
  "bp_orig_hash (tt_global_mod key f s) = bp_orig_hash s"
  by (simp_all add: tt_global_mod_def tt_mod_def)

lemma local_find_same:
  "tt_local_hash (bp_tt s') = tt_local_hash (bp_tt s) \<Longrightarrow>
   batadv_tt_local_hash_find k s' a v = batadv_tt_local_hash_find k s a v"
  by (simp add: batadv_tt_local_hash_find_def)

lemma add_sole:
  assumes r: "receiving k s" and g: "batadv_tt_global_hash_find k s addr vid = None"
    and l: "batadv_tt_local_hash_find k s addr vid = None"
    and f: "\<not> has_flag flags 2" "\<not> has_flag flags 0x800"
    and add: "batadv_tt_global_add k n addr vid flags tv s = (ok, t)"
  shows "ok" "receiving k t" "tt_local_hash (bp_tt t) = tt_local_hash (bp_tt s)"
    "mset (tt_globals t) = add_mset (sole_entry k n tv (addr, vid) flags) (mset (tt_globals s))"
    "orig_of t n = orig_of (batadv_tt_global_size_mod n vid 1 s) n" "bp_orig_hash t = bp_orig_hash s"
    "i \<noteq> n \<Longrightarrow> orig_of t i = orig_of s i"
proof -
  let ?key = "(addr, vid)"
  have w: "tt_global_wf k s" "bp_allocs s = []" using r by (simp_all add: receiving_def tt_global_ok_def)
  obtain c u where c: "tt_global_create k ?key flags s = (c, u)" by fastforce
  note cr = global_create_fresh [OF w(1) _ c, simplified, OF g]
  let ?e = "\<lparr>tg_common = \<lparr>tt_addr = addr, tt_vid = vid, tt_flags = flags, tt_added_at = k_jiffies k\<rparr>, tg_orig_list = [],
    tg_orig_list_count = 0, tg_roam_at = 0\<rparr>"
  have mu: "mset (tt_globals u) = add_mset ?e (mset (tt_globals s))" using cr(8) f(1) by simp
  then have "?e \<in> set (tt_globals u)" by (metis set_mset_mset union_single_eq_member)
  then have fu: "batadv_tt_global_hash_find k u addr vid = Some ?e"
    using global_find_iff [OF cr(6)] by (simp add: tt_key_def)
  let ?a = "\<lambda>e. e\<lparr>tg_orig_list := \<lparr>oe_orig_node = n, oe_ttvn = tv\<rparr> # tg_orig_list e, tg_orig_list_count := tg_orig_list_count e + 1\<rparr>"
  let ?v = "batadv_tt_global_size_mod n vid 1 u"
  let ?x = "tt_global_mod ?key ?a ?v"
  have "kzalloc u = (True, u)" using cr(3) w(2) by (simp add: kzalloc_eq)
  then have x: "batadv_tt_global_orig_entry_add k ?key n tv u = ?x"
    by (simp add: batadv_tt_global_orig_entry_add_def fu has_orig_iff batadv_tt_global_size_inc_def)
  have vg: "tt_globals ?v = tt_globals u" "tt_global_wf k ?v"
    using cr(6) by (simp_all add: tt_globals_def tt_global_wf_def size_mod_tt)
  have lx: "tt_local_hash (bp_tt ?x) = tt_local_hash (bp_tt s)"
    by (simp add: tt_global_mod_def tt_mod_def size_mod_tt cr(5))
  have "batadv_tt_local_hash_find k ?x addr vid = None"
    unfolding local_find_same [OF lx] by (rule l)
  then have rm: "batadv_tt_local_remove k addr vid b ?x = (0, ?x)" for b
    by (simp add: batadv_tt_local_remove_def)
  let ?s1 = "\<lambda>e. e\<lparr>tg_common := tt_flag_set 0 (tg_common e)\<rparr>"
  let ?s2 = "\<lambda>e. e\<lparr>tg_common := tt_flag_clear 2 (tg_common e)\<rparr>"
  have "kzalloc s = (True, s)" using w(2) by (simp add: kzalloc_eq)
  then have t: "ok" "t = tt_global_out_remove k ?key flags ?x"
    using add receiving_not_backbone [OF r] f(2) g c cr(1) x unfolding batadv_tt_global_add_def Let_def by simp_all
  have t2: "t = (if is_multicast_ether_addr addr then ?x else tt_global_mod ?key ?s2 (tt_global_mod ?key ?s1 ?x))"
    unfolding t(2) tt_global_out_remove_def fst_conv snd_conv rm Let_def prod.case using f(1) by simp
  show "ok" by (rule t(1))
  show lt: "tt_local_hash (bp_tt t) = tt_local_hash (bp_tt s)"
    unfolding t2 using lx by (simp add: local_mod_globals)
  have ox: "bp_origs t = bp_origs ?v" "bp_allocs t = bp_allocs ?v" "bp_bridge_loop_avoidance t = bp_bridge_loop_avoidance ?v"
      "bp_orig_hash t = bp_orig_hash ?v"
    unfolding t2 by (simp_all add: global_mod_frame)
  have sm: "bp_origs ?v = bp_origs (batadv_tt_global_size_mod n vid 1 s)"
    using cr(2,3) w(2) by (simp add: size_mod_orig orig_mod_def)
  show "orig_of t n = orig_of (batadv_tt_global_size_mod n vid 1 s) n" by (simp add: ox sm)
  show "orig_of t i = orig_of s i" if "i \<noteq> n" using that by (simp add: ox sm size_mod_frame)
  show "bp_orig_hash t = bp_orig_hash s" by (simp add: ox size_mod_frame cr(7))
  have av: "bp_allocs ?v = []"
    using cr(3) w(2) by (simp add: size_mod_orig orig_mod_def)
  have "tt_global_ok k t" using glob.global_add [OF _ add] r by (simp add: receiving_def)
  then show "receiving k t"
    using r av by (simp add: receiving_def ox size_mod_frame cr(4) tt_local_wf_def lt)
  have key: "tt_key (tg_common ?e) = ?key" by (simp add: tt_key_def)
  have mx: "mset (tt_globals ?x) = add_mset (?a ?e) (mset (tt_globals s))"
    by (rule globals_mod_at [OF vg(2) _ key]) (simp add: vg(1) mu)
  have wx: "tt_global_wf k ?x" by (rule global_wf_mod [OF _ vg(2)]) simp
  have m1: "mset (tt_globals (tt_global_mod ?key ?s1 ?x)) = add_mset (?s1 (?a ?e)) (mset (tt_globals s))"
    by (rule globals_mod_at [OF wx mx]) (simp add: tt_key_def)
  have w1: "tt_global_wf k (tt_global_mod ?key ?s1 ?x)" by (rule global_wf_mod [OF _ wx]) simp
  have m2: "mset (tt_globals (tt_global_mod ?key ?s2 (tt_global_mod ?key ?s1 ?x)))
      = add_mset (?s2 (?s1 (?a ?e))) (mset (tt_globals s))"
    by (rule globals_mod_at [OF w1 m1]) (simp add: tt_key_def tt_flag_set_def)
  have "flags AND NOT 2 = flags"
    using f(1) by (simp add: has_flag_def bit_eq_iff bit_simps) (metis bit_0_eq bit_and_iff bot_apply)
  then have nf: "flags AND - 3 = flags" by simp
  show "mset (tt_globals t) = add_mset (sole_entry k n tv ?key flags) (mset (tt_globals s))"
    unfolding t2 using mx m2 by (simp add: sole_entry_def tt_flag_set_def tt_flag_clear_def nf)
qed

text \<open>The changes of a full table: each client once, none removed, none roaming.\<close>

definition change_key :: "batadv_tvlv_tt_change \<Rightarrow> tt_key" where
  "change_key c = (ch_addr c, ch_vid c)"

definition plain_change :: "batadv_tvlv_tt_change \<Rightarrow> bool" where
  "plain_change c \<longleftrightarrow> ch_flags c AND 1 = 0 \<and> ch_flags c AND 2 = 0"

definition sole_of :: "kenv \<Rightarrow> nat \<Rightarrow> u8 \<Rightarrow> batadv_tvlv_tt_change \<Rightarrow> batadv_tt_global_entry" where
  "sole_of k n ttvn c = sole_entry k n ttvn (change_key c) (ucast (ch_flags c))"

lemma plain_flags:
  assumes "plain_change c"
  shows "\<not> has_flag (ucast (ch_flags c)) 2" "\<not> has_flag (ucast (ch_flags c)) 0x800"
proof -
  have "(ucast (ch_flags c) :: u16) AND 2 = ucast (ch_flags c AND 2)"
    by (simp add: unsigned_and_eq)
  then show "\<not> has_flag (ucast (ch_flags c)) 2" using assms by (simp add: has_flag_def plain_change_def)
  have "(ucast (- 1 :: u8) :: u16) = 0xFF" by code_simp
  then have "(ucast (ch_flags c AND - 1) :: u16) = ucast (ch_flags c) AND 0xFF"
    by (simp only: unsigned_and_eq)
  then have "(ucast (ch_flags c) :: u16) AND 0x800 = (ucast (ch_flags c) AND 0xFF) AND 0x800" by simp
  also have "\<dots> = ucast (ch_flags c) AND (0xFF AND 0x800)" by (simp only: and.assoc)
  finally have "(ucast (ch_flags c) :: u16) AND 0x800 = 0" by simp
  then show "\<not> has_flag (ucast (ch_flags c)) 0x800" by (simp add: has_flag_def)
qed

lemma sole_of_simps [simp]:
  "tt_key (tg_common (sole_of k n tv c)) = change_key c" "tt_vid (tg_common (sole_of k n tv c)) = ch_vid c"
  "batadv_tt_global_entry_has_orig (sole_of k n tv c) m \<longleftrightarrow> m = n"
  by (auto simp: sole_of_def sole_entry_def tt_key_def change_key_def has_orig_iff)

lemma apply_sole:
  assumes "receiving k s" "orig_counts n s" "list_all plain_change cs" "distinct (map change_key cs)"
    and "list_all (\<lambda>c. batadv_tt_global_hash_find k s (ch_addr c) (ch_vid c) = None \<and>
        batadv_tt_local_hash_find k s (ch_addr c) (ch_vid c) = None) cs"
    and "tt_apply_changes k n tv cs s = (ok, t)"
  shows "ok \<and> receiving k t \<and> orig_counts n t \<and> bp_orig_hash t = bp_orig_hash s \<and>
    mset (tt_globals t) = mset (map (sole_of k n tv) cs) + mset (tt_globals s)"
  using assms
proof (induction cs arbitrary: s)
  case (Cons c cs)
  obtain ok1 u where a: "batadv_tt_global_add k n (ch_addr c) (ch_vid c) (ucast (ch_flags c)) tv s = (ok1, u)"
    by fastforce
  have c: "plain_change c" "batadv_tt_global_hash_find k s (ch_addr c) (ch_vid c) = None"
      "batadv_tt_local_hash_find k s (ch_addr c) (ch_vid c) = None"
    using Cons.prems by simp_all
  note u = add_sole [OF Cons.prems(1) c(2,3) plain_flags [OF c(1)] a]
  have g: "mset (tt_globals u) = add_mset (sole_of k n tv c) (mset (tt_globals s))"
    using u(4) by (simp add: sole_of_def change_key_def)
  have "announced n w u = announced n w s + (if w = ch_vid c then 1 else 0)" for w
    by (auto simp: announced_def g)
  then have oc: "orig_counts n u"
    using Cons.prems(1) by (intro orig_counts_step [OF Cons.prems(2) _ _ u(5)]) (auto simp: receiving_def)
  have wu: "tt_global_wf k u" and ws: "tt_global_wf k s"
    using u(2) Cons.prems(1) by (simp_all add: receiving_def tt_global_ok_def)
  have gs: "set (tt_globals u) = insert (sole_of k n tv c) (set (tt_globals s))"
    using arg_cong [OF g, of set_mset] by simp
  have "batadv_tt_global_hash_find k u (ch_addr d) (ch_vid d) = None" if d: "d \<in> set cs" for d
  proof -
    have "change_key c \<noteq> change_key d" using Cons.prems(4) d by (auto simp: image_iff)
    moreover have "\<forall>e \<in> set (tt_globals s). tt_key (tg_common e) \<noteq> (ch_addr d, ch_vid d)"
      using Cons.prems(5) d global_find_None [OF ws] by (auto simp: list_all_iff)
    ultimately show ?thesis
      unfolding global_find_None [OF wu] gs by (simp add: change_key_def)
  qed
  then have "list_all (\<lambda>c. batadv_tt_global_hash_find k u (ch_addr c) (ch_vid c) = None \<and>
        batadv_tt_local_hash_find k u (ch_addr c) (ch_vid c) = None) cs"
    using Cons.prems(5) local_find_same [OF u(3)] by (simp add: list_all_iff)
  from Cons.IH [OF u(2) oc _ _ this] show ?case
    using Cons.prems(3,4,6) a u(1,6) c(1) g by (simp add: plain_change_def)
qed simp

section \<open>Removing the clients of an originator\<close>

text \<open>The entries: every one is announced, those of the originator by it alone.\<close>

definition not_shared :: "nat \<Rightarrow> batadv_tt_global_entry \<Rightarrow> bool" where
  "not_shared n e \<longleftrightarrow> tg_orig_list e \<noteq> [] \<and> (batadv_tt_global_entry_has_orig e n \<longrightarrow> length (tg_orig_list e) = 1)"

lemma filter_map_other:
  "(\<And>x. key (f x) = key x) \<Longrightarrow> filter (\<lambda>x. key x \<noteq> a) (map (\<lambda>x. if key x = a then f x else x) xs) = filter (\<lambda>x. key x \<noteq> a) xs"
  by (induction xs) auto

lemma orig_counts_same:
  assumes "orig_counts n s" "on_vlan_list (orig_of t n) = on_vlan_list (orig_of s n)" "tt_globals t = tt_globals s"
  shows "orig_counts n t"
  using assms by (simp add: orig_counts_def num_at_def orig_vids_def announced_def batadv_orig_node_vlan_get_def)

lemma receiving_mod:
  "receiving k s \<Longrightarrow> tt_global_ok k t \<Longrightarrow> tt_local_hash (bp_tt t) = tt_local_hash (bp_tt s) \<Longrightarrow> bp_allocs t = bp_allocs s \<Longrightarrow>
   bp_bridge_loop_avoidance t = bp_bridge_loop_avoidance s \<Longrightarrow> receiving k t"
  by (simp add: receiving_def tt_local_wf_def)

lemma del_sole_step:
  assumes r: "receiving k s" and c: "orig_counts n s" and e: "e \<in> set (tt_globals s)" "not_shared n e"
  defines "t \<equiv> tt_global_del_orig_step k n None e s"
  shows "receiving k t \<and> orig_counts n t \<and> bp_orig_hash t = bp_orig_hash s \<and>
    tt_local_hash (bp_tt t) = tt_local_hash (bp_tt s) \<and>
    tt_globals t = (if batadv_tt_global_entry_has_orig e n
      then filter (\<lambda>x. tt_key (tg_common x) \<noteq> tt_key (tg_common e)) (tt_globals s) else tt_globals s)"
proof -
  let ?key = "tt_key (tg_common e)"
  have w: "tt_global_wf k s" "bp_allocs s = []" using r by (simp_all add: receiving_def tt_global_ok_def)
  have f: "batadv_tt_global_hash_find k s (fst ?key) (snd ?key) = Some e"
    using global_find_iff [OF w(1)] e(1) by simp
  show ?thesis
  proof (cases "batadv_tt_global_entry_has_orig e n")
    case False
    then have "filter (\<lambda>x. oe_orig_node x = n) (tg_orig_list e) = []"
      by (auto simp: has_orig_iff filter_empty_conv)
    then have "t = s"
      using e(2) f by (simp add: t_def tt_global_del_orig_step_def batadv_tt_global_del_orig_node_def tt_global_empty_def
          not_shared_def)
    then show ?thesis using r c False by simp
  next
    case True
    then obtain x where x: "tg_orig_list e = [x]" "oe_orig_node x = n"
      using e(2) by (auto simp: not_shared_def has_orig_iff length_Suc_conv)
    let ?u = "batadv_tt_global_size_mod n (snd ?key) (- 1) s"
    let ?f = "\<lambda>e. e\<lparr>tg_orig_list := remove1 x (tg_orig_list e), tg_orig_list_count := tg_orig_list_count e - 1\<rparr>"
    let ?m = "tt_global_mod ?key ?f ?u"
    let ?t = "tt_mod (tt_global_hash_update (map_option (hash_filter (\<lambda>x. tt_key (tg_common x) \<noteq> ?key)))) ?m"
    have gu: "tt_globals ?u = tt_globals s" "tt_global_wf k ?u"
      using w(1) by (simp_all add: tt_globals_def tt_global_wf_def size_mod_tt)
    have d: "batadv_tt_global_del_orig_node k ?key n s = ?m"
      by (simp add: batadv_tt_global_del_orig_node_def f x do_tt_global_del_orig_entry_def batadv_tt_global_size_dec_def)
    have fm: "batadv_tt_global_hash_find k ?m (fst ?key) (snd ?key) = Some (?f e)"
      using global_find_mod [OF gu(2), of ?f ?key] global_find_same [of ?u s k "fst ?key" "snd ?key"] f
      by (simp add: size_mod_tt)
    have t: "t = ?t"
      using fm x(1) by (simp add: t_def tt_global_del_orig_step_def d tt_global_empty_def Let_def)
    have wm: "tt_global_wf k ?m" by (rule global_wf_mod [OF _ gu(2)]) simp
    have g: "tt_globals ?t = filter (\<lambda>x. tt_key (tg_common x) \<noteq> ?key) (tt_globals s)"
      using global_filter_globals(1) [OF wm] filter_map_other [of "\<lambda>x. tt_key (tg_common x)" ?f ?key "tt_globals s"]
      by (simp add: global_mod_globals gu(1))
    have "tt_global_ok k t"
      using r unfolding t_def tt_global_del_orig_step_def Let_def receiving_def
      by (auto intro!: glob.entry_filter glob.del_orig_node)
    then have "receiving k t"
      using receiving_mod [OF r, of t] w(2) unfolding t
      by (simp add: tt_mod_simps tt_mod_def tt_global_mod_def size_mod_orig orig_mod_def)
    moreover have "orig_counts n t"
    proof (rule orig_counts_step [OF c w(2), of "- 1"])
      show "orig_of t n = orig_of (batadv_tt_global_size_mod n (snd ?key) (- 1) s) n"
        unfolding t by (simp add: tt_mod_def tt_global_mod_def)
      show "int (announced n v t) = int (announced n v s) + (if v = snd ?key then - 1 else 0)" for v
      proof -
        obtain M where m: "mset (tt_globals s) = add_mset e M" "mset (tt_globals t) = M"
          using mset_globals_change(1) [OF w(1) e(1)] unfolding t g by blast
        show ?thesis using True unfolding announced_def m by (auto simp: tt_key_def)
      qed
    qed simp
    ultimately show ?thesis
      using g True unfolding t by (simp add: tt_mod_def tt_global_mod_def size_mod_tt size_mod_frame)
  qed
qed

lemma del_sole:
  assumes "receiving k s" "orig_counts n s" "list_all (not_shared n) es" "\<forall>e \<in> set es. e \<in> set (tt_globals s)"
    "distinct (map (\<lambda>e. tt_key (tg_common e)) es)"
  shows "receiving k (fold (tt_global_del_orig_step k n None) es s) \<and>
    orig_counts n (fold (tt_global_del_orig_step k n None) es s) \<and>
    bp_orig_hash (fold (tt_global_del_orig_step k n None) es s) = bp_orig_hash s \<and>
    tt_local_hash (bp_tt (fold (tt_global_del_orig_step k n None) es s)) = tt_local_hash (bp_tt s) \<and>
    tt_globals (fold (tt_global_del_orig_step k n None) es s)
      = filter (\<lambda>x. \<not> (batadv_tt_global_entry_has_orig x n \<and> x \<in> set es)) (tt_globals s)"
  using assms
proof (induction es arbitrary: s)
  case (Cons e es)
  let ?t = "tt_global_del_orig_step k n None e s"
  let ?key = "tt_key (tg_common e)"
  have e: "e \<in> set (tt_globals s)" "not_shared n e" using Cons.prems by simp_all
  note st = del_sole_step [OF Cons.prems(1,2) e]
  have ne: "tt_key (tg_common x) \<noteq> ?key" if "x \<in> set es" for x
    using that Cons.prems(5) by (auto simp: image_iff)
  have sub: "\<forall>x \<in> set es. x \<in> set (tt_globals ?t)"
    using st Cons.prems(4) ne by auto
  have "distinct (map (\<lambda>e. tt_key (tg_common e)) (tt_globals s))"
    by (rule global_keys_distinct [where k = k]) (use Cons.prems(1) in \<open>simp add: receiving_def tt_global_ok_def\<close>)
  then have key: "x = e" if "x \<in> set (tt_globals s)" "tt_key (tg_common x) = ?key" for x
    using that e(1) by (auto simp: distinct_map dest: inj_onD)
  have "filter (\<lambda>x. \<not> (batadv_tt_global_entry_has_orig x n \<and> x \<in> set es)) (tt_globals ?t)
      = filter (\<lambda>x. \<not> (batadv_tt_global_entry_has_orig x n \<and> x \<in> set (e # es))) (tt_globals s)"
    using st key by (auto intro!: filter_cong)
  then show ?case
    using Cons.IH [of ?t] st sub Cons.prems(3,5) by simp
qed (simp add: filter_True)

lemma del_orig_sole:
  assumes "receiving k s" "orig_counts n s" "list_all (not_shared n) (tt_globals s)"
  defines "t \<equiv> batadv_tt_global_del_orig k n None s"
  shows "receiving k t \<and> orig_counts n t \<and> bp_orig_hash t = bp_orig_hash s \<and>
    tt_local_hash (bp_tt t) = tt_local_hash (bp_tt s) \<and>
    tt_globals t = filter (\<lambda>x. \<not> batadv_tt_global_entry_has_orig x n) (tt_globals s)"
proof -
  let ?u = "fold (tt_global_del_orig_step k n None) (tt_globals s) s"
  have w: "tt_global_wf k s" using assms(1) by (simp add: receiving_def tt_global_ok_def)
  note d = del_sole [OF assms(1-3) _ global_keys_distinct [OF w]]
  have t: "t = orig_mod n (\<lambda>n. n\<lparr>on_capa_initialized := unset_bit BATADV_ORIG_CAPA_HAS_TT (on_capa_initialized n)\<rparr>) ?u"
    using w by (auto simp: t_def batadv_tt_global_del_orig_def tt_global_wf_def)
  have g: "tt_globals t = tt_globals ?u" by (simp add: t orig_mod_def tt_globals_def)
  have "tt_global_ok k t" using glob.global_del_orig assms(1) unfolding t_def receiving_def by blast
  then have "receiving k t"
    using receiving_mod [of k ?u t] d unfolding t by (simp add: orig_mod_def)
  moreover have "orig_counts n t"
    using d by (intro orig_counts_same [of n ?u t]) (simp_all add: g, simp add: t orig_mod_def)
  moreover have "filter (\<lambda>x. \<not> (batadv_tt_global_entry_has_orig x n \<and> x \<in> set (tt_globals s))) (tt_globals s)
      = filter (\<lambda>x. \<not> batadv_tt_global_entry_has_orig x n) (tt_globals s)"
    by (rule filter_cong) auto
  ultimately show ?thesis
    using d g unfolding t by (simp add: orig_mod_def)
qed

section \<open>Checksums\<close>

definition crc_sum :: "('a \<Rightarrow> u32) \<Rightarrow> 'a list \<Rightarrow> u32" where
  "crc_sum f xs = fold (\<lambda>x crc. crc XOR f x) xs 0"

lemma crc_sum_mset: "mset xs = mset ys \<Longrightarrow> crc_sum f xs = crc_sum f ys"
  unfolding crc_sum_def by (rule fun_cong [OF fold_multiset_equiv]) (auto simp: fun_eq_iff ac_simps)

lemma crc_sum_map: "crc_sum f (map g xs) = crc_sum (\<lambda>x. f (g x)) xs"
  by (simp add: crc_sum_def fold_map comp_def)

lemma crc_sum_cong: "(\<And>x. x \<in> set xs \<Longrightarrow> f x = g x) \<Longrightarrow> crc_sum f xs = crc_sum g xs"
  unfolding crc_sum_def by (rule fold_cong) simp_all

lemma fold_skip:
  "fold (\<lambda>x crc. if \<not> p x then crc else if \<not> q x then crc else crc XOR f x) xs (a :: u32)
    = fold (\<lambda>x crc. crc XOR f x) (filter (\<lambda>x. p x \<and> q x) xs) a"
  by (induction xs arbitrary: a) auto

lemma global_crc_sum:
  "batadv_tt_global_crc k n vid s =
    crc_sum (\<lambda>e. tt_crc_of k (tg_common e)) (filter (\<lambda>e. tt_vid (tg_common e) = vid \<and> tt_counts_for_crc n e) (tt_globals s))"
  unfolding batadv_tt_global_crc_def crc_sum_def by (rule fold_skip)

lemma local_crc_sum:
  "batadv_tt_local_crc k vid s =
    crc_sum (\<lambda>e. tt_crc_of k (tl_common e)) (filter (\<lambda>e. tt_vid (tl_common e) = vid \<and> batadv_tt_local_valid e) (tt_locals s))"
  unfolding batadv_tt_local_crc_def crc_sum_def
  using fold_skip [where p = "\<lambda>e. tt_vid (tl_common e) = vid" and q = batadv_tt_local_valid and
    f = "\<lambda>e. tt_crc_of k (tl_common e)" and xs = "tt_locals s" and a = 0]
  by (simp only: batadv_tt_local_valid_def not_not)

definition change_crc :: "kenv \<Rightarrow> batadv_tvlv_tt_change \<Rightarrow> u32" where
  "change_crc k c = (let crc_tmp = k_crc32c k 0 (be_bytes 2 (ch_vid c));
     crc_tmp = k_crc32c k crc_tmp [ch_flags c AND 0xF0] in k_crc32c k crc_tmp (mac_bytes (ch_addr c)))"

lemma u8_u16_u8: "ucast (ucast (x :: u8) :: u16) = x"
  by (rule bit_word_eqI) (auto simp: bit_simps)

lemma crc_sole: "tt_crc_of k (tg_common (sole_of k n tv c)) = change_crc k c"
proof -
  have "(ucast ((ucast (ch_flags c) :: u16) AND 0xF0) :: u8) = ch_flags c AND 0xF0"
    by (simp add: unsigned_and_eq u8_u16_u8)
  then show ?thesis
    by (simp add: tt_crc_of_def change_crc_def sole_of_def sole_entry_def change_key_def Let_def)
qed

lemma crc_change_of: "change_crc k (tt_change_of c) = tt_crc_of k c"
  by (simp add: tt_crc_of_def change_crc_def tt_change_of_def Let_def unsigned_and_eq)

lemma counts_sole: "plain_change c \<Longrightarrow> tt_counts_for_crc m (sole_of k n tv c) \<longleftrightarrow> m = n"
  using plain_flags [of c]
  by (simp add: tt_counts_for_crc_def) (simp add: sole_of_def sole_entry_def)

text \<open>The checksum of a receiver whose entries of the originator are those of the changes.\<close>

lemma received_crc:
  assumes "mset (tt_globals s) = mset (map (sole_of k n tv) cs) + mset others"
    and "list_all (\<lambda>e. \<not> batadv_tt_global_entry_has_orig e n) others" "list_all plain_change cs"
  shows "batadv_tt_global_crc k n vid s = crc_sum (change_crc k) (filter (\<lambda>c. ch_vid c = vid) cs)"
proof -
  let ?p = "\<lambda>e. tt_vid (tg_common e) = vid \<and> tt_counts_for_crc n e"
  have o: "filter ?p others = []"
    using assms(2) by (auto simp: filter_empty_conv list_all_iff tt_counts_for_crc_def)
  have "mset (filter ?p (tt_globals s)) = mset (filter ?p (map (sole_of k n tv) cs))"
    using arg_cong [OF o, of mset] by (simp add: assms(1))
  also have "filter ?p (map (sole_of k n tv) cs) = map (sole_of k n tv) (filter (\<lambda>c. ch_vid c = vid) cs)"
    using assms(3) by (induction cs) (auto simp: counts_sole)
  finally have "batadv_tt_global_crc k n vid s = crc_sum (\<lambda>e. tt_crc_of k (tg_common e))
      (map (sole_of k n tv) (filter (\<lambda>c. ch_vid c = vid) cs))"
    unfolding global_crc_sum by (rule crc_sum_mset)
  then show ?thesis by (simp add: crc_sum_map crc_sole)
qed

section \<open>What the receiver makes of a full table\<close>

lemma fill_sole:
  fixes tv :: u8
  assumes r: "receiving k s" "orig_counts n s" "list_all (not_shared n) (tt_globals s)"
    and f: "batadv_orig_hash_find k s src = Some n"
    and cs: "list_all plain_change cs" "distinct (map change_key cs)"
    and free: "list_all (\<lambda>c. batadv_tt_local_hash_find k s (ch_addr c) (ch_vid c) = None \<and>
      list_all (\<lambda>e. tt_key (tg_common e) = change_key c \<longrightarrow> batadv_tt_global_entry_has_orig e n) (tt_globals s)) cs"
  defines "t \<equiv> batadv_tt_fill_gtable k cs tv src s"
  shows "receiving k t \<and> orig_counts n t \<and> bp_orig_hash t = bp_orig_hash s \<and>
    mset (tt_globals t) = mset (map (sole_of k n tv) cs) +
      mset (filter (\<lambda>x. \<not> batadv_tt_global_entry_has_orig x n) (tt_globals s))"
proof -
  let ?d = "batadv_tt_global_del_orig k n None s"
  note d = del_orig_sole [OF r]
  have wd: "tt_global_wf k ?d" using d by (simp add: receiving_def tt_global_ok_def)
  obtain ok u where a: "tt_apply_changes k n tv cs ?d = (ok, u)" by fastforce
  have "batadv_tt_global_hash_find k ?d (ch_addr c) (ch_vid c) = None" if "c \<in> set cs" for c
    unfolding global_find_None [OF wd] using d free that by (auto simp: list_all_iff change_key_def)
  moreover have ld: "tt_local_hash (bp_tt ?d) = tt_local_hash (bp_tt s)" using d by blast
  moreover have "batadv_tt_local_hash_find k ?d (ch_addr c) (ch_vid c) = None" if "c \<in> set cs" for c
    using free that unfolding local_find_same [OF ld] by (simp add: list_all_iff)
  ultimately have fr: "list_all (\<lambda>c. batadv_tt_global_hash_find k ?d (ch_addr c) (ch_vid c) = None \<and>
      batadv_tt_local_hash_find k ?d (ch_addr c) (ch_vid c) = None) cs"
    by (simp add: list_all_iff)
  have rd: "receiving k ?d" "orig_counts n ?d" using d by blast+
  note ap = apply_sole [OF rd cs fr a]
  have t: "t = orig_mod n (\<lambda>n. n\<lparr>on_tt_buff_len := 0, on_tt_buff := None, on_last_ttvn := tv\<rparr>)
      (orig_mod n (\<lambda>n. n\<lparr>on_capa_initialized := set_bit BATADV_ORIG_CAPA_HAS_TT (on_capa_initialized n)\<rparr>) u)"
    using ap by (simp add: t_def batadv_tt_fill_gtable_def f do_tt_update_changes_def a)
  have g: "tt_globals t = tt_globals u" by (simp add: t orig_mod_def tt_globals_def)
  have "tt_global_ok k t" using glob.fill_gtable r(1) unfolding t_def receiving_def by blast
  then have "receiving k t"
    using receiving_mod [of k u t] ap unfolding t by (simp add: orig_mod_def)
  moreover have "orig_counts n t"
    using ap by (intro orig_counts_same [of n u t]) (simp_all add: g, simp add: t orig_mod_def)
  ultimately show ?thesis
    using ap d g unfolding t by (simp add: orig_mod_def)
qed

lemma received_match:
  assumes r: "receiving k s" "orig_counts n s"
    and g: "mset (tt_globals s) = mset (map (sole_of k n tv) cs) + mset others"
      "list_all (\<lambda>e. \<not> batadv_tt_global_entry_has_orig e n) others" "list_all plain_change cs"
    and v: "list_all (\<lambda>v. list_ex (\<lambda>c. ch_vid c = tv_vid v) cs \<and>
        tv_crc v = crc_sum (change_crc k) (filter (\<lambda>c. ch_vid c = tv_vid v) cs)) vlans"
      "list_all (\<lambda>c. ch_vid c \<in> tv_vid ` set vlans) cs"
  shows "batadv_tt_global_check_crc k n vlans (batadv_tt_global_update_crc k n s)"
proof -
  let ?t = "batadv_tt_global_update_crc k n s"
  let ?f = "\<lambda>v. v\<lparr>ov_crc := batadv_tt_global_crc k n (ov_vid v) s\<rparr>"
  have l: "on_vlan_list (orig_of ?t n) = map ?f (on_vlan_list (orig_of s n))"
    using receiving_not_backbone [OF r(1)] by (simp add: batadv_tt_global_update_crc_def orig_mod_def)
  have ann: "announced n w s = length (filter (\<lambda>c. ch_vid c = w) cs)" for w
  proof -
    have "filter (\<lambda>e. batadv_tt_global_entry_has_orig e n \<and> tt_vid (tg_common e) = w) others = []"
      using g(2) by (auto simp: filter_empty_conv list_all_iff)
    from arg_cong [OF this, of mset] have o: "{#e \<in># mset others. batadv_tt_global_entry_has_orig e n \<and> tt_vid (tg_common e) = w#} = {#}"
      by simp
    have "{#e \<in># mset (map (sole_of k n tv) cs). batadv_tt_global_entry_has_orig e n \<and> tt_vid (tg_common e) = w#}
        = image_mset (sole_of k n tv) {#c \<in># mset cs. ch_vid c = w#}"
      by (induction cs) auto
    then show ?thesis
      using o unfolding announced_def g(1) by (simp flip: size_mset)
  qed
  have crc: "batadv_tt_global_crc k n w s = crc_sum (change_crc k) (filter (\<lambda>c. ch_vid c = w) cs)" for w
    by (rule received_crc [OF g])
  have find: "find (\<lambda>x. ov_vid x = w) (map ?f xs) = map_option ?f (find (\<lambda>x. ov_vid x = w) xs)" for w xs
    by (induction xs) auto
  have "tt_vlans_match k n vlans ?t"
    unfolding tt_vlans_match_def list_all_iff
  proof
    fix v assume v': "v \<in> set vlans"
    then have "0 < announced n (tv_vid v) s"
      using v(1) unfolding ann by (auto simp: list_all_iff list_ex_iff filter_empty_conv)
    then have "tv_vid v \<in> set (orig_vids s n)" using r(2) by (simp add: orig_counts_def)
    then obtain x where x: "batadv_orig_node_vlan_get (orig_of s n) (tv_vid v) = Some x"
      using vlan_get_None [of s n "tv_vid v"] by auto
    then have "ov_vid x = tv_vid v"
      by (auto simp: batadv_orig_node_vlan_get_def find_Some_iff)
    moreover have "batadv_orig_node_vlan_get (orig_of ?t n) (tv_vid v) = Some (?f x)"
      using x unfolding batadv_orig_node_vlan_get_def l find by simp
    ultimately show "tt_is_backbone k ?t n (tv_vid v) \<or>
        (case batadv_orig_node_vlan_get (orig_of ?t n) (tv_vid v) of None \<Rightarrow> False | Some vlan \<Rightarrow> ov_crc vlan = tv_crc v)"
      using v(1) v' by (simp add: crc list_all_iff)
  qed
  moreover have "length (on_vlan_list (orig_of ?t n)) \<le> length vlans"
  proof -
    have "set (orig_vids s n) \<subseteq> tv_vid ` set vlans"
    proof
      fix w assume "w \<in> set (orig_vids s n)"
      then have "0 < announced n w s" using r(2) by (simp add: orig_counts_def)
      then obtain c where "c \<in> set cs" "ch_vid c = w" unfolding ann by (auto simp: filter_empty_conv)
      then show "w \<in> tv_vid ` set vlans" using v(2) by (auto simp: list_all_iff)
    qed
    then have "card (set (orig_vids s n)) \<le> card (tv_vid ` set vlans)" by (simp add: card_mono)
    also have "\<dots> \<le> length vlans" by (metis card_length list.set_map length_map)
    finally have "length (orig_vids s n) \<le> length vlans"
      using r(2) distinct_card [of "orig_vids s n"] by (simp add: orig_counts_def)
    then show ?thesis by (simp add: l orig_vids_def)
  qed
  ultimately show ?thesis unfolding batadv_tt_global_check_crc_def by blast
qed

section \<open>The message\<close>

lemma length_tt_bytes [simp]: "length (tt_change_bytes c) = 12" "length (tt_vlan_bytes v) = 8" "length (tt_data_bytes d) = 4"
  by (simp_all add: tt_change_bytes_def tt_vlan_bytes_def tt_data_bytes_def)

lemma length_concat_bytes [simp]:
  "length (concat (map tt_change_bytes cs)) = 12 * length cs" "length (concat (map tt_vlan_bytes vl)) = 8 * length vl"
  by (induction cs) (simp_all, induction vl, simp_all)

lemma tt_change_at_bytes: "tt_change_at (tt_change_bytes c @ rest) 0 = c"
  by (simp add: tt_change_at_def tt_change_bytes_def be_word_bytes Let_def)

lemma tt_change_at_concat:
  "i < length cs \<Longrightarrow> tt_change_at (concat (map tt_change_bytes cs)) i = cs ! i"
proof (induction cs arbitrary: i)
  case (Cons c cs)
  show ?case
  proof (cases i)
    case 0
    then show ?thesis by (simp add: tt_change_at_bytes)
  next
    case (Suc j)
    have "tt_change_at (tt_change_bytes c @ bs) (Suc j) = tt_change_at bs j" for bs
      by (simp add: tt_change_at_def)
    then show ?thesis using Cons Suc by simp
  qed
qed simp

lemma tt_changes_at_concat:
  "length cs < 65536 \<Longrightarrow> tt_changes_at (concat (map tt_change_bytes cs)) (of_nat (length cs)) = cs"
  by (rule nth_equalityI) (simp_all add: tt_changes_at_def unat_of_nat tt_change_at_concat)

lemma tt_data_at_bytes: "tt_data_at (tt_data_bytes d @ rest) = d"
  by (simp add: tt_data_at_def tt_data_bytes_def be_word_bytes)

text \<open>A response with the full table is taken apart as it was put together.\<close>

lemma handler_response:
  assumes "td_flags d = 20" "td_num_vlan d = of_nat (length vl)" "4 + 8 * length vl + 12 * length cs < 65536"
    and "batadv_is_my_mac s dst"
  shows "batadv_tt_tvlv_unicast_handler_v1 k src dst
      (tt_data_bytes d @ concat (map tt_vlan_bytes vl) @ concat (map tt_change_bytes cs)) s
    = (0, batadv_handle_tt_response k d (concat (map tt_change_bytes cs)) src (of_nat (length cs)) s)"
proof -
  have nv: "unat (8 * (of_nat (length vl)) :: u16) = 8 * length vl"
    using assms(3) by (simp add: unat_word_ariths unat_of_nat)
  have "unat (12 * of_nat (length cs) :: u16) = 12 * length cs"
    using assms(3) by (simp add: unat_word_ariths unat_of_nat)
  then have ne: "batadv_tt_entries (of_nat (12 * length cs)) = of_nat (length cs)"
    using assms(3) by (simp add: batadv_tt_entries_def unat_eq_unat_iff [symmetric] unat_div unat_of_nat)
  show ?thesis
    using assms nv ne
    by (simp add: batadv_tt_tvlv_unicast_handler_v1_def tt_data_at_bytes Let_def)
qed

section \<open>What the owner of the clients sends\<close>

definition tt_valid_changes :: "batadv_priv \<Rightarrow> batadv_tvlv_tt_change list" where
  "tt_valid_changes s = map (\<lambda>e. tt_change_of (tl_common e)) (filter batadv_tt_local_valid (tt_locals s))"

definition tt_vlan_data :: "batadv_priv \<Rightarrow> batadv_tvlv_tt_vlan_data list" where
  "tt_vlan_data s = map (\<lambda>v. \<lparr>tv_crc = sv_crc v, tv_vid = sv_vid v, tv_reserved = be_word [bp_stray s, bp_stray s]\<rparr>)
     (bp_softif_vlan_list s)"

lemma size_partition:
  assumes "distinct vs" "\<forall>x \<in># M. f x \<in> set vs"
  shows "sum_list (map (\<lambda>v. size {#x \<in># M. f x = v#}) vs) = size M"
  using assms(2)
proof (induction M)
  case (add x M)
  have "sum_list (map (\<lambda>v. size {#y \<in># add_mset x M. f y = v#}) vs)
      = sum_list (map (\<lambda>v. (if v = f x then 1 else 0) + size {#y \<in># M. f y = v#}) vs)"
    by (rule arg_cong [where f = sum_list]) auto
  also have "\<dots> = sum_list (map (\<lambda>v. if v = f x then 1 else 0) vs) + size M"
    using add by (simp add: sum_list_addf)
  also have "sum_list (map (\<lambda>v. if v = f x then 1 else 0) vs) = (1 :: nat)"
    using assms(1) add.prems by (simp add: sum_list_map_eq_sum_count2 sum.delta' distinct_count_atmost_1
        sum_list_distinct_conv_sum_set)
  finally show ?case by simp
qed simp

lemma local_vlan_of:
  assumes inv: "tt_local_inv k (\<lambda>_. 0) s" and v: "v \<in> set (bp_softif_vlan_list s)"
  shows "vlan_of s (sv_vid v) = Some v"
proof -
  obtain u where u: "find (\<lambda>x. sv_vid x = sv_vid v) (bp_softif_vlan_list s) = Some u"
    using v by (cases "find (\<lambda>x. sv_vid x = sv_vid v) (bp_softif_vlan_list s)") (auto simp: find_None_iff)
  then have "u \<in> set (bp_softif_vlan_list s)" "sv_vid u = sv_vid v" by (auto simp: find_Some_iff)
  then have "u = v"
    using v inv_parts(2) [OF inv] by (auto simp: vids_distinct_def distinct_map dest: inj_onD)
  then show ?thesis using u by (simp add: vlan_of_def)
qed

lemma clients_have_vlan:
  assumes inv: "tt_local_inv k (\<lambda>_. 0) s" and "e \<in> set (tt_locals s)"
  shows "tt_vid (tl_common e) \<in> sv_vid ` set (bp_softif_vlan_list s)"
proof -
  have "e \<in># {#x \<in># mset (tt_locals s). tt_vid (tl_common x) = tt_vid (tl_common e)#}"
    using assms(2) by simp
  then have "clients (tt_vid (tl_common e)) s \<noteq> 0" unfolding clients_def by auto
  then have "vlan_of s (tt_vid (tl_common e)) \<noteq> None"
    using vlan_counts_None(1) [OF inv_parts(3) [OF inv], of "tt_vid (tl_common e)"] by argo
  then show ?thesis
    unfolding vlan_of_def find_None_iff by (metis image_eqI)
qed

lemma committed_client:
  assumes "0 < committed w s"
  shows "\<exists>e \<in> set (tt_locals s). tt_vid (tl_common e) = w \<and> batadv_tt_local_valid e"
proof (rule ccontr)
  assume n: "\<not> ?thesis"
  have "{#e \<in># mset (tt_locals s). tt_vid (tl_common e) = w \<and>
      \<not> has_flag (tt_flags (tl_common e)) BATADV_TT_CLIENT_NEW#} = {#}"
    using n by (auto simp: filter_mset_eq_mempty_iff batadv_tt_local_valid_def)
  then show False using assms by (simp only: committed_def size_empty less_irrefl)
qed

text \<open>The counters of the VLANs add up to the number of announced clients.\<close>

lemma num_entries_valid:
  assumes inv: "tt_local_inv k (\<lambda>_. 0) s"
  shows "tt_num_entries (map sv_num_entries (bp_softif_vlan_list s)) = of_nat (length (tt_valid_changes s))"
proof -
  let ?M = "mset (filter batadv_tt_local_valid (tt_locals s))"
  let ?vs = "map sv_vid (bp_softif_vlan_list s)"
  have f: "fold (\<lambda>n acc. acc + of_int n) ns (a :: u16) = a + of_int (sum_list ns)" for ns :: "int list" and a
    by (induction ns arbitrary: a) (simp_all add: algebra_simps)
  have c: "committed w s = size {#e \<in># ?M. tt_vid (tl_common e) = w#}" for w
    unfolding committed_def by (simp add: filter_filter_mset batadv_tt_local_valid_def conj_commute)
  note vl = local_vlan_of [OF inv]
  have "\<forall>e \<in># ?M. tt_vid (tl_common e) \<in> set ?vs"
    using clients_have_vlan [OF inv] by simp
  then have "sum_list (map (\<lambda>v. size {#e \<in># ?M. tt_vid (tl_common e) = v#}) ?vs) = size ?M"
    by (rule size_partition [where f = "\<lambda>e. tt_vid (tl_common e)", OF inv_parts(2) [OF inv, unfolded vids_distinct_def]])
  then have p: "sum_list (map (\<lambda>w. committed w s) ?vs) = size ?M"
    by (simp only: c)
  have m: "map sv_num_entries (bp_softif_vlan_list s) = map (\<lambda>w. int (committed w s)) ?vs"
    using vlan_counts_at(1) [OF inv_parts(3) [OF inv] vl] by simp
  have "sum_list (map (\<lambda>w. int (committed w s)) ws) = int (sum_list (map (\<lambda>w. committed w s) ws))" for ws
    by (induction ws) simp_all
  then have t: "sum_list (map sv_num_entries (bp_softif_vlan_list s)) = int (size ?M)"
    by (simp only: m p)
  show ?thesis
    unfolding tt_num_entries_def f t size_mset by (simp add: tt_valid_changes_def)
qed

text \<open>The body of the message that answers a request for the full table.\<close>

definition full_table_body :: "batadv_priv \<Rightarrow> u8 list" where
  "full_table_body s =
     tt_data_bytes \<lparr>td_flags = 20, td_ttvn = ucast (tt_vn (bp_tt s)), td_num_vlan = of_nat (length (tt_vlan_data s))\<rparr> @
     concat (map tt_vlan_bytes (tt_vlan_data s)) @ concat (map tt_change_bytes (tt_valid_changes s))"

lemma full_table_sent:
  assumes inv: "tt_local_inv k (\<lambda>_. 0) s" and a: "bp_allocs s = []"
    and o: "batadv_orig_hash_find k s asker = Some d" and i: "bp_primary_if s = Some i"
    and sz: "4 + 8 * length (bp_softif_vlan_list s) + 12 * length (tt_valid_changes s) < 65536" "tt_valid_changes s \<noteq> []"
    and req: "td_flags req AND 16 \<noteq> 0"
  shows "\<exists>h. batadv_send_my_tt_response k req asker s =
    (True, call (Send_Skb_To_Orig (h @ full_table_body s) d None) s)"
proof -
  let ?n = "length (tt_valid_changes s)"
  let ?nv = "length (bp_softif_vlan_list s)"
  let ?len = "of_nat (4 + 8 * ?nv + 12 * ?n) :: u16"
  let ?d = "\<lparr>td_flags = 0, td_ttvn = ucast (tt_vn (bp_tt s)), td_num_vlan = of_nat ?nv\<rparr>"
  have un: "unat (of_nat ?n :: u16) = ?n" using sz by (simp add: unat_of_nat)
  have ui: "uint (of_nat ?n :: u16) = int ?n" using un by (simp add: uint_nat)
  have ul: "unat ?len = 4 + 8 * ?nv + 12 * ?n" using sz by (simp add: unat_of_nat del: of_nat_add of_nat_mult)
  have kz: "kzalloc s = (True, s)" using a by (simp add: kzalloc_eq)
  have p: "batadv_tt_prepare_tvlv_local_data (- 1) s = (?len, 12 * int ?n, Some (?d, tt_vlan_data s), s)"
    by (simp add: batadv_tt_prepare_tvlv_local_data_def tt_prepare_def num_entries_valid [OF inv] kz Let_def ui
        batadv_tt_len_def tt_vlan_data_def comp_def algebra_simps)
  have e: "unat (batadv_tt_entries (of_int (12 * int ?n))) = ?n"
    using sz(1) by (simp add: batadv_tt_entries_def unat_div unat_word_ariths unat_of_nat)
  have "batadv_tt_tvlv_generate tl_common (tt_locals s) (of_int (12 * int ?n)) batadv_tt_local_valid = tt_valid_changes s"
    unfolding batadv_tt_tvlv_generate_def e by (simp add: tt_valid_changes_def)
  then have g: "batadv_tt_tvlv_generate tl_common (tt_locals s) (12 * of_nat ?n) batadv_tt_local_valid = tt_valid_changes s"
    by simp
  have nv: "length (tt_vlan_data s) = ?nv" by (simp add: tt_vlan_data_def)
  have lb: "length (full_table_body s) = unat ?len"
    unfolding ul by (simp add: full_table_body_def nv)
  have m: "tt_message ?len \<lparr>td_flags = 20, td_ttvn = ucast (tt_vn (bp_tt s)), td_num_vlan = of_nat ?nv\<rparr> (tt_vlan_data s)
      (concat (map tt_change_bytes (tt_valid_changes s))) s = (full_table_body s, s)"
    using lb by (simp add: tt_message_def full_table_body_def Let_def nv del: of_nat_add of_nat_mult)
  have u: "\<exists>h. batadv_tvlv_unicast_send k src asker t v (full_table_body s) ?len s
      = call (Send_Skb_To_Orig (h @ full_table_body s) d None) s" for src t v
    unfolding batadv_tvlv_unicast_send_def o option.case Let_def kz prod.case lb [symmetric]
    by (simp del: of_nat_add of_nat_mult) (metis append.assoc)
  show ?thesis
    unfolding batadv_send_my_tt_response_def o i prod.case option.case Let_def
    using req sz(2) by (simp add: p g m u del: of_nat_add of_nat_mult)
qed

end
