(* ===== verification/Tt_Properties.thy ===== *)
theory Tt_Properties
  imports Tt_Transfer Iv_Properties
begin

text \<open>
  The properties of the translation table: what both tables keep in every reachable state,
  what a full table carries from one node to another, and what goes wrong at the edges.
\<close>

section \<open>Invariants\<close>

text \<open>C9: While the mesh is up, whatever clients, VLANs and messages come and go, and as long as the table is not
  shrunk to a new MTU while a client waits to be announced (\<open>tt_reachable\<close> with \<open>calm\<close>): a client is in the local table
  once, a VLAN of the soft interface, tagged or not, counts exactly the clients that were announced, holds one
  reference for every client and one for the interface, and a VLAN that is not in the list has no clients.
  Without the condition the code counts wrongly, which \<open>shrink_miscounts\<close> shows.\<close>

theorem local_clients_counted:
  assumes "tt_reachable k True s"
  shows "distinct (map (\<lambda>e. tt_key (tl_common e)) (tt_locals s)) \<and>
    (case vlan_of s w of
       None \<Rightarrow> clients w s = 0
     | Some v \<Rightarrow> sv_num_entries v = int (committed w s) \<and> sv_refcount v = clients w s + (if sv_kobj v then 1 else 0))"
proof -
  have i: "tt_local_inv k (\<lambda>_. 0) s"
    using tables_reachable [OF assms] by (simp add: tt_tables_ok_def)
  show ?thesis
    using local_keys_distinct [OF inv_parts(1) [OF i]] vlan_counts_None(1) [OF inv_parts(3) [OF i], of w]
      vlan_counts_at [OF inv_parts(3) [OF i], of w]
    by (auto split: option.split)
qed

definition tt_example :: batadv_priv where
  "tt_example = snd (batadv_tt_init (tvlv_example [] []))"

lemma tt_example_initial: "tt_initial tt_example"
  unfolding tt_initial_def
proof (intro exI conjI)
  show "batadv_tt_init (tvlv_example [] []) = (1, tt_example)"
    by (simp add: tt_example_def batadv_tt_init_def batadv_tt_local_init_def batadv_tt_global_init_def kzalloc_eq
        tt_mod_simps batadv_hash_new_def tvlv_example_def Let_def tt_mod_def)
qed (simp_all add: tvlv_example_def)

text \<open>The interface is registered, a VLAN is added to it, and the changes are committed.\<close>

definition tt_example_vlan :: batadv_priv where
  "tt_example_vlan = batadv_tt_local_commit_changes kenv_example id
     (snd (batadv_interface_add_vid kenv_example 0 True 1 (snd (batadv_softif_create_vlan kenv_example 0 BATADV_NO_FLAGS tt_example))))"

lemma tt_example_vlan_reachable: "tt_reachable kenv_example calm tt_example_vlan"
proof -
  let ?u = "snd (batadv_softif_create_vlan kenv_example 0 BATADV_NO_FLAGS tt_example)"
  let ?s = "snd (batadv_interface_add_vid kenv_example 0 True 1 ?u)"
  have n: "vlan_of ?u (1 OR 0x8000) = None"
    by code_simp
  have "tt_reachable kenv_example calm tt_example"
    using tt_example_initial unfolding tt_reachable_def by blast
  then have "tt_reachable kenv_example calm ?u"
    by (rule reachable_then) (rule tt_step.untagged [OF _ surjective_pairing], simp add: same_hash_def)
  then have "tt_reachable kenv_example calm ?s"
    by (rule reachable_then) (rule tt_step.vlan [OF _ _ surjective_pairing], use n in \<open>simp_all add: same_hash_def\<close>)
  then have "tt_reachable kenv_example calm (batadv_tt_local_commit_changes kenv_example (mla_updates kenv_example []) ?s)"
    by (rule reachable_then) (rule tt_step.commit, simp add: same_hash_def)
  then show ?thesis
    by (simp add: tt_example_vlan_def mla_updates_def id_def [symmetric])
qed

lemma tt_example_vlan_of:
  "vlan_of tt_example_vlan 0x8001 =
    Some \<lparr>sv_vid = 0x8001, sv_kobj = True, sv_ap_isolation = False, sv_crc = 354078, sv_num_entries = 1, sv_refcount = 2\<rparr>"
  "vlan_of tt_example_vlan 0 =
    Some \<lparr>sv_vid = 0, sv_kobj = True, sv_ap_isolation = False, sv_crc = 353181, sv_num_entries = 1, sv_refcount = 2\<rparr>"
  by code_simp+

theorem local_clients_counted_witness:
  "clients 0x8001 tt_example_vlan = 1 \<and> committed 0x8001 tt_example_vlan = 1 \<and> clients 0 tt_example_vlan = 1 \<and>
   distinct (map (\<lambda>e. tt_key (tl_common e)) (tt_locals tt_example_vlan))"
  using local_clients_counted [OF tt_example_vlan_reachable, of "0x8001"]
    local_clients_counted [OF tt_example_vlan_reachable, of 0] by (simp add: tt_example_vlan_of)

text \<open>
  A client that was never announced is not counted. When it is purged because the table does not fit the new MTU,
  before the next OGM could announce it, it is counted out all the same: a second later the VLAN counts no
  client although the one of the interface itself was announced, and the table is taken to fit.
\<close>

definition tt_example_new :: batadv_priv where
  "tt_example_new = (snd (batadv_tt_local_add kenv_example 0x43 0x8001 0 0 tt_example_vlan))\<lparr>bp_packet_size_max := 60\<rparr>"

lemma tt_example_new_reachable: "tt_reachable kenv_example calm tt_example_new"
proof -
  have "tt_reachable kenv_example calm (snd (batadv_tt_local_add kenv_example 0x43 0x8001 0 0 tt_example_vlan))"
    by (rule reachable_then [OF tt_example_vlan_reachable]) (rule tt_step.client [OF _ surjective_pairing], simp add: same_hash_def)
  then show ?thesis
    unfolding tt_example_new_def
    by (rule reachable_then) (rule tt_step.other, simp_all add: local_frame_def same_global_def)
qed

lemma shrink_miscounts:
  "\<exists>s v. tt_reachable kenv_example False s \<and> committed 0x8001 s = 1 \<and> vlan_of s 0x8001 = Some v \<and> sv_num_entries v = 0"
proof -
  let ?late = "kenv_example\<lparr>k_jiffies := 2000\<rparr>"
  have r: "map_option (\<lambda>s. (committed 0x8001 s, map_option sv_num_entries (vlan_of s 0x8001)))
      (batadv_tt_local_resize_to_mtu 12 ?late id tt_example_new) = Some (1, Some 0)"
    by code_simp
  then obtain s where s: "batadv_tt_local_resize_to_mtu 12 ?late id tt_example_new = Some s"
      "committed 0x8001 s = 1" "map_option sv_num_entries (vlan_of s 0x8001) = Some 0"
    by (cases "batadv_tt_local_resize_to_mtu 12 ?late id tt_example_new") simp_all
  have "mla_updates ?late [] = id" by (simp add: mla_updates_def id_def)
  then have "tt_step kenv_example False tt_example_new s"
    using s(1) by (intro tt_step.shrink [of _ ?late _ _ 12 "[]"]) (simp_all add: same_hash_def)
  then have "tt_reachable kenv_example False s"
    by (rule reachable_then [OF tt_example_new_reachable])
  then show ?thesis using s(2,3) by auto
qed

text \<open>C10: While the mesh is up the global table is well typed, whatever clients and VLANs come and go, messages arrive,
  originators or a VLAN of an originator are deleted, and the own table is shrunk: there is one entry for an address
  and VLAN, in the bucket of its key, the entry lists an originator once, and its counter is the number of
  originators listed.\<close>

theorem global_table_typed:
  assumes "tt_reachable k calm s"
  shows "\<exists>h. tt_global_hash (bp_tt s) = Some h \<and> hash_wf (\<lambda>e. tt_key (tg_common e)) (batadv_choose_tt k) h \<and>
    list_all (\<lambda>e. tg_orig_list_count e = int (length (tg_orig_list e)) \<and> distinct (map oe_orig_node (tg_orig_list e)))
      (hash_elems h)"
  using global_reachable [OF assms]
  by (auto simp: tt_global_ok_def tt_global_wf_def tt_globals_def global_entry_ok_def [abs_def])

text \<open>An originator announces a roaming client to the example.\<close>

definition tt_example_client :: batadv_priv where
  "tt_example_client = snd (batadv_tt_add_temporary_global_entry kenv_example 0 0x66 0x8001 tt_example_vlan)"

lemma tt_example_client_reachable: "tt_reachable kenv_example calm tt_example_client"
proof -
  have "tt_step kenv_example calm tt_example_vlan tt_example_client"
    unfolding tt_example_client_def by (rule tt_step.speedy_join [OF _ surjective_pairing]) (simp add: same_hash_def)
  with tt_example_vlan_reachable show ?thesis by (rule reachable_then)
qed

theorem global_table_typed_witness:
  "\<exists>h. tt_global_hash (bp_tt tt_example_client) = Some h \<and>
     hash_wf (\<lambda>e. tt_key (tg_common e)) (batadv_choose_tt kenv_example) h \<and>
     map tg_orig_list_count (hash_elems h) = [1]"
proof -
  obtain h where h: "tt_global_hash (bp_tt tt_example_client) = Some h"
      "hash_wf (\<lambda>e. tt_key (tg_common e)) (batadv_choose_tt kenv_example) h"
    using global_table_typed [OF tt_example_client_reachable] by blast
  have "map tg_orig_list_count (tt_globals tt_example_client) = [1]"
    by code_simp
  then show ?thesis using h by (simp add: tt_globals_def)
qed

section \<open>A full table\<close>

lemma check_crc_tt_mod: "batadv_tt_global_check_crc k n vl (tt_mod f s) = batadv_tt_global_check_crc k n vl s"
  by (simp add: batadv_tt_global_check_crc_def tt_vlans_match_def tt_is_backbone_def bla_env_of_def tt_mod_def
      batadv_orig_hash_find_def)

lemma crc_of_env: "k_crc32c kr = k_crc32c ks \<Longrightarrow> tt_crc_of kr c = tt_crc_of ks c"
  by (simp add: tt_crc_of_def)

lemma sole_of_view:
  "(tt_key (tg_common (sole_of k n tv (tt_change_of c))), tt_flags (tg_common (sole_of k n tv (tt_change_of c))))
    = (tt_key c, tt_flags c AND 0xFF)"
proof -
  have e: "(ucast (ucast (tt_flags c) :: u8) :: u16) = take_bit 8 (tt_flags c)"
    by (rule bit_word_eqI) (auto simp: bit_simps)
  have "(ucast (ucast (tt_flags c) :: u8) :: u16) = tt_flags c AND 0xFF"
    by (simp only: e take_bit_eq_mask) (simp add: mask_eq_exp_minus_1)
  then show ?thesis
    by (simp add: sole_of_def sole_entry_def change_key_def tt_change_of_def tt_key_def)
qed


text \<open>The example knows the asking node, and another node asks it.\<close>

definition tt_knows :: "batadv_priv \<Rightarrow> batadv_priv" where
  "tt_knows s = s\<lparr>bp_primary_if := Some 0, bp_hardif_list := [0], bp_orig_hash := Some \<lparr>ht_table = [[(0, 0)]], ht_size = 1\<rparr>\<rparr>"

lemma tt_knows_reachable: "tt_reachable k calm s \<Longrightarrow> tt_reachable k calm (tt_knows s)"
  by (erule reachable_then, rule tt_step.other) (simp_all add: tt_knows_def local_frame_def same_global_def)

lemma tt_example_reachable: "tt_reachable kenv_example calm tt_example"
  using tt_example_initial unfolding tt_reachable_def by blast

lemma tt_example_receiving: "receiving kenv_example (tt_knows tt_example) \<and> orig_counts 0 (tt_knows tt_example)"
proof -
  have "tt_globals (tt_knows tt_example) = []"
    by code_simp
  moreover have "on_vlan_list (orig_of (tt_knows tt_example) 0) = []" "bp_allocs (tt_knows tt_example) = []"
    "\<not> bp_bridge_loop_avoidance (tt_knows tt_example)"
    by code_simp+
  ultimately show ?thesis
    using tables_reachable [OF tt_knows_reachable [OF tt_example_reachable]]
    by (auto simp: receiving_def tt_tables_ok_def orig_counts_def orig_vids_def num_at_def announced_def
        batadv_orig_node_vlan_get_def intro: inv_parts(1))
qed

lemma tt_example_sends:
  "tt_valid_changes (tt_knows tt_example_vlan) =
     [\<lparr>ch_flags = 0, ch_reserved = 0, ch_addr = 0x42, ch_vid = 0x8001\<rparr>, \<lparr>ch_flags = 0, ch_reserved = 0, ch_addr = 0x42, ch_vid = 0\<rparr>]"
  "map (\<lambda>v. (sv_vid v, sv_crc v, sv_num_entries v)) (bp_softif_vlan_list (tt_knows tt_example_vlan)) =
     [(0x8001, 354078, 1), (0, 353181, 1)]"
  "batadv_tt_local_crc kenv_example 0x8001 (tt_knows tt_example_vlan) = 354078"
  "batadv_tt_local_crc kenv_example 0 (tt_knows tt_example_vlan) = 353181"
  by code_simp+

lemma tt_example_asks:
  "bp_allocs (tt_knows tt_example_vlan) = []" "bp_primary_if (tt_knows tt_example_vlan) = Some 0"
  "batadv_orig_hash_find kenv_example (tt_knows tt_example_vlan) 0 = Some 0"
  "batadv_orig_hash_find kenv_example (tt_knows tt_example) 0 = Some 0"
  "batadv_is_my_mac (tt_knows tt_example) 0"
  "batadv_tt_local_hash_find kenv_example (tt_knows tt_example) 0x42 0x8001 = None"
  "batadv_tt_local_hash_find kenv_example (tt_knows tt_example) 0x42 0 = None"
  "tt_globals (tt_knows tt_example) = []"
  by code_simp+


end
