(* ===== verification/Tt_Errors.thy ===== *)
theory Tt_Errors
  imports Tt_Properties
begin

text \<open>
  What goes wrong at the edges of the translation table: changes that do not fit into an OGM,
  and requests that are not held back.
\<close>

section \<open>Changes that do not fit\<close>

text \<open>The version of the table, the changes, the size of the frames, the TVLV containers and the memory stay.\<close>

definition same_pace :: "batadv_priv \<Rightarrow> batadv_priv \<Rightarrow> bool" where
  "same_pace s s' \<longleftrightarrow> tt_vn (bp_tt s') = tt_vn (bp_tt s) \<and> tt_local_changes (bp_tt s') = tt_local_changes (bp_tt s) \<and>
     tt_changes_list (bp_tt s') = tt_changes_list (bp_tt s) \<and> bp_mtu s' = bp_mtu s \<and>
     bp_tvlv_containers s' = bp_tvlv_containers s \<and> bp_allocs s' = bp_allocs s"

lemma same_pace_refl [simp]: "same_pace s s"
  by (simp add: same_pace_def)

lemma same_pace_trans: "same_pace s t \<Longrightarrow> same_pace t u \<Longrightarrow> same_pace s u"
  by (simp add: same_pace_def)

lemma same_pace_fold: "(\<And>x s. same_pace s (f x s)) \<Longrightarrow> same_pace s (fold f xs s)"
proof (induction xs arbitrary: s)
  case (Cons x xs)
  show ?case using same_pace_trans [OF Cons.prems Cons.IH [OF Cons.prems]] by simp
qed simp

lemma same_pace_vlan: "same_pace s (s\<lparr>bp_softif_vlan_list := vs\<rparr>)"
  by (simp add: same_pace_def)

lemma same_pace_vlan_get: "batadv_softif_vlan_get vid s = (r, s') \<Longrightarrow> same_pace s s'"
  by (auto simp: batadv_softif_vlan_get_def softif_vlan_mod_def same_pace_def split: option.splits)

lemma same_pace_vlan_put: "same_pace s (batadv_softif_vlan_put vid s)"
  by (simp add: batadv_softif_vlan_put_def softif_vlan_mod_def same_pace_def)

lemma same_pace_size: "same_pace s (batadv_tt_local_size_mod vid d s)"
  by (auto simp: batadv_tt_local_size_mod_def batadv_softif_vlan_get_def batadv_softif_vlan_put_def softif_vlan_mod_def
      same_pace_def split: option.split)

lemma same_pace_release: "same_pace s (tt_vlan_release vid s)"
  by (auto simp: tt_vlan_release_def batadv_softif_vlan_get_def batadv_softif_vlan_put_def softif_vlan_mod_def
      same_pace_def split: option.split)

lemma same_pace_hash: "same_pace s (tt_mod (tt_local_hash_update f) s)"
  by (simp add: same_pace_def tt_mod_def)

lemma same_pace_set_flags: "same_pace s (batadv_tt_local_set_flags fl en cnt s)"
  unfolding batadv_tt_local_set_flags_def
  by (rule same_pace_fold)
    (auto simp: tt_local_set_flags_entry_def batadv_tt_local_size_inc_def tt_local_mod_def Let_def
      intro: same_pace_trans [OF same_pace_hash same_pace_size] same_pace_hash)

lemma same_pace_purge: "same_pace s (batadv_tt_local_purge_pending_clients s)"
  unfolding batadv_tt_local_purge_pending_clients_def
proof (rule same_pace_fold)
  show "same_pace s (tt_purge_pending_entry e s)" for e s
    unfolding tt_purge_pending_entry_def Let_def batadv_tt_local_size_dec_def
    using same_pace_trans [OF same_pace_trans [OF same_pace_size same_pace_hash] same_pace_release] by simp
qed

text \<open>The container says which version and VLANs there are, and carries no change.\<close>

definition no_change_sent :: "batadv_priv \<Rightarrow> bool" where
  "no_change_sent s \<longleftrightarrow> (\<exists>d vlans m. tvlv_map s (BATADV_TVLV_TT, 1) =
     Some (take m (tt_data_bytes d @ concat (map tt_vlan_bytes vlans))))"

lemma vlan_bytes_length: "length (concat (map tt_vlan_bytes vs)) = 8 * length vs"
  by (induction vs) (simp_all add: tt_vlan_bytes_def)

lemma offset_bound: "(4 + of_nat n * 8 :: u16) \<noteq> 0" "unat (4 + of_nat n * 8 :: u16) \<le> 4 + 8 * n"
proof -
  have "(4 + of_nat n * 8 :: u16) = of_nat (4 + 8 * n)" by simp
  then have u: "unat (4 + of_nat n * 8 :: u16) = (4 + 8 * n) mod 65536" by (simp only: unat_of_nat) simp
  then show "unat (4 + of_nat n * 8 :: u16) \<le> 4 + 8 * n" by (simp only: mod_less_eq_dividend)
  have "(4 + 8 * n) mod 65536 mod 8 = (4 + 8 * n) mod 8" by (rule mod_mod_cancel) simp
  then have "(4 + 8 * n) mod 65536 \<noteq> 0" by auto
  then show "(4 + of_nat n * 8 :: u16) \<noteq> 0" using u by (metis unat_0)
qed

lemma register_pace:
  "bp_tt (batadv_tvlv_container_register t v b l s) = bp_tt s" "bp_mtu (batadv_tvlv_container_register t v b l s) = bp_mtu s"
  "bp_allocs s = [] \<Longrightarrow> bp_allocs (batadv_tvlv_container_register t v b l s) = []"
  by (auto simp: batadv_tvlv_container_register_def batadv_tvlv_container_remove_def kzalloc_eq Let_def split: option.split)

lemma update_keeps_changes:
  assumes "batadv_tt_len (tt_local_changes (bp_tt s)) > int (bp_mtu s)" and a: "bp_allocs s = []" and t: "tvlv_table s"
  shows "let s' = batadv_tt_tvlv_container_update s in
    bp_tt s' = bp_tt s \<and> bp_mtu s' = bp_mtu s \<and> bp_allocs s' = [] \<and> tvlv_table s' \<and> no_change_sent s'"
proof -
  let ?N = "length (bp_softif_vlan_list s)"
  let ?l = "4 + of_nat ?N * 8 :: u16"
  obtain d vs where p: "batadv_tt_prepare_tvlv_local_data 0 s = (?l, 0, Some (d, vs), s)" "length vs = ?N"
    using a by (simp add: batadv_tt_prepare_tvlv_local_data_def tt_prepare_def kzalloc_def Let_def)
  let ?bs = "tt_data_bytes (d\<lparr>td_flags := 1\<rparr>) @ concat (map tt_vlan_bytes vs)"
  obtain u where u: "tt_message ?l (d\<lparr>td_flags := 1\<rparr>) vs [] s = (take (unat ?l) ?bs, u)"
    "bp_tt u = bp_tt s" "bp_mtu u = bp_mtu s" "bp_allocs u = []" "bp_tvlv_containers u = bp_tvlv_containers s"
    using offset_bound [of ?N] a p(2) by (simp add: tt_message_def vlan_bytes_length tt_data_bytes_def)
  have tu: "tvlv_table u" "fst (kzalloc u)" using t u by (simp_all add: tvlv_table_def kzalloc_def)
  have s': "batadv_tt_tvlv_container_update s =
      batadv_tvlv_container_register BATADV_TVLV_TT 1 (Some (take (unat ?l) ?bs)) ?l u"
    unfolding batadv_tt_tvlv_container_update_def Let_def if_P [OF assms(1)] p(1) prod.case
    using offset_bound [of ?N] by (simp add: u(1))
  have len: "length (take (unat ?l) ?bs) = unat ?l"
    using offset_bound [of ?N] p(2) by (simp add: vlan_bytes_length tt_data_bytes_def)
  note r = register_map [OF tu, of "Some (take (unat ?l) ?bs)" ?l BATADV_TVLV_TT 1]
  have "tvlv_table (batadv_tt_tvlv_container_update s)" unfolding s' by (rule r(1)) (use len in simp)
  moreover have "tvlv_map (batadv_tt_tvlv_container_update s) (BATADV_TVLV_TT, 1) = Some (take (unat ?l) ?bs)"
    unfolding s' by (subst r(2)) (use len in simp_all)
  then have "no_change_sent (batadv_tt_tvlv_container_update s)" unfolding no_change_sent_def by blast
  ultimately show ?thesis
    unfolding Let_def using register_pace u(2-4) by (simp add: s')
qed

text \<open>C35: Changes that do not fit into a frame stay for good. When the changes since the last commit are more
  than a frame of the soft interface holds, each commit, one for every OGM, counts the version of the
  table up but neither sends nor drops a change: as long as the own multicast addresses stay and no allocation fails,
  after n OGMs the version has moved by n although no client changed, the same changes wait as before, and the
  container that goes out with the OGM carries none of them.\<close>

theorem tt_changes_stuck:
  fixes k mla_update n s
  defines "t \<equiv> (batadv_tt_local_commit_changes k mla_update ^^ n) s"
  assumes big: "batadv_tt_len (tt_local_changes (bp_tt s)) > int (bp_mtu s)"
    and mla: "\<And>t. same_pace t (mla_update t)"
    and mem: "bp_allocs s = []" "tvlv_table s"
  shows "tt_vn (bp_tt t) = tt_vn (bp_tt s) + of_nat n \<and> tt_local_changes (bp_tt t) = tt_local_changes (bp_tt s) \<and>
    tt_changes_list (bp_tt t) = tt_changes_list (bp_tt s) \<and> (0 < n \<longrightarrow> no_change_sent t)"
proof -
  let ?f = "batadv_tt_local_commit_changes k mla_update"
  have step: "tt_vn (bp_tt (?f t)) = tt_vn (bp_tt t) + 1 \<and> tt_local_changes (bp_tt (?f t)) = tt_local_changes (bp_tt t) \<and>
      tt_changes_list (bp_tt (?f t)) = tt_changes_list (bp_tt t) \<and> bp_mtu (?f t) = bp_mtu t \<and>
      bp_allocs (?f t) = [] \<and> tvlv_table (?f t) \<and> no_change_sent (?f t)"
    if b: "batadv_tt_len (tt_local_changes (bp_tt t)) > int (bp_mtu t)" "bp_allocs t = []" "tvlv_table t" for t
  proof -
    let ?u = "batadv_tt_local_update_crc k (batadv_tt_local_purge_pending_clients
      (batadv_tt_local_set_flags BATADV_TT_CLIENT_NEW False True (mla_update t)))"
    let ?w = "tt_mod (\<lambda>t. t\<lparr>tt_vn := tt_vn t + 1, tt_ogm_append_cnt := 3\<rparr>) ?u"
    have u: "same_pace t ?u"
      unfolding batadv_tt_local_update_crc_def
      by (rule same_pace_trans [OF mla same_pace_trans [OF same_pace_set_flags
            same_pace_trans [OF same_pace_purge same_pace_vlan]]])
    have "\<not> tt_local_changes (bp_tt (mla_update t)) < 1"
      using b mla [of t] by (simp add: batadv_tt_len_def same_pace_def)
    then have f: "?f t = batadv_tt_tvlv_container_update ?w"
      by (simp add: batadv_tt_local_commit_changes_def batadv_tt_local_commit_changes_nolock_def Let_def)
    have w: "batadv_tt_len (tt_local_changes (bp_tt ?w)) > int (bp_mtu ?w)" "bp_allocs ?w = []" "tvlv_table ?w"
      using b u by (simp_all add: same_pace_def tt_mod_def tvlv_table_def)
    from update_keeps_changes [OF this] show ?thesis
      unfolding f Let_def using u by (simp add: same_pace_def tt_mod_def)
  qed
  have "tt_vn (bp_tt ((?f ^^ n) s)) = tt_vn (bp_tt s) + of_nat n \<and>
    tt_local_changes (bp_tt ((?f ^^ n) s)) = tt_local_changes (bp_tt s) \<and>
    tt_changes_list (bp_tt ((?f ^^ n) s)) = tt_changes_list (bp_tt s) \<and> bp_mtu ((?f ^^ n) s) = bp_mtu s \<and>
    bp_allocs ((?f ^^ n) s) = [] \<and> tvlv_table ((?f ^^ n) s) \<and> (0 < n \<longrightarrow> no_change_sent ((?f ^^ n) s))"
  proof (induction n)
    case (Suc n)
    then show ?case using step [of "(?f ^^ n) s"] big by (simp add: algebra_simps)
  qed (simp add: mem)
  then show ?thesis unfolding t_def by blast
qed

text \<open>A frame of 1500 bytes holds 125 changes.\<close>

theorem tt_changes_stuck_witness:
  "let t = (batadv_tt_local_commit_changes kenv_example id ^^ 7) (tt_mod (\<lambda>t. t\<lparr>tt_local_changes := 126\<rparr>) tt_example) in
   tt_vn (bp_tt t) = 7 \<and> no_change_sent t"
proof -
  have "bp_mtu tt_example = 1500" "tt_vn (bp_tt tt_example) = 0" "bp_allocs tt_example = []" "bp_tvlv_containers tt_example = []"
    by code_simp+
  then show ?thesis
    using tt_changes_stuck [of "tt_mod (\<lambda>t. t\<lparr>tt_local_changes := 126\<rparr>) tt_example" id 7 kenv_example]
    by (simp add: tt_mod_def batadv_tt_len_def tvlv_table_def Let_def)
qed

section \<open>Requests that are not held back\<close>

lemma unicast_send_keeps:
  "bp_tt (batadv_tvlv_unicast_send k src dst t v b l s) = bp_tt s"
  "bp_allocs s = [] \<Longrightarrow> bp_allocs (batadv_tvlv_unicast_send k src dst t v b l s) = []"
  "bp_primary_if (batadv_tvlv_unicast_send k src dst t v b l s) = bp_primary_if s"
  "bp_origs (batadv_tvlv_unicast_send k src dst t v b l s) = bp_origs s"
  by (auto simp: batadv_tvlv_unicast_send_def kzalloc_eq call_def Let_def split: option.split)

text \<open>C36: The list of pending requests does the opposite of what it is for. It is to keep a node from asking
  the same originator again while an answer is on its way. But a request that was sent leaves no entry in
  the list, so that the next one is sent at once; and a request that could not be built for want of memory
  leaves its entry, so that no request to that originator is sent until the entry times out.\<close>

theorem tt_request_suppression_inverted:
  fixes s k n v vl full
  defines "sent \<equiv> batadv_send_tt_request k n v vl full (s\<lparr>bp_allocs := []\<rparr>)"
    and "failed \<equiv> batadv_send_tt_request k n v vl full (s\<lparr>bp_allocs := [True, False]\<rparr>)"
  assumes i: "bp_primary_if s = Some i"
    and idle: "list_all (\<lambda>q. rq_addr q \<noteq> on_orig (orig_of s n) \<or> batadv_has_timed_out k (rq_issued_at q) 3000)
      (tt_req_list (bp_tt s))"
    and soon: "\<not> batadv_has_timed_out k' (k_jiffies k) 3000"
  shows "fst sent \<and> tt_req_list (bp_tt (snd sent)) = tt_req_list (bp_tt s) \<and>
    fst (batadv_send_tt_request k n v' vl' full' (snd sent)) \<and>
    \<not> fst failed \<and> batadv_send_tt_request k' n v' vl' full' (snd failed) = (False, snd failed)"
proof -
  have none: "\<not> list_ex (\<lambda>q. batadv_compare_eth (rq_addr q) (on_orig (orig_of s n)) \<and>
      \<not> batadv_has_timed_out k (rq_issued_at q) 3000) (tt_req_list (bp_tt s))"
    using idle by (auto simp: list_all_iff list_ex_iff)
  have send: "fst (batadv_send_tt_request k n v vl full t)"
      "tt_req_list (bp_tt (snd (batadv_send_tt_request k n v vl full t))) = tt_req_list (bp_tt s)"
      "bp_origs (snd (batadv_send_tt_request k n v vl full t)) = bp_origs s"
      "bp_allocs (snd (batadv_send_tt_request k n v vl full t)) = []"
      "bp_primary_if (snd (batadv_send_tt_request k n v vl full t)) = Some i"
    if "bp_allocs t = []" "bp_primary_if t = Some i" "bp_origs t = bp_origs s" "tt_req_list (bp_tt t) = tt_req_list (bp_tt s)"
    for t v vl full
    using none that
    by (simp_all add: batadv_send_tt_request_def batadv_tt_req_node_new_def kzalloc_eq Let_def tt_mod_simps unicast_send_keeps)
  have a: "fst sent" "tt_req_list (bp_tt (snd sent)) = tt_req_list (bp_tt s)" "bp_origs (snd sent) = bp_origs s"
    "bp_allocs (snd sent) = []" "bp_primary_if (snd sent) = Some i"
    unfolding sent_def using i by (intro send; simp)+
  have f: "failed = (False, tt_mod (\<lambda>t. t\<lparr>tt_req_list := \<lparr>rq_addr = on_orig (orig_of s n), rq_issued_at = k_jiffies k\<rparr> #
      tt_req_list t\<rparr>) (s\<lparr>bp_allocs := []\<rparr>))"
    unfolding failed_def using i none
    by (simp add: batadv_send_tt_request_def batadv_tt_req_node_new_def kzalloc_def Let_def tt_mod_def)
  have "batadv_send_tt_request k' n v' vl' full' (snd failed) = (False, snd failed)"
    unfolding f using i soon
    by (simp add: batadv_send_tt_request_def batadv_tt_req_node_new_def Let_def tt_mod_def)
  then show ?thesis using a f send(1) [OF a(4,5,3,2)] by simp
qed

theorem tt_request_suppression_inverted_witness:
  "fst (batadv_send_tt_request kenv_example 0 2 [] True
     (snd (batadv_send_tt_request kenv_example 0 1 [] True ((tt_knows tt_example)\<lparr>bp_allocs := []\<rparr>))))"
proof -
  have a: "bp_primary_if (tt_knows tt_example) = Some 0" "tt_req_list (bp_tt (tt_knows tt_example)) = []"
    "\<not> batadv_has_timed_out kenv_example (k_jiffies kenv_example) 3000"
    by code_simp+
  then show ?thesis
    using tt_request_suppression_inverted [OF a(1) _ a(3), of 0 1 "[]" True 2 "[]" True] by simp
qed

end
