(* ===== verification/Packets.thy ===== *)
theory Packets
  imports Iv_Aggregation
begin

text \<open>
  The headers of \<open>packet.h\<close> that data packets carry, and their bytes. The code lays a
  struct over the start of the data: \<open>unicast_of\<close> and its likes read it, \<open>set_unicast\<close> and
  its likes write it back and leave what follows. Reading needs as many bytes as the struct has,
  which the handlers check before.
\<close>

abbreviation BATADV_UNICAST :: u8 where "BATADV_UNICAST \<equiv> 0x40"
abbreviation BATADV_UNICAST_4ADDR :: u8 where "BATADV_UNICAST_4ADDR \<equiv> 0x42"
abbreviation BATADV_CODED :: u8 where "BATADV_CODED \<equiv> 2"
abbreviation BATADV_BCAST :: u8 where "BATADV_BCAST \<equiv> 1"
abbreviation BATADV_ICMP :: u8 where "BATADV_ICMP \<equiv> 0x43"
abbreviation ETH_HLEN :: "'a :: numeral" where "ETH_HLEN \<equiv> 14"
abbreviation ETH_P_IPV6 :: u16 where "ETH_P_IPV6 \<equiv> 0x86DD"

text \<open>A field of some bytes at an offset.\<close>

definition field_at :: "u8 list \<Rightarrow> nat \<Rightarrow> nat \<Rightarrow> 'a :: len word" where
  "field_at bs off n = be_word (take n (drop off bs))"

lemma field_at_here:
  "length pre = off \<Longrightarrow> LENGTH('a) = 8 * n \<Longrightarrow> field_at (pre @ be_bytes n (w :: 'a :: len word) @ rest) off n = w"
  by (simp add: field_at_def be_word_bytes)

lemma bytes_of_field:
  "LENGTH('a) = 8 * n \<Longrightarrow> off + n \<le> length bs \<Longrightarrow> be_bytes n (field_at bs off n :: 'a :: len word) = take n (drop off bs)"
  by (simp add: field_at_def be_bytes_word)

section \<open>Unicast packets\<close>

record batadv_unicast_packet =
  u_packet_type :: u8
  u_version :: u8
  u_ttl :: u8
  u_ttvn :: u8
  u_dest :: mac

record batadv_unicast_4addr_packet =
  a_u :: batadv_unicast_packet
  a_src :: mac
  a_subtype :: u8
  a_reserved :: u8

definition unicast_bytes :: "batadv_unicast_packet \<Rightarrow> u8 list" where
  "unicast_bytes p = [u_packet_type p, u_version p, u_ttl p, u_ttvn p] @ be_bytes 6 (u_dest p)"

definition unicast_of :: "u8 list \<Rightarrow> batadv_unicast_packet" where
  "unicast_of bs = \<lparr>u_packet_type = bs ! 0, u_version = bs ! 1, u_ttl = bs ! 2, u_ttvn = bs ! 3, u_dest = field_at bs 4 6\<rparr>"

definition set_unicast :: "batadv_unicast_packet \<Rightarrow> u8 list \<Rightarrow> u8 list" where
  "set_unicast p bs = unicast_bytes p @ drop 10 bs"

definition unicast_4addr_bytes :: "batadv_unicast_4addr_packet \<Rightarrow> u8 list" where
  "unicast_4addr_bytes p = unicast_bytes (a_u p) @ be_bytes 6 (a_src p) @ [a_subtype p, a_reserved p]"

definition unicast_4addr_of :: "u8 list \<Rightarrow> batadv_unicast_4addr_packet" where
  "unicast_4addr_of bs = \<lparr>a_u = unicast_of bs, a_src = field_at bs 10 6, a_subtype = bs ! 16, a_reserved = bs ! 17\<rparr>"

lemma length_unicast [simp]: "length (unicast_bytes p) = 10" "length (unicast_4addr_bytes q) = 18"
  "10 \<le> length bs \<Longrightarrow> length (set_unicast p bs) = length bs"
  by (simp_all add: unicast_bytes_def unicast_4addr_bytes_def set_unicast_def)

lemma unicast_of_bytes [simp]: "unicast_of (unicast_bytes p @ rest) = p"
  by (cases p) (simp add: unicast_of_def unicast_bytes_def field_at_def be_word_bytes)

lemma unicast_of_set [simp]: "unicast_of (set_unicast p bs) = p"
  by (simp add: set_unicast_def)

lemma drop_set_unicast [simp]: "drop 10 (set_unicast p bs) = drop 10 bs"
  by (simp add: set_unicast_def)

lemma unicast_bytes_of: "10 \<le> length bs \<Longrightarrow> unicast_bytes (unicast_of bs) = take 10 bs"
proof -
  assume l: "10 \<le> length bs"
  have "take 10 bs = take 4 bs @ take 6 (drop 4 bs)" using take_add [of 4 6 bs] by simp
  also have "take 4 bs = [bs ! 0, bs ! 1, bs ! 2, bs ! 3]"
    by (rule nth_equalityI) (use l in \<open>auto simp: less_Suc_eq numeral_eq_Suc\<close>)
  finally show ?thesis
    using l by (simp add: unicast_of_def unicast_bytes_def bytes_of_field)
qed

lemma set_unicast_same: "10 \<le> length bs \<Longrightarrow> set_unicast (unicast_of bs) bs = bs"
  by (simp add: set_unicast_def unicast_bytes_of)

lemma unicast_4addr_of_bytes [simp]: "unicast_4addr_of (unicast_4addr_bytes p @ rest) = p"
proof -
  let ?bs = "unicast_bytes (a_u p) @ be_bytes 6 (a_src p) @ a_subtype p # a_reserved p # rest"
  have "?bs ! (10 + 6) = a_subtype p" "?bs ! (10 + 7) = a_reserved p"
    by (simp_all only: nth_append length_unicast length_be_bytes) simp_all
  moreover have "field_at ?bs 10 6 = a_src p"
    by (rule field_at_here) simp_all
  moreover have "unicast_4addr_bytes p @ rest = ?bs" by (simp add: unicast_4addr_bytes_def)
  ultimately show ?thesis
    by (cases p) (simp add: unicast_4addr_of_def)
qed

section \<open>Broadcast and ICMP packets\<close>

record batadv_bcast_packet =
  b_packet_type :: u8
  b_version :: u8
  b_ttl :: u8
  b_reserved :: u8
  b_seqno :: u32
  b_orig :: mac

definition bcast_bytes :: "batadv_bcast_packet \<Rightarrow> u8 list" where
  "bcast_bytes p = [b_packet_type p, b_version p, b_ttl p, b_reserved p] @ be_bytes 4 (b_seqno p) @ be_bytes 6 (b_orig p)"

definition bcast_of :: "u8 list \<Rightarrow> batadv_bcast_packet" where
  "bcast_of bs = \<lparr>b_packet_type = bs ! 0, b_version = bs ! 1, b_ttl = bs ! 2, b_reserved = bs ! 3,
     b_seqno = field_at bs 4 4, b_orig = field_at bs 8 6\<rparr>"

record batadv_icmp_header =
  i_packet_type :: u8
  i_version :: u8
  i_ttl :: u8
  i_msg_type :: u8
  i_dst :: mac
  i_orig :: mac

text \<open>The sender's identification and the rest of the header stay as they are in the data.\<close>

definition icmp_bytes :: "batadv_icmp_header \<Rightarrow> u8 list" where
  "icmp_bytes p = [i_packet_type p, i_version p, i_ttl p, i_msg_type p] @ be_bytes 6 (i_dst p) @ be_bytes 6 (i_orig p)"

definition icmp_of :: "u8 list \<Rightarrow> batadv_icmp_header" where
  "icmp_of bs = \<lparr>i_packet_type = bs ! 0, i_version = bs ! 1, i_ttl = bs ! 2, i_msg_type = bs ! 3,
     i_dst = field_at bs 4 6, i_orig = field_at bs 10 6\<rparr>"

definition set_icmp :: "batadv_icmp_header \<Rightarrow> u8 list \<Rightarrow> u8 list" where
  "set_icmp p bs = icmp_bytes p @ drop 16 bs"

lemma length_bcast_icmp [simp]: "length (bcast_bytes p) = 14" "length (icmp_bytes q) = 16"
  by (simp_all add: bcast_bytes_def icmp_bytes_def)

lemma bcast_of_bytes [simp]: "bcast_of (bcast_bytes p @ rest) = p"
  by (cases p) (simp add: bcast_of_def bcast_bytes_def field_at_def be_word_bytes)

lemma icmp_of_bytes [simp]: "icmp_of (icmp_bytes p @ rest) = p"
  by (cases p) (simp add: icmp_of_def icmp_bytes_def field_at_def be_word_bytes)

lemma icmp_of_set [simp]: "icmp_of (set_icmp p bs) = p"
  by (simp add: set_icmp_def)

section \<open>Coded packets\<close>

record batadv_coded_packet =
  c_packet_type :: u8
  c_version :: u8
  c_ttl :: u8
  c_first_ttvn :: u8
  c_first_source :: mac
  c_first_orig_dest :: mac
  c_first_crc :: u32
  c_second_ttl :: u8
  c_second_ttvn :: u8
  c_second_dest :: mac
  c_second_source :: mac
  c_second_orig_dest :: mac
  c_second_crc :: u32
  c_coded_len :: u16

definition coded_bytes :: "batadv_coded_packet \<Rightarrow> u8 list" where
  "coded_bytes p = [c_packet_type p, c_version p, c_ttl p, c_first_ttvn p] @ be_bytes 6 (c_first_source p) @
     be_bytes 6 (c_first_orig_dest p) @ be_bytes 4 (c_first_crc p) @ [c_second_ttl p, c_second_ttvn p] @
     be_bytes 6 (c_second_dest p) @ be_bytes 6 (c_second_source p) @ be_bytes 6 (c_second_orig_dest p) @
     be_bytes 4 (c_second_crc p) @ be_bytes 2 (c_coded_len p)"

definition coded_of :: "u8 list \<Rightarrow> batadv_coded_packet" where
  "coded_of bs = \<lparr>c_packet_type = bs ! 0, c_version = bs ! 1, c_ttl = bs ! 2, c_first_ttvn = bs ! 3,
     c_first_source = field_at bs 4 6, c_first_orig_dest = field_at bs 10 6, c_first_crc = field_at bs 16 4,
     c_second_ttl = bs ! 20, c_second_ttvn = bs ! 21, c_second_dest = field_at bs 22 6,
     c_second_source = field_at bs 28 6, c_second_orig_dest = field_at bs 34 6, c_second_crc = field_at bs 40 4,
     c_coded_len = field_at bs 44 2\<rparr>"

lemma length_coded [simp]: "length (coded_bytes p) = 46"
  by (simp add: coded_bytes_def)

lemma coded_of_bytes [simp]: "coded_of (coded_bytes p @ rest) = p"
  by (cases p) (simp add: coded_of_def coded_bytes_def field_at_def be_word_bytes nth_append)

section \<open>The frame inside\<close>

text \<open>The Ethernet header at the start of some bytes.\<close>

definition eth_dest :: "u8 list \<Rightarrow> mac" where "eth_dest bs = field_at bs 0 6"
definition eth_source :: "u8 list \<Rightarrow> mac" where "eth_source bs = field_at bs 6 6"
definition eth_proto :: "u8 list \<Rightarrow> u16" where "eth_proto bs = field_at bs 12 2"

definition eth_bytes :: "mac \<Rightarrow> mac \<Rightarrow> u16 \<Rightarrow> u8 list" where
  "eth_bytes dest source proto = be_bytes 6 dest @ be_bytes 6 source @ be_bytes 2 proto"

lemma eth_of_bytes [simp]:
  "eth_dest (eth_bytes d s p @ rest) = d" "eth_source (eth_bytes d s p @ rest) = s"
  "eth_proto (eth_bytes d s p @ rest) = p" "length (eth_bytes d s p) = 14"
  by (simp_all add: eth_dest_def eth_source_def eth_proto_def eth_bytes_def field_at_def be_word_bytes)

text \<open>The checksum of the data behind a header; the stored value is in network order.\<close>

definition batadv_skb_crc32 :: "kenv \<Rightarrow> u8 list \<Rightarrow> u32" where
  "batadv_skb_crc32 k payload = k_crc32c k 0 payload"

text \<open>
  The priority of a frame, from 256 to 263. \<open>skb_header_pointer\<close> fails when the bytes are not
  there.
\<close>

definition batadv_skb_set_priority :: "nat \<Rightarrow> sk_buff \<Rightarrow> sk_buff" where
  "batadv_skb_set_priority offset skb =
     (let bs = drop offset (sk_data skb);
          set = (\<lambda>prio. skb\<lparr>sk_priority := prio + 256\<rparr>)
      in if 256 \<le> sk_priority skb \<and> sk_priority skb \<le> 263 then skb
         else if length bs < 14 then skb
         else if eth_proto bs = ETH_P_8021Q then
           (if length bs < 18 + 18 then skb
            else set (drop_bit 13 (ucast (field_at bs (18 + 14) 2 AND (0xE000 :: u16)))))
         else if eth_proto bs = ETH_P_IP then
           (if length bs < 14 + 20 then skb else set (drop_bit 5 (ucast (bs ! 15) AND 0xFC)))
         else if eth_proto bs = ETH_P_IPV6 then
           (if length bs < 14 + 40 then skb
            else set (drop_bit 5 (ucast (drop_bit 4 (field_at bs 14 2 :: u16)) AND 0xFC)))
         else skb)"

end
