(* ===== verification/Coding.thy ===== *)
theory Coding
  imports Packets Nc_Node Tt_Sync
begin

text \<open>
  Network coding, \<open>network-coding.c\<close>, and the sending of single frames from \<open>send.c\<close>
  that it is entangled with. A frame to be forwarded waits for a frame in the other direction;
  two such frames are xored into one, which both receivers can decode because each has kept the frame
  it does not want. Frames wait in paths, named by previous and next hop, of two hash tables: the
  coding pool holds what may be sent, the decoding pool what was sent or overheard.

  A pointer to a path is its pool and its key. Checksums are \<open>crc32c\<close> of the payload; the room in front
  of the data of a buffer is taken to be there, \<open>skb_push\<close> never fails.
\<close>

section \<open>Paths\<close>

datatype nc_pool = Coding_Pool | Decoding_Pool

definition nc_hash :: "nc_pool \<Rightarrow> batadv_priv \<Rightarrow> batadv_nc_path hashtable option" where
  "nc_hash pool s = (case pool of Coding_Pool \<Rightarrow> nc_coding_hash (bp_nc s) | Decoding_Pool \<Rightarrow> nc_decoding_hash (bp_nc s))"

definition nc_mod :: "(batadv_priv_nc \<Rightarrow> batadv_priv_nc) \<Rightarrow> batadv_priv \<Rightarrow> batadv_priv" where
  "nc_mod f s = s\<lparr>bp_nc := f (bp_nc s)\<rparr>"

definition nc_hash_put :: "nc_pool \<Rightarrow> batadv_nc_path hashtable option \<Rightarrow> batadv_priv \<Rightarrow> batadv_priv" where
  "nc_hash_put pool h = nc_mod (\<lambda>nc. case pool of Coding_Pool \<Rightarrow> nc\<lparr>nc_coding_hash := h\<rparr>
                                     | Decoding_Pool \<Rightarrow> nc\<lparr>nc_decoding_hash := h\<rparr>)"

type_synonym nc_key = "mac \<times> mac"

definition batadv_nc_hash_key_gen :: "mac \<Rightarrow> mac \<Rightarrow> nc_key" where
  "batadv_nc_hash_key_gen src dst = (src, dst)"

definition nc_path_key :: "batadv_nc_path \<Rightarrow> nc_key" where
  "nc_path_key p = (np_prev_hop p, np_next_hop p)"

definition batadv_nc_hash_choose :: "kenv \<Rightarrow> nc_key \<Rightarrow> u32 \<Rightarrow> u32" where
  "batadv_nc_hash_choose k nc_path sz =
     (let hash = k_jhash k (mac_bytes (fst nc_path)) 0;
          hash = k_jhash k (mac_bytes (snd nc_path)) hash
      in hash mod sz)"

definition batadv_nc_hash_compare :: "batadv_nc_path \<Rightarrow> nc_key \<Rightarrow> bool" where
  "batadv_nc_hash_compare nc_path1 nc_path2 \<longleftrightarrow>
     np_prev_hop nc_path1 = fst nc_path2 \<and> np_next_hop nc_path1 = snd nc_path2"

interpretation nc_ht: hash_key nc_path_key batadv_nc_hash_compare "batadv_nc_hash_choose k" for k
  by unfold_locales
    (auto simp: batadv_nc_hash_compare_def nc_path_key_def batadv_nc_hash_choose_def Let_def word_mod_less_divisor prod_eq_iff)

definition batadv_nc_hash_find :: "kenv \<Rightarrow> batadv_nc_path hashtable option \<Rightarrow> nc_key \<Rightarrow> batadv_nc_path option" where
  "batadv_nc_hash_find k hash data =
     (case hash of None \<Rightarrow> None | Some h \<Rightarrow> hash_lookup h batadv_nc_hash_compare (batadv_nc_hash_choose k) data)"

text \<open>Writing through a pointer to a path.\<close>

definition nc_path_mod :: "nc_pool \<Rightarrow> nc_key \<Rightarrow> (batadv_nc_path \<Rightarrow> batadv_nc_path) \<Rightarrow> batadv_priv \<Rightarrow> batadv_priv" where
  "nc_path_mod pool key f s =
     nc_hash_put pool (map_option (hash_map (\<lambda>p. if nc_path_key p = key then f p else p)) (nc_hash pool s)) s"

definition batadv_nc_get_path :: "kenv \<Rightarrow> nc_pool \<Rightarrow> mac \<Rightarrow> mac \<Rightarrow> batadv_priv \<Rightarrow> bool \<times> batadv_priv" where
  "batadv_nc_get_path k pool src dst s =
     (let key = batadv_nc_hash_key_gen src dst in
      if batadv_nc_hash_find k (nc_hash pool s) key \<noteq> None
      then (True, nc_path_mod pool key (\<lambda>p. p\<lparr>np_last_valid := k_jiffies k\<rparr>) s)
      else
        (let (ok, s) = kzalloc s in
         if \<not> ok then (False, s)
         else
           (let nc_path = \<lparr>np_prev_hop = src, np_next_hop = dst, np_last_valid = k_jiffies k, np_packet_list = []\<rparr>;
                (hash_added, hash) = batadv_hash_add (nc_hash pool s) batadv_nc_hash_compare (batadv_nc_hash_choose k)
                   key nc_path
            in if hash_added < 0 then (False, s) else (True, nc_hash_put pool hash s))))"

definition batadv_nc_skb_add_to_path ::
  "kenv \<Rightarrow> sk_buff \<Rightarrow> nc_pool \<Rightarrow> nc_key \<Rightarrow> nat option \<Rightarrow> u32 \<Rightarrow> batadv_priv \<Rightarrow> bool \<times> batadv_priv" where
  "batadv_nc_skb_add_to_path k skb pool key neigh_node packet_id s =
     (let (ok, s) = kzalloc s in
      if \<not> ok then (False, s)
      else
        (let nc_packet = \<lparr>np_packet_id = packet_id, np_timestamp = k_jiffies k, np_neigh_node = neigh_node, np_skb = skb\<rparr>
         in (True, nc_path_mod pool key (\<lambda>p. p\<lparr>np_packet_list := np_packet_list p @ [nc_packet]\<rparr>) s)))"

section \<open>Sending a frame\<close>

text \<open>The frame has its Ethernet header; the stored copy starts behind it.\<close>

definition batadv_nc_skb_store_for_decoding :: "kenv \<Rightarrow> sk_buff \<Rightarrow> batadv_priv \<Rightarrow> batadv_priv" where
  "batadv_nc_skb_store_for_decoding k skb s =
     (if \<not> bp_network_coding s then s
      else if sk_data skb ! 0 \<noteq> BATADV_UNICAST then s
      else
        (let (found, s) = batadv_nc_get_path k Decoding_Pool (sk_source skb) (sk_dest skb) s in
         if \<not> found then s
         else
           (let (ok, s) = kzalloc s in
            if \<not> ok then s
            else snd (batadv_nc_skb_add_to_path k skb Decoding_Pool (batadv_nc_hash_key_gen (sk_source skb) (sk_dest skb)) None
                        (batadv_skb_crc32 k (drop 10 (sk_data skb))) s))))"

text \<open>What the driver answers is taken from \<open>bp_xmits\<close>; an exhausted list means success.\<close>

definition dev_queue_xmit :: "nat \<Rightarrow> mac \<Rightarrow> u8 list \<Rightarrow> batadv_priv \<Rightarrow> int \<times> batadv_priv" where
  "dev_queue_xmit iface dst bytes s =
     (case bp_xmits s of
        [] \<Rightarrow> (0, call (Dev_Queue_Xmit iface dst bytes) s)
      | r # rest \<Rightarrow> (r, call (Dev_Queue_Xmit iface dst bytes) (s\<lparr>bp_xmits := rest\<rparr>)))"

abbreviation NET_XMIT_SUCCESS :: int where "NET_XMIT_SUCCESS \<equiv> 0"
abbreviation NET_XMIT_DROP :: int where "NET_XMIT_DROP \<equiv> 1"
abbreviation NET_XMIT_POLICED :: int where "NET_XMIT_POLICED \<equiv> 3"

definition batadv_send_skb_packet :: "kenv \<Rightarrow> sk_buff \<Rightarrow> nat \<Rightarrow> mac \<Rightarrow> batadv_priv \<Rightarrow> int \<times> batadv_priv" where
  "batadv_send_skb_packet k skb hard_iface dst_addr s =
     (if hi_if_status (hardif_of s hard_iface) \<noteq> BATADV_IF_ACTIVE then (NET_XMIT_DROP, s)
      else if \<not> hi_up (hardif_of s hard_iface) then (NET_XMIT_DROP, s)
      else
        (let (ok, s) = kzalloc s in
         if \<not> ok then (NET_XMIT_DROP, s)
         else
           (let skb = skb\<lparr>sk_source := hi_dev_addr (hardif_of s hard_iface), sk_dest := dst_addr\<rparr>;
                s = batadv_nc_skb_store_for_decoding k skb s
            in dev_queue_xmit hard_iface dst_addr (sk_data skb) s)))"

definition batadv_send_broadcast_skb :: "kenv \<Rightarrow> sk_buff \<Rightarrow> nat \<Rightarrow> batadv_priv \<Rightarrow> int \<times> batadv_priv" where
  "batadv_send_broadcast_skb k skb hard_iface = batadv_send_skb_packet k skb hard_iface (- 1)"

definition batadv_send_unicast_skb :: "kenv \<Rightarrow> sk_buff \<Rightarrow> nat \<Rightarrow> batadv_priv \<Rightarrow> int \<times> batadv_priv" where
  "batadv_send_unicast_skb k skb neigh s =
     (let i = nn_if_incoming (neigh_of s neigh);
          addr = nn_addr (neigh_of s neigh);
          (ret, s) = batadv_send_skb_packet k skb i addr s
      in (ret, if batadv_hardif_neigh_get s i addr \<noteq> None \<and> ret \<noteq> NET_XMIT_DROP
               then hardif_neigh_mod i addr (\<lambda>n. n\<lparr>hn_last_unicast_tx := k_jiffies k\<rparr>) s else s))"

text \<open>A packet whose neighbour is NULL is never sent; the pointer would be followed.\<close>

definition batadv_nc_send_packet :: "kenv \<Rightarrow> batadv_nc_packet \<Rightarrow> batadv_priv \<Rightarrow> batadv_priv" where
  "batadv_nc_send_packet k nc_packet s =
     (case np_neigh_node nc_packet of
        None \<Rightarrow> s\<lparr>bp_panic := True\<rparr>
      | Some neigh \<Rightarrow> snd (batadv_send_unicast_skb k (np_skb nc_packet) neigh s))"

section \<open>Coding\<close>

text \<open>Eight bits of a product of two bytes, all the variable has room for.\<close>

definition batadv_nc_random_weight_tq :: "u8 \<Rightarrow> u8 \<Rightarrow> u8" where
  "batadv_nc_random_weight_tq rand_val tq =
     (let rand_tq = rand_val * (BATADV_TQ_MAX_VALUE - tq);
          rand_tq = rand_tq div BATADV_TQ_MAX_VALUE
      in BATADV_TQ_MAX_VALUE - rand_tq)"

text \<open>Bytes behind the end of the source are what the memory holds there.\<close>

definition batadv_nc_memxor :: "u8 \<Rightarrow> u8 list \<Rightarrow> u8 list \<Rightarrow> nat \<Rightarrow> u8 list" where
  "batadv_nc_memxor stray dst src len =
     map (\<lambda>i. if i < len then dst ! i XOR (if i < length src then src ! i else stray) else dst ! i) [0..<length dst]"

text \<open>The two frames become one: the shorter one is xored into the longer one, behind the header.\<close>

definition nc_coded ::
  "kenv \<Rightarrow> u8 \<Rightarrow> sk_buff \<Rightarrow> batadv_nc_packet \<Rightarrow> mac \<Rightarrow> mac \<Rightarrow> mac \<Rightarrow> bool \<Rightarrow> sk_buff" where
  "nc_coded k stray skb nc_packet prev_hop neigh_addr coding_addr first_is_stored =
     (let stored = np_skb nc_packet;
          (first_source, packet1, packet_id1, second_addr, second_source, packet2, packet_id2) =
            (if first_is_stored
             then (prev_hop, unicast_of (sk_data stored), np_packet_id nc_packet,
                   neigh_addr, sk_source skb, unicast_of (sk_data skb), batadv_skb_crc32 k (drop 10 (sk_data skb)))
             else (sk_source skb, unicast_of (sk_data skb), batadv_skb_crc32 k (drop 10 (sk_data skb)),
                   coding_addr, prev_hop, unicast_of (sk_data stored), np_packet_id nc_packet));
          (skb_dest, skb_src) = (if length (sk_data skb) \<le> length (sk_data stored) then (stored, skb) else (skb, stored));
          coding_len = length (sk_data skb_src) - 10;
          coded_packet = \<lparr>c_packet_type = BATADV_CODED, c_version = BATADV_COMPAT_VERSION, c_ttl = u_ttl packet1,
             c_first_ttvn = u_ttvn packet1, c_first_source = first_source, c_first_orig_dest = u_dest packet1,
             c_first_crc = packet_id1, c_second_ttl = u_ttl packet2, c_second_ttvn = u_ttvn packet2,
             c_second_dest = second_addr, c_second_source = second_source, c_second_orig_dest = u_dest packet2,
             c_second_crc = packet_id2, c_coded_len = of_nat coding_len\<rparr>
      in skb_dest\<lparr>sk_data := coded_bytes coded_packet @
            batadv_nc_memxor stray (drop 10 (sk_data skb_dest)) (drop 10 (sk_data skb_src)) coding_len\<rparr>)"

definition batadv_nc_code_packets ::
  "kenv \<Rightarrow> sk_buff \<Rightarrow> batadv_nc_packet \<Rightarrow> mac \<Rightarrow> nat \<Rightarrow> batadv_priv \<Rightarrow> bool \<times> batadv_priv" where
  "batadv_nc_code_packets k skb nc_packet prev_hop neigh_node s =
     (case np_neigh_node nc_packet of
        None \<Rightarrow> (False, s\<lparr>bp_panic := True\<rparr>)
      | Some coding_node \<Rightarrow>
          (let tq = (\<lambda>n. Option.bind (batadv_orig_router_get s (nn_orig_node (neigh_of s n)) None)
                           (\<lambda>r. batadv_neigh_ifinfo_get s r None))
           in case (tq neigh_node, tq coding_node) of
                (Some router_neigh_ifinfo, Some router_coding_ifinfo) \<Rightarrow>
                  (let (r1, s) = prandom_u32 s;
                       tq_weighted_neigh = batadv_nc_random_weight_tq (ucast r1) (ni_tq_avg router_neigh_ifinfo);
                       (r2, s) = prandom_u32 s;
                       tq_weighted_coding = batadv_nc_random_weight_tq (ucast r2) (ni_tq_avg router_coding_ifinfo);
                       first_is_stored = (tq_weighted_coding \<le> tq_weighted_neigh);
                       first_dest = (if first_is_stored then coding_node else neigh_node);
                       (ok1, s) = kzalloc s
                   in if \<not> ok1 then (False, s)
                      else
                        (let (ok2, s) = kzalloc s in
                         if \<not> ok2 then (False, s)
                         else (True, snd (batadv_send_unicast_skb k
                                (nc_coded k (bp_stray s) skb nc_packet prev_hop (nn_addr (neigh_of s neigh_node))
                                   (nn_addr (neigh_of s coding_node)) first_is_stored) first_dest s))))
              | _ \<Rightarrow> (False, s)))"

definition batadv_nc_skb_coding_possible :: "sk_buff \<Rightarrow> mac \<Rightarrow> mac \<Rightarrow> bool" where
  "batadv_nc_skb_coding_possible skb dst src \<longleftrightarrow> \<not> (sk_decoded skb \<and> \<not> batadv_compare_eth dst src)"

text \<open>The result: the packet, which is taken out of its path.\<close>

definition batadv_nc_path_search ::
  "kenv \<Rightarrow> mac \<Rightarrow> mac \<Rightarrow> mac \<Rightarrow> batadv_priv \<Rightarrow> batadv_nc_packet option \<times> batadv_priv" where
  "batadv_nc_path_search k in_addr out_addr eth_dst s =
     (case nc_coding_hash (bp_nc s) of
        None \<Rightarrow> (None, s)
      | Some h \<Rightarrow>
          (let key = batadv_nc_hash_key_gen in_addr out_addr in
           case hash_lookup h (\<lambda>p key. batadv_nc_hash_compare p key \<and> np_packet_list p \<noteq> []) (batadv_nc_hash_choose k) key of
             None \<Rightarrow> (None, s)
           | Some nc_path \<Rightarrow>
               (let (nc_packet_out, rest) = hlist_del_first
                      (\<lambda>p. batadv_nc_skb_coding_possible (np_skb p) eth_dst in_addr) (np_packet_list nc_path)
                in (nc_packet_out, nc_path_mod Coding_Pool key (\<lambda>p. p\<lparr>np_packet_list := rest\<rparr>) s))))"

fun nc_out_search ::
  "kenv \<Rightarrow> batadv_nc_node list \<Rightarrow> sk_buff \<Rightarrow> mac \<Rightarrow> mac \<Rightarrow> mac \<Rightarrow> batadv_priv \<Rightarrow> batadv_nc_packet option \<times> batadv_priv" where
  "nc_out_search k [] skb eth_dst eth_src in_addr s = (None, s)"
| "nc_out_search k (out_nc_node # rest) skb eth_dst eth_src in_addr s =
     (if \<not> batadv_nc_skb_coding_possible skb (nc_addr out_nc_node) eth_src
      then nc_out_search k rest skb eth_dst eth_src in_addr s
      else
        (case batadv_nc_path_search k in_addr (nc_addr out_nc_node) eth_dst s of
           (Some p, s) \<Rightarrow> (Some p, s)
         | (None, s) \<Rightarrow> nc_out_search k rest skb eth_dst eth_src in_addr s))"

definition batadv_nc_skb_src_search ::
  "kenv \<Rightarrow> sk_buff \<Rightarrow> mac \<Rightarrow> mac \<Rightarrow> mac \<Rightarrow> batadv_priv \<Rightarrow> batadv_nc_packet option \<times> batadv_priv" where
  "batadv_nc_skb_src_search k skb eth_dst eth_src in_addr s =
     (case batadv_orig_hash_find k s eth_src of
        None \<Rightarrow> (None, s)
      | Some orig_node \<Rightarrow> nc_out_search k (on_out_coding_list (orig_of s orig_node)) skb eth_dst eth_src in_addr s)"

definition batadv_nc_skb_store_before_coding :: "kenv \<Rightarrow> sk_buff \<Rightarrow> mac \<Rightarrow> batadv_priv \<Rightarrow> batadv_priv" where
  "batadv_nc_skb_store_before_coding k skb eth_dst_new s =
     (let (ok, s) = kzalloc s in
      if \<not> ok then s
      else batadv_nc_skb_store_for_decoding k (skb\<lparr>sk_source := sk_dest skb, sk_dest := eth_dst_new\<rparr>) s)"

text \<open>The result: the packet and the previous hop of the path that it waited in.\<close>

fun nc_in_search ::
  "kenv \<Rightarrow> batadv_nc_node list \<Rightarrow> sk_buff \<Rightarrow> mac \<Rightarrow> mac \<Rightarrow> batadv_priv \<Rightarrow> (batadv_nc_packet \<times> mac) option \<times> batadv_priv" where
  "nc_in_search k [] skb eth_dst eth_src s = (None, s)"
| "nc_in_search k (nc_node # rest) skb eth_dst eth_src s =
     (case batadv_nc_skb_src_search k skb eth_dst eth_src (nc_addr nc_node) s of
        (Some p, s) \<Rightarrow> (Some (p, nc_addr nc_node), s)
      | (None, s) \<Rightarrow> nc_in_search k rest skb eth_dst eth_src s)"

definition batadv_nc_skb_dst_search :: "kenv \<Rightarrow> sk_buff \<Rightarrow> nat \<Rightarrow> batadv_priv \<Rightarrow> bool \<times> batadv_priv" where
  "batadv_nc_skb_dst_search k skb neigh_node s =
     (let orig_node = nn_orig_node (neigh_of s neigh_node) in
      case nc_in_search k (on_in_coding_list (orig_of s orig_node)) skb (nn_addr (neigh_of s neigh_node)) (sk_source skb) s of
        (None, s) \<Rightarrow> (False, s)
      | (Some (nc_packet, prev_hop), s) \<Rightarrow>
          (let s = batadv_nc_skb_store_before_coding k skb (nn_addr (neigh_of s neigh_node)) s;
               s = (case np_neigh_node nc_packet of
                      None \<Rightarrow> s\<lparr>bp_panic := True\<rparr>
                    | Some n \<Rightarrow> batadv_nc_skb_store_before_coding k (np_skb nc_packet) (nn_addr (neigh_of s n)) s);
               (coded, s) = batadv_nc_code_packets k skb nc_packet prev_hop neigh_node s
           in if coded then (True, s) else (False, batadv_nc_send_packet k nc_packet s)))"

definition batadv_nc_skb_forward :: "kenv \<Rightarrow> sk_buff \<Rightarrow> nat \<Rightarrow> batadv_priv \<Rightarrow> bool \<times> batadv_priv" where
  "batadv_nc_skb_forward k skb neigh_node s =
     (if \<not> bp_network_coding s then (False, s)
      else if sk_data skb ! 0 \<noteq> BATADV_UNICAST then (False, s)
      else
        (let (sent, s) = batadv_nc_skb_dst_search k skb neigh_node s in
         if sent then (True, s)
         else
           (let next_hop = nn_addr (neigh_of s neigh_node);
                (found, s) = batadv_nc_get_path k Coding_Pool (sk_source skb) next_hop s
            in if \<not> found then (False, s)
               else batadv_nc_skb_add_to_path k skb Coding_Pool (batadv_nc_hash_key_gen (sk_source skb) next_hop)
                      (Some neigh_node) (batadv_skb_crc32 k (drop 10 (sk_data skb))) s)))"

section \<open>Decoding\<close>

definition batadv_nc_skb_store_sniffed_unicast :: "kenv \<Rightarrow> sk_buff \<Rightarrow> batadv_priv \<Rightarrow> batadv_priv" where
  "batadv_nc_skb_store_sniffed_unicast k skb s =
     (if batadv_is_my_mac s (sk_dest skb) then s else batadv_nc_skb_store_for_decoding k skb s)"

text \<open>
  The length in the header is checked against the frame with its header, but the header is not
  part of what is decoded: the loop may run over the end of either frame.
\<close>

definition batadv_nc_skb_decode_packet ::
  "sk_buff \<Rightarrow> batadv_nc_packet \<Rightarrow> batadv_priv \<Rightarrow> sk_buff option \<times> batadv_priv" where
  "batadv_nc_skb_decode_packet skb nc_packet s =
     (let coded_packet_tmp = coded_of (sk_data skb);
          (ok, s) = kzalloc s
      in if \<not> ok then (None, s)
         else
           (let data = drop 36 (sk_data skb);
                stored = sk_data (np_skb nc_packet);
                second = batadv_is_my_mac s (c_second_dest coded_packet_tmp);
                skb = (if second then skb\<lparr>sk_dest := c_second_dest coded_packet_tmp\<rparr> else skb);
                (orig_dest, ttl, ttvn) =
                  (if second
                   then (c_second_orig_dest coded_packet_tmp, c_second_ttl coded_packet_tmp, c_second_ttvn coded_packet_tmp)
                   else (c_first_orig_dest coded_packet_tmp, c_ttl coded_packet_tmp, c_first_ttvn coded_packet_tmp));
                coding_len = unat (c_coded_len coded_packet_tmp)
            in if coding_len > length data then (None, s)
               else
                 (let s = (if 10 + coding_len > length data \<or> 10 + coding_len > length stored
                           then s\<lparr>bp_panic := True\<rparr> else s);
                      payload = batadv_nc_memxor (bp_stray s) (drop 10 data) (drop 10 stored) coding_len;
                      payload = (if length stored > coding_len + 10 then take coding_len payload else payload);
                      unicast_packet = \<lparr>u_packet_type = BATADV_UNICAST, u_version = BATADV_COMPAT_VERSION,
                         u_ttl = ttl, u_ttvn = ttvn, u_dest = orig_dest\<rparr>
                  in (Some (skb\<lparr>sk_data := unicast_bytes unicast_packet @ payload\<rparr>), s))))"

text \<open>The first packet with the checksum, in whatever path of the bucket.\<close>

definition batadv_nc_find_decoding_packet ::
  "kenv \<Rightarrow> mac \<Rightarrow> batadv_coded_packet \<Rightarrow> batadv_priv \<Rightarrow> batadv_nc_packet option \<times> batadv_priv" where
  "batadv_nc_find_decoding_packet k h_source coded s =
     (case nc_decoding_hash (bp_nc s) of
        None \<Rightarrow> (None, s)
      | Some h \<Rightarrow>
          (let dest = h_source;
               (source, packet_id) =
                 (if \<not> batadv_is_my_mac s (c_second_dest coded) then (c_second_source coded, c_second_crc coded)
                  else (c_first_source coded, c_first_crc coded));
               key = batadv_nc_hash_key_gen source dest;
               has_id = (\<lambda>p. np_packet_id p = packet_id)
           in case hash_lookup h (\<lambda>p _. list_ex has_id (np_packet_list p)) (batadv_nc_hash_choose k) key of
                None \<Rightarrow> (None, s)
              | Some nc_path \<Rightarrow>
                  (let (nc_packet, rest) = hlist_del_first has_id (np_packet_list nc_path)
                   in (nc_packet, nc_path_mod Decoding_Pool (nc_path_key nc_path) (\<lambda>p. p\<lparr>np_packet_list := rest\<rparr>) s))))"

text \<open>\<open>recv_unicast\<close> is \<open>batadv_recv_unicast_packet\<close>.\<close>

definition batadv_nc_recv_coded_packet ::
  "kenv \<Rightarrow> (sk_buff \<Rightarrow> nat \<Rightarrow> batadv_priv \<Rightarrow> int \<times> batadv_priv) \<Rightarrow> sk_buff \<Rightarrow> nat \<Rightarrow> batadv_priv \<Rightarrow> int \<times> batadv_priv" where
  "batadv_nc_recv_coded_packet k recv_unicast skb recv_if s =
     (if \<not> bp_network_coding s then (1, s)
      else if length (sk_data skb) < 46 then (1, s)
      else
        (let coded_packet = coded_of (sk_data skb) in
         if \<not> batadv_is_my_mac s (sk_dest skb) \<and> \<not> batadv_is_my_mac s (c_second_dest coded_packet) then (1, s)
         else
           (case batadv_nc_find_decoding_packet k (sk_source skb) coded_packet s of
              (None, s) \<Rightarrow> (1, s)
            | (Some nc_packet, s) \<Rightarrow>
                (let (ok1, s) = kzalloc s in
                 if \<not> ok1 then (1, s)
                 else
                   (let (ok2, s) = kzalloc s in
                    if \<not> ok2 then (1, s)
                    else
                      (case batadv_nc_skb_decode_packet skb nc_packet s of
                         (None, s) \<Rightarrow> (1, s)
                       | (Some skb, s) \<Rightarrow> recv_unicast (skb\<lparr>sk_decoded := True\<rparr>) recv_if s))))))"

section \<open>House keeping\<close>

definition batadv_nc_to_purge_nc_path_coding :: "kenv \<Rightarrow> batadv_priv \<Rightarrow> batadv_nc_path \<Rightarrow> bool" where
  "batadv_nc_to_purge_nc_path_coding k s nc_path \<longleftrightarrow>
     bp_mesh_state s \<noteq> BATADV_MESH_ACTIVE \<or> batadv_has_timed_out k (np_last_valid nc_path) (nc_max_fwd_delay (bp_nc s) * 10)"

definition batadv_nc_to_purge_nc_path_decoding :: "kenv \<Rightarrow> batadv_priv \<Rightarrow> batadv_nc_path \<Rightarrow> bool" where
  "batadv_nc_to_purge_nc_path_decoding k s nc_path \<longleftrightarrow>
     bp_mesh_state s \<noteq> BATADV_MESH_ACTIVE \<or> batadv_has_timed_out k (np_last_valid nc_path) (nc_max_buffer_time (bp_nc s) * 10)"

text \<open>A path that still has packets stays, whatever the test says. The pointer to the table is followed unseen.\<close>

definition batadv_nc_purge_paths ::
  "nc_pool \<Rightarrow> (batadv_priv \<Rightarrow> batadv_nc_path \<Rightarrow> bool) option \<Rightarrow> batadv_priv \<Rightarrow> batadv_priv" where
  "batadv_nc_purge_paths pool to_purge s =
     (case nc_hash pool s of
        None \<Rightarrow> s\<lparr>bp_panic := True\<rparr>
      | Some hash \<Rightarrow>
          nc_hash_put pool (Some (hash_filter (\<lambda>p. \<not> ((case to_purge of None \<Rightarrow> True | Some f \<Rightarrow> f s p) \<and>
                                                 np_packet_list p = [])) hash)) s)"

definition nc_packet_due :: "kenv \<Rightarrow> u32 \<Rightarrow> batadv_priv \<Rightarrow> batadv_nc_packet \<Rightarrow> bool" where
  "nc_packet_due k timeout s nc_packet \<longleftrightarrow>
     \<not> (bp_mesh_state s = BATADV_MESH_ACTIVE \<and> \<not> batadv_has_timed_out k (np_timestamp nc_packet) timeout)"

text \<open>The packets at the head of a path whose time has come; the loop stops at the first other one.\<close>

definition batadv_nc_sniffed_purge :: "kenv \<Rightarrow> batadv_nc_path \<Rightarrow> batadv_priv \<Rightarrow> batadv_priv" where
  "batadv_nc_sniffed_purge k nc_path s =
     nc_path_mod Decoding_Pool (nc_path_key nc_path)
       (\<lambda>p. p\<lparr>np_packet_list := dropWhile (nc_packet_due k (nc_max_buffer_time (bp_nc s)) s) (np_packet_list p)\<rparr>) s"

definition batadv_nc_fwd_flush :: "kenv \<Rightarrow> batadv_nc_path \<Rightarrow> batadv_priv \<Rightarrow> batadv_priv" where
  "batadv_nc_fwd_flush k nc_path s =
     (let due = nc_packet_due k (nc_max_fwd_delay (bp_nc s)) s
      in fold (batadv_nc_send_packet k) (takeWhile due (np_packet_list nc_path))
           (nc_path_mod Coding_Pool (nc_path_key nc_path) (\<lambda>p. p\<lparr>np_packet_list := dropWhile due (np_packet_list p)\<rparr>) s))"

definition batadv_nc_process_nc_paths ::
  "nc_pool \<Rightarrow> (batadv_nc_path \<Rightarrow> batadv_priv \<Rightarrow> batadv_priv) \<Rightarrow> batadv_priv \<Rightarrow> batadv_priv" where
  "batadv_nc_process_nc_paths pool process_fn s =
     (case nc_hash pool s of None \<Rightarrow> s | Some h \<Rightarrow> fold process_fn (hash_elems h) s)"

definition batadv_nc_worker :: "kenv \<Rightarrow> batadv_priv \<Rightarrow> batadv_priv" where
  "batadv_nc_worker k s =
     (let s = batadv_nc_purge_orig_hash k s;
          s = batadv_nc_purge_paths Coding_Pool (Some (batadv_nc_to_purge_nc_path_coding k)) s;
          s = batadv_nc_purge_paths Decoding_Pool (Some (batadv_nc_to_purge_nc_path_decoding k)) s;
          s = (if batadv_has_timed_out k (nc_timestamp_fwd_flush (bp_nc s)) (nc_max_fwd_delay (bp_nc s))
               then nc_mod (\<lambda>nc. nc\<lparr>nc_timestamp_fwd_flush := k_jiffies k\<rparr>)
                      (batadv_nc_process_nc_paths Coding_Pool (batadv_nc_fwd_flush k) s)
               else s)
      in if batadv_has_timed_out k (nc_timestamp_sniffed_purge (bp_nc s)) (nc_max_buffer_time (bp_nc s))
         then nc_mod (\<lambda>nc. nc\<lparr>nc_timestamp_sniffed_purge := k_jiffies k\<rparr>)
                (batadv_nc_process_nc_paths Decoding_Pool (batadv_nc_sniffed_purge k) s)
         else s)"

definition batadv_nc_tvlv_container_update :: "batadv_priv \<Rightarrow> batadv_priv" where
  "batadv_nc_tvlv_container_update s =
     (if \<not> bp_network_coding s then batadv_tvlv_container_unregister BATADV_TVLV_NC 1 s
      else batadv_tvlv_container_register BATADV_TVLV_NC 1 None 0 s)"

definition batadv_nc_status_update :: "batadv_priv \<Rightarrow> batadv_priv" where
  "batadv_nc_status_update = batadv_nc_tvlv_container_update"

definition batadv_nc_init_bat_priv :: "batadv_priv \<Rightarrow> batadv_priv" where
  "batadv_nc_init_bat_priv s = nc_mod (\<lambda>nc. nc\<lparr>nc_min_tq := 200, nc_max_fwd_delay := 10, nc_max_buffer_time := 200\<rparr>)
     (s\<lparr>bp_network_coding := False\<rparr>)"

definition batadv_nc_mesh_init :: "kenv \<Rightarrow> batadv_priv \<Rightarrow> int \<times> batadv_priv" where
  "batadv_nc_mesh_init k s =
     (let s = nc_mod (\<lambda>nc. nc\<lparr>nc_timestamp_fwd_flush := k_jiffies k, nc_timestamp_sniffed_purge := k_jiffies k\<rparr>) s in
      if nc_coding_hash (bp_nc s) \<noteq> None \<or> nc_decoding_hash (bp_nc s) \<noteq> None then (0, s)
      else
        (let (ok, s) = kzalloc s;
             s = nc_hash_put Coding_Pool (batadv_hash_new ok 128) s
         in if \<not> ok then (- 12, s)
            else
              (let (ok, s) = kzalloc s;
                   s = nc_hash_put Decoding_Pool (batadv_hash_new ok 128) s
               in if \<not> ok then (- 12, s)
                  else (0, batadv_nc_tvlv_container_update
                        (batadv_tvlv_handler_register True False BATADV_TVLV_NC 1 BATADV_TVLV_HANDLER_OGM_CIFNOTFND s)))))"

definition batadv_nc_mesh_free :: "batadv_priv \<Rightarrow> batadv_priv" where
  "batadv_nc_mesh_free s =
     (let s = batadv_tvlv_container_unregister BATADV_TVLV_NC 1 s;
          s = batadv_tvlv_handler_unregister BATADV_TVLV_NC 1 s;
          s = batadv_nc_purge_paths Coding_Pool None s
      in batadv_nc_purge_paths Decoding_Pool None s)"

end
