(* ===== verification/Coding_Properties.thy ===== *)
theory Coding_Properties
  imports Coding
begin

text \<open>
  What network coding promises: a coded frame gives each receiver exactly the frame that it
  lacks, if it has kept the other one; and where the code falls short of that.
\<close>

section \<open>Exclusive or\<close>

lemma length_memxor [simp]: "length (batadv_nc_memxor stray dst src n) = length dst"
  by (simp add: batadv_nc_memxor_def)

lemma memxor_long:
  "length src \<le> length dst \<Longrightarrow>
   batadv_nc_memxor st (batadv_nc_memxor st' dst src (length src)) src (length src) = dst"
  by (rule nth_equalityI) (simp_all add: batadv_nc_memxor_def xor.assoc)

lemma xor_twice: "a XOR (b XOR a) = (b :: u8)"
  using xor.assoc [of a a b] by (simp add: xor.commute)

lemma memxor_short:
  "length src \<le> length dst \<Longrightarrow>
   take (length src) (batadv_nc_memxor st (batadv_nc_memxor st' dst src (length src)) dst (length src)) = src"
  by (rule nth_equalityI) (simp_all add: batadv_nc_memxor_def xor.assoc xor_twice)

section \<open>Decoding gives the frame back\<close>

definition plain_unicast :: "u8 list \<Rightarrow> bool" where
  "plain_unicast bs \<longleftrightarrow> 10 \<le> length bs \<and> length bs < 65536 \<and>
     u_packet_type (unicast_of bs) = BATADV_UNICAST \<and> u_version (unicast_of bs) = BATADV_COMPAT_VERSION"

lemma plain_unicast_parts:
  assumes "plain_unicast bs" "p = unicast_of bs"
  shows "unicast_bytes \<lparr>u_packet_type = BATADV_UNICAST, u_version = BATADV_COMPAT_VERSION,
    u_ttl = u_ttl p, u_ttvn = u_ttvn p, u_dest = u_dest p\<rparr> @ drop 10 bs = bs"
proof -
  have p: "\<lparr>u_packet_type = BATADV_UNICAST, u_version = BATADV_COMPAT_VERSION,
      u_ttl = u_ttl p, u_ttvn = u_ttvn p, u_dest = u_dest p\<rparr> = p"
    using assms by (cases p) (simp add: plain_unicast_def)
  have "unicast_bytes p @ drop 10 bs = bs"
    using assms set_unicast_same [of bs] by (simp add: set_unicast_def plain_unicast_def)
  then show ?thesis by (simp only: p)
qed

text \<open>The two frames in the order of the coded header.\<close>

definition nc_first :: "bool \<Rightarrow> sk_buff \<Rightarrow> batadv_nc_packet \<Rightarrow> u8 list" where
  "nc_first stored skb p = (if stored then sk_data (np_skb p) else sk_data skb)"

definition nc_second :: "bool \<Rightarrow> sk_buff \<Rightarrow> batadv_nc_packet \<Rightarrow> u8 list" where
  "nc_second stored skb p = (if stored then sk_data skb else sk_data (np_skb p))"

definition nc_payload :: "u8 \<Rightarrow> u8 list \<Rightarrow> u8 list \<Rightarrow> u8 list" where
  "nc_payload stray a b =
     (if length a \<le> length b then batadv_nc_memxor stray (drop 10 b) (drop 10 a) (length a - 10)
      else batadv_nc_memxor stray (drop 10 a) (drop 10 b) (length b - 10))"

lemma nc_coded_data:
  assumes "plain_unicast (sk_data skb)" "plain_unicast (sk_data (np_skb p))"
  shows "sk_data (nc_coded k st skb p prev n c first) =
    coded_bytes \<lparr>c_packet_type = BATADV_CODED, c_version = BATADV_COMPAT_VERSION,
      c_ttl = u_ttl (unicast_of (nc_first first skb p)), c_first_ttvn = u_ttvn (unicast_of (nc_first first skb p)),
      c_first_source = (if first then prev else sk_source skb), c_first_orig_dest = u_dest (unicast_of (nc_first first skb p)),
      c_first_crc = (if first then np_packet_id p else batadv_skb_crc32 k (drop 10 (sk_data skb))),
      c_second_ttl = u_ttl (unicast_of (nc_second first skb p)), c_second_ttvn = u_ttvn (unicast_of (nc_second first skb p)),
      c_second_dest = (if first then n else c), c_second_source = (if first then sk_source skb else prev),
      c_second_orig_dest = u_dest (unicast_of (nc_second first skb p)),
      c_second_crc = (if first then batadv_skb_crc32 k (drop 10 (sk_data skb)) else np_packet_id p),
      c_coded_len = of_nat (min (length (sk_data skb)) (length (sk_data (np_skb p))) - 10)\<rparr> @
    nc_payload st (sk_data skb) (sk_data (np_skb p))"
  by (simp add: nc_coded_def nc_first_def nc_second_def nc_payload_def Let_def min_def)

text \<open>Whichever of the two frames is kept, the payload gives the other one.\<close>

lemma payload_decoded:
  fixes a b x y :: "u8 list" and st st' :: u8
  assumes "plain_unicast a" "plain_unicast b" and n: "n = min (length a) (length b) - 10"
    and ab: "(x = a \<and> y = b) \<or> (x = b \<and> y = a)"
  defines "m \<equiv> batadv_nc_memxor st (nc_payload st' a b) (drop 10 x) n"
  shows "(if length x > n + 10 then take n m else m) = drop 10 y"
proof -
  have l: "10 \<le> length a" "10 \<le> length b" using assms(1,2) by (simp_all add: plain_unicast_def)
  show ?thesis
  proof (cases "length a \<le> length b")
    case True
    then have n': "n = length (drop 10 a)" "length (drop 10 a) \<le> length (drop 10 b)" using n l by simp_all
    have p: "nc_payload st' a b = batadv_nc_memxor st' (drop 10 b) (drop 10 a) (length (drop 10 a))"
      using True by (simp add: nc_payload_def)
    show ?thesis
      using ab memxor_long [OF n'(2), of st st'] memxor_short [OF n'(2), of st st'] True l
      unfolding m_def p n'(1) by (auto simp: not_less)
  next
    case False
    then have n': "n = length (drop 10 b)" "length (drop 10 b) \<le> length (drop 10 a)" using n l by simp_all
    have p: "nc_payload st' a b = batadv_nc_memxor st' (drop 10 a) (drop 10 b) (length (drop 10 b))"
      using False by (simp add: nc_payload_def)
    show ?thesis
      using ab memxor_long [OF n'(2), of st st'] memxor_short [OF n'(2), of st st'] False l
      unfolding m_def p n'(1) by (auto simp: not_less)
  qed
qed

lemma decode_coded:
  assumes u: "plain_unicast (sk_data skb)" "plain_unicast (sk_data (np_skb p))"
    and a: "bp_allocs s = []" and g: "sk_data g = sk_data (nc_coded k st skb p prev n c first)"
    and my: "my = batadv_is_my_mac s (if first then n else c)"
    and q: "sk_data (np_skb q) = (if my then nc_first first skb p else nc_second first skb p)"
  shows "batadv_nc_skb_decode_packet g q s =
    (Some (g\<lparr>sk_dest := (if my then (if first then n else c) else sk_dest g),
       sk_data := (if my then nc_second first skb p else nc_first first skb p)\<rparr>), s)"
proof -
  let ?n = "min (length (sk_data skb)) (length (sk_data (np_skb p))) - 10"
  let ?w = "if my then nc_second first skb p else nc_first first skb p"
  let ?pay = "nc_payload st (sk_data skb) (sk_data (np_skb p))"
  have l: "10 \<le> length (sk_data skb)" "10 \<le> length (sk_data (np_skb p))" "length (sk_data skb) < 65536"
    "length (sk_data (np_skb p)) < 65536" using u by (simp_all add: plain_unicast_def)
  have un: "unat (of_nat ?n :: u16) = ?n"
  proof -
    have "?n < 2 ^ 16" using l by (auto simp: min_def)
    then show ?thesis by (simp add: unat_of_nat del: of_nat_diff of_nat_min)
  qed
  have w: "plain_unicast ?w" using u by (simp add: nc_first_def nc_second_def)
  have pl: "?n \<le> length ?pay" "length ?pay = max (length (sk_data skb)) (length (sk_data (np_skb p))) - 10"
    by (auto simp: nc_payload_def)
  have ql: "?n + 10 \<le> length (sk_data (np_skb q))" using l q by (auto simp: nc_first_def nc_second_def)
  have d: "drop 10 (drop 36 (sk_data g)) = ?pay" "length (drop 36 (sk_data g)) = 10 + length ?pay"
    unfolding g nc_coded_data [OF u] by simp_all
  have pd: "(if length (sk_data (np_skb q)) > ?n + 10
      then take ?n (batadv_nc_memxor (bp_stray s) ?pay (drop 10 (sk_data (np_skb q))) ?n)
      else batadv_nc_memxor (bp_stray s) ?pay (drop 10 (sk_data (np_skb q))) ?n) = drop 10 ?w"
    by (rule payload_decoded [OF u refl]) (auto simp: q nc_first_def nc_second_def)
  have c: "coded_of (sk_data g) = coded_of (sk_data (nc_coded k st skb p prev n c first))" unfolding g ..
  have cf: "c_second_dest (coded_of (sk_data g)) = (if first then n else c)"
    "unat (c_coded_len (coded_of (sk_data g))) = ?n"
    "(if my then (c_second_orig_dest (coded_of (sk_data g)), c_second_ttl (coded_of (sk_data g)), c_second_ttvn (coded_of (sk_data g)))
      else (c_first_orig_dest (coded_of (sk_data g)), c_ttl (coded_of (sk_data g)), c_first_ttvn (coded_of (sk_data g))))
     = (u_dest (unicast_of ?w), u_ttl (unicast_of ?w), u_ttvn (unicast_of ?w))"
    unfolding c nc_coded_data [OF u] using un by simp_all
  have k: "kzalloc s = (True, s)" using a by (simp add: kzalloc_eq)
  have ok: "\<not> length (drop 36 (sk_data g)) < ?n"
    "\<not> (length (drop 36 (sk_data g)) < 10 + ?n \<or> length (sk_data (np_skb q)) < 10 + ?n)"
    using pl(1) ql d(2) by simp_all
  show ?thesis
    unfolding batadv_nc_skb_decode_packet_def Let_def k prod.case cf(1,2) my [symmetric] cf(3) d(1) if_not_P [OF ok(1)] if_not_P [OF ok(2)]
    using plain_unicast_parts [OF w refl] pd by (simp add: add.commute)
qed

section \<open>What is kept\<close>

definition pool_packets :: "batadv_nc_path hashtable \<Rightarrow> batadv_nc_packet set" where
  "pool_packets h = (\<Union>p \<in> set (hash_elems h). set (np_packet_list p))"

definition nc_wf :: "kenv \<Rightarrow> batadv_nc_path hashtable \<Rightarrow> bool" where
  "nc_wf k = hash_wf nc_path_key (batadv_nc_hash_choose k)"

definition decoding_set :: "batadv_nc_path hashtable \<Rightarrow> batadv_priv \<Rightarrow> batadv_priv" where
  "decoding_set h = nc_mod (\<lambda>nc. nc\<lparr>nc_decoding_hash := Some h\<rparr>)"

lemma decoding_set_set [simp]:
  "nc_hash Decoding_Pool (decoding_set h s) = Some h" "decoding_set h (decoding_set h' s) = decoding_set h s"
  "nc_hash_put Decoding_Pool (Some h) s = decoding_set h s" "bp_allocs (decoding_set h s) = bp_allocs s"
  "bp_panic (decoding_set h s) = bp_panic s" "bp_network_coding (decoding_set h s) = bp_network_coding s"
  "batadv_is_my_mac (decoding_set h s) a = batadv_is_my_mac s a" "nc_decoding_hash (bp_nc (decoding_set h s)) = Some h"
  by (simp_all add: decoding_set_def nc_mod_def nc_hash_def nc_hash_put_def batadv_is_my_mac_def)

lemma nc_path_mod_set:
  "nc_hash Decoding_Pool s = Some h \<Longrightarrow> nc_path_mod Decoding_Pool key f s
    = decoding_set (hash_map (\<lambda>p. if nc_path_key p = key then f p else p) h) s"
  by (simp add: nc_path_mod_def)

lemma nc_get_path:
  assumes h: "nc_hash Decoding_Pool s = Some h" "nc_wf k h" and a: "bp_allocs s = []"
  shows "\<exists>h1. batadv_nc_get_path k Decoding_Pool src dst s = (True, decoding_set h1 s) \<and> nc_wf k h1 \<and>
    pool_packets h1 = pool_packets h \<and> (\<exists>p \<in> set (hash_elems h1). nc_path_key p = (src, dst))"
proof (cases "batadv_nc_hash_find k (Some h) (src, dst)")
  case (Some p)
  let ?h1 = "hash_map (\<lambda>p. if nc_path_key p = (src, dst) then p\<lparr>np_last_valid := k_jiffies k\<rparr> else p) h"
  have kk: "nc_path_key (p\<lparr>np_last_valid := v\<rparr>) = nc_path_key p" for p v by (simp add: nc_path_key_def)
  have p: "p \<in> set (hash_elems h)" "nc_path_key p = (src, dst)"
    using Some nc_ht.lookup_iff [of k h "(src, dst)" p] h(2) by (simp_all add: batadv_nc_hash_find_def nc_wf_def)
  have "batadv_nc_get_path k Decoding_Pool src dst s = (True, decoding_set ?h1 s)"
    using Some h(1) by (simp add: batadv_nc_get_path_def batadv_nc_hash_key_gen_def nc_path_mod_set Let_def)
  moreover have "nc_wf k ?h1" using h(2) unfolding nc_wf_def by (rule hash_wf_map) (simp add: kk)
  moreover have "pool_packets ?h1 = pool_packets h" by (auto simp: pool_packets_def hash_elems_map)
  moreover have "\<exists>p \<in> set (hash_elems ?h1). nc_path_key p = (src, dst)"
    using p by (intro bexI [of _ "p\<lparr>np_last_valid := k_jiffies k\<rparr>"]) (auto simp: hash_elems_map kk intro!: image_eqI)
  ultimately show ?thesis by blast
next
  case None
  let ?p = "\<lparr>np_prev_hop = src, np_next_hop = dst, np_last_valid = k_jiffies k, np_packet_list = []\<rparr>"
  have n: "hash_lookup h batadv_nc_hash_compare (batadv_nc_hash_choose k) (nc_path_key ?p) = None"
    using None by (simp add: batadv_nc_hash_find_def nc_path_key_def)
  obtain h1 where h1: "batadv_hash_add (Some h) batadv_nc_hash_compare (batadv_nc_hash_choose k) (nc_path_key ?p) ?p = (0, Some h1)"
      "nc_wf k h1" "mset (hash_elems h1) = add_mset ?p (mset (hash_elems h))"
    using nc_ht.add_fresh [OF h(2) [unfolded nc_wf_def] n] unfolding nc_wf_def by blast
  have e: "set (hash_elems h1) = insert ?p (set (hash_elems h))"
    using arg_cong [OF h1(3), of set_mset] by simp
  have "batadv_nc_get_path k Decoding_Pool src dst s = (True, decoding_set h1 s)"
    using None h(1) h1(1) a
    by (simp add: batadv_nc_get_path_def batadv_nc_hash_key_gen_def Let_def kzalloc_def nc_path_key_def)
  moreover have "pool_packets h1 = pool_packets h" by (simp add: pool_packets_def e)
  ultimately show ?thesis using h1(2) e by (auto simp: nc_path_key_def intro!: exI [of _ h1])
qed

lemma nc_stored:
  assumes h: "nc_hash Decoding_Pool s = Some h" "nc_wf k h" and a: "bp_allocs s = []"
    and on: "bp_network_coding s" "sk_data f ! 0 = BATADV_UNICAST"
  shows "\<exists>h1. batadv_nc_skb_store_for_decoding k f s = decoding_set h1 s \<and> nc_wf k h1 \<and>
    (\<forall>q \<in> pool_packets h1. q \<in> pool_packets h \<or> np_skb q = f) \<and>
    (\<exists>p \<in> set (hash_elems h1). nc_path_key p = (sk_source f, sk_dest f) \<and>
      (\<exists>q \<in> set (np_packet_list p). np_packet_id q = batadv_skb_crc32 k (drop 10 (sk_data f))))"
proof -
  obtain h1 where h1: "batadv_nc_get_path k Decoding_Pool (sk_source f) (sk_dest f) s = (True, decoding_set h1 s)"
      "nc_wf k h1" "pool_packets h1 = pool_packets h"
    and p: "\<exists>p \<in> set (hash_elems h1). nc_path_key p = (sk_source f, sk_dest f)"
    using nc_get_path [OF h a] by blast
  let ?q = "\<lparr>np_packet_id = batadv_skb_crc32 k (drop 10 (sk_data f)), np_timestamp = k_jiffies k, np_neigh_node = None, np_skb = f\<rparr>"
  let ?f = "\<lambda>p. if nc_path_key p = (sk_source f, sk_dest f) then p\<lparr>np_packet_list := np_packet_list p @ [?q]\<rparr> else p"
  let ?h2 = "hash_map ?f h1"
  have kk: "nc_path_key (p\<lparr>np_packet_list := v\<rparr>) = nc_path_key p" for p v by (simp add: nc_path_key_def)
  have "batadv_nc_skb_store_for_decoding k f s = decoding_set ?h2 s"
    using on a h1(1)
    by (simp add: batadv_nc_skb_store_for_decoding_def batadv_nc_skb_add_to_path_def kzalloc_def Let_def
        batadv_nc_hash_key_gen_def nc_path_mod_set [where h = h1])
  moreover have "nc_wf k ?h2" using h1(2) unfolding nc_wf_def by (rule hash_wf_map) (simp add: kk)
  moreover have "\<forall>q \<in> pool_packets ?h2. q \<in> pool_packets h \<or> np_skb q = f"
    unfolding h1(3) [symmetric] by (auto simp: pool_packets_def hash_elems_map split: if_splits)
  moreover have "\<exists>p \<in> set (hash_elems ?h2). nc_path_key p = (sk_source f, sk_dest f) \<and>
      (\<exists>q \<in> set (np_packet_list p). np_packet_id q = batadv_skb_crc32 k (drop 10 (sk_data f)))"
  proof -
    obtain p where "p \<in> set (hash_elems h1)" "nc_path_key p = (sk_source f, sk_dest f)" using p by blast
    then show ?thesis
      by (intro bexI [of _ "p\<lparr>np_packet_list := np_packet_list p @ [?q]\<rparr>"]) (auto simp: hash_elems_map kk intro!: image_eqI)
  qed
  ultimately show ?thesis by blast
qed

text \<open>A packet that was kept is found again, if no other one has its checksum.\<close>

lemma nc_found:
  assumes wf: "nc_wf k h" and p: "p \<in> set (hash_elems h)" "nc_path_key p = key" "list_ex has_id (np_packet_list p)"
  shows "\<exists>p'. hash_lookup h (\<lambda>p _. list_ex has_id (np_packet_list p)) (batadv_nc_hash_choose k) key = Some p' \<and>
    p' \<in> set (hash_elems h) \<and> list_ex has_id (np_packet_list p')"
proof -
  let ?b = "ht_table h ! unat (batadv_nc_hash_choose k key (ht_size h))"
  have "hash_lookup h batadv_nc_hash_compare (batadv_nc_hash_choose k) key = Some p"
    using p nc_ht.lookup_iff [OF wf [unfolded nc_wf_def]] by simp
  then have "p \<in> set ?b" by (auto simp: hash_lookup_def find_Some_iff)
  then obtain p' where p': "find (\<lambda>p. list_ex has_id (np_packet_list p)) ?b = Some p'"
    using p(3) by (cases "find (\<lambda>p. list_ex has_id (np_packet_list p)) ?b") (auto simp: find_None_iff)
  then have "p' \<in> set ?b" "list_ex has_id (np_packet_list p')" by (auto simp: find_Some_iff)
  moreover have "set ?b \<subseteq> set (hash_elems h)"
    using nc_ht.index_less [OF wf [unfolded nc_wf_def], of key] by (auto simp: set_hash_elems intro: nth_mem)
  ultimately show ?thesis using p' by (auto simp: hash_lookup_def)
qed

lemma nc_kept_found:
  assumes h: "nc_hash Decoding_Pool s = Some h" "nc_wf k h" and a: "bp_allocs s = []"
    and on: "bp_network_coding s" "sk_data f ! 0 = BATADV_UNICAST"
    and fresh: "\<forall>q \<in> pool_packets h. np_packet_id q \<noteq> batadv_skb_crc32 k (drop 10 (sk_data f))"
    and key: "(if batadv_is_my_mac s (c_second_dest c) then (c_first_source c, c_first_crc c)
        else (c_second_source c, c_second_crc c)) = (sk_source f, batadv_skb_crc32 k (drop 10 (sk_data f)))"
      "src = sk_dest f"
  shows "\<exists>h2 q. batadv_nc_find_decoding_packet k src c (batadv_nc_skb_store_for_decoding k f s)
    = (Some q, decoding_set h2 s) \<and> np_skb q = f"
proof -
  let ?id = "batadv_skb_crc32 k (drop 10 (sk_data f))"
  let ?has = "\<lambda>q. np_packet_id q = ?id"
  obtain h1 p where h1: "batadv_nc_skb_store_for_decoding k f s = decoding_set h1 s" "nc_wf k h1"
      "\<forall>q \<in> pool_packets h1. q \<in> pool_packets h \<or> np_skb q = f"
    and p: "p \<in> set (hash_elems h1)" "nc_path_key p = (sk_source f, sk_dest f)" "list_ex ?has (np_packet_list p)"
    using nc_stored [OF h a on] by (auto simp: list_ex_iff)
  obtain p' where p': "hash_lookup h1 (\<lambda>p _. list_ex ?has (np_packet_list p)) (batadv_nc_hash_choose k) (sk_source f, sk_dest f)
      = Some p'" "p' \<in> set (hash_elems h1)" "list_ex ?has (np_packet_list p')"
    using nc_found [OF h1(2) p] by blast
  have "find ?has (np_packet_list p') \<noteq> None" using p'(3) by (auto simp: list_ex_iff find_None_iff)
  then obtain q rest where q: "hlist_del_first ?has (np_packet_list p') = (Some q, rest)"
    using hlist_del_first_find [of ?has "np_packet_list p'"] by (cases "hlist_del_first ?has (np_packet_list p')") auto
  have fq: "find ?has (np_packet_list p') = Some q" using hlist_del_first_find [of ?has "np_packet_list p'"] q by simp
  then have "q \<in> set (np_packet_list p')" "np_packet_id q = ?id" by (auto simp: find_Some_iff)
  then have "q \<in> pool_packets h1" "np_packet_id q = ?id" using p'(2) by (auto simp: pool_packets_def)
  then have "np_skb q = f" using h1(3) fresh by blast
  moreover have "batadv_nc_find_decoding_packet k src c (decoding_set h1 s) =
      (Some q, decoding_set (hash_map (\<lambda>p. if nc_path_key p = nc_path_key p' then p\<lparr>np_packet_list := rest\<rparr> else p) h1) s)"
    unfolding batadv_nc_find_decoding_packet_def using key p'(1) q
    by (auto simp: Let_def batadv_nc_hash_key_gen_def nc_path_mod_set [where h = h1])
  ultimately show ?thesis unfolding h1(1) by blast
qed

section \<open>Properties\<close>


text \<open>The choice which of two receivers gets the coded frame acknowledged by the link layer is to favour
  the worse link. The product of the random number and the loss is cut to eight bits before it is
  divided by 255, so that whatever the quality of a link is, its weight is 254 or 255.\<close>

theorem nc_weight_ignores_quality:
  "254 \<le> batadv_nc_random_weight_tq r tq"
proof -
  have "unat (r * (255 - tq)) \<le> 255" by (rule unat_u8_le)
  then have "unat (r * (255 - tq)) div 255 \<le> 255 div 255" by (rule div_le_mono)
  then have "unat (r * (255 - tq) div 255) \<le> 1" by (simp add: unat_div)
  then have "unat (r * (255 - tq) div 255) = 0 \<or> unat (r * (255 - tq) div 255) = 1" by linarith
  then have "r * (255 - tq) div 255 = 0 \<or> r * (255 - tq) div 255 = 1"
    by (metis unat_0 unat_1 unat_eq_unat_iff)
  then show ?thesis
    by (auto simp: batadv_nc_random_weight_tq_def Let_def)
qed

text \<open>C37: A coded frame can make the node write behind its buffer. The length of the coded part is compared
  with the frame that still has its header of ten bytes; a length of up to ten bytes more than there is
  payload passes, and the loop runs over the end.\<close>

theorem nc_decoding_overruns:
  assumes "bp_allocs s = []" "length (sk_data g) \<ge> 46"
    and "length (sk_data g) - 46 < unat (c_coded_len (coded_of (sk_data g)))"
      "unat (c_coded_len (coded_of (sk_data g))) \<le> length (sk_data g) - 36"
  shows "fst (batadv_nc_skb_decode_packet g q s) \<noteq> None \<and> bp_panic (snd (batadv_nc_skb_decode_packet g q s))"
  using assms by (auto simp: batadv_nc_skb_decode_packet_def Let_def kzalloc_def)

section \<open>Examples\<close>

text \<open>A node with empty pools, and two frames that cross at the relay with address 3.\<close>

definition nc_example :: batadv_priv where
  "nc_example = (tvlv_example [] [])\<lparr>bp_network_coding := True, bp_hardif_list := [0],
     bp_nc := (bp_nc (tvlv_example [] []))\<lparr>nc_decoding_hash := batadv_hash_new True 4\<rparr>\<rparr>"

definition nc_env :: kenv where
  "nc_env = \<lparr>k_jiffies = 1000, k_m2j = (\<lambda>m. ucast m), k_jhash = (\<lambda>b i. 0), k_crc16 = (\<lambda>b. 0),
     k_crc32c = (\<lambda>c b. c + foldl (\<lambda>a x. a * 7 + ucast x) 3 b),
     k_arp_create = (\<lambda>_ _ _ _ _. [])\<rparr>"

definition nc_example_frame :: "u8 list \<Rightarrow> sk_buff" where
  "nc_example_frame payload = \<lparr>sk_source = 0, sk_dest = 3,
     sk_data = unicast_bytes \<lparr>u_packet_type = BATADV_UNICAST, u_version = BATADV_COMPAT_VERSION, u_ttl = 50, u_ttvn = 1,
       u_dest = 9\<rparr> @ payload, sk_priority = 0, sk_mark = 0, sk_decoded = False\<rparr>"

definition nc_example_kept :: batadv_nc_packet where
  "nc_example_kept = \<lparr>np_packet_id = batadv_skb_crc32 nc_env [1, 2, 3], np_timestamp = 0, np_neigh_node = Some 0,
     np_skb = nc_example_frame [1, 2, 3]\<rparr>"

lemma nc_example_wf: "nc_decoding_hash (bp_nc nc_example) = Some \<lparr>ht_table = [[], [], [], []], ht_size = 4\<rparr>"
  "nc_wf nc_env \<lparr>ht_table = [[], [], [], []], ht_size = 4\<rparr>"
proof -
  have "replicate (unat (4 :: 32 word)) ([] :: batadv_nc_path list) = [[], [], [], []]" by code_simp
  then show "nc_decoding_hash (bp_nc nc_example) = Some \<lparr>ht_table = [[], [], [], []], ht_size = 4\<rparr>"
    by (simp add: nc_example_def batadv_hash_new_def batadv_hash_init_def)
  have "unat (4 :: 32 word) = Suc (Suc (Suc (Suc 0)))" by simp
  then show "nc_wf nc_env \<lparr>ht_table = [[], [], [], []], ht_size = 4\<rparr>"
    by (auto simp: nc_wf_def hash_wf_def less_Suc_eq)
qed

lemma nc_example_facts: "bp_allocs nc_example = []" "bp_network_coding nc_example"
  "\<not> batadv_is_my_mac nc_example 5" "batadv_is_my_mac nc_example 0"
  by (simp_all add: nc_example_def tvlv_example_def batadv_is_my_mac_def)

lemma nc_example_frames: "plain_unicast (sk_data (nc_example_frame [7, 8, 9, 10]))"
  "plain_unicast (sk_data (np_skb nc_example_kept))"
  "sk_source (nc_example_frame p) = 0" "sk_dest (nc_example_frame p) = 3" "sk_decoded (nc_example_frame p) = False"
  by (simp_all add: plain_unicast_def nc_example_frame_def nc_example_kept_def)


text \<open>A coded frame of 50 bytes whose length field says 14.\<close>

theorem nc_decoding_overruns_witness:
  "bp_panic (snd (batadv_nc_skb_decode_packet
     ((nc_example_frame [])\<lparr>sk_data := replicate 45 0 @ [14, 0, 0, 0, 0]\<rparr>) nc_example_kept nc_example))"
proof -
  let ?g = "(nc_example_frame [])\<lparr>sk_data := replicate 45 0 @ [14, 0, 0, 0, 0]\<rparr>"
  have l: "length (sk_data ?g) = 50" "unat (c_coded_len (coded_of (sk_data ?g))) = 14" by code_simp+
  have "bp_allocs nc_example = []" by (simp add: nc_example_def tvlv_example_def)
  then show ?thesis using nc_decoding_overruns [of nc_example ?g nc_example_kept] l by simp
qed

end
