(* ===== verification/Unicast.thy ===== *)
theory Unicast
  imports Coding Send
begin

text \<open>
  The way of a packet to an originator: the choice of the next hop (\<open>batadv_find_router\<close> of
  \<open>routing.c\<close>, with the bonding mode that alternates between interfaces), and the
  headers and the sending of \<open>send.c\<close>. The algorithm in use decides how neighbours are compared;
  the comparisons of B.A.T.M.A.N. V (\<open>bat_v.c\<close>) are here because of that.

  \<open>skb_cow\<close>, \<open>skb_linearize\<close> and \<open>skb_copy\<close> take their outcome from the allocations. The
  fragments of a packet are made before they are sent: which of two allocations is asked for first
  makes no difference.
\<close>

section \<open>The algorithm in use\<close>

text \<open>
  The difference of two unsigned values is returned as an \<open>int\<close>. The second comparison
  follows both pointers without a test: \<open>None\<close> is the access through NULL.
\<close>

definition batadv_v_neigh_cmp :: neigh_cmp where
  "batadv_v_neigh_cmp s neigh1 if_outgoing1 neigh2 if_outgoing2 =
     (case (batadv_neigh_ifinfo_get s neigh1 if_outgoing1, batadv_neigh_ifinfo_get s neigh2 if_outgoing2) of
        (Some ifinfo1, Some ifinfo2) \<Rightarrow> sint (ni_throughput ifinfo1 - ni_throughput ifinfo2)
      | _ \<Rightarrow> 0)"

definition batadv_v_neigh_is_sob ::
  "batadv_priv \<Rightarrow> nat \<Rightarrow> nat option \<Rightarrow> nat \<Rightarrow> nat option \<Rightarrow> bool option" where
  "batadv_v_neigh_is_sob s neigh1 if_outgoing1 neigh2 if_outgoing2 =
     (case (batadv_neigh_ifinfo_get s neigh1 if_outgoing1, batadv_neigh_ifinfo_get s neigh2 if_outgoing2) of
        (Some ifinfo1, Some ifinfo2) \<Rightarrow>
          (let threshold = ni_throughput ifinfo1 div 4;
               threshold = ni_throughput ifinfo1 - threshold
           in Some (ni_throughput ifinfo2 > threshold))
      | _ \<Rightarrow> None)"

definition bat_neigh_cmp :: neigh_cmp where
  "bat_neigh_cmp s = (if bp_algo_iv s then batadv_iv_ogm_neigh_cmp s else batadv_v_neigh_cmp s)"

definition bat_neigh_is_similar_or_better ::
  "batadv_priv \<Rightarrow> nat \<Rightarrow> nat option \<Rightarrow> nat \<Rightarrow> nat option \<Rightarrow> bool option" where
  "bat_neigh_is_similar_or_better s neigh1 if_outgoing1 neigh2 if_outgoing2 =
     (if bp_algo_iv s then Some (batadv_iv_ogm_neigh_is_sob s neigh1 if_outgoing1 neigh2 if_outgoing2)
      else batadv_v_neigh_is_sob s neigh1 if_outgoing1 neigh2 if_outgoing2)"

section \<open>The next hop\<close>

text \<open>
  The loop over the candidates of bonding: the first suitable candidate and the first one behind the
  previously used one; \<open>None\<close> for an access through NULL.
\<close>

fun bonding_search ::
  "batadv_priv \<Rightarrow> nat \<Rightarrow> nat option \<Rightarrow> batadv_orig_ifinfo option \<Rightarrow> batadv_orig_ifinfo list
   \<Rightarrow> batadv_orig_ifinfo option \<Rightarrow> bool \<Rightarrow> (batadv_orig_ifinfo option \<times> batadv_orig_ifinfo option) option" where
  "bonding_search s router recv_if last_candidate [] first_candidate last_candidate_found = Some (first_candidate, None)"
| "bonding_search s router recv_if last_candidate (cand # rest) first_candidate last_candidate_found =
     (case oi_router cand of
        None \<Rightarrow> bonding_search s router recv_if last_candidate rest first_candidate last_candidate_found
      | Some cand_router \<Rightarrow>
          (case bat_neigh_is_similar_or_better s cand_router (oi_if_outgoing cand) router recv_if of
             None \<Rightarrow> None
           | Some False \<Rightarrow> bonding_search s router recv_if last_candidate rest first_candidate last_candidate_found
           | Some True \<Rightarrow>
               if Option.bind last_candidate oi_router = Some cand_router
               then bonding_search s router recv_if last_candidate rest first_candidate last_candidate_found
               else
                 (let first_candidate = (if first_candidate = None then Some cand else first_candidate)
                  in if last_candidate = None \<or> last_candidate_found then Some (first_candidate, Some cand)
                     else bonding_search s router recv_if last_candidate rest first_candidate
                            (last_candidate_found \<or> map_option oi_if_outgoing last_candidate = Some (oi_if_outgoing cand)))))"

definition batadv_find_router :: "nat \<Rightarrow> nat option \<Rightarrow> batadv_priv \<Rightarrow> nat option \<times> batadv_priv" where
  "batadv_find_router orig_node recv_if s =
     (case batadv_orig_router_get s orig_node recv_if of
        None \<Rightarrow> (None, s)
      | Some router \<Rightarrow>
          if \<not> (recv_if = None \<and> bp_bonding s) then (Some router, s)
          else
            (let last_candidate = Option.bind (on_last_bonding_candidate (orig_of s orig_node))
                   (batadv_orig_ifinfo_get s orig_node);
                 take_cand = (\<lambda>cand. (oi_router cand, orig_mod orig_node
                   (\<lambda>n. n\<lparr>on_last_bonding_candidate := Some (oi_if_outgoing cand)\<rparr>) s))
             in case bonding_search s router recv_if last_candidate (on_ifinfo_list (orig_of s orig_node)) None False of
                  None \<Rightarrow> (None, s\<lparr>bp_panic := True\<rparr>)
                | Some (_, Some next_candidate) \<Rightarrow> take_cand next_candidate
                | Some (Some first_candidate, None) \<Rightarrow> take_cand first_candidate
                | Some (None, None) \<Rightarrow>
                    (Some router, orig_mod orig_node (\<lambda>n. n\<lparr>on_last_bonding_candidate := None\<rparr>) s)))"

section \<open>Fragments on the wire\<close>

text \<open>The number of a fragment is in the upper half of its byte.\<close>

definition frag_bytes :: "batadv_frag_packet \<Rightarrow> u8 list" where
  "frag_bytes p = [fp_packet_type p, fp_version p, fp_ttl p, push_bit 4 (ucast (fp_no p))] @ be_bytes 6 (fp_dest p) @
     be_bytes 6 (fp_orig p) @ be_bytes 2 (fp_seqno p) @ be_bytes 2 (fp_total_size p)"

definition frag_of :: "u8 list \<Rightarrow> batadv_frag_packet" where
  "frag_of bs = \<lparr>fp_packet_type = bs ! 0, fp_version = bs ! 1, fp_ttl = bs ! 2, fp_no = ucast (drop_bit 4 (bs ! 3)),
     fp_dest = field_at bs 4 6, fp_orig = field_at bs 10 6, fp_seqno = field_at bs 16 2, fp_total_size = field_at bs 18 2\<rparr>"

definition frag_data :: "frag_skb \<Rightarrow> u8 list" where
  "frag_data f = frag_bytes (fs_hdr f) @ fs_payload f"

lemma length_frag [simp]: "length (frag_bytes p) = 20"
  by (simp add: frag_bytes_def)

lemma frag_no_field: "ucast (drop_bit 4 (push_bit 4 (ucast (n :: 4 word)) :: u8)) = n"
  by (rule bit_word_eqI) (auto simp: bit_simps)

lemma frag_of_bytes [simp]: "frag_of (frag_bytes p @ rest) = p"
  by (cases p) (simp add: frag_of_def frag_bytes_def field_at_def be_word_bytes frag_no_field)

definition kzallocs :: "nat \<Rightarrow> batadv_priv \<Rightarrow> (nat \<Rightarrow> bool) \<times> batadv_priv" where
  "kzallocs n s = ((\<lambda>i. if i < length (bp_allocs s) then bp_allocs s ! i else True), s\<lparr>bp_allocs := drop n (bp_allocs s)\<rparr>)"

definition frag_transmit :: "kenv \<Rightarrow> sk_buff \<Rightarrow> nat \<Rightarrow> nat \<Rightarrow> batadv_priv \<Rightarrow> bool \<times> batadv_priv" where
  "frag_transmit k skb orig_node neigh_node s =
     (let (alloc, s) = kzallocs 15 s;
          (push_ok, s) = kzalloc s;
          mtu = of_nat (hi_mtu (hardif_of s (nn_if_incoming (neigh_of s neigh_node))))
      in case batadv_frag_send_packet alloc push_ok (map_option (\<lambda>i. hi_dev_addr (hardif_of s i)) (bp_primary_if s))
                (bp_frag_seqno s) mtu (on_orig (orig_of s orig_node)) (sk_data skb) of
           None \<Rightarrow> (False, s)
         | Some (ret, seqno, sent) \<Rightarrow>
             (ret, fold (\<lambda>f s. snd (batadv_send_unicast_skb k (skb\<lparr>sk_data := frag_data f\<rparr>) neigh_node s)) sent
                     (s\<lparr>bp_frag_seqno := seqno\<rparr>)))"

section \<open>Sending to an originator\<close>

definition batadv_send_skb_to_orig :: "kenv \<Rightarrow> sk_buff \<Rightarrow> nat \<Rightarrow> nat option \<Rightarrow> batadv_priv \<Rightarrow> int \<times> batadv_priv" where
  "batadv_send_skb_to_orig k skb orig_node recv_if s =
     (case batadv_find_router orig_node recv_if s of
        (None, s) \<Rightarrow> (NET_XMIT_DROP, s)
      | (Some neigh_node, s) \<Rightarrow>
          if bp_fragmentation s \<and> length (sk_data skb) > hi_mtu (hardif_of s (nn_if_incoming (neigh_of s neigh_node))) then
            (let (ok, s) = frag_transmit k skb orig_node neigh_node s
             in (if ok then NET_XMIT_SUCCESS else NET_XMIT_DROP, s))
          else
            (let (forwarded, s) = (if recv_if \<noteq> None then batadv_nc_skb_forward k skb neigh_node s else (False, s))
             in if forwarded then (NET_XMIT_POLICED, s)
                else (NET_XMIT_SUCCESS, snd (batadv_send_unicast_skb k skb neigh_node s))))"

text \<open>The fields behind the unicast header are the caller's to fill.\<close>

definition batadv_send_skb_push_fill_unicast ::
  "sk_buff \<Rightarrow> nat \<Rightarrow> nat \<Rightarrow> batadv_priv \<Rightarrow> sk_buff option \<times> batadv_priv" where
  "batadv_send_skb_push_fill_unicast skb hdr_size orig_node s =
     (let (ok, s) = kzalloc s in
      if \<not> ok then (None, s)
      else
        (let unicast_packet = \<lparr>u_packet_type = BATADV_UNICAST, u_version = BATADV_COMPAT_VERSION, u_ttl = BATADV_TTL,
               u_ttvn = on_last_ttvn (orig_of s orig_node), u_dest = on_orig (orig_of s orig_node)\<rparr>
         in (Some (skb\<lparr>sk_data := unicast_bytes unicast_packet @ replicate (hdr_size - 10) (bp_stray s) @ sk_data skb\<rparr>), s)))"

definition batadv_send_skb_prepare_unicast :: "sk_buff \<Rightarrow> nat \<Rightarrow> batadv_priv \<Rightarrow> sk_buff option \<times> batadv_priv" where
  "batadv_send_skb_prepare_unicast skb orig_node = batadv_send_skb_push_fill_unicast skb 10 orig_node"

definition batadv_send_skb_prepare_unicast_4addr ::
  "sk_buff \<Rightarrow> nat \<Rightarrow> u8 \<Rightarrow> batadv_priv \<Rightarrow> sk_buff option \<times> batadv_priv" where
  "batadv_send_skb_prepare_unicast_4addr skb orig packet_subtype s =
     (case bp_primary_if s of
        None \<Rightarrow> (None, s)
      | Some primary_if \<Rightarrow>
          (case batadv_send_skb_push_fill_unicast skb 18 orig s of
             (None, s) \<Rightarrow> (None, s)
           | (Some skb, s) \<Rightarrow>
               (let uc_4addr_packet = \<lparr>a_u = (unicast_of (sk_data skb))\<lparr>u_packet_type := BATADV_UNICAST_4ADDR\<rparr>,
                      a_src = hi_dev_addr (hardif_of s primary_if), a_subtype = packet_subtype, a_reserved = 0\<rparr>
                in (Some (skb\<lparr>sk_data := unicast_4addr_bytes uc_4addr_packet @ drop 18 (sk_data skb)\<rparr>), s))))"

definition batadv_send_skb_unicast ::
  "kenv \<Rightarrow> sk_buff \<Rightarrow> u8 \<Rightarrow> u8 \<Rightarrow> nat option \<Rightarrow> vid \<Rightarrow> batadv_priv \<Rightarrow> int \<times> batadv_priv" where
  "batadv_send_skb_unicast k skb packet_type packet_subtype orig_node vid s =
     (case orig_node of
        None \<Rightarrow> (NET_XMIT_DROP, s)
      | Some orig_node \<Rightarrow>
          (let (prepared, s) =
             (if packet_type = BATADV_UNICAST then batadv_send_skb_prepare_unicast skb orig_node s
              else if packet_type = BATADV_UNICAST_4ADDR
              then batadv_send_skb_prepare_unicast_4addr skb orig_node packet_subtype s
              else (None, s))
           in case prepared of
                None \<Rightarrow> (NET_XMIT_DROP, s)
              | Some skb \<Rightarrow>
                  (let unicast_packet = unicast_of (sk_data skb);
                       skb = (if batadv_tt_global_client_is_roaming k (sk_dest skb) vid s
                              then skb\<lparr>sk_data := set_unicast (unicast_packet\<lparr>u_ttvn := u_ttvn unicast_packet - 1\<rparr>) (sk_data skb)\<rparr>
                              else skb);
                       (ret, s) = batadv_send_skb_to_orig k skb orig_node None s
                   in (if ret \<noteq> NET_XMIT_DROP then NET_XMIT_SUCCESS else NET_XMIT_DROP, s))))"

definition batadv_send_skb_via_tt_generic ::
  "kenv \<Rightarrow> sk_buff \<Rightarrow> u8 \<Rightarrow> u8 \<Rightarrow> mac option \<Rightarrow> vid \<Rightarrow> batadv_priv \<Rightarrow> int \<times> batadv_priv" where
  "batadv_send_skb_via_tt_generic k skb packet_type packet_subtype dst_hint vid s =
     (let (src, dst) = (case dst_hint of
                          None \<Rightarrow> (Some (eth_source (sk_data skb)), eth_dest (sk_data skb))
                        | Some hint \<Rightarrow> (None, hint));
          orig_node = batadv_transtable_search k bat_neigh_cmp src dst vid s
      in batadv_send_skb_unicast k skb packet_type packet_subtype orig_node vid s)"

definition batadv_send_skb_via_tt :: "kenv \<Rightarrow> sk_buff \<Rightarrow> mac option \<Rightarrow> vid \<Rightarrow> batadv_priv \<Rightarrow> int \<times> batadv_priv" where
  "batadv_send_skb_via_tt k skb dst_hint vid = batadv_send_skb_via_tt_generic k skb BATADV_UNICAST 0 dst_hint vid"

definition batadv_send_skb_via_tt_4addr ::
  "kenv \<Rightarrow> sk_buff \<Rightarrow> u8 \<Rightarrow> mac option \<Rightarrow> vid \<Rightarrow> batadv_priv \<Rightarrow> int \<times> batadv_priv" where
  "batadv_send_skb_via_tt_4addr k skb packet_subtype dst_hint vid =
     batadv_send_skb_via_tt_generic k skb BATADV_UNICAST_4ADDR packet_subtype dst_hint vid"

end
