(* ===== verification/Gateway.thy ===== *)
theory Gateway
  imports Unicast "HOL-Library.Char_ord"
begin

text \<open>
  Gateways, \<open>gateway_client.c\<close> and \<open>gateway_common.c\<close>: the list of the nodes that offer a
  way out of the mesh, the choice among them, and the recognition of DHCP messages, which go to the
  chosen gateway. What a client of the kernel would be told is recorded as \<open>Throw_Uevent\<close>.
\<close>

abbreviation BATADV_GW_MODE_OFF :: u8 where "BATADV_GW_MODE_OFF \<equiv> 0"
abbreviation BATADV_GW_MODE_CLIENT :: u8 where "BATADV_GW_MODE_CLIENT \<equiv> 1"
abbreviation BATADV_GW_MODE_SERVER :: u8 where "BATADV_GW_MODE_SERVER \<equiv> 2"
abbreviation BATADV_GW_THRESHOLD :: int where "BATADV_GW_THRESHOLD \<equiv> 50"
abbreviation BATADV_TVLV_GW :: u8 where "BATADV_TVLV_GW \<equiv> 1"

section \<open>The list of gateways\<close>

definition gw_mod :: "(batadv_priv_gw \<Rightarrow> batadv_priv_gw) \<Rightarrow> batadv_priv \<Rightarrow> batadv_priv" where
  "gw_mod f s = s\<lparr>bp_gw := f (bp_gw s)\<rparr>"

abbreviation gw_of :: "batadv_priv \<Rightarrow> nat \<Rightarrow> batadv_gw_node" where
  "gw_of s g \<equiv> gw_nodes (bp_gw s) g"

definition batadv_gw_get_selected_gw_node :: "batadv_priv \<Rightarrow> nat option" where
  "batadv_gw_get_selected_gw_node s = gw_curr (bp_gw s)"

definition batadv_gw_get_selected_orig :: "batadv_priv \<Rightarrow> nat option" where
  "batadv_gw_get_selected_orig s = map_option (\<lambda>g. gn_orig_node (gw_of s g)) (batadv_gw_get_selected_gw_node s)"

definition batadv_gw_select :: "nat option \<Rightarrow> batadv_priv \<Rightarrow> batadv_priv" where
  "batadv_gw_select new_gw_node = gw_mod (\<lambda>gw. gw\<lparr>gw_curr := new_gw_node\<rparr>)"

definition batadv_gw_reselect :: "batadv_priv \<Rightarrow> batadv_priv" where
  "batadv_gw_reselect = gw_mod (\<lambda>gw. gw\<lparr>gw_reselect := True\<rparr>)"

definition batadv_gw_node_get :: "nat \<Rightarrow> batadv_priv \<Rightarrow> nat option" where
  "batadv_gw_node_get orig_node s = find (\<lambda>g. gn_orig_node (gw_of s g) = orig_node) (gw_list (bp_gw s))"

text \<open>The announced bandwidths, downlink first.\<close>

type_synonym batadv_tvlv_gateway_data = "u32 \<times> u32"

definition batadv_gw_node_add :: "nat \<Rightarrow> batadv_tvlv_gateway_data \<Rightarrow> batadv_priv \<Rightarrow> batadv_priv" where
  "batadv_gw_node_add orig_node gateway s =
     (if fst gateway = 0 then s
      else
        (let (ok, s) = kzalloc s in
         if \<not> ok then s
         else
           (let gw_node = \<lparr>gn_orig_node = orig_node, gn_bandwidth_down = fst gateway, gn_bandwidth_up = snd gateway\<rparr>
            in gw_mod (\<lambda>gw. gw\<lparr>gw_nodes := (gw_nodes gw)(gw_next gw := gw_node), gw_next := gw_next gw + 1,
                               gw_list := gw_next gw # gw_list gw\<rparr>) s)))"

definition batadv_gw_node_update :: "nat \<Rightarrow> batadv_tvlv_gateway_data \<Rightarrow> batadv_priv \<Rightarrow> batadv_priv" where
  "batadv_gw_node_update orig_node gateway s =
     (case batadv_gw_node_get orig_node s of
        None \<Rightarrow> batadv_gw_node_add orig_node gateway s
      | Some gw_node \<Rightarrow>
          if gn_bandwidth_down (gw_of s gw_node) = fst gateway \<and> gn_bandwidth_up (gw_of s gw_node) = snd gateway then s
          else
            (let s = gw_mod (\<lambda>gw. gw\<lparr>gw_nodes := (gw_nodes gw)(gw_node := (gw_nodes gw gw_node)\<lparr>
                       gn_bandwidth_down := fst gateway, gn_bandwidth_up := snd gateway\<rparr>)\<rparr>) s
             in if fst gateway \<noteq> 0 then s
                else
                  (let s = gw_mod (\<lambda>gw. gw\<lparr>gw_list := remove1 gw_node (gw_list gw)\<rparr>) s
                   in if batadv_gw_get_selected_gw_node s = Some gw_node then batadv_gw_reselect s else s)))"

definition batadv_gw_node_delete :: "nat \<Rightarrow> batadv_priv \<Rightarrow> batadv_priv" where
  "batadv_gw_node_delete orig_node = batadv_gw_node_update orig_node (0, 0)"

definition batadv_gw_node_free :: "batadv_priv \<Rightarrow> batadv_priv" where
  "batadv_gw_node_free = gw_mod (\<lambda>gw. gw\<lparr>gw_list := []\<rparr>)"

section \<open>The election\<close>

definition gw_tq :: "batadv_priv \<Rightarrow> nat \<Rightarrow> u8 option" where
  "gw_tq s orig_node =
     Option.bind (batadv_orig_router_get s orig_node None)
       (\<lambda>router. map_option ni_tq_avg (batadv_neigh_ifinfo_get s router None))"

text \<open>The state of the loop: the best gateway so far, its factor and its quality. The product of the first
  two factors is an \<open>int\<close>; the others are computed with 64 bits.\<close>

definition gw_best_step ::
  "batadv_priv \<Rightarrow> nat \<Rightarrow> nat option \<times> u64 \<times> u64 \<times> u8 \<Rightarrow> nat option \<times> u64 \<times> u64 \<times> u8" where
  "gw_best_step s gw_node acc =
     (case gw_tq s (gn_orig_node (gw_of s gw_node)) of
        None \<Rightarrow> acc
      | Some tq_avg \<Rightarrow>
          (let (curr_gw, tmp_gw_factor, max_gw_factor, max_tq) = acc;
               (curr_gw, tmp_gw_factor) =
                 (if bp_gw_sel_class s = 1 then
                    (let tmp_gw_factor = ucast tq_avg * ucast tq_avg;
                         tmp_gw_factor = tmp_gw_factor * ucast (gn_bandwidth_down (gw_of s gw_node));
                         tmp_gw_factor = tmp_gw_factor * (100 * 100);
                         tmp_gw_factor = drop_bit 18 tmp_gw_factor
                     in (if tmp_gw_factor > max_gw_factor \<or> tmp_gw_factor = max_gw_factor \<and> tq_avg > max_tq
                         then Some gw_node else curr_gw, tmp_gw_factor))
                  else (if tq_avg > max_tq then Some gw_node else curr_gw, tmp_gw_factor))
           in (curr_gw, tmp_gw_factor, max max_gw_factor tmp_gw_factor, max max_tq tq_avg)))"

definition batadv_gw_get_best_gw_node :: "batadv_priv \<Rightarrow> nat option" where
  "batadv_gw_get_best_gw_node s = fst (fold (gw_best_step s) (gw_list (bp_gw s)) (None, 0, 0, 0))"

definition batadv_gw_check_client_stop :: "batadv_priv \<Rightarrow> batadv_priv" where
  "batadv_gw_check_client_stop s =
     (if bp_gw_mode s \<noteq> BATADV_GW_MODE_CLIENT then s
      else if batadv_gw_get_selected_gw_node s = None then s
      else call (Throw_Uevent BATADV_UEV_DEL None) (batadv_gw_select None s))"

definition batadv_gw_election :: "batadv_priv \<Rightarrow> batadv_priv" where
  "batadv_gw_election s =
     (if bp_gw_mode s \<noteq> BATADV_GW_MODE_CLIENT then s
      else
        (let curr_gw = batadv_gw_get_selected_gw_node s;
             reselect = gw_reselect (bp_gw s);
             s = gw_mod (\<lambda>gw. gw\<lparr>gw_reselect := False\<rparr>) s
         in if \<not> reselect \<and> curr_gw \<noteq> None then s
            else
              (let next_gw = batadv_gw_get_best_gw_node s in
               if curr_gw = next_gw then s
               else
                 (case next_gw of
                    None \<Rightarrow> batadv_gw_select None (call (Throw_Uevent BATADV_UEV_DEL None) s)
                  | Some gw \<Rightarrow>
                      if gw_tq s (gn_orig_node (gw_of s gw)) = None then batadv_gw_reselect s
                      else
                        (let gw_addr = Some (on_orig (orig_of s (gn_orig_node (gw_of s gw))));
                             action = (if curr_gw = None then BATADV_UEV_ADD else BATADV_UEV_CHANGE)
                         in batadv_gw_select next_gw (call (Throw_Uevent action gw_addr) s))))))"

text \<open>The class is compared with the difference of two qualities as a signed number.\<close>

definition batadv_gw_check_election :: "nat \<Rightarrow> batadv_priv \<Rightarrow> batadv_priv" where
  "batadv_gw_check_election orig_node s =
     (case batadv_gw_get_selected_orig s of
        None \<Rightarrow> batadv_gw_reselect s
      | Some curr_gw_orig \<Rightarrow>
          (case gw_tq s curr_gw_orig of
             None \<Rightarrow> batadv_gw_reselect s
           | Some gw_tq_avg \<Rightarrow>
               if curr_gw_orig = orig_node then s
               else
                 (case gw_tq s orig_node of
                    None \<Rightarrow> s
                  | Some orig_tq_avg \<Rightarrow>
                      if orig_tq_avg < gw_tq_avg then s
                      else if sint (bp_gw_sel_class s) > 3 \<and>
                              uint orig_tq_avg - uint gw_tq_avg < sint (bp_gw_sel_class s) then s
                      else batadv_gw_reselect s)))"

section \<open>Announcements\<close>

definition gateway_bytes :: "batadv_tvlv_gateway_data \<Rightarrow> u8 list" where
  "gateway_bytes gw = be_bytes 4 (fst gw) @ be_bytes 4 (snd gw)"

definition batadv_gw_tvlv_container_update :: "batadv_priv \<Rightarrow> batadv_priv" where
  "batadv_gw_tvlv_container_update s =
     (if bp_gw_mode s = BATADV_GW_MODE_OFF \<or> bp_gw_mode s = BATADV_GW_MODE_CLIENT
      then batadv_tvlv_container_unregister BATADV_TVLV_GW 1 s
      else if bp_gw_mode s = BATADV_GW_MODE_SERVER
      then batadv_tvlv_container_register BATADV_TVLV_GW 1
             (Some (gateway_bytes (gw_bandwidth_down (bp_gw s), gw_bandwidth_up (bp_gw s)))) 8 s
      else s)"

text \<open>Setting the announced bandwidth; \<open>down_new\<close> and \<open>up_new\<close> are what the parser made of the text.\<close>

definition gw_bandwidth_set :: "u32 \<Rightarrow> u32 \<Rightarrow> batadv_priv \<Rightarrow> batadv_priv" where
  "gw_bandwidth_set down_new up_new s =
     (let down_curr = gw_bandwidth_down (bp_gw s);
          up_curr = gw_bandwidth_up (bp_gw s);
          down_new = (if down_new = 0 then 1 else down_new);
          up_new = (if up_new = 0 then down_new div 5 else up_new);
          up_new = (if up_new = 0 then 1 else up_new)
      in if down_curr = down_new \<and> up_curr = up_new then s
         else batadv_gw_tvlv_container_update
                (gw_mod (\<lambda>gw. gw\<lparr>gw_bandwidth_down := down_new, gw_bandwidth_up := up_new\<rparr>) (batadv_gw_reselect s)))"

definition batadv_gw_tvlv_ogm_handler_v1 :: "nat \<Rightarrow> u8 \<Rightarrow> u8 list \<Rightarrow> batadv_priv \<Rightarrow> batadv_priv" where
  "batadv_gw_tvlv_ogm_handler_v1 orig flags tvlv_value s =
     (let gateway =
        (if flags AND BATADV_TVLV_HANDLER_OGM_CIFNOTFND \<noteq> 0 \<or> length tvlv_value < 8 then (0, 0)
         else
           (let (down, up) = (field_at tvlv_value 0 4, field_at tvlv_value 4 4)
            in if down = 0 \<or> up = 0 then (0, 0) else (down, up)));
          s = batadv_gw_node_update orig gateway s
      in if fst gateway \<noteq> 0 \<and> bp_gw_mode s = BATADV_GW_MODE_CLIENT \<and> sint (bp_gw_sel_class s) > 2
         then batadv_gw_check_election orig s else s)"

definition batadv_gw_init :: "batadv_priv \<Rightarrow> batadv_priv" where
  "batadv_gw_init = batadv_tvlv_handler_register True False BATADV_TVLV_GW 1 BATADV_TVLV_HANDLER_OGM_CIFNOTFND"

definition batadv_gw_free :: "batadv_priv \<Rightarrow> batadv_priv" where
  "batadv_gw_free s = batadv_tvlv_handler_unregister BATADV_TVLV_GW 1 (batadv_tvlv_container_unregister BATADV_TVLV_GW 1 s)"

section \<open>Settings\<close>

definition lower :: "char \<Rightarrow> char" where
  "lower c = (if CHR ''A'' \<le> c \<and> c \<le> CHR ''Z'' then char_of (of_char c + 32 :: nat) else c)"

text \<open>\<open>kstrtou64\<close> is the parser of the kernel, \<open>None\<close> for text that is no number of 64 bits.\<close>

definition batadv_parse_throughput :: "(string \<Rightarrow> u64 option) \<Rightarrow> string \<Rightarrow> u32 option" where
  "batadv_parse_throughput kstrtou64 buff =
     (let unit = map lower (drop (length buff - 4) buff);
          mbit = (length buff > 4 \<and> unit = ''mbit'');
          buff = (if length buff > 4 \<and> (unit = ''kbit'' \<or> mbit) then take (length buff - 4) buff else buff)
      in case kstrtou64 buff of
           None \<Rightarrow> None
         | Some lthroughput \<Rightarrow>
             if mbit \<and> (- 1) div 10 < lthroughput then None
             else
               (let lthroughput = (if mbit then lthroughput * 10 else lthroughput div 100)
                in if lthroughput > 0xFFFFFFFF then None else Some (ucast lthroughput)))"

definition batadv_parse_gw_bandwidth :: "(string \<Rightarrow> u64 option) \<Rightarrow> string \<Rightarrow> (u32 \<times> u32) option" where
  "batadv_parse_gw_bandwidth kstrtou64 buff =
     (case batadv_parse_throughput kstrtou64 (takeWhile (\<lambda>c. c \<noteq> CHR ''/'') buff) of
        None \<Rightarrow> None
      | Some down \<Rightarrow>
          (case dropWhile (\<lambda>c. c \<noteq> CHR ''/'') buff of
             [] \<Rightarrow> Some (down, 0)
           | _ # rest \<Rightarrow> map_option (\<lambda>up. (down, up)) (batadv_parse_throughput kstrtou64 rest)))"

definition batadv_gw_bandwidth_set :: "(string \<Rightarrow> u64 option) \<Rightarrow> string \<Rightarrow> int \<Rightarrow> batadv_priv \<Rightarrow> int \<times> batadv_priv" where
  "batadv_gw_bandwidth_set kstrtou64 buff cnt s =
     (case batadv_parse_gw_bandwidth kstrtou64 buff of
        None \<Rightarrow> (- 22, s)
      | Some (down_new, up_new) \<Rightarrow> (cnt, gw_bandwidth_set down_new up_new s))"

section \<open>Frames of the local network\<close>

text \<open>
  The fields of a frame that bridge loop avoidance works on. A VLAN header is its tag and the protocol
  inside; \<open>vlan_protos\<close> reads them as long as they hold another one and are complete.
\<close>

fun vlan_protos :: "u8 list \<Rightarrow> u16 list" where
  "vlan_protos (t1 # t2 # p1 # p2 # rest) =
     (let proto = be_word [p1, p2] in proto # (if proto = ETH_P_8021Q then vlan_protos rest else []))"
| "vlan_protos _ = []"

definition lan_frame_of :: "u8 list \<Rightarrow> lan_frame" where
  "lan_frame_of bs =
     (let encap = (if eth_proto bs = ETH_P_8021Q then vlan_protos (drop 14 bs) else []);
          arp = drop (14 + 4 * length encap) bs
      in \<lparr>lf_dest = eth_dest bs, lf_source = eth_source bs, lf_tci = field_at bs 14 2, lf_proto = eth_proto bs,
          lf_encap = encap,
          lf_arp = (if length arp < 28 then None
                    else Some \<lparr>ar_hrd = field_at arp 0 2, ar_pro = field_at arp 2 2, ar_hln = arp ! 4, ar_pln = arp ! 5,
                               ar_hw_src = field_at arp 8 6, ar_hw_dst = field_at arp 18 6\<rparr>)\<rparr>)"

text \<open>The VLAN of the frame behind a header.\<close>

definition skb_vid :: "u8 list \<Rightarrow> nat \<Rightarrow> vid" where
  "skb_vid bs header_len = batadv_get_vid (lan_frame_of (drop header_len bs))"

section \<open>DHCP\<close>

datatype batadv_dhcp_recipient = BATADV_DHCP_NO | BATADV_DHCP_TO_SERVER | BATADV_DHCP_TO_CLIENT

text \<open>
  The frame begins with its Ethernet header. The address of the client is only found when the message
  is long enough, and not having found it is no error.
\<close>

definition batadv_gw_dhcp_recipient_get :: "u8 list \<Rightarrow> nat \<Rightarrow> batadv_dhcp_recipient \<times> mac option" where
  "batadv_gw_dhcp_recipient_get bs header_len =
     (let no = (BATADV_DHCP_NO, None) in
      if length bs < header_len + ETH_HLEN then no
      else
        (let proto = eth_proto bs;
             header_len = header_len + ETH_HLEN;
             tagged = (proto = ETH_P_8021Q)
         in if tagged \<and> length bs < header_len + 4 then no
            else
              (let proto = (if tagged then field_at bs 16 2 else proto);
                   header_len = (if tagged then header_len + 4 else header_len);
                   ip = drop header_len bs;
                   ip_len = (if proto = ETH_P_IP then if length ip < 20 \<or> ip ! 9 \<noteq> 17 then None
                                                      else Some (unat (ip ! 0 AND 15) * 4)
                             else if proto = ETH_P_IPV6 then if length ip < 40 \<or> ip ! 6 \<noteq> 17 then None else Some 40
                             else None)
               in case ip_len of
                    None \<Rightarrow> no
                  | Some ip_len \<Rightarrow>
                      (let udp = drop ip_len ip in
                       if length udp < 8 then no
                       else
                         (let port = (if proto = ETH_P_IP then 67 else 547 :: u16);
                              ret = (if field_at udp 2 2 = port then BATADV_DHCP_TO_SERVER
                                     else if field_at udp 0 2 = port then BATADV_DHCP_TO_CLIENT else BATADV_DHCP_NO);
                              dhcp = drop 8 udp
                          in if ret = BATADV_DHCP_TO_CLIENT \<and> length dhcp \<ge> 28 + 6 then
                               (if dhcp ! 1 \<noteq> 1 then no
                                else if dhcp ! 2 \<noteq> 6 then no
                                else (ret, Some (field_at dhcp 28 6)))
                             else (ret, None))))))"

definition batadv_gw_out_of_range :: "kenv \<Rightarrow> sk_buff \<Rightarrow> batadv_priv \<Rightarrow> bool \<times> batadv_priv" where
  "batadv_gw_out_of_range k skb s =
     (let vid = skb_vid (sk_data skb) 0;
          find_tq = (\<lambda>orig s. let (router, s) = batadv_find_router orig None s
                             in (Option.bind router (\<lambda>r. map_option ni_tq_avg (batadv_neigh_ifinfo_get s r None)), s))
      in case batadv_transtable_search k bat_neigh_cmp (Some (eth_source (sk_data skb))) (eth_dest (sk_data skb)) vid s of
           None \<Rightarrow> (False, s)
         | Some orig_dst_node \<Rightarrow>
             if batadv_gw_node_get orig_dst_node s = None then (False, s)
             else
               (let (curr_tq_avg, s) =
                  (if bp_gw_mode s = BATADV_GW_MODE_SERVER then (Some BATADV_TQ_MAX_VALUE, s)
                   else if bp_gw_mode s = BATADV_GW_MODE_CLIENT then
                     (case batadv_gw_get_selected_orig s of
                        None \<Rightarrow> (None, s)
                      | Some curr_orig \<Rightarrow> if curr_orig = orig_dst_node then (None, s) else find_tq curr_orig s)
                   else (None, s))
                in case curr_tq_avg of
                     None \<Rightarrow> (False, s)
                   | Some curr_tq_avg \<Rightarrow>
                       (case find_tq orig_dst_node s of
                          (None, s) \<Rightarrow> (False, s)
                        | (Some old_tq_avg, s) \<Rightarrow>
                            (uint (curr_tq_avg :: u8) - uint old_tq_avg > BATADV_GW_THRESHOLD, s))))"

definition batadv_send_skb_via_gw :: "kenv \<Rightarrow> sk_buff \<Rightarrow> vid \<Rightarrow> batadv_priv \<Rightarrow> int \<times> batadv_priv" where
  "batadv_send_skb_via_gw k skb vid s =
     batadv_send_skb_unicast k skb BATADV_UNICAST 0 (batadv_gw_get_selected_orig s) vid s"

end
