(* ===== verification/Dat.thy ===== *)
theory Dat
  imports Gateway
begin

text \<open>
  The distributed ARP table, \<open>distributed-arp-table.c\<close>: a cache of pairs of addresses, the nodes
  that are to keep the pair of an IP address, and what is done with the ARP messages that pass. The
  functions get the data of a frame and the length of the header before it.

  \<open>vlan_insert_tag\<close> and \<open>pskb_copy_for_clone\<close> give NULL when memory is short, which the code does not
  test.
\<close>

abbreviation BATADV_DAT_ENTRY_TIMEOUT :: u32 where "BATADV_DAT_ENTRY_TIMEOUT \<equiv> 300000"
abbreviation BATADV_DAT_ADDR_MAX :: u16 where "BATADV_DAT_ADDR_MAX \<equiv> 0xFFFF"
abbreviation BATADV_P_DATA :: u8 where "BATADV_P_DATA \<equiv> 1"
abbreviation BATADV_P_DAT_DHT_GET :: u8 where "BATADV_P_DAT_DHT_GET \<equiv> 2"
abbreviation BATADV_P_DAT_DHT_PUT :: u8 where "BATADV_P_DAT_DHT_PUT \<equiv> 3"
abbreviation BATADV_P_DAT_CACHE_REPLY :: u8 where "BATADV_P_DAT_CACHE_REPLY \<equiv> 4"
abbreviation ARPOP_REQUEST :: u16 where "ARPOP_REQUEST \<equiv> 1"
abbreviation ARPOP_REPLY :: u16 where "ARPOP_REPLY \<equiv> 2"

section \<open>The cache\<close>

definition dat_mod :: "(batadv_priv_dat \<Rightarrow> batadv_priv_dat) \<Rightarrow> batadv_priv \<Rightarrow> batadv_priv" where
  "dat_mod f s = s\<lparr>bp_dat := f (bp_dat s)\<rparr>"

type_synonym dat_key = "u32 \<times> vid"

definition dat_key :: "batadv_dat_entry \<Rightarrow> dat_key" where
  "dat_key e = (de_ip e, de_vid e)"

text \<open>The comparison looks at the address only, the hash also at the VLAN.\<close>

definition batadv_compare_dat :: "batadv_dat_entry \<Rightarrow> dat_key \<Rightarrow> bool" where
  "batadv_compare_dat e data2 \<longleftrightarrow> de_ip e = fst data2"

definition dat_hash_byte :: "u8 \<Rightarrow> u32 \<Rightarrow> u32" where
  "dat_hash_byte b hash =
     (let hash = hash + ucast b;
          hash = hash + push_bit 10 hash
      in hash XOR drop_bit 6 hash)"

definition batadv_hash_dat :: "dat_key \<Rightarrow> u32 \<Rightarrow> u32" where
  "batadv_hash_dat data sz =
     (let hash = fold dat_hash_byte (be_bytes 4 (fst data)) 0;
          hash = fold dat_hash_byte (vid_bytes (snd data)) hash;
          hash = hash + push_bit 3 hash;
          hash = hash XOR drop_bit 11 hash;
          hash = hash + push_bit 15 hash
      in hash mod sz)"

definition batadv_dat_entry_hash_find :: "batadv_priv \<Rightarrow> u32 \<Rightarrow> vid \<Rightarrow> batadv_dat_entry option" where
  "batadv_dat_entry_hash_find s ip vid =
     (case dat_hash (bp_dat s) of
        None \<Rightarrow> None
      | Some hash \<Rightarrow> hash_lookup hash batadv_compare_dat batadv_hash_dat (ip, vid))"

definition batadv_dat_entry_add :: "kenv \<Rightarrow> u32 \<Rightarrow> mac \<Rightarrow> vid \<Rightarrow> batadv_priv \<Rightarrow> batadv_priv" where
  "batadv_dat_entry_add k ip mac_addr vid s =
     (case batadv_dat_entry_hash_find s ip vid of
        Some dat_entry \<Rightarrow>
          dat_mod (\<lambda>d. d\<lparr>dat_hash := map_option (hash_map (\<lambda>e.
              if dat_key e = dat_key dat_entry then e\<lparr>de_mac_addr := mac_addr, de_last_update := k_jiffies k\<rparr> else e))
            (dat_hash d)\<rparr>) s
      | None \<Rightarrow>
          (let (ok, s) = kzalloc s in
           if \<not> ok then s
           else
             (let dat_entry = \<lparr>de_ip = ip, de_mac_addr = mac_addr, de_vid = vid, de_last_update = k_jiffies k\<rparr>;
                  (hash_added, hash) = batadv_hash_add (dat_hash (bp_dat s)) batadv_compare_dat batadv_hash_dat
                     (ip, vid) dat_entry
              in dat_mod (\<lambda>d. d\<lparr>dat_hash := hash\<rparr>) s)))"

definition batadv_dat_to_purge :: "kenv \<Rightarrow> batadv_dat_entry \<Rightarrow> bool" where
  "batadv_dat_to_purge k dat_entry = batadv_has_timed_out k (de_last_update dat_entry) BATADV_DAT_ENTRY_TIMEOUT"

text \<open>\<open>__batadv_dat_purge\<close>: a missing test removes everything.\<close>

definition do_dat_purge :: "(batadv_dat_entry \<Rightarrow> bool) option \<Rightarrow> batadv_priv \<Rightarrow> batadv_priv" where
  "do_dat_purge to_purge =
     dat_mod (\<lambda>d. d\<lparr>dat_hash := map_option (hash_filter (\<lambda>e. case to_purge of None \<Rightarrow> False | Some p \<Rightarrow> \<not> p e)) (dat_hash d)\<rparr>)"

definition batadv_dat_purge :: "kenv \<Rightarrow> batadv_priv \<Rightarrow> batadv_priv" where
  "batadv_dat_purge k = do_dat_purge (Some (batadv_dat_to_purge k))"

definition batadv_dat_hash_free :: "batadv_priv \<Rightarrow> batadv_priv" where
  "batadv_dat_hash_free s =
     (if dat_hash (bp_dat s) = None then s else dat_mod (\<lambda>d. d\<lparr>dat_hash := None\<rparr>) (do_dat_purge None s))"

definition batadv_dat_tvlv_container_update :: "batadv_priv \<Rightarrow> batadv_priv" where
  "batadv_dat_tvlv_container_update s =
     (if \<not> bp_distributed_arp_table s then batadv_tvlv_container_unregister BATADV_TVLV_DAT 1 s
      else batadv_tvlv_container_register BATADV_TVLV_DAT 1 None 0 s)"

definition batadv_dat_status_update :: "batadv_priv \<Rightarrow> batadv_priv" where
  "batadv_dat_status_update = batadv_dat_tvlv_container_update"

definition batadv_dat_init :: "batadv_priv \<Rightarrow> int \<times> batadv_priv" where
  "batadv_dat_init s =
     (if dat_hash (bp_dat s) \<noteq> None then (0, s)
      else
        (let (ok, s) = kzalloc s;
             s = dat_mod (\<lambda>d. d\<lparr>dat_hash := batadv_hash_new ok 1024\<rparr>) s
         in if \<not> ok then (- 12, s)
            else (0, batadv_dat_tvlv_container_update
                   (batadv_tvlv_handler_register True False BATADV_TVLV_DAT 1 BATADV_TVLV_HANDLER_OGM_CIFNOTFND s))))"

definition batadv_dat_free :: "batadv_priv \<Rightarrow> batadv_priv" where
  "batadv_dat_free s =
     (let s = batadv_tvlv_container_unregister BATADV_TVLV_DAT 1 s;
          s = batadv_tvlv_handler_unregister BATADV_TVLV_DAT 1 s
      in batadv_dat_hash_free s)"

definition batadv_dat_init_own_addr :: "kenv \<Rightarrow> nat \<Rightarrow> batadv_priv \<Rightarrow> batadv_priv" where
  "batadv_dat_init_own_addr k primary_if s =
     (let addr = batadv_choose_orig k (hi_dev_addr (hardif_of s primary_if)) 0xFFFF
      in dat_mod (\<lambda>d. d\<lparr>dat_addr := ucast addr\<rparr>) s)"

section \<open>The nodes that keep an address\<close>

text \<open>\<open>batadv_compare_eth\<close> says whether two addresses are equal; it is never greater than 0 otherwise.\<close>

definition batadv_is_orig_node_eligible ::
  "batadv_priv \<Rightarrow> nat list \<Rightarrow> u16 \<Rightarrow> u16 \<Rightarrow> u16 \<Rightarrow> nat \<Rightarrow> nat option \<Rightarrow> bool" where
  "batadv_is_orig_node_eligible s res tmp_max maxi last_max candidate max_orig_node \<longleftrightarrow>
     bit (on_capabilities (orig_of s candidate)) BATADV_ORIG_CAPA_HAS_DAT \<and>
     candidate \<notin> set res \<and> \<not> tmp_max > last_max \<and> \<not> tmp_max < maxi \<and>
     \<not> (tmp_max = maxi \<and>
        (case max_orig_node of None \<Rightarrow> False
         | Some m \<Rightarrow> batadv_compare_eth (on_orig (orig_of s candidate)) (on_orig (orig_of s m))))"

definition dat_closeness :: "batadv_priv \<Rightarrow> u16 \<Rightarrow> nat \<Rightarrow> u16" where
  "dat_closeness s ip_key n = BATADV_DAT_ADDR_MAX - on_dat_addr (orig_of s n) + ip_key"

definition batadv_choose_next_candidate ::
  "batadv_priv \<Rightarrow> nat list \<Rightarrow> u16 \<Rightarrow> u16 \<Rightarrow> nat option \<times> u16" where
  "batadv_choose_next_candidate s cands ip_key last_max =
     fold (\<lambda>(_, n) (max_orig_node, maxi).
         (let tmp_max = dat_closeness s ip_key n in
          if batadv_is_orig_node_eligible s cands tmp_max maxi last_max n max_orig_node then (Some n, tmp_max)
          else (max_orig_node, maxi)))
       (bp_table s) (None, 0)"

fun dat_select_loop :: "nat \<Rightarrow> batadv_priv \<Rightarrow> u16 \<Rightarrow> u16 \<Rightarrow> nat list \<Rightarrow> nat list" where
  "dat_select_loop 0 s ip_key last_max cands = cands"
| "dat_select_loop (Suc n) s ip_key last_max cands =
     (let (cand, last_max) = batadv_choose_next_candidate s cands ip_key last_max
      in dat_select_loop n s ip_key last_max (cands @ (case cand of None \<Rightarrow> [] | Some c \<Rightarrow> [c])))"

definition batadv_dat_select_candidates :: "u32 \<Rightarrow> batadv_priv \<Rightarrow> nat list option \<times> batadv_priv" where
  "batadv_dat_select_candidates ip_dst s =
     (if bp_orig_hash s = None then (None, s)
      else
        (let (ok, s) = kzalloc s in
         if \<not> ok then (None, s)
         else
           (let ip_key = ucast (batadv_hash_dat (ip_dst, 0) (ucast BATADV_DAT_ADDR_MAX))
            in (Some (dat_select_loop 3 s ip_key BATADV_DAT_ADDR_MAX []), s))))"

definition dat_send_to :: "kenv \<Rightarrow> sk_buff \<Rightarrow> u8 \<Rightarrow> nat \<Rightarrow> bool \<times> batadv_priv \<Rightarrow> bool \<times> batadv_priv" where
  "dat_send_to k skb packet_subtype cand acc =
     (let (ret, s) = acc in
      case batadv_orig_router_get s cand None of
        None \<Rightarrow> (ret, s)
      | Some neigh_node \<Rightarrow>
          (let (ok, s) = kzalloc s in
           if bp_primary_if s = None then (ret, s)
           else if \<not> ok then (ret, s\<lparr>bp_panic := True\<rparr>)
           else
             (case batadv_send_skb_prepare_unicast_4addr skb cand packet_subtype s of
                (None, s) \<Rightarrow> (ret, s)
              | (Some tmp_skb, s) \<Rightarrow>
                  (let (send_status, s) = batadv_send_unicast_skb k tmp_skb neigh_node s
                   in (ret \<or> send_status = NET_XMIT_SUCCESS, s)))))"

definition batadv_dat_send_data :: "kenv \<Rightarrow> sk_buff \<Rightarrow> u32 \<Rightarrow> u8 \<Rightarrow> batadv_priv \<Rightarrow> bool \<times> batadv_priv" where
  "batadv_dat_send_data k skb ip packet_subtype s =
     (case batadv_dat_select_candidates ip s of
        (None, s) \<Rightarrow> (False, s)
      | (Some cand, s) \<Rightarrow> fold (dat_send_to k skb packet_subtype) cand (False, s))"

section \<open>ARP messages\<close>

definition batadv_arp_hw_src :: "u8 list \<Rightarrow> nat \<Rightarrow> mac" where
  "batadv_arp_hw_src bs hdr_size = field_at bs (hdr_size + 22) 6"

definition batadv_arp_ip_src :: "u8 list \<Rightarrow> nat \<Rightarrow> u32" where
  "batadv_arp_ip_src bs hdr_size = field_at bs (hdr_size + 28) 4"

definition batadv_arp_hw_dst :: "u8 list \<Rightarrow> nat \<Rightarrow> mac" where
  "batadv_arp_hw_dst bs hdr_size = field_at bs (hdr_size + 32) 6"

definition batadv_arp_ip_dst :: "u8 list \<Rightarrow> nat \<Rightarrow> u32" where
  "batadv_arp_ip_dst bs hdr_size = field_at bs (hdr_size + 38) 4"

definition ipv4_is_loopback :: "u32 \<Rightarrow> bool" where "ipv4_is_loopback a \<longleftrightarrow> a AND 0xFF000000 = 0x7F000000"
definition ipv4_is_multicast :: "u32 \<Rightarrow> bool" where "ipv4_is_multicast a \<longleftrightarrow> a AND 0xF0000000 = 0xE0000000"
definition ipv4_is_zeronet :: "u32 \<Rightarrow> bool" where "ipv4_is_zeronet a \<longleftrightarrow> a AND 0xFF000000 = 0"
definition ipv4_is_lbcast :: "u32 \<Rightarrow> bool" where "ipv4_is_lbcast a \<longleftrightarrow> a = 0xFFFFFFFF"

definition batadv_arp_get_type :: "u8 list \<Rightarrow> nat \<Rightarrow> u16" where
  "batadv_arp_get_type bs hdr_size =
     (if length bs < hdr_size + ETH_HLEN then 0
      else if eth_proto (drop hdr_size bs) \<noteq> ETH_P_ARP then 0
      else if length bs < hdr_size + ETH_HLEN + 28 then 0
      else
        (let arphdr = drop (hdr_size + ETH_HLEN) bs;
             op = field_at arphdr 6 2 :: u16;
             ip_src = batadv_arp_ip_src bs hdr_size;
             ip_dst = batadv_arp_ip_dst bs hdr_size;
             hw_src = batadv_arp_hw_src bs hdr_size;
             hw_dst = batadv_arp_hw_dst bs hdr_size
         in if field_at arphdr 0 2 \<noteq> ARPHRD_ETHER then 0
            else if field_at arphdr 2 2 \<noteq> ETH_P_IP then 0
            else if arphdr ! 4 \<noteq> 6 then 0
            else if arphdr ! 5 \<noteq> 4 then 0
            else if ipv4_is_loopback ip_src \<or> ipv4_is_multicast ip_src \<or> ipv4_is_loopback ip_dst \<or> ipv4_is_multicast ip_dst \<or>
                    ipv4_is_zeronet ip_src \<or> ipv4_is_lbcast ip_src \<or> ipv4_is_zeronet ip_dst \<or> ipv4_is_lbcast ip_dst then 0
            else if hw_src = 0 \<or> is_multicast_ether_addr hw_src then 0
            else if op \<noteq> ARPOP_REQUEST \<and> (hw_dst = 0 \<or> is_multicast_ether_addr hw_dst) then 0
            else op))"

text \<open>The VLAN, and the length of the header with that of the VLAN.\<close>

definition batadv_dat_get_vid :: "u8 list \<Rightarrow> nat \<Rightarrow> vid \<times> nat" where
  "batadv_dat_get_vid bs hdr_size =
     (let vid = skb_vid bs hdr_size
      in (vid, if vid AND BATADV_VLAN_HAS_TAG \<noteq> 0 then hdr_size + 4 else hdr_size))"

definition vlan_insert_tag :: "u16 \<Rightarrow> u8 list \<Rightarrow> u8 list" where
  "vlan_insert_tag tci bs = take 12 bs @ be_bytes 2 ETH_P_8021Q @ be_bytes 2 tci @ drop 12 bs"

text \<open>The answer to a request, with the tag of its VLAN: \<open>None\<close> when it cannot be made.\<close>

definition dat_reply :: "kenv \<Rightarrow> u8 list \<Rightarrow> nat \<Rightarrow> vid \<Rightarrow> batadv_dat_entry \<Rightarrow> batadv_priv \<Rightarrow> u8 list option \<times> batadv_priv" where
  "dat_reply k bs hdr_size vid dat_entry s =
     (let hw_src = batadv_arp_hw_src bs hdr_size;
          (ok, s) = kzalloc s
      in if \<not> ok then (None, s)
         else
           (let skb_new = k_arp_create k (batadv_arp_ip_src bs hdr_size) (batadv_arp_ip_dst bs hdr_size) hw_src
                            (de_mac_addr dat_entry) hw_src
            in if vid AND BATADV_VLAN_HAS_TAG = 0 then (Some skb_new, s)
               else
                 (let (ok, s) = kzalloc s
                  in if \<not> ok then (None, s\<lparr>bp_panic := True\<rparr>)
                     else (Some (vlan_insert_tag (vid AND VLAN_VID_MASK) skb_new), s))))"

definition batadv_dat_snoop_outgoing_arp_request :: "kenv \<Rightarrow> sk_buff \<Rightarrow> batadv_priv \<Rightarrow> bool \<times> batadv_priv" where
  "batadv_dat_snoop_outgoing_arp_request k skb s =
     (if \<not> bp_distributed_arp_table s then (False, s)
      else
        (let bs = sk_data skb;
             (vid, hdr_size) = batadv_dat_get_vid bs 0
         in if batadv_arp_get_type bs hdr_size \<noteq> ARPOP_REQUEST then (False, s)
            else
              (let ip_dst = batadv_arp_ip_dst bs hdr_size;
                   s = batadv_dat_entry_add k (batadv_arp_ip_src bs hdr_size) (batadv_arp_hw_src bs hdr_size) vid s
               in case batadv_dat_entry_hash_find s ip_dst vid of
                    Some dat_entry \<Rightarrow>
                      if batadv_is_my_client k (de_mac_addr dat_entry) vid s then (True, s)
                      else
                        (case dat_reply k bs hdr_size vid dat_entry s of
                           (None, s) \<Rightarrow> (False, s)
                         | (Some skb_new, s) \<Rightarrow> (True, call (Netif_Rx skb_new 0) s))
                  | None \<Rightarrow> batadv_dat_send_data k skb ip_dst BATADV_P_DAT_DHT_GET s)))"

text \<open>The form of the answer is chosen by the length of the header, after that of the VLAN was added.\<close>

definition batadv_dat_snoop_incoming_arp_request :: "kenv \<Rightarrow> sk_buff \<Rightarrow> nat \<Rightarrow> batadv_priv \<Rightarrow> bool \<times> batadv_priv" where
  "batadv_dat_snoop_incoming_arp_request k skb hdr_size s =
     (if \<not> bp_distributed_arp_table s then (False, s)
      else
        (let bs = sk_data skb;
             (vid, hdr_size) = batadv_dat_get_vid bs hdr_size
         in if batadv_arp_get_type bs hdr_size \<noteq> ARPOP_REQUEST then (False, s)
            else
              (let ip_dst = batadv_arp_ip_dst bs hdr_size;
                   s = batadv_dat_entry_add k (batadv_arp_ip_src bs hdr_size) (batadv_arp_hw_src bs hdr_size) vid s
               in case batadv_dat_entry_hash_find s ip_dst vid of
                    None \<Rightarrow> (False, s)
                  | Some dat_entry \<Rightarrow>
                      (case dat_reply k bs hdr_size vid dat_entry s of
                         (None, s) \<Rightarrow> (False, s)
                       | (Some frame, s) \<Rightarrow>
                           (let skb_new = \<lparr>sk_source = eth_source frame, sk_dest = eth_dest frame, sk_data = frame,
                                  sk_priority = 0, sk_mark = 0, sk_decoded = False\<rparr>;
                                (err, s) = (if hdr_size = 18
                                            then batadv_send_skb_via_tt_4addr k skb_new BATADV_P_DAT_CACHE_REPLY None vid s
                                            else batadv_send_skb_via_tt k skb_new None vid s)
                            in (err \<noteq> NET_XMIT_DROP, s))))))"

definition dat_learn_reply :: "kenv \<Rightarrow> u8 list \<Rightarrow> nat \<Rightarrow> vid \<Rightarrow> batadv_priv \<Rightarrow> batadv_priv" where
  "dat_learn_reply k bs hdr_size vid s =
     batadv_dat_entry_add k (batadv_arp_ip_dst bs hdr_size) (batadv_arp_hw_dst bs hdr_size) vid
       (batadv_dat_entry_add k (batadv_arp_ip_src bs hdr_size) (batadv_arp_hw_src bs hdr_size) vid s)"

definition batadv_dat_snoop_outgoing_arp_reply :: "kenv \<Rightarrow> sk_buff \<Rightarrow> batadv_priv \<Rightarrow> batadv_priv" where
  "batadv_dat_snoop_outgoing_arp_reply k skb s =
     (if \<not> bp_distributed_arp_table s then s
      else
        (let bs = sk_data skb;
             (vid, hdr_size) = batadv_dat_get_vid bs 0
         in if batadv_arp_get_type bs hdr_size \<noteq> ARPOP_REPLY then s
            else
              (let s = dat_learn_reply k bs hdr_size vid s;
                   s = snd (batadv_dat_send_data k skb (batadv_arp_ip_src bs hdr_size) BATADV_P_DAT_DHT_PUT s)
               in snd (batadv_dat_send_data k skb (batadv_arp_ip_dst bs hdr_size) BATADV_P_DAT_DHT_PUT s))))"

definition batadv_dat_snoop_incoming_arp_reply :: "kenv \<Rightarrow> sk_buff \<Rightarrow> nat \<Rightarrow> batadv_priv \<Rightarrow> bool \<times> batadv_priv" where
  "batadv_dat_snoop_incoming_arp_reply k skb hdr_size s =
     (if \<not> bp_distributed_arp_table s then (False, s)
      else
        (let bs = sk_data skb;
             (vid, hdr_size) = batadv_dat_get_vid bs hdr_size
         in if batadv_arp_get_type bs hdr_size \<noteq> ARPOP_REPLY then (False, s)
            else
              (let s = dat_learn_reply k bs hdr_size vid s
               in (\<not> batadv_is_my_client k (batadv_arp_hw_dst bs hdr_size) vid s \<or>
                   batadv_is_my_client k (batadv_arp_hw_src bs hdr_size) vid s, s))))"

definition batadv_dat_drop_broadcast_packet :: "batadv_priv \<Rightarrow> batadv_forw_bcast \<Rightarrow> bool" where
  "batadv_dat_drop_broadcast_packet s forw_packet =
     (if \<not> bp_distributed_arp_table s then False
      else if bf_num_packets forw_packet \<noteq> 0 then False
      else
        (let bs = bf_skb forw_packet;
             (vid, hdr_size) = batadv_dat_get_vid bs 14
         in if batadv_arp_get_type bs hdr_size \<noteq> ARPOP_REQUEST then False
            else batadv_dat_entry_hash_find s (batadv_arp_ip_dst bs hdr_size) vid \<noteq> None))"

end
