(* ===== verification/Mcast.thy ===== *)
theory Mcast
  imports Gateway
begin

text \<open>
  Multicast, \<open>multicast.c\<close>: the listeners of this node are announced as clients, and a packet for a
  group goes to the one node that wants it, to all, or to nobody. Every originator says with its OGMs
  which packets it wants in any case; the nodes with such a wish are in lists, and their numbers are
  counted besides.

  The groups that the soft interface listens to and whether there is a bridge above it are arguments.
\<close>

abbreviation BATADV_TVLV_MCAST :: u8 where "BATADV_TVLV_MCAST \<equiv> 6"
abbreviation (input) BATADV_ORIG_CAPA_HAS_MCAST :: nat where "BATADV_ORIG_CAPA_HAS_MCAST \<equiv> 3"

definition mcast_mod :: "(batadv_priv_mcast \<Rightarrow> batadv_priv_mcast) \<Rightarrow> batadv_priv \<Rightarrow> batadv_priv" where
  "mcast_mod f s = s\<lparr>bp_mcast := f (bp_mcast s)\<rparr>"

section \<open>The listeners of this node\<close>

text \<open>The addresses copied, each put at the head; the loop ends when memory is short.\<close>

fun batadv_mcast_mla_softif_get :: "mac list \<Rightarrow> mac list \<Rightarrow> batadv_priv \<Rightarrow> bool \<times> mac list \<times> batadv_priv" where
  "batadv_mcast_mla_softif_get [] mcast_list s = (True, mcast_list, s)"
| "batadv_mcast_mla_softif_get (addr # rest) mcast_list s =
     (let (ok, s) = kzalloc s
      in if \<not> ok then (False, mcast_list, s) else batadv_mcast_mla_softif_get rest (addr # mcast_list) s)"

definition batadv_mcast_mla_is_duplicate :: "mac \<Rightarrow> mac list \<Rightarrow> bool" where
  "batadv_mcast_mla_is_duplicate mcast_addr mcast_list = list_ex (\<lambda>a. batadv_compare_eth a mcast_addr) mcast_list"

definition batadv_mcast_mla_tt_retract :: "kenv \<Rightarrow> mac list option \<Rightarrow> batadv_priv \<Rightarrow> batadv_priv" where
  "batadv_mcast_mla_tt_retract k mcast_list s =
     fold (\<lambda>addr s.
         if (case mcast_list of None \<Rightarrow> False | Some l \<Rightarrow> batadv_mcast_mla_is_duplicate addr l) then s
         else mcast_mod (\<lambda>m. m\<lparr>mc_mla_list := remove1 addr (mc_mla_list m)\<rparr>)
                (snd (batadv_tt_local_remove k addr BATADV_NO_FLAGS False s)))
       (mc_mla_list (bp_mcast s)) s"

definition batadv_mcast_mla_tt_add :: "kenv \<Rightarrow> mac list \<Rightarrow> batadv_priv \<Rightarrow> batadv_priv" where
  "batadv_mcast_mla_tt_add k mcast_list s =
     fold (\<lambda>addr s.
         if batadv_mcast_mla_is_duplicate addr (mc_mla_list (bp_mcast s)) then s
         else
           (let (added, s) = batadv_tt_local_add k addr BATADV_NO_FLAGS 0 0 s
            in if \<not> added then s else mcast_mod (\<lambda>m. m\<lparr>mc_mla_list := addr # mc_mla_list m\<rparr>) s))
       mcast_list s"

definition batadv_mcast_mla_tvlv_update :: "bool \<Rightarrow> batadv_priv \<Rightarrow> bool \<times> batadv_priv" where
  "batadv_mcast_mla_tvlv_update has_bridge s =
     (let flags = 0 :: u8 in
      if has_bridge then
        (False, if mc_enabled (bp_mcast s)
                then mcast_mod (\<lambda>m. m\<lparr>mc_enabled := False\<rparr>) (batadv_tvlv_container_unregister BATADV_TVLV_MCAST 1 s)
                else s)
      else if \<not> mc_enabled (bp_mcast s) \<or> flags \<noteq> mc_flags (bp_mcast s) then
        (True, mcast_mod (\<lambda>m. m\<lparr>mc_flags := flags, mc_enabled := True\<rparr>)
           (batadv_tvlv_container_register BATADV_TVLV_MCAST 1 (Some [flags, 0, 0, 0]) 4 s))
      else (True, s))"

definition batadv_mcast_mla_update :: "kenv \<Rightarrow> bool \<Rightarrow> mac list \<Rightarrow> batadv_priv \<Rightarrow> batadv_priv" where
  "batadv_mcast_mla_update k has_bridge soft_iface_mc s =
     (let (enabled, s) = batadv_mcast_mla_tvlv_update has_bridge s;
          (ok, mcast_list, s) = (if enabled then batadv_mcast_mla_softif_get soft_iface_mc [] s else (True, [], s))
      in if \<not> ok then s
         else batadv_mcast_mla_tt_add k mcast_list (batadv_mcast_mla_tt_retract k (Some mcast_list) s))"

section \<open>Where a packet goes\<close>

datatype batadv_forw_mode = BATADV_FORW_ALL | BATADV_FORW_SINGLE | BATADV_FORW_NONE

text \<open>The result: the return value, and whether the packet cannot be snooped by a bridge.\<close>

definition batadv_mcast_forw_mode_check_ipv4 :: "u8 list \<Rightarrow> bool \<Rightarrow> int \<times> bool" where
  "batadv_mcast_forw_mode_check_ipv4 bs is_unsnoopable =
     (if length bs < 14 + 20 then (- 12, is_unsnoopable)
      else if (field_at bs (14 + 16) 4 :: u32) AND 0xFFFFFF00 \<noteq> 0xE0000000 then (- 22, is_unsnoopable)
      else (0, True))"

definition batadv_mcast_forw_mode_check_ipv6 :: "u8 list \<Rightarrow> bool \<Rightarrow> int \<times> bool" where
  "batadv_mcast_forw_mode_check_ipv6 bs is_unsnoopable =
     (if length bs < 14 + 40 then (- 12, is_unsnoopable)
      else if bs ! (14 + 24 + 1) AND 0x0F \<noteq> 2 then (- 22, is_unsnoopable)
      else (0, is_unsnoopable \<or> (field_at bs (14 + 24) 16 :: 128 word) = 0xFF020000000000000000000000000001))"

definition batadv_mcast_forw_mode_check :: "u8 list \<Rightarrow> batadv_priv \<Rightarrow> int \<times> bool" where
  "batadv_mcast_forw_mode_check bs s =
     (if \<not> bp_multicast_mode s then (- 22, False)
      else if mc_num_disabled (bp_mcast s) \<noteq> 0 then (- 22, False)
      else if eth_proto bs = ETH_P_IP then batadv_mcast_forw_mode_check_ipv4 bs False
      else if eth_proto bs = ETH_P_IPV6 then batadv_mcast_forw_mode_check_ipv6 bs False
      else (- 22, False))"

definition batadv_mcast_forw_want_all_ip_count :: "u8 list \<Rightarrow> batadv_priv \<Rightarrow> int" where
  "batadv_mcast_forw_want_all_ip_count bs s =
     (if eth_proto bs = ETH_P_IP then mc_num_want_all_ipv4 (bp_mcast s)
      else if eth_proto bs = ETH_P_IPV6 then mc_num_want_all_ipv6 (bp_mcast s)
      else 0)"

definition batadv_mcast_forw_tt_node_get :: "kenv \<Rightarrow> u8 list \<Rightarrow> batadv_priv \<Rightarrow> nat option" where
  "batadv_mcast_forw_tt_node_get k bs s =
     batadv_transtable_search k bat_neigh_cmp (Some (eth_source bs)) (eth_dest bs) BATADV_NO_FLAGS s"

definition first_node :: "nat list \<Rightarrow> nat option" where
  "first_node l = (case l of [] \<Rightarrow> None | n # _ \<Rightarrow> Some n)"

definition batadv_mcast_forw_ipv4_node_get :: "batadv_priv \<Rightarrow> nat option" where
  "batadv_mcast_forw_ipv4_node_get s = first_node (mc_want_all_ipv4_list (bp_mcast s))"

definition batadv_mcast_forw_ipv6_node_get :: "batadv_priv \<Rightarrow> nat option" where
  "batadv_mcast_forw_ipv6_node_get s = first_node (mc_want_all_ipv6_list (bp_mcast s))"

definition batadv_mcast_forw_ip_node_get :: "u8 list \<Rightarrow> batadv_priv \<Rightarrow> nat option" where
  "batadv_mcast_forw_ip_node_get bs s =
     (if eth_proto bs = ETH_P_IP then batadv_mcast_forw_ipv4_node_get s
      else if eth_proto bs = ETH_P_IPV6 then batadv_mcast_forw_ipv6_node_get s
      else None)"

definition batadv_mcast_forw_unsnoop_node_get :: "batadv_priv \<Rightarrow> nat option" where
  "batadv_mcast_forw_unsnoop_node_get s = first_node (mc_want_all_unsnoopables_list (bp_mcast s))"

definition batadv_mcast_forw_mode :: "kenv \<Rightarrow> u8 list \<Rightarrow> batadv_priv \<Rightarrow> batadv_forw_mode \<times> nat option" where
  "batadv_mcast_forw_mode k bs s =
     (let (ret, is_unsnoopable) = batadv_mcast_forw_mode_check bs s in
      if ret = - 12 then (BATADV_FORW_NONE, None)
      else if ret < 0 then (BATADV_FORW_ALL, None)
      else
        (let tt_count = batadv_tt_global_hash_count k (eth_dest bs) BATADV_NO_FLAGS s;
             ip_count = batadv_mcast_forw_want_all_ip_count bs s;
             unsnoop_count = (if \<not> is_unsnoopable then 0 else mc_num_want_all_unsnoopables (bp_mcast s));
             total_count = tt_count + ip_count + unsnoop_count
         in if total_count = 1 then
              (let orig = (if tt_count \<noteq> 0 then batadv_mcast_forw_tt_node_get k bs s
                           else if ip_count \<noteq> 0 then batadv_mcast_forw_ip_node_get bs s
                           else batadv_mcast_forw_unsnoop_node_get s)
               in if orig \<noteq> None then (BATADV_FORW_SINGLE, orig) else (BATADV_FORW_NONE, None))
            else if total_count = 0 then (BATADV_FORW_NONE, None)
            else (BATADV_FORW_ALL, None)))"

section \<open>What the others want\<close>

text \<open>The three kinds of wishes: the code has a flag, a list and a counter for each, and a function that is the
  same but for their names.\<close>

datatype mcast_want = Want_Unsnoopables | Want_Ipv4 | Want_Ipv6

definition want_flag :: "mcast_want \<Rightarrow> nat" where
  "want_flag w = (case w of Want_Unsnoopables \<Rightarrow> 0 | Want_Ipv4 \<Rightarrow> 1 | Want_Ipv6 \<Rightarrow> 2)"

definition want_list :: "mcast_want \<Rightarrow> batadv_priv_mcast \<Rightarrow> nat list" where
  "want_list w m = (case w of Want_Unsnoopables \<Rightarrow> mc_want_all_unsnoopables_list m
                    | Want_Ipv4 \<Rightarrow> mc_want_all_ipv4_list m | Want_Ipv6 \<Rightarrow> mc_want_all_ipv6_list m)"

definition want_num :: "mcast_want \<Rightarrow> batadv_priv_mcast \<Rightarrow> int" where
  "want_num w m = (case w of Want_Unsnoopables \<Rightarrow> mc_num_want_all_unsnoopables m
                   | Want_Ipv4 \<Rightarrow> mc_num_want_all_ipv4 m | Want_Ipv6 \<Rightarrow> mc_num_want_all_ipv6 m)"

definition want_mod :: "mcast_want \<Rightarrow> (nat list \<Rightarrow> nat list) \<Rightarrow> (int \<Rightarrow> int) \<Rightarrow> batadv_priv_mcast \<Rightarrow> batadv_priv_mcast" where
  "want_mod w f g m =
     (case w of
        Want_Unsnoopables \<Rightarrow> m\<lparr>mc_want_all_unsnoopables_list := f (mc_want_all_unsnoopables_list m),
                              mc_num_want_all_unsnoopables := g (mc_num_want_all_unsnoopables m)\<rparr>
      | Want_Ipv4 \<Rightarrow> m\<lparr>mc_want_all_ipv4_list := f (mc_want_all_ipv4_list m),
                       mc_num_want_all_ipv4 := g (mc_num_want_all_ipv4 m)\<rparr>
      | Want_Ipv6 \<Rightarrow> m\<lparr>mc_want_all_ipv6_list := f (mc_want_all_ipv6_list m),
                       mc_num_want_all_ipv6 := g (mc_num_want_all_ipv6 m)\<rparr>)"

definition mcast_want_update :: "mcast_want \<Rightarrow> nat \<Rightarrow> u8 \<Rightarrow> batadv_priv \<Rightarrow> batadv_priv" where
  "mcast_want_update w orig mcast_flags s =
     (let old = bit (on_mcast_flags (orig_of s orig)) (want_flag w) in
      if bit mcast_flags (want_flag w) \<and> \<not> old then mcast_mod (want_mod w (\<lambda>l. orig # l) (\<lambda>n. n + 1)) s
      else if \<not> bit mcast_flags (want_flag w) \<and> old then mcast_mod (want_mod w (remove1 orig) (\<lambda>n. n - 1)) s
      else s)"

definition batadv_mcast_want_unsnoop_update :: "nat \<Rightarrow> u8 \<Rightarrow> batadv_priv \<Rightarrow> batadv_priv" where
  "batadv_mcast_want_unsnoop_update = mcast_want_update Want_Unsnoopables"

definition batadv_mcast_want_ipv4_update :: "nat \<Rightarrow> u8 \<Rightarrow> batadv_priv \<Rightarrow> batadv_priv" where
  "batadv_mcast_want_ipv4_update = mcast_want_update Want_Ipv4"

definition batadv_mcast_want_ipv6_update :: "nat \<Rightarrow> u8 \<Rightarrow> batadv_priv \<Rightarrow> batadv_priv" where
  "batadv_mcast_want_ipv6_update = mcast_want_update Want_Ipv6"

definition num_disabled_add :: "int \<Rightarrow> batadv_priv \<Rightarrow> batadv_priv" where
  "num_disabled_add d = mcast_mod (\<lambda>m. m\<lparr>mc_num_disabled := mc_num_disabled m + d\<rparr>)"

definition batadv_mcast_tvlv_ogm_handler_v1 :: "nat \<Rightarrow> u8 \<Rightarrow> u8 list \<Rightarrow> batadv_priv \<Rightarrow> batadv_priv" where
  "batadv_mcast_tvlv_ogm_handler_v1 orig flags tvlv_value s =
     (let orig_mcast_enabled = (flags AND BATADV_TVLV_HANDLER_OGM_CIFNOTFND = 0);
          mcast_flags = (if orig_mcast_enabled \<and> tvlv_value \<noteq> [] then tvlv_value ! 0 else 0);
          orig_initialized = bit (on_capa_initialized (orig_of s orig)) BATADV_ORIG_CAPA_HAS_MCAST;
          has = bit (on_capabilities (orig_of s orig)) BATADV_ORIG_CAPA_HAS_MCAST;
          s = (if orig_mcast_enabled \<and> \<not> has then
                 orig_mod orig (\<lambda>n. n\<lparr>on_capabilities := set_bit BATADV_ORIG_CAPA_HAS_MCAST (on_capabilities n)\<rparr>)
                   (if orig_initialized then num_disabled_add (- 1) s else s)
               else if \<not> orig_mcast_enabled \<and> (has \<or> \<not> orig_initialized) then
                 orig_mod orig (\<lambda>n. n\<lparr>on_capabilities := unset_bit BATADV_ORIG_CAPA_HAS_MCAST (on_capabilities n)\<rparr>)
                   (num_disabled_add 1 s)
               else s);
          s = orig_mod orig (\<lambda>n. n\<lparr>on_capa_initialized := set_bit BATADV_ORIG_CAPA_HAS_MCAST (on_capa_initialized n)\<rparr>) s;
          s = batadv_mcast_want_unsnoop_update orig mcast_flags s;
          s = batadv_mcast_want_ipv4_update orig mcast_flags s;
          s = batadv_mcast_want_ipv6_update orig mcast_flags s
      in orig_mod orig (\<lambda>n. n\<lparr>on_mcast_flags := mcast_flags\<rparr>) s)"

definition batadv_mcast_init :: "batadv_priv \<Rightarrow> batadv_priv" where
  "batadv_mcast_init = batadv_tvlv_handler_register True False BATADV_TVLV_MCAST 1 BATADV_TVLV_HANDLER_OGM_CIFNOTFND"

definition batadv_mcast_free :: "kenv \<Rightarrow> batadv_priv \<Rightarrow> batadv_priv" where
  "batadv_mcast_free k s =
     (let s = batadv_tvlv_container_unregister BATADV_TVLV_MCAST 1 s;
          s = batadv_tvlv_handler_unregister BATADV_TVLV_MCAST 1 s
      in batadv_mcast_mla_tt_retract k None s)"

text \<open>When an originator is freed.\<close>

definition batadv_mcast_purge_orig :: "nat \<Rightarrow> batadv_priv \<Rightarrow> batadv_priv" where
  "batadv_mcast_purge_orig orig s =
     (let s = (if \<not> bit (on_capabilities (orig_of s orig)) BATADV_ORIG_CAPA_HAS_MCAST \<and>
                  bit (on_capa_initialized (orig_of s orig)) BATADV_ORIG_CAPA_HAS_MCAST
               then num_disabled_add (- 1) s else s);
          s = batadv_mcast_want_unsnoop_update orig 0 s;
          s = batadv_mcast_want_ipv4_update orig 0 s
      in batadv_mcast_want_ipv6_update orig 0 s)"

end
