(* ===== verification/Softif.thy ===== *)
theory Softif
  imports Dat Mcast
begin

text \<open>
  The soft interface, \<open>soft-interface.c\<close>: frames of the local network on their way into the mesh
  (\<open>batadv_interface_tx\<close>) and out of it (\<open>batadv_interface_rx\<close>). A frame begins with its Ethernet
  header; \<open>Netif_Rx\<close> is the frame with that header and its mark, as the kernel gets it.
\<close>

abbreviation ETH_P_BATMAN :: u16 where "ETH_P_BATMAN \<equiv> 0x4305"

definition lan_skb :: "u8 list \<Rightarrow> u32 \<Rightarrow> u32 \<Rightarrow> sk_buff" where
  "lan_skb bs prio mark = \<lparr>sk_source = eth_source bs, sk_dest = eth_dest bs, sk_data = bs, sk_priority = prio,
     sk_mark = mark, sk_decoded = False\<rparr>"

section \<open>The other components on the shared state\<close>

text \<open>Bridge loop avoidance asks the translation table to forget the clients of an originator.\<close>

definition bla_forget :: "kenv \<Rightarrow> mac \<times> vid \<Rightarrow> batadv_priv \<Rightarrow> batadv_priv" where
  "bla_forget k d s = (case batadv_orig_hash_find k s (fst d) of None \<Rightarrow> s
                       | Some n \<Rightarrow> batadv_tt_global_del_orig k n (Some (snd d)) s)"

definition bla_run :: "kenv \<Rightarrow> (batadv_priv_bla \<Rightarrow> 'a \<times> batadv_priv_bla) \<Rightarrow> batadv_priv \<Rightarrow> 'a \<times> batadv_priv" where
  "bla_run k f s =
     (let (r, b) = f (bp_bla s);
          dels = drop (length (bla_tt_del (bp_bla s))) (bla_tt_del b)
      in (r, fold (bla_forget k) dels (s\<lparr>bp_bla := b\<rparr>)))"

section \<open>Into the mesh\<close>

text \<open>A frame of the protocol itself, also behind a VLAN tag.\<close>

definition nested_batman :: "u8 list \<Rightarrow> bool" where
  "nested_batman bs \<longleftrightarrow> eth_proto bs = ETH_P_BATMAN \<or> eth_proto bs = ETH_P_8021Q \<and> field_at bs 16 2 = ETH_P_BATMAN"

abbreviation stp_addr :: mac where "stp_addr \<equiv> 0x0180C2000000"
abbreviation ectp_addr :: mac where "ectp_addr \<equiv> 0xCF0000000000"

text \<open>
  What becomes of the frame. \<open>Tx_Tt\<close> has the address to look up when it is not the destination. The address
  of a DHCP client that was not found is what the memory holds.
\<close>

datatype tx_plan = Tx_Drop | Tx_Bcast | Tx_Gw | Tx_Single nat | Tx_Tt "mac option"

definition tx_bcast_plan :: "kenv \<Rightarrow> u8 list \<Rightarrow> batadv_priv \<Rightarrow> tx_plan" where
  "tx_bcast_plan k bs s =
     (if is_broadcast_ether_addr (eth_dest bs) then Tx_Bcast
      else
        (case batadv_mcast_forw_mode k bs s of
           (BATADV_FORW_NONE, _) \<Rightarrow> Tx_Drop
         | (BATADV_FORW_SINGLE, Some orig) \<Rightarrow> Tx_Single orig
         | _ \<Rightarrow> Tx_Bcast))"

definition tx_plan :: "kenv \<Rightarrow> u8 list \<Rightarrow> batadv_priv \<Rightarrow> tx_plan" where
  "tx_plan k bs s =
     (if eth_dest bs = stp_addr then Tx_Drop
      else if eth_dest bs = ectp_addr then Tx_Drop
      else if \<not> is_multicast_ether_addr (eth_dest bs) then Tx_Tt None
      else if bp_gw_mode s = BATADV_GW_MODE_OFF then tx_bcast_plan k bs s
      else
        (case batadv_gw_dhcp_recipient_get bs 0 of
           (BATADV_DHCP_NO, _) \<Rightarrow> tx_bcast_plan k bs s
         | (BATADV_DHCP_TO_CLIENT, chaddr) \<Rightarrow>
             Tx_Tt (Some (case chaddr of Some a \<Rightarrow> a | None \<Rightarrow> be_word (replicate 6 (bp_stray s))))
         | (BATADV_DHCP_TO_SERVER, _) \<Rightarrow> if bp_gw_mode s = BATADV_GW_MODE_SERVER then Tx_Drop else Tx_Gw))"

definition tx_broadcast :: "kenv \<Rightarrow> sk_buff \<Rightarrow> batadv_priv \<Rightarrow> bool \<times> batadv_priv" where
  "tx_broadcast k skb s =
     (case bp_primary_if s of
        None \<Rightarrow> (False, s)
      | Some primary_if \<Rightarrow>
          (let s = snd (batadv_dat_snoop_outgoing_arp_request k skb s);
               (ok, s) = kzalloc s
           in if \<not> ok then (False, s)
              else
                (let seqno = bp_bcast_seqno s + 1;
                     s = s\<lparr>bp_bcast_seqno := seqno\<rparr>;
                     bcast_packet = \<lparr>b_packet_type = BATADV_BCAST, b_version = BATADV_COMPAT_VERSION, b_ttl = BATADV_TTL,
                       b_reserved = 0, b_seqno = seqno, b_orig = hi_dev_addr (hardif_of s primary_if)\<rparr>
                 in (True, snd (batadv_add_bcast_packet_to_list (bcast_bytes bcast_packet @ sk_data skb) s)))))"

text \<open>The result: was the frame counted as sent?\<close>

definition batadv_interface_tx :: "kenv \<Rightarrow> u8 list \<Rightarrow> u32 \<Rightarrow> u32 \<Rightarrow> nat \<Rightarrow> batadv_priv \<Rightarrow> bool \<times> batadv_priv" where
  "batadv_interface_tx k bs prio mark iif s =
     (if bp_mesh_state s \<noteq> BATADV_MESH_ACTIVE then (False, s)
      else if nested_batman bs then (False, s)
      else
        (let vid = skb_vid bs 0;
             (claim, s) = bla_run k (batadv_bla_tx (bla_env_of k s) (lan_frame_of bs) vid) s
         in if claim \<noteq> 0 then (False, s)
            else
              (let (client_added, s) =
                 (if is_multicast_ether_addr (eth_source bs) then (True, s)
                  else batadv_tt_local_add k (eth_source bs) vid iif mark s)
               in if \<not> client_added then (False, s)
                  else
                    (let skb = batadv_skb_set_priority 0 (lan_skb bs prio mark);
                         sent = (\<lambda>(ret, s). (ret \<noteq> NET_XMIT_DROP, s))
                     in case tx_plan k bs s of
                          Tx_Drop \<Rightarrow> (False, s)
                        | Tx_Bcast \<Rightarrow> tx_broadcast k skb s
                        | Tx_Gw \<Rightarrow>
                            (let (out_of_range, s) = batadv_gw_out_of_range k skb s
                             in if out_of_range then (False, s) else sent (batadv_send_skb_via_gw k skb vid s))
                        | Tx_Single orig \<Rightarrow> sent (batadv_send_skb_unicast k skb BATADV_UNICAST 0 (Some orig) vid s)
                        | Tx_Tt dst_hint \<Rightarrow>
                            (let (answered, s) = batadv_dat_snoop_outgoing_arp_request k skb s
                             in if answered then (False, s)
                                else sent (batadv_send_skb_via_tt k skb dst_hint vid
                                             (batadv_dat_snoop_outgoing_arp_reply k skb s)))))))"

section \<open>Out of the mesh\<close>

definition batadv_interface_rx :: "kenv \<Rightarrow> sk_buff \<Rightarrow> nat \<Rightarrow> nat option \<Rightarrow> batadv_priv \<Rightarrow> batadv_priv" where
  "batadv_interface_rx k skb hdr_size orig_node s =
     (let is_bcast = (sk_data skb ! 0 = BATADV_BCAST);
          bs = drop hdr_size (sk_data skb)
      in if length (sk_data skb) < hdr_size then s
         else
           (let vid = skb_vid bs 0 in
            if nested_batman bs then s
            else if length bs < ETH_HLEN then s
            else
              (let (handled, s) = bla_run k (batadv_bla_rx (bla_env_of k s) (eth_dest bs) (eth_source bs) vid is_bcast) s
               in if handled \<noteq> 0 then s
                  else
                    (let s = (case orig_node of None \<Rightarrow> s
                              | Some n \<Rightarrow> snd (batadv_tt_add_temporary_global_entry k n (eth_source bs) vid s))
                     in if is_multicast_ether_addr (eth_dest bs) then
                          (let mark = (if batadv_vlan_ap_isola_get vid s \<and> batadv_tt_global_is_isolated k (eth_source bs) vid s
                                       then (sk_mark skb AND NOT (bp_isolation_mark_mask s)) OR bp_isolation_mark s
                                       else sk_mark skb)
                           in call (Netif_Rx bs mark) s)
                        else if batadv_is_ap_isolated k (eth_source bs) (eth_dest bs) vid s then s
                        else call (Netif_Rx bs (sk_mark skb)) s))))"

section \<open>Settings of the interface\<close>

definition batadv_interface_set_mac_addr :: "kenv \<Rightarrow> mac \<Rightarrow> batadv_priv \<Rightarrow> int \<times> batadv_priv" where
  "batadv_interface_set_mac_addr k addr s =
     (if is_multicast_ether_addr addr \<or> addr = 0 then (- 99, s)
      else
        (let old_addr = bp_soft_addr s;
             s = s\<lparr>bp_soft_addr := addr\<rparr>
         in if bp_mesh_state s \<noteq> BATADV_MESH_ACTIVE then (0, s)
            else (0, fold (\<lambda>vlan s. snd (batadv_tt_local_add k addr (sv_vid vlan) 0 0
                             (snd (batadv_tt_local_remove k old_addr (sv_vid vlan) False s))))
                       (bp_softif_vlan_list s) s)))"

text \<open>\<open>hardif-interface.c\<close>: the largest packet that the mesh can carry, and from it the size of a frame.\<close>

definition batadv_max_header_len :: int where
  "batadv_max_header_len =
     (let header_len = 0;
          header_len = max header_len 10;
          header_len = max header_len 18;
          header_len = max header_len 14;
          header_len = max header_len 46
      in header_len + ETH_HLEN)"

definition batadv_hardif_min_mtu :: "batadv_priv \<Rightarrow> int \<times> batadv_priv" where
  "batadv_hardif_min_mtu s =
     (let min_mtu = fold (\<lambda>i m. if (hi_if_status (hardif_of s i) = BATADV_IF_ACTIVE \<or>
                                    hi_if_status (hardif_of s i) = BATADV_IF_TO_BE_ACTIVATED) \<and>
                                   hi_soft_iface (hardif_of s i) = Some (bp_soft_iface s)
                                then min (int (hi_mtu (hardif_of s i))) m else m)
                      (bp_hardif_list s) 0x7FFFFFFF;
          min_mtu = (if \<not> bp_fragmentation s then min_mtu
                     else (min min_mtu BATADV_FRAG_MAX_FRAG_SIZE - FRAG_HLEN) * BATADV_FRAG_MAX_FRAGMENTS)
      in (min (min_mtu - batadv_max_header_len) 1500, s\<lparr>bp_packet_size_max := min_mtu\<rparr>))"

definition batadv_interface_change_mtu :: "int \<Rightarrow> batadv_priv \<Rightarrow> int \<times> batadv_priv" where
  "batadv_interface_change_mtu new_mtu s =
     (if new_mtu < 68 then (- 22, s)
      else
        (let (limit, s) = batadv_hardif_min_mtu s
         in if new_mtu > limit then (- 22, s) else (0, s\<lparr>bp_mtu := nat new_mtu\<rparr>)))"

end
