(* ===== verification/Bat_V.thy ===== *)
theory Bat_V
  imports Softif
begin

text \<open>
  B.A.T.M.A.N. V: \<open>bat_v.c\<close>, the echo location protocol (\<open>bat_v_elp.c\<close>) that finds the neighbours and
  measures the links, and its originator messages (\<open>bat_v_ogm.c\<close>), whose metric is the throughput of
  the path in units of 100 kbit/s.

  What the drivers know of a link is an argument (\<open>link_env\<close>). A timer that is set is its delay in
  milliseconds, a work item that is queued the neighbour it is for. The comparisons of neighbours are
  in \<open>Unicast\<close>.
\<close>

abbreviation BATADV_ELP :: u8 where "BATADV_ELP \<equiv> 3"
abbreviation BATADV_OGM2 :: u8 where "BATADV_OGM2 \<equiv> 4"
abbreviation BATADV_OGM2_HLEN :: "'a :: numeral" where "BATADV_OGM2_HLEN \<equiv> 20"
abbreviation BATADV_ELP_HLEN :: "'a :: numeral" where "BATADV_ELP_HLEN \<equiv> 16"
abbreviation BATADV_THROUGHPUT_MAX_VALUE :: u32 where "BATADV_THROUGHPUT_MAX_VALUE \<equiv> 0xFFFFFFFF"
abbreviation BATADV_THROUGHPUT_DEFAULT_VALUE :: u32 where "BATADV_THROUGHPUT_DEFAULT_VALUE \<equiv> 10"
abbreviation BATADV_ELP_MIN_PROBE_SIZE :: nat where "BATADV_ELP_MIN_PROBE_SIZE \<equiv> 200"
abbreviation BATADV_ELP_PROBE_MAX_TX_DIFF :: u32 where "BATADV_ELP_PROBE_MAX_TX_DIFF \<equiv> 100"
abbreviation BATADV_ELP_MAX_AGE :: int where "BATADV_ELP_MAX_AGE \<equiv> 64"
abbreviation BATADV_OGM_MAX_AGE :: int where "BATADV_OGM_MAX_AGE \<equiv> 64"
abbreviation BATADV_OGM_MAX_ORIGDIFF :: int where "BATADV_OGM_MAX_ORIGDIFF \<equiv> 5"
abbreviation (input) BATADV_FULL_DUPLEX :: nat where "BATADV_FULL_DUPLEX \<equiv> 0"
abbreviation (input) BATADV_WARNING_DEFAULT :: nat where "BATADV_WARNING_DEFAULT \<equiv> 1"

section \<open>Packets\<close>

record batadv_ogm2_packet =
  o2_packet_type :: u8
  o2_version :: u8
  o2_ttl :: u8
  o2_flags :: u8
  o2_seqno :: u32
  o2_orig :: mac
  o2_tvlv_len :: u16
  o2_throughput :: u32

definition ogm2_bytes :: "batadv_ogm2_packet \<Rightarrow> u8 list" where
  "ogm2_bytes p = [o2_packet_type p, o2_version p, o2_ttl p, o2_flags p] @ be_bytes 4 (o2_seqno p) @
     be_bytes 6 (o2_orig p) @ be_bytes 2 (o2_tvlv_len p) @ be_bytes 4 (o2_throughput p)"

definition ogm2_of :: "u8 list \<Rightarrow> batadv_ogm2_packet" where
  "ogm2_of bs = \<lparr>o2_packet_type = bs ! 0, o2_version = bs ! 1, o2_ttl = bs ! 2, o2_flags = bs ! 3,
     o2_seqno = field_at bs 4 4, o2_orig = field_at bs 8 6, o2_tvlv_len = field_at bs 14 2,
     o2_throughput = field_at bs 16 4\<rparr>"

definition ogm2_mod :: "(batadv_ogm2_packet \<Rightarrow> batadv_ogm2_packet) \<Rightarrow> u8 list \<Rightarrow> u8 list" where
  "ogm2_mod f bs = ogm2_bytes (f (ogm2_of bs)) @ drop 20 bs"

record batadv_elp_packet =
  e_packet_type :: u8
  e_version :: u8
  e_orig :: mac
  e_seqno :: u32
  e_elp_interval :: u32

definition elp_bytes :: "batadv_elp_packet \<Rightarrow> u8 list" where
  "elp_bytes p = [e_packet_type p, e_version p] @ be_bytes 6 (e_orig p) @ be_bytes 4 (e_seqno p) @ be_bytes 4 (e_elp_interval p)"

definition elp_of :: "u8 list \<Rightarrow> batadv_elp_packet" where
  "elp_of bs = \<lparr>e_packet_type = bs ! 0, e_version = bs ! 1, e_orig = field_at bs 2 6, e_seqno = field_at bs 8 4,
     e_elp_interval = field_at bs 12 4\<rparr>"

definition elp_mod :: "(batadv_elp_packet \<Rightarrow> batadv_elp_packet) \<Rightarrow> u8 list \<Rightarrow> u8 list" where
  "elp_mod f bs = elp_bytes (f (elp_of bs)) @ drop 16 bs"

lemma length_v [simp]: "length (ogm2_bytes p) = 20" "length (elp_bytes q) = 16"
  by (simp_all add: ogm2_bytes_def elp_bytes_def)

lemma ogm2_of_bytes [simp]: "ogm2_of (ogm2_bytes p @ rest) = p"
  by (cases p) (simp add: ogm2_of_def ogm2_bytes_def field_at_def be_word_bytes)

lemma elp_of_bytes [simp]: "elp_of (elp_bytes p @ rest) = p"
  by (cases p) (simp add: elp_of_def elp_bytes_def field_at_def be_word_bytes)

text \<open>A frame of the node itself; its addresses are set when it is sent.\<close>

definition plain_skb :: "u8 list \<Rightarrow> sk_buff" where
  "plain_skb bs = \<lparr>sk_source = 0, sk_dest = 0, sk_data = bs, sk_priority = 0, sk_mark = 0, sk_decoded = False\<rparr>"

section \<open>The moving average of a link\<close>

text \<open>\<open>average.h\<close>, with factor 1024 and weight 8: fixed point with ten bits behind the point; 0 is \<open>not set\<close>.\<close>

definition ewma_throughput_read :: "u64 \<Rightarrow> u64" where
  "ewma_throughput_read internal = drop_bit 10 internal"

definition ewma_throughput_add :: "u64 \<Rightarrow> u64 \<Rightarrow> u64" where
  "ewma_throughput_add internal val =
     (if internal \<noteq> 0 then drop_bit 3 ((push_bit 3 internal - internal) + push_bit 10 val) else push_bit 10 val)"

section \<open>The echo location protocol\<close>

text \<open>
  What the drivers tell: \<open>le_station\<close> is \<open>cfg80211_get_station\<close>, \<open>None\<close> without a device of that
  interface; \<open>le_ethtool\<close> is \<open>__ethtool_get_settings\<close>, is the link full duplex and how fast is it.
\<close>

datatype station_info = Station_Gone | Station_Error | Station_Throughput u32

record link_env =
  le_jiffies_to_msecs :: "u64 \<Rightarrow> u32"
  le_station :: "nat \<Rightarrow> mac \<Rightarrow> station_info option"
  le_ethtool :: "nat \<Rightarrow> (bool \<times> u32) option"

definition v_flag :: "nat \<Rightarrow> bool \<Rightarrow> nat \<Rightarrow> batadv_priv \<Rightarrow> batadv_priv" where
  "v_flag b v hard_iface =
     hardif_mod hard_iface (\<lambda>i. i\<lparr>hi_v_flags := (if v then set_bit b (hi_v_flags i) else unset_bit b (hi_v_flags i))\<rparr>)"

definition batadv_v_elp_start_timer :: "nat \<Rightarrow> batadv_priv \<Rightarrow> u32 \<times> batadv_priv" where
  "batadv_v_elp_start_timer hard_iface s =
     (let (r, s) = prandom_u32 s
      in (hi_elp_interval (hardif_of s hard_iface) - BATADV_JITTER + r mod (2 * BATADV_JITTER), s))"

definition batadv_v_elp_get_throughput :: "link_env \<Rightarrow> nat \<Rightarrow> mac \<Rightarrow> batadv_priv \<Rightarrow> u32 \<times> batadv_priv" where
  "batadv_v_elp_get_throughput le hard_iface addr s =
     (let throughput = hi_throughput_override (hardif_of s hard_iface);
          default_throughput = (\<lambda>s. (BATADV_THROUGHPUT_DEFAULT_VALUE, v_flag BATADV_WARNING_DEFAULT True hard_iface s))
      in if throughput \<noteq> 0 then (throughput, s)
         else if hi_wifi (hardif_of s hard_iface) then
           (case le_station le hard_iface addr of
              Some Station_Gone \<Rightarrow> (0, s)
            | Some (Station_Throughput expected_throughput) \<Rightarrow> (expected_throughput div 100, s)
            | _ \<Rightarrow> default_throughput s)
         else
           (case le_ethtool le hard_iface of
              None \<Rightarrow> default_throughput s
            | Some (full_duplex, speed) \<Rightarrow>
                (let s = v_flag BATADV_FULL_DUPLEX full_duplex hard_iface s
                 in if speed \<noteq> 0 \<and> speed \<noteq> 0xFFFFFFFF then (speed * 10, s) else default_throughput s)))"

definition batadv_v_elp_throughput_metric_update :: "link_env \<Rightarrow> nat \<Rightarrow> mac \<Rightarrow> batadv_priv \<Rightarrow> batadv_priv" where
  "batadv_v_elp_throughput_metric_update le hard_iface addr s =
     (let (throughput, s) = batadv_v_elp_get_throughput le hard_iface addr s;
          s = hardif_neigh_mod hard_iface addr
                (\<lambda>n. n\<lparr>hn_throughput := ewma_throughput_add (hn_throughput n) (ucast throughput)\<rparr>) s
      in batadv_hardif_neigh_put hard_iface addr s)"

text \<open>The bytes behind the packet of a probe are what the memory holds.\<close>

fun send_probes :: "kenv \<Rightarrow> nat \<Rightarrow> nat \<Rightarrow> mac \<Rightarrow> batadv_priv \<Rightarrow> bool \<times> batadv_priv" where
  "send_probes k 0 hard_iface addr s = (True, s)"
| "send_probes k (Suc n) hard_iface addr s =
     (case hi_elp_skb (hardif_of s hard_iface) of
        None \<Rightarrow> (False, s\<lparr>bp_panic := True\<rparr>)
      | Some elp_skb \<Rightarrow>
          (let (ok, s) = kzalloc s;
               probe_len = max BATADV_ELP_HLEN BATADV_ELP_MIN_PROBE_SIZE;
               skb = plain_skb (elp_skb @ replicate (probe_len - length elp_skb) (bp_stray s))
           in if \<not> ok then (False, s)
              else send_probes k n hard_iface addr (snd (batadv_send_skb_packet k skb hard_iface addr s))))"

definition batadv_v_elp_wifi_neigh_probe :: "kenv \<Rightarrow> link_env \<Rightarrow> nat \<Rightarrow> mac \<Rightarrow> batadv_priv \<Rightarrow> bool \<times> batadv_priv" where
  "batadv_v_elp_wifi_neigh_probe k le hard_iface addr s =
     (if \<not> hi_wifi (hardif_of s hard_iface) then (True, s)
      else
        (case batadv_hardif_neigh_get s hard_iface addr of
           None \<Rightarrow> (True, s)
         | Some neigh \<Rightarrow>
             (let last_tx_diff = le_jiffies_to_msecs le (k_jiffies k - hn_last_unicast_tx neigh)
              in if last_tx_diff \<le> BATADV_ELP_PROBE_MAX_TX_DIFF then (True, s)
                 else send_probes k 2 hard_iface addr s)))"

text \<open>The loop over the neighbours: whose metric is to be updated. A failed probe ends it.\<close>

fun elp_probe_neighs :: "kenv \<Rightarrow> link_env \<Rightarrow> nat \<Rightarrow> mac list \<Rightarrow> batadv_priv \<Rightarrow> mac list \<times> batadv_priv" where
  "elp_probe_neighs k le hard_iface [] s = ([], s)"
| "elp_probe_neighs k le hard_iface (addr # rest) s =
     (let (ok, s) = batadv_v_elp_wifi_neigh_probe k le hard_iface addr s
      in if \<not> ok then ([], s)
         else
           (let s = hardif_neigh_mod hard_iface addr (\<lambda>n. n\<lparr>hn_refcount := hn_refcount n + 1\<rparr>) s;
                (queued, s) = elp_probe_neighs k le hard_iface rest s
            in (addr # queued, s)))"

text \<open>The result: the delay of the next run, if there is one, and the neighbours to be measured.\<close>

definition batadv_v_elp_periodic_work ::
  "kenv \<Rightarrow> link_env \<Rightarrow> nat \<Rightarrow> batadv_priv \<Rightarrow> u32 option \<times> mac list \<times> batadv_priv" where
  "batadv_v_elp_periodic_work k le hard_iface s =
     (let restart_timer = (\<lambda>(queued, s). (let (msecs, s) = batadv_v_elp_start_timer hard_iface s in (Some msecs, queued, s)))
      in if bp_mesh_state s = BATADV_MESH_DEACTIVATING then (None, [], s)
         else if hi_if_status (hardif_of s hard_iface) = BATADV_IF_NOT_IN_USE \<or>
                 hi_if_status (hardif_of s hard_iface) = BATADV_IF_TO_BE_REMOVED then (None, [], s)
         else if hi_if_status (hardif_of s hard_iface) \<noteq> BATADV_IF_ACTIVE then restart_timer ([], s)
         else
           (case hi_elp_skb (hardif_of s hard_iface) of
              None \<Rightarrow> (None, [], s\<lparr>bp_panic := True\<rparr>)
            | Some elp_skb \<Rightarrow>
                (let (ok, s) = kzalloc s
                 in if \<not> ok then restart_timer ([], s)
                    else
                      (let i = hardif_of s hard_iface;
                           skb = elp_mod (\<lambda>p. p\<lparr>e_seqno := hi_elp_seqno i, e_elp_interval := hi_elp_interval i\<rparr>) elp_skb;
                           s = snd (batadv_send_broadcast_skb k (plain_skb skb) hard_iface s);
                           s = hardif_mod hard_iface (\<lambda>i. i\<lparr>hi_elp_seqno := hi_elp_seqno i + 1\<rparr>) s
                       in restart_timer (elp_probe_neighs k le hard_iface
                            (map hn_addr (hi_neigh_list (hardif_of s hard_iface))) s)))))"

definition batadv_v_elp_iface_enable :: "nat \<Rightarrow> batadv_priv \<Rightarrow> int \<times> batadv_priv" where
  "batadv_v_elp_iface_enable hard_iface s =
     (let (ok, s) = kzalloc s in
      if \<not> ok then (- 12, hardif_mod hard_iface (\<lambda>i. i\<lparr>hi_elp_skb := None\<rparr>) s)
      else
        (let elp_packet = \<lparr>e_packet_type = BATADV_ELP, e_version = BATADV_COMPAT_VERSION, e_orig = 0, e_seqno = 0, e_elp_interval = 0\<rparr>;
             (random_seqno, s) = prandom_u32 s;
             s = hardif_mod hard_iface (\<lambda>i. i\<lparr>hi_elp_skb := Some (elp_bytes elp_packet), hi_elp_seqno := random_seqno,
                                             hi_elp_interval := 500\<rparr>) s;
             s = v_flag BATADV_FULL_DUPLEX True hard_iface s;
             s = v_flag BATADV_WARNING_DEFAULT False hard_iface s;
             s = (if hi_wifi (hardif_of s hard_iface) then v_flag BATADV_FULL_DUPLEX False hard_iface s else s)
         in (0, snd (batadv_v_elp_start_timer hard_iface s))))"

definition batadv_v_elp_iface_disable :: "nat \<Rightarrow> batadv_priv \<Rightarrow> batadv_priv" where
  "batadv_v_elp_iface_disable hard_iface = hardif_mod hard_iface (\<lambda>i. i\<lparr>hi_elp_skb := None\<rparr>)"

definition batadv_v_elp_primary_iface_set :: "nat \<Rightarrow> batadv_priv \<Rightarrow> batadv_priv" where
  "batadv_v_elp_primary_iface_set primary_iface s =
     fold (\<lambda>i s.
         if hi_soft_iface (hardif_of s primary_iface) \<noteq> hi_soft_iface (hardif_of s i) then s
         else hardif_mod i (\<lambda>h. h\<lparr>hi_elp_skb := map_option
                (elp_mod (\<lambda>p. p\<lparr>e_orig := hi_dev_addr (hardif_of s primary_iface)\<rparr>)) (hi_elp_skb h)\<rparr>) s)
       (bp_hardif_list s) s"

section \<open>Originator messages: sending\<close>

definition batadv_v_ogm_orig_get :: "kenv \<Rightarrow> mac \<Rightarrow> batadv_priv \<Rightarrow> nat option \<times> batadv_priv" where
  "batadv_v_ogm_orig_get k addr s =
     (case batadv_orig_hash_find k s addr of
        Some orig_node \<Rightarrow> (Some orig_node, s)
      | None \<Rightarrow>
          (case batadv_orig_node_new k addr s of
             (None, s) \<Rightarrow> (None, s)
           | (Some n, s) \<Rightarrow>
               (let (hash_added, hash) = batadv_hash_add (bp_orig_hash s) batadv_compare_orig
                      (batadv_choose_orig k) addr (addr, n)
                in if hash_added \<noteq> 0 then (None, s) else (Some n, s\<lparr>bp_orig_hash := hash\<rparr>))))"

text \<open>A timer that is pending stays as it is.\<close>

definition batadv_v_ogm_start_timer :: "bool \<Rightarrow> batadv_priv \<Rightarrow> u32 option \<times> batadv_priv" where
  "batadv_v_ogm_start_timer pending s =
     (if pending then (None, s)
      else (let (r, s) = prandom_u32 s in (Some (bp_orig_interval s - BATADV_JITTER + r mod (2 * BATADV_JITTER)), s)))"

definition batadv_v_ogm_send_to_if :: "kenv \<Rightarrow> u8 list \<Rightarrow> nat \<Rightarrow> batadv_priv \<Rightarrow> batadv_priv" where
  "batadv_v_ogm_send_to_if k bs hard_iface s =
     (if hi_if_status (hardif_of s hard_iface) \<noteq> BATADV_IF_ACTIVE then s
      else snd (batadv_send_broadcast_skb k (plain_skb bs) hard_iface s))"

text \<open>A copy is made for every interface; the loop ends when one cannot be made.\<close>

fun v_ogm_send_all :: "kenv \<Rightarrow> u8 list \<Rightarrow> nat list \<Rightarrow> batadv_priv \<Rightarrow> batadv_priv" where
  "v_ogm_send_all k bs [] s = s"
| "v_ogm_send_all k bs (i # rest) s =
     (if hi_soft_iface (hardif_of s i) \<noteq> Some (bp_soft_iface s) then v_ogm_send_all k bs rest s
      else
        (let (ok, s) = kzalloc s
         in if \<not> ok then s else v_ogm_send_all k bs rest (batadv_v_ogm_send_to_if k bs i s)))"

definition batadv_v_ogm_send ::
  "kenv \<Rightarrow> (batadv_priv \<Rightarrow> batadv_priv) \<Rightarrow> batadv_priv \<Rightarrow> u32 option \<times> batadv_priv" where
  "batadv_v_ogm_send k mla_update s =
     (if bp_mesh_state s = BATADV_MESH_DEACTIVATING then (None, s)
      else
        (let s = batadv_tt_local_commit_changes k mla_update s;
             (tvlv_len, ogm_buff, s) = batadv_tvlv_container_ogm_append (bv_ogm_buff (bp_bat_v s)) BATADV_OGM2_HLEN s;
             s = s\<lparr>bp_bat_v := (bp_bat_v s)\<lparr>bv_ogm_buff := ogm_buff\<rparr>\<rparr>;
             (ok, s) = kzalloc s
         in if \<not> ok then batadv_v_ogm_start_timer False s
            else
              (let pkt_buff = ogm2_mod (\<lambda>p. p\<lparr>o2_seqno := bv_ogm_seqno (bp_bat_v s), o2_tvlv_len := tvlv_len\<rparr>) ogm_buff;
                   s = s\<lparr>bp_bat_v := (bp_bat_v s)\<lparr>bv_ogm_seqno := bv_ogm_seqno (bp_bat_v s) + 1\<rparr>\<rparr>
               in batadv_v_ogm_start_timer False (v_ogm_send_all k pkt_buff (bp_hardif_list s) s))))"

definition batadv_v_ogm_iface_enable :: "bool \<Rightarrow> batadv_priv \<Rightarrow> int \<times> batadv_priv" where
  "batadv_v_ogm_iface_enable pending s = (0, snd (batadv_v_ogm_start_timer pending s))"

definition batadv_v_ogm_primary_iface_set :: "nat \<Rightarrow> batadv_priv \<Rightarrow> batadv_priv" where
  "batadv_v_ogm_primary_iface_set primary_iface s =
     (if bv_ogm_buff (bp_bat_v s) = [] then s
      else s\<lparr>bp_bat_v := (bp_bat_v s)\<lparr>bv_ogm_buff :=
             ogm2_mod (\<lambda>p. p\<lparr>o2_orig := hi_dev_addr (hardif_of s primary_iface)\<rparr>) (bv_ogm_buff (bp_bat_v s))\<rparr>\<rparr>)"

section \<open>Originator messages: receiving\<close>

text \<open>All computed with 32 bits without sign, the product included.\<close>

definition batadv_v_forward_penalty :: "batadv_priv \<Rightarrow> nat \<Rightarrow> nat option \<Rightarrow> u32 \<Rightarrow> u32" where
  "batadv_v_forward_penalty s if_incoming if_outgoing throughput =
     (let hop_penalty = bp_hop_penalty s;
          hop_penalty_max = BATADV_TQ_MAX_VALUE
      in if if_outgoing = None then throughput
         else if throughput > 10 \<and> Some if_incoming = if_outgoing \<and>
                 \<not> bit (hi_v_flags (hardif_of s if_incoming)) BATADV_FULL_DUPLEX then throughput div 2
         else throughput * (hop_penalty_max - hop_penalty) div hop_penalty_max)"

definition batadv_v_ogm_forward ::
  "kenv \<Rightarrow> batadv_ogm2_packet \<Rightarrow> u8 list \<Rightarrow> nat \<Rightarrow> nat \<Rightarrow> nat option \<Rightarrow> batadv_priv \<Rightarrow> batadv_priv" where
  "batadv_v_ogm_forward k ogm_received tvlv orig_node neigh_node if_outgoing s =
     (case if_outgoing of
        None \<Rightarrow> s
      | Some outif \<Rightarrow>
          (let (ok, s) = batadv_orig_ifinfo_new k orig_node if_outgoing s in
           if \<not> ok then s
           else if Some neigh_node \<noteq> batadv_orig_router_get s orig_node if_outgoing then s
           else if map_option oi_last_seqno_forwarded (batadv_orig_ifinfo_get s orig_node if_outgoing) = Some (o2_seqno ogm_received) then s
           else
             (let s = orig_ifinfo_mod orig_node if_outgoing (\<lambda>i. i\<lparr>oi_last_seqno_forwarded := o2_seqno ogm_received\<rparr>) s
              in if o2_ttl ogm_received \<le> 1 then s
                 else
                   (case batadv_neigh_ifinfo_get s neigh_node if_outgoing of
                      None \<Rightarrow> s
                    | Some neigh_ifinfo \<Rightarrow>
                        (let (ok, s) = kzalloc s
                         in if \<not> ok then s
                            else
                              (let ogm_forward = ogm_received\<lparr>o2_throughput := ni_throughput neigh_ifinfo,
                                     o2_ttl := o2_ttl ogm_received - 1\<rparr>
                               in batadv_v_ogm_send_to_if k (ogm2_bytes ogm_forward @ tvlv) outif s))))))"

definition batadv_v_ogm_metric_update ::
  "kenv \<Rightarrow> batadv_ogm2_packet \<Rightarrow> nat \<Rightarrow> nat \<Rightarrow> nat \<Rightarrow> nat option \<Rightarrow> batadv_priv \<Rightarrow> int \<times> batadv_priv" where
  "batadv_v_ogm_metric_update k ogm2 orig_node neigh_node if_incoming if_outgoing s =
     (let (ok, s) = batadv_orig_ifinfo_new k orig_node if_outgoing s in
      case (ok, batadv_orig_ifinfo_get s orig_node if_outgoing) of
        (True, Some orig_ifinfo) \<Rightarrow>
          (let seq_diff = o2_seqno ogm2 - oi_last_real_seqno orig_ifinfo;
               (protected, reset, protection_started) =
                 (if on_neigh_list (orig_of s orig_node) \<noteq> []
                  then batadv_window_protected k seq_diff BATADV_OGM_MAX_AGE (oi_batman_seqno_reset orig_ifinfo)
                  else (False, oi_batman_seqno_reset orig_ifinfo, False));
               s = orig_ifinfo_mod orig_node if_outgoing (\<lambda>i. i\<lparr>oi_batman_seqno_reset := reset\<rparr>) s
           in if protected then (- 22, s)
              else if sint seq_diff < 0 \<and> \<not> protection_started then (- 22, s)
              else
                (let s = neigh_mod neigh_node (\<lambda>n. n\<lparr>nn_last_seen := k_jiffies k\<rparr>) s;
                     s = orig_mod orig_node (\<lambda>n. n\<lparr>on_last_seen := k_jiffies k\<rparr>) s;
                     s = orig_ifinfo_mod orig_node if_outgoing
                           (\<lambda>i. i\<lparr>oi_last_real_seqno := o2_seqno ogm2, oi_last_ttl := o2_ttl ogm2\<rparr>) s;
                     (ok, s) = batadv_neigh_ifinfo_new neigh_node if_outgoing s
                 in if \<not> ok then (- 22, s)
                    else
                      (let path_throughput = batadv_v_forward_penalty s if_incoming if_outgoing (o2_throughput ogm2);
                           s = neigh_ifinfo_mod neigh_node if_outgoing
                                 (\<lambda>i. i\<lparr>ni_throughput := path_throughput, ni_last_seqno := o2_seqno ogm2,
                                        ni_last_ttl := o2_ttl ogm2\<rparr>) s
                       in (if sint seq_diff > 0 \<or> protection_started then 1 else 0, s))))
      | _ \<Rightarrow> (- 22, s))"

definition batadv_v_ogm_route_update ::
  "kenv \<Rightarrow> mac \<Rightarrow> nat \<Rightarrow> nat \<Rightarrow> nat option \<Rightarrow> batadv_priv \<Rightarrow> bool \<times> batadv_priv" where
  "batadv_v_ogm_route_update k h_source orig_node neigh_node if_outgoing s =
     (case batadv_v_ogm_orig_get k h_source s of
        (None, s) \<Rightarrow> (False, s)
      | (Some orig_neigh_node, s) \<Rightarrow>
          (let orig_neigh_router = batadv_orig_router_get s orig_neigh_node if_outgoing;
               router = batadv_orig_router_get s orig_node if_outgoing;
               update = (\<lambda>s. (True, batadv_update_route orig_node if_outgoing (Some neigh_node) s))
           in case router of
                None \<Rightarrow> update s
              | Some r \<Rightarrow>
                  if nn_orig_node (neigh_of s r) \<noteq> orig_node \<and> orig_neigh_router = None then (False, s)
                  else if r = neigh_node then (True, s)
                  else
                    (case (batadv_neigh_ifinfo_get s r if_outgoing, batadv_neigh_ifinfo_get s neigh_node if_outgoing) of
                       (Some router_ifinfo, Some neigh_ifinfo) \<Rightarrow>
                         (let neigh_seq_diff = ni_last_seqno neigh_ifinfo - ni_last_seqno router_ifinfo
                          in if sint neigh_seq_diff < BATADV_OGM_MAX_ORIGDIFF \<and>
                                ni_throughput router_ifinfo \<ge> ni_throughput neigh_ifinfo then (True, s)
                             else update s)
                     | _ \<Rightarrow> (True, s))))"

text \<open>The handlers of all components, in the form that the parser of containers calls them.\<close>

definition full_ogm_handler :: "kenv \<Rightarrow> ogm_handler" where
  "full_ogm_handler k t v orig flags tvlv_value s =
     (if t = BATADV_TVLV_GW \<and> v = 1 then batadv_gw_tvlv_ogm_handler_v1 orig flags tvlv_value s
      else if t = BATADV_TVLV_MCAST \<and> v = 1 then batadv_mcast_tvlv_ogm_handler_v1 orig flags tvlv_value s
      else tt_ogm_handler k t v orig flags tvlv_value s)"

definition batadv_v_ogm_process_per_outif ::
  "kenv \<Rightarrow> mac \<Rightarrow> batadv_ogm2_packet \<Rightarrow> u8 list \<Rightarrow> nat \<Rightarrow> nat \<Rightarrow> nat \<Rightarrow> nat option \<Rightarrow> batadv_priv \<Rightarrow> batadv_priv" where
  "batadv_v_ogm_process_per_outif k h_source ogm2 tvlv orig_node neigh_node if_incoming if_outgoing s =
     (let (seqno_age, s) = batadv_v_ogm_metric_update k ogm2 orig_node neigh_node if_incoming if_outgoing s
      in if seqno_age < 0 then s
         else
           (let s = (if seqno_age > 0 \<and> if_outgoing = None
                     then snd (batadv_tvlv_containers_process (full_ogm_handler k) (tt_unicast_handler k) True
                                 (Some orig_node) None None tvlv s)
                     else s);
                (forward, s) = batadv_v_ogm_route_update k h_source orig_node neigh_node if_outgoing s
            in if forward then batadv_v_ogm_forward k ogm2 tvlv orig_node neigh_node if_outgoing s else s))"

definition batadv_v_ogm_aggr_packet :: "nat \<Rightarrow> nat \<Rightarrow> u16 \<Rightarrow> bool" where
  "batadv_v_ogm_aggr_packet buff_pos packet_len tvlv_len =
     (let next_buff_pos = buff_pos + BATADV_OGM2_HLEN + unat tvlv_len
      in next_buff_pos \<le> packet_len \<and> next_buff_pos \<le> BATADV_MAX_AGGREGATION_BYTES)"

definition batadv_v_ogm_process :: "kenv \<Rightarrow> mac \<Rightarrow> u8 list \<Rightarrow> nat \<Rightarrow> nat \<Rightarrow> batadv_priv \<Rightarrow> batadv_priv" where
  "batadv_v_ogm_process k h_source buf ogm_offset if_incoming s =
     (let ogm_packet = ogm2_of (drop ogm_offset buf);
          tvlv = take (unat (o2_tvlv_len ogm_packet)) (drop (ogm_offset + BATADV_OGM2_HLEN) buf)
      in if o2_throughput ogm_packet = 0 then s
         else
           (case batadv_hardif_neigh_get s if_incoming h_source of
              None \<Rightarrow> s
            | Some hardif_neigh \<Rightarrow>
                (case batadv_v_ogm_orig_get k (o2_orig ogm_packet) s of
                   (None, s) \<Rightarrow> s
                 | (Some orig_node, s) \<Rightarrow>
                     (case batadv_neigh_node_new k orig_node if_incoming h_source s of
                        (None, s) \<Rightarrow> s
                      | (Some neigh_node, s) \<Rightarrow>
                          (let link_throughput = ucast (ewma_throughput_read (hn_throughput hardif_neigh));
                               path_throughput = min link_throughput (o2_throughput ogm_packet);
                               ogm_packet = ogm_packet\<lparr>o2_throughput := path_throughput\<rparr>;
                               per_outif = batadv_v_ogm_process_per_outif k h_source ogm_packet tvlv orig_node neigh_node if_incoming;
                               s = per_outif None s
                           in fold (\<lambda>hard_iface s. if mesh_iface s hard_iface then per_outif (Some hard_iface) s else s)
                                (bp_hardif_list s) s)))))"

text \<open>The length field behind the end of the buffer is what the memory holds.\<close>

definition v_tvlv_len_at :: "(nat \<Rightarrow> u8) \<Rightarrow> u8 list \<Rightarrow> nat \<Rightarrow> u16" where
  "v_tvlv_len_at oob buf off =
     be_word [byte_at oob buf (off + 14), byte_at oob buf (off + 15)]"

function v_unpack :: "(nat \<Rightarrow> 's \<Rightarrow> 's) \<Rightarrow> (nat \<Rightarrow> u8) \<Rightarrow> u8 list \<Rightarrow> nat \<Rightarrow> 's \<Rightarrow> 's" where
  "v_unpack process oob buf ogm_offset s =
     (if batadv_v_ogm_aggr_packet ogm_offset (length buf) (v_tvlv_len_at oob buf ogm_offset) then
        v_unpack process oob buf (ogm_offset + BATADV_OGM2_HLEN + unat (v_tvlv_len_at oob buf ogm_offset))
          (process ogm_offset s)
      else s)"
  by pat_completeness auto

termination
  by (relation "measure (\<lambda>(process, oob, buf, off, s). 513 - off)")
    (auto simp: batadv_v_ogm_aggr_packet_def Let_def)

declare v_unpack.simps [simp del]

definition batadv_v_ogm_packet_recv ::
  "kenv \<Rightarrow> (nat \<Rightarrow> u8) \<Rightarrow> mgmt_frame \<Rightarrow> nat \<Rightarrow> batadv_priv \<Rightarrow> bool \<times> batadv_priv" where
  "batadv_v_ogm_packet_recv k oob f if_incoming s =
     (if bp_algo_iv s then (False, s)
      else
        (let (ret, s) = batadv_check_management_packet BATADV_OGM2_HLEN f s
         in if \<not> ret then (False, s)
            else if batadv_is_my_mac s (mf_source f) then (False, s)
            else if batadv_is_my_mac s (o2_orig (ogm2_of (mf_data f))) then (False, s)
            else (True, v_unpack (\<lambda>off. batadv_v_ogm_process k (mf_source f) (mf_data f) off if_incoming)
                          oob (mf_data f) 0 s)))"

definition batadv_v_ogm_init :: "batadv_priv \<Rightarrow> int \<times> batadv_priv" where
  "batadv_v_ogm_init s =
     (let (ok, s) = kzalloc s
      in if \<not> ok then (- 12, s)
         else
           (let ogm_packet = \<lparr>o2_packet_type = BATADV_OGM2, o2_version = BATADV_COMPAT_VERSION, o2_ttl = BATADV_TTL,
                  o2_flags = 0, o2_seqno = 0, o2_orig = 0, o2_tvlv_len = 0, o2_throughput = BATADV_THROUGHPUT_MAX_VALUE\<rparr>;
                (random_seqno, s) = prandom_u32 s
            in (0, s\<lparr>bp_bat_v := \<lparr>bv_ogm_buff = ogm2_bytes ogm_packet, bv_ogm_seqno = random_seqno\<rparr>\<rparr>)))"

definition batadv_v_ogm_free :: "batadv_priv \<Rightarrow> batadv_priv" where
  "batadv_v_ogm_free s = s\<lparr>bp_bat_v := (bp_bat_v s)\<lparr>bv_ogm_buff := []\<rparr>\<rparr>"

section \<open>Echo location: receiving\<close>

definition batadv_v_elp_neigh_update :: "kenv \<Rightarrow> mac \<Rightarrow> nat \<Rightarrow> batadv_elp_packet \<Rightarrow> batadv_priv \<Rightarrow> batadv_priv" where
  "batadv_v_elp_neigh_update k neigh_addr if_incoming elp_packet s =
     (case batadv_v_ogm_orig_get k (e_orig elp_packet) s of
        (None, s) \<Rightarrow> s
      | (Some orig_neigh, s) \<Rightarrow>
          (case batadv_neigh_node_new k orig_neigh if_incoming neigh_addr s of
             (None, s) \<Rightarrow> s
           | (Some neigh, s) \<Rightarrow>
               (case batadv_hardif_neigh_get s if_incoming neigh_addr of
                  None \<Rightarrow> s
                | Some hardif_neigh \<Rightarrow>
                    (let seqno_diff = e_seqno elp_packet - hn_elp_latest_seqno hardif_neigh
                     in if sint seqno_diff < 1 \<and> sint seqno_diff > - BATADV_ELP_MAX_AGE then s
                        else
                          hardif_neigh_mod if_incoming neigh_addr
                            (\<lambda>n. n\<lparr>hn_last_seen := k_jiffies k, hn_elp_latest_seqno := e_seqno elp_packet,
                                   hn_elp_interval := e_elp_interval elp_packet\<rparr>)
                            (neigh_mod neigh (\<lambda>n. n\<lparr>nn_last_seen := k_jiffies k\<rparr>) s)))))"

definition batadv_v_elp_packet_recv :: "kenv \<Rightarrow> mgmt_frame \<Rightarrow> nat \<Rightarrow> batadv_priv \<Rightarrow> bool \<times> batadv_priv" where
  "batadv_v_elp_packet_recv k f if_incoming s =
     (let (ret, s) = batadv_check_management_packet BATADV_ELP_HLEN f s
      in if \<not> ret then (False, s)
         else if batadv_is_my_mac s (mf_source f) then (False, s)
         else if bp_algo_iv s then (False, s)
         else if bp_primary_if s = None then (True, s)
         else (True, batadv_v_elp_neigh_update k (mf_source f) if_incoming (elp_of (mf_data f)) s))"

section \<open>The operations of the algorithm\<close>

definition batadv_v_iface_enable :: "bool \<Rightarrow> nat \<Rightarrow> batadv_priv \<Rightarrow> int \<times> batadv_priv" where
  "batadv_v_iface_enable pending hard_iface s =
     (case batadv_v_elp_iface_enable hard_iface s of
        (ret, s) \<Rightarrow>
          if ret < 0 then (ret, s)
          else
            (let (ret, s) = batadv_v_ogm_iface_enable pending s;
                 s = (if ret < 0 then batadv_v_elp_iface_disable hard_iface s else s)
             in (ret, hardif_mod hard_iface (\<lambda>i. i\<lparr>hi_throughput_override := 0\<rparr>) s)))"

definition batadv_v_iface_disable :: "nat \<Rightarrow> batadv_priv \<Rightarrow> batadv_priv" where
  "batadv_v_iface_disable = batadv_v_elp_iface_disable"

definition batadv_v_primary_iface_set :: "nat \<Rightarrow> batadv_priv \<Rightarrow> batadv_priv" where
  "batadv_v_primary_iface_set hard_iface s =
     batadv_v_ogm_primary_iface_set hard_iface (batadv_v_elp_primary_iface_set hard_iface s)"

definition batadv_v_mesh_init :: "batadv_priv \<Rightarrow> int \<times> batadv_priv" where
  "batadv_v_mesh_init = batadv_v_ogm_init"

definition batadv_v_mesh_free :: "batadv_priv \<Rightarrow> batadv_priv" where
  "batadv_v_mesh_free = batadv_v_ogm_free"

end
