(* ===== verification/Receive.thy ===== *)
theory Receive
  imports Bat_V
begin

text \<open>
  The reception of frames: the handlers of \<open>routing.c\<close> and the dispatch of \<open>main.c\<close>
  (\<open>batadv_batman_skb_recv\<close>). A handler returns whether it consumed the frame. The data of a frame
  starts with the header of the protocol; its Ethernet addresses are beside it.

  The handler of a merged packet is called from that of its last fragment, which may be a fragment
  again. The model has the packet as a result and the loop in the dispatch, with fuel; \<open>None\<close> means that
  it is still running.
\<close>

abbreviation NET_RX_SUCCESS :: int where "NET_RX_SUCCESS \<equiv> 0"
abbreviation NET_RX_DROP :: int where "NET_RX_DROP \<equiv> 1"
abbreviation BATADV_UNICAST_FRAG :: u8 where "BATADV_UNICAST_FRAG \<equiv> 0x41"
abbreviation BATADV_UNICAST_TVLV :: u8 where "BATADV_UNICAST_TVLV \<equiv> 0x44"
abbreviation BATADV_ECHO_REPLY :: u8 where "BATADV_ECHO_REPLY \<equiv> 0"
abbreviation BATADV_DESTINATION_UNREACHABLE :: u8 where "BATADV_DESTINATION_UNREACHABLE \<equiv> 3"
abbreviation BATADV_ECHO_REQUEST :: u8 where "BATADV_ECHO_REQUEST \<equiv> 8"
abbreviation BATADV_TTL_EXCEEDED :: u8 where "BATADV_TTL_EXCEEDED \<equiv> 11"
abbreviation BATADV_RR_LEN :: nat where "BATADV_RR_LEN \<equiv> 16"
abbreviation ENODATA :: int where "ENODATA \<equiv> 61"
abbreviation EBADR :: int where "EBADR \<equiv> 53"
abbreviation EREMOTE :: int where "EREMOTE \<equiv> 66"
abbreviation BATADV_BCAST_MAX_AGE :: int where "BATADV_BCAST_MAX_AGE \<equiv> 64"

section \<open>Sending on\<close>

definition batadv_check_unicast_packet :: "sk_buff \<Rightarrow> nat \<Rightarrow> batadv_priv \<Rightarrow> int" where
  "batadv_check_unicast_packet skb hdr_size s =
     (if length (sk_data skb) < hdr_size then - ENODATA
      else if is_broadcast_ether_addr (sk_dest skb) then - EBADR
      else if is_broadcast_ether_addr (sk_source skb) then - EBADR
      else if \<not> batadv_is_my_mac s (sk_dest skb) then - EREMOTE
      else 0)"

definition batadv_route_unicast_packet :: "kenv \<Rightarrow> sk_buff \<Rightarrow> nat \<Rightarrow> batadv_priv \<Rightarrow> int \<times> batadv_priv" where
  "batadv_route_unicast_packet k skb recv_if s =
     (let unicast_packet = unicast_of (sk_data skb) in
      if u_ttl unicast_packet < 2 then (NET_RX_DROP, s)
      else
        (case batadv_orig_hash_find k s (u_dest unicast_packet) of
           None \<Rightarrow> (NET_RX_DROP, s)
         | Some orig_node \<Rightarrow>
             (let (ok, s) = kzalloc s in
              if \<not> ok then (NET_RX_DROP, s)
              else
                (let skb = skb\<lparr>sk_data := set_unicast (unicast_packet\<lparr>u_ttl := u_ttl unicast_packet - 1\<rparr>) (sk_data skb)\<rparr>;
                     skb = (if u_packet_type unicast_packet = BATADV_UNICAST_4ADDR then batadv_skb_set_priority 18 skb
                            else if u_packet_type unicast_packet = BATADV_UNICAST then batadv_skb_set_priority 10 skb
                            else skb);
                     (res, s) = batadv_send_skb_to_orig k skb orig_node (Some recv_if) s
                 in (if res = NET_XMIT_SUCCESS \<or> res = NET_XMIT_POLICED then NET_RX_SUCCESS else NET_RX_DROP, s)))))"

section \<open>ICMP\<close>

definition icmp_answer :: "kenv \<Rightarrow> sk_buff \<Rightarrow> u8 \<Rightarrow> batadv_priv \<Rightarrow> int \<times> batadv_priv" where
  "icmp_answer k skb msg_type s =
     (let icmph = icmp_of (sk_data skb) in
      case bp_primary_if s of
        None \<Rightarrow> (NET_RX_DROP, s)
      | Some primary_if \<Rightarrow>
          (case batadv_orig_hash_find k s (i_orig icmph) of
             None \<Rightarrow> (NET_RX_DROP, s)
           | Some orig_node \<Rightarrow>
               (let (ok, s) = kzalloc s in
                if \<not> ok then (NET_RX_DROP, s)
                else
                  (let icmph = icmph\<lparr>i_dst := i_orig icmph, i_orig := hi_dev_addr (hardif_of s primary_if),
                         i_msg_type := msg_type, i_ttl := BATADV_TTL\<rparr>;
                       (res, s) = batadv_send_skb_to_orig k (skb\<lparr>sk_data := set_icmp icmph (sk_data skb)\<rparr>) orig_node None s
                   in (if res \<noteq> NET_XMIT_DROP then NET_RX_SUCCESS else NET_RX_DROP, s)))))"

text \<open>A message for the user is copied to the sockets; the frame itself is left to the caller to free.\<close>

definition batadv_recv_my_icmp_packet :: "kenv \<Rightarrow> sk_buff \<Rightarrow> batadv_priv \<Rightarrow> int \<times> batadv_priv" where
  "batadv_recv_my_icmp_packet k skb s =
     (let msg_type = i_msg_type (icmp_of (sk_data skb)) in
      if msg_type = BATADV_ECHO_REPLY \<or> msg_type = BATADV_DESTINATION_UNREACHABLE \<or> msg_type = BATADV_TTL_EXCEEDED then
        (let (ok, s) = kzalloc s
         in if \<not> ok then (NET_RX_DROP, s) else (NET_RX_DROP, call (Socket_Receive_Packet (sk_data skb)) s))
      else if msg_type = BATADV_ECHO_REQUEST then icmp_answer k skb BATADV_ECHO_REPLY s
      else (NET_RX_DROP, s))"

definition batadv_recv_icmp_ttl_exceeded :: "kenv \<Rightarrow> sk_buff \<Rightarrow> batadv_priv \<Rightarrow> int \<times> batadv_priv" where
  "batadv_recv_icmp_ttl_exceeded k skb s =
     (if i_msg_type (icmp_of (sk_data skb)) \<noteq> BATADV_ECHO_REQUEST then (NET_RX_DROP, s)
      else icmp_answer k skb BATADV_TTL_EXCEEDED s)"

text \<open>
  The route record: \<open>rr_cur\<close> is the byte 17 of the packet, the addresses begin at byte 20. \<open>None\<close> is a full
  record.
\<close>

definition icmp_record_route :: "mac \<Rightarrow> u8 list \<Rightarrow> u8 list option" where
  "icmp_record_route addr bs =
     (let rr_cur = unat (bs ! 17) in
      if rr_cur \<ge> BATADV_RR_LEN then None
      else Some ((take (20 + 6 * rr_cur) bs @ be_bytes 6 addr @ drop (26 + 6 * rr_cur) bs)[17 := bs ! 17 + 1]))"

definition batadv_recv_icmp_packet :: "kenv \<Rightarrow> sk_buff \<Rightarrow> nat \<Rightarrow> batadv_priv \<Rightarrow> int \<times> batadv_priv" where
  "batadv_recv_icmp_packet k skb recv_if s =
     (if length (sk_data skb) < 20 then (NET_RX_DROP, s)
      else if is_broadcast_ether_addr (sk_dest skb) then (NET_RX_DROP, s)
      else if is_broadcast_ether_addr (sk_source skb) then (NET_RX_DROP, s)
      else if \<not> batadv_is_my_mac s (sk_dest skb) then (NET_RX_DROP, s)
      else
        (let msg_type = i_msg_type (icmp_of (sk_data skb));
             (recorded, s) =
               (if (msg_type = BATADV_ECHO_REPLY \<or> msg_type = BATADV_ECHO_REQUEST) \<and> length (sk_data skb) \<ge> 116 then
                  (let (linearize_ok, s) = kzalloc s in
                   if \<not> linearize_ok then (None, s)
                   else
                     (let (cow_ok, s) = kzalloc s
                      in (if \<not> cow_ok then None else icmp_record_route (sk_dest skb) (sk_data skb), s)))
                else (Some (sk_data skb), s))
         in case recorded of
              None \<Rightarrow> (NET_RX_DROP, s)
            | Some bs \<Rightarrow>
                (let skb = skb\<lparr>sk_data := bs\<rparr>;
                     icmph = icmp_of bs
                 in if batadv_is_my_mac s (i_dst icmph) then batadv_recv_my_icmp_packet k skb s
                    else if i_ttl icmph < 2 then batadv_recv_icmp_ttl_exceeded k skb s
                    else
                      (case batadv_orig_hash_find k s (i_dst icmph) of
                         None \<Rightarrow> (NET_RX_DROP, s)
                       | Some orig_node \<Rightarrow>
                           (let (ok, s) = kzalloc s in
                            if \<not> ok then (NET_RX_DROP, s)
                            else
                              (let skb = skb\<lparr>sk_data := set_icmp (icmph\<lparr>i_ttl := i_ttl icmph - 1\<rparr>) bs\<rparr>;
                                   (res, s) = batadv_send_skb_to_orig k skb orig_node (Some recv_if) s
                               in (if res \<noteq> NET_XMIT_DROP then NET_RX_SUCCESS else NET_RX_DROP, s)))))))"

section \<open>Unicast packets\<close>

text \<open>The new header, \<open>None\<close> when it stays.\<close>

definition batadv_reroute_unicast_packet ::
  "kenv \<Rightarrow> batadv_unicast_packet \<Rightarrow> mac \<Rightarrow> vid \<Rightarrow> batadv_priv \<Rightarrow> batadv_unicast_packet option" where
  "batadv_reroute_unicast_packet k unicast_packet dst_addr vid s =
     (if batadv_is_my_client k dst_addr vid s then
        (case bp_primary_if s of
           None \<Rightarrow> None
         | Some primary_if \<Rightarrow>
             Some (unicast_packet\<lparr>u_dest := hi_dev_addr (hardif_of s primary_if), u_ttvn := ucast (tt_vn (bp_tt s))\<rparr>))
      else
        (case batadv_transtable_search k bat_neigh_cmp None dst_addr vid s of
           None \<Rightarrow> None
         | Some orig_node \<Rightarrow>
             if batadv_compare_eth (on_orig (orig_of s orig_node)) (u_dest unicast_packet) then None
             else Some (unicast_packet\<lparr>u_dest := on_orig (orig_of s orig_node), u_ttvn := on_last_ttvn (orig_of s orig_node)\<rparr>)))"

text \<open>The frame with the header brought up to date, \<open>None\<close> when it is to be dropped.\<close>

definition batadv_check_unicast_ttvn :: "kenv \<Rightarrow> sk_buff \<Rightarrow> nat \<Rightarrow> batadv_priv \<Rightarrow> sk_buff option \<times> batadv_priv" where
  "batadv_check_unicast_ttvn k skb hdr_len s =
     (if length (sk_data skb) < hdr_len + ETH_HLEN then (None, s)
      else
        (let (ok, s) = kzalloc s in
         if \<not> ok then (None, s)
         else
           (let unicast_packet = unicast_of (sk_data skb);
                vid = skb_vid (sk_data skb) hdr_len;
                h_dest = eth_dest (drop hdr_len (sk_data skb));
                with_header = (\<lambda>p. Some (skb\<lparr>sk_data := set_unicast p (sk_data skb)\<rparr>));
                rerouted = batadv_reroute_unicast_packet k unicast_packet h_dest vid s
            in (if batadv_tt_local_client_is_roaming k h_dest vid s then
                  (case rerouted of None \<Rightarrow> Some skb | Some p \<Rightarrow> with_header p)
                else
                  (case (if batadv_is_my_mac s (u_dest unicast_packet) then Some (ucast (tt_vn (bp_tt s)))
                         else map_option (\<lambda>n. on_last_ttvn (orig_of s n)) (batadv_orig_hash_find k s (u_dest unicast_packet))) of
                     None \<Rightarrow> None
                   | Some curr_ttvn \<Rightarrow>
                       if \<not> batadv_seq_before (u_ttvn unicast_packet) curr_ttvn then Some skb
                       else
                         (case rerouted of
                            Some p \<Rightarrow> with_header p
                          | None \<Rightarrow>
                              if \<not> batadv_is_my_client k h_dest vid s then None
                              else
                                (case bp_primary_if s of
                                   None \<Rightarrow> None
                                 | Some primary_if \<Rightarrow>
                                     with_header (unicast_packet\<lparr>u_dest := hi_dev_addr (hardif_of s primary_if),
                                                                u_ttvn := curr_ttvn\<rparr>)))), s))))"

definition batadv_recv_unhandled_unicast_packet :: "kenv \<Rightarrow> sk_buff \<Rightarrow> nat \<Rightarrow> batadv_priv \<Rightarrow> int \<times> batadv_priv" where
  "batadv_recv_unhandled_unicast_packet k skb recv_if s =
     (if batadv_check_unicast_packet skb 10 s < 0 then (NET_RX_DROP, s)
      else if batadv_is_my_mac s (u_dest (unicast_of (sk_data skb))) then (NET_RX_DROP, s)
      else batadv_route_unicast_packet k skb recv_if s)"

text \<open>A payload for this node: it goes to the ARP table first.\<close>

definition deliver_payload :: "kenv \<Rightarrow> sk_buff \<Rightarrow> nat \<Rightarrow> nat option \<Rightarrow> batadv_priv \<Rightarrow> batadv_priv" where
  "deliver_payload k skb hdr_size orig_node s =
     (let (answered, s) = batadv_dat_snoop_incoming_arp_request k skb hdr_size s in
      if answered then s
      else
        (let (consumed, s) = batadv_dat_snoop_incoming_arp_reply k skb hdr_size s
         in if consumed then s else batadv_interface_rx k skb hdr_size orig_node s))"

definition batadv_recv_unicast_packet :: "kenv \<Rightarrow> sk_buff \<Rightarrow> nat \<Rightarrow> batadv_priv \<Rightarrow> int \<times> batadv_priv" where
  "batadv_recv_unicast_packet k skb recv_if s =
     (let is4addr = (sk_data skb ! 0 = BATADV_UNICAST_4ADDR);
          hdr_size = (if is4addr then 18 else 10);
          check = batadv_check_unicast_packet skb hdr_size s;
          s = (if check = - EREMOTE then batadv_nc_skb_store_sniffed_unicast k skb s else s)
      in if check < 0 then (NET_RX_DROP, s)
         else
           (case batadv_check_unicast_ttvn k skb hdr_size s of
              (None, s) \<Rightarrow> (NET_RX_DROP, s)
            | (Some skb, s) \<Rightarrow>
                if batadv_is_my_mac s (u_dest (unicast_of (sk_data skb))) then
                  (let unicast_4addr_packet = unicast_4addr_of (sk_data skb);
                       orig_node = (if is4addr \<and> a_subtype unicast_4addr_packet = BATADV_P_DATA
                                    then batadv_orig_hash_find k s (a_src unicast_4addr_packet) else None)
                   in (NET_RX_SUCCESS, deliver_payload k skb hdr_size orig_node s))
                else batadv_route_unicast_packet k skb recv_if s))"

definition batadv_recv_unicast_tvlv :: "kenv \<Rightarrow> sk_buff \<Rightarrow> nat \<Rightarrow> batadv_priv \<Rightarrow> int \<times> batadv_priv" where
  "batadv_recv_unicast_tvlv k skb recv_if s =
     (if batadv_check_unicast_packet skb 20 s < 0 then (NET_RX_DROP, s)
      else
        (let (cow_ok, s) = kzalloc s in
         if \<not> cow_ok then (NET_RX_DROP, s)
         else
           (let (linearize_ok, s) = kzalloc s in
            if \<not> linearize_ok then (NET_RX_DROP, s)
            else
              (let bs = sk_data skb;
                   tvlv_buff_len = unat (field_at bs 16 2 :: u16)
               in if tvlv_buff_len > length bs - 20 then (NET_RX_DROP, s)
                  else
                    (let (ret, s) = batadv_tvlv_containers_process (full_ogm_handler k) (tt_unicast_handler k) False None
                           (Some (field_at bs 10 6)) (Some (field_at bs 4 6)) (take tvlv_buff_len (drop 20 bs)) s
                     in if ret \<noteq> NET_RX_SUCCESS then batadv_route_unicast_packet k skb recv_if s else (ret, s))))))"

section \<open>Fragments\<close>

text \<open>\<open>batadv_frag_skb_fwd\<close> on the state of the mesh: is the fragment sent on as it is?\<close>

definition frag_skb_fwd :: "kenv \<Rightarrow> sk_buff \<Rightarrow> nat \<Rightarrow> batadv_priv \<Rightarrow> bool \<times> batadv_priv" where
  "frag_skb_fwd k skb recv_if s =
     (let packet = frag_of (sk_data skb) in
      case batadv_orig_hash_find k s (fp_dest packet) of
        None \<Rightarrow> (False, s)
      | Some orig_node_dst \<Rightarrow>
          (case batadv_find_router orig_node_dst (Some recv_if) s of
             (None, s) \<Rightarrow> (False, s)
           | (Some neigh_node, s) \<Rightarrow>
               if unat (fp_total_size packet) > hi_mtu (hardif_of s (nn_if_incoming (neigh_of s neigh_node))) then
                 (True, snd (batadv_send_unicast_skb k (skb\<lparr>sk_data := (sk_data skb)[2 := sk_data skb ! 2 - 1]\<rparr>) neigh_node s))
               else (False, s)))"

text \<open>
  \<open>batadv_frag_skb_buffer\<close> on the state. A merged packet is the buffer of the fragment at the head of the
  chain, whose addresses it has.
\<close>

definition frag_skb_buffer :: "kenv \<Rightarrow> sk_buff \<Rightarrow> nat \<Rightarrow> batadv_priv \<Rightarrow> bool \<times> sk_buff option \<times> batadv_priv" where
  "frag_skb_buffer k skb orig_node_src s =
     (let (linearize_ok, s) = kzalloc s;
          (alloc_ok, s) = kzalloc s;
          (expand_ok, s) = kzalloc s;
          f = \<lparr>fs_hdr = frag_of (sk_data skb), fs_payload = drop 20 (sk_data skb), fs_tailroom = 0,
               fs_source = sk_source skb, fs_dest = sk_dest skb\<rparr>;
          fragments = on_fragments (orig_of s orig_node_src);
          chain_out = fi_chain_out (fst (batadv_frag_insert_packet k linearize_ok alloc_ok fragments f));
          (r, fragments) = batadv_frag_skb_buffer k linearize_ok alloc_ok expand_ok (bp_skb_slack s) fragments f;
          s = orig_mod orig_node_src (\<lambda>n. n\<lparr>on_fragments := fragments\<rparr>) s
      in if \<not> fb_ret r then (False, None, s)
         else
           (case (fb_skb r, chain_out) of
              (Some (Merged bs), head # _) \<Rightarrow>
                (True, Some (skb\<lparr>sk_source := fs_source (snd head), sk_dest := fs_dest (snd head), sk_data := bs\<rparr>), s)
            | (None, _) \<Rightarrow> (True, None, s)
            | _ \<Rightarrow> (False, None, s\<lparr>bp_panic := True\<rparr>)))"

definition batadv_recv_frag_packet :: "kenv \<Rightarrow> sk_buff \<Rightarrow> nat \<Rightarrow> batadv_priv \<Rightarrow> int \<times> sk_buff option \<times> batadv_priv" where
  "batadv_recv_frag_packet k skb recv_if s =
     (if batadv_check_unicast_packet skb 20 s < 0 then (NET_RX_DROP, None, s)
      else
        (let frag_packet = frag_of (sk_data skb) in
         case batadv_orig_hash_find k s (fp_orig frag_packet) of
           None \<Rightarrow> (NET_RX_DROP, None, s)
         | Some orig_node_src \<Rightarrow>
             (let (forwarded, s) = (if \<not> batadv_is_my_mac s (fp_dest frag_packet) then frag_skb_fwd k skb recv_if s
                                    else (False, s))
              in if forwarded then (NET_RX_SUCCESS, None, s)
                 else
                   (case frag_skb_buffer k skb orig_node_src s of
                      (False, _, s) \<Rightarrow> (NET_RX_DROP, None, s)
                    | (True, merged, s) \<Rightarrow> (NET_RX_SUCCESS, merged, s)))))"

section \<open>Broadcasts\<close>

definition bcast_on_backbone :: "kenv \<Rightarrow> sk_buff \<Rightarrow> nat \<Rightarrow> nat \<Rightarrow> batadv_priv \<Rightarrow> bool" where
  "bcast_on_backbone k skb orig_node hdr_size s =
     batadv_bla_is_backbone_gw (bla_env_of k s) (bp_bla s) (length (sk_data skb) \<ge> hdr_size + ETH_HLEN)
       (lan_frame_of (drop hdr_size (sk_data skb))) (on_orig (orig_of s orig_node))"

definition batadv_recv_bcast_packet :: "kenv \<Rightarrow> sk_buff \<Rightarrow> batadv_priv \<Rightarrow> int \<times> batadv_priv" where
  "batadv_recv_bcast_packet k skb s =
     (if length (sk_data skb) < 14 then (NET_RX_DROP, s)
      else if \<not> is_broadcast_ether_addr (sk_dest skb) then (NET_RX_DROP, s)
      else if is_broadcast_ether_addr (sk_source skb) then (NET_RX_DROP, s)
      else if batadv_is_my_mac s (sk_source skb) then (NET_RX_DROP, s)
      else
        (let bcast_packet = bcast_of (sk_data skb) in
         if batadv_is_my_mac s (b_orig bcast_packet) then (NET_RX_DROP, s)
         else if b_ttl bcast_packet < 2 then (NET_RX_DROP, s)
         else
           (case batadv_orig_hash_find k s (b_orig bcast_packet) of
              None \<Rightarrow> (NET_RX_DROP, s)
            | Some orig_node \<Rightarrow>
                (let o' = orig_of s orig_node;
                     seqno = b_seqno bcast_packet;
                     seq_diff = seqno - on_last_bcast_seqno o'
                 in if batadv_test_bit (on_bcast_bits o') (on_last_bcast_seqno o') seqno then (NET_RX_DROP, s)
                    else
                      (let (protected, reset, _) = batadv_window_protected k seq_diff BATADV_BCAST_MAX_AGE (on_bcast_seqno_reset o');
                           s = orig_mod orig_node (\<lambda>n. n\<lparr>on_bcast_seqno_reset := reset\<rparr>) s
                       in if protected then (NET_RX_DROP, s)
                          else
                            (let (bits, moved) = batadv_bit_get_packet (on_bcast_bits o') seq_diff True;
                                 s = orig_mod orig_node (\<lambda>n. n\<lparr>on_bcast_bits := bits,
                                       on_last_bcast_seqno := (if moved then seqno else on_last_bcast_seqno n)\<rparr>) s;
                                 (duplicate, b) = batadv_bla_check_bcast_duplist k (batadv_skb_crc32 k (drop 14 (sk_data skb)))
                                                    (b_orig bcast_packet) (bp_bla s);
                                 s = s\<lparr>bp_bla := b\<rparr>
                             in if duplicate \<noteq> 0 then (NET_RX_DROP, s)
                                else
                                  (let skb = batadv_skb_set_priority 14 skb;
                                       s = snd (batadv_add_bcast_packet_to_list (sk_data skb) s)
                                   in if bcast_on_backbone k skb orig_node 14 s then (NET_RX_DROP, s)
                                      else (NET_RX_SUCCESS, deliver_payload k skb 14 (Some orig_node) s))))))))"

section \<open>The dispatch\<close>

definition to_mgmt :: "sk_buff \<Rightarrow> mgmt_frame" where
  "to_mgmt skb = \<lparr>mf_dest = sk_dest skb, mf_source = sk_source skb, mf_data = sk_data skb\<rparr>"

text \<open>
  The table of handlers, with those that the algorithms and network coding register. What comes out
  besides the return value is a merged packet that is to be received.
\<close>

definition batadv_rx_handler ::
  "u8 \<Rightarrow> kenv \<Rightarrow> (nat \<Rightarrow> u8) \<Rightarrow> sk_buff \<Rightarrow> nat \<Rightarrow> batadv_priv \<Rightarrow> int \<times> sk_buff option \<times> batadv_priv" where
  "batadv_rx_handler idx k oob skb hard_iface s =
     (let plain = (\<lambda>(ret, s). (ret, None, s));
          mgmt = (\<lambda>(ok, s). (if ok then NET_RX_SUCCESS else NET_RX_DROP, None, s))
      in if idx = BATADV_IV_OGM then mgmt (batadv_iv_ogm_receive k oob (to_mgmt skb) hard_iface s)
         else if idx = BATADV_BCAST then plain (batadv_recv_bcast_packet k skb s)
         else if idx = BATADV_CODED then plain (batadv_nc_recv_coded_packet k (batadv_recv_unicast_packet k) skb hard_iface s)
         else if idx = BATADV_ELP then mgmt (batadv_v_elp_packet_recv k (to_mgmt skb) hard_iface s)
         else if idx = BATADV_OGM2 then mgmt (batadv_v_ogm_packet_recv k oob (to_mgmt skb) hard_iface s)
         else if idx = BATADV_UNICAST \<or> idx = BATADV_UNICAST_4ADDR then plain (batadv_recv_unicast_packet k skb hard_iface s)
         else if idx = BATADV_UNICAST_FRAG then batadv_recv_frag_packet k skb hard_iface s
         else if idx = BATADV_ICMP then plain (batadv_recv_icmp_packet k skb hard_iface s)
         else if idx = BATADV_UNICAST_TVLV then plain (batadv_recv_unicast_tvlv k skb hard_iface s)
         else if 0x40 \<le> idx \<and> idx \<le> 0x7F then plain (batadv_recv_unhandled_unicast_packet k skb hard_iface s)
         else (NET_RX_DROP, None, s))"

fun batadv_batman_skb_recv ::
  "nat \<Rightarrow> kenv \<Rightarrow> (nat \<Rightarrow> u8) \<Rightarrow> sk_buff \<Rightarrow> nat \<Rightarrow> batadv_priv \<Rightarrow> (int \<times> batadv_priv) option" where
  "batadv_batman_skb_recv 0 k oob skb hard_iface s = None"
| "batadv_batman_skb_recv (Suc fuel) k oob skb hard_iface s =
     (let (ok, s) = kzalloc s in
      if \<not> ok then Some (NET_RX_DROP, s)
      else if length (sk_data skb) < 2 then Some (NET_RX_DROP, s)
      else if hi_soft_iface (hardif_of s hard_iface) = None then Some (NET_RX_DROP, s)
      else if bp_mesh_state s \<noteq> BATADV_MESH_ACTIVE then Some (NET_RX_DROP, s)
      else if hi_if_status (hardif_of s hard_iface) \<noteq> BATADV_IF_ACTIVE then Some (NET_RX_DROP, s)
      else if sk_data skb ! 1 \<noteq> BATADV_COMPAT_VERSION then Some (NET_RX_DROP, s)
      else
        (case batadv_rx_handler (sk_data skb ! 0) k oob (skb\<lparr>sk_decoded := False\<rparr>) hard_iface s of
           (_, None, s) \<Rightarrow> Some (NET_RX_SUCCESS, s)
         | (_, Some merged, s) \<Rightarrow>
             map_option (\<lambda>(_, s). (NET_RX_SUCCESS, s)) (batadv_batman_skb_recv fuel k oob merged hard_iface s)))"

end
