(* ===== verification/Hard_Interface.thy ===== *)
theory Hard_Interface
  imports Receive
begin

text \<open>
  The interfaces of the mesh, \<open>hard-interface.c\<close>: how they are found, enabled, activated and
  given up, and the set-up of the mesh interface (\<open>main.c\<close>, \<open>soft-interface.c\<close>). A hard interface and its
  device are the same index. The set of changes to the translation table that follows a new MTU runs
  on fuel, \<open>None\<close> is an operation that is still running.

  The outcome of what the kernel is asked for (sysfs, debugfs, linking devices) is an argument. The room
  that the mesh interface asks for in front of and behind its frames is left out.
\<close>

section \<open>Which devices can be used\<close>

record net_device =
  nd_ifindex :: int
  nd_iflink :: int
  nd_batman :: bool
  nd_loopback :: bool
  nd_type :: u16
  nd_addr_len :: nat
  nd_wireless_handlers :: bool
  nd_ieee80211_ptr :: bool

definition batadv_softif_is_valid :: "net_device \<Rightarrow> bool" where
  "batadv_softif_is_valid net_dev = nd_batman net_dev"

definition batadv_mutual_parents :: "net_device \<Rightarrow> net_device \<Rightarrow> bool" where
  "batadv_mutual_parents dev1 dev2 \<longleftrightarrow>
     nd_iflink dev1 \<noteq> 0 \<and> nd_iflink dev2 \<noteq> 0 \<and>
     nd_iflink dev1 = nd_ifindex dev2 \<and> nd_iflink dev2 = nd_ifindex dev1"

text \<open>\<open>dev_get_by_index\<close> is that of the kernel. The recursion follows the links for as long as there are any.\<close>

fun batadv_is_on_batman_iface :: "nat \<Rightarrow> (int \<Rightarrow> net_device option) \<Rightarrow> net_device \<Rightarrow> bool option" where
  "batadv_is_on_batman_iface 0 dev_get_by_index net_dev = None"
| "batadv_is_on_batman_iface (Suc fuel) dev_get_by_index net_dev =
     (if batadv_softif_is_valid net_dev then Some True
      else if nd_iflink net_dev = 0 \<or> nd_iflink net_dev = nd_ifindex net_dev then Some False
      else
        (case dev_get_by_index (nd_iflink net_dev) of
           None \<Rightarrow> Some False
         | Some parent_dev \<Rightarrow>
             if batadv_mutual_parents net_dev parent_dev then Some False
             else batadv_is_on_batman_iface fuel dev_get_by_index parent_dev))"

definition batadv_is_valid_iface :: "nat \<Rightarrow> (int \<Rightarrow> net_device option) \<Rightarrow> net_device \<Rightarrow> bool option" where
  "batadv_is_valid_iface fuel dev_get_by_index net_dev =
     (if nd_loopback net_dev then Some False
      else if nd_type net_dev \<noteq> ARPHRD_ETHER then Some False
      else if nd_addr_len net_dev \<noteq> 6 then Some False
      else map_option Not (batadv_is_on_batman_iface fuel dev_get_by_index net_dev))"

definition batadv_is_wifi_netdev :: "net_device option \<Rightarrow> bool" where
  "batadv_is_wifi_netdev net_device =
     (case net_device of None \<Rightarrow> False
      | Some d \<Rightarrow> if nd_wireless_handlers d then True else nd_ieee80211_ptr d)"

section \<open>The algorithm in use\<close>

definition bat_iface_enable :: "u8 list \<Rightarrow> bool \<Rightarrow> nat \<Rightarrow> batadv_priv \<Rightarrow> int \<times> batadv_priv" where
  "bat_iface_enable mem pending hard_iface s =
     (if bp_algo_iv s then batadv_iv_ogm_iface_enable mem hard_iface s else batadv_v_iface_enable pending hard_iface s)"

definition bat_iface_disable :: "nat \<Rightarrow> batadv_priv \<Rightarrow> batadv_priv" where
  "bat_iface_disable hard_iface s =
     (if bp_algo_iv s then batadv_iv_ogm_iface_disable hard_iface s else batadv_v_iface_disable hard_iface s)"

definition bat_iface_update_mac :: "nat \<Rightarrow> batadv_priv \<Rightarrow> batadv_priv" where
  "bat_iface_update_mac hard_iface s = (if bp_algo_iv s then batadv_iv_ogm_iface_update_mac hard_iface s else s)"

definition bat_primary_iface_set :: "nat \<Rightarrow> batadv_priv \<Rightarrow> batadv_priv" where
  "bat_primary_iface_set hard_iface s =
     (if bp_algo_iv s then batadv_iv_ogm_primary_iface_set hard_iface s else batadv_v_primary_iface_set hard_iface s)"

definition bat_orig_add_if :: "(nat \<Rightarrow> seq_bits \<times> u8) \<Rightarrow> nat \<Rightarrow> int \<Rightarrow> batadv_priv \<Rightarrow> bool \<times> batadv_priv" where
  "bat_orig_add_if junk orig_node max_if_num s =
     (if bp_algo_iv s then batadv_iv_ogm_orig_add_if junk orig_node max_if_num s else (True, s))"

definition bat_orig_del_if :: "nat \<Rightarrow> int \<Rightarrow> int \<Rightarrow> batadv_priv \<Rightarrow> bool \<times> batadv_priv" where
  "bat_orig_del_if orig_node max_if_num del_if_num s =
     (if bp_algo_iv s then batadv_iv_ogm_orig_del_if orig_node max_if_num del_if_num s else (True, s))"

section \<open>The primary interface\<close>

definition batadv_hardif_get_active :: "batadv_priv \<Rightarrow> nat option" where
  "batadv_hardif_get_active s =
     find (\<lambda>i. hi_soft_iface (hardif_of s i) = Some (bp_soft_iface s) \<and>
               hi_if_status (hardif_of s i) = BATADV_IF_ACTIVE \<and> hi_alive (hardif_of s i)) (bp_hardif_list s)"

definition batadv_primary_if_update_addr :: "kenv \<Rightarrow> nat option \<Rightarrow> batadv_priv \<Rightarrow> batadv_priv" where
  "batadv_primary_if_update_addr k oldif s =
     (case bp_primary_if s of
        None \<Rightarrow> s
      | Some primary_if \<Rightarrow>
          (let s = batadv_dat_init_own_addr k primary_if s
           in snd (bla_run k (\<lambda>b. ((), batadv_bla_update_orig_address (bla_env_of k s) (hi_dev_addr (hardif_of s primary_if))
                                    (map_option (\<lambda>i. hi_dev_addr (hardif_of s i)) oldif) b)) s)))"

definition batadv_primary_if_select :: "kenv \<Rightarrow> nat option \<Rightarrow> batadv_priv \<Rightarrow> batadv_priv" where
  "batadv_primary_if_select k new_hard_iface s =
     (let new_hard_iface = (case new_hard_iface of None \<Rightarrow> None
                            | Some i \<Rightarrow> if hi_alive (hardif_of s i) then Some i else None);
          curr_hard_iface = bp_primary_if s;
          s = s\<lparr>bp_primary_if := new_hard_iface\<rparr>
      in case new_hard_iface of
           None \<Rightarrow> s
         | Some i \<Rightarrow> batadv_primary_if_update_addr k curr_hard_iface (bat_primary_iface_set i s))"

section \<open>Up and down\<close>

text \<open>The MTU of the device is unsigned.\<close>

definition batadv_update_min_mtu ::
  "nat \<Rightarrow> kenv \<Rightarrow> (batadv_priv \<Rightarrow> batadv_priv) \<Rightarrow> batadv_priv \<Rightarrow> batadv_priv option" where
  "batadv_update_min_mtu fuel k mla_update s =
     (let (mtu, s) = batadv_hardif_min_mtu s
      in batadv_tt_local_resize_to_mtu fuel k mla_update (s\<lparr>bp_mtu := nat (mtu mod 2 ^ 32)\<rparr>))"

definition if_status_set :: "batadv_hard_if_state \<Rightarrow> nat \<Rightarrow> batadv_priv \<Rightarrow> batadv_priv" where
  "if_status_set st hard_iface = hardif_mod hard_iface (\<lambda>i. i\<lparr>hi_if_status := st\<rparr>)"

definition batadv_hardif_activate_interface ::
  "nat \<Rightarrow> kenv \<Rightarrow> (batadv_priv \<Rightarrow> batadv_priv) \<Rightarrow> nat \<Rightarrow> batadv_priv \<Rightarrow> batadv_priv option" where
  "batadv_hardif_activate_interface fuel k mla_update hard_iface s =
     (if hi_if_status (hardif_of s hard_iface) \<noteq> BATADV_IF_INACTIVE then Some s
      else
        (let s = bat_iface_update_mac hard_iface s;
             s = if_status_set BATADV_IF_TO_BE_ACTIVATED hard_iface s;
             s = (if bp_primary_if s = None then batadv_primary_if_select k (Some hard_iface) s else s)
         in batadv_update_min_mtu fuel k mla_update s))"

definition batadv_hardif_deactivate_interface ::
  "nat \<Rightarrow> kenv \<Rightarrow> (batadv_priv \<Rightarrow> batadv_priv) \<Rightarrow> nat \<Rightarrow> batadv_priv \<Rightarrow> batadv_priv option" where
  "batadv_hardif_deactivate_interface fuel k mla_update hard_iface s =
     (if hi_if_status (hardif_of s hard_iface) \<noteq> BATADV_IF_ACTIVE \<and>
         hi_if_status (hardif_of s hard_iface) \<noteq> BATADV_IF_TO_BE_ACTIVATED then Some s
      else batadv_update_min_mtu fuel k mla_update (if_status_set BATADV_IF_INACTIVE hard_iface s))"

section \<open>Joining and leaving a mesh\<close>

text \<open>
  The arguments: what the memory of a new message holds (\<open>mem\<close>, \<open>junk\<close>), whether the timer of the
  messages is running, whether the mesh interface is one, and the results of leaving another master and
  of linking the devices.
\<close>

record enable_env =
  en_mem :: "u8 list"
  en_junk :: "nat \<Rightarrow> seq_bits \<times> u8"
  en_pending :: bool
  en_softif_valid :: bool
  en_unslave :: int
  en_link :: int

definition soft_iface_set :: "nat option \<Rightarrow> nat \<Rightarrow> batadv_priv \<Rightarrow> batadv_priv" where
  "soft_iface_set v hard_iface = hardif_mod hard_iface (\<lambda>i. i\<lparr>hi_soft_iface := v\<rparr>)"

definition batadv_hardif_enable_interface ::
  "nat \<Rightarrow> kenv \<Rightarrow> (batadv_priv \<Rightarrow> batadv_priv) \<Rightarrow> enable_env \<Rightarrow> nat \<Rightarrow> batadv_priv \<Rightarrow> (int \<times> batadv_priv) option" where
  "batadv_hardif_enable_interface fuel k mla_update en hard_iface s =
     (let err = (\<lambda>ret s. Some (ret, soft_iface_set None hard_iface s)) in
      if hi_if_status (hardif_of s hard_iface) \<noteq> BATADV_IF_NOT_IN_USE then Some (0, s)
      else if \<not> hi_alive (hardif_of s hard_iface) then Some (0, s)
      else if \<not> en_softif_valid en then err (- 22) s
      else if en_unslave en \<noteq> 0 then err (en_unslave en) s
      else
        (let s = soft_iface_set (Some (bp_soft_iface s)) hard_iface s in
         if en_link en \<noteq> 0 then err (en_link en) s
         else
           (let (ret, s) = bat_iface_enable (en_mem en) (en_pending en) hard_iface s in
            if ret < 0 then err ret s
            else
              (let s = hardif_mod hard_iface (\<lambda>i. i\<lparr>hi_if_num := int (bp_num_ifaces s)\<rparr>) s;
                   s = s\<lparr>bp_num_ifaces := bp_num_ifaces s + 1\<rparr>;
                   s = if_status_set BATADV_IF_INACTIVE hard_iface s;
                   (ret, s) = batadv_orig_hash_add_if (bat_orig_add_if (en_junk en)) (int (bp_num_ifaces s)) s
               in if ret < 0 then
                    err ret (if_status_set BATADV_IF_NOT_IN_USE hard_iface
                      ((bat_iface_disable hard_iface s)\<lparr>bp_num_ifaces := bp_num_ifaces s - 1\<rparr>))
                  else
                    map_option (\<lambda>s. (0, batadv_schedule_bat_ogm k hard_iface s))
                      (if hi_up (hardif_of s hard_iface) then batadv_hardif_activate_interface fuel k mla_update hard_iface s
                       else Some s)))))"

text \<open>The result: is the mesh interface to be destroyed as well?\<close>

definition batadv_hardif_disable_interface ::
  "nat \<Rightarrow> kenv \<Rightarrow> (batadv_priv \<Rightarrow> batadv_priv) \<Rightarrow> bool \<Rightarrow> nat \<Rightarrow> batadv_priv \<Rightarrow> (bool \<times> batadv_priv) option" where
  "batadv_hardif_disable_interface fuel k mla_update autodel hard_iface s =
     (case (if hi_if_status (hardif_of s hard_iface) = BATADV_IF_ACTIVE
            then batadv_hardif_deactivate_interface fuel k mla_update hard_iface s else Some s) of
        None \<Rightarrow> None
      | Some s \<Rightarrow>
          if hi_if_status (hardif_of s hard_iface) \<noteq> BATADV_IF_INACTIVE then Some (False, s)
          else
            (let s = s\<lparr>bp_num_ifaces := bp_num_ifaces s - 1\<rparr>;
                 s = snd (batadv_orig_hash_del_if bat_orig_del_if hard_iface (int (bp_num_ifaces s)) s);
                 s = (if bp_primary_if s = Some hard_iface
                      then batadv_primary_if_select k (batadv_hardif_get_active s) s else s);
                 s = bat_iface_disable hard_iface s;
                 s = if_status_set BATADV_IF_NOT_IN_USE hard_iface s;
                 s = batadv_purge_orig k bat_neigh_cmp s;
                 s = batadv_purge_outstanding_packets (Some hard_iface) s;
                 last = (bp_num_ifaces s = 0);
                 s = (if last then batadv_gw_check_client_stop s else s)
             in Some (last \<and> autodel, soft_iface_set None hard_iface s)))"

section \<open>Devices that come and go\<close>

definition batadv_hardif_add_interface ::
  "bool option \<Rightarrow> bool \<Rightarrow> mac \<Rightarrow> bool \<Rightarrow> nat \<Rightarrow> int \<Rightarrow> int \<Rightarrow> nat \<Rightarrow> batadv_priv \<Rightarrow> bool \<times> batadv_priv" where
  "batadv_hardif_add_interface valid wifi addr up mtu sysfs debugfs net_dev s =
     (if valid \<noteq> Some True then (False, s)
      else
        (let (ok, s) = kzalloc s in
         if \<not> ok then (False, s)
         else if sysfs \<noteq> 0 then (False, s)
         else if debugfs \<noteq> 0 then (False, s)
         else
           (let hard_iface = \<lparr>hi_if_num = - 1, hi_if_status = BATADV_IF_NOT_IN_USE, hi_dev_addr = addr,
                  hi_num_bcasts = (if wifi then 3 else 1), hi_wifi = wifi, hi_soft_iface = None, hi_alive = True,
                  hi_ogm_buff = [], hi_ogm_seqno = 0, hi_neigh_list = [], hi_up = up, hi_mtu = mtu,
                  hi_elp_interval = 0, hi_elp_seqno = 0, hi_elp_skb = None, hi_throughput_override = 0, hi_v_flags = 0\<rparr>
            in (True, (hardif_mod net_dev (\<lambda>_. hard_iface) s)\<lparr>bp_hardif_list := bp_hardif_list s @ [net_dev]\<rparr>))))"

definition batadv_hardif_remove_interface ::
  "nat \<Rightarrow> kenv \<Rightarrow> (batadv_priv \<Rightarrow> batadv_priv) \<Rightarrow> nat \<Rightarrow> batadv_priv \<Rightarrow> (bool \<times> batadv_priv) option" where
  "batadv_hardif_remove_interface fuel k mla_update hard_iface s =
     (case (if hi_if_status (hardif_of s hard_iface) \<noteq> BATADV_IF_NOT_IN_USE
            then batadv_hardif_disable_interface fuel k mla_update True hard_iface s else Some (False, s)) of
        None \<Rightarrow> None
      | Some (destroy, s) \<Rightarrow>
          if hi_if_status (hardif_of s hard_iface) \<noteq> BATADV_IF_NOT_IN_USE then Some (destroy, s)
          else Some (destroy, if_status_set BATADV_IF_TO_BE_REMOVED hard_iface s))"

fun batadv_hardif_remove_interfaces ::
  "nat \<Rightarrow> kenv \<Rightarrow> (batadv_priv \<Rightarrow> batadv_priv) \<Rightarrow> nat list \<Rightarrow> batadv_priv \<Rightarrow> batadv_priv option" where
  "batadv_hardif_remove_interfaces fuel k mla_update [] s = Some s"
| "batadv_hardif_remove_interfaces fuel k mla_update (i # rest) s =
     (case batadv_hardif_remove_interface fuel k mla_update i (s\<lparr>bp_hardif_list := remove1 i (bp_hardif_list s)\<rparr>) of
        None \<Rightarrow> None
      | Some (_, s) \<Rightarrow> batadv_hardif_remove_interfaces fuel k mla_update rest s)"

datatype netdev_event =
    NETDEV_REGISTER
  | NETDEV_POST_TYPE_CHANGE
  | NETDEV_UP
  | NETDEV_GOING_DOWN
  | NETDEV_DOWN
  | NETDEV_UNREGISTER
  | NETDEV_PRE_TYPE_CHANGE
  | NETDEV_CHANGEMTU
  | NETDEV_CHANGEADDR

text \<open>
  That a device is up, its address and its MTU are what the kernel says by now. \<open>softif\<close> is given for a mesh
  interface, with the result of sysfs; \<open>add_interface\<close> is \<open>batadv_hardif_add_interface\<close> for the device.
\<close>

definition batadv_hard_if_event ::
  "nat \<Rightarrow> kenv \<Rightarrow> (batadv_priv \<Rightarrow> batadv_priv) \<Rightarrow> int option \<Rightarrow> (batadv_priv \<Rightarrow> bool \<times> batadv_priv)
   \<Rightarrow> netdev_event \<Rightarrow> nat \<Rightarrow> batadv_priv \<Rightarrow> batadv_priv option" where
  "batadv_hard_if_event fuel k mla_update softif add_interface event net_dev s =
     (if softif \<noteq> None \<and> event = NETDEV_REGISTER then
        Some (snd (batadv_softif_create_vlan k (the softif) BATADV_NO_FLAGS s))
      else if net_dev \<notin> set (bp_hardif_list s) then
        Some (if event = NETDEV_REGISTER \<or> event = NETDEV_POST_TYPE_CHANGE then snd (add_interface s) else s)
      else
        (let remove = map_option snd (batadv_hardif_remove_interface fuel k mla_update net_dev
                        (s\<lparr>bp_hardif_list := remove1 net_dev (bp_hardif_list s)\<rparr>))
         in case event of
           NETDEV_UP \<Rightarrow> batadv_hardif_activate_interface fuel k mla_update net_dev s
         | NETDEV_GOING_DOWN \<Rightarrow> batadv_hardif_deactivate_interface fuel k mla_update net_dev s
         | NETDEV_DOWN \<Rightarrow> batadv_hardif_deactivate_interface fuel k mla_update net_dev s
         | NETDEV_UNREGISTER \<Rightarrow> remove
         | NETDEV_PRE_TYPE_CHANGE \<Rightarrow> remove
         | NETDEV_CHANGEMTU \<Rightarrow>
             if hi_soft_iface (hardif_of s net_dev) = None then Some s else batadv_update_min_mtu fuel k mla_update s
         | NETDEV_CHANGEADDR \<Rightarrow>
             if hi_if_status (hardif_of s net_dev) = BATADV_IF_NOT_IN_USE then Some s
             else
               (let s = bat_iface_update_mac net_dev s
                in Some (if bp_primary_if s = Some net_dev then batadv_primary_if_update_addr k None s else s))
         | _ \<Rightarrow> Some s))"

definition batadv_softif_slave_add ::
  "nat \<Rightarrow> kenv \<Rightarrow> (batadv_priv \<Rightarrow> batadv_priv) \<Rightarrow> enable_env \<Rightarrow> nat \<Rightarrow> batadv_priv \<Rightarrow> (int \<times> batadv_priv) option" where
  "batadv_softif_slave_add fuel k mla_update en slave_dev s =
     (if slave_dev \<notin> set (bp_hardif_list s) \<or> hi_soft_iface (hardif_of s slave_dev) \<noteq> None then Some (- 22, s)
      else batadv_hardif_enable_interface fuel k mla_update en slave_dev s)"

definition batadv_softif_slave_del ::
  "nat \<Rightarrow> kenv \<Rightarrow> (batadv_priv \<Rightarrow> batadv_priv) \<Rightarrow> nat \<Rightarrow> batadv_priv \<Rightarrow> (int \<times> batadv_priv) option" where
  "batadv_softif_slave_del fuel k mla_update slave_dev s =
     (if slave_dev \<notin> set (bp_hardif_list s) \<or> hi_soft_iface (hardif_of s slave_dev) \<noteq> Some (bp_soft_iface s) then Some (- 22, s)
      else map_option (\<lambda>(_, s). (0, s)) (batadv_hardif_disable_interface fuel k mla_update False slave_dev s))"

section \<open>The mesh interface\<close>

definition batadv_mesh_free :: "kenv \<Rightarrow> batadv_priv \<Rightarrow> batadv_priv" where
  "batadv_mesh_free k s =
     (let s = s\<lparr>bp_mesh_state := BATADV_MESH_DEACTIVATING\<rparr>;
          s = batadv_purge_outstanding_packets None s;
          s = batadv_gw_node_free s;
          s = batadv_v_mesh_free s;
          s = batadv_nc_mesh_free s;
          s = batadv_dat_free s;
          s = snd (bla_run k (\<lambda>b. ((), batadv_bla_free (bla_env_of k s) b)) s);
          s = batadv_mcast_free k s;
          s = batadv_tt_free s;
          s = batadv_originator_free s;
          s = batadv_gw_free s
      in s\<lparr>bp_mesh_state := BATADV_MESH_INACTIVE\<rparr>)"

definition mesh_lists_init :: "batadv_priv \<Rightarrow> batadv_priv" where
  "mesh_lists_init s =
     s\<lparr>bp_forw_bat_list := [], bp_forw_bcast_list := [], bp_gw := (bp_gw s)\<lparr>gw_list := []\<rparr>,
       bp_mcast := (bp_mcast s)\<lparr>mc_want_all_unsnoopables_list := [], mc_want_all_ipv4_list := [], mc_want_all_ipv6_list := [],
                               mc_mla_list := []\<rparr>,
       bp_tt := (bp_tt s)\<lparr>tt_changes_list := [], tt_req_list := [], tt_roam_list := []\<rparr>,
       bp_tvlv_containers := [], bp_tvlv_handlers := [], bp_softif_vlan_list := []\<rparr>"

definition batadv_bla_init_on :: "kenv \<Rightarrow> batadv_priv \<Rightarrow> int \<times> batadv_priv" where
  "batadv_bla_init_on k s =
     (let (claim_ok, s) = kzalloc s;
          (backbone_ok, s) = kzalloc s
      in bla_run k (batadv_bla_init (bla_env_of k s) claim_ok backbone_ok) s)"

text \<open>The components are set up one after the other; the first that fails ends it.\<close>

fun init_all :: "(batadv_priv \<Rightarrow> int \<times> batadv_priv) list \<Rightarrow> batadv_priv \<Rightarrow> int \<times> batadv_priv" where
  "init_all [] s = (0, s)"
| "init_all (f # rest) s = (let (ret, s) = f s in if ret < 0 then (ret, s) else init_all rest s)"

definition batadv_mesh_init :: "kenv \<Rightarrow> batadv_priv \<Rightarrow> int \<times> batadv_priv" where
  "batadv_mesh_init k s =
     (let (ret, s) = init_all [batadv_v_mesh_init, batadv_originator_init, batadv_tt_init, batadv_bla_init_on k,
                               batadv_dat_init, batadv_nc_mesh_init k] (mesh_lists_init s)
      in if ret < 0 then (ret, batadv_mesh_free k s)
         else
           (let s = batadv_mcast_init (batadv_gw_init s)
            in (0, (gw_mod (\<lambda>gw. gw\<lparr>gw_reselect := False\<rparr>) s)\<lparr>bp_mesh_state := BATADV_MESH_ACTIVE\<rparr>)))"

text \<open>\<open>algo\<close> is the algorithm chosen by name, \<open>None\<close> if there is none of that name.\<close>

definition batadv_softif_init_late :: "kenv \<Rightarrow> bool option \<Rightarrow> int \<Rightarrow> nat \<Rightarrow> batadv_priv \<Rightarrow> int \<times> batadv_priv" where
  "batadv_softif_init_late k algo debugfs dev s =
     (let s = s\<lparr>bp_soft_iface := dev\<rparr>;
          (ok, s) = kzalloc s
      in if \<not> ok then (- 12, s)
         else
           (let s = s\<lparr>bp_aggregated_ogms := True, bp_bonding := False, bp_bridge_loop_avoidance := True,
                  bp_distributed_arp_table := True,
                  bp_mcast := (bp_mcast s)\<lparr>mc_flags := 0, mc_num_disabled := 0, mc_num_want_all_unsnoopables := 0,
                    mc_num_want_all_ipv4 := 0, mc_num_want_all_ipv6 := 0\<rparr>,
                  bp_multicast_mode := True, bp_gw_mode := BATADV_GW_MODE_OFF, bp_gw_sel_class := 20,
                  bp_gw := (bp_gw s)\<lparr>gw_bandwidth_down := 100, gw_bandwidth_up := 20\<rparr>,
                  bp_orig_interval := 1000, bp_hop_penalty := 30, bp_fragmentation := True, bp_packet_size_max := 1500,
                  bp_bcast_queue_left := 256, bp_batman_queue_left := BATADV_BATMAN_QUEUE_LEN,
                  bp_mesh_state := BATADV_MESH_INACTIVE, bp_bcast_seqno := 1,
                  bp_tt := (bp_tt s)\<lparr>tt_vn := 0, tt_local_changes := 0, tt_ogm_append_cnt := 0, tt_last_changeset := None,
                    tt_last_changeset_len := 0\<rparr>,
                  bp_bla := (bp_bla s)\<lparr>bla_num_requests := 0\<rparr>,
                  bp_isolation_mark := 0, bp_isolation_mark_mask := 0\<rparr>;
                (random_seqno, s) = prandom_u32 s;
                s = s\<lparr>bp_frag_seqno := random_seqno, bp_primary_if := None, bp_num_ifaces := 0\<rparr>;
                s = batadv_nc_init_bat_priv s
            in case algo of
                 None \<Rightarrow> (- 22, s)
               | Some iv \<Rightarrow>
                   (let s = s\<lparr>bp_algo_iv := iv\<rparr>
                    in if debugfs < 0 then (debugfs, s) else batadv_mesh_init k s)))"

end
