(* ===== verification/Receive_Properties.thy ===== *)
theory Receive_Properties
  imports Receive Iv_Routes
begin

text \<open>
  Properties of the reception of frames. A merged packet may again be a fragment, so the dispatch is a loop
  over packets; it ends, as the bytes that are held decrease with every merge.
\<close>

section \<open>The loop over merged packets ends\<close>

text \<open>
  What is held: the bytes of the packet in hand, and those of the fragments in the buffers of the known originators.
\<close>

definition stored_bytes :: "batadv_frag_table_entry list \<Rightarrow> nat" where
  "stored_bytes cs = (\<Sum>f \<in># frags_skbs cs. skb_len f)"

definition recv_measure :: "sk_buff \<Rightarrow> batadv_priv \<Rightarrow> nat" where
  "recv_measure skb s =
     length (sk_data skb) + (\<Sum>n \<in> set (map snd (bp_table s)). stored_bytes (on_fragments (orig_of s n)))"

text \<open>The table of originators is one, and the buffers of those in it are as \<open>batadv_frag_insert_packet\<close> keeps them.\<close>

definition chains_ok :: "kenv \<Rightarrow> batadv_priv \<Rightarrow> bool" where
  "chains_ok k s \<longleftrightarrow> orig_table k {} s \<and> (\<forall>n \<in> set (map snd (bp_table s)). frags_ok (on_fragments (orig_of s n)))"

text \<open>A merge gives less than it takes: each fragment loses its header.\<close>

lemma frag_copy_length:
  "frag_copy_payloads es room d = Merged bs \<Longrightarrow> length bs = length d + payload_sum es"
  by (induction es arbitrary: room d) (auto simp: Let_def split: if_splits)

lemma merged_length:
  "batadv_frag_merge_packets ok slack es = (Merged bs, freed) \<Longrightarrow> length bs = payload_sum es"
  by (auto simp: batadv_frag_merge_packets_def Let_def dest!: frag_copy_length split: list.splits if_splits)

lemma sum_skb_len: "(\<Sum>f \<in># mset (map snd es). skb_len f) = payload_sum es + 20 * length es"
  by (induction es) (auto simp: skb_len_def)

lemma frag_skb_buffer_shrinks:
  assumes ok: "frags_ok (on_fragments (orig_of s n))" and len: "20 \<le> length (sk_data skb)"
    and m: "frag_skb_buffer k skb n s = (True, Some skb', s')"
  shows "\<exists>cs. orig_of s' = (orig_of s)(n := (orig_of s n)\<lparr>on_fragments := cs\<rparr>) \<and> bp_orig_hash s' = bp_orig_hash s \<and> bp_next_orig s' = bp_next_orig s \<and>
     frags_ok cs \<and> length (sk_data skb') + 20 + stored_bytes cs \<le> length (sk_data skb) + stored_bytes (on_fragments (orig_of s n))"
proof -
  let ?f = "\<lparr>fs_hdr = frag_of (sk_data skb), fs_payload = drop 20 (sk_data skb), fs_tailroom = 0,
               fs_source = sk_source skb, fs_dest = sk_dest skb\<rparr>"
  obtain l s1 where k1: "kzalloc s = (l, s1)" by (cases "kzalloc s")
  obtain a s2 where k2: "kzalloc s1 = (a, s2)" by (cases "kzalloc s1")
  obtain e s3 where k3: "kzalloc s2 = (e, s3)" by (cases "kzalloc s2")
  have s3: "orig_of s3 = orig_of s" "bp_orig_hash s3 = bp_orig_hash s" "bp_next_orig s3 = bp_next_orig s"
    using k1 k2 k3 by (auto simp: kzalloc_eq)
  obtain r cs where ins: "batadv_frag_insert_packet k l a (on_fragments (orig_of s n)) ?f = (r, cs)"
    by (cases "batadv_frag_insert_packet k l a (on_fragments (orig_of s n)) ?f")
  obtain bs freed where r: "fi_ret r" "fi_chain_out r \<noteq> []"
    and mg: "batadv_frag_merge_packets e (bp_skb_slack s3) (fi_chain_out r) = (Merged bs, freed)"
    and skb': "sk_data skb' = bs" and s': "s' = orig_mod n (\<lambda>x. x\<lparr>on_fragments := cs\<rparr>) s3"
    using m ins k1 k2 k3 s3
    by (auto simp: frag_skb_buffer_def batadv_frag_skb_buffer_def Let_def
        split: if_splits option.splits merge_result.splits list.splits prod.splits)
  note st = batadv_frag_insert_packet_step [OF ok ins]
  have fl: "skb_len ?f = length (sk_data skb)" using len by (simp add: skb_len_def)
  have "(\<Sum>f \<in># frags_skbs (on_fragments (orig_of s n)) + {#?f#}. skb_len f)
      = (\<Sum>f \<in># frags_skbs cs + mset (map snd (fi_chain_out r)) + mset (fi_freed r). skb_len f)"
    using st(2) r(1) by simp
  then have "stored_bytes (on_fragments (orig_of s n)) + length (sk_data skb)
      = stored_bytes cs + (payload_sum (fi_chain_out r) + 20 * length (fi_chain_out r)) + (\<Sum>f \<in># mset (fi_freed r). skb_len f)"
    using fl by (simp add: stored_bytes_def sum_skb_len del: mset_map)
  moreover have "length (sk_data skb') = payload_sum (fi_chain_out r)"
    using merged_length [OF mg] skb' by simp
  moreover have "length (fi_chain_out r) \<ge> 1"
    using r(2) by (cases "fi_chain_out r") auto
  ultimately have "length (sk_data skb') + 20 + stored_bytes cs \<le> length (sk_data skb) + stored_bytes (on_fragments (orig_of s n))"
    by linarith
  moreover have "orig_of s' = (orig_of s)(n := (orig_of s n)\<lparr>on_fragments := cs\<rparr>)" "bp_orig_hash s' = bp_orig_hash s"
    "bp_next_orig s' = bp_next_orig s"
    using s' s3 by (auto simp: orig_mod_def)
  ultimately show ?thesis using st(1) by blast
qed

lemma orig_hash_find_table:
  "orig_table k T s \<Longrightarrow> batadv_orig_hash_find k s a = Some n \<Longrightarrow> n \<in> set (map snd (bp_table s))"
  by (force simp: orig_find_iff)

lemma find_router_in: "batadv_find_router n (Some i) s = (batadv_orig_router_get s n (Some i), s)"
  by (auto simp: batadv_find_router_def split: option.splits)

lemma frag_skb_fwd_not: "frag_skb_fwd k skb i s = (False, s') \<Longrightarrow> s' = s"
  by (auto simp: frag_skb_fwd_def find_router_in Let_def split: option.splits if_splits)

lemma handler_merged:
  assumes t: "orig_table k T s" and h: "batadv_rx_handler idx k oob skb i s = (ret, Some skb', s')"
  shows "\<exists>n. n \<in> set (map snd (bp_table s)) \<and> 20 \<le> length (sk_data skb) \<and>
     frag_skb_buffer k skb n s = (True, Some skb', s')"
proof -
  have idx: "idx = BATADV_UNICAST_FRAG"
    using h by (auto simp: batadv_rx_handler_def Let_def split: prod.splits if_splits)
  then have "batadv_recv_frag_packet k skb i s = (ret, Some skb', s')"
    using h by (simp add: batadv_rx_handler_def)
  then show ?thesis
    by (auto simp: batadv_recv_frag_packet_def batadv_check_unicast_packet_def Let_def
        split: if_splits option.splits prod.splits bool.splits
        dest!: orig_hash_find_table [OF t] frag_skb_fwd_not)
qed

lemma merged_smaller:
  assumes ok: "chains_ok k s" and h: "batadv_rx_handler idx k oob skb i s = (ret, Some skb', s')"
  shows "chains_ok k s' \<and> recv_measure skb' s' < recv_measure skb s"
proof -
  obtain n where n: "n \<in> set (map snd (bp_table s))" and len: "20 \<le> length (sk_data skb)"
    and b: "frag_skb_buffer k skb n s = (True, Some skb', s')"
    using handler_merged [OF conjunct1 [OF ok [unfolded chains_ok_def]] h] by blast
  have fo: "frags_ok (on_fragments (orig_of s n))" using ok n unfolding chains_ok_def by blast
  obtain cs where s': "orig_of s' = (orig_of s)(n := (orig_of s n)\<lparr>on_fragments := cs\<rparr>)" "bp_orig_hash s' = bp_orig_hash s"
      "bp_next_orig s' = bp_next_orig s"
    and cs: "frags_ok cs"
    and le: "length (sk_data skb') + 20 + stored_bytes cs \<le> length (sk_data skb) + stored_bytes (on_fragments (orig_of s n))"
    using frag_skb_buffer_shrinks [OF fo len b] by blast
  have tab: "bp_table s' = bp_table s" using s'(2) by (simp add: bp_table_def)
  let ?N = "set (map snd (bp_table s))"
  let ?g = "\<lambda>s n. stored_bytes (on_fragments (orig_of s n))"
  have "(\<Sum>m \<in> ?N. ?g s' m) = ?g s' n + (\<Sum>m \<in> ?N - {n}. ?g s' m)" "(\<Sum>m \<in> ?N. ?g s m) = ?g s n + (\<Sum>m \<in> ?N - {n}. ?g s m)"
    using n by (simp_all add: sum.remove)
  moreover have "(\<Sum>m \<in> ?N - {n}. ?g s' m) = (\<Sum>m \<in> ?N - {n}. ?g s m)"
    by (rule sum.cong) (simp_all add: s')
  moreover have "?g s' n = stored_bytes cs" by (simp add: s')
  ultimately have "recv_measure skb' s' < recv_measure skb s"
    using le by (simp add: recv_measure_def tab)
  moreover have "chains_ok k s'"
  proof -
    have "orig_table k {} s'"
      by (rule orig_table_cong [OF s'(2)]) (use ok in \<open>simp_all add: s' chains_ok_def orig_face_def\<close>)
    then show ?thesis using ok cs unfolding chains_ok_def tab s'(1) by (simp add: Ball_def)
  qed
  ultimately show ?thesis by blast
qed

lemma kzalloc_recv: "kzalloc s = (ok, s') \<Longrightarrow> chains_ok k s' = chains_ok k s \<and> recv_measure skb s' = recv_measure skb s"
proof -
  assume k: "kzalloc s = (ok, s')"
  then have eq: "bp_orig_hash s' = bp_orig_hash s" "orig_of s' = orig_of s" "bp_next_orig s' = bp_next_orig s"
    by (auto simp: kzalloc_eq)
  have "orig_table k {} s' = orig_table k {} s"
    by (rule iffI; erule orig_table_cong [rotated 3]; simp add: eq orig_face_def)
  then show ?thesis by (simp add: chains_ok_def recv_measure_def bp_table_def eq)
qed

lemma decoded_measure [simp]: "recv_measure (skb\<lparr>sk_decoded := b\<rparr>) s = recv_measure skb s"
  by (simp add: recv_measure_def)

text \<open>C6: The reception of a frame returns. A handler that merges a packet from fragments leaves less behind
  than it found, as every fragment loses its header, so the number of packets that are received in turn
  is less than the number of bytes in the frame and in the buffers of fragments. With more fuel than that
  \<open>batadv_batman_skb_recv\<close> has a result, whatever the frame contains.
\<close>

theorem reception_returns:
  assumes "chains_ok k s" and "recv_measure skb s < fuel"
  shows "\<exists>ret s'. batadv_batman_skb_recv fuel k oob skb hard_iface s = Some (ret, s')"
  using assms
proof (induction fuel arbitrary: skb s)
  case 0
  then show ?case by simp
next
  case (Suc fuel)
  obtain ok s1 where k: "kzalloc s = (ok, s1)" by (cases "kzalloc s")
  note k1 = kzalloc_recv [OF k]
  obtain ret m s2 where h: "batadv_rx_handler (sk_data skb ! 0) k oob (skb\<lparr>sk_decoded := False\<rparr>) hard_iface s1 = (ret, m, s2)"
    using prod_cases3 by blast
  show ?case
  proof (cases m)
    case None
    then show ?thesis using k h by (auto simp: Let_def)
  next
    case (Some skb')
    then have "chains_ok k s2 \<and> recv_measure skb' s2 < recv_measure skb s"
      using merged_smaller [OF _ h [unfolded Some]] k1 Suc.prems(1) by simp
    then obtain r s3 where "batadv_batman_skb_recv fuel k oob skb' hard_iface s2 = Some (r, s3)"
      using Suc.IH [of s2 skb'] Suc.prems(2) by auto
    then show ?thesis using k h Some by (auto simp: Let_def)
  qed
qed

text \<open>A node that knows one originator, with empty buffers for its fragments.\<close>

definition reception_example :: batadv_priv where
  "reception_example = (tvlv_example [] [])\<lparr>
     bp_origs := (\<lambda>n. (orig_of (tvlv_example [] []) n)\<lparr>on_fragments := frag_example_chains\<rparr>),
     bp_orig_hash := Some \<lparr>ht_table = [[(0, 0)]], ht_size = 1\<rparr>\<rparr>"

lemma reception_example_ok: "chains_ok kenv_example reception_example"
  by (simp add: chains_ok_def reception_example_def tvlv_example_def bp_table_def frag_example_chains_ok
      orig_table_def hash_wf_def kenv_example_def batadv_choose_orig_def hash_elems_def)

theorem reception_returns_witness:
  "\<exists>ret s'. batadv_batman_skb_recv 200 kenv_example (\<lambda>_. 0)
     \<lparr>sk_source = 1, sk_dest = 2, sk_data = replicate 100 BATADV_UNICAST_FRAG, sk_priority = 0, sk_mark = 0, sk_decoded = False\<rparr>
     0 reception_example = Some (ret, s')"
proof (rule reception_returns [OF reception_example_ok])
  have "bp_table reception_example = [(0, 0)]"
    by (simp add: reception_example_def bp_table_def hash_elems_def)
  moreover have "stored_bytes (on_fragments (orig_of reception_example 0)) = 0"
    by (simp add: stored_bytes_def reception_example_def frag_example_chains_def frags_skbs_def)
  ultimately show "recv_measure \<lparr>sk_source = 1, sk_dest = 2, sk_data = replicate 100 BATADV_UNICAST_FRAG, sk_priority = 0,
      sk_mark = 0, sk_decoded = False\<rparr> reception_example < 200"
    by (simp add: recv_measure_def)
qed

end
