(* ===== verification/Delivery.thy ===== *)
theory Delivery
  imports Receive_Properties Tt_Properties
begin

text \<open>
  A frame on its way: the sender looks up the node of the destination, every node on the path sends the packet
  on to its own next hop, and the last one gives the frame to the kernel. The nodes are states of their own;
  what one transmits is what the next receives.
\<close>

section \<open>What forgetting clients leaves alone\<close>


lemma local_frame_global_size: "local_frame s (batadv_tt_global_size_mod n v d s)"
  by (auto simp: batadv_tt_global_size_mod_def batadv_orig_node_vlan_new_def kzalloc_eq orig_mod_def Let_def local_frame_def
      split: option.split)

lemma local_frame_global_del: "local_frame s (batadv_tt_global_del_orig k n vid s)"
proof -
  have e: "local_frame s (do_tt_global_del_orig_entry key x s)" for key x s
    unfolding do_tt_global_del_orig_entry_def batadv_tt_global_size_dec_def
    by (rule local_frame_trans [OF local_frame_global_size local_frame_simple(1)])
  have o': "local_frame s (batadv_tt_global_del_orig_node k key n s)" for key s
    unfolding batadv_tt_global_del_orig_node_def
    by (simp add: local_frame_fold [OF e] split: option.split)
  have t: "local_frame s (tt_mod (tt_global_hash_update g) s)" for g s
    by (rule local_frame_tt_mod) simp
  have "local_frame s (tt_global_del_orig_step k n vid x s)" for x s
    unfolding tt_global_del_orig_step_def Let_def
    using o' [of s "tt_key (tg_common x)"] local_frame_trans [OF o' t] by (simp split: if_split)
  then have "local_frame s (fold (tt_global_del_orig_step k n vid) xs s)" for xs s
    by (rule local_frame_fold)
  then show ?thesis
    unfolding batadv_tt_global_del_orig_def
    by (simp add: local_frame_trans [OF _ local_frame_simple(3)])
qed

lemma local_frame_bla_run: "bla_run k f s = (r, s') \<Longrightarrow> local_frame s s'"
proof -
  assume b: "bla_run k f s = (r, s')"
  have 1: "local_frame s (bla_forget k d s)" for d s
    by (simp add: bla_forget_def local_frame_global_del split: option.split)
  have 2: "local_frame s (s\<lparr>bp_bla := x\<rparr>)" for x by (simp add: local_frame_def)
  show ?thesis
    using b local_frame_trans [OF 2 local_frame_fold [OF 1]] by (auto simp: bla_run_def Let_def split: prod.splits)
qed

section \<open>The last node\<close>

lemma skb_vid_behind: "length pre = h \<Longrightarrow> skb_vid (pre @ f) h = skb_vid f 0"
  by (simp add: skb_vid_def)

lemma field_behind: "length pre = h \<Longrightarrow> field_at (pre @ f) (h + x) n = field_at f x n"
  by (simp add: field_at_def)

lemma arp_type_behind: "length pre = h \<Longrightarrow> batadv_arp_get_type (pre @ f) (h + x) = batadv_arp_get_type f x"
  unfolding batadv_arp_get_type_def batadv_arp_ip_src_def batadv_arp_ip_dst_def batadv_arp_hw_src_def batadv_arp_hw_dst_def
  by (simp add: add.assoc field_behind)

text \<open>The ARP message that a frame is, 0 for none.\<close>

definition frame_arp :: "u8 list \<Rightarrow> u16" where
  "frame_arp f = (let (vid, h) = batadv_dat_get_vid f 0 in batadv_arp_get_type f h)"

lemma frame_arp_behind:
  "length pre = h \<Longrightarrow> (let (vid, h') = batadv_dat_get_vid (pre @ f) h in batadv_arp_get_type (pre @ f) h') = frame_arp f"
  using arp_type_behind [of pre h f 4] arp_type_behind [of pre h f 0]
  by (simp add: frame_arp_def batadv_dat_get_vid_def skb_vid_behind Let_def)

text \<open>The header of the packet on its way.\<close>

definition transit_header :: "u8 \<Rightarrow> u8 \<Rightarrow> mac \<Rightarrow> batadv_unicast_packet" where
  "transit_header ttl ttvn dst = \<lparr>u_packet_type = BATADV_UNICAST, u_version = BATADV_COMPAT_VERSION, u_ttl = ttl,
     u_ttvn = ttvn, u_dest = dst\<rparr>"

text \<open>A frame that arrives: the link from \<open>src\<close> to \<open>addr\<close> ends at this interface.\<close>

definition arriving :: "mac \<Rightarrow> mac \<Rightarrow> u8 list \<Rightarrow> sk_buff" where
  "arriving src addr bs = \<lparr>sk_source = src, sk_dest = addr, sk_data = bs, sk_priority = 0, sk_mark = 0, sk_decoded = False\<rparr>"

definition link_end :: "batadv_priv \<Rightarrow> nat \<Rightarrow> mac \<Rightarrow> mac \<Rightarrow> bool" where
  "link_end s i src addr \<longleftrightarrow>
     bp_allocs s = [] \<and> bp_xmits s = [] \<and> hi_soft_iface (hardif_of s i) \<noteq> None \<and> bp_mesh_state s = BATADV_MESH_ACTIVE \<and>
     hi_if_status (hardif_of s i) = BATADV_IF_ACTIVE \<and> batadv_is_my_mac s addr \<and>
     \<not> is_broadcast_ether_addr addr \<and> \<not> is_broadcast_ether_addr src"

lemma dispatch_unicast:
  assumes "link_end s i src addr"
  shows "batadv_batman_skb_recv (Suc fuel) k oob (arriving src addr (unicast_bytes (transit_header ttl v d) @ f)) i s =
    Some (NET_RX_SUCCESS, snd (batadv_recv_unicast_packet k (arriving src addr (unicast_bytes (transit_header ttl v d) @ f)) i s))"
  using assms
  by (simp add: link_end_def kzalloc_def arriving_def batadv_rx_handler_def unicast_bytes_def transit_header_def Let_def
      split: prod.split)

lemma checked_unicast:
  assumes "link_end s i src addr"
  shows "batadv_check_unicast_packet (arriving src addr (unicast_bytes p @ f)) 10 s = 0"
  using assms by (simp add: batadv_check_unicast_packet_def link_end_def arriving_def)

text \<open>The node \<open>d\<close>, whose client \<open>client\<close> is and whose translation table is not newer than the sender knew.\<close>

definition frame_end :: "kenv \<Rightarrow> batadv_priv \<Rightarrow> u8 \<Rightarrow> mac \<Rightarrow> u8 list \<Rightarrow> bool" where
  "frame_end k s v d f \<longleftrightarrow>
     batadv_is_my_mac s d \<and> \<not> batadv_tt_local_client_is_roaming k (eth_dest f) (skb_vid f 0) s \<and>
     \<not> batadv_seq_before v (ucast (tt_vn (bp_tt s))) \<and>
     fst (batadv_bla_rx (bla_env_of k s) (eth_dest f) (eth_source f) (skb_vid f 0) False (bp_bla s)) = 0 \<and>
     \<not> batadv_vlan_ap_isola_get (skb_vid f 0) s"

text \<open>A frame of a local client that is neither one of the protocol nor an ARP message, nor for many.\<close>

definition plain_frame :: "u8 list \<Rightarrow> bool" where
  "plain_frame f \<longleftrightarrow> 14 \<le> length f \<and> \<not> is_multicast_ether_addr (eth_dest f) \<and> \<not> nested_batman f \<and> frame_arp f = 0"

lemma interface_rx_delivers:
  assumes "plain_frame f" "length pre = 10" "pre ! 0 = BATADV_UNICAST"
    and "fst (batadv_bla_rx (bla_env_of k s) (eth_dest f) (eth_source f) (skb_vid f 0) False (bp_bla s)) = 0"
    and "\<not> batadv_vlan_ap_isola_get (skb_vid f 0) s" "sk_data skb = pre @ f"
  shows "\<exists>cs. bp_calls (batadv_interface_rx k skb 10 None s) = cs @ [Netif_Rx f (sk_mark skb)]"
proof -
  let ?rx = "batadv_bla_rx (bla_env_of k s) (eth_dest f) (eth_source f) (skb_vid f 0) False"
  obtain r s1 where b: "bla_run k ?rx s = (r, s1)" by (cases "bla_run k ?rx s")
  have r: "r = 0" using b assms(4) by (auto simp: bla_run_def Let_def split: prod.splits)
  have "\<not> batadv_vlan_ap_isola_get (skb_vid f 0) s1"
    using local_frame_bla_run [OF b] assms(5) by (simp add: local_frame_def batadv_vlan_ap_isola_get_def)
  then have "\<not> batadv_is_ap_isolated k (eth_source f) (eth_dest f) (skb_vid f 0) s1"
    by (simp add: batadv_is_ap_isolated_def)
  moreover have "(pre @ f) ! 0 = BATADV_UNICAST" using assms(2,3) by (simp add: nth_append)
  ultimately show ?thesis
    using assms(1,2,6) b r by (simp add: batadv_interface_rx_def plain_frame_def Let_def call_def)
qed

lemma deliver_plain:
  assumes "plain_frame f" "length pre = 10" "sk_data skb = pre @ f"
  shows "deliver_payload k skb 10 n s = batadv_interface_rx k skb 10 n s"
proof -
  obtain vid h where v: "batadv_dat_get_vid (pre @ f) 10 = (vid, h)" by fastforce
  then have t: "batadv_arp_get_type (pre @ f) h = 0"
    using frame_arp_behind [OF assms(2), of f] assms(1) by (simp add: plain_frame_def)
  have "batadv_dat_snoop_incoming_arp_request k skb 10 s = (False, s)"
    unfolding batadv_dat_snoop_incoming_arp_request_def assms(3) Let_def v prod.case t by simp
  moreover have "batadv_dat_snoop_incoming_arp_reply k skb 10 s = (False, s)"
    unfolding batadv_dat_snoop_incoming_arp_reply_def assms(3) Let_def v prod.case t by simp
  ultimately show ?thesis by (simp add: deliver_payload_def)
qed

lemma unicast_delivered:
  assumes l: "link_end s i src addr" and e: "frame_end k s v d f" and f: "plain_frame f"
  shows "\<exists>cs. bp_calls (snd (batadv_recv_unicast_packet k
     (arriving src addr (unicast_bytes (transit_header ttl v d) @ f)) i s)) = cs @ [Netif_Rx f 0]"
proof -
  let ?bs = "unicast_bytes (transit_header ttl v d) @ f"
  have h: "?bs ! 0 = BATADV_UNICAST" "sk_data (arriving src addr ?bs) = ?bs" "sk_mark (arriving src addr ?bs) = 0"
    by (simp_all add: unicast_bytes_def transit_header_def arriving_def)
  have "batadv_check_unicast_ttvn k (arriving src addr ?bs) 10 s = (Some (arriving src addr ?bs), s)"
    using l e f by (simp add: batadv_check_unicast_ttvn_def kzalloc_def link_end_def plain_frame_def frame_end_def
        arriving_def transit_header_def skb_vid_behind)
  moreover have "u_dest (unicast_of ?bs) = d" by (simp add: transit_header_def)
  ultimately have "snd (batadv_recv_unicast_packet k (arriving src addr ?bs) i s)
      = batadv_interface_rx k (arriving src addr ?bs) 10 None s"
    using e h deliver_plain [OF f _ h(2)] by (simp add: batadv_recv_unicast_packet_def checked_unicast [OF l] frame_end_def)
  moreover have "unicast_bytes (transit_header ttl v d) ! 0 = BATADV_UNICAST"
    by (simp add: unicast_bytes_def transit_header_def)
  ultimately show ?thesis
    using interface_rx_delivers [OF f _ _ _ _ h(2)] e h(3) unfolding frame_end_def by simp
qed

section \<open>One hop\<close>

text \<open>The next hop towards an originator: the interface, and the address of the neighbour.\<close>

definition next_hop :: "batadv_priv \<Rightarrow> nat \<Rightarrow> nat option \<Rightarrow> nat \<Rightarrow> nat \<Rightarrow> mac \<Rightarrow> bool" where
  "next_hop s n recv_if len j a \<longleftrightarrow>
     bp_allocs s = [] \<and> bp_xmits s = [] \<and> \<not> bp_network_coding s \<and> \<not> (recv_if = None \<and> bp_bonding s) \<and>
     (\<exists>r. batadv_orig_router_get s n recv_if = Some r \<and> nn_if_incoming (neigh_of s r) = j \<and> nn_addr (neigh_of s r) = a) \<and>
     hi_if_status (hardif_of s j) = BATADV_IF_ACTIVE \<and> hi_up (hardif_of s j) \<and>
     (bp_fragmentation s \<longrightarrow> len \<le> hi_mtu (hardif_of s j))"

lemma send_to_next_hop:
  assumes "next_hop s n recv_if (length (sk_data skb)) j a"
  shows "\<exists>s'. batadv_send_skb_to_orig k skb n recv_if s = (NET_XMIT_SUCCESS, s') \<and>
    bp_calls s' = bp_calls s @ [Dev_Queue_Xmit j a (sk_data skb)] \<and> hi_dev_addr (hardif_of s' j) = hi_dev_addr (hardif_of s j)"
proof -
  obtain r where r: "batadv_orig_router_get s n recv_if = Some r" "nn_if_incoming (neigh_of s r) = j" "nn_addr (neigh_of s r) = a"
    using assms by (auto simp: next_hop_def)
  have "batadv_find_router n recv_if s = (Some r, s)"
    using assms r by (simp add: batadv_find_router_def next_hop_def)
  moreover have "\<not> (bp_fragmentation s \<and> length (sk_data skb) > hi_mtu (hardif_of s j))"
    using assms by (auto simp: next_hop_def)
  moreover have "batadv_nc_skb_forward k skb r s = (False, s)"
    using assms by (simp add: batadv_nc_skb_forward_def next_hop_def)
  moreover have "batadv_send_skb_packet k skb j a s = (0, call (Dev_Queue_Xmit j a (sk_data skb)) s)"
    using assms by (simp add: batadv_send_skb_packet_def next_hop_def kzalloc_def batadv_nc_skb_store_for_decoding_def
        dev_queue_xmit_def)
  moreover have "\<exists>ret s'. batadv_send_unicast_skb k skb r s = (ret, s') \<and>
      bp_calls s' = bp_calls s @ [Dev_Queue_Xmit j a (sk_data skb)] \<and> hi_dev_addr (hardif_of s' j) = hi_dev_addr (hardif_of s j)"
    using r calculation(4) by (simp add: batadv_send_unicast_skb_def call_def hardif_neigh_mod_def hardif_mod_def)
  ultimately show ?thesis
    using r(2) unfolding batadv_send_skb_to_orig_def by (auto split: if_split)
qed

text \<open>A node on the way: it knows the originator \<open>d\<close>, with a version of its translation table that is not newer.\<close>

definition relaying :: "kenv \<Rightarrow> batadv_priv \<Rightarrow> u8 \<Rightarrow> mac \<Rightarrow> u8 list \<Rightarrow> nat \<Rightarrow> nat \<Rightarrow> mac \<Rightarrow> bool" where
  "relaying k s v d f i j a \<longleftrightarrow>
     \<not> batadv_is_my_mac s d \<and> \<not> batadv_tt_local_client_is_roaming k (eth_dest f) (skb_vid f 0) s \<and>
     (\<exists>n. batadv_orig_hash_find k s d = Some n \<and> \<not> batadv_seq_before v (on_last_ttvn (orig_of s n)) \<and>
          next_hop s n (Some i) (10 + length f) j a)"

lemma priority_keeps [simp]: "sk_data (batadv_skb_set_priority off skb) = sk_data skb"
  by (simp add: batadv_skb_set_priority_def Let_def)

lemma unicast_relayed:
  assumes l: "link_end s i src addr" and e: "relaying k s v d f i j a" and f: "plain_frame f" and t: "2 \<le> ttl"
  defines "s' \<equiv> snd (batadv_recv_unicast_packet k (arriving src addr (unicast_bytes (transit_header ttl v d) @ f)) i s)"
  shows "bp_calls s' = bp_calls s @ [Dev_Queue_Xmit j a (unicast_bytes (transit_header (ttl - 1) v d) @ f)] \<and>
    hi_dev_addr (hardif_of s' j) = hi_dev_addr (hardif_of s j)"
proof -
  let ?bs = "unicast_bytes (transit_header ttl v d) @ f"
  let ?skb = "arriving src addr ?bs"
  obtain n where n: "batadv_orig_hash_find k s d = Some n" "\<not> batadv_seq_before v (on_last_ttvn (orig_of s n))"
    and h: "next_hop s n (Some i) (10 + length f) j a"
    using e by (auto simp: relaying_def)
  have b: "?bs ! 0 = BATADV_UNICAST" "sk_data ?skb = ?bs" "unicast_of ?bs = transit_header ttl v d"
    by (simp add: unicast_bytes_def transit_header_def, simp add: arriving_def, rule unicast_of_bytes)
  have "batadv_check_unicast_ttvn k ?skb 10 s = (Some ?skb, s)"
    using l e f n by (simp add: batadv_check_unicast_ttvn_def kzalloc_def link_end_def plain_frame_def relaying_def
        arriving_def transit_header_def skb_vid_behind)
  then have "batadv_recv_unicast_packet k ?skb i s = batadv_route_unicast_packet k ?skb i s"
    using e b by (simp add: batadv_recv_unicast_packet_def checked_unicast [OF l] relaying_def transit_header_def)
  moreover have "set_unicast ((transit_header ttl v d)\<lparr>u_ttl := ttl - 1\<rparr>) ?bs
      = unicast_bytes (transit_header (ttl - 1) v d) @ f"
    by (simp add: set_unicast_def transit_header_def)
  moreover obtain s1 where "batadv_send_skb_to_orig k (batadv_skb_set_priority 10
        (?skb\<lparr>sk_data := unicast_bytes (transit_header (ttl - 1) v d) @ f\<rparr>)) n (Some i) s = (NET_XMIT_SUCCESS, s1)"
      "bp_calls s1 = bp_calls s @ [Dev_Queue_Xmit j a (unicast_bytes (transit_header (ttl - 1) v d) @ f)]"
      "hi_dev_addr (hardif_of s1 j) = hi_dev_addr (hardif_of s j)"
    using send_to_next_hop [of s n "Some i" "batadv_skb_set_priority 10
        (?skb\<lparr>sk_data := unicast_bytes (transit_header (ttl - 1) v d) @ f\<rparr>)" j a k] h by auto
  moreover have "kzalloc s = (True, s)" using l by (simp add: kzalloc_def link_end_def)
  moreover have "\<not> ttl < 2" using t by (simp add: not_less)
  ultimately show ?thesis
    unfolding s'_def using n b
    by (simp add: batadv_route_unicast_packet_def Let_def) (simp add: transit_header_def)
qed

section \<open>The way through the mesh\<close>

text \<open>The frame that a node has sent in a step, as it arrives at the other end of the link.\<close>

definition transmitted :: "batadv_priv \<Rightarrow> batadv_priv \<Rightarrow> sk_buff option" where
  "transmitted s s' =
     (case drop (length (bp_calls s)) (bp_calls s') of
        [Dev_Queue_Xmit j dst bs] \<Rightarrow> Some (arriving (hi_dev_addr (hardif_of s' j)) dst bs)
      | _ \<Rightarrow> None)"

text \<open>
  A frame is received by one node after the other, each of them given by its state and the interface on which
  the frame comes in; the result is the state of the last.
\<close>

fun carry :: "(nat \<Rightarrow> u8) \<Rightarrow> (kenv \<times> batadv_priv \<times> nat) list \<Rightarrow> sk_buff \<Rightarrow> batadv_priv option" where
  "carry oob [] skb = None"
| "carry oob ((k, s, i) # hops) skb =
     (case batadv_batman_skb_recv 1 k oob skb i s of
        None \<Rightarrow> None
      | Some (_, s') \<Rightarrow>
          if hops = [] then Some s'
          else (case transmitted s s' of None \<Rightarrow> None | Some next \<Rightarrow> carry oob hops next))"

fun path_to :: "u8 \<Rightarrow> mac \<Rightarrow> u8 list \<Rightarrow> mac \<Rightarrow> mac \<Rightarrow> (kenv \<times> batadv_priv \<times> nat) list \<Rightarrow> bool" where
  "path_to v d f src addr [] = False"
| "path_to v d f src addr ((k, s, i) # hops) \<longleftrightarrow>
     link_end s i src addr \<and>
     (if hops = [] then frame_end k s v d f
      else (\<exists>j a. relaying k s v d f i j a \<and> path_to v d f (hi_dev_addr (hardif_of s j)) a hops))"

lemma ttl_left:
  assumes "Suc n \<le> unat (ttl :: u8)" "n \<noteq> 0"
  shows "2 \<le> ttl \<and> n \<le> unat (ttl - 1)"
proof -
  have "2 \<le> unat ttl" using assms by simp
  then have "2 \<le> ttl" by (simp add: word_le_nat_alt)
  moreover have "unat (ttl - 1) = unat ttl - 1" using \<open>2 \<le> unat ttl\<close> by (simp add: unat_sub word_le_nat_alt)
  ultimately show ?thesis using assms by simp
qed

lemma carry_delivers:
  assumes "path_to v d f src addr hops" "length hops \<le> unat ttl" "plain_frame f"
  shows "\<exists>s' cs. carry oob hops (arriving src addr (unicast_bytes (transit_header ttl v d) @ f)) = Some s' \<and>
    bp_calls s' = cs @ [Netif_Rx f 0]"
  using assms
proof (induction hops arbitrary: src addr ttl)
  case Nil
  then show ?case by simp
next
  case (Cons h hops)
  obtain k s i where h: "h = (k, s, i)" by (cases h)
  have l: "link_end s i src addr" using Cons.prems(1) h by simp
  note d = dispatch_unicast [OF l, of 0 k oob ttl v d f]
  show ?case
  proof (cases "hops = []")
    case True
    then have "frame_end k s v d f" using Cons.prems(1) h by simp
    from unicast_delivered [OF l this Cons.prems(3)] show ?thesis using d h True by simp
  next
    case False
    then obtain j a where r: "relaying k s v d f i j a" and p: "path_to v d f (hi_dev_addr (hardif_of s j)) a hops"
      using Cons.prems(1) h by auto
    have t: "2 \<le> ttl \<and> length hops \<le> unat (ttl - 1)" using ttl_left [of "length hops" ttl] Cons.prems(2) False by simp
    note u = unicast_relayed [OF l r Cons.prems(3) conjunct1 [OF t]]
    show ?thesis
      using Cons.IH [OF p conjunct2 [OF t] Cons.prems(3)] d u h False by (simp add: transmitted_def)
  qed
qed

text \<open>C1: A frame crosses the mesh. The sender finds the node of the destination in its translation table
  and sends the frame behind a unicast header (\<open>batadv_send_skb_via_tt\<close>); every node of the path, by its own
  table of originators, sends it on to the next one, and the last one hands the frame unchanged to the kernel. The
  path may have up to 50 nodes behind the sender, as the time to live starts at 50 and a relay needs at least 2
  (\<open>batadv_recv_unicast_packet\<close>, \<open>batadv_route_unicast_packet\<close>, \<open>batadv_interface_rx\<close>).
  This holds for a plain frame: not multicast or broadcast, not a frame of the mesh itself, also behind a VLAN tag, not an
  ARP message (\<open>plain_frame\<close>). At the sender bonding is off and the client is not roaming. At every node that sends,
  network coding is off, the outgoing interface is active and up, the frame with its header fits it if
  fragmentation is on, and no allocation or transmission fails (\<open>next_hop\<close>). Every node that receives has the mesh
  running, the incoming interface active, no failing allocation, and is the one the link addresses
  (\<open>link_end\<close>). A relay knows no newer table of the destination than the sender did and has no roaming
  client of the frame's address (\<open>relaying\<close>). At the last node the own table is not newer than the sender knew, the client
  is not roaming, bridge loop avoidance admits the frame, and the VLAN of the frame does not isolate
  clients (\<open>frame_end\<close>).
\<close>

theorem frame_crosses_mesh:
  assumes "plain_frame f"
    and "batadv_transtable_search k bat_neigh_cmp (Some (eth_source f)) (eth_dest f) (skb_vid f 0) s = Some n"
    and "\<not> batadv_tt_global_client_is_roaming k (eth_dest f) (skb_vid f 0) s"
    and "next_hop s n None (10 + length f) j a"
    and "path_to (on_last_ttvn (orig_of s n)) (on_orig (orig_of s n)) f (hi_dev_addr (hardif_of s j)) a hops"
    and "length hops \<le> 50"
  shows "\<exists>s' skb t cs. batadv_send_skb_via_tt k (lan_skb f prio mark) None (skb_vid f 0) s = (NET_XMIT_SUCCESS, s') \<and>
    transmitted s s' = Some skb \<and> carry oob hops skb = Some t \<and> bp_calls t = cs @ [Netif_Rx f 0]"
proof -
  let ?h = "transit_header 50 (on_last_ttvn (orig_of s n)) (on_orig (orig_of s n))"
  let ?skb = "(lan_skb f prio mark)\<lparr>sk_data := unicast_bytes ?h @ f\<rparr>"
  have "batadv_send_skb_prepare_unicast (lan_skb f prio mark) n s = (Some ?skb, s)"
    using assms(4) by (simp add: batadv_send_skb_prepare_unicast_def batadv_send_skb_push_fill_unicast_def kzalloc_def
        next_hop_def lan_skb_def transit_header_def)
  moreover obtain s' where s': "batadv_send_skb_to_orig k ?skb n None s = (NET_XMIT_SUCCESS, s')"
    "bp_calls s' = bp_calls s @ [Dev_Queue_Xmit j a (unicast_bytes ?h @ f)]" "hi_dev_addr (hardif_of s' j) = hi_dev_addr (hardif_of s j)"
    using send_to_next_hop [of s n None ?skb j a k] assms(4) by auto
  ultimately have "batadv_send_skb_via_tt k (lan_skb f prio mark) None (skb_vid f 0) s = (NET_XMIT_SUCCESS, s')"
    using assms(2,3)
    by (simp add: batadv_send_skb_via_tt_def batadv_send_skb_via_tt_generic_def batadv_send_skb_unicast_def lan_skb_def)
  moreover have "transmitted s s' = Some (arriving (hi_dev_addr (hardif_of s j)) a (unicast_bytes ?h @ f))"
    using s' by (simp add: transmitted_def)
  ultimately show ?thesis
    using carry_delivers [OF assms(5) _ assms(1), of 50 oob] assms(6) by simp
qed

text \<open>
  Three nodes in a row, with the addresses 1, 2 and 3: everyone knows the third as originator 0. The first has
  a client of the third in its table.
\<close>

definition mesh_example :: "mac \<Rightarrow> mac \<Rightarrow> batadv_priv" where
  "mesh_example own via = (tvlv_example [] [])\<lparr>
     bp_hardifs := (\<lambda>j. (hardif_of (tvlv_example [] []) j)\<lparr>hi_dev_addr := own\<rparr>), bp_hardif_list := [0], bp_primary_if := Some 0,
     bp_origs := (\<lambda>n. (orig_of (tvlv_example [] []) n)\<lparr>on_orig := 3, on_ifinfo_list :=
        [\<lparr>oi_if_outgoing = None, oi_router = Some 0, oi_last_real_seqno = 0, oi_last_ttl = 0, oi_last_seqno_forwarded = 0,
          oi_batman_seqno_reset = 0\<rparr>,
         \<lparr>oi_if_outgoing = Some 0, oi_router = Some 0, oi_last_real_seqno = 0, oi_last_ttl = 0, oi_last_seqno_forwarded = 0,
          oi_batman_seqno_reset = 0\<rparr>]\<rparr>),
     bp_neighs := (\<lambda>n. (neigh_of (tvlv_example [] []) n)\<lparr>nn_addr := via\<rparr>),
     bp_orig_hash := Some \<lparr>ht_table = [[(3, 0)]], ht_size = 1\<rparr>,
     bp_tt := (bp_tt (tvlv_example [] []))\<lparr>tt_global_hash := Some \<lparr>ht_table = [[
        \<lparr>tg_common = \<lparr>tt_addr = 0x20, tt_vid = 0, tt_flags = 0, tt_added_at = 0\<rparr>,
         tg_orig_list = [\<lparr>oe_orig_node = 0, oe_ttvn = 0\<rparr>], tg_orig_list_count = 1, tg_roam_at = 0\<rparr>]], ht_size = 1\<rparr>\<rparr>\<rparr>"

definition frame_example :: "u8 list" where
  "frame_example = eth_bytes 0x20 0x10 0x0800 @ replicate 30 0"

lemma mesh_example_fields:
  "bp_allocs (mesh_example own via) = []" "bp_xmits (mesh_example own via) = []" "\<not> bp_network_coding (mesh_example own via)"
  "\<not> bp_bonding (mesh_example own via)" "bp_mesh_state (mesh_example own via) = BATADV_MESH_ACTIVE"
  "bp_hardif_list (mesh_example own via) = [0]" "hi_dev_addr (hardif_of (mesh_example own via) 0) = own"
  "hi_if_status (hardif_of (mesh_example own via) 0) = BATADV_IF_ACTIVE" "hi_up (hardif_of (mesh_example own via) 0)"
  "hi_soft_iface (hardif_of (mesh_example own via) 0) = Some 0" "hi_mtu (hardif_of (mesh_example own via) 0) = 1532"
  "bp_soft_iface (mesh_example own via) = 0" "on_orig (orig_of (mesh_example own via) 0) = 3"
  "on_last_ttvn (orig_of (mesh_example own via) 0) = 0" "nn_addr (neigh_of (mesh_example own via) 0) = via"
  "nn_if_incoming (neigh_of (mesh_example own via) 0) = 0" "tt_vn (bp_tt (mesh_example own via)) = 0"
  "bp_softif_vlan_list (mesh_example own via) = []" "\<not> bp_bridge_loop_avoidance (mesh_example own via)"
  "bp_primary_if (mesh_example own via) = Some 0"
  by (simp_all add: mesh_example_def tvlv_example_def)

lemma mesh_example_tables:
  "batadv_orig_router_get (mesh_example own via) 0 None = Some 0" "batadv_orig_router_get (mesh_example own via) 0 (Some 0) = Some 0"
  "batadv_orig_hash_find kenv_example (mesh_example own via) 3 = Some 0"
  "batadv_tt_local_hash_find kenv_example (mesh_example own via) a v = None"
  "batadv_tt_global_hash_find kenv_example (mesh_example own via) 0x20 0 = Some
     \<lparr>tg_common = \<lparr>tt_addr = 0x20, tt_vid = 0, tt_flags = 0, tt_added_at = 0\<rparr>,
      tg_orig_list = [\<lparr>oe_orig_node = 0, oe_ttvn = 0\<rparr>], tg_orig_list_count = 1, tg_roam_at = 0\<rparr>"
  by (simp_all add: mesh_example_def tvlv_example_def batadv_orig_router_get_def batadv_orig_hash_find_def hash_lookup_def
      kenv_example_def batadv_choose_orig_def batadv_compare_orig_def batadv_tt_local_hash_find_def
      batadv_tt_global_hash_find_def batadv_tt_hash_find_def batadv_choose_tt_def batadv_compare_tt_def Let_def)

lemma frame_example_plain: "plain_frame frame_example" "skb_vid frame_example 0 = 0" "eth_dest frame_example = 0x20"
  "eth_source frame_example = 0x10" "length frame_example = 44"
proof -
  show v: "skb_vid frame_example 0 = 0"
    by (simp add: frame_example_def skb_vid_def lan_frame_of_def Let_def batadv_get_vid_def)
  show d: "eth_dest frame_example = 0x20" "eth_source frame_example = 0x10" "length frame_example = 44"
    by (simp_all add: frame_example_def)
  have p: "eth_proto frame_example = 0x0800" by (simp add: frame_example_def)
  show "plain_frame frame_example"
    by (simp add: plain_frame_def d p nested_batman_def frame_arp_def batadv_dat_get_vid_def v batadv_arp_get_type_def
        is_multicast_ether_addr_def)
qed

theorem frame_crosses_mesh_witness:
  "let far = mesh_example 3 0; hops = [(kenv_example, mesh_example 2 3, 0), (kenv_example, far, 0)] in
   \<exists>s' skb t cs. batadv_send_skb_via_tt kenv_example (lan_skb frame_example 0 0) None (skb_vid frame_example 0) (mesh_example 1 2)
     = (NET_XMIT_SUCCESS, s') \<and> transmitted (mesh_example 1 2) s' = Some skb \<and> carry (\<lambda>_. 0) hops skb = Some t \<and>
     bp_calls t = cs @ [Netif_Rx frame_example 0]"
proof -
  note e = mesh_example_fields mesh_example_tables frame_example_plain
  have my: "batadv_is_my_mac (mesh_example own via) a \<longleftrightarrow> own = a" for own via a
    by (simp add: batadv_is_my_mac_def e batadv_compare_eth_def)
  have isola: "\<not> batadv_vlan_ap_isola_get 0 (mesh_example own via)" for own via
    by (simp add: batadv_vlan_ap_isola_get_def e)
  have "path_to 0 3 frame_example 1 2 [(kenv_example, mesh_example 2 3, 0), (kenv_example, mesh_example 3 0, 0)]"
    by (simp add: link_end_def relaying_def frame_end_def next_hop_def e my isola is_broadcast_ether_addr_def
        batadv_tt_local_client_is_roaming_def batadv_seq_before_def
        batadv_bla_rx_def bla_env_of_def)
  moreover have "next_hop (mesh_example 1 2) 0 None (10 + length frame_example) 0 2"
    by (simp add: next_hop_def e)
  moreover have "batadv_transtable_search kenv_example bat_neigh_cmp (Some (eth_source frame_example)) (eth_dest frame_example)
      (skb_vid frame_example 0) (mesh_example 1 2) = Some 0"
    by (simp add: batadv_transtable_search_def e isola batadv_transtable_best_orig_def)
  moreover have "\<not> batadv_tt_global_client_is_roaming kenv_example (eth_dest frame_example) (skb_vid frame_example 0) (mesh_example 1 2)"
    by (simp add: batadv_tt_global_client_is_roaming_def e has_flag_def)
  ultimately show ?thesis
    unfolding Let_def
    by (intro frame_crosses_mesh [OF frame_example_plain(1), where n = 0 and j = 0 and a = 2]) (simp_all add: e)
qed
end
