(* ===== verification/Payload.thy ===== *)
theory Payload
  imports Delivery
begin

text \<open>
  Payload and routing: what the frames of clients leave alone. Every operation on the way of a frame, whether
  it is received, sent on, coded, answered for ARP, or given to the kernel, keeps the state that the routing
  algorithms work on; the facts are collected in \<open>routing_simps\<close>, one for every operation in the order of the
  calls.
\<close>

named_theorems routing_simps \<open>what leaves the routing state alone\<close>

section \<open>The state of the routing algorithms\<close>

type_synonym routes_view =
  "((mac \<times> nat) hashtable option \<times> (nat \<Rightarrow> batadv_neigh_node) \<times> nat list \<times> nat option \<times> nat \<times> batadv_forw_packet list)
   \<times> (nat \<Rightarrow> mac \<times> batadv_hard_if_state \<times> nat option \<times> u8 list \<times> u32)
   \<times> (nat \<Rightarrow> mac \<times> batadv_orig_ifinfo list \<times> nat list)"

definition routes_view :: "batadv_priv \<Rightarrow> routes_view" where
  "routes_view s =
     ((bp_orig_hash s, bp_neighs s, bp_hardif_list s, bp_primary_if s, bp_soft_iface s, bp_forw_bat_list s),
      (\<lambda>i. let h = hardif_of s i in (hi_dev_addr h, hi_if_status h, hi_soft_iface h, hi_ogm_buff h, hi_ogm_seqno h)),
      (\<lambda>n. let o' = orig_of s n in (on_orig o', on_ifinfo_list o', on_neigh_list o')))"

text \<open>What is known of the broadcasts of every originator.\<close>

definition bcast_view :: "batadv_priv \<Rightarrow> nat \<Rightarrow> seq_bits \<times> u32" where
  "bcast_view s n = (on_bcast_bits (orig_of s n), on_last_bcast_seqno (orig_of s n))"

definition routing_view :: "batadv_priv \<Rightarrow> routes_view \<times> (nat \<Rightarrow> seq_bits \<times> u32)" where
  "routing_view s = (routes_view s, bcast_view s)"

lemma routing_fields [routing_simps]:
  "routing_view (s\<lparr>bp_allocs := x1\<rparr>) = routing_view s"
  "routing_view (s\<lparr>bp_xmits := x2\<rparr>) = routing_view s"
  "routing_view (s\<lparr>bp_rands := x3\<rparr>) = routing_view s"
  "routing_view (s\<lparr>bp_panic := x4\<rparr>) = routing_view s"
  "routing_view (s\<lparr>bp_bla := x5\<rparr>) = routing_view s"
  "routing_view (s\<lparr>bp_frag_seqno := x6\<rparr>) = routing_view s"
  "routing_view (s\<lparr>bp_bcast_seqno := x7\<rparr>) = routing_view s"
  "routing_view (s\<lparr>bp_bcast_queue_left := x8\<rparr>) = routing_view s"
  "routing_view (s\<lparr>bp_forw_bcast_list := x9\<rparr>) = routing_view s"
  "routing_view (nc_mod h s) = routing_view s"
  "routing_view (s\<lparr>bp_softif_vlan_list := x11\<rparr>) = routing_view s"
  "routing_view (call c s) = routing_view s"
  "routing_view (tt_mod f s) = routing_view s"
  "routing_view (dat_mod g s) = routing_view s"
  by (simp_all add: routing_view_def routes_view_def bcast_view_def fun_eq_iff call_def tt_mod_def dat_mod_def nc_mod_def)

lemma routing_orig_mod [routing_simps]:
  "(\<And>x. (on_orig (f x), on_ifinfo_list (f x), on_neigh_list (f x), on_bcast_bits (f x), on_last_bcast_seqno (f x)) =
     (on_orig x, on_ifinfo_list x, on_neigh_list x, on_bcast_bits x, on_last_bcast_seqno x)) \<Longrightarrow>
   routing_view (orig_mod n f s) = routing_view s"
  by (auto simp: routing_view_def routes_view_def bcast_view_def orig_mod_def Let_def fun_eq_iff)

lemma routing_fold: "(\<And>x s. routing_view (f x s) = routing_view s) \<Longrightarrow> routing_view (fold f xs s) = routing_view s"
  by (induction xs arbitrary: s) simp_all

lemma routing_neigh_seen [routing_simps]:
  "routing_view (hardif_neigh_mod i a (\<lambda>n. n\<lparr>hn_last_unicast_tx := t\<rparr>) s) = routing_view s"
  by (simp add: hardif_neigh_mod_def hardif_mod_def routing_view_def routes_view_def bcast_view_def fun_eq_iff Let_def)

declare Let_def [routing_simps] split_beta [routing_simps]

section \<open>Sending\<close>

lemma routing_kzalloc [routing_simps]: "routing_view (snd (kzalloc s)) = routing_view s"
  by (simp add: routing_simps kzalloc_eq split: if_split option.split)

lemma routing_rand [routing_simps]: "routing_view (snd (prandom_u32 s)) = routing_view s"
  by (simp add: routing_simps prandom_u32_def split: if_split option.split list.split)

lemma routing_xmit [routing_simps]: "routing_view (snd (dev_queue_xmit i d b s)) = routing_view s"
  by (simp add: routing_simps dev_queue_xmit_def split: if_split option.split list.split)

lemma routing_path_mod [routing_simps]: "routing_view (nc_path_mod pool key f s) = routing_view s"
  by (simp add: routing_simps nc_path_mod_def nc_hash_put_def split: if_split option.split nc_pool.split)

lemma routing_hash_put [routing_simps]: "routing_view (nc_hash_put pool h s) = routing_view s"
  by (simp add: routing_simps nc_hash_put_def split: if_split option.split nc_pool.split)

lemma routing_get_path [routing_simps]: "routing_view (snd (batadv_nc_get_path k pool a b s)) = routing_view s"
  by (simp add: routing_simps batadv_nc_get_path_def split: if_split option.split)

lemma routing_add_to_path [routing_simps]: "routing_view (snd (batadv_nc_skb_add_to_path k skb pool key n pid s)) = routing_view s"
  by (simp add: routing_simps batadv_nc_skb_add_to_path_def split: if_split option.split)

lemma routing_store [routing_simps]: "routing_view (batadv_nc_skb_store_for_decoding k skb s) = routing_view s"
  by (simp add: routing_simps batadv_nc_skb_store_for_decoding_def split: if_split option.split)

lemma routing_send_packet [routing_simps]: "routing_view (snd (batadv_send_skb_packet k skb i a s)) = routing_view s"
  by (simp add: routing_simps batadv_send_skb_packet_def split: if_split option.split)

lemma routing_send_unicast [routing_simps]: "routing_view (snd (batadv_send_unicast_skb k skb n s)) = routing_view s"
  by (simp add: routing_simps batadv_send_unicast_skb_def split: if_split option.split)

lemma routing_code [routing_simps]: "routing_view (snd (batadv_nc_code_packets k skb p prev n s)) = routing_view s"
  by (simp add: routing_simps batadv_nc_code_packets_def split: if_split option.split)

lemma routing_path_search [routing_simps]: "routing_view (snd (batadv_nc_path_search k a b d s)) = routing_view s"
  by (simp add: routing_simps batadv_nc_path_search_def split: if_split option.split)

lemma routing_out_search [routing_simps]: "routing_view (snd (nc_out_search k ns skb d a b s)) = routing_view s"
  by (induction ns arbitrary: s) (simp_all add: routing_simps split_beta split: if_split option.split)

lemma routing_src_search [routing_simps]: "routing_view (snd (batadv_nc_skb_src_search k skb d a b s)) = routing_view s"
  by (simp add: routing_simps batadv_nc_skb_src_search_def split: if_split option.split)

lemma routing_store_before [routing_simps]: "routing_view (batadv_nc_skb_store_before_coding k skb a s) = routing_view s"
  by (simp add: routing_simps batadv_nc_skb_store_before_coding_def split: if_split option.split)

lemma routing_in_search [routing_simps]: "routing_view (snd (nc_in_search k ns skb a b s)) = routing_view s"
  by (induction ns arbitrary: s) (simp_all add: routing_simps split_beta split: if_split option.split)

lemma routing_nc_send [routing_simps]: "routing_view (batadv_nc_send_packet k p s) = routing_view s"
  by (simp add: routing_simps batadv_nc_send_packet_def split: if_split option.split)

lemma routing_dst_search [routing_simps]: "routing_view (snd (batadv_nc_skb_dst_search k skb n s)) = routing_view s"
  by (simp add: routing_simps batadv_nc_skb_dst_search_def split: if_split option.split)

lemma routing_nc_forward [routing_simps]: "routing_view (snd (batadv_nc_skb_forward k skb n s)) = routing_view s"
  by (simp add: routing_simps batadv_nc_skb_forward_def split: if_split option.split)

lemma routing_sniffed [routing_simps]: "routing_view (batadv_nc_skb_store_sniffed_unicast k skb s) = routing_view s"
  by (simp add: routing_simps batadv_nc_skb_store_sniffed_unicast_def split: if_split option.split)

lemma routing_find_router [routing_simps]: "routing_view (snd (batadv_find_router n i s)) = routing_view s"
  by (simp add: routing_simps batadv_find_router_def split: if_split option.split)

lemma routing_kzallocs [routing_simps]: "routing_view (snd (kzallocs n s)) = routing_view s"
  by (simp add: routing_simps kzallocs_def split: if_split option.split)

lemma routing_frag [routing_simps]: "routing_view (snd (frag_transmit k skb o1 n s)) = routing_view s"
  unfolding frag_transmit_def Let_def split_beta
  by (auto simp: routing_simps routing_fold split: option.split)

lemma routing_to_orig [routing_simps]: "routing_view (snd (batadv_send_skb_to_orig k skb n i s)) = routing_view s"
  by (simp add: routing_simps batadv_send_skb_to_orig_def split: if_split option.split)

lemma routing_push_fill [routing_simps]: "routing_view (snd (batadv_send_skb_push_fill_unicast skb h n s)) = routing_view s"
  by (simp add: routing_simps batadv_send_skb_push_fill_unicast_def split: if_split option.split)

lemma routing_prep [routing_simps]: "routing_view (snd (batadv_send_skb_prepare_unicast skb n s)) = routing_view s"
  by (simp add: routing_simps batadv_send_skb_prepare_unicast_def split: if_split option.split)

lemma routing_prep4 [routing_simps]: "routing_view (snd (batadv_send_skb_prepare_unicast_4addr skb n t s)) = routing_view s"
  by (simp add: routing_simps batadv_send_skb_prepare_unicast_4addr_def split: if_split option.split)

lemma routing_unicast [routing_simps]: "routing_view (snd (batadv_send_skb_unicast k skb pt st n v s)) = routing_view s"
  by (simp add: routing_simps batadv_send_skb_unicast_def split: if_split option.split)

lemma routing_generic [routing_simps]: "routing_view (snd (batadv_send_skb_via_tt_generic k skb pt st h v s)) = routing_view s"
  by (simp add: routing_simps batadv_send_skb_via_tt_generic_def split: if_split option.split)

lemma routing_via_tt [routing_simps]: "routing_view (snd (batadv_send_skb_via_tt k skb h v s)) = routing_view s"
  by (simp add: routing_simps batadv_send_skb_via_tt_def split: if_split option.split)

lemma routing_via_tt4 [routing_simps]: "routing_view (snd (batadv_send_skb_via_tt_4addr k skb st h v s)) = routing_view s"
  by (simp add: routing_simps batadv_send_skb_via_tt_4addr_def split: if_split option.split)

section \<open>The translation table\<close>

lemma routing_local_mod [routing_simps]: "routing_view (tt_local_mod key f s) = routing_view s"
  by (simp add: routing_simps tt_local_mod_def split: if_split option.split)

lemma routing_global_mod [routing_simps]: "routing_view (tt_global_mod key f s) = routing_view s"
  by (simp add: routing_simps tt_global_mod_def split: if_split option.split)

lemma routing_global_free [routing_simps]: "routing_view (batadv_tt_global_free k key s) = routing_view s"
  by (simp add: routing_simps batadv_tt_global_free_def split: if_split option.split)

lemma routing_vlan_mod [routing_simps]: "routing_view (softif_vlan_mod v f s) = routing_view s"
  by (simp add: routing_simps softif_vlan_mod_def split: if_split option.split)

lemma routing_vlan_get [routing_simps]: "routing_view (snd (batadv_softif_vlan_get v s)) = routing_view s"
  by (simp add: routing_simps batadv_softif_vlan_get_def split: if_split option.split)

lemma routing_vlan_put [routing_simps]: "routing_view (batadv_softif_vlan_put v s) = routing_view s"
  by (simp add: routing_simps batadv_softif_vlan_put_def split: if_split option.split)

lemma routing_local_event [routing_simps]: "routing_view (batadv_tt_local_event k key fl s) = routing_view s"
  by (simp add: routing_simps batadv_tt_local_event_def split: if_split option.split)

lemma routing_set_pending [routing_simps]: "routing_view (batadv_tt_local_set_pending k key fl s) = routing_view s"
  by (simp add: routing_simps batadv_tt_local_set_pending_def split: if_split option.split)

lemma routing_local_remove [routing_simps]: "routing_view (snd (batadv_tt_local_remove k a v r s)) = routing_view s"
  by (simp add: routing_simps batadv_tt_local_remove_def split: if_split option.split)

lemma routing_roam_count [routing_simps]: "routing_view (snd (batadv_tt_check_roam_count k a s)) = routing_view s"
  by (simp add: routing_simps batadv_tt_check_roam_count_def split: if_split option.split)

lemma routing_tvlv_send [routing_simps]: "routing_view (batadv_tvlv_unicast_send k a b t v bs l s) = routing_view s"
  by (simp add: routing_simps batadv_tvlv_unicast_send_def split: if_split option.split)

lemma routing_roam_adv [routing_simps]: "routing_view (batadv_send_roam_adv k a v n s) = routing_view s"
  by (simp add: routing_simps batadv_send_roam_adv_def split: if_split option.split)

lemma routing_check_roaming [routing_simps]: "routing_view (tt_check_roaming k key g back s) = routing_view s"
  by (simp add: routing_simps tt_check_roaming_def routing_fold split: if_split option.split)

lemma routing_local_attributes [routing_simps]: "routing_view (tt_local_attributes k key i m s) = routing_view s"
  by (simp add: routing_simps tt_local_attributes_def split: if_split option.split)

lemma routing_local_create [routing_simps]: "routing_view (snd (tt_local_create k key i s)) = routing_view s"
  by (simp add: routing_simps tt_local_create_def split: if_split option.split)

lemma routing_local_add [routing_simps]: "routing_view (snd (batadv_tt_local_add k a v i m s)) = routing_view s"
  by (simp add: routing_simps batadv_tt_local_add_def split: if_split option.split)

lemma routing_vlan_new [routing_simps]: "routing_view (snd (batadv_orig_node_vlan_new n v s)) = routing_view s"
  by (simp add: routing_simps batadv_orig_node_vlan_new_def split: if_split option.split)

lemma routing_size_mod [routing_simps]: "routing_view (batadv_tt_global_size_mod n v d s) = routing_view s"
  by (simp add: routing_simps batadv_tt_global_size_mod_def split: if_split option.split)

lemma routing_size_inc [routing_simps]: "routing_view (batadv_tt_global_size_inc n v s) = routing_view s"
  by (simp add: routing_simps batadv_tt_global_size_inc_def split: if_split option.split)

lemma routing_size_dec [routing_simps]: "routing_view (batadv_tt_global_size_dec n v s) = routing_view s"
  by (simp add: routing_simps batadv_tt_global_size_dec_def split: if_split option.split)

lemma routing_orig_entry_add [routing_simps]: "routing_view (batadv_tt_global_orig_entry_add k key n tv s) = routing_view s"
  by (simp add: routing_simps batadv_tt_global_orig_entry_add_def split: if_split option.split)

lemma routing_del_entry [routing_simps]: "routing_view (do_tt_global_del_orig_entry key x s) = routing_view s"
  by (simp add: routing_simps do_tt_global_del_orig_entry_def split: if_split option.split)

lemma routing_del_list [routing_simps]: "routing_view (batadv_tt_global_del_orig_list k key s) = routing_view s"
  by (simp add: routing_simps batadv_tt_global_del_orig_list_def routing_fold split: if_split option.split)

lemma routing_del_node [routing_simps]: "routing_view (batadv_tt_global_del_orig_node k key n s) = routing_view s"
  by (simp add: routing_simps batadv_tt_global_del_orig_node_def routing_fold split: if_split option.split)

lemma routing_del_step [routing_simps]: "routing_view (tt_global_del_orig_step k n v e s) = routing_view s"
  by (simp add: routing_simps tt_global_del_orig_step_def split: if_split option.split)

lemma routing_del_orig [routing_simps]: "routing_view (batadv_tt_global_del_orig k n v s) = routing_view s"
  by (simp add: routing_simps batadv_tt_global_del_orig_def routing_fold split: if_split option.split)

lemma routing_global_create [routing_simps]: "routing_view (snd (tt_global_create k key fl s)) = routing_view s"
  by (simp add: routing_simps tt_global_create_def split: if_split option.split)

lemma routing_out_remove [routing_simps]: "routing_view (tt_global_out_remove k key fl s) = routing_view s"
  by (simp add: routing_simps tt_global_out_remove_def split: if_split option.split)

lemma routing_global_update [routing_simps]: "routing_view (tt_global_update k key g fl s) = routing_view s"
  by (simp add: routing_simps tt_global_update_def split: if_split option.split)

lemma routing_global_add [routing_simps]: "routing_view (snd (batadv_tt_global_add k n a v fl tv s)) = routing_view s"
  by (simp add: routing_simps batadv_tt_global_add_def split: if_split option.split)

lemma routing_temporary [routing_simps]: "routing_view (snd (batadv_tt_add_temporary_global_entry k n a v s)) = routing_view s"
  by (simp add: routing_simps batadv_tt_add_temporary_global_entry_def split: if_split option.split)

lemma routing_bla_forget [routing_simps]: "routing_view (bla_forget k d s) = routing_view s"
  by (simp add: routing_simps bla_forget_def split: if_split option.split)

lemma routing_bla_run [routing_simps]: "routing_view (snd (bla_run k f s)) = routing_view s"
  by (simp add: routing_simps bla_run_def routing_fold split: if_split option.split)

section \<open>ARP messages, reception and the soft interface\<close>

lemma routing_entry_add [routing_simps]: "routing_view (batadv_dat_entry_add k ip m v s) = routing_view s"
  by (simp add: routing_simps batadv_dat_entry_add_def split: if_split option.split)

lemma routing_reply [routing_simps]: "routing_view (snd (dat_reply k bs h v e s)) = routing_view s"
  by (simp add: routing_simps dat_reply_def split: if_split option.split)

lemma routing_dat_to [routing_simps]: "routing_view (snd (dat_send_to k skb t n acc)) = routing_view (snd acc)"
  by (cases acc) (simp add: routing_simps dat_send_to_def split: if_split option.split)

lemma routing_dat_fold [routing_simps]: "routing_view (snd (fold (dat_send_to k skb t) ns acc)) = routing_view (snd acc)"
  by (induction ns arbitrary: acc) (simp_all add: routing_simps)

lemma routing_select [routing_simps]: "routing_view (snd (batadv_dat_select_candidates ip s)) = routing_view s"
  by (simp add: routing_simps batadv_dat_select_candidates_def split: if_split option.split)

lemma routing_learn [routing_simps]: "routing_view (dat_learn_reply k bs h v s) = routing_view s"
  by (simp add: routing_simps dat_learn_reply_def split: if_split option.split)

lemma routing_dat_send [routing_simps]: "routing_view (snd (batadv_dat_send_data k skb ip t s)) = routing_view s"
  using routing_select [of ip s]
  by (cases "batadv_dat_select_candidates ip s") (auto simp: routing_simps batadv_dat_send_data_def split: option.split)

lemma routing_out_request [routing_simps]: "routing_view (snd (batadv_dat_snoop_outgoing_arp_request k skb s)) = routing_view s"
  by (simp add: routing_simps batadv_dat_snoop_outgoing_arp_request_def split: if_split option.split)

lemma routing_in_request [routing_simps]: "routing_view (snd (batadv_dat_snoop_incoming_arp_request k skb h s)) = routing_view s"
  by (simp add: routing_simps batadv_dat_snoop_incoming_arp_request_def split: if_split option.split)

lemma routing_out_reply [routing_simps]: "routing_view (batadv_dat_snoop_outgoing_arp_reply k skb s) = routing_view s"
  by (simp add: routing_simps batadv_dat_snoop_outgoing_arp_reply_def split: if_split option.split)

lemma routing_in_reply [routing_simps]: "routing_view (snd (batadv_dat_snoop_incoming_arp_reply k skb h s)) = routing_view s"
  by (simp add: routing_simps batadv_dat_snoop_incoming_arp_reply_def split: if_split option.split)

lemma routing_rx [routing_simps]: "routing_view (batadv_interface_rx k skb h n s) = routing_view s"
  by (simp add: routing_simps batadv_interface_rx_def split: if_split option.split)

lemma routing_deliver [routing_simps]: "routing_view (deliver_payload k skb h n s) = routing_view s"
  by (simp add: routing_simps deliver_payload_def split: if_split option.split)

lemma routing_ttvn [routing_simps]: "routing_view (snd (batadv_check_unicast_ttvn k skb h s)) = routing_view s"
  by (simp add: routing_simps batadv_check_unicast_ttvn_def split: if_split option.split)

lemma routing_route [routing_simps]: "routing_view (snd (batadv_route_unicast_packet k skb i s)) = routing_view s"
  by (simp add: routing_simps batadv_route_unicast_packet_def split: if_split option.split)

lemma routing_recv_unicast [routing_simps]: "routing_view (snd (batadv_recv_unicast_packet k skb i s)) = routing_view s"
  by (simp add: routing_simps batadv_recv_unicast_packet_def split: if_split option.split)

lemma routing_bcast_list [routing_simps]: "routing_view (snd (batadv_add_bcast_packet_to_list bs s)) = routing_view s"
  by (simp add: routing_simps batadv_add_bcast_packet_to_list_def split: if_split option.split)

lemma routing_gw_range [routing_simps]: "routing_view (snd (batadv_gw_out_of_range k skb s)) = routing_view s"
  by (simp add: routing_simps batadv_gw_out_of_range_def split: if_split option.split)

lemma routing_via_gw [routing_simps]: "routing_view (snd (batadv_send_skb_via_gw k skb v s)) = routing_view s"
  by (simp add: routing_simps batadv_send_skb_via_gw_def split: if_split option.split)

lemma routing_tx_bcast [routing_simps]: "routing_view (snd (tx_broadcast k skb s)) = routing_view s"
  by (simp add: routing_simps tx_broadcast_def split: if_split option.split)

lemma routing_tx [routing_simps]: "routing_view (snd (batadv_interface_tx k bs p m i s)) = routing_view s"
  by (simp add: routing_simps batadv_interface_tx_def split: if_split option.split tx_plan.split)

lemma routing_fwd [routing_simps]: "routing_view (snd (frag_skb_fwd k skb i s)) = routing_view s"
  by (simp add: routing_simps frag_skb_fwd_def split: if_split option.split)

lemma routing_buffer [routing_simps]: "routing_view (snd (snd (frag_skb_buffer k skb n s))) = routing_view s"
  unfolding frag_skb_buffer_def Let_def split_beta
  by (simp add: routing_simps split_beta split: if_split option.split merge_result.split list.split)

lemma routing_recv_frag [routing_simps]: "routing_view (snd (snd (batadv_recv_frag_packet k skb i s))) = routing_view s"
  by (simp add: routing_simps batadv_recv_frag_packet_def split: if_split option.split bool.split)

lemma routing_unhandled [routing_simps]: "routing_view (snd (batadv_recv_unhandled_unicast_packet k skb i s)) = routing_view s"
  by (simp add: routing_simps batadv_recv_unhandled_unicast_packet_def split: if_split option.split)

lemma routing_answer [routing_simps]: "routing_view (snd (icmp_answer k skb t s)) = routing_view s"
  by (simp add: routing_simps icmp_answer_def split: if_split option.split)

lemma routing_my_icmp [routing_simps]: "routing_view (snd (batadv_recv_my_icmp_packet k skb s)) = routing_view s"
  by (simp add: routing_simps batadv_recv_my_icmp_packet_def split: if_split option.split)

lemma routing_ttl_icmp [routing_simps]: "routing_view (snd (batadv_recv_icmp_ttl_exceeded k skb s)) = routing_view s"
  by (simp add: routing_simps batadv_recv_icmp_ttl_exceeded_def split: if_split option.split)

lemma routing_icmp [routing_simps]: "routing_view (snd (batadv_recv_icmp_packet k skb i s)) = routing_view s"
  by (simp add: routing_simps batadv_recv_icmp_packet_def split: if_split option.split)


lemma routing_find_decoding [routing_simps]: "routing_view (snd (batadv_nc_find_decoding_packet k h c s)) = routing_view s"
  by (simp add: routing_simps batadv_nc_find_decoding_packet_def split: if_split option.split)

lemma routing_decode [routing_simps]: "routing_view (snd (batadv_nc_skb_decode_packet skb p s)) = routing_view s"
  by (simp add: routing_simps batadv_nc_skb_decode_packet_def split: if_split option.split)

lemma routing_coded [routing_simps]:
  "routing_view (snd (batadv_nc_recv_coded_packet k (batadv_recv_unicast_packet k) skb i s)) = routing_view s"
  by (simp add: routing_simps batadv_nc_recv_coded_packet_def split: if_split option.split)

section \<open>Payload leaves the routes alone\<close>

lemma routes_of_routing: "routing_view s' = routing_view s \<Longrightarrow> routes_view s' = routes_view s"
  by (simp add: routing_view_def)

lemma routes_orig_mod:
  "(\<And>x. (on_orig (f x), on_ifinfo_list (f x), on_neigh_list (f x)) = (on_orig x, on_ifinfo_list x, on_neigh_list x)) \<Longrightarrow>
   routes_view (orig_mod n f s) = routes_view s"
  by (auto simp: routes_view_def orig_mod_def Let_def fun_eq_iff)

lemma routes_bcast: "routes_view (snd (batadv_recv_bcast_packet k skb s)) = routes_view s"
  by (simp add: batadv_recv_bcast_packet_def Let_def split_beta routes_orig_mod routing_simps
      routes_of_routing [OF routing_deliver] routes_of_routing [OF routing_bcast_list]
      routes_of_routing [OF routing_fields(5)] split: if_split option.split)

text \<open>C11: Payload leaves the routes alone. Whatever the contents of a frame, the handlers of unicast packets,
  fragments, broadcasts, ICMP and coded packets, and the sending of a local frame, change neither the
  originators and their routers and neighbours, nor the interfaces, their OGMs, and the OGMs waiting to be
  sent. Only OGMs, ELP packets and TVLV containers can; a packet merged from fragments is received as what it
  is (\<open>batadv_rx_handler\<close>, \<open>batadv_interface_tx\<close>).
\<close>

theorem payload_keeps_routes:
  assumes "idx \<notin> {BATADV_IV_OGM, BATADV_ELP, BATADV_OGM2, BATADV_UNICAST_TVLV}"
  shows "routes_view (snd (snd (batadv_rx_handler idx k oob skb i s))) = routes_view s \<and>
    routes_view (snd (batadv_interface_tx k bs prio mark iif s)) = routes_view s"
proof -
  note r = routes_of_routing [OF routing_coded] routes_of_routing [OF routing_recv_unicast]
    routes_of_routing [OF routing_recv_frag] routes_of_routing [OF routing_icmp] routes_of_routing [OF routing_unhandled]
  have "routes_view (snd (snd (batadv_rx_handler idx k oob skb i s))) = routes_view s"
    using assms by (simp add: batadv_rx_handler_def Let_def split_beta routes_bcast r)
  then show ?thesis by (simp add: routes_of_routing [OF routing_tx])
qed

section \<open>A broadcast is taken once\<close>

lemma orig_hash_find_routes:
  assumes "routes_view t = routes_view s" "k_jhash k2 = k_jhash k"
  shows "batadv_orig_hash_find k2 t a = batadv_orig_hash_find k s a"
proof -
  have "batadv_choose_orig k2 = batadv_choose_orig k" by (simp add: batadv_choose_orig_def fun_eq_iff assms(2))
  moreover have "bp_orig_hash t = bp_orig_hash s" using assms(1) by (simp add: routes_view_def)
  ultimately show ?thesis by (simp add: batadv_orig_hash_find_def split: option.split)
qed

lemma orig_after_mod: "orig_of (orig_mod n f s) n = f (orig_of s n)"
  by (simp add: orig_mod_def)

lemma bcast_after_mod:
  "snd (routing_view (orig_mod n f s)) n = (on_bcast_bits (f (orig_of s n)), on_last_bcast_seqno (f (orig_of s n)))"
  by (simp add: routing_view_def bcast_view_def orig_mod_def)

text \<open>What an accepted broadcast leaves behind.\<close>

lemma bcast_recorded:
  assumes "batadv_recv_bcast_packet k skb s = (NET_RX_SUCCESS, s')"
  shows "\<exists>n. batadv_orig_hash_find k s (b_orig (bcast_of (sk_data skb))) = Some n \<and>
    batadv_test_bit (fst (bcast_view s' n)) (snd (bcast_view s' n)) (b_seqno (bcast_of (sk_data skb)))"
proof -
  let ?p = "bcast_of (sk_data skb)"
  obtain n where n: "batadv_orig_hash_find k s (b_orig ?p) = Some n"
    using assms by (auto simp: batadv_recv_bcast_packet_def Let_def split: if_splits option.splits)
  let ?l = "on_last_bcast_seqno (orig_of s n)"
  obtain protected reset st where w: "batadv_window_protected k (b_seqno ?p - ?l) BATADV_BCAST_MAX_AGE (on_bcast_seqno_reset (orig_of s n))
      = (protected, reset, st)" using prod_cases3 by blast
  obtain bits moved where g: "batadv_bit_get_packet (on_bcast_bits (orig_of s n)) (b_seqno ?p - ?l) True = (bits, moved)" by fastforce
  have "snd (routing_view s') n = (bits, if moved then b_seqno ?p else ?l)"
    using assms n w g
    by (auto simp: batadv_recv_bcast_packet_def Let_def routing_simps split_beta bcast_after_mod orig_after_mod split: if_splits)
  then have "bcast_view s' n = (bits, if moved then b_seqno ?p else ?l)"
    by (simp add: routing_view_def)
  moreover have "bits = fst (batadv_bit_get_packet (on_bcast_bits (orig_of s n)) (b_seqno ?p - ?l) True)" "moved = window_moves (b_seqno ?p - ?l)"
    using g bit_get_moved [of "on_bcast_bits (orig_of s n)" "b_seqno ?p - ?l" True] by simp_all
  ultimately show ?thesis
    using n test_bit_after_receive [of "on_bcast_bits (orig_of s n)" "b_seqno ?p" ?l] by simp
qed

lemma bcast_known_dropped:
  assumes "batadv_orig_hash_find k t (b_orig (bcast_of (sk_data skb))) = Some n"
    and "batadv_test_bit (fst (bcast_view t n)) (snd (bcast_view t n)) (b_seqno (bcast_of (sk_data skb)))"
  shows "batadv_recv_bcast_packet k skb t = (NET_RX_DROP, t)"
  using assms by (simp add: batadv_recv_bcast_packet_def bcast_view_def Let_def)

text \<open>What a broadcast does to the window of any originator: nothing, or it takes its number in.\<close>

lemma bcast_window:
  "bcast_view (snd (batadv_recv_bcast_packet k skb s)) n = bcast_view s n \<or>
   bcast_view (snd (batadv_recv_bcast_packet k skb s)) n = window_receive (bcast_view s n) (b_seqno (bcast_of (sk_data skb))) True"
proof -
  let ?q = "b_seqno (bcast_of (sk_data skb))"
  have deliver: "bcast_view (deliver_payload k x h o' t) n = bcast_view t n"
    "bcast_view (snd (batadv_add_bcast_packet_to_list d t)) n = bcast_view t n"
    "bcast_view (t\<lparr>bp_bla := b\<rparr>) n = bcast_view t n" for k x h o' t d b
    using routing_deliver [of k x h o' t] routing_bcast_list [of d t]
    by (simp_all add: routing_view_def bcast_view_def)
  have m: "bcast_view (orig_mod m f t) n = (if m = n then (on_bcast_bits (f (orig_of t n)), on_last_bcast_seqno (f (orig_of t n)))
      else bcast_view t n)" for m f t
    by (simp add: bcast_view_def orig_mod_def)
  show ?thesis
    by (auto simp: batadv_recv_bcast_packet_def Let_def split_beta deliver m orig_after_mod window_receive_def bcast_view_def [of s]
        split: if_split option.split)
qed

text \<open>
  What may happen between two copies of a broadcast: other broadcasts, of any originator, as long as the number
  \<open>q\<close> stays within the window of originator \<open>n\<close>, and everything else that leaves the look-up of its address
  and its window alone.
\<close>

inductive bcast_step :: "kenv \<Rightarrow> mac \<Rightarrow> nat \<Rightarrow> u32 \<Rightarrow> batadv_priv \<Rightarrow> batadv_priv \<Rightarrow> bool" for k a n q where
  bcast: "t = snd (batadv_recv_bcast_packet k' skb s) \<Longrightarrow> in_window (snd (bcast_view t n)) q \<Longrightarrow> bcast_step k a n q s t"
| other: "batadv_orig_hash_find k t a = batadv_orig_hash_find k s a \<Longrightarrow> bcast_view t n = bcast_view s n \<Longrightarrow>
    bcast_step k a n q s t"

lemma bcast_step_keeps:
  assumes "bcast_step k a n q s t" "batadv_orig_hash_find k s a = Some n" "q \<in> received (fst (bcast_view s n)) (snd (bcast_view s n))"
  shows "batadv_orig_hash_find k t a = Some n \<and> q \<in> received (fst (bcast_view t n)) (snd (bcast_view t n))"
  using assms(1)
proof cases
  case (bcast k' skb)
  let ?w = "window_receive (bcast_view s n) (b_seqno (bcast_of (sk_data skb))) True"
  have "batadv_orig_hash_find k t a = Some n"
    using assms(2) unfolding bcast(1) by (simp add: orig_hash_find_routes [OF routes_bcast refl])
  moreover have "q \<in> received (fst ?w) (snd ?w)" if "bcast_view t n = ?w"
    using received_window_receive [of "fst (bcast_view s n)" "snd (bcast_view s n)" "b_seqno (bcast_of (sk_data skb))" True]
      assms(3) bcast(2) that by (auto simp: Let_def split: prod.splits)
  ultimately show ?thesis
    using bcast_window [of k' skb s n] assms(3) bcast(1) by auto
next
  case other
  then show ?thesis using assms by simp
qed

text \<open>C12: A broadcast is accepted at most once. After a node has delivered one, another with the same originator
  and sequence number is dropped and nothing changes, whichever way it comes, at any later time: after any
  number of other broadcasts of whatever originator, as long as the number is less than 64 behind the newest
  of its originator, and after anything else that leaves the look-up and the window of the originator as they
  are (\<open>batadv_recv_bcast_packet\<close>).
\<close>

theorem bcast_accepted_once:
  assumes "batadv_recv_bcast_packet k skb s = (NET_RX_SUCCESS, s')"
    and "a = b_orig (bcast_of (sk_data skb))" "q = b_seqno (bcast_of (sk_data skb))"
    and "batadv_orig_hash_find k s a = Some n"
    and "(bcast_step k a n q)\<^sup>*\<^sup>* s' t"
    and "k_jhash k2 = k_jhash k"
    and "b_orig (bcast_of (sk_data skb2)) = a" "b_seqno (bcast_of (sk_data skb2)) = q"
  shows "batadv_recv_bcast_packet k2 skb2 t = (NET_RX_DROP, t)"
proof -
  have "batadv_test_bit (fst (bcast_view s' n)) (snd (bcast_view s' n)) q"
    using bcast_recorded [OF assms(1)] assms(2-4) by auto
  moreover have "s' = snd (batadv_recv_bcast_packet k skb s)"
    by (simp add: assms(1))
  then have "batadv_orig_hash_find k s' a = Some n"
    using assms(4) by (simp only: orig_hash_find_routes [OF routes_bcast refl])
  ultimately have "batadv_orig_hash_find k s' a = Some n \<and> q \<in> received (fst (bcast_view s' n)) (snd (bcast_view s' n))"
    by (simp add: received_def)
  with assms(5) have "batadv_orig_hash_find k t a = Some n \<and> q \<in> received (fst (bcast_view t n)) (snd (bcast_view t n))"
    by (induction rule: rtranclp_induct) (auto dest: bcast_step_keeps)
  moreover have "batadv_orig_hash_find k2 t a = batadv_orig_hash_find k t a"
    by (rule orig_hash_find_routes [OF refl assms(6)])
  ultimately show ?thesis
    using assms(7,8) by (intro bcast_known_dropped [of _ _ _ n]) (auto simp: received_def)
qed

lemma duplist_own: "\<forall>e \<in> set xs. dl_orig e = a \<Longrightarrow> \<not> duplist_search k c a xs"
  by (induction xs) (auto simp: batadv_compare_eth_def)

text \<open>A node that hears a broadcast of the originator 3.\<close>

definition bcast_node :: batadv_priv where
  "bcast_node = (mesh_example 2 3)\<lparr>bp_bla := (bp_bla (mesh_example 2 3))\<lparr>bla_bcast_duplist :=
     replicate 16 \<lparr>dl_orig = 3, dl_crc = 0, dl_entrytime = 0\<rparr>\<rparr>\<rparr>"

definition bcast_example :: sk_buff where
  "bcast_example = \<lparr>sk_source = 3, sk_dest = - 1, sk_data = bcast_bytes \<lparr>b_packet_type = BATADV_BCAST, b_version = BATADV_COMPAT_VERSION,
     b_ttl = 50, b_reserved = 0, b_seqno = 5, b_orig = 3\<rparr> @ frame_example, sk_priority = 0, sk_mark = 0, sk_decoded = False\<rparr>"

lemma bcast_example_accepted: "fst (batadv_recv_bcast_packet kenv_example bcast_example bcast_node) = NET_RX_SUCCESS"
proof -
  have e: "batadv_orig_hash_find kenv_example bcast_node 3 = Some 0" "\<not> bp_bridge_loop_avoidance bcast_node"
    "batadv_is_my_mac bcast_node = batadv_is_my_mac (mesh_example 2 3)"
    using mesh_example_tables(3) [of 2 3] mesh_example_fields(19) [of 2 3]
    by (simp_all add: bcast_node_def batadv_orig_hash_find_def batadv_is_my_mac_def fun_eq_iff split: option.splits)
  have d: "length (sk_data bcast_example) = 58" "sk_source bcast_example = 3" "sk_dest bcast_example = - 1"
    "bcast_of (sk_data bcast_example) = \<lparr>b_packet_type = BATADV_BCAST, b_version = BATADV_COMPAT_VERSION,
     b_ttl = 50, b_reserved = 0, b_seqno = 5, b_orig = 3\<rparr>"
    by (simp_all add: bcast_example_def frame_example_plain)
  have my: "\<not> batadv_is_my_mac bcast_node 3"
    by (simp only: e(3)) (simp add: batadv_is_my_mac_def mesh_example_fields batadv_compare_eth_def)
  have b: "on_bcast_bits (orig_of bcast_node 0) = 0" "on_last_bcast_seqno (orig_of bcast_node 0) = 0"
    "bla_bcast_duplist (bp_bla bcast_node) = replicate 16 \<lparr>dl_orig = 3, dl_crc = 0, dl_entrytime = 0\<rparr>"
    by (simp_all add: bcast_node_def mesh_example_def tvlv_example_def)
  have w: "batadv_window_protected kenv_example 5 BATADV_BCAST_MAX_AGE r = (False, r, False)" for r
    by (simp add: batadv_window_protected_def)
  have bb: "\<not> bcast_on_backbone kenv_example skb n 14 t" if "bp_bridge_loop_avoidance t = False" for t skb n
    using that by (simp add: bcast_on_backbone_def batadv_bla_is_backbone_gw_def bla_env_of_def)
  have "fst (batadv_bla_check_bcast_duplist kenv_example c 3 x) = 0"
    if "bla_bcast_duplist x = replicate 16 \<lparr>dl_orig = 3, dl_crc = 0, dl_entrytime = 0\<rparr>" for c x
    using that by (simp add: batadv_bla_check_bcast_duplist_def duplist_own Let_def)
  moreover have "bp_bridge_loop_avoidance (snd (batadv_add_bcast_packet_to_list bs x)) = bp_bridge_loop_avoidance x" for bs x
    by (simp add: batadv_add_bcast_packet_to_list_def kzalloc_eq Let_def split: option.split)
  ultimately show ?thesis
    by (simp add: batadv_recv_bcast_packet_def Let_def split_beta d my [unfolded e] my e b w bb is_broadcast_ether_addr_def
        batadv_test_bit_def orig_mod_def)
qed

text \<open>The node hears a second, newer broadcast of the same originator before the copy.\<close>

definition bcast_newer :: sk_buff where
  "bcast_newer = bcast_example\<lparr>sk_data := bcast_bytes \<lparr>b_packet_type = BATADV_BCAST, b_version = BATADV_COMPAT_VERSION,
     b_ttl = 50, b_reserved = 0, b_seqno = 9, b_orig = 3\<rparr> @ frame_example\<rparr>"

lemma bcast_headers:
  "b_orig (bcast_of (sk_data bcast_example)) = 3" "b_seqno (bcast_of (sk_data bcast_example)) = 5"
  "b_seqno (bcast_of (sk_data bcast_newer)) = 9"
  by (simp_all add: bcast_example_def bcast_newer_def frame_example_plain)

lemma bcast_node_facts:
  "batadv_orig_hash_find kenv_example bcast_node 3 = Some 0" "bcast_view bcast_node 0 = (0, 0)"
proof -
  show "batadv_orig_hash_find kenv_example bcast_node 3 = Some 0"
    using mesh_example_tables(3) [of 2 3] by (simp add: bcast_node_def batadv_orig_hash_find_def split: option.splits)
  show "bcast_view bcast_node 0 = (0, 0)"
    by (simp add: bcast_view_def bcast_node_def mesh_example_def tvlv_example_def)
qed

lemma bcast_newest:
  "snd (bcast_view (snd (batadv_recv_bcast_packet k skb s)) n) \<in> {snd (bcast_view s n), b_seqno (bcast_of (sk_data skb))}"
  using bcast_window [of k skb s n] by (auto simp: window_receive_def split: prod.splits if_splits)

theorem bcast_accepted_once_witness:
  "let s' = snd (batadv_recv_bcast_packet kenv_example bcast_example bcast_node);
       t = snd (batadv_recv_bcast_packet kenv_example bcast_newer s') in
   batadv_recv_bcast_packet kenv_example bcast_example t = (NET_RX_DROP, t)"
proof -
  obtain s' where s': "batadv_recv_bcast_packet kenv_example bcast_example bcast_node = (NET_RX_SUCCESS, s')"
    by (metis bcast_example_accepted prod.collapse)
  define t where "t = snd (batadv_recv_bcast_packet kenv_example bcast_newer s')"
  have "snd (bcast_view s' 0) \<in> {0, 5}" "snd (bcast_view t 0) \<in> {snd (bcast_view s' 0), 9}"
    using bcast_newest [of kenv_example bcast_example bcast_node 0] bcast_newest [of kenv_example bcast_newer s' 0]
    by (simp_all only: s' snd_conv t_def bcast_headers bcast_node_facts(2))
  moreover have "batadv_test_bit (fst (bcast_view s' 0)) (snd (bcast_view s' 0)) 5"
    using bcast_recorded [OF s'] by (simp only: bcast_headers bcast_node_facts option.inject) metis
  then have "snd (bcast_view s' 0) \<noteq> 0"
    by (auto simp: batadv_test_bit_def)
  ultimately have "in_window (snd (bcast_view t 0)) 5"
    by (auto simp: in_window_def)
  then have "bcast_step kenv_example 3 0 5 s' t"
    by (rule bcast_step.bcast [OF t_def])
  then have "(bcast_step kenv_example 3 0 5)\<^sup>*\<^sup>* s' t" ..
  from bcast_accepted_once [OF s' bcast_headers(1,2) [symmetric] bcast_node_facts(1) this refl bcast_headers(1,2)] show ?thesis
    by (simp only: Let_def s' snd_conv t_def)
qed

theorem payload_keeps_routes_witness:
  "routes_view (snd (snd (batadv_rx_handler BATADV_BCAST kenv_example (\<lambda>_. 0) bcast_example 0 bcast_node))) =
     routes_view bcast_node \<and>
   routes_view (snd (batadv_interface_tx kenv_example frame_example 0 0 0 bcast_node)) = routes_view bcast_node"
  by (rule payload_keeps_routes) simp
end
