(* ===== verification/Mcast_Properties.thy ===== *)
theory Mcast_Properties
  imports Receive_Properties Tt_Properties
begin

text \<open>
  Multicast: the lists and counters of what other nodes want agree with the flags that the nodes announced,
  after every sequence of announcements and of originators found and freed; so a packet for a group goes to
  one node only when no other is to have it.
\<close>


section \<open>The counters\<close>

text \<open>What a node wants, and whether it has no multicast support.\<close>

definition wants :: "mcast_want \<Rightarrow> batadv_priv \<Rightarrow> nat \<Rightarrow> bool" where
  "wants w s n \<longleftrightarrow> bit (on_mcast_flags (orig_of s n)) (want_flag w)"

definition mcast_off :: "batadv_priv \<Rightarrow> nat \<Rightarrow> bool" where
  "mcast_off s n \<longleftrightarrow> bit (on_capa_initialized (orig_of s n)) BATADV_ORIG_CAPA_HAS_MCAST \<and>
     \<not> bit (on_capabilities (orig_of s n)) BATADV_ORIG_CAPA_HAS_MCAST"

text \<open>The invariant; \<open>live\<close> are the originators that exist.\<close>

definition wish_ok :: "nat set \<Rightarrow> batadv_priv \<Rightarrow> mcast_want \<Rightarrow> bool" where
  "wish_ok live s w \<longleftrightarrow> distinct (want_list w (bp_mcast s)) \<and> set (want_list w (bp_mcast s)) = {n \<in> live. wants w s n} \<and>
     want_num w (bp_mcast s) = int (length (want_list w (bp_mcast s)))"

definition mcast_ok :: "nat set \<Rightarrow> batadv_priv \<Rightarrow> bool" where
  "mcast_ok live s \<longleftrightarrow> finite live \<and> (\<forall>n \<in> live. n < bp_next_orig s) \<and> (\<forall>w. wish_ok live s w) \<and>
     mc_num_disabled (bp_mcast s) = int (card {n \<in> live. mcast_off s n})"

lemma want_mod_other:
  "want_list w (want_mod w' f g m) = (if w = w' then f (want_list w m) else want_list w m)"
  "want_num w (want_mod w' f g m) = (if w = w' then g (want_num w m) else want_num w m)"
  "mc_num_disabled (want_mod w' f g m) = mc_num_disabled m"
  by (cases w; cases w'; simp add: want_list_def want_num_def want_mod_def)+

lemma want_update_mcast:
  fixes n fl s w'
  defines "m \<equiv> bp_mcast s" and "m' \<equiv> bp_mcast (mcast_want_update w' n fl s)"
  shows "want_list w m' = (if w = w' \<and> bit fl (want_flag w) \<and> \<not> wants w s n then n # want_list w m
           else if w = w' \<and> \<not> bit fl (want_flag w) \<and> wants w s n then remove1 n (want_list w m) else want_list w m)"
    "want_num w m' = (if w = w' \<and> bit fl (want_flag w) \<and> \<not> wants w s n then want_num w m + 1
           else if w = w' \<and> \<not> bit fl (want_flag w) \<and> wants w s n then want_num w m - 1 else want_num w m)"
    "mc_num_disabled m' = mc_num_disabled m"
    "bp_origs (mcast_want_update w' n fl s) = bp_origs s" "bp_next_orig (mcast_want_update w' n fl s) = bp_next_orig s"
  unfolding m_def m'_def mcast_want_update_def Let_def wants_def
  by (simp_all add: mcast_mod_def want_mod_other)

text \<open>The three updates together.\<close>

definition wishes_update :: "nat \<Rightarrow> u8 \<Rightarrow> batadv_priv \<Rightarrow> batadv_priv" where
  "wishes_update n fl s = batadv_mcast_want_ipv6_update n fl (batadv_mcast_want_ipv4_update n fl
     (batadv_mcast_want_unsnoop_update n fl s))"

lemma wishes_update_mcast:
  fixes n fl s
  defines "m \<equiv> bp_mcast s" and "s' \<equiv> wishes_update n fl s"
  shows "want_list w (bp_mcast s') = (if bit fl (want_flag w) \<and> \<not> wants w s n then n # want_list w m
           else if \<not> bit fl (want_flag w) \<and> wants w s n then remove1 n (want_list w m) else want_list w m)"
    "want_num w (bp_mcast s') = (if bit fl (want_flag w) \<and> \<not> wants w s n then want_num w m + 1
           else if \<not> bit fl (want_flag w) \<and> wants w s n then want_num w m - 1 else want_num w m)"
    "mc_num_disabled (bp_mcast s') = mc_num_disabled m" "bp_origs s' = bp_origs s" "bp_next_orig s' = bp_next_orig s"
proof -
  have w: "wants v (mcast_want_update x n fl t) n = wants v t n" for v x t
    by (simp add: wants_def want_update_mcast)
  note d = m_def s'_def wishes_update_def batadv_mcast_want_ipv6_update_def batadv_mcast_want_ipv4_update_def
    batadv_mcast_want_unsnoop_update_def
  show "want_list w (bp_mcast s') = (if bit fl (want_flag w) \<and> \<not> wants w s n then n # want_list w m
           else if \<not> bit fl (want_flag w) \<and> wants w s n then remove1 n (want_list w m) else want_list w m)"
    unfolding d by (cases w) (simp_all add: want_update_mcast w)
  show "want_num w (bp_mcast s') = (if bit fl (want_flag w) \<and> \<not> wants w s n then want_num w m + 1
           else if \<not> bit fl (want_flag w) \<and> wants w s n then want_num w m - 1 else want_num w m)"
    unfolding d by (cases w) (simp_all add: want_update_mcast w)
  show "mc_num_disabled (bp_mcast s') = mc_num_disabled m" "bp_origs s' = bp_origs s" "bp_next_orig s' = bp_next_orig s"
    unfolding d by (simp_all add: want_update_mcast)
qed

text \<open>After the updates the lists are those of the new flags.\<close>

lemma wishes_ok:
  assumes "wish_ok live s w" "n \<in> live"
  shows "distinct (want_list w (bp_mcast (wishes_update n fl s)))"
    "set (want_list w (bp_mcast (wishes_update n fl s))) =
       {i \<in> live. if i = n then bit fl (want_flag w) else wants w s i}"
    "want_num w (bp_mcast (wishes_update n fl s)) = int (length (want_list w (bp_mcast (wishes_update n fl s))))"
proof -
  let ?l = "want_list w (bp_mcast s)"
  have d: "distinct ?l" and l: "set ?l = {i \<in> live. wants w s i}" and num: "want_num w (bp_mcast s) = int (length ?l)"
    using assms(1) by (simp_all add: wish_ok_def)
  show "distinct (want_list w (bp_mcast (wishes_update n fl s)))"
    using d l by (simp add: wishes_update_mcast)
  show "set (want_list w (bp_mcast (wishes_update n fl s))) = {i \<in> live. if i = n then bit fl (want_flag w) else wants w s i}"
    using d l assms(2) by (auto simp: wishes_update_mcast set_remove1_eq)
  have "wants w s n \<Longrightarrow> n \<in> set ?l \<and> 1 \<le> length ?l"
    using l assms(2) length_pos_if_in_set [of n ?l] by (simp add: Suc_le_eq)
  then show "want_num w (bp_mcast (wishes_update n fl s)) = int (length (want_list w (bp_mcast (wishes_update n fl s))))"
    using num by (auto simp: wishes_update_mcast length_remove1 of_nat_diff)
qed

lemma num_disabled_fields:
  "bp_origs (num_disabled_add d s) = bp_origs s" "bp_next_orig (num_disabled_add d s) = bp_next_orig s"
  "mc_num_disabled (bp_mcast (num_disabled_add d s)) = mc_num_disabled (bp_mcast s) + d"
  "want_list w (bp_mcast (num_disabled_add d s)) = want_list w (bp_mcast s)"
  "want_num w (bp_mcast (num_disabled_add d s)) = want_num w (bp_mcast s)"
  by (cases w; simp add: num_disabled_add_def mcast_mod_def want_list_def want_num_def)+

text \<open>The capability: the first part of the handler.\<close>

definition capa_update :: "nat \<Rightarrow> bool \<Rightarrow> batadv_priv \<Rightarrow> batadv_priv" where
  "capa_update orig on s =
     (let initialized = bit (on_capa_initialized (orig_of s orig)) BATADV_ORIG_CAPA_HAS_MCAST;
          has = bit (on_capabilities (orig_of s orig)) BATADV_ORIG_CAPA_HAS_MCAST;
          s = (if on \<and> \<not> has then
                 orig_mod orig (\<lambda>n. n\<lparr>on_capabilities := set_bit BATADV_ORIG_CAPA_HAS_MCAST (on_capabilities n)\<rparr>)
                   (if initialized then num_disabled_add (- 1) s else s)
               else if \<not> on \<and> (has \<or> \<not> initialized) then
                 orig_mod orig (\<lambda>n. n\<lparr>on_capabilities := unset_bit BATADV_ORIG_CAPA_HAS_MCAST (on_capabilities n)\<rparr>)
                   (num_disabled_add 1 s)
               else s)
      in orig_mod orig (\<lambda>n. n\<lparr>on_capa_initialized := set_bit BATADV_ORIG_CAPA_HAS_MCAST (on_capa_initialized n)\<rparr>) s)"

lemma handler_split:
  "batadv_mcast_tvlv_ogm_handler_v1 orig flags value s =
     (let on = (flags AND BATADV_TVLV_HANDLER_OGM_CIFNOTFND = 0);
          fl = (if on \<and> value \<noteq> [] then value ! 0 else 0)
      in orig_mod orig (\<lambda>n. n\<lparr>on_mcast_flags := fl\<rparr>) (wishes_update orig fl (capa_update orig on s)))"
  by (simp add: batadv_mcast_tvlv_ogm_handler_v1_def wishes_update_def capa_update_def Let_def)

lemma card_flip:
  assumes "finite live" "n \<in> live"
  shows "card {i \<in> live. if i = n then p else q i} = card {i \<in> live. q i} + (if p \<and> \<not> q n then 1 else 0) - (if \<not> p \<and> q n then 1 else 0)"
proof -
  let ?r = "{i \<in> live - {n}. q i}"
  have f: "finite ?r" using assms(1) by simp
  have "{i \<in> live. if i = n then p else q i} = (if p then insert n ?r else ?r)" "{i \<in> live. q i} = (if q n then insert n ?r else ?r)"
    using assms(2) by auto
  then show ?thesis using f by simp
qed

lemma capa_update_ok:
  fixes on
  assumes "finite live" "n \<in> live" "mc_num_disabled (bp_mcast s) = int (card {i \<in> live. mcast_off s i})"
  defines "s' \<equiv> capa_update n on s"
  shows "mc_num_disabled (bp_mcast s') = int (card {i \<in> live. mcast_off s' i})"
    "wants w s' = wants w s" "want_list w (bp_mcast s') = want_list w (bp_mcast s)" "want_num w (bp_mcast s') = want_num w (bp_mcast s)"
    "bp_next_orig s' = bp_next_orig s"
proof -
  have off: "mcast_off s' i = (if i = n then \<not> on else mcast_off s i)" for i
    by (auto simp: s'_def capa_update_def mcast_off_def orig_mod_def num_disabled_fields Let_def
        bit_set_bit_iff bit_unset_bit_iff)
  have "1 \<le> card {i \<in> live. mcast_off s i}" if "mcast_off s n"
    using that assms(1,2) card_gt_0_iff [of "{i \<in> live. mcast_off s i}"] by (auto simp: Suc_le_eq)
  moreover have "mc_num_disabled (bp_mcast s') = mc_num_disabled (bp_mcast s) +
      (if \<not> on \<and> \<not> mcast_off s n then 1 else if on \<and> mcast_off s n then - 1 else 0)"
    by (auto simp: s'_def capa_update_def mcast_off_def orig_mod_def num_disabled_fields Let_def)
  ultimately show "mc_num_disabled (bp_mcast s') = int (card {i \<in> live. mcast_off s' i})"
    unfolding off card_flip [OF assms(1,2)] using assms(3) by (auto simp: of_nat_diff)
  show "wants w s' = wants w s" "want_list w (bp_mcast s') = want_list w (bp_mcast s)" "want_num w (bp_mcast s') = want_num w (bp_mcast s)"
    "bp_next_orig s' = bp_next_orig s"
    by (auto simp: s'_def capa_update_def wants_def orig_mod_def num_disabled_fields Let_def fun_eq_iff)
qed

lemma mcast_handler_ok:
  assumes ok: "mcast_ok live s" and n: "n \<in> live"
  shows "mcast_ok live (batadv_mcast_tvlv_ogm_handler_v1 n flags value s)"
proof -
  let ?on = "flags AND BATADV_TVLV_HANDLER_OGM_CIFNOTFND = 0"
  let ?fl = "if ?on \<and> value \<noteq> [] then value ! 0 else 0"
  let ?c = "capa_update n ?on s"
  let ?u = "wishes_update n ?fl ?c"
  let ?s = "batadv_mcast_tvlv_ogm_handler_v1 n flags value s"
  have s: "?s = orig_mod n (\<lambda>x. x\<lparr>on_mcast_flags := ?fl\<rparr>) ?u" by (simp add: handler_split Let_def)
  have fin: "finite live" and num: "mc_num_disabled (bp_mcast s) = int (card {i \<in> live. mcast_off s i})"
    using ok by (simp_all add: mcast_ok_def)
  note c = capa_update_ok [OF fin n num, where on = ?on]
  have w: "wish_ok live ?c w" for w
    using ok by (simp add: mcast_ok_def wish_ok_def c)
  have m: "bp_mcast ?s = bp_mcast ?u" by (simp add: s orig_mod_def)
  have "wants w ?s i = (if i = n then bit ?fl (want_flag w) else wants w ?c i)" for w i
    by (simp add: s wants_def orig_mod_def wishes_update_mcast)
  then have "wish_ok live ?s w" for w
    using wishes_ok [OF w n, of w ?fl] unfolding wish_ok_def m by simp
  moreover have "mcast_off ?s i = mcast_off ?c i" for i
    by (simp add: s mcast_off_def orig_mod_def wishes_update_mcast)
  moreover have "bp_next_orig ?s = bp_next_orig s"
    by (simp add: s orig_mod_def wishes_update_mcast c)
  ultimately show ?thesis
    using ok c(1) unfolding mcast_ok_def m wishes_update_mcast by auto
qed

lemma mcast_off_cong: "bp_origs t = bp_origs s \<Longrightarrow> mcast_off t i = mcast_off s i"
  by (simp add: mcast_off_def)

lemma mcast_purge_ok:
  assumes ok: "mcast_ok live s" and n: "n \<in> live"
  shows "mcast_ok (live - {n}) (batadv_mcast_purge_orig n s)"
proof -
  let ?d = "if mcast_off s n then num_disabled_add (- 1) s else s"
  let ?s = "wishes_update n 0 ?d"
  have s: "batadv_mcast_purge_orig n s = ?s"
    by (auto simp: batadv_mcast_purge_orig_def wishes_update_def mcast_off_def Let_def)
  have d: "bp_origs ?d = bp_origs s" "want_list w (bp_mcast ?d) = want_list w (bp_mcast s)" "bp_next_orig ?d = bp_next_orig s"
    "want_num w (bp_mcast ?d) = want_num w (bp_mcast s)" for w
    by (simp_all add: num_disabled_fields)
  have "wish_ok live ?d w" for w
    using ok by (simp add: mcast_ok_def wish_ok_def d wants_def)
  note u = wishes_ok [OF this n, of _ 0]
  have "wish_ok (live - {n}) ?s w" for w
    using u [of w] unfolding wish_ok_def wants_def wishes_update_mcast(4) d by auto
  moreover have "mc_num_disabled (bp_mcast ?s) = int (card {i \<in> live - {n}. mcast_off ?s i})"
  proof -
    have "finite live" "mc_num_disabled (bp_mcast s) = int (card {i \<in> live. mcast_off s i})"
      using ok by (simp_all add: mcast_ok_def)
    moreover have "bp_origs ?s = bp_origs s" by (simp add: wishes_update_mcast d)
    then have "mcast_off ?s i = mcast_off s i" for i by (rule mcast_off_cong)
    moreover have "{i \<in> live. mcast_off s i} = (if mcast_off s n then insert n {i \<in> live - {n}. mcast_off s i}
        else {i \<in> live - {n}. mcast_off s i})"
      using n by auto
    ultimately show ?thesis
      by (simp add: wishes_update_mcast num_disabled_fields)
  qed
  ultimately show ?thesis
    using ok unfolding s mcast_ok_def by (auto simp: wishes_update_mcast d)
qed

lemma mcast_born_ok:
  assumes ok: "mcast_ok live s" and n: "batadv_orig_node_new k a s = (Some n, s')"
  shows "mcast_ok (insert n live) s'"
proof -
  have f: "n = bp_next_orig s" "bp_mcast s' = bp_mcast s" "bp_next_orig s' = n + 1"
      "on_mcast_flags (orig_of s' n) = 0" "on_capa_initialized (orig_of s' n) = 0"
      "\<And>i. i \<noteq> n \<Longrightarrow> orig_of s' i = orig_of s i"
    using n by (auto simp: batadv_orig_node_new_def batadv_orig_node_vlan_new_def kzalloc_eq orig_mod_def Let_def split: if_splits)
  have "n \<notin> live" using ok f(1) by (auto simp: mcast_ok_def)
  then have o': "\<And>i. i \<in> live \<Longrightarrow> orig_of s' i = orig_of s i" using f(6) by metis
  then have w: "{i \<in> insert n live. wants w s' i} = {i \<in> live. wants w s i}"
      "{i \<in> insert n live. mcast_off s' i} = {i \<in> live. mcast_off s i}" for w
    using f(4,5) \<open>n \<notin> live\<close> by (auto simp: wants_def mcast_off_def)
  have "\<forall>i \<in> live. i < bp_next_orig s'" using ok f(1,3) by (auto simp: mcast_ok_def)
  then show ?thesis
    using ok f(3) unfolding mcast_ok_def wish_ok_def w f(2) by simp
qed

section \<open>The transition system\<close>

text \<open>
  An announcement of a known originator, a new one, one that is freed; \<open>other\<close> is whatever leaves the lists,
  the counters and the flags alone.
\<close>

inductive mcast_step :: "nat set \<times> batadv_priv \<Rightarrow> nat set \<times> batadv_priv \<Rightarrow> bool" where
  announced: "n \<in> live \<Longrightarrow> mcast_step (live, s) (live, batadv_mcast_tvlv_ogm_handler_v1 n flags value s)"
| found: "batadv_orig_node_new k a s = (Some n, s') \<Longrightarrow> mcast_step (live, s) (insert n live, s')"
| freed: "n \<in> live \<Longrightarrow> mcast_step (live, s) (live - {n}, batadv_mcast_purge_orig n s)"
| other: "\<forall>w. want_list w (bp_mcast s') = want_list w (bp_mcast s) \<and> want_num w (bp_mcast s') = want_num w (bp_mcast s) \<Longrightarrow>
    mc_num_disabled (bp_mcast s') = mc_num_disabled (bp_mcast s) \<Longrightarrow> bp_next_orig s \<le> bp_next_orig s' \<Longrightarrow>
    \<forall>n \<in> live. (\<forall>w. wants w s' n = wants w s n) \<and> mcast_off s' n = mcast_off s n \<Longrightarrow> mcast_step (live, s) (live, s')"

definition mcast_initial :: "batadv_priv \<Rightarrow> bool" where
  "mcast_initial s \<longleftrightarrow> (\<forall>w. want_list w (bp_mcast s) = [] \<and> want_num w (bp_mcast s) = 0) \<and> mc_num_disabled (bp_mcast s) = 0"

definition mcast_reachable :: "nat set \<Rightarrow> batadv_priv \<Rightarrow> bool" where
  "mcast_reachable live s \<longleftrightarrow> (\<exists>s0. mcast_initial s0 \<and> mcast_step\<^sup>*\<^sup>* ({}, s0) (live, s))"

inductive_cases mcast_stepE: "mcast_step (live, s) q"

lemma mcast_step_ok:
  assumes "mcast_step (live, s) (live', s')" "mcast_ok live s"
  shows "mcast_ok live' s'"
  using assms(1)
proof cases
  case (announced n flags v)
  then show ?thesis using mcast_handler_ok [OF assms(2)] by simp
next
  case (found k a n)
  then show ?thesis using mcast_born_ok [OF assms(2)] by simp
next
  case (freed n)
  then show ?thesis using mcast_purge_ok [OF assms(2)] by simp
next
  case other
  then have "{n \<in> live. wants w s' n} = {n \<in> live. wants w s n}" "{n \<in> live. mcast_off s' n} = {n \<in> live. mcast_off s n}" for w
    by auto
  then show ?thesis
    using assms(2) other unfolding mcast_ok_def wish_ok_def by (auto dest: order_less_le_trans)
qed

lemma mcast_reachable_ok: "mcast_reachable live s \<Longrightarrow> mcast_ok live s"
proof -
  have "mcast_step\<^sup>*\<^sup>* p q \<Longrightarrow> mcast_ok (fst p) (snd p) \<Longrightarrow> mcast_ok (fst q) (snd q)" for p q
    by (induction rule: rtranclp_induct) (use mcast_step_ok in \<open>auto simp: split_paired_all\<close>)
  moreover have "mcast_initial s0 \<Longrightarrow> mcast_ok {} s0" for s0
    by (simp add: mcast_initial_def mcast_ok_def wish_ok_def)
  ultimately show "mcast_reachable live s \<Longrightarrow> mcast_ok live s"
    by (force simp: mcast_reachable_def)
qed

text \<open>C13: The counters of multicast agree with what they count. After any sequence of announcements
  (\<open>batadv_mcast_tvlv_ogm_handler_v1\<close>), of originators found (\<open>batadv_orig_node_new\<close>) and freed
  (\<open>batadv_mcast_purge_orig\<close>), each of the three lists has exactly the originators that set its flag, once,
  its counter is their number, and \<open>num_disabled\<close> is the number of those known to have no multicast support.
\<close>

theorem mcast_counters_agree:
  assumes "mcast_reachable live s"
  shows "distinct (want_list w (bp_mcast s)) \<and> set (want_list w (bp_mcast s)) = {n \<in> live. wants w s n} \<and>
    want_num w (bp_mcast s) = int (card {n \<in> live. wants w s n}) \<and>
    mc_num_disabled (bp_mcast s) = int (card {n \<in> live. mcast_off s n})"
proof -
  have "wish_ok live s w" "mc_num_disabled (bp_mcast s) = int (card {n \<in> live. mcast_off s n})"
    using mcast_reachable_ok [OF assms] by (auto simp: mcast_ok_def)
  then show ?thesis
    unfolding wish_ok_def using distinct_card [of "want_list w (bp_mcast s)"] by simp
qed

section \<open>Where a packet goes\<close>

definition wishing :: "nat set \<Rightarrow> batadv_priv \<Rightarrow> mcast_want \<Rightarrow> nat set" where
  "wishing live s w = {n \<in> live. wants w s n}"

definition frame_want :: "u8 list \<Rightarrow> mcast_want" where
  "frame_want bs = (if eth_proto bs = ETH_P_IP then Want_Ipv4 else Want_Ipv6)"

lemma wish_list_single:
  assumes "wish_ok live s w"
  shows "want_num w (bp_mcast s) = int (card (wishing live s w))"
    "want_num w (bp_mcast s) = 1 \<Longrightarrow> \<exists>n. want_list w (bp_mcast s) = [n] \<and> wishing live s w = {n}"
proof -
  have d: "distinct (want_list w (bp_mcast s))" and l: "set (want_list w (bp_mcast s)) = wishing live s w"
    and n: "want_num w (bp_mcast s) = int (length (want_list w (bp_mcast s)))"
    using assms by (simp_all add: wish_ok_def wishing_def)
  show "want_num w (bp_mcast s) = int (card (wishing live s w))"
    using distinct_card [OF d] l n by simp
  assume "want_num w (bp_mcast s) = 1"
  then have "length (want_list w (bp_mcast s)) = 1" using n by simp
  then obtain x where "want_list w (bp_mcast s) = [x]" by (auto simp: length_Suc_conv)
  then show "\<exists>n. want_list w (bp_mcast s) = [n] \<and> wishing live s w = {n}" using l by auto
qed

lemma hash_count_nonneg: "tt_global_ok k s \<Longrightarrow> 0 \<le> batadv_tt_global_hash_count k a v s"
  by (auto simp: batadv_tt_global_hash_count_def tt_global_ok_def list_all_iff global_entry_ok_def global_find_iff split: option.split)

text \<open>C14: A multicast packet goes to the one node that is to have it, or to all. When the packet may be
  optimised, \<open>batadv_mcast_forw_mode\<close> weighs the nodes that announced the group, those that want all packets of
  the protocol, and for groups that a bridge cannot snoop those that want these: \<open>BATADV_FORW_ALL\<close>
  means at least two; \<open>BATADV_FORW_SINGLE\<close> is the only one of the only kind; \<open>BATADV_FORW_NONE\<close> means that nobody
  wants the packet, or that the one node that announced the group cannot be reached.
\<close>

theorem mcast_target:
  assumes "mcast_reachable live s" and "tt_global_ok k s" and "batadv_mcast_forw_mode_check bs s = (0, unsnoopable)"
  defines "g \<equiv> batadv_tt_global_hash_count k (eth_dest bs) BATADV_NO_FLAGS s"
    and "listeners \<equiv> wishing live s (frame_want bs)"
    and "bridges \<equiv> (if unsnoopable then wishing live s Want_Unsnoopables else {})"
  shows "case batadv_mcast_forw_mode k bs s of
      (BATADV_FORW_ALL, _) \<Rightarrow> 2 \<le> g + int (card listeners) + int (card bridges)
    | (BATADV_FORW_SINGLE, t) \<Rightarrow>
        g = 1 \<and> listeners = {} \<and> bridges = {} \<and> t = batadv_mcast_forw_tt_node_get k bs s \<and> t \<noteq> None \<or>
        (\<exists>n. g = 0 \<and> t = Some n \<and> (listeners = {n} \<and> bridges = {} \<or> listeners = {} \<and> bridges = {n}))
    | (BATADV_FORW_NONE, _) \<Rightarrow>
        listeners = {} \<and> bridges = {} \<and> (g = 0 \<or> batadv_mcast_forw_tt_node_get k bs s = None)"
proof -
  have w: "wish_ok live s w" for w using mcast_reachable_ok [OF assms(1)] by (simp add: mcast_ok_def)
  have fin: "finite (wishing live s w)" for w
    using mcast_reachable_ok [OF assms(1)] by (simp add: mcast_ok_def wishing_def)
  have g0: "0 \<le> g" unfolding g_def by (rule hash_count_nonneg [OF assms(2)])
  have p: "eth_proto bs = ETH_P_IP \<or> eth_proto bs = ETH_P_IPV6"
    using assms(3) by (auto simp: batadv_mcast_forw_mode_check_def split: if_splits)
  have ip: "batadv_mcast_forw_want_all_ip_count bs s = want_num (frame_want bs) (bp_mcast s)"
      "batadv_mcast_forw_ip_node_get bs s = first_node (want_list (frame_want bs) (bp_mcast s))"
    using p by (auto simp: batadv_mcast_forw_want_all_ip_count_def batadv_mcast_forw_ip_node_get_def frame_want_def want_num_def
        want_list_def batadv_mcast_forw_ipv4_node_get_def batadv_mcast_forw_ipv6_node_get_def)
  have un: "mc_num_want_all_unsnoopables (bp_mcast s) = want_num Want_Unsnoopables (bp_mcast s)"
      "batadv_mcast_forw_unsnoop_node_get s = first_node (want_list Want_Unsnoopables (bp_mcast s))"
    by (simp_all add: want_num_def want_list_def batadv_mcast_forw_unsnoop_node_get_def)
  note lists = wish_list_single [OF w]
  let ?u = "if \<not> unsnoopable then 0 else want_num Want_Unsnoopables (bp_mcast s)"
  have n: "want_num (frame_want bs) (bp_mcast s) = int (card listeners)" "?u = int (card bridges)"
      "finite listeners" "finite bridges"
    by (simp_all add: listeners_def bridges_def lists(1) fin)
  have single: "want_num w (bp_mcast s) = 1 \<Longrightarrow> \<exists>n. first_node (want_list w (bp_mcast s)) = Some n \<and> wishing live s w = {n}" for w
    using lists(2) [of w] by (auto simp: first_node_def)
  let ?c = "int (card listeners)"
  let ?d = "int (card bridges)"
  let ?orig = "if g \<noteq> 0 then batadv_mcast_forw_tt_node_get k bs s
     else if ?c \<noteq> 0 then first_node (want_list (frame_want bs) (bp_mcast s))
     else first_node (want_list Want_Unsnoopables (bp_mcast s))"
  have mode: "batadv_mcast_forw_mode k bs s =
      (if g + ?c + ?d = 1 then (if ?orig \<noteq> None then (BATADV_FORW_SINGLE, ?orig) else (BATADV_FORW_NONE, None))
       else if g + ?c + ?d = 0 then (BATADV_FORW_NONE, None) else (BATADV_FORW_ALL, None))"
    unfolding batadv_mcast_forw_mode_def assms(3) ip un g_def [symmetric] Let_def prod.case n(1) n(2) by simp
  consider "2 \<le> g + ?c + ?d" | "g = 0" "?c = 0" "?d = 0" | "g = 1" "?c = 0" "?d = 0" | "g = 0" "?c = 1" "?d = 0" | "g = 0" "?c = 0" "?d = 1"
    using g0 by force
  then show ?thesis
  proof cases
    case 4
    then obtain x where "first_node (want_list (frame_want bs) (bp_mcast s)) = Some x" "listeners = {x}"
      using single [of "frame_want bs"] n(1) by (auto simp: listeners_def)
    then show ?thesis using 4 n(4) by (simp add: mode)
  next
    case 5
    then have u: unsnoopable by (auto simp: bridges_def split: if_splits)
    then obtain x where "first_node (want_list Want_Unsnoopables (bp_mcast s)) = Some x" "bridges = {x}"
      using single [of Want_Unsnoopables] n(2) 5 by (auto simp: bridges_def)
    then show ?thesis using 5 n(3) by (simp add: mode)
  qed (use n(3,4) in \<open>auto simp: mode\<close>)
qed

text \<open>A node that knows one other, which wants all packets of its groups.\<close>

definition mcast_example :: batadv_priv where
  "mcast_example = batadv_mcast_tvlv_ogm_handler_v1 1 0 [7, 0, 0, 0] (snd (batadv_orig_node_new kenv_example 9 (tt_knows tt_example)))"

lemma mcast_base:
  "bp_allocs (tt_knows tt_example) = []" "bp_next_orig (tt_knows tt_example) = 1" "bp_multicast_mode (tt_knows tt_example)"
  "bp_mcast (tt_knows tt_example) = bp_mcast (tvlv_example [] [])"
  "mc_num_disabled (bp_mcast (tvlv_example [] [])) = 0" "mc_want_all_unsnoopables_list (bp_mcast (tvlv_example [] [])) = []"
  "mc_want_all_ipv4_list (bp_mcast (tvlv_example [] [])) = []" "mc_want_all_ipv6_list (bp_mcast (tvlv_example [] [])) = []"
  "mc_num_want_all_unsnoopables (bp_mcast (tvlv_example [] [])) = 0" "mc_num_want_all_ipv4 (bp_mcast (tvlv_example [] [])) = 0"
  "mc_num_want_all_ipv6 (bp_mcast (tvlv_example [] [])) = 0"
  by (simp_all add: tt_knows_def tt_example_def batadv_tt_init_def batadv_tt_local_init_def batadv_tt_global_init_def
      kzalloc_eq batadv_hash_new_def handler_register_tt tvlv_example_def Let_def tt_mod_def batadv_tvlv_handler_register_def
      batadv_tvlv_handler_get_def)

lemma mcast_handler_frame:
  "bp_tt (batadv_mcast_tvlv_ogm_handler_v1 n fl v s) = bp_tt s"
  "bp_multicast_mode (batadv_mcast_tvlv_ogm_handler_v1 n fl v s) = bp_multicast_mode s"
proof -
  have 1: "bp_tt (mcast_want_update w n f s) = bp_tt s" "bp_multicast_mode (mcast_want_update w n f s) = bp_multicast_mode s" for w f s
    by (simp_all add: mcast_want_update_def mcast_mod_def Let_def)
  have 2: "bp_tt (wishes_update n f s) = bp_tt s" "bp_multicast_mode (wishes_update n f s) = bp_multicast_mode s" for f s
    by (simp_all add: wishes_update_def batadv_mcast_want_ipv6_update_def batadv_mcast_want_ipv4_update_def
        batadv_mcast_want_unsnoop_update_def 1)
  have 3: "bp_tt (orig_mod n f s) = bp_tt s" "bp_multicast_mode (orig_mod n f s) = bp_multicast_mode s"
      "bp_tt (num_disabled_add d s) = bp_tt s" "bp_multicast_mode (num_disabled_add d s) = bp_multicast_mode s" for f s d
    by (simp_all add: orig_mod_def num_disabled_add_def mcast_mod_def)
  have 4: "bp_tt (capa_update n on s) = bp_tt s" "bp_multicast_mode (capa_update n on s) = bp_multicast_mode s" for on s
    by (simp_all add: capa_update_def Let_def 3)
  show "bp_tt (batadv_mcast_tvlv_ogm_handler_v1 n fl v s) = bp_tt s"
    "bp_multicast_mode (batadv_mcast_tvlv_ogm_handler_v1 n fl v s) = bp_multicast_mode s"
    unfolding handler_split Let_def 3 2 4 by (rule refl)+
qed

lemma mcast_example_reachable: "mcast_reachable {1} mcast_example"
proof -
  let ?s = "tt_knows tt_example"
  let ?t = "snd (batadv_orig_node_new kenv_example 9 ?s)"
  have "batadv_orig_node_new kenv_example 9 ?s = (Some 1, ?t)"
    by (simp add: batadv_orig_node_new_def batadv_orig_node_vlan_new_def batadv_orig_node_vlan_get_def kzalloc_def
        mcast_base orig_mod_def Let_def)
  then have "mcast_step ({}, ?s) ({1}, ?t)" by (rule mcast_step.found)
  moreover have "mcast_step ({1}, ?t) ({1}, mcast_example)"
    unfolding mcast_example_def by (rule mcast_step.announced) simp
  moreover have "mcast_initial ?s"
    by (simp add: mcast_initial_def mcast_base want_list_def want_num_def split: mcast_want.split)
  ultimately show ?thesis
    unfolding mcast_reachable_def by (meson rtranclp.simps)
qed

theorem mcast_counters_agree_witness:
  "want_num Want_Ipv4 (bp_mcast mcast_example) = int (card {n \<in> {1}. wants Want_Ipv4 mcast_example n})"
  using mcast_counters_agree [OF mcast_example_reachable, of Want_Ipv4] by blast

definition group_frame :: "u8 list" where
  "group_frame = eth_bytes 0x01005E000001 0x10 0x0800 @ replicate 16 0 @ [224, 0, 0, 1]"

theorem mcast_target_witness:
  "case batadv_mcast_forw_mode kenv_example group_frame mcast_example of
      (BATADV_FORW_ALL, _) \<Rightarrow> 2 \<le> batadv_tt_global_hash_count kenv_example (eth_dest group_frame) BATADV_NO_FLAGS mcast_example +
         int (card (wishing {1} mcast_example (frame_want group_frame))) + int (card (wishing {1} mcast_example Want_Unsnoopables))
    | (BATADV_FORW_SINGLE, t) \<Rightarrow> t \<noteq> None
    | (BATADV_FORW_NONE, _) \<Rightarrow> wishing {1} mcast_example (frame_want group_frame) = {}"
proof -
  let ?t = "snd (batadv_orig_node_new kenv_example 9 (tt_knows tt_example))"
  have t: "bp_tt ?t = bp_tt (tt_knows tt_example)" "bp_multicast_mode ?t" "mc_num_disabled (bp_mcast ?t) = 0"
      "on_capa_initialized (orig_of ?t 1) = 0" "on_capabilities (orig_of ?t 1) = 0"
    by (simp_all add: batadv_orig_node_new_def batadv_orig_node_vlan_new_def batadv_orig_node_vlan_get_def kzalloc_def
        mcast_base orig_mod_def Let_def)
  have m: "bp_multicast_mode mcast_example" "bp_tt mcast_example = bp_tt (tt_knows tt_example)"
    unfolding mcast_example_def mcast_handler_frame by (simp_all add: t)
  have d: "mc_num_disabled (bp_mcast mcast_example) = 0"
    unfolding mcast_example_def handler_split Let_def
    by (simp add: orig_mod_def wishes_update_mcast capa_update_def t t(4,5) [simplified] Let_def)
  have p: "eth_proto group_frame = ETH_P_IP" by (simp add: group_frame_def)
  have f: "field_at group_frame 30 4 AND (0xFFFFFF00 :: u32) = 0xE0000000"
    unfolding group_frame_def eth_bytes_def field_at_def by code_simp
  have "length group_frame = 34" by (simp add: group_frame_def)
  then have "batadv_mcast_forw_mode_check group_frame mcast_example = (0, True)"
    using m d p f by (simp add: batadv_mcast_forw_mode_check_def batadv_mcast_forw_mode_check_ipv4_def)
  moreover have "tt_global_ok kenv_example mcast_example"
    using tt_example_receiving by (simp add: receiving_def global_ok_same [of mcast_example "tt_knows tt_example"] m)
  ultimately show ?thesis
    using mcast_target [OF mcast_example_reachable, of kenv_example group_frame True]
    by (auto split: prod.splits batadv_forw_mode.splits)
qed
end
