(* ===== verification/Services.thy ===== *)
theory Services
  imports Delivery
begin

text \<open>
  The choices that services rest on: which gateway a client uses, and which nodes keep the ARP entry of an
  address. Both are loops over candidates with the best so far; the theorems say what is best.
\<close>


section \<open>The election of a gateway\<close>

text \<open>What the class of the selection compares, as a number without bounds.\<close>

definition gw_rank :: "batadv_priv \<Rightarrow> nat \<Rightarrow> u8 \<Rightarrow> nat" where
  "gw_rank s g tq = (if bp_gw_sel_class s = 1
     then unat tq ^ 2 * unat (gn_bandwidth_down (gw_of s g)) * 10000 div 2 ^ 18 else unat tq)"

text \<open>The 64 bits are enough for the factor.\<close>

lemma gw_factor_exact:
  fixes tq :: u8 and b :: u32
  shows "unat (drop_bit 18 ((ucast tq * ucast tq) * ucast b * (100 * 100)) :: u64) = unat tq ^ 2 * unat b * 10000 div 2 ^ 18"
proof -
  have t: "unat tq \<le> 255" "unat b < 2 ^ 32"
    using unsigned_less [of tq, where 'a = nat] unsigned_less [of b, where 'a = nat] by simp_all
  have m: "unat tq ^ 2 \<le> 65025" using power_mono [OF t(1), of 2] by simp
  have p: "unat tq ^ 2 * unat b \<le> 65025 * 2 ^ 32" by (rule mult_le_mono [OF m]) (use t(2) in simp)
  have l: "unat tq ^ 2 * unat b * 10000 < 2 ^ 64" "unat tq ^ 2 * unat b < 2 ^ 64"
    by (rule le_less_trans [OF mult_le_mono1 [OF p]], simp) (rule le_less_trans [OF p], simp)
  have u: "unat (ucast tq :: u64) = unat tq" "unat (ucast b :: u64) = unat b"
    using t by (simp_all add: unsigned_ucast_eq take_bit_nat_eq_self)
  have 1: "unat (ucast tq * ucast tq :: u64) = unat tq ^ 2"
    using m by (simp add: unat_word_ariths u power2_eq_square)
  have 2: "unat ((ucast tq * ucast tq) * ucast b :: u64) = unat tq ^ 2 * unat b"
    using l by (subst unat_word_ariths) (simp add: 1 u)
  have 3: "unat ((ucast tq * ucast tq) * ucast b * (100 * 100) :: u64) = unat tq ^ 2 * unat b * 10000"
    using l by (subst unat_word_ariths) (simp add: 2)
  show ?thesis by (subst unat_drop_bit_eq) (simp only: 3 drop_bit_eq_div)
qed

text \<open>The state of the loop after some gateways: the best of them, if there is one, has the highest rank.\<close>

definition gw_seen :: "batadv_priv \<Rightarrow> nat list \<Rightarrow> nat option \<times> u64 \<times> u64 \<times> u8 \<Rightarrow> bool" where
  "gw_seen s gs acc = (let (curr_gw, tmp, max_factor, max_tq) = acc;
     tq = (\<lambda>g. gw_tq s (gn_orig_node (gw_of s g)));
     best = (if bp_gw_sel_class s = 1 then unat max_factor else unat max_tq)
   in (bp_gw_sel_class s \<noteq> 1 \<longrightarrow> tmp = 0 \<and> max_factor = 0) \<and>
      (\<forall>g \<in> set gs. \<forall>t. tq g = Some t \<longrightarrow> t \<le> max_tq \<and> gw_rank s g t \<le> best) \<and>
      (case curr_gw of None \<Rightarrow> max_tq = 0 \<and> best = 0
       | Some g \<Rightarrow> g \<in> set gs \<and> (\<exists>t. tq g = Some t \<and> gw_rank s g t = best)))"

lemma gw_seen_class_1:
  assumes "bp_gw_sel_class s = 1"
  shows "gw_seen s gs (c, tmp, mf, mt) \<longleftrightarrow>
     (\<forall>h \<in> set gs. \<forall>u. gw_tq s (gn_orig_node (gw_of s h)) = Some u \<longrightarrow> u \<le> mt \<and> gw_rank s h u \<le> unat mf) \<and>
     (case c of None \<Rightarrow> mt = 0 \<and> unat mf = 0
      | Some h \<Rightarrow> h \<in> set gs \<and> (\<exists>u. gw_tq s (gn_orig_node (gw_of s h)) = Some u \<and> gw_rank s h u = unat mf))"
  using assms by (simp add: gw_seen_def Let_def)

lemma gw_seen_step:
  assumes "gw_seen s gs acc"
  shows "gw_seen s (gs @ [g]) (gw_best_step s g acc)"
proof (cases "gw_tq s (gn_orig_node (gw_of s g))")
  case None
  then show ?thesis using assms by (auto simp: gw_seen_def gw_best_step_def Let_def split: option.splits prod.splits)
next
  case (Some t)
  obtain c tmp mf mt where acc: "acc = (c, tmp, mf, mt)" by (cases acc)
  show ?thesis
  proof (cases "bp_gw_sel_class s = 1")
    case True
    let ?f = "drop_bit 18 ((ucast t * ucast t) * ucast (gn_bandwidth_down (gw_of s g)) * (100 * 100)) :: u64"
    have f: "unat ?f = gw_rank s g t" unfolding gw_factor_exact gw_rank_def by (simp add: True)
    have 0: "t = 0 \<Longrightarrow> ?f = 0" by simp
    have step: "gw_best_step s g acc =
        (if ?f > mf \<or> ?f = mf \<and> t > mt then Some g else c, ?f, max mf ?f, max mt t)"
      unfolding gw_best_step_def Some acc Let_def using True by simp
    define F where "F = ?f"
    have F: "unat F = gw_rank s g t" "t = 0 \<Longrightarrow> F = 0" using f 0 by (simp_all only: F_def)
    have A: "\<forall>h \<in> set gs. \<forall>u. gw_tq s (gn_orig_node (gw_of s h)) = Some u \<longrightarrow> u \<le> mt \<and> gw_rank s h u \<le> unat mf"
      and B: "case c of None \<Rightarrow> mt = 0 \<and> unat mf = 0
        | Some h \<Rightarrow> h \<in> set gs \<and> (\<exists>u. gw_tq s (gn_orig_node (gw_of s h)) = Some u \<and> gw_rank s h u = unat mf)"
      using assms unfolding acc gw_seen_class_1 [OF True] by blast+
    have m: "unat (max mf F) = max (unat mf) (unat F)" by (simp add: max_def word_le_nat_alt)
    have A': "\<forall>h \<in> set (gs @ [g]). \<forall>u. gw_tq s (gn_orig_node (gw_of s h)) = Some u \<longrightarrow>
        u \<le> max mt t \<and> gw_rank s h u \<le> max (unat mf) (unat F)"
      using A Some F(1) by (auto simp: le_max_iff_disj)
    have B': "case (if F > mf \<or> F = mf \<and> t > mt then Some g else c) of
          None \<Rightarrow> max mt t = 0 \<and> max (unat mf) (unat F) = 0
        | Some h \<Rightarrow> h \<in> set (gs @ [g]) \<and> (\<exists>u. gw_tq s (gn_orig_node (gw_of s h)) = Some u \<and>
            gw_rank s h u = max (unat mf) (unat F))"
    proof (cases "F > mf \<or> F = mf \<and> t > mt")
      case True
      then show ?thesis using Some F(1) by (auto simp: word_less_nat_alt max_def)
    next
      case no: False
      then have le: "unat F \<le> unat mf" by (auto simp: word_less_nat_alt not_less)
      show ?thesis
      proof (cases c)
        case None
        then have "mf = 0" "mt = 0" using B by (simp_all add: unat_0_iff)
        moreover have "F = 0" using le \<open>mf = 0\<close> by (simp add: unat_0_iff)
        moreover have "t = 0" using no calculation by (simp add: word_gt_0)
        ultimately show ?thesis using None no by simp
      qed (use B le no in \<open>auto simp: max_def\<close>)
    qed
    show ?thesis
      unfolding step F_def [symmetric] gw_seen_class_1 [OF True] m using A' B' by blast
  next
    case False
    have r: "gw_rank s h u = unat u" for h u using False by (simp add: gw_rank_def)
    show ?thesis
      using assms False Some
      by (auto simp: gw_seen_def gw_best_step_def acc Let_def r max_def unat_0_iff word_le_nat_alt word_less_nat_alt not_le not_less split: option.splits if_splits)
  qed
qed

lemma gw_seen_fold: "gw_seen s gs acc \<Longrightarrow> gw_seen s (gs @ gs') (fold (gw_best_step s) gs' acc)"
proof (induction gs' arbitrary: gs acc)
  case (Cons g gs')
  from Cons.IH [OF gw_seen_step [OF Cons.prems]] show ?case by simp
qed simp

text \<open>C16: The elected gateway is the best one. Among the known gateways that can be reached,
  \<open>batadv_gw_get_best_gw_node\<close> returns one of the highest rank: in class 1 the square of the link quality times
  the downlink, computed exactly as 64 bits are enough for every quality and bandwidth, otherwise the
  quality. It returns none only when no gateway has a quality above 0.
\<close>

theorem gateway_elected_best:
  shows "case batadv_gw_get_best_gw_node s of
      None \<Rightarrow> \<forall>g \<in> set (gw_list (bp_gw s)). gw_tq s (gn_orig_node (gw_of s g)) \<in> {None, Some 0}
    | Some g \<Rightarrow> g \<in> set (gw_list (bp_gw s)) \<and> (\<exists>t. gw_tq s (gn_orig_node (gw_of s g)) = Some t \<and>
        (\<forall>h \<in> set (gw_list (bp_gw s)). \<forall>u. gw_tq s (gn_orig_node (gw_of s h)) = Some u \<longrightarrow> gw_rank s h u \<le> gw_rank s g t))"
proof -
  obtain c tmp mf mt where f: "fold (gw_best_step s) (gw_list (bp_gw s)) (None, 0, 0, 0) = (c, tmp, mf, mt)"
    using prod_cases4 by blast
  have "gw_seen s [] (None, 0, 0, 0)" by (simp add: gw_seen_def)
  from gw_seen_fold [OF this, of "gw_list (bp_gw s)"]
  have "gw_seen s (gw_list (bp_gw s)) (c, tmp, mf, mt)" unfolding f by simp
  then show ?thesis
    unfolding batadv_gw_get_best_gw_node_def f gw_seen_def
    by (cases c) (auto simp: Let_def split: if_splits dest: spec; metis not_Some_eq)+
qed


text \<open>Two gateways, of which the second is announced with the wider link.\<close>

definition gateways_example :: batadv_priv where
  "gateways_example = (routes_example [[(None, 200)]])\<lparr>bp_gw_sel_class := 1, bp_gw :=
     (bp_gw (tvlv_example [] []))\<lparr>gw_list := [0, 1], gw_nodes := (\<lambda>g. \<lparr>gn_orig_node = 0,
       gn_bandwidth_down = (if g = 0 then 100 else 1000), gn_bandwidth_up = 10\<rparr>)\<rparr>\<rparr>"

theorem gateway_elected_best_witness:
  "batadv_gw_get_best_gw_node gateways_example \<noteq> Some 0"
proof
  have l: "gw_list (bp_gw gateways_example) = [0, 1]"
    and t: "gw_tq gateways_example (gn_orig_node (gw_of gateways_example g)) = Some 200" for g
    by (simp_all add: gateways_example_def routes_example_def gw_tq_def batadv_orig_router_get_def batadv_neigh_ifinfo_get_def
        neigh_ifinfo_init_def)
  have r: "\<not> gw_rank gateways_example 1 200 \<le> gw_rank gateways_example 0 200"
    by (simp add: gw_rank_def gateways_example_def)
  assume "batadv_gw_get_best_gw_node gateways_example = Some 0"
  then show False
    using gateway_elected_best [of gateways_example] r by (simp add: l t)
qed

section \<open>The nodes that keep an address\<close>

definition dat_capable :: "batadv_priv \<Rightarrow> nat set" where
  "dat_capable s = {n \<in> set (map snd (bp_table s)). bit (on_capabilities (orig_of s n)) BATADV_ORIG_CAPA_HAS_DAT}"

text \<open>The search of one round, after some originators.\<close>

definition dat_searched :: "batadv_priv \<Rightarrow> nat list \<Rightarrow> u16 \<Rightarrow> u16 \<Rightarrow> nat set \<Rightarrow> nat option \<times> u16 \<Rightarrow> bool" where
  "dat_searched s cands ip_key last_max N acc \<longleftrightarrow>
     (let R = {n \<in> N. bit (on_capabilities (orig_of s n)) BATADV_ORIG_CAPA_HAS_DAT \<and> n \<notin> set cands \<and>
                dat_closeness s ip_key n \<le> last_max}
      in (\<forall>n \<in> R. dat_closeness s ip_key n \<le> snd acc) \<and>
         (case fst acc of None \<Rightarrow> R = {} \<and> snd acc = 0 | Some b \<Rightarrow> b \<in> R \<and> dat_closeness s ip_key b = snd acc))"

lemma dat_search_step:
  assumes "dat_searched s cands ip_key last_max N (best, maxi)"
  shows "dat_searched s cands ip_key last_max (insert n N)
    (let tmp_max = dat_closeness s ip_key n in
     if batadv_is_orig_node_eligible s cands tmp_max maxi last_max n best then (Some n, tmp_max) else (best, maxi))"
proof (cases "batadv_is_orig_node_eligible s cands (dat_closeness s ip_key n) maxi last_max n best")
  case True
  then have "\<not> dat_closeness s ip_key n < maxi" "n \<notin> set cands" "dat_closeness s ip_key n \<le> last_max"
      "bit (on_capabilities (orig_of s n)) BATADV_ORIG_CAPA_HAS_DAT"
    by (auto simp: batadv_is_orig_node_eligible_def not_less)
  then show ?thesis
    using assms True by (auto simp: dat_searched_def Let_def not_less split: option.splits)
next
  case False
  then show ?thesis
    using assms
    by (cases best) (auto simp: dat_searched_def Let_def batadv_is_orig_node_eligible_def not_less split: option.splits)
qed

lemma dat_search:
  "dat_searched s cands ip_key last_max (set (map snd (bp_table s))) (batadv_choose_next_candidate s cands ip_key last_max)"
proof -
  have "dat_searched s cands ip_key last_max N acc \<Longrightarrow>
     dat_searched s cands ip_key last_max (N \<union> set (map snd xs)) (fold (\<lambda>(_, n) (max_orig_node, maxi).
         (let tmp_max = dat_closeness s ip_key n in
          if batadv_is_orig_node_eligible s cands tmp_max maxi last_max n max_orig_node then (Some n, tmp_max)
          else (max_orig_node, maxi))) xs acc)" for N acc and xs :: "(mac \<times> nat) list"
  proof (induction xs arbitrary: N acc)
    case (Cons x xs)
    obtain a n where x: "x = (a, n)" by fastforce
    obtain best maxi where acc: "acc = (best, maxi)" by fastforce
    from Cons.IH [OF dat_search_step [OF Cons.prems [unfolded acc], of n]] show ?case
      by (simp add: x acc)
  qed simp
  from this [of "{}" "(None, 0)" "bp_table s"] show ?thesis
    by (simp add: batadv_choose_next_candidate_def dat_searched_def)
qed

text \<open>What every round keeps: the chosen ones are the closest.\<close>

definition dat_chosen :: "batadv_priv \<Rightarrow> u16 \<Rightarrow> nat list \<Rightarrow> bool" where
  "dat_chosen s ip_key cands \<longleftrightarrow> distinct cands \<and> set cands \<subseteq> dat_capable s \<and>
     (\<forall>m \<in> dat_capable s - set cands. \<forall>n \<in> set cands. dat_closeness s ip_key m \<le> dat_closeness s ip_key n)"

lemma dat_chosen_next:
  assumes "dat_chosen s ip_key cands" "\<forall>m \<in> dat_capable s - set cands. dat_closeness s ip_key m \<le> last_max"
    and "batadv_choose_next_candidate s cands ip_key last_max = (c, last')"
  shows "case c of None \<Rightarrow> dat_capable s \<subseteq> set cands
    | Some n \<Rightarrow> n \<in> dat_capable s - set cands \<and> dat_chosen s ip_key (cands @ [n]) \<and>
        (\<forall>m \<in> dat_capable s - set (cands @ [n]). dat_closeness s ip_key m \<le> last')"
proof -
  have R: "{n \<in> set (map snd (bp_table s)). bit (on_capabilities (orig_of s n)) BATADV_ORIG_CAPA_HAS_DAT \<and> n \<notin> set cands \<and>
      dat_closeness s ip_key n \<le> last_max} = dat_capable s - set cands"
    using assms(2) by (auto simp: dat_capable_def)
  from dat_search [of s cands ip_key last_max] show ?thesis
    using assms(1) unfolding assms(3) dat_searched_def Let_def R dat_chosen_def by (cases c) auto
qed

lemma dat_loop:
  assumes "dat_chosen s ip_key cands" "\<forall>m \<in> dat_capable s - set cands. dat_closeness s ip_key m \<le> last_max"
  shows "dat_chosen s ip_key (dat_select_loop n s ip_key last_max cands) \<and>
    length (dat_select_loop n s ip_key last_max cands) = min (length cands + n) (card (dat_capable s))"
  using assms
proof (induction n arbitrary: cands last_max)
  case 0
  have "length cands \<le> card (dat_capable s)"
    using 0(1) card_mono [of "dat_capable s" "set cands"] by (simp add: dat_chosen_def distinct_card dat_capable_def)
  then show ?case using 0 by simp
next
  case (Suc n)
  obtain c last' where c: "batadv_choose_next_candidate s cands ip_key last_max = (c, last')" by fastforce
  note nx = dat_chosen_next [OF Suc.prems c]
  show ?case
  proof (cases c)
    case None
    then have full: "set cands = dat_capable s" using nx Suc.prems(1) by (auto simp: dat_chosen_def)
    then have "length cands = card (dat_capable s)" using Suc.prems(1) distinct_card by (fastforce simp: dat_chosen_def)
    then show ?thesis
      using Suc.IH [OF Suc.prems(1), of last'] full c None by simp
  next
    case (Some x)
    have "length (cands @ [x]) \<le> card (dat_capable s)"
      using nx Some card_mono [of "dat_capable s" "set (cands @ [x])"] distinct_card [of "cands @ [x]"]
      by (simp add: dat_chosen_def dat_capable_def)
    then show ?thesis
      using Suc.IH [of "cands @ [x]" last'] nx Some c by simp
  qed
qed

text \<open>C15: The nodes that keep the entry of an IP address are the closest ones. Whatever the table of originators,
  \<open>batadv_dat_select_candidates\<close> chooses three different nodes that take part in the distributed ARP table, or all if
  there are fewer, and no node that was not chosen is closer to the key of the address than one that was.
\<close>

theorem dat_candidates_closest:
  assumes "batadv_dat_select_candidates ip_dst s = (Some cands, s')"
  defines "close \<equiv> dat_closeness s (ucast (batadv_hash_dat (ip_dst, 0) 0xFFFF))"
  shows "distinct cands \<and> set cands \<subseteq> dat_capable s \<and> length cands = min 3 (card (dat_capable s)) \<and>
    (\<forall>m \<in> dat_capable s - set cands. \<forall>n \<in> set cands. close m \<le> close n)"
proof -
  let ?key = "ucast (batadv_hash_dat (ip_dst, 0) 0xFFFF) :: u16"
  have b: "bp_table (snd (kzalloc s)) = bp_table s" "bp_origs (snd (kzalloc s)) = bp_origs s" by (simp_all add: bp_table_def kzalloc_eq)
  have c: "dat_closeness (snd (kzalloc s)) = dat_closeness s" "dat_capable (snd (kzalloc s)) = dat_capable s"
    by (simp_all add: fun_eq_iff dat_closeness_def dat_capable_def b)
  have "cands = dat_select_loop 3 (snd (kzalloc s)) ?key 0xFFFF []"
    using assms(1) by (auto simp: batadv_dat_select_candidates_def Let_def split: if_splits prod.splits)
  moreover have "w \<le> 0xFFFF" for w :: u16
    using unsigned_less [of w, where 'a = nat] by (simp add: word_le_nat_alt)
  ultimately show ?thesis
    using dat_loop [of "snd (kzalloc s)" ?key "[]" "0xFFFF" 3] by (simp add: dat_chosen_def c close_def)
qed

text \<open>Four nodes that take part.\<close>

definition dat_example :: batadv_priv where
  "dat_example = (tvlv_example [] [])\<lparr>bp_orig_hash := Some \<lparr>ht_table = [[(1, 0), (2, 1), (3, 2), (4, 3)]], ht_size = 1\<rparr>,
     bp_origs := (\<lambda>n. (orig_of (tvlv_example [] []) n)\<lparr>on_capabilities := 1, on_dat_addr := of_nat n * 1000\<rparr>)\<rparr>"

theorem dat_candidates_closest_witness:
  "\<exists>cands s'. batadv_dat_select_candidates 0x0A000001 dat_example = (Some cands, s') \<and> distinct cands \<and>
     set cands \<subseteq> {0, 1, 2, 3} \<and> length cands = 3"
proof -
  have h: "bp_orig_hash dat_example \<noteq> None" "bp_allocs dat_example = []"
    by (simp_all add: dat_example_def tvlv_example_def)
  obtain cands s' where s: "batadv_dat_select_candidates 0x0A000001 dat_example = (Some cands, s')"
    using h by (auto simp: batadv_dat_select_candidates_def kzalloc_def Let_def)
  have "dat_capable dat_example = {0, 1, 2, 3}"
    by (auto simp: dat_capable_def dat_example_def bp_table_def hash_elems_def)
  then show ?thesis
    using dat_candidates_closest [OF s] s by simp
qed
end
