(* ===== verification/Lifecycle.thy ===== *)
theory Lifecycle
  imports Hard_Interface Receive_Properties
begin

text \<open>
  How a mesh interface begins and how an interface of B.A.T.M.A.N. V ends: two paths through
  \<open>main.c\<close>, \<open>hard-interface.c\<close> and \<open>soft-interface.c\<close> that go wrong. The first part
  shows which operations leave network coding and the interfaces alone (\<open>core_view\<close>); the second that a
  failure of \<open>batadv_mesh_init\<close> always dereferences a null pointer while it cleans up; the third that
  with B.A.T.M.A.N. V an interface that was down once carries no traffic again and cannot be removed from
  the mesh. Lemmas on the comparison of neighbours of B.A.T.M.A.N. V and on the
  choice of the next link of a bond close the theory.
\<close>

section \<open>What tables and containers leave alone\<close>

named_theorems core_simps \<open>what leaves the interfaces and network coding alone\<close>

definition core_view :: "batadv_priv \<Rightarrow> batadv_priv_nc \<times> (nat \<Rightarrow> batadv_hard_iface) \<times> bool \<times> nat option \<times> nat list \<times> nat" where
  "core_view s = (bp_nc s, bp_hardifs s, bp_algo_iv s, bp_primary_if s, bp_hardif_list s, bp_soft_iface s)"

lemma core_fields [core_simps]:
  "core_view (s\<lparr>bp_allocs := x1\<rparr>) = core_view s" "bp_panic (s\<lparr>bp_allocs := x1\<rparr>) = bp_panic s"
  "core_view (s\<lparr>bp_rands := x2\<rparr>) = core_view s" "bp_panic (s\<lparr>bp_rands := x2\<rparr>) = bp_panic s"
  "core_view (s\<lparr>bp_panic := x3\<rparr>) = core_view s"
  "core_view (s\<lparr>bp_bla := x4\<rparr>) = core_view s" "bp_panic (s\<lparr>bp_bla := x4\<rparr>) = bp_panic s"
  "core_view (s\<lparr>bp_softif_vlan_list := x5\<rparr>) = core_view s" "bp_panic (s\<lparr>bp_softif_vlan_list := x5\<rparr>) = bp_panic s"
  "core_view (s\<lparr>bp_tvlv_containers := x6\<rparr>) = core_view s" "bp_panic (s\<lparr>bp_tvlv_containers := x6\<rparr>) = bp_panic s"
  "core_view (s\<lparr>bp_tvlv_handlers := x7\<rparr>) = core_view s" "bp_panic (s\<lparr>bp_tvlv_handlers := x7\<rparr>) = bp_panic s"
  "core_view (s\<lparr>bp_orig_hash := x8\<rparr>) = core_view s" "bp_panic (s\<lparr>bp_orig_hash := x8\<rparr>) = bp_panic s"
  "core_view (s\<lparr>bp_bat_v := x9\<rparr>) = core_view s" "bp_panic (s\<lparr>bp_bat_v := x9\<rparr>) = bp_panic s"
  "core_view (s\<lparr>bp_packet_size_max := y1\<rparr>) = core_view s" "core_view (s\<lparr>bp_mtu := y2\<rparr>) = core_view s"
  "core_view (orig_mod n f s) = core_view s" "bp_panic (orig_mod n f s) = bp_panic s"
  "core_view (call c s) = core_view s" "bp_panic (call c s) = bp_panic s"
  "core_view (tt_mod g s) = core_view s" "bp_panic (tt_mod g s) = bp_panic s"
  "core_view (dat_mod h s) = core_view s" "bp_panic (dat_mod h s) = bp_panic s"
  "core_view (gw_mod m s) = core_view s" "bp_panic (gw_mod m s) = bp_panic s"
  "core_view (mcast_mod q s) = core_view s" "bp_panic (mcast_mod q s) = bp_panic s"
  by (simp_all add: core_view_def orig_mod_def call_def tt_mod_def dat_mod_def gw_mod_def mcast_mod_def)

declare Let_def [core_simps] split_beta [core_simps]

lemma core_fold: "(\<And>x s. core_view (f x s) = core_view s) \<Longrightarrow> core_view (fold f xs s) = core_view s"
  by (induction xs arbitrary: s) simp_all

lemma panic_fold: "(\<And>x s. bp_panic (f x s) = bp_panic s) \<Longrightarrow> bp_panic (fold f xs s) = bp_panic s"
  by (induction xs arbitrary: s) simp_all

lemma core_kzalloc [core_simps]: "core_view (snd (kzalloc s)) = core_view s" "bp_panic (snd (kzalloc s)) = bp_panic s"
  by (simp_all add: core_simps kzalloc_eq split: if_split option.split)

lemma core_rand [core_simps]: "core_view (snd (prandom_u32 s)) = core_view s" "bp_panic (snd (prandom_u32 s)) = bp_panic s"
  by (simp_all add: core_simps prandom_u32_def split: if_split option.split list.split)

lemma core_local_mod [core_simps]: "core_view (tt_local_mod key f s) = core_view s" "bp_panic (tt_local_mod key f s) = bp_panic s"
  by (simp_all add: core_simps tt_local_mod_def split: if_split option.split)

lemma core_global_mod [core_simps]: "core_view (tt_global_mod key f s) = core_view s" "bp_panic (tt_global_mod key f s) = bp_panic s"
  by (simp_all add: core_simps tt_global_mod_def split: if_split option.split)

lemma core_vlan_mod [core_simps]: "core_view (softif_vlan_mod v f s) = core_view s" "bp_panic (softif_vlan_mod v f s) = bp_panic s"
  by (simp_all add: core_simps softif_vlan_mod_def split: if_split option.split)

lemma core_vlan_get [core_simps]: "core_view (snd (batadv_softif_vlan_get v s)) = core_view s" "bp_panic (snd (batadv_softif_vlan_get v s)) = bp_panic s"
  by (simp_all add: core_simps batadv_softif_vlan_get_def split: if_split option.split)

lemma core_vlan_put [core_simps]: "core_view (batadv_softif_vlan_put v s) = core_view s" "bp_panic (batadv_softif_vlan_put v s) = bp_panic s"
  by (simp_all add: core_simps batadv_softif_vlan_put_def split: if_split option.split)

lemma core_local_event [core_simps]: "core_view (batadv_tt_local_event k key fl s) = core_view s" "bp_panic (batadv_tt_local_event k key fl s) = bp_panic s"
  by (simp_all add: core_simps batadv_tt_local_event_def split: if_split option.split)

lemma core_set_pending [core_simps]: "core_view (batadv_tt_local_set_pending k key fl s) = core_view s" "bp_panic (batadv_tt_local_set_pending k key fl s) = bp_panic s"
  by (simp_all add: core_simps batadv_tt_local_set_pending_def split: if_split option.split)

lemma core_local_remove [core_simps]: "core_view (snd (batadv_tt_local_remove k a v r s)) = core_view s" "bp_panic (snd (batadv_tt_local_remove k a v r s)) = bp_panic s"
  by (simp_all add: core_simps batadv_tt_local_remove_def split: if_split option.split)

lemma core_vlan_release [core_simps]: "core_view (tt_vlan_release v s) = core_view s" "bp_panic (tt_vlan_release v s) = bp_panic s"
  by (simp_all add: core_simps tt_vlan_release_def split: if_split option.split)

lemma core_local_free [core_simps]: "core_view (batadv_tt_local_table_free s) = core_view s" "bp_panic (batadv_tt_local_table_free s) = bp_panic s"
  by (simp_all add: core_simps batadv_tt_local_table_free_def core_fold panic_fold split: if_split option.split)

lemma core_vlan_new [core_simps]: "core_view (snd (batadv_orig_node_vlan_new n v s)) = core_view s" "bp_panic (snd (batadv_orig_node_vlan_new n v s)) = bp_panic s"
  by (simp_all add: core_simps batadv_orig_node_vlan_new_def split: if_split option.split)

lemma core_size_mod [core_simps]: "core_view (batadv_tt_global_size_mod n v d s) = core_view s" "bp_panic (batadv_tt_global_size_mod n v d s) = bp_panic s"
  by (simp_all add: core_simps batadv_tt_global_size_mod_def split: if_split option.split)

lemma core_size_dec [core_simps]: "core_view (batadv_tt_global_size_dec n v s) = core_view s" "bp_panic (batadv_tt_global_size_dec n v s) = bp_panic s"
  by (simp_all add: core_simps batadv_tt_global_size_dec_def split: if_split option.split)

lemma core_del_entry [core_simps]: "core_view (do_tt_global_del_orig_entry key x s) = core_view s" "bp_panic (do_tt_global_del_orig_entry key x s) = bp_panic s"
  by (simp_all add: core_simps do_tt_global_del_orig_entry_def split: if_split option.split)

lemma core_del_node [core_simps]: "core_view (batadv_tt_global_del_orig_node k key n s) = core_view s" "bp_panic (batadv_tt_global_del_orig_node k key n s) = bp_panic s"
  by (simp_all add: core_simps batadv_tt_global_del_orig_node_def core_fold panic_fold split: if_split option.split)

lemma core_del_step [core_simps]: "core_view (tt_global_del_orig_step k n v e s) = core_view s" "bp_panic (tt_global_del_orig_step k n v e s) = bp_panic s"
  by (simp_all add: core_simps tt_global_del_orig_step_def split: if_split option.split)

lemma core_del_orig [core_simps]: "core_view (batadv_tt_global_del_orig k n v s) = core_view s" "bp_panic (batadv_tt_global_del_orig k n v s) = bp_panic s"
  by (simp_all add: core_simps batadv_tt_global_del_orig_def core_fold panic_fold split: if_split option.split)

lemma core_release [core_simps]: "core_view (tt_global_release e s) = core_view s" "bp_panic (tt_global_release e s) = bp_panic s"
  by (simp_all add: core_simps tt_global_release_def core_fold panic_fold split: if_split option.split)

lemma core_global_free [core_simps]: "core_view (batadv_tt_global_table_free s) = core_view s" "bp_panic (batadv_tt_global_table_free s) = bp_panic s"
  by (simp_all add: core_simps batadv_tt_global_table_free_def core_fold panic_fold split: if_split option.split)

lemma core_bla_forget [core_simps]: "core_view (bla_forget k d s) = core_view s" "bp_panic (bla_forget k d s) = bp_panic s"
  by (simp_all add: core_simps bla_forget_def split: if_split option.split)

lemma core_bla_run [core_simps]: "core_view (snd (bla_run k f s)) = core_view s" "bp_panic (snd (bla_run k f s)) = bp_panic s"
  by (simp_all add: core_simps bla_run_def core_fold panic_fold split: if_split option.split)

lemma core_remove [core_simps]: "core_view (batadv_tvlv_container_remove c s) = core_view s" "bp_panic (batadv_tvlv_container_remove c s) = bp_panic s"
  by (simp_all add: core_simps batadv_tvlv_container_remove_def split: if_split option.split)

lemma core_register [core_simps]: "core_view (batadv_tvlv_container_register t v b l s) = core_view s" "bp_panic (batadv_tvlv_container_register t v b l s) = bp_panic s"
  by (simp_all add: core_simps batadv_tvlv_container_register_def split: if_split option.split)

lemma core_unregister [core_simps]: "core_view (batadv_tvlv_container_unregister t v s) = core_view s" "bp_panic (batadv_tvlv_container_unregister t v s) = bp_panic s"
  by (simp_all add: core_simps batadv_tvlv_container_unregister_def split: if_split option.split)

lemma core_handler [core_simps]: "core_view (batadv_tvlv_handler_register p q t v f s) = core_view s" "bp_panic (batadv_tvlv_handler_register p q t v f s) = bp_panic s"
  by (simp_all add: core_simps batadv_tvlv_handler_register_def split: if_split option.split)

lemma core_no_handler [core_simps]: "core_view (batadv_tvlv_handler_unregister t v s) = core_view s" "bp_panic (batadv_tvlv_handler_unregister t v s) = bp_panic s"
  by (simp_all add: core_simps batadv_tvlv_handler_unregister_def split: if_split option.split)

lemma core_dat_update [core_simps]: "core_view (batadv_dat_tvlv_container_update s) = core_view s" "bp_panic (batadv_dat_tvlv_container_update s) = bp_panic s"
  by (simp_all add: core_simps batadv_dat_tvlv_container_update_def split: if_split option.split)

lemma core_dat_purge [core_simps]: "core_view (do_dat_purge p s) = core_view s" "bp_panic (do_dat_purge p s) = bp_panic s"
  by (simp_all add: core_simps do_dat_purge_def split: if_split option.split)

lemma core_dat_hash_free [core_simps]: "core_view (batadv_dat_hash_free s) = core_view s" "bp_panic (batadv_dat_hash_free s) = bp_panic s"
  by (simp_all add: core_simps batadv_dat_hash_free_def split: if_split option.split)

lemma core_dat_free [core_simps]: "core_view (batadv_dat_free s) = core_view s" "bp_panic (batadv_dat_free s) = bp_panic s"
  by (simp_all add: core_simps batadv_dat_free_def split: if_split option.split)

lemma core_mcast_retract [core_simps]: "core_view (batadv_mcast_mla_tt_retract k l s) = core_view s" "bp_panic (batadv_mcast_mla_tt_retract k l s) = bp_panic s"
  by (simp_all add: core_simps batadv_mcast_mla_tt_retract_def core_fold panic_fold split: if_split option.split)

lemma core_mcast_free [core_simps]: "core_view (batadv_mcast_free k s) = core_view s" "bp_panic (batadv_mcast_free k s) = bp_panic s"
  by (simp_all add: core_simps batadv_mcast_free_def split: if_split option.split)

lemma core_tt_free [core_simps]: "core_view (batadv_tt_free s) = core_view s" "bp_panic (batadv_tt_free s) = bp_panic s"
  by (simp_all add: core_simps batadv_tt_free_def batadv_tt_req_list_free_def batadv_tt_changes_list_free_def batadv_tt_roam_list_free_def split: if_split option.split)

lemma core_originator_free [core_simps]: "core_view (batadv_originator_free s) = core_view s" "bp_panic (batadv_originator_free s) = bp_panic s"
  by (simp_all add: core_simps batadv_originator_free_def split: if_split option.split)

lemma core_gw_free [core_simps]: "core_view (batadv_gw_free s) = core_view s" "bp_panic (batadv_gw_free s) = bp_panic s"
  by (simp_all add: core_simps batadv_gw_free_def split: if_split option.split)

lemma core_v_init [core_simps]: "core_view (snd (batadv_v_mesh_init s)) = core_view s" "bp_panic (snd (batadv_v_mesh_init s)) = bp_panic s"
  by (simp_all add: core_simps batadv_v_mesh_init_def batadv_v_ogm_init_def split: if_split option.split)

lemma core_originator_init [core_simps]: "core_view (snd (batadv_originator_init s)) = core_view s" "bp_panic (snd (batadv_originator_init s)) = bp_panic s"
  by (simp_all add: core_simps batadv_originator_init_def split: if_split option.split)

lemma core_local_init [core_simps]: "core_view (snd (batadv_tt_local_init s)) = core_view s" "bp_panic (snd (batadv_tt_local_init s)) = bp_panic s"
  by (simp_all add: core_simps batadv_tt_local_init_def split: if_split option.split)

lemma core_global_init [core_simps]: "core_view (snd (batadv_tt_global_init s)) = core_view s" "bp_panic (snd (batadv_tt_global_init s)) = bp_panic s"
  by (simp_all add: core_simps batadv_tt_global_init_def split: if_split option.split)

lemma core_tt_init [core_simps]: "core_view (snd (batadv_tt_init s)) = core_view s" "bp_panic (snd (batadv_tt_init s)) = bp_panic s"
  by (simp_all add: core_simps batadv_tt_init_def split: if_split option.split)

lemma core_bla_init [core_simps]: "core_view (snd (batadv_bla_init_on k s)) = core_view s" "bp_panic (snd (batadv_bla_init_on k s)) = bp_panic s"
  by (simp_all add: core_simps batadv_bla_init_on_def split: if_split option.split)

lemma core_dat_init [core_simps]: "core_view (snd (batadv_dat_init s)) = core_view s" "bp_panic (snd (batadv_dat_init s)) = bp_panic s"
  by (simp_all add: core_simps batadv_dat_init_def split: if_split option.split)

lemma core_tt_purge_entry [core_simps]: "core_view (tt_local_purge_entry k t e s) = core_view s"
  by (simp add: core_simps tt_local_purge_entry_def split: if_split option.split)

lemma core_tt_purge [core_simps]: "core_view (batadv_tt_local_purge k t s) = core_view s"
  by (simp add: core_simps batadv_tt_local_purge_def core_fold split: if_split option.split)

lemma core_tt_size [core_simps]: "core_view (batadv_tt_local_size_mod v d s) = core_view s"
  by (simp add: core_simps batadv_tt_local_size_mod_def split: if_split option.split)

lemma core_size_incd [core_simps]: "core_view (batadv_tt_local_size_inc v s) = core_view s"
  by (simp add: core_simps batadv_tt_local_size_inc_def split: if_split option.split)

lemma core_size_decd [core_simps]: "core_view (batadv_tt_local_size_dec v s) = core_view s"
  by (simp add: core_simps batadv_tt_local_size_dec_def split: if_split option.split)

lemma core_pending_entry [core_simps]: "core_view (tt_purge_pending_entry e s) = core_view s"
  by (simp add: core_simps tt_purge_pending_entry_def split: if_split option.split)

lemma core_pending [core_simps]: "core_view (batadv_tt_local_purge_pending_clients s) = core_view s"
  by (simp add: core_simps batadv_tt_local_purge_pending_clients_def core_fold split: if_split option.split)

lemma core_set_entry [core_simps]: "core_view (tt_local_set_flags_entry f a b e s) = core_view s"
  by (simp add: core_simps tt_local_set_flags_entry_def split: if_split option.split)

lemma core_set_flags [core_simps]: "core_view (batadv_tt_local_set_flags f a b s) = core_view s"
  by (simp add: core_simps batadv_tt_local_set_flags_def core_fold split: if_split option.split)

lemma core_crc [core_simps]: "core_view (batadv_tt_local_update_crc k s) = core_view s"
  by (simp add: core_simps batadv_tt_local_update_crc_def split: if_split option.split)

lemma core_prepare [core_simps]: "core_view (snd (snd (snd (tt_prepare a b c d s)))) = core_view s"
  by (simp add: core_simps tt_prepare_def split: if_split option.split)

lemma core_prepare_local [core_simps]: "core_view (snd (snd (snd (batadv_tt_prepare_tvlv_local_data l s)))) = core_view s"
  by (simp add: core_simps batadv_tt_prepare_tvlv_local_data_def split: if_split option.split)

lemma core_take [core_simps]: "core_view (snd (tt_take_changes n l s)) = core_view s"
  by (simp add: core_simps tt_take_changes_def split: if_split option.split)

lemma core_message [core_simps]: "core_view (snd (tt_message n d v b s)) = core_view s"
  by (simp add: core_simps tt_message_def split: if_split option.split)

lemma core_container [core_simps]: "core_view (batadv_tt_tvlv_container_update s) = core_view s"
  by (simp add: core_simps batadv_tt_tvlv_container_update_def split: if_split option.split)


section \<open>A mesh interface that cannot be set up\<close>

lemma mesh_free_panics:
  assumes "nc_decoding_hash (bp_nc s) = None"
  shows "bp_panic (batadv_mesh_free k s)"
proof -
  let ?s = "batadv_v_mesh_free (batadv_gw_node_free (batadv_purge_outstanding_packets None (s\<lparr>bp_mesh_state := BATADV_MESH_DEACTIVATING\<rparr>)))"
  let ?c = "batadv_nc_purge_paths Coding_Pool None (batadv_tvlv_handler_unregister BATADV_TVLV_NC 1
      (batadv_tvlv_container_unregister BATADV_TVLV_NC 1 ?s))"
  have "nc_decoding_hash (bp_nc ?s) = None"
    using assms by (simp add: batadv_v_mesh_free_def batadv_v_ogm_free_def batadv_gw_node_free_def gw_mod_def batadv_purge_outstanding_packets_def)
  moreover have nc: "bp_nc (batadv_tvlv_handler_unregister t v s) = bp_nc s" "bp_nc (batadv_tvlv_container_unregister t v s) = bp_nc s" for t v s
    using core_no_handler(1) [of t v s] core_unregister(1) [of t v s] by (simp_all add: core_view_def)
  ultimately have "nc_decoding_hash (bp_nc ?c) = None"
    by (auto simp: batadv_nc_purge_paths_def nc_hash_put_def nc_mod_def nc split: option.split)
  then have "bp_panic (batadv_nc_mesh_free ?s)"
    by (simp add: batadv_nc_mesh_free_def batadv_nc_purge_paths_def [of Decoding_Pool] nc_hash_def Let_def)
  then show ?thesis
    by (simp add: batadv_mesh_free_def core_simps)
qed

lemma init_all_nc:
  assumes "\<forall>f \<in> set fs. \<forall>s. bp_nc (snd (f s)) = bp_nc s"
  shows "bp_nc (snd (init_all fs s)) = bp_nc s"
  using assms by (induction fs arbitrary: s) (auto simp: split_beta Let_def)

lemma init_all_append:
  "init_all (fs @ gs) s = (let (ret, s') = init_all fs s in if ret < 0 then (ret, s') else init_all gs s')"
  by (induction fs arbitrary: s) (auto simp: split_beta Let_def)

lemma init_all_one: "init_all [g] s = (if fst (g s) < 0 then g s else (0, snd (g s)))"
  by (auto simp: split_beta Let_def)

lemma nc_init_fails:
  "nc_decoding_hash (bp_nc s) = None \<Longrightarrow> fst (batadv_nc_mesh_init k s) < 0 \<Longrightarrow>
   nc_decoding_hash (bp_nc (snd (batadv_nc_mesh_init k s))) = None"
  by (auto simp: batadv_nc_mesh_init_def kzalloc_eq nc_mod_def nc_hash_put_def batadv_hash_new_def Let_def split: if_splits list.splits)

text \<open>C38: A mesh interface whose set-up fails crashes the kernel: whichever part of
  \<open>batadv_mesh_init\<close> reports a failure, its clean-up reaches \<open>batadv_nc_purge_paths\<close> with the table of
  decoding paths that was never allocated, and dereferences the null pointer.\<close>

theorem mesh_init_failure_panics:
  assumes "nc_coding_hash (bp_nc s) = None" "nc_decoding_hash (bp_nc s) = None"
    and "fst (batadv_mesh_init k s) < 0"
  shows "bp_panic (snd (batadv_mesh_init k s))"
proof -
  let ?fs = "[batadv_v_mesh_init, batadv_originator_init, batadv_tt_init, batadv_bla_init_on k, batadv_dat_init]"
  let ?r = "init_all (?fs @ [batadv_nc_mesh_init k]) (mesh_lists_init s)"
  have c: "core_view t = core_view u \<Longrightarrow> bp_nc t = bp_nc u" for t u by (simp add: core_view_def)
  have "bp_nc (snd (init_all ?fs t)) = bp_nc t" for t
    by (rule init_all_nc) (auto intro!: c simp: core_simps)
  then have n: "nc_decoding_hash (bp_nc (snd (init_all ?fs (mesh_lists_init s)))) = None"
    using assms(2) by (simp add: mesh_lists_init_def del: init_all.simps)
  have i: "batadv_mesh_init k s = (if fst ?r < 0 then (fst ?r, batadv_mesh_free k (snd ?r))
      else (let s = batadv_mcast_init (batadv_gw_init (snd ?r))
            in (0, (gw_mod (\<lambda>gw. gw\<lparr>gw_reselect := False\<rparr>) s)\<lparr>bp_mesh_state := BATADV_MESH_ACTIVE\<rparr>)))"
    by (simp only: batadv_mesh_init_def append.simps split_beta Let_def)
  then have f: "fst ?r < 0" using assms(3) by (auto simp: Let_def split: if_splits)
  define A where "A = init_all ?fs (mesh_lists_init s)"
  have "?r = (if fst A < 0 then A else if fst (batadv_nc_mesh_init k (snd A)) < 0 then batadv_nc_mesh_init k (snd A)
      else (0, snd (batadv_nc_mesh_init k (snd A))))"
    by (simp only: init_all_append init_all_one split_beta Let_def prod.collapse A_def)
  then have "nc_decoding_hash (bp_nc (snd ?r)) = None"
    using f n [folded A_def] nc_init_fails [OF n [folded A_def], of k] by (simp split: if_splits del: init_all.simps append.simps)
  then show ?thesis using mesh_free_panics f by (simp only: i if_True snd_conv)
qed

definition mesh_fails_example :: batadv_priv where
  "mesh_fails_example = (tvlv_example [] [])\<lparr>bp_allocs := [False]\<rparr>"

theorem mesh_init_failure_panics_witness:
  "bp_panic (snd (batadv_mesh_init kenv_example mesh_fails_example))"
proof (rule mesh_init_failure_panics)
  show "nc_coding_hash (bp_nc mesh_fails_example) = None" "nc_decoding_hash (bp_nc mesh_fails_example) = None"
    by (simp_all add: mesh_fails_example_def tvlv_example_def)
  have "fst (batadv_v_mesh_init (mesh_lists_init mesh_fails_example)) = - 12"
    by (simp add: batadv_v_mesh_init_def batadv_v_ogm_init_def kzalloc_eq mesh_lists_init_def mesh_fails_example_def Let_def)
  then show "fst (batadv_mesh_init kenv_example mesh_fails_example) < 0"
    by (simp add: batadv_mesh_init_def split_beta Let_def)
qed

section \<open>An interface of B.A.T.M.A.N. V that goes down\<close>

lemma core_resize_loop: "tt_resize_loop fuel k m t b s = Some (r, s') \<Longrightarrow> core_view s' = core_view s"
  by (induction fuel arbitrary: t b s) (auto simp: core_simps split: if_splits)

lemma core_commit:
  assumes "\<And>s. core_view (mla_update s) = core_view s"
  shows "core_view (batadv_tt_local_commit_changes_nolock k mla_update s) = core_view s"
  by (simp add: batadv_tt_local_commit_changes_nolock_def core_simps assms)

lemma core_min_mtu:
  assumes "\<And>s. core_view (mla_update s) = core_view s" and "batadv_update_min_mtu fuel k mla_update s = Some s'"
  shows "core_view s' = core_view s"
  using assms(2)
  by (auto simp: batadv_update_min_mtu_def batadv_hardif_min_mtu_def batadv_tt_local_resize_to_mtu_def core_simps
      core_commit [OF assms(1)] dest!: core_resize_loop split: option.splits if_splits)

text \<open>C39: With B.A.T.M.A.N. V an active interface whose device goes down and comes up again ends up in the state that
  waits for activation, if both events are handled, that is the loop that fits the client table to the MTU ends.
  In that state it drops every frame to send, drops every frame it receives, removing it from the mesh succeeds
  without any effect, and that the device comes up once more changes nothing. (With B.A.T.M.A.N. IV the next schedule of the
  OGM activates the interface; nothing in B.A.T.M.A.N. V does.)\<close>

theorem v_interface_not_reactivated:
  assumes "\<not> bp_algo_iv s" and "i \<in> set (bp_hardif_list s)" and "hi_if_status (hardif_of s i) = BATADV_IF_ACTIVE"
    and "bp_primary_if s \<noteq> None" and "hi_soft_iface (hardif_of s i) = Some (bp_soft_iface s)"
    and "\<forall>s. core_view (mla_update s) = core_view s"
    and "batadv_hard_if_event fuel k mla_update None add_interface NETDEV_DOWN i s = Some s1"
    and "batadv_hard_if_event fuel k mla_update None add_interface NETDEV_UP i s1 = Some s2"
  shows "hi_if_status (hardif_of s2 i) = BATADV_IF_TO_BE_ACTIVATED \<and>
    batadv_send_skb_packet k skb i a s2 = (NET_XMIT_DROP, s2) \<and>
    map_option fst (batadv_batman_skb_recv (Suc f) k oob skb i s2) = Some NET_RX_DROP \<and>
    batadv_softif_slave_del fuel k mla_update i s2 = Some (0, s2) \<and>
    batadv_hard_if_event fuel k mla_update None add_interface NETDEV_UP i s2 = Some s2"
proof -
  have mla: "core_view (mla_update s) = core_view s" for s using assms(6) by blast
  have "batadv_update_min_mtu fuel k mla_update (if_status_set BATADV_IF_INACTIVE i s) = Some s1"
    using assms(2,3,7) by (simp add: batadv_hard_if_event_def batadv_hardif_deactivate_interface_def Let_def)
  from core_min_mtu [OF mla this]
  have 1: "hi_if_status (hardif_of s1 i) = BATADV_IF_INACTIVE" "i \<in> set (bp_hardif_list s1)" "\<not> bp_algo_iv s1"
    "bp_primary_if s1 \<noteq> None" "hi_soft_iface (hardif_of s1 i) = Some (bp_soft_iface s1)"
    using assms(1-5) by (auto simp: core_view_def if_status_set_def hardif_mod_def)
  have "batadv_update_min_mtu fuel k mla_update (if_status_set BATADV_IF_TO_BE_ACTIVATED i s1) = Some s2"
    using 1 assms(8) by (auto simp: batadv_hard_if_event_def batadv_hardif_activate_interface_def Let_def bat_iface_update_mac_def
        if_status_set_def hardif_mod_def)
  from core_min_mtu [OF mla this]
  have 2: "hi_if_status (hardif_of s2 i) = BATADV_IF_TO_BE_ACTIVATED" "i \<in> set (bp_hardif_list s2)"
    "hi_soft_iface (hardif_of s2 i) = Some (bp_soft_iface s2)"
    using 1 by (auto simp: core_view_def if_status_set_def hardif_mod_def)
  have "hardif_of (snd (kzalloc s2)) = hardif_of s2" using core_kzalloc(1) [of s2] by (simp add: core_view_def)
  then have "map_option fst (batadv_batman_skb_recv (Suc f) k oob skb i s2) = Some NET_RX_DROP"
    using 2 by (simp add: split_beta Let_def)
  moreover have "batadv_hardif_disable_interface fuel k mla_update False i s2 = Some (False, s2)"
    using 2 by (simp add: batadv_hardif_disable_interface_def)
  moreover have "batadv_hard_if_event fuel k mla_update None add_interface NETDEV_UP i s2 = Some s2"
    using 2 by (simp add: batadv_hard_if_event_def batadv_hardif_activate_interface_def)
  ultimately show ?thesis
    using 2 by (simp add: batadv_send_skb_packet_def batadv_softif_slave_del_def)
qed

definition v_example :: batadv_priv where
  "v_example = (tvlv_example [] [])\<lparr>bp_algo_iv := False, bp_hardif_list := [0], bp_primary_if := Some 1\<rparr>"

lemma v_example_resize:
  assumes "bp_softif_vlan_list s = []" "bp_hardif_list s = [0]" "bp_fragmentation s" "hi_mtu (hardif_of s 0) = 1532"
  shows "\<exists>s'. batadv_update_min_mtu 1 k id s = Some s' \<and> bp_softif_vlan_list s' = [] \<and> bp_hardif_list s' = [0] \<and>
    bp_fragmentation s' \<and> bp_hardifs s' = bp_hardifs s \<and> bp_primary_if s' = bp_primary_if s \<and> bp_algo_iv s' = bp_algo_iv s"
  using assms
  by (simp add: batadv_update_min_mtu_def batadv_hardif_min_mtu_def batadv_tt_local_resize_to_mtu_def
      batadv_tt_local_table_transmit_size_def tt_num_entries_def batadv_tt_len_def)

theorem v_interface_not_reactivated_witness:
  "\<exists>s1 s2. batadv_hard_if_event 1 kenv_example id None (Pair False) NETDEV_DOWN 0 v_example = Some s1 \<and>
     batadv_hard_if_event 1 kenv_example id None (Pair False) NETDEV_UP 0 s1 = Some s2 \<and>
     hi_if_status (hardif_of s2 0) = BATADV_IF_TO_BE_ACTIVATED"
proof -
  have v: "bp_softif_vlan_list v_example = []" "bp_hardif_list v_example = [0]" "bp_fragmentation v_example"
    "hi_mtu (hardif_of v_example 0) = 1532" "hi_if_status (hardif_of v_example 0) = BATADV_IF_ACTIVE"
    "bp_primary_if v_example = Some 1" "\<not> bp_algo_iv v_example" "hi_soft_iface (hardif_of v_example 0) = Some (bp_soft_iface v_example)"
    by (simp_all add: v_example_def tvlv_example_def)
  let ?t = "if_status_set BATADV_IF_INACTIVE 0 v_example"
  have "\<exists>s'. batadv_update_min_mtu 1 kenv_example id ?t = Some s' \<and> bp_softif_vlan_list s' = [] \<and> bp_hardif_list s' = [0] \<and>
    bp_fragmentation s' \<and> bp_hardifs s' = bp_hardifs ?t \<and> bp_primary_if s' = bp_primary_if ?t \<and> bp_algo_iv s' = bp_algo_iv ?t"
    by (rule v_example_resize) (use v in \<open>simp_all add: if_status_set_def hardif_mod_def\<close>)
  then obtain s1 where 1: "batadv_update_min_mtu 1 kenv_example id ?t = Some s1" "bp_softif_vlan_list s1 = []"
    "bp_hardif_list s1 = [0]" "bp_fragmentation s1" "bp_hardifs s1 = bp_hardifs ?t" "bp_primary_if s1 = Some 1" "\<not> bp_algo_iv s1"
    using v by (auto simp: if_status_set_def hardif_mod_def)
  have down: "batadv_hard_if_event 1 kenv_example id None (Pair False) NETDEV_DOWN 0 v_example = Some s1"
    using v 1(1) by (simp add: batadv_hard_if_event_def batadv_hardif_deactivate_interface_def Let_def)
  let ?u = "if_status_set BATADV_IF_TO_BE_ACTIVATED 0 s1"
  have "\<exists>s'. batadv_update_min_mtu 1 kenv_example id ?u = Some s' \<and> bp_softif_vlan_list s' = [] \<and> bp_hardif_list s' = [0] \<and>
    bp_fragmentation s' \<and> bp_hardifs s' = bp_hardifs ?u \<and> bp_primary_if s' = bp_primary_if ?u \<and> bp_algo_iv s' = bp_algo_iv ?u"
    by (rule v_example_resize) (use v 1 in \<open>simp_all add: if_status_set_def hardif_mod_def\<close>)
  then obtain s2 where 2: "batadv_update_min_mtu 1 kenv_example id ?u = Some s2" by blast
  have up: "batadv_hard_if_event 1 kenv_example id None (Pair False) NETDEV_UP 0 s1 = Some s2"
    using 1 2 by (simp add: batadv_hard_if_event_def batadv_hardif_activate_interface_def bat_iface_update_mac_def
        if_status_set_def hardif_mod_def Let_def)
  from v_interface_not_reactivated [OF v(7) _ v(5) _ v(8) _ down up, THEN conjunct1] up down v
  show ?thesis by auto
qed

section \<open>The handlers and the steps of B.A.T.M.A.N. IV\<close>

text \<open>
  The steps of \<open>Iv_System\<close> in which an interface joins and leaves are what the handlers of \<open>hard-interface.c\<close> do
  to the state of the algorithm: the rest of the handlers comes before or after them.
\<close>

lemma iv_add_if_algo: "bp_algo_iv (snd (batadv_iv_ogm_orig_add_if junk n m s)) = bp_algo_iv s"
  by (auto simp: batadv_iv_ogm_orig_add_if_def kzalloc_eq orig_mod_def Let_def split: prod.split)

lemma iv_del_if_algo:
  "bp_algo_iv (snd (batadv_iv_ogm_orig_del_if n m d s)) = bp_algo_iv s"
  "bp_primary_if (snd (batadv_iv_ogm_orig_del_if n m d s)) = bp_primary_if s"
  by (auto simp: batadv_iv_ogm_orig_del_if_def kzalloc_eq orig_mod_def Let_def split: prod.split)

lemma walk_under:
  assumes "\<And>n s. P s \<Longrightarrow> f n s = g n s \<and> P (snd (g n s))"
  shows "P s \<Longrightarrow> orig_hash_walk f ns s = orig_hash_walk g ns s"
proof (induction ns arbitrary: s)
  case (Cons n ns)
  then show ?case
    using assms [OF Cons.prems, of "snd n"] by (auto simp: Let_def split: prod.splits)
qed simp

lemma add_if_iv:
  assumes "bp_algo_iv s"
  shows "batadv_orig_hash_add_if (bat_orig_add_if junk) m s = batadv_orig_hash_add_if (batadv_iv_ogm_orig_add_if junk) m s"
  unfolding batadv_orig_hash_add_if_def
  by (subst walk_under [where P = bp_algo_iv, OF _ assms]) (auto simp: bat_orig_add_if_def iv_add_if_algo)

lemma del_if_iv:
  assumes "bp_algo_iv s"
  shows "batadv_orig_hash_del_if bat_orig_del_if i m s = batadv_orig_hash_del_if batadv_iv_ogm_orig_del_if i m s"
  unfolding batadv_orig_hash_del_if_def Let_def
  by (subst walk_under [where P = bp_algo_iv, OF _ assms]) (auto simp: bat_orig_del_if_def iv_del_if_algo)

lemma walk_kept:
  assumes "\<And>n s. v (snd (f n s)) = v s"
  shows "v (snd (orig_hash_walk f ns s)) = v s"
proof (induction ns arbitrary: s)
  case (Cons n ns)
  then show ?case using assms [of "snd n" s] by (auto simp: Let_def split: prod.splits)
qed simp

lemma fold_kept: "(\<And>x s. v (f x s) = v s) \<Longrightarrow> v (fold f xs s) = v s"
  by (induction xs arbitrary: s) simp_all

lemma del_if_kept:
  "bp_algo_iv (snd (batadv_orig_hash_del_if batadv_iv_ogm_orig_del_if i m s)) = bp_algo_iv s"
  "bp_primary_if (snd (batadv_orig_hash_del_if batadv_iv_ogm_orig_del_if i m s)) = bp_primary_if s"
proof -
  obtain ok t where w: "orig_hash_walk (\<lambda>o'. batadv_iv_ogm_orig_del_if o' m (hi_if_num (hardif_of s i))) (bp_table s) s = (ok, t)"
    by fastforce
  have t: "bp_algo_iv t = bp_algo_iv s" "bp_primary_if t = bp_primary_if s"
    using walk_kept [of bp_algo_iv "\<lambda>o'. batadv_iv_ogm_orig_del_if o' m (hi_if_num (hardif_of s i))"]
      walk_kept [of bp_primary_if "\<lambda>o'. batadv_iv_ogm_orig_del_if o' m (hi_if_num (hardif_of s i))"] w
    by (metis iv_del_if_algo snd_conv)+
  have f: "(bp_algo_iv (fold (\<lambda>x s. if P x s then hardif_mod x g s else s) xs t),
      bp_primary_if (fold (\<lambda>x s. if P x s then hardif_mod x g s else s) xs t)) = (bp_algo_iv t, bp_primary_if t)" for P g xs
    by (rule fold_kept [where v = "\<lambda>s. (bp_algo_iv s, bp_primary_if s)"]) (simp add: hardif_mod_def)
  have h: "bp_algo_iv (hardif_mod x g s) = bp_algo_iv s" "bp_primary_if (hardif_mod x g s) = bp_primary_if s" for x g s
    by (simp_all add: hardif_mod_def)
  show "bp_algo_iv (snd (batadv_orig_hash_del_if batadv_iv_ogm_orig_del_if i m s)) = bp_algo_iv s"
    "bp_primary_if (snd (batadv_orig_hash_del_if batadv_iv_ogm_orig_del_if i m s)) = bp_primary_if s"
    unfolding batadv_orig_hash_del_if_def Let_def w using t f by (simp_all add: h)
qed

lemma enable_joins:
  assumes "hi_if_status (hardif_of s i) = BATADV_IF_NOT_IN_USE" "hi_alive (hardif_of s i)"
    and "en_softif_valid en" "en_unslave en = 0" "en_link en = 0" "bp_algo_iv s"
    and "iv_joins (en_mem en) (en_junk en) i s = (0, t)"
  shows "batadv_hardif_enable_interface fuel k mla_update en i s =
    map_option (\<lambda>s. (0, batadv_schedule_bat_ogm k i s))
      (if hi_up (hardif_of t i) then batadv_hardif_activate_interface fuel k mla_update i t else Some t)"
proof -
  let ?s0 = "hardif_mod i (\<lambda>h. h\<lparr>hi_soft_iface := Some (bp_soft_iface s)\<rparr>) s"
  obtain ret s1 where e: "batadv_iv_ogm_iface_enable (en_mem en) i ?s0 = (ret, s1)" by fastforce
  have ret: "\<not> ret < 0" using assms(7) e by (auto simp: iv_joins_def Let_def)
  have "bp_algo_iv s1"
    using e assms(6) by (auto simp: batadv_iv_ogm_iface_enable_def kzalloc_eq prandom_u32_def hardif_mod_def ogm_buff_mod_def Let_def
        split: if_splits list.splits)
  then have a: "bp_algo_iv (hardif_mod i f ((hardif_mod i g s1)\<lparr>bp_num_ifaces := n\<rparr>))" for f g n
    by (simp add: hardif_mod_def)
  have "bp_algo_iv ?s0" using assms(6) by (simp add: hardif_mod_def)
  then show ?thesis
    using assms ret e add_if_iv [OF a]
    by (simp add: batadv_hardif_enable_interface_def soft_iface_set_def if_status_set_def bat_iface_enable_def iv_joins_def
        Let_def)
qed

lemma disable_leaves:
  assumes "hi_if_status (hardif_of s i) = BATADV_IF_INACTIVE" "bp_algo_iv s" "bp_primary_if s \<noteq> Some i"
  shows "\<exists>last t. batadv_hardif_disable_interface fuel k mla_update autodel i s = Some (last, t) \<and>
    iv_frame (iv_leaves k bat_neigh_cmp (bp_primary_if s) i s) t"
proof -
  let ?s0 = "s\<lparr>bp_num_ifaces := bp_num_ifaces s - 1\<rparr>"
  let ?u = "snd (batadv_orig_hash_del_if batadv_iv_ogm_orig_del_if i (int (bp_num_ifaces s - 1)) ?s0)"
  let ?w = "batadv_purge_outstanding_packets (Some i) (batadv_purge_orig k bat_neigh_cmp
    (hardif_mod i (\<lambda>h. h\<lparr>hi_if_status := BATADV_IF_NOT_IN_USE\<rparr>) (batadv_iv_ogm_iface_disable i ?u)))"
  have a: "bp_algo_iv (s\<lparr>bp_num_ifaces := n\<rparr>)" for n using assms(2) by simp
  have u: "bp_algo_iv ?u" "bp_primary_if ?u = bp_primary_if s"
    using assms(2) by (simp_all add: del_if_kept)
  have m: "bp_num_ifaces (s\<lparr>bp_num_ifaces := x\<rparr>) = x" for x by simp
  have p: "?u\<lparr>bp_primary_if := bp_primary_if s\<rparr> = ?u" unfolding u(2) [symmetric] by simp
  have l: "iv_leaves k bat_neigh_cmp (bp_primary_if s) i s = hardif_mod i (\<lambda>h. h\<lparr>hi_soft_iface := None\<rparr>) ?w"
    unfolding iv_leaves_def Let_def m p ..
  have g: "iv_frame (hardif_mod i f w) (hardif_mod i f (batadv_gw_check_client_stop w))" for f w
    by (simp add: iv_frame_def batadv_gw_check_client_stop_def batadv_gw_select_def gw_mod_def call_def hardif_mod_def)
  have "batadv_hardif_disable_interface fuel k mla_update autodel i s =
    Some (bp_num_ifaces ?w = 0 \<and> autodel, hardif_mod i (\<lambda>h. h\<lparr>hi_soft_iface := None\<rparr>)
      (if bp_num_ifaces ?w = 0 then batadv_gw_check_client_stop ?w else ?w))"
    using assms(1,3) u
    by (simp add: batadv_hardif_disable_interface_def del_if_iv [OF a] bat_iface_disable_def if_status_set_def soft_iface_set_def
        Let_def)
  moreover have "iv_frame w w" for w by (simp add: iv_frame_def)
  ultimately show ?thesis unfolding l using g by (simp split: if_split)
qed

section \<open>Similar or better in B.A.T.M.A.N. V\<close>

text \<open>
  The callback is documented as: is the first neighbour similar to or better than the second? The code answers
  the question with the roles exchanged: a first neighbour of less than half the throughput passes, one of more
  than twice the throughput does not.
\<close>

lemma v_sob_exchanged:
  assumes "batadv_neigh_ifinfo_get s n1 i1 = Some f1" "batadv_neigh_ifinfo_get s n2 i2 = Some f2"
  shows "2 * unat (ni_throughput f1) \<le> unat (ni_throughput f2) \<Longrightarrow> 0 < ni_throughput f2 \<Longrightarrow>
      batadv_v_neigh_is_sob s n1 i1 n2 i2 = Some True"
    "2 * unat (ni_throughput f2) \<le> unat (ni_throughput f1) \<Longrightarrow> 0 < ni_throughput f1 \<Longrightarrow>
      batadv_v_neigh_is_sob s n1 i1 n2 i2 = Some False"
proof -
  have u: "unat (t - t div 4) = unat t - unat t div 4" for t :: u32
    by (subst unat_sub) (simp_all add: word_le_nat_alt unat_div)
  note sob = batadv_v_neigh_is_sob_def assms word_less_nat_alt u
  show "2 * unat (ni_throughput f1) \<le> unat (ni_throughput f2) \<Longrightarrow> 0 < ni_throughput f2 \<Longrightarrow>
      batadv_v_neigh_is_sob s n1 i1 n2 i2 = Some True"
    by (simp add: sob)
  show "2 * unat (ni_throughput f2) \<le> unat (ni_throughput f1) \<Longrightarrow> 0 < ni_throughput f1 \<Longrightarrow>
      batadv_v_neigh_is_sob s n1 i1 n2 i2 = Some False"
    by (simp add: sob)
qed

section \<open>The next link of a bond\<close>

text \<open>
  The comment in \<open>batadv_find_router\<close> promises the candidate after the one used last. The test for equal
  routers leaves the loop before the one that notices the last candidate, so what is taken is the first
  suitable candidate with another router: of three links the third is never used.
\<close>

definition bonding_suitable :: "batadv_priv \<Rightarrow> nat \<Rightarrow> nat option \<Rightarrow> nat option \<Rightarrow> batadv_orig_ifinfo \<Rightarrow> bool" where
  "bonding_suitable s router recv_if last_router cand =
     (case oi_router cand of
        None \<Rightarrow> False
      | Some cand_router \<Rightarrow> bat_neigh_is_similar_or_better s cand_router (oi_if_outgoing cand) router recv_if = Some True \<and>
          last_router \<noteq> Some cand_router)"

lemma bonding_takes_first:
  assumes "bp_algo_iv s" and "\<forall>c \<in> set cs. oi_if_outgoing c = oi_if_outgoing prev \<longrightarrow> c = prev"
  shows "bonding_search s router recv_if (Some prev) cs first False =
    Some (if first \<noteq> None then first else find (bonding_suitable s router recv_if (oi_router prev)) cs, None)"
  using assms(2)
proof (induction cs arbitrary: first)
  case (Cons c cs)
  then show ?case
    by (cases "oi_router c") (auto simp: bonding_suitable_def [of _ _ _ _ c] bat_neigh_is_similar_or_better_def assms(1))
qed simp
end
