(* ===== verification/Newest.thy ===== *)
theory Newest
  imports Bat_Prelude
begin

text \<open>
  Bounded queues that make room by forgetting: the last \<open>n\<close> of all elements that ever came. The queues of
  ICMP sockets and the buffer of the debug log are such queues.
\<close>

definition newest :: "nat \<Rightarrow> 'a list \<Rightarrow> 'a list" where
  "newest n xs = drop (length xs - n) xs"

lemma length_newest [simp]: "length (newest n xs) = min n (length xs)"
  by (simp add: newest_def)

lemma newest_all [simp]: "length xs \<le> n \<Longrightarrow> newest n xs = xs"
  by (simp add: newest_def)

lemma newest_newest [simp]: "newest n (newest n xs) = newest n xs"
  by simp

text \<open>Forgetting early makes no difference.\<close>

lemma newest_append [simp]: "newest n (newest n xs @ ys) = newest n (xs @ ys)"
proof (cases "length xs \<le> n")
  case False
  then show ?thesis by (simp add: newest_def add.commute)
qed simp

lemma newest_eq_Nil [simp]: "newest n xs = [] \<longleftrightarrow> n = 0 \<or> xs = []"
  by (auto simp flip: length_0_conv simp: min_def)

lemma set_newest: "set (newest n xs) \<subseteq> set xs"
  by (simp add: newest_def set_drop_subset)

lemma newest_snoc: "0 < n \<Longrightarrow> newest n (xs @ [x]) = newest (n - 1) xs @ [x]"
  by (cases "length xs < n") (auto simp: newest_def)

end
