(* ===== verification/Icmp_Socket.thy ===== *)
theory Icmp_Socket
  imports Delivery Newest
begin

text \<open>
  The sockets of user space for ICMP messages, \<open>icmp_socket.c\<close>: a program opens a file, writes echo requests
  to it and reads what comes back for it. The sockets stand in a table of 256 places; the byte \<open>uid\<close> of a
  message is the place of its socket. A file refers to its socket by the place, as a socket keeps its place
  until the file is closed. The answers that \<open>batadv_recv_my_icmp_packet\<close> hands to
  \<open>batadv_socket_receive_packet\<close> are the calls \<open>Socket_Receive_Packet\<close> of the mesh.
\<close>

section \<open>Sockets\<close>

abbreviation BATADV_ICMP_MAX_PACKET_SIZE :: nat where "BATADV_ICMP_MAX_PACKET_SIZE \<equiv> 116"
abbreviation BATADV_PARAMETER_PROBLEM :: u8 where "BATADV_PARAMETER_PROBLEM \<equiv> 12"

text \<open>A queued message is the part of it that fits into \<open>struct batadv_socket_packet\<close>.\<close>

record batadv_socket_client =
  sc_queue_list :: "u8 list list"
  sc_queue_len :: u32
  sc_index :: u8

type_synonym socket_hash = "batadv_socket_client option list"

definition batadv_socket_init :: socket_hash where
  "batadv_socket_init = replicate 256 None"

fun free_place :: "socket_hash \<Rightarrow> nat option" where
  "free_place [] = None"
| "free_place (x # xs) = (if x = None then Some 0 else map_option Suc (free_place xs))"

text \<open>The result and the socket of the new file; \<open>module_ok\<close> is what \<open>try_module_get\<close> answers.\<close>

definition batadv_socket_open ::
  "bool \<Rightarrow> socket_hash \<Rightarrow> batadv_priv \<Rightarrow> (int \<times> nat option) \<times> socket_hash \<times> batadv_priv" where
  "batadv_socket_open module_ok hash s =
     (if \<not> module_ok then ((- 16, None), hash, s)
      else
        (let (ok, s) = kzalloc s in
         if \<not> ok then ((- 12, None), hash, s)
         else
           (case free_place hash of
              None \<Rightarrow> ((- 54, None), hash, s)
            | Some i \<Rightarrow>
                ((0, Some i), hash[i := Some \<lparr>sc_queue_list = [], sc_queue_len = 0, sc_index = of_nat i\<rparr>], s))))"

definition batadv_socket_release :: "nat \<Rightarrow> socket_hash \<Rightarrow> socket_hash" where
  "batadv_socket_release i hash =
     (case hash ! i of None \<Rightarrow> hash | Some client \<Rightarrow> hash[unat (sc_index client) := None])"

text \<open>
  The result and the bytes that were copied; \<open>None\<close> is a reader that sleeps. The kernel decides whether the buffer
  may be written (\<open>access_ok\<close>), whether a signal ends the sleep (\<open>interrupted\<close>), and whether the copy fails.
\<close>

definition batadv_socket_read ::
  "bool \<Rightarrow> bool \<Rightarrow> bool \<Rightarrow> bool \<Rightarrow> bool \<Rightarrow> nat \<Rightarrow> nat \<Rightarrow> socket_hash \<Rightarrow> batadv_priv
   \<Rightarrow> ((int \<times> u8 list) \<times> socket_hash \<times> batadv_priv) option" where
  "batadv_socket_read nonblock buf access_ok interrupted copy_ok len i hash s =
     (case hash ! i of
        None \<Rightarrow> Some ((0, []), hash, s\<lparr>bp_panic := True\<rparr>)
      | Some client \<Rightarrow>
          if nonblock \<and> sc_queue_len client = 0 then Some ((- 11, []), hash, s)
          else if \<not> buf \<or> len < 20 then Some ((- 22, []), hash, s)
          else if \<not> access_ok then Some ((- 14, []), hash, s)
          else if sc_queue_len client = 0 then (if interrupted then Some ((- 512, []), hash, s) else None)
          else
            (case sc_queue_list client of
               [] \<Rightarrow> Some ((0, []), hash, s\<lparr>bp_panic := True\<rparr>)
             | socket_packet # rest \<Rightarrow>
                 (let hash = hash[i := Some (client\<lparr>sc_queue_list := rest, sc_queue_len := sc_queue_len client - 1\<rparr>)];
                      packet_len = min len (length socket_packet)
                  in if \<not> copy_ok then Some ((- 14, []), hash, s)
                     else Some ((int packet_len, take packet_len socket_packet), hash, s))))"

section \<open>Queues\<close>

definition socket_queue :: "u8 list \<Rightarrow> batadv_socket_client \<Rightarrow> batadv_socket_client" where
  "socket_queue socket_packet client =
     (let queue_list = sc_queue_list client @ [socket_packet];
          queue_len = sc_queue_len client + 1
      in if queue_len > 100 then client\<lparr>sc_queue_list := tl queue_list, sc_queue_len := queue_len - 1\<rparr>
         else client\<lparr>sc_queue_list := queue_list, sc_queue_len := queue_len\<rparr>)"

text \<open>The test is about the place that the message names, not about the socket that it goes to.\<close>

definition batadv_socket_add_packet ::
  "nat \<Rightarrow> u8 list \<Rightarrow> socket_hash \<Rightarrow> batadv_priv \<Rightarrow> socket_hash \<times> batadv_priv" where
  "batadv_socket_add_packet i icmph hash s =
     (let (ok, s) = kzalloc s in
      if \<not> ok then (hash, s)
      else
        (let socket_packet = take BATADV_ICMP_MAX_PACKET_SIZE icmph
         in if hash ! unat (icmph ! 16) = None then (hash, s)
            else (hash[i := map_option (socket_queue socket_packet) (hash ! i)], s)))"

definition batadv_socket_receive_packet ::
  "u8 list \<Rightarrow> socket_hash \<Rightarrow> batadv_priv \<Rightarrow> socket_hash \<times> batadv_priv" where
  "batadv_socket_receive_packet icmph hash s =
     (if hash ! unat (icmph ! 16) = None then (hash, s)
      else batadv_socket_add_packet (unat (icmph ! 16)) icmph hash s)"

section \<open>Requests\<close>

text \<open>Where the route record of a request begins, the address of the interface that sends it.\<close>

definition socket_record :: "mac \<Rightarrow> u8 list \<Rightarrow> u8 list" where
  "socket_record addr bs =
     (if length bs = BATADV_ICMP_MAX_PACKET_SIZE then take 20 bs @ be_bytes 6 addr @ drop 26 bs else bs)"

text \<open>The next hop of a request, \<open>None\<close> for an unreachable destination.\<close>

definition socket_next_hop :: "kenv \<Rightarrow> mac \<Rightarrow> batadv_priv \<Rightarrow> nat option" where
  "socket_next_hop k dst s =
     (if bp_mesh_state s \<noteq> BATADV_MESH_ACTIVE then None
      else
        (case batadv_orig_hash_find k s dst of
           None \<Rightarrow> None
         | Some orig_node \<Rightarrow>
             (case batadv_orig_router_get s orig_node None of
                None \<Rightarrow> None
              | Some neigh_node \<Rightarrow>
                  if hi_if_status (hardif_of s (nn_if_incoming (neigh_of s neigh_node))) \<noteq> BATADV_IF_ACTIVE then None
                  else Some neigh_node)))"

definition batadv_socket_write ::
  "kenv \<Rightarrow> bool \<Rightarrow> u8 list \<Rightarrow> nat \<Rightarrow> socket_hash \<Rightarrow> batadv_priv \<Rightarrow> int \<times> socket_hash \<times> batadv_priv" where
  "batadv_socket_write k copy_ok buff i hash s =
     (if length buff < 20 then (- 22, hash, s)
      else
        (case (bp_primary_if s, hash ! i) of
           (None, _) \<Rightarrow> (- 14, hash, s)
         | (Some primary_if, None) \<Rightarrow> (0, hash, s\<lparr>bp_panic := True\<rparr>)
         | (Some primary_if, Some client) \<Rightarrow>
             (let (ok, s) = kzalloc s in
              if \<not> ok then (- 12, hash, s)
              else if \<not> copy_ok then (- 14, hash, s)
              else
                (let bs = take BATADV_ICMP_MAX_PACKET_SIZE buff;
                     icmp_header = icmp_of bs
                 in if i_packet_type icmp_header \<noteq> BATADV_ICMP then (- 22, hash, s)
                    else if i_msg_type icmp_header \<noteq> BATADV_ECHO_REQUEST then (- 22, hash, s)
                    else
                      (case socket_next_hop k (i_dst icmp_header) s of
                         None \<Rightarrow>
                           (let (hash, s) = batadv_socket_add_packet i
                                  (set_icmp (icmp_header\<lparr>i_msg_type := BATADV_DESTINATION_UNREACHABLE\<rparr>) bs) hash s
                            in (int (length buff), hash, s))
                       | Some neigh_node \<Rightarrow>
                           (let bs = socket_record (hi_dev_addr (hardif_of s (nn_if_incoming (neigh_of s neigh_node)))) bs;
                                bs = bs[16 := sc_index client]
                            in if i_version icmp_header \<noteq> BATADV_COMPAT_VERSION then
                                 (let (hash, s) = batadv_socket_add_packet i
                                        (set_icmp (icmp_header\<lparr>i_msg_type := BATADV_PARAMETER_PROBLEM,
                                                                i_version := BATADV_COMPAT_VERSION\<rparr>) bs) hash s
                                  in (int (length buff), hash, s))
                               else
                                 (let skb = \<lparr>sk_source = 0, sk_dest = 0,
                                        sk_data = set_icmp (icmp_header\<lparr>i_orig := hi_dev_addr (hardif_of s primary_if)\<rparr>) bs,
                                        sk_priority = 7, sk_mark = 0, sk_decoded = False\<rparr>
                                  in (int (length buff), hash, snd (batadv_send_unicast_skb k skb neigh_node s)))))))))"

definition batadv_socket_poll :: "nat \<Rightarrow> socket_hash \<Rightarrow> bool" where
  "batadv_socket_poll i hash = (case hash ! i of None \<Rightarrow> False | Some client \<Rightarrow> sc_queue_len client > 0)"

section \<open>What the table keeps\<close>

definition client_ok :: "nat \<Rightarrow> batadv_socket_client \<Rightarrow> bool" where
  "client_ok i c \<longleftrightarrow> unat (sc_index c) = i \<and> unat (sc_queue_len c) = length (sc_queue_list c) \<and>
     length (sc_queue_list c) \<le> 100 \<and> (\<forall>p \<in> set (sc_queue_list c). length p \<le> 116)"

definition sockets_ok :: "socket_hash \<Rightarrow> bool" where
  "sockets_ok hash \<longleftrightarrow> length hash = 256 \<and> (\<forall>i < 256. \<forall>c. hash ! i = Some c \<longrightarrow> client_ok i c)"

lemma sockets_okI [intro]:
  assumes "sockets_ok hash" "\<And>c. x = Some c \<Longrightarrow> client_ok i c"
  shows "sockets_ok (hash[i := x])"
  using assms
  by (cases "i < 256") (auto simp: sockets_ok_def nth_list_update split: if_splits)

lemma sockets_okD: "sockets_ok hash \<Longrightarrow> i < 256 \<Longrightarrow> hash ! i = Some c \<Longrightarrow> client_ok i c"
  by (simp add: sockets_ok_def)

lemma free_place_less: "free_place xs = Some i \<Longrightarrow> i < length xs"
  by (induction xs arbitrary: i) (auto split: if_splits)

lemma free_place_free: "free_place xs = Some i \<Longrightarrow> xs ! i = None"
  by (induction xs arbitrary: i) (auto split: if_splits)

lemma queue_len_next:
  assumes "client_ok i c"
  shows "unat (sc_queue_len c + 1) = Suc (length (sc_queue_list c))"
proof -
  have "unat (sc_queue_len c) + unat (1 :: u32) < 2 ^ LENGTH(32)" using assms by (simp add: client_ok_def)
  then have "unat (sc_queue_len c + 1) = unat (sc_queue_len c) + unat (1 :: u32)" by (rule unat_add_lem [THEN iffD1])
  then show ?thesis using assms by (simp add: client_ok_def)
qed

lemma socket_queue_newest:
  assumes "client_ok i c"
  shows "sc_queue_list (socket_queue p c) = newest 100 (sc_queue_list c @ [p])"
proof -
  have "sc_queue_len c + 1 > 100 \<longleftrightarrow> 100 \<le> length (sc_queue_list c)"
    using queue_len_next [OF assms] by (simp add: word_less_nat_alt less_Suc_eq_le)
  moreover have "length (sc_queue_list c) \<le> 100" using assms by (simp add: client_ok_def)
  ultimately show ?thesis
    by (cases "length (sc_queue_list c) = 100")
      (auto simp: socket_queue_def Let_def newest_snoc newest_def [of 99] drop_Suc tl_append split: list.split)
qed

lemma socket_queue_ok:
  assumes "client_ok i c" "length p \<le> 116"
  shows "client_ok i (socket_queue p c)"
proof -
  have more: "sc_queue_len c + 1 > 100 \<longleftrightarrow> 100 \<le> length (sc_queue_list c)"
    using queue_len_next [OF assms(1)] by (simp add: word_less_nat_alt less_Suc_eq_le)
  have "unat (sc_queue_len (socket_queue p c)) = min 100 (Suc (length (sc_queue_list c)))"
    using assms(1) queue_len_next [OF assms(1)] more by (auto simp: socket_queue_def client_ok_def Let_def)
  moreover have "set (sc_queue_list (socket_queue p c)) \<subseteq> insert p (set (sc_queue_list c))"
    using set_newest [of 100 "sc_queue_list c @ [p]"] by (simp add: socket_queue_newest [OF assms(1)])
  moreover have "sc_index (socket_queue p c) = sc_index c" by (simp add: socket_queue_def Let_def)
  ultimately show ?thesis
    using assms by (auto simp: client_ok_def socket_queue_newest [OF assms(1)] min_def)
qed

lemma sockets_ok_add:
  assumes "sockets_ok hash"
  shows "sockets_ok (fst (batadv_socket_add_packet i bs hash s))"
proof (cases "i < 256")
  case True
  have "sockets_ok (hash[i := map_option (socket_queue (take BATADV_ICMP_MAX_PACKET_SIZE bs)) (hash ! i)])"
    using assms sockets_okD [OF assms True] by (intro sockets_okI) (auto intro: socket_queue_ok)
  then show ?thesis using assms by (simp add: batadv_socket_add_packet_def Let_def split: prod.split)
next
  case False
  then have "length hash \<le> i" using assms by (simp add: sockets_ok_def)
  then show ?thesis using assms by (simp add: batadv_socket_add_packet_def Let_def list_update_beyond split: prod.split)
qed

lemma sockets_ok_receive: "sockets_ok hash \<Longrightarrow> sockets_ok (fst (batadv_socket_receive_packet bs hash s))"
  by (simp add: batadv_socket_receive_packet_def sockets_ok_add)

lemma sockets_ok_open:
  assumes "sockets_ok hash"
  shows "sockets_ok (fst (snd (batadv_socket_open m hash s)))"
proof -
  have "sockets_ok (hash[i := Some \<lparr>sc_queue_list = [], sc_queue_len = 0, sc_index = of_nat i\<rparr>])"
    if "free_place hash = Some i" for i
  proof -
    have "i < 256" using free_place_less [OF that] assms by (simp add: sockets_ok_def)
    then show ?thesis using assms by (intro sockets_okI) (auto simp: client_ok_def unat_of_nat)
  qed
  then show ?thesis using assms by (auto simp: batadv_socket_open_def Let_def split: prod.split option.split)
qed

lemma sockets_ok_release: "sockets_ok hash \<Longrightarrow> sockets_ok (batadv_socket_release i hash)"
  by (auto simp: batadv_socket_release_def split: option.split)

lemma sockets_ok_read:
  assumes "sockets_ok hash" "batadv_socket_read nb b a intr cp len i hash s = Some (r, hash', s')"
  shows "sockets_ok hash'"
proof -
  have "sockets_ok (hash[i := Some (c\<lparr>sc_queue_list := rest, sc_queue_len := sc_queue_len c - 1\<rparr>)])"
    if "hash ! i = Some c" "sc_queue_list c = p # rest" "sc_queue_len c \<noteq> 0" for c p rest
  proof (cases "i < 256")
    case True
    have c: "client_ok i c" by (rule sockets_okD [OF assms(1) True that(1)])
    have "unat (sc_queue_len c - 1) = unat (sc_queue_len c) - 1"
      using that(3) by (simp add: unat_sub word_le_nat_alt unat_gt_0 Suc_le_eq)
    then show ?thesis using assms(1) c that by (intro sockets_okI) (auto simp: client_ok_def)
  next
    case False
    then show ?thesis using assms(1) by (simp add: sockets_ok_def list_update_beyond)
  qed
  then show ?thesis
    using assms by (auto simp: batadv_socket_read_def Let_def split: option.splits if_splits list.splits)
qed

lemma sockets_ok_write:
  assumes "sockets_ok hash"
  shows "sockets_ok (fst (snd (batadv_socket_write k cp buff i hash s)))"
  using assms sockets_ok_add [OF assms]
  by (simp add: batadv_socket_write_def Let_def split_beta split: option.split)

text \<open>All that can happen to the table: programs, answers from the mesh, and sleeping readers that go on.\<close>

inductive socket_step :: "socket_hash \<Rightarrow> socket_hash \<Rightarrow> bool" where
  Open: "socket_step hash (fst (snd (batadv_socket_open module_ok hash s)))"
| Release: "socket_step hash (batadv_socket_release i hash)"
| Read: "batadv_socket_read nonblock buf access_ok interrupted copy_ok len i hash s = Some (r, hash', s') \<Longrightarrow>
    socket_step hash hash'"
| Write: "socket_step hash (fst (snd (batadv_socket_write k copy_ok buff i hash s)))"
| Receive: "socket_step hash (fst (batadv_socket_receive_packet bs hash s))"

inductive socket_reachable :: "socket_hash \<Rightarrow> bool" where
  Init: "socket_reachable batadv_socket_init"
| Step: "socket_reachable hash \<Longrightarrow> socket_step hash hash' \<Longrightarrow> socket_reachable hash'"

lemma sockets_ok_step: "socket_step hash hash' \<Longrightarrow> sockets_ok hash \<Longrightarrow> sockets_ok hash'"
  by (induction rule: socket_step.induct)
    (simp_all add: sockets_ok_open sockets_ok_release sockets_ok_read sockets_ok_write sockets_ok_receive)

lemma sockets_ok_reachable: "socket_reachable hash \<Longrightarrow> sockets_ok hash"
proof (induction rule: socket_reachable.induct)
  case Init
  then show ?case by (simp add: sockets_ok_def batadv_socket_init_def)
qed (rule sockets_ok_step)

text \<open>The queue of a socket is what it claims to be. In every state of the table of sockets that opening, closing,
  reading, writing and receiving can lead to, a socket stands at its own place, its counter is the length of its
  queue, which holds at most 100 messages of at most 116 bytes; so a reader that finds the counter above 0
  never takes a message from an empty list (\<open>batadv_socket_read\<close>).\<close>

theorem socket_queues_bounded:
  assumes "socket_reachable hash" "i < 256" "hash ! i = Some c"
  shows "unat (sc_index c) = i \<and> unat (sc_queue_len c) = length (sc_queue_list c) \<and> length (sc_queue_list c) \<le> 100 \<and>
    (\<forall>p \<in> set (sc_queue_list c). length p \<le> 116) \<and>
    (batadv_socket_read nonblock buf access_ok interrupted copy_ok len i hash s = Some (r, hash', s') \<longrightarrow> s' = s)"
proof -
  have c: "client_ok i c" by (rule sockets_okD [OF sockets_ok_reachable [OF assms(1)] assms(2,3)])
  then have "sc_queue_len c \<noteq> 0 \<Longrightarrow> sc_queue_list c \<noteq> []" by (auto simp: client_ok_def unat_eq_zero)
  then show ?thesis
    using c assms(3)
    by (auto simp: client_ok_def batadv_socket_read_def Let_def split: if_splits list.splits)
qed

theorem socket_queues_bounded_witness:
  "\<exists>hash c. socket_reachable hash \<and> hash ! 0 = Some c \<and> length (sc_queue_list c) \<le> 100"
proof -
  let ?hash = "fst (snd (batadv_socket_open True batadv_socket_init (tvlv_example [] [])))"
  have r: "socket_reachable ?hash" by (rule socket_reachable.Step [OF socket_reachable.Init socket_step.Open])
  have h: "?hash ! 0 = Some \<lparr>sc_queue_list = [], sc_queue_len = 0, sc_index = 0\<rparr>"
    by (simp add: batadv_socket_open_def kzalloc_def tvlv_example_def batadv_socket_init_def numeral_eq_Suc)
  show ?thesis using r h socket_queues_bounded [OF r _ h] by auto
qed

section \<open>First in, first out\<close>

definition receive_all :: "u8 list list \<Rightarrow> socket_hash \<Rightarrow> batadv_priv \<Rightarrow> socket_hash \<times> batadv_priv" where
  "receive_all bss hash s = fold (\<lambda>bs (hash, s). batadv_socket_receive_packet bs hash s) bss (hash, s)"

lemma receive_queues:
  assumes "hash ! i = Some c" "unat (bs ! 16) = i" "fst (kzalloc s)"
  shows "batadv_socket_receive_packet bs hash s = (hash[i := Some (socket_queue (take 116 bs) c)], snd (kzalloc s))"
  using assms by (simp add: batadv_socket_receive_packet_def batadv_socket_add_packet_def split_beta)

lemma receive_all_queues:
  assumes "sockets_ok hash" "i < 256" "hash ! i = Some c" "\<forall>bs \<in> set bss. unat (bs ! 16) = i" "bp_allocs s = []"
  shows "\<exists>c'. fst (receive_all bss hash s) ! i = Some c' \<and>
    sc_queue_list c' = newest 100 (sc_queue_list c @ map (take 116) bss)"
  using assms
proof (induction bss arbitrary: hash c)
  case Nil
  then have "client_ok i c" by (rule_tac sockets_okD)
  then show ?case using Nil by (simp add: receive_all_def client_ok_def)
next
  case (Cons bs bss)
  have a: "kzalloc s = (True, s)" using Cons.prems(5) by (simp add: kzalloc_def)
  have c: "client_ok i c" by (rule sockets_okD [OF Cons.prems(1-3)])
  let ?c = "socket_queue (take 116 bs) c"
  have r: "batadv_socket_receive_packet bs hash s = (hash[i := Some ?c], s)"
    using receive_queues [of hash i c bs s] Cons.prems a by simp
  have ok: "sockets_ok (hash[i := Some ?c])"
    using Cons.prems(1) socket_queue_ok [OF c] by (intro sockets_okI) auto
  have n: "hash[i := Some ?c] ! i = Some ?c" using Cons.prems(1,2) by (simp add: sockets_ok_def)
  have "\<forall>bs \<in> set bss. unat (bs ! 16) = i" using Cons.prems(4) by simp
  from Cons.IH [OF ok Cons.prems(2) n this Cons.prems(5)]
  obtain c' where "fst (receive_all bss (hash[i := Some ?c]) s) ! i = Some c'"
    "sc_queue_list c' = newest 100 (sc_queue_list ?c @ map (take 116) bss)" by blast
  then show ?case using r by (simp add: receive_all_def socket_queue_newest [OF c])
qed

lemma sockets_ok_receive_all: "sockets_ok hash \<Longrightarrow> sockets_ok (fst (receive_all bss hash s))"
  unfolding receive_all_def
  by (induction bss arbitrary: hash s) (simp_all add: split_beta, metis prod.collapse sockets_ok_receive)

text \<open>C18: A socket keeps the newest 100 messages, in order, as long as no allocation fails. Whatever it held before and however many answers
  arrive from the mesh, its queue is the last 100 of what it held followed by the answers, each cut
  to 116 bytes; reading takes them from the front (\<open>batadv_socket_receive_packet\<close>, \<open>batadv_socket_read\<close>).\<close>

theorem socket_keeps_newest:
  assumes "socket_reachable hash" "i < 256" "hash ! i = Some c" "\<forall>bs \<in> set bss. unat (bs ! 16) = i" "bp_allocs s = []"
    and "sc_queue_list c @ bss \<noteq> []" "20 \<le> len"
  defines "kept \<equiv> newest 100 (sc_queue_list c @ map (take 116) bss)"
  shows "\<exists>hash'. batadv_socket_read nonblock True True interrupted True len i (fst (receive_all bss hash s)) s =
      Some ((int (min len (length (hd kept))), take len (hd kept)), hash', s) \<and>
    map_option sc_queue_list (hash' ! i) = Some (tl kept)"
proof -
  have ok: "sockets_ok hash" by (rule sockets_ok_reachable [OF assms(1)])
  let ?h = "fst (receive_all bss hash s)"
  obtain c' where c': "?h ! i = Some c'" "sc_queue_list c' = kept"
    using receive_all_queues [OF ok assms(2-5)] by (auto simp: kept_def)
  have "length ?h = 256" and "client_ok i c'"
    using sockets_ok_receive_all [OF ok, of bss s] sockets_okD [OF _ assms(2) c'(1)] by (auto simp: sockets_ok_def)
  moreover have "kept \<noteq> []" using assms(6) by (simp add: kept_def)
  then obtain p ps where n: "kept = p # ps" by (meson list.exhaust)
  ultimately have "sc_queue_len c' \<noteq> 0" "sc_queue_list c' = p # ps" "i < length ?h"
    using c' assms(2) by (auto simp: client_ok_def)
  then show ?thesis
    using c'(1) assms(7) n by (simp add: batadv_socket_read_def min_def)
qed

theorem socket_keeps_newest_witness:
  "\<exists>hash'. batadv_socket_read False True True False True 20 0
       (fst (receive_all [replicate 20 0] (batadv_socket_init[0 := Some \<lparr>sc_queue_list = [], sc_queue_len = 0, sc_index = 0\<rparr>])
          (tvlv_example [] []))) (tvlv_example [] []) =
     Some ((20, replicate 20 0), hash', tvlv_example [] [])"
proof -
  let ?s = "tvlv_example [] []"
  let ?c = "\<lparr>sc_queue_list = [], sc_queue_len = 0, sc_index = 0\<rparr>"
  have "batadv_socket_init[0 := Some ?c] = fst (snd (batadv_socket_open True batadv_socket_init ?s))"
    by (simp add: batadv_socket_open_def kzalloc_def tvlv_example_def batadv_socket_init_def numeral_eq_Suc)
  then have r: "socket_reachable (batadv_socket_init[0 := Some ?c])"
    using socket_reachable.Step [OF socket_reachable.Init socket_step.Open] by simp
  have h: "(batadv_socket_init[0 := Some ?c]) ! 0 = Some ?c" by (simp add: batadv_socket_init_def)
  have n: "newest 100 (sc_queue_list ?c @ map (take 116) [replicate 20 (0 :: u8)]) = [replicate 20 0]" by simp
  have "\<exists>hash'. batadv_socket_read False True True False True 20 0
      (fst (receive_all [replicate 20 0] (batadv_socket_init[0 := Some ?c]) ?s)) ?s =
      Some ((int (min 20 (length (hd [replicate 20 (0 :: u8)]))), take 20 (hd [replicate 20 0])), hash', ?s) \<and>
    map_option sc_queue_list (hash' ! 0) = Some (tl [replicate 20 0])"
    using socket_keeps_newest [OF r _ h, of "[replicate 20 0]" ?s 20 False False, unfolded n]
    by (simp add: tvlv_example_def)
  then show ?thesis by auto
qed

section \<open>Answers that get lost\<close>

text \<open>C40: Whether a program learns that a destination is unreachable depends on a byte that it was not to set.
  The answer is queued before \<open>batadv_socket_write\<close> has put the place of the socket into the message, and
  \<open>batadv_socket_add_packet\<close> drops what names an empty place: when the byte 16 of the request names a
  place without a socket, the write succeeds and nothing can be read.\<close>

theorem unreachable_answer_lost:
  assumes "20 \<le> length buff" "buff ! 0 = BATADV_ICMP" "buff ! 3 = BATADV_ECHO_REQUEST" "bp_primary_if s \<noteq> None"
    and "hash ! i = Some c" "bp_allocs s = []" "socket_next_hop k (i_dst (icmp_of buff)) s = None"
  shows "\<exists>answer. batadv_socket_write k True buff i hash s =
    (int (length buff), if hash ! unat (buff ! 16) = None then hash else hash[i := Some (socket_queue answer c)], s)"
proof -
  have "icmp_of (take 116 buff) = icmp_of buff"
    using assms(1) by (simp add: icmp_of_def field_at_def drop_take min_def)
  moreover have "(set_icmp p (take 116 buff)) ! 16 = buff ! 16" for p
    using assms(1) by (simp add: set_icmp_def nth_append)
  moreover have "i_packet_type (icmp_of buff) = BATADV_ICMP" "i_msg_type (icmp_of buff) = BATADV_ECHO_REQUEST"
    using assms(2,3) by (simp_all add: icmp_of_def)
  ultimately show ?thesis
    using assms
    by (auto simp: batadv_socket_write_def batadv_socket_add_packet_def kzalloc_def Let_def)
qed

theorem unreachable_answer_lost_witness:
  "\<exists>s hash. fst (snd (batadv_socket_write kenv_example True ([0x43, 15, 50, 8] @ replicate 12 0 @ [7, 0, 0, 0]) 0 hash s)) = hash \<and>
     hash ! 0 \<noteq> None"
proof -
  let ?s = "(tvlv_example [] [])\<lparr>bp_primary_if := Some 0, bp_orig_hash := None\<rparr>"
  let ?c = "\<lparr>sc_queue_list = [], sc_queue_len = 0, sc_index = 0\<rparr>"
  let ?b = "[0x43, 15, 50, 8] @ replicate 12 0 @ [7, 0, 0, 0] :: u8 list"
  have "socket_next_hop kenv_example d ?s = None" for d
    by (simp add: socket_next_hop_def batadv_orig_hash_find_def)
  then obtain answer where "batadv_socket_write kenv_example True ?b 0 (batadv_socket_init[0 := Some ?c]) ?s =
      (int (length ?b), if (batadv_socket_init[0 := Some ?c]) ! unat (?b ! 16) = None then batadv_socket_init[0 := Some ?c]
        else (batadv_socket_init[0 := Some ?c])[0 := Some (socket_queue answer ?c)], ?s)"
    using unreachable_answer_lost [of ?b ?s "batadv_socket_init[0 := Some ?c]" 0 ?c kenv_example]
    by (auto simp: batadv_socket_init_def tvlv_example_def)
  moreover have "(batadv_socket_init[0 := Some ?c]) ! unat (?b ! 16) = None" by (simp add: batadv_socket_init_def nth_append)
  ultimately have "fst (snd (batadv_socket_write kenv_example True ?b 0 (batadv_socket_init[0 := Some ?c]) ?s)) = batadv_socket_init[0 := Some ?c]"
    by simp
  then show ?thesis by (auto simp: batadv_socket_init_def intro!: exI [of _ "batadv_socket_init[0 := Some ?c]"])
qed

end
