(* ===== verification/Ping.thy ===== *)
theory Ping
  imports Icmp_Socket
begin

text \<open>
  A ping through the mesh: a program writes an echo request to its socket, the nodes of a path send it on, the
  node that it names answers, and the answer comes back over another path to the socket that asked.
\<close>

section \<open>A message at one node\<close>

definition icmp_message :: "batadv_icmp_header \<Rightarrow> u8 list \<Rightarrow> bool" where
  "icmp_message h rest \<longleftrightarrow> i_packet_type h = BATADV_ICMP \<and> i_version h = BATADV_COMPAT_VERSION \<and>
     4 \<le> length rest \<and> length rest < 100"

lemma set_icmp_message [simp]: "set_icmp p (icmp_bytes h @ rest) = icmp_bytes p @ rest"
  by (simp add: set_icmp_def)

lemma dispatch_icmp:
  assumes "link_end s i src addr" "icmp_message h rest"
  shows "batadv_batman_skb_recv (Suc fuel) k oob (arriving src addr (icmp_bytes h @ rest)) i s =
    Some (NET_RX_SUCCESS, snd (batadv_recv_icmp_packet k (arriving src addr (icmp_bytes h @ rest)) i s))"
  using assms
  by (simp add: link_end_def icmp_message_def kzalloc_def arriving_def batadv_rx_handler_def icmp_bytes_def Let_def
      split: prod.split)

lemma recv_icmp:
  assumes "link_end s i src addr" "icmp_message h rest"
  defines "skb \<equiv> arriving src addr (icmp_bytes h @ rest)"
  shows "batadv_recv_icmp_packet k skb i s =
    (if batadv_is_my_mac s (i_dst h) then batadv_recv_my_icmp_packet k skb s
     else if i_ttl h < 2 then batadv_recv_icmp_ttl_exceeded k skb s
     else
       (case batadv_orig_hash_find k s (i_dst h) of
          None \<Rightarrow> (NET_RX_DROP, s)
        | Some n \<Rightarrow>
            (let (res, s) = batadv_send_skb_to_orig k (skb\<lparr>sk_data := icmp_bytes (h\<lparr>i_ttl := i_ttl h - 1\<rparr>) @ rest\<rparr>) n (Some i) s
             in (if res \<noteq> NET_XMIT_DROP then NET_RX_SUCCESS else NET_RX_DROP, s))))"
  using assms(1,2)
  by (simp add: batadv_recv_icmp_packet_def skb_def arriving_def link_end_def icmp_message_def kzalloc_def Let_def
      split: option.split)

lemma icmp_relayed:
  assumes "link_end s i src addr" "icmp_message h rest" "\<not> batadv_is_my_mac s (i_dst h)"
    and "batadv_orig_hash_find k s (i_dst h) = Some n" "next_hop s n (Some i) (16 + length rest) j a" "2 \<le> i_ttl h"
  shows "\<exists>s'. batadv_batman_skb_recv 1 k oob (arriving src addr (icmp_bytes h @ rest)) i s = Some (NET_RX_SUCCESS, s') \<and>
    transmitted s s' = Some (arriving (hi_dev_addr (hardif_of s j)) a (icmp_bytes (h\<lparr>i_ttl := i_ttl h - 1\<rparr>) @ rest))"
proof -
  let ?skb = "(arriving src addr (icmp_bytes h @ rest))\<lparr>sk_data := icmp_bytes (h\<lparr>i_ttl := i_ttl h - 1\<rparr>) @ rest\<rparr>"
  obtain s' where "batadv_send_skb_to_orig k ?skb n (Some i) s = (NET_XMIT_SUCCESS, s')"
    "bp_calls s' = bp_calls s @ [Dev_Queue_Xmit j a (sk_data ?skb)]" "hi_dev_addr (hardif_of s' j) = hi_dev_addr (hardif_of s j)"
    using send_to_next_hop [of s n "Some i" ?skb j a k] assms(5) by auto
  moreover have "\<not> i_ttl h < 2" using assms(6) by (simp add: not_less)
  ultimately show ?thesis
    using dispatch_icmp [OF assms(1,2), of 0 k oob] recv_icmp [OF assms(1,2), of k] assms(3,4)
    by (simp add: transmitted_def)
qed

lemma icmp_echoed:
  assumes "link_end s i src addr" "icmp_message h rest" "batadv_is_my_mac s (i_dst h)" "i_msg_type h = BATADV_ECHO_REQUEST"
    and "bp_primary_if s = Some p" "batadv_orig_hash_find k s (i_orig h) = Some n" "next_hop s n None (16 + length rest) j a"
  shows "\<exists>s'. batadv_batman_skb_recv 1 k oob (arriving src addr (icmp_bytes h @ rest)) i s = Some (NET_RX_SUCCESS, s') \<and>
    transmitted s s' = Some (arriving (hi_dev_addr (hardif_of s j)) a
      (icmp_bytes (h\<lparr>i_dst := i_orig h, i_orig := hi_dev_addr (hardif_of s p), i_msg_type := BATADV_ECHO_REPLY, i_ttl := 50\<rparr>) @ rest))"
proof -
  let ?h = "h\<lparr>i_dst := i_orig h, i_orig := hi_dev_addr (hardif_of s p), i_msg_type := BATADV_ECHO_REPLY, i_ttl := 50\<rparr>"
  let ?skb = "(arriving src addr (icmp_bytes h @ rest))\<lparr>sk_data := icmp_bytes ?h @ rest\<rparr>"
  obtain s' where "batadv_send_skb_to_orig k ?skb n None s = (NET_XMIT_SUCCESS, s')"
    "bp_calls s' = bp_calls s @ [Dev_Queue_Xmit j a (sk_data ?skb)]" "hi_dev_addr (hardif_of s' j) = hi_dev_addr (hardif_of s j)"
    using send_to_next_hop [of s n None ?skb j a k] assms(7) by auto
  moreover have "kzalloc s = (True, s)" using assms(1) by (simp add: link_end_def kzalloc_def)
  ultimately show ?thesis
    using dispatch_icmp [OF assms(1,2), of 0 k oob] recv_icmp [OF assms(1,2), of k] assms(3-6)
    by (simp add: batadv_recv_my_icmp_packet_def icmp_answer_def transmitted_def arriving_def Let_def)
qed

lemma icmp_arrives:
  assumes "link_end s i src addr" "icmp_message h rest" "batadv_is_my_mac s (i_dst h)" "i_msg_type h = BATADV_ECHO_REPLY"
  shows "\<exists>s'. batadv_batman_skb_recv 1 k oob (arriving src addr (icmp_bytes h @ rest)) i s = Some (NET_RX_SUCCESS, s') \<and>
    bp_calls s' = bp_calls s @ [Socket_Receive_Packet (icmp_bytes h @ rest)]"
  using dispatch_icmp [OF assms(1,2), of 0 k oob] recv_icmp [OF assms(1,2), of k] assms
  by (simp add: batadv_recv_my_icmp_packet_def arriving_def link_end_def kzalloc_def call_def)

section \<open>A path\<close>

text \<open>What comes out at the end of nodes that each receive a frame and send one.\<close>

fun forward :: "(nat \<Rightarrow> u8) \<Rightarrow> (kenv \<times> batadv_priv \<times> nat) list \<Rightarrow> sk_buff \<Rightarrow> sk_buff option" where
  "forward oob [] skb = Some skb"
| "forward oob ((k, s, i) # hops) skb =
     (case batadv_batman_skb_recv 1 k oob skb i s of
        None \<Rightarrow> None
      | Some (_, s') \<Rightarrow> (case transmitted s s' of None \<Rightarrow> None | Some next \<Rightarrow> forward oob hops next))"

lemma forward_append:
  "forward oob (xs @ ys) skb = Option.bind (forward oob xs skb) (forward oob ys)"
  by (induction oob xs skb rule: forward.induct) (auto split: option.split)

text \<open>Relays towards \<open>d\<close> for messages of \<open>len\<close> bytes; the last link of the path.\<close>

fun icmp_path :: "mac \<Rightarrow> nat \<Rightarrow> mac \<Rightarrow> mac \<Rightarrow> (kenv \<times> batadv_priv \<times> nat) list \<Rightarrow> mac \<Rightarrow> mac \<Rightarrow> bool" where
  "icmp_path d len src addr [] src' addr' \<longleftrightarrow> src' = src \<and> addr' = addr"
| "icmp_path d len src addr ((k, s, i) # hops) src' addr' \<longleftrightarrow>
     link_end s i src addr \<and> \<not> batadv_is_my_mac s d \<and>
     (\<exists>n j a. batadv_orig_hash_find k s d = Some n \<and> next_hop s n (Some i) len j a \<and>
        icmp_path d len (hi_dev_addr (hardif_of s j)) a hops src' addr')"

lemma forward_icmp:
  assumes "icmp_path (i_dst h) (16 + length rest) src addr hops src' addr'" "icmp_message h rest"
    and "length hops < unat (i_ttl h)"
  shows "forward oob hops (arriving src addr (icmp_bytes h @ rest)) =
    Some (arriving src' addr' (icmp_bytes (h\<lparr>i_ttl := i_ttl h - of_nat (length hops)\<rparr>) @ rest))"
  using assms
proof (induction hops arbitrary: src addr h)
  case Nil
  then show ?case by simp
next
  case (Cons x hops)
  obtain k s i where x: "x = (k, s, i)" by (cases x)
  obtain n j a where l: "link_end s i src addr" "\<not> batadv_is_my_mac s (i_dst h)" "batadv_orig_hash_find k s (i_dst h) = Some n"
    "next_hop s n (Some i) (16 + length rest) j a"
    and p: "icmp_path (i_dst h) (16 + length rest) (hi_dev_addr (hardif_of s j)) a hops src' addr'"
    using Cons.prems(1) x by auto
  have t: "2 \<le> i_ttl h" "unat (i_ttl h - 1) = unat (i_ttl h) - 1"
    using Cons.prems(3) by (simp_all add: word_le_nat_alt unat_sub)
  let ?h = "h\<lparr>i_ttl := i_ttl h - 1\<rparr>"
  obtain s' where r: "batadv_batman_skb_recv 1 k oob (arriving src addr (icmp_bytes h @ rest)) i s = Some (NET_RX_SUCCESS, s')"
    "transmitted s s' = Some (arriving (hi_dev_addr (hardif_of s j)) a (icmp_bytes ?h @ rest))"
    using icmp_relayed [OF l(1) Cons.prems(2) l(2-4) t(1)] by blast
  have "icmp_path (i_dst ?h) (16 + length rest) (hi_dev_addr (hardif_of s j)) a hops src' addr'" using p by simp
  moreover have "icmp_message ?h rest" using Cons.prems(2) by (simp add: icmp_message_def)
  moreover have "length hops < unat (i_ttl ?h)" using Cons.prems(3) t(2) by simp
  ultimately have "forward oob hops (arriving (hi_dev_addr (hardif_of s j)) a (icmp_bytes ?h @ rest)) =
      Some (arriving src' addr' (icmp_bytes (?h\<lparr>i_ttl := i_ttl ?h - of_nat (length hops)\<rparr>) @ rest))"
    by (rule Cons.IH)
  then show ?case using r x by (simp add: algebra_simps)
qed

section \<open>A ping\<close>

text \<open>A node whose next hop to \<open>d\<close> is the neighbour \<open>a\<close> on the interface \<open>j\<close>.\<close>

definition pings_over :: "kenv \<Rightarrow> batadv_priv \<Rightarrow> mac \<Rightarrow> nat \<Rightarrow> mac \<Rightarrow> bool" where
  "pings_over k s d j a \<longleftrightarrow>
     bp_allocs s = [] \<and> bp_xmits s = [] \<and> \<not> bp_network_coding s \<and> hi_up (hardif_of s j) \<and>
     (\<exists>r. socket_next_hop k d s = Some r \<and> nn_if_incoming (neigh_of s r) = j \<and> nn_addr (neigh_of s r) = a)"

lemma socket_next_hop_active:
  "socket_next_hop k d s = Some r \<Longrightarrow> hi_if_status (hardif_of s (nn_if_incoming (neigh_of s r))) = BATADV_IF_ACTIVE"
  by (auto simp: socket_next_hop_def split: if_splits option.splits)

lemma request_written:
  assumes "pings_over k s (i_dst h) j a" "bp_primary_if s = Some p" "hash ! i = Some c"
    and "icmp_message h (u # rest)" "i_msg_type h = BATADV_ECHO_REQUEST"
  shows "\<exists>s'. batadv_socket_write k True (icmp_bytes h @ u # rest) i hash s = (int (17 + length rest), hash, s') \<and>
    transmitted s s' = Some (arriving (hi_dev_addr (hardif_of s j)) a
      (icmp_bytes (h\<lparr>i_orig := hi_dev_addr (hardif_of s p)\<rparr>) @ sc_index c # rest))"
proof -
  obtain r where r: "socket_next_hop k (i_dst h) s = Some r" "nn_if_incoming (neigh_of s r) = j" "nn_addr (neigh_of s r) = a"
    using assms(1) by (auto simp: pings_over_def)
  let ?bs = "icmp_bytes h @ u # rest"
  have len: "length ?bs < 116" "20 \<le> length ?bs" using assms(4) by (simp_all add: icmp_message_def)
  then have t: "take 116 ?bs = ?bs" by simp
  have "?bs[16 := sc_index c] = icmp_bytes h @ sc_index c # rest" by (simp add: list_update_append)
  moreover have "socket_record m ?bs = ?bs" for m using len by (simp add: socket_record_def)
  moreover have "kzalloc s = (True, s)" using assms(1) by (simp add: pings_over_def kzalloc_def)
  ultimately have w: "batadv_socket_write k True ?bs i hash s = (int (17 + length rest), hash, snd (batadv_send_unicast_skb k
      \<lparr>sk_source = 0, sk_dest = 0, sk_data = icmp_bytes (h\<lparr>i_orig := hi_dev_addr (hardif_of s p)\<rparr>) @ sc_index c # rest,
       sk_priority = 7, sk_mark = 0, sk_decoded = False\<rparr> r s))"
    using assms(2-5) r len
    unfolding batadv_socket_write_def t icmp_of_bytes by (simp add: icmp_message_def Let_def)
  show ?thesis
    unfolding w using assms(1) r socket_next_hop_active [OF r(1)]
    by (simp add: transmitted_def batadv_send_unicast_skb_def batadv_send_skb_packet_def kzalloc_def pings_over_def
        batadv_nc_skb_store_for_decoding_def dev_queue_xmit_def call_def hardif_neigh_mod_def hardif_mod_def)
qed

text \<open>C5: A ping is answered. An echo request that a program writes to its socket (\<open>batadv_socket_write\<close>) is
  sent on by the nodes of a path, the node with the address of the destination answers it
  (\<open>batadv_recv_icmp_packet\<close>, \<open>batadv_recv_my_icmp_packet\<close>), and the answer travels back over another
  path; \<open>batadv_socket_receive_packet\<close> puts it into the queue of the socket that asked, whatever \<open>uid\<close>
  the program had written, and \<open>batadv_socket_read\<close> returns it: the data of the request behind a header with
  the addresses turned around, the type of a reply and what is left of 50 hops. The request needs a time to live of more
  than the nodes on the way, and the way back fewer than 50; the route is not recorded. The queue of the socket is empty
  when the answer arrives, and no allocation and no transmission fails.\<close>

theorem ping_answered:
  assumes "pings_over kA sA (i_dst h) j a" "bp_primary_if sA = Some pA" "hash ! i = Some c"
    and "icmp_message h (u # rest)" "i_msg_type h = BATADV_ECHO_REQUEST"
    and "icmp_path (i_dst h) (17 + length rest) (hi_dev_addr (hardif_of sA j)) a there srcB addrB" "length there < unat (i_ttl h)"
    and "link_end sB iB srcB addrB" "batadv_is_my_mac sB (i_dst h)" "bp_primary_if sB = Some pB"
    and "batadv_orig_hash_find kB sB (hi_dev_addr (hardif_of sA pA)) = Some n" "next_hop sB n None (17 + length rest) jB aB"
    and "icmp_path (hi_dev_addr (hardif_of sA pA)) (17 + length rest) (hi_dev_addr (hardif_of sB jB)) aB home srcA addrA"
    and "length home < 50"
    and "link_end sA' iA srcA addrA" "batadv_is_my_mac sA' (hi_dev_addr (hardif_of sA pA))"
    and "length hash' = 256" "hash' ! unat (sc_index c) = Some c'" "sc_queue_list c' = []" "sc_queue_len c' = 0"
  shows "\<exists>sA1 request answer sA2 reply hash''.
    batadv_socket_write kA True (icmp_bytes h @ u # rest) i hash sA = (int (17 + length rest), hash, sA1) \<and>
    transmitted sA sA1 = Some request \<and> forward oob (there @ (kB, sB, iB) # home) request = Some answer \<and>
    batadv_batman_skb_recv 1 kA' oob answer iA sA' = Some (NET_RX_SUCCESS, sA2) \<and>
    bp_calls sA2 = bp_calls sA' @ [Socket_Receive_Packet reply] \<and>
    reply = icmp_bytes (h\<lparr>i_dst := hi_dev_addr (hardif_of sA pA), i_orig := hi_dev_addr (hardif_of sB pB),
      i_msg_type := BATADV_ECHO_REPLY, i_ttl := 50 - of_nat (length home)\<rparr>) @ sc_index c # rest \<and>
    batadv_socket_read nonblock True True interrupted True 116 (unat (sc_index c))
      (fst (batadv_socket_receive_packet reply hash' sA')) sA' = Some ((int (length reply), reply), hash'', sA')"
proof -
  let ?h1 = "h\<lparr>i_orig := hi_dev_addr (hardif_of sA pA)\<rparr>"
  let ?data = "sc_index c # rest"
  let ?h2 = "?h1\<lparr>i_ttl := i_ttl h - of_nat (length there)\<rparr>"
  let ?h3 = "?h2\<lparr>i_dst := i_orig ?h2, i_orig := hi_dev_addr (hardif_of sB pB), i_msg_type := BATADV_ECHO_REPLY, i_ttl := 50\<rparr>"
  let ?h4 = "?h3\<lparr>i_ttl := 50 - of_nat (length home)\<rparr>"
  have m: "icmp_message ?h1 ?data" "icmp_message ?h2 ?data" "icmp_message ?h3 ?data" "icmp_message ?h4 ?data"
    using assms(4) by (simp_all add: icmp_message_def)
  obtain sA1 where 1: "batadv_socket_write kA True (icmp_bytes h @ u # rest) i hash sA = (int (17 + length rest), hash, sA1)"
    "transmitted sA sA1 = Some (arriving (hi_dev_addr (hardif_of sA j)) a (icmp_bytes ?h1 @ ?data))"
    using request_written [OF assms(1-5)] by blast
  have 2: "forward oob there (arriving (hi_dev_addr (hardif_of sA j)) a (icmp_bytes ?h1 @ ?data)) =
      Some (arriving srcB addrB (icmp_bytes ?h2 @ ?data))"
    using forward_icmp [of ?h1 ?data _ _ there srcB addrB oob] assms(6,7) m(1) by simp
  obtain sB1 where 3: "batadv_batman_skb_recv 1 kB oob (arriving srcB addrB (icmp_bytes ?h2 @ ?data)) iB sB = Some (NET_RX_SUCCESS, sB1)"
    "transmitted sB sB1 = Some (arriving (hi_dev_addr (hardif_of sB jB)) aB (icmp_bytes ?h3 @ ?data))"
    using icmp_echoed [OF assms(8) m(2), of pB kB n jB aB oob] assms(5,9-12) by auto
  have 4: "forward oob home (arriving (hi_dev_addr (hardif_of sB jB)) aB (icmp_bytes ?h3 @ ?data)) =
      Some (arriving srcA addrA (icmp_bytes ?h4 @ ?data))"
    using forward_icmp [of ?h3 ?data _ _ home srcA addrA oob] assms(13,14) m(3) by simp
  obtain sA2 where 5: "batadv_batman_skb_recv 1 kA' oob (arriving srcA addrA (icmp_bytes ?h4 @ ?data)) iA sA' = Some (NET_RX_SUCCESS, sA2)"
    "bp_calls sA2 = bp_calls sA' @ [Socket_Receive_Packet (icmp_bytes ?h4 @ ?data)]"
    using icmp_arrives [OF assms(15) m(4), of kA' oob] assms(16) by auto
  have "batadv_socket_receive_packet (icmp_bytes ?h4 @ ?data) hash' sA' =
      (hash'[unat (sc_index c) := Some (socket_queue (icmp_bytes ?h4 @ ?data) c')], sA')"
    using receive_queues [OF assms(18), of "icmp_bytes ?h4 @ ?data" sA'] m(4) assms(15)
    by (simp add: nth_append link_end_def kzalloc_def icmp_message_def)
  moreover have "unat (sc_index c) < length hash'" using assms(17) unsigned_less [of "sc_index c", where 'a = nat] by simp
  moreover have "socket_queue (icmp_bytes ?h4 @ ?data) c' = c'\<lparr>sc_queue_list := [icmp_bytes ?h4 @ ?data], sc_queue_len := 1\<rparr>"
    using assms(19,20) by (simp add: socket_queue_def)
  ultimately have 6: "\<exists>hash''. batadv_socket_read nonblock True True interrupted True 116 (unat (sc_index c))
      (fst (batadv_socket_receive_packet (icmp_bytes ?h4 @ ?data) hash' sA')) sA' =
      Some ((int (length (icmp_bytes ?h4 @ ?data)), icmp_bytes ?h4 @ ?data), hash'', sA')"
    using m(4) by (simp add: batadv_socket_read_def icmp_message_def)
  have 7: "forward oob (there @ (kB, sB, iB) # home) (arriving (hi_dev_addr (hardif_of sA j)) a (icmp_bytes ?h1 @ ?data)) =
      Some (arriving srcA addrA (icmp_bytes ?h4 @ ?data))"
    using 2 3 4 by (simp add: forward_append)
  show ?thesis
    using 1 5 6 7 by auto
qed

text \<open>Three nodes in a row again, each with the one it has to know; the last of them is pinged by the first.\<close>

definition ping_node :: "mac \<Rightarrow> mac \<Rightarrow> mac \<Rightarrow> batadv_priv" where
  "ping_node own via known = (mesh_example own via)\<lparr>bp_orig_hash := Some \<lparr>ht_table = [[(known, 0)]], ht_size = 1\<rparr>\<rparr>"

definition ping_example :: "u8 \<Rightarrow> mac \<Rightarrow> mac \<Rightarrow> u8 \<Rightarrow> batadv_icmp_header" where
  "ping_example type dst src ttl = \<lparr>i_packet_type = BATADV_ICMP, i_version = BATADV_COMPAT_VERSION, i_ttl = ttl, i_msg_type = type,
     i_dst = dst, i_orig = src\<rparr>"

theorem ping_answered_witness:
  "\<exists>sA1 request answer sA2.
     batadv_socket_write kenv_example True (icmp_bytes (ping_example 8 3 0 50) @ [7, 0, 0, 1]) 0
       (batadv_socket_init[0 := Some \<lparr>sc_queue_list = [], sc_queue_len = 0, sc_index = 0\<rparr>]) (ping_node 1 2 3) =
       (20, batadv_socket_init[0 := Some \<lparr>sc_queue_list = [], sc_queue_len = 0, sc_index = 0\<rparr>], sA1) \<and>
     transmitted (ping_node 1 2 3) sA1 = Some request \<and>
     forward (\<lambda>_. 0) [(kenv_example, ping_node 2 3 3, 0), (kenv_example, ping_node 3 2 1, 0), (kenv_example, ping_node 2 1 1, 0)]
       request = Some answer \<and>
     batadv_batman_skb_recv 1 kenv_example (\<lambda>_. 0) answer 0 (ping_node 1 2 3) = Some (NET_RX_SUCCESS, sA2) \<and>
     bp_calls sA2 = [Socket_Receive_Packet (icmp_bytes (ping_example 0 1 3 49) @ [0, 0, 0, 1])]"
proof -
  let ?c = "\<lparr>sc_queue_list = [], sc_queue_len = 0, sc_index = 0\<rparr>" and ?h = "ping_example 8 3 0 50"
  let ?hash = "batadv_socket_init[0 := Some ?c]"
  note e = mesh_example_fields mesh_example_tables
  have f: "bp_allocs (ping_node own via d) = []" "bp_xmits (ping_node own via d) = []" "\<not> bp_network_coding (ping_node own via d)"
    "bp_hardifs (ping_node own via d) = bp_hardifs (mesh_example own via)" "bp_primary_if (ping_node own via d) = Some 0"
    "bp_neighs (ping_node own via d) = bp_neighs (mesh_example own via)" "\<not> bp_bonding (ping_node own via d)"
    "bp_mesh_state (ping_node own via d) = BATADV_MESH_ACTIVE" "bp_calls (ping_node own via d) = []"
    "batadv_is_my_mac (ping_node own via d) x = (own = x)" "batadv_orig_hash_find kenv_example (ping_node own via d) d = Some 0"
    "batadv_orig_router_get (ping_node own via d) 0 None = Some 0"
    "batadv_orig_router_get (ping_node own via d) 0 (Some 0) = Some 0" for own via d x
    using e by (simp_all add: ping_node_def mesh_example_def tvlv_example_def batadv_is_my_mac_def batadv_compare_eth_def
        batadv_orig_router_get_def batadv_orig_hash_find_def hash_lookup_def kenv_example_def batadv_choose_orig_def batadv_compare_orig_def)
  have l: "link_end (ping_node own via d) 0 src own" if "own \<noteq> 281474976710655" "src \<noteq> 281474976710655" for own via d src
    using that by (simp add: link_end_def f e is_broadcast_ether_addr_def)
  have n: "next_hop (ping_node own via d) 0 r 20 0 via" if "r \<in> {None, Some 0}" for own via d r
    using that by (auto simp: next_hop_def f e)
  have "pings_over kenv_example (ping_node 1 2 3) (i_dst ?h) 0 2"
    by (simp add: pings_over_def f e socket_next_hop_def ping_example_def)
  moreover have "?hash ! 0 = Some ?c" by (simp add: batadv_socket_init_def)
  moreover have "icmp_message ?h (7 # [0, 0, 1])" "i_msg_type ?h = BATADV_ECHO_REQUEST"
    by (simp_all add: icmp_message_def ping_example_def)
  moreover have "icmp_path (i_dst ?h) (17 + length [0, 0, 1 :: u8]) (hi_dev_addr (hardif_of (ping_node 1 2 3) 0)) 2
      [(kenv_example, ping_node 2 3 3, 0)] 2 3"
    using l [of 2 1 3 3] n [of "Some 0" 2 3 3] f(11) [of 2 3 3] by (auto simp: f e ping_example_def)
  moreover have "icmp_path (hi_dev_addr (hardif_of (ping_node 1 2 3) 0)) (17 + length [0, 0, 1 :: u8])
      (hi_dev_addr (hardif_of (ping_node 3 2 1) 0)) 2 [(kenv_example, ping_node 2 1 1, 0)] 2 1"
    using l [of 2 3 1 1] n [of "Some 0" 2 1 1] f(11) [of 2 1 1] by (auto simp: f e)
  ultimately show ?thesis
    using ping_answered [of kenv_example "ping_node 1 2 3" ?h 0 2 0 ?hash 0 ?c 7 "[0, 0, 1]" "[(kenv_example, ping_node 2 3 3, 0)]" 2 3
        "ping_node 3 2 1" 0 0 kenv_example 0 0 2 "[(kenv_example, ping_node 2 1 1, 0)]" 2 1 "ping_node 1 2 3" 0 ?hash ?c "\<lambda>_. 0" kenv_example False False]
      l [of 3 2 2 1] l [of 1 2 2 3] n [of None 3 2 1]
    by (fastforce simp: f e ping_example_def batadv_socket_init_def)
qed

end
