(* ===== verification/Debug_Log.thy ===== *)
theory Debug_Log
  imports Tvlv Newest
begin

text \<open>
  The debug log, \<open>debugfs.c\<close>: a ring of 8192 characters, written by every component and read through a file.
  The positions \<open>log_start\<close> and \<open>log_end\<close> only grow, and wrap around at the width of \<open>unsigned long\<close>,
  64 bits here; the place of a position in the ring is its lowest 13 bits. What \<open>printf\<close> makes of a message
  is an argument.
\<close>

section \<open>The ring\<close>

abbreviation BATADV_LOG_BUF_LEN :: "'a :: numeral" where "BATADV_LOG_BUF_LEN \<equiv> 8192"
abbreviation BATADV_LOG_BUFF_MASK :: u64 where "BATADV_LOG_BUFF_MASK \<equiv> 8191"

record batadv_priv_debug_log =
  log_buff :: string
  log_start :: u64
  log_end :: u64

definition batadv_log_char_addr :: "u64 \<Rightarrow> nat" where
  "batadv_log_char_addr idx = unat (idx AND BATADV_LOG_BUFF_MASK)"

definition batadv_emit_log_char :: "char \<Rightarrow> batadv_priv_debug_log \<Rightarrow> batadv_priv_debug_log" where
  "batadv_emit_log_char c debug_log =
     (let debug_log = debug_log\<lparr>log_buff := (log_buff debug_log)[batadv_log_char_addr (log_end debug_log) := c]\<rparr>;
          debug_log = debug_log\<lparr>log_end := log_end debug_log + 1\<rparr>
      in if log_end debug_log - log_start debug_log > BATADV_LOG_BUF_LEN
         then debug_log\<lparr>log_start := log_end debug_log - BATADV_LOG_BUF_LEN\<rparr> else debug_log)"

text \<open>The buffer for a message has 256 characters, the last of them for the end of the string.\<close>

definition vscnprintf :: "string \<Rightarrow> string" where
  "vscnprintf msg = takeWhile (\<lambda>c. c \<noteq> CHR 0x00) (take 255 msg)"

definition batadv_fdebug_log :: "string \<Rightarrow> batadv_priv_debug_log option \<Rightarrow> batadv_priv_debug_log option" where
  "batadv_fdebug_log msg debug_log = map_option (fold batadv_emit_log_char (vscnprintf msg)) debug_log"

fun dec_digits :: "nat \<Rightarrow> string" where
  "dec_digits n = (if n < 10 then [char_of (48 + n)] else dec_digits (n div 10) @ [char_of (48 + n mod 10)])"

declare dec_digits.simps [simp del]

definition dec_padded :: "nat \<Rightarrow> nat \<Rightarrow> string" where
  "dec_padded width n = replicate (width - length (dec_digits n)) (CHR '' '') @ dec_digits n"

definition batadv_debug_log :: "u32 \<Rightarrow> string \<Rightarrow> batadv_priv_debug_log option \<Rightarrow> batadv_priv_debug_log option" where
  "batadv_debug_log msecs msg =
     batadv_fdebug_log (''['' @ dec_padded 10 (unat msecs) @ ''] '' @ vscnprintf msg)"

section \<open>The file\<close>

definition batadv_log_empty :: "batadv_priv_debug_log \<Rightarrow> bool" where
  "batadv_log_empty debug_log \<longleftrightarrow> log_start debug_log - log_end debug_log = 0"

text \<open>
  The loop of a reader: what it copied, and whether a copy failed. \<open>put_ok i\<close> tells whether the byte \<open>i\<close> of the
  buffer of the program can be written.
\<close>

fun log_read_loop ::
  "(nat \<Rightarrow> bool) \<Rightarrow> nat \<Rightarrow> nat \<Rightarrow> batadv_priv_debug_log \<Rightarrow> (string \<times> bool) \<times> batadv_priv_debug_log" where
  "log_read_loop put_ok i 0 debug_log = (([], False), debug_log)"
| "log_read_loop put_ok i (Suc left) debug_log =
     (if log_start debug_log = log_end debug_log then (([], False), debug_log)
      else
        (let c = log_buff debug_log ! batadv_log_char_addr (log_start debug_log);
             debug_log = debug_log\<lparr>log_start := log_start debug_log + 1\<rparr>
         in if \<not> put_ok i then (([], True), debug_log)
            else
              (let ((cs, error), debug_log) = log_read_loop put_ok (Suc i) left debug_log
               in ((c # cs, error), debug_log))))"

text \<open>The result and what the program sees; \<open>None\<close> is a reader that sleeps.\<close>

definition batadv_log_read ::
  "bool \<Rightarrow> bool \<Rightarrow> nat \<Rightarrow> bool \<Rightarrow> bool \<Rightarrow> (nat \<Rightarrow> bool) \<Rightarrow> batadv_priv_debug_log
   \<Rightarrow> ((int \<times> string) \<times> batadv_priv_debug_log) option" where
  "batadv_log_read nonblock buf len access_ok interrupted put_ok debug_log =
     (if nonblock \<and> batadv_log_empty debug_log then Some ((- 11, []), debug_log)
      else if \<not> buf then Some ((- 22, []), debug_log)
      else if len = 0 then Some ((0, []), debug_log)
      else if \<not> access_ok then Some ((- 14, []), debug_log)
      else if batadv_log_empty debug_log then (if interrupted then Some ((- 512, []), debug_log) else None)
      else
        (let ((cs, error), debug_log) = log_read_loop put_ok 0 len debug_log
         in Some ((if error then - 14 else int (length cs), cs), debug_log)))"

definition batadv_log_poll :: "batadv_priv_debug_log \<Rightarrow> bool" where
  "batadv_log_poll debug_log \<longleftrightarrow> \<not> batadv_log_empty debug_log"

text \<open>The log exists from the allocation on, also when its file cannot be created.\<close>

definition batadv_debug_log_setup ::
  "bool \<Rightarrow> bool \<Rightarrow> batadv_priv_debug_log option \<Rightarrow> batadv_priv \<Rightarrow> int \<times> batadv_priv_debug_log option \<times> batadv_priv" where
  "batadv_debug_log_setup debug_dir file_ok debug_log s =
     (if \<not> debug_dir then (- 12, debug_log, s)
      else
        (let (ok, s) = kzalloc s in
         if \<not> ok then (- 12, None, s)
         else
           (let debug_log = Some \<lparr>log_buff = replicate BATADV_LOG_BUF_LEN (CHR 0x00), log_start = 0, log_end = 0\<rparr>
            in (if file_ok then 0 else - 12, debug_log, s))))"

definition batadv_debug_log_cleanup :: "batadv_priv_debug_log option \<Rightarrow> batadv_priv_debug_log option" where
  "batadv_debug_log_cleanup debug_log = None"

section \<open>The ring is a queue\<close>

definition log_len :: "batadv_priv_debug_log \<Rightarrow> nat" where
  "log_len l = unat (log_end l - log_start l)"

definition log_ok :: "batadv_priv_debug_log \<Rightarrow> bool" where
  "log_ok l \<longleftrightarrow> length (log_buff l) = 8192 \<and> log_len l \<le> 8192"

text \<open>What a reader would get.\<close>

definition log_text :: "batadv_priv_debug_log \<Rightarrow> string" where
  "log_text l = map (\<lambda>j. log_buff l ! batadv_log_char_addr (log_start l + of_nat j)) [0..<log_len l]"

lemma char_addr: "batadv_log_char_addr idx = unat idx mod 8192"
proof -
  have "idx AND BATADV_LOG_BUFF_MASK = take_bit 13 idx" by (simp add: take_bit_eq_mask mask_eq_exp_minus_1)
  then show ?thesis by (simp add: batadv_log_char_addr_def take_bit_eq_mod unat_mod_distrib)
qed

lemma char_addr_add: "batadv_log_char_addr (x + of_nat j) = (unat x + j) mod 8192"
proof -
  have "unat (x + of_nat j) = (unat x + j) mod 2 ^ 64" by (simp add: unat_word_ariths unat_of_nat mod_simps)
  moreover have "(8192 :: nat) dvd 2 ^ 64" by simp
  ultimately show ?thesis by (simp add: char_addr mod_mod_cancel)
qed

lemma log_text_nth: "j < log_len l \<Longrightarrow> log_text l ! j = log_buff l ! ((unat (log_start l) + j) mod 8192)"
  by (simp add: log_text_def char_addr_add)

lemma length_log_text [simp]: "length (log_text l) = log_len l"
  by (simp add: log_text_def)

text \<open>Two places of a window of at most 8192 positions are different.\<close>

lemma ring_distinct: "j < n \<Longrightarrow> n - j < 8192 \<Longrightarrow> (x + j) mod 8192 \<noteq> (x + n) mod (8192 :: nat)"
proof
  assume a: "j < n" "n - j < 8192" "(x + j) mod 8192 = (x + n) mod 8192"
  then have "8192 dvd (x + n) - (x + j)" by (metis mod_eq_dvd_iff_nat add_le_cancel_left less_imp_le_nat)
  then show False using a by (auto dest: dvd_imp_le)
qed

lemma log_end_addr: "batadv_log_char_addr (log_end l) = (unat (log_start l) + log_len l) mod 8192"
  using char_addr_add [of "log_start l" "log_len l"] by (simp add: log_len_def)

lemma emit_log_char:
  assumes "log_ok l"
  shows "log_ok (batadv_emit_log_char c l) \<and> log_text (batadv_emit_log_char c l) = newest 8192 (log_text l @ [c])"
proof -
  let ?n = "log_len l" and ?b = "(log_buff l)[batadv_log_char_addr (log_end l) := c]"
  have n: "?n \<le> 8192" and b: "length (log_buff l) = 8192" using assms by (simp_all add: log_ok_def)
  have "unat (log_end l - log_start l) + unat (1 :: u64) < 2 ^ LENGTH(64)" using n by (simp add: log_len_def)
  then have "unat (log_end l - log_start l + 1) = ?n + 1"
    by (simp add: log_len_def unat_add_lem [THEN iffD1])
  then have u: "unat (log_end l + 1 - log_start l) = Suc ?n" by (simp add: algebra_simps)
  then have more: "log_end l + 1 - log_start l > BATADV_LOG_BUF_LEN \<longleftrightarrow> ?n = 8192"
    using n by (auto simp: word_less_nat_alt)
  have old: "?b ! ((unat (log_start l) + j) mod 8192) = log_text l ! j" if "j < ?n" "?n - j < 8192" for j
    using ring_distinct [OF that, of "unat (log_start l)"] that(1) by (simp add: log_end_addr log_text_nth)
  have new: "?b ! ((unat (log_start l) + ?n) mod 8192) = c" using b by (simp add: log_end_addr)
  show ?thesis
  proof (cases "?n = 8192")
    case False
    then have e: "batadv_emit_log_char c l = l\<lparr>log_buff := ?b, log_end := log_end l + 1\<rparr>"
      using more by (simp add: batadv_emit_log_char_def)
    then have m: "log_len (batadv_emit_log_char c l) = Suc ?n" using u by (simp add: log_len_def)
    have "log_text (batadv_emit_log_char c l) ! j = (log_text l @ [c]) ! j" if "j < Suc ?n" for j
      using that False n old [of j] new log_text_nth [of j "batadv_emit_log_char c l"] m e
      by (auto simp: nth_append less_Suc_eq)
    then have "log_text (batadv_emit_log_char c l) = log_text l @ [c]"
      by (intro nth_equalityI) (simp_all add: m)
    then show ?thesis using m b n False e by (simp add: log_ok_def)
  next
    case True
    have s: "log_end l + 1 - BATADV_LOG_BUF_LEN = log_start l + 1"
    proof -
      have "log_end l - log_start l = BATADV_LOG_BUF_LEN" using True by (simp add: log_len_def word_unat_eq_iff)
      then show ?thesis by (simp add: algebra_simps)
    qed
    then have e: "batadv_emit_log_char c l = l\<lparr>log_buff := ?b, log_end := log_end l + 1, log_start := log_start l + 1\<rparr>"
      using more True by (simp add: batadv_emit_log_char_def)
    then have m: "log_len (batadv_emit_log_char c l) = 8192" using True by (simp add: log_len_def)
    have t: "log_text (batadv_emit_log_char c l) ! j = ?b ! ((unat (log_start l) + Suc j) mod 8192)" if "j < 8192" for j
      using that m e char_addr_add [of "log_start l" "Suc j"] by (simp add: log_text_def add.assoc)
    have "log_text (batadv_emit_log_char c l) ! j = (log_text l @ [c]) ! Suc j" if "j < 8192" for j
      using that True old [of "Suc j"] new t [OF that] by (cases "j = 8191") (auto simp: nth_append)
    then have "log_text (batadv_emit_log_char c l) = drop 1 (log_text l @ [c])"
      using True by (intro nth_equalityI) (simp_all add: m del: drop_append)
    then show ?thesis using m b e True by (simp add: log_ok_def newest_def)
  qed
qed

lemma emit_log_chars:
  "log_ok l \<Longrightarrow> log_ok (fold batadv_emit_log_char cs l) \<and> log_text (fold batadv_emit_log_char cs l) = newest 8192 (log_text l @ cs)"
proof (induction cs arbitrary: l)
  case Nil
  then show ?case by (simp add: log_ok_def)
next
  case (Cons c cs)
  then show ?case using emit_log_char [OF Cons.prems, of c] Cons.IH [of "batadv_emit_log_char c l"] by simp
qed

lemma log_empty: "batadv_log_empty l \<longleftrightarrow> log_text l = []" "log_start l = log_end l \<longleftrightarrow> log_text l = []"
  by (auto simp: batadv_log_empty_def log_len_def unat_eq_zero simp flip: length_0_conv)

lemma log_text_Cons:
  assumes "log_text l \<noteq> []"
  shows "log_text l = log_buff l ! batadv_log_char_addr (log_start l) # log_text (l\<lparr>log_start := log_start l + 1\<rparr>)"
    and "log_len l = Suc (log_len (l\<lparr>log_start := log_start l + 1\<rparr>))"
proof -
  have "log_end l - log_start l \<noteq> 0" using assms log_empty(2) [of l] by auto
  then have "unat (log_end l - log_start l - 1) = log_len l - 1" "0 < log_len l"
    by (simp_all add: log_len_def unat_minus_one unat_gt_0)
  then show m: "log_len l = Suc (log_len (l\<lparr>log_start := log_start l + 1\<rparr>))"
    by (simp add: log_len_def algebra_simps)
  show "log_text l = log_buff l ! batadv_log_char_addr (log_start l) # log_text (l\<lparr>log_start := log_start l + 1\<rparr>)"
    unfolding log_text_def m by (simp add: upt_conv_Cons map_Suc_upt [symmetric] add.assoc del: upt_Suc)
qed

lemma log_read_chars:
  assumes "log_ok l"
  shows "\<exists>l'. log_read_loop (\<lambda>_. True) i n l = ((take n (log_text l), False), l') \<and> log_ok l' \<and> log_text l' = drop n (log_text l)"
  using assms
proof (induction n arbitrary: i l)
  case (Suc n)
  show ?case
  proof (cases "log_text l = []")
    case True
    then show ?thesis using Suc.prems by (simp add: log_empty(2))
  next
    case False
    note c = log_text_Cons [OF False]
    have ne: "log_start l \<noteq> log_end l" using False by (simp add: log_empty(2))
    have "log_ok (l\<lparr>log_start := log_start l + 1\<rparr>)" using Suc.prems c(2) by (simp add: log_ok_def)
    from Suc.IH [OF this, of "Suc i"] show ?thesis using ne unfolding c(1) by auto
  qed
qed simp

text \<open>
  What programs see when messages are logged and parts of the log are read, in any order: of the code, and of a
  queue that forgets all but the last 8192 characters.
\<close>

datatype log_op = Log u32 string | Read nat

definition log_line :: "u32 \<Rightarrow> string \<Rightarrow> string" where
  "log_line msecs msg = vscnprintf (''['' @ dec_padded 10 (unat msecs) @ ''] '' @ vscnprintf msg)"

fun log_run :: "log_op list \<Rightarrow> batadv_priv_debug_log option \<Rightarrow> string list" where
  "log_run (Log msecs msg # ops) l = log_run ops (batadv_debug_log msecs msg l)"
| "log_run (Read n # ops) (Some l) =
     (case batadv_log_read True True n True False (\<lambda>_. True) l of
        None \<Rightarrow> []
      | Some ((ret, cs), l) \<Rightarrow> cs # log_run ops (Some l))"
| "log_run ops l = []"

fun queue_run :: "log_op list \<Rightarrow> string \<Rightarrow> string list" where
  "queue_run [] q = []"
| "queue_run (Log msecs msg # ops) q = queue_run ops (newest 8192 (q @ log_line msecs msg))"
| "queue_run (Read n # ops) q = take n q # queue_run ops (drop n q)"

lemma log_run_queue: "log_ok l \<Longrightarrow> log_run ops (Some l) = queue_run ops (log_text l)"
proof (induction ops arbitrary: l)
  case (Cons op ops)
  show ?case
  proof (cases op)
    case (Log msecs msg)
    then show ?thesis
      using Cons.IH emit_log_chars [OF Cons.prems]
      by (simp add: batadv_debug_log_def batadv_fdebug_log_def log_line_def)
  next
    case (Read n)
    obtain l' where "log_read_loop (\<lambda>_. True) 0 n l = ((take n (log_text l), False), l')" "log_ok l'" "log_text l' = drop n (log_text l)"
      using log_read_chars [OF Cons.prems] by blast
    then show ?thesis
      using Cons.IH [of l'] Cons.IH [OF Cons.prems] Read by (cases "log_text l = []") (simp_all add: batadv_log_read_def log_empty)
  qed
qed simp

text \<open>C17: The debug log is a queue that forgets. From its creation on, in whatever order messages are logged
  (\<open>batadv_debug_log\<close>) and read (\<open>batadv_log_read\<close>), every reader gets what it would get from a queue of
  the last 8192 characters not yet read, also when the positions in the ring wrap around; a message counts with
  its time stamp, cut to 255 characters.\<close>

theorem log_is_queue:
  assumes "batadv_debug_log_setup debug_dir file_ok None s = (ret, Some l, s')"
  shows "log_run ops (Some l) = queue_run ops []"
proof -
  have "l = \<lparr>log_buff = replicate 8192 (CHR 0x00), log_start = 0, log_end = 0\<rparr>"
    using assms by (auto simp: batadv_debug_log_setup_def Let_def split: if_splits prod.splits)
  then have "log_ok l" "log_text l = []" by (simp_all add: log_ok_def log_len_def log_text_def)
  then show ?thesis by (simp add: log_run_queue)
qed

theorem log_is_queue_witness:
  "\<exists>l s'. batadv_debug_log_setup True True None (tvlv_example [] []) = (0, Some l, s') \<and>
     log_run [Log 1234 ''Hello'', Read 9, Read 100] (Some l) = [''[      12'', ''34] Hello'']"
proof -
  obtain l s' where l: "batadv_debug_log_setup True True None (tvlv_example [] []) = (0, Some l, s')"
    by (simp add: batadv_debug_log_setup_def kzalloc_def tvlv_example_def)
  have "log_line 1234 ''Hello'' = ''[      1234] Hello''"
    by code_simp
  then have "queue_run [Log 1234 ''Hello'', Read 9, Read 100] [] = [''[      12'', ''34] Hello'']"
    by simp
  then show ?thesis using l log_is_queue [OF l, of "[Log 1234 ''Hello'', Read 9, Read 100]"] by auto
qed

end
