(* ===== verification/Sysfs.thy ===== *)
theory Sysfs
  imports Hard_Interface Debug_Log
begin

text \<open>
  The settings, \<open>sysfs.c\<close>: what a program reads from and writes to the files of a mesh interface, of its VLANs and
  of its interfaces. A write hands over the bytes of the program, behind which the kernel puts a NUL; the result
  is the number of bytes or an error. The parsers of numbers of the kernel are arguments (\<open>kstrtoul\<close> and
  its kind), as are the names of devices. The level of the log, which is not part of the state, and the creation of
  the files are left out.
\<close>

section \<open>Text\<close>

definition c_str :: "string \<Rightarrow> string" where
  "c_str = takeWhile (\<lambda>c. c \<noteq> CHR 0x00)"

text \<open>A newline at the end is overwritten with the end of the string.\<close>

definition chomp :: "string \<Rightarrow> string" where
  "chomp buff = (if buff \<noteq> [] \<and> last buff = CHR 0x0A then butlast buff @ [CHR 0x00] else buff)"

definition strncmp_eq :: "string \<Rightarrow> string \<Rightarrow> nat \<Rightarrow> bool" where
  "strncmp_eq a b n \<longleftrightarrow> take n (c_str a @ [CHR 0x00]) = take n (c_str b @ [CHR 0x00])"

definition newline :: string where
  "newline = [CHR 0x0A]"

definition show_int :: "int \<Rightarrow> string" where
  "show_int n = (if n < 0 then ''-'' @ dec_digits (nat (- n)) else dec_digits (nat n))"

definition hex_digit :: "u32 \<Rightarrow> char" where
  "hex_digit d = (let n = unat d in char_of (if n < 10 then 48 + n else 87 + n))"

text \<open>The format \<open>%#.8x\<close>: zero has no prefix.\<close>

definition show_hex :: "u32 \<Rightarrow> string" where
  "show_hex v = (if v = 0 then '''' else ''0x'') @
     map (\<lambda>i. hex_digit (drop_bit (4 * i) v AND 15)) [7, 6, 5, 4, 3, 2, 1, 0]"

section \<open>Switches\<close>

text \<open>The result, the value afterwards, and whether it changed. The later test wins.\<close>

definition batadv_store_bool_attr :: "string \<Rightarrow> bool \<Rightarrow> int \<times> bool \<times> bool" where
  "batadv_store_bool_attr buff attr =
     (let len = length buff;
          buff = chomp buff;
          enabled = (if strncmp_eq buff ''1'' 2 \<or> strncmp_eq buff ''enable'' 7 \<or> strncmp_eq buff ''enabled'' 8
                     then Some True else None);
          enabled = (if strncmp_eq buff ''0'' 2 \<or> strncmp_eq buff ''disable'' 8 \<or> strncmp_eq buff ''disabled'' 9
                     then Some False else enabled)
      in case enabled of
           None \<Rightarrow> (- 22, attr, False)
         | Some v \<Rightarrow> if attr = v then (int len, attr, False) else (int len, v, True))"

text \<open>The second level of the code: \<open>post\<close> acts on a change; it may not come to an end (\<open>None\<close>).\<close>

definition store_bool_attr_post ::
  "string \<Rightarrow> (batadv_priv \<Rightarrow> batadv_priv option) \<Rightarrow> (batadv_priv \<Rightarrow> bool) \<Rightarrow> (bool \<Rightarrow> batadv_priv \<Rightarrow> batadv_priv)
   \<Rightarrow> batadv_priv \<Rightarrow> (int \<times> batadv_priv) option" where
  "store_bool_attr_post buff post get put s =
     (let (ret, v, changed) = batadv_store_bool_attr buff (get s);
          s = put v s
      in if changed then map_option (Pair ret) (post s) else Some (ret, s))"

datatype mesh_switch =
    Attr_Aggregated_Ogms
  | Attr_Bonding
  | Attr_Bridge_Loop_Avoidance
  | Attr_Distributed_Arp_Table
  | Attr_Fragmentation
  | Attr_Multicast_Mode
  | Attr_Network_Coding

fun switch_get :: "mesh_switch \<Rightarrow> batadv_priv \<Rightarrow> bool" where
  "switch_get Attr_Aggregated_Ogms s = bp_aggregated_ogms s"
| "switch_get Attr_Bonding s = bp_bonding s"
| "switch_get Attr_Bridge_Loop_Avoidance s = bp_bridge_loop_avoidance s"
| "switch_get Attr_Distributed_Arp_Table s = bp_distributed_arp_table s"
| "switch_get Attr_Fragmentation s = bp_fragmentation s"
| "switch_get Attr_Multicast_Mode s = bp_multicast_mode s"
| "switch_get Attr_Network_Coding s = bp_network_coding s"

fun switch_put :: "mesh_switch \<Rightarrow> bool \<Rightarrow> batadv_priv \<Rightarrow> batadv_priv" where
  "switch_put Attr_Aggregated_Ogms v s = s\<lparr>bp_aggregated_ogms := v\<rparr>"
| "switch_put Attr_Bonding v s = s\<lparr>bp_bonding := v\<rparr>"
| "switch_put Attr_Bridge_Loop_Avoidance v s = s\<lparr>bp_bridge_loop_avoidance := v\<rparr>"
| "switch_put Attr_Distributed_Arp_Table v s = s\<lparr>bp_distributed_arp_table := v\<rparr>"
| "switch_put Attr_Fragmentation v s = s\<lparr>bp_fragmentation := v\<rparr>"
| "switch_put Attr_Multicast_Mode v s = s\<lparr>bp_multicast_mode := v\<rparr>"
| "switch_put Attr_Network_Coding v s = s\<lparr>bp_network_coding := v\<rparr>"

fun switch_post ::
  "nat \<Rightarrow> kenv \<Rightarrow> (batadv_priv \<Rightarrow> batadv_priv) \<Rightarrow> mesh_switch \<Rightarrow> batadv_priv \<Rightarrow> batadv_priv option" where
  "switch_post fuel k mla_update Attr_Bridge_Loop_Avoidance s =
     Some (snd (bla_run k (\<lambda>b. ((), batadv_bla_status_update (bla_env_of k s) b)) s))"
| "switch_post fuel k mla_update Attr_Distributed_Arp_Table s = Some (batadv_dat_status_update s)"
| "switch_post fuel k mla_update Attr_Fragmentation s = batadv_update_min_mtu fuel k mla_update s"
| "switch_post fuel k mla_update Attr_Network_Coding s = Some (batadv_nc_status_update s)"
| "switch_post fuel k mla_update _ s = Some s"

definition batadv_store_switch ::
  "nat \<Rightarrow> kenv \<Rightarrow> (batadv_priv \<Rightarrow> batadv_priv) \<Rightarrow> mesh_switch \<Rightarrow> string \<Rightarrow> batadv_priv \<Rightarrow> (int \<times> batadv_priv) option" where
  "batadv_store_switch fuel k mla_update a buff =
     store_bool_attr_post buff (switch_post fuel k mla_update a) (switch_get a) (switch_put a)"

definition show_bool :: "bool \<Rightarrow> string" where
  "show_bool v = (if v then ''enabled'' else ''disabled'') @ newline"

definition batadv_show_switch :: "mesh_switch \<Rightarrow> batadv_priv \<Rightarrow> string" where
  "batadv_show_switch a s = show_bool (switch_get a s)"

section \<open>Numbers\<close>

text \<open>The value is compared after an extension of its sign.\<close>

definition batadv_store_uint_attr ::
  "(string \<Rightarrow> u64 option) \<Rightarrow> string \<Rightarrow> u32 \<Rightarrow> u32 \<Rightarrow> u32 \<Rightarrow> int \<times> u32" where
  "batadv_store_uint_attr kstrtoul buff lo hi attr =
     (case kstrtoul (c_str buff) of
        None \<Rightarrow> (- 22, attr)
      | Some uint_val \<Rightarrow>
          if uint_val < ucast lo then (- 22, attr)
          else if uint_val > ucast hi then (- 22, attr)
          else if scast attr = uint_val then (int (length buff), attr)
          else (int (length buff), ucast uint_val))"

text \<open>Unlike a switch, a number calls \<open>post\<close> whenever the result is not 0, also for an error.\<close>

definition store_uint_attr_post ::
  "(string \<Rightarrow> u64 option) \<Rightarrow> string \<Rightarrow> u32 \<Rightarrow> u32 \<Rightarrow> (batadv_priv \<Rightarrow> batadv_priv) \<Rightarrow> (batadv_priv \<Rightarrow> u32)
   \<Rightarrow> (u32 \<Rightarrow> batadv_priv \<Rightarrow> batadv_priv) \<Rightarrow> batadv_priv \<Rightarrow> int \<times> batadv_priv" where
  "store_uint_attr_post kstrtoul buff lo hi post get put s =
     (let (ret, v) = batadv_store_uint_attr kstrtoul buff lo hi (get s);
          s = put v s
      in (ret, if ret \<noteq> 0 then post s else s))"

definition batadv_post_gw_reselect :: "batadv_priv \<Rightarrow> batadv_priv" where
  "batadv_post_gw_reselect = batadv_gw_reselect"

datatype mesh_number = Attr_Orig_Interval | Attr_Hop_Penalty | Attr_Gw_Sel_Class

fun number_get :: "mesh_number \<Rightarrow> batadv_priv \<Rightarrow> u32" where
  "number_get Attr_Orig_Interval s = bp_orig_interval s"
| "number_get Attr_Hop_Penalty s = bp_hop_penalty s"
| "number_get Attr_Gw_Sel_Class s = bp_gw_sel_class s"

fun number_put :: "mesh_number \<Rightarrow> u32 \<Rightarrow> batadv_priv \<Rightarrow> batadv_priv" where
  "number_put Attr_Orig_Interval v s = s\<lparr>bp_orig_interval := v\<rparr>"
| "number_put Attr_Hop_Penalty v s = s\<lparr>bp_hop_penalty := v\<rparr>"
| "number_put Attr_Gw_Sel_Class v s = s\<lparr>bp_gw_sel_class := v\<rparr>"

fun number_range :: "mesh_number \<Rightarrow> u32 \<times> u32" where
  "number_range Attr_Orig_Interval = (2 * BATADV_JITTER, 0x7FFFFFFF)"
| "number_range Attr_Hop_Penalty = (0, BATADV_TQ_MAX_VALUE)"
| "number_range Attr_Gw_Sel_Class = (1, BATADV_TQ_MAX_VALUE)"

fun number_post :: "mesh_number \<Rightarrow> batadv_priv \<Rightarrow> batadv_priv" where
  "number_post Attr_Gw_Sel_Class s = batadv_post_gw_reselect s"
| "number_post _ s = s"

definition batadv_store_number ::
  "(string \<Rightarrow> u64 option) \<Rightarrow> mesh_number \<Rightarrow> string \<Rightarrow> batadv_priv \<Rightarrow> int \<times> batadv_priv" where
  "batadv_store_number kstrtoul a buff =
     (case number_range a of (lo, hi) \<Rightarrow>
        store_uint_attr_post kstrtoul buff lo hi (number_post a) (number_get a) (number_put a))"

definition batadv_show_number :: "mesh_number \<Rightarrow> batadv_priv \<Rightarrow> string" where
  "batadv_show_number a s = show_int (sint (number_get a s)) @ newline"

section \<open>Gateways\<close>

definition gw_mode_name :: "u8 \<Rightarrow> string" where
  "gw_mode_name m = (if m = BATADV_GW_MODE_CLIENT then ''client'' else if m = BATADV_GW_MODE_SERVER then ''server'' else ''off'')"

definition batadv_show_gw_mode :: "batadv_priv \<Rightarrow> string" where
  "batadv_show_gw_mode s = gw_mode_name (bp_gw_mode s) @ newline"

text \<open>Only as many characters are compared as the name of the mode has; the last that fits counts.\<close>

definition gw_mode_of :: "string \<Rightarrow> u8 option" where
  "gw_mode_of buff =
     (let m = (if strncmp_eq buff ''off'' 3 then Some BATADV_GW_MODE_OFF else None);
          m = (if strncmp_eq buff ''client'' 6 then Some BATADV_GW_MODE_CLIENT else m)
      in if strncmp_eq buff ''server'' 6 then Some BATADV_GW_MODE_SERVER else m)"

definition batadv_store_gw_mode :: "string \<Rightarrow> batadv_priv \<Rightarrow> int \<times> batadv_priv" where
  "batadv_store_gw_mode buff s =
     (let len = length buff in
      case gw_mode_of (chomp buff) of
        None \<Rightarrow> (- 22, s)
      | Some gw_mode_tmp \<Rightarrow>
          if bp_gw_mode s = gw_mode_tmp then (int len, s)
          else
            (let s = batadv_gw_reselect s;
                 s = batadv_gw_check_client_stop s;
                 s = s\<lparr>bp_gw_mode := gw_mode_tmp\<rparr>;
                 s = batadv_gw_tvlv_container_update s
             in (int len, s)))"

definition show_mbit :: "u32 \<Rightarrow> string" where
  "show_mbit v = dec_digits (unat (v div 10)) @ ''.'' @ dec_digits (unat (v mod 10))"

definition batadv_show_gw_bwidth :: "batadv_priv \<Rightarrow> string" where
  "batadv_show_gw_bwidth s =
     show_mbit (gw_bandwidth_down (bp_gw s)) @ ''/'' @ show_mbit (gw_bandwidth_up (bp_gw s)) @ '' MBit'' @ newline"

definition batadv_store_gw_bwidth :: "(string \<Rightarrow> u64 option) \<Rightarrow> string \<Rightarrow> batadv_priv \<Rightarrow> int \<times> batadv_priv" where
  "batadv_store_gw_bwidth kstrtou64 buff s = batadv_gw_bandwidth_set kstrtou64 (c_str (chomp buff)) (int (length buff)) s"

section \<open>The mark of isolated clients\<close>

definition batadv_show_isolation_mark :: "batadv_priv \<Rightarrow> string" where
  "batadv_show_isolation_mark s = show_hex (bp_isolation_mark s) @ ''/'' @ show_hex (bp_isolation_mark_mask s) @ newline"

text \<open>\<open>kstrtou32\<close> is given the base, 0 for what the prefix says.\<close>

definition batadv_store_isolation_mark :: "(nat \<Rightarrow> string \<Rightarrow> u32 option) \<Rightarrow> string \<Rightarrow> batadv_priv \<Rightarrow> int \<times> batadv_priv" where
  "batadv_store_isolation_mark kstrtou32 buff s =
     (let txt = c_str buff;
          mark_txt = takeWhile (\<lambda>c. c \<noteq> CHR ''/'') txt;
          mask_val = (case dropWhile (\<lambda>c. c \<noteq> CHR ''/'') txt of
                    [] \<Rightarrow> Some 0xFFFFFFFF
                  | _ # mask_txt \<Rightarrow> kstrtou32 16 mask_txt)
      in case mask_val of
           None \<Rightarrow> (- 22, s)
         | Some new_mask \<Rightarrow>
             (case kstrtou32 0 mark_txt of
                None \<Rightarrow> (- 22, s)
              | Some mark \<Rightarrow>
                  (int (length buff), s\<lparr>bp_isolation_mark_mask := new_mask, bp_isolation_mark := mark AND new_mask\<rparr>)))"

section \<open>VLANs\<close>

text \<open>The file of a VLAN belongs to one VLAN, so its number stands for the object; without one the code follows NULL.\<close>

definition batadv_kobj_to_vlan :: "vid \<Rightarrow> batadv_priv \<Rightarrow> batadv_softif_vlan option \<times> batadv_priv" where
  "batadv_kobj_to_vlan vid s =
     (case find (\<lambda>v. sv_vid v = vid \<and> sv_kobj v) (bp_softif_vlan_list s) of
        None \<Rightarrow> (None, s)
      | Some vlan \<Rightarrow> (Some vlan, softif_vlan_mod vid (\<lambda>v. v\<lparr>sv_refcount := sv_refcount v + 1\<rparr>) s))"

definition batadv_store_vlan_ap_isolation :: "vid \<Rightarrow> string \<Rightarrow> batadv_priv \<Rightarrow> int \<times> batadv_priv" where
  "batadv_store_vlan_ap_isolation vid buff s =
     (case batadv_kobj_to_vlan vid s of
        (None, s) \<Rightarrow> (0, s\<lparr>bp_panic := True\<rparr>)
      | (Some vlan, s) \<Rightarrow>
          (let (res, v, _) = batadv_store_bool_attr buff (sv_ap_isolation vlan);
               s = softif_vlan_mod vid (\<lambda>vlan. vlan\<lparr>sv_ap_isolation := v\<rparr>) s
           in (res, batadv_softif_vlan_put vid s)))"

definition batadv_show_vlan_ap_isolation :: "vid \<Rightarrow> batadv_priv \<Rightarrow> string \<times> batadv_priv" where
  "batadv_show_vlan_ap_isolation vid s =
     (case batadv_kobj_to_vlan vid s of
        (None, s) \<Rightarrow> ([], s\<lparr>bp_panic := True\<rparr>)
      | (Some vlan, s) \<Rightarrow> (show_bool (sv_ap_isolation vlan), batadv_softif_vlan_put vid s))"

section \<open>Interfaces\<close>

text \<open>\<open>name\<close> gives the names of the devices; a device that is not known to the module has no interface.\<close>

definition batadv_show_mesh_iface :: "(nat option \<Rightarrow> string) \<Rightarrow> nat \<Rightarrow> batadv_priv \<Rightarrow> string" where
  "batadv_show_mesh_iface name net_dev s =
     (if net_dev \<notin> set (bp_hardif_list s) then []
      else (if hi_if_status (hardif_of s net_dev) = BATADV_IF_NOT_IN_USE then ''none''
            else name (hi_soft_iface (hardif_of s net_dev))) @ newline)"

text \<open>The boolean of the result: is the mesh interface, which lost its last interface, to be destroyed?\<close>

definition batadv_store_mesh_iface ::
  "nat \<Rightarrow> kenv \<Rightarrow> (batadv_priv \<Rightarrow> batadv_priv) \<Rightarrow> enable_env \<Rightarrow> (nat option \<Rightarrow> string) \<Rightarrow> nat \<Rightarrow> string \<Rightarrow> batadv_priv
   \<Rightarrow> (int \<times> bool \<times> batadv_priv) option" where
  "batadv_store_mesh_iface fuel k mla_update en name net_dev buff s =
     (let ret = int (length buff) in
      if net_dev \<notin> set (bp_hardif_list s) then Some (ret, False, s)
      else
        (let buff = chomp buff in
         if length (c_str buff) \<ge> 16 then Some (- 22, False, s)
         else
           (let status_tmp = (if strncmp_eq buff ''none'' 4 then BATADV_IF_NOT_IN_USE else BATADV_IF_I_WANT_YOU);
                hard_iface = hardif_of s net_dev
            in if hi_if_status hard_iface = status_tmp then Some (ret, False, s)
               else if hi_soft_iface hard_iface \<noteq> None \<and> strncmp_eq (name (hi_soft_iface hard_iface)) buff 16
               then Some (ret, False, s)
               else if status_tmp = BATADV_IF_NOT_IN_USE then
                 map_option (\<lambda>(destroy, s). (ret, destroy, s)) (batadv_hardif_disable_interface fuel k mla_update True net_dev s)
               else
                 (case (if hi_if_status hard_iface \<noteq> BATADV_IF_NOT_IN_USE
                        then batadv_hardif_disable_interface fuel k mla_update True net_dev s else Some (False, s)) of
                    None \<Rightarrow> None
                  | Some (destroy, s) \<Rightarrow>
                      map_option (\<lambda>(ret, s). (ret, destroy, s)) (batadv_hardif_enable_interface fuel k mla_update en net_dev s)))))"

definition batadv_show_iface_status :: "nat \<Rightarrow> batadv_priv \<Rightarrow> string" where
  "batadv_show_iface_status net_dev s =
     (if net_dev \<notin> set (bp_hardif_list s) then []
      else (case hi_if_status (hardif_of s net_dev) of
              BATADV_IF_TO_BE_REMOVED \<Rightarrow> ''disabling''
            | BATADV_IF_INACTIVE \<Rightarrow> ''inactive''
            | BATADV_IF_ACTIVE \<Rightarrow> ''active''
            | BATADV_IF_TO_BE_ACTIVATED \<Rightarrow> ''enabling''
            | _ \<Rightarrow> ''not in use'') @ newline)"

text \<open>A text that the parser refuses counts as written.\<close>

definition batadv_store_throughput_override ::
  "(string \<Rightarrow> u64 option) \<Rightarrow> nat \<Rightarrow> string \<Rightarrow> batadv_priv \<Rightarrow> int \<times> batadv_priv" where
  "batadv_store_throughput_override kstrtou64 net_dev buff s =
     (if net_dev \<notin> set (bp_hardif_list s) then (- 22, s)
      else
        (case batadv_parse_throughput kstrtou64 (c_str (chomp buff)) of
           None \<Rightarrow> (int (length buff), s)
         | Some tp_override \<Rightarrow>
             if hi_throughput_override (hardif_of s net_dev) = tp_override then (int (length buff), s)
             else (int (length buff), hardif_mod net_dev (\<lambda>i. i\<lparr>hi_throughput_override := tp_override\<rparr>) s)))"

definition batadv_show_throughput_override :: "nat \<Rightarrow> batadv_priv \<Rightarrow> string" where
  "batadv_show_throughput_override net_dev s = show_mbit (hi_throughput_override (hardif_of s net_dev)) @ '' MBit'' @ newline"

definition batadv_store_elp_interval :: "(string \<Rightarrow> u64 option) \<Rightarrow> nat \<Rightarrow> string \<Rightarrow> batadv_priv \<Rightarrow> int \<times> batadv_priv" where
  "batadv_store_elp_interval kstrtoul net_dev buff s =
     (if net_dev \<notin> set (bp_hardif_list s) then (0, s)
      else store_uint_attr_post kstrtoul buff (2 * BATADV_JITTER) 0x7FFFFFFF (\<lambda>s. s)
             (\<lambda>s. hi_elp_interval (hardif_of s net_dev)) (\<lambda>v. hardif_mod net_dev (\<lambda>i. i\<lparr>hi_elp_interval := v\<rparr>)) s)"

section \<open>Events for user space\<close>

text \<open>The variables of the event, as far as there is memory for them; \<open>uevent\<close> is what the kernel answers.\<close>

definition batadv_throw_uevent ::
  "int \<Rightarrow> batadv_uev_action \<Rightarrow> string \<Rightarrow> batadv_priv \<Rightarrow> (int \<times> string list option) \<times> batadv_priv" where
  "batadv_throw_uevent uevent action data s =
     (let (type_ok, s) = kzalloc s in
      if \<not> type_ok then ((- 12, None), s)
      else
        (let (action_ok, s) = kzalloc s in
         if \<not> action_ok then ((- 12, None), s)
         else
           (let env = [''BATTYPE=gw'', ''BATACTION='' @ (case action of BATADV_UEV_ADD \<Rightarrow> ''add'' | BATADV_UEV_DEL \<Rightarrow> ''del''
                                                          | BATADV_UEV_CHANGE \<Rightarrow> ''change'')]
            in if action = BATADV_UEV_DEL then ((uevent, Some env), s)
               else
                 (let (data_ok, s) = kzalloc s
                  in if \<not> data_ok then ((- 12, None), s) else ((uevent, Some (env @ [''BATDATA='' @ data])), s)))))"

end
