(* ===== verification/Sysfs_Properties.thy ===== *)
theory Sysfs_Properties
  imports Sysfs
begin

text \<open>
  What writing a setting does: switches and numbers keep to their values, and the mode of the gateway client takes
  everything with it that depends on it.
\<close>

section \<open>Switches\<close>

lemma c_str_plain: "CHR 0x00 \<notin> set xs \<Longrightarrow> c_str (xs @ CHR 0x00 # ys) = xs"
  by (auto simp: c_str_def takeWhile_append2 takeWhile_tail)

lemma chomp_line: "CHR 0x00 \<notin> set xs \<Longrightarrow> c_str (chomp (xs @ newline)) = xs"
  by (simp add: chomp_def newline_def c_str_plain)

lemma store_shown_bool: "batadv_store_bool_attr (show_bool v) attr = (int (length (show_bool v)), v, attr \<noteq> v)"
proof -
  have "c_str (chomp (show_bool v)) = (if v then ''enabled'' else ''disabled'')"
    using chomp_line [of "if v then ''enabled'' else ''disabled''"] by (simp add: show_bool_def)
  moreover have "c_str ''1'' = ''1''" "c_str ''0'' = ''0''" "c_str ''enable'' = ''enable''" "c_str ''enabled'' = ''enabled''"
    "c_str ''disable'' = ''disable''" "c_str ''disabled'' = ''disabled''" by (simp_all add: c_str_def)
  ultimately show ?thesis
    by (cases v) (auto simp: batadv_store_bool_attr_def strncmp_eq_def numeral_eq_Suc Let_def)
qed

lemma switch_get_put [simp]: "switch_get a (switch_put a v s) = v"
  by (cases a) simp_all

lemma switch_put_same: "switch_get a s = v \<Longrightarrow> switch_put a v s = s"
  by (cases a) auto

text \<open>A switch shown can be written back. Writing what \<open>batadv_show_switch\<close> prints for a mesh to the same
  switch of another one succeeds and gives it the same value; the action that belongs to the switch, such as new
  announcements or a new MTU, runs exactly when the value changes, and on the changed state.\<close>

theorem switch_written_back:
  "let v = switch_get a t; txt = batadv_show_switch a t
   in batadv_store_switch fuel k mla_update a txt s =
     (if switch_get a s = v then Some (int (length txt), s)
      else map_option (Pair (int (length txt))) (switch_post fuel k mla_update a (switch_put a v s)))"
  by (simp add: batadv_store_switch_def store_bool_attr_post_def batadv_show_switch_def store_shown_bool switch_put_same Let_def)

section \<open>Numbers\<close>

definition number_ok :: "mesh_number \<Rightarrow> batadv_priv \<Rightarrow> bool" where
  "number_ok a s \<longleftrightarrow> fst (number_range a) \<le> number_get a s \<and> number_get a s \<le> snd (number_range a)"

lemma number_get_put: "number_get b (number_put a v s) = (if a = b then v else number_get b s)"
  by (cases a; cases b) simp_all

lemma number_get_post [simp]: "number_get b (number_post a s) = number_get b s"
  by (cases a; cases b) (simp_all add: batadv_post_gw_reselect_def batadv_gw_reselect_def gw_mod_def)

text \<open>The number that a text sets.\<close>

definition number_accepted :: "(string \<Rightarrow> u64 option) \<Rightarrow> mesh_number \<Rightarrow> string \<Rightarrow> u64 option" where
  "number_accepted kstrtoul a buff =
     (case kstrtoul (c_str buff) of
        None \<Rightarrow> None
      | Some v \<Rightarrow> if unat (fst (number_range a)) \<le> unat v \<and> unat v \<le> unat (snd (number_range a)) then Some v else None)"

text \<open>C20: The numbers stay in their ranges. A write to the interval of OGMs, the hop penalty or the class of
  gateways succeeds exactly when the text is a number within the limits, then stores this number, otherwise
  changes none; so the interval is never shorter than the jitter around it and the penalty never greater than a quality.\<close>

theorem numbers_in_range:
  assumes "\<forall>b. number_ok b s"
  shows "let w = number_accepted kstrtoul a buff in
    fst (batadv_store_number kstrtoul a buff s) = (if w = None then - 22 else int (length buff)) \<and>
    number_get b (snd (batadv_store_number kstrtoul a buff s)) =
      (case w of None \<Rightarrow> number_get b s | Some v \<Rightarrow> if a = b then ucast v else number_get b s) \<and>
    number_ok b (snd (batadv_store_number kstrtoul a buff s))"
proof -
  define w where "w = number_accepted kstrtoul a buff"
  note w_def = w_def [unfolded number_accepted_def]
  obtain lo hi where r: "number_range a = (lo, hi)" by fastforce
  have up: "unat (ucast x :: u64) = unat x" for x :: u32
    using unsigned_less [of x, where 'a = nat] by (simp add: unsigned_ucast_eq take_bit_nat_eq_self)
  have le: "v < ucast lo \<longleftrightarrow> \<not> unat lo \<le> unat v" "v > ucast hi \<longleftrightarrow> \<not> unat v \<le> unat hi" for v :: u64
    by (auto simp: word_less_nat_alt up)
  have same: "ucast (scast x :: u64) = x" for x :: u32 by (rule bit_word_eqI) (auto simp: bit_simps)
  have old: "lo \<le> number_get a s" "number_get a s \<le> hi" using assms(1) [rule_format, of a] r by (simp_all add: number_ok_def)
  have st: "batadv_store_uint_attr kstrtoul buff lo hi (number_get a s) =
      (if w = None then - 22 else int (length buff), case w of None \<Rightarrow> number_get a s | Some v \<Rightarrow> ucast v)"
    by (auto simp: batadv_store_uint_attr_def w_def r le same split: option.split)
  have "lo \<le> ucast v \<and> ucast v \<le> hi" if "w = Some v" for v
  proof -
    have "unat lo \<le> unat v" "unat v \<le> unat hi" using that r by (auto simp: w_def split: option.splits if_splits)
    moreover have "unat (ucast v :: u32) = unat v"
      using calculation(2) unsigned_less [of hi, where 'a = nat] by (simp add: unsigned_ucast_eq take_bit_nat_eq_self)
    ultimately show ?thesis by (simp add: word_le_nat_alt)
  qed
  then have new: "number_ok a (number_put a (snd (batadv_store_uint_attr kstrtoul buff lo hi (number_get a s))) s)"
    using old by (simp add: st number_ok_def r number_get_put split: option.split)
  let ?x = "case w of None \<Rightarrow> number_get a s | Some v \<Rightarrow> ucast v" and ?u = "snd (batadv_store_number kstrtoul a buff s)"
  have ret: "fst (batadv_store_number kstrtoul a buff s) = (if w = None then - 22 else int (length buff))"
    and u: "number_get c ?u = (if a = c then ?x else number_get c s)" for c
    by (simp_all add: batadv_store_number_def store_uint_attr_post_def r st number_get_put Let_def)
  have "number_ok b ?u"
  proof (cases "a = b")
    case True
    then show ?thesis using new st u [of b] by (simp add: number_ok_def number_get_put)
  next
    case False
    then show ?thesis using assms(1) u [of b] by (simp add: number_ok_def)
  qed
  then show ?thesis
    using ret u [of b] unfolding w_def [folded number_accepted_def, symmetric] Let_def by (simp split: option.split)
qed

theorem numbers_in_range_witness:
  "let s' = snd (batadv_store_number (\<lambda>_. Some 300) Attr_Hop_Penalty ''300'' (tvlv_example [] []))
   in fst (batadv_store_number (\<lambda>_. Some 300) Attr_Hop_Penalty ''300'' (tvlv_example [] [])) = - 22 \<and> bp_hop_penalty s' = 30"
proof -
  have "number_ok b (tvlv_example [] [])" for b by (cases b) (simp_all add: number_ok_def tvlv_example_def)
  then have "\<forall>b. number_ok b (tvlv_example [] [])" ..
  from numbers_in_range [OF this, of "\<lambda>_. Some 300" Attr_Hop_Penalty "''300''" Attr_Hop_Penalty]
  show ?thesis by (simp add: number_accepted_def tvlv_example_def Let_def)
qed

text \<open>
  A number that is refused still has its consequences: an invalid class of gateways, and one that was set before,
  asks for a new election.
\<close>

lemma rejected_class_reselects:
  "kstrtoul (c_str buff) = None \<Longrightarrow> batadv_store_number kstrtoul Attr_Gw_Sel_Class buff s = (- 22, batadv_gw_reselect s)"
  by (simp add: batadv_store_number_def store_uint_attr_post_def batadv_store_uint_attr_def batadv_post_gw_reselect_def)

section \<open>The mode of the gateway client\<close>

lemma gw_update_keeps:
  "bp_gw_mode (batadv_gw_tvlv_container_update s) = bp_gw_mode s" "bp_gw (batadv_gw_tvlv_container_update s) = bp_gw s"
  "bp_calls (batadv_gw_tvlv_container_update s) = bp_calls s"
  by (simp_all add: batadv_gw_tvlv_container_update_def batadv_tvlv_container_register_def batadv_tvlv_container_unregister_def
      batadv_tvlv_container_remove_def kzalloc_eq Let_def split: option.split)

lemma gw_mode_values: "gw_mode_of buff = Some m \<Longrightarrow> m = BATADV_GW_MODE_OFF \<or> m = BATADV_GW_MODE_CLIENT \<or> m = BATADV_GW_MODE_SERVER"
  by (auto simp: gw_mode_of_def Let_def split: if_splits)

text \<open>C19: A change of the gateway mode is complete. When \<open>batadv_store_gw_mode\<close> is given the name of another mode and no
  allocation fails, the mode changes, the flag is set that asks for a new election (which takes place at the
  next one, in the mode of a client), a node that was a client gives up its gateway with one event for user
  space if it had one, and the announcement of the own bandwidth is among the TVLV containers exactly in the
  mode of a server.\<close>

theorem gw_mode_switched:
  assumes "gw_mode_of (chomp buff) = Some m" "m \<noteq> bp_gw_mode s" "tvlv_table s" "bp_allocs s = []"
  shows "let s' = snd (batadv_store_gw_mode buff s) in
    fst (batadv_store_gw_mode buff s) = int (length buff) \<and> bp_gw_mode s' = m \<and> gw_reselect (bp_gw s') \<and>
    (bp_gw_mode s = BATADV_GW_MODE_CLIENT \<longrightarrow> batadv_gw_get_selected_gw_node s' = None \<and>
       bp_calls s' = bp_calls s @ (if batadv_gw_get_selected_gw_node s = None then [] else [Throw_Uevent BATADV_UEV_DEL None])) \<and>
    tvlv_map s' (BATADV_TVLV_GW, 1) = (if m = BATADV_GW_MODE_SERVER
      then Some (gateway_bytes (gw_bandwidth_down (bp_gw s), gw_bandwidth_up (bp_gw s))) else None)"
proof -
  define t where "t = (batadv_gw_check_client_stop (batadv_gw_reselect s))\<lparr>bp_gw_mode := m\<rparr>"
  have st: "batadv_store_gw_mode buff s = (int (length buff), batadv_gw_tvlv_container_update t)"
    using assms(1,2) by (simp add: batadv_store_gw_mode_def t_def)
  have t: "bp_gw_mode t = m" "gw_reselect (bp_gw t)" "bp_allocs t = []" "tvlv_table t"
    "gw_bandwidth_down (bp_gw t) = gw_bandwidth_down (bp_gw s)" "gw_bandwidth_up (bp_gw t) = gw_bandwidth_up (bp_gw s)"
    using assms(3,4) by (simp_all add: t_def batadv_gw_check_client_stop_def batadv_gw_reselect_def batadv_gw_select_def gw_mod_def
        call_def tvlv_table_def)
  have stop: "gw_curr (bp_gw t) = None \<and> bp_calls t = bp_calls s @
      (if batadv_gw_get_selected_gw_node s = None then [] else [Throw_Uevent BATADV_UEV_DEL None])"
    if "bp_gw_mode s = BATADV_GW_MODE_CLIENT"
    using that by (auto simp: t_def batadv_gw_check_client_stop_def batadv_gw_reselect_def batadv_gw_select_def gw_mod_def
        call_def batadv_gw_get_selected_gw_node_def)
  have "tvlv_map (batadv_gw_tvlv_container_update t) (BATADV_TVLV_GW, 1) = (if m = BATADV_GW_MODE_SERVER
      then Some (gateway_bytes (gw_bandwidth_down (bp_gw s), gw_bandwidth_up (bp_gw s))) else None)"
  proof (cases "m = BATADV_GW_MODE_SERVER")
    case True
    have "fst (kzalloc t)" using t(3) by (simp add: kzalloc_def)
    then show ?thesis
      using True register_map(2) [OF t(4), of "Some (gateway_bytes (gw_bandwidth_down (bp_gw t), gw_bandwidth_up (bp_gw t)))" 8]
      by (simp add: batadv_gw_tvlv_container_update_def t gateway_bytes_def)
  next
    case False
    then show ?thesis
      using gw_mode_values [OF assms(1)] unregister_map(2) [OF t(4)]
      by (auto simp: batadv_gw_tvlv_container_update_def t)
  qed
  then show ?thesis
    using stop t by (simp add: st gw_update_keeps batadv_gw_get_selected_gw_node_def Let_def)
qed

theorem gw_mode_switched_witness:
  "bp_gw_mode (snd (batadv_store_gw_mode ''server'' (tvlv_example [] []))) = BATADV_GW_MODE_SERVER \<and>
   tvlv_map (snd (batadv_store_gw_mode ''server'' (tvlv_example [] []))) (BATADV_TVLV_GW, 1) = Some [0, 0, 0, 100, 0, 0, 0, 20]"
proof -
  have "gw_mode_of (chomp ''server'') = Some BATADV_GW_MODE_SERVER"
    by (simp add: gw_mode_of_def chomp_def strncmp_eq_def c_str_def numeral_eq_Suc)
  moreover have "tvlv_table (tvlv_example [] [])" by (simp add: tvlv_table_def tvlv_example_def)
  moreover have "gateway_bytes (100, 20) = [0, 0, 0, 100, 0, 0, 0, 20]" by code_simp
  ultimately show ?thesis
    using gw_mode_switched [of "''server''" BATADV_GW_MODE_SERVER "tvlv_example [] []"]
    by (simp add: tvlv_example_def Let_def)
qed

end
