(* ===== verification/Spec2Isabelle.thy ===== *)
theory Spec2Isabelle
  imports Fragmentation Bla_Properties Bitarray Iv_Routes Tt_Errors Coding_Properties Hard_Interface
    Payload Mcast_Properties Services Lifecycle Ping Sysfs_Properties
begin

text \<open>
  A model of the B.A.T.M.A.N. advanced mesh protocol of the kernel module under
  \<open>src/net/batman-adv\<close>, with the theorems that make its components correct.

  \<^bold>\<open>The program.\<close> Every node floods originator messages (OGMs). From the OGMs it hears, it
  learns how good its links are, which other nodes exist, and over which neighbour each is
  best reached; B.A.T.M.A.N. V measures the links with packets of its own (ELP). TVLV containers
  ride on the OGMs and carry the data of the other components: the clients behind each node
  (translation table), offers of gateways, who takes part in the distributed ARP table, in
  network coding, in multicast. Payload frames of a bridged LAN are sent to the originator behind
  which the destination lives, in fragments where a link is too narrow, xored with others where
  network coding finds a chance; when several nodes are connected to the same LAN, bridge loop
  avoidance decides which of them carries a client.

  \<^bold>\<open>Conventions.\<close> Machine integers are words of their width, \<open>int\<close> where the code uses
  an \<open>int\<close> that stays small; addresses are 48-bit words, frames lists of bytes. Structures are
  records with the members of the code, prefixed by two letters. Objects that the code shares by
  pointer live in stores inside the state \<open>batadv_priv\<close>, and a pointer is an index. Functions that
  change state return the new state; errors are return values as in the code. Whatever the code asks
  of the kernel is an argument or a field of the state: the clock and the hash functions are
  in the record \<open>kenv\<close>, the outcomes of allocations in \<open>bp_allocs\<close>, random numbers in
  \<open>bp_rands\<close>. What is given to the kernel is recorded in \<open>bp_calls\<close>: frames to transmit
  (\<open>Dev_Queue_Xmit\<close>) and to deliver (\<open>Netif_Rx\<close>), events for user space. A memory
  access outside its object, or through NULL, sets \<open>bp_panic\<close>. Locks are not modelled: each function
  is one step, as the locks of the code make its critical sections.

  B.A.T.M.A.N. IV comes before the components that ride on it. Where its operations call one of those
  (\<open>Tt_Global_Del_Orig\<close>, \<open>Tt_Local_Commit_Changes\<close>, \<open>Tvlv_Ogm_Receive\<close>, \<open>Gw_Node_Delete\<close>,
  \<open>Gw_Election\<close>), the call is recorded in \<open>bp_calls\<close>, in order and with its arguments; the called
  operations are \<open>batadv_tt_global_del_orig\<close>, \<open>batadv_tt_local_commit_changes\<close>,
  \<open>batadv_tvlv_ogm_receive\<close>, \<open>batadv_gw_node_delete\<close> and \<open>batadv_gw_election\<close>. All other
  components, B.A.T.M.A.N. V included, call each other directly.

  \<^bold>\<open>The theories: foundations.\<close>

  \<^item> \<open>Bat_Prelude\<close>: the words and bytes, jiffies and timeouts (\<open>main.h\<close>) that all share.

  \<^item> \<open>Bitarray\<close> (\<open>bitarray.c\<close>, \<open>bitarray.h\<close>, \<open>batadv_seq_before\<close> of \<open>main.h\<close>): the window of
    sequence numbers. It implements a set of received numbers; the locale \<open>seqno_window\<close> is
    what the OGM code needs of it.

  \<^item> \<open>Hash_Table\<close> (\<open>hash.c\<close>, \<open>hash.h\<close>): the generic hash table; the locale \<open>hash_key\<close> shows
    that a table with one entry for each key is a finite map.

  \<^item> \<open>Fragmentation\<close> (\<open>fragmentation.c\<close>): sending, collecting, merging and forwarding
    fragments. The loop over fragments has 16 rounds of fuel, as the number of a fragment
    has four bits and the loop stops at 15.

  \<^item> \<open>Bla\<close>, \<open>Bla_Invariant\<close>, \<open>Bla_Properties\<close> (\<open>bridge_loop_avoidance.c\<close>): claims, gateways
    and broadcasts seen twice; the invariant of a transition system of all operations; the
    resynchronisation of a gateway whose checksum disagrees.

  \<^item> \<open>Mesh_State\<close> (\<open>types.h\<close>), \<open>Originator\<close> (\<open>originator.c\<close>, the objects), \<open>Router\<close>
    (\<open>routing.c\<close>, \<open>originator.c\<close>, routes and purging): the state all of the rest shares.

  \<^item> \<open>Tvlv\<close> (\<open>main.c\<close>): containers, handlers and the parser; what is appended to an OGM is
    what the handlers of the receiver are called with.

  \<^bold>\<open>The theories: B.A.T.M.A.N. IV.\<close>

  \<^item> \<open>Iv_Metric\<close>, \<open>Iv_Aggregation\<close>, \<open>Iv_Ogm\<close> (\<open>bat_iv_ogm.c\<close>): the link metric, the
    queue of OGMs with their wire format, and the processing of received OGMs. The parser
    of aggregated OGMs is measured by 513 minus the offset, as it stops behind 512 bytes.

  \<^item> \<open>Send\<close> (\<open>send.c\<close>): scheduling, the queues, and the work items that empty them.

  \<^item> \<open>Iv_Contract\<close>, \<open>Iv_Invariant\<close>, \<open>Iv_System\<close>, \<open>Iv_Properties\<close>, \<open>Iv_Routes\<close>: what all
    operations of B.A.T.M.A.N. IV preserve. The locales of \<open>Iv_Contract\<close> lift a predicate
    that the elementary updates keep to one that receiving, scheduling, sending and purging
    keep; \<open>Iv_Invariant\<close> interprets them for the counters, the table of originators and the
    queue; \<open>Iv_System\<close> is the transition system, in which interfaces join and leave (\<open>iv_joins\<close>,
    \<open>iv_leaves\<close>; \<open>Lifecycle\<close> shows that the handlers of \<open>hard-interface.c\<close> do just that), waiting packets are
    thrown away, aggregation is switched, and other components do what does not concern the algorithm; the
    last two state the properties.

  \<^bold>\<open>The theories: the translation table.\<close>

  \<^item> \<open>Tt_Local\<close>, \<open>Tt_Global\<close>, \<open>Tt_Sync\<close> (\<open>translation-table.c\<close>, the VLANs of \<open>soft-interface.c\<close>):
    the clients behind this node, those behind others, and the exchange of changes and full tables.
    The loop that shrinks a table to the MTU has no bound in the code and runs on fuel; \<open>None\<close> is
    a loop that is still running.

  \<^item> \<open>Tt_Facts\<close>, \<open>Tt_Invariant\<close>, \<open>Tt_Contract\<close>, \<open>Tt_System\<close>: elementary facts, the invariant of
    the local table, the locale \<open>tt_preserved\<close> for what messages of others change, and the
    transition system of clients, VLANs with and without a tag, commits, messages, purging and the shrinking
    to a new MTU.

  \<^item> \<open>Tt_Transfer\<close>, \<open>Tt_Properties\<close>, \<open>Tt_Errors\<close>: a full table on its way to another node, the
    properties, and what goes wrong at the edges.

  \<^bold>\<open>The theories: payload and services.\<close>

  \<^item> \<open>Packets\<close> (\<open>packet.h\<close>), \<open>Nc_Node\<close>, \<open>Coding\<close>, \<open>Coding_Properties\<close> (\<open>network-coding.c\<close>): headers
    as bytes; who hears whom; coding and decoding of frames, and the round trip of the two.

  \<^item> \<open>Unicast\<close> (\<open>send.c\<close>, \<open>routing.c\<close>): the choice of the next hop with bonding, and the sending of a
    payload to an originator or a client.

  \<^item> \<open>Gateway\<close> (\<open>gateway_client.c\<close>, \<open>gateway_common.c\<close>), \<open>Dat\<close> (\<open>distributed-arp-table.c\<close>), \<open>Mcast\<close>
    (\<open>multicast.c\<close>): the services on top. \<open>Services\<close> and \<open>Mcast_Properties\<close> show which gateway and which
    keepers of an ARP entry are chosen, and that a multicast packet goes to one node only if no other
    is to have it.

  \<^item> \<open>Softif\<close> (\<open>soft-interface.c\<close>), \<open>Bat_V\<close> (\<open>bat_v.c\<close>, \<open>bat_v_elp.c\<close>, \<open>bat_v_ogm.c\<close>), \<open>Receive\<close>
    (\<open>routing.c\<close>, the dispatch and set-up of \<open>main.c\<close>), \<open>Hard_Interface\<close> (\<open>hard-interface.c\<close>): frames into
    and out of the mesh, the second routing algorithm, all packet handlers, and the interfaces.
    A merged packet is received again, so \<open>batadv_batman_skb_recv\<close> runs on fuel; more fuel than
    \<open>recv_measure\<close>, the bytes of the frame and of all fragments held, is enough. The search through
    stacked devices (\<open>batadv_is_on_batman_iface\<close>) runs on fuel, too, as the kernel does not bound it.

  \<^item> \<open>Receive_Properties\<close>, \<open>Delivery\<close>, \<open>Payload\<close>: reception ends; a frame crosses a path of nodes, each
    a state of its own; payload leaves the routes alone, and a broadcast is accepted once.

  \<^item> \<open>Lifecycle\<close>: a mesh whose set-up fails, and interfaces that go down.

  \<^item> \<open>Newest\<close>, \<open>Debug_Log\<close> (\<open>debugfs.c\<close>), \<open>Icmp_Socket\<close> (\<open>icmp_socket.c\<close>), \<open>Ping\<close>, \<open>Sysfs\<close>, \<open>Sysfs_Properties\<close>
    (\<open>sysfs.c\<close>): what users see and set. The ring of the log is a queue of the newest 8192 characters, the
    queue of a socket one of the newest 100 messages; a ping travels through the mesh and back to its socket;
    settings keep to their ranges.

  \<^bold>\<open>What is shown.\<close> Round trips: frames cross the mesh, fragments are reassembled, coded frames
  are decoded, full tables, OGMs and TVLV containers arrive as they were sent. Refinements: bitmap and
  set, hash tables and maps, the list of broadcasts seen. Invariants of every reachable state:
  checksums and claims, counters and what they count, references of VLANs, places in queues, lists of
  multicast routers. Bounds and exactness of the integer arithmetic of the metric. Routes change only to
  better neighbours, duplicates are recognised, flooding ends, reception returns, payload cannot change
  routes, the best gateway and the closest nodes are chosen. Error paths: what is freed, lost or overrun when
  an allocation fails, a message is too long, a setting changes or an interface goes down.

  \<^bold>\<open>The transition systems.\<close> Three components have a step relation and a notion of reachable states.
  \<open>bla_reach\<close> has all operations of bridge loop avoidance. \<open>iv_reachable k N d s\<close> has those of
  B.A.T.M.A.N. IV; \<open>N\<close> is the size of the queue and \<open>d\<close> the number of packets of others that were thrown away
  with their places. Its steps ask for what the code does not ensure, and what happens otherwise are findings: memory
  for an own OGM and its containers and for the counters when interfaces come and go, new counters that
  agree with themselves, containers that fit into 16 bits, and room in the waiting packets when
  aggregation is switched on. \<open>tt_reachable k calm s\<close> has the operations of the translation table
  while the mesh is up. The global table is well typed in all of its states; the counters of the
  local table are right if \<open>calm\<close> holds, that is, if the table is shrunk to a new MTU only while no client
  waits to be announced: the code counts out a client that it never counted in (\<open>shrink_miscounts\<close>).
  Between two copies of a broadcast \<open>bcast_step\<close> allows any other broadcast and whatever leaves the window
  of the originator alone.

  \<^bold>\<open>Not modelled.\<close> Reference counts and RCU (when memory is reclaimed), locking, statistics and log
  messages, the room that is reserved around frames, the registration with the network stack
  (net_device, ethtool, rtnetlink),
  the creation of the files of debugfs and sysfs, and the tables that debugfs prints. What the kernel makes of numbers
  in texts (\<open>kstrtoul\<close> and its kind) and of the formats of messages are arguments. As a consequence of the first
  point a neighbour of an interface (\<open>batadv_hardif_neigh_node\<close>) is not unlinked when its last user is purged, what
  lies in front of the counters of an interface without a number is not accessed, and the table of sockets, which
  all meshes of a machine share, is passed to the operations on sockets beside the state of one mesh. All allocations
  of one kind within a step of bridge loop avoidance succeed or fail together, and \<open>vlan_insert_tag\<close> succeeds there;
  \<open>batadv_recv_unicast_packet\<close> reads its header where the packet is, while the code keeps a pointer that may be stale.
\<close>

end
